(* ===== verification/Go_Prelude.thy ===== *)
theory Go_Prelude
  imports Main "HOL-Library.AList" "HOL-Library.Sublist"
begin

text \<open>
  Shared vocabulary of the development: the parts of Go and of its standard library that the
  modelled packages use.

  \<^item> A Go string is a byte string: \<^typ>\<open>string\<close>, one \<^typ>\<open>char\<close> per byte. The functions of
    package \<open>strings\<close> that look at white space decode UTF-8; \<open>space_width\<close> spells out the byte
    sequences of the code points for which \<open>unicode.IsSpace\<close> holds.
  \<^item> A Go map is an association list with distinct keys (\<open>go_map\<close>). The list order stands for the
    order in which a \<open>range\<close> loop meets the keys, which Go leaves open: a theorem about every
    association list is a theorem about every iteration order.
  \<^item> A time is an integer number of nanoseconds since the Unix epoch, and so is a duration;
    \<open>unix_seconds\<close> is \<open>Time.Unix\<close>.
  \<^item> A fallible function returns \<^typ>\<open>'e + 'a\<close>, \<^term>\<open>Inl\<close> for the error.
\<close>

named_theorems go_string_simps \<open>evaluation of the string functions\<close>
named_theorems go_map_simps \<open>lookup after an update, a deletion or a filter of a Go map\<close>

section \<open>Types\<close>

type_synonym ('k, 'v) go_map = "('k \<times> 'v) list"
type_synonym go_time = int
type_synonym go_duration = int

abbreviation go_second :: go_duration where
  "go_second \<equiv> 1000000000"

abbreviation go_minute :: go_duration where
  "go_minute \<equiv> 60000000000"

definition unix_seconds :: "go_time \<Rightarrow> int" where
  "unix_seconds t = t div go_second"

definition unix_time :: "int \<Rightarrow> go_time" where
  "unix_time s = s * go_second"

section \<open>Strings\<close>

text \<open>\<open>strings.HasPrefix\<close> is \<^const>\<open>prefix\<close> with its arguments exchanged.\<close>

definition has_prefix :: "string \<Rightarrow> string \<Rightarrow> bool" where
  "has_prefix s p \<longleftrightarrow> prefix p s"

definition trim_prefix :: "string \<Rightarrow> string \<Rightarrow> string" where
  "trim_prefix s p = (if has_prefix s p then drop (length p) s else s)"

fun contains_substr :: "string \<Rightarrow> string \<Rightarrow> bool" where
  "contains_substr [] p \<longleftrightarrow> p = []"
| "contains_substr (c # s) p \<longleftrightarrow> prefix p (c # s) \<or> contains_substr s p"

text \<open>\<open>strings.ContainsAny\<close> with ASCII characters to look for.\<close>

definition contains_any :: "string \<Rightarrow> string \<Rightarrow> bool" where
  "contains_any s cs \<longleftrightarrow> list_ex (\<lambda>c. c \<in> set cs) s"

text \<open>\<open>strings.ReplaceAll\<close> where the text to replace is one byte.\<close>

definition replace_char :: "char \<Rightarrow> string \<Rightarrow> string \<Rightarrow> string" where
  "replace_char q r s = concat (map (\<lambda>c. if c = q then r else [c]) s)"

fun go_join :: "string list \<Rightarrow> string \<Rightarrow> string" where
  "go_join [] sep = []"
| "go_join [x] sep = x"
| "go_join (x # y # ys) sep = x @ sep @ go_join (y # ys) sep"

text \<open>The first component of \<open>strings.Cut(s, " ")\<close>: what precedes the first space, or all of s.\<close>

definition cut_at_space :: "string \<Rightarrow> string" where
  "cut_at_space s = takeWhile (\<lambda>c. c \<noteq> CHR '' '') s"

text \<open>
  \<open>path.Base\<close>: the last element of a slash-separated path, trailing slashes removed; a dot for
  the empty path and a slash for a path of slashes only.
\<close>

definition path_base :: "string \<Rightarrow> string" where
  "path_base p =
     (if p = [] then ''.''
      else let r = dropWhile (\<lambda>c. c = CHR ''/'') (rev p);
               b = rev (takeWhile (\<lambda>c. c \<noteq> CHR ''/'') r)
           in if b = [] then ''/'' else b)"

text \<open>
  The width in bytes of the white-space code point a string starts with, 0 when it starts with
  something else: tab, line feed, vertical tab, form feed, carriage return, space, and the UTF-8
  forms of U+0085, U+00A0, U+1680, U+2000 to U+200A, U+2028, U+2029, U+202F, U+205F, U+3000. Each
  form starts with a byte that is never a continuation byte, so decoding from the left always
  stops at it and a match of the bytes is a match of the code point.
\<close>

fun space_width :: "string \<Rightarrow> nat" where
  "space_width [] = 0"
| "space_width (a # s) =
     (let n = (of_char a :: nat) in
      if n \<in> {9, 10, 11, 12, 13, 32} then 1
      else case s of
        [] \<Rightarrow> 0
      | b # t \<Rightarrow>
          (let m = (of_char b :: nat) in
           if n = 194 \<and> (m = 133 \<or> m = 160) then 2
           else case t of
             [] \<Rightarrow> 0
           | c # _ \<Rightarrow>
               (let k = (of_char c :: nat) in
                if (n = 225 \<and> m = 154 \<and> k = 128)
                 \<or> (n = 226 \<and> m = 128 \<and> (128 \<le> k \<and> k \<le> 138 \<or> k = 168 \<or> k = 169 \<or> k = 175))
                 \<or> (n = 226 \<and> m = 129 \<and> k = 159)
                 \<or> (n = 227 \<and> m = 128 \<and> k = 128)
                then 3 else 0)))"

lemma space_width_le: "space_width s \<le> length s"
  by (induction s rule: space_width.induct) (auto simp: Let_def split: list.splits)

text \<open>
  \<open>strings.Fields\<close>: the maximal runs of bytes outside white space. The accumulator is the field
  being read, reversed.
\<close>

function fields_from :: "string \<Rightarrow> string \<Rightarrow> string list" where
  "fields_from acc s =
     (case s of
        [] \<Rightarrow> (if acc = [] then [] else [rev acc])
      | c # t \<Rightarrow>
          (if space_width s = 0 then fields_from (c # acc) t
           else (if acc = [] then [] else [rev acc]) @ fields_from [] (drop (space_width s) s)))"
  by pat_completeness auto
termination
  by (relation "measure (\<lambda>(acc, s). length s)") auto

declare fields_from.simps [simp del]

definition go_fields :: "string \<Rightarrow> string list" where
  "go_fields s = fields_from [] s"

text \<open>
  \<open>strings.TrimSpace\<close>: white space is dropped from the left, then from the right, one code point at
  a time.
\<close>

function trim_left :: "string \<Rightarrow> string" where
  "trim_left s =
     (if s = [] \<or> space_width s = 0 then s else trim_left (drop (space_width s) s))"
  by pat_completeness auto
termination
  by (relation "measure length") auto

declare trim_left.simps [simp del]

definition space_suffix_width :: "string \<Rightarrow> nat" where
  "space_suffix_width s =
     (case List.find (\<lambda>k. k \<le> length s \<and> space_width (drop (length s - k) s) = k) [1, 2, 3] of
        None \<Rightarrow> 0
      | Some k \<Rightarrow> k)"

function trim_right :: "string \<Rightarrow> string" where
  "trim_right s =
     (if s = [] \<or> space_suffix_width s = 0 then s
      else trim_right (take (length s - space_suffix_width s) s))"
  by pat_completeness auto
termination
  by (relation "measure length") auto

declare trim_right.simps [simp del]

definition trim_space :: "string \<Rightarrow> string" where
  "trim_space s = trim_right (trim_left s)"

definition only_space :: "string \<Rightarrow> bool" where
  "only_space s \<longleftrightarrow> trim_space s = []"

text \<open>\<open>strings.Split(s, sep)\<close> for a separator of one byte: always at least one part.\<close>

fun split_on :: "char \<Rightarrow> string \<Rightarrow> string list" where
  "split_on sep [] = [[]]"
| "split_on sep (c # s) =
     (if c = sep then [] # split_on sep s
      else (case split_on sep s of [] \<Rightarrow> [[c]] | w # ws \<Rightarrow> (c # w) # ws))"

lemma split_on_append: "sep \<notin> set u \<Longrightarrow> split_on sep (u @ sep # v) = u # split_on sep v"
  by (induction u) auto

lemma split_on_single: "sep \<notin> set u \<Longrightarrow> split_on sep u = [u]"
  by (induction u) auto

text \<open>Decimal text, \<open>strconv.FormatInt(n, 10)\<close>.\<close>

definition digit_char :: "nat \<Rightarrow> char" where
  "digit_char d = char_of (48 + d)"

fun nat_decimal :: "nat \<Rightarrow> string" where
  "nat_decimal n =
     (if n < 10 then [digit_char n] else nat_decimal (n div 10) @ [digit_char (n mod 10)])"

declare nat_decimal.simps [simp del]

definition int_decimal :: "int \<Rightarrow> string" where
  "int_decimal i = (if i < 0 then CHR ''-'' # nat_decimal (nat (- i)) else nat_decimal (nat i))"

definition is_digit_char :: "char \<Rightarrow> bool" where
  "is_digit_char c \<longleftrightarrow> 48 \<le> (of_char c :: nat) \<and> (of_char c :: nat) \<le> 57"

definition is_alpha_char :: "char \<Rightarrow> bool" where
  "is_alpha_char c \<longleftrightarrow>
     (65 \<le> (of_char c :: nat) \<and> (of_char c :: nat) \<le> 90)
   \<or> (97 \<le> (of_char c :: nat) \<and> (of_char c :: nat) \<le> 122)"

lemmas char_class_defs = is_digit_char_def is_alpha_char_def

lemma contains_substr_iff [go_string_simps]:
  "contains_substr s p \<longleftrightarrow> (\<exists>u v. s = u @ p @ v)"
proof (induction s)
  case Nil
  then show ?case by auto
next
  case (Cons c s)
  show ?case
  proof
    assume "contains_substr (c # s) p"
    then consider "prefix p (c # s)" | "contains_substr s p" by auto
    then show "\<exists>u v. c # s = u @ p @ v"
    proof cases
      case 1
      then obtain v where "c # s = [] @ p @ v" by (auto simp: prefix_def)
      then show ?thesis by blast
    next
      case 2
      then obtain u v where "c # s = (c # u) @ p @ v" using Cons.IH by auto
      then show ?thesis by blast
    qed
  next
    assume "\<exists>u v. c # s = u @ p @ v"
    then obtain u v where uv: "c # s = u @ p @ v" by blast
    show "contains_substr (c # s) p"
    proof (cases u)
      case Nil
      with uv have "prefix p (c # s)" by (simp add: prefix_def)
      then show ?thesis by simp
    next
      case (Cons d w)
      with uv have "s = w @ p @ v" by simp
      then show ?thesis using Cons.IH by auto
    qed
  qed
qed

lemma contains_any_iff [go_string_simps]: "contains_any s cs \<longleftrightarrow> set s \<inter> set cs \<noteq> {}"
  by (auto simp: contains_any_def list_ex_iff)

lemma replace_char_Nil [simp]: "replace_char q r [] = []"
  by (simp add: replace_char_def)

lemma replace_char_Cons [simp]:
  "replace_char q r (c # s) = (if c = q then r else [c]) @ replace_char q r s"
  by (simp add: replace_char_def)

lemma fields_from_Nil: "fields_from acc [] = (if acc = [] then [] else [rev acc])"
  by (simp add: fields_from.simps)

lemma fields_from_char:
  "space_width (c # t) = 0 \<Longrightarrow> fields_from acc (c # t) = fields_from (c # acc) t"
  by (subst fields_from.simps) simp

lemma fields_from_space:
  "space_width (c # t) \<noteq> 0 \<Longrightarrow>
   fields_from acc (c # t) =
     (if acc = [] then [] else [rev acc]) @ fields_from [] (drop (space_width (c # t)) (c # t))"
  by (subst fields_from.simps) simp

lemmas fields_from_cases = fields_from_Nil fields_from_char fields_from_space

lemma fields_from_nonempty: "f \<in> set (fields_from acc s) \<Longrightarrow> f \<noteq> []"
proof (induction acc s rule: fields_from.induct)
  case (1 acc s)
  show ?case
  proof (cases s)
    case Nil
    then show ?thesis using "1.prems" by (auto simp: fields_from_Nil split: if_splits)
  next
    case (Cons c t)
    show ?thesis
    proof (cases "space_width s = 0")
      case True
      then show ?thesis using "1.prems" "1.IH"(1) Cons by (simp add: fields_from_char)
    next
      case False
      then have "f \<in> set (if acc = [] then [] else [rev acc])
                   \<or> f \<in> set (fields_from [] (drop (space_width s) s))"
        using "1.prems" Cons by (simp add: fields_from_space)
      then show ?thesis using "1.IH"(2) False Cons by (auto split: if_splits)
    qed
  qed
qed

lemma go_fields_nonempty: "f \<in> set (go_fields s) \<Longrightarrow> f \<noteq> []"
  by (simp add: go_fields_def fields_from_nonempty)

lemma trim_left_id: "space_width s = 0 \<Longrightarrow> trim_left s = s"
  by (simp add: trim_left.simps)

lemma trim_right_id: "space_suffix_width s = 0 \<Longrightarrow> trim_right s = s"
  by (simp add: trim_right.simps)

lemma only_space_Nil [simp]: "only_space []"
  by (simp add: only_space_def trim_space_def trim_left.simps trim_right.simps)

text \<open>A string of bytes below 128 without ASCII white space is left alone by \<open>strings.TrimSpace\<close>.\<close>

definition plain_ascii :: "string \<Rightarrow> bool" where
  "plain_ascii s \<longleftrightarrow> (\<forall>c \<in> set s. 32 < (of_char c :: nat) \<and> (of_char c :: nat) < 128)"

lemma space_width_plain: "32 < (of_char c :: nat) \<Longrightarrow> (of_char c :: nat) < 128 \<Longrightarrow> space_width (c # t) = 0"
  by (auto simp: Let_def split: list.splits)

lemma space_width_blank: "space_width (CHR '' '' # t) = 1"
  by (simp add: Let_def)

lemma plain_ascii_no_space: "plain_ascii s \<Longrightarrow> space_width s = 0"
  by (cases s) (auto simp: plain_ascii_def Let_def split: list.splits)

lemma plain_ascii_drop: "plain_ascii s \<Longrightarrow> plain_ascii (drop k s)"
  by (auto simp: plain_ascii_def dest: in_set_dropD)

lemma plain_ascii_trim: "plain_ascii s \<Longrightarrow> trim_space s = s"
proof -
  assume a: "plain_ascii s"
  have "space_suffix_width s = 0"
    by (auto simp: space_suffix_width_def plain_ascii_no_space [OF plain_ascii_drop [OF a]] split: if_splits)
  then show ?thesis
    by (simp add: trim_space_def trim_left_id [OF plain_ascii_no_space [OF a]] trim_right_id)
qed

section \<open>Decimal numerals\<close>

definition decimal_value :: "string \<Rightarrow> nat" where
  "decimal_value s = fold (\<lambda>c n. 10 * n + ((of_char c :: nat) - 48)) s 0"

lemma of_char_digit: "d < 10 \<Longrightarrow> (of_char (digit_char d) :: nat) = 48 + d"
  by (simp add: digit_char_def)

lemma decimal_value_nat_decimal: "decimal_value (nat_decimal n) = n"
proof (induction n rule: nat_decimal.induct)
  case (1 n)
  show ?case
  proof (cases "n < 10")
    case True
    then show ?thesis
      by (subst nat_decimal.simps) (simp add: decimal_value_def of_char_digit)
  next
    case False
    with 1 have "decimal_value (nat_decimal (n div 10)) = n div 10" by simp
    with False show ?thesis
      by (subst nat_decimal.simps) (simp add: decimal_value_def of_char_digit)
  qed
qed

lemma nat_decimal_inject: "nat_decimal m = nat_decimal n \<longleftrightarrow> m = n"
  by (metis decimal_value_nat_decimal)

lemma nat_decimal_digits: "c \<in> set (nat_decimal n) \<Longrightarrow> is_digit_char c"
proof (induction n rule: nat_decimal.induct)
  case (1 n)
  have d: "is_digit_char (digit_char k)" if "k < 10" for k
    using that by (simp add: is_digit_char_def of_char_digit)
  show ?case
  proof (cases "n < 10")
    case True
    with 1(2) show ?thesis by (subst (asm) nat_decimal.simps) (simp add: d)
  next
    case False
    with 1(2) have "c \<in> set (nat_decimal (n div 10)) \<or> c = digit_char (n mod 10)"
      by (subst (asm) nat_decimal.simps) auto
    then show ?thesis using 1(1) False d by auto
  qed
qed

lemma nat_decimal_no_minus: "nat_decimal n \<noteq> CHR ''-'' # s"
proof
  assume "nat_decimal n = CHR ''-'' # s"
  then have "is_digit_char CHR ''-''" using nat_decimal_digits [of "CHR ''-''" n] by simp
  then show False by (simp add: is_digit_char_def)
qed

lemma int_decimal_inject: "int_decimal a = int_decimal b \<longleftrightarrow> a = b"
  using nat_decimal_no_minus nat_decimal_no_minus [THEN not_sym]
  by (auto simp: int_decimal_def nat_decimal_inject split: if_splits)

section \<open>Maps\<close>

text \<open>
  \<^const>\<open>map_of\<close> is the lookup, \<^const>\<open>AList.update\<close> the assignment \<open>m[k] = v\<close>, \<^const>\<open>AList.delete\<close>
  the built-in \<open>delete\<close>, \<^const>\<open>length\<close> the built-in \<open>len\<close>; \<open>go_map_inv\<close> says that no key occurs
  twice.
\<close>

definition go_map_inv :: "('k, 'v) go_map \<Rightarrow> bool" where
  "go_map_inv m \<longleftrightarrow> distinct (map fst m)"

definition map_has :: "('k, 'v) go_map \<Rightarrow> 'k \<Rightarrow> bool" where
  "map_has m k \<longleftrightarrow> map_of m k \<noteq> None"

text \<open>A loop over a map that deletes the entries that fail a test.\<close>

definition map_keep :: "('k \<Rightarrow> 'v \<Rightarrow> bool) \<Rightarrow> ('k, 'v) go_map \<Rightarrow> ('k, 'v) go_map" where
  "map_keep P m = filter (\<lambda>(k, v). P k v) m"

lemma go_map_inv_Nil [simp]: "go_map_inv []"
  by (simp add: go_map_inv_def)

lemma go_map_inv_update [simp, intro]: "go_map_inv m \<Longrightarrow> go_map_inv (AList.update k v m)"
  by (simp add: go_map_inv_def distinct_update)

lemma go_map_inv_delete [simp, intro]: "go_map_inv m \<Longrightarrow> go_map_inv (AList.delete k m)"
  by (simp add: go_map_inv_def distinct_delete)

lemma go_map_inv_keep [simp, intro]: "go_map_inv m \<Longrightarrow> go_map_inv (map_keep P m)"
  by (simp add: go_map_inv_def map_keep_def distinct_map_filter)

lemma map_of_update [go_map_simps]:
  "map_of (AList.update k v m) k' = (if k' = k then Some v else map_of m k')"
  by (simp add: update_conv')

lemma map_of_delete [go_map_simps]:
  "map_of (AList.delete k m) k' = (if k' = k then None else map_of m k')"
  by (simp add: delete_conv')

lemma map_keep_Nil [simp]: "map_keep P [] = []"
  by (simp add: map_keep_def)

lemma map_keep_Cons [simp]:
  "map_keep P ((k, v) # m) = (if P k v then (k, v) # map_keep P m else map_keep P m)"
  by (simp add: map_keep_def)

lemma set_map_keep: "(k, v) \<in> set (map_keep P m) \<longleftrightarrow> (k, v) \<in> set m \<and> P k v"
  by (auto simp: map_keep_def)

lemma length_map_keep [simp]: "length (map_keep P m) \<le> length m"
  by (simp add: map_keep_def)

lemma map_of_in_set: "map_of m k = Some v \<Longrightarrow> (k, v) \<in> set m"
  by (rule map_of_SomeD)

lemma map_of_iff_in_set: "go_map_inv m \<Longrightarrow> map_of m k = Some v \<longleftrightarrow> (k, v) \<in> set m"
  by (auto simp: go_map_inv_def dest: map_of_SomeD)

lemma map_of_keep [go_map_simps]:
  assumes "go_map_inv m"
  shows "map_of (map_keep P m) k =
    (case map_of m k of None \<Rightarrow> None | Some v \<Rightarrow> if P k v then Some v else None)"
proof -
  have iff: "map_of (map_keep P m) k = Some v \<longleftrightarrow> map_of m k = Some v \<and> P k v" for v
    by (metis assms go_map_inv_keep map_of_iff_in_set set_map_keep)
  show ?thesis
  proof (cases "map_of m k")
    case None
    then have "map_of (map_keep P m) k = None"
      by (cases "map_of (map_keep P m) k") (auto simp: iff)
    with None show ?thesis by simp
  next
    case (Some w)
    then have "map_of (map_keep P m) k = (if P k w then Some w else None)"
      by (metis iff not_None_eq option.inject)
    with Some show ?thesis by simp
  qed
qed

lemma map_has_update [simp]: "map_has (AList.update k v m) k' \<longleftrightarrow> k' = k \<or> map_has m k'"
  by (simp add: map_has_def map_of_update)

lemma map_has_delete [simp]: "map_has (AList.delete k m) k' \<longleftrightarrow> k' \<noteq> k \<and> map_has m k'"
  by (simp add: map_has_def map_of_delete)

lemma map_has_Nil [simp]: "\<not> map_has [] k"
  by (simp add: map_has_def)

lemma map_has_Cons [simp]: "map_has ((k, v) # m) k' \<longleftrightarrow> k' = k \<or> map_has m k'"
  by (simp add: map_has_def)

lemma length_delete_has:
  assumes "go_map_inv m" and "map_has m k"
  shows "Suc (length (AList.delete k m)) = length m"
  using assms
proof (induction m)
  case Nil
  then show ?case by (simp add: map_has_def)
next
  case (Cons p m)
  obtain a b where p: "p = (a, b)" by (cases p)
  show ?case
  proof (cases "a = k")
    case True
    with Cons.prems p have "k \<notin> fst ` set m" by (auto simp: go_map_inv_def)
    then have "AList.delete k m = m" by (auto simp: delete_id)
    with True p show ?thesis by (simp add: AList.delete_eq)
  next
    case False
    with Cons.prems p have "go_map_inv m" "map_has m k"
      by (auto simp: go_map_inv_def map_has_def)
    then have "Suc (length (AList.delete k m)) = length m" by (rule Cons.IH)
    with False p show ?thesis by (simp add: AList.delete_eq)
  qed
qed

lemma length_update_le: "length (AList.update k v m) \<le> Suc (length m)"
  by (induction m) auto

lemma length_update_new: "\<not> map_has m k \<Longrightarrow> length (AList.update k v m) = Suc (length m)"
  by (induction m) (auto simp: map_has_def split: if_splits)

lemma length_update_old: "map_has m k \<Longrightarrow> length (AList.update k v m) = length m"
  by (induction m) (auto simp: map_has_def split: if_splits)

section \<open>Results\<close>

lemma sum_bind_cases:
  "(case r of Inl e \<Rightarrow> Inl e | Inr a \<Rightarrow> f a) = Inr b \<longleftrightarrow> (\<exists>a. r = Inr a \<and> f a = Inr b)"
  by (cases r) auto

end
