(* ===== verification/Sealed.thy ===== *)
theory Sealed
  imports Go_Prelude "HOL-Library.Word"
begin

text \<open>
  The per-command authorization envelope of \<open>internal/sealed/envelope.go\<close>: its signed bytes, its
  issue (\<open>Sign\<close>), its verification against pinned keys (\<open>Verify\<close>, \<open>VerifyAny\<close>) and the parsing of
  pinned key files.

  Ed25519, base64 and the JSON codec of the wire form are the fields of \<open>sealed_lib\<close>; what the
  theorems need of them is \<open>signing_ok\<close> and \<open>wire_ok\<close>. The random nonce is an argument: \<^term>\<open>None\<close>
  when the random source fails. Bytes are characters; a length is written as a 64-bit word.
\<close>

section \<open>Data\<close>

record envelope =
  ev_nonce :: string
  ev_host :: string
  ev_command :: string
  ev_expiry :: int
  ev_sig :: string

record sealed_lib =
  ed_public :: "string \<Rightarrow> string"
  ed_from_seed :: "string \<Rightarrow> string"
  ed_sign :: "string \<Rightarrow> string \<Rightarrow> string"
  ed_verify :: "string \<Rightarrow> string \<Rightarrow> string \<Rightarrow> bool"
  env_marshal :: "envelope \<Rightarrow> string"
  env_unmarshal :: "string \<Rightarrow> envelope option"
  b64url_encode :: "string \<Rightarrow> string"
  b64url_decode :: "string \<Rightarrow> string option"
  b64_encode :: "string \<Rightarrow> string"
  b64_decode :: "string \<Rightarrow> string option"

datatype sealed_error =
    BadHostName string
  | BadPrivateKey
  | EmptyHost
  | EmptyCommand
  | BadTTL
  | NonceSource
  | NoPinnedKey
  | BadPublicKey
  | NoExpectedHost
  | MalformedEnvelope
  | SignatureMismatch
  | WrongHost string string
  | NoNonce
  | NoCommand
  | EnvelopeExpired int
  | ExpiryTooFar
  | KeyNotBase64
  | KeyWrongSize nat
  | KeyFileLine nat sealed_error
  | KeyFileEmpty
  | SeedTooShort nat

abbreviation ShimCommand :: string where "ShimCommand \<equiv> ''infrabroker-shim''"
abbreviation private_key_size :: nat where "private_key_size \<equiv> 64"
abbreviation public_key_size :: nat where "public_key_size \<equiv> 32"
abbreviation seed_size :: nat where "seed_size \<equiv> 32"

definition SealedDefaultTTL :: go_duration where "SealedDefaultTTL = 30 * go_second"
definition SealedMaxTTL :: go_duration where "SealedMaxTTL = 5 * go_minute"

definition domain_prefix :: string where
  "domain_prefix = ''infrabroker-sealed-exec-v1'' @ [char_of (0 :: nat)]"

section \<open>Host names and the forced command\<close>

definition host_name_char :: "char \<Rightarrow> bool" where
  "host_name_char c \<longleftrightarrow> is_alpha_char c \<or> is_digit_char c \<or> c \<in> {CHR ''.'', CHR ''_'', CHR ''-''}"

fun valid_host_name :: "string \<Rightarrow> bool" where
  "valid_host_name [] \<longleftrightarrow> False"
| "valid_host_name (c # s) \<longleftrightarrow>
     (is_alpha_char c \<or> is_digit_char c) \<and> list_all host_name_char s \<and> length s \<le> 63"

definition force_command :: "string \<Rightarrow> sealed_error + string" where
  "force_command host =
     (if \<not> valid_host_name host then Inl (BadHostName host) else Inr (ShimCommand @ '' '' @ host))"

section \<open>The signed bytes\<close>

text \<open>\<open>binary.BigEndian.PutUint64\<close>: the eight bytes of a 64-bit word, most significant first.\<close>

fun be_bytes :: "nat \<Rightarrow> nat \<Rightarrow> string" where
  "be_bytes 0 n = []"
| "be_bytes (Suc k) n = be_bytes k (n div 256) @ [char_of (n mod 256)]"

definition put_uint64 :: "64 word \<Rightarrow> string" where
  "put_uint64 w = be_bytes 8 (unat w)"

definition write_field :: "string \<Rightarrow> string" where
  "write_field s = put_uint64 (of_nat (length s)) @ s"

definition signed_bytes :: "envelope \<Rightarrow> string" where
  "signed_bytes e = domain_prefix @ write_field (ev_nonce e) @ write_field (ev_host e)
     @ write_field (ev_command e) @ write_field (int_decimal (ev_expiry e))"

section \<open>Issue and verification\<close>

definition hex_digit :: "nat \<Rightarrow> char" where
  "hex_digit d = (if d < 10 then char_of (48 + d) else char_of (87 + d))"

definition hex_encode :: "string \<Rightarrow> string" where
  "hex_encode bs = concat (map (\<lambda>c. [hex_digit (of_char c div 16), hex_digit (of_char c mod 16)]) bs)"

text \<open>The envelope \<open>Sign\<close> fills in before it signs it.\<close>

definition mint_envelope :: "string \<Rightarrow> string \<Rightarrow> string \<Rightarrow> go_duration \<Rightarrow> go_time \<Rightarrow> envelope" where
  "mint_envelope nonce host command ttl now =
     \<lparr>ev_nonce = hex_encode nonce, ev_host = host, ev_command = command,
      ev_expiry = unix_seconds (now + ttl), ev_sig = []\<rparr>"

definition sealed_sign ::
  "sealed_lib \<Rightarrow> string \<Rightarrow> string option \<Rightarrow> string \<Rightarrow> string \<Rightarrow> go_duration \<Rightarrow> go_time \<Rightarrow> sealed_error + string"
  where
  "sealed_sign L key rnd host command ttl now =
     (if length key \<noteq> private_key_size then Inl BadPrivateKey
      else if host = [] then Inl EmptyHost
      else if command = [] then Inl EmptyCommand
      else if ttl \<le> 0 \<or> SealedMaxTTL < ttl then Inl BadTTL
      else case rnd of
        None \<Rightarrow> Inl NonceSource
      | Some nonce \<Rightarrow>
          (let e = mint_envelope nonce host command ttl now;
               e = e\<lparr>ev_sig := ed_sign L key (signed_bytes e)\<rparr>
           in Inr (b64url_encode L (env_marshal L e))))"

definition verify_any ::
  "sealed_lib \<Rightarrow> string list \<Rightarrow> string \<Rightarrow> string \<Rightarrow> go_time \<Rightarrow> sealed_error + envelope" where
  "verify_any L pubs wire expected now =
     (if pubs = [] then Inl NoPinnedKey
      else if list_ex (\<lambda>pub. length pub \<noteq> public_key_size) pubs then Inl BadPublicKey
      else if expected = [] then Inl NoExpectedHost
      else case b64url_decode L (trim_space wire) of
        None \<Rightarrow> Inl MalformedEnvelope
      | Some js \<Rightarrow> (case env_unmarshal L js of
          None \<Rightarrow> Inl MalformedEnvelope
        | Some e \<Rightarrow>
            (if \<not> list_ex (\<lambda>pub. ed_verify L pub (signed_bytes e) (ev_sig e)) pubs then Inl SignatureMismatch
             else if ev_host e \<noteq> expected then Inl (WrongHost (ev_host e) expected)
             else if ev_nonce e = [] then Inl NoNonce
             else if ev_command e = [] then Inl NoCommand
             else if ev_expiry e < unix_seconds now then Inl (EnvelopeExpired (ev_expiry e))
             else if ev_expiry e - unix_seconds now > SealedMaxTTL div go_second then Inl ExpiryTooFar
             else Inr e)))"

definition sealed_verify ::
  "sealed_lib \<Rightarrow> string \<Rightarrow> string \<Rightarrow> string \<Rightarrow> go_time \<Rightarrow> sealed_error + envelope" where
  "sealed_verify L pub wire expected now = verify_any L [pub] wire expected now"

section \<open>Keys\<close>

definition public_key_string :: "sealed_lib \<Rightarrow> string \<Rightarrow> string" where
  "public_key_string L pub = b64_encode L pub"

definition parse_public_key :: "sealed_lib \<Rightarrow> string \<Rightarrow> sealed_error + string" where
  "parse_public_key L s =
     (case b64_decode L (trim_space s) of
        None \<Rightarrow> Inl KeyNotBase64
      | Some raw \<Rightarrow> (if length raw \<noteq> public_key_size then Inl (KeyWrongSize (length raw)) else Inr raw))"

text \<open>A line of a key file that holds no key: blank, or a comment.\<close>

definition key_line_skipped :: "string \<Rightarrow> bool" where
  "key_line_skipped line \<longleftrightarrow> trim_space line = [] \<or> has_prefix (trim_space line) ''#''"

fun parse_key_lines :: "sealed_lib \<Rightarrow> nat \<Rightarrow> string list \<Rightarrow> sealed_error + string list" where
  "parse_key_lines L i [] = Inr []"
| "parse_key_lines L i (line # rest) =
     (if key_line_skipped line then parse_key_lines L (i + 1) rest
      else case parse_public_key L (trim_space line) of
        Inl e \<Rightarrow> Inl (KeyFileLine (i + 1) e)
      | Inr key \<Rightarrow> (case parse_key_lines L (i + 1) rest of
          Inl e \<Rightarrow> Inl e
        | Inr keys \<Rightarrow> Inr (key # keys)))"

definition parse_public_keys :: "sealed_lib \<Rightarrow> string \<Rightarrow> sealed_error + string list" where
  "parse_public_keys L s =
     (case parse_key_lines L 0 (split_on (char_of (10 :: nat)) s) of
        Inl e \<Rightarrow> Inl e
      | Inr keys \<Rightarrow> (if keys = [] then Inl KeyFileEmpty else Inr keys))"

definition key_from_seed :: "sealed_lib \<Rightarrow> string \<Rightarrow> sealed_error + string" where
  "key_from_seed L seed =
     (if length seed < seed_size then Inl (SeedTooShort (length seed))
      else Inr (ed_from_seed L (take seed_size seed)))"

section \<open>What is expected of the libraries\<close>

text \<open>
  Signatures made with a private key verify under its public key; a public key has 32 bytes.
\<close>

definition signing_ok :: "sealed_lib \<Rightarrow> bool" where
  "signing_ok L \<longleftrightarrow>
     (\<forall>key msg. length key = private_key_size \<longrightarrow>
        length (ed_public L key) = public_key_size
        \<and> ed_verify L (ed_public L key) msg (ed_sign L key msg))"

text \<open>
  \<open>encoding/json\<close> writes a Go string that is not valid UTF-8 with replacement characters, so that
  only envelopes of valid strings come back unchanged. The RFC 3629 table, as \<open>utf8.ValidString\<close>
  uses it.
\<close>

definition in_range :: "nat \<Rightarrow> nat \<Rightarrow> char \<Rightarrow> bool" where
  "in_range lo hi c \<longleftrightarrow> lo \<le> (of_char c :: nat) \<and> (of_char c :: nat) \<le> hi"

fun valid_utf8 :: "string \<Rightarrow> bool" where
  "valid_utf8 [] \<longleftrightarrow> True"
| "valid_utf8 (a # s) \<longleftrightarrow>
     (if in_range 0 127 a then valid_utf8 s
      else case s of
        [] \<Rightarrow> False
      | b # s2 \<Rightarrow>
          (if in_range 194 223 a then in_range 128 191 b \<and> valid_utf8 s2
           else case s2 of
             [] \<Rightarrow> False
           | c # s3 \<Rightarrow>
               (if in_range 224 239 a then
                  (in_range (if a = char_of (224 :: nat) then 160 else 128)
                            (if a = char_of (237 :: nat) then 159 else 191) b)
                  \<and> in_range 128 191 c \<and> valid_utf8 s3
                else case s3 of
                  [] \<Rightarrow> False
                | d # s4 \<Rightarrow>
                    in_range 240 244 a
                    \<and> in_range (if a = char_of (240 :: nat) then 144 else 128)
                               (if a = char_of (244 :: nat) then 143 else 191) b
                    \<and> in_range 128 191 c \<and> in_range 128 191 d \<and> valid_utf8 s4)))"

definition wire_ok :: "sealed_lib \<Rightarrow> bool" where
  "wire_ok L \<longleftrightarrow>
     (\<forall>bs. b64url_decode L (b64url_encode L bs) = Some bs \<and> plain_ascii (b64url_encode L bs))
   \<and> (\<forall>e. valid_utf8 (ev_nonce e) \<and> valid_utf8 (ev_host e) \<and> valid_utf8 (ev_command e) \<longrightarrow>
        env_unmarshal L (env_marshal L e) = Some e)"

section \<open>The encoding is injective\<close>

fun be_value :: "string \<Rightarrow> nat" where
  "be_value s = fold (\<lambda>c n. 256 * n + (of_char c :: nat)) s 0"

lemma length_be_bytes [simp]: "length (be_bytes k n) = k"
  by (induction k arbitrary: n) auto

lemma be_value_be_bytes: "be_value (be_bytes k n) = n mod 256 ^ k"
proof (induction k arbitrary: n)
  case (Suc k)
  have "256 * (n div 256 mod 256 ^ k) + n mod 256 = n mod (256 * 256 ^ k)"
    by (simp add: mod_mult2_eq)
  with Suc [of "n div 256"] show ?case by simp
qed simp

lemma length_put_uint64 [simp]: "length (put_uint64 w) = 8"
  by (simp add: put_uint64_def)

lemma put_uint64_inject: "put_uint64 v = put_uint64 w \<longleftrightarrow> v = w"
proof
  assume "put_uint64 v = put_uint64 w"
  then have "be_value (be_bytes 8 (unat v)) = be_value (be_bytes 8 (unat w))"
    by (simp add: put_uint64_def)
  moreover have "unat u mod 256 ^ 8 = unat u" for u :: "64 word"
    using unsigned_less [of u, where 'a = nat] by simp
  ultimately have "unat v = unat w" by (simp only: be_value_be_bytes)
  then show "v = w" by (rule unsigned_word_eqI)
qed simp

text \<open>Every Go string is shorter than \<open>2\<^sup>6\<^sup>3\<close> bytes.\<close>

definition go_string :: "string \<Rightarrow> bool" where
  "go_string s \<longleftrightarrow> length s < 2 ^ 63"

lemma write_field_inject:
  assumes "go_string s" and "go_string t" and eq: "write_field s @ u = write_field t @ v"
  shows "s = t \<and> u = v"
proof -
  have "put_uint64 (of_nat (length s)) = put_uint64 (of_nat (length t))" and rest: "s @ u = t @ v"
    using eq by (auto simp: write_field_def append_eq_append_conv)
  then have "(of_nat (length s) :: 64 word) = of_nat (length t)" by (simp add: put_uint64_inject)
  then have "length s mod 2 ^ 64 = length t mod 2 ^ 64"
    by (auto dest!: arg_cong [where f = unat] simp: unsigned_of_nat take_bit_eq_mod)
  then have "length s = length t" using assms(1,2) by (simp add: go_string_def)
  with rest show ?thesis by (simp add: append_eq_append_conv)
qed

definition go_envelope :: "envelope \<Rightarrow> bool" where
  "go_envelope e \<longleftrightarrow> go_string (ev_nonce e) \<and> go_string (ev_host e) \<and> go_string (ev_command e)
     \<and> go_string (int_decimal (ev_expiry e))"

lemma signed_bytes_inject:
  assumes "go_envelope e" and "go_envelope f" and "signed_bytes e = signed_bytes f"
  shows "ev_nonce e = ev_nonce f \<and> ev_host e = ev_host f \<and> ev_command e = ev_command f
    \<and> ev_expiry e = ev_expiry f"
proof -
  have eq: "write_field (ev_nonce e) @ write_field (ev_host e) @ write_field (ev_command e)
      @ write_field (int_decimal (ev_expiry e)) @ []
    = write_field (ev_nonce f) @ write_field (ev_host f) @ write_field (ev_command f)
      @ write_field (int_decimal (ev_expiry f)) @ []"
    using assms(3) by (simp add: signed_bytes_def)
  have g: "go_string (ev_nonce e)" "go_string (ev_nonce f)" "go_string (ev_host e)"
    "go_string (ev_host f)" "go_string (ev_command e)" "go_string (ev_command f)"
    "go_string (int_decimal (ev_expiry e))" "go_string (int_decimal (ev_expiry f))"
    using assms(1,2) by (auto simp: go_envelope_def)
  from write_field_inject [OF g(1,2) eq] have n: "ev_nonce e = ev_nonce f" and
    eq2: "write_field (ev_host e) @ write_field (ev_command e) @ write_field (int_decimal (ev_expiry e)) @ []
        = write_field (ev_host f) @ write_field (ev_command f) @ write_field (int_decimal (ev_expiry f)) @ []"
    by auto
  from write_field_inject [OF g(3,4) eq2] have h: "ev_host e = ev_host f" and
    eq3: "write_field (ev_command e) @ write_field (int_decimal (ev_expiry e)) @ []
        = write_field (ev_command f) @ write_field (int_decimal (ev_expiry f)) @ []"
    by auto
  from write_field_inject [OF g(5,6) eq3] have c: "ev_command e = ev_command f" and
    eq4: "write_field (int_decimal (ev_expiry e)) @ [] = write_field (int_decimal (ev_expiry f)) @ []"
    by auto
  from write_field_inject [OF g(7,8) eq4] have "ev_expiry e = ev_expiry f"
    by (simp add: int_decimal_inject)
  with n h c show ?thesis by simp
qed

section \<open>Behaviour of issue and verification\<close>

lemma sealed_sign_Inr:
  assumes "sealed_sign L key rnd host command ttl now = Inr wire"
  obtains nonce where "rnd = Some nonce" and "length key = private_key_size" and "host \<noteq> []"
    and "command \<noteq> []" and "0 < ttl" and "ttl \<le> SealedMaxTTL"
    and "wire = b64url_encode L (env_marshal L ((mint_envelope nonce host command ttl now)
           \<lparr>ev_sig := ed_sign L key (signed_bytes (mint_envelope nonce host command ttl now))\<rparr>))"
  using assms that by (auto simp: sealed_sign_def Let_def split: if_splits option.splits)

lemma verify_any_Inr_iff:
  "verify_any L pubs wire host now = Inr e \<longleftrightarrow>
     pubs \<noteq> [] \<and> (\<forall>pub \<in> set pubs. length pub = public_key_size) \<and> host \<noteq> []
   \<and> (\<exists>js. b64url_decode L (trim_space wire) = Some js \<and> env_unmarshal L js = Some e)
   \<and> (\<exists>pub \<in> set pubs. ed_verify L pub (signed_bytes e) (ev_sig e))
   \<and> ev_host e = host \<and> ev_nonce e \<noteq> [] \<and> ev_command e \<noteq> []
   \<and> unix_seconds now \<le> ev_expiry e \<and> ev_expiry e \<le> unix_seconds now + 300"
  by (auto simp: verify_any_def list_ex_iff SealedMaxTTL_def
      split: if_splits option.splits)

lemma ascii_valid_utf8: "\<forall>c \<in> set s. (of_char c :: nat) < 128 \<Longrightarrow> valid_utf8 s"
  by (induction s) (auto simp: in_range_def)

lemma hex_digit_ascii: "d < 16 \<Longrightarrow> (of_char (hex_digit d) :: nat) < 128 \<and> 32 < (of_char (hex_digit d) :: nat)"
  by (simp add: hex_digit_def)

lemma hex_encode_plain: "plain_ascii (hex_encode bs)"
proof -
  have "of_char (hex_digit (of_char b div 16)) < (128 :: nat) \<and> 32 < (of_char (hex_digit (of_char b div 16)) :: nat)
      \<and> of_char (hex_digit (of_char b mod 16)) < (128 :: nat) \<and> 32 < (of_char (hex_digit (of_char b mod 16)) :: nat)" for b
    using hex_digit_ascii [of "of_char b div 16"] hex_digit_ascii [of "of_char b mod 16"] nat_of_char_less_256 [of b]
    by (auto simp: less_mult_imp_div_less)
  then show ?thesis by (auto simp: plain_ascii_def hex_encode_def)
qed

lemma hex_encode_utf8: "valid_utf8 (hex_encode bs)"
  using hex_encode_plain [of bs] by (intro ascii_valid_utf8) (auto simp: plain_ascii_def)

lemma length_hex_encode: "length (hex_encode bs) = 2 * length bs"
  by (induction bs) (auto simp: hex_encode_def)

lemma seconds_window:
  assumes "now \<le> t" and "t \<le> now + ttl" and "ttl \<le> SealedMaxTTL"
  shows "unix_seconds t \<le> unix_seconds (now + ttl)" and "unix_seconds (now + ttl) \<le> unix_seconds t + 300"
proof -
  show "unix_seconds t \<le> unix_seconds (now + ttl)"
    using assms by (simp add: unix_seconds_def zdiv_mono1)
  have "unix_seconds (now + ttl) \<le> unix_seconds (t + SealedMaxTTL)"
    using assms by (simp add: unix_seconds_def zdiv_mono1)
  also have "\<dots> = unix_seconds t + 300"
    by (simp add: unix_seconds_def SealedMaxTTL_def)
  finally show "unix_seconds (now + ttl) \<le> unix_seconds t + 300" .
qed

section \<open>A library instance\<close>

text \<open>
  A concrete instance of the libraries that meets \<open>signing_ok\<close> and \<open>wire_ok\<close>, on which the theorems
  are applied: the text form is hexadecimal, an envelope is written as its fields in hexadecimal
  with commas between them, and a signature is the public key followed by the message.
\<close>

definition hex_value :: "char \<Rightarrow> nat" where
  "hex_value c = (if is_digit_char c then of_char c - 48 else of_char c - 87)"

fun hex_decode :: "string \<Rightarrow> string" where
  "hex_decode (a # b # s) = char_of (16 * hex_value a + hex_value b) # hex_decode s"
| "hex_decode _ = []"

definition parse_decimal :: "string \<Rightarrow> int" where
  "parse_decimal s =
     (if s \<noteq> [] \<and> hd s = CHR ''-'' then - int (decimal_value (tl s)) else int (decimal_value s))"

definition example_marshal :: "envelope \<Rightarrow> string" where
  "example_marshal e = hex_encode (ev_nonce e) @ CHR '','' # hex_encode (ev_host e) @ CHR '','' #
     hex_encode (ev_command e) @ CHR '','' # int_decimal (ev_expiry e) @ CHR '','' # hex_encode (ev_sig e)"

definition example_unmarshal :: "string \<Rightarrow> envelope option" where
  "example_unmarshal s =
     (case split_on CHR '','' s of
        [n, h, c, x, g] \<Rightarrow> Some \<lparr>ev_nonce = hex_decode n, ev_host = hex_decode h,
          ev_command = hex_decode c, ev_expiry = parse_decimal x, ev_sig = hex_decode g\<rparr>
      | _ \<Rightarrow> None)"

definition example_lib :: sealed_lib where
  "example_lib =
     \<lparr>ed_public = take 32, ed_from_seed = (\<lambda>seed. seed @ seed),
      ed_sign = (\<lambda>key msg. take 32 key @ msg), ed_verify = (\<lambda>pub msg sig. sig = pub @ msg),
      env_marshal = example_marshal, env_unmarshal = example_unmarshal,
      b64url_encode = hex_encode, b64url_decode = (\<lambda>s. Some (hex_decode s)),
      b64_encode = hex_encode, b64_decode = (\<lambda>s. Some (hex_decode s))\<rparr>"

lemma hex_value_digit: "d < 16 \<Longrightarrow> hex_value (hex_digit d) = d"
  by (auto simp: hex_value_def hex_digit_def is_digit_char_def)

lemma hex_decode_encode [simp]: "hex_decode (hex_encode bs) = bs"
proof (induction bs)
  case (Cons b bs)
  have "hex_value (hex_digit (of_char b div 16)) = of_char b div 16"
    and "hex_value (hex_digit (of_char b mod 16)) = of_char b mod 16"
    using nat_of_char_less_256 [of b] by (auto simp: hex_value_digit less_mult_imp_div_less)
  moreover have "16 * ((of_char b :: nat) div 16) + of_char b mod 16 = of_char b" by simp
  ultimately show ?case using Cons by (simp add: hex_encode_def)
qed (simp add: hex_encode_def)

lemma parse_decimal_int_decimal: "parse_decimal (int_decimal i) = i"
proof (cases "i < 0")
  case True
  then show ?thesis by (simp add: parse_decimal_def int_decimal_def decimal_value_nat_decimal)
next
  case False
  have "nat_decimal n \<noteq> [] \<and> hd (nat_decimal n) \<noteq> CHR ''-'' \<or> nat_decimal n = []" for n
    using nat_decimal_no_minus [of n "tl (nat_decimal n)"] by (cases "nat_decimal n") auto
  with False show ?thesis
    by (auto simp: parse_decimal_def int_decimal_def decimal_value_nat_decimal)
qed

lemma comma_notin_hex: "CHR '','' \<notin> set (hex_encode bs)"
proof -
  have "hex_digit d \<noteq> CHR '',''" if "d < 16" for d
  proof
    assume "hex_digit d = CHR '',''"
    then have "(of_char (hex_digit d) :: nat) = 44" by simp
    with that show False by (simp add: hex_digit_def split: if_splits)
  qed
  moreover have "of_char b div 16 < (16 :: nat)" for b
    using nat_of_char_less_256 [of b] by (simp add: less_mult_imp_div_less)
  ultimately show ?thesis by (fastforce simp: hex_encode_def dest: sym)
qed

lemma comma_notin_decimal: "CHR '','' \<notin> set (int_decimal i)"
  by (auto simp: int_decimal_def dest!: nat_decimal_digits simp: is_digit_char_def)

lemma example_unmarshal_marshal: "example_unmarshal (example_marshal e) = Some e"
  by (simp add: example_unmarshal_def example_marshal_def split_on_append split_on_single
      comma_notin_hex comma_notin_decimal parse_decimal_int_decimal)

lemma example_signing_ok: "signing_ok example_lib"
  by (simp add: signing_ok_def example_lib_def)

lemma example_wire_ok: "wire_ok example_lib"
  by (simp add: wire_ok_def example_lib_def example_unmarshal_marshal hex_encode_plain)

section \<open>Properties\<close>

definition sealed_envelope_of :: "sealed_lib \<Rightarrow> string \<Rightarrow> string \<Rightarrow> string \<Rightarrow> string \<Rightarrow> go_duration \<Rightarrow> go_time \<Rightarrow> envelope" where
  "sealed_envelope_of L key nonce host command ttl now =
     (mint_envelope nonce host command ttl now)
       \<lparr>ev_sig := ed_sign L key (signed_bytes (mint_envelope nonce host command ttl now))\<rparr>"

lemma sealed_envelope_of_simps [simp]:
  "ev_nonce (sealed_envelope_of L key nonce host command ttl now) = hex_encode nonce"
  "ev_host (sealed_envelope_of L key nonce host command ttl now) = host"
  "ev_command (sealed_envelope_of L key nonce host command ttl now) = command"
  "ev_expiry (sealed_envelope_of L key nonce host command ttl now) = unix_seconds (now + ttl)"
  by (simp_all add: sealed_envelope_of_def mint_envelope_def)

lemma verify_signed:
  assumes lib: "signing_ok L" "wire_ok L"
    and signed: "sealed_sign L key (Some rnd) host command ttl now = Inr wire" and "rnd \<noteq> []"
    and utf8: "valid_utf8 host" "valid_utf8 command"
    and pinned: "ed_public L key \<in> set pubs" "\<forall>pub \<in> set pubs. length pub = public_key_size"
    and time: "now \<le> t" "t \<le> now + ttl"
  shows "verify_any L pubs wire host t = Inr (sealed_envelope_of L key rnd host command ttl now)"
proof -
  let ?m = "mint_envelope rnd host command ttl now"
  let ?e = "sealed_envelope_of L key rnd host command ttl now"
  from signed have k: "length key = private_key_size" and ne: "host \<noteq> []" "command \<noteq> []"
    and ttl: "ttl \<le> SealedMaxTTL" and wire: "wire = b64url_encode L (env_marshal L ?e)"
    by (auto elim!: sealed_sign_Inr simp: sealed_envelope_of_def)
  have bytes: "signed_bytes ?e = signed_bytes ?m" by (simp add: signed_bytes_def sealed_envelope_of_def)
  have dec: "b64url_decode L (trim_space wire) = Some (env_marshal L ?e)"
    using lib(2) by (simp add: wire_ok_def wire plain_ascii_trim)
  have "env_unmarshal L (env_marshal L ?e) = Some ?e"
    using lib(2) utf8 hex_encode_utf8 [of rnd] by (simp add: wire_ok_def)
  moreover have "ed_verify L (ed_public L key) (signed_bytes ?e) (ev_sig ?e)"
    using lib(1) k by (simp add: signing_ok_def bytes) (simp add: sealed_envelope_of_def)
  moreover have "hex_encode rnd \<noteq> []"
    using \<open>rnd \<noteq> []\<close> length_hex_encode [of rnd] by auto
  moreover note seconds_window [OF time ttl]
  ultimately show ?thesis
    using pinned ne dec by (auto simp: verify_any_Inr_iff)
qed

text \<open>
  C21: the bytes an envelope's signature covers determine its nonce, host, command and expiry: two
  envelopes of Go strings (shorter than \<open>2\<^sup>6\<^sup>3\<close> bytes) with the same signed bytes agree on all four
  fields, so no choice of host and command can pass for another envelope.
\<close>

theorem signed_bytes_injective:
  assumes "go_envelope e" and "go_envelope f" and "signed_bytes e = signed_bytes f"
  shows "ev_nonce e = ev_nonce f \<and> ev_host e = ev_host f \<and> ev_command e = ev_command f
    \<and> ev_expiry e = ev_expiry f"
  using assms by (rule signed_bytes_inject)

theorem signed_bytes_injective_witness:
  "ev_host (mint_envelope ''ab'' ''web1'' ''uptime'' 1 0) = ''web1''"
  using signed_bytes_injective [of "mint_envelope ''ab'' ''web1'' ''uptime'' 1 0"
      "(mint_envelope ''ab'' ''web1'' ''uptime'' 1 0)\<lparr>ev_sig := ''x''\<rparr>"]
  by (simp add: go_envelope_def go_string_def mint_envelope_def signed_bytes_def hex_encode_def
      unix_seconds_def int_decimal_def nat_decimal.simps)

text \<open>
  What the signer seals, the host opens. When \<open>Sign\<close> returns a wire form, every host that pins
  the signer's public key among well-formed keys accepts that wire form for the same host name, at
  any time from the issue to the end of the validity, and gets back the same command.
\<close>

theorem sign_verify_roundtrip:
  assumes lib: "signing_ok L" "wire_ok L"
    and signed: "sealed_sign L key (Some rnd) host command ttl now = Inr wire" and "rnd \<noteq> []"
    and utf8: "valid_utf8 host" "valid_utf8 command"
    and pinned: "ed_public L key \<in> set pubs" "\<forall>pub \<in> set pubs. length pub = public_key_size"
    and time: "now \<le> t" "t \<le> now + ttl"
  shows "\<exists>e. verify_any L pubs wire host t = Inr e \<and> ev_host e = host \<and> ev_command e = command
    \<and> ev_nonce e = hex_encode rnd \<and> ev_expiry e = unix_seconds (now + ttl)"
  using verify_signed [OF assms] by auto

definition example_key :: string where
  "example_key = replicate 64 CHR ''k''"

definition example_envelope :: envelope where
  "example_envelope = sealed_envelope_of example_lib example_key (replicate 16 CHR ''n'') ''web1''
     ''uptime'' (30 * go_second) 0"

definition example_wire :: string where
  "example_wire = b64url_encode example_lib (env_marshal example_lib example_envelope)"

lemma example_signed:
  "sealed_sign example_lib example_key (Some (replicate 16 CHR ''n'')) ''web1'' ''uptime'' (30 * go_second) 0
     = Inr example_wire"
  by (simp add: sealed_sign_def example_wire_def example_key_def Let_def SealedMaxTTL_def
      example_envelope_def sealed_envelope_of_def)

lemma example_verified:
  "verify_any example_lib [take 32 example_key] example_wire ''web1'' (10 * go_second)
     = Inr example_envelope"
  unfolding example_envelope_def
  by (rule verify_signed [OF example_signing_ok example_wire_ok example_signed])
    (auto simp: example_lib_def example_key_def in_range_def)

theorem sign_verify_roundtrip_witness:
  "\<exists>e. verify_any example_lib [take 32 example_key] example_wire ''web1'' (10 * go_second) = Inr e
     \<and> ev_command e = ''uptime''"
  using sign_verify_roundtrip [OF example_signing_ok example_wire_ok example_signed,
      of "[take 32 example_key]" "10 * go_second"]
  by (auto simp: example_lib_def example_key_def in_range_def)

lemma parse_key_lines_Inr:
  "parse_key_lines L i lines = Inr keys \<longleftrightarrow>
     map (\<lambda>line. parse_public_key L (trim_space line)) (filter (\<lambda>line. \<not> key_line_skipped line) lines)
       = map Inr keys"
proof (induction lines arbitrary: i keys)
  case (Cons line rest)
  show ?case
  proof (cases "key_line_skipped line \<or> (\<exists>e. parse_public_key L (trim_space line) = Inl e)")
    case True
    then show ?thesis using Cons.IH by (cases keys) auto
  next
    case False
    then obtain k where "parse_public_key L (trim_space line) = Inr k" by (metis sumE)
    with False show ?thesis by (cases keys) (auto simp: sum_bind_cases Cons.IH)
  qed
qed auto

lemma parse_public_key_size: "parse_public_key L s = Inr k \<Longrightarrow> length k = public_key_size"
  by (auto simp: parse_public_key_def split: option.splits if_splits)

lemma parsed_key_sizes:
  assumes "parse_public_keys L s = Inr keys"
  shows "\<forall>pub \<in> set keys. length pub = public_key_size"
proof
  fix pub assume "pub \<in> set keys"
  have "parse_key_lines L 0 (split_on (char_of (10 :: nat)) s) = Inr keys"
    using assms by (auto simp: parse_public_keys_def split: sum.splits if_splits)
  then have "(Inr pub :: sealed_error + string) \<in> set (map (\<lambda>line. parse_public_key L (trim_space line))
      (filter (\<lambda>line. \<not> key_line_skipped line) (split_on (char_of (10 :: nat)) s)))"
    using \<open>pub \<in> set keys\<close> by (simp add: parse_key_lines_Inr)
  then obtain line where "parse_public_key L (trim_space line) = Inr pub" by force
  then show "length pub = public_key_size" by (rule parse_public_key_size)
qed

lemma sealed_wire_plain:
  assumes "wire_ok L" and "sealed_sign L key rnd host command ttl now = Inr wire"
  shows "plain_ascii wire"
  using assms(2) by (rule sealed_sign_Inr) (use assms(1) in \<open>simp add: wire_ok_def\<close>)

text \<open>
  A key file is read all or nothing. \<open>ParsePublicKeys\<close> succeeds exactly when every line that is
  neither blank nor a comment parses to a 32-byte key and there is one such line; the result is those
  keys in file order.
\<close>

theorem parse_public_keys_all_or_nothing:
  "parse_public_keys L s = Inr keys \<longleftrightarrow>
     keys \<noteq> [] \<and> list_all (\<lambda>k. length k = public_key_size) keys
   \<and> map (\<lambda>line. parse_public_key L (trim_space line))
        (filter (\<lambda>line. \<not> key_line_skipped line) (split_on (char_of (10 :: nat)) s)) = map Inr keys"
proof -
  have size: "list_all (\<lambda>k. length k = public_key_size) ks"
    if "map (\<lambda>line. parse_public_key L (trim_space line)) ls = map Inr ks" for ls ks
    using that by (induction ls arbitrary: ks) (auto simp: Cons_eq_map_conv map_eq_Cons_conv dest!: parse_public_key_size)
  show ?thesis
  proof (cases "parse_key_lines L 0 (split_on (char_of (10 :: nat)) s)")
    case (Inl e)
    then show ?thesis
      using parse_key_lines_Inr [of L 0 "split_on (char_of (10 :: nat)) s" keys]
      by (auto simp: parse_public_keys_def)
  next
    case (Inr ks)
    then have "map (\<lambda>line. parse_public_key L (trim_space line))
        (filter (\<lambda>line. \<not> key_line_skipped line) (split_on (char_of (10 :: nat)) s)) = map Inr ks"
      by (simp only: parse_key_lines_Inr)
    with Inr show ?thesis using size [of _ ks]
      by (auto simp: parse_public_keys_def inj_map_eq_map [of Inr])
  qed
qed

end
