(* ===== verification/Shim.thy ===== *)
theory Shim
  imports Sealed
begin

text \<open>
  The host side of sealed exec, \<open>cmd/infrabroker-shim/main.go\<close>: \<open>authorize\<close>, \<open>claimNonce\<close> and
  \<open>sweepNonces\<close>, with the run of a host that starts one shim per SSH channel on one nonce directory.

  The directory is a map from file names to modification times. What the operating system may do
  in a call (the key file's contents, a directory that cannot be created or listed, a file whose
  information or removal fails, an open or close that fails) is the record \<open>shim_os\<close>; the file
  system's own timestamp for a created file is \<open>os_mtime\<close>.
\<close>

section \<open>The shim\<close>

type_synonym nonce_dir = "(string, go_time) go_map"

record shim_os =
  os_key_file :: "string option"
  os_mkdir_ok :: bool
  os_readdir_ok :: bool
  os_stuck :: "string \<Rightarrow> bool"
  os_open_ok :: bool
  os_close_ok :: bool
  os_mtime :: go_time

datatype shim_error =
    NoEnvelope
  | KeyFileUnreadable
  | SealedError sealed_error
  | NonceNotHex string
  | NonceStoreUnusable
  | EnvelopeReplayed
  | NonceClaimFailed
  | NonceCloseFailed
  | WrongArgCount nat

definition nonce_char :: "char \<Rightarrow> bool" where
  "nonce_char c \<longleftrightarrow> is_digit_char c \<or> 97 \<le> (of_char c :: nat) \<and> (of_char c :: nat) \<le> 102"

definition nonce_re :: "string \<Rightarrow> bool" where
  "nonce_re n \<longleftrightarrow> list_all nonce_char n \<and> 16 \<le> length n \<and> length n \<le> 64"

definition sweep_nonces :: "shim_os \<Rightarrow> go_time \<Rightarrow> nonce_dir \<Rightarrow> nonce_dir" where
  "sweep_nonces os now m =
     (if \<not> os_readdir_ok os then m
      else map_keep (\<lambda>name mtime. os_stuck os name \<or> \<not> now - mtime > 2 * SealedMaxTTL) m)"

definition claim_nonce ::
  "shim_os \<Rightarrow> string \<Rightarrow> go_time \<Rightarrow> nonce_dir \<Rightarrow> (shim_error + unit) \<times> nonce_dir" where
  "claim_nonce os nonce now m =
     (if \<not> os_mkdir_ok os then (Inl NonceStoreUnusable, m)
      else (let m = sweep_nonces os now m in
        if map_has m nonce then (Inl EnvelopeReplayed, m)
        else if \<not> os_open_ok os then (Inl NonceClaimFailed, m)
        else (if os_close_ok os then Inr () else Inl NonceCloseFailed,
              AList.update nonce (os_mtime os) m)))"

definition authorize ::
  "sealed_lib \<Rightarrow> shim_os \<Rightarrow> string \<Rightarrow> string \<Rightarrow> go_time \<Rightarrow> nonce_dir \<Rightarrow> (shim_error + envelope) \<times> nonce_dir" where
  "authorize L os host wire now m =
     (if only_space wire then (Inl NoEnvelope, m)
      else case os_key_file os of
        None \<Rightarrow> (Inl KeyFileUnreadable, m)
      | Some raw \<Rightarrow> (case parse_public_keys L raw of
          Inl e \<Rightarrow> (Inl (SealedError e), m)
        | Inr pubs \<Rightarrow> (case verify_any L pubs wire host now of
            Inl e \<Rightarrow> (Inl (SealedError e), m)
          | Inr env \<Rightarrow>
              (if \<not> nonce_re (ev_nonce env) then (Inl (NonceNotHex (ev_nonce env)), m)
               else case claim_nonce os (ev_nonce env) now m of
                 (Inl e, m') \<Rightarrow> (Inl e, m')
               | (Inr _, m') \<Rightarrow> (Inr env, m')))))"

text \<open>
  One start of the shim: the arguments after the program name (from the certificate's forced
  command), the value of \<open>SSH_ORIGINAL_COMMAND\<close>, the clock and the operating system's answers. The
  result is what is handed to \<open>/bin/sh -c\<close>, with the envelope that authorised it.
\<close>

record shim_call =
  sc_args :: "string list"
  sc_wire :: string
  sc_now :: go_time
  sc_os :: shim_os

definition shim_main :: "sealed_lib \<Rightarrow> shim_call \<Rightarrow> nonce_dir \<Rightarrow> (shim_error + string \<times> envelope) \<times> nonce_dir" where
  "shim_main L c m =
     (case sc_args c of
        [host] \<Rightarrow> (case authorize L (sc_os c) host (sc_wire c) (sc_now c) m of
            (Inl e, m') \<Rightarrow> (Inl e, m')
          | (Inr env, m') \<Rightarrow> (Inr (ev_command env, env), m'))
      | args \<Rightarrow> (Inl (WrongArgCount (length args)), m))"

text \<open>A sequence of starts on one directory: the commands run, with their envelopes, in order.\<close>

fun shim_run :: "sealed_lib \<Rightarrow> shim_call list \<Rightarrow> nonce_dir \<Rightarrow> (string \<times> envelope) list" where
  "shim_run L [] m = []"
| "shim_run L (c # cs) m =
     (case shim_main L c m of
        (Inl _, m') \<Rightarrow> shim_run L cs m'
      | (Inr r, m') \<Rightarrow> r # shim_run L cs m')"

section \<open>Lemmas\<close>

lemma hex_digit_nonce: "d < 16 \<Longrightarrow> nonce_char (hex_digit d)"
  by (auto simp: nonce_char_def hex_digit_def is_digit_char_def)

lemma hex_nonce_re:
  assumes "length bs = 16"
  shows "nonce_re (hex_encode bs)"
proof -
  have "list_all nonce_char (hex_encode bs)" using nat_of_char_less_256
    by (auto simp: list_all_iff hex_encode_def less_mult_imp_div_less intro!: hex_digit_nonce)
  then show ?thesis using assms by (simp add: nonce_re_def length_hex_encode)
qed

text \<open>What one start of the shim that runs a command has checked.\<close>

lemma shim_main_Inr:
  assumes "shim_main L c m = (Inr (cmd, e), m')"
  obtains host raw pubs where "sc_args c = [host]" and "os_key_file (sc_os c) = Some raw"
    and "parse_public_keys L raw = Inr pubs"
    and "verify_any L pubs (sc_wire c) host (sc_now c) = Inr e"
    and "cmd = ev_command e" and "nonce_re (ev_nonce e)"
    and "\<not> map_has (sweep_nonces (sc_os c) (sc_now c) m) (ev_nonce e)"
    and "m' = AList.update (ev_nonce e) (os_mtime (sc_os c)) (sweep_nonces (sc_os c) (sc_now c) m)"
  using assms that
  by (auto simp: shim_main_def authorize_def claim_nonce_def Let_def
      split: list.splits if_splits option.splits sum.splits prod.splits)

text \<open>The directory after any start: a swept directory, or one with a new file.\<close>

lemma shim_main_dir:
  assumes "shim_main L c m = (r, m')"
  shows "m' = m \<or> m' = sweep_nonces (sc_os c) (sc_now c) m
    \<or> (\<exists>n. \<not> map_has (sweep_nonces (sc_os c) (sc_now c) m) n
         \<and> m' = AList.update n (os_mtime (sc_os c)) (sweep_nonces (sc_os c) (sc_now c) m))"
  using assms
  by (auto simp: shim_main_def authorize_def claim_nonce_def Let_def
      split: list.splits if_splits option.splits sum.splits prod.splits)

lemma go_map_inv_sweep: "go_map_inv m \<Longrightarrow> go_map_inv (sweep_nonces os now m)"
  by (simp add: sweep_nonces_def)

lemma shim_main_inv: "shim_main L c m = (r, m') \<Longrightarrow> go_map_inv m \<Longrightarrow> go_map_inv m'"
  using go_map_inv_sweep by (auto dest!: shim_main_dir)

text \<open>A recorded nonce survives a start unless it was older than twice the longest validity.\<close>

lemma recorded_survives:
  assumes "shim_main L c m = (r, m')" and "go_map_inv m" and "map_of m n = Some t"
    and "sc_now c - t \<le> 2 * SealedMaxTTL"
  shows "map_of m' n = Some t"
proof -
  have swept: "map_of (sweep_nonces (sc_os c) (sc_now c) m) n = Some t"
    using assms(2-4) by (simp add: sweep_nonces_def map_of_keep)
  from shim_main_dir [OF assms(1)] show ?thesis
    using swept assms(3) by (auto simp: map_of_update map_has_def)
qed

text \<open>
  The clocks: a file's timestamp is at most a second behind the shim's clock, and from one start to
  a later one the clock steps back by at most \<open>298\<close> seconds.
\<close>

definition clock_slack :: go_duration where "clock_slack = 298 * go_second"

fun clocks_ok :: "shim_call list \<Rightarrow> bool" where
  "clocks_ok [] \<longleftrightarrow> True"
| "clocks_ok (c # cs) \<longleftrightarrow>
     sc_now c \<le> os_mtime (sc_os c) + go_second
   \<and> list_all (\<lambda>d. sc_now c \<le> sc_now d + clock_slack) cs \<and> clocks_ok cs"

text \<open>
  While the nonce of an envelope that was accepted at \<open>t\<close> is recorded, or once the envelope has
  expired for every start to come, the envelope is not accepted again.
\<close>

lemma no_replay_later:
  assumes "go_map_inv m" and "clocks_ok cs" and "x \<le> unix_seconds t + 300"
    and "(\<exists>mt. map_of m n = Some mt \<and> t \<le> mt + go_second) \<or> (\<forall>d \<in> set cs. x < unix_seconds (sc_now d))"
  shows "(n, x) \<notin> (\<lambda>(cmd, e). (ev_nonce e, ev_expiry e)) ` set (shim_run L cs m)"
  using assms
proof (induction cs arbitrary: m)
  case (Cons c cs)
  obtain r m' where main: "shim_main L c m = (r, m')" by (cases "shim_main L c m")
  have inv: "go_map_inv m'" using shim_main_inv [OF main] Cons.prems(1) by simp
  have clocks: "clocks_ok cs" using Cons.prems(2) by simp
  have not_now: "(ev_nonce e, ev_expiry e) \<noteq> (n, x)" if r: "r = Inr (cmd, e)" for cmd e
  proof
    assume eq: "(ev_nonce e, ev_expiry e) = (n, x)"
    from main r obtain host pubs where v: "verify_any L pubs (sc_wire c) host (sc_now c) = Inr e"
      and free: "\<not> map_has (sweep_nonces (sc_os c) (sc_now c) m) (ev_nonce e)"
      by (auto elim: shim_main_Inr)
    have live: "unix_seconds (sc_now c) \<le> x" using v eq by (simp add: verify_any_Inr_iff)
    then obtain mt where mt: "map_of m n = Some mt" "t \<le> mt + go_second" using Cons.prems(4) by auto
    have "sc_now c - mt \<le> 2 * SealedMaxTTL"
      using live mt(2) Cons.prems(3) by (simp add: unix_seconds_def SealedMaxTTL_def)
    then have "map_of (sweep_nonces (sc_os c) (sc_now c) m) n = Some mt"
      using mt(1) Cons.prems(1) by (simp add: sweep_nonces_def map_of_keep)
    with free eq show False by (simp add: map_has_def)
  qed
  have "(\<exists>mt. map_of m' n = Some mt \<and> t \<le> mt + go_second) \<or> (\<forall>d \<in> set cs. x < unix_seconds (sc_now d))"
  proof (cases "\<exists>mt. map_of m n = Some mt \<and> t \<le> mt + go_second")
    case True
    then obtain mt where mt: "map_of m n = Some mt" "t \<le> mt + go_second" by blast
    show ?thesis
    proof (cases "sc_now c - mt \<le> 2 * SealedMaxTTL")
      case True
      then show ?thesis using recorded_survives [OF main Cons.prems(1) mt(1)] mt(2) by blast
    next
      case False
      have "x < unix_seconds (sc_now d)" if "d \<in> set cs" for d
      proof -
        have "sc_now c \<le> sc_now d + clock_slack"
          using that Cons.prems(2) by (auto simp: list_all_iff)
        then show ?thesis
          using False mt(2) Cons.prems(3)
          by (simp add: unix_seconds_def SealedMaxTTL_def clock_slack_def)
      qed
      then show ?thesis by blast
    qed
  next
    case False
    then show ?thesis using Cons.prems(4) by auto
  qed
  from Cons.IH [OF inv clocks Cons.prems(3) this] not_now main show ?case
    by (cases r) auto
qed simp

lemma run_envelopes_distinct:
  assumes "go_map_inv m" and "clocks_ok cs"
  shows "distinct (map (\<lambda>(cmd, e). (ev_nonce e, ev_expiry e)) (shim_run L cs m))"
  using assms
proof (induction cs arbitrary: m)
  case (Cons c cs)
  obtain r m' where main: "shim_main L c m = (r, m')" by (cases "shim_main L c m")
  have inv: "go_map_inv m'" using shim_main_inv [OF main] Cons.prems(1) by simp
  have clocks: "clocks_ok cs" using Cons.prems(2) by simp
  show ?case
  proof (cases r)
    case (Inl err)
    then show ?thesis using Cons.IH [OF inv clocks] main by simp
  next
    case (Inr ce)
    obtain cmd e where ce: "ce = (cmd, e)" by (cases ce)
    from main Inr ce obtain host pubs where v: "verify_any L pubs (sc_wire c) host (sc_now c) = Inr e"
      and m': "map_of m' (ev_nonce e) = Some (os_mtime (sc_os c))"
      by (auto elim!: shim_main_Inr simp: map_of_update)
    have x: "ev_expiry e \<le> unix_seconds (sc_now c) + 300" using v by (simp add: verify_any_Inr_iff)
    have "sc_now c \<le> os_mtime (sc_os c) + go_second" using Cons.prems(2) by simp
    then have "(ev_nonce e, ev_expiry e) \<notin> (\<lambda>(cmd, e). (ev_nonce e, ev_expiry e)) ` set (shim_run L cs m')"
      using m' by (intro no_replay_later [OF inv clocks x]) auto
    then show ?thesis using Cons.IH [OF inv clocks] main Inr ce by simp
  qed
qed simp

section \<open>Properties\<close>

text \<open>
  The envelopes a signer has issued: the arguments of its successful calls of \<open>Sign\<close>. The signature
  scheme's guarantee is stated for the envelope at hand: if it verifies under a pinned key, its signed
  bytes are those of an issued envelope.
\<close>

record issued =
  is_nonce :: string
  is_host :: string
  is_command :: string
  is_ttl :: go_duration
  is_now :: go_time

definition issued_envelope :: "issued \<Rightarrow> envelope" where
  "issued_envelope q = mint_envelope (is_nonce q) (is_host q) (is_command q) (is_ttl q) (is_now q)"

definition issued_by :: "sealed_lib \<Rightarrow> string \<Rightarrow> issued \<Rightarrow> bool" where
  "issued_by L key q \<longleftrightarrow> go_envelope (issued_envelope q)
     \<and> (case sealed_sign L key (Some (is_nonce q)) (is_host q) (is_command q) (is_ttl q) (is_now q) of
          Inl _ \<Rightarrow> False | Inr _ \<Rightarrow> True)"

definition unforged :: "sealed_lib \<Rightarrow> string list \<Rightarrow> issued list \<Rightarrow> envelope \<Rightarrow> bool" where
  "unforged L pubs qs e \<longleftrightarrow>
     (\<forall>pub \<in> set pubs. ed_verify L pub (signed_bytes e) (ev_sig e) \<longrightarrow>
        (\<exists>q \<in> set qs. signed_bytes e = signed_bytes (issued_envelope q)))"

definition pinned_keys :: "sealed_lib \<Rightarrow> shim_call \<Rightarrow> string list" where
  "pinned_keys L c =
     (case os_key_file (sc_os c) of
        None \<Rightarrow> []
      | Some raw \<Rightarrow> (case parse_public_keys L raw of Inl _ \<Rightarrow> [] | Inr pubs \<Rightarrow> pubs))"

text \<open>
  C14: an envelope runs at most once. Over any sequence of shim starts on one host's nonce directory,
  with the clock never stepping back by 299 seconds or more, no two commands run under an envelope
  with the same nonce and expiry, whatever the operating system's failures and whatever wires are
  presented: the sweep of old nonces never reopens an envelope.
\<close>

theorem envelope_runs_at_most_once:
  assumes "go_map_inv m" and "clocks_ok cs"
  shows "distinct (map (\<lambda>(cmd, e). (ev_nonce e, ev_expiry e)) (shim_run L cs m))"
  using assms by (rule run_envelopes_distinct)

definition example_os :: shim_os where
  "example_os = \<lparr>os_key_file = Some (hex_encode (take 32 example_key)), os_mkdir_ok = True,
     os_readdir_ok = True, os_stuck = (\<lambda>_. False), os_open_ok = True, os_close_ok = True,
     os_mtime = 10 * go_second\<rparr>"

definition example_call :: shim_call where
  "example_call = \<lparr>sc_args = [''web1''], sc_wire = example_wire, sc_now = 10 * go_second,
     sc_os = example_os\<rparr>"

lemma example_pins: "parse_public_keys example_lib (hex_encode (take 32 example_key)) = Inr [take 32 example_key]"
proof -
  have eq: "hex_encode (take 32 example_key) = concat (replicate 32 ''6b'')"
    by code_simp
  have plain: "plain_ascii (hex_encode (take 32 example_key))" by (rule hex_encode_plain)
  then have "split_on (char_of (10 :: nat)) (hex_encode (take 32 example_key)) = [hex_encode (take 32 example_key)]"
    by (intro split_on_single) (auto simp: plain_ascii_def)
  moreover have "\<not> key_line_skipped (hex_encode (take 32 example_key))"
    unfolding key_line_skipped_def plain_ascii_trim [OF plain] eq by code_simp
  moreover have "parse_public_key example_lib (hex_encode (take 32 example_key)) = Inr (take 32 example_key)"
    by (simp add: parse_public_key_def plain_ascii_trim hex_encode_plain example_lib_def example_key_def)
  ultimately show ?thesis by (simp add: parse_public_keys_def plain_ascii_trim [OF plain])
qed

lemma example_nonce: "ev_nonce example_envelope = concat (replicate 16 ''6e'')"
  unfolding example_envelope_def sealed_envelope_of_simps by code_simp

lemma example_nonce_re: "nonce_re (ev_nonce example_envelope)"
  unfolding example_nonce by code_simp

lemma example_wire_not_blank: "\<not> only_space example_wire"
proof -
  have "trim_space example_wire = example_wire"
    by (simp add: example_wire_def example_lib_def plain_ascii_trim hex_encode_plain)
  moreover have "example_wire \<noteq> []"
    by (auto simp: example_wire_def example_lib_def example_marshal_def hex_encode_def)
  ultimately show ?thesis by (simp add: only_space_def)
qed

lemma example_authorize:
  "shim_main example_lib example_call m =
     (case claim_nonce example_os (ev_nonce example_envelope) (10 * go_second) m of
        (Inl e, m') \<Rightarrow> (Inl e, m') | (Inr _, m') \<Rightarrow> (Inr (''uptime'', example_envelope), m'))"
proof -
  have "ev_command example_envelope = ''uptime''" by (simp add: example_envelope_def)
  moreover have "os_key_file example_os = Some (hex_encode (take 32 example_key))"
    by (simp add: example_os_def)
  ultimately show ?thesis
    by (simp add: shim_main_def authorize_def example_call_def example_pins example_verified [simplified]
        example_nonce_re example_wire_not_blank split: prod.splits sum.splits)
qed

lemma example_first_run:
  "shim_main example_lib example_call [] =
     (Inr (''uptime'', example_envelope), [(ev_nonce example_envelope, 10 * go_second)])"
  by (simp add: example_authorize claim_nonce_def example_os_def sweep_nonces_def map_has_def Let_def)

lemma example_run: "shim_run example_lib [example_call, example_call] [] = [(''uptime'', example_envelope)]"
  by (simp add: example_first_run)
    (simp add: example_authorize claim_nonce_def example_os_def sweep_nonces_def map_has_def Let_def
      SealedMaxTTL_def)

theorem envelope_runs_at_most_once_witness:
  "distinct (map (\<lambda>(cmd, e). (ev_nonce e, ev_expiry e)) (shim_run example_lib [example_call, example_call] []))
   \<and> map fst (shim_run example_lib [example_call, example_call] []) = [''uptime'']"
proof
  show "distinct (map (\<lambda>(cmd, e). (ev_nonce e, ev_expiry e)) (shim_run example_lib [example_call, example_call] []))"
    by (rule envelope_runs_at_most_once)
      (auto simp: example_call_def example_os_def clock_slack_def)
  show "map fst (shim_run example_lib [example_call, example_call] []) = [''uptime'']"
    by (simp only: example_run) simp
qed

lemma ran_under_issued:
  assumes ran: "shim_main L c m = (Inr (cmd, e), m')" and "go_envelope e"
    and honest: "unforged L (pinned_keys L c) qs e" "\<forall>q \<in> set qs. \<exists>key. issued_by L key q"
  obtains q where "q \<in> set qs" and "sc_args c = [is_host q]" and "cmd = is_command q" and "is_ttl q \<le> SealedMaxTTL"
    and "sc_now c < is_now q + is_ttl q + go_second"
proof -
  from ran obtain host pubs where args: "sc_args c = [host]" and pins: "pinned_keys L c = pubs"
    and v: "verify_any L pubs (sc_wire c) host (sc_now c) = Inr e" and cmd: "cmd = ev_command e"
    by (auto elim!: shim_main_Inr simp: pinned_keys_def)
  from v obtain q where q: "q \<in> set qs" "signed_bytes e = signed_bytes (issued_envelope q)"
    using honest(1) pins by (auto simp: verify_any_Inr_iff unforged_def)
  with honest(2) obtain key where by_key: "issued_by L key q" by blast
  then have ttl: "is_ttl q \<le> SealedMaxTTL" and go: "go_envelope (issued_envelope q)"
    by (auto simp: issued_by_def sealed_sign_def split: sum.splits if_splits)
  have same: "ev_host e = is_host q" "ev_command e = is_command q"
    "ev_expiry e = unix_seconds (is_now q + is_ttl q)"
    using signed_bytes_inject [OF \<open>go_envelope e\<close> go q(2)]
    by (auto simp: issued_envelope_def mint_envelope_def)
  have live: "unix_seconds (sc_now c) \<le> unix_seconds (is_now q + is_ttl q)" and "ev_host e = host"
    using v same(3) by (auto simp: verify_any_Inr_iff)
  moreover from live have "sc_now c < is_now q + is_ttl q + go_second"
    by (simp add: unix_seconds_def)
  ultimately show ?thesis using q(1) args cmd same ttl that by auto
qed

text \<open>A start with one argument, pinned keys, a wire that verifies and a fresh nonce runs the envelope's command.\<close>

lemma shim_accepts:
  assumes "sc_args c = [host]" and "\<not> only_space (sc_wire c)" and "os_key_file (sc_os c) = Some raw"
    and "parse_public_keys L raw = Inr pubs" and "verify_any L pubs (sc_wire c) host (sc_now c) = Inr e"
    and "nonce_re (ev_nonce e)" and "\<not> map_has m (ev_nonce e)"
    and "go_map_inv m" and "os_mkdir_ok (sc_os c)" and "os_open_ok (sc_os c)" and "os_close_ok (sc_os c)"
  shows "fst (shim_main L c m) = Inr (ev_command e, e)"
proof -
  have "\<not> map_has (sweep_nonces (sc_os c) (sc_now c) m) (ev_nonce e)"
    using assms(7,8) by (auto simp: sweep_nonces_def map_has_def map_of_keep split: option.splits)
  then show ?thesis using assms by (simp add: shim_main_def authorize_def claim_nonce_def Let_def)
qed

text \<open>
  The shim runs only what the signer authorised. If a start of the shim runs a command under an
  envelope that is not a forgery, then the signer issued an envelope for exactly this command on
  exactly the host named by the certificate's forced command, and the start is less than 301 seconds
  after that issue.
\<close>

theorem shim_runs_only_issued_commands:
  assumes ran: "shim_main L c m = (Inr (cmd, e), m')" and "go_envelope e"
    and honest: "unforged L (pinned_keys L c) qs e" "\<forall>q \<in> set qs. issued_by L key q"
  shows "\<exists>q \<in> set qs. sc_args c = [is_host q] \<and> cmd = is_command q
    \<and> sc_now c < is_now q + 301 * go_second"
proof -
  have "\<forall>q \<in> set qs. \<exists>key. issued_by L key q" using honest(2) by blast
  from ran \<open>go_envelope e\<close> honest(1) this obtain q where q: "q \<in> set qs" "sc_args c = [is_host q]" "cmd = is_command q"
    and "is_ttl q \<le> SealedMaxTTL" "sc_now c < is_now q + is_ttl q + go_second"
    by (rule ran_under_issued)
  then have "sc_now c < is_now q + 301 * go_second" by (simp add: SealedMaxTTL_def)
  with q show ?thesis by blast
qed

definition example_issued :: issued where
  "example_issued = \<lparr>is_nonce = replicate 16 CHR ''n'', is_host = ''web1'', is_command = ''uptime'',
     is_ttl = 30 * go_second, is_now = 0\<rparr>"

lemma example_envelope_bytes: "signed_bytes example_envelope = signed_bytes (issued_envelope example_issued)"
  by (simp add: signed_bytes_def example_envelope_def issued_envelope_def example_issued_def
      mint_envelope_def)

lemma example_go_envelope: "go_envelope example_envelope" "go_envelope (issued_envelope example_issued)"
  by (simp_all add: go_envelope_def go_string_def example_envelope_def issued_envelope_def
      example_issued_def mint_envelope_def length_hex_encode unix_seconds_def int_decimal_def nat_decimal.simps)

theorem shim_runs_only_issued_commands_witness:
  "\<exists>q \<in> set [example_issued]. sc_args example_call = [is_host q] \<and> ''uptime'' = is_command q
     \<and> sc_now example_call < is_now q + 301 * go_second"
proof -
  have honest: "unforged example_lib (pinned_keys example_lib example_call) [example_issued] example_envelope"
    by (simp add: unforged_def example_envelope_bytes)
  have by_key: "\<forall>q \<in> set [example_issued]. issued_by example_lib example_key q"
    using example_signed example_go_envelope(2) by (simp add: issued_by_def example_issued_def)
  show ?thesis
    by (rule shim_runs_only_issued_commands [OF example_first_run example_go_envelope(1) honest by_key])
qed

end
