(* ===== verification/Signer_Types.thy ===== *)
theory Signer_Types
  imports Go_Prelude
begin

text \<open>
  The request the signer decides on: \<open>Intent\<close> of \<open>internal/signer/signer.go\<close>, the structured
  Kubernetes action it may carry (\<open>internal/signer/k8saction.go\<close>) and the string constants of
  roles, purposes, session modes and target types. A slice for which the code tells nil from empty
  (\<open>EndUserGroups\<close>) is an option; a public key is opaque bytes.
\<close>

abbreviation RoleTarget :: string where "RoleTarget \<equiv> ''target''"
abbreviation RoleBastion :: string where "RoleBastion \<equiv> ''bastion''"
abbreviation PurposeOneshot :: string where "PurposeOneshot \<equiv> ''oneshot''"
abbreviation PurposeSession :: string where "PurposeSession \<equiv> ''session''"
abbreviation SessionModeExec :: string where "SessionModeExec \<equiv> ''exec''"
abbreviation SessionModeShell :: string where "SessionModeShell \<equiv> ''shell''"
abbreviation SessionModePTY :: string where "SessionModePTY \<equiv> ''pty''"
abbreviation TargetTypeSSH :: string where "TargetTypeSSH \<equiv> ''ssh''"
abbreviation TargetTypeK8s :: string where "TargetTypeK8s \<equiv> ''k8s''"

record k8s_action =
  ka_verb :: string
  ka_resource :: string
  ka_group :: string
  ka_namespace :: string
  ka_name :: string

record intent =
  in_caller :: string
  in_host :: string
  in_target_type :: string
  in_k8s :: "k8s_action option"
  in_role :: string
  in_purpose :: string
  in_session_mode :: string
  in_command :: string
  in_requested_ttl :: go_duration
  in_public_key :: string
  in_sudo :: bool
  in_sudo_user :: string
  in_pty :: bool
  in_file_transfer :: bool
  in_dry_run :: bool
  in_preflight :: bool
  in_approved :: bool
  in_on_behalf_of :: string
  in_end_user :: string
  in_end_user_groups :: "string list option"
  in_end_user_context :: string
  in_raw_token :: string
  in_learn_ttl_seconds :: int
  in_learn_approver :: string
  in_learn_approval_id :: string

text \<open>The zero value of \<open>Intent\<close>, with a caller, host and command to build examples from.\<close>

definition plain_intent :: "string \<Rightarrow> string \<Rightarrow> string \<Rightarrow> intent" where
  "plain_intent caller host command =
     \<lparr>in_caller = caller, in_host = host, in_target_type = [], in_k8s = None, in_role = RoleTarget,
      in_purpose = PurposeOneshot, in_session_mode = [], in_command = command,
      in_requested_ttl = 0, in_public_key = [], in_sudo = False, in_sudo_user = [], in_pty = False,
      in_file_transfer = False, in_dry_run = False, in_preflight = False, in_approved = False,
      in_on_behalf_of = [], in_end_user = [], in_end_user_groups = None, in_end_user_context = [],
      in_raw_token = [], in_learn_ttl_seconds = 0, in_learn_approver = [],
      in_learn_approval_id = []\<rparr>"

text \<open>
  \<open>WireRequest\<close> (\<open>internal/signer/remote.go\<close>): the request as it travels between broker, control plane
  and signer. \<open>wr_end_user_groups\<close> is \<^term>\<open>None\<close> where the slice is nil.
\<close>

record wire_request =
  wr_host :: string
  wr_role :: string
  wr_purpose :: string
  wr_session_mode :: string
  wr_command :: string
  wr_ttl_seconds :: int
  wr_public_key :: string
  wr_target_type :: string
  wr_k8s_verb :: string
  wr_k8s_resource :: string
  wr_k8s_group :: string
  wr_k8s_namespace :: string
  wr_k8s_name :: string
  wr_sudo :: bool
  wr_sudo_user :: string
  wr_pty :: bool
  wr_file_transfer :: bool
  wr_dry_run :: bool
  wr_preflight :: bool
  wr_on_behalf_of :: string
  wr_approved :: bool
  wr_end_user :: string
  wr_end_user_groups :: "string list option"
  wr_end_user_context :: string
  wr_bearer_token :: string
  wr_learn_ttl_seconds :: int
  wr_learn_approver :: string
  wr_learn_approval_id :: string

text \<open>\<open>time.Duration(n) * time.Second\<close>, which wraps around at 64 bits.\<close>

definition duration_seconds :: "int \<Rightarrow> go_duration" where
  "duration_seconds n = signed_take_bit 63 (n * go_second)"

text \<open>\<open>WireHostInfo\<close>: what a broker learns of a host.\<close>

record wire_host_info =
  wh_addr :: string
  wh_user :: string
  wh_host_key :: string
  wh_jump :: string
  wh_allow_sudo :: bool
  wh_allow_pty :: bool
  wh_allow_file_transfer :: bool
  wh_groups :: "string list"

end
