(* ===== verification/Approval.thy ===== *)
theory Approval
  imports Signer_Types "HOL-Library.Signed_Division"
begin

text \<open>
  The approval registry of the control plane, \<open>internal/control/approval.go\<close>: requests that wait for a
  human, their decision, the single-use claim of an approved one, expiry, purging, and the rows in the
  state database from which a restarted process reloads.

  The random identifier, the clock, the outcome of each database call and the JSON codec of the stored
  request are arguments. Each operation runs under the registry's mutex and is one step.
\<close>

section \<open>Data\<close>

abbreviation StatusPending :: string where "StatusPending \<equiv> ''pending''"
abbreviation StatusApproved :: string where "StatusApproved \<equiv> ''approved''"
abbreviation StatusDenied :: string where "StatusDenied \<equiv> ''denied''"
abbreviation StatusExpired :: string where "StatusExpired \<equiv> ''expired''"

record approval =
  ap_id :: string
  ap_caller :: string
  ap_end_user :: string
  ap_host :: string
  ap_command :: string
  ap_sudo :: bool
  ap_sudo_user :: string
  ap_rule :: string
  ap_status :: string
  ap_created_at :: go_time
  ap_decided_by :: string
  ap_decided_at :: "go_time option"
  ap_target_type :: string
  ap_learn_ttl :: go_duration
  ap_end_user_stripped :: bool
  ap_req :: wire_request
  ap_consumed :: bool
  ap_issuing :: bool
  ap_result_reported :: bool

record approval_row =
  ar_id :: string
  ar_caller :: string
  ar_end_user :: string
  ar_host :: string
  ar_command :: string
  ar_sudo :: bool
  ar_sudo_user :: string
  ar_rule :: string
  ar_status :: string
  ar_created_at :: int
  ar_decided_by :: string
  ar_decided_at :: int
  ar_learn_ttl_seconds :: int
  ar_consumed :: bool
  ar_request_json :: string
  ar_end_user_stripped :: bool

record request_codec =
  rq_marshal :: "wire_request \<Rightarrow> string"
  rq_unmarshal :: "string \<Rightarrow> wire_request option"

record registry =
  rg_items :: "(string, approval) go_map"
  rg_ttl :: go_duration
  rg_db :: "approval_row list option"

datatype registry_error =
    IdSource
  | PersistApproval
  | UnknownApproval string
  | NotPending string string
  | LearnUnattributable
  | LoadApprovals

section \<open>Construction and reload\<close>

definition new_registry :: "go_duration \<Rightarrow> registry" where
  "new_registry ttl = \<lparr>rg_items = [], rg_ttl = (if ttl \<le> 0 then 2 * go_minute else ttl), rg_db = None\<rparr>"

definition approval_target_type :: "string \<Rightarrow> string" where
  "approval_target_type t = (if t = TargetTypeK8s then TargetTypeK8s else [])"

definition row_to_approval :: "wire_request \<Rightarrow> approval_row \<Rightarrow> approval" where
  "row_to_approval req r =
     \<lparr>ap_id = ar_id r, ap_caller = ar_caller r, ap_end_user = ar_end_user r, ap_host = ar_host r,
      ap_command = ar_command r, ap_sudo = ar_sudo r, ap_sudo_user = ar_sudo_user r, ap_rule = ar_rule r,
      ap_status = ar_status r, ap_created_at = unix_time (ar_created_at r), ap_decided_by = ar_decided_by r,
      ap_decided_at = (if ar_decided_at r \<noteq> 0 then Some (unix_time (ar_decided_at r)) else None),
      ap_target_type = approval_target_type (wr_target_type req),
      ap_learn_ttl = ar_learn_ttl_seconds r * go_second, ap_end_user_stripped = ar_end_user_stripped r,
      ap_req = req, ap_consumed = ar_consumed r, ap_issuing = False, ap_result_reported = False\<rparr>"

fun load_approvals :: "request_codec \<Rightarrow> approval_row list \<Rightarrow> (string, approval) go_map \<Rightarrow> (string, approval) go_map" where
  "load_approvals C [] m = m"
| "load_approvals C (r # rows) m =
     (case rq_unmarshal C (ar_request_json r) of
        None \<Rightarrow> load_approvals C rows m
      | Some req \<Rightarrow> load_approvals C rows (AList.update (ar_id r) (row_to_approval req r) m))"

definition new_registry_db :: "request_codec \<Rightarrow> bool \<Rightarrow> go_duration \<Rightarrow> go_time \<Rightarrow> approval_row list \<Rightarrow> registry_error + registry" where
  "new_registry_db C query_ok ttl now rows =
     (let r = new_registry ttl in
      if \<not> query_ok then Inl LoadApprovals
      else Inr (r\<lparr>rg_db := Some rows,
             rg_items := load_approvals C (filter (\<lambda>row. ar_created_at row > unix_seconds (now - 2 * rg_ttl r)) rows) []\<rparr>))"

definition target_label :: "approval \<Rightarrow> string" where
  "target_label a = (if ap_target_type a = TargetTypeK8s then ''Cluster'' else ''Host'')"

section \<open>Operations\<close>

definition update_rows :: "bool \<Rightarrow> (approval_row list \<Rightarrow> approval_row list) \<Rightarrow> registry \<Rightarrow> registry" where
  "update_rows ok f r = (case rg_db r of None \<Rightarrow> r | Some rows \<Rightarrow> (if ok then r\<lparr>rg_db := Some (f rows)\<rparr> else r))"

definition expire_approval :: "go_duration \<Rightarrow> go_time \<Rightarrow> approval \<Rightarrow> approval" where
  "expire_approval ttl now a =
     (if ap_status a = StatusPending then
        (if now - ap_created_at a \<le> ttl then a
         else if \<not> ap_consumed a then a\<lparr>ap_status := StatusExpired\<rparr> else a)
      else if ap_status a = StatusApproved then
        (if ap_consumed a \<or> ap_issuing a then a
         else if now - (case ap_decided_at a of None \<Rightarrow> ap_created_at a | Some t \<Rightarrow> t) \<le> ttl then a
         else if \<not> ap_consumed a then a\<lparr>ap_status := StatusExpired\<rparr> else a)
      else a)"

definition purge_approvals :: "bool \<Rightarrow> go_time \<Rightarrow> registry \<Rightarrow> registry" where
  "purge_approvals ok now r =
     update_rows ok (filter (\<lambda>row. \<not> ar_created_at row \<le> unix_seconds (now - 2 * rg_ttl r)))
       (r\<lparr>rg_items := map_keep (\<lambda>_ a. \<not> now - ap_created_at a > 2 * rg_ttl r) (rg_items r)\<rparr>)"

definition approval_to_row :: "request_codec \<Rightarrow> approval \<Rightarrow> approval_row" where
  "approval_to_row C a =
     \<lparr>ar_id = ap_id a, ar_caller = ap_caller a, ar_end_user = ap_end_user a, ar_host = ap_host a,
      ar_command = ap_command a, ar_sudo = ap_sudo a, ar_sudo_user = ap_sudo_user a, ar_rule = ap_rule a,
      ar_status = ap_status a, ar_created_at = unix_seconds (ap_created_at a), ar_decided_by = ap_decided_by a,
      ar_decided_at = 0, ar_learn_ttl_seconds = 0, ar_consumed = False,
      ar_request_json = rq_marshal C ((ap_req a)\<lparr>wr_bearer_token := []\<rparr>),
      ar_end_user_stripped = ap_end_user_stripped a\<rparr>"

definition new_approval :: "string \<Rightarrow> wire_request \<Rightarrow> string \<Rightarrow> string option \<Rightarrow> bool \<Rightarrow> go_time \<Rightarrow> approval" where
  "new_approval aid req caller rule stripped now =
     \<lparr>ap_id = aid, ap_caller = caller, ap_end_user = wr_end_user req, ap_host = wr_host req,
      ap_command = wr_command req, ap_sudo = wr_sudo req, ap_sudo_user = wr_sudo_user req,
      ap_rule = (case rule of None \<Rightarrow> [] | Some s \<Rightarrow> s), ap_status = StatusPending, ap_created_at = now,
      ap_decided_by = [], ap_decided_at = None, ap_target_type = approval_target_type (wr_target_type req),
      ap_learn_ttl = 0, ap_end_user_stripped = stripped, ap_req = req, ap_consumed = False,
      ap_issuing = False, ap_result_reported = False\<rparr>"

definition create_with :: "request_codec \<Rightarrow> string option \<Rightarrow> bool \<Rightarrow> bool \<Rightarrow> wire_request \<Rightarrow> string \<Rightarrow> string option \<Rightarrow> bool \<Rightarrow>
    go_time \<Rightarrow> registry \<Rightarrow> (registry_error + approval) \<times> registry" where
  "create_with C new_id purge_ok insert_ok req caller rule stripped now r =
     (case new_id of
        None \<Rightarrow> (Inl IdSource, r)
      | Some aid \<Rightarrow>
          (let r = purge_approvals purge_ok now r; a = new_approval aid req caller rule stripped now in
           case rg_db r of
             None \<Rightarrow> (Inr a, r\<lparr>rg_items := AList.update aid a (rg_items r)\<rparr>)
           | Some rows \<Rightarrow>
               (if \<not> insert_ok \<or> aid \<in> ar_id ` set rows then (Inl PersistApproval, r)
                else (Inr a, r\<lparr>rg_items := AList.update aid a (rg_items r),
                               rg_db := Some (rows @ [approval_to_row C a])\<rparr>))))"

text \<open>The lookup that opens most operations: the item after lazy expiry, and the registry with it.\<close>

definition look_up :: "string \<Rightarrow> go_time \<Rightarrow> registry \<Rightarrow> (approval \<times> registry) option" where
  "look_up aid now r =
     (case map_of (rg_items r) aid of
        None \<Rightarrow> None
      | Some a \<Rightarrow> (let a = expire_approval (rg_ttl r) now a in
          Some (a, r\<lparr>rg_items := AList.update aid a (rg_items r)\<rparr>)))"

definition put_item :: "string \<Rightarrow> approval \<Rightarrow> registry \<Rightarrow> registry" where
  "put_item aid a r = r\<lparr>rg_items := AList.update aid a (rg_items r)\<rparr>"

definition approval_get :: "string \<Rightarrow> go_time \<Rightarrow> registry \<Rightarrow> approval option \<times> registry" where
  "approval_get aid now r = (case look_up aid now r of None \<Rightarrow> (None, r) | Some (a, r) \<Rightarrow> (Some a, r))"

definition approval_request :: "string \<Rightarrow> registry \<Rightarrow> wire_request option" where
  "approval_request aid r = map_option ap_req (map_of (rg_items r) aid)"

definition decide_row :: "approval \<Rightarrow> approval_row \<Rightarrow> approval_row" where
  "decide_row a row =
     (if ar_id row = ap_id a then row\<lparr>ar_status := ap_status a, ar_decided_by := ap_decided_by a,
        ar_decided_at := (case ap_decided_at a of None \<Rightarrow> 0 | Some t \<Rightarrow> unix_seconds t),
        ar_learn_ttl_seconds := ap_learn_ttl a sdiv go_second\<rparr> else row)"

definition approval_decide :: "bool \<Rightarrow> string \<Rightarrow> bool \<Rightarrow> string \<Rightarrow> go_duration \<Rightarrow> go_time \<Rightarrow> registry \<Rightarrow>
    (registry_error + approval) \<times> registry" where
  "approval_decide ok aid approve who learn now r =
     (case look_up aid now r of
        None \<Rightarrow> (Inl (UnknownApproval aid), r)
      | Some (a, r) \<Rightarrow>
          (if ap_status a \<noteq> StatusPending then (Inl (NotPending aid (ap_status a)), r)
           else if approve \<and> 0 < learn \<and> ap_end_user_stripped a then (Inl LearnUnattributable, r)
           else
             let a = (if approve then a\<lparr>ap_status := StatusApproved, ap_learn_ttl := (if 0 < learn then learn else ap_learn_ttl a)\<rparr>
                      else a\<lparr>ap_status := StatusDenied\<rparr>);
                 a = a\<lparr>ap_decided_by := who, ap_decided_at := Some now\<rparr>
             in (Inr a, update_rows ok (map (decide_row a)) (put_item aid a r))))"

definition begin_consume :: "string \<Rightarrow> go_time \<Rightarrow> registry \<Rightarrow> (bool \<times> bool) \<times> registry" where
  "begin_consume aid now r =
     (case look_up aid now r of
        None \<Rightarrow> ((False, False), r)
      | Some (a, r) \<Rightarrow>
          (if ap_status a \<noteq> StatusApproved \<or> ap_consumed a then ((False, False), r)
           else if ap_issuing a then ((False, True), r)
           else ((True, False), put_item aid (a\<lparr>ap_issuing := True\<rparr>) r)))"

definition consume_row :: "string \<Rightarrow> approval_row \<Rightarrow> approval_row" where
  "consume_row aid row = (if ar_id row = aid then row\<lparr>ar_consumed := True\<rparr> else row)"

definition finish_consume :: "bool \<Rightarrow> string \<Rightarrow> bool \<Rightarrow> registry \<Rightarrow> registry" where
  "finish_consume ok aid success r =
     (case map_of (rg_items r) aid of
        None \<Rightarrow> r
      | Some a \<Rightarrow>
          (let a = (if success then a\<lparr>ap_consumed := True\<rparr> else a);
               r = (if success then update_rows ok (map (consume_row (ap_id a))) r else r)
           in put_item aid (a\<lparr>ap_issuing := False\<rparr>) r))"

definition report_result_once :: "string \<Rightarrow> go_time \<Rightarrow> registry \<Rightarrow> bool \<times> registry" where
  "report_result_once aid now r =
     (case look_up aid now r of
        None \<Rightarrow> (False, r)
      | Some (a, r) \<Rightarrow>
          (if ap_status a \<noteq> StatusDenied \<and> ap_status a \<noteq> StatusExpired then (False, r)
           else if ap_result_reported a then (False, r)
           else (True, put_item aid (a\<lparr>ap_result_reported := True\<rparr>) r)))"

definition approval_list :: "bool \<Rightarrow> go_time \<Rightarrow> registry \<Rightarrow> approval list \<times> registry" where
  "approval_list ok now r =
     (let r = purge_approvals ok now r;
          items = map (\<lambda>(k, a). (k, expire_approval (rg_ttl r) now a)) (rg_items r)
      in (map snd items, r\<lparr>rg_items := items\<rparr>))"

section \<open>Histories\<close>

text \<open>
  The operations as data, a restart of the process among them: with a state database the registry
  reloads from its rows, without one it starts empty. The identifier source, the clock and the outcome of
  each database call are fields of the operation that uses them.
\<close>

datatype reg_op =
    CreateOp "string option" bool bool wire_request string "string option" bool go_time
  | GetOp string go_time
  | DecideOp bool string bool string go_duration go_time
  | BeginOp string go_time
  | FinishOp bool string bool
  | ReportOp string go_time
  | ListOp bool go_time
  | RestartOp go_duration go_time

definition reg_restart :: "request_codec \<Rightarrow> go_duration \<Rightarrow> go_time \<Rightarrow> registry \<Rightarrow> registry" where
  "reg_restart C ttl now r =
     (case rg_db r of
        None \<Rightarrow> new_registry ttl
      | Some rows \<Rightarrow> (case new_registry_db C True ttl now rows of Inl e \<Rightarrow> r | Inr r' \<Rightarrow> r'))"

fun reg_exec :: "request_codec \<Rightarrow> reg_op \<Rightarrow> registry \<Rightarrow> registry" where
  "reg_exec C (CreateOp new_id p i req caller rule stripped now) r = snd (create_with C new_id p i req caller rule stripped now r)"
| "reg_exec C (GetOp aid now) r = snd (approval_get aid now r)"
| "reg_exec C (DecideOp ok aid approve who learn now) r = snd (approval_decide ok aid approve who learn now r)"
| "reg_exec C (BeginOp aid now) r = snd (begin_consume aid now r)"
| "reg_exec C (FinishOp ok aid success) r = finish_consume ok aid success r"
| "reg_exec C (ReportOp aid now) r = snd (report_result_once aid now r)"
| "reg_exec C (ListOp ok now) r = snd (approval_list ok now r)"
| "reg_exec C (RestartOp ttl now) r = reg_restart C ttl now r"

definition fresh_registry :: "go_duration \<Rightarrow> bool \<Rightarrow> registry" where
  "fresh_registry ttl durable = (new_registry ttl)\<lparr>rg_db := (if durable then Some [] else None)\<rparr>"

definition run_ops :: "request_codec \<Rightarrow> reg_op list \<Rightarrow> registry \<Rightarrow> registry" where
  "run_ops C ops r = fold (reg_exec C) ops r"

lemma run_ops_simps [simp]:
  "run_ops C [] r = r" "run_ops C (x # ops) r = run_ops C ops (reg_exec C x r)"
  "run_ops C (ops @ [x]) r = reg_exec C x (run_ops C ops r)"
  by (simp_all add: run_ops_def)

section \<open>Laws of the registry\<close>

lemma expire_keeps [simp]:
  "ap_end_user_stripped (expire_approval ttl now a) = ap_end_user_stripped a"
  "ap_caller (expire_approval ttl now a) = ap_caller a" "ap_id (expire_approval ttl now a) = ap_id a"
  "ap_req (expire_approval ttl now a) = ap_req a"
  "ap_consumed (expire_approval ttl now a) = ap_consumed a"
  "ap_issuing (expire_approval ttl now a) = ap_issuing a"
  by (auto simp: expire_approval_def)

lemma look_up_Some:
  assumes "look_up aid now r = Some (a, r')"
  obtains b where "map_of (rg_items r) aid = Some b" and "a = expire_approval (rg_ttl r) now b"
    and "r' = put_item aid a r"
  using assms by (auto simp: look_up_def put_item_def Let_def split: option.splits)

lemma put_item_simps [simp]:
  "map_of (rg_items (put_item aid a r)) k = (if k = aid then Some a else map_of (rg_items r) k)"
  "rg_db (put_item aid a r) = rg_db r" "rg_ttl (put_item aid a r) = rg_ttl r"
  by (simp_all add: put_item_def map_of_update)

lemma update_rows_simps [simp]:
  "rg_items (update_rows ok f r) = rg_items r" "rg_ttl (update_rows ok f r) = rg_ttl r"
  "rg_db (update_rows ok f r) = (if ok then map_option f (rg_db r) else rg_db r)"
  by (simp_all add: update_rows_def split: option.splits)

lemma decide_row_keeps [simp]:
  "ar_id (decide_row a row) = ar_id row" "ar_consumed (decide_row a row) = ar_consumed row"
  "ar_end_user_stripped (decide_row a row) = ar_end_user_stripped row" "ar_caller (decide_row a row) = ar_caller row"
  "ar_request_json (decide_row a row) = ar_request_json row"
  by (simp_all add: decide_row_def)

lemma consume_row_keeps [simp]:
  "ar_id (consume_row aid row) = ar_id row" "ar_end_user_stripped (consume_row aid row) = ar_end_user_stripped row"
  "ar_caller (consume_row aid row) = ar_caller row" "ar_status (consume_row aid row) = ar_status row"
  "ar_decided_by (consume_row aid row) = ar_decided_by row" "ar_decided_at (consume_row aid row) = ar_decided_at row"
  "ar_request_json (consume_row aid row) = ar_request_json row"
  "ar_learn_ttl_seconds (consume_row aid row) = ar_learn_ttl_seconds row"
  by (simp_all add: consume_row_def)

text \<open>The item after a decision, as \<open>Decide\<close> stores it.\<close>

definition settled :: "bool \<Rightarrow> string \<Rightarrow> go_duration \<Rightarrow> go_time \<Rightarrow> approval \<Rightarrow> approval" where
  "settled approve who learn now a =
     (if approve then a\<lparr>ap_status := StatusApproved, ap_learn_ttl := (if 0 < learn then learn else ap_learn_ttl a)\<rparr>
      else a\<lparr>ap_status := StatusDenied\<rparr>)\<lparr>ap_decided_by := who, ap_decided_at := Some now\<rparr>"

lemma settled_simps [simp]:
  "ap_id (settled approve who learn now a) = ap_id a" "ap_caller (settled approve who learn now a) = ap_caller a"
  "ap_req (settled approve who learn now a) = ap_req a"
  "ap_end_user_stripped (settled approve who learn now a) = ap_end_user_stripped a"
  "ap_decided_at (settled approve who learn now a) = Some now" "ap_decided_by (settled approve who learn now a) = who"
  "ap_consumed (settled approve who learn now a) = ap_consumed a" "ap_issuing (settled approve who learn now a) = ap_issuing a"
  "ap_status (settled approve who learn now a) = (if approve then StatusApproved else StatusDenied)"
  by (simp_all add: settled_def)

lemma approval_decide_settled:
  assumes "approval_decide ok aid approve who learn now r = (res, r')"
  obtains (unknown) "look_up aid now r = None" and "res = Inl (UnknownApproval aid)" and "r' = r"
    | (refused) a e where "look_up aid now r = Some (a, r')" and "res = Inl e"
    | (applied) a r1 where "look_up aid now r = Some (a, r1)" and "ap_status a = StatusPending"
        and "\<not> (approve \<and> 0 < learn \<and> ap_end_user_stripped a)" and "res = Inr (settled approve who learn now a)"
        and "r' = update_rows ok (map (decide_row (settled approve who learn now a))) (put_item aid (settled approve who learn now a) r1)"
  using assms unfolding approval_decide_def settled_def
  by (auto simp: Let_def split: option.splits if_splits)

text \<open>
  An item and its row tell of one request: the caller and the fate of the end user agree. A registry keeps
  a law when every item, filed under its own identifier, satisfies \<open>P\<close> and every row satisfies \<open>R\<close>.
\<close>

definition same_origin :: "approval \<Rightarrow> approval_row \<Rightarrow> bool" where
  "same_origin a row \<longleftrightarrow> ap_end_user_stripped a = ar_end_user_stripped row \<and> ap_caller a = ar_caller row"

definition rows_hold :: "(approval_row \<Rightarrow> bool) \<Rightarrow> (string, approval) go_map \<Rightarrow> approval_row list \<Rightarrow> bool" where
  "rows_hold R items rows \<longleftrightarrow> distinct (map ar_id rows)
     \<and> (\<forall>row \<in> set rows. R row \<and> (\<forall>a. map_of items (ar_id row) = Some a \<longrightarrow> same_origin a row))"

definition registry_holds :: "(string \<Rightarrow> approval \<Rightarrow> bool) \<Rightarrow> (approval_row \<Rightarrow> bool) \<Rightarrow> registry \<Rightarrow> bool" where
  "registry_holds P R r \<longleftrightarrow> go_map_inv (rg_items r)
     \<and> (\<forall>aid a. map_of (rg_items r) aid = Some a \<longrightarrow> ap_id a = aid \<and> P aid a)
     \<and> (\<forall>rows. rg_db r = Some rows \<longrightarrow> rows_hold R (rg_items r) rows)"

lemma registry_holds_mono:
  assumes "registry_holds P R r" and "\<And>aid a. P aid a \<Longrightarrow> P' aid a" and "\<And>row. R row \<Longrightarrow> R' row"
  shows "registry_holds P' R' r"
  using assms unfolding registry_holds_def rows_hold_def by meson

lemma registry_holds_item: "registry_holds P R r \<Longrightarrow> map_of (rg_items r) aid = Some a \<Longrightarrow> ap_id a = aid \<and> P aid a"
  by (simp add: registry_holds_def)

lemma registry_holds_map: "registry_holds P R r \<Longrightarrow> go_map_inv (rg_items r)"
  by (simp add: registry_holds_def)

text \<open>A reload only brings back what the rows say.\<close>

lemma load_approvals_from:
  "map_of (load_approvals C rows m) k = Some a \<Longrightarrow> map_of m k = Some a
     \<or> (\<exists>row \<in> set rows. \<exists>req. ar_id row = k \<and> rq_unmarshal C (ar_request_json row) = Some req \<and> a = row_to_approval req row)"
  by (induction C rows m rule: load_approvals.induct)
    (fastforce simp: map_of_update split: option.splits if_splits)+

lemma load_approvals_inv: "go_map_inv m \<Longrightarrow> go_map_inv (load_approvals C rows m)"
  by (induction C rows m rule: load_approvals.induct) (auto split: option.splits)

text \<open>
  What a law has to survive: expiry, the claim and report flags, the stamp of a
  decision on a row, and the way back. Then every operation keeps it, once the item it makes or decides has it.
\<close>

locale registry_law =
  fixes C :: request_codec and P :: "string \<Rightarrow> approval \<Rightarrow> bool" and R :: "approval_row \<Rightarrow> bool"
  assumes expire: "P aid a \<Longrightarrow> P aid (expire_approval ttl now a)"
    and issuing: "P aid a \<Longrightarrow> P aid (a\<lparr>ap_issuing := b\<rparr>)"
    and consumed: "P aid a \<Longrightarrow> P aid (a\<lparr>ap_consumed := True\<rparr>)"
    and reported: "P aid a \<Longrightarrow> P aid (a\<lparr>ap_result_reported := True\<rparr>)"
    and consumed_row: "R row \<Longrightarrow> R (consume_row k row)"
    and stamped: "R row \<Longrightarrow> P (ar_id row) a \<Longrightarrow> ap_id a = ar_id row \<Longrightarrow> same_origin a row \<Longrightarrow> ap_decided_at a = Some t \<Longrightarrow>
      R (decide_row a row)"
    and reloaded: "R row \<Longrightarrow> rq_unmarshal C (ar_request_json row) = Some req \<Longrightarrow> P (ar_id row) (row_to_approval req row)"
begin

lemma put_holds:
  assumes "registry_holds P R r" and "P aid a" and "ap_id a = aid" and "map_of (rg_items r) aid = Some b"
    and "ap_end_user_stripped a = ap_end_user_stripped b" and "ap_caller a = ap_caller b"
  shows "registry_holds P R (put_item aid a r)"
  using assms by (auto simp: registry_holds_def rows_hold_def same_origin_def put_item_def map_of_update)

lemma rows_holds:
  assumes "registry_holds P R r" and "\<And>rows. rg_db r = Some rows \<Longrightarrow> rows_hold R (rg_items r) (f rows)"
  shows "registry_holds P R (update_rows ok f r)"
  using assms by (auto simp: registry_holds_def update_rows_def split: option.splits)

lemma look_up_holds:
  assumes "look_up aid now r = Some (a, r')" and "registry_holds P R r"
  shows "registry_holds P R r'" and "P aid a" and "map_of (rg_items r') aid = Some a" and "ap_id a = aid"
proof -
  from assms(1) obtain b where b: "map_of (rg_items r) aid = Some b" "a = expire_approval (rg_ttl r) now b"
    and r': "r' = put_item aid a r" by (rule look_up_Some)
  show P: "P aid a" and ident: "ap_id a = aid" using b assms(2) by (auto simp: registry_holds_def intro: expire)
  show "map_of (rg_items r') aid = Some a" using r' by simp
  show "registry_holds P R r'" using put_holds [OF assms(2) P ident b(1)] r' b(2) by simp
qed

lemma purge_holds:
  assumes "registry_holds P R r"
  shows "registry_holds P R (purge_approvals ok now r)"
  unfolding purge_approvals_def
  by (rule rows_holds)
    (use assms in \<open>auto simp: registry_holds_def rows_hold_def map_of_keep distinct_map_filter split: if_splits option.splits\<close>)

lemma create_holds:
  assumes "registry_holds P R r" and "\<And>aid. i = Some aid \<Longrightarrow> P aid (new_approval aid req caller rule stripped now)"
    and "\<And>aid. i = Some aid \<Longrightarrow> R (approval_to_row C (new_approval aid req caller rule stripped now))"
  shows "registry_holds P R (snd (create_with C i p ins req caller rule stripped now r))"
proof (cases i)
  case None
  then show ?thesis using assms by (auto simp: create_with_def)
next
  case (Some aid)
  let ?r = "purge_approvals p now r"
  let ?a = "new_approval aid req caller rule stripped now"
  have inv: "registry_holds P R ?r" by (rule purge_holds [OF assms(1)])
  have item: "P aid ?a" "ap_id ?a = aid" using assms(2) Some by (simp_all add: new_approval_def)
  show ?thesis
  proof (cases "rg_db ?r")
    case None
    then show ?thesis using inv item \<open>i = Some aid\<close> by (auto simp: create_with_def Let_def registry_holds_def map_of_update)
  next
    case (Some rows)
    then have "rows_hold R (rg_items ?r) rows" using inv by (simp add: registry_holds_def)
    then have "rows_hold R (AList.update aid ?a (rg_items ?r)) (rows @ [approval_to_row C ?a])" if "aid \<notin> ar_id ` set rows"
      using assms(3) [OF \<open>i = Some aid\<close>] that by (auto simp: rows_hold_def map_of_update approval_to_row_def new_approval_def same_origin_def)
    then show ?thesis using Some inv item \<open>i = Some aid\<close>
      by (auto simp: create_with_def Let_def registry_holds_def map_of_update)
  qed
qed

lemma settled_holds:
  assumes inv: "registry_holds P R r" and b: "map_of (rg_items r) aid = Some b"
    and a: "P aid a" "ap_id a = aid" "ap_end_user_stripped a = ap_end_user_stripped b" "ap_caller a = ap_caller b"
    and t: "ap_decided_at a = Some t"
  shows "registry_holds P R (update_rows ok (map (decide_row a)) (put_item aid a r))"
proof -
  have put: "registry_holds P R (put_item aid a r)" by (rule put_holds [OF inv a(1,2) b a(3,4)])
  show ?thesis
  proof (rule rows_holds [OF put])
    fix rows assume "rg_db (put_item aid a r) = Some rows"
    then have rows: "rows_hold R (rg_items (put_item aid a r)) rows" using put by (simp add: registry_holds_def)
    have "R (decide_row a row)" if "row \<in> set rows" for row
    proof (cases "ar_id row = aid")
      case True
      then show ?thesis using rows that a(1,2) t by (intro stamped) (auto simp: rows_hold_def)
    next
      case False
      then show ?thesis using rows that a(2) by (auto simp: rows_hold_def decide_row_def)
    qed
    then show "rows_hold R (rg_items (put_item aid a r)) (map (decide_row a) rows)"
      using rows by (simp add: rows_hold_def comp_def same_origin_def)
  qed
qed

lemma decide_holds:
  assumes "registry_holds P R r"
    and "\<And>a r1. look_up aid now r = Some (a, r1) \<Longrightarrow> P aid a \<Longrightarrow> ap_status a = StatusPending \<Longrightarrow>
      \<not> (approve \<and> 0 < learn \<and> ap_end_user_stripped a) \<Longrightarrow> P aid (settled approve who learn now a)"
  shows "registry_holds P R (snd (approval_decide ok aid approve who learn now r))"
proof -
  obtain res r' where d: "approval_decide ok aid approve who learn now r = (res, r')" by fastforce
  then show ?thesis
  proof (cases rule: approval_decide_settled)
    case unknown
    then show ?thesis using assms(1) d by simp
  next
    case (refused a e)
    then show ?thesis using look_up_holds(1) [OF _ assms(1)] d by simp
  next
    case (applied a r1)
    note inv = look_up_holds [OF applied(1) assms(1)]
    have "P aid (settled approve who learn now a)" by (rule assms(2) [OF applied(1) inv(2) applied(2,3)])
    then have "registry_holds P R r'" unfolding applied(5) by (rule settled_holds [OF inv(1,3)]) (use inv(4) in simp_all)
    then show ?thesis using d by simp
  qed
qed

lemma finish_holds:
  assumes "registry_holds P R r"
  shows "registry_holds P R (finish_consume ok aid success r)"
proof (cases "map_of (rg_items r) aid")
  case (Some a)
  let ?r = "if success then update_rows ok (map (consume_row (ap_id a))) r else r"
  let ?a = "(if success then a\<lparr>ap_consumed := True\<rparr> else a)\<lparr>ap_issuing := False\<rparr>"
  have r: "registry_holds P R ?r" using assms
    by (auto intro!: rows_holds consumed_row simp: registry_holds_def rows_hold_def comp_def same_origin_def)
  have "P aid a" "ap_id a = aid" using assms Some by (auto simp: registry_holds_def)
  then have "P aid ?a" "ap_id ?a = aid" by (simp_all add: consumed issuing)
  then have "registry_holds P R (put_item aid ?a ?r)"
    by (rule put_holds [OF r, where b = a]) (use Some in \<open>auto split: if_splits\<close>)
  then show ?thesis using Some by (cases success) (simp_all add: finish_consume_def)
qed (use assms in \<open>simp add: finish_consume_def\<close>)

lemma begin_holds:
  assumes "registry_holds P R r"
  shows "registry_holds P R (snd (begin_consume aid now r))"
proof (cases "look_up aid now r")
  case (Some p)
  obtain a r' where p: "p = (a, r')" by (cases p)
  note inv = look_up_holds [OF Some [unfolded p] assms]
  have "registry_holds P R (put_item aid (a\<lparr>ap_issuing := True\<rparr>) r')"
    by (rule put_holds [OF inv(1) issuing [OF inv(2)] _ inv(3)]) (simp_all add: inv(4))
  then show ?thesis using inv(1) Some p by (simp add: begin_consume_def)
qed (use assms in \<open>simp add: begin_consume_def\<close>)

lemma report_holds:
  assumes "registry_holds P R r"
  shows "registry_holds P R (snd (report_result_once aid now r))"
proof (cases "look_up aid now r")
  case (Some p)
  obtain a r' where p: "p = (a, r')" by (cases p)
  note inv = look_up_holds [OF Some [unfolded p] assms]
  have "registry_holds P R (put_item aid (a\<lparr>ap_result_reported := True\<rparr>) r')"
    by (rule put_holds [OF inv(1) reported [OF inv(2)] _ inv(3)]) (simp_all add: inv(4))
  then show ?thesis using inv(1) Some p by (simp add: report_result_once_def)
qed (use assms in \<open>simp add: report_result_once_def\<close>)

lemma get_holds: "registry_holds P R r \<Longrightarrow> registry_holds P R (snd (approval_get aid now r))"
  by (auto simp: approval_get_def look_up_holds split: option.splits)

lemma list_holds:
  assumes "registry_holds P R r"
  shows "registry_holds P R (snd (approval_list ok now r))"
proof -
  let ?r = "purge_approvals ok now r"
  let ?m = "map (\<lambda>(k, a). (k, expire_approval (rg_ttl ?r) now a)) (rg_items ?r)"
  have inv: "registry_holds P R ?r" by (rule purge_holds [OF assms])
  have m: "map_of ?m k = map_option (expire_approval (rg_ttl ?r) now) (map_of (rg_items ?r) k)" for k
    by (simp add: map_of_map)
  have "go_map_inv ?m" using inv by (simp add: registry_holds_def go_map_inv_def case_prod_beta comp_def)
  then show ?thesis using inv unfolding approval_list_def Let_def snd_conv registry_holds_def
    by (auto simp: m rows_hold_def same_origin_def intro: expire)
qed

lemma restart_holds:
  assumes "registry_holds P R r"
  shows "registry_holds P R (reg_restart C ttl now r)"
proof (cases "rg_db r")
  case None
  then show ?thesis by (simp add: reg_restart_def new_registry_def registry_holds_def)
next
  case (Some rows)
  let ?old = "filter (\<lambda>row. ar_created_at row > unix_seconds (now - 2 * rg_ttl (new_registry ttl))) rows"
  let ?m = "load_approvals C ?old []"
  have rows: "distinct (map ar_id rows)" "\<And>row. row \<in> set rows \<Longrightarrow> R row"
    using assms Some by (auto simp: registry_holds_def rows_hold_def)
  have from_row: "\<exists>row \<in> set rows. \<exists>req. ar_id row = k \<and> rq_unmarshal C (ar_request_json row) = Some req \<and> a = row_to_approval req row"
    if "map_of ?m k = Some a" for k a using load_approvals_from [OF that] by auto
  have "same_origin a row" if "map_of ?m (ar_id row) = Some a" "row \<in> set rows" for a row
  proof -
    from from_row [OF that(1)] obtain row' req where row': "row' \<in> set rows" "ar_id row' = ar_id row"
      "a = row_to_approval req row'" by blast
    have "row' = row" using rows(1) row' that(2) by (auto simp: distinct_map inj_on_def)
    then show ?thesis using row' by (simp add: row_to_approval_def same_origin_def)
  qed
  then have "rows_hold R ?m rows" using rows by (simp add: rows_hold_def)
  moreover have "ap_id a = k \<and> P k a" if "map_of ?m k = Some a" for k a
    using from_row [OF that] rows(2) reloaded by (auto simp: row_to_approval_def)
  moreover have "go_map_inv ?m" by (rule load_approvals_inv) simp
  ultimately have "registry_holds P R ((new_registry ttl)\<lparr>rg_db := Some rows, rg_items := ?m\<rparr>)"
    by (simp add: registry_holds_def)
  then show ?thesis using Some by (simp add: reg_restart_def new_registry_db_def Let_def)
qed

lemma fresh_holds: "registry_holds P R (fresh_registry ttl durable)"
  by (simp add: registry_holds_def rows_hold_def fresh_registry_def new_registry_def)

end

section \<open>The invariant of a history\<close>

text \<open>
  What the registry knows is what the operations told it: every request it holds was registered under
  that identifier (a reloaded one without its bearer token), every approval carries the name and the
  time of an approving decision, and an approval whose end user was stripped never learns.
\<close>

definition created :: "reg_op set \<Rightarrow> string \<Rightarrow> wire_request \<Rightarrow> bool" where
  "created H aid req \<longleftrightarrow> (\<exists>p i caller rule stripped t. CreateOp (Some aid) p i req caller rule stripped t \<in> H)"

definition forwarded :: "request_codec \<Rightarrow> reg_op set \<Rightarrow> string \<Rightarrow> wire_request \<Rightarrow> bool" where
  "forwarded C H aid q \<longleftrightarrow> (\<exists>req. created H aid req
     \<and> (q = req \<or> rq_unmarshal C (rq_marshal C (req\<lparr>wr_bearer_token := []\<rparr>)) = Some q))"

definition item_ok :: "request_codec \<Rightarrow> reg_op set \<Rightarrow> string \<Rightarrow> approval \<Rightarrow> bool" where
  "item_ok C H aid a \<longleftrightarrow> (ap_end_user_stripped a \<longrightarrow> ap_learn_ttl a = 0)
     \<and> forwarded C H aid (ap_req a)
     \<and> (ap_status a = StatusApproved \<longrightarrow>
          (\<exists>ok learn t. DecideOp ok aid True (ap_decided_by a) learn t \<in> H
             \<and> (ap_decided_at a \<in> {Some t, Some (unix_time (unix_seconds t))} \<or> unix_seconds t = 0 \<and> ap_decided_at a = None)))"

definition row_ok :: "request_codec \<Rightarrow> reg_op set \<Rightarrow> approval_row \<Rightarrow> bool" where
  "row_ok C H row \<longleftrightarrow> (ar_end_user_stripped row \<longrightarrow> ar_learn_ttl_seconds row = 0)
     \<and> (\<exists>req. created H (ar_id row) req \<and> ar_request_json row = rq_marshal C (req\<lparr>wr_bearer_token := []\<rparr>))
     \<and> (ar_status row = StatusApproved \<longrightarrow>
          (\<exists>ok learn t. DecideOp ok (ar_id row) True (ar_decided_by row) learn t \<in> H
             \<and> ar_decided_at row = unix_seconds t))"

definition reg_inv :: "request_codec \<Rightarrow> reg_op set \<Rightarrow> registry \<Rightarrow> bool" where
  "reg_inv C H r \<longleftrightarrow> registry_holds (item_ok C H) (row_ok C H) r"

lemma item_ok_mono: "item_ok C H aid a \<Longrightarrow> H \<subseteq> H' \<Longrightarrow> item_ok C H' aid a"
  unfolding item_ok_def forwarded_def created_def by blast

lemma row_ok_mono: "row_ok C H row \<Longrightarrow> H \<subseteq> H' \<Longrightarrow> row_ok C H' row"
  unfolding row_ok_def created_def by blast

lemma reg_inv_mono: "reg_inv C H r \<Longrightarrow> H \<subseteq> H' \<Longrightarrow> reg_inv C H' r"
  unfolding reg_inv_def using registry_holds_mono item_ok_mono row_ok_mono by metis

lemma row_to_approval_ok:
  assumes "row_ok C H row" and "rq_unmarshal C (ar_request_json row) = Some req"
  shows "item_ok C H (ar_id row) (row_to_approval req row)"
  using assms unfolding item_ok_def row_ok_def row_to_approval_def forwarded_def by fastforce

lemma decide_row_ok:
  assumes "row_ok C H row" and "item_ok C H (ar_id row) a" and "same_origin a row" and "ap_decided_at a = Some t"
  shows "row_ok C H (decide_row a row)"
proof -
  have "unix_seconds (unix_time n) = n" for n by (simp add: unix_seconds_def unix_time_def)
  then show ?thesis using assms unfolding row_ok_def item_ok_def decide_row_def same_origin_def by fastforce
qed

lemma item_ok_flags:
  "item_ok C H aid (a\<lparr>ap_issuing := b\<rparr>) = item_ok C H aid a" "item_ok C H aid (a\<lparr>ap_consumed := b\<rparr>) = item_ok C H aid a"
  "item_ok C H aid (a\<lparr>ap_result_reported := b\<rparr>) = item_ok C H aid a"
  by (simp_all add: item_ok_def)

lemma row_ok_consumed: "row_ok C H (consume_row k row) = row_ok C H row"
  by (simp add: row_ok_def)

interpretation history: registry_law C "item_ok C H" "row_ok C H" for C H
proof
  show "item_ok C H aid (expire_approval ttl now a)" if "item_ok C H aid a" for aid a ttl now
    using that by (auto simp: item_ok_def expire_approval_def)
qed (auto intro: decide_row_ok row_to_approval_ok simp: item_ok_flags row_ok_consumed)

lemma created_here: "created (insert (CreateOp (Some aid) p i req caller rule stripped t) H) aid req"
  unfolding created_def by blast

lemma reg_exec_inv:
  assumes "reg_inv C H r"
  shows "reg_inv C (insert x H) (reg_exec C x r)"
proof -
  have inv: "registry_holds (item_ok C (insert x H)) (row_ok C (insert x H)) r"
    using reg_inv_mono [OF assms, of "insert x H"] by (auto simp: reg_inv_def)
  show ?thesis unfolding reg_inv_def
  proof (cases x)
    case (CreateOp i p ins req caller rule stripped now)
    show "registry_holds (item_ok C (insert x H)) (row_ok C (insert x H)) (reg_exec C x r)"
      unfolding CreateOp reg_exec.simps
      by (rule history.create_holds [OF inv [unfolded CreateOp]])
        (auto simp: item_ok_def row_ok_def new_approval_def approval_to_row_def forwarded_def intro: created_here)
  next
    case (DecideOp ok aid approve who learn now)
    show "registry_holds (item_ok C (insert x H)) (row_ok C (insert x H)) (reg_exec C x r)"
      unfolding DecideOp reg_exec.simps
      by (rule history.decide_holds [OF inv [unfolded DecideOp]]) (auto simp: item_ok_def settled_def)
  qed (use inv in \<open>simp_all only: reg_exec.simps history.get_holds history.begin_holds history.finish_holds
        history.report_holds history.list_holds history.restart_holds\<close>)
qed

lemma run_ops_inv: "reg_inv C (set ops) (run_ops C ops (fresh_registry ttl durable))"
proof (induction ops rule: rev_induct)
  case Nil
  show ?case by (simp add: reg_inv_def history.fresh_holds)
next
  case (snoc x ops)
  from reg_exec_inv [OF this] show ?case by simp
qed

section \<open>Single use\<close>

text \<open>
  An approval is burnt when neither the memory nor the database holds it unconsumed, and claimed while
  its in-memory entry is being issued.
\<close>

definition burnt :: "string \<Rightarrow> registry \<Rightarrow> bool" where
  "burnt aid r \<longleftrightarrow> (\<forall>a. map_of (rg_items r) aid = Some a \<longrightarrow> ap_consumed a)
     \<and> (\<forall>rows row. rg_db r = Some rows \<longrightarrow> row \<in> set rows \<longrightarrow> ar_id row = aid \<longrightarrow> ar_consumed row)"

definition claimed :: "string \<Rightarrow> registry \<Rightarrow> bool" where
  "claimed aid r \<longleftrightarrow> (\<forall>a. map_of (rg_items r) aid = Some a \<longrightarrow> ap_issuing a)"

definition creates :: "string \<Rightarrow> reg_op \<Rightarrow> bool" where
  "creates aid x \<longleftrightarrow> (\<exists>p i req caller rule stripped t. x = CreateOp (Some aid) p i req caller rule stripped t)"

definition releases :: "string \<Rightarrow> reg_op \<Rightarrow> bool" where
  "releases aid x \<longleftrightarrow> (\<exists>ok success. x = FinishOp ok aid success) \<or> (\<exists>ttl now. x = RestartOp ttl now)"

lemma purge_burnt: "go_map_inv (rg_items r) \<Longrightarrow> burnt aid r \<Longrightarrow> burnt aid (purge_approvals ok now r)"
  by (auto simp: burnt_def purge_approvals_def map_of_keep split: option.splits if_splits)

lemma purge_claimed: "go_map_inv (rg_items r) \<Longrightarrow> claimed aid r \<Longrightarrow> claimed aid (purge_approvals ok now r)"
  by (auto simp: claimed_def purge_approvals_def map_of_keep split: option.splits if_splits)

lemma look_up_burnt: "look_up k now r = Some (a, r') \<Longrightarrow> burnt aid r \<Longrightarrow> burnt aid r' \<and> (k = aid \<longrightarrow> ap_consumed a)"
  by (erule look_up_Some) (auto simp: burnt_def)

lemma look_up_claimed: "look_up k now r = Some (a, r') \<Longrightarrow> claimed aid r \<Longrightarrow> claimed aid r' \<and> (k = aid \<longrightarrow> ap_issuing a)"
  by (erule look_up_Some) (auto simp: claimed_def)

lemma put_burnt: "burnt aid r \<Longrightarrow> (k = aid \<longrightarrow> ap_consumed a) \<Longrightarrow> burnt aid (put_item k a r)"
  by (simp add: burnt_def)

lemma put_claimed: "claimed aid r \<Longrightarrow> (k = aid \<longrightarrow> ap_issuing a) \<Longrightarrow> claimed aid (put_item k a r)"
  by (simp add: claimed_def)

lemma rows_burnt:
  assumes "burnt aid r" and "\<And>row. ar_id (f row) = ar_id row" and "\<And>row. ar_consumed row \<Longrightarrow> ar_consumed (f row)"
  shows "burnt aid (update_rows ok (map f) r)"
  using assms by (auto simp: burnt_def)

lemma rows_claimed [simp]: "claimed aid (update_rows ok f r) = claimed aid r"
  by (simp add: claimed_def)

lemma create_keeps:
  assumes "go_map_inv (rg_items r)" and "i \<noteq> Some aid"
  shows "burnt aid r \<Longrightarrow> burnt aid (snd (create_with C i p ins req caller rule stripped now r))"
    and "claimed aid r \<Longrightarrow> claimed aid (snd (create_with C i p ins req caller rule stripped now r))"
  using purge_burnt [OF assms(1), of aid p now] purge_claimed [OF assms(1), of aid p now] assms(2)
  by (auto simp: create_with_def Let_def burnt_def claimed_def map_of_update approval_to_row_def new_approval_def
      split: option.splits if_splits)

lemma decide_keeps:
  shows "burnt aid r \<Longrightarrow> burnt aid (snd (approval_decide ok k approve who learn now r))"
    and "claimed aid r \<Longrightarrow> claimed aid (snd (approval_decide ok k approve who learn now r))"
proof -
  show "burnt aid r \<Longrightarrow> burnt aid (snd (approval_decide ok k approve who learn now r))"
    by (auto simp: approval_decide_def Let_def dest!: look_up_burnt intro!: rows_burnt put_burnt split: option.splits)
  show "claimed aid r \<Longrightarrow> claimed aid (snd (approval_decide ok k approve who learn now r))"
    by (auto simp: approval_decide_def Let_def dest!: look_up_claimed intro!: put_claimed split: option.splits)
qed

lemma begin_keeps:
  shows "burnt aid r \<Longrightarrow> burnt aid (snd (begin_consume k now r))"
    and "claimed aid r \<Longrightarrow> claimed aid (snd (begin_consume k now r))"
proof -
  show "burnt aid r \<Longrightarrow> burnt aid (snd (begin_consume k now r))"
    by (auto simp: begin_consume_def dest!: look_up_burnt intro!: put_burnt split: option.splits)
  show "claimed aid r \<Longrightarrow> claimed aid (snd (begin_consume k now r))"
    by (auto simp: begin_consume_def dest!: look_up_claimed intro!: put_claimed split: option.splits)
qed

lemma get_keeps:
  shows "burnt aid r \<Longrightarrow> burnt aid (snd (approval_get k now r))"
    and "claimed aid r \<Longrightarrow> claimed aid (snd (approval_get k now r))"
proof -
  show "burnt aid r \<Longrightarrow> burnt aid (snd (approval_get k now r))"
    by (auto simp: approval_get_def dest!: look_up_burnt split: option.splits)
  show "claimed aid r \<Longrightarrow> claimed aid (snd (approval_get k now r))"
    by (auto simp: approval_get_def dest!: look_up_claimed split: option.splits)
qed

lemma report_keeps:
  shows "burnt aid r \<Longrightarrow> burnt aid (snd (report_result_once k now r))"
    and "claimed aid r \<Longrightarrow> claimed aid (snd (report_result_once k now r))"
proof -
  show "burnt aid r \<Longrightarrow> burnt aid (snd (report_result_once k now r))"
    by (auto simp: report_result_once_def dest!: look_up_burnt intro!: put_burnt split: option.splits)
  show "claimed aid r \<Longrightarrow> claimed aid (snd (report_result_once k now r))"
    by (auto simp: report_result_once_def dest!: look_up_claimed intro!: put_claimed split: option.splits)
qed

lemma list_keeps:
  assumes "go_map_inv (rg_items r)"
  shows "burnt aid r \<Longrightarrow> burnt aid (snd (approval_list ok now r))"
    and "claimed aid r \<Longrightarrow> claimed aid (snd (approval_list ok now r))"
  using purge_burnt [OF assms, of aid ok now] purge_claimed [OF assms, of aid ok now]
  by (auto simp: approval_list_def Let_def burnt_def claimed_def map_of_map)

lemma consume_row_consumed: "ar_consumed row \<Longrightarrow> ar_consumed (consume_row k row)"
  by (simp add: consume_row_def)

lemma finish_burnt: "burnt aid r \<Longrightarrow> burnt aid (finish_consume ok k success r)"
  by (auto simp: finish_consume_def Let_def consume_row_consumed intro!: put_burnt rows_burnt split: option.splits)
    (auto simp: burnt_def)

lemma finish_claimed: "claimed aid r \<Longrightarrow> k \<noteq> aid \<Longrightarrow> claimed aid (finish_consume ok k success r)"
  by (auto simp: finish_consume_def Let_def intro!: put_claimed split: option.splits)

lemma restart_burnt:
  assumes "burnt aid r"
  shows "burnt aid (reg_restart C ttl now r)"
proof (cases "rg_db r")
  case (Some rows)
  have "ap_consumed a" if "map_of (load_approvals C (filter P rows) []) aid = Some a" for a P
    using load_approvals_from [OF that] assms Some by (auto simp: burnt_def row_to_approval_def)
  then show ?thesis using assms Some by (simp add: reg_restart_def new_registry_db_def Let_def burnt_def)
qed (simp add: reg_restart_def new_registry_def burnt_def)

lemma reg_exec_burnt:
  assumes "go_map_inv (rg_items r)" and "burnt aid r" and "\<not> creates aid x"
  shows "burnt aid (reg_exec C x r)"
  using assms by (cases x) (auto simp: creates_def create_keeps decide_keeps begin_keeps get_keeps report_keeps
      list_keeps finish_burnt restart_burnt)

lemma reg_exec_claimed:
  assumes "go_map_inv (rg_items r)" and "claimed aid r" and "\<not> creates aid x" and "\<not> releases aid x"
  shows "claimed aid (reg_exec C x r)"
  using assms by (cases x) (auto simp: creates_def releases_def create_keeps decide_keeps begin_keeps get_keeps
      report_keeps list_keeps finish_claimed)

lemma run_ops_keeps:
  assumes "reg_inv C H r" and "\<forall>x \<in> set ops. \<not> creates aid x"
  shows "burnt aid r \<Longrightarrow> burnt aid (run_ops C ops r)"
    and "claimed aid r \<Longrightarrow> \<forall>x \<in> set ops. \<not> releases aid x \<Longrightarrow> claimed aid (run_ops C ops r)"
  using assms
proof (induction ops arbitrary: H r)
  case (Cons x ops)
  { case 1
    have "burnt aid (reg_exec C x r)" using 1 by (intro reg_exec_burnt) (auto simp: reg_inv_def registry_holds_def)
    then show ?case using Cons.IH(1) [OF _ reg_exec_inv [OF 1(2), of x]] 1 by simp
  next
    case 2
    have "claimed aid (reg_exec C x r)" using 2 by (intro reg_exec_claimed) (auto simp: reg_inv_def registry_holds_def)
    then show ?case using Cons.IH(2) [OF _ _ reg_exec_inv [OF 2(3), of x]] 2 by simp }
qed simp_all

lemma finish_inv: "reg_inv C H r \<Longrightarrow> reg_inv C H (finish_consume ok aid success r)"
  unfolding reg_inv_def by (rule history.finish_holds)

lemma begin_inv: "reg_inv C H r \<Longrightarrow> reg_inv C H (snd (begin_consume aid now r))"
  unfolding reg_inv_def by (rule history.begin_holds)

lemma finish_burns:
  assumes "reg_inv C H r" and "map_has (rg_items r) aid"
  shows "burnt aid (finish_consume True aid True r)"
proof -
  obtain a where a: "map_of (rg_items r) aid = Some a" using assms(2) by (auto simp: map_has_def)
  with assms(1) have "ap_id a = aid" by (simp add: reg_inv_def registry_holds_def)
  with a show ?thesis by (auto simp: finish_consume_def burnt_def consume_row_def)
qed

lemma begin_started:
  assumes "begin_consume aid now r = ((True, retry), r')"
  obtains b where "map_of (rg_items r) aid = Some b" and "ap_status b = StatusApproved" and "\<not> ap_consumed b" and "\<not> ap_issuing b"
    and "now - (case ap_decided_at b of None \<Rightarrow> ap_created_at b | Some t \<Rightarrow> t) \<le> rg_ttl r"
    and "approval_request aid r' = Some (ap_req b)" and "claimed aid r'"
proof -
  obtain a r1 where l: "look_up aid now r = Some (a, r1)" and a: "ap_status a = StatusApproved" "\<not> ap_consumed a" "\<not> ap_issuing a"
    and r': "r' = put_item aid (a\<lparr>ap_issuing := True\<rparr>) r1"
    using assms by (auto simp: begin_consume_def split: option.splits if_splits)
  from l obtain b where b: "map_of (rg_items r) aid = Some b" "a = expire_approval (rg_ttl r) now b" by (rule look_up_Some)
  have "expire_approval (rg_ttl r) now b = b \<and> ap_status b = StatusApproved
      \<and> now - (case ap_decided_at b of None \<Rightarrow> ap_created_at b | Some t \<Rightarrow> t) \<le> rg_ttl r"
    using a b(2) by (auto simp: expire_approval_def split: if_splits)
  then show ?thesis using that [OF b(1)] a b r' by (simp add: approval_request_def claimed_def)
qed

lemma not_started:
  assumes "burnt aid r \<or> claimed aid r"
  shows "\<not> fst (fst (begin_consume aid now r))"
proof
  assume "fst (fst (begin_consume aid now r))"
  then obtain retry r' where "begin_consume aid now r = ((True, retry), r')" by (metis prod.collapse)
  then show False by (rule begin_started) (use assms in \<open>auto simp: burnt_def claimed_def\<close>)
qed

section \<open>Properties\<close>

text \<open>
  C8: an approval issues once. After a claim was finished with success and its database write went
  through, no later poll can claim that approval again: not after any sequence of further operations,
  and not after restarts of the process, as long as the identifier is not drawn again.
\<close>

theorem approval_single_use:
  assumes "map_has (rg_items (run_ops C before (fresh_registry ttl durable))) aid"
    and "\<forall>x \<in> set after. \<not> creates aid x"
  shows "\<not> fst (fst (begin_consume aid now (run_ops C (before @ FinishOp True aid True # after) (fresh_registry ttl durable))))"
proof (rule not_started)
  let ?r = "run_ops C before (fresh_registry ttl durable)"
  have inv: "reg_inv C (set before) ?r" by (rule run_ops_inv)
  then have "burnt aid (finish_consume True aid True ?r)" using assms(1) by (rule finish_burns)
  then have "burnt aid (run_ops C after (finish_consume True aid True ?r))"
    by (rule run_ops_keeps(1) [OF finish_inv [OF inv] assms(2)])
  then show "burnt aid (run_ops C (before @ FinishOp True aid True # after) (fresh_registry ttl durable))
    \<or> claimed aid (run_ops C (before @ FinishOp True aid True # after) (fresh_registry ttl durable))"
    by (simp add: run_ops_def)
qed

text \<open>
  The claim excludes every other poller. Between a poll that started issuing and the end of its
  claim (a \<open>FinishConsume\<close> of that approval, or a restart of the process), no other poll starts.
\<close>

theorem approval_claim_exclusive:
  assumes "begin_consume aid t (run_ops C before (fresh_registry ttl durable)) = ((True, retry), r)"
    and "\<forall>x \<in> set after. \<not> creates aid x" and "\<forall>x \<in> set after. \<not> releases aid x"
  shows "\<not> fst (fst (begin_consume aid now (run_ops C after r)))"
proof (rule not_started)
  have "claimed aid r" using assms(1) by (rule begin_started)
  moreover have "reg_inv C (set before) r"
    using begin_inv [OF run_ops_inv [of C before ttl durable], of aid t] assms(1) by simp
  ultimately show "burnt aid (run_ops C after r) \<or> claimed aid (run_ops C after r)"
    using run_ops_keeps(2) assms(2,3) by blast
qed

text \<open>
  Nothing is issued without a human decision in time. When a poll starts issuing, someone approved
  that identifier, and no longer ago than the registry's time to live (a decision stamped in the very
  first second of the Unix epoch apart, which the stored row cannot tell from none); and the request that
  is forwarded is the one that was registered under that identifier, or its reloaded copy without the
  bearer token.
\<close>

theorem issued_only_when_approved:
  assumes "begin_consume aid now (run_ops C ops (fresh_registry ttl durable)) = ((True, retry), r)"
  shows "\<exists>ok who learn decided. DecideOp ok aid True who learn decided \<in> set ops
      \<and> (now - decided \<le> rg_ttl (run_ops C ops (fresh_registry ttl durable)) \<or> unix_seconds decided = 0)
      \<and> (\<exists>q. approval_request aid r = Some q \<and> forwarded C (set ops) aid q)"
proof -
  let ?r = "run_ops C ops (fresh_registry ttl durable)"
  from assms obtain b where b: "map_of (rg_items ?r) aid = Some b" "ap_status b = StatusApproved"
    "now - (case ap_decided_at b of None \<Rightarrow> ap_created_at b | Some t \<Rightarrow> t) \<le> rg_ttl ?r"
    "approval_request aid r = Some (ap_req b)" by (rule begin_started)
  have ok: "item_ok C (set ops) aid b" using run_ops_inv [of C ops ttl durable] b(1) by (simp add: reg_inv_def registry_holds_def)
  then obtain ok learn t where t: "DecideOp ok aid True (ap_decided_by b) learn t \<in> set ops"
    "ap_decided_at b \<in> {Some t, Some (unix_time (unix_seconds t))} \<or> unix_seconds t = 0"
    using b(2) by (auto simp: item_ok_def)
  have "unix_time (unix_seconds t) \<le> t" by (simp add: unix_time_def unix_seconds_def)
  then have "now - t \<le> rg_ttl ?r \<or> unix_seconds t = 0" using t(2) b(3) by auto
  moreover have "\<exists>q. approval_request aid r = Some q \<and> forwarded C (set ops) aid q"
    using b(4) ok by (simp add: item_ok_def)
  ultimately show ?thesis using t(1) by blast
qed

text \<open>
  An approval whose end user was stripped never mints a waiver. In every state the registry can
  reach, restarts included, such an approval has no learning period.
\<close>

theorem stripped_never_learns:
  assumes "map_of (rg_items (run_ops C ops (fresh_registry ttl durable))) aid = Some a" and "ap_end_user_stripped a"
  shows "ap_learn_ttl a = 0"
  using run_ops_inv [of C ops ttl durable] assms by (simp add: reg_inv_def registry_holds_def item_ok_def)

text \<open>
  The end user's bearer token is never written to the database. Every stored request is the encoding
  of a registered request with an empty token.
\<close>

theorem bearer_never_persisted:
  assumes "rg_db (run_ops C ops (fresh_registry ttl durable)) = Some rows" and "row \<in> set rows"
  shows "\<exists>q. wr_bearer_token q = [] \<and> ar_request_json row = rq_marshal C q"
proof -
  have "row_ok C (set ops) row" using run_ops_inv [of C ops ttl durable] assms by (simp add: reg_inv_def registry_holds_def rows_hold_def)
  then obtain req where "ar_request_json row = rq_marshal C (req\<lparr>wr_bearer_token := []\<rparr>)" by (auto simp: row_ok_def)
  then show ?thesis by (intro exI [of _ "req\<lparr>wr_bearer_token := []\<rparr>"]) simp
qed

section \<open>Witnesses\<close>

definition example_wire_request :: wire_request where
  "example_wire_request =
     \<lparr>wr_host = ''web1'', wr_role = [], wr_purpose = [], wr_session_mode = [], wr_command = ''reboot'', wr_ttl_seconds = 60,
      wr_public_key = ''k'', wr_target_type = [], wr_k8s_verb = [], wr_k8s_resource = [], wr_k8s_group = [],
      wr_k8s_namespace = [], wr_k8s_name = [], wr_sudo = False, wr_sudo_user = [], wr_pty = False,
      wr_file_transfer = False, wr_dry_run = False, wr_preflight = False, wr_on_behalf_of = [], wr_approved = False,
      wr_end_user = ''alice'', wr_end_user_groups = None, wr_end_user_context = [], wr_bearer_token = ''secret'',
      wr_learn_ttl_seconds = 0, wr_learn_approver = [], wr_learn_approval_id = []\<rparr>"

definition example_request_codec :: request_codec where
  "example_request_codec = \<lparr>rq_marshal = wr_command,
     rq_unmarshal = (\<lambda>s. Some (example_wire_request\<lparr>wr_command := s, wr_bearer_token := []\<rparr>))\<rparr>"

definition example_history :: "bool \<Rightarrow> reg_op list" where
  "example_history stripped =
     [CreateOp (Some ''a1'') True True example_wire_request ''broker'' (Some ''^reboot'') stripped (10 * go_second),
      DecideOp True ''a1'' True ''bob'' 0 (20 * go_second)]"

definition example_approved :: registry where
  "example_approved = run_ops example_request_codec (example_history True) (fresh_registry go_minute True)"

lemma example_approved_item:
  "map_has (rg_items example_approved) ''a1''"
  "map_option (\<lambda>a. (ap_end_user_stripped a, ap_learn_ttl a, ap_decided_by a)) (map_of (rg_items example_approved) ''a1'') = Some (True, 0, ''bob'')"
  "map_option (map ar_request_json) (rg_db example_approved) = Some [''reboot'']"
  "fst (begin_consume ''a1'' (70 * go_second) example_approved) = (True, False)"
  unfolding example_approved_def by code_simp+

text \<open>The approved request can be issued; after the claim it is gone, across a restart too.\<close>

theorem approval_single_use_witness:
  "fst (fst (begin_consume ''a1'' (70 * go_second) example_approved))
   \<and> \<not> fst (fst (begin_consume ''a1'' (80 * go_second) (run_ops example_request_codec
        (example_history True @ FinishOp True ''a1'' True # [RestartOp go_minute (75 * go_second)]) (fresh_registry go_minute True))))"
  using example_approved_item(1,4)
    approval_single_use [of example_request_codec "example_history True" go_minute True "''a1''" "[RestartOp go_minute (75 * go_second)]"]
  by (simp add: example_approved_def creates_def)

lemma example_begun:
  "begin_consume ''a1'' (70 * go_second) (run_ops example_request_codec (example_history True) (fresh_registry go_minute True))
     = ((True, False), snd (begin_consume ''a1'' (70 * go_second) example_approved))"
  using example_approved_item(4) by (simp add: example_approved_def prod_eq_iff)

theorem approval_claim_exclusive_witness:
  "\<not> fst (fst (begin_consume ''a1'' (72 * go_second)
       (run_ops example_request_codec [GetOp ''a1'' (71 * go_second)] (snd (begin_consume ''a1'' (70 * go_second) example_approved)))))"
  by (rule approval_claim_exclusive [OF example_begun]) (simp_all add: creates_def releases_def)

theorem issued_only_when_approved_witness:
  "\<exists>ok who learn decided. DecideOp ok ''a1'' True who learn decided \<in> set (example_history True)
     \<and> approval_request ''a1'' (snd (begin_consume ''a1'' (70 * go_second) example_approved)) \<noteq> None"
  using issued_only_when_approved [OF example_begun] by blast

theorem stripped_never_learns_witness:
  "\<exists>a. map_of (rg_items example_approved) ''a1'' = Some a \<and> ap_end_user_stripped a \<and> ap_learn_ttl a = 0"
proof -
  obtain a where a: "map_of (rg_items example_approved) ''a1'' = Some a" "ap_end_user_stripped a"
    using example_approved_item(2) by auto
  then have "ap_learn_ttl a = 0" unfolding example_approved_def by (rule stripped_never_learns)
  with a show ?thesis by blast
qed

theorem bearer_never_persisted_witness:
  "\<exists>rows row q. rg_db example_approved = Some rows \<and> row \<in> set rows \<and> wr_bearer_token q = []
     \<and> ar_request_json row = rq_marshal example_request_codec q"
proof -
  obtain rows where rows: "rg_db example_approved = Some rows" "map ar_request_json rows = [''reboot'']"
    using example_approved_item(3) by auto
  then obtain row where row: "row \<in> set rows" by (cases rows) auto
  from rows(1) have "rg_db (run_ops example_request_codec (example_history True) (fresh_registry go_minute True)) = Some rows"
    by (simp add: example_approved_def)
  from bearer_never_persisted [OF this row] rows(1) row show ?thesis by blast
qed

end
