(* ===== verification/Bounded_Table.thy ===== *)
theory Bounded_Table
  imports Go_Prelude
begin

text \<open>
  The interface of an in-memory table with a bound on its size. Before a new key is inserted the
  table's owner makes room; an old key is updated in place. The laws say what making room keeps: the
  key invariant, nothing but existing entries, and room for one more whenever the bound held and all
  keys are admissible.
\<close>

locale bounded_table =
  fixes limit :: nat
    and admissible :: "'k \<Rightarrow> bool"
    and make_room :: "go_time \<Rightarrow> ('k, 'v) go_map \<Rightarrow> ('k, 'v) go_map"
  assumes room_inv: "go_map_inv m \<Longrightarrow> go_map_inv (make_room now m)"
    and room_sub: "go_map_inv m \<Longrightarrow> map_of (make_room now m) k = Some v \<Longrightarrow> map_of m k = Some v"
    and room_free: "go_map_inv m \<Longrightarrow> length m \<le> limit \<Longrightarrow> \<forall>k \<in> fst ` set m. admissible k \<Longrightarrow>
      length (make_room now m) < limit"
begin

definition enter :: "go_time \<Rightarrow> 'k \<Rightarrow> 'v \<Rightarrow> ('k, 'v) go_map \<Rightarrow> ('k, 'v) go_map" where
  "enter now k v m = AList.update k v (if map_has m k then m else make_room now m)"

definition table_inv :: "('k, 'v) go_map \<Rightarrow> bool" where
  "table_inv m \<longleftrightarrow> go_map_inv m \<and> length m \<le> limit \<and> (\<forall>k \<in> fst ` set m. admissible k)"

lemma room_keys: "go_map_inv m \<Longrightarrow> fst ` set (make_room now m) \<subseteq> fst ` set m"
  using room_inv room_sub by (force simp: map_of_iff_in_set)

lemma enter_inv:
  assumes "table_inv m" and "admissible k"
  shows "table_inv (enter now k v m)"
proof (cases "map_has m k")
  case True
  then have "length (AList.update k v m) = length m" by (rule length_update_old)
  with True assms show ?thesis by (auto simp: table_inv_def enter_def dom_update)
next
  case False
  have r: "go_map_inv (make_room now m)" "length (make_room now m) < limit"
    using assms room_inv room_free by (auto simp: table_inv_def)
  have "length (AList.update k v (make_room now m)) \<le> Suc (length (make_room now m))"
    by (rule length_update_le)
  moreover have "\<forall>j \<in> fst ` set (make_room now m). admissible j"
    using assms(1) room_keys [of m now] unfolding table_inv_def by blast
  ultimately show ?thesis using r False assms(2)
    by (simp add: table_inv_def enter_def dom_update)
qed

lemma enter_lookup: "map_of (enter now k v m) k = Some v"
  by (simp add: enter_def map_of_update)

lemma enter_other:
  assumes "table_inv m" and "map_of (enter now k v m) j = Some w" and "j \<noteq> k"
  shows "map_of m j = Some w"
  using assms room_sub by (auto simp: enter_def map_of_update table_inv_def split: if_splits)

end

section \<open>Removing the oldest entry\<close>

text \<open>
  The scan for the least recently used entry: the first entry, replaced by any later one that is
  strictly older.
\<close>

fun oldest_of :: "('v \<Rightarrow> go_time) \<Rightarrow> 'k \<times> go_time \<Rightarrow> ('k \<times> 'v) list \<Rightarrow> 'k" where
  "oldest_of seen (k, t) [] = k"
| "oldest_of seen (k, t) ((j, v) # m) =
     (if seen v < t then oldest_of seen (j, seen v) m else oldest_of seen (k, t) m)"

lemma oldest_of_in: "oldest_of seen (k, t) m \<in> insert k (fst ` set m)"
proof (induction m arbitrary: k t)
  case (Cons p m)
  obtain j v where p: "p = (j, v)" by (cases p)
  show ?case using Cons.IH [of j "seen v"] Cons.IH [of k t] p by auto
qed simp

definition oldest_key :: "('v \<Rightarrow> go_time) \<Rightarrow> ('k, 'v) go_map \<Rightarrow> 'k option" where
  "oldest_key seen m = (case m of [] \<Rightarrow> None | (k, v) # rest \<Rightarrow> Some (oldest_of seen (k, seen v) rest))"

lemma oldest_of_least:
  "\<exists>t'. (oldest_of seen (k, t) m = k \<and> t' = t \<or> (\<exists>v. (oldest_of seen (k, t) m, v) \<in> set m \<and> t' = seen v))
     \<and> t' \<le> t \<and> (\<forall>(j, v) \<in> set m. t' \<le> seen v)"
proof (induction m arbitrary: k t)
  case (Cons p m)
  obtain j v where p: "p = (j, v)" by (cases p)
  show ?case
  proof (cases "seen v < t")
    case True
    from Cons.IH [of j "seen v"] obtain t' where t':
      "oldest_of seen (j, seen v) m = j \<and> t' = seen v \<or> (\<exists>w. (oldest_of seen (j, seen v) m, w) \<in> set m \<and> t' = seen w)"
      "t' \<le> seen v" "\<forall>(j, v) \<in> set m. t' \<le> seen v" by blast
    show ?thesis by (rule exI [of _ t']) (use t' True p in auto)
  next
    case False
    from Cons.IH [of k t] obtain t' where t':
      "oldest_of seen (k, t) m = k \<and> t' = t \<or> (\<exists>w. (oldest_of seen (k, t) m, w) \<in> set m \<and> t' = seen w)"
      "t' \<le> t" "\<forall>(j, v) \<in> set m. t' \<le> seen v" by blast
    show ?thesis by (rule exI [of _ t']) (use t' False p in auto)
  qed
qed auto

lemma oldest_key_has: "oldest_key seen m = Some k \<Longrightarrow> map_has m k"
proof (cases m)
  case (Cons p rest)
  assume "oldest_key seen m = Some k"
  with Cons have "k \<in> insert (fst p) (fst ` set rest)"
    using oldest_of_in [of seen "fst p" "seen (snd p)" rest] by (cases p) (auto simp: oldest_key_def)
  with Cons show ?thesis by (auto simp: map_has_def map_of_eq_None_iff simp del: map_of.simps)
qed (simp add: oldest_key_def)

lemma length_delete_oldest:
  assumes "go_map_inv m" and "oldest_key seen m = Some k"
  shows "Suc (length (AList.delete k m)) = length m"
  using length_delete_has [OF assms(1) oldest_key_has [OF assms(2)]] .

end
