(* ===== verification/Behavior.thy ===== *)
theory Behavior
  imports Bounded_Table
begin

text \<open>
  The behaviour guardrails of the control plane, \<open>internal/control/behavior.go\<close>: a bounded table of
  subjects, each with its recent request times and the hosts and programs it has used. A request is
  checked against that history; in enforce mode an anomalous request teaches the tracker nothing.

  A Go map with empty values is a list without repetitions. The clock reading of a call is an argument;
  every call runs under the tracker's mutex and is one step.
\<close>

section \<open>Data\<close>

abbreviation BehaviorOff :: string where "BehaviorOff \<equiv> ''off''"
abbreviation BehaviorObserve :: string where "BehaviorObserve \<equiv> ''observe''"
abbreviation BehaviorEnforce :: string where "BehaviorEnforce \<equiv> ''enforce''"

abbreviation default_max_subjects :: nat where "default_max_subjects \<equiv> 4096"
abbreviation default_subject_ttl :: go_duration where "default_subject_ttl \<equiv> 1440 * go_minute"
abbreviation default_max_distinct_hosts :: nat where "default_max_distinct_hosts \<equiv> 1024"

record behavior_config =
  bc_mode :: string
  bc_rate_limit_per_min :: int
  bc_max_subjects :: int
  bc_subject_ttl_minutes :: int
  bc_max_distinct_per_subject :: int

record subject_state =
  ss_events :: "go_time list"
  ss_hosts :: "string list"
  ss_cmds :: "string list"
  ss_last_seen :: go_time

record behavior_tracker =
  bt_cfg :: behavior_config
  bt_subjects :: "(string, subject_state) go_map"
  bt_max_subjects :: nat
  bt_subject_ttl :: go_duration
  bt_max_distinct :: nat

definition new_behavior_tracker :: "behavior_config \<Rightarrow> behavior_tracker" where
  "new_behavior_tracker cfg =
     \<lparr>bt_cfg = cfg, bt_subjects = [],
      bt_max_subjects = (if bc_max_subjects cfg \<le> 0 then default_max_subjects else nat (bc_max_subjects cfg)),
      bt_subject_ttl = (let ttl = signed_take_bit 63 (bc_subject_ttl_minutes cfg * go_minute)
                        in if ttl \<le> 0 then default_subject_ttl else ttl),
      bt_max_distinct = (if bc_max_distinct_per_subject cfg \<le> 0 then default_max_distinct_hosts
                         else nat (bc_max_distinct_per_subject cfg))\<rparr>"

definition behavior_enabled :: "behavior_tracker \<Rightarrow> bool" where
  "behavior_enabled t \<longleftrightarrow> bc_mode (bt_cfg t) = BehaviorObserve \<or> bc_mode (bt_cfg t) = BehaviorEnforce"

definition behavior_enforcing :: "behavior_tracker \<Rightarrow> bool" where
  "behavior_enforcing t \<longleftrightarrow> bc_mode (bt_cfg t) = BehaviorEnforce"

section \<open>Operations\<close>

definition first_token :: "string \<Rightarrow> string" where
  "first_token command = (case go_fields command of [] \<Rightarrow> [] | w # _ \<Rightarrow> w)"

text \<open>
  The eviction loop deletes idle subjects and scans the others for the least recently seen one. The
  empty string marks \<open>nothing found yet\<close>, so a subject with the empty name is always replaced by the next.
\<close>

fun oldest_subject :: "string \<times> go_time \<Rightarrow> (string, subject_state) go_map \<Rightarrow> string" where
  "oldest_subject (k, seen) [] = k"
| "oldest_subject (k, seen) ((j, st) # m) =
     (if k = [] \<or> ss_last_seen st < seen then oldest_subject (j, ss_last_seen st) m else oldest_subject (k, seen) m)"

definition evict_locked :: "nat \<Rightarrow> go_duration \<Rightarrow> go_time \<Rightarrow> (string, subject_state) go_map \<Rightarrow> (string, subject_state) go_map" where
  "evict_locked max_subjects ttl now m =
     (if length m < max_subjects then m
      else let kept = map_keep (\<lambda>_ st. \<not> ss_last_seen st < now - ttl) m;
               oldest = oldest_subject ([], 0) kept
           in if max_subjects \<le> length kept \<and> oldest \<noteq> [] then AList.delete oldest kept else kept)"

definition learn_locked :: "nat \<Rightarrow> string \<Rightarrow> string \<Rightarrow> subject_state \<Rightarrow> subject_state" where
  "learn_locked max_distinct host fp st =
     (let st = (if length (ss_hosts st) < max_distinct then st\<lparr>ss_hosts := List.insert host (ss_hosts st)\<rparr> else st)
      in if fp \<noteq> [] \<and> length (ss_cmds st) < max_distinct then st\<lparr>ss_cmds := List.insert fp (ss_cmds st)\<rparr> else st)"

definition empty_subject :: "go_time \<Rightarrow> subject_state" where
  "empty_subject now = \<lparr>ss_events = [], ss_hosts = [], ss_cmds = [], ss_last_seen = now\<rparr>"

text \<open>The subject's entry, made when missing, and the table in which it will be filed.\<close>

definition subject_entry :: "string \<Rightarrow> go_time \<Rightarrow> behavior_tracker \<Rightarrow> subject_state" where
  "subject_entry subject now t =
     (case map_of (bt_subjects t) subject of None \<Rightarrow> empty_subject now | Some st \<Rightarrow> st\<lparr>ss_last_seen := now\<rparr>)"

definition file_subject :: "string \<Rightarrow> go_time \<Rightarrow> subject_state \<Rightarrow> behavior_tracker \<Rightarrow> behavior_tracker" where
  "file_subject subject now st t =
     t\<lparr>bt_subjects := AList.update subject st
         (if map_has (bt_subjects t) subject then bt_subjects t
          else evict_locked (bt_max_subjects t) (bt_subject_ttl t) now (bt_subjects t))\<rparr>"

definition record_event :: "int \<Rightarrow> go_time \<Rightarrow> subject_state \<Rightarrow> subject_state" where
  "record_event limit now st =
     (if 0 < limit then st\<lparr>ss_events := filter (\<lambda>e. now - go_minute < e) (ss_events st) @ [now]\<rparr> else st)"

definition rate_exceeded :: "int \<Rightarrow> subject_state \<Rightarrow> bool" where
  "rate_exceeded limit st \<longleftrightarrow> 0 < limit \<and> limit < int (length (ss_events st))"

definition novel_anomalies :: "nat \<Rightarrow> bool \<Rightarrow> string \<Rightarrow> string \<Rightarrow> subject_state \<Rightarrow> string list" where
  "novel_anomalies max_distinct seen host fp st =
     (if seen then
        (if host \<notin> set (ss_hosts st) \<and> \<not> max_distinct \<le> length (ss_hosts st) then [''new-host:'' @ host] else [])
        @ (if fp \<noteq> [] \<and> fp \<notin> set (ss_cmds st) \<and> \<not> max_distinct \<le> length (ss_cmds st) then [''new-command:'' @ fp] else [])
      else [])"

definition behavior_check :: "string \<Rightarrow> string \<Rightarrow> string \<Rightarrow> go_time \<Rightarrow> behavior_tracker \<Rightarrow> (string list \<times> bool) \<times> behavior_tracker" where
  "behavior_check subject host command now t =
     (if \<not> behavior_enabled t then (([], False), t)
      else
        let limit = bc_rate_limit_per_min (bt_cfg t);
            seen = map_has (bt_subjects t) subject;
            st = record_event limit now (subject_entry subject now t);
            exceeded = rate_exceeded limit st;
            fp = first_token command;
            anomalies = (if exceeded then [''rate-exceeded''] else []) @ novel_anomalies (bt_max_distinct t) seen host fp st;
            st = (if \<not> behavior_enforcing t \<or> anomalies = [] then learn_locked (bt_max_distinct t) host fp st else st)
        in ((anomalies, exceeded), file_subject subject now st t))"

definition behavior_learn :: "string \<Rightarrow> string \<Rightarrow> string \<Rightarrow> go_time \<Rightarrow> behavior_tracker \<Rightarrow> behavior_tracker" where
  "behavior_learn subject host command now t =
     (if \<not> behavior_enabled t then t
      else file_subject subject now
             (learn_locked (bt_max_distinct t) host (first_token command) (subject_entry subject now t)) t)"

section \<open>The subject table is bounded\<close>

lemma oldest_subject_in:
  "oldest_subject (k, seen) m \<in> insert k (fst ` set m)"
  "k \<noteq> [] \<Longrightarrow> [] \<notin> fst ` set m \<Longrightarrow> oldest_subject (k, seen) m \<noteq> []"
  by (induction "(k, seen)" m arbitrary: k seen rule: oldest_subject.induct) (auto split: if_splits)

lemma oldest_subject_found:
  assumes "m \<noteq> []" and "[] \<notin> fst ` set m"
  shows "oldest_subject ([], s) m \<noteq> []" and "oldest_subject ([], s) m \<in> fst ` set m"
proof -
  obtain j st n where m: "m = (j, st) # n" using assms(1) by (cases m) auto
  then have j: "j \<noteq> []" "[] \<notin> fst ` set n" using assms(2) by auto
  show "oldest_subject ([], s) m \<noteq> []" using oldest_subject_in(2) [OF j] m by simp
  show "oldest_subject ([], s) m \<in> fst ` set m" using oldest_subject_in(1) [of j "ss_last_seen st" n] m by simp
qed

lemma evict_sub: "go_map_inv m \<Longrightarrow> map_of (evict_locked n ttl now m) k = Some v \<Longrightarrow> map_of m k = Some v"
  by (auto simp: evict_locked_def Let_def map_of_keep map_of_delete split: if_splits option.splits)

lemma evict_free:
  assumes "go_map_inv m" and "length m \<le> Suc n" and "\<forall>k \<in> fst ` set m. k \<noteq> []"
  shows "length (evict_locked (Suc n) ttl now m) < Suc n"
proof -
  let ?kept = "map_keep (\<lambda>_ st. \<not> ss_last_seen st < now - ttl) m"
  have len: "length ?kept \<le> Suc n" using assms(2) length_map_keep le_trans by blast
  have "Suc (length (AList.delete (oldest_subject ([], 0) ?kept) ?kept)) = length ?kept \<and> oldest_subject ([], 0) ?kept \<noteq> []"
    if "Suc n \<le> length ?kept"
  proof -
    have "?kept \<noteq> []" using that by auto
    moreover have "[] \<notin> fst ` set ?kept" using assms(3) by (force simp: set_map_keep)
    ultimately have *: "oldest_subject ([], 0) ?kept \<noteq> []" "oldest_subject ([], 0) ?kept \<in> fst ` set ?kept"
      by (rule oldest_subject_found)+
    then have "map_has ?kept (oldest_subject ([], 0) ?kept)" by (auto simp: map_has_def map_of_eq_None_iff)
    from length_delete_has [OF go_map_inv_keep [OF assms(1)] this] *(1) show ?thesis by (intro conjI)
  qed
  with len show ?thesis by (auto simp: evict_locked_def Let_def)
qed

interpretation bt: bounded_table "Suc n" "\<lambda>k. k \<noteq> []" "evict_locked (Suc n) ttl" for n ttl
proof
  show "go_map_inv (evict_locked (Suc n) ttl now m)" if "go_map_inv m" for m now
    using that by (auto simp: evict_locked_def Let_def)
qed (auto intro: evict_sub evict_free)

definition subject_ok :: "nat \<Rightarrow> subject_state \<Rightarrow> bool" where
  "subject_ok n st \<longleftrightarrow> distinct (ss_hosts st) \<and> distinct (ss_cmds st) \<and> length (ss_hosts st) \<le> n \<and> length (ss_cmds st) \<le> n"

definition tracker_inv :: "behavior_tracker \<Rightarrow> bool" where
  "tracker_inv t \<longleftrightarrow> 0 < bt_max_subjects t \<and> bt.table_inv (bt_max_subjects t - 1) (bt_subjects t)
     \<and> (\<forall>k st. map_of (bt_subjects t) k = Some st \<longrightarrow> subject_ok (bt_max_distinct t) st)"

lemma learn_ok: "subject_ok n st \<Longrightarrow> subject_ok n (learn_locked n host fp st)"
  by (auto simp: subject_ok_def learn_locked_def Let_def List.insert_def)

lemma entry_ok: "tracker_inv t \<Longrightarrow> subject_ok (bt_max_distinct t) (subject_entry subject now t)"
  by (auto simp: subject_entry_def empty_subject_def tracker_inv_def subject_ok_def split: option.splits)

lemma event_ok: "subject_ok n (record_event limit now st) = subject_ok n st"
  by (simp add: record_event_def subject_ok_def)

lemma file_subject_inv:
  assumes "tracker_inv t" and "subject \<noteq> []" and "subject_ok (bt_max_distinct t) st"
  shows "tracker_inv (file_subject subject now st t)"
proof -
  obtain n where n: "bt_max_subjects t = Suc n" using assms(1) by (cases "bt_max_subjects t") (auto simp: tracker_inv_def)
  have inv: "bt.table_inv n (bt_subjects t)" using assms(1) n by (simp add: tracker_inv_def)
  have enter: "bt_subjects (file_subject subject now st t) = bt.enter n (bt_subject_ttl t) now subject st (bt_subjects t)"
    using n by (simp add: file_subject_def bt.enter_def)
  have "subject_ok (bt_max_distinct t) st'"
    if "map_of (bt.enter n (bt_subject_ttl t) now subject st (bt_subjects t)) k = Some st'" for k st'
  proof (cases "k = subject")
    case True
    then show ?thesis using that assms(3) by (simp add: bt.enter_lookup)
  next
    case False
    with bt.enter_other [OF inv that] assms(1) show ?thesis by (simp add: tracker_inv_def)
  qed
  moreover have "bt.table_inv n (bt.enter n (bt_subject_ttl t) now subject st (bt_subjects t))"
    using bt.enter_inv [OF inv assms(2)] .
  ultimately show ?thesis using n unfolding tracker_inv_def enter by (simp add: file_subject_def)
qed

lemma check_inv:
  assumes "tracker_inv t" and "subject \<noteq> []"
  shows "tracker_inv (snd (behavior_check subject host command now t))"
  using file_subject_inv [OF assms] entry_ok [OF assms(1), of subject now]
  by (auto simp: behavior_check_def Let_def event_ok learn_ok assms(1))

lemma learn_inv:
  assumes "tracker_inv t" and "subject \<noteq> []"
  shows "tracker_inv (behavior_learn subject host command now t)"
  using file_subject_inv [OF assms] entry_ok [OF assms(1), of subject now]
  by (auto simp: behavior_learn_def learn_ok assms(1))

lemma table_inv_Nil: "bt.table_inv n []"
  by (simp add: bt.table_inv_def)

inductive tracker_reachable :: "behavior_config \<Rightarrow> behavior_tracker \<Rightarrow> bool" for cfg where
  start: "tracker_reachable cfg (new_behavior_tracker cfg)"
| check: "tracker_reachable cfg t \<Longrightarrow> subject \<noteq> [] \<Longrightarrow> tracker_reachable cfg (snd (behavior_check subject host command now t))"
| learn: "tracker_reachable cfg t \<Longrightarrow> subject \<noteq> [] \<Longrightarrow> tracker_reachable cfg (behavior_learn subject host command now t)"

lemma tracker_reachable_inv: "tracker_reachable cfg t \<Longrightarrow> tracker_inv t"
proof (induction rule: tracker_reachable.induct)
  case start
  show ?case unfolding tracker_inv_def using table_inv_Nil by (simp add: new_behavior_tracker_def del: Suc_pred)
qed (simp_all add: check_inv learn_inv)

lemma check_keeps_cfg [simp]:
  "bt_cfg (snd (behavior_check subject host command now t)) = bt_cfg t"
  "bt_max_subjects (snd (behavior_check subject host command now t)) = bt_max_subjects t"
  "bt_max_distinct (snd (behavior_check subject host command now t)) = bt_max_distinct t"
  by (simp_all add: behavior_check_def file_subject_def Let_def)

section \<open>Enforcement and the rate window\<close>

text \<open>A value that raises no novelty is not learned either: it is known already, or the set is full.\<close>

lemma learn_nothing_new:
  assumes "novel_anomalies n True host fp st = []"
  shows "learn_locked n host fp st = st"
  using assms by (auto simp: novel_anomalies_def learn_locked_def Let_def in_set_insert split: if_splits)

lemma file_subject_lookup:
  assumes "go_map_inv (bt_subjects t)" and "map_of (bt_subjects (file_subject k now st t)) j = Some st'"
  shows "if j = k then st' = st else map_of (bt_subjects t) j = Some st'"
  using assms by (auto simp: file_subject_def map_of_update dest: evict_sub split: if_splits)

lemma novel_record_event [simp]: "novel_anomalies n b host fp (record_event l now st) = novel_anomalies n b host fp st"
  by (simp add: novel_anomalies_def record_event_def)

lemma subject_entry_seen:
  "map_of (bt_subjects t) k = Some st \<Longrightarrow> subject_entry k now t = st\<lparr>ss_last_seen := now\<rparr>"
  by (simp add: subject_entry_def)

lemma novel_last_seen [simp]: "novel_anomalies n b host fp (st\<lparr>ss_last_seen := now\<rparr>) = novel_anomalies n b host fp st"
  by (simp add: novel_anomalies_def)

lemma check_seen:
  fixes host command :: string and now :: go_time
  assumes "behavior_enabled t" and "map_of (bt_subjects t) subject = Some st"
  defines "limit \<equiv> bc_rate_limit_per_min (bt_cfg t)" and "fp \<equiv> first_token command"
  defines "st1 \<equiv> record_event limit now (st\<lparr>ss_last_seen := now\<rparr>)"
  defines "anomalies \<equiv> (if rate_exceeded limit st1 then [''rate-exceeded''] else []) @ novel_anomalies (bt_max_distinct t) True host fp st"
  shows "behavior_check subject host command now t =
    ((anomalies, rate_exceeded limit st1),
     t\<lparr>bt_subjects := AList.update subject
         (if \<not> behavior_enforcing t \<or> anomalies = [] then learn_locked (bt_max_distinct t) host fp st1 else st1) (bt_subjects t)\<rparr>)"
  using assms(1,2) unfolding behavior_check_def limit_def fp_def st1_def anomalies_def
  by (simp add: Let_def subject_entry_def map_has_def file_subject_def)

lemma enforce_keeps_baseline:
  assumes "behavior_enforcing t" and "go_map_inv (bt_subjects t)" and "map_of (bt_subjects t) k = Some st"
    and "map_of (bt_subjects (snd (behavior_check subject host command now t))) k = Some st'"
  shows "ss_hosts st' = ss_hosts st \<and> ss_cmds st' = ss_cmds st"
proof -
  have en: "behavior_enabled t" using assms(1) by (simp add: behavior_enabled_def behavior_enforcing_def)
  show ?thesis
  proof (cases "subject = k")
    case True
    let ?st1 = "record_event (bc_rate_limit_per_min (bt_cfg t)) now (st\<lparr>ss_last_seen := now\<rparr>)"
    have "learn_locked (bt_max_distinct t) host (first_token command) ?st1 = ?st1"
      if "novel_anomalies (bt_max_distinct t) True host (first_token command) st = []"
      using that by (intro learn_nothing_new) simp
    then have "st' = ?st1" using assms(1,4) check_seen [OF en assms(3), of host command now] True
      by (auto simp: map_of_update split: if_splits)
    then show ?thesis by (simp add: record_event_def)
  next
    case False
    obtain st2 where "snd (behavior_check subject host command now t) = file_subject subject now st2 t"
      using en by (auto simp: behavior_check_def Let_def)
    with file_subject_lookup [OF assms(2)] assms(3,4) False show ?thesis by (metis option.inject)
  qed
qed

text \<open>A run of checks, and the request times of one subject in it.\<close>

record check_call =
  cc_subject :: string
  cc_host :: string
  cc_command :: string
  cc_time :: go_time

definition run_checks :: "check_call list \<Rightarrow> behavior_tracker \<Rightarrow> behavior_tracker" where
  "run_checks calls t =
     fold (\<lambda>c t. snd (behavior_check (cc_subject c) (cc_host c) (cc_command c) (cc_time c) t)) calls t"

definition times_of :: "string \<Rightarrow> check_call list \<Rightarrow> go_time list" where
  "times_of k calls = map cc_time (filter (\<lambda>c. cc_subject c = k) calls)"

lemma run_checks_snoc [simp]:
  "run_checks (calls @ [c]) t =
     snd (behavior_check (cc_subject c) (cc_host c) (cc_command c) (cc_time c) (run_checks calls t))"
  "run_checks [] t = t"
  by (simp_all add: run_checks_def)

lemma times_of_snoc [simp]:
  "times_of k (calls @ [c]) = times_of k calls @ (if cc_subject c = k then [cc_time c] else [])" "times_of k [] = []"
  by (simp_all add: times_of_def)

lemma run_checks_cfg [simp]:
  "bt_cfg (run_checks calls t) = bt_cfg t" "bt_max_subjects (run_checks calls t) = bt_max_subjects t"
  "bt_max_distinct (run_checks calls t) = bt_max_distinct t"
  by (induction calls rule: rev_induct) simp_all

definition window :: "go_time \<Rightarrow> go_time list \<Rightarrow> go_time list" where
  "window now ts = filter (\<lambda>e. now - go_minute < e) ts"

lemma window_window: "a \<le> b \<Longrightarrow> window b (window a ts) = window b ts"
  by (auto simp: window_def intro!: filter_cong)

definition history_of :: "string \<Rightarrow> check_call list \<Rightarrow> subject_state option \<Rightarrow> bool" where
  "history_of k calls s \<longleftrightarrow> (case s of None \<Rightarrow> times_of k calls = []
     | Some st \<Rightarrow> times_of k calls \<noteq> [] \<and> ss_events st = window (last (times_of k calls)) (times_of k calls))"

lemma learn_events [simp]: "ss_events (learn_locked n host fp st) = ss_events st"
  by (simp add: learn_locked_def Let_def)

lemma recorded_events:
  assumes "0 < limit" and "history_of k calls (map_of (bt_subjects t) k)" and "sorted (times_of k calls @ [now])"
  shows "ss_events (record_event limit now (subject_entry k now t)) = window now (times_of k calls @ [now])"
proof (cases "map_of (bt_subjects t) k")
  case None
  then show ?thesis using assms by (simp add: record_event_def subject_entry_def empty_subject_def history_of_def window_def)
next
  case (Some st)
  then have ts: "times_of k calls \<noteq> []" "ss_events st = window (last (times_of k calls)) (times_of k calls)"
    using assms(2) by (auto simp: history_of_def)
  then have "last (times_of k calls) \<le> now" using assms(3) by (simp add: sorted_append)
  from window_window [OF this] ts(2) show ?thesis using Some assms(1)
    by (simp add: record_event_def subject_entry_def window_def)
qed

lemma check_files:
  assumes "behavior_enabled t" and "0 < bc_rate_limit_per_min (bt_cfg t)"
  obtains st where "snd (behavior_check k host command now t) = file_subject k now st t"
    and "ss_events st = ss_events (record_event (bc_rate_limit_per_min (bt_cfg t)) now (subject_entry k now t))"
    and "snd (fst (behavior_check k host command now t)) \<longleftrightarrow> bc_rate_limit_per_min (bt_cfg t) < int (length (ss_events st))"
  using assms by (auto simp: behavior_check_def Let_def rate_exceeded_def)

text \<open>While every subject fits into the table nothing is evicted.\<close>

lemma no_eviction:
  assumes "go_map_inv m" and "finite S" and "fst ` set m \<subseteq> S" and "k \<in> S" and "k \<notin> fst ` set m" and "card S \<le> n"
  shows "evict_locked n ttl now m = m"
proof -
  have "fst ` set m \<subset> S" using assms(3-5) by blast
  then have "card (fst ` set m) < card S" by (rule psubset_card_mono [OF assms(2)])
  moreover have "card (fst ` set m) = length m" using assms(1) by (metis distinct_card go_map_inv_def length_map list.set_map)
  ultimately show ?thesis using assms(6) by (simp add: evict_locked_def)
qed

lemma file_subject_plain:
  assumes "go_map_inv (bt_subjects t)" and "finite S" and "fst ` set (bt_subjects t) \<subseteq> S" and "k \<in> S"
    and "card S \<le> bt_max_subjects t"
  shows "bt_subjects (file_subject k now st t) = AList.update k st (bt_subjects t)"
proof (cases "map_has (bt_subjects t) k")
  case False
  then have "k \<notin> fst ` set (bt_subjects t)" by (auto simp: map_has_def map_of_eq_None_iff)
  from no_eviction [OF assms(1-4) this assms(5)] False show ?thesis by (simp add: file_subject_def)
qed (simp add: file_subject_def)

lemma run_checks_history:
  assumes "behavior_enabled (new_behavior_tracker cfg)" and "0 < bc_rate_limit_per_min cfg"
    and "finite S" and "cc_subject ` set calls \<subseteq> S" and "card S \<le> bt_max_subjects (new_behavior_tracker cfg)"
    and "\<forall>k. sorted (times_of k calls)"
  defines "t \<equiv> run_checks calls (new_behavior_tracker cfg)"
  shows "go_map_inv (bt_subjects t) \<and> fst ` set (bt_subjects t) \<subseteq> S \<and> (\<forall>k. history_of k calls (map_of (bt_subjects t) k))"
  using assms(4,6) unfolding t_def
proof (induction calls rule: rev_induct)
  case Nil
  show ?case by (simp add: new_behavior_tracker_def history_of_def)
next
  case (snoc c calls)
  let ?t = "run_checks calls (new_behavior_tracker cfg)"
  let ?k = "cc_subject c"
  have "\<forall>k. sorted (times_of k calls)" using snoc.prems(2) by (auto simp: sorted_append split: if_splits)
  with snoc have IH: "go_map_inv (bt_subjects ?t)" "fst ` set (bt_subjects ?t) \<subseteq> S" "\<And>k. history_of k calls (map_of (bt_subjects ?t) k)"
    by simp_all
  have cfg: "bt_cfg ?t = cfg" "behavior_enabled ?t" using assms(1) by (simp_all add: behavior_enabled_def new_behavior_tracker_def)
  have "sorted (times_of ?k calls @ [cc_time c])" using snoc.prems(2) by (metis times_of_snoc(1))
  note rec = recorded_events [OF assms(2) IH(3) this]
  obtain st where st: "snd (behavior_check ?k (cc_host c) (cc_command c) (cc_time c) ?t) = file_subject ?k (cc_time c) st ?t"
    "ss_events st = window (cc_time c) (times_of ?k calls @ [cc_time c])"
    using check_files [OF cfg(2), of ?k "cc_host c" "cc_command c" "cc_time c"] assms(2) cfg(1) rec by metis
  have "bt_subjects (file_subject ?k (cc_time c) st ?t) = AList.update ?k st (bt_subjects ?t)"
    by (rule file_subject_plain [OF IH(1) assms(3) IH(2)]) (use snoc.prems assms(5) in auto)
  note upd = this
  have "history_of k (calls @ [c]) (map_of (AList.update ?k st (bt_subjects ?t)) k)" for k
    using IH(3) [of k] st(2) by (auto simp: map_of_update history_of_def split: option.splits)
  moreover have "fst ` set (AList.update ?k st (bt_subjects ?t)) \<subseteq> S"
    using IH(2) snoc.prems(1) by (auto simp: dom_update)
  ultimately show ?case using upd IH(1) by (simp add: st(1))
qed

lemma enforcing_enabled: "behavior_enforcing t \<Longrightarrow> behavior_enabled t"
  by (simp add: behavior_enabled_def behavior_enforcing_def)

lemma new_host_flagged:
  assumes "behavior_enabled t" and "map_of (bt_subjects t) k = Some st"
  shows "''new-host:'' @ h \<in> set (fst (fst (behavior_check k h c now t))) \<longleftrightarrow>
    h \<notin> set (ss_hosts st) \<and> length (ss_hosts st) < bt_max_distinct t"
  unfolding check_seen [OF assms] by (auto simp: novel_anomalies_def)

lemma enforce_run_baseline:
  assumes "tracker_reachable cfg t" and "behavior_enforcing t" and "\<forall>x \<in> set calls. cc_subject x \<noteq> []"
    and "map_of (bt_subjects t) k = Some st" and "map_of (bt_subjects (run_checks calls t)) k = Some st'"
    and "\<forall>pre. prefix pre calls \<longrightarrow> map_has (bt_subjects (run_checks pre t)) k"
  shows "ss_hosts st' = ss_hosts st"
  using assms(3,5,6)
proof (induction calls arbitrary: st' rule: rev_induct)
  case Nil
  then show ?case using assms(4) by simp
next
  case (snoc c calls)
  let ?t = "run_checks calls t"
  have "map_has (bt_subjects ?t) k" using snoc.prems(3) by simp
  then obtain st1 where st1: "map_of (bt_subjects ?t) k = Some st1" by (auto simp: map_has_def)
  have "\<forall>x \<in> set calls. cc_subject x \<noteq> []" using snoc.prems(1) by simp
  then have "tracker_inv ?t"
    using tracker_reachable_inv [OF assms(1)] by (induction calls rule: rev_induct) (simp_all add: check_inv)
  then have inv: "go_map_inv (bt_subjects ?t)" by (simp add: tracker_inv_def bt.table_inv_def)
  have "behavior_enforcing ?t" using assms(2) by (simp add: behavior_enforcing_def)
  from enforce_keeps_baseline [OF this inv st1] snoc.prems(2) have "ss_hosts st' = ss_hosts st1" by simp
  moreover have "ss_hosts st1 = ss_hosts st" by (rule snoc.IH) (use snoc.prems st1 in auto)
  ultimately show ?case by simp
qed

section \<open>Properties\<close>

text \<open>
  The tracker's tables are bounded. In every state the tracker can reach through checks and learning
  for non-empty subjects, whatever the clock does, it holds at most the configured number of subjects and,
  for each, at most the configured number of hosts and of programs.
\<close>

theorem tracker_bounded:
  assumes "tracker_reachable cfg t"
  shows "length (bt_subjects t) \<le> bt_max_subjects t
    \<and> (\<forall>k st. map_of (bt_subjects t) k = Some st \<longrightarrow>
         length (ss_hosts st) \<le> bt_max_distinct t \<and> length (ss_cmds st) \<le> bt_max_distinct t)"
  using tracker_reachable_inv [OF assms] by (auto simp: tracker_inv_def bt.table_inv_def subject_ok_def)

text \<open>
  In enforce mode requests cannot teach the tracker. When a request of a known subject is flagged for
  a new host, the same request stays flagged after any sequence of further checks, by whichever subjects,
  during which the subject is not evicted: only \<open>Learn\<close>, which the control plane calls after a human
  approved, makes the host known.
\<close>

theorem enforce_never_learns:
  assumes "tracker_reachable cfg t" and "behavior_enforcing t" and "\<forall>x \<in> set calls. cc_subject x \<noteq> []"
    and "''new-host:'' @ h \<in> set (fst (fst (behavior_check k h c t0 t)))"
    and "\<forall>pre. prefix pre calls \<longrightarrow> map_has (bt_subjects (run_checks pre t)) k"
  shows "''new-host:'' @ h \<in> set (fst (fst (behavior_check k h c' now (run_checks calls t))))"
proof -
  obtain st where st: "map_of (bt_subjects t) k = Some st"
    using assms(5) by (metis Nil_prefix map_has_def not_None_eq run_checks_snoc(2))
  obtain st' where st': "map_of (bt_subjects (run_checks calls t)) k = Some st'"
    using assms(5) by (metis map_has_def not_None_eq prefix_order.refl)
  have "ss_hosts st' = ss_hosts st" by (rule enforce_run_baseline [OF assms(1-3) st st' assms(5)])
  moreover have "h \<notin> set (ss_hosts st) \<and> length (ss_hosts st) < bt_max_distinct t"
    using new_host_flagged [OF enforcing_enabled [OF assms(2)] st] assms(4) by blast
  ultimately show ?thesis
    using new_host_flagged [OF enforcing_enabled st', of h c' now] assms(2) by (simp add: behavior_enforcing_def)
qed

text \<open>
  The rate limit counts exactly the last minute. As long as all subjects fit into the table, a check
  reports the limit as exceeded if and only if the subject made more than the allowed number of requests,
  this one and blocked ones included, in the minute that ends now.
\<close>

theorem rate_counts_last_minute:
  assumes "bc_mode cfg \<in> {BehaviorObserve, BehaviorEnforce}" and "0 < bc_rate_limit_per_min cfg"
    and "card (insert k (cc_subject ` set calls)) \<le> bt_max_subjects (new_behavior_tracker cfg)"
    and "\<forall>j. sorted (times_of j calls)" and "sorted (times_of k calls @ [now])"
  shows "snd (fst (behavior_check k host command now (run_checks calls (new_behavior_tracker cfg)))) \<longleftrightarrow>
    bc_rate_limit_per_min cfg < int (length (filter (\<lambda>e. now - go_minute < e) (times_of k calls))) + 1"
proof -
  let ?t = "run_checks calls (new_behavior_tracker cfg)"
  have en: "behavior_enabled (new_behavior_tracker cfg)" and cfg: "bt_cfg ?t = cfg" "behavior_enabled ?t"
    using assms(1) by (auto simp: behavior_enabled_def new_behavior_tracker_def)
  have "history_of k calls (map_of (bt_subjects ?t) k)"
    using run_checks_history [OF en assms(2) _ _ assms(3,4)] by blast
  note rec = recorded_events [OF assms(2) this assms(5)]
  have "0 < bc_rate_limit_per_min (bt_cfg ?t)" using assms(2) cfg(1) by simp
  then obtain st where "snd (behavior_check k host command now ?t) = file_subject k now st ?t"
    "ss_events st = ss_events (record_event (bc_rate_limit_per_min (bt_cfg ?t)) now (subject_entry k now ?t))"
    "snd (fst (behavior_check k host command now ?t)) \<longleftrightarrow> bc_rate_limit_per_min (bt_cfg ?t) < int (length (ss_events st))"
    by (rule check_files [OF cfg(2)])
  then show ?thesis using rec cfg(1) by (auto simp: window_def)
qed

section \<open>Witnesses\<close>

definition example_behavior :: behavior_config where
  "example_behavior = \<lparr>bc_mode = BehaviorEnforce, bc_rate_limit_per_min = 2, bc_max_subjects = 2,
     bc_subject_ttl_minutes = 0, bc_max_distinct_per_subject = 0\<rparr>"

definition example_calls :: "check_call list" where
  "example_calls = [\<lparr>cc_subject = ''b'', cc_host = ''web1'', cc_command = ''ls'', cc_time = 0\<rparr>,
     \<lparr>cc_subject = ''b'', cc_host = ''db1'', cc_command = ''ls'', cc_time = 10 * go_second\<rparr>]"

definition example_tracker :: behavior_tracker where
  "example_tracker = run_checks example_calls (new_behavior_tracker example_behavior)"

lemma example_tracker_reachable: "tracker_reachable example_behavior example_tracker"
  by (simp add: example_tracker_def example_calls_def run_checks_def tracker_reachable.intros)

lemma example_tracker_facts:
  "behavior_enforcing example_tracker"
  "map_has (bt_subjects example_tracker) ''b''"
  "map_has (bt_subjects (run_checks [\<lparr>cc_subject = ''b'', cc_host = ''db1'', cc_command = ''id'', cc_time = 20 * go_second\<rparr>] example_tracker)) ''b''"
  "''new-host:'' @ ''db1'' \<in> set (fst (fst (behavior_check ''b'' ''db1'' ''ls'' (15 * go_second) example_tracker)))"
  unfolding example_tracker_def by code_simp+

theorem tracker_bounded_witness: "length (bt_subjects example_tracker) \<le> bt_max_subjects example_tracker"
  using tracker_bounded [OF example_tracker_reachable] by blast

theorem enforce_never_learns_witness:
  "''new-host:'' @ ''db1'' \<in> set (fst (fst (behavior_check ''b'' ''db1'' ''ls'' (30 * go_second)
     (run_checks [\<lparr>cc_subject = ''b'', cc_host = ''db1'', cc_command = ''id'', cc_time = 20 * go_second\<rparr>] example_tracker))))"
  by (rule enforce_never_learns [OF example_tracker_reachable example_tracker_facts(1) _ example_tracker_facts(4)])
    (use example_tracker_facts(2,3) in \<open>auto simp: prefix_Cons\<close>)

theorem rate_counts_last_minute_witness:
  "snd (fst (behavior_check ''b'' ''web1'' ''ls'' (30 * go_second) (run_checks example_calls (new_behavior_tracker example_behavior))))"
  using rate_counts_last_minute [of example_behavior "''b''" example_calls "30 * go_second" "''web1''" "''ls''"]
  unfolding example_behavior_def example_calls_def by (simp add: new_behavior_tracker_def times_of_def)

end
