(* ===== verification/Audit_Log.thy ===== *)
theory Audit_Log
  imports Go_Prelude "HOL-Library.Word" "HOL-Library.List_Lexorder" "HOL-Library.Char_ord" "HOL-Library.Product_Lexorder"
begin

text \<open>
  The tamper-evident log, \<open>internal/audit/log.go\<close> and \<open>verify.go\<close>: entries chained by hash and signed
  one by one, rotated segments, the restart that picks the chain up again, and the verifier of one file
  and of all segments.

  \<open>audit_lib\<close> holds what comes from libraries: the JSON codec of an entry, SHA-256 in hexadecimal, Ed25519,
  base64 and the timestamp format of a rotated file's name. A directory is the content of the active file
  and a map from the suffixes of its siblings (the part of the name after the log's path and a dot) to
  their contents. The answers of the operating system to one call of \<open>Append\<close> are the record \<open>append_io\<close>;
  a failing write may have written part of its bytes.
\<close>

section \<open>Entries\<close>

record entry =
  en_time :: "go_time option"
  en_caller :: string
  en_host :: string
  en_user :: string
  en_principal :: string
  en_command :: string
  en_ttl :: string
  en_serial :: "64 word"
  en_session_id :: string
  en_end_user_context :: string
  en_target_type :: string
  en_body_sha256 :: string
  en_outcome :: string
  en_exit_code :: int
  en_err :: string
  en_elevation :: string
  en_pty :: bool
  en_policy_rule :: string
  en_dry_run :: bool
  en_warning :: string
  en_approval_id :: string
  en_approved_by :: string
  en_approved_via :: string
  en_anomaly :: string
  en_seq :: "64 word"
  en_prev_hash :: string
  en_sig :: string

definition empty_entry :: entry where
  "empty_entry = \<lparr>en_time = None, en_caller = [], en_host = [], en_user = [], en_principal = [], en_command = [],
     en_ttl = [], en_serial = 0, en_session_id = [], en_end_user_context = [], en_target_type = [], en_body_sha256 = [],
     en_outcome = [], en_exit_code = 0, en_err = [], en_elevation = [], en_pty = False, en_policy_rule = [],
     en_dry_run = False, en_warning = [], en_approval_id = [], en_approved_by = [], en_approved_via = [],
     en_anomaly = [], en_seq = 0, en_prev_hash = [], en_sig = []\<rparr>"

record audit_lib =
  au_marshal :: "entry \<Rightarrow> string"
  au_unmarshal :: "string \<Rightarrow> entry option"
  au_sha256 :: "string \<Rightarrow> string"
  au_sign :: "string \<Rightarrow> string \<Rightarrow> string"
  au_check :: "string \<Rightarrow> string \<Rightarrow> string \<Rightarrow> bool"
  au_b64 :: "string \<Rightarrow> string"
  au_unb64 :: "string \<Rightarrow> string option"
  au_stamp :: "go_time \<Rightarrow> string"
  au_is_stamp :: "string \<Rightarrow> bool"

abbreviation reader_buffer_size :: nat where "reader_buffer_size \<equiv> 262144"
abbreviation max_entry_bytes :: nat where "max_entry_bytes \<equiv> reader_buffer_size"
abbreviation truncated_marker :: string where "truncated_marker \<equiv> ''...[TRUNCATED]''"
abbreviation max_segment_collisions :: nat where "max_segment_collisions \<equiv> 10000"
abbreviation newline :: char where "newline \<equiv> char_of (10 :: nat)"
abbreviation carriage_return :: char where "carriage_return \<equiv> char_of (13 :: nat)"

section \<open>Fitting an entry into the reader's buffer\<close>

text \<open>A string field of an entry: how to read it and how to replace it.\<close>

type_synonym entry_field = "(entry \<Rightarrow> string) \<times> (string \<Rightarrow> entry \<Rightarrow> entry)"

definition free_fields :: "entry_field list" where
  "free_fields =
     [(en_command, \<lambda>v e. e\<lparr>en_command := v\<rparr>), (en_err, \<lambda>v e. e\<lparr>en_err := v\<rparr>),
      (en_warning, \<lambda>v e. e\<lparr>en_warning := v\<rparr>), (en_anomaly, \<lambda>v e. e\<lparr>en_anomaly := v\<rparr>)]"

definition metadata_string_fields :: "entry_field list" where
  "metadata_string_fields =
     [(en_caller, \<lambda>v e. e\<lparr>en_caller := v\<rparr>), (en_host, \<lambda>v e. e\<lparr>en_host := v\<rparr>),
      (en_user, \<lambda>v e. e\<lparr>en_user := v\<rparr>), (en_principal, \<lambda>v e. e\<lparr>en_principal := v\<rparr>),
      (en_ttl, \<lambda>v e. e\<lparr>en_ttl := v\<rparr>), (en_session_id, \<lambda>v e. e\<lparr>en_session_id := v\<rparr>),
      (en_end_user_context, \<lambda>v e. e\<lparr>en_end_user_context := v\<rparr>), (en_target_type, \<lambda>v e. e\<lparr>en_target_type := v\<rparr>),
      (en_body_sha256, \<lambda>v e. e\<lparr>en_body_sha256 := v\<rparr>), (en_elevation, \<lambda>v e. e\<lparr>en_elevation := v\<rparr>),
      (en_policy_rule, \<lambda>v e. e\<lparr>en_policy_rule := v\<rparr>), (en_approval_id, \<lambda>v e. e\<lparr>en_approval_id := v\<rparr>),
      (en_approved_by, \<lambda>v e. e\<lparr>en_approved_by := v\<rparr>), (en_approved_via, \<lambda>v e. e\<lparr>en_approved_via := v\<rparr>)]"

fun longest_from :: "entry \<Rightarrow> entry_field option \<Rightarrow> entry_field list \<Rightarrow> entry_field option" where
  "longest_from e best [] = best"
| "longest_from e best (f # fs) =
     (if fst f e = [] \<or> fst f e = truncated_marker then longest_from e best fs
      else case best of
        None \<Rightarrow> longest_from e (Some f) fs
      | Some b \<Rightarrow> (if length (fst f e) > length (fst b e) then longest_from e (Some f) fs else longest_from e best fs))"

definition longest_trimmable :: "entry \<Rightarrow> entry_field list \<Rightarrow> entry_field option" where
  "longest_trimmable e fs = longest_from e None fs"

text \<open>\<open>utf8.RuneStart\<close>: any byte but a continuation byte.\<close>

definition rune_start :: "char \<Rightarrow> bool" where
  "rune_start c \<longleftrightarrow> \<not> (128 \<le> (of_char c :: nat) \<and> (of_char c :: nat) < 192)"

fun rune_boundary :: "string \<Rightarrow> nat \<Rightarrow> nat" where
  "rune_boundary s 0 = 0"
| "rune_boundary s (Suc k) = (if rune_start (s ! Suc k) then Suc k else rune_boundary s k)"

definition truncate_field :: "string \<Rightarrow> nat \<Rightarrow> string" where
  "truncate_field s over =
     (let keep = length s - over - length truncated_marker in take (rune_boundary s keep) s @ truncated_marker)"

abbreviation entry_budget :: nat where "entry_budget \<equiv> max_entry_bytes - 1024"

fun fit_loop :: "audit_lib \<Rightarrow> nat \<Rightarrow> entry \<Rightarrow> entry" where
  "fit_loop L 0 e = e"
| "fit_loop L (Suc n) e =
     (if length (au_marshal L e) \<le> entry_budget then e
      else case (case longest_trimmable e free_fields of
                   None \<Rightarrow> longest_trimmable e metadata_string_fields | Some f \<Rightarrow> Some f) of
        None \<Rightarrow> e
      | Some (rd, wr) \<Rightarrow> fit_loop L n (wr (truncate_field (rd e) (length (au_marshal L e) - entry_budget)) e))"

definition fit_entry :: "audit_lib \<Rightarrow> entry \<Rightarrow> entry" where
  "fit_entry L e = fit_loop L (4 * (length free_fields + length metadata_string_fields)) e"

section \<open>Files and segments\<close>

record audit_dir =
  ad_active :: "string option"
  ad_files :: "(string, string) go_map"

text \<open>
  The lines \<open>bufio.Scanner\<close> delivers with this buffer, and whether it stopped at a line that does not fit.
  A carriage return before the newline is dropped, and so is an empty last line.
\<close>

definition drop_cr :: "string \<Rightarrow> string" where
  "drop_cr s = (if s \<noteq> [] \<and> last s = carriage_return then butlast s else s)"

definition raw_lines :: "string \<Rightarrow> string list" where
  "raw_lines s = (let ls = split_on newline s in if last ls = [] then butlast ls else ls)"

definition scan_lines :: "string \<Rightarrow> string list \<times> bool" where
  "scan_lines s =
     (let fits = (\<lambda>l. length l < reader_buffer_size); ls = raw_lines s
      in (map drop_cr (takeWhile fits ls), list_all fits ls))"

text \<open>\<open>isBlankLine\<close>: nothing but white space.\<close>

definition record_lines :: "string \<Rightarrow> string list" where
  "record_lines s = filter (\<lambda>l. \<not> only_space l) (fst (scan_lines s))"

definition index_dot :: "string \<Rightarrow> nat option" where
  "index_dot s = (if CHR ''.'' \<in> set s then Some (length (takeWhile (\<lambda>c. c \<noteq> CHR ''.'') s)) else None)"

definition is_rotated_segment :: "audit_lib \<Rightarrow> string \<Rightarrow> bool" where
  "is_rotated_segment L sfx =
     (case index_dot sfx of
        None \<Rightarrow> au_is_stamp L sfx
      | Some i \<Rightarrow>
          (let tl = drop (Suc i) sfx in
           tl \<noteq> [] \<and> list_all is_digit_char tl \<and> au_is_stamp L (take i sfx)))"

text \<open>\<open>strconv.Atoi\<close> on digits: the value, or the largest integer when it does not fit.\<close>

definition atoi_digits :: "string \<Rightarrow> nat" where
  "atoi_digits s = min (decimal_value s) (2 ^ 63 - 1)"

definition segment_order :: "string \<Rightarrow> string \<times> nat" where
  "segment_order sfx =
     (case index_dot sfx of None \<Rightarrow> (sfx, 0) | Some i \<Rightarrow> (take i sfx, atoi_digits (drop (Suc i) sfx)))"

text \<open>The segments in order: suffix and content of the rotated ones, and the active file, which has no suffix.\<close>

definition discover_segments :: "audit_lib \<Rightarrow> audit_dir \<Rightarrow> (string option \<times> string) list" where
  "discover_segments L d =
     map (\<lambda>(n, c). (Some n, c)) (sort_key (\<lambda>(n, c). segment_order n) (filter (\<lambda>(n, c). is_rotated_segment L n) (ad_files d)))
     @ (case ad_active d of None \<Rightarrow> [] | Some c \<Rightarrow> [(None, c)])"

datatype bounds_error = EmptySegment | FirstEntryMalformed | ScanFailed

definition file_bounds :: "audit_lib \<Rightarrow> string \<Rightarrow> bounds_error + string \<times> string" where
  "file_bounds L content =
     (case record_lines content of
        [] \<Rightarrow> Inl (if snd (scan_lines content) then EmptySegment else ScanFailed)
      | l # ls \<Rightarrow>
          (case au_unmarshal L l of
             None \<Rightarrow> Inl FirstEntryMalformed
           | Some e \<Rightarrow> (if \<not> snd (scan_lines content) then Inl ScanFailed
                        else Inr (en_prev_hash e, au_sha256 L (last (l # ls))))))"

section \<open>Verification\<close>

definition verify_entry :: "audit_lib \<Rightarrow> string \<Rightarrow> entry \<Rightarrow> bool" where
  "verify_entry L pub e =
     (case au_unb64 L (en_sig e) of
        None \<Rightarrow> False
      | Some sig \<Rightarrow> au_check L pub (au_marshal L (e\<lparr>en_sig := []\<rparr>)) sig)"

text \<open>
  The shared loop of \<open>Verify\<close> and \<open>VerifyEntries\<close>, after the lines have been scanned. The state is the
  previous line's sequence number and hash, \<^term>\<open>None\<close> before the first parsed line; the result counts
  parsed entries, malformed lines and errors, and keeps the entries that passed every check.
\<close>

record verify_result =
  vr_total :: nat
  vr_malformed :: nat
  vr_errs :: nat
  vr_kept :: "entry list"

fun verify_lines :: "audit_lib \<Rightarrow> string option \<Rightarrow> (64 word \<times> string) option \<Rightarrow> string list \<Rightarrow> verify_result" where
  "verify_lines L pub prev [] = \<lparr>vr_total = 0, vr_malformed = 0, vr_errs = 0, vr_kept = []\<rparr>"
| "verify_lines L pub prev (l # ls) =
     (case au_unmarshal L l of
        None \<Rightarrow> (let r = verify_lines L pub prev ls in r\<lparr>vr_malformed := Suc (vr_malformed r), vr_errs := Suc (vr_errs r)\<rparr>)
      | Some e \<Rightarrow>
          (let bad_seq = (case prev of None \<Rightarrow> False | Some (s, h) \<Rightarrow> en_seq e \<noteq> s + 1);
               bad_hash = (case prev of None \<Rightarrow> False | Some (s, h) \<Rightarrow> en_prev_hash e \<noteq> h);
               bad_sig = (case pub of None \<Rightarrow> False | Some p \<Rightarrow> \<not> verify_entry L p e);
               r = verify_lines L pub (Some (en_seq e, au_sha256 L l)) ls
           in r\<lparr>vr_total := Suc (vr_total r),
                vr_errs := of_bool bad_seq + of_bool bad_hash + of_bool bad_sig + vr_errs r,
                vr_kept := (if bad_seq \<or> bad_hash \<or> bad_sig then vr_kept r else e # vr_kept r)\<rparr>))"

definition verify_file :: "audit_lib \<Rightarrow> string option \<Rightarrow> string \<Rightarrow> verify_result" where
  "verify_file L pub content =
     (let r = verify_lines L pub None (record_lines content)
      in if snd (scan_lines content) then r else r\<lparr>vr_errs := Suc (vr_errs r)\<rparr>)"

definition verify_entries :: "audit_lib \<Rightarrow> string option \<Rightarrow> string \<Rightarrow> entry list \<times> nat \<times> nat" where
  "verify_entries L pub content =
     (let r = verify_file L pub content
      in (vr_kept r, vr_total r + vr_malformed r - length (vr_kept r), vr_errs r))"

fun link_segments :: "audit_lib \<Rightarrow> string option \<Rightarrow> bool \<Rightarrow> string \<Rightarrow> (string option \<times> string) list \<Rightarrow> nat \<times> nat" where
  "link_segments L pub first prev_last [] = (0, 0)"
| "link_segments L pub first prev_last ((n, content) # segs) =
     (let r = verify_file L pub content in
      case file_bounds L content of
        Inl err \<Rightarrow>
          (let (t, es) = link_segments L pub False prev_last segs in
           (vr_total r + t, vr_errs r + (if n = None \<and> err = EmptySegment then 0 else 1) + es))
      | Inr (first_prev, last_hash) \<Rightarrow>
          (let (t, es) = link_segments L pub False last_hash segs;
               bad = (if first then first_prev \<noteq> [] else first_prev \<noteq> prev_last) in
           (vr_total r + t, vr_errs r + of_bool bad + es)))"

definition verify_segments :: "audit_lib \<Rightarrow> string option \<Rightarrow> audit_dir \<Rightarrow> nat \<times> nat" where
  "verify_segments L pub d =
     (case discover_segments L d of [] \<Rightarrow> (0, 1) | segs \<Rightarrow> link_segments L pub True [] segs)"

text \<open>
  \<open>TrailingCorruption\<close>, over the lines with their newlines: the length of the clean prefix, the last good
  sequence number, the number of good records and whether a good record follows a malformed one.
\<close>

record corruption_scan =
  cs_offset :: nat
  cs_clean_end :: nat
  cs_last_seq :: "64 word"
  cs_good :: nat
  cs_bad :: bool
  cs_middle :: bool

definition trim_cr :: "string \<Rightarrow> string" where
  "trim_cr s = rev (dropWhile (\<lambda>c. c = carriage_return) (rev s))"

definition scan_record :: "audit_lib \<Rightarrow> string \<Rightarrow> nat \<Rightarrow> corruption_scan \<Rightarrow> corruption_scan" where
  "scan_record L line width c =
     (if only_space line then c\<lparr>cs_offset := cs_offset c + width\<rparr>
      else case au_unmarshal L (trim_cr line) of
        Some e \<Rightarrow>
          (if cs_bad c then c\<lparr>cs_offset := cs_offset c + width, cs_middle := True\<rparr>
           else c\<lparr>cs_offset := cs_offset c + width, cs_clean_end := cs_offset c + width, cs_last_seq := en_seq e,
                  cs_good := Suc (cs_good c)\<rparr>)
      | None \<Rightarrow> c\<lparr>cs_offset := cs_offset c + width, cs_bad := True\<rparr>)"

fun scan_corruption :: "audit_lib \<Rightarrow> string list \<Rightarrow> corruption_scan \<Rightarrow> corruption_scan" where
  "scan_corruption L [] c = c"
| "scan_corruption L [l] c = (if l = [] then c else scan_record L l (length l) c)"
| "scan_corruption L (l # m # ls) c = scan_corruption L (m # ls) (scan_record L l (Suc (length l)) c)"

definition trailing_corruption :: "audit_lib \<Rightarrow> string \<Rightarrow> corruption_scan \<times> string" where
  "trailing_corruption L data =
     (let c = scan_corruption L (split_on newline data)
                \<lparr>cs_offset = 0, cs_clean_end = 0, cs_last_seq = 0, cs_good = 0, cs_bad = False, cs_middle = False\<rparr>
      in (c, if cs_bad c \<and> \<not> cs_middle c then drop (cs_clean_end c) data else []))"

section \<open>The writer\<close>

record audit_log =
  al_dir :: audit_dir
  al_open :: bool
  al_sign_key :: string
  al_redactor :: "(string \<Rightarrow> string) option"
  al_prev_hash :: string
  al_seq :: "64 word"
  al_max_file_size :: int
  al_needs_newline :: bool

datatype write_result = Written | WriteFailed nat

record append_io =
  io_now :: go_time
  io_stat_ok :: bool
  io_stat_broken :: "string \<Rightarrow> bool"
  io_rotation_sync :: bool
  io_rename :: bool
  io_open_new :: bool
  io_reopen :: bool
  io_write :: write_result
  io_sync :: bool

datatype audit_error =
    OpenSegments
  | SeedSegment bounds_error
  | ScanExisting
  | ParseLastEntry
  | ReopenFailed
  | WriteError
  | SyncError

definition rotated_segment_path :: "audit_lib \<Rightarrow> append_io \<Rightarrow> audit_dir \<Rightarrow> string" where
  "rotated_segment_path L io d =
     (let base = au_stamp L (io_now io);
          free = (\<lambda>n. \<not> map_has (ad_files d) n \<or> io_stat_broken io n);
          candidates = map (\<lambda>n. base @ CHR ''.'' # nat_decimal n) [1..<Suc max_segment_collisions]
      in if free base then base
         else case List.find free candidates of Some c \<Rightarrow> c | None \<Rightarrow> base)"

definition seed_from_rotated_segments :: "audit_lib \<Rightarrow> audit_dir \<Rightarrow> audit_error + string" where
  "seed_from_rotated_segments L d =
     (case rev (filter (\<lambda>(n, c). n \<noteq> None) (discover_segments L d)) of
        [] \<Rightarrow> Inr []
      | (n, content) # _ \<Rightarrow> (case file_bounds L content of Inl e \<Rightarrow> Inl (SeedSegment e) | Inr (_, h) \<Rightarrow> Inr h))"

definition restore_chain :: "audit_lib \<Rightarrow> audit_dir \<Rightarrow> audit_error + (64 word \<times> string \<times> bool)" where
  "restore_chain L d =
     (case ad_active d of
        None \<Rightarrow> (case seed_from_rotated_segments L d of Inl e \<Rightarrow> Inl e | Inr h \<Rightarrow> Inr (0, h, False))
      | Some content \<Rightarrow>
          (if \<not> snd (scan_lines content) then Inl ScanExisting
           else case rev (record_lines content) of
             [] \<Rightarrow> (case seed_from_rotated_segments L d of Inl e \<Rightarrow> Inl e | Inr h \<Rightarrow> Inr (0, h, False))
           | l # _ \<Rightarrow>
               (case au_unmarshal L l of
                  None \<Rightarrow> Inl ParseLastEntry
                | Some e \<Rightarrow> Inr (en_seq e, au_sha256 L l, last content \<noteq> newline))))"

definition audit_open :: "audit_lib \<Rightarrow> string \<Rightarrow> audit_dir \<Rightarrow> audit_error + audit_log" where
  "audit_open L key d =
     (case restore_chain L d of
        Inl e \<Rightarrow> Inl e
      | Inr (seq, h, nn) \<Rightarrow>
          Inr \<lparr>al_dir = d\<lparr>ad_active := Some (case ad_active d of None \<Rightarrow> [] | Some c \<Rightarrow> c)\<rparr>, al_open = True,
               al_sign_key = key, al_redactor = None, al_prev_hash = h, al_seq = seq,
               al_max_file_size = 104857600, al_needs_newline = nn\<rparr>)"

definition active_content :: "audit_log \<Rightarrow> string" where
  "active_content l = (case ad_active (al_dir l) of None \<Rightarrow> [] | Some c \<Rightarrow> c)"

definition open_active :: "audit_log \<Rightarrow> audit_log" where
  "open_active l = l\<lparr>al_open := True, al_dir := (al_dir l)\<lparr>ad_active := Some (active_content l)\<rparr>\<rparr>"

definition maybe_rotate :: "audit_lib \<Rightarrow> append_io \<Rightarrow> audit_log \<Rightarrow> audit_log" where
  "maybe_rotate L io l =
     (if al_max_file_size l \<le> 0 \<or> \<not> al_open l then l
      else if \<not> io_stat_ok io \<or> int (length (active_content l)) < al_max_file_size l then l
      else if \<not> io_rotation_sync io then l
      else if \<not> io_rename io then (if io_open_new io then l else l\<lparr>al_open := False\<rparr>)
      else
        let l = l\<lparr>al_open := False, al_seq := 0, al_needs_newline := False,
                  al_dir := \<lparr>ad_active = None, ad_files = AList.update (rotated_segment_path L io (al_dir l)) (active_content l) (ad_files (al_dir l))\<rparr>\<rparr>
        in if io_open_new io then open_active l else l)"

definition redact_entry :: "(string \<Rightarrow> string) option \<Rightarrow> entry \<Rightarrow> entry" where
  "redact_entry r e =
     (case r of None \<Rightarrow> e
      | Some f \<Rightarrow> e\<lparr>en_command := f (en_command e), en_err := f (en_err e), en_warning := f (en_warning e), en_anomaly := f (en_anomaly e)\<rparr>)"

text \<open>The entry as it is written: numbered, linked, timed and signed.\<close>

definition signed_entry :: "audit_lib \<Rightarrow> append_io \<Rightarrow> audit_log \<Rightarrow> entry \<Rightarrow> entry" where
  "signed_entry L io l e =
     (let e = e\<lparr>en_seq := al_seq l + 1, en_prev_hash := al_prev_hash l,
                en_time := (case en_time e of None \<Rightarrow> Some (io_now io) | Some t \<Rightarrow> Some t), en_sig := []\<rparr>
      in e\<lparr>en_sig := au_b64 L (au_sign L (al_sign_key l) (au_marshal L e))\<rparr>)"

definition audit_append :: "audit_lib \<Rightarrow> append_io \<Rightarrow> entry \<Rightarrow> audit_log \<Rightarrow> audit_error option \<times> audit_log" where
  "audit_append L io e l =
     (let e = fit_entry L (redact_entry (al_redactor l) e);
          l = maybe_rotate L io l
      in if \<not> al_open l \<and> \<not> io_reopen io then (Some ReopenFailed, l)
         else
           let l = (if al_open l then l else open_active l);
               e = signed_entry L io l e;
               line = au_marshal L e;
               out = (if al_needs_newline l then [newline] else []) @ line @ [newline];
               put = (\<lambda>bs. (al_dir l)\<lparr>ad_active := Some (active_content l @ bs)\<rparr>)
           in case io_write io of
                WriteFailed n \<Rightarrow> (Some WriteError, l\<lparr>al_dir := put (take n out)\<rparr>)
              | Written \<Rightarrow>
                  (if io_sync io then None else Some SyncError,
                   l\<lparr>al_dir := put out, al_needs_newline := False, al_seq := al_seq l + 1, al_prev_hash := au_sha256 L line\<rparr>))"

definition fail_closed :: "string \<Rightarrow> bool option" where
  "fail_closed mode = (if mode = [] \<or> mode = ''closed'' then Some True else if mode = ''open'' then Some False else None)"

lemma append_written: "io_write io = Written \<Longrightarrow> io_sync io \<Longrightarrow> io_reopen io \<Longrightarrow> fst (audit_append L io e l) = None"
  by (simp add: audit_append_def Let_def)

lemma append_write_failed: "io_write io = WriteFailed n \<Longrightarrow> io_reopen io \<Longrightarrow> fst (audit_append L io e l) = Some WriteError"
  by (simp add: audit_append_def Let_def)

section \<open>The record on file\<close>

text \<open>
  A record that was appended without error is the last line of the active file: the entry, masked and cut to fit,
  with the fields the log adds.
\<close>

lemma redactor_rotate [simp]: "al_redactor (maybe_rotate L io l) = al_redactor l" "al_redactor (open_active l) = al_redactor l"
  by (simp_all add: maybe_rotate_def open_active_def Let_def split: option.splits)

lemma append_None:
  assumes "audit_append L io ent l = (None, l')"
  shows "al_redactor l' = al_redactor l \<and> (\<exists>k pre. active_content l' = pre @ au_marshal L (signed_entry L io k (fit_entry L (redact_entry (al_redactor l) ent))) @ [newline])"
proof -
  let ?r = "maybe_rotate L io l"
  define k where "k = (if al_open ?r then ?r else open_active ?r)"
  define line where "line = au_marshal L (signed_entry L io k (fit_entry L (redact_entry (al_redactor l) ent)))"
  define out where "out = (if al_needs_newline k then [newline] else []) @ line @ [newline]"
  define l1 where "l1 = k\<lparr>al_dir := (al_dir k)\<lparr>ad_active := Some (active_content k @ out)\<rparr>, al_needs_newline := False, al_seq := al_seq k + 1, al_prev_hash := au_sha256 L line\<rparr>"
  define l2 where "l2 = (\<lambda>n. k\<lparr>al_dir := (al_dir k)\<lparr>ad_active := Some (active_content k @ take n out)\<rparr>\<rparr>)"
  have "audit_append L io ent l = (if \<not> al_open ?r \<and> \<not> io_reopen io then (Some ReopenFailed, ?r)
      else case io_write io of WriteFailed n \<Rightarrow> (Some WriteError, l2 n) | Written \<Rightarrow> (if io_sync io then None else Some SyncError, l1))"
    unfolding audit_append_def Let_def k_def [symmetric] line_def [symmetric] out_def [symmetric] l1_def [symmetric] l2_def by (rule refl)
  then have "l' = l1" using assms by (simp split: if_splits write_result.splits)
  moreover have "al_redactor l1 = al_redactor l" by (simp add: l1_def k_def)
  moreover have "active_content l1 = (active_content k @ (if al_needs_newline k then [newline] else [])) @ line @ [newline]"
    by (simp add: l1_def out_def active_content_def)
  ultimately show ?thesis unfolding line_def by metis
qed

end
