(* ===== verification/Redact.thy ===== *)
theory Redact
  imports Go_Prelude
begin

text \<open>
  Masking of secrets in text that reaches the audit log or a notification: \<open>internal/redact\<close>. The regular
  expression engine is the record \<open>redact_lib\<close>: whether a pattern compiles, the index of a named group (-1
  without one) and \<open>FindAllStringSubmatchIndex\<close>, each match as its list of byte positions (-1 for a group that
  took no part). The two expressions the package itself is written with are plain functions.
\<close>

section \<open>Rules\<close>

record redact_pattern =
  rp_name :: string
  rp_regex :: string

record redact_config =
  rc_patterns :: "redact_pattern list"
  rc_disable_defaults :: bool

record redact_rule =
  ru_name :: string
  ru_re :: string
  ru_secret_idx :: int

record redact_lib =
  rx_valid :: "string \<Rightarrow> bool"
  rx_subexp_index :: "string \<Rightarrow> string \<Rightarrow> int"
  rx_find_all :: "string \<Rightarrow> string \<Rightarrow> int list list"

datatype redact_error = InvalidRuleName nat string | InvalidRuleRegex string

abbreviation Marker :: string where "Marker \<equiv> ''[REDACTED:''"
abbreviation SecretGroup :: string where "SecretGroup \<equiv> ''secret''"

definition rule_name_char :: "char \<Rightarrow> bool" where
  "rule_name_char c \<longleftrightarrow> is_alpha_char c \<or> is_digit_char c \<or> c \<in> {CHR ''.'', CHR ''_'', CHR ''-''}"

definition valid_rule_name :: "string \<Rightarrow> bool" where
  "valid_rule_name n \<longleftrightarrow> 1 \<le> length n \<and> length n \<le> 64 \<and> list_all rule_name_char n"

definition is_marker_token :: "string \<Rightarrow> bool" where
  "is_marker_token s \<longleftrightarrow> has_prefix s Marker \<and> length Marker < length s \<and> last s = CHR '']''
     \<and> valid_rule_name (butlast (drop (length Marker) s))"

fun compile_rules :: "redact_lib \<Rightarrow> nat \<Rightarrow> redact_pattern list \<Rightarrow> redact_error + redact_rule list" where
  "compile_rules R i [] = Inr []"
| "compile_rules R i (p # ps) =
     (if \<not> valid_rule_name (rp_name p) then Inl (InvalidRuleName i (rp_name p))
      else if \<not> rx_valid R (rp_regex p) then Inl (InvalidRuleRegex (rp_name p))
      else case compile_rules R (Suc i) ps of
        Inl e \<Rightarrow> Inl e
      | Inr rs \<Rightarrow> Inr (\<lparr>ru_name = rp_name p, ru_re = rp_regex p,
                        ru_secret_idx = rx_subexp_index R (rp_regex p) SecretGroup\<rparr> # rs))"

text \<open>\<open>New\<close>: no redactor when the effective rule set is empty. \<open>defaults\<close> is the table of built-in patterns.\<close>

definition new_redactor :: "redact_lib \<Rightarrow> redact_pattern list \<Rightarrow> redact_config option \<Rightarrow> redact_error + redact_rule list option" where
  "new_redactor R defaults cfg =
     (let pats = (case cfg of None \<Rightarrow> defaults
                  | Some c \<Rightarrow> (if rc_disable_defaults c then [] else defaults) @ rc_patterns c)
      in if pats = [] then Inr None else map_sum id Some (compile_rules R 0 pats))"

section \<open>Masking\<close>

definition slice :: "string \<Rightarrow> nat \<Rightarrow> nat \<Rightarrow> string" where
  "slice s a b = take (b - a) (drop a s)"

text \<open>The part of a match that is masked: the group named secret where it took part, else the whole match.\<close>

definition secret_span :: "redact_rule \<Rightarrow> int list \<Rightarrow> nat \<times> nat" where
  "secret_span ru m =
     (let gi = ru_secret_idx ru in
      if 0 < gi \<and> 2 * gi + 1 < int (length m) \<and> 0 \<le> m ! nat (2 * gi)
      then (nat (m ! nat (2 * gi)), nat (m ! nat (2 * gi + 1)))
      else (nat (m ! 0), nat (m ! 1)))"

fun mask_spans :: "string \<Rightarrow> string \<Rightarrow> nat \<Rightarrow> (nat \<times> nat) list \<Rightarrow> string" where
  "mask_spans name s pos [] = drop pos s"
| "mask_spans name s pos ((a, b) # spans) =
     (if a < pos then mask_spans name s pos spans
      else if is_marker_token (slice s a b) then mask_spans name s pos spans
      else slice s pos a @ Marker @ name @ '']'' @ mask_spans name s b spans)"

definition rule_apply :: "redact_lib \<Rightarrow> redact_rule \<Rightarrow> string \<Rightarrow> string" where
  "rule_apply R ru s =
     (let matches = rx_find_all R (ru_re ru) s in
      if matches = [] then s else mask_spans (ru_name ru) s 0 (map (secret_span ru) matches))"

definition redact :: "redact_lib \<Rightarrow> redact_rule list option \<Rightarrow> string \<Rightarrow> string" where
  "redact R r s = (case r of None \<Rightarrow> s | Some rules \<Rightarrow> (if s = [] then s else fold (rule_apply R) rules s))"

section \<open>Masked bytes do not reach the output\<close>

text \<open>Spans from left to right, disjoint, inside a text of length \<open>n\<close>.\<close>

fun spans_from :: "nat \<Rightarrow> nat \<Rightarrow> (nat \<times> nat) list \<Rightarrow> bool" where
  "spans_from n k [] \<longleftrightarrow> k \<le> n"
| "spans_from n k ((a, b) # spans) \<longleftrightarrow> k \<le> a \<and> a \<le> b \<and> b \<le> n \<and> spans_from n b spans"

definition agree_outside :: "(nat \<times> nat) list \<Rightarrow> string \<Rightarrow> string \<Rightarrow> bool" where
  "agree_outside spans s t \<longleftrightarrow> length s = length t
     \<and> (\<forall>i < length s. (\<forall>(a, b) \<in> set spans. i < a \<or> b \<le> i) \<longrightarrow> s ! i = t ! i)"

lemma slice_cong:
  assumes "length s = length t" and "\<forall>i. a \<le> i \<and> i < b \<and> i < length s \<longrightarrow> s ! i = t ! i"
  shows "slice s a b = slice t a b"
  unfolding slice_def using assms by (intro nth_equalityI) (simp_all add: less_diff_conv)

lemma spans_from_le: "spans_from n k spans \<Longrightarrow> (a, b) \<in> set spans \<Longrightarrow> k \<le> a \<and> b \<le> n"
  by (induction n k spans rule: spans_from.induct) force+

lemma spans_from_bound: "spans_from n k spans \<Longrightarrow> k \<le> n"
  by (induction n k spans rule: spans_from.induct) auto

lemma mask_spans_cong:
  assumes "spans_from (length s) k spans" and "length s = length t"
    and "\<forall>i < length s. k \<le> i \<and> (\<forall>(a, b) \<in> set spans. i < a \<or> b \<le> i) \<longrightarrow> s ! i = t ! i"
    and "\<forall>(a, b) \<in> set spans. \<not> is_marker_token (slice s a b) \<and> \<not> is_marker_token (slice t a b)"
  shows "mask_spans name s k spans = mask_spans name t k spans"
  using assms
proof (induction name s k spans rule: mask_spans.induct)
  case (1 name s pos)
  then show ?case by (auto intro!: nth_equalityI)
next
  case (2 name s pos a b spans)
  then have rest: "spans_from (length s) b spans" and ab: "pos \<le> a" "a \<le> b" by auto
  have "slice s pos a = slice t pos a"
    using 2(5,6) ab spans_from_le [OF rest] by (intro slice_cong) force+
  moreover have "mask_spans name s b spans = mask_spans name t b spans"
    using 2 ab rest by (intro "2.IH"(3)) (force simp: not_less)+
  ultimately show ?case using 2(7) ab by simp
qed

lemma rule_apply_cong:
  assumes "rx_find_all R (ru_re ru) s = ms" and "rx_find_all R (ru_re ru) t = ms"
    and "spans_from (length s) 0 (map (secret_span ru) ms)" and "agree_outside (map (secret_span ru) ms) s t"
    and "\<forall>(a, b) \<in> set (map (secret_span ru) ms). \<not> is_marker_token (slice s a b) \<and> \<not> is_marker_token (slice t a b)"
  shows "rule_apply R ru s = rule_apply R ru t"
proof (cases "ms = []")
  case True
  then have "s = t" using assms(4) by (auto simp: agree_outside_def intro: nth_equalityI)
  then show ?thesis by simp
next
  case False
  have "mask_spans (ru_name ru) s 0 (map (secret_span ru) ms) = mask_spans (ru_name ru) t 0 (map (secret_span ru) ms)"
    using assms(3-5) unfolding agree_outside_def by (intro mask_spans_cong) auto
  then show ?thesis using False assms(1,2) by (simp add: rule_apply_def)
qed

text \<open>
  A masked secret leaves no trace. Take two texts with the same length in which, after the rules before
  it, some rule of the redactor finds the same matches, left to right and disjoint as the regular expression
  engine reports them, and which differ only inside the masked parts of these matches (none of which is
  itself a marker of an earlier rule): the redactor answers the same for both, whatever rules follow.
\<close>

theorem redact_noninterference:
  assumes "rules = pre @ ru # post" and "s \<noteq> []" and "t \<noteq> []"
    and "u = fold (rule_apply R) pre s" and "v = fold (rule_apply R) pre t"
    and "spans = map (secret_span ru) (rx_find_all R (ru_re ru) u)"
    and "rx_find_all R (ru_re ru) v = rx_find_all R (ru_re ru) u"
    and "spans_from (length u) 0 spans" and "agree_outside spans u v"
    and "\<forall>(a, b) \<in> set spans. \<not> is_marker_token (slice u a b) \<and> \<not> is_marker_token (slice v a b)"
  shows "redact R (Some rules) s = redact R (Some rules) t"
  using rule_apply_cong [of R ru u _ v] assms by (simp add: redact_def)

text \<open>A rule that masks the value of \<open>-p\<close>, and two commands that differ in the password.\<close>

definition demo_redact :: redact_lib where
  "demo_redact = \<lparr>rx_valid = (\<lambda>_. True), rx_subexp_index = (\<lambda>_ _. 1),
     rx_find_all = (\<lambda>_ s. if has_prefix s ''mysql -p'' then [[0, int (length s), 8, int (length s)]] else [])\<rparr>"

definition demo_rules :: "redact_rule list" where
  "demo_rules = [\<lparr>ru_name = ''mysql'', ru_re = ''-p'', ru_secret_idx = 1\<rparr>]"

theorem redact_noninterference_witness:
  "redact demo_redact (Some demo_rules) ''mysql -phunter2'' = redact demo_redact (Some demo_rules) ''mysql -pcorrect''
   \<and> redact demo_redact (Some demo_rules) ''mysql -phunter2'' = ''mysql -p[REDACTED:mysql]''"
proof
  show "redact demo_redact (Some demo_rules) ''mysql -phunter2'' = redact demo_redact (Some demo_rules) ''mysql -pcorrect''"
    by (rule redact_noninterference [where pre = "[]" and post = "[]" and ru = "hd demo_rules" and spans = "[(8, 15)]"
          and u = "''mysql -phunter2''" and v = "''mysql -pcorrect''"])
      (simp_all add: demo_rules_def demo_redact_def secret_span_def has_prefix_def agree_outside_def slice_def is_marker_token_def
        less_Suc_eq eval_nat_numeral)
  show "redact demo_redact (Some demo_rules) ''mysql -phunter2'' = ''mysql -p[REDACTED:mysql]''"
    by (simp add: redact_def demo_rules_def demo_redact_def rule_apply_def secret_span_def has_prefix_def slice_def is_marker_token_def)
qed

end
