(* ===== verification/Cert_Authority.thy ===== *)
theory Cert_Authority
  imports Go_Prelude "HOL-Library.Word"
begin

text \<open>
  The certificate builder of \<open>internal/ca/sign.go\<close>: \<open>Constraints\<close>, \<open>BuildAndSign\<close> and
  \<open>randomSerial\<close>. The certificate is the part of \<open>ssh.Certificate\<close> the code fills in; the
  signature over it is made by the \<open>ssh.Signer\<close> behind the CA key, the parameter \<open>ca_sign\<close>, which
  may fail. The random source and the clock are arguments.
\<close>

record constraints =
  co_principal :: string
  co_ttl :: go_duration
  co_source_address :: string
  co_force_command :: string
  co_allow_port_forwarding :: bool
  co_allow_pty :: bool
  co_key_id :: string

record certificate =
  ce_key :: string
  ce_serial :: "64 word"
  ce_key_id :: string
  ce_valid_principals :: "string list"
  ce_valid_after :: "64 word"
  ce_valid_before :: "64 word"
  ce_critical_options :: "(string, string) go_map"
  ce_extensions :: "(string, string) go_map"
  ce_signature :: string

datatype ca_error =
    PrincipalRequired
  | TTLOutOfRange go_duration
  | SigningCancelled
  | RandomSerialFailed
  | SigningFailed

text \<open>A CA key is named by a string; \<open>ca_sign\<close> signs the certificate's other fields with it.\<close>

type_synonym ca_sign = "string \<Rightarrow> certificate \<Rightarrow> string option"

text \<open>What one call of \<open>BuildAndSign\<close> reads from its surroundings.\<close>

record ca_call =
  cc_cancelled :: bool
  cc_random :: "string option"
  cc_now :: go_time

definition max_cert_ttl :: go_duration where "max_cert_ttl = 15 * go_minute"

text \<open>\<open>binary.BigEndian.Uint64\<close> of the eight random bytes.\<close>

definition be_uint64 :: "string \<Rightarrow> 64 word" where
  "be_uint64 bs = fold (\<lambda>c w. 256 * w + of_nat (of_char c)) bs 0"

definition random_serial :: "string option \<Rightarrow> ca_error + 64 word" where
  "random_serial rnd = (case rnd of None \<Rightarrow> Inl RandomSerialFailed | Some bs \<Rightarrow> Inr (be_uint64 bs))"

definition cert_critical_options :: "constraints \<Rightarrow> (string, string) go_map" where
  "cert_critical_options c =
     (let m = (if co_source_address c \<noteq> [] then AList.update ''source-address'' (co_source_address c) [] else [])
      in if co_force_command c \<noteq> [] then AList.update ''force-command'' (co_force_command c) m else m)"

definition cert_extensions :: "constraints \<Rightarrow> (string, string) go_map" where
  "cert_extensions c =
     (let m = (if co_allow_port_forwarding c then AList.update ''permit-port-forwarding'' [] [] else [])
      in if co_allow_pty c then AList.update ''permit-pty'' [] m else m)"

definition build_and_sign :: "ca_sign \<Rightarrow> ca_call \<Rightarrow> string \<Rightarrow> string \<Rightarrow> constraints \<Rightarrow> ca_error + certificate \<times> 64 word" where
  "build_and_sign S k ca pub c =
     (if co_principal c = [] then Inl PrincipalRequired
      else if co_ttl c \<le> 0 \<or> max_cert_ttl < co_ttl c then Inl (TTLOutOfRange (co_ttl c))
      else if cc_cancelled k then Inl SigningCancelled
      else case random_serial (cc_random k) of
        Inl e \<Rightarrow> Inl e
      | Inr serial \<Rightarrow>
          (let cert = \<lparr>ce_key = pub, ce_serial = serial, ce_key_id = co_key_id c,
                       ce_valid_principals = [co_principal c],
                       ce_valid_after = of_int (unix_seconds (cc_now k - 30 * go_second)),
                       ce_valid_before = of_int (unix_seconds (cc_now k + co_ttl c)),
                       ce_critical_options = cert_critical_options c,
                       ce_extensions = cert_extensions c, ce_signature = []\<rparr>
           in case S ca cert of
                None \<Rightarrow> Inl SigningFailed
              | Some sig \<Rightarrow> Inr (cert\<lparr>ce_signature := sig\<rparr>, serial)))"

section \<open>Lemmas\<close>

lemma build_and_sign_Inr:
  assumes "build_and_sign S k ca pub c = Inr (cert, serial)"
  shows "co_principal c \<noteq> []" and "0 < co_ttl c" and "co_ttl c \<le> max_cert_ttl"
    and "ce_key cert = pub" and "ce_key_id cert = co_key_id c"
    and "ce_valid_principals cert = [co_principal c]"
    and "ce_critical_options cert = cert_critical_options c"
    and "ce_extensions cert = cert_extensions c" and "ce_serial cert = serial"
    and "ce_valid_after cert = of_int (unix_seconds (cc_now k - 30 * go_second))"
    and "ce_valid_before cert = of_int (unix_seconds (cc_now k + co_ttl c))"
  using assms
  by (auto simp: build_and_sign_def Let_def split: if_splits sum.splits option.splits)

lemma force_command_option:
  "map_of (cert_critical_options c) ''force-command'' =
     (if co_force_command c = [] then None else Some (co_force_command c))"
  by (simp add: cert_critical_options_def Let_def)

lemma source_address_option:
  "map_of (cert_critical_options c) ''source-address'' =
     (if co_source_address c = [] then None else Some (co_source_address c))"
  by (simp add: cert_critical_options_def Let_def)

lemma forwarding_extension:
  "map_has (cert_extensions c) ''permit-port-forwarding'' \<longleftrightarrow> co_allow_port_forwarding c"
  by (simp add: cert_extensions_def map_has_def Let_def)

lemma pty_extension: "map_has (cert_extensions c) ''permit-pty'' \<longleftrightarrow> co_allow_pty c"
  by (simp add: cert_extensions_def map_has_def Let_def)

lemma extensions_only:
  "map_has (cert_extensions c) x \<Longrightarrow> x = ''permit-port-forwarding'' \<or> x = ''permit-pty''"
  by (auto simp: cert_extensions_def map_has_def Let_def split: if_splits)

lemmas cert_option_simps = force_command_option source_address_option forwarding_extension pty_extension

section \<open>Properties\<close>

text \<open>
  The validity window of an issued certificate. For a clock between 1970 plus thirty seconds and
  the year 2554, a certificate that \<open>BuildAndSign\<close> returns starts thirty seconds before the issue,
  ends after it, and is never valid for more than 930 seconds in all: the 64-bit fields do not wrap.
\<close>

theorem certificate_window:
  assumes "build_and_sign S k ca pub c = Inr (cert, serial)"
    and "30 * go_second \<le> cc_now k" and "cc_now k < 2 ^ 64"
  shows "unat (ce_valid_after cert) = nat (unix_seconds (cc_now k) - 30)
    \<and> nat (unix_seconds (cc_now k)) \<le> unat (ce_valid_before cert)
    \<and> unat (ce_valid_before cert) \<le> unat (ce_valid_after cert) + 930"
proof -
  let ?n = "unix_seconds (cc_now k)"
  note b = build_and_sign_Inr [OF assms(1)]
  have ttl: "0 < co_ttl c" "co_ttl c \<le> 900 * go_second" using b(2,3) by (auto simp: max_cert_ttl_def)
  have after: "unix_seconds (cc_now k - 30 * go_second) = ?n - 30"
    using div_mult_self2 [of go_second "cc_now k" "-30"] by (simp add: unix_seconds_def)
  have n: "30 \<le> ?n" "?n < 2 ^ 63" using assms(2,3) by (auto simp: unix_seconds_def)
  have before: "?n \<le> unix_seconds (cc_now k + co_ttl c)" "unix_seconds (cc_now k + co_ttl c) \<le> ?n + 900"
    using ttl zdiv_mono1 [of "cc_now k + co_ttl c" "cc_now k + 900 * go_second" go_second]
    by (auto simp: unix_seconds_def intro: zdiv_mono1)
  have cast: "unat (of_int i :: 64 word) = nat i" if "0 \<le> i" "i < 2 ^ 64" for i
    using that by (simp add: unsigned_of_int take_bit_eq_mod)
  have "unat (ce_valid_after cert) = nat (?n - 30)"
    unfolding b(10) after using n by (intro cast) auto
  moreover have "unat (ce_valid_before cert) = nat (unix_seconds (cc_now k + co_ttl c))"
    using n before by (simp add: b(11) cast)
  ultimately show ?thesis using before n by (simp add: nat_le_eq_zle)
qed

definition example_ca :: ca_sign where
  "example_ca ca cert = Some (ca @ ce_key_id cert)"

definition example_constraints :: constraints where
  "example_constraints = \<lparr>co_principal = ''host:web1'', co_ttl = 120 * go_second,
     co_source_address = [], co_force_command = ''uptime'', co_allow_port_forwarding = False,
     co_allow_pty = False, co_key_id = ''agent=b1''\<rparr>"

definition example_ca_call :: ca_call where
  "example_ca_call = \<lparr>cc_cancelled = False, cc_random = Some ''abcdefgh'', cc_now = 1000 * go_second\<rparr>"

theorem certificate_window_witness:
  "unat (ce_valid_after (fst (projr (build_and_sign example_ca example_ca_call ''ca'' ''pk'' example_constraints)))) = 970"
proof -
  obtain cert serial where c: "build_and_sign example_ca example_ca_call ''ca'' ''pk'' example_constraints
      = Inr (cert, serial)"
    by (simp add: build_and_sign_def example_ca_def example_constraints_def example_ca_call_def
        random_serial_def max_cert_ttl_def Let_def)
  show ?thesis
    using certificate_window [OF c] unfolding c by (simp add: example_ca_call_def unix_seconds_def)
qed

end
