(* ===== verification/Remote_Client.thy ===== *)
theory Remote_Client
  imports Signer_Types Cert_Authority "HOL-Library.Signed_Division"
begin

text \<open>
  The client of the signing service, \<open>internal/signer/remote.go\<close>: the request it builds from an intent, how it
  reads each answer, and the polling of an operation that waits for a human. Broker and control plane share it.

  The network is an argument: what one POST or GET answers (\<^term>\<open>None\<close> where the transport fails) and, for
  polling, one \<open>poll_event\<close> per turn of the loop. \<open>remote_lib\<close> holds the JSON codecs, the SSH key codecs and
  the check of \<open>http.NewRequest\<close> on a URL. Polling may go on as long as the clock stands still, so the
  loop is a partial function; that it returns is a theorem.
\<close>

section \<open>Data\<close>

text \<open>\<open>DecisionInfo\<close> as it travels: rules, reasons and warnings are text here.\<close>

record dec_info =
  dw_allowed :: bool
  dw_reason :: string
  dw_require_approval :: bool
  dw_matched_rule :: string
  dw_force_command :: string
  dw_ttl_seconds :: int
  dw_elevation :: string
  dw_enforcement :: string
  dw_warning :: string
  dw_would_deny :: bool
  dw_would_require_approval :: bool

text \<open>\<open>WireResponse\<close>, with the certificate as its line.\<close>

record wire_answer =
  wa_certificate :: string
  wa_serial :: "64 word"
  wa_elevation_prefix :: string
  wa_k8s_token :: string
  wa_k8s_token_expiry :: go_time
  wa_decision :: "dec_info option"
  wa_envelope :: string

text \<open>\<open>Issued\<close> as the client builds it.\<close>

record issued_remote =
  ir_certificate :: "certificate option"
  ir_serial :: "64 word"
  ir_elevation_prefix :: string
  ir_k8s_token :: string
  ir_k8s_token_expiry :: go_time
  ir_decision :: "dec_info option"
  ir_envelope :: string

definition decision_only :: "dec_info option \<Rightarrow> string \<Rightarrow> issued_remote" where
  "decision_only d env = \<lparr>ir_certificate = None, ir_serial = 0, ir_elevation_prefix = [], ir_k8s_token = [],
     ir_k8s_token_expiry = 0, ir_decision = d, ir_envelope = env\<rparr>"

definition token_issued :: "wire_answer \<Rightarrow> issued_remote" where
  "token_issued wr = (decision_only (wa_decision wr) [])\<lparr>ir_k8s_token := wa_k8s_token wr,
     ir_k8s_token_expiry := wa_k8s_token_expiry wr, ir_serial := wa_serial wr\<rparr>"

definition cert_issued :: "certificate \<Rightarrow> wire_answer \<Rightarrow> issued_remote" where
  "cert_issued c wr = (decision_only (wa_decision wr) [])\<lparr>ir_certificate := Some c, ir_serial := wa_serial wr,
     ir_elevation_prefix := wa_elevation_prefix wr\<rparr>"

record http_answer =
  ha_status :: int
  ha_body :: string
  ha_read_ok :: bool
  ha_retry_after :: string

record poll_event =
  pv_cancelled :: bool
  pv_now :: go_time
  pv_answer :: "http_answer option"

record remote_lib =
  rm_url_ok :: "string \<Rightarrow> bool"
  rm_encode_request :: "wire_request \<Rightarrow> string"
  rm_decode_answer :: "string \<Rightarrow> wire_answer option"
  rm_decode_accepted :: "string \<Rightarrow> string option"
  rm_encode_key :: "string \<Rightarrow> string"
  rm_parse_key :: "string \<Rightarrow> string option"
  rm_parse_certificate :: "string \<Rightarrow> certificate option"

record remote =
  re_url :: string
  re_approval_wait :: go_duration
  re_poll_interval :: go_duration

record remote_env =
  rv_post :: "string \<Rightarrow> string \<Rightarrow> http_answer option"
  rv_get :: "string \<Rightarrow> string \<Rightarrow> http_answer option"
  rv_now :: go_time
  rv_poll :: "nat \<Rightarrow> poll_event"

datatype remote_error =
    BuildRequest
  | Contacting
  | ReadingAnswer
  | InvalidAccepted
  | Unavailable int string
  | RateLimitedErr string string
  | SigningRejected int string
  | InvalidAnswer
  | CertificateInvalid
  | NotConfiguredToWait string
  | Cancelled
  | DeadlinePassed string
  | BuildPoll
  | PollContact
  | NotGranted int string
  | InvalidApprovalAnswer

definition is_signer_unavailable :: "remote_error \<Rightarrow> bool" where
  "is_signer_unavailable e \<longleftrightarrow> (case e of Contacting \<Rightarrow> True | Unavailable _ _ \<Rightarrow> True | _ \<Rightarrow> False)"

definition is_rate_limited :: "remote_error \<Rightarrow> bool" where
  "is_rate_limited e \<longleftrightarrow> (case e of RateLimitedErr _ _ \<Rightarrow> True | _ \<Rightarrow> False)"

abbreviation default_poll_interval :: go_duration where "default_poll_interval \<equiv> 2 * go_second"
abbreviation max_transient_polls :: nat where "max_transient_polls \<equiv> 10"
abbreviation answer_limit :: int where "answer_limit \<equiv> 1048576"

text \<open>What \<open>io.ReadAll\<close> gets through an \<open>io.LimitReader\<close>.\<close>

definition limit_read :: "int \<Rightarrow> string \<Rightarrow> string" where
  "limit_read n s = (if int (length s) \<le> n then s else take (nat n) s)"

section \<open>Requests and answers\<close>

definition new_remote :: "string \<Rightarrow> remote" where
  "new_remote url = \<lparr>re_url = url, re_approval_wait = 0, re_poll_interval = 0\<rparr>"

definition set_approval_wait :: "go_duration \<Rightarrow> remote \<Rightarrow> remote" where
  "set_approval_wait d r = r\<lparr>re_approval_wait := d\<rparr>"

text \<open>The body of \<open>POST /v1/sign\<close>. An absent public key is the empty string.\<close>

definition wire_of_intent :: "remote_lib \<Rightarrow> intent \<Rightarrow> wire_request" where
  "wire_of_intent L i =
     (let wr = \<lparr>wr_host = in_host i, wr_role = in_role i, wr_purpose = in_purpose i, wr_session_mode = in_session_mode i,
                wr_command = in_command i, wr_ttl_seconds = in_requested_ttl i sdiv go_second, wr_public_key = [],
                wr_target_type = [], wr_k8s_verb = [], wr_k8s_resource = [], wr_k8s_group = [], wr_k8s_namespace = [],
                wr_k8s_name = [], wr_sudo = in_sudo i, wr_sudo_user = in_sudo_user i, wr_pty = in_pty i,
                wr_file_transfer = in_file_transfer i, wr_dry_run = in_dry_run i, wr_preflight = in_preflight i,
                wr_on_behalf_of = in_on_behalf_of i, wr_approved = in_approved i, wr_end_user = in_end_user i,
                wr_end_user_groups = in_end_user_groups i, wr_end_user_context = in_end_user_context i,
                wr_bearer_token = in_raw_token i, wr_learn_ttl_seconds = in_learn_ttl_seconds i,
                wr_learn_approver = in_learn_approver i, wr_learn_approval_id = in_learn_approval_id i\<rparr>
      in case (in_target_type i = TargetTypeK8s, in_k8s i) of
           (True, Some a) \<Rightarrow> wr\<lparr>wr_target_type := TargetTypeK8s, wr_k8s_verb := ka_verb a, wr_k8s_resource := ka_resource a,
              wr_k8s_group := ka_group a, wr_k8s_namespace := ka_namespace a, wr_k8s_name := ka_name a\<rparr>
         | _ \<Rightarrow> (if in_public_key i \<noteq> [] then wr\<lparr>wr_public_key := rm_encode_key L (in_public_key i)\<rparr> else wr))"

definition issued_from_wire :: "remote_lib \<Rightarrow> intent \<Rightarrow> wire_answer \<Rightarrow> remote_error + issued_remote" where
  "issued_from_wire L i wr =
     (if in_target_type i = TargetTypeK8s then
        (if in_dry_run i \<or> wa_k8s_token wr = [] then Inr (decision_only (wa_decision wr) []) else Inr (token_issued wr))
      else if in_dry_run i \<or> wa_certificate wr = [] then Inr (decision_only (wa_decision wr) (wa_envelope wr))
      else case rm_parse_certificate L (wa_certificate wr) of
        None \<Rightarrow> Inl CertificateInvalid
      | Some c \<Rightarrow> Inr (cert_issued c wr))"

definition poll_result :: "remote_lib \<Rightarrow> string \<Rightarrow> remote_error + issued_remote" where
  "poll_result L body =
     (case rm_decode_answer L body of
        None \<Rightarrow> Inl InvalidApprovalAnswer
      | Some wr \<Rightarrow>
          (if wa_k8s_token wr \<noteq> [] then Inr (token_issued wr)
           else if wa_certificate wr = [] then Inr (decision_only (wa_decision wr) (wa_envelope wr))
           else case rm_parse_certificate L (wa_certificate wr) of
             None \<Rightarrow> Inl CertificateInvalid
           | Some c \<Rightarrow> Inr (cert_issued c wr)))"

section \<open>Polling\<close>

text \<open>
  One turn: stop with a result, or go on with the new count of consecutive transient answers. The order of
  the checks is that of the loop: cancellation, deadline, the request, the status.
\<close>

definition poll_step :: "remote_lib \<Rightarrow> string \<Rightarrow> string \<Rightarrow> go_time \<Rightarrow> poll_event \<Rightarrow> nat \<Rightarrow> (remote_error + issued_remote) + nat" where
  "poll_step L url aid deadline ev transient =
     (if pv_cancelled ev then Inl (Inl Cancelled)
      else if deadline < pv_now ev then Inl (Inl (DeadlinePassed aid))
      else if \<not> rm_url_ok L (url @ ''/v1/sign/result/'' @ aid) then Inl (Inl BuildPoll)
      else case pv_answer ev of
        None \<Rightarrow> Inl (Inl PollContact)
      | Some a \<Rightarrow>
          (let rb = limit_read answer_limit (ha_body a) in
           if ha_status a = 202 then Inr 0
           else if ha_status a = 502 \<or> ha_status a = 503 \<or> ha_status a = 429 then
             (if max_transient_polls < Suc transient then Inl (Inl (NotGranted (ha_status a) (trim_space rb)))
              else Inr (Suc transient))
           else if ha_status a = 200 then Inl (poll_result L rb)
           else Inl (Inl (NotGranted (ha_status a) (trim_space rb)))))"

partial_function (option) poll_loop ::
  "remote_lib \<Rightarrow> string \<Rightarrow> string \<Rightarrow> go_time \<Rightarrow> (nat \<Rightarrow> poll_event) \<Rightarrow> nat \<Rightarrow> nat \<Rightarrow> (remote_error + issued_remote) option" where
  "poll_loop L url aid deadline events n transient =
     (case poll_step L url aid deadline (events n) transient of
        Inl r \<Rightarrow> Some r
      | Inr transient' \<Rightarrow> poll_loop L url aid deadline events (Suc n) transient')"

definition poll_interval :: "remote \<Rightarrow> go_duration" where
  "poll_interval r = (if re_poll_interval r \<le> 0 then default_poll_interval else re_poll_interval r)"

definition poll_approval :: "remote_lib \<Rightarrow> remote \<Rightarrow> remote_env \<Rightarrow> string \<Rightarrow> (remote_error + issued_remote) option" where
  "poll_approval L r V aid =
     (if re_approval_wait r \<le> 0 then Some (Inl (NotConfiguredToWait aid))
      else poll_loop L (re_url r) aid (rv_now V + re_approval_wait r) (rv_poll V) 0 0)"

text \<open>\<open>SignIntent\<close> against the service; \<^term>\<open>None\<close> where polling never ends.\<close>

definition remote_sign_intent :: "remote_lib \<Rightarrow> remote \<Rightarrow> remote_env \<Rightarrow> intent \<Rightarrow> (remote_error + issued_remote) option" where
  "remote_sign_intent L r V i =
     (if \<not> rm_url_ok L (re_url r @ ''/v1/sign'') then Some (Inl BuildRequest)
      else case rv_post V (re_url r @ ''/v1/sign'') (rm_encode_request L (wire_of_intent L i)) of
        None \<Rightarrow> Some (Inl Contacting)
      | Some a \<Rightarrow>
          (let rb = limit_read answer_limit (ha_body a) in
           if \<not> ha_read_ok a then Some (Inl ReadingAnswer)
           else if ha_status a = 202 then
             (case rm_decode_accepted L rb of
                None \<Rightarrow> Some (Inl InvalidAccepted)
              | Some aid \<Rightarrow> (if aid = [] then Some (Inl InvalidAccepted) else poll_approval L r V aid))
           else if ha_status a \<noteq> 200 then
             (if 500 \<le> ha_status a then Some (Inl (Unavailable (ha_status a) (trim_space rb)))
              else if ha_status a = 429 then Some (Inl (RateLimitedErr (ha_retry_after a) (trim_space rb)))
              else Some (Inl (SigningRejected (ha_status a) (trim_space rb))))
           else case rm_decode_answer L rb of
             None \<Rightarrow> Some (Inl InvalidAnswer)
           | Some wr \<Rightarrow> Some (issued_from_wire L i wr)))"

text \<open>
  \<open>FetchHosts\<close>, \<open>FetchClusters\<close> and \<open>FetchRevocations\<close> read a JSON answer the same way; the decoder of the answer
  is an argument, and an empty \<open>on_behalf_of\<close> sends no header. The client's record of a host has the fields of the
  wire record; a cluster is passed on as it is.
\<close>

definition fetch_json :: "remote_lib \<Rightarrow> remote \<Rightarrow> remote_env \<Rightarrow> string \<Rightarrow> (string \<Rightarrow> 'a option) \<Rightarrow> string \<Rightarrow> remote_error + 'a" where
  "fetch_json L r V path decode on_behalf_of =
     (if \<not> rm_url_ok L (re_url r @ path) then Inl BuildRequest
      else case rv_get V (re_url r @ path) on_behalf_of of
        None \<Rightarrow> Inl Contacting
      | Some a \<Rightarrow>
          (let rb = limit_read answer_limit (ha_body a) in
           if \<not> ha_read_ok a then Inl ReadingAnswer
           else if ha_status a \<noteq> 200 then Inl (SigningRejected (ha_status a) (trim_space rb))
           else case decode rb of None \<Rightarrow> Inl InvalidAnswer | Some v \<Rightarrow> Inr v))"

definition copy_host :: "wire_host_info \<Rightarrow> wire_host_info" where
  "copy_host h = \<lparr>wh_addr = wh_addr h, wh_user = wh_user h, wh_host_key = wh_host_key h, wh_jump = wh_jump h,
     wh_allow_sudo = wh_allow_sudo h, wh_allow_pty = wh_allow_pty h, wh_allow_file_transfer = wh_allow_file_transfer h,
     wh_groups = wh_groups h\<rparr>"

definition fetch_hosts ::
  "remote_lib \<Rightarrow> remote \<Rightarrow> remote_env \<Rightarrow> (string \<Rightarrow> (string, wire_host_info) go_map option) \<Rightarrow> string \<Rightarrow>
   remote_error + (string, wire_host_info) go_map" where
  "fetch_hosts L r V decode on_behalf_of =
     map_sum id (map (\<lambda>(name, h). (name, copy_host h))) (fetch_json L r V ''/v1/hosts'' decode on_behalf_of)"

definition fetch_clusters ::
  "remote_lib \<Rightarrow> remote \<Rightarrow> remote_env \<Rightarrow> (string \<Rightarrow> (string, 'c) go_map option) \<Rightarrow> string \<Rightarrow> remote_error + (string, 'c) go_map" where
  "fetch_clusters L r V decode on_behalf_of = fetch_json L r V ''/v1/clusters'' decode on_behalf_of"

definition fetch_revocations :: "remote_lib \<Rightarrow> remote \<Rightarrow> remote_env \<Rightarrow> (string \<Rightarrow> 'f list option) \<Rightarrow> remote_error + 'f list" where
  "fetch_revocations L r V decode = fetch_json L r V ''/v1/revocations'' decode []"

section \<open>Polling ends\<close>

text \<open>How many turns a run of the loop takes, for the bound.\<close>

inductive polls_in :: "remote_lib \<Rightarrow> string \<Rightarrow> string \<Rightarrow> go_time \<Rightarrow> (nat \<Rightarrow> poll_event) \<Rightarrow> nat \<Rightarrow> nat \<Rightarrow> nat \<Rightarrow>
    (remote_error + issued_remote) \<Rightarrow> bool" for L url aid deadline events where
  stop: "poll_step L url aid deadline (events n) k = Inl r \<Longrightarrow> polls_in L url aid deadline events n k 1 r"
| turn: "poll_step L url aid deadline (events n) k = Inr k' \<Longrightarrow> polls_in L url aid deadline events (Suc n) k' c r
    \<Longrightarrow> polls_in L url aid deadline events n k (Suc c) r"

lemma polls_in_loop:
  "polls_in L url aid deadline events n k c r \<Longrightarrow> poll_loop L url aid deadline events n k = Some r"
  by (induction rule: polls_in.induct) (simp_all add: poll_loop.simps)

lemma polls_until:
  assumes "deadline < pv_now (events (n + m))"
  shows "\<exists>c r. c \<le> Suc m \<and> polls_in L url aid deadline events n k c r"
  using assms
proof (induction m arbitrary: n k)
  case 0
  then obtain r where "poll_step L url aid deadline (events n) k = Inl r"
    using that by (cases "pv_cancelled (events n)") (simp_all add: poll_step_def)
  then show ?case using polls_in.stop by fastforce
next
  case (Suc m)
  show ?case
  proof (cases "poll_step L url aid deadline (events n) k")
    case (Inl r)
    then show ?thesis using polls_in.stop by fastforce
  next
    case (Inr k')
    obtain c r where "c \<le> Suc m" "polls_in L url aid deadline events (Suc n) k' c r"
      using Suc.IH [of "Suc n" k'] Suc.prems by auto
    then show ?thesis using polls_in.turn [where events = events and n = n, OF Inr] by fastforce
  qed
qed

lemma poll_interval_pos [simp]: "0 < poll_interval r"
  by (simp add: poll_interval_def)

lemma div_interval_bound: "0 < k \<Longrightarrow> 0 < w \<Longrightarrow> w < (int (nat (w div k)) + 1) * k" for w k :: int
proof -
  assume "0 < k" and "0 < w"
  then have *: "w mod k < k" "int (nat (w div k)) = w div k" by (simp_all add: pos_imp_zdiv_nonneg_iff)
  have "w = w div k * k + w mod k" by simp
  also have "... < (w div k + 1) * k" using *(1) by (simp only: distrib_right mult_1 add_strict_left_mono)
  finally show ?thesis using *(2) by simp
qed

text \<open>
  C32: Waiting for a human ends. A ticker delivers the turn number \<open>n\<close> no earlier than \<open>n + 1\<close> intervals after
  polling began; then, whatever the service answers, a request that is sent returns a result, and when it has to
  wait the result comes after at most one poll more than fit into the waiting time.
\<close>

theorem approval_wait_ends:
  assumes "\<forall>n. rv_now V + (int n + 1) * poll_interval r \<le> pv_now (rv_poll V n)"
  shows "(\<exists>y. remote_sign_intent L r V i = Some y)
    \<and> (0 < re_approval_wait r \<longrightarrow> (\<exists>c y. c \<le> Suc (nat (re_approval_wait r div poll_interval r))
      \<and> polls_in L (re_url r) aid (rv_now V + re_approval_wait r) (rv_poll V) 0 0 c y
      \<and> poll_approval L r V aid = Some y))"
proof -
  have bound: "\<exists>c y. c \<le> Suc (nat (re_approval_wait r div poll_interval r))
      \<and> polls_in L (re_url r) aid (rv_now V + re_approval_wait r) (rv_poll V) 0 0 c y
      \<and> poll_approval L r V aid = Some y" if wait: "0 < re_approval_wait r" for aid
  proof -
    let ?m = "nat (re_approval_wait r div poll_interval r)"
    have "rv_now V + re_approval_wait r < pv_now (rv_poll V (0 + ?m))"
      using assms [rule_format, of ?m] div_interval_bound [OF poll_interval_pos wait, of r] by simp
    from polls_until [where events = "rv_poll V" and n = 0, OF this] obtain c y where
      "c \<le> Suc ?m" "polls_in L (re_url r) aid (rv_now V + re_approval_wait r) (rv_poll V) 0 0 c y" by blast
    with wait show ?thesis using polls_in_loop by (fastforce simp: poll_approval_def)
  qed
  have "\<exists>y. poll_approval L r V aid = Some y" for aid
    using bound [of aid] by (cases "0 < re_approval_wait r") (auto simp: poll_approval_def)
  then have "\<exists>y. remote_sign_intent L r V i = Some y"
    by (auto simp: remote_sign_intent_def Let_def split: option.splits)
  with bound [of aid] show ?thesis by blast
qed

text \<open>A control plane that never decides: two seconds between polls, six seconds of patience.\<close>

definition demo_remote_lib :: remote_lib where
  "demo_remote_lib = \<lparr>rm_url_ok = (\<lambda>_. True), rm_encode_request = wr_command, rm_decode_answer = (\<lambda>_. None),
     rm_decode_accepted = Some, rm_encode_key = id, rm_parse_key = Some, rm_parse_certificate = (\<lambda>_. None)\<rparr>"

definition demo_remote_env :: remote_env where
  "demo_remote_env = \<lparr>rv_post = (\<lambda>_ _. Some \<lparr>ha_status = 202, ha_body = ''a1'', ha_read_ok = True, ha_retry_after = []\<rparr>),
     rv_get = (\<lambda>_ _. None), rv_now = 0,
     rv_poll = (\<lambda>n. \<lparr>pv_cancelled = False, pv_now = (int n + 1) * 2 * go_second,
       pv_answer = Some \<lparr>ha_status = 202, ha_body = [], ha_read_ok = True, ha_retry_after = []\<rparr>\<rparr>)\<rparr>"

definition demo_remote :: remote where
  "demo_remote = set_approval_wait (6 * go_second) (new_remote ''cp'')"

theorem approval_wait_ends_witness:
  "(\<exists>y. remote_sign_intent demo_remote_lib demo_remote demo_remote_env (plain_intent ''b'' ''web'' ''ls'') = Some y)
   \<and> (\<exists>c y. c \<le> 4 \<and> polls_in demo_remote_lib ''cp'' ''a1'' (6 * go_second) (rv_poll demo_remote_env) 0 0 c y)"
proof -
  have "\<forall>n. rv_now demo_remote_env + (int n + 1) * poll_interval demo_remote \<le> pv_now (rv_poll demo_remote_env n)"
    by (simp add: demo_remote_env_def demo_remote_def set_approval_wait_def new_remote_def poll_interval_def)
  from approval_wait_ends [OF this, of demo_remote_lib "plain_intent ''b'' ''web'' ''ls''" "''a1''"] show ?thesis
    by (auto simp: demo_remote_env_def demo_remote_def set_approval_wait_def new_remote_def poll_interval_def)
qed

end
