(* ===== verification/Caller_Auth.thy ===== *)
theory Caller_Auth
  imports Go_Prelude
begin

text \<open>
  The identity of an mTLS peer, \<open>internal/auth/mtls.go\<close>: the common name of the verified client certificate,
  refused when the certificate is not for client authentication, or the name is empty or holds a control
  character. Chain verification is that of \<open>crypto/tls\<close>; a request without a certificate is \<^term>\<open>None\<close>.
\<close>

datatype ext_key_usage = EKUClientAuth | EKUAny | EKUServerAuth | EKUOther nat

record peer_certificate =
  pc_common_name :: string
  pc_ext_key_usage :: "ext_key_usage list"

definition has_client_auth_eku :: "peer_certificate \<Rightarrow> bool" where
  "has_client_auth_eku c \<longleftrightarrow> pc_ext_key_usage c = []
     \<or> list_ex (\<lambda>ku. ku = EKUClientAuth \<or> ku = EKUAny) (pc_ext_key_usage c)"

text \<open>
  \<open>unicode.IsControl\<close> on the runes of a UTF-8 text: U+0000 to U+001F, U+007F, and U+0080 to U+009F, which are
  the byte 194 and a byte from 128 to 159. An invalid byte is read as U+FFFD, which is no control character.
\<close>

fun has_control_rune :: "string \<Rightarrow> bool" where
  "has_control_rune [] = False"
| "has_control_rune (c # t) =
     ((of_char c :: nat) < 32 \<or> (of_char c :: nat) = 127
      \<or> ((of_char c :: nat) = 194 \<and> (case t of [] \<Rightarrow> False | d # _ \<Rightarrow> 128 \<le> (of_char d :: nat) \<and> (of_char d :: nat) < 160))
      \<or> has_control_rune t)"

definition caller_cn :: "peer_certificate option \<Rightarrow> string option" where
  "caller_cn peer =
     (case peer of
        None \<Rightarrow> None
      | Some c \<Rightarrow>
          (if \<not> has_client_auth_eku c then None
           else if pc_common_name c = [] then None
           else if has_control_rune (pc_common_name c) then None
           else Some (pc_common_name c)))"

lemma caller_cn_Some:
  assumes "caller_cn peer = Some cn"
  obtains c where "peer = Some c" and "cn = pc_common_name c" and "has_client_auth_eku c" and "cn \<noteq> []" and "\<not> has_control_rune cn"
  using assms by (auto simp: caller_cn_def split: option.splits if_splits)

lemma has_control_rune_iff:
  "has_control_rune s \<longleftrightarrow> (\<exists>c \<in> set s. (of_char c :: nat) < 32 \<or> (of_char c :: nat) = 127)
     \<or> (\<exists>u c d v. s = u @ c # d # v \<and> (of_char c :: nat) = 194 \<and> 128 \<le> (of_char d :: nat) \<and> (of_char d :: nat) < 160)"
proof (induction s)
  case (Cons c t)
  have "(\<exists>u x d v. c # t = u @ x # d # v \<and> (of_char x :: nat) = 194 \<and> 128 \<le> (of_char d :: nat) \<and> (of_char d :: nat) < 160)
    \<longleftrightarrow> (\<exists>d v. t = d # v \<and> (of_char c :: nat) = 194 \<and> 128 \<le> (of_char d :: nat) \<and> (of_char d :: nat) < 160)
      \<or> (\<exists>u x d v. t = u @ x # d # v \<and> (of_char x :: nat) = 194 \<and> 128 \<le> (of_char d :: nat) \<and> (of_char d :: nat) < 160)"
    by (auto simp: Cons_eq_append_conv) blast+
  then show ?case using Cons.IH by (auto split: list.splits)
qed simp

end
