(* ===== verification/Control_Plane.thy ===== *)
theory Control_Plane
  imports Approval Behavior Audit_Log Redact Remote_Client Caller_Auth
begin

text \<open>
  The HTTP service of the control plane, \<open>cmd/control-plane/main.go\<close>: it stands between brokers and the signer,
  runs the behaviour guardrails, parks requests that need a human, lets approvers decide, and collects the
  credential of an approved request from the signer.

  The state is the \<open>server\<close> struct; what the notifier was told is kept in \<open>cp_notified\<close>. \<open>control_env\<close> gathers
  what one request reads from outside: the client library and the network towards the signer, the libraries
  and the operating system under the audit log, the clock, the random identifier, the outcome of the database
  calls, the wording of errors. The bearer of a request is its peer certificate.
\<close>

section \<open>Data\<close>

record control_server =
  cp_remote :: remote
  cp_registry :: registry
  cp_behavior :: behavior_tracker
  cp_audit :: audit_log
  cp_fail_closed :: bool
  cp_redactor :: "redact_rule list option"
  cp_approve_cn :: "string list"
  cp_sign_cn :: "string list"
  cp_forwarders :: "string list"
  cp_notified :: "approval list"

record control_env =
  ce_lib :: remote_lib
  ce_net :: remote_env
  ce_audit :: audit_lib
  ce_io :: "nat \<Rightarrow> append_io"
  ce_redact :: redact_lib
  ce_codec :: request_codec
  ce_now :: go_time
  ce_new_id :: "string option"
  ce_purge_ok :: bool
  ce_insert_ok :: bool
  ce_row_ok :: bool
  ce_error_text :: "remote_error \<Rightarrow> string"
  ce_encode_certificate :: "certificate \<Rightarrow> string"

datatype cp_refusal =
    CPUnauthenticated
  | CPNotSignCaller
  | CPInvalidRequest
  | CPInvalidPubkey
  | CPRelayRateLimit string remote_error
  | CPRelay remote_error
  | CPRateExceeded
  | CPCommandNotAllowed
  | CPNoApprovalCreated
  | CPMissingCredential
  | CPUnknownRequest
  | CPNotOriginator
  | CPApprovalDenied
  | CPApprovalExpired
  | CPAlreadyUsed
  | CPSigningAfterApproval
  | CPAuditUnavailable
  | CPNotApprover
  | CPNeedJson
  | CPLearnNeedsTTL
  | CPSelfApproval
  | CPDecideFailed registry_error

datatype 'a cp_reply = CPError nat cp_refusal | CPReply nat 'a

text \<open>What a broker is answered: a credential or decision, or that it has to wait.\<close>

datatype sign_payload = CPAnswer wire_answer | CPWaiting "string option" string | CPNothing

record decide_body =
  db_approve :: bool
  db_learn :: bool
  db_ttl_seconds :: int

section \<open>Helpers\<close>

definition cn_set :: "string list \<Rightarrow> string list" where
  "cn_set cns = remdups (filter (\<lambda>cn. cn \<noteq> []) cns)"

definition is_sign_caller :: "control_server \<Rightarrow> string \<Rightarrow> bool" where
  "is_sign_caller s cn \<longleftrightarrow> (if cp_sign_cn s \<noteq> [] then cn \<in> set (cp_sign_cn s) else cn \<notin> set (cp_approve_cn s))"

definition sign_caller :: "control_server \<Rightarrow> peer_certificate option \<Rightarrow> (nat \<times> cp_refusal) + string" where
  "sign_caller s peer =
     (case caller_cn peer of
        None \<Rightarrow> Inl (401, CPUnauthenticated)
      | Some cn \<Rightarrow> (if \<not> is_sign_caller s cn then Inl (403, CPNotSignCaller) else Inr cn))"

definition cp_approver :: "control_server \<Rightarrow> peer_certificate option \<Rightarrow> string option" where
  "cp_approver s peer =
     (case caller_cn peer of None \<Rightarrow> None | Some cn \<Rightarrow> (if cn \<in> set (cp_approve_cn s) then Some cn else None))"

definition target_type :: "string \<Rightarrow> string" where
  "target_type t = (if t = TargetTypeK8s then TargetTypeK8s else [])"

definition audit_e :: "control_env \<Rightarrow> nat \<Rightarrow> entry \<Rightarrow> control_server \<Rightarrow> control_server" where
  "audit_e Q n e s = s\<lparr>cp_audit := snd (audit_append (ce_audit Q) (ce_io Q n) e (cp_audit s))\<rparr>"

text \<open>\<open>auditGate\<close>: \<^term>\<open>False\<close> where 503 has been answered.\<close>

definition audit_gate :: "control_env \<Rightarrow> nat \<Rightarrow> entry \<Rightarrow> control_server \<Rightarrow> bool \<times> control_server" where
  "audit_gate Q n e s =
     (case audit_append (ce_audit Q) (ce_io Q n) e (cp_audit s) of
        (err, l) \<Rightarrow> (err = None \<or> \<not> cp_fail_closed s, s\<lparr>cp_audit := l\<rparr>))"

definition request_entry :: "string \<Rightarrow> wire_request \<Rightarrow> string \<Rightarrow> entry" where
  "request_entry cn req outcome = empty_entry\<lparr>en_caller := cn, en_host := wr_host req, en_command := wr_command req,
     en_target_type := target_type (wr_target_type req), en_outcome := outcome\<rparr>"

definition approval_entry :: "approval \<Rightarrow> string \<Rightarrow> entry" where
  "approval_entry a outcome = empty_entry\<lparr>en_caller := ap_caller a, en_host := ap_host a, en_command := ap_command a,
     en_target_type := ap_target_type a, en_outcome := outcome, en_approval_id := ap_id a\<rparr>"

definition decision_rule :: "dec_info option \<Rightarrow> string" where
  "decision_rule d = (case d of None \<Rightarrow> [] | Some d \<Rightarrow> dw_matched_rule d)"

definition decision_warning :: "dec_info option \<Rightarrow> string" where
  "decision_warning d = (case d of None \<Rightarrow> [] | Some d \<Rightarrow> dw_warning d)"

definition guardrail_subject :: "control_server \<Rightarrow> string \<Rightarrow> string \<Rightarrow> string" where
  "guardrail_subject s broker end_user =
     (if broker \<in> set (cp_forwarders s) \<and> end_user \<noteq> [] then broker @ '':'' @ end_user else broker)"

text \<open>\<open>intentFrom\<close>; \<^term>\<open>None\<close> where the public key does not parse.\<close>

definition intent_from :: "remote_lib \<Rightarrow> wire_request \<Rightarrow> string \<Rightarrow> bool \<Rightarrow> intent option" where
  "intent_from L req on_behalf_of approved =
     (let i = \<lparr>in_caller = [], in_host = wr_host req, in_target_type = [], in_k8s = None, in_role = wr_role req,
               in_purpose = wr_purpose req, in_session_mode = wr_session_mode req, in_command = wr_command req,
               in_requested_ttl = duration_seconds (wr_ttl_seconds req), in_public_key = [], in_sudo = wr_sudo req,
               in_sudo_user = wr_sudo_user req, in_pty = wr_pty req, in_file_transfer = wr_file_transfer req,
               in_dry_run = wr_dry_run req, in_preflight = wr_preflight req, in_approved = approved,
               in_on_behalf_of = on_behalf_of, in_end_user = wr_end_user req, in_end_user_groups = wr_end_user_groups req,
               in_end_user_context = wr_end_user_context req, in_raw_token = wr_bearer_token req,
               in_learn_ttl_seconds = 0, in_learn_approver = [], in_learn_approval_id = []\<rparr>
      in if wr_target_type req = TargetTypeK8s then
           Some (i\<lparr>in_target_type := TargetTypeK8s,
             in_k8s := Some \<lparr>ka_verb = wr_k8s_verb req, ka_resource = wr_k8s_resource req, ka_group = wr_k8s_group req,
                             ka_namespace = wr_k8s_namespace req, ka_name = wr_k8s_name req\<rparr>\<rparr>)
         else map_option (\<lambda>pub. i\<lparr>in_public_key := pub\<rparr>) (rm_parse_key L (wr_public_key req)))"

text \<open>
  The call of the signer. The control plane's client is not configured to wait, so it never polls; a client
  that does would be stopped by the end of the request, which cancels its context.
\<close>

definition remote_call :: "control_env \<Rightarrow> control_server \<Rightarrow> intent \<Rightarrow> remote_error + issued_remote" where
  "remote_call Q s i =
     (case remote_sign_intent (ce_lib Q) (cp_remote s) (ce_net Q) i of None \<Rightarrow> Inl Cancelled | Some r \<Rightarrow> r)"

text \<open>\<open>relaySignerRateLimit\<close>: the answer where the error is the signer's rate limit.\<close>

definition relay_signer_rate_limit :: "remote_error \<Rightarrow> 'a cp_reply option" where
  "relay_signer_rate_limit e =
     (case e of RateLimitedErr after msg \<Rightarrow> Some (CPError 429 (CPRelayRateLimit after e)) | _ \<Rightarrow> None)"

definition empty_answer :: wire_answer where
  "empty_answer = \<lparr>wa_certificate = [], wa_serial = 0, wa_elevation_prefix = [], wa_k8s_token = [], wa_k8s_token_expiry = 0,
     wa_decision = None, wa_envelope = []\<rparr>"

definition decision_answer :: "issued_remote \<Rightarrow> wire_answer" where
  "decision_answer iu = empty_answer\<lparr>wa_decision := ir_decision iu, wa_envelope := ir_envelope iu\<rparr>"

definition token_answer :: "issued_remote \<Rightarrow> wire_answer" where
  "token_answer iu = empty_answer\<lparr>wa_k8s_token := ir_k8s_token iu, wa_k8s_token_expiry := ir_k8s_token_expiry iu,
     wa_serial := ir_serial iu, wa_decision := ir_decision iu\<rparr>"

definition cert_answer :: "control_env \<Rightarrow> certificate \<Rightarrow> issued_remote \<Rightarrow> wire_answer" where
  "cert_answer Q c iu = empty_answer\<lparr>wa_certificate := ce_encode_certificate Q c, wa_serial := ir_serial iu,
     wa_elevation_prefix := ir_elevation_prefix iu, wa_decision := ir_decision iu\<rparr>"

section \<open>Signing\<close>

definition with_redacted_command :: "control_env \<Rightarrow> redact_rule list option \<Rightarrow> approval \<Rightarrow> approval" where
  "with_redacted_command Q r a = (case r of None \<Rightarrow> a | Some rules \<Rightarrow> a\<lparr>ap_command := redact (ce_redact Q) (Some rules) (ap_command a)\<rparr>)"

text \<open>What \<open>requireApproval\<close> registers: an end user asserted by a broker that is no trusted forwarder is dropped.\<close>

definition parked_request :: "control_server \<Rightarrow> string \<Rightarrow> wire_request \<Rightarrow> wire_request" where
  "parked_request s broker req =
     (if broker \<in> set (cp_forwarders s) then req else req\<lparr>wr_end_user := [], wr_end_user_context := []\<rparr>)"

definition require_approval ::
  "control_env \<Rightarrow> nat \<Rightarrow> string \<Rightarrow> wire_request \<Rightarrow> string \<Rightarrow> string \<Rightarrow> control_server \<Rightarrow> sign_payload cp_reply \<times> control_server" where
  "require_approval Q n broker req rule anomaly s =
     (let stripped = (broker \<notin> set (cp_forwarders s) \<and> wr_end_user req \<noteq> []);
          req = parked_request s broker req
      in case create_with (ce_codec Q) (ce_new_id Q) (ce_purge_ok Q) (ce_insert_ok Q) req broker (Some rule) stripped (ce_now Q)
                (cp_registry s) of
           (Inl e, r) \<Rightarrow> (CPError 500 CPNoApprovalCreated, s\<lparr>cp_registry := r\<rparr>)
         | (Inr a, r) \<Rightarrow>
             (let s = s\<lparr>cp_registry := r, cp_notified := cp_notified s @ [with_redacted_command Q (cp_redactor s) a]\<rparr>;
                  s = audit_e Q n ((request_entry broker req ''approval-required'')
                        \<lparr>en_approval_id := ap_id a, en_policy_rule := rule, en_anomaly := anomaly\<rparr>) s
              in (CPReply 202 (CPWaiting (Some (ap_id a)) StatusPending), s)))"

definition dry_run_sign_error ::
  "control_env \<Rightarrow> nat \<Rightarrow> string \<Rightarrow> wire_request \<Rightarrow> remote_error \<Rightarrow> control_server \<Rightarrow> sign_payload cp_reply \<times> control_server" where
  "dry_run_sign_error Q n broker req e s =
     (let entry_for = (\<lambda>outcome. (request_entry broker req outcome)\<lparr>en_dry_run := True, en_err := ce_error_text Q e\<rparr>) in
      if is_signer_unavailable e then (CPError 502 (CPRelay e), audit_e Q n (entry_for ''error'') s)
      else (CPError 403 (CPRelay e), audit_e Q n (entry_for ''denied'') s))"

text \<open>The block \<open>handleSign\<close> runs for a dry run, before or after the guardrails.\<close>

definition sign_dry_run :: "control_env \<Rightarrow> nat \<Rightarrow> string \<Rightarrow> wire_request \<Rightarrow> control_server \<Rightarrow> sign_payload cp_reply \<times> control_server" where
  "sign_dry_run Q n broker req s =
     (case intent_from (ce_lib Q) req broker False of
        None \<Rightarrow> (CPError 400 CPInvalidPubkey, s)
      | Some i \<Rightarrow>
          (case remote_call Q s i of
             Inl e \<Rightarrow>
               (case relay_signer_rate_limit e of Some reply \<Rightarrow> (reply, s) | None \<Rightarrow> dry_run_sign_error Q n broker req e s)
           | Inr iu \<Rightarrow> (CPReply 200 (CPAnswer (decision_answer iu)), s)))"

definition forward_sign_result ::
  "control_env \<Rightarrow> nat \<Rightarrow> string \<Rightarrow> wire_request \<Rightarrow> issued_remote \<Rightarrow> control_server \<Rightarrow> sign_payload cp_reply \<times> control_server" where
  "forward_sign_result Q n broker req iu s =
     (let forwarded_entry = (request_entry broker req ''forwarded'')\<lparr>en_serial := ir_serial iu,
            en_policy_rule := decision_rule (ir_decision iu), en_warning := decision_warning (ir_decision iu)\<rparr>
      in case ir_certificate iu of
           Some c \<Rightarrow> (CPReply 200 (CPAnswer (cert_answer Q c iu)), audit_e Q n forwarded_entry s)
         | None \<Rightarrow>
             (if ir_k8s_token iu \<noteq> [] then
                (CPReply 200 (CPAnswer (token_answer iu)), audit_e Q n (forwarded_entry\<lparr>en_target_type := TargetTypeK8s\<rparr>) s)
              else case ir_decision iu of
                Some d \<Rightarrow> (if dw_require_approval d then require_approval Q n broker req (dw_matched_rule d) [] s
                           else (CPError 502 CPMissingCredential, s))
              | None \<Rightarrow> (CPError 502 CPMissingCredential, s)))"

text \<open>\<open>checkBehaviorGuardrails\<close>: \<^term>\<open>None\<close> where the request may proceed, else the answer that was sent.\<close>

definition check_behavior_guardrails ::
  "control_env \<Rightarrow> string \<Rightarrow> wire_request \<Rightarrow> control_server \<Rightarrow> sign_payload cp_reply option \<times> control_server" where
  "check_behavior_guardrails Q broker req s =
     (case behavior_check (guardrail_subject s broker (wr_end_user req)) (wr_host req) (wr_command req) (ce_now Q) (cp_behavior s) of
        ((anomalies, exceeded), t) \<Rightarrow>
          (let s = s\<lparr>cp_behavior := t\<rparr>; joined = go_join anomalies '','' in
           if \<not> behavior_enforcing (cp_behavior s) then
             (None, if anomalies \<noteq> [] \<or> exceeded
                    then audit_e Q 0 ((request_entry broker req ''anomaly'')\<lparr>en_anomaly := joined\<rparr>) s else s)
           else if exceeded then
             (Some (CPError 429 CPRateExceeded),
              audit_e Q 0 ((request_entry broker req ''rate-limited'')\<lparr>en_anomaly := ''rate-exceeded''\<rparr>) s)
           else if anomalies \<noteq> [] then
             (case intent_from (ce_lib Q) req broker False of
                None \<Rightarrow> (Some (CPError 400 CPInvalidPubkey), s)
              | Some i \<Rightarrow>
                  (let denied = (\<lambda>err. (Some (CPError 403 CPCommandNotAllowed),
                         audit_e Q 0 ((request_entry broker req ''denied'')\<lparr>en_anomaly := joined, en_err := err\<rparr>) s))
                   in case remote_call Q s (i\<lparr>in_dry_run := True\<rparr>) of
                        Inl e \<Rightarrow>
                          (case relay_signer_rate_limit e of
                             Some reply \<Rightarrow> (Some reply, s)
                           | None \<Rightarrow>
                               (if is_signer_unavailable e then
                                  (Some (CPError 502 (CPRelay e)),
                                   audit_e Q 0 ((request_entry broker req ''error'')\<lparr>en_anomaly := joined, en_err := ce_error_text Q e\<rparr>) s)
                                else denied (ce_error_text Q e)))
                      | Inr iu \<Rightarrow>
                          (case ir_decision iu of
                             None \<Rightarrow> denied []
                           | Some d \<Rightarrow>
                               (if \<not> dw_allowed d then denied []
                                else case require_approval Q 0 broker req ''behavior'' joined s of
                                  (reply, s) \<Rightarrow> (Some reply, s)))))
           else (None, s)))"

text \<open>The rest of \<open>handleSign\<close>: the live request.\<close>

definition sign_live :: "control_env \<Rightarrow> nat \<Rightarrow> string \<Rightarrow> wire_request \<Rightarrow> control_server \<Rightarrow> sign_payload cp_reply \<times> control_server" where
  "sign_live Q n broker req s =
     (case intent_from (ce_lib Q) req broker False of
        None \<Rightarrow> (CPError 400 CPInvalidPubkey, s)
      | Some i \<Rightarrow>
          (case remote_call Q s i of
             Inl e \<Rightarrow>
               (case relay_signer_rate_limit e of
                  Some reply \<Rightarrow> (reply, s)
                | None \<Rightarrow>
                    (let entry_for = (\<lambda>outcome. (request_entry broker req outcome)\<lparr>en_err := ce_error_text Q e\<rparr>) in
                     if is_signer_unavailable e then (CPError 502 (CPRelay e), audit_e Q n (entry_for ''error'') s)
                     else (CPError 403 (CPRelay e), audit_e Q n (entry_for ''denied'') s)))
           | Inr iu \<Rightarrow> forward_sign_result Q n broker req iu s))"

definition cp_handle_sign ::
  "control_env \<Rightarrow> peer_certificate option \<Rightarrow> wire_request option \<Rightarrow> control_server \<Rightarrow> sign_payload cp_reply \<times> control_server" where
  "cp_handle_sign Q peer body s =
     (case sign_caller s peer of
        Inl (code, why) \<Rightarrow> (CPError code why, s)
      | Inr broker \<Rightarrow>
          (case body of
             None \<Rightarrow> (CPError 400 CPInvalidRequest, s)
           | Some req \<Rightarrow>
               (if wr_dry_run req \<and> \<not> wr_preflight req then sign_dry_run Q 0 broker req s
                else case (if behavior_enabled (cp_behavior s) then check_behavior_guardrails Q broker req s else (None, s)) of
                  (Some reply, s) \<Rightarrow> (reply, s)
                | (None, s) \<Rightarrow> (if wr_dry_run req then sign_dry_run Q 1 broker req s else sign_live Q 1 broker req s))))"

section \<open>Collecting the result of an approval\<close>

definition put_registry :: "registry \<Rightarrow> control_server \<Rightarrow> control_server" where
  "put_registry r s = s\<lparr>cp_registry := r\<rparr>"

text \<open>The record of a decided approval is written at its first poll only.\<close>

definition report_decided :: "control_env \<Rightarrow> string \<Rightarrow> entry \<Rightarrow> control_server \<Rightarrow> control_server" where
  "report_decided Q aid e s =
     (case report_result_once aid (ce_now Q) (cp_registry s) of
        (first, r) \<Rightarrow> (if first then audit_e Q 0 e (put_registry r s) else put_registry r s))"

text \<open>
  \<open>handleResult\<close> has two halves. The first authorises the poller, reads the approval and, when it is approved,
  claims it; the second asks the signer with the claim held, and gives the claim back or burns it. Other requests
  are served between the two.
\<close>

definition result_claim ::
  "control_env \<Rightarrow> peer_certificate option \<Rightarrow> string \<Rightarrow> control_server \<Rightarrow> (sign_payload cp_reply + approval) \<times> control_server" where
  "result_claim Q peer aid s =
     (case sign_caller s peer of
        Inl (code, why) \<Rightarrow> (Inl (CPError code why), s)
      | Inr poller \<Rightarrow>
          (case approval_get aid (ce_now Q) (cp_registry s) of
             (None, r) \<Rightarrow> (Inl (CPError 404 CPUnknownRequest), put_registry r s)
           | (Some a, r) \<Rightarrow>
               (let s = put_registry r s in
                if ap_caller a \<noteq> poller then (Inl (CPError 403 CPNotOriginator), s)
                else if ap_status a = StatusPending then (Inl (CPReply 202 (CPWaiting None StatusPending)), s)
                else if ap_status a = StatusDenied then
                  (Inl (CPError 403 CPApprovalDenied),
                   report_decided Q aid ((approval_entry a ''approval-denied'')\<lparr>en_approved_by := ap_decided_by a\<rparr>) s)
                else if ap_status a = StatusExpired then
                  (Inl (CPError 408 CPApprovalExpired), report_decided Q aid (approval_entry a ''approval-timeout'') s)
                else if ap_status a = StatusApproved then
                  (case begin_consume aid (ce_now Q) (cp_registry s) of
                     ((started, retry), r) \<Rightarrow>
                       (let s = put_registry r s in
                        if \<not> started then
                          (if retry then (Inl (CPReply 202 (CPWaiting None ''issuing'')), s)
                           else (Inl (CPError 410 CPAlreadyUsed), s))
                        else (Inr a, s)))
                else (Inl (CPReply 200 CPNothing), s))))"

definition zero_request :: wire_request where
  "zero_request = \<lparr>wr_host = [], wr_role = [], wr_purpose = [], wr_session_mode = [], wr_command = [], wr_ttl_seconds = 0,
     wr_public_key = [], wr_target_type = [], wr_k8s_verb = [], wr_k8s_resource = [], wr_k8s_group = [], wr_k8s_namespace = [],
     wr_k8s_name = [], wr_sudo = False, wr_sudo_user = [], wr_pty = False, wr_file_transfer = False, wr_dry_run = False,
     wr_preflight = False, wr_on_behalf_of = [], wr_approved = False, wr_end_user = [], wr_end_user_groups = None,
     wr_end_user_context = [], wr_bearer_token = [], wr_learn_ttl_seconds = 0, wr_learn_approver = [], wr_learn_approval_id = []\<rparr>"

definition learn_behavior_approval :: "control_env \<Rightarrow> approval \<Rightarrow> wire_request \<Rightarrow> control_server \<Rightarrow> control_server" where
  "learn_behavior_approval Q a req s =
     (if ap_rule a \<noteq> ''behavior'' \<or> \<not> behavior_enabled (cp_behavior s) then s
      else s\<lparr>cp_behavior := behavior_learn (guardrail_subject s (ap_caller a) (wr_end_user req)) (wr_host req) (wr_command req)
               (ce_now Q) (cp_behavior s)\<rparr>)"

text \<open>The request the signer gets after the approval: marked approved, with what the approver asked to learn.\<close>

definition approved_intent :: "remote_lib \<Rightarrow> approval \<Rightarrow> wire_request \<Rightarrow> intent option" where
  "approved_intent L a req =
     map_option (\<lambda>i. if 0 < ap_learn_ttl a
        then i\<lparr>in_learn_ttl_seconds := ap_learn_ttl a sdiv go_second, in_learn_approver := ap_decided_by a,
               in_learn_approval_id := ap_id a\<rparr>
        else i) (intent_from L req (ap_caller a) True)"

text \<open>
  What the signer's answer amounts to: the answer for the broker and the serial number of its record, or the
  complaint about what is missing.
\<close>

definition granted_answer :: "control_env \<Rightarrow> wire_request \<Rightarrow> issued_remote \<Rightarrow> string + (wire_answer \<times> 64 word)" where
  "granted_answer Q req iu =
     (if wr_dry_run req then
        (if ir_decision iu = None then Inl ''signer response missing decision'' else Inr (decision_answer iu, 0))
      else if wr_target_type req = TargetTypeK8s then
        (if ir_k8s_token iu = [] then Inl ''signer response missing token'' else Inr (token_answer iu, ir_serial iu))
      else case ir_certificate iu of
        None \<Rightarrow> Inl ''signer response missing certificate''
      | Some c \<Rightarrow> Inr (cert_answer Q c iu, ir_serial iu))"

definition granted_entry :: "approval \<Rightarrow> wire_request \<Rightarrow> 64 word \<Rightarrow> entry" where
  "granted_entry a req serial =
     (let e = (approval_entry a ''approval-granted'')\<lparr>en_serial := serial, en_approved_by := ap_decided_by a\<rparr>
      in if \<not> wr_dry_run req \<and> wr_target_type req = TargetTypeK8s then e\<lparr>en_target_type := TargetTypeK8s\<rparr> else e)"

text \<open>The second half, up to the deferred \<open>FinishConsume\<close>: the answer, and whether the approval is burned.\<close>

definition result_issue ::
  "control_env \<Rightarrow> string \<Rightarrow> approval \<Rightarrow> control_server \<Rightarrow> sign_payload cp_reply \<times> bool \<times> control_server" where
  "result_issue Q aid a s =
     (let req = (case approval_request aid (cp_registry s) of None \<Rightarrow> zero_request | Some q \<Rightarrow> q) in
      case approved_intent (ce_lib Q) a req of
        None \<Rightarrow> (CPError 400 CPInvalidPubkey, False, s)
      | Some i \<Rightarrow>
          (case remote_call Q s i of
             Inl e \<Rightarrow>
               (case relay_signer_rate_limit e of
                  Some reply \<Rightarrow> (reply, False, s)
                | None \<Rightarrow>
                    (if is_signer_unavailable e then
                       (CPError 502 CPSigningAfterApproval, False,
                        audit_e Q 0 ((approval_entry a ''error'')\<lparr>en_err := ce_error_text Q e\<rparr>) s)
                     else
                       (CPError 403 (CPRelay e), False,
                        audit_e Q 0 ((approval_entry a ''denied'')\<lparr>en_approved_by := ap_decided_by a, en_err := ce_error_text Q e\<rparr>) s)))
           | Inr iu \<Rightarrow>
               (case granted_answer Q req iu of
                  Inl missing \<Rightarrow>
                    (CPError 502 CPSigningAfterApproval, False,
                     audit_e Q 0 ((approval_entry a ''error'')\<lparr>en_err := missing,
                       en_target_type := (if \<not> wr_dry_run req \<and> wr_target_type req = TargetTypeK8s then TargetTypeK8s else ap_target_type a)\<rparr>) s)
                | Inr (answer, serial) \<Rightarrow>
                    (case audit_gate Q 0 (granted_entry a req serial) (learn_behavior_approval Q a req s) of
                       (ok, s) \<Rightarrow> if \<not> ok then (CPError 503 CPAuditUnavailable, False, s)
                                  else (CPReply 200 (CPAnswer answer), True, s)))))"

definition result_deliver :: "control_env \<Rightarrow> string \<Rightarrow> approval \<Rightarrow> control_server \<Rightarrow> sign_payload cp_reply \<times> control_server" where
  "result_deliver Q aid a s =
     (case result_issue Q aid a s of
        (reply, consume_ok, s) \<Rightarrow> (reply, put_registry (finish_consume (ce_row_ok Q) aid consume_ok (cp_registry s)) s))"

definition handle_result ::
  "control_env \<Rightarrow> peer_certificate option \<Rightarrow> string \<Rightarrow> control_server \<Rightarrow> sign_payload cp_reply \<times> control_server" where
  "handle_result Q peer aid s =
     (case result_claim Q peer aid s of (Inl reply, s) \<Rightarrow> (reply, s) | (Inr a, s) \<Rightarrow> result_deliver Q aid a s)"

section \<open>Lists and decisions\<close>

definition cp_handle_hosts ::
  "control_env \<Rightarrow> (string \<Rightarrow> (string, wire_host_info) go_map option) \<Rightarrow> peer_certificate option \<Rightarrow> control_server \<Rightarrow>
   (string, wire_host_info) go_map cp_reply" where
  "cp_handle_hosts Q decode peer s =
     (case sign_caller s peer of
        Inl (code, why) \<Rightarrow> CPError code why
      | Inr broker \<Rightarrow>
          (case fetch_hosts (ce_lib Q) (cp_remote s) (ce_net Q) decode broker of
             Inl e \<Rightarrow> CPError 502 (CPRelay e)
           | Inr hosts \<Rightarrow> CPReply 200 (map (\<lambda>(name, h). (name, copy_host h)) hosts)))"

definition cp_handle_clusters ::
  "control_env \<Rightarrow> (string \<Rightarrow> (string, 'c) go_map option) \<Rightarrow> peer_certificate option \<Rightarrow> control_server \<Rightarrow> (string, 'c) go_map cp_reply" where
  "cp_handle_clusters Q decode peer s =
     (case sign_caller s peer of
        Inl (code, why) \<Rightarrow> CPError code why
      | Inr broker \<Rightarrow>
          (case fetch_clusters (ce_lib Q) (cp_remote s) (ce_net Q) decode broker of
             Inl e \<Rightarrow> CPError 502 (CPRelay e) | Inr clusters \<Rightarrow> CPReply 200 clusters))"

definition handle_approvals_list ::
  "control_env \<Rightarrow> peer_certificate option \<Rightarrow> control_server \<Rightarrow> approval list cp_reply \<times> control_server" where
  "handle_approvals_list Q peer s =
     (case cp_approver s peer of
        None \<Rightarrow> (CPError 403 CPNotApprover, s)
      | Some _ \<Rightarrow> (case approval_list (ce_purge_ok Q) (ce_now Q) (cp_registry s) of (as, r) \<Rightarrow> (CPReply 200 as, put_registry r s)))"

definition decide_outcome :: "bool \<Rightarrow> go_duration \<Rightarrow> string" where
  "decide_outcome approve learn =
     (if approve then (if 0 < learn then ''approval-decision-allow-learn'' else ''approval-decision-allow'') else ''approval-denied'')"

definition json_content_type :: "string \<Rightarrow> bool" where
  "json_content_type ct \<longleftrightarrow> ct = ''application/json'' \<or> has_prefix ct ''application/json;''"

text \<open>What follows the guards: \<open>Decide\<close>, the record of the decision, and the answer.\<close>

definition decide_commit ::
  "control_env \<Rightarrow> string \<Rightarrow> string \<Rightarrow> bool \<Rightarrow> go_duration \<Rightarrow> control_server \<Rightarrow> approval cp_reply \<times> control_server" where
  "decide_commit Q cn aid approve learn s =
     (case approval_decide (ce_row_ok Q) aid approve cn learn (ce_now Q) (cp_registry s) of
        (Inl e, r) \<Rightarrow>
          (let s = put_registry r s in
           if e = LearnUnattributable then
             (CPError 400 (CPDecideFailed e),
              case map_of (rg_items r) aid of
                None \<Rightarrow> s
              | Some p \<Rightarrow> audit_e Q 0 ((approval_entry p ''approval-learn-refused'')\<lparr>en_approved_by := cn,
                  en_err := ''end_user stripped (broker not a trusted forwarder)''\<rparr>) s)
           else (CPError 409 (CPDecideFailed e), s))
      | (Inr a, r) \<Rightarrow>
          (let s = put_registry r s;
               e = (approval_entry a (decide_outcome approve learn))\<lparr>en_approved_by := cn\<rparr>
           in if approve then
                (case audit_gate Q 0 e s of
                   (ok, s) \<Rightarrow> if \<not> ok then (CPError 503 CPAuditUnavailable, s) else (CPReply 200 a, s))
              else (CPReply 200 a, audit_e Q 0 e s)))"

definition handle_approval_decide ::
  "control_env \<Rightarrow> peer_certificate option \<Rightarrow> string \<Rightarrow> string \<Rightarrow> decide_body option \<Rightarrow> control_server \<Rightarrow> approval cp_reply \<times> control_server" where
  "handle_approval_decide Q peer content_type aid body s =
     (case cp_approver s peer of
        None \<Rightarrow> (CPError 403 CPNotApprover, s)
      | Some cn \<Rightarrow>
          (if \<not> json_content_type content_type then (CPError 415 CPNeedJson, s)
           else case body of
             None \<Rightarrow> (CPError 400 CPInvalidRequest, s)
           | Some b \<Rightarrow>
               (if db_approve b \<and> db_learn b \<and> db_ttl_seconds b \<le> 0 then (CPError 400 CPLearnNeedsTTL, s)
                else
                  let learn = (if db_approve b \<and> db_learn b then duration_seconds (db_ttl_seconds b) else 0) in
                  case approval_get aid (ce_now Q) (cp_registry s) of
                    (pending, r) \<Rightarrow>
                      (let s = put_registry r s in
                       case pending of
                         None \<Rightarrow> decide_commit Q cn aid (db_approve b) learn s
                       | Some p \<Rightarrow>
                           (if ap_caller p = cn then
                              (CPError 403 CPSelfApproval,
                               audit_e Q 0 ((approval_entry p ''self-approval-rejected'')\<lparr>en_approved_by := cn\<rparr>) s)
                            else decide_commit Q cn aid (db_approve b) learn s)))))"

section \<open>Configuration\<close>

record control_config =
  cc_notifier :: string
  cc_teams_format :: string
  cc_webhook_url :: string
  cc_behavior :: behavior_config
  cc_timeout_seconds :: int
  cc_signer_url :: string
  cc_callers :: "string list"
  cc_sign_callers :: "string list"
  cc_trusted_forwarders :: "string list"

datatype config_error = UnknownNotifier string | UnknownTeamsFormat string | UnknownBehaviorMode string
  | BadWebhookURL | CleartextWebhook | SchemeNotAllowed string

text \<open>
  \<open>net/url\<close> and \<open>net\<close> give the scheme and the host name of a URL and tell a loopback address.
\<close>

definition is_loopback_host :: "(string \<Rightarrow> bool option) \<Rightarrow> string \<Rightarrow> bool" where
  "is_loopback_host parse_ip host \<longleftrightarrow> host = ''localhost'' \<or> parse_ip host = Some True"

definition validate_config :: "(string \<Rightarrow> (string \<times> string) option) \<Rightarrow> (string \<Rightarrow> bool option) \<Rightarrow> control_config \<Rightarrow> config_error option" where
  "validate_config parse_url parse_ip c =
     (if cc_notifier c \<notin> {[], ''log'', ''webhook'', ''teams''} then Some (UnknownNotifier (cc_notifier c))
      else if cc_teams_format c \<notin> {[], ''workflow'', ''adaptivecard'', ''messagecard''} then Some (UnknownTeamsFormat (cc_teams_format c))
      else if bc_mode (cc_behavior c) \<notin> {[], BehaviorOff, BehaviorObserve, BehaviorEnforce}
      then Some (UnknownBehaviorMode (bc_mode (cc_behavior c)))
      else if cc_notifier c \<in> {''webhook'', ''teams''} \<and> cc_webhook_url c \<noteq> [] then
        (case parse_url (cc_webhook_url c) of
           None \<Rightarrow> Some BadWebhookURL
         | Some (scheme, host) \<Rightarrow>
             (if scheme = ''https'' then None
              else if scheme = ''http'' then (if \<not> is_loopback_host parse_ip host then Some CleartextWebhook else None)
              else Some (SchemeNotAllowed scheme)))
      else None)"

text \<open>The server that \<open>main\<close> builds, with or without rows of a state database.\<close>

definition new_control_server ::
  "control_config \<Rightarrow> registry \<Rightarrow> audit_log \<Rightarrow> bool \<Rightarrow> redact_rule list option \<Rightarrow> control_server" where
  "new_control_server c r l closed red =
     \<lparr>cp_remote = new_remote (cc_signer_url c), cp_registry = r, cp_behavior = new_behavior_tracker (cc_behavior c),
      cp_audit = l, cp_fail_closed = closed, cp_redactor = red, cp_approve_cn = cn_set (cc_callers c),
      cp_sign_cn = cn_set (cc_sign_callers c), cp_forwarders = cn_set (cc_trusted_forwarders c), cp_notified = []\<rparr>"

end
