(* ===== verification/Control_Guarantees.thy ===== *)
theory Control_Guarantees
  imports Control_Plane
begin

text \<open>
  What the control plane guarantees over every history of requests. A history interleaves the handlers, with
  the two halves of \<open>handleResult\<close> as separate steps and a restart of the process among them. Its visible
  events (a request is parked, a human allows it, its credential is released) refine a specification that
  knows nothing of registries, databases, clocks or claims.
\<close>

section \<open>The specification\<close>

datatype agree_event =
    Parked string string wire_request
  | Allowed string string
  | Released string string wire_request

text \<open>A parked request comes back as itself or, after a restart, as its stored copy without the bearer token.\<close>

definition carried :: "request_codec \<Rightarrow> wire_request \<Rightarrow> wire_request \<Rightarrow> bool" where
  "carried C q q' \<longleftrightarrow> q' = q \<or> rq_unmarshal C (rq_marshal C (q\<lparr>wr_bearer_token := []\<rparr>)) = Some q'"

text \<open>
  Who may do what: only brokers park, and an end user is named only by a trusted forwarder; only an approver
  other than the broker allows what was parked; only what was so allowed is released, to the broker that parked it.
\<close>

inductive agreement :: "request_codec \<Rightarrow> string set \<Rightarrow> (string \<Rightarrow> bool) \<Rightarrow> string set \<Rightarrow> agree_event list \<Rightarrow> bool"
  for C approvers may_sign forwarders where
  nothing: "agreement C approvers may_sign forwarders []"
| park: "agreement C approvers may_sign forwarders evs \<Longrightarrow> may_sign broker \<Longrightarrow>
    (broker \<notin> forwarders \<longrightarrow> wr_end_user q = [] \<and> wr_end_user_context q = []) \<Longrightarrow>
    agreement C approvers may_sign forwarders (evs @ [Parked aid broker q])"
| allow: "agreement C approvers may_sign forwarders evs \<Longrightarrow> Parked aid broker q \<in> set evs \<Longrightarrow> who \<in> approvers \<Longrightarrow> who \<noteq> broker \<Longrightarrow>
    agreement C approvers may_sign forwarders (evs @ [Allowed aid who])"
| release: "agreement C approvers may_sign forwarders evs \<Longrightarrow> Parked aid broker q \<in> set evs \<Longrightarrow> Allowed aid who \<in> set evs \<Longrightarrow>
    who \<noteq> broker \<Longrightarrow> carried C q q' \<Longrightarrow> agreement C approvers may_sign forwarders (evs @ [Released aid broker q'])"

section \<open>Histories of the service\<close>

datatype control_op =
    SignReq control_env "peer_certificate option" "wire_request option"
  | ClaimReq control_env "peer_certificate option" string
  | DeliverReq control_env string string approval
  | DecideReq control_env "peer_certificate option" string string "decide_body option"
  | ListReq control_env "peer_certificate option"
  | Reboot go_duration go_time

text \<open>The server, and the collections for which the signer is being asked: whose connection waits for the answer, and the claim it holds.\<close>

type_synonym control_state = "control_server \<times> (string \<times> string \<times> approval) list"

definition poller_name :: "peer_certificate option \<Rightarrow> string" where
  "poller_name peer = (case caller_cn peer of None \<Rightarrow> [] | Some cn \<Rightarrow> cn)"

definition requested :: "string \<Rightarrow> registry \<Rightarrow> wire_request" where
  "requested aid r = (case approval_request aid r of None \<Rightarrow> zero_request | Some q \<Rightarrow> q)"

fun sign_events :: "control_server \<Rightarrow> peer_certificate option \<Rightarrow> wire_request option \<Rightarrow> sign_payload cp_reply \<Rightarrow> agree_event list" where
  "sign_events s peer (Some req) (CPReply n (CPWaiting (Some aid) st)) =
     (case caller_cn peer of None \<Rightarrow> [] | Some cn \<Rightarrow> [Parked aid cn (parked_request s cn req)])"
| "sign_events s peer body reply = []"

fun decide_events :: "control_server \<Rightarrow> peer_certificate option \<Rightarrow> string \<Rightarrow> decide_body option \<Rightarrow> approval cp_reply \<Rightarrow> agree_event list" where
  "decide_events s peer aid (Some b) reply =
     (case (cp_approver s peer, reply) of
        (Some cn, CPReply n a) \<Rightarrow> (if db_approve b then [Allowed aid cn] else [])
      | (Some cn, CPError n CPAuditUnavailable) \<Rightarrow> (if db_approve b then [Allowed aid cn] else [])
      | _ \<Rightarrow> [])"
| "decide_events s peer aid None reply = []"

fun deliver_events :: "control_server \<Rightarrow> string \<Rightarrow> string \<Rightarrow> sign_payload cp_reply \<Rightarrow> agree_event list" where
  "deliver_events s poller aid (CPReply n (CPAnswer w)) = [Released aid poller (requested aid (cp_registry s))]"
| "deliver_events s poller aid reply = []"

fun control_exec :: "request_codec \<Rightarrow> control_op \<Rightarrow> control_state \<Rightarrow> agree_event list \<times> control_state" where
  "control_exec C (SignReq Q peer body) (s, fl) =
     (case cp_handle_sign Q peer body s of (reply, s') \<Rightarrow> (sign_events s peer body reply, s', fl))"
| "control_exec C (ClaimReq Q peer aid) (s, fl) =
     (case result_claim Q peer aid s of (Inl reply, s') \<Rightarrow> ([], s', fl) | (Inr a, s') \<Rightarrow> ([], s', (poller_name peer, aid, a) # fl))"
| "control_exec C (DeliverReq Q poller aid a) (s, fl) =
     (if (poller, aid, a) \<in> set fl then
        (case result_deliver Q aid a s of (reply, s') \<Rightarrow> (deliver_events s poller aid reply, s', remove1 (poller, aid, a) fl))
      else ([], s, fl))"
| "control_exec C (DecideReq Q peer ct aid body) (s, fl) =
     (case handle_approval_decide Q peer ct aid body s of (reply, s') \<Rightarrow> (decide_events s peer aid body reply, s', fl))"
| "control_exec C (ListReq Q peer) (s, fl) = ([], snd (handle_approvals_list Q peer s), fl)"
| "control_exec C (Reboot ttl now) (s, fl) = ([], s\<lparr>cp_registry := reg_restart C ttl now (cp_registry s)\<rparr>, [])"

text \<open>
  One codec for the stored requests; identifiers (128 random bits) are not drawn twice; the empty line is no
  public key, as \<open>ssh.ParseAuthorizedKey\<close> documents.
\<close>

fun op_ok :: "request_codec \<Rightarrow> agree_event list \<Rightarrow> control_op \<Rightarrow> bool" where
  "op_ok C evs (SignReq Q peer body) \<longleftrightarrow> ce_codec Q = C
     \<and> (\<forall>ev \<in> set evs. case ev of Parked aid broker q \<Rightarrow> ce_new_id Q \<noteq> Some aid | _ \<Rightarrow> True)"
| "op_ok C evs (DeliverReq Q poller aid a) \<longleftrightarrow> rm_parse_key (ce_lib Q) [] = None"
| "op_ok C evs x \<longleftrightarrow> True"

inductive control_run :: "request_codec \<Rightarrow> control_server \<Rightarrow> agree_event list \<Rightarrow> control_state \<Rightarrow> bool" for C s0 where
  start: "control_run C s0 [] (s0, [])"
| step: "control_run C s0 evs st \<Longrightarrow> op_ok C evs x \<Longrightarrow> control_exec C x st = (new, st') \<Longrightarrow> control_run C s0 (evs @ new) st'"

section \<open>What the handlers touch\<close>

definition same_config :: "control_server \<Rightarrow> control_server \<Rightarrow> bool" where
  "same_config s s' \<longleftrightarrow> cp_approve_cn s' = cp_approve_cn s \<and> cp_sign_cn s' = cp_sign_cn s \<and> cp_forwarders s' = cp_forwarders s"

lemma audit_e_simps [simp]:
  "cp_registry (audit_e Q n e s) = cp_registry s" "same_config s0 (audit_e Q n e s) = same_config s0 s"
  "cp_behavior (audit_e Q n e s) = cp_behavior s" "cp_fail_closed (audit_e Q n e s) = cp_fail_closed s"
  by (simp_all add: audit_e_def same_config_def)

lemma put_registry_simps [simp]:
  "cp_registry (put_registry r s) = r" "same_config s0 (put_registry r s) = same_config s0 s"
  "cp_audit (put_registry r s) = cp_audit s" "cp_fail_closed (put_registry r s) = cp_fail_closed s"
  by (simp_all add: put_registry_def same_config_def)

lemma same_config_refl [simp]: "same_config s s"
  by (simp add: same_config_def)

lemma same_config_behavior [simp]: "same_config s0 (s\<lparr>cp_behavior := t\<rparr>) = same_config s0 s"
  by (simp add: same_config_def)

lemma audit_gate_result:
  assumes "audit_gate Q n e s = (ok, s')"
  shows "cp_registry s' = cp_registry s" and "same_config s0 s' = same_config s0 s"
  using assms by (auto simp: audit_gate_def same_config_def split: prod.splits)

lemma learn_keeps [simp]:
  "cp_registry (learn_behavior_approval Q a req s) = cp_registry s"
  "same_config s0 (learn_behavior_approval Q a req s) = same_config s0 s"
  "cp_audit (learn_behavior_approval Q a req s) = cp_audit s"
  "cp_fail_closed (learn_behavior_approval Q a req s) = cp_fail_closed s"
  by (simp_all add: learn_behavior_approval_def same_config_def)

lemma report_decided_registry:
  "cp_registry (report_decided Q aid e s) = snd (report_result_once aid (ce_now Q) (cp_registry s))"
  "same_config s0 (report_decided Q aid e s) = same_config s0 s"
  by (simp_all add: report_decided_def split: prod.splits)

lemma sign_caller_Inr: "sign_caller s peer = Inr cn \<longleftrightarrow> caller_cn peer = Some cn \<and> is_sign_caller s cn"
  by (auto simp: sign_caller_def split: option.splits)

lemma approver_Some: "cp_approver s peer = Some cn \<longleftrightarrow> caller_cn peer = Some cn \<and> cn \<in> set (cp_approve_cn s)"
  by (auto simp: cp_approver_def split: option.splits)

text \<open>
  \<open>handleSign\<close> leaves the registry alone, or makes one call of \<open>CreateWith\<close> for the authenticated broker, and
  answers with an identifier exactly when that call succeeds.
\<close>

definition waits :: "sign_payload cp_reply \<Rightarrow> string option" where
  "waits reply = (case reply of CPReply n (CPWaiting aid st) \<Rightarrow> aid | _ \<Rightarrow> None)"

definition parks :: "control_env \<Rightarrow> string \<Rightarrow> wire_request \<Rightarrow> control_server \<Rightarrow> sign_payload cp_reply \<Rightarrow> control_server \<Rightarrow> bool" where
  "parks Q broker req s reply s' \<longleftrightarrow> (\<exists>rule stripped res.
     create_with (ce_codec Q) (ce_new_id Q) (ce_purge_ok Q) (ce_insert_ok Q) (parked_request s broker req) broker rule stripped
       (ce_now Q) (cp_registry s) = (res, cp_registry s')
     \<and> waits reply = (case res of Inl e \<Rightarrow> None | Inr a \<Rightarrow> ce_new_id Q))"

definition sign_effect :: "control_env \<Rightarrow> string \<Rightarrow> wire_request \<Rightarrow> control_server \<Rightarrow> sign_payload cp_reply \<Rightarrow> control_server \<Rightarrow> bool" where
  "sign_effect Q broker req s reply s' \<longleftrightarrow> same_config s s'
     \<and> (cp_registry s' = cp_registry s \<and> waits reply = None \<or> parks Q broker req s reply s')"

lemma create_id: "create_with C i p ins req caller rule stripped now r = (Inr a, r') \<Longrightarrow> i = Some (ap_id a)"
  by (auto simp: create_with_def Let_def new_approval_def split: option.splits if_splits)

lemma waits_simps [simp]:
  "waits (CPError n e) = None" "waits (CPReply n (CPAnswer w)) = None" "waits (CPReply n (CPWaiting i st)) = i"
  by (simp_all add: waits_def)

lemma require_approval_effect:
  "sign_effect Q broker req s (fst (require_approval Q n broker req rule anomaly s)) (snd (require_approval Q n broker req rule anomaly s))"
proof -
  let ?stripped = "broker \<notin> set (cp_forwarders s) \<and> wr_end_user req \<noteq> []"
  obtain res r where c: "create_with (ce_codec Q) (ce_new_id Q) (ce_purge_ok Q) (ce_insert_ok Q) (parked_request s broker req) broker
      (Some rule) ?stripped (ce_now Q) (cp_registry s) = (res, r)" by fastforce
  have "parks Q broker req s (fst (require_approval Q n broker req rule anomaly s)) (snd (require_approval Q n broker req rule anomaly s))"
    unfolding parks_def using c create_id
    by (intro exI [of _ "Some rule"] exI [of _ ?stripped] exI [of _ res])
      (auto simp: require_approval_def Let_def split: sum.splits)
  moreover have "same_config s (snd (require_approval Q n broker req rule anomaly s))"
    using c by (auto simp: require_approval_def Let_def same_config_def audit_e_def split: sum.splits)
  ultimately show ?thesis by (simp add: sign_effect_def)
qed

lemma sign_effect_quiet: "same_config s s' \<Longrightarrow> cp_registry s' = cp_registry s \<Longrightarrow> waits reply = None \<Longrightarrow> sign_effect Q broker req s reply s'"
  by (simp add: sign_effect_def)

lemma relay_waits: "relay_signer_rate_limit e = Some reply \<Longrightarrow> waits reply = None"
  by (auto simp: relay_signer_rate_limit_def split: remote_error.splits)

lemma sign_dry_run_effect:
  "sign_effect Q broker req s (fst (sign_dry_run Q n broker req s)) (snd (sign_dry_run Q n broker req s))"
  by (auto simp: sign_dry_run_def dry_run_sign_error_def Let_def intro!: sign_effect_quiet split: option.splits sum.splits
      dest: relay_waits)

lemma forward_effect:
  "sign_effect Q broker req s (fst (forward_sign_result Q n broker req iu s)) (snd (forward_sign_result Q n broker req iu s))"
  by (auto simp: forward_sign_result_def Let_def intro!: sign_effect_quiet require_approval_effect split: option.splits)

lemma sign_live_effect:
  "sign_effect Q broker req s (fst (sign_live Q n broker req s)) (snd (sign_live Q n broker req s))"
  by (auto simp: sign_live_def Let_def intro!: sign_effect_quiet forward_effect split: option.splits sum.splits
      dest: relay_waits)

lemma sign_effect_behavior: "sign_effect Q broker req (s\<lparr>cp_behavior := t\<rparr>) reply s' = sign_effect Q broker req s reply s'"
  by (simp add: sign_effect_def parks_def same_config_def parked_request_def)

lemma sign_effect_audit: "sign_effect Q broker req (audit_e Q n e s) reply s' = sign_effect Q broker req s reply s'"
  by (simp add: sign_effect_def parks_def same_config_def parked_request_def audit_e_def)

text \<open>The guardrails answer themselves, or let the request pass with only the tracker and the log changed.\<close>

lemma guardrails_effect:
  assumes "check_behavior_guardrails Q broker req s = (answer, s')"
  shows "case answer of Some reply \<Rightarrow> sign_effect Q broker req s reply s'
    | None \<Rightarrow> (\<forall>reply s2. sign_effect Q broker req s' reply s2 \<longrightarrow> sign_effect Q broker req s reply s2)"
proof -
  obtain anomalies exceeded t where b: "behavior_check (guardrail_subject s broker (wr_end_user req)) (wr_host req) (wr_command req)
      (ce_now Q) (cp_behavior s) = ((anomalies, exceeded), t)" by (metis prod.exhaust)
  let ?s = "s\<lparr>cp_behavior := t\<rparr>"
  have quiet: "same_config s ?s" by simp
  note defs = check_behavior_guardrails_def b Let_def prod.case
  show ?thesis
  proof (cases "behavior_enforcing t \<and> \<not> exceeded \<and> anomalies \<noteq> []")
    case False
    then show ?thesis using assms unfolding defs
      by (auto simp: sign_effect_behavior sign_effect_audit split: if_splits) (simp add: sign_effect_quiet)
  next
    case True
    have req: "sign_effect Q broker req s reply s2" if "require_approval Q 0 broker req rule an ?s = (reply, s2)" for rule an reply s2
      using require_approval_effect [of Q broker req ?s 0 rule an] that by (simp add: sign_effect_behavior)
    show ?thesis using assms True unfolding defs
      by (auto dest: req split: option.splits sum.splits if_splits prod.splits) (simp_all add: sign_effect_quiet relay_waits)
  qed
qed

lemma sign_registry:
  assumes "cp_handle_sign Q peer body s = (reply, s')"
  shows "same_config s s' \<and> cp_registry s' = cp_registry s \<and> waits reply = None
    \<or> (\<exists>broker req. sign_caller s peer = Inr broker \<and> body = Some req \<and> sign_effect Q broker req s reply s')"
proof (cases "sign_caller s peer")
  case (Inl e)
  then show ?thesis using assms by (cases e) (auto simp: cp_handle_sign_def)
next
  case (Inr broker)
  show ?thesis
  proof (cases body)
    case None
    then show ?thesis using assms Inr by (auto simp: cp_handle_sign_def)
  next
    case (Some req)
    obtain answer s1 where g: "(if behavior_enabled (cp_behavior s) then check_behavior_guardrails Q broker req s else (None, s)) = (answer, s1)"
      by fastforce
    then have pass: "case answer of Some reply \<Rightarrow> sign_effect Q broker req s reply s1
      | None \<Rightarrow> (\<forall>reply s2. sign_effect Q broker req s1 reply s2 \<longrightarrow> sign_effect Q broker req s reply s2)"
      using guardrails_effect [of Q broker req s answer s1] by (auto split: if_splits)
    have dry: "sign_effect Q broker req s2 r s3" if "sign_dry_run Q n broker req s2 = (r, s3)" for n r s2 s3
      using sign_dry_run_effect [of Q broker req s2 n] that by simp
    have live: "sign_effect Q broker req s2 r s3" if "sign_live Q n broker req s2 = (r, s3)" for n r s2 s3
      using sign_live_effect [of Q broker req s2 n] that by simp
    have "cp_handle_sign Q peer body s = (if wr_dry_run req \<and> \<not> wr_preflight req then sign_dry_run Q 0 broker req s
      else case answer of Some reply \<Rightarrow> (reply, s1)
      | None \<Rightarrow> if wr_dry_run req then sign_dry_run Q 1 broker req s1 else sign_live Q 1 broker req s1)"
      unfolding cp_handle_sign_def Inr Some sum.case option.case g prod.case by (cases answer) simp_all
    then have "sign_effect Q broker req s reply s'" using assms pass
      by (auto dest: dry [OF sym] live [OF sym] split: if_splits option.splits)
    then show ?thesis using Inr Some by blast
  qed
qed

lemma claim_result:
  assumes "result_claim Q peer aid s = (res, s')"
  shows "same_config s s'"
    and "res = Inr a \<Longrightarrow> \<exists>r1 retry. approval_get aid (ce_now Q) (cp_registry s) = (Some a, r1) \<and> ap_status a = StatusApproved
      \<and> caller_cn peer = Some (ap_caller a) \<and> begin_consume aid (ce_now Q) r1 = ((True, retry), cp_registry s')"
    and "cp_registry s' \<in> {cp_registry s, snd (approval_get aid (ce_now Q) (cp_registry s)),
        snd (report_result_once aid (ce_now Q) (snd (approval_get aid (ce_now Q) (cp_registry s)))),
        snd (begin_consume aid (ce_now Q) (snd (approval_get aid (ce_now Q) (cp_registry s))))}"
  using assms unfolding result_claim_def
  by (auto simp: Let_def report_decided_registry sign_caller_Inr split: sum.splits prod.splits option.splits if_splits)

lemma issue_keeps:
  assumes "result_issue Q aid a s = (reply, ok, s')"
  shows "cp_registry s' = cp_registry s" and "same_config s s'"
  using assms unfolding result_issue_def
  by (auto simp: Let_def audit_gate_result same_config_def audit_e_def learn_behavior_approval_def
      split: option.splits sum.splits prod.splits if_splits dest: audit_gate_result(1) audit_gate_result(2) [of _ _ _ _ _ _ s])

lemma deliver_result:
  assumes "result_deliver Q aid a s = (reply, s')"
  obtains ok s1 where "result_issue Q aid a s = (reply, ok, s1)" and "same_config s s'"
    and "cp_registry s' = finish_consume (ce_row_ok Q) aid ok (cp_registry s)"
    and "s' = put_registry (finish_consume (ce_row_ok Q) aid ok (cp_registry s1)) s1"
proof -
  obtain ok s1 where i: "result_issue Q aid a s = (reply, ok, s1)"
    and s': "s' = put_registry (finish_consume (ce_row_ok Q) aid ok (cp_registry s1)) s1"
    using assms by (auto simp: result_deliver_def split: prod.splits)
  show ?thesis using that [OF i] issue_keeps [OF i] s' by simp
qed

text \<open>A credential leaves \<open>handleResult\<close> only for a request that parses, and with the approval burned.\<close>

lemma issue_answer:
  assumes "result_issue Q aid a s = (CPReply n (CPAnswer w), ok, s')"
  obtains i iu serial where "approved_intent (ce_lib Q) a (requested aid (cp_registry s)) = Some i" and "n = 200" and "ok"
    and "remote_call Q s i = Inr iu" and "granted_answer Q (requested aid (cp_registry s)) iu = Inr (w, serial)"
    and "audit_gate Q 0 (granted_entry a (requested aid (cp_registry s)) serial)
          (learn_behavior_approval Q a (requested aid (cp_registry s)) s) = (True, s')"
  using assms unfolding result_issue_def requested_def
  by (auto simp: Let_def relay_signer_rate_limit_def split: option.splits sum.splits prod.splits if_splits remote_error.splits)

text \<open>
  A decision: refused before \<open>Decide\<close>, or one call of \<open>Decide\<close> by an approver who is not the originator; it counts
  as allowed when \<open>Decide\<close> accepts it, whether or not its record could be written.
\<close>

definition decide_effect ::
  "control_env \<Rightarrow> peer_certificate option \<Rightarrow> string \<Rightarrow> decide_body option \<Rightarrow> control_server \<Rightarrow> approval cp_reply \<Rightarrow> control_server \<Rightarrow> bool" where
  "decide_effect Q peer aid body s reply s' \<longleftrightarrow>
     (cp_registry s' \<in> {cp_registry s, snd (approval_get aid (ce_now Q) (cp_registry s))} \<and> decide_events s peer aid body reply = [])
     \<or> (\<exists>cn b learn res. cp_approver s peer = Some cn \<and> body = Some b
         \<and> (\<forall>p r. approval_get aid (ce_now Q) (cp_registry s) = (Some p, r) \<longrightarrow> ap_caller p \<noteq> cn)
         \<and> approval_decide (ce_row_ok Q) aid (db_approve b) cn learn (ce_now Q) (snd (approval_get aid (ce_now Q) (cp_registry s)))
             = (res, cp_registry s')
         \<and> decide_events s peer aid body reply = (case res of Inl e \<Rightarrow> [] | Inr a \<Rightarrow> (if db_approve b then [Allowed aid cn] else [])))"

lemma decide_result:
  assumes "handle_approval_decide Q peer ct aid body s = (reply, s')"
  shows "same_config s s'"
    and "decide_effect Q peer aid body s reply s'"
proof -
  have commit: "same_config s0 s2 = same_config s0 s1 \<and> (\<exists>res. approval_decide (ce_row_ok Q) aid approve cn learn (ce_now Q) (cp_registry s1)
      = (res, cp_registry s2) \<and> (case res of Inl e \<Rightarrow> \<exists>code. rep = CPError code (CPDecideFailed e)
        | Inr a \<Rightarrow> rep = CPReply 200 a \<or> approve \<and> rep = CPError 503 CPAuditUnavailable))"
    if "decide_commit Q cn aid approve learn s1 = (rep, s2)" for s0 s1 s2 approve cn learn rep
    using that unfolding decide_commit_def
    by (auto simp: Let_def split: prod.splits sum.splits if_splits option.splits dest: audit_gate_result(1) audit_gate_result(2) [of _ _ _ _ _ _ s0])
  show "same_config s s'" using assms commit unfolding handle_approval_decide_def
    by (auto simp: Let_def split: option.splits prod.splits if_splits)
  show "decide_effect Q peer aid body s reply s'"
  proof (cases "cp_approver s peer")
    case (Some cn)
    show ?thesis
    proof (cases "\<exists>b learn s1. body = Some b \<and> s1 = put_registry (snd (approval_get aid (ce_now Q) (cp_registry s))) s
        \<and> (\<forall>p r. approval_get aid (ce_now Q) (cp_registry s) = (Some p, r) \<longrightarrow> ap_caller p \<noteq> cn)
        \<and> decide_commit Q cn aid (db_approve b) learn s1 = (reply, s')")
      case True
      then obtain b learn s1 where b: "body = Some b" "s1 = put_registry (snd (approval_get aid (ce_now Q) (cp_registry s))) s"
        "\<forall>p r. approval_get aid (ce_now Q) (cp_registry s) = (Some p, r) \<longrightarrow> ap_caller p \<noteq> cn"
        "decide_commit Q cn aid (db_approve b) learn s1 = (reply, s')" by blast
      obtain res where res: "approval_decide (ce_row_ok Q) aid (db_approve b) cn learn (ce_now Q) (cp_registry s1) = (res, cp_registry s')"
        "case res of Inl e \<Rightarrow> \<exists>code. reply = CPError code (CPDecideFailed e)
          | Inr a \<Rightarrow> reply = CPReply 200 a \<or> db_approve b \<and> reply = CPError 503 CPAuditUnavailable"
        using commit [OF b(4)] by blast
      have "decide_events s peer aid body reply = (case res of Inl e \<Rightarrow> [] | Inr a \<Rightarrow> (if db_approve b then [Allowed aid cn] else []))"
        using res(2) Some b(1) by (auto split: sum.splits)
      then show ?thesis unfolding decide_effect_def using Some b(1,3) res(1) [unfolded b(2) put_registry_simps] by blast
    next
      case False
      then show ?thesis using assms Some unfolding handle_approval_decide_def decide_effect_def
        by (auto simp: Let_def split: option.splits prod.splits if_splits)
    qed
  qed (use assms in \<open>cases body; auto simp: handle_approval_decide_def decide_effect_def\<close>)
qed

section \<open>The invariant\<close>

definition item_agreed :: "request_codec \<Rightarrow> agree_event set \<Rightarrow> string \<Rightarrow> approval \<Rightarrow> bool" where
  "item_agreed C H aid a \<longleftrightarrow> (\<exists>q. Parked aid (ap_caller a) q \<in> H \<and> carried C q (ap_req a))
     \<and> (ap_status a = StatusApproved \<longrightarrow> Allowed aid (ap_decided_by a) \<in> H \<and> ap_decided_by a \<noteq> ap_caller a)"

definition row_agreed :: "request_codec \<Rightarrow> agree_event set \<Rightarrow> approval_row \<Rightarrow> bool" where
  "row_agreed C H row \<longleftrightarrow>
     (\<exists>q. Parked (ar_id row) (ar_caller row) q \<in> H \<and> ar_request_json row = rq_marshal C (q\<lparr>wr_bearer_token := []\<rparr>))
     \<and> (ar_status row = StatusApproved \<longrightarrow> Allowed (ar_id row) (ar_decided_by row) \<in> H \<and> ar_decided_by row \<noteq> ar_caller row)"

interpretation agreed: registry_law C "item_agreed C H" "row_agreed C H" for C H
proof
  show "row_agreed C H (decide_row a row)"
    if "row_agreed C H row" "item_agreed C H (ar_id row) a" "ap_id a = ar_id row" "same_origin a row" for a row
    using that by (auto simp: row_agreed_def item_agreed_def decide_row_def same_origin_def)
  show "item_agreed C H (ar_id row) (row_to_approval req row)"
    if "row_agreed C H row" "rq_unmarshal C (ar_request_json row) = Some req" for row req
    using that by (auto simp: row_agreed_def item_agreed_def row_to_approval_def carried_def)
qed (auto simp: item_agreed_def row_agreed_def expire_approval_def)

lemma agreed_mono:
  assumes "registry_holds (item_agreed C H) (row_agreed C H) r" and "H \<subseteq> H'"
  shows "registry_holds (item_agreed C H') (row_agreed C H') r"
  using assms(2) by (intro registry_holds_mono [OF assms(1)]) (auto simp: item_agreed_def row_agreed_def)

text \<open>Each identifier is parked once.\<close>

definition parked_once :: "agree_event set \<Rightarrow> bool" where
  "parked_once H \<longleftrightarrow> (\<forall>aid b b' q q'. Parked aid b q \<in> H \<longrightarrow> Parked aid b' q' \<in> H \<longrightarrow> b' = b)"

definition claim_agreed :: "request_codec \<Rightarrow> agree_event set \<Rightarrow> string \<times> string \<times> approval \<Rightarrow> bool" where
  "claim_agreed C H = (\<lambda>(poller, aid, a). item_agreed C H aid a \<and> ap_status a = StatusApproved \<and> poller = ap_caller a)"

definition control_inv :: "request_codec \<Rightarrow> control_server \<Rightarrow> agree_event list \<Rightarrow> control_state \<Rightarrow> bool" where
  "control_inv C s0 evs st \<longleftrightarrow> same_config s0 (fst st)
     \<and> registry_holds (item_agreed C (set evs)) (row_agreed C (set evs)) (cp_registry (fst st))
     \<and> list_all (claim_agreed C (set evs)) (snd st) \<and> parked_once (set evs)
     \<and> agreement C (set (cp_approve_cn s0)) (is_sign_caller s0) (set (cp_forwarders s0)) evs"

lemma claims_mono: "list_all (claim_agreed C H) fl \<Longrightarrow> H \<subseteq> H' \<Longrightarrow> list_all (claim_agreed C H') fl"
  by (fastforce simp: list_all_iff claim_agreed_def item_agreed_def)

lemma control_inv_registry:
  assumes "control_inv C s0 evs (s, fl)" and "same_config s s'"
    and "registry_holds (item_agreed C (set evs)) (row_agreed C (set evs)) (cp_registry s')"
    and "list_all (claim_agreed C (set evs)) fl'"
  shows "control_inv C s0 evs (s', fl')"
  using assms by (simp add: control_inv_def same_config_def)

lemma create_failed:
  "create_with C i p ins req caller rule stripped now r = (Inl e, r') \<Longrightarrow> r' = r \<or> r' = purge_approvals p now r"
  by (auto simp: create_with_def Let_def split: option.splits if_splits)

lemma park_inv:
  assumes inv: "control_inv C s0 evs (s, fl)" and ok: "op_ok C evs (SignReq Q peer body)" and cn: "sign_caller s peer = Inr broker"
    and p: "parks Q broker req s reply s'" and cfg: "same_config s s'" and body: "body = Some req"
  shows "control_inv C s0 (evs @ sign_events s peer body reply) (s', fl)"
proof -
  from p obtain rule stripped res where c: "create_with C (ce_new_id Q) (ce_purge_ok Q) (ce_insert_ok Q) (parked_request s broker req)
      broker rule stripped (ce_now Q) (cp_registry s) = (res, cp_registry s')"
    and w: "waits reply = (case res of Inl e \<Rightarrow> None | Inr a \<Rightarrow> ce_new_id Q)"
    using ok by (auto simp: parks_def)
  have reg: "registry_holds (item_agreed C (set evs)) (row_agreed C (set evs)) (cp_registry s)" using inv by (simp add: control_inv_def)
  show ?thesis
  proof (cases res)
    case (Inl e)
    then have "sign_events s peer body reply = []" using w by (auto simp: waits_def body split: cp_reply.splits sign_payload.splits)
    moreover have "registry_holds (item_agreed C (set evs)) (row_agreed C (set evs)) (cp_registry s')"
      using create_failed [OF c [unfolded Inl]] reg agreed.purge_holds by auto
    ultimately show ?thesis using control_inv_registry [OF inv cfg, of fl] inv by (simp add: control_inv_def)
  next
    case (Inr a)
    let ?ev = "Parked (ap_id a) broker (parked_request s broker req)"
    have i: "ce_new_id Q = Some (ap_id a)" using create_id [OF c [unfolded Inr]] .
    have ev: "sign_events s peer body reply = [?ev]" using w Inr i cn body
      by (auto simp: waits_def sign_caller_Inr split: cp_reply.splits sign_payload.splits)
    have new: "Parked (ap_id a) b q \<notin> set evs" for b q using ok i by fastforce
    have "registry_holds (item_agreed C (set (evs @ [?ev]))) (row_agreed C (set (evs @ [?ev]))) (cp_registry s')"
      using agreed.create_holds [OF agreed_mono [OF reg], of "set (evs @ [?ev])" "ce_new_id Q" "parked_request s broker req" broker rule stripped "ce_now Q"
          "ce_purge_ok Q" "ce_insert_ok Q"] c i
      by (auto simp: item_agreed_def row_agreed_def new_approval_def approval_to_row_def carried_def)
    moreover have "parked_once (set evs)" using inv by (simp add: control_inv_def)
    then have "parked_once (set (evs @ [?ev]))" using new by (auto simp: parked_once_def)
    moreover have "agreement C (set (cp_approve_cn s0)) (is_sign_caller s0) (set (cp_forwarders s0)) (evs @ [?ev])"
      using inv cn by (intro agreement.park)
        (auto simp: control_inv_def same_config_def sign_caller_Inr is_sign_caller_def parked_request_def)
    ultimately show ?thesis using inv cfg ev claims_mono [of C "set evs" fl "set (evs @ [?ev])"]
      by (auto simp: control_inv_def same_config_def)
  qed
qed

lemma sign_inv:
  assumes "control_inv C s0 evs (s, fl)" and "op_ok C evs (SignReq Q peer body)" and "cp_handle_sign Q peer body s = (reply, s')"
  shows "control_inv C s0 (evs @ sign_events s peer body reply) (s', fl)"
proof -
  have quiet: "control_inv C s0 (evs @ sign_events s peer body reply) (s', fl)"
    if "same_config s s'" "cp_registry s' = cp_registry s" "waits reply = None"
  proof -
    have "sign_events s peer body reply = []"
      using that(3) by (cases "(s, peer, body, reply)" rule: sign_events.cases) (auto simp: waits_def)
    then show ?thesis using control_inv_registry [OF assms(1) that(1), of fl] assms(1) that(2) by (simp add: control_inv_def)
  qed
  from sign_registry [OF assms(3)] show ?thesis
    using quiet park_inv [OF assms(1,2)] by (auto simp: sign_effect_def)
qed

lemma claim_inv:
  assumes "control_inv C s0 evs (s, fl)" and "result_claim Q peer aid s = (res, s')"
  shows "control_inv C s0 evs (s', case res of Inl reply \<Rightarrow> fl | Inr a \<Rightarrow> (poller_name peer, aid, a) # fl)"
proof (rule control_inv_registry [OF assms(1) claim_result(1) [OF assms(2)]])
  have reg: "registry_holds (item_agreed C (set evs)) (row_agreed C (set evs)) (cp_registry s)"
    and fl: "list_all (claim_agreed C (set evs)) fl" using assms(1) by (auto simp: control_inv_def)
  note get = agreed.get_holds [OF reg, of aid "ce_now Q"]
  show "registry_holds (item_agreed C (set evs)) (row_agreed C (set evs)) (cp_registry s')"
    using claim_result(3) [OF assms(2)] reg get agreed.report_holds [OF get] agreed.begin_holds [OF get] by auto
  have "claim_agreed C (set evs) (poller_name peer, aid, a)" if res: "res = Inr a" for a
  proof -
    obtain r1 where "approval_get aid (ce_now Q) (cp_registry s) = (Some a, r1)" "ap_status a = StatusApproved" "caller_cn peer = Some (ap_caller a)"
      using claim_result(2) [OF assms(2) res] by blast
    then show ?thesis using agreed.look_up_holds(2) [OF _ reg]
      by (auto simp: claim_agreed_def poller_name_def approval_get_def split: option.splits)
  qed
  then show "list_all (claim_agreed C (set evs)) (case res of Inl reply \<Rightarrow> fl | Inr a \<Rightarrow> (poller_name peer, aid, a) # fl)"
    using fl by (auto split: sum.splits)
qed

lemma zero_request_refused: "rm_parse_key L [] = None \<Longrightarrow> approved_intent L a zero_request = None"
  by (simp add: approved_intent_def intent_from_def zero_request_def)

lemma deliver_inv:
  assumes inv: "control_inv C s0 evs (s, fl)" and key: "rm_parse_key (ce_lib Q) [] = None" and "(poller, aid, a) \<in> set fl"
    and d: "result_deliver Q aid a s = (reply, s')"
  shows "control_inv C s0 (evs @ deliver_events s poller aid reply) (s', remove1 (poller, aid, a) fl)"
proof -
  obtain ok s1 where i: "result_issue Q aid a s = (reply, ok, s1)" and cfg: "same_config s s'"
    and r: "cp_registry s' = finish_consume (ce_row_ok Q) aid ok (cp_registry s)" using d by (rule deliver_result)
  have reg: "registry_holds (item_agreed C (set evs)) (row_agreed C (set evs)) (cp_registry s)"
    and claim: "claim_agreed C (set evs) (poller, aid, a)" and once: "parked_once (set evs)"
    using inv assms(3) by (auto simp: control_inv_def list_all_iff)
  have fl: "list_all (claim_agreed C (set evs)) (remove1 (poller, aid, a) fl)"
    using inv notin_set_remove1 by (fastforce simp: control_inv_def list_all_iff)
  have here: "control_inv C s0 evs (s', remove1 (poller, aid, a) fl)"
    using control_inv_registry [OF inv cfg _ fl] agreed.finish_holds [OF reg] r by simp
  show ?thesis
  proof (cases "deliver_events s poller aid reply = []")
    case False
    then obtain n w where reply: "reply = CPReply n (CPAnswer w)"
      by (cases "(s, poller, aid, reply)" rule: deliver_events.cases) auto
    from i [unfolded reply] obtain j where "approved_intent (ce_lib Q) a (requested aid (cp_registry s)) = Some j"
      by (rule issue_answer)
    then obtain b where b: "map_of (rg_items (cp_registry s)) aid = Some b" "requested aid (cp_registry s) = ap_req b"
      using zero_request_refused [OF key, of a] by (auto simp: requested_def approval_request_def split: option.splits)
    from registry_holds_item [OF reg b(1)] obtain q where q: "Parked aid (ap_caller b) q \<in> set evs" "carried C q (ap_req b)"
      by (auto simp: item_agreed_def)
    have caller: "ap_caller b = ap_caller a" "poller = ap_caller a" using once q(1) claim by (auto simp: parked_once_def claim_agreed_def item_agreed_def)
    have "agreement C (set (cp_approve_cn s0)) (is_sign_caller s0) (set (cp_forwarders s0))
        (evs @ [Released aid poller (ap_req b)])"
      using inv q claim unfolding caller(2) caller(1) [symmetric] by (intro agreement.release) (auto simp: control_inv_def claim_agreed_def item_agreed_def)
    then show ?thesis using here reply b(2) agreed_mono [of C "set evs" _ "insert (Released aid poller (ap_req b)) (set evs)"]
        claims_mono [of C "set evs" _ "insert (Released aid poller (ap_req b)) (set evs)"]
      by (auto simp: control_inv_def parked_once_def)
  qed (use here in simp)
qed

lemma decide_inv:
  assumes inv: "control_inv C s0 evs (s, fl)" and d: "handle_approval_decide Q peer ct aid body s = (reply, s')"
  shows "control_inv C s0 (evs @ decide_events s peer aid body reply) (s', fl)"
proof -
  let ?r = "snd (approval_get aid (ce_now Q) (cp_registry s))"
  have reg: "registry_holds (item_agreed C (set evs)) (row_agreed C (set evs)) (cp_registry s)"
    and fl: "list_all (claim_agreed C (set evs)) fl" using inv by (auto simp: control_inv_def)
  note get = agreed.get_holds [OF reg, of aid "ce_now Q"] and cfg = decide_result(1) [OF d]
  from decide_result(2) [OF d, unfolded decide_effect_def] show ?thesis
  proof (elim disjE conjE exE)
    assume "cp_registry s' \<in> {cp_registry s, ?r}" and "decide_events s peer aid body reply = []"
    then show ?thesis using control_inv_registry [OF inv cfg _ fl] reg get by auto
  next
    fix cn b learn res
    assume cn: "cp_approver s peer = Some cn"
      and guard: "\<forall>p r. approval_get aid (ce_now Q) (cp_registry s) = (Some p, r) \<longrightarrow> ap_caller p \<noteq> cn"
      and dec: "approval_decide (ce_row_ok Q) aid (db_approve b) cn learn (ce_now Q) ?r = (res, cp_registry s')"
      and ev: "decide_events s peer aid body reply = (case res of Inl e \<Rightarrow> [] | Inr a \<Rightarrow> (if db_approve b then [Allowed aid cn] else []))"
    let ?evs = "evs @ decide_events s peer aid body reply"
    have caller: "ap_caller a \<noteq> cn \<and> (\<exists>q. Parked aid (ap_caller a) q \<in> set evs)" if "look_up aid (ce_now Q) ?r = Some (a, r1)" for a r1
    proof -
      have "item_agreed C (set evs) aid a" by (rule agreed.look_up_holds(2) [OF that get])
      then show ?thesis using guard that
        by (auto simp: approval_get_def item_agreed_def elim!: look_up_Some split: option.splits if_splits)
    qed
    have "registry_holds (item_agreed C (set ?evs)) (row_agreed C (set ?evs)) (cp_registry s')"
    proof (cases res)
      case (Inl e)
      then show ?thesis using dec get ev agreed.look_up_holds(1) [OF _ get]
        by (cases rule: approval_decide_settled [OF dec]) auto
    next
      case (Inr a)
      have "registry_holds (item_agreed C (set ?evs)) (row_agreed C (set ?evs))
          (snd (approval_decide (ce_row_ok Q) aid (db_approve b) cn learn (ce_now Q) ?r))"
        by (rule agreed.decide_holds [OF agreed_mono [OF get]]) (use caller ev Inr in \<open>auto simp: item_agreed_def\<close>)
      then show ?thesis using dec by simp
    qed
    moreover have "agreement C (set (cp_approve_cn s0)) (is_sign_caller s0) (set (cp_forwarders s0)) ?evs"
    proof (cases "decide_events s peer aid body reply = []")
      case False
      then obtain a where res: "res = Inr a" "decide_events s peer aid body reply = [Allowed aid cn]"
        using ev by (auto split: sum.splits if_splits)
      obtain p r1 where "look_up aid (ce_now Q) ?r = Some (p, r1)"
        using dec res(1) by (cases rule: approval_decide_settled [OF dec]) auto
      from caller [OF this] obtain q where "Parked aid (ap_caller p) q \<in> set evs" "cn \<noteq> ap_caller p" by auto
      then show ?thesis using inv cn unfolding res(2)
        by (intro agreement.allow) (auto simp: control_inv_def same_config_def approver_Some)
    qed (use inv in \<open>simp add: control_inv_def\<close>)
    moreover have "parked_once (set ?evs)" using inv ev by (auto simp: control_inv_def parked_once_def split: sum.splits)
    ultimately show ?thesis using inv cfg claims_mono [OF fl, of "set ?evs"]
      by (auto simp: control_inv_def same_config_def)
  qed
qed

lemma control_exec_inv:
  assumes "control_inv C s0 evs st" and "op_ok C evs x" and "control_exec C x st = (new, st')"
  shows "control_inv C s0 (evs @ new) st'"
proof -
  obtain s fl where st: "st = (s, fl)" by (cases st)
  have reg: "registry_holds (item_agreed C (set evs)) (row_agreed C (set evs)) (cp_registry s)"
    and fl: "list_all (claim_agreed C (set evs)) fl" using assms(1) st by (auto simp: control_inv_def)
  show ?thesis
  proof (cases x)
    case (SignReq Q peer body)
    then show ?thesis using assms st sign_inv by (auto split: prod.splits)
  next
    case (ClaimReq Q peer aid)
    then show ?thesis using assms st claim_inv [of C s0 evs s fl Q peer aid] by (fastforce split: prod.splits sum.splits)
  next
    case (DeliverReq Q poller aid a)
    then show ?thesis using assms st deliver_inv [of C s0 evs s fl Q poller aid a] by (auto split: prod.splits if_splits)
  next
    case (DecideReq Q peer ct aid body)
    then show ?thesis using assms st decide_inv by (auto split: prod.splits)
  next
    case (ListReq Q peer)
    have "same_config s (snd (handle_approvals_list Q peer s))
      \<and> registry_holds (item_agreed C (set evs)) (row_agreed C (set evs)) (cp_registry (snd (handle_approvals_list Q peer s)))"
      using reg agreed.list_holds [OF reg, of "ce_purge_ok Q" "ce_now Q"]
      by (auto simp: handle_approvals_list_def split: option.splits prod.splits)
    then show ?thesis using ListReq assms st control_inv_registry [OF assms(1) [unfolded st] _ _ fl] by auto
  next
    case (Reboot ttl now)
    then show ?thesis using assms st agreed.restart_holds [OF reg] by (auto simp: control_inv_def same_config_def)
  qed
qed

lemma control_run_inv:
  assumes "control_run C s0 evs st" and "cp_registry s0 = fresh_registry ttl durable"
  shows "control_inv C s0 evs st"
  using assms(1)
proof (induction rule: control_run.induct)
  case start
  show ?case using assms(2) by (auto simp: control_inv_def parked_once_def agreed.fresh_holds intro: agreement.nothing)
next
  case (step evs st x new st')
  then show ?case using control_exec_inv by blast
qed

section \<open>Properties\<close>


text \<open>
  C7: What collecting an approval leaves behind. With a fail-closed log, when the answer is a credential, a record
  naming the approval, the approver and the command was appended with success, and the approval is burned; with any
  other answer (the signer is down, refuses, is rate limited or sends nothing usable, the key does not parse, the
  record cannot be written) the claim is given back, nothing else of the registry changes, and beside the log nothing else
  of the server, but for one case: where only the record failed, the behaviour baseline has learnt the command already.
\<close>

theorem collection_outcome:
  assumes "result_deliver Q aid a s = (reply, s')" and "map_of (rg_items (cp_registry s)) aid = Some b" and "cp_fail_closed s"
  shows "case reply of
      CPReply n (CPAnswer w) \<Rightarrow>
        (\<exists>e. audit_append (ce_audit Q) (ce_io Q 0) e (cp_audit s) = (None, cp_audit s') \<and> en_outcome e = ''approval-granted''
          \<and> en_approval_id e = ap_id a \<and> en_approved_by e = ap_decided_by a \<and> en_command e = ap_command a)
        \<and> (\<exists>c. map_of (rg_items (cp_registry s')) aid = Some c \<and> ap_consumed c \<and> \<not> ap_issuing c)
    | _ \<Rightarrow> cp_registry s' = put_item aid (b\<lparr>ap_issuing := False\<rparr>) (cp_registry s)
        \<and> s' = s\<lparr>cp_registry := cp_registry s', cp_audit := cp_audit s', cp_behavior := cp_behavior s'\<rparr>
        \<and> (reply \<noteq> CPError 503 CPAuditUnavailable \<longrightarrow> cp_behavior s' = cp_behavior s)"
proof -
  obtain ok s1 where i: "result_issue Q aid a s = (reply, ok, s1)"
    and r: "cp_registry s' = finish_consume (ce_row_ok Q) aid ok (cp_registry s)"
    and s': "s' = put_registry (finish_consume (ce_row_ok Q) aid ok (cp_registry s1)) s1" using assms(1) by (rule deliver_result)
  show ?thesis
  proof (cases "\<exists>n w. reply = CPReply n (CPAnswer w)")
    case True
    then obtain n w where reply: "reply = CPReply n (CPAnswer w)" by blast
    from i [unfolded reply] obtain serial where ok: "ok" and g: "audit_gate Q 0 (granted_entry a (requested aid (cp_registry s)) serial)
        (learn_behavior_approval Q a (requested aid (cp_registry s)) s) = (True, s1)" by (rule issue_answer)
    have "audit_append (ce_audit Q) (ce_io Q 0) (granted_entry a (requested aid (cp_registry s)) serial) (cp_audit s) = (None, cp_audit s')"
      using g s' assms(3) by (auto simp: audit_gate_def split: prod.splits)
    moreover have "\<exists>c. map_of (rg_items (cp_registry s')) aid = Some c \<and> ap_consumed c \<and> \<not> ap_issuing c"
      using r ok assms(2) by (auto simp: finish_consume_def Let_def)
    ultimately show ?thesis using reply
      by (auto simp: granted_entry_def approval_entry_def Let_def
          intro!: exI [of _ "granted_entry a (requested aid (cp_registry s)) serial"])
  next
    case False
    have "\<not> ok" using i False unfolding result_issue_def
      by (auto simp: Let_def split: option.splits sum.splits prod.splits if_splits)
    then have "cp_registry s' = put_item aid (b\<lparr>ap_issuing := False\<rparr>) (cp_registry s)"
      using r assms(2) by (simp add: finish_consume_def)
    moreover have "s1 = s\<lparr>cp_audit := cp_audit s1, cp_behavior := cp_behavior s1\<rparr> \<and> (reply \<noteq> CPError 503 CPAuditUnavailable \<longrightarrow> cp_behavior s1 = cp_behavior s)"
      using i False unfolding result_issue_def
      by (auto simp: Let_def audit_e_def audit_gate_def learn_behavior_approval_def split: option.splits sum.splits prod.splits if_splits)
    then have "s' = s\<lparr>cp_registry := cp_registry s', cp_audit := cp_audit s', cp_behavior := cp_behavior s'\<rparr>
        \<and> (reply \<noteq> CPError 503 CPAuditUnavailable \<longrightarrow> cp_behavior s' = cp_behavior s)"
      by (cases s; cases s1) (simp add: s' put_registry_def)
    ultimately show ?thesis using False by (auto split: cp_reply.splits sign_payload.splits)
  qed
qed

lemma behavior_check_mode: "behavior_enforcing (snd (behavior_check subject host command now t)) = behavior_enforcing t"
  by (simp add: behavior_check_def Let_def behavior_enforcing_def file_subject_def)

lemma require_approval_no_answer: "fst (require_approval Q n broker req rule anomaly s) \<noteq> CPReply k (CPAnswer w)"
  by (auto simp: require_approval_def Let_def split: prod.splits sum.splits)

lemma relay_no_answer: "relay_signer_rate_limit e = Some reply \<Longrightarrow> reply \<noteq> CPReply k (CPAnswer w)"
  by (auto simp: relay_signer_rate_limit_def split: remote_error.splits)

lemma guardrails_no_answer: "fst (check_behavior_guardrails Q broker req s) \<noteq> Some (CPReply k (CPAnswer w))"
  using require_approval_no_answer
  by (auto simp: check_behavior_guardrails_def Let_def split: prod.splits option.splits sum.splits dest: relay_no_answer)
    (metis fst_conv)

text \<open>
  In enforce mode an anomalous request gets nothing without a human. When a live request or an executable
  preflight is answered with a credential, decision or envelope, the guardrails found it within its rate and without
  a new host or program, under a subject derived from the broker's own certificate.
\<close>

theorem enforced_guardrails:
  assumes "cp_handle_sign Q peer (Some req) s = (CPReply n (CPAnswer w), s')" and "behavior_enforcing (cp_behavior s)"
    and "\<not> wr_dry_run req \<or> wr_preflight req" and "caller_cn peer = Some broker"
  shows "fst (behavior_check (guardrail_subject s broker (wr_end_user req)) (wr_host req) (wr_command req) (ce_now Q) (cp_behavior s))
    = ([], False)"
proof -
  obtain anomalies exceeded t where b: "behavior_check (guardrail_subject s broker (wr_end_user req)) (wr_host req) (wr_command req)
      (ce_now Q) (cp_behavior s) = ((anomalies, exceeded), t)" by (metis prod.exhaust)
  have t: "behavior_enforcing t" using behavior_check_mode [of _ _ _ _ "cp_behavior s"] b assms(2) by (metis snd_conv)
  have enabled: "behavior_enabled (cp_behavior s)" using assms(2) by (simp add: behavior_enforcing_def behavior_enabled_def)
  have sc: "sign_caller s peer = Inr broker"
    using assms(1,4) by (auto simp: cp_handle_sign_def sign_caller_def split: if_splits)
  obtain answer s1 where g: "check_behavior_guardrails Q broker req s = (answer, s1)" by fastforce
  have "answer = None"
    using assms(1,3) g guardrails_no_answer [of Q broker req s] enabled sc
    by (cases answer) (auto simp: cp_handle_sign_def)
  then show ?thesis using g b t unfolding check_behavior_guardrails_def
    by (auto simp: Let_def split: if_splits option.splits sum.splits prod.splits)
qed

lemma duration_roundtrip:
  assumes "\<bar>n\<bar> \<le> 9223372036"
  shows "duration_seconds n sdiv go_second = n"
proof -
  have "- (2 ^ 63) \<le> n * go_second \<and> n * go_second < 2 ^ 63" using assms by (auto simp: abs_le_iff)
  then have "signed_take_bit 63 (n * go_second) = n * go_second" by (simp add: signed_take_bit_int_eq_self)
  moreover have "n * go_second sdiv go_second = n" by (cases "n \<ge> 0") (simp_all add: signed_divide_int_def sgn_if abs_mult)
  ultimately show ?thesis by (simp add: duration_seconds_def)
qed

text \<open>
  The signer gets what the broker asked for. A request that passes the control plane and is encoded again by its
  client is the broker's request, field by field, except that the client key travels only for SSH and the action only
  for Kubernetes, and that the control plane alone says on whose behalf it acts, whether a human approved, and
  what is to be learned: what the broker wrote there is dropped.
\<close>

theorem forwarded_request:
  assumes "intent_from L req broker approved = Some i" and "\<bar>wr_ttl_seconds req\<bar> \<le> 9223372036"
    and "wr_target_type req \<noteq> TargetTypeK8s \<Longrightarrow> wr_public_key req = rm_encode_key L p \<and> rm_parse_key L (rm_encode_key L p) = Some p \<and> p \<noteq> []"
  shows "wire_of_intent L i =
    (if wr_target_type req = TargetTypeK8s then req\<lparr>wr_public_key := []\<rparr>
     else req\<lparr>wr_target_type := [], wr_k8s_verb := [], wr_k8s_resource := [], wr_k8s_group := [], wr_k8s_namespace := [], wr_k8s_name := []\<rparr>)
    \<lparr>wr_on_behalf_of := broker, wr_approved := approved, wr_learn_ttl_seconds := 0, wr_learn_approver := [], wr_learn_approval_id := []\<rparr>"
  using assms(1,3) duration_roundtrip [OF assms(2)]
  by (cases "wr_target_type req = TargetTypeK8s") (auto simp: intent_from_def wire_of_intent_def Let_def)

text \<open>
  C40: A failed record does not undo a decision. When the log is fail-closed and the record of an approval cannot be
  written, the approver is answered 503, but the request is approved all the same: for as long as the approval lives,
  the next poll of its originator claims it.
\<close>

theorem failed_record_still_approves:
  assumes "handle_approval_decide Q peer ct aid (Some b) s = (CPError 503 CPAuditUnavailable, s')" and "db_approve b"
    and "map_of (rg_items (cp_registry s)) aid = Some p" and "\<not> ap_consumed p" and "\<not> ap_issuing p"
    and "caller_cn poller = Some (ap_caller p)" and "is_sign_caller s (ap_caller p)"
    and "ce_now Q' - ce_now Q \<le> rg_ttl (cp_registry s)"
  shows "\<exists>a s''. result_claim Q' poller aid s' = (Inr a, s'') \<and> ap_status a = StatusApproved"
proof -
  let ?r = "snd (approval_get aid (ce_now Q) (cp_registry s))"
  let ?p = "expire_approval (rg_ttl (cp_registry s)) (ce_now Q) p"
  have r: "?r = put_item aid ?p (cp_registry s)" using assms(3) by (simp add: approval_get_def look_up_def put_item_def Let_def)
  have ev: "decide_events s peer aid (Some b) (CPError 503 CPAuditUnavailable) \<noteq> []"
    using assms(1,2) by (cases "cp_approver s peer") (auto simp: handle_approval_decide_def)
  obtain cn learn res where dec: "approval_decide (ce_row_ok Q) aid True cn learn (ce_now Q) ?r = (res, cp_registry s')" and "res \<in> range Inr"
  proof -
    obtain cn b' learn res where "Some b = Some b'"
      and "approval_decide (ce_row_ok Q) aid (db_approve b') cn learn (ce_now Q) ?r = (res, cp_registry s')"
      and "decide_events s peer aid (Some b) (CPError 503 CPAuditUnavailable)
        = (case res of Inl e \<Rightarrow> [] | Inr a \<Rightarrow> (if db_approve b' then [Allowed aid cn] else []))"
      using decide_result(2) [OF assms(1), unfolded decide_effect_def] ev by blast
    then show ?thesis using that ev assms(2) by (cases res) auto
  qed
  from \<open>res \<in> range Inr\<close> obtain d r1 where d: "look_up aid (ce_now Q) ?r = Some (d, r1)" "ap_status d = StatusPending"
    and r': "cp_registry s' = update_rows (ce_row_ok Q) (map (decide_row (settled True cn learn (ce_now Q) d)))
      (put_item aid (settled True cn learn (ce_now Q) d) r1)"
    by (cases rule: approval_decide_settled [OF dec]) auto
  define a where "a = settled True cn learn (ce_now Q) d"
  have d': "ap_caller d = ap_caller p" "\<not> ap_consumed d" "\<not> ap_issuing d" "rg_ttl r1 = rg_ttl (cp_registry s)"
    using d(1) r assms(4,5) by (auto elim!: look_up_Some)
  have a: "map_of (rg_items (cp_registry s')) aid = Some a" "rg_ttl (cp_registry s') = rg_ttl (cp_registry s)"
    using r' d'(4) by (simp_all add: a_def)
  have "expire_approval (rg_ttl (cp_registry s)) (ce_now Q') a = a"
    using assms(8) d' by (simp add: a_def expire_approval_def)
  then have l: "look_up aid (ce_now Q') (cp_registry s') = Some (a, put_item aid a (cp_registry s'))"
    and l': "look_up aid (ce_now Q') (put_item aid a (cp_registry s')) = Some (a, put_item aid a (put_item aid a (cp_registry s')))"
    using a by (simp_all add: look_up_def Let_def put_item_def map_of_update)
  have "sign_caller s' poller = Inr (ap_caller a)"
    using decide_result(1) [OF assms(1)] assms(6,7) d'(1)
    by (simp add: sign_caller_Inr is_sign_caller_def same_config_def a_def)
  then show ?thesis using l l' d' by (simp add: result_claim_def approval_get_def begin_consume_def Let_def a_def)
qed

section \<open>Witnesses\<close>

text \<open>
  A signer that wants a human for everything and then signs; a broker \<open>b1\<close>, an approver \<open>carol\<close>, and a log that
  takes every record or, in the last witness, none.
\<close>

definition demo_certificate :: certificate where
  "demo_certificate = \<lparr>ce_key = ''k'', ce_serial = 7, ce_key_id = [], ce_valid_principals = [], ce_valid_after = 0, ce_valid_before = 0,
     ce_critical_options = [], ce_extensions = [], ce_signature = []\<rparr>"

definition demo_decision :: dec_info where
  "demo_decision = \<lparr>dw_allowed = True, dw_reason = [], dw_require_approval = True, dw_matched_rule = ''^reboot'', dw_force_command = [],
     dw_ttl_seconds = 0, dw_elevation = [], dw_enforcement = [], dw_warning = [], dw_would_deny = False, dw_would_require_approval = False\<rparr>"

definition demo_control_lib :: remote_lib where
  "demo_control_lib = \<lparr>rm_url_ok = (\<lambda>_. True), rm_encode_request = (\<lambda>r. if wr_approved r then ''A'' else ''P''),
     rm_decode_answer = (\<lambda>b. Some (if b = ''A'' then empty_answer\<lparr>wa_certificate := ''cert''\<rparr> else empty_answer\<lparr>wa_decision := Some demo_decision\<rparr>)),
     rm_decode_accepted = (\<lambda>_. None), rm_encode_key = id, rm_parse_key = (\<lambda>k. if k = [] then None else Some k),
     rm_parse_certificate = (\<lambda>_. Some demo_certificate)\<rparr>"

definition demo_control_net :: remote_env where
  "demo_control_net = \<lparr>rv_post = (\<lambda>_ b. Some \<lparr>ha_status = 200, ha_body = b, ha_read_ok = True, ha_retry_after = []\<rparr>),
     rv_get = (\<lambda>_ _. None), rv_now = 0, rv_poll = (\<lambda>_. \<lparr>pv_cancelled = True, pv_now = 0, pv_answer = None\<rparr>)\<rparr>"

definition demo_audit_lib :: audit_lib where
  "demo_audit_lib = \<lparr>au_marshal = (\<lambda>_. []), au_unmarshal = (\<lambda>_. None), au_sha256 = id, au_sign = (\<lambda>k m. k), au_check = (\<lambda>_ _ _. True),
     au_b64 = id, au_unb64 = Some, au_stamp = (\<lambda>_. []), au_is_stamp = (\<lambda>_. False)\<rparr>"

definition demo_control_io :: "bool \<Rightarrow> append_io" where
  "demo_control_io ok = \<lparr>io_now = 0, io_stat_ok = True, io_stat_broken = (\<lambda>_. False), io_rotation_sync = True, io_rename = True,
     io_open_new = True, io_reopen = True, io_write = (if ok then Written else WriteFailed 0), io_sync = True\<rparr>"

definition demo_control_env :: "bool \<Rightarrow> go_time \<Rightarrow> control_env" where
  "demo_control_env ok now = \<lparr>ce_lib = demo_control_lib, ce_net = demo_control_net, ce_audit = demo_audit_lib,
     ce_io = (\<lambda>_. demo_control_io ok), ce_redact = demo_redact, ce_codec = example_request_codec, ce_now = now, ce_new_id = Some ''a1'',
     ce_purge_ok = True, ce_insert_ok = True, ce_row_ok = True, ce_error_text = (\<lambda>_. []), ce_encode_certificate = (\<lambda>_. ''cert'')\<rparr>"

definition demo_control_log :: audit_log where
  "demo_control_log = \<lparr>al_dir = \<lparr>ad_active = Some [], ad_files = []\<rparr>, al_open = True, al_sign_key = [], al_redactor = None,
     al_prev_hash = [], al_seq = 0, al_max_file_size = 0, al_needs_newline = False\<rparr>"

definition demo_control_config :: "string \<Rightarrow> control_config" where
  "demo_control_config mode = \<lparr>cc_notifier = [], cc_teams_format = [], cc_webhook_url = [],
     cc_behavior = \<lparr>bc_mode = mode, bc_rate_limit_per_min = 10, bc_max_subjects = 0, bc_subject_ttl_minutes = 0, bc_max_distinct_per_subject = 0\<rparr>,
     cc_timeout_seconds = 60, cc_signer_url = ''signer'', cc_callers = [''carol''], cc_sign_callers = [], cc_trusted_forwarders = []\<rparr>"

definition demo_control :: control_server where
  "demo_control = new_control_server (demo_control_config BehaviorOff) (fresh_registry go_minute True) demo_control_log True None"

definition demo_peer :: "string \<Rightarrow> peer_certificate option" where
  "demo_peer cn = Some \<lparr>pc_common_name = cn, pc_ext_key_usage = [EKUClientAuth]\<rparr>"

definition demo_approve :: decide_body where
  "demo_approve = \<lparr>db_approve = True, db_learn = False, db_ttl_seconds = 0\<rparr>"

lemma demo_gate: "audit_gate (demo_control_env True now) n e s = (True, audit_e (demo_control_env True now) n e s)"
proof -
  let ?x = "audit_append demo_audit_lib (demo_control_io True) e (cp_audit s)"
  have "fst ?x = None" by (rule append_written) (simp_all add: demo_control_io_def)
  then show ?thesis by (simp add: audit_gate_def audit_e_def demo_control_env_def case_prod_beta)
qed

lemma demo_callers:
  "caller_cn (demo_peer ''b1'') = Some ''b1''" "caller_cn (demo_peer ''carol'') = Some ''carol''"
  by (simp_all add: demo_peer_def caller_cn_def has_client_auth_eku_def)

lemma demo_roles:
  "same_config demo_control s \<Longrightarrow> sign_caller s (demo_peer ''b1'') = Inr ''b1''"
  "same_config demo_control s \<Longrightarrow> cp_approver s (demo_peer ''carol'') = Some ''carol''"
  by (simp_all add: same_config_def sign_caller_def cp_approver_def is_sign_caller_def demo_callers demo_control_def new_control_server_def
      demo_control_config_def cn_set_def)

definition demo_request :: wire_request where
  "demo_request = example_wire_request\<lparr>wr_end_user := []\<rparr>"

definition demo_item :: approval where
  "demo_item = new_approval ''a1'' demo_request ''b1'' (Some ''^reboot'') True 0"

definition demo_rows :: "approval_row list" where
  "demo_rows = [approval_to_row example_request_codec demo_item]"

definition demo_waiting :: registry where
  "demo_waiting = \<lparr>rg_items = [(''a1'', demo_item)], rg_ttl = go_minute, rg_db = Some demo_rows\<rparr>"

lemma demo_remote_call:
  assumes "cp_remote s = new_remote ''signer''" and "in_target_type i \<noteq> TargetTypeK8s" and "\<not> in_dry_run i"
  shows "remote_call (demo_control_env ok now) s i = Inr (if in_approved i then cert_issued demo_certificate (empty_answer\<lparr>wa_certificate := ''cert''\<rparr>)
    else decision_only (Some demo_decision) [])"
  using assms by (auto simp: remote_call_def remote_sign_intent_def demo_control_env_def demo_control_lib_def demo_control_net_def
      limit_read_def issued_from_wire_def wire_of_intent_def Let_def empty_answer_def new_remote_def split: option.splits)

lemma demo_intent:
  "intent_from demo_control_lib example_wire_request ''b1'' a = Some ((plain_intent [] ''web1'' ''reboot'')\<lparr>in_role := [], in_purpose := [],
     in_requested_ttl := duration_seconds 60, in_public_key := ''k'', in_approved := a, in_on_behalf_of := ''b1'', in_end_user := ''alice'', in_raw_token := ''secret''\<rparr>)"
  "intent_from demo_control_lib demo_request ''b1'' a = Some ((plain_intent [] ''web1'' ''reboot'')\<lparr>in_role := [], in_purpose := [],
     in_requested_ttl := duration_seconds 60, in_public_key := ''k'', in_approved := a, in_on_behalf_of := ''b1'', in_raw_token := ''secret''\<rparr>)"
  by (simp_all add: intent_from_def example_wire_request_def demo_request_def demo_control_lib_def plain_intent_def)

lemma demo_parks:
  obtains s1 where "cp_handle_sign (demo_control_env True 0) (demo_peer ''b1'') (Some example_wire_request) demo_control
      = (CPReply 202 (CPWaiting (Some ''a1'') StatusPending), s1)" and "cp_registry s1 = demo_waiting" and "same_config demo_control s1"
    and "cp_remote s1 = new_remote ''signer''" and "cp_fail_closed s1"
proof -
  have e: "ce_lib (demo_control_env True 0) = demo_control_lib" by (simp add: demo_control_env_def)
  have b: "\<not> behavior_enabled (cp_behavior demo_control)" "cp_remote demo_control = new_remote ''signer''"
    by (simp_all add: demo_control_def new_control_server_def demo_control_config_def new_behavior_tracker_def behavior_enabled_def)
  have "\<not> wr_dry_run example_wire_request" by (simp add: example_wire_request_def)
  then have "cp_handle_sign (demo_control_env True 0) (demo_peer ''b1'') (Some example_wire_request) demo_control
      = require_approval (demo_control_env True 0) 1 ''b1'' example_wire_request ''^reboot'' [] demo_control"
    using b demo_roles(1) [of demo_control]
    by (simp add: cp_handle_sign_def sign_live_def e demo_intent demo_remote_call plain_intent_def forward_sign_result_def decision_only_def
        demo_decision_def Let_def)
  moreover have "create_with example_request_codec (Some ''a1'') True True demo_request ''b1'' (Some ''^reboot'') True 0 (fresh_registry go_minute True)
      = (Inr demo_item, demo_waiting)"
    by (simp add: create_with_def purge_approvals_def fresh_registry_def new_registry_def update_rows_def demo_waiting_def demo_item_def
        demo_rows_def map_keep_def Let_def)
  ultimately show ?thesis using that
    by (simp add: require_approval_def Let_def demo_control_def new_control_server_def demo_control_config_def cn_set_def
        demo_control_env_def parked_request_def demo_request_def example_wire_request_def audit_e_def same_config_def
        with_redacted_command_def demo_item_def new_approval_def)
qed

definition demo_allowed :: approval where
  "demo_allowed = settled True ''carol'' 0 go_second demo_item"

definition demo_decided :: registry where
  "demo_decided = \<lparr>rg_items = [(''a1'', demo_allowed)], rg_ttl = go_minute, rg_db = Some (map (decide_row demo_allowed) demo_rows)\<rparr>"

lemma demo_lookup:
  "approval_get ''a1'' go_second demo_waiting = (Some demo_item, demo_waiting)"
  "approval_decide True ''a1'' True ''carol'' 0 go_second demo_waiting = (Inr demo_allowed, demo_decided)"
  "approval_get ''a1'' 2000000000 demo_decided = (Some demo_allowed, demo_decided)"
  "begin_consume ''a1'' 2000000000 demo_decided = ((True, False), put_item ''a1'' (demo_allowed\<lparr>ap_issuing := True\<rparr>) demo_decided)"
  by (simp_all add: approval_get_def look_up_def demo_waiting_def demo_item_def new_approval_def expire_approval_def Let_def
      approval_decide_def demo_allowed_def settled_def demo_decided_def put_item_def update_rows_def begin_consume_def)

abbreviation demo_decide :: "bool \<Rightarrow> control_server \<Rightarrow> approval cp_reply \<times> control_server" where
  "demo_decide ok \<equiv> handle_approval_decide (demo_control_env ok go_second) (demo_peer ''carol'') ''application/json'' ''a1'' (Some demo_approve)"

lemma demo_decides:
  assumes "cp_registry s = demo_waiting" and "same_config demo_control s"
  shows "demo_decide ok s = (case audit_gate (demo_control_env ok go_second) 0
      ((approval_entry demo_allowed ''approval-decision-allow'')\<lparr>en_approved_by := ''carol''\<rparr>) (put_registry demo_decided s) of
        (ok, s) \<Rightarrow> if \<not> ok then (CPError 503 CPAuditUnavailable, s) else (CPReply 200 demo_allowed, s))"
proof -
  have [simp]: "ce_now (demo_control_env ok t) = t" "ce_row_ok (demo_control_env ok t)" for ok t
    by (simp_all add: demo_control_env_def)
  have "ap_caller demo_item \<noteq> ''carol''" by (simp add: demo_item_def new_approval_def)
  then show ?thesis using demo_roles(2) [OF assms(2)] assms(1)
    by (simp add: handle_approval_decide_def json_content_type_def demo_approve_def demo_lookup Let_def decide_commit_def put_registry_def
        decide_outcome_def)
qed

lemma demo_claims:
  assumes "cp_registry s = demo_decided" and "same_config demo_control s"
  shows "result_claim (demo_control_env ok 2000000000) (demo_peer ''b1'') ''a1'' s
    = (Inr demo_allowed, put_registry (put_item ''a1'' (demo_allowed\<lparr>ap_issuing := True\<rparr>) demo_decided) s)"
proof -
  have [simp]: "ce_now (demo_control_env ok t) = t" for ok t by (simp add: demo_control_env_def)
  have "ap_caller demo_allowed = ''b1''" "ap_status demo_allowed = StatusApproved"
    by (simp_all add: demo_allowed_def demo_item_def new_approval_def settled_def)
  then show ?thesis using demo_roles(1) [OF assms(2)] assms(1)
    by (simp add: result_claim_def demo_lookup Let_def put_registry_def)
qed

lemma demo_delivers:
  assumes "cp_registry s = put_item ''a1'' (demo_allowed\<lparr>ap_issuing := True\<rparr>) demo_decided" and "cp_remote s = new_remote ''signer''"
  obtains s' where "result_deliver (demo_control_env True t) ''a1'' demo_allowed s = (CPReply 200 (CPAnswer (empty_answer\<lparr>wa_certificate := ''cert''\<rparr>)), s')"
proof -
  have e: "ce_lib (demo_control_env True t) = demo_control_lib" "ce_encode_certificate (demo_control_env True t) c = ''cert''" for c
    by (simp_all add: demo_control_env_def)
  have r: "approval_request ''a1'' (cp_registry s) = Some demo_request"
    using assms(1) by (simp add: approval_request_def demo_allowed_def demo_item_def new_approval_def settled_def)
  have a: "ap_caller demo_allowed = ''b1''" "ap_learn_ttl demo_allowed = 0"
    by (simp_all add: demo_allowed_def demo_item_def new_approval_def settled_def)
  have q: "\<not> wr_dry_run demo_request" "wr_target_type demo_request = []"
    by (simp_all add: demo_request_def example_wire_request_def)
  show ?thesis using that
    by (simp add: result_deliver_def result_issue_def r e a q approved_intent_def demo_intent demo_remote_call [OF assms(2)] plain_intent_def
        granted_answer_def cert_issued_def decision_only_def demo_gate Let_def cert_answer_def empty_answer_def)
qed

text \<open>The whole way of one request: parked, allowed, claimed, released.\<close>

lemma demo_key: "rm_parse_key (ce_lib (demo_control_env ok t)) [] = None" "ce_codec (demo_control_env ok t) = example_request_codec"
  by (simp_all add: demo_control_env_def demo_control_lib_def)

lemma demo_run:
  obtains st where "control_run example_request_codec demo_control
    [Parked ''a1'' ''b1'' demo_request, Allowed ''a1'' ''carol'', Released ''a1'' ''b1'' demo_request] st"
proof -
  let ?C = example_request_codec
  obtain s1 where s1: "cp_handle_sign (demo_control_env True 0) (demo_peer ''b1'') (Some example_wire_request) demo_control
      = (CPReply 202 (CPWaiting (Some ''a1'') StatusPending), s1)" "cp_registry s1 = demo_waiting" "same_config demo_control s1"
    "cp_remote s1 = new_remote ''signer''" by (rule demo_parks)
  have p: "parked_request demo_control ''b1'' example_wire_request = demo_request"
    by (simp add: parked_request_def demo_control_def new_control_server_def demo_control_config_def cn_set_def demo_request_def example_wire_request_def)
  have 1: "control_run ?C demo_control ([] @ [Parked ''a1'' ''b1'' demo_request]) (s1, [])"
    by (rule control_run.step [OF control_run.start, where x = "SignReq (demo_control_env True 0) (demo_peer ''b1'') (Some example_wire_request)"])
      (simp_all add: s1(1) p demo_callers demo_key)
  let ?g = "(approval_entry demo_allowed ''approval-decision-allow'')\<lparr>en_approved_by := ''carol''\<rparr>"
  define s2 where "s2 = audit_e (demo_control_env True go_second) 0 ?g (put_registry demo_decided s1)"
  have d: "demo_decide True s1 = (CPReply 200 demo_allowed, s2)"
    unfolding demo_decides [OF s1(2,3)] demo_gate s2_def by simp
  have s2: "cp_registry s2 = demo_decided" "same_config demo_control s2" "cp_remote s2 = new_remote ''signer''"
    using s1 by (simp_all add: s2_def audit_e_def put_registry_def same_config_def)
  have 2: "control_run ?C demo_control (([] @ [Parked ''a1'' ''b1'' demo_request]) @ [Allowed ''a1'' ''carol'']) (s2, [])"
    by (rule control_run.step [OF 1, where x = "DecideReq (demo_control_env True go_second) (demo_peer ''carol'') ''application/json'' ''a1'' (Some demo_approve)"])
      (simp_all add: d demo_roles(2) [OF s1(3)] demo_approve_def [symmetric], simp add: demo_approve_def)
  define s3 where "s3 = put_registry (put_item ''a1'' (demo_allowed\<lparr>ap_issuing := True\<rparr>) demo_decided) s2"
  have 3: "control_run ?C demo_control ((([] @ [Parked ''a1'' ''b1'' demo_request]) @ [Allowed ''a1'' ''carol'']) @ []) (s3, [(''b1'', ''a1'', demo_allowed)])"
    by (rule control_run.step [OF 2, where x = "ClaimReq (demo_control_env True 2000000000) (demo_peer ''b1'') ''a1''"])
      (simp_all add: demo_claims [OF s2(1,2)] s3_def poller_name_def demo_callers)
  have r3: "cp_registry s3 = put_item ''a1'' (demo_allowed\<lparr>ap_issuing := True\<rparr>) demo_decided" "cp_remote s3 = new_remote ''signer''"
    using s2(3) by (simp_all add: s3_def put_registry_def)
  obtain s4 where s4: "result_deliver (demo_control_env True 2000000000) ''a1'' demo_allowed s3
      = (CPReply 200 (CPAnswer (empty_answer\<lparr>wa_certificate := ''cert''\<rparr>)), s4)" by (rule demo_delivers [OF r3])
  have q: "requested ''a1'' (cp_registry s3) = demo_request" "ap_caller demo_allowed = ''b1''"
    by (simp_all add: requested_def approval_request_def r3(1) demo_allowed_def demo_item_def new_approval_def)
  have "control_run ?C demo_control (((([] @ [Parked ''a1'' ''b1'' demo_request]) @ [Allowed ''a1'' ''carol'']) @ []) @ [Released ''a1'' ''b1'' demo_request]) (s4, [])"
    by (rule control_run.step [OF 3, where x = "DeliverReq (demo_control_env True 2000000000) ''b1'' ''a1'' demo_allowed"]) (simp_all add: s4 q demo_key)
  then show ?thesis using that by simp
qed


lemma demo_holding:
  obtains s :: control_server where "cp_registry s = put_item ''a1'' (demo_allowed\<lparr>ap_issuing := True\<rparr>) demo_decided" and "cp_remote s = new_remote ''signer''"
    and "cp_fail_closed s"
  by (rule that [of "put_registry (put_item ''a1'' (demo_allowed\<lparr>ap_issuing := True\<rparr>) demo_decided) demo_control"])
    (simp_all add: demo_control_def new_control_server_def put_registry_def demo_control_config_def)

theorem collection_outcome_witness:
  "\<exists>s s' e. result_deliver (demo_control_env True 0) ''a1'' demo_allowed s
      = (CPReply 200 (CPAnswer (empty_answer\<lparr>wa_certificate := ''cert''\<rparr>)), s')
    \<and> audit_append demo_audit_lib (demo_control_io True) e (cp_audit s) = (None, cp_audit s') \<and> en_approved_by e = ''carol''"
proof -
  obtain s :: control_server where s: "cp_registry s = put_item ''a1'' (demo_allowed\<lparr>ap_issuing := True\<rparr>) demo_decided" "cp_remote s = new_remote ''signer''"
    "cp_fail_closed s" by (rule demo_holding)
  obtain s' where d: "result_deliver (demo_control_env True 0) ''a1'' demo_allowed s
      = (CPReply 200 (CPAnswer (empty_answer\<lparr>wa_certificate := ''cert''\<rparr>)), s')" by (rule demo_delivers [OF s(1,2)])
  have "map_of (rg_items (cp_registry s)) ''a1'' = Some (demo_allowed\<lparr>ap_issuing := True\<rparr>)" by (simp add: s(1))
  from collection_outcome [OF d this s(3)] d show ?thesis
    by (auto simp: demo_control_env_def demo_allowed_def)
qed

text \<open>In enforce mode the first request of a broker is no anomaly; a dry run of it is answered by the signer.\<close>

definition demo_enforcing :: control_server where
  "demo_enforcing = new_control_server (demo_control_config BehaviorEnforce) (fresh_registry go_minute True) demo_control_log True None"

theorem enforced_guardrails_witness:
  "fst (behavior_check ''b1'' ''web1'' ''reboot'' 0 (cp_behavior demo_enforcing)) = ([], False)"
proof -
  let ?req = "example_wire_request\<lparr>wr_dry_run := True, wr_preflight := True\<rparr>"
  let ?i = "(plain_intent [] ''web1'' ''reboot'')\<lparr>in_role := [], in_purpose := [], in_requested_ttl := duration_seconds 60,
     in_public_key := ''k'', in_dry_run := True, in_preflight := True, in_on_behalf_of := ''b1'', in_end_user := ''alice'', in_raw_token := ''secret''\<rparr>"
  have i: "intent_from (ce_lib (demo_control_env True 0)) ?req ''b1'' False = Some ?i"
    by (simp add: intent_from_def example_wire_request_def demo_control_env_def demo_control_lib_def plain_intent_def)
  have c: "remote_call (demo_control_env True 0) s ?i = Inr (decision_only (Some demo_decision) [])" if "cp_remote s = new_remote ''signer''" for s
    using that by (simp add: remote_call_def remote_sign_intent_def demo_control_env_def demo_control_lib_def demo_control_net_def
        limit_read_def issued_from_wire_def wire_of_intent_def plain_intent_def Let_def empty_answer_def new_remote_def)
  have b: "behavior_enforcing (cp_behavior demo_enforcing)" "behavior_enabled (cp_behavior demo_enforcing)"
    "bt_subjects (cp_behavior demo_enforcing) = []" "bc_rate_limit_per_min (bt_cfg (cp_behavior demo_enforcing)) = 10"
    by (simp_all add: demo_enforcing_def new_control_server_def demo_control_config_def new_behavior_tracker_def behavior_enforcing_def behavior_enabled_def)
  have sc: "sign_caller demo_enforcing (demo_peer ''b1'') = Inr ''b1''" "guardrail_subject demo_enforcing ''b1'' e = ''b1''" for e
    by (simp_all add: sign_caller_def is_sign_caller_def demo_callers demo_enforcing_def new_control_server_def demo_control_config_def
        cn_set_def guardrail_subject_def)
  obtain t where t: "behavior_check ''b1'' ''web1'' ''reboot'' 0 (cp_behavior demo_enforcing) = (([], False), t)"
    using b by (auto simp: behavior_check_def Let_def subject_entry_def record_event_def rate_exceeded_def novel_anomalies_def empty_subject_def)
  have g: "check_behavior_guardrails (demo_control_env True 0) ''b1'' ?req demo_enforcing = (None, demo_enforcing\<lparr>cp_behavior := t\<rparr>)"
    using t b(1) behavior_check_mode [of "''b1''" "''web1''" "''reboot''" 0 "cp_behavior demo_enforcing"]
    by (simp add: check_behavior_guardrails_def sc example_wire_request_def demo_control_env_def Let_def)
  have r: "cp_remote (demo_enforcing\<lparr>cp_behavior := t\<rparr>) = new_remote ''signer''"
    by (simp add: demo_enforcing_def new_control_server_def demo_control_config_def)
  have "cp_handle_sign (demo_control_env True 0) (demo_peer ''b1'') (Some ?req) demo_enforcing
      = (CPReply 200 (CPAnswer (decision_answer (decision_only (Some demo_decision) []))), demo_enforcing\<lparr>cp_behavior := t\<rparr>)"
    unfolding cp_handle_sign_def sc sum.case option.case using g b(2) by (simp add: sign_dry_run_def i c [OF r])
  from enforced_guardrails [OF this b(1) _ demo_callers(1)] show ?thesis
    by (simp add: sc example_wire_request_def demo_control_env_def)
qed

theorem forwarded_request_witness:
  "\<exists>i. intent_from demo_control_lib example_wire_request ''b1'' True = Some i
    \<and> wire_of_intent demo_control_lib i = example_wire_request\<lparr>wr_on_behalf_of := ''b1'', wr_approved := True\<rparr>"
proof -
  obtain i where i: "intent_from demo_control_lib example_wire_request ''b1'' True = Some i" using demo_intent(1) by blast
  from forwarded_request [OF i, of "''k''"] i show ?thesis by (simp add: example_wire_request_def demo_control_lib_def)
qed

theorem failed_record_still_approves_witness:
  "\<exists>s s' a s''. demo_decide False s = (CPError 503 CPAuditUnavailable, s')
     \<and> result_claim (demo_control_env True 2000000000) (demo_peer ''b1'') ''a1'' s' = (Inr a, s'')"
proof -
  obtain s where s: "cp_registry s = demo_waiting" "same_config demo_control s" "cp_fail_closed s" by (rule demo_parks)
  let ?x = "audit_append demo_audit_lib (demo_control_io False) ((approval_entry demo_allowed ''approval-decision-allow'')\<lparr>en_approved_by := ''carol''\<rparr>) (cp_audit s)"
  have "fst ?x = Some WriteError" by (rule append_write_failed) (simp_all add: demo_control_io_def)
  then obtain s' where d: "demo_decide False s = (CPError 503 CPAuditUnavailable, s')"
    unfolding demo_decides [OF s(1,2)] using s(3) by (simp add: audit_gate_def demo_control_env_def case_prod_beta)
  have p: "map_of (rg_items (cp_registry s)) ''a1'' = Some demo_item" "\<not> ap_consumed demo_item" "\<not> ap_issuing demo_item"
    "ap_caller demo_item = ''b1''" "rg_ttl (cp_registry s) = go_minute" "db_approve demo_approve"
    by (simp_all add: s(1) demo_waiting_def demo_item_def new_approval_def demo_approve_def)
  have c: "caller_cn (demo_peer ''b1'') = Some (ap_caller demo_item)" "is_sign_caller s (ap_caller demo_item)"
    using demo_roles(1) [OF s(2)] p(4) by (simp_all add: sign_caller_Inr)
  have t: "ce_now (demo_control_env True 2000000000) - ce_now (demo_control_env False go_second) \<le> rg_ttl (cp_registry s)"
    by (simp add: demo_control_env_def p(5))
  from failed_record_still_approves [OF d p(6,1,2,3) c t] d show ?thesis by blast
qed

end
