(* ===== verification/Audit_Chain.thy ===== *)
theory Audit_Chain
  imports Audit_Log
begin

text \<open>
  What the log of \<open>Audit_Log\<close> guarantees: the verifier accepts every directory the writer leaves behind,
  across rotations, restarts and cut-off tails; the head of a verified chain determines all of its lines;
  every written line fits the reader's buffer.
\<close>

section \<open>Lines of a file\<close>

definition line_ok :: "string \<Rightarrow> bool" where
  "line_ok l \<longleftrightarrow> newline \<notin> set l \<and> \<not> only_space l \<and> last l \<noteq> carriage_return \<and> length l < reader_buffer_size"

definition file_of :: "string list \<Rightarrow> string" where
  "file_of ls = concat (map (\<lambda>l. l @ [newline]) ls)"

text \<open>The file without its last newline, as a torn write leaves it.\<close>

definition torn_file :: "bool \<Rightarrow> string list \<Rightarrow> string" where
  "torn_file torn ls = (if torn then butlast (file_of ls) else file_of ls)"

lemma file_of_simps [simp]: "file_of [] = []" "file_of (l # ls) = l @ newline # file_of ls"
  "file_of (ls @ ks) = file_of ls @ file_of ks"
  by (simp_all add: file_of_def)

lemma file_of_ends: "ls \<noteq> [] \<Longrightarrow> last (file_of ls) = newline \<and> file_of ls \<noteq> []"
  by (cases ls rule: rev_cases) simp_all

lemma split_on_ne_Nil: "split_on sep s \<noteq> []"
  by (induction s) (auto split: list.splits)

lemma split_file: "\<forall>l \<in> set ls. newline \<notin> set l \<Longrightarrow> split_on newline (file_of ls) = ls @ [[]]"
  by (induction ls) (simp_all add: split_on_append)

lemma split_torn:
  assumes "\<forall>l \<in> set ls. newline \<notin> set l" and "ls \<noteq> []"
  shows "split_on newline (butlast (file_of ls)) = ls"
  using assms
proof (induction ls)
  case (Cons l ls)
  show ?case
  proof (cases "ls = []")
    case True
    then show ?thesis using Cons.prems by (simp add: split_on_single butlast_append)
  next
    case False
    then have "butlast (file_of (l # ls)) = l @ newline # butlast (file_of ls)"
      using file_of_ends [OF False] by (simp add: butlast_append)
    then show ?thesis using Cons False by (simp add: split_on_append)
  qed
qed simp

lemma raw_lines_file:
  assumes "\<forall>l \<in> set ls. line_ok l" and "torn \<longrightarrow> ls \<noteq> []"
  shows "raw_lines (torn_file torn ls) = ls"
proof (cases torn)
  case True
  have "last ls \<noteq> []" using assms True last_in_set by (fastforce simp: line_ok_def)
  then show ?thesis using True assms split_torn [of ls] by (auto simp: raw_lines_def torn_file_def line_ok_def Let_def)
next
  case False
  then show ?thesis using assms split_file [of ls] by (auto simp: raw_lines_def torn_file_def line_ok_def Let_def)
qed

lemma scan_file:
  assumes "\<forall>l \<in> set ls. line_ok l" and "torn \<longrightarrow> ls \<noteq> []"
  shows "scan_lines (torn_file torn ls) = (ls, True)" and "record_lines (torn_file torn ls) = ls"
proof -
  have fits: "takeWhile (\<lambda>l. length l < reader_buffer_size) ls = ls" "list_all (\<lambda>l. length l < reader_buffer_size) ls"
    using assms(1) by (auto simp: takeWhile_eq_all_conv list_all_iff line_ok_def)
  have "map drop_cr ls = ls" using assms(1) by (auto simp: drop_cr_def line_ok_def intro!: map_idI)
  then show scan: "scan_lines (torn_file torn ls) = (ls, True)"
    unfolding scan_lines_def raw_lines_file [OF assms] Let_def fits(1) using fits(2) by simp
  show "record_lines (torn_file torn ls) = ls"
    using assms(1) by (auto simp: record_lines_def scan line_ok_def filter_id_conv)
qed

section \<open>Linked lines verify\<close>

fun linked :: "audit_lib \<Rightarrow> string \<Rightarrow> string \<Rightarrow> 64 word \<Rightarrow> string list \<Rightarrow> bool" where
  "linked L pub prev seq [] \<longleftrightarrow> True"
| "linked L pub prev seq (l # ls) \<longleftrightarrow> line_ok l
     \<and> (case au_unmarshal L l of None \<Rightarrow> False
        | Some e \<Rightarrow> en_seq e = seq + 1 \<and> en_prev_hash e = prev \<and> verify_entry L pub e)
     \<and> linked L pub (au_sha256 L l) (seq + 1) ls"

definition head_of :: "audit_lib \<Rightarrow> string \<Rightarrow> string list \<Rightarrow> string" where
  "head_of L prev ls = (if ls = [] then prev else au_sha256 L (last ls))"

lemma head_of_simps [simp]: "head_of L prev [] = prev" "head_of L prev (ls @ [l]) = au_sha256 L l"
  by (simp_all add: head_of_def)

lemma linked_append:
  "linked L pub prev seq (ls @ ks) \<longleftrightarrow> linked L pub prev seq ls \<and> linked L pub (head_of L prev ls) (seq + of_nat (length ls)) ks"
  by (induction ls arbitrary: prev seq) (auto simp: add.assoc head_of_def split: option.splits)

lemma linked_take: "linked L pub prev seq ls \<Longrightarrow> linked L pub prev seq (take n ls)"
  by (metis append_take_drop_id linked_append)

lemma linked_line_ok: "linked L pub prev seq ls \<Longrightarrow> \<forall>l \<in> set ls. line_ok l"
  by (induction ls arbitrary: prev seq) auto

lemma verify_linked:
  assumes "linked L pub prev seq ls" and "v = None \<or> v = Some (seq, prev)"
  shows "vr_total (verify_lines L (Some pub) v ls) = length ls \<and> vr_errs (verify_lines L (Some pub) v ls) = 0"
  using assms
proof (induction ls arbitrary: prev seq v)
  case (Cons l ls)
  then obtain e where e: "au_unmarshal L l = Some e" "en_seq e = seq + 1" "en_prev_hash e = prev" "verify_entry L pub e"
    and rest: "linked L pub (au_sha256 L l) (seq + 1) ls" by (auto split: option.splits)
  from Cons.IH [OF rest, of "Some (seq + 1, au_sha256 L l)"] Cons.prems(2) e show ?case
    by (auto simp: Let_def)
qed simp

lemma bounds_linked:
  assumes "linked L pub prev seq ls" and "ls \<noteq> []"
  shows "file_bounds L (torn_file torn ls) = Inr (prev, head_of L prev ls)"
proof -
  obtain l ks where ls: "ls = l # ks" using assms(2) by (cases ls) auto
  from assms(1) ls obtain e where "au_unmarshal L l = Some e" "en_prev_hash e = prev" by (auto split: option.splits)
  then show ?thesis using scan_file [OF linked_line_ok [OF assms(1)]] assms(2) ls
    by (simp add: file_bounds_def head_of_def)
qed

lemma verify_file_linked:
  assumes "linked L pub prev seq ls" and "torn \<longrightarrow> ls \<noteq> []"
  shows "vr_total (verify_file L (Some pub) (torn_file torn ls)) = length ls"
    and "vr_errs (verify_file L (Some pub) (torn_file torn ls)) = 0"
  using scan_file [OF linked_line_ok [OF assms(1)] assms(2)] verify_linked [OF assms(1), of None]
  by (simp_all add: verify_file_def Let_def)

text \<open>Segments in a row, each starting its own numbering and linked to the head of the one before.\<close>

fun linked_segments :: "audit_lib \<Rightarrow> string \<Rightarrow> string \<Rightarrow> string list list \<Rightarrow> bool" where
  "linked_segments L pub prev [] \<longleftrightarrow> True"
| "linked_segments L pub prev (s # ss) \<longleftrightarrow> s \<noteq> [] \<and> linked L pub prev 0 s \<and> linked_segments L pub (head_of L prev s) ss"

lemma linked_segments_snoc:
  "linked_segments L pub prev (ss @ [s]) \<longleftrightarrow>
     linked_segments L pub prev ss \<and> s \<noteq> [] \<and> linked L pub (head_of L prev (concat ss)) 0 s"
proof (induction ss arbitrary: prev)
  case (Cons t ss)
  have "head_of L (head_of L prev t) (concat ss) = head_of L prev (concat (t # ss))"
    by (auto simp: head_of_def last_append)
  then show ?case using Cons by auto
qed (auto simp: head_of_def)

lemma link_segments_verify:
  assumes "linked_segments L pub prev ss" and "first \<longrightarrow> prev = []" and "length ns = length ss"
    and "list_all2 (\<lambda>c s. \<exists>torn. c = torn_file torn s) cs ss"
    and "\<And>f. (f \<longrightarrow> head_of L prev (concat ss) = []) \<or> ss = [] \<and> f = first \<Longrightarrow>
      link_segments L (Some pub) f (head_of L prev (concat ss)) rest = (n, 0)"
  shows "link_segments L (Some pub) first prev (zip ns cs @ rest) = (length (concat ss) + n, 0)"
  using assms
proof (induction ss arbitrary: prev first ns cs)
  case (Cons s ss)
  obtain k ns' where ns: "ns = k # ns'" using Cons.prems(3) by (cases ns) auto
  obtain c cs' torn where cs: "cs = c # cs'" "c = torn_file torn s" "list_all2 (\<lambda>c s. \<exists>torn. c = torn_file torn s) cs' ss"
    using Cons.prems(4) by (cases cs) auto
  have s: "s \<noteq> []" "linked L pub prev 0 s" "linked_segments L pub (head_of L prev s) ss" using Cons.prems(1) by auto
  have head: "head_of L (head_of L prev s) (concat ss) = head_of L prev (concat (s # ss))"
    by (auto simp: head_of_def last_append)
  have "link_segments L (Some pub) False (head_of L prev s) (zip ns' cs' @ rest) = (length (concat ss) + n, 0)"
    by (rule Cons.IH [OF s(3)]) (use Cons.prems ns cs head in auto)
  then show ?case
    using bounds_linked [OF s(2,1), of torn] verify_file_linked [OF s(2), of torn] Cons.prems(2) ns cs s(1) by auto
qed simp

lemma link_active:
  assumes "linked L pub prev 0 cur" and "torn \<longrightarrow> cur \<noteq> []" and "first \<longrightarrow> prev = []"
  shows "link_segments L (Some pub) first prev [(None, torn_file torn cur)] = (length cur, 0)"
proof (cases "cur = []")
  case True
  then have "torn_file torn cur = torn_file False []" using assms(2) by (simp add: torn_file_def)
  then show ?thesis using True verify_file_linked [of L pub prev 0 "[]" False] scan_file [of "[]" False]
    by (simp add: file_bounds_def)
next
  case False
  then show ?thesis
    using bounds_linked [OF assms(1) False, of torn] verify_file_linked [OF assms(1,2)] assms(3) by simp
qed

section \<open>Names of rotated segments\<close>

text \<open>What is expected of the timestamps: recognised, without a dot, and ordered as the times are.\<close>

definition stamps_ok :: "audit_lib \<Rightarrow> bool" where
  "stamps_ok L \<longleftrightarrow> (\<forall>t. au_is_stamp L (au_stamp L t) \<and> CHR ''.'' \<notin> set (au_stamp L t))
     \<and> (\<forall>t t'. t \<le> t' \<longrightarrow> au_stamp L t \<le> au_stamp L t')"

definition seg_name :: "string \<times> nat \<Rightarrow> string" where
  "seg_name sk = (if snd sk = 0 then fst sk else fst sk @ CHR ''.'' # nat_decimal (snd sk))"

definition key_ok :: "audit_lib \<Rightarrow> string \<times> nat \<Rightarrow> bool" where
  "key_ok L sk \<longleftrightarrow> CHR ''.'' \<notin> set (fst sk) \<and> au_is_stamp L (fst sk) \<and> snd sk < 2 ^ 63"

lemma index_dot_simps: "CHR ''.'' \<notin> set s \<Longrightarrow> index_dot s = None"
  "CHR ''.'' \<notin> set s \<Longrightarrow> index_dot (s @ CHR ''.'' # t) = Some (length s)"
  by (auto simp: index_dot_def takeWhile_append takeWhile_eq_all_conv)

lemma nat_decimal_ne: "nat_decimal n \<noteq> []"
  by (simp add: nat_decimal.simps [of n])

lemma seg_name_order: "key_ok L sk \<Longrightarrow> segment_order (seg_name sk) = sk"
  by (cases sk) (auto simp: seg_name_def segment_order_def index_dot_simps key_ok_def atoi_digits_def decimal_value_nat_decimal)

lemma seg_name_rotated: "key_ok L sk \<Longrightarrow> is_rotated_segment L (seg_name sk)"
  using nat_decimal_digits
  by (cases sk) (fastforce simp: seg_name_def is_rotated_segment_def index_dot_simps key_ok_def nat_decimal_ne list_all_iff Let_def)

lemma seg_name_inject: "key_ok L a \<Longrightarrow> key_ok L b \<Longrightarrow> seg_name a = seg_name b \<longleftrightarrow> a = b"
  by (metis seg_name_order)

text \<open>
  The rotated files of a directory, oldest first, under keys that grow; within one timestamp the numbers
  start at zero and leave no gap.
\<close>

definition names_ok :: "audit_lib \<Rightarrow> audit_dir \<Rightarrow> (string \<times> nat) list \<Rightarrow> string list \<Rightarrow> bool" where
  "names_ok L d ks cs \<longleftrightarrow> go_map_inv (ad_files d) \<and> length ks = length cs
     \<and> filter (\<lambda>(n, c). is_rotated_segment L n) (ad_files d) = zip (map seg_name ks) cs
     \<and> sorted_wrt (<) ks \<and> (\<forall>sk \<in> set ks. key_ok L sk)
     \<and> (\<forall>s k j. (s, k) \<in> set ks \<longrightarrow> j < k \<longrightarrow> (s, j) \<in> set ks)"

lemma sorted_zip_id:
  assumes "length ks = length cs" and "sorted_wrt (<) ks" and "\<forall>sk \<in> set ks. key_ok L sk"
  shows "sort_key (\<lambda>(n, c). segment_order n) (zip (map seg_name ks) cs) = zip (map seg_name ks) cs"
proof -
  have "map (\<lambda>(n, c). segment_order n) (zip (map seg_name ks) cs) = map segment_order (map fst (zip (map seg_name ks) cs))"
    by (simp add: case_prod_beta')
  also have "\<dots> = map segment_order (map seg_name ks)"
    using assms(1) map_fst_zip [of "map seg_name ks" cs] by simp
  also have "\<dots> = ks" using assms(3) by (auto simp: seg_name_order intro!: map_idI)
  finally have "sorted (map (\<lambda>(n, c). segment_order n) (zip (map seg_name ks) cs))"
    using assms(2) strict_sorted_imp_sorted by simp
  then show ?thesis by (simp add: sort_key_id_if_sorted)
qed

lemma discover_names:
  assumes "names_ok L d ks cs"
  shows "discover_segments L d = zip (map (Some \<circ> seg_name) ks) cs @ (case ad_active d of None \<Rightarrow> [] | Some c \<Rightarrow> [(None, c)])"
proof -
  have "map (\<lambda>(n, c). (Some n, c)) (zip (map seg_name ks) cs) = zip (map (Some \<circ> seg_name) ks) cs"
    by (simp add: zip_map1 case_prod_beta' comp_def)
  then show ?thesis using assms sorted_zip_id [of ks cs L] by (simp add: discover_segments_def names_ok_def)
qed

lemma has_rotated:
  assumes "names_ok L d ks cs" and "key_ok L sk"
  shows "map_has (ad_files d) (seg_name sk) \<longleftrightarrow> sk \<in> set ks"
proof -
  have f: "filter (\<lambda>(n, c). is_rotated_segment L n) (ad_files d) = zip (map seg_name ks) cs" "length ks = length cs"
    "\<forall>sk \<in> set ks. key_ok L sk" using assms(1) by (auto simp: names_ok_def)
  have "map_has (ad_files d) (seg_name sk) \<longleftrightarrow> seg_name sk \<in> fst ` set (ad_files d)"
    by (auto simp: map_has_def map_of_eq_None_iff)
  also have "\<dots> \<longleftrightarrow> seg_name sk \<in> fst ` set (filter (\<lambda>(n, c). is_rotated_segment L n) (ad_files d))"
    using seg_name_rotated [OF assms(2)] by force
  also have "\<dots> \<longleftrightarrow> seg_name sk \<in> set (map seg_name ks)" unfolding f(1) using f(2) by (metis length_map map_fst_zip set_map)
  also have "\<dots> \<longleftrightarrow> sk \<in> set ks" using f(3) seg_name_inject [OF assms(2)] by (metis (mono_tags) image_iff image_eqI set_map)
  finally show ?thesis .
qed

lemma update_new: "\<not> map_has m k \<Longrightarrow> AList.update k v m = m @ [(k, v)]"
  by (induction m) (auto simp: map_has_def split: if_splits)

lemma names_ok_add:
  assumes "names_ok L d ks cs" and "key_ok L (s, n)" and "\<forall>(t, k) \<in> set ks. t \<le> s"
    and "(s, n) \<notin> set ks" and "\<forall>j < n. (s, j) \<in> set ks"
  shows "names_ok L \<lparr>ad_active = a, ad_files = AList.update (seg_name (s, n)) c (ad_files d)\<rparr> (ks @ [(s, n)]) (cs @ [c])"
proof -
  have new: "\<not> map_has (ad_files d) (seg_name (s, n))" using has_rotated [OF assms(1,2)] assms(4) by simp
  have closed: "\<forall>s k j. (s, k) \<in> set ks \<longrightarrow> j < k \<longrightarrow> (s, j) \<in> set ks" using assms(1) by (auto simp: names_ok_def)
  have less: "(t, k) < (s, n)" if "(t, k) \<in> set ks" for t k
  proof -
    have "k < n" if "t = s" using \<open>(t, k) \<in> set ks\<close> that assms(4) closed by (metis linorder_neqE_nat)
    then show ?thesis using assms(3) that by (auto simp: less_prod_def)
  qed
  have "filter (\<lambda>(n, c). is_rotated_segment L n) (AList.update (seg_name (s, n)) c (ad_files d))
      = zip (map seg_name (ks @ [(s, n)])) (cs @ [c])"
    using assms(1) seg_name_rotated [OF assms(2)] unfolding update_new [OF new] by (simp add: names_ok_def)
  moreover have "sorted_wrt (<) (ks @ [(s, n)])"
    using assms(1) less by (auto simp: names_ok_def sorted_wrt_append)
  moreover have "\<forall>t k j. (t, k) \<in> set (ks @ [(s, n)]) \<longrightarrow> j < k \<longrightarrow> (t, j) \<in> set (ks @ [(s, n)])"
    using closed assms(5) by auto
  ultimately show ?thesis using assms(1,2) by (auto simp: names_ok_def)
qed

text \<open>The name picked for a rotated file is the first free number of its timestamp.\<close>

lemma path_is_fresh:
  assumes "names_ok L d ks cs" and "stamps_ok L" and "length ks < max_segment_collisions" and "\<forall>n. \<not> io_stat_broken io n"
  obtains n where "rotated_segment_path L io d = seg_name (au_stamp L (io_now io), n)" and "key_ok L (au_stamp L (io_now io), n)"
    and "(au_stamp L (io_now io), n) \<notin> set ks" and "\<forall>j < n. (au_stamp L (io_now io), j) \<in> set ks"
proof -
  define b where "b = au_stamp L (io_now io)"
  have key: "key_ok L (b, n)" if "n \<le> max_segment_collisions" for n
    using assms(2) that by (auto simp: key_ok_def stamps_ok_def b_def)
  have has: "map_has (ad_files d) (seg_name (b, n)) \<longleftrightarrow> (b, n) \<in> set ks" if "n \<le> max_segment_collisions" for n
    by (rule has_rotated [OF assms(1) key [OF that]])
  have ex: "\<exists>n \<le> max_segment_collisions. (b, n) \<notin> set ks"
  proof (rule ccontr)
    assume "\<not> ?thesis"
    then have "Pair b ` {..max_segment_collisions} \<subseteq> set ks" by auto
    then have "card (Pair b ` {..max_segment_collisions}) \<le> card (set ks)" by (rule card_mono [rotated]) simp
    moreover have "card (Pair b ` {..max_segment_collisions}) = Suc max_segment_collisions" by (simp add: card_image inj_on_def)
    ultimately show False using assms(3) card_length [of ks] by simp
  qed
  define n where "n = (LEAST n. (b, n) \<notin> set ks)"
  have n: "(b, n) \<notin> set ks" "n \<le> max_segment_collisions" and below: "\<forall>j < n. (b, j) \<in> set ks"
    using ex LeastI_ex [of "\<lambda>n. (b, n) \<notin> set ks"] Least_le [of "\<lambda>n. (b, n) \<notin> set ks"] not_less_Least [of _ "\<lambda>n. (b, n) \<notin> set ks"]
    unfolding n_def by (blast, metis order_trans, blast)
  have free: "\<not> map_has (ad_files d) m \<or> io_stat_broken io m \<longleftrightarrow> \<not> map_has (ad_files d) m" for m using assms(4) by simp
  have "rotated_segment_path L io d = seg_name (b, n)"
  proof (cases n)
    case 0
    then show ?thesis using has [of 0] n by (simp add: rotated_segment_path_def free seg_name_def b_def)
  next
    case (Suc m)
    have "List.find (\<lambda>m. \<not> map_has (ad_files d) m) (map (\<lambda>n. b @ CHR ''.'' # nat_decimal n) [1..<Suc max_segment_collisions])
        = Some (b @ CHR ''.'' # nat_decimal n)"
      unfolding find_Some_iff
    proof (intro exI [of _ m] conjI allI impI)
      show "m < length (map (\<lambda>n. b @ CHR ''.'' # nat_decimal n) [1..<Suc max_segment_collisions])" using n(2) Suc by simp
    next
      show "\<not> map_has (ad_files d) (map (\<lambda>n. b @ CHR ''.'' # nat_decimal n) [1..<Suc max_segment_collisions] ! m)"
        using has [OF n(2)] n Suc by (simp add: seg_name_def del: upt_Suc)
    next
      show "b @ CHR ''.'' # nat_decimal n = map (\<lambda>n. b @ CHR ''.'' # nat_decimal n) [1..<Suc max_segment_collisions] ! m"
        using n(2) Suc by (simp del: upt_Suc)
    next
      fix j assume "j < m"
      then show "\<not> \<not> map_has (ad_files d) (map (\<lambda>n. b @ CHR ''.'' # nat_decimal n) [1..<Suc max_segment_collisions] ! j)"
        using has [of "Suc j"] below n(2) Suc by (simp add: seg_name_def del: upt_Suc)
    qed
    moreover have "map_has (ad_files d) b" using has [of 0] below Suc by (simp add: seg_name_def)
    ultimately show ?thesis using Suc assms(4) by (simp add: rotated_segment_path_def seg_name_def Let_def b_def del: upt_Suc)
  qed
  then show ?thesis using that n below key [OF n(2)] b_def by simp
qed

section \<open>The invariant of the writer\<close>

text \<open>What is expected of signatures and base64.\<close>

definition signatures_ok :: "audit_lib \<Rightarrow> string \<Rightarrow> string \<Rightarrow> bool" where
  "signatures_ok L key pub \<longleftrightarrow> (\<forall>s. au_unb64 L (au_b64 L s) = Some s) \<and> (\<forall>m. au_check L pub m (au_sign L key m))"

text \<open>
  A log whose directory holds the segments \<^term>\<open>ss\<close> in the files \<^term>\<open>cs\<close> named by \<^term>\<open>ks\<close>, and whose
  active file holds the lines \<^term>\<open>cur\<close>; no name is later than the clock reading \<^term>\<open>t\<close>.
\<close>

definition log_inv ::
  "audit_lib \<Rightarrow> string \<Rightarrow> string \<Rightarrow> go_time \<Rightarrow> audit_log \<Rightarrow> (string \<times> nat) list \<Rightarrow> string list \<Rightarrow> string list list \<Rightarrow> string list \<Rightarrow> bool" where
  "log_inv L key pub t l ks cs ss cur \<longleftrightarrow> names_ok L (al_dir l) ks cs \<and> (\<forall>(s, k) \<in> set ks. s \<le> au_stamp L t)
     \<and> list_all2 (\<lambda>c s. \<exists>torn. c = torn_file torn s) cs ss \<and> linked_segments L pub [] ss
     \<and> linked L pub (head_of L [] (concat ss)) 0 cur \<and> (al_needs_newline l \<longrightarrow> cur \<noteq> [])
     \<and> active_content l = torn_file (al_needs_newline l) cur \<and> (ad_active (al_dir l) = None \<longrightarrow> ss \<noteq> [] \<and> \<not> al_open l)
     \<and> al_prev_hash l = head_of L [] (concat ss @ cur) \<and> al_seq l = of_nat (length cur) \<and> al_sign_key l = key"

text \<open>All record lines of a directory, oldest first.\<close>

definition log_lines :: "audit_lib \<Rightarrow> audit_dir \<Rightarrow> string list" where
  "log_lines L d = concat (map (\<lambda>(n, c). record_lines c) (discover_segments L d))"

lemma torn_lines:
  assumes "list_all2 (\<lambda>c s. \<exists>torn. c = torn_file torn s) cs ss" and "linked_segments L pub prev ss" and "length ns = length cs"
  shows "concat (map (\<lambda>(n, c). record_lines c) (zip ns cs)) = concat ss"
  using assms
proof (induction cs ss arbitrary: ns prev rule: list_all2_induct)
  case (Cons c cs s ss)
  then obtain n ns' torn where *: "ns = n # ns'" "length ns' = length cs" "c = torn_file torn s" by (cases ns) auto
  have s: "s \<noteq> []" "linked L pub prev 0 s" "linked_segments L pub (head_of L prev s) ss" using Cons.prems(1) by auto
  show ?case using Cons.IH [OF s(3) *(2)] * scan_file(2) [OF linked_line_ok [OF s(2)], of torn] s(1) by simp
qed simp

lemma inv_verifies:
  assumes "log_inv L key pub t l ks cs ss cur"
  shows "verify_segments L (Some pub) (al_dir l) = (length (log_lines L (al_dir l)), 0)"
    and "log_lines L (al_dir l) = concat ss @ cur"
proof -
  let ?rest = "case ad_active (al_dir l) of None \<Rightarrow> [] | Some c \<Rightarrow> [(None, c)]"
  have inv: "names_ok L (al_dir l) ks cs" "length ks = length cs" "list_all2 (\<lambda>c s. \<exists>torn. c = torn_file torn s) cs ss"
    "linked_segments L pub [] ss" "linked L pub (head_of L [] (concat ss)) 0 cur" "al_needs_newline l \<longrightarrow> cur \<noteq> []"
    "active_content l = torn_file (al_needs_newline l) cur" "ad_active (al_dir l) = None \<longrightarrow> ss \<noteq> []"
    using assms by (auto simp: log_inv_def names_ok_def)
  have len: "length ks = length ss" using inv(2,3) list_all2_lengthD by force
  have empty: "cur = []" if "ad_active (al_dir l) = None"
  proof (rule ccontr)
    assume "cur \<noteq> []"
    moreover have "torn_file (al_needs_newline l) cur = []" using inv(7) that by (simp add: active_content_def)
    then have "raw_lines (torn_file (al_needs_newline l) cur) = []" by (simp add: raw_lines_def)
    ultimately show False using raw_lines_file [OF linked_line_ok [OF inv(5)] inv(6)] by simp
  qed
  have rest: "link_segments L (Some pub) f (head_of L [] (concat ss)) ?rest = (length cur, 0)"
    if "(f \<longrightarrow> head_of L [] (concat ss) = []) \<or> ss = [] \<and> f = True" for f
  proof (cases "ad_active (al_dir l)")
    case (Some c)
    then have c: "c = torn_file (al_needs_newline l) cur" using inv(7) by (simp add: active_content_def)
    have f: "f \<longrightarrow> head_of L [] (concat ss) = []" using that by auto
    show ?thesis using link_active [OF inv(5,6) f] Some c by simp
  qed (simp add: empty)
  have "link_segments L (Some pub) True [] (zip (map (Some \<circ> seg_name) ks) cs @ ?rest) = (length (concat ss) + length cur, 0)"
    by (rule link_segments_verify [OF inv(4) _ _ inv(3) rest]) (use len in auto)
  moreover have "discover_segments L (al_dir l) \<noteq> []"
    using inv(8) len discover_names [OF inv(1)] inv(2) by (cases "ad_active (al_dir l)") (auto simp: zip_eq_Nil_iff)
  moreover show lines: "log_lines L (al_dir l) = concat ss @ cur"
    unfolding log_lines_def discover_names [OF inv(1)]
    using torn_lines [OF inv(3,4), of "map (Some \<circ> seg_name) ks"] inv(2,7) empty scan_file(2) [OF linked_line_ok [OF inv(5)] inv(6)]
    by (cases "ad_active (al_dir l)") (auto simp: active_content_def)
  ultimately show "verify_segments L (Some pub) (al_dir l) = (length (log_lines L (al_dir l)), 0)"
    unfolding verify_segments_def using discover_names [OF inv(1)] by (auto split: list.splits)
qed

section \<open>Every operation keeps the invariant\<close>

lemma torn_file_full: "torn_file torn ls @ (if torn then [newline] else []) = file_of ls" if "torn \<longrightarrow> ls \<noteq> []"
  using that file_of_ends [of ls] by (auto simp: torn_file_def) (metis append_butlast_last_id)

lemma torn_file_empty: "\<forall>l \<in> set ls. line_ok l \<Longrightarrow> torn \<longrightarrow> ls \<noteq> [] \<Longrightarrow> torn_file torn ls = [] \<longleftrightarrow> ls = []"
  using raw_lines_file [of ls torn] by (auto simp: raw_lines_def torn_file_def)

lemma rotate_keeps:
  assumes "log_inv L key pub t l ks cs ss cur" and "stamps_ok L" and "length ks < max_segment_collisions"
    and "\<forall>n. \<not> io_stat_broken io n" and "t \<le> io_now io"
  obtains ks' cs' ss' cur' where "log_inv L key pub (io_now io) (maybe_rotate L io l) ks' cs' ss' cur'" and "length ks' \<le> Suc (length ks)"
proof -
  have mono: "au_stamp L t \<le> au_stamp L (io_now io)" using assms(2,5) by (simp add: stamps_ok_def)
  have stamps: "\<forall>(s, k) \<in> set ks. s \<le> au_stamp L (io_now io)" using assms(1) mono by (fastforce simp: log_inv_def)
  have same: "log_inv L key pub (io_now io) l ks cs ss cur" using assms(1) stamps by (simp add: log_inv_def)
  have closed: "log_inv L key pub (io_now io) (l\<lparr>al_open := False\<rparr>) ks cs ss cur" using same by (auto simp: log_inv_def active_content_def)
  consider (same) "maybe_rotate L io l = l" | (shut) "maybe_rotate L io l = l\<lparr>al_open := False\<rparr>"
    | (rotated) "0 < al_max_file_size l" "al_max_file_size l \<le> int (length (active_content l))" "io_rename io"
        "maybe_rotate L io l = (let l = l\<lparr>al_open := False, al_seq := 0, al_needs_newline := False,
                  al_dir := \<lparr>ad_active = None, ad_files = AList.update (rotated_segment_path L io (al_dir l)) (active_content l) (ad_files (al_dir l))\<rparr>\<rparr>
        in if io_open_new io then open_active l else l)"
    by (cases "al_max_file_size l \<le> 0 \<or> \<not> al_open l"; cases "\<not> io_stat_ok io \<or> int (length (active_content l)) < al_max_file_size l";
        cases "io_rotation_sync io"; cases "io_rename io"; cases "io_open_new io") (simp_all add: maybe_rotate_def Let_def)
  then show ?thesis
  proof cases
    case same
    then show ?thesis using that \<open>log_inv L key pub (io_now io) l ks cs ss cur\<close> by simp
  next
    case shut
    then show ?thesis using that closed by simp
  next
    case rotated
    have inv: "names_ok L (al_dir l) ks cs" "list_all2 (\<lambda>c s. \<exists>torn. c = torn_file torn s) cs ss" "linked_segments L pub [] ss"
      "linked L pub (head_of L [] (concat ss)) 0 cur" "active_content l = torn_file (al_needs_newline l) cur"
      "al_prev_hash l = head_of L [] (concat ss @ cur)" "al_sign_key l = key"
      using assms(1) by (auto simp: log_inv_def)
    have cur: "cur \<noteq> []" using rotated(1,2) inv(5) by (cases "al_needs_newline l") (auto simp: torn_file_def)
    obtain n where n: "rotated_segment_path L io (al_dir l) = seg_name (au_stamp L (io_now io), n)" "key_ok L (au_stamp L (io_now io), n)"
      "(au_stamp L (io_now io), n) \<notin> set ks" "\<forall>j < n. (au_stamp L (io_now io), j) \<in> set ks"
      using path_is_fresh [OF inv(1) assms(2,3,4)] by blast
    let ?ks = "ks @ [(au_stamp L (io_now io), n)]" and ?cs = "cs @ [active_content l]" and ?ss = "ss @ [cur]"
    have "names_ok L \<lparr>ad_active = a, ad_files = AList.update (rotated_segment_path L io (al_dir l)) (active_content l) (ad_files (al_dir l))\<rparr> ?ks ?cs" for a
      unfolding n(1) by (rule names_ok_add [OF inv(1) n(2) stamps n(3,4)])
    moreover have "list_all2 (\<lambda>c s. \<exists>torn. c = torn_file torn s) ?cs ?ss" using inv(2,5) by (auto intro: list_all2_appendI)
    moreover have "linked_segments L pub [] ?ss" using inv(3,4) cur by (simp add: linked_segments_snoc)
    ultimately have "log_inv L key pub (io_now io) (maybe_rotate L io l) ?ks ?cs ?ss []"
      unfolding log_inv_def using rotated(4) stamps inv(6,7)
      by (cases "io_open_new io") (simp_all add: Let_def open_active_def active_content_def torn_file_def)
    then show ?thesis using that by simp
  qed
qed

definition prepared_log :: "audit_lib \<Rightarrow> append_io \<Rightarrow> audit_log \<Rightarrow> audit_log" where
  "prepared_log L io l = (let l = maybe_rotate L io l in if al_open l then l else open_active l)"

text \<open>The entry one call of \<open>Append\<close> signs and writes.\<close>

definition next_record :: "audit_lib \<Rightarrow> append_io \<Rightarrow> entry \<Rightarrow> audit_log \<Rightarrow> entry" where
  "next_record L io e l = signed_entry L io (prepared_log L io l) (fit_entry L (redact_entry (al_redactor l) e))"

text \<open>A line the readers get back as it was written.\<close>

definition reads_back :: "audit_lib \<Rightarrow> entry \<Rightarrow> bool" where
  "reads_back L e \<longleftrightarrow> au_unmarshal L (au_marshal L e) = Some e \<and> line_ok (au_marshal L e)"

lemma open_active_inv: "log_inv L key pub t l ks cs ss cur \<Longrightarrow> log_inv L key pub t (open_active l) ks cs ss cur"
  by (auto simp: log_inv_def open_active_def active_content_def names_ok_def discover_segments_def)

lemma signed_entry_verifies:
  assumes "signatures_ok L key pub" and "al_sign_key l = key"
  shows "verify_entry L pub (signed_entry L io l e)" "en_seq (signed_entry L io l e) = al_seq l + 1"
    "en_prev_hash (signed_entry L io l e) = al_prev_hash l"
  using assms by (simp_all add: signed_entry_def verify_entry_def signatures_ok_def Let_def)

lemma write_keeps:
  assumes "log_inv L key pub t l ks cs ss cur" and "signatures_ok L key pub" and "al_open l"
    and "e = signed_entry L io l e'" and "reads_back L e"
  shows "log_inv L key pub t (l\<lparr>al_dir := (al_dir l)\<lparr>ad_active := Some (active_content l
      @ (if al_needs_newline l then [newline] else []) @ au_marshal L e @ [newline])\<rparr>,
      al_needs_newline := False, al_seq := al_seq l + 1, al_prev_hash := au_sha256 L (au_marshal L e)\<rparr>)
      ks cs ss (cur @ [au_marshal L e])"
proof -
  have inv: "al_sign_key l = key" "al_needs_newline l \<longrightarrow> cur \<noteq> []" "active_content l = torn_file (al_needs_newline l) cur"
    "al_prev_hash l = head_of L [] (concat ss @ cur)" "al_seq l = of_nat (length cur)"
    using assms(1) by (auto simp: log_inv_def)
  have "head_of L (head_of L [] (concat ss)) cur = head_of L [] (concat ss @ cur)" by (auto simp: head_of_def last_append)
  then have "linked L pub (head_of L [] (concat ss)) 0 (cur @ [au_marshal L e])"
    using assms signed_entry_verifies [OF assms(2) inv(1), of io e'] inv(4,5)
    by (auto simp: log_inv_def linked_append reads_back_def)
  moreover have "active_content l @ (if al_needs_newline l then [newline] else []) @ au_marshal L e @ [newline]
      = torn_file False (cur @ [au_marshal L e])"
    using torn_file_full [OF inv(2)] inv(3) by (simp add: torn_file_def)
  moreover have "head_of L [] (concat ss @ cur @ [au_marshal L e]) = au_sha256 L (au_marshal L e)"
    using head_of_simps(2) [of L "[]" "concat ss @ cur"] by simp
  ultimately show ?thesis
    using assms(1,3) inv(5) by (simp add: log_inv_def names_ok_def active_content_def del: append_assoc)
qed

text \<open>A write that reaches the file entirely or not at all, and names that can be looked up.\<close>

definition clean_io :: "append_io \<Rightarrow> bool" where
  "clean_io io \<longleftrightarrow> (io_write io = Written \<or> io_write io = WriteFailed 0) \<and> (\<forall>n. \<not> io_stat_broken io n)"

text \<open>The three ways a call of \<open>Append\<close> ends: no handle, a failed write, a written record.\<close>

lemma append_cases:
  "snd (audit_append L io e l) =
     (if \<not> al_open (maybe_rotate L io l) \<and> \<not> io_reopen io then maybe_rotate L io l
      else let p = prepared_log L io l; line = au_marshal L (next_record L io e l);
               out = (if al_needs_newline p then [newline] else []) @ line @ [newline]
           in case io_write io of
                WriteFailed n \<Rightarrow> p\<lparr>al_dir := (al_dir p)\<lparr>ad_active := Some (active_content p @ take n out)\<rparr>\<rparr>
              | Written \<Rightarrow> p\<lparr>al_dir := (al_dir p)\<lparr>ad_active := Some (active_content p @ out)\<rparr>, al_needs_newline := False,
                             al_seq := al_seq p + 1, al_prev_hash := au_sha256 L line\<rparr>)"
  unfolding audit_append_def next_record_def prepared_log_def Let_def
  by (cases "\<not> al_open (maybe_rotate L io l) \<and> \<not> io_reopen io"; cases "io_write io")
    (simp_all only: if_True if_False snd_conv write_result.case fst_conv simp_thms)

lemma append_keeps:
  assumes "log_inv L key pub t l ks cs ss cur" and "stamps_ok L" and "signatures_ok L key pub" and "length ks < max_segment_collisions"
    and "clean_io io" and "t \<le> io_now io" and "reads_back L (next_record L io e l)"
  obtains ks' cs' ss' cur' where "log_inv L key pub (io_now io) (snd (audit_append L io e l)) ks' cs' ss' cur'"
    and "length ks' \<le> Suc (length ks)"
proof -
  let ?l = "maybe_rotate L io l" and ?p = "prepared_log L io l"
  have names: "\<forall>n. \<not> io_stat_broken io n" using assms(5) by (simp add: clean_io_def)
  obtain ks' cs' ss' cur' where rot: "log_inv L key pub (io_now io) ?l ks' cs' ss' cur'" "length ks' \<le> Suc (length ks)"
    by (rule rotate_keeps [OF assms(1,2,4) names assms(6)])
  have prep: "log_inv L key pub (io_now io) ?p ks' cs' ss' cur'" and op: "al_open ?p"
    using rot(1) open_active_inv [OF rot(1)] by (auto simp: prepared_log_def Let_def open_active_def)
  have none: "log_inv L key pub (io_now io) (?p\<lparr>al_dir := (al_dir ?p)\<lparr>ad_active := Some (active_content ?p)\<rparr>\<rparr>) ks' cs' ss' cur'"
    using prep by (auto simp: log_inv_def names_ok_def active_content_def)
  have red: "al_redactor ?l = al_redactor l" by (simp add: maybe_rotate_def open_active_def Let_def)
  consider "snd (audit_append L io e l) = ?l"
    | "snd (audit_append L io e l) = ?p\<lparr>al_dir := (al_dir ?p)\<lparr>ad_active := Some (active_content ?p)\<rparr>\<rparr>"
    | "snd (audit_append L io e l) = ?p\<lparr>al_dir := (al_dir ?p)\<lparr>ad_active := Some (active_content ?p
          @ (if al_needs_newline ?p then [newline] else []) @ au_marshal L (next_record L io e l) @ [newline])\<rparr>,
          al_needs_newline := False, al_seq := al_seq ?p + 1, al_prev_hash := au_sha256 L (au_marshal L (next_record L io e l))\<rparr>"
    unfolding append_cases using assms(5)
    by (cases "\<not> al_open ?l \<and> \<not> io_reopen io"; cases "io_write io")
      (simp_all only: if_True if_False Let_def write_result.case clean_io_def take_0 append_Nil2 write_result.inject write_result.distinct simp_thms)
  then show ?thesis
    using that rot none write_keeps [OF prep assms(3) op next_record_def assms(7)] by cases simp_all
qed

text \<open>Reopening a directory gives the state of the writer back.\<close>

lemma seed_inv:
  assumes "names_ok L d ks cs" and "list_all2 (\<lambda>c s. \<exists>torn. c = torn_file torn s) cs ss" and "linked_segments L pub [] ss"
  shows "seed_from_rotated_segments L d = Inr (head_of L [] (concat ss))"
proof -
  have len: "length ks = length cs" using assms(1) by (simp add: names_ok_def)
  have "filter (\<lambda>(n, c). n \<noteq> None) (discover_segments L d) = zip (map (Some \<circ> seg_name) ks) cs"
    unfolding discover_names [OF assms(1)] by (auto simp: filter_id_conv dest!: set_zip_leftD split: option.splits)
  moreover have "rev (zip (map (Some \<circ> seg_name) ks) cs) = zip (map (Some \<circ> seg_name) (rev ks)) (rev cs)"
    using len by (simp flip: zip_rev rev_map)
  ultimately have seed: "seed_from_rotated_segments L d = (case zip (map (Some \<circ> seg_name) (rev ks)) (rev cs) of [] \<Rightarrow> Inr []
      | (n, content) # _ \<Rightarrow> (case file_bounds L content of Inl e \<Rightarrow> Inl (SeedSegment e) | Inr (_, h) \<Rightarrow> Inr h))"
    by (simp add: seed_from_rotated_segments_def)
  show ?thesis
  proof (cases ss rule: rev_cases)
    case Nil
    then show ?thesis using assms(2) by (simp add: seed)
  next
    case (snoc ss' s)
    then obtain cs' torn where cs: "cs = cs' @ [torn_file torn s]" using assms(2) by (auto simp: list_all2_append2 list_all2_Cons2)
    then obtain ks' k where ks: "ks = ks' @ [k]" using len by (cases ks rule: rev_cases) auto
    have s: "s \<noteq> []" "linked L pub (head_of L [] (concat ss')) 0 s" using assms(3) snoc by (auto simp: linked_segments_snoc)
    show ?thesis using bounds_linked [OF s(2,1), of torn] cs ks snoc s(1) by (simp add: seed head_of_def)
  qed
qed

lemma torn_newline:
  assumes "\<forall>l \<in> set ls. line_ok l" and "ls \<noteq> []"
  shows "last (torn_file torn ls) \<noteq> newline \<longleftrightarrow> torn"
proof -
  obtain ks k where ls: "ls = ks @ [k]" using assms(2) by (cases ls rule: rev_cases) auto
  then have "k \<noteq> []" "newline \<notin> set k" using assms(1) by (auto simp: line_ok_def)
  then have "k \<noteq> []" "last k \<noteq> newline" by (blast, metis last_in_set)
  then show ?thesis using ls by (auto simp: torn_file_def butlast_append)
qed

lemma open_keeps:
  assumes "names_ok L d ks cs" and "\<forall>(s, k) \<in> set ks. s \<le> au_stamp L t" and "list_all2 (\<lambda>c s. \<exists>torn. c = torn_file torn s) cs ss"
    and "linked_segments L pub [] ss" and "linked L pub (head_of L [] (concat ss)) 0 cur" and "torn \<longrightarrow> cur \<noteq> []"
    and "(case ad_active d of None \<Rightarrow> [] | Some c \<Rightarrow> c) = torn_file torn cur"
  obtains l where "audit_open L key d = Inr l" and "log_inv L key pub t l ks cs ss cur"
proof -
  have ok: "\<forall>l \<in> set cur. line_ok l" by (rule linked_line_ok [OF assms(5)])
  note scan = scan_file [OF ok assms(6)] and seed = seed_inv [OF assms(1,3,4)]
  have restore: "restore_chain L d = Inr (of_nat (length cur), head_of L [] (concat ss @ cur), torn)"
  proof (cases cur rule: rev_cases)
    case Nil
    then have "torn_file torn cur = []" "\<not> torn" using assms(6) by (auto simp: torn_file_def)
    then show ?thesis using assms(7) Nil seed scan by (auto simp: restore_chain_def split: option.splits)
  next
    case (snoc ls k)
    then obtain e where e: "au_unmarshal L k = Some e" "en_seq e = of_nat (length cur)"
      using assms(5) by (auto simp: linked_append split: option.splits)
    have "torn_file torn cur \<noteq> []" using torn_file_empty [OF ok assms(6)] snoc by simp
    then obtain c where "ad_active d = Some c" "c = torn_file torn cur" using assms(7) by (cases "ad_active d") auto
    moreover have "head_of L [] (concat ss @ cur) = au_sha256 L k"
      using head_of_simps(2) [of L "[]" "concat ss @ ls" k] snoc by simp
    moreover have "last (torn_file torn cur) \<noteq> newline \<longleftrightarrow> torn" using torn_newline [OF ok] snoc by simp
    ultimately show ?thesis using e scan snoc by (simp add: restore_chain_def)
  qed
  show ?thesis
    by (rule that) (use assms restore in \<open>auto simp: audit_open_def log_inv_def names_ok_def active_content_def\<close>)
qed

text \<open>
  A crash may take the tail of the active file; the cut is clean when it falls at the end of a record,
  with or without its newline.
\<close>

definition clean_cut :: "string \<Rightarrow> nat \<Rightarrow> bool" where
  "clean_cut c k \<longleftrightarrow> k = 0 \<or> length c \<le> k \<or> c ! (k - 1) = newline \<or> c ! k = newline"

lemma cut_file:
  assumes "\<forall>l \<in> set ls. line_ok l" and "clean_cut (file_of ls) k"
  shows "\<exists>n torn. take k (file_of ls) = torn_file torn (take n ls) \<and> (torn \<longrightarrow> take n ls \<noteq> [])"
  using assms
proof (induction ls arbitrary: k)
  case Nil
  then show ?case by (auto simp: torn_file_def)
next
  case (Cons l ls)
  have l: "newline \<notin> set l" "l \<noteq> []" using Cons.prems(1) by (auto simp: line_ok_def)
  consider "k = 0" | "0 < k" "k < length l" | "k = length l" | j where "k = Suc (length l + j)"
    by (metis add_Suc_right less_imp_Suc_add linorder_neqE_nat neq0_conv)
  then show ?case
  proof cases
    case 1
    then show ?thesis by (intro exI [of _ 0] exI [of _ False]) (simp add: torn_file_def)
  next
    case 2
    then have "file_of (l # ls) ! (k - 1) = l ! (k - 1)" "file_of (l # ls) ! k = l ! k" by (auto simp: nth_append)
    then have "file_of (l # ls) ! (k - 1) \<noteq> newline" "file_of (l # ls) ! k \<noteq> newline" using 2 l(1) by (metis less_imp_diff_less nth_mem)+
    then show ?thesis using Cons.prems(2) 2 by (simp add: clean_cut_def)
  next
    case 3
    then show ?thesis by (intro exI [of _ 1] exI [of _ True]) (simp add: torn_file_def butlast_append)
  next
    case 4
    have "clean_cut (file_of ls) j"
      using Cons.prems(2) 4 by (cases j) (auto simp: clean_cut_def nth_append)
    then obtain n torn where n: "take j (file_of ls) = torn_file torn (take n ls)" "torn \<longrightarrow> take n ls \<noteq> []"
      using Cons.IH [of j] Cons.prems(1) by (metis list.set_intros(2))
    have "take k (file_of (l # ls)) = torn_file torn (take (Suc n) (l # ls))"
      using n 4 file_of_ends [OF n(2) [rule_format]] by (auto simp: torn_file_def butlast_append)
    then show ?thesis by (intro exI [of _ "Suc n"] exI [of _ torn]) simp
  qed
qed

lemma cut_torn:
  assumes "\<forall>l \<in> set ls. line_ok l" and "torn \<longrightarrow> ls \<noteq> []" and "clean_cut (torn_file torn ls) k"
  shows "\<exists>n torn'. take k (torn_file torn ls) = torn_file torn' (take n ls) \<and> (torn' \<longrightarrow> take n ls \<noteq> [])"
proof (cases torn)
  case True
  let ?j = "min k (length (file_of ls) - 1)"
  have ne: "file_of ls \<noteq> []" "last (file_of ls) = newline" using file_of_ends [of ls] assms(2) True by auto
  then have full: "file_of ls = butlast (file_of ls) @ [newline]" by (metis append_butlast_last_id)
  have "clean_cut (file_of ls) ?j"
  proof (cases "k < length (file_of ls) - 1")
    case small: True
    then show ?thesis using assms(3) True by (auto simp: clean_cut_def torn_file_def nth_butlast)
  next
    case False
    then show ?thesis using ne by (simp add: clean_cut_def min_def last_conv_nth)
  qed
  moreover have "take k (torn_file torn ls) = take ?j (file_of ls)" using True by (simp add: torn_file_def butlast_conv_take)
  ultimately show ?thesis using cut_file [OF assms(1)] by metis
next
  case False
  then show ?thesis using cut_file [OF assms(1), of k] assms(3) by (simp add: torn_file_def)
qed

section \<open>Runs\<close>

datatype audit_op = AppendOp append_io entry | RestartOp | CrashOp nat | RedactOp "(string \<Rightarrow> string) option"

fun exec_op :: "audit_lib \<Rightarrow> string \<Rightarrow> audit_op \<Rightarrow> audit_log \<Rightarrow> audit_error + audit_log" where
  "exec_op L key (AppendOp io e) l = Inr (snd (audit_append L io e l))"
| "exec_op L key RestartOp l = audit_open L key (al_dir l)"
| "exec_op L key (CrashOp k) l = audit_open L key ((al_dir l)\<lparr>ad_active := map_option (take k) (ad_active (al_dir l))\<rparr>)"
| "exec_op L key (RedactOp r) l = Inr (l\<lparr>al_redactor := r\<rparr>)"

fun op_ok :: "audit_lib \<Rightarrow> go_time \<Rightarrow> audit_log \<Rightarrow> audit_op \<Rightarrow> bool" where
  "op_ok L t l (AppendOp io e) \<longleftrightarrow> clean_io io \<and> t \<le> io_now io \<and> reads_back L (next_record L io e l)"
| "op_ok L t l RestartOp \<longleftrightarrow> True"
| "op_ok L t l (CrashOp k) \<longleftrightarrow> clean_cut (active_content l) k"
| "op_ok L t l (RedactOp r) \<longleftrightarrow> True"

fun op_time :: "go_time \<Rightarrow> audit_op \<Rightarrow> go_time" where
  "op_time t (AppendOp io e) = io_now io"
| "op_time t RestartOp = t"
| "op_time t (CrashOp k) = t"
| "op_time t (RedactOp r) = t"

fun audit_run :: "audit_lib \<Rightarrow> string \<Rightarrow> audit_op list \<Rightarrow> audit_log \<Rightarrow> audit_error + audit_log" where
  "audit_run L key [] l = Inr l"
| "audit_run L key (p # ps) l = (case exec_op L key p l of Inl e \<Rightarrow> Inl e | Inr l' \<Rightarrow> audit_run L key ps l')"

fun run_ok :: "audit_lib \<Rightarrow> string \<Rightarrow> go_time \<Rightarrow> audit_op list \<Rightarrow> audit_log \<Rightarrow> bool" where
  "run_ok L key t [] l \<longleftrightarrow> True"
| "run_ok L key t (p # ps) l \<longleftrightarrow> op_ok L t l p
     \<and> (case exec_op L key p l of Inl e \<Rightarrow> True | Inr l' \<Rightarrow> run_ok L key (op_time t p) ps l')"

lemma reopen_keeps:
  assumes "log_inv L key pub t l ks cs ss cur" and "ad_files d = ad_files (al_dir l)"
    and "(case ad_active d of None \<Rightarrow> [] | Some c \<Rightarrow> c) = torn_file torn (take n cur)" and "torn \<longrightarrow> take n cur \<noteq> []"
  obtains l' where "audit_open L key d = Inr l'" and "log_inv L key pub t l' ks cs ss (take n cur)"
proof (rule open_keeps [OF _ _ _ _ _ assms(4,3)])
  show "names_ok L d ks cs" using assms(1,2) by (simp add: log_inv_def names_ok_def)
  show "linked L pub (head_of L [] (concat ss)) 0 (take n cur)" using assms(1) linked_take by (simp add: log_inv_def)
  show "\<forall>(s, k) \<in> set ks. s \<le> au_stamp L t" "list_all2 (\<lambda>c s. \<exists>torn. c = torn_file torn s) cs ss" "linked_segments L pub [] ss"
    using assms(1) by (simp_all add: log_inv_def)
qed (rule that)

lemma exec_keeps:
  assumes "log_inv L key pub t l ks cs ss cur" and "stamps_ok L" and "signatures_ok L key pub" and "length ks < max_segment_collisions"
    and "op_ok L t l p"
  obtains l' ks' cs' ss' cur' where "exec_op L key p l = Inr l'" and "log_inv L key pub (op_time t p) l' ks' cs' ss' cur'"
    and "length ks' \<le> Suc (length ks)"
proof (cases p)
  case (AppendOp io e)
  then have "clean_io io" "t \<le> io_now io" "reads_back L (next_record L io e l)" using assms(5) by auto
  from append_keeps [OF assms(1-4) this] show ?thesis using that AppendOp by (metis exec_op.simps(1) op_time.simps(1))
next
  case RestartOp
  have "(case ad_active (al_dir l) of None \<Rightarrow> [] | Some c \<Rightarrow> c) = torn_file (al_needs_newline l) (take (length cur) cur)"
    "al_needs_newline l \<longrightarrow> take (length cur) cur \<noteq> []"
    using assms(1) by (simp_all add: log_inv_def active_content_def)
  from reopen_keeps [OF assms(1) refl this] show ?thesis using that RestartOp by (metis exec_op.simps(2) op_time.simps(2) le_SucI order_refl)
next
  case (CrashOp k)
  let ?d = "(al_dir l)\<lparr>ad_active := map_option (take k) (ad_active (al_dir l))\<rparr>"
  have inv: "al_needs_newline l \<longrightarrow> cur \<noteq> []" "active_content l = torn_file (al_needs_newline l) cur"
    "linked L pub (head_of L [] (concat ss)) 0 cur" using assms(1) by (auto simp: log_inv_def)
  obtain n torn where cut: "take k (active_content l) = torn_file torn (take n cur)" "torn \<longrightarrow> take n cur \<noteq> []"
    using cut_torn [OF linked_line_ok [OF inv(3)] inv(1), of k] assms(5) CrashOp inv(2) by (metis op_ok.simps(3))
  have "(case ad_active ?d of None \<Rightarrow> [] | Some c \<Rightarrow> c) = torn_file torn (take n cur)"
    using cut(1) by (cases "ad_active (al_dir l)") (auto simp: active_content_def)
  moreover have "ad_files ?d = ad_files (al_dir l)" by simp
  ultimately show ?thesis
    using reopen_keeps [OF assms(1) _ _ cut(2), of ?d] that CrashOp by (metis exec_op.simps(3) op_time.simps(3) le_SucI order_refl)
next
  case (RedactOp r)
  then have "log_inv L key pub t (l\<lparr>al_redactor := r\<rparr>) ks cs ss cur" using assms(1) by (simp add: log_inv_def active_content_def)
  then show ?thesis using that RedactOp by simp
qed

lemma run_keeps:
  assumes "log_inv L key pub t l ks cs ss cur" and "stamps_ok L" and "signatures_ok L key pub"
    and "length ks + length ps \<le> max_segment_collisions" and "run_ok L key t ps l"
  shows "\<exists>l' t' ks' cs' ss' cur'. audit_run L key ps l = Inr l' \<and> log_inv L key pub t' l' ks' cs' ss' cur'"
  using assms
proof (induction ps arbitrary: t l ks cs ss cur)
  case (Cons p ps)
  then have "length ks < max_segment_collisions" "op_ok L t l p" by auto
  then obtain l' ks' cs' ss' cur' where step: "exec_op L key p l = Inr l'" "log_inv L key pub (op_time t p) l' ks' cs' ss' cur'"
    "length ks' \<le> Suc (length ks)" by (rule exec_keeps [OF Cons.prems(1-3)])
  then show ?case using Cons.IH [OF step(2) Cons.prems(2,3)] Cons.prems(4,5) by simp
qed (simp, blast)

definition no_dir :: audit_dir where
  "no_dir = \<lparr>ad_active = None, ad_files = []\<rparr>"

lemma open_empty:
  obtains l where "audit_open L key no_dir = Inr l" and "log_inv L key pub t l [] [] [] []"
proof (rule open_keeps [of L no_dir "[]" "[]" t "[]" pub "[]" False key])
  show "names_ok L no_dir [] []" by (simp add: names_ok_def no_dir_def)
qed (use that in \<open>auto simp: no_dir_def torn_file_def\<close>)

section \<open>Heads determine histories\<close>

text \<open>The directories the verifier accepts, as conditions on their lines, for the verifier without a key.\<close>

fun chained :: "audit_lib \<Rightarrow> string \<Rightarrow> string list \<Rightarrow> bool" where
  "chained L prev [] \<longleftrightarrow> True"
| "chained L prev (l # ls) \<longleftrightarrow>
     (case au_unmarshal L l of None \<Rightarrow> False | Some e \<Rightarrow> en_prev_hash e = prev) \<and> chained L (au_sha256 L l) ls"

lemma chained_append: "chained L prev (ls @ ks) \<longleftrightarrow> chained L prev ls \<and> chained L (head_of L prev ls) ks"
  by (induction ls arbitrary: prev) (auto simp: head_of_def)

lemma accepted_lines:
  "vr_errs (verify_lines L pub (Some (s, prev)) ls) = 0 \<Longrightarrow> chained L prev ls"
  by (induction ls arbitrary: s prev) (auto simp: Let_def split: option.splits)

lemma accepted_file:
  assumes "vr_errs (verify_file L pub content) = 0" and "file_bounds L content = Inr (first, last_hash)"
  shows "chained L first (record_lines content) \<and> last_hash = head_of L prev (record_lines content)"
proof -
  from assms(2) obtain l ls e where l: "record_lines content = l # ls" "au_unmarshal L l = Some e" "first = en_prev_hash e"
    "last_hash = au_sha256 L (last (l # ls))"
    by (auto simp: file_bounds_def split: list.splits option.splits if_splits)
  have "vr_errs (verify_lines L pub None (l # ls)) = 0"
    using assms(1) l(1) by (auto simp: verify_file_def Let_def split: if_splits)
  then have "vr_errs (verify_lines L pub (Some (en_seq e, au_sha256 L l)) ls) = 0" using l(2) by (auto simp: Let_def)
  then show ?thesis using accepted_lines l by (simp add: head_of_def)
qed

lemma accepted_segments:
  assumes "snd (link_segments L pub first prev segs) = 0" and "first \<longrightarrow> prev = []"
    and "\<forall>(n, c) \<in> set segs. file_bounds L c = Inl EmptySegment \<longrightarrow> record_lines c = []"
  shows "chained L prev (concat (map (\<lambda>(n, c). record_lines c) segs))"
  using assms
proof (induction segs arbitrary: first prev)
  case (Cons nc segs)
  obtain n c where nc: "nc = (n, c)" by (cases nc)
  show ?case
  proof (cases "file_bounds L c")
    case (Inl e)
    then have "e = EmptySegment" "snd (link_segments L pub False prev segs) = 0"
      using Cons.prems(1) nc by (auto simp: Let_def split: prod.splits if_splits)
    then show ?thesis using Cons.IH [of False prev] Cons.prems(3) nc Inl by auto
  next
    case (Inr b)
    obtain f h where b: "b = (f, h)" by (cases b)
    have ok: "vr_errs (verify_file L pub c) = 0" "snd (link_segments L pub False h segs) = 0" "f = prev"
      using Cons.prems(1,2) nc Inr b by (auto simp: Let_def split: prod.splits if_splits)
    from accepted_file [OF ok(1) Inr [unfolded b], of prev] ok(3)
    have "chained L prev (record_lines c)" "h = head_of L prev (record_lines c)" by auto
    then show ?thesis using Cons.IH [OF ok(2)] Cons.prems(3) nc by (simp add: chained_append)
  qed
qed simp

lemma accepted_chained:
  assumes "snd (verify_segments L pub d) = 0"
  shows "chained L [] (log_lines L d)"
proof -
  have "snd (link_segments L pub True [] (discover_segments L d)) = 0"
    using assms by (auto simp: verify_segments_def split: list.splits)
  moreover have "\<forall>(n, c) \<in> set (discover_segments L d). file_bounds L c = Inl EmptySegment \<longrightarrow> record_lines c = []"
    by (auto simp: file_bounds_def split: list.splits option.splits if_splits)
  ultimately show ?thesis unfolding log_lines_def by (intro accepted_segments) auto
qed

text \<open>No two of the given lines have the same digest, and no digest is empty.\<close>

definition no_collision :: "audit_lib \<Rightarrow> string set \<Rightarrow> bool" where
  "no_collision L A \<longleftrightarrow> inj_on (au_sha256 L) A \<and> (\<forall>l \<in> A. au_sha256 L l \<noteq> [])"

lemma chained_unique:
  assumes "chained L [] ls" and "chained L [] ks" and "head_of L [] ls = head_of L [] ks" and "no_collision L (set ls \<union> set ks)"
  shows "ls = ks"
  using assms
proof (induction ls arbitrary: ks rule: rev_induct)
  case Nil
  then show ?case by (cases ks rule: rev_cases) (auto simp: no_collision_def)
next
  case (snoc l ls)
  then obtain k ks' where ks: "ks = ks' @ [k]"
    by (cases ks rule: rev_cases) (auto simp: no_collision_def)
  have "au_sha256 L l = au_sha256 L k" using snoc.prems(3) unfolding ks head_of_simps(2) .
  then have "l = k" using snoc.prems(4) ks unfolding no_collision_def by (metis UnI1 UnI2 in_set_conv_decomp inj_onD)
  moreover have "ls = ks'"
  proof (rule snoc.IH)
    show "head_of L [] ls = head_of L [] ks'"
      using snoc.prems(1,2) ks \<open>l = k\<close> by (auto simp: chained_append split: option.splits)
    show "no_collision L (set ls \<union> set ks')"
      using snoc.prems(4) ks by (auto simp: no_collision_def intro: inj_on_subset)
  qed (use snoc.prems ks in \<open>auto simp: chained_append\<close>)
  ultimately show ?case using ks by simp
qed

section \<open>An example\<close>

text \<open>
  A library small enough to compute with: a line lists the fields of a record between braces, the digest of a
  line is the line behind a mark, a signature is the key itself and a timestamp is a run of zeros. The log
  rotates at ten bytes; it is restarted after the second record, and a crash takes the last newline.
\<close>

definition demo_marshal :: "entry \<Rightarrow> string" where
  "demo_marshal e = ''{'' @ nat_decimal (unat (en_seq e)) @ '' '' @ en_prev_hash e @ '' '' @ en_caller e @ '' '' @ en_sig e @ ''}''"

definition demo_record :: "nat \<Rightarrow> string \<Rightarrow> string \<Rightarrow> entry" where
  "demo_record n prev caller = empty_entry\<lparr>en_time := Some 1, en_caller := caller, en_seq := of_nat n, en_prev_hash := prev, en_sig := ''k''\<rparr>"

definition demo_first :: entry where "demo_first = demo_record 1 [] ''ann''"
definition demo_second :: entry where "demo_second = demo_record 1 (CHR ''#'' # demo_marshal demo_first) ''bob''"
definition demo_third :: entry where "demo_third = demo_record 2 (CHR ''#'' # demo_marshal demo_second) ''ann''"

definition demo_lib :: audit_lib where
  "demo_lib = \<lparr>au_marshal = demo_marshal,
     au_unmarshal = (\<lambda>s. List.find (\<lambda>e. demo_marshal e = s) [demo_first, demo_second, demo_third]),
     au_sha256 = (\<lambda>s. CHR ''#'' # s), au_sign = (\<lambda>k m. k), au_check = (\<lambda>p m s. s = p),
     au_b64 = (\<lambda>s. s), au_unb64 = Some, au_stamp = (\<lambda>t. replicate (nat t) CHR ''0''),
     au_is_stamp = list_all (\<lambda>c. c = CHR ''0'')\<rparr>"

definition demo_io :: append_io where
  "demo_io = \<lparr>io_now = 1, io_stat_ok = True, io_stat_broken = (\<lambda>_. False), io_rotation_sync = True, io_rename = True,
     io_open_new = True, io_reopen = True, io_write = Written, io_sync = True\<rparr>"

definition demo_dir :: "string list \<Rightarrow> string \<Rightarrow> audit_dir" where
  "demo_dir rotated active = \<lparr>ad_active = Some active, ad_files = map (\<lambda>c. (''0'', c)) rotated\<rparr>"

definition demo_log :: "audit_dir \<Rightarrow> int \<Rightarrow> string \<Rightarrow> 64 word \<Rightarrow> bool \<Rightarrow> audit_log" where
  "demo_log d limit prev n torn = \<lparr>al_dir = d, al_open = True, al_sign_key = ''k'', al_redactor = None, al_prev_hash = prev,
     al_seq = n, al_max_file_size = limit, al_needs_newline = torn\<rparr>"

definition demo_ops :: "audit_op list" where
  "demo_ops = [AppendOp demo_io (empty_entry\<lparr>en_caller := ''ann''\<rparr>), AppendOp demo_io (empty_entry\<lparr>en_caller := ''bob''\<rparr>),
     CrashOp 21, AppendOp demo_io (empty_entry\<lparr>en_caller := ''ann''\<rparr>), RestartOp]"

lemma demo_lines: "demo_marshal demo_first = ''{1  ann k}''" "demo_marshal demo_second = ''{1 #{1  ann k} bob k}''"
  "demo_marshal demo_third = ''{2 #{1 #{1  ann k} bob k} ann k}''"
  by (simp_all add: demo_marshal_def demo_first_def demo_second_def demo_third_def demo_record_def nat_decimal.simps digit_char_def char_of_def bit_Suc_0_iff empty_entry_def)

lemma demo_signatures: "signatures_ok demo_lib ''k'' ''k''"
  by (simp add: signatures_ok_def demo_lib_def)

lemma replicate_prefix_le: "m \<le> n \<Longrightarrow> replicate m c \<le> replicate n (c :: char)"
proof (induction m arbitrary: n)
  case (Suc m)
  then show ?case by (cases n) simp_all
qed simp

lemma demo_stamps: "stamps_ok demo_lib"
  by (auto simp: stamps_ok_def demo_lib_def list_all_iff intro!: replicate_prefix_le)

lemma fit_small: "length (au_marshal L e) \<le> entry_budget \<Longrightarrow> fit_entry L e = e"
proof -
  assume "length (au_marshal L e) \<le> entry_budget"
  moreover have "4 * (length free_fields + length metadata_string_fields) = Suc 71"
    by (simp add: free_fields_def metadata_string_fields_def)
  ultimately show ?thesis unfolding fit_entry_def by (simp only: fit_loop.simps if_True)
qed

lemma demo_start: "audit_open demo_lib ''k'' no_dir = Inr (demo_log (demo_dir [] []) 104857600 [] 0 False)"
  by (simp add: audit_open_def restore_chain_def no_dir_def seed_from_rotated_segments_def discover_segments_def demo_log_def demo_dir_def)

lemmas demo_simps = demo_log_def demo_dir_def demo_io_def demo_record_def

lemma demo_signed:
  "signed_entry demo_lib demo_io (demo_log d limit prev n torn) (empty_entry\<lparr>en_caller := c\<rparr>)
     = empty_entry\<lparr>en_time := Some 1, en_caller := c, en_seq := n + 1, en_prev_hash := prev, en_sig := ''k''\<rparr>"
  by (simp add: signed_entry_def demo_log_def demo_lib_def demo_io_def empty_entry_def)

lemma demo_fit: "fit_entry demo_lib (empty_entry\<lparr>en_caller := c\<rparr>) = empty_entry\<lparr>en_caller := c\<rparr>" if "length c < 100"
  by (rule fit_small) (use that in \<open>simp add: demo_lib_def demo_marshal_def empty_entry_def nat_decimal.simps\<close>)

lemma demo_rotations:
  "maybe_rotate demo_lib demo_io (demo_log (demo_dir [] []) 10 [] 0 False) = demo_log (demo_dir [] []) 10 [] 0 False"
  "maybe_rotate demo_lib demo_io (demo_log (demo_dir [] (f @ [newline])) 10 p 1 False)
     = (if length f < 9 then demo_log (demo_dir [] (f @ [newline])) 10 p 1 False else demo_log (demo_dir [f @ [newline]] []) 10 p 0 False)"
  by (simp_all add: maybe_rotate_def demo_log_def demo_dir_def active_content_def demo_io_def rotated_segment_path_def demo_lib_def open_active_def)

lemma demo_no_rotation:
  "length c < 104857600 \<Longrightarrow>
     maybe_rotate demo_lib demo_io (demo_log (demo_dir [f] c) 104857600 p 1 torn) = demo_log (demo_dir [f] c) 104857600 p 1 torn"
  by (simp add: maybe_rotate_def demo_log_def demo_dir_def active_content_def demo_io_def)

abbreviation demo_ann :: string where "demo_ann \<equiv> ''{1  ann k}'' @ [newline]"
abbreviation demo_bob :: string where "demo_bob \<equiv> ''{1 #{1  ann k} bob k}''"
abbreviation demo_last :: string where "demo_last \<equiv> ''{2 #{1 #{1  ann k} bob k} ann k}''"

lemma demo_append:
  assumes "maybe_rotate demo_lib demo_io l = demo_log d limit prev n torn" and "al_redactor l = None" and "length c < 100"
    and "ad_active d = Some content"
  shows "exec_op demo_lib key (AppendOp demo_io (empty_entry\<lparr>en_caller := c\<rparr>)) l
      = Inr (demo_log (d\<lparr>ad_active := Some (content @ (if torn then [newline] else [])
             @ demo_marshal (demo_record (unat (n + 1)) prev c) @ [newline])\<rparr>) limit
           (CHR ''#'' # demo_marshal (demo_record (unat (n + 1)) prev c)) (n + 1) False)"
    and "next_record demo_lib demo_io (empty_entry\<lparr>en_caller := c\<rparr>) l = demo_record (unat (n + 1)) prev c"
proof -
  have p: "prepared_log demo_lib demo_io l = demo_log d limit prev n torn"
    using assms(1) by (simp add: prepared_log_def demo_log_def)
  show rec: "next_record demo_lib demo_io (empty_entry\<lparr>en_caller := c\<rparr>) l = demo_record (unat (n + 1)) prev c"
    using assms(2,3) by (simp add: next_record_def p redact_entry_def demo_fit demo_signed demo_record_def)
  have op: "al_open (maybe_rotate demo_lib demo_io l)" using assms(1) by (simp add: demo_log_def)
  show "exec_op demo_lib key (AppendOp demo_io (empty_entry\<lparr>en_caller := c\<rparr>)) l
      = Inr (demo_log (d\<lparr>ad_active := Some (content @ (if torn then [newline] else [])
             @ demo_marshal (demo_record (unat (n + 1)) prev c) @ [newline])\<rparr>) limit
           (CHR ''#'' # demo_marshal (demo_record (unat (n + 1)) prev c)) (n + 1) False)"
    unfolding exec_op.simps append_cases rec p using op assms(4) by (simp add: demo_io_def demo_log_def active_content_def demo_lib_def Let_def)
qed

lemma demo_step1:
  "exec_op demo_lib ''k'' (AppendOp demo_io (empty_entry\<lparr>en_caller := ''ann''\<rparr>)) (demo_log (demo_dir [] []) 10 [] 0 False)
     = Inr (demo_log (demo_dir [] demo_ann) 10 (CHR ''#'' # butlast demo_ann) 1 False)"
  "next_record demo_lib demo_io (empty_entry\<lparr>en_caller := ''ann''\<rparr>) (demo_log (demo_dir [] []) 10 [] 0 False) = demo_first"
  using demo_append [OF demo_rotations(1), where c = "''ann''" and content = "[]"] demo_lines(1)
  by (simp_all add: demo_log_def demo_dir_def demo_first_def)

lemma demo_step2:
  "exec_op demo_lib ''k'' (AppendOp demo_io (empty_entry\<lparr>en_caller := ''bob''\<rparr>)) (demo_log (demo_dir [] demo_ann) 10 (CHR ''#'' # butlast demo_ann) 1 False)
     = Inr (demo_log (demo_dir [demo_ann] (demo_bob @ [newline])) 10 (CHR ''#'' # demo_bob) 1 False)"
  "next_record demo_lib demo_io (empty_entry\<lparr>en_caller := ''bob''\<rparr>) (demo_log (demo_dir [] demo_ann) 10 (CHR ''#'' # butlast demo_ann) 1 False) = demo_second"
proof -
  have rot: "maybe_rotate demo_lib demo_io (demo_log (demo_dir [] demo_ann) 10 (CHR ''#'' # butlast demo_ann) 1 False)
      = demo_log (demo_dir [demo_ann] []) 10 (CHR ''#'' # butlast demo_ann) 0 False"
    using demo_rotations(2) [of "''{1  ann k}''" "''#{1  ann k}''"] by simp
  note step = demo_append [OF rot, where c = "''bob''" and content = "[]"]
  show "exec_op demo_lib ''k'' (AppendOp demo_io (empty_entry\<lparr>en_caller := ''bob''\<rparr>)) (demo_log (demo_dir [] demo_ann) 10 (CHR ''#'' # butlast demo_ann) 1 False)
     = Inr (demo_log (demo_dir [demo_ann] (demo_bob @ [newline])) 10 (CHR ''#'' # demo_bob) 1 False)"
    "next_record demo_lib demo_io (empty_entry\<lparr>en_caller := ''bob''\<rparr>) (demo_log (demo_dir [] demo_ann) 10 (CHR ''#'' # butlast demo_ann) 1 False) = demo_second"
    using step demo_lines(2) by (simp_all add: demo_log_def demo_dir_def demo_second_def demo_lines(1))
qed

lemma demo_reads_back: "reads_back demo_lib demo_first" "reads_back demo_lib demo_second" "reads_back demo_lib demo_third"
  unfolding reads_back_def line_ok_def
  by (simp_all add: demo_lib_def demo_lines only_space_def trim_space_def trim_left_id trim_right_id space_suffix_width_def
    char_of_def bit_Suc_0_iff)

lemma demo_open:
  assumes "line_ok l" and "demo_marshal e = l" and "au_unmarshal demo_lib l = Some e"
  shows "audit_open demo_lib ''k'' (demo_dir [r] (l @ (if torn then [] else [newline])))
      = Inr (demo_log (demo_dir [r] (l @ (if torn then [] else [newline]))) 104857600 (CHR ''#'' # l) (en_seq e) torn)"
proof -
  have "l @ (if torn then [] else [newline]) = torn_file torn [l]" by (simp add: torn_file_def butlast_append)
  moreover have "last (torn_file torn [l]) \<noteq> newline \<longleftrightarrow> torn" using torn_newline [of "[l]"] assms(1) by simp
  ultimately show ?thesis
    using scan_file [of "[l]" torn] assms by (simp add: audit_open_def restore_chain_def demo_dir_def demo_log_def demo_lib_def)
qed

lemma demo_unmarshal: "au_unmarshal demo_lib demo_bob = Some demo_second" "au_unmarshal demo_lib demo_last = Some demo_third"
  using demo_reads_back demo_lines by (simp_all add: reads_back_def demo_lib_def)

lemma demo_line_ok: "line_ok demo_bob" "line_ok demo_last"
  using demo_reads_back demo_lines by (simp_all add: reads_back_def demo_lib_def)

lemma demo_step3:
  "exec_op demo_lib ''k'' (CrashOp 21) (demo_log (demo_dir [demo_ann] (demo_bob @ [newline])) 10 p 1 False)
     = Inr (demo_log (demo_dir [demo_ann] demo_bob) 104857600 (CHR ''#'' # demo_bob) 1 True)"
  using demo_open [OF demo_line_ok(1) demo_lines(2) demo_unmarshal(1), of demo_ann True]
  by (simp add: demo_dir_def demo_log_def demo_second_def demo_record_def empty_entry_def)

lemma demo_step4:
  "exec_op demo_lib ''k'' (AppendOp demo_io (empty_entry\<lparr>en_caller := ''ann''\<rparr>)) (demo_log (demo_dir [demo_ann] demo_bob) 104857600 (CHR ''#'' # demo_bob) 1 True)
     = Inr (demo_log (demo_dir [demo_ann] (file_of [demo_bob, demo_last])) 104857600 (CHR ''#'' # demo_last) 2 False)"
  "next_record demo_lib demo_io (empty_entry\<lparr>en_caller := ''ann''\<rparr>) (demo_log (demo_dir [demo_ann] demo_bob) 104857600 (CHR ''#'' # demo_bob) 1 True) = demo_third"
proof -
  note step = demo_append [OF demo_no_rotation [of demo_bob demo_ann "CHR ''#'' # demo_bob" True], where c = "''ann''" and content = demo_bob]
  show "exec_op demo_lib ''k'' (AppendOp demo_io (empty_entry\<lparr>en_caller := ''ann''\<rparr>)) (demo_log (demo_dir [demo_ann] demo_bob) 104857600 (CHR ''#'' # demo_bob) 1 True)
     = Inr (demo_log (demo_dir [demo_ann] (file_of [demo_bob, demo_last])) 104857600 (CHR ''#'' # demo_last) 2 False)"
    "next_record demo_lib demo_io (empty_entry\<lparr>en_caller := ''ann''\<rparr>) (demo_log (demo_dir [demo_ann] demo_bob) 104857600 (CHR ''#'' # demo_bob) 1 True) = demo_third"
    using step demo_lines(3) by (simp_all add: demo_log_def demo_dir_def demo_third_def demo_lines(2))
qed

lemma demo_run_ok: "run_ok demo_lib ''k'' 0 demo_ops (demo_log (demo_dir [] []) 10 [] 0 False)"
proof -
  have clean: "clean_io demo_io" "io_now demo_io = 1" by (simp_all add: clean_io_def demo_io_def)
  have cut: "clean_cut (active_content (demo_log (demo_dir [demo_ann] (demo_bob @ [newline])) 10 p 1 False)) 21" for p
    by (simp add: clean_cut_def active_content_def demo_log_def demo_dir_def)
  note step = demo_step1 demo_step2 demo_step3 demo_step4
  show ?thesis
    unfolding demo_ops_def run_ok.simps op_ok.simps op_time.simps step clean(2) sum.case
    using clean(1) demo_reads_back cut by (simp split: sum.splits)
qed

lemma demo_discover: "discover_segments demo_lib (demo_dir [f] c) = [(Some ''0'', f), (None, c)]"
  by (simp add: discover_segments_def demo_dir_def is_rotated_segment_def index_dot_def demo_lib_def)

lemma demo_linked: "linked demo_lib ''k'' [] 0 [butlast demo_ann]" "linked demo_lib ''k'' (CHR ''#'' # butlast demo_ann) 0 [demo_bob]"
proof -
  have "line_ok (butlast demo_ann)" "au_unmarshal demo_lib (butlast demo_ann) = Some demo_first"
    using demo_reads_back(1) demo_lines(1) by (simp_all add: reads_back_def demo_lib_def)
  then show "linked demo_lib ''k'' [] 0 [butlast demo_ann]" "linked demo_lib ''k'' (CHR ''#'' # butlast demo_ann) 0 [demo_bob]"
    using demo_line_ok(1) demo_unmarshal(1) demo_lines(1)
    by (simp_all add: demo_first_def demo_second_def demo_record_def empty_entry_def verify_entry_def demo_lib_def)
qed

lemma demo_verified:
  "verify_segments demo_lib (Some ''k'') (demo_dir [demo_ann] (torn_file torn [demo_bob])) = (2, 0)"
  "log_lines demo_lib (demo_dir [demo_ann] (torn_file torn [demo_bob])) = [butlast demo_ann, demo_bob]"
proof -
  have ann: "demo_ann = torn_file False [butlast demo_ann]" by (simp add: torn_file_def)
  have head: "head_of demo_lib [] [butlast demo_ann] = CHR ''#'' # butlast demo_ann" by (simp add: head_of_def demo_lib_def)
  have "link_segments demo_lib (Some ''k'') False (CHR ''#'' # butlast demo_ann) [(None, torn_file torn [demo_bob])] = (1, 0)"
    using link_active [OF demo_linked(2), of torn False] by simp
  then show "verify_segments demo_lib (Some ''k'') (demo_dir [demo_ann] (torn_file torn [demo_bob])) = (2, 0)"
    using bounds_linked [OF demo_linked(1), of False] verify_file_linked [OF demo_linked(1), of False] head
    unfolding verify_segments_def demo_discover ann [symmetric] by (simp del: butlast_append)
  show "log_lines demo_lib (demo_dir [demo_ann] (torn_file torn [demo_bob])) = [butlast demo_ann, demo_bob]"
    using scan_file(2) [OF linked_line_ok [OF demo_linked(1)], of False] scan_file(2) [OF linked_line_ok [OF demo_linked(2)], of torn]
    unfolding log_lines_def demo_discover ann [symmetric] by simp
qed

section \<open>Theorems\<close>

text \<open>
  C13: Whatever sequence of at most ten thousand appends, restarts, crashes at record boundaries and redactor changes
  a log goes through, opening it again never fails and the verifier accepts the whole directory: it counts every
  line of every segment and reports no error. The log starts in an empty directory with any size limit and
  redactor; failed renames, failed opens and failed syncs may happen anywhere. The clock never steps back, a
  write reaches the file whole or not at all, and the lines are ones the readers get back: after a write that
  reached the file in part the next record is glued to the fragment and the verifier fails.
\<close>

theorem audit_verifies:
  assumes "signatures_ok L key pub" and "stamps_ok L" and "audit_open L key no_dir = Inr l"
    and "run_ok L key t ps (l\<lparr>al_max_file_size := limit, al_redactor := r\<rparr>)" and "length ps \<le> max_segment_collisions"
  shows "\<exists>l'. audit_run L key ps (l\<lparr>al_max_file_size := limit, al_redactor := r\<rparr>) = Inr l'
           \<and> verify_segments L (Some pub) (al_dir l') = (length (log_lines L (al_dir l')), 0)"
proof -
  have "log_inv L key pub t l [] [] [] []" using open_empty [of L key pub t] assms(3) by auto
  then have "log_inv L key pub t (l\<lparr>al_max_file_size := limit, al_redactor := r\<rparr>) [] [] [] []"
    by (simp add: log_inv_def active_content_def)
  from run_keeps [OF this assms(2,1) _ assms(4)] assms(5) show ?thesis using inv_verifies(1) by fastforce
qed

theorem audit_verifies_witness:
  "\<exists>l'. audit_run demo_lib ''k'' demo_ops (demo_log (demo_dir [] []) 10 [] 0 False) = Inr l'
      \<and> verify_segments demo_lib (Some ''k'') (al_dir l') = (length (log_lines demo_lib (al_dir l')), 0)"
  using audit_verifies [OF demo_signatures demo_stamps demo_start, where t = 0 and ps = demo_ops and limit = 10 and r = None] demo_run_ok
  by (simp add: demo_log_def demo_ops_def)

text \<open>
  C27: The hash of the newest line determines the whole history. When the verifier reports no error for two
  directories, with or without a key, and their last lines have the same digest, they hold the same lines in
  the same order, however these are cut into segments; the digest must not collide on these lines and must
  not be empty.
\<close>

theorem head_determines_history:
  assumes "snd (verify_segments L pub d) = 0" and "snd (verify_segments L pub' d') = 0"
    and "head_of L [] (log_lines L d) = head_of L [] (log_lines L d')" and "no_collision L (set (log_lines L d) \<union> set (log_lines L d'))"
  shows "log_lines L d = log_lines L d'"
  by (rule chained_unique [OF accepted_chained [OF assms(1)] accepted_chained [OF assms(2)] assms(3,4)])

theorem head_determines_history_witness:
  "log_lines demo_lib (demo_dir [demo_ann] (torn_file True [demo_bob])) = log_lines demo_lib (demo_dir [demo_ann] (torn_file False [demo_bob]))"
proof (rule head_determines_history)
  show "snd (verify_segments demo_lib (Some ''k'') (demo_dir [demo_ann] (torn_file True [demo_bob]))) = 0"
    "snd (verify_segments demo_lib (Some ''k'') (demo_dir [demo_ann] (torn_file False [demo_bob]))) = 0"
    unfolding demo_verified(1) by simp_all
  show "no_collision demo_lib (set (log_lines demo_lib (demo_dir [demo_ann] (torn_file True [demo_bob])))
      \<union> set (log_lines demo_lib (demo_dir [demo_ann] (torn_file False [demo_bob]))))"
    unfolding demo_verified(2) by (simp add: no_collision_def demo_lib_def)
qed (unfold demo_verified(2), rule refl)

text \<open>
  A write that fails after some of its bytes have reached the file is not repaired. \<open>Append\<close> leaves
  \<open>needsNewline\<close> unset, so the next record is written behind the fragment on the same line: \<open>Append\<close> reports
  success and the file has a line that is the fragment and the record run together.
\<close>

theorem short_write_glues_next_record:
  assumes "al_open l" and "\<not> al_needs_newline l" and "active_content l = file_of cur" and "\<forall>x \<in> set cur. line_ok x"
    and "io_write io = WriteFailed n" and "frag = take n (au_marshal L (next_record L io e l))" and "n \<le> length (au_marshal L (next_record L io e l))"
    and "l' = snd (audit_append L io e l)" and "io_write io' = Written" and "io_sync io'"
    and "rec = au_marshal L (next_record L io' e' l')" and "line_ok (frag @ rec)"
    and "int (length (active_content l) + n) < al_max_file_size l"
  shows "fst (audit_append L io e l) = Some WriteError \<and> fst (audit_append L io' e' l') = None
       \<and> record_lines (active_content (snd (audit_append L io' e' l'))) = cur @ [frag @ rec]"
proof -
  have same: "maybe_rotate L io l = l" using assms(13) by (simp add: maybe_rotate_def)
  have l': "l' = l\<lparr>al_dir := (al_dir l)\<lparr>ad_active := Some (active_content l @ frag)\<rparr>\<rparr>"
    unfolding assms(8) append_cases using assms(1,2,5,6,7) same by (simp add: prepared_log_def)
  have same': "maybe_rotate L io' l' = l'" using assms(6,7,13) by (simp add: maybe_rotate_def l' active_content_def)
  have "active_content (snd (audit_append L io' e' l')) = torn_file False (cur @ [frag @ rec])"
    unfolding append_cases using assms(1,2,3,9,11) same' l' by (simp add: prepared_log_def active_content_def torn_file_def Let_def)
  moreover have "record_lines (torn_file False (cur @ [frag @ rec])) = cur @ [frag @ rec]"
    by (rule scan_file(2)) (use assms(4,12) in auto)
  moreover have "fst (audit_append L io e l) = Some WriteError" "fst (audit_append L io' e' l') = None"
    using assms(1,5,9,10) same same' l' by (simp_all add: audit_append_def Let_def)
  ultimately show ?thesis by simp
qed

theorem short_write_glues_next_record_witness:
  "let io = demo_io\<lparr>io_write := WriteFailed 4\<rparr>; l = demo_log (demo_dir [] []) 1000 [] 0 False;
       l' = snd (audit_append demo_lib io (empty_entry\<lparr>en_caller := ''ann''\<rparr>) l)
   in fst (audit_append demo_lib io (empty_entry\<lparr>en_caller := ''ann''\<rparr>) l) = Some WriteError
      \<and> fst (audit_append demo_lib demo_io (empty_entry\<lparr>en_caller := ''ann''\<rparr>) l') = None
      \<and> record_lines (active_content (snd (audit_append demo_lib demo_io (empty_entry\<lparr>en_caller := ''ann''\<rparr>) l'))) = [''{1  {1  ann k}'']"
proof -
  let ?io = "demo_io\<lparr>io_write := WriteFailed 4\<rparr>" and ?e = "empty_entry\<lparr>en_caller := ''ann''\<rparr>"
    and ?l = "demo_log (demo_dir [] []) 1000 [] 0 False" and ?l' = "demo_log (demo_dir [] ''{1  '') 1000 [] 0 False"
  have rot: "maybe_rotate demo_lib ?io ?l = ?l" "maybe_rotate demo_lib demo_io ?l' = ?l'"
    by (simp_all add: maybe_rotate_def demo_log_def demo_dir_def active_content_def)
  have prep: "prepared_log demo_lib ?io ?l = ?l" "prepared_log demo_lib demo_io ?l' = ?l'"
    by (simp_all add: prepared_log_def rot) (simp_all add: demo_log_def)
  have red: "al_redactor ?l = None" "al_redactor ?l' = None" "al_open ?l" by (simp_all add: demo_log_def)
  have rec: "next_record demo_lib ?io ?e ?l = demo_first" "next_record demo_lib demo_io ?e ?l' = demo_first"
    unfolding next_record_def prep red redact_entry_def option.case
    by (simp_all add: demo_fit demo_signed demo_first_def demo_record_def) (simp_all add: signed_entry_def demo_log_def demo_lib_def demo_io_def empty_entry_def)
  have l': "?l' = snd (audit_append demo_lib ?io ?e ?l)"
    unfolding append_cases rot prep rec using red(3)
    by (simp add: demo_lib_def demo_lines) (simp add: demo_log_def demo_dir_def active_content_def)
  have ok: "line_ok (''{1  '' @ ''{1  ann k}'')"
    unfolding line_ok_def by (simp add: only_space_def trim_space_def trim_left_id trim_right_id space_suffix_width_def
      char_of_def bit_Suc_0_iff)
  have m: "au_marshal demo_lib demo_first = ''{1  ann k}''" using demo_lines(1) by (simp add: demo_lib_def)
  have "fst (audit_append demo_lib ?io ?e ?l) = Some WriteError \<and> fst (audit_append demo_lib demo_io ?e ?l') = None
      \<and> record_lines (active_content (snd (audit_append demo_lib demo_io ?e ?l'))) = [] @ [''{1  '' @ ''{1  ann k}'']"
  proof (rule short_write_glues_next_record)
    show "''{1  '' = take 4 (au_marshal demo_lib (next_record demo_lib ?io ?e ?l))" unfolding rec m by simp
    show "4 \<le> length (au_marshal demo_lib (next_record demo_lib ?io ?e ?l))" unfolding rec m by simp
    show "''{1  ann k}'' = au_marshal demo_lib (next_record demo_lib demo_io ?e ?l')" unfolding rec m by simp
  qed (use l' ok in \<open>simp_all add: demo_log_def demo_dir_def active_content_def demo_io_def\<close>)
  then show ?thesis unfolding Let_def l' [symmetric] by simp
qed

end
