(* ===== verification/Audit_Commit.thy ===== *)
theory Audit_Commit
  imports Go_Prelude
begin

text \<open>
  The group commit of \<open>internal/audit/log.go\<close>: \<open>syncTo\<close>, the barrier of \<open>maybeRotate\<close> and \<open>Close\<close>, as a step
  relation over any number of concurrent calls of \<open>Append\<close>. A step is what a call does between taking the mutex
  and giving it up; \<open>Sync\<close> runs without the mutex and is a step of its own, before or after which other calls may
  have taken theirs.

  Records are numbered by \<open>writeCount\<close> from one. \<^term>\<open>gc_where\<close> lists the file each record went to, and
  \<^term>\<open>gc_durable\<close> the records on stable storage: a sync makes those of its own file durable that
  were written before it started, and no others.
\<close>

text \<open>Where a call is: not yet writing, in the loop of \<open>syncTo\<close>, syncing a file up to a target, or back.\<close>

datatype commit_phase =
    Before
  | Looping nat
  | Leading nat nat nat
  | Back nat bool

record commit_state =
  gc_write_count :: nat
  gc_synced_count :: nat
  gc_syncing :: bool
  gc_file :: nat
  gc_closed :: bool
  gc_phase :: "nat \<Rightarrow> commit_phase"
  gc_where :: "nat list"
  gc_durable :: "nat set"

definition commit_start :: commit_state where
  "commit_start = \<lparr>gc_write_count = 0, gc_synced_count = 0, gc_syncing = False, gc_file = 0, gc_closed = False,
     gc_phase = (\<lambda>_. Before), gc_where = [], gc_durable = {}\<rparr>"

definition set_phase :: "nat \<Rightarrow> commit_phase \<Rightarrow> commit_state \<Rightarrow> commit_state" where
  "set_phase i p s = s\<lparr>gc_phase := (gc_phase s)(i := p)\<rparr>"

text \<open>The records that \<open>f.Sync()\<close> makes durable.\<close>

definition in_file :: "nat \<Rightarrow> commit_state \<Rightarrow> nat set" where
  "in_file f s = {n. 1 \<le> n \<and> n \<le> length (gc_where s) \<and> gc_where s ! (n - 1) = f}"

definition write_step :: "nat \<Rightarrow> commit_state \<Rightarrow> commit_state" where
  "write_step i s = set_phase i (Looping (Suc (gc_write_count s)))
     (s\<lparr>gc_write_count := Suc (gc_write_count s), gc_where := gc_where s @ [gc_file s]\<rparr>)"

definition lead_step :: "nat \<Rightarrow> nat \<Rightarrow> commit_state \<Rightarrow> commit_state" where
  "lead_step i count s = set_phase i (Leading count (gc_write_count s) (gc_file s)) (s\<lparr>gc_syncing := True\<rparr>)"

definition synced_step :: "nat \<Rightarrow> nat \<Rightarrow> nat \<Rightarrow> nat \<Rightarrow> commit_state \<Rightarrow> commit_state" where
  "synced_step i count target f s = set_phase i (Looping count)
     (s\<lparr>gc_syncing := False, gc_synced_count := (if target > gc_synced_count s then target else gc_synced_count s),
        gc_durable := gc_durable s \<union> (in_file f s \<inter> {..target})\<rparr>)"

definition rotate_step :: "commit_state \<Rightarrow> commit_state" where
  "rotate_step s = s\<lparr>gc_synced_count := gc_write_count s, gc_durable := gc_durable s \<union> in_file (gc_file s) s,
     gc_file := Suc (gc_file s)\<rparr>"

inductive commit_step :: "commit_state \<Rightarrow> commit_state \<Rightarrow> bool" where
  written: "gc_phase s i = Before \<Longrightarrow> \<not> gc_closed s \<Longrightarrow> commit_step s (write_step i s)"
| covered: "gc_phase s i = Looping count \<Longrightarrow> count \<le> gc_synced_count s \<Longrightarrow> commit_step s (set_phase i (Back count True) s)"
| lead: "gc_phase s i = Looping count \<Longrightarrow> gc_synced_count s < count \<Longrightarrow> \<not> gc_syncing s \<Longrightarrow> commit_step s (lead_step i count s)"
| sync_done: "gc_phase s i = Leading count target f \<Longrightarrow> commit_step s (synced_step i count target f s)"
| sync_failed: "gc_phase s i = Leading count target f \<Longrightarrow> commit_step s (set_phase i (Back count False) (s\<lparr>gc_syncing := False\<rparr>))"
| rotated: "\<not> gc_syncing s \<Longrightarrow> \<not> gc_closed s \<Longrightarrow> commit_step s (rotate_step s)"
| closed: "\<not> gc_syncing s \<Longrightarrow> commit_step s (s\<lparr>gc_closed := True\<rparr>)"

inductive commit_reachable :: "commit_state \<Rightarrow> bool" where
  at_start: "commit_reachable commit_start"
| further: "commit_reachable s \<Longrightarrow> commit_step s s' \<Longrightarrow> commit_reachable s'"

lemmas commit_defs = write_step_def lead_step_def synced_step_def rotate_step_def set_phase_def

section \<open>Invariant\<close>

text \<open>
  Records up to \<open>syncedCount\<close> are durable, and so are those of earlier files. There is a leader exactly while
  \<open>syncing\<close> is set, and it works on the current file.
\<close>

definition disk_inv :: "commit_state \<Rightarrow> bool" where
  "disk_inv s \<longleftrightarrow> length (gc_where s) = gc_write_count s \<and> gc_synced_count s \<le> gc_write_count s
     \<and> (\<forall>f \<in> set (gc_where s). f \<le> gc_file s) \<and> {1..gc_synced_count s} \<subseteq> gc_durable s
     \<and> (\<forall>f < gc_file s. in_file f s \<subseteq> gc_durable s)"

fun phase_ok :: "commit_state \<Rightarrow> commit_phase \<Rightarrow> bool" where
  "phase_ok s Before \<longleftrightarrow> True"
| "phase_ok s (Looping count) \<longleftrightarrow> 1 \<le> count \<and> count \<le> gc_write_count s"
| "phase_ok s (Leading count target f) \<longleftrightarrow> 1 \<le> count \<and> count \<le> gc_write_count s \<and> gc_syncing s \<and> f = gc_file s \<and> target \<le> gc_write_count s"
| "phase_ok s (Back count ok) \<longleftrightarrow> (ok \<longrightarrow> 1 \<le> count \<and> count \<le> gc_synced_count s)"

fun leading :: "commit_phase \<Rightarrow> bool" where
  "leading (Leading count target f) \<longleftrightarrow> True"
| "leading _ \<longleftrightarrow> False"

definition leaders :: "commit_state \<Rightarrow> nat set" where
  "leaders s = {i. leading (gc_phase s i)}"

definition leader_inv :: "commit_state \<Rightarrow> bool" where
  "leader_inv s \<longleftrightarrow> (if gc_syncing s then \<exists>i. leaders s = {i} else leaders s = {})"

definition commit_inv :: "commit_state \<Rightarrow> bool" where
  "commit_inv s \<longleftrightarrow> disk_inv s \<and> (\<forall>i. phase_ok s (gc_phase s i)) \<and> leader_inv s"

lemma leaders_simps [simp]:
  "leaders (set_phase i p s) = (if leading p then insert i (leaders s) else leaders s - {i})"
  "leaders (s\<lparr>gc_syncing := b\<rparr>) = leaders s" "leaders (s\<lparr>gc_closed := b\<rparr>) = leaders s" "leaders (rotate_step s) = leaders s"
  "leaders (s\<lparr>gc_write_count := n, gc_where := w\<rparr>) = leaders s"
  "leaders (s\<lparr>gc_syncing := b, gc_synced_count := n, gc_durable := d\<rparr>) = leaders s"
  by (auto simp: leaders_def set_phase_def rotate_step_def)

lemma leaders_iff: "i \<in> leaders s \<longleftrightarrow> leading (gc_phase s i)"
  by (simp add: leaders_def)

lemma set_phase_simps [simp]: "gc_syncing (set_phase i p s) = gc_syncing s" "gc_syncing (rotate_step s) = gc_syncing s"
  by (simp_all add: set_phase_def rotate_step_def)

lemma current_file_covers:
  assumes "disk_inv s" and "1 \<le> n" and "n \<le> gc_write_count s"
  shows "n \<in> gc_durable s \<union> in_file (gc_file s) s"
proof -
  have n: "n - 1 < length (gc_where s)" using assms by (auto simp: disk_inv_def)
  define f where "f = gc_where s ! (n - 1)"
  have "f \<le> gc_file s" using assms(1) n by (auto simp: disk_inv_def f_def)
  moreover have "n \<in> in_file f s" using assms(2) n by (auto simp: in_file_def f_def)
  moreover have "\<forall>f < gc_file s. in_file f s \<subseteq> gc_durable s" using assms(1) by (simp add: disk_inv_def)
  ultimately show ?thesis by (cases "f = gc_file s") (blast, metis UnI1 le_neq_implies_less subsetD)
qed

lemma in_file_same [simp]: "in_file f (set_phase i p s) = in_file f s" "in_file f (s\<lparr>gc_syncing := b\<rparr>) = in_file f s"
  "in_file f (s\<lparr>gc_closed := b\<rparr>) = in_file f s" "in_file f (lead_step i c s) = in_file f s"
  "in_file f (synced_step i c t g s) = in_file f s" "in_file f (rotate_step s) = in_file f s"
  by (simp_all add: in_file_def commit_defs)

lemma in_file_write: "f < gc_file s \<Longrightarrow> in_file f (write_step i s) \<subseteq> in_file f s"
  by (auto simp: in_file_def commit_defs nth_append split: if_splits)

lemma in_file_bound: "disk_inv s \<Longrightarrow> n \<in> in_file f s \<Longrightarrow> f \<le> gc_file s"
  by (auto simp: in_file_def disk_inv_def)

lemma disk_step:
  assumes "commit_inv s" and "commit_step s s'"
  shows "disk_inv s'"
proof -
  have disk: "disk_inv s" using assms(1) by (simp add: commit_inv_def)
  from assms(2) show ?thesis
  proof cases
    case (written i)
    have "in_file f (write_step i s) \<subseteq> gc_durable s" if "f < gc_file s" for f
      using in_file_write [OF that, of i] disk that unfolding disk_inv_def by (meson order_trans)
    then show ?thesis using disk written(1) by (simp add: disk_inv_def) (simp add: commit_defs)
  next
    case (sync_done i count target f)
    have "phase_ok s (Leading count target f)" using assms(1) sync_done(2) unfolding commit_inv_def by metis
    then have "n \<in> gc_durable s \<union> in_file f s" if "1 \<le> n" "n \<le> target" for n
      using current_file_covers [OF disk, of n] that by auto
    then have "{1..target} \<subseteq> gc_durable s \<union> in_file f s" by (meson atLeastAtMost_iff subsetI)
    moreover have "target \<le> gc_write_count s" using \<open>phase_ok s (Leading count target f)\<close> by simp
    ultimately have "{1..target} \<subseteq> gc_durable s \<union> in_file f s" "target \<le> gc_write_count s" by blast+
    then show ?thesis using disk sync_done(1) by (simp add: disk_inv_def) (auto simp: synced_step_def set_phase_def)
  next
    case rotated
    have "{1..gc_write_count s} \<subseteq> gc_durable s \<union> in_file (gc_file s) s" using current_file_covers [OF disk] by (meson atLeastAtMost_iff subsetI)
    then show ?thesis using disk rotated(1) by (simp add: disk_inv_def) (auto simp: rotate_step_def less_Suc_eq)
  qed (use disk in \<open>simp_all add: disk_inv_def\<close>, simp_all add: set_phase_def lead_step_def)
qed

lemma phase_ok_mono:
  assumes "phase_ok s p" and "gc_write_count s \<le> gc_write_count s'" and "gc_synced_count s \<le> gc_synced_count s'"
    and "leading p \<Longrightarrow> gc_syncing s' \<and> gc_file s' = gc_file s"
  shows "phase_ok s' p"
  using assms by (cases p) auto

lemma phase_step:
  assumes "commit_inv s" and "commit_step s s'"
  shows "phase_ok s' (gc_phase s' j)"
proof -
  have old: "phase_ok s (gc_phase s i)" for i using assms(1) by (simp add: commit_inv_def)
  have lead: "leader_inv s" using assms(1) by (simp add: commit_inv_def)
  have bound: "gc_synced_count s \<le> gc_write_count s" using assms(1) by (simp add: commit_inv_def disk_inv_def)
  have alone: "\<not> leading (gc_phase s j)" if "leading (gc_phase s i)" "j \<noteq> i" for i
    using lead that leaders_iff [of _ s] unfolding leader_inv_def by (metis empty_iff singletonD)
  have none: "\<not> leading (gc_phase s j)" if "\<not> gc_syncing s" using lead that by (auto simp: leader_inv_def leaders_def)
  have sync: "gc_syncing s" if "leading (gc_phase s j)" using lead that leaders_iff [of j s] by (auto simp: leader_inv_def split: if_splits)
  from assms(2) show ?thesis
  proof cases
    case (written i)
    show ?thesis
    proof (cases "j = i")
      case False
      then have "gc_phase s' j = gc_phase s j" using written(1) by (simp add: commit_defs)
      then show ?thesis using phase_ok_mono [OF old [of j], of s'] written(1) sync by (simp add: commit_defs)
    qed (use written in \<open>simp add: commit_defs\<close>)
  next
    case (covered i count)
    show ?thesis
    proof (cases "j = i")
      case False
      then show ?thesis using phase_ok_mono [OF old [of j], of s'] covered(1) sync by (simp add: commit_defs)
    qed (use covered old [of i] in \<open>simp add: commit_defs\<close>)
  next
    case (lead i count)
    show ?thesis
    proof (cases "j = i")
      case False
      then show ?thesis using phase_ok_mono [OF old [of j], of s'] lead(1) by (simp add: commit_defs)
    qed (use lead old [of i] in \<open>simp add: commit_defs\<close>)
  next
    case (sync_done i count target f)
    show ?thesis
    proof (cases "j = i")
      case False
      then show ?thesis using phase_ok_mono [OF old [of j], of s'] sync_done alone [of i] by (simp add: commit_defs)
    qed (use sync_done old [of i] in \<open>simp add: commit_defs\<close>)
  next
    case (sync_failed i count target f)
    show ?thesis
    proof (cases "j = i")
      case False
      then show ?thesis using phase_ok_mono [OF old [of j], of s'] sync_failed alone [of i] by (simp add: commit_defs)
    qed (use sync_failed in \<open>simp add: commit_defs\<close>)
  next
    case rotated
    then show ?thesis using phase_ok_mono [OF old [of j], of s'] bound none by (simp add: commit_defs)
  next
    case closed
    then show ?thesis using phase_ok_mono [OF old [of j], of s'] none by simp
  qed
qed

lemma leader_step:
  assumes "commit_inv s" and "commit_step s s'"
  shows "leader_inv s'"
proof -
  have inv: "leader_inv s" using assms(1) by (simp add: commit_inv_def)
  from assms(2) show ?thesis
  proof cases
    case (written i)
    then have "i \<notin> leaders s" by (simp add: leaders_iff)
    then show ?thesis using inv written(1) by (simp add: leader_inv_def write_step_def)
  next
    case (covered i count)
    then have "i \<notin> leaders s" by (simp add: leaders_iff)
    then show ?thesis using inv covered(1) by (simp add: leader_inv_def)
  next
    case (sync_done i count target f)
    then have "i \<in> leaders s" by (simp add: leaders_iff)
    then show ?thesis using inv sync_done(1) by (auto simp: leader_inv_def synced_step_def split: if_splits)
  next
    case (sync_failed i count target f)
    then have "i \<in> leaders s" by (simp add: leaders_iff)
    then show ?thesis using inv sync_failed(1) by (auto simp: leader_inv_def split: if_splits)
  qed (use inv in \<open>auto simp: leader_inv_def lead_step_def\<close>)
qed

lemma commit_inv_step: "commit_inv s \<Longrightarrow> commit_step s s' \<Longrightarrow> commit_inv s'"
  using disk_step phase_step leader_step unfolding commit_inv_def by blast

lemma commit_inv_reachable: "commit_reachable s \<Longrightarrow> commit_inv s"
proof (induction rule: commit_reachable.induct)
  case at_start
  show ?case by (simp add: commit_inv_def disk_inv_def leader_inv_def leaders_def commit_start_def in_file_def)
next
  case (further s s')
  then show ?case by (blast intro: commit_inv_step)
qed

section \<open>Theorems\<close>

text \<open>
  C28: \<open>Append\<close> reports success only for a record that is on stable storage, whatever other calls write, lead
  a sync, rotate the file or close the log meanwhile, and however many syncs fail.
\<close>

theorem append_success_durable:
  assumes "commit_reachable s" and "gc_phase s i = Back count True"
  shows "1 \<le> count \<and> count \<le> gc_write_count s \<and> count \<in> gc_durable s"
proof -
  have inv: "disk_inv s" "phase_ok s (gc_phase s i)" using commit_inv_reachable [OF assms(1)] by (auto simp: commit_inv_def)
  then have "1 \<le> count" "count \<le> gc_synced_count s" using assms(2) by auto
  moreover have "{1..gc_synced_count s} \<subseteq> gc_durable s" "gc_synced_count s \<le> gc_write_count s" using inv(1) by (auto simp: disk_inv_def)
  ultimately show ?thesis by (metis atLeastAtMost_iff order_trans subsetD)
qed

text \<open>Two calls, the second written while the first one leads, and rotated away before it is covered.\<close>

definition commit_demo :: commit_state where
  "commit_demo = set_phase 2 (Back 2 True) (rotate_step (synced_step 1 1 1 0 (write_step 2 (lead_step 1 1 (write_step 1 commit_start)))))"

lemma commit_demo_reachable: "commit_reachable commit_demo"
proof -
  have "commit_reachable (write_step 1 commit_start)"
    by (rule further [OF at_start written]) (simp_all add: commit_start_def)
  then have "commit_reachable (lead_step 1 1 (write_step 1 commit_start))"
    by (rule further [OF _ lead]) (simp_all add: commit_start_def commit_defs)
  then have "commit_reachable (write_step 2 (lead_step 1 1 (write_step 1 commit_start)))"
    by (rule further [OF _ written]) (simp_all add: commit_start_def commit_defs)
  then have "commit_reachable (synced_step 1 1 1 0 (write_step 2 (lead_step 1 1 (write_step 1 commit_start))))"
    by (rule further [OF _ sync_done]) (simp_all add: commit_start_def commit_defs)
  then have "commit_reachable (rotate_step (synced_step 1 1 1 0 (write_step 2 (lead_step 1 1 (write_step 1 commit_start)))))"
    by (rule further [OF _ rotated]) (simp_all add: commit_start_def commit_defs)
  then show ?thesis unfolding commit_demo_def
    by (rule further [OF _ covered]) (simp_all add: commit_start_def commit_defs)
qed

theorem append_success_durable_witness: "2 \<in> gc_durable commit_demo"
  using append_success_durable [OF commit_demo_reachable, of 2 2] by (simp add: commit_demo_def set_phase_def)

text \<open>
  No call hangs in \<open>syncTo\<close>: while one is in its loop, either it can go on itself, because its record is
  covered or nobody leads and it takes the lead, or some other call is syncing and will finish.
\<close>

theorem sync_not_stuck:
  assumes "commit_reachable s" and "gc_phase s i = Looping count"
  shows "commit_step s (set_phase i (Back count True) s) \<or> commit_step s (lead_step i count s)
       \<or> (\<exists>j c t f. j \<noteq> i \<and> gc_phase s j = Leading c t f \<and> commit_step s (synced_step j c t f s))"
proof (cases "gc_synced_count s < count \<and> gc_syncing s")
  case True
  have "leader_inv s" using commit_inv_reachable [OF assms(1)] by (simp add: commit_inv_def)
  then obtain j where "leading (gc_phase s j)" using True leaders_iff [of _ s] by (metis leader_inv_def singletonI)
  then obtain c t f where "gc_phase s j = Leading c t f" by (cases "gc_phase s j") auto
  moreover from this have "j \<noteq> i" using assms(2) by auto
  ultimately show ?thesis using sync_done by blast
next
  case False
  then show ?thesis using covered [OF assms(2)] lead [OF assms(2)] by force
qed

theorem sync_not_stuck_witness:
  "let s = write_step 1 commit_start in commit_step s (set_phase 1 (Back 1 True) s) \<or> commit_step s (lead_step 1 1 s)
     \<or> (\<exists>j c t f. j \<noteq> 1 \<and> gc_phase s j = Leading c t f \<and> commit_step s (synced_step j c t f s))"
proof -
  have "commit_reachable (write_step 1 commit_start)"
    by (rule further [OF at_start written]) (simp_all add: commit_start_def)
  moreover have "gc_phase (write_step 1 commit_start) 1 = Looping 1" by (simp add: commit_start_def commit_defs)
  ultimately show ?thesis unfolding Let_def by (rule sync_not_stuck)
qed

end
