(* ===== verification/Shell_Syntax.thy ===== *)
theory Shell_Syntax
  imports Go_Prelude
begin

text \<open>
  The shell-parsing half of \<open>internal/signer/cmdpolicy.go\<close>: \<open>extractCommands\<close>, \<open>literalArgs\<close>,
  \<open>directArgv\<close>, the predicates on words (\<open>isStaticWord\<close>, \<open>rejectShellExpansion\<close>,
  \<open>unquotedBackslash\<close>, \<open>isFdRef\<close>) and the command-hiding wrappers.

  The POSIX-sh parser and its literal expansion (\<open>mvdan.cc/sh/v3\<close>) and the regular-expression
  compiler applied to operator-supplied patterns are parameters: the fields of \<open>go_env\<close>. A parsed
  file is given by what the code reads of it, the nodes in the order in which \<open>syntax.Walk\<close> meets
  them and the list of top-level statements.
\<close>

section \<open>What the code reads of a syntax tree\<close>

text \<open>\<open>OtherPart\<close> is any expansion: parameter, command, arithmetic, process, extended glob.\<close>

datatype sh_part =
    Lit string
  | SglQuoted string
  | DblQuoted "sh_part list"
  | OtherPart

type_synonym sh_word = "sh_part list"

datatype redir_op = DplOut | DplIn | OtherRedir

datatype sh_node =
    CmdSubstNode
  | ProcSubstNode
  | ArithmCmdNode
  | RedirectNode redir_op "sh_word option"
  | DeclClauseNode
  | CallExprNode "string list" "sh_word list"
  | OtherNode

datatype sh_cmd = CallCmd "string list" "sh_word list" | OtherCmd

record sh_stmt =
  stmt_negated :: bool
  stmt_background :: bool
  stmt_coprocess :: bool
  stmt_redirs :: "redir_op list"
  stmt_cmd :: sh_cmd

record sh_file =
  file_walk :: "sh_node list"
  file_stmts :: "sh_stmt list"

record go_env =
  rx_compile :: "string \<Rightarrow> (string \<Rightarrow> bool) option"
  sh_parse :: "string \<Rightarrow> string + sh_file"
  sh_literal :: "sh_word \<Rightarrow> string + string"

datatype sh_error =
    ShellParseError string
  | CommandSubstitution
  | ProcessSubstitution
  | ArithmeticCommand
  | FileRedirect redir_op
  | EnvDeclaration
  | StandaloneAssignment
  | InlineAssignment
  | DynamicWord
  | GlobOrBrace string
  | LeadingTilde string
  | LeadingEquals string
  | BackslashEscape string
  | DecodeError string
  | HidingWrapper string
  | FindExecAction string
  | NoCommands

section \<open>Predicates on words\<close>

fun is_lit :: "sh_part \<Rightarrow> bool" where
  "is_lit (Lit _) = True"
| "is_lit _ = False"

fun is_static_part :: "sh_part \<Rightarrow> bool" where
  "is_static_part (Lit _) = True"
| "is_static_part (SglQuoted _) = True"
| "is_static_part (DblQuoted ps) = list_all is_lit ps"
| "is_static_part OtherPart = False"

definition is_static_word :: "sh_word \<Rightarrow> bool" where
  "is_static_word w = list_all is_static_part w"

fun is_empty_quoted :: "sh_part \<Rightarrow> bool" where
  "is_empty_quoted (SglQuoted v) = (v = [])"
| "is_empty_quoted (DblQuoted ps) = (ps = [])"
| "is_empty_quoted _ = False"

text \<open>The index of the first part that is not an empty quoted string.\<close>

definition word_start :: "sh_word \<Rightarrow> nat" where
  "word_start w = length (takeWhile is_empty_quoted w)"

text \<open>
  The loop of \<open>rejectShellExpansion\<close> over the parts from index \<open>i\<close> on; \<open>first\<close> and \<open>n\<close> are the
  start of the word and the number of its parts.
\<close>

fun reject_parts :: "nat \<Rightarrow> nat \<Rightarrow> nat \<Rightarrow> sh_word \<Rightarrow> sh_error option" where
  "reject_parts first n i [] = None"
| "reject_parts first n i (Lit v # ps) =
     (if contains_any v ''*?[{}'' then Some (GlobOrBrace v)
      else if i = first \<and> has_prefix v ''~'' then Some (LeadingTilde v)
      else if i = first \<and> has_prefix v ''='' \<and> (length v > 1 \<or> n > 1) then Some (LeadingEquals v)
      else reject_parts first n (Suc i) ps)"
| "reject_parts first n i (_ # ps) = reject_parts first n (Suc i) ps"

definition reject_shell_expansion :: "sh_word \<Rightarrow> sh_error option" where
  "reject_shell_expansion w = reject_parts (word_start w) (length w) 0 w"

fun unquoted_backslash :: "sh_word \<Rightarrow> string option" where
  "unquoted_backslash [] = None"
| "unquoted_backslash (Lit v # ps) =
     (if contains_substr v [CHR 0x5C] then Some v else unquoted_backslash ps)"
| "unquoted_backslash (_ # ps) = unquoted_backslash ps"

text \<open>A bare file-descriptor reference: \<open>-\<close> or a decimal number.\<close>

definition is_fd_ref :: "sh_word option \<Rightarrow> bool" where
  "is_fd_ref w =
     (case w of
        Some [Lit v] \<Rightarrow> v = ''-'' \<or> (list_all is_digit_char v \<and> v \<noteq> [])
      | _ \<Rightarrow> False)"

section \<open>Command-hiding wrappers\<close>

definition command_hiding_wrappers :: "string list" where
  "command_hiding_wrappers =
     [''sh'', ''bash'', ''dash'', ''zsh'', ''ksh'', ''csh'', ''tcsh'', ''fish'', ''ash'',
      ''env'', ''eval'', ''exec'', ''command'', ''nice'', ''nohup'', ''timeout'', ''stdbuf'',
      ''xargs'', ''busybox'', ''ionice'', ''chrt'', ''setarch'', ''linux32'', ''linux64'',
      ''catchsegv'', ''rlwrap'', ''script'', ''watch'', ''time'',
      ''sudo'', ''su'', ''doas'', ''pkexec'', ''runuser'', ''sg'',
      ''.'', ''source'',
      ''trap'', ''builtin'', ''hash'', ''enable'', ''mapfile'', ''readarray'',
      ''compgen'', ''complete'',
      ''mksh'', ''lksh'', ''pdksh'', ''rbash'', ''yash'', ''posh'', ''pypy'', ''pypy3'', ''ipython'',
      ''ipython3'', ''Rscript'', ''julia'', ''bun'', ''deno'', ''elixir'', ''erl'', ''escript'',
      ''guile'', ''racket'',
      ''setsid'', ''flock'', ''taskset'', ''chroot'', ''unshare'', ''nsenter'', ''strace'', ''ltrace'',
      ''systemd-run'', ''setpriv'', ''prlimit'', ''cpulimit'', ''daemonize'', ''expect'', ''tmux'',
      ''screen'', ''ssh'',
      ''python'', ''python2'', ''python3'', ''perl'', ''ruby'', ''node'', ''nodejs'', ''php'', ''lua'',
      ''tclsh'', ''awk'', ''gawk'', ''nawk'', ''mawk'']"

definition versioned_interpreter_prefixes :: "string list" where
  "versioned_interpreter_prefixes =
     [''python3'', ''python2'', ''nodejs'', ''node'', ''ruby'', ''php'', ''perl'', ''lua'',
      ''mksh'', ''zsh'', ''ksh'', ''bash'']"

text \<open>An optional leading dot, then digits and dots, a digit first.\<close>

definition is_version_suffix :: "string \<Rightarrow> bool" where
  "is_version_suffix s =
     (case s of
        [] \<Rightarrow> False
      | c # t \<Rightarrow>
          (if c = CHR ''.'' \<and> t = [] then False
           else let u = (if c = CHR ''.'' then t else s)
                in is_digit_char (hd u) \<and> list_all (\<lambda>d. d = CHR ''.'' \<or> is_digit_char d) u))"

fun versioned_interpreter_in :: "string list \<Rightarrow> string \<Rightarrow> string option" where
  "versioned_interpreter_in [] base = None"
| "versioned_interpreter_in (p # ps) base =
     (if has_prefix base p \<and> base \<noteq> p \<and> is_version_suffix (drop (length p) base) then Some p
      else versioned_interpreter_in ps base)"

definition versioned_interpreter :: "string \<Rightarrow> string option" where
  "versioned_interpreter base = versioned_interpreter_in versioned_interpreter_prefixes base"

definition command_hiding_wrapper :: "string \<Rightarrow> string option" where
  "command_hiding_wrapper lit =
     (let argv0 = cut_at_space lit in
      if argv0 = [] then None
      else let base = trim_prefix (path_base argv0) ''-'' in
           if base \<in> set command_hiding_wrappers then Some base
           else versioned_interpreter base)"

definition find_exec_flags :: "string list" where
  "find_exec_flags = [''-exec'', ''-execdir'', ''-ok'', ''-okdir'']"

definition find_exec_action :: "string \<Rightarrow> string option" where
  "find_exec_action lit =
     (case go_fields lit of
        [] \<Rightarrow> None
      | f # fs \<Rightarrow>
          (if path_base f \<noteq> ''find'' then None
           else List.find (\<lambda>g. g \<in> set find_exec_flags) fs))"

definition shell_only_builtins :: "string list" where
  "shell_only_builtins =
     [''.'', '':'', ''alias'', ''bg'', ''break'', ''builtin'', ''cd'', ''command'', ''continue'',
      ''declare'', ''dirs'', ''disown'', ''eval'', ''exec'', ''exit'', ''export'', ''fc'', ''fg'',
      ''getopts'', ''hash'', ''jobs'', ''let'', ''local'', ''logout'', ''popd'', ''pushd'', ''read'',
      ''readonly'', ''return'', ''set'', ''shift'', ''shopt'', ''source'', ''suspend'', ''times'',
      ''trap'', ''type'', ''typeset'', ''ulimit'', ''umask'', ''unalias'', ''unset'', ''wait'']"

section \<open>Decoding words and walking the tree\<close>

text \<open>One iteration of the loop of \<open>literalArgs\<close>, in the order of its checks.\<close>

definition decode_word :: "go_env \<Rightarrow> sh_word \<Rightarrow> sh_error + string" where
  "decode_word E w =
     (if \<not> is_static_word w then Inl DynamicWord
      else case reject_shell_expansion w of
        Some e \<Rightarrow> Inl e
      | None \<Rightarrow>
          (case unquoted_backslash w of
             Some v \<Rightarrow> Inl (BackslashEscape v)
           | None \<Rightarrow> (case sh_literal E w of Inl m \<Rightarrow> Inl (DecodeError m) | Inr l \<Rightarrow> Inr l)))"

fun decode_words :: "go_env \<Rightarrow> sh_word list \<Rightarrow> sh_error + string list" where
  "decode_words E [] = Inr []"
| "decode_words E (w # ws) =
     (case decode_word E w of
        Inl e \<Rightarrow> Inl e
      | Inr l \<Rightarrow> (case decode_words E ws of Inl e \<Rightarrow> Inl e | Inr ls \<Rightarrow> Inr (l # ls)))"

definition literal_args :: "go_env \<Rightarrow> sh_word list \<Rightarrow> sh_error + string" where
  "literal_args E args =
     (case decode_words E args of Inl e \<Rightarrow> Inl e | Inr ls \<Rightarrow> Inr (go_join ls '' ''))"

text \<open>
  What the visitor of \<open>extractCommands\<close> does at one node: an error, nothing (\<^term>\<open>Inr None\<close>) or
  one simple command to add to the list.
\<close>

fun visit_node :: "go_env \<Rightarrow> sh_node \<Rightarrow> sh_error + string option" where
  "visit_node E CmdSubstNode = Inl CommandSubstitution"
| "visit_node E ProcSubstNode = Inl ProcessSubstitution"
| "visit_node E ArithmCmdNode = Inl ArithmeticCommand"
| "visit_node E (RedirectNode rop w) =
     (if (rop = DplOut \<or> rop = DplIn) \<and> is_fd_ref w then Inr None else Inl (FileRedirect rop))"
| "visit_node E DeclClauseNode = Inl EnvDeclaration"
| "visit_node E (CallExprNode assigns args) =
     (if args = [] then (if assigns \<noteq> [] then Inl StandaloneAssignment else Inr None)
      else if assigns \<noteq> [] then Inl InlineAssignment
      else case literal_args E args of
        Inl e \<Rightarrow> Inl e
      | Inr lit \<Rightarrow>
          (case command_hiding_wrapper lit of
             Some b \<Rightarrow> Inl (HidingWrapper b)
           | None \<Rightarrow>
               (case find_exec_action lit of
                  Some a \<Rightarrow> Inl (FindExecAction a)
                | None \<Rightarrow> Inr (Some lit))))"
| "visit_node E OtherNode = Inr None"

text \<open>The walk: the first error stops it, and the commands are collected in order.\<close>

fun walk_nodes :: "go_env \<Rightarrow> sh_node list \<Rightarrow> string list \<Rightarrow> sh_error + string list" where
  "walk_nodes E [] cmds = Inr cmds"
| "walk_nodes E (n # ns) cmds =
     (case visit_node E n of
        Inl e \<Rightarrow> Inl e
      | Inr None \<Rightarrow> walk_nodes E ns cmds
      | Inr (Some lit) \<Rightarrow> walk_nodes E ns (cmds @ [lit]))"

definition extract_commands :: "go_env \<Rightarrow> string \<Rightarrow> sh_error + string list" where
  "extract_commands E command =
     (case sh_parse E command of
        Inl m \<Rightarrow> Inl (ShellParseError m)
      | Inr f \<Rightarrow>
          (case walk_nodes E (file_walk f) [] of
             Inl e \<Rightarrow> Inl e
           | Inr cmds \<Rightarrow> (if cmds = [] then Inl NoCommands else Inr cmds)))"

definition direct_argv :: "go_env \<Rightarrow> string \<Rightarrow> string list option" where
  "direct_argv E command =
     (case sh_parse E command of
        Inl m \<Rightarrow> None
      | Inr f \<Rightarrow>
          (case file_stmts f of
             [st] \<Rightarrow>
               (if stmt_negated st \<or> stmt_background st \<or> stmt_coprocess st \<or> stmt_redirs st \<noteq> []
                then None
                else case stmt_cmd st of
                  OtherCmd \<Rightarrow> None
                | CallCmd assigns args \<Rightarrow>
                    (if assigns \<noteq> [] \<or> args = [] then None
                     else case decode_words E args of
                       Inl e \<Rightarrow> None
                     | Inr argv \<Rightarrow>
                         (if contains_substr (hd argv) ''='' then None
                          else if hd argv \<in> set shell_only_builtins then None
                          else Some argv)))
           | _ \<Rightarrow> None))"

section \<open>Lemmas\<close>

definition visit_ok :: "go_env \<Rightarrow> sh_node \<Rightarrow> bool" where
  "visit_ok E n = (case visit_node E n of Inl _ \<Rightarrow> False | Inr _ \<Rightarrow> True)"

definition node_commands :: "go_env \<Rightarrow> sh_node \<Rightarrow> string list" where
  "node_commands E n = (case visit_node E n of Inr (Some lit) \<Rightarrow> [lit] | _ \<Rightarrow> [])"

lemma walk_nodes_iff:
  "walk_nodes E ns cmds = Inr cs \<longleftrightarrow>
   list_all (visit_ok E) ns \<and> cs = cmds @ concat (map (node_commands E) ns)"
proof (induction ns arbitrary: cmds)
  case Nil
  then show ?case by auto
next
  case (Cons n ns)
  then show ?case
    by (cases "visit_node E n") (auto simp: visit_ok_def node_commands_def split: option.splits)
qed

lemma extract_commands_iff:
  "extract_commands E command = Inr cs \<longleftrightarrow>
   (\<exists>f. sh_parse E command = Inr f \<and> list_all (visit_ok E) (file_walk f)
      \<and> cs = concat (map (node_commands E) (file_walk f)) \<and> cs \<noteq> [])"
proof (cases "sh_parse E command")
  case (Inl m)
  then show ?thesis by (simp add: extract_commands_def)
next
  case (Inr f)
  show ?thesis
  proof (cases "walk_nodes E (file_walk f) []")
    case (Inl e)
    then have "\<not> list_all (visit_ok E) (file_walk f)"
      using walk_nodes_iff [of E "file_walk f" "[]"] by fastforce
    with Inl Inr show ?thesis by (simp add: extract_commands_def)
  next
    case (Inr cmds)
    then show ?thesis
      using \<open>sh_parse E command = Inr f\<close> walk_nodes_iff [of E "file_walk f" "[]" cmds]
      by (auto simp: extract_commands_def)
  qed
qed

lemma node_command_call:
  assumes "lit \<in> set (node_commands E n)"
  obtains args where "n = CallExprNode [] args" "args \<noteq> []" "literal_args E args = Inr lit"
    "command_hiding_wrapper lit = None" "find_exec_action lit = None"
proof -
  from assms have v: "visit_node E n = Inr (Some lit)"
    by (auto simp: node_commands_def split: sum.splits option.splits)
  then show ?thesis
    using that by (cases n) (auto split: if_splits sum.splits option.splits)
qed

lemma visit_ok_call:
  assumes "visit_ok E (CallExprNode assigns args)" and "args \<noteq> []"
  shows "assigns = []"
    and "\<exists>lit. literal_args E args = Inr lit \<and> node_commands E (CallExprNode assigns args) = [lit]
             \<and> command_hiding_wrapper lit = None \<and> find_exec_action lit = None"
  using assms by (auto simp: visit_ok_def node_commands_def split: if_splits sum.splits option.splits)

lemma decode_words_length: "decode_words E ws = Inr ls \<Longrightarrow> length ls = length ws"
  by (induction ws arbitrary: ls) (auto split: sum.splits)

lemma decode_words_decode:
  "decode_words E ws = Inr ls \<Longrightarrow> w \<in> set ws \<Longrightarrow> \<exists>l. decode_word E w = Inr l"
  by (induction ws arbitrary: ls) (auto split: sum.splits)

lemma decode_word_safe:
  assumes "decode_word E w = Inr l"
  shows "is_static_word w" "reject_shell_expansion w = None" "unquoted_backslash w = None"
    "sh_literal E w = Inr l"
  using assms by (auto simp: decode_word_def split: if_splits option.splits sum.splits)

lemma unquoted_backslash_None:
  "unquoted_backslash w = None \<Longrightarrow> Lit v \<in> set w \<Longrightarrow> CHR 0x5C \<notin> set v"
proof (induction w rule: unquoted_backslash.induct)
  case (2 u ps)
  then have u: "\<not> contains_substr u [CHR 0x5C]" and ps: "unquoted_backslash ps = None"
    by (auto split: if_splits)
  from u have "CHR 0x5C \<notin> set u"
    by (metis append_Cons append_Nil contains_substr_iff split_list)
  with 2 u ps show ?case by auto
qed auto

lemma reject_parts_None:
  "reject_parts first n i ps = None \<Longrightarrow> Lit v \<in> set ps \<Longrightarrow> set v \<inter> set ''*?[{}'' = {}"
proof (induction first n i ps rule: reject_parts.induct)
  case (2 first n i u ps)
  then show ?case by (auto simp: contains_any_iff split: if_splits)
qed auto

lemma versioned_in_command_hiding:
  assumes "versioned_interpreter_in ps base = Some p"
  shows "p \<in> set ps"
  using assms by (induction ps) (auto split: if_splits)

lemma cut_at_space_id: "CHR '' '' \<notin> set w \<Longrightarrow> cut_at_space w = w"
  by (induction w) (auto simp: cut_at_space_def)

lemma cut_at_space_append: "CHR '' '' \<notin> set w \<Longrightarrow> cut_at_space (w @ CHR '' '' # r) = w"
  by (induction w) (auto simp: cut_at_space_def)

lemma cut_at_space_join: "CHR '' '' \<notin> set w \<Longrightarrow> cut_at_space (go_join (w # ws) '' '') = w"
  by (cases ws) (auto simp: cut_at_space_id cut_at_space_append)

lemma version_suffix_Nil [simp]: "\<not> is_version_suffix []"
  by (simp add: is_version_suffix_def)

lemma versioned_interpreter_in_None:
  "versioned_interpreter_in ps (p @ v) = None \<Longrightarrow> p \<in> set ps \<Longrightarrow> \<not> is_version_suffix v"
proof (induction ps)
  case (Cons q ps)
  show ?case
  proof (cases "p = q")
    case True
    then show ?thesis using Cons.prems by (cases "v = []") (auto simp: has_prefix_def split: if_splits)
  qed (use Cons in \<open>auto split: if_splits\<close>)
qed simp

text \<open>
  What a program word stands for, whatever directory or login dash it is written with, and the
  programs that run what their arguments say: those of the table, and an interpreter of the table
  with a version behind its name.
\<close>

definition program_name :: "string \<Rightarrow> string" where
  "program_name prog = trim_prefix (path_base prog) ''-''"

definition runs_its_arguments :: "string \<Rightarrow> bool" where
  "runs_its_arguments name \<longleftrightarrow> name \<in> set command_hiding_wrappers
     \<or> (\<exists>p v. name = p @ v \<and> p \<in> set versioned_interpreter_prefixes \<and> is_version_suffix v)"

lemma not_hiding_iff:
  assumes "prog \<noteq> []" and "CHR '' '' \<notin> set prog" and "command_hiding_wrapper (go_join (prog # rest) '' '') = None"
  shows "\<not> runs_its_arguments (program_name prog)"
proof -
  have "program_name prog \<notin> set command_hiding_wrappers" "versioned_interpreter (program_name prog) = None"
    using assms by (auto simp: command_hiding_wrapper_def cut_at_space_join program_name_def Let_def split: if_splits)
  then show ?thesis
    using versioned_interpreter_in_None by (auto simp: runs_its_arguments_def versioned_interpreter_def)
qed

text \<open>The fields of the joined words, for words that are fields themselves.\<close>

lemma space_width_before_blank: "s \<noteq> [] \<Longrightarrow> space_width (s @ CHR '' '' # t) = space_width s"
  by (cases s; cases "tl s"; cases "tl (tl s)") (auto simp: Let_def split: list.splits)

lemma fields_from_join: "fields_from acc (s @ CHR '' '' # t) = fields_from acc s @ fields_from [] t"
proof (induction acc s rule: fields_from.induct)
  case (1 acc s)
  show ?case
  proof (cases s)
    case Nil
    then show ?thesis by (simp add: fields_from_space space_width_blank fields_from_Nil del: space_width.simps)
  next
    case (Cons c u)
    have w: "space_width (c # u @ CHR '' '' # t) = space_width (c # u)"
      using space_width_before_blank [of s t] Cons by (simp del: space_width.simps)
    show ?thesis
    proof (cases "space_width s = 0")
      case True
      then show ?thesis using "1.IH"(1) Cons w by (simp add: fields_from_char del: space_width.simps)
    next
      case False
      have "space_width (c # u) \<le> length (c # u)" by (rule space_width_le)
      then have "drop (space_width (c # u)) (c # u @ CHR '' '' # t) = drop (space_width (c # u)) (c # u) @ CHR '' '' # t"
        using drop_append [of "space_width (c # u)" "c # u" "CHR '' '' # t"] by simp
      then show ?thesis using "1.IH"(2) False Cons w by (simp add: fields_from_space del: space_width.simps drop_append)
    qed
  qed
qed

lemma go_fields_join: "go_fields (go_join (w # ws) '' '') = go_fields w @ concat (map go_fields ws)"
proof (induction ws arbitrary: w)
  case (Cons x ws)
  then show ?case using fields_from_join [of "[]" w "go_join (x # ws) '' ''"] by (simp add: go_fields_def)
qed simp

lemma find_exec_iff:
  assumes "go_fields prog = [prog]" and "path_base prog = ''find''" and "find_exec_action (go_join (prog # rest) '' '') = None"
    and "flag \<in> set find_exec_flags"
  shows "flag \<notin> set rest"
proof
  assume rest: "flag \<in> set rest"
  have "flag \<in> set (go_fields flag)" using assms(4) unfolding find_exec_flags_def
    by (simp only: list.set insert_iff empty_iff) (elim disjE; hypsubst?; code_simp?)
  with rest have "flag \<in> set (concat (map go_fields rest))" by auto
  then show False
    using assms go_fields_join [of prog rest] by (auto simp: find_exec_action_def find_None_iff split: if_splits)
qed

lemma list_all_mem: "list_all P xs \<Longrightarrow> x \<in> set xs \<Longrightarrow> P x"
  by (simp add: list_all_iff)

lemma extract_visit_ok:
  assumes "extract_commands E command = Inr cs"
  obtains f where "sh_parse E command = Inr f" "\<forall>n \<in> set (file_walk f). visit_ok E n"
    "cs = concat (map (node_commands E) (file_walk f))" "cs \<noteq> []"
  using assms by (auto simp: extract_commands_iff list_all_iff)

lemma extract_fails:
  assumes "sh_parse E command = Inr f" and "n \<in> set (file_walk f)" and "\<not> visit_ok E n"
  shows "\<exists>e. extract_commands E command = Inl e"
proof (cases "extract_commands E command")
  case (Inr cs)
  then show ?thesis using assms by (auto simp: extract_commands_iff list_all_iff)
qed simp

lemma visit_not_ok [simp]:
  "\<not> visit_ok E CmdSubstNode" "\<not> visit_ok E ProcSubstNode" "\<not> visit_ok E ArithmCmdNode"
  "\<not> visit_ok E DeclClauseNode"
  by (simp_all add: visit_ok_def)

lemma visit_ok_redirect:
  "visit_ok E (RedirectNode rop w) \<longleftrightarrow> (rop = DplOut \<or> rop = DplIn) \<and> is_fd_ref w"
  by (simp add: visit_ok_def)

lemma visit_ok_assigns: "visit_ok E (CallExprNode assigns args) \<Longrightarrow> assigns = []"
  by (auto simp: visit_ok_def split: if_splits)

lemma call_literal_extracted:
  assumes "\<forall>n \<in> set ns. visit_ok E n" and "CallExprNode [] args \<in> set ns" and "args \<noteq> []"
    and "literal_args E args = Inr lit"
  shows "lit \<in> set (concat (map (node_commands E) ns))"
proof -
  have "lit \<in> set (node_commands E (CallExprNode [] args))"
    using visit_ok_call(2) [OF bspec [OF assms(1,2)] assms(3)] assms(4) by auto
  with assms(2) show ?thesis by (auto intro!: bexI [where x = "CallExprNode [] args"])
qed

section \<open>Properties\<close>

text \<open>
  C15: a command that \<open>extractCommands\<close> accepts contains, anywhere in its syntax tree, no command
  substitution, process substitution, arithmetic command or environment declaration, no redirection
  other than the duplication of a file descriptor, and no environment assignment; the returned
  list is exactly the set of decoded simple commands of the tree. No simple command of the tree calls
  a program that runs its arguments: the program its first word names, whatever the directory, is
  neither a wrapper of the table nor an interpreter of the table with a version, and where it is
  \<open>find\<close> no argument is an executing action. The code only sees this where the first word holds no
  space (no white space for \<open>find\<close>): a quoted program path with a space in it is not covered.
\<close>

theorem extract_commands_sound:
  assumes "extract_commands E command = Inr cs"
  shows "\<exists>f. sh_parse E command = Inr f
    \<and> set (file_walk f) \<inter> {CmdSubstNode, ProcSubstNode, ArithmCmdNode, DeclClauseNode} = {}
    \<and> (\<forall>rop w. RedirectNode rop w \<in> set (file_walk f) \<longrightarrow> rop \<noteq> OtherRedir \<and> is_fd_ref w)
    \<and> (\<forall>assigns args. CallExprNode assigns args \<in> set (file_walk f) \<longrightarrow> assigns = [])
    \<and> set cs = {lit. \<exists>args. CallExprNode [] args \<in> set (file_walk f) \<and> args \<noteq> []
                          \<and> literal_args E args = Inr lit}
    \<and> (\<forall>args prog rest. CallExprNode [] args \<in> set (file_walk f) \<and> decode_words E args = Inr (prog # rest) \<and> prog \<noteq> []
         \<longrightarrow> (CHR '' '' \<notin> set prog \<longrightarrow> \<not> runs_its_arguments (program_name prog))
           \<and> (go_fields prog = [prog] \<and> path_base prog = ''find''
                \<longrightarrow> set rest \<inter> {''-exec'', ''-execdir'', ''-ok'', ''-okdir''} = {}))"
proof -
  obtain f where f: "sh_parse E command = Inr f" "\<forall>n \<in> set (file_walk f). visit_ok E n"
    "cs = concat (map (node_commands E) (file_walk f))" "cs \<noteq> []"
    using assms by (rule extract_visit_ok)
  have no: "set (file_walk f) \<inter> {CmdSubstNode, ProcSubstNode, ArithmCmdNode, DeclClauseNode} = {}"
    using f(2) visit_not_ok by blast
  have red: "\<forall>rop w. RedirectNode rop w \<in> set (file_walk f) \<longrightarrow> rop \<noteq> OtherRedir \<and> is_fd_ref w"
    using f(2) visit_ok_redirect by blast
  have asg: "\<forall>assigns args. CallExprNode assigns args \<in> set (file_walk f) \<longrightarrow> assigns = []"
    using f(2) visit_ok_assigns by blast
  have sub: "\<exists>args. CallExprNode [] args \<in> set (file_walk f) \<and> args \<noteq> [] \<and> literal_args E args = Inr lit"
    if "lit \<in> set cs" for lit
    using that f(3) by (auto elim!: node_command_call)
  have sup: "lit \<in> set cs"
    if "CallExprNode [] args \<in> set (file_walk f)" "args \<noteq> []" "literal_args E args = Inr lit"
    for lit args
    using call_literal_extracted [OF f(2) that] f(3) by simp
  have plain: "(CHR '' '' \<notin> set prog \<longrightarrow> \<not> runs_its_arguments (program_name prog))
      \<and> (go_fields prog = [prog] \<and> path_base prog = ''find'' \<longrightarrow> set rest \<inter> {''-exec'', ''-execdir'', ''-ok'', ''-okdir''} = {})"
    if "CallExprNode [] args \<in> set (file_walk f)" "decode_words E args = Inr (prog # rest)" "prog \<noteq> []" for args prog rest
  proof -
    have "args \<noteq> []" using that(2) by auto
    then have "command_hiding_wrapper (go_join (prog # rest) '' '') = None" "find_exec_action (go_join (prog # rest) '' '') = None"
      using visit_ok_call(2) [OF bspec [OF f(2) that(1)]] that(2) by (auto simp: literal_args_def)
    then show ?thesis using not_hiding_iff [OF that(3)] find_exec_iff [of prog rest] by (auto simp: find_exec_flags_def)
  qed
  show ?thesis
    using f(1) no red asg sub sup plain by blast
qed

text \<open>
  A simple command whose program name, up to a directory, a leading dash and an interpreter
  version suffix, is one of the command-hiding wrappers makes \<open>extractCommands\<close> refuse the whole
  command, wherever in the tree it stands, provided the program word holds no space.
\<close>

theorem extract_rejects_wrapper:
  assumes "sh_parse E command = Inr f"
    and "CallExprNode assigns args \<in> set (file_walk f)"
    and "decode_words E args = Inr (prog # rest)"
    and "prog \<noteq> []" and "CHR '' '' \<notin> set prog"
    and "trim_prefix (path_base prog) ''-'' \<in> set command_hiding_wrappers
       \<or> versioned_interpreter (trim_prefix (path_base prog) ''-'') \<noteq> None"
  shows "\<exists>e. extract_commands E command = Inl e"
proof (rule extract_fails [OF assms(1,2)])
  have lit: "literal_args E args = Inr (go_join (prog # rest) '' '')"
    using assms(3) by (simp add: literal_args_def)
  have "command_hiding_wrapper (go_join (prog # rest) '' '') \<noteq> None"
    using assms(4-6) by (auto simp: command_hiding_wrapper_def cut_at_space_join Let_def)
  moreover have "args \<noteq> []" using assms(3) by auto
  ultimately show "\<not> visit_ok E (CallExprNode assigns args)"
    using lit visit_ok_call(2) [of E assigns args] by auto
qed

text \<open>
  Every word of a simple command that \<open>extractCommands\<close> accepts is statically known and free of
  what the target shell would still rewrite: it has no expansion part, and no unquoted part of it
  holds a glob or brace character or a backslash; and the policy sees the literal the decoder
  returns for it.
\<close>

theorem extract_words_literal:
  assumes "extract_commands E command = Inr cs" and "sh_parse E command = Inr f"
    and "CallExprNode assigns args \<in> set (file_walk f)" and "w \<in> set args"
  shows "OtherPart \<notin> set w \<and> (\<forall>ps \<in> set w. is_static_part ps)
    \<and> (\<forall>v. Lit v \<in> set w \<longrightarrow> set v \<inter> set (CHR 0x5C # ''*?[{}'') = {})
    \<and> (\<exists>l. sh_literal E w = Inr l)"
proof -
  have ok: "visit_ok E (CallExprNode assigns args)"
    using assms(1-3) by (auto simp: extract_commands_iff list_all_iff)
  have "args \<noteq> []" using assms(4) by auto
  then obtain lit where "literal_args E args = Inr lit"
    using visit_ok_call(2) [OF ok] by blast
  then obtain ls where "decode_words E args = Inr ls"
    by (auto simp: literal_args_def split: sum.splits)
  then obtain l where l: "decode_word E w = Inr l"
    using decode_words_decode assms(4) by blast
  note safe = decode_word_safe [OF l]
  have st: "\<forall>ps \<in> set w. is_static_part ps"
    using safe(1) by (simp add: is_static_word_def list_all_iff)
  moreover have "OtherPart \<notin> set w" using st by auto
  moreover have "\<forall>v. Lit v \<in> set w \<longrightarrow> set v \<inter> set ''*?[{}'' = {}"
    using safe(2) reject_parts_None by (auto simp: reject_shell_expansion_def)
  moreover have "\<forall>v. Lit v \<in> set w \<longrightarrow> CHR 0x5C \<notin> set v"
    using safe(3) unquoted_backslash_None by blast
  ultimately show ?thesis using safe(4) by auto
qed

text \<open>
  When \<open>directArgv\<close> yields an argument vector for an accepted command, the space-joined vector
  is one of the strings the command policy decides on, provided \<open>syntax.Walk\<close> meets the command of
  every top-level statement; its first word holds no equals sign and is not a shell builtin, so
  the words handed to sudo are the words that were authorised.
\<close>

theorem direct_argv_is_what_policy_sees:
  assumes "direct_argv E command = Some argv" and "extract_commands E command = Inr cs"
    and "\<And>f st assigns args. sh_parse E command = Inr f \<Longrightarrow> st \<in> set (file_stmts f) \<Longrightarrow>
           stmt_cmd st = CallCmd assigns args \<Longrightarrow> CallExprNode assigns args \<in> set (file_walk f)"
  shows "go_join argv '' '' \<in> set cs \<and> argv \<noteq> [] \<and> CHR ''='' \<notin> set (hd argv)
    \<and> hd argv \<notin> set shell_only_builtins"
proof -
  obtain f where f: "sh_parse E command = Inr f" "\<forall>n \<in> set (file_walk f). visit_ok E n"
    "cs = concat (map (node_commands E) (file_walk f))" "cs \<noteq> []"
    using assms(2) by (rule extract_visit_ok)
  obtain st args where st: "file_stmts f = [st]" "stmt_cmd st = CallCmd [] args" "args \<noteq> []"
    "decode_words E args = Inr argv" "\<not> contains_substr (hd argv) ''=''"
    "hd argv \<notin> set shell_only_builtins"
    using assms(1) f(1)
    by (auto simp: direct_argv_def split: list.splits if_splits sh_cmd.splits sum.splits)
  have walk: "CallExprNode [] args \<in> set (file_walk f)"
    using assms(3) [OF f(1)] st(1,2) by simp
  have "literal_args E args = Inr (go_join argv '' '')"
    using st(4) by (simp add: literal_args_def)
  then have "go_join argv '' '' \<in> set cs"
    using call_literal_extracted [OF f(2) walk st(3)] f(3) by simp
  moreover have "argv \<noteq> []" using decode_words_length [OF st(4)] st(3) by auto
  moreover have "CHR ''='' \<notin> set (hd argv)"
    using st(5) by (metis append_Cons append_Nil contains_substr_iff split_list)
  ultimately show ?thesis using st(6) by simp
qed

text \<open>
  The wrapper check reads the program name up to the first space of the joined words, so a
  quoted program path that holds a space hides its base name from it: the shell \<open>bash\<close> under a
  directory with a space in its name is accepted as a simple command, although \<open>bash\<close> is one of
  the wrappers.
\<close>

theorem wrapper_behind_space_accepted:
  assumes "\<And>v. sh_literal E [SglQuoted v] = Inr v" and "\<And>v. sh_literal E [Lit v] = Inr v"
  shows "visit_node E (CallExprNode [] [[SglQuoted ''/opt/my tools/bash''], [Lit ''-c''], [SglQuoted ''rm x'']])
      = Inr (Some ''/opt/my tools/bash -c rm x'')
    \<and> path_base ''/opt/my tools/bash'' = ''bash'' \<and> ''bash'' \<in> set command_hiding_wrappers"
proof -
  have q: "decode_word E [SglQuoted v] = Inr v" for v
    using assms(1) by (simp add: decode_word_def is_static_word_def reject_shell_expansion_def)
  have d: "decode_word E [Lit ''-c''] = Inr ''-c''"
    using assms(2)
    by (simp add: decode_word_def is_static_word_def reject_shell_expansion_def contains_any_def
        has_prefix_def)
  have lit: "literal_args E [[SglQuoted ''/opt/my tools/bash''], [Lit ''-c''], [SglQuoted ''rm x'']]
      = Inr ''/opt/my tools/bash -c rm x''"
    by (simp add: literal_args_def q d)
  have w: "command_hiding_wrapper ''/opt/my tools/bash -c rm x'' = None" by code_simp
  have f: "find_exec_action ''/opt/my tools/bash -c rm x'' = None" by code_simp
  have "path_base ''/opt/my tools/bash'' = ''bash''" by code_simp
  moreover have "''bash'' \<in> set command_hiding_wrappers" by code_simp
  ultimately show ?thesis by (simp add: lit w f)
qed

section \<open>A concrete environment for examples\<close>

text \<open>
  Words are cut at white space and each is one literal; the only statement is a simple command.
  Patterns are literal texts, anchored at the start by a caret; a pattern that opens a parenthesis
  does not compile.
\<close>

definition example_rx :: "string \<Rightarrow> (string \<Rightarrow> bool) option" where
  "example_rx p =
     (case p of
        [] \<Rightarrow> Some (\<lambda>s. True)
      | c # q \<Rightarrow> (if c = CHR ''('' then None
                 else if c = CHR ''^'' then Some (\<lambda>s. prefix q s)
                 else Some (\<lambda>s. contains_substr s p)))"

definition example_parse :: "string \<Rightarrow> string + sh_file" where
  "example_parse s =
     (let args = map (\<lambda>w. [Lit w]) (go_fields s) in
      Inr \<lparr>file_walk = [CallExprNode [] args],
           file_stmts = [\<lparr>stmt_negated = False, stmt_background = False, stmt_coprocess = False,
                          stmt_redirs = [], stmt_cmd = CallCmd [] args\<rparr>]\<rparr>)"

fun example_literal :: "sh_word \<Rightarrow> string + string" where
  "example_literal [] = Inr []"
| "example_literal (Lit v # ps) = (case example_literal ps of Inl e \<Rightarrow> Inl e | Inr l \<Rightarrow> Inr (v @ l))"
| "example_literal (SglQuoted v # ps) =
     (case example_literal ps of Inl e \<Rightarrow> Inl e | Inr l \<Rightarrow> Inr (v @ l))"
| "example_literal (_ # ps) = Inl ''unsupported''"

definition example_env :: go_env where
  "example_env = \<lparr>rx_compile = example_rx, sh_parse = example_parse, sh_literal = example_literal\<rparr>"

lemma extract_example: "extract_commands example_env ''ls -l'' = Inr [''ls -l'']"
  by code_simp

theorem extract_commands_sound_witness:
  "set [''ls -l''] = {lit. \<exists>args. CallExprNode [] args \<in> set [CallExprNode [] [[Lit ''ls''], [Lit ''-l'']]] \<and> args \<noteq> []
         \<and> literal_args example_env args = Inr lit}
    \<and> \<not> runs_its_arguments (program_name ''ls'')"
proof -
  have "sh_parse example_env ''ls -l'' = Inr \<lparr>file_walk = [CallExprNode [] [[Lit ''ls''], [Lit ''-l'']]],
      file_stmts = [\<lparr>stmt_negated = False, stmt_background = False, stmt_coprocess = False, stmt_redirs = [],
                     stmt_cmd = CallCmd [] [[Lit ''ls''], [Lit ''-l'']]\<rparr>]\<rparr>"
    and "decode_words example_env [[Lit ''ls''], [Lit ''-l'']] = Inr [''ls'', ''-l'']" by code_simp+
  with extract_commands_sound [OF extract_example] show ?thesis by auto
qed

theorem extract_rejects_wrapper_witness:
  "\<exists>e. extract_commands example_env ''/bin/bash -c id'' = Inl e"
  by (rule extract_rejects_wrapper [where f = "\<lparr>file_walk = [CallExprNode [] [[Lit ''/bin/bash''],
        [Lit ''-c''], [Lit ''id'']]], file_stmts = [\<lparr>stmt_negated = False, stmt_background = False,
        stmt_coprocess = False, stmt_redirs = [], stmt_cmd = CallCmd [] [[Lit ''/bin/bash''],
        [Lit ''-c''], [Lit ''id'']]\<rparr>]\<rparr>" and assigns = "[]"
        and args = "[[Lit ''/bin/bash''], [Lit ''-c''], [Lit ''id'']]"
        and prog = "''/bin/bash''" and rest = "[''-c'', ''id'']"])
    (code_simp+)

theorem extract_words_literal_witness: "OtherPart \<notin> set [Lit ''ls'']"
  using extract_words_literal [OF extract_example, of "\<lparr>file_walk = [CallExprNode [] [[Lit ''ls''],
      [Lit ''-l'']]], file_stmts = [\<lparr>stmt_negated = False, stmt_background = False,
      stmt_coprocess = False, stmt_redirs = [], stmt_cmd = CallCmd [] [[Lit ''ls''], [Lit ''-l'']]\<rparr>]\<rparr>"
      "[]" "[[Lit ''ls''], [Lit ''-l'']]" "[Lit ''ls'']"]
  by simp

theorem direct_argv_is_what_policy_sees_witness:
  "go_join [''ls'', ''-l''] '' '' \<in> set [''ls -l'']"
proof -
  have d: "direct_argv example_env ''ls -l'' = Some [''ls'', ''-l'']" by code_simp
  show ?thesis
    using direct_argv_is_what_policy_sees [OF d extract_example]
    by (auto simp: example_env_def example_parse_def Let_def)
qed

theorem wrapper_behind_space_accepted_witness:
  "visit_node example_env (CallExprNode [] [[SglQuoted ''/opt/my tools/bash''], [Lit ''-c''], [SglQuoted ''rm x'']])
     = Inr (Some ''/opt/my tools/bash -c rm x'')"
  using wrapper_behind_space_accepted [of example_env] by (simp add: example_env_def)

end
