(* ===== verification/Command_Policy.thy ===== *)
theory Command_Policy
  imports Shell_Syntax "HOL-Library.Multiset"
begin

text \<open>
  The AI-action firewall: \<open>CommandPolicy\<close> (the first part of \<open>internal/signer/cmdpolicy.go\<close>) and
  the composed \<open>PolicySet\<close> (\<open>internal/signer/policyset.go\<close>).

  A mode or an enforcement is the string of the configuration, since validation is about strings
  outside the known ones. The rule string a decision carries is the datatype \<open>cmd_rule\<close>, one
  constructor per prefix the code writes (\<open>deny:\<close>, \<open>require_approval:\<close>, \<open>allow:\<close>, ...).
\<close>

section \<open>Data\<close>

abbreviation CmdPolicyOff :: string where "CmdPolicyOff \<equiv> ''off''"
abbreviation CmdPolicyAllowlist :: string where "CmdPolicyAllowlist \<equiv> ''allowlist''"
abbreviation CmdPolicyDenylist :: string where "CmdPolicyDenylist \<equiv> ''denylist''"
abbreviation CmdPolicyEnforce :: string where "CmdPolicyEnforce \<equiv> ''enforce''"
abbreviation CmdPolicyAudit :: string where "CmdPolicyAudit \<equiv> ''audit''"

record command_policy =
  cp_mode :: string
  cp_enforcement :: string
  cp_allow :: "string list"
  cp_deny :: "string list"
  cp_require_approval :: "string list"
  cp_shell_parse :: "bool option"

type_synonym policy_set = "command_policy list"

datatype policy_error =
    InvalidPolicyRegex string
  | DenyOnAllowlist
  | AllowOnDenylist
  | UnknownMode string
  | UnknownEnforcement string

datatype cmd_rule =
    NoRule
  | DenyRule string
  | ApprovalRule string
  | AllowRule string
  | AllowlistNoMatch
  | ShellParseRule sh_error
  | ApprovalWaived cmd_rule

datatype cmd_error =
    ShellError sh_error
  | BadDenyRegex string
  | BadApprovalRegex string
  | BadAllowRegex string

text \<open>The four results of \<open>Decide\<close>: allowed, needsApproval, rule, err.\<close>

type_synonym cmd_verdict = "bool \<times> bool \<times> cmd_rule \<times> cmd_error option"

section \<open>One policy\<close>

definition cp_parse_commands :: "command_policy \<Rightarrow> bool" where
  "cp_parse_commands cp = (cp_shell_parse cp = None \<or> cp_shell_parse cp = Some True)"

definition cp_active :: "command_policy \<Rightarrow> bool" where
  "cp_active cp = (cp_mode cp = CmdPolicyAllowlist \<or> cp_mode cp = CmdPolicyDenylist)"

definition cp_restricts :: "command_policy \<Rightarrow> bool" where
  "cp_restricts cp = (cp_active cp \<or> cp_require_approval cp \<noteq> [])"

definition validate_mode :: "command_policy \<Rightarrow> policy_error option" where
  "validate_mode cp =
     (if cp_mode cp = [] \<or> cp_mode cp = CmdPolicyOff then None
      else if cp_mode cp = CmdPolicyAllowlist then (if cp_deny cp \<noteq> [] then Some DenyOnAllowlist else None)
      else if cp_mode cp = CmdPolicyDenylist then (if cp_allow cp \<noteq> [] then Some AllowOnDenylist else None)
      else Some (UnknownMode (cp_mode cp)))"

definition cp_validate :: "go_env \<Rightarrow> command_policy \<Rightarrow> policy_error option" where
  "cp_validate E cp =
     (case List.find (\<lambda>pat. rx_compile E pat = None)
             (cp_allow cp @ cp_deny cp @ cp_require_approval cp) of
        Some pat \<Rightarrow> Some (InvalidPolicyRegex pat)
      | None \<Rightarrow>
          (case validate_mode cp of
             Some e \<Rightarrow> Some e
           | None \<Rightarrow>
               (if cp_enforcement cp = [] \<or> cp_enforcement cp = CmdPolicyEnforce
                 \<or> cp_enforcement cp = CmdPolicyAudit then None
                else Some (UnknownEnforcement (cp_enforcement cp)))))"

section \<open>The composed set\<close>

definition ps_active :: "policy_set \<Rightarrow> bool" where
  "ps_active ps = list_ex cp_active ps"

definition ps_restricts :: "policy_set \<Rightarrow> bool" where
  "ps_restricts ps = list_ex cp_restricts ps"

fun enforcement_loop :: "bool \<Rightarrow> policy_set \<Rightarrow> string" where
  "enforcement_loop audit_only [] = (if audit_only then CmdPolicyAudit else CmdPolicyEnforce)"
| "enforcement_loop audit_only (p # ps) =
     (if \<not> cp_restricts p then enforcement_loop audit_only ps
      else if cp_enforcement p = CmdPolicyAudit then enforcement_loop True ps
      else CmdPolicyEnforce)"

definition ps_enforcement :: "policy_set \<Rightarrow> string" where
  "ps_enforcement ps = enforcement_loop False ps"

definition ps_has_allowlist :: "policy_set \<Rightarrow> bool" where
  "ps_has_allowlist ps = list_ex (\<lambda>p. cp_mode p = CmdPolicyAllowlist) ps"

definition ps_shell_parse :: "policy_set \<Rightarrow> bool" where
  "ps_shell_parse ps = list_ex cp_parse_commands ps"

fun ps_validate :: "go_env \<Rightarrow> policy_set \<Rightarrow> policy_error option" where
  "ps_validate E [] = None"
| "ps_validate E (p # ps) = (case cp_validate E p of Some e \<Rightarrow> Some e | None \<Rightarrow> ps_validate E ps)"

text \<open>
  A loop over patterns: the first one that does not compile is an error (\<^term>\<open>Inl\<close>), the first
  one that matches is the result.
\<close>

fun scan_patterns :: "go_env \<Rightarrow> string list \<Rightarrow> string \<Rightarrow> string + string option" where
  "scan_patterns E [] c = Inr None"
| "scan_patterns E (pat # pats) c =
     (case rx_compile E pat of
        None \<Rightarrow> Inl pat
      | Some m \<Rightarrow> (if m c then Inr (Some pat) else scan_patterns E pats c))"

text \<open>The loop over the members that satisfy \<open>sel\<close>, with the patterns that \<open>pats\<close> picks.\<close>

fun scan_members :: "go_env \<Rightarrow> (command_policy \<Rightarrow> bool) \<Rightarrow> (command_policy \<Rightarrow> string list) \<Rightarrow>
    policy_set \<Rightarrow> string \<Rightarrow> string + string option" where
  "scan_members E sel pats [] c = Inr None"
| "scan_members E sel pats (p # ps) c =
     (if \<not> sel p then scan_members E sel pats ps c
      else case scan_patterns E (pats p) c of
        Inl pat \<Rightarrow> Inl pat
      | Inr (Some pat) \<Rightarrow> Inr (Some pat)
      | Inr None \<Rightarrow> scan_members E sel pats ps c)"

abbreviation is_denylist :: "command_policy \<Rightarrow> bool" where
  "is_denylist p \<equiv> cp_mode p = CmdPolicyDenylist"

abbreviation is_allowlist :: "command_policy \<Rightarrow> bool" where
  "is_allowlist p \<equiv> cp_mode p = CmdPolicyAllowlist"

definition decide_one :: "go_env \<Rightarrow> policy_set \<Rightarrow> string \<Rightarrow> cmd_verdict" where
  "decide_one E ps c =
     (case scan_members E is_denylist cp_deny ps c of
        Inl pat \<Rightarrow> (False, False, NoRule, Some (BadDenyRegex pat))
      | Inr (Some pat) \<Rightarrow> (False, False, DenyRule pat, None)
      | Inr None \<Rightarrow>
          (case scan_members E (\<lambda>_. True) cp_require_approval ps c of
             Inl pat \<Rightarrow> (False, False, NoRule, Some (BadApprovalRegex pat))
           | Inr ap \<Rightarrow>
               (let needs = (ap \<noteq> None);
                    rule = (case ap of None \<Rightarrow> NoRule | Some pat \<Rightarrow> ApprovalRule pat)
                in case scan_members E is_allowlist cp_allow ps c of
                     Inl pat \<Rightarrow> (False, False, NoRule, Some (BadAllowRegex pat))
                   | Inr (Some pat) \<Rightarrow> (True, needs, if rule = NoRule then AllowRule pat else rule, None)
                   | Inr None \<Rightarrow>
                       (if \<not> ps_has_allowlist ps then (True, needs, rule, None)
                        else (False, needs, AllowlistNoMatch, None)))))"

text \<open>The loop of \<open>Decide\<close> over the simple commands, with needsApproval and rule so far.\<close>

fun decide_loop :: "go_env \<Rightarrow> policy_set \<Rightarrow> string list \<Rightarrow> bool \<Rightarrow> cmd_rule \<Rightarrow> cmd_verdict" where
  "decide_loop E ps [] needs rule = (True, needs, rule, None)"
| "decide_loop E ps (c # cs) needs rule =
     (case decide_one E ps c of (a, n, r, err) \<Rightarrow>
        (if err \<noteq> None \<or> \<not> a then (a, n, r, err)
         else if n \<and> \<not> needs then decide_loop E ps cs True r
         else if \<not> needs then decide_loop E ps cs needs r
         else decide_loop E ps cs needs rule))"

definition ps_decide :: "go_env \<Rightarrow> policy_set \<Rightarrow> string \<Rightarrow> cmd_verdict" where
  "ps_decide E ps command =
     (if ps = [] then (True, False, NoRule, None)
      else if ps_shell_parse ps then
        (case extract_commands E command of
           Inl e \<Rightarrow> (False, False, ShellParseRule e, Some (ShellError e))
         | Inr cmds \<Rightarrow> decide_loop E ps cmds False NoRule)
      else decide_loop E ps [command] False NoRule)"

section \<open>The specification: sets of patterns\<close>

text \<open>
  What the composition promises, without loops or orders: a command is denied when some deny pattern
  of some denylist matches, needs approval when some approval pattern of any member matches, is
  covered when no member is an allowlist or some allow pattern of some allowlist matches.
\<close>

definition rx_match :: "go_env \<Rightarrow> string \<Rightarrow> string \<Rightarrow> bool" where
  "rx_match E pat c = (case rx_compile E pat of None \<Rightarrow> False | Some m \<Rightarrow> m c)"

definition spec_denied :: "go_env \<Rightarrow> policy_set \<Rightarrow> string \<Rightarrow> bool" where
  "spec_denied E ps c = (\<exists>p \<in> set ps. is_denylist p \<and> (\<exists>pat \<in> set (cp_deny p). rx_match E pat c))"

definition spec_needs_approval :: "go_env \<Rightarrow> policy_set \<Rightarrow> string \<Rightarrow> bool" where
  "spec_needs_approval E ps c = (\<exists>p \<in> set ps. \<exists>pat \<in> set (cp_require_approval p). rx_match E pat c)"

definition spec_covered :: "go_env \<Rightarrow> policy_set \<Rightarrow> string \<Rightarrow> bool" where
  "spec_covered E ps c \<longleftrightarrow>
     (\<forall>p \<in> set ps. \<not> is_allowlist p)
   \<or> (\<exists>p \<in> set ps. is_allowlist p \<and> (\<exists>pat \<in> set (cp_allow p). rx_match E pat c))"

definition patterns_compile :: "go_env \<Rightarrow> policy_set \<Rightarrow> bool" where
  "patterns_compile E ps =
     (\<forall>p \<in> set ps. \<forall>pat \<in> set (cp_allow p @ cp_deny p @ cp_require_approval p). rx_compile E pat \<noteq> None)"

abbreviation verdict_allowed :: "cmd_verdict \<Rightarrow> bool" where
  "verdict_allowed v \<equiv> fst v"

abbreviation verdict_needs :: "cmd_verdict \<Rightarrow> bool" where
  "verdict_needs v \<equiv> fst (snd v)"

abbreviation verdict_rule :: "cmd_verdict \<Rightarrow> cmd_rule" where
  "verdict_rule v \<equiv> fst (snd (snd v))"

abbreviation verdict_err :: "cmd_verdict \<Rightarrow> cmd_error option" where
  "verdict_err v \<equiv> snd (snd (snd v))"

lemmas spec_defs = spec_denied_def spec_needs_approval_def spec_covered_def

section \<open>Lemmas\<close>

lemma scan_patterns_compile:
  "\<forall>pat \<in> set pats. rx_compile E pat \<noteq> None \<Longrightarrow>
   \<exists>r. scan_patterns E pats c = Inr r \<and> (r \<noteq> None \<longleftrightarrow> (\<exists>pat \<in> set pats. rx_match E pat c))"
  by (induction pats) (auto simp: rx_match_def)

lemma scan_members_compile:
  assumes "\<forall>p \<in> set ps. sel p \<longrightarrow> (\<forall>pat \<in> set (pats p). rx_compile E pat \<noteq> None)"
  shows "\<exists>r. scan_members E sel pats ps c = Inr r
    \<and> (r \<noteq> None \<longleftrightarrow> (\<exists>p \<in> set ps. sel p \<and> (\<exists>pat \<in> set (pats p). rx_match E pat c)))"
  using assms
proof (induction ps)
  case Nil
  then show ?case by simp
next
  case (Cons p ps)
  then obtain r where r: "scan_members E sel pats ps c = Inr r"
    "r \<noteq> None \<longleftrightarrow> (\<exists>p \<in> set ps. sel p \<and> (\<exists>pat \<in> set (pats p). rx_match E pat c))"
    by auto
  show ?case
  proof (cases "sel p")
    case False
    with r show ?thesis by auto
  next
    case True
    then obtain q where "scan_patterns E (pats p) c = Inr q"
      "q \<noteq> None \<longleftrightarrow> (\<exists>pat \<in> set (pats p). rx_match E pat c)"
      using scan_patterns_compile [of "pats p" E c] Cons.prems by auto
    with r True show ?thesis by (cases q) auto
  qed
qed

lemma has_allowlist_iff: "ps_has_allowlist ps \<longleftrightarrow> (\<exists>p \<in> set ps. is_allowlist p)"
  by (auto simp: ps_has_allowlist_def list_ex_iff)

lemma ps_restricts_iff: "ps_restricts ps \<longleftrightarrow> (\<exists>p \<in> set ps. cp_restricts p)"
  by (auto simp: ps_restricts_def list_ex_iff)

lemma decide_one_compiled:
  assumes "patterns_compile E ps"
  shows "verdict_allowed (decide_one E ps c) \<longleftrightarrow> \<not> spec_denied E ps c \<and> spec_covered E ps c"
    and "verdict_needs (decide_one E ps c) \<longleftrightarrow> \<not> spec_denied E ps c \<and> spec_needs_approval E ps c"
    and "verdict_err (decide_one E ps c) = None"
proof -
  obtain d where d: "scan_members E is_denylist cp_deny ps c = Inr d" "d \<noteq> None \<longleftrightarrow> spec_denied E ps c"
    using scan_members_compile [of ps is_denylist cp_deny E c] assms
    by (auto simp: patterns_compile_def spec_denied_def)
  obtain a where a: "scan_members E (\<lambda>_. True) cp_require_approval ps c = Inr a"
    "a \<noteq> None \<longleftrightarrow> spec_needs_approval E ps c"
    using scan_members_compile [of ps "\<lambda>_. True" cp_require_approval E c] assms
    by (auto simp: patterns_compile_def spec_needs_approval_def)
  obtain w where w: "scan_members E is_allowlist cp_allow ps c = Inr w"
    "w \<noteq> None \<longleftrightarrow> (\<exists>p \<in> set ps. is_allowlist p \<and> (\<exists>pat \<in> set (cp_allow p). rx_match E pat c))"
    using scan_members_compile [of ps is_allowlist cp_allow E c] assms
    by (auto simp: patterns_compile_def)
  have cov: "spec_covered E ps c \<longleftrightarrow> \<not> ps_has_allowlist ps \<or> w \<noteq> None"
    using w(2) by (auto simp: spec_covered_def has_allowlist_iff)
  show "verdict_allowed (decide_one E ps c) \<longleftrightarrow> \<not> spec_denied E ps c \<and> spec_covered E ps c"
    "verdict_needs (decide_one E ps c) \<longleftrightarrow> \<not> spec_denied E ps c \<and> spec_needs_approval E ps c"
    "verdict_err (decide_one E ps c) = None"
    using d(2) a(2) cov
    by (auto simp: decide_one_def d(1) a(1) w(1) Let_def split: option.splits)
qed

lemma decide_one_error: "verdict_err (decide_one E ps c) \<noteq> None \<Longrightarrow> \<not> verdict_allowed (decide_one E ps c)"
  by (auto simp: decide_one_def Let_def split: sum.splits option.splits if_splits)

lemma decide_one_no_err: "decide_one E ps c = (a, n, r, err) \<Longrightarrow> a \<Longrightarrow> err = None"
  using decide_one_error [of E ps c] by (cases err) auto

lemma decide_loop_allowed:
  "verdict_allowed (decide_loop E ps cs needs rule)
     \<longleftrightarrow> (\<forall>c \<in> set cs. verdict_allowed (decide_one E ps c))"
proof (induction cs arbitrary: needs rule)
  case Nil
  then show ?case by simp
next
  case (Cons c cs)
  obtain a n r err where v: "decide_one E ps c = (a, n, r, err)"
    by (cases "decide_one E ps c") auto
  have "a \<Longrightarrow> err = None" using decide_one_no_err [OF v] .
  then show ?case using Cons.IH by (cases a) (simp_all add: v)
qed

lemma decide_loop_needs:
  assumes "verdict_allowed (decide_loop E ps cs needs rule)"
  shows "verdict_needs (decide_loop E ps cs needs rule)
    \<longleftrightarrow> needs \<or> (\<exists>c \<in> set cs. verdict_needs (decide_one E ps c))"
  using assms
proof (induction cs arbitrary: needs rule)
  case Nil
  then show ?case by simp
next
  case (Cons c cs)
  obtain a n r err where v: "decide_one E ps c = (a, n, r, err)"
    by (cases "decide_one E ps c") auto
  have "a" using Cons.prems decide_loop_allowed [of E ps "c # cs" needs rule] by (simp add: v)
  moreover have "err = None" using decide_one_no_err [OF v \<open>a\<close>] .
  ultimately show ?case using Cons by (auto simp: v split: if_splits)
qed

lemma decide_loop_error:
  "verdict_err (decide_loop E ps cs needs rule) \<noteq> None \<Longrightarrow>
   \<not> verdict_allowed (decide_loop E ps cs needs rule)"
proof (induction cs arbitrary: needs rule)
  case (Cons c cs)
  obtain a n r err where v: "decide_one E ps c = (a, n, r, err)"
    by (cases "decide_one E ps c") auto
  have "a \<Longrightarrow> err = None" using decide_one_no_err [OF v] .
  then show ?case using Cons by (cases a) (auto simp: v split: if_splits)
qed simp

lemma decide_loop_err_compiled:
  "patterns_compile E ps \<Longrightarrow> verdict_err (decide_loop E ps cs needs rule) = None"
proof (induction cs arbitrary: needs rule)
  case (Cons c cs)
  then show ?case
    using decide_one_compiled(3) [of E ps c] by (cases "decide_one E ps c") auto
qed simp

text \<open>The simple commands a set decides on: one, or those of the parsed command.\<close>

definition policy_commands :: "go_env \<Rightarrow> policy_set \<Rightarrow> string \<Rightarrow> sh_error + string list" where
  "policy_commands E ps command =
     (if ps_shell_parse ps then extract_commands E command else Inr [command])"

lemma ps_decide_commands:
  "ps \<noteq> [] \<Longrightarrow> ps_decide E ps command =
     (case policy_commands E ps command of
        Inl e \<Rightarrow> (False, False, ShellParseRule e, Some (ShellError e))
      | Inr cmds \<Rightarrow> decide_loop E ps cmds False NoRule)"
  by (auto simp: ps_decide_def policy_commands_def)

lemma ps_decide_allowed:
  assumes "ps \<noteq> []"
  shows "verdict_allowed (ps_decide E ps command) \<longleftrightarrow>
    (\<exists>cmds. policy_commands E ps command = Inr cmds
          \<and> (\<forall>c \<in> set cmds. verdict_allowed (decide_one E ps c)))"
  using assms by (cases "policy_commands E ps command")
    (auto simp: ps_decide_commands decide_loop_allowed)

lemma find_None_iff': "List.find P xs = None \<longleftrightarrow> (\<forall>x \<in> set xs. \<not> P x)"
  by (auto simp: find_None_iff)

lemma cp_validate_compiles:
  assumes "cp_validate E cp = None" and "pat \<in> set (cp_allow cp @ cp_deny cp @ cp_require_approval cp)"
  shows "rx_compile E pat \<noteq> None"
proof -
  have "List.find (\<lambda>pat. rx_compile E pat = None)
      (cp_allow cp @ cp_deny cp @ cp_require_approval cp) = None"
    using assms(1) by (auto simp: cp_validate_def split: option.splits)
  then show ?thesis using assms(2) by (simp add: find_None_iff')
qed

lemma ps_validate_iff: "ps_validate E ps = None \<longleftrightarrow> (\<forall>p \<in> set ps. cp_validate E p = None)"
  by (induction ps) (auto split: option.splits)

lemma ps_validate_compiles: "ps_validate E ps = None \<Longrightarrow> patterns_compile E ps"
  unfolding patterns_compile_def ps_validate_iff using cp_validate_compiles by blast

lemma enforcement_loop_audit:
  "enforcement_loop b ps = CmdPolicyAudit \<longleftrightarrow>
   (b \<or> (\<exists>p \<in> set ps. cp_restricts p))
   \<and> (\<forall>p \<in> set ps. cp_restricts p \<longrightarrow> cp_enforcement p = CmdPolicyAudit)"
  by (induction ps arbitrary: b) auto

lemma enforcement_cases: "ps_enforcement ps = CmdPolicyAudit \<or> ps_enforcement ps = CmdPolicyEnforce"
proof -
  have "enforcement_loop b ps = CmdPolicyAudit \<or> enforcement_loop b ps = CmdPolicyEnforce" for b
    by (induction ps arbitrary: b) auto
  then show ?thesis by (simp add: ps_enforcement_def)
qed


lemma patterns_compile_append [simp]:
  "patterns_compile E (ps @ qs) \<longleftrightarrow> patterns_compile E ps \<and> patterns_compile E qs"
  by (auto simp: patterns_compile_def)

lemma ps_shell_parse_append [simp]:
  "ps_shell_parse (ps @ qs) \<longleftrightarrow> ps_shell_parse ps \<or> ps_shell_parse qs"
  by (simp add: ps_shell_parse_def)

lemma mset_eq_set: "mset ps = mset qs \<Longrightarrow> set ps = set qs"
  by (metis set_mset_mset)

lemma policy_commands_parse:
  "ps_shell_parse ps = ps_shell_parse qs \<Longrightarrow> policy_commands E ps c = policy_commands E qs c"
  by (simp add: policy_commands_def)

lemma ps_decide_needs:
  assumes "ps \<noteq> []" and "policy_commands E ps command = Inr cmds"
    and "verdict_allowed (ps_decide E ps command)"
  shows "verdict_needs (ps_decide E ps command) \<longleftrightarrow> (\<exists>c \<in> set cmds. verdict_needs (decide_one E ps c))"
  using assms decide_loop_needs [of E ps cmds False NoRule]
  by (simp add: ps_decide_commands)

lemma ps_decide_err:
  assumes "patterns_compile E ps" and "ps \<noteq> []"
  shows "verdict_err (ps_decide E ps command) =
    (case policy_commands E ps command of Inl e \<Rightarrow> Some (ShellError e) | Inr _ \<Rightarrow> None)"
  using assms decide_loop_err_compiled [of E ps]
  by (cases "policy_commands E ps command") (simp_all add: ps_decide_commands)

text \<open>
  A widening policy, the shape in which a runtime grant enters a set: an allowlist with allow
  patterns only.
\<close>

definition widening :: "command_policy \<Rightarrow> bool" where
  "widening p = (is_allowlist p \<and> cp_deny p = [] \<and> cp_require_approval p = [])"

lemma widening_spec:
  assumes "\<forall>g \<in> set gs. widening g" and "ps_has_allowlist ps"
  shows "spec_denied E (ps @ gs) c = spec_denied E ps c"
    and "spec_needs_approval E (ps @ gs) c = spec_needs_approval E ps c"
    and "spec_covered E ps c \<Longrightarrow> spec_covered E (ps @ gs) c"
  using assms by (auto simp: spec_defs widening_def has_allowlist_iff)

lemma widening_decide:
  assumes "\<forall>g \<in> set gs. widening g" and "ps_has_allowlist ps" and "ps_shell_parse ps"
    and "patterns_compile E (ps @ gs)" and "verdict_allowed (ps_decide E ps command)"
  shows "verdict_allowed (ps_decide E (ps @ gs) command)"
    and "verdict_needs (ps_decide E (ps @ gs) command) = verdict_needs (ps_decide E ps command)"
proof -
  have ne: "ps \<noteq> []" "ps @ gs \<noteq> []" using assms(2) by (auto simp: ps_has_allowlist_def)
  have comp: "patterns_compile E ps" using assms(4) by simp
  note one = decide_one_compiled [OF comp] and two = decide_one_compiled [OF assms(4)]
  note wid = widening_spec [OF assms(1,2)]
  have pc: "policy_commands E (ps @ gs) command = policy_commands E ps command"
    using assms(3) by (intro policy_commands_parse) simp
  obtain cmds where c: "policy_commands E ps command = Inr cmds"
    "\<forall>c \<in> set cmds. verdict_allowed (decide_one E ps c)"
    using assms(5) ne by (auto simp: ps_decide_allowed)
  show ok: "verdict_allowed (ps_decide E (ps @ gs) command)"
    using c wid(3) ne(2) by (auto simp: ps_decide_allowed [OF ne(2)] pc one two wid(1))
  have "verdict_needs (decide_one E (ps @ gs) c) = verdict_needs (decide_one E ps c)" for c
    by (simp add: one two wid(1,2))
  then show "verdict_needs (ps_decide E (ps @ gs) command) = verdict_needs (ps_decide E ps command)"
    using ps_decide_needs [OF ne(1) c(1) assms(5)] ps_decide_needs [OF ne(2) c(1) [folded pc] ok]
    by simp
qed

section \<open>Properties\<close>

text \<open>
  C5: on a validated policy set, \<open>Decide\<close> computes the order-free specification: the command is
  allowed exactly when it parses into simple commands none of which a denylist matches and each of
  which is covered by the union of the allowlists; an allowed command needs approval exactly when
  some simple command matches an approval pattern; and the only error is the shell parser's.
\<close>

theorem decide_meets_spec:
  assumes "ps_validate E ps = None" and "ps \<noteq> []"
  shows "(verdict_allowed (ps_decide E ps command) \<longleftrightarrow>
           (\<exists>cmds. policy_commands E ps command = Inr cmds
              \<and> (\<forall>c \<in> set cmds. \<not> spec_denied E ps c \<and> spec_covered E ps c)))
    \<and> (verdict_allowed (ps_decide E ps command) \<longrightarrow>
           (verdict_needs (ps_decide E ps command) \<longleftrightarrow>
             (\<exists>cmds. policy_commands E ps command = Inr cmds
                \<and> (\<exists>c \<in> set cmds. spec_needs_approval E ps c))))
    \<and> (verdict_err (ps_decide E ps command) \<noteq> None \<longleftrightarrow>
           (\<exists>e. policy_commands E ps command = Inl e))"
proof -
  have comp: "patterns_compile E ps" using assms(1) by (rule ps_validate_compiles)
  note one = decide_one_compiled [OF comp]
  have allowed: "verdict_allowed (ps_decide E ps command) \<longleftrightarrow>
     (\<exists>cmds. policy_commands E ps command = Inr cmds
        \<and> (\<forall>c \<in> set cmds. \<not> spec_denied E ps c \<and> spec_covered E ps c))"
    using assms(2) by (simp add: ps_decide_allowed one)
  have needs: "verdict_needs (ps_decide E ps command) \<longleftrightarrow>
     (\<exists>cmds. policy_commands E ps command = Inr cmds
        \<and> (\<exists>c \<in> set cmds. spec_needs_approval E ps c))"
    if ok: "verdict_allowed (ps_decide E ps command)"
  proof -
    obtain cmds where c: "policy_commands E ps command = Inr cmds"
      "\<forall>c \<in> set cmds. \<not> spec_denied E ps c" using ok allowed by blast
    then show ?thesis using ps_decide_needs [OF assms(2) c(1) ok] by (auto simp: one)
  qed
  have err: "verdict_err (ps_decide E ps command) \<noteq> None \<longleftrightarrow>
     (\<exists>e. policy_commands E ps command = Inl e)"
    using ps_decide_err [OF comp assms(2), of command] by (auto split: sum.splits)
  show ?thesis using allowed needs err by blast
qed

text \<open>
  The composition of policies does not depend on their order (which comes from the order of a
  host's groups): two validated sets with the same members allow the same commands and ask for
  approval of the same allowed commands.
\<close>

theorem decide_order_independent:
  assumes "mset ps = mset qs" and "ps_validate E ps = None"
  shows "verdict_allowed (ps_decide E ps command) = verdict_allowed (ps_decide E qs command)
    \<and> (verdict_allowed (ps_decide E ps command) \<longrightarrow>
        verdict_needs (ps_decide E ps command) = verdict_needs (ps_decide E qs command))"
proof (cases "ps = []")
  case True
  then show ?thesis using assms(1) by simp
next
  case False
  have st: "set ps = set qs" using assms(1) by (rule mset_eq_set)
  have q: "qs \<noteq> []" using False st by auto
  have comp: "patterns_compile E ps" "patterns_compile E qs"
    using ps_validate_compiles [OF assms(2)] st by (auto simp: patterns_compile_def)
  have pc: "policy_commands E ps command = policy_commands E qs command"
    using st by (intro policy_commands_parse) (auto simp: ps_shell_parse_def list_ex_iff)
  have one: "verdict_allowed (decide_one E ps c) = verdict_allowed (decide_one E qs c)"
    "verdict_needs (decide_one E ps c) = verdict_needs (decide_one E qs c)" for c
    using st by (simp_all add: decide_one_compiled [OF comp(1)] decide_one_compiled [OF comp(2)]
        spec_defs)
  have allowed: "verdict_allowed (ps_decide E ps command) = verdict_allowed (ps_decide E qs command)"
    using False q by (simp add: ps_decide_allowed pc one)
  moreover have "verdict_needs (ps_decide E ps command) = verdict_needs (ps_decide E qs command)"
    if ok: "verdict_allowed (ps_decide E ps command)"
  proof -
    obtain cmds where c: "policy_commands E ps command = Inr cmds"
      using ok False by (auto simp: ps_decide_allowed)
    show ?thesis
      using ps_decide_needs [OF False c ok] ps_decide_needs [OF q c [unfolded pc]] ok allowed one
      by simp
  qed
  ultimately show ?thesis by blast
qed

text \<open>
  \<open>Decide\<close> fails closed: whatever goes wrong (a pattern that does not compile, a command the
  shell parser or the tree walk refuses), the verdict that comes with the error is not allowed,
  for validated and unvalidated sets alike.
\<close>

theorem decide_fail_closed:
  assumes "verdict_err (ps_decide E ps command) \<noteq> None"
  shows "\<not> verdict_allowed (ps_decide E ps command) \<and> ps \<noteq> []"
proof -
  have ne: "ps \<noteq> []" using assms by (auto simp: ps_decide_def)
  then have "\<not> verdict_allowed (ps_decide E ps command)"
    using assms decide_loop_error
    by (cases "policy_commands E ps command") (auto simp: ps_decide_commands)
  with ne show ?thesis by simp
qed

text \<open>
  Adding widening policies (allowlists with allow patterns only) to a set that already has an
  allowlist and already parses commands can only widen it: every allowed command stays allowed with
  the same need for approval, and a command with a simple command some denylist matches stays
  denied.
\<close>

theorem widening_only_widens:
  assumes "\<forall>g \<in> set gs. widening g" and "ps_has_allowlist ps" and "ps_shell_parse ps"
    and "patterns_compile E (ps @ gs)" and "verdict_allowed (ps_decide E ps command)"
  shows "verdict_allowed (ps_decide E (ps @ gs) command)
    \<and> verdict_needs (ps_decide E (ps @ gs) command) = verdict_needs (ps_decide E ps command)"
  using widening_decide [OF assms] by simp

text \<open>
  A composed set is observed only (\<open>audit\<close>) exactly when it has a restricting member and every
  restricting member is \<open>audit\<close>; in every other case it enforces.
\<close>

theorem enforcement_is_conservative:
  "ps_enforcement ps =
     (if {p \<in> set ps. cp_restricts p} \<noteq> {}
       \<and> cp_enforcement ` {p \<in> set ps. cp_restricts p} \<subseteq> {CmdPolicyAudit}
      then CmdPolicyAudit else CmdPolicyEnforce)"
proof -
  have "ps_enforcement ps = CmdPolicyAudit \<longleftrightarrow> {p \<in> set ps. cp_restricts p} \<noteq> {}
      \<and> cp_enforcement ` {p \<in> set ps. cp_restricts p} \<subseteq> {CmdPolicyAudit}" (is "_ \<longleftrightarrow> ?C")
    by (auto simp: ps_enforcement_def enforcement_loop_audit)
  moreover have "\<not> ?C \<Longrightarrow> ps_enforcement ps = CmdPolicyEnforce"
    using calculation enforcement_cases [of ps] by blast
  ultimately show ?thesis by (cases ?C) (simp_all only: if_True if_False simp_thms)
qed

text \<open>
  A set whose members all opted out of shell parsing matches the raw command; a widening policy
  with the default setting, which is how a live grant is added, turns parsing on for the whole set
  and can thereby refuse a command the set allowed before.
\<close>

theorem widening_can_narrow_raw_matching:
  "\<exists>E ps g command. widening g \<and> ps_has_allowlist ps \<and> patterns_compile E (ps @ [g])
     \<and> cp_shell_parse g = None \<and> verdict_allowed (ps_decide E ps command)
     \<and> \<not> verdict_allowed (ps_decide E (ps @ [g]) command)"
proof -
  let ?p = "\<lparr>cp_mode = CmdPolicyAllowlist, cp_enforcement = [], cp_allow = [''^env ''], cp_deny = [],
      cp_require_approval = [], cp_shell_parse = Some False\<rparr>"
  let ?g = "\<lparr>cp_mode = CmdPolicyAllowlist, cp_enforcement = [], cp_allow = [''^ls''], cp_deny = [],
      cp_require_approval = [], cp_shell_parse = None\<rparr>"
  have "verdict_allowed (ps_decide example_env [?p] ''env ls'')" by code_simp
  moreover have "\<not> verdict_allowed (ps_decide example_env ([?p] @ [?g]) ''env ls'')" by code_simp
  moreover have "ps_has_allowlist [?p]" by code_simp
  moreover have "patterns_compile example_env ([?p] @ [?g])"
    by (simp add: patterns_compile_def example_env_def example_rx_def)
  moreover have "widening ?g" by (simp add: widening_def)
  ultimately show ?thesis
    by (intro exI [where x = example_env] exI [where x = "[?p]"] exI [where x = ?g]
        exI [where x = "''env ls''"]) simp
qed

section \<open>Witnesses\<close>

definition example_allow :: command_policy where
  "example_allow = \<lparr>cp_mode = CmdPolicyAllowlist, cp_enforcement = [], cp_allow = [''^ls''], cp_deny = [],
     cp_require_approval = [''secret''], cp_shell_parse = None\<rparr>"

definition example_deny :: command_policy where
  "example_deny = \<lparr>cp_mode = CmdPolicyDenylist, cp_enforcement = [], cp_allow = [], cp_deny = [''rm''],
     cp_require_approval = [], cp_shell_parse = None\<rparr>"

definition example_grant :: command_policy where
  "example_grant = \<lparr>cp_mode = CmdPolicyAllowlist, cp_enforcement = [], cp_allow = [''^df''], cp_deny = [],
     cp_require_approval = [], cp_shell_parse = None\<rparr>"

lemma example_policies_valid: "ps_validate example_env [example_allow, example_deny] = None"
  by code_simp

theorem decide_meets_spec_witness:
  "verdict_allowed (ps_decide example_env [example_allow, example_deny] ''ls secret'')
   \<longleftrightarrow> (\<exists>cmds. policy_commands example_env [example_allow, example_deny] ''ls secret'' = Inr cmds
      \<and> (\<forall>c \<in> set cmds. \<not> spec_denied example_env [example_allow, example_deny] c
            \<and> spec_covered example_env [example_allow, example_deny] c))"
  using decide_meets_spec [OF example_policies_valid, of "''ls secret''"] by blast

theorem decide_order_independent_witness:
  "verdict_allowed (ps_decide example_env [example_allow, example_deny] ''ls rm'')
   = verdict_allowed (ps_decide example_env [example_deny, example_allow] ''ls rm'')"
  using decide_order_independent [OF _ example_policies_valid,
      of "[example_deny, example_allow]" "''ls rm''"]
  by (simp add: add_mset_commute)

theorem decide_fail_closed_witness:
  "\<not> verdict_allowed (ps_decide example_env [example_allow] ''bash -c id'')"
proof -
  have "verdict_err (ps_decide example_env [example_allow] ''bash -c id'') \<noteq> None" by code_simp
  then show ?thesis using decide_fail_closed by blast
qed

theorem widening_only_widens_witness:
  "verdict_allowed (ps_decide example_env ([example_allow] @ [example_grant]) ''ls -l'')"
proof -
  have w: "\<forall>g \<in> set [example_grant]. widening g" by (simp add: widening_def example_grant_def)
  have "ps_validate example_env ([example_allow] @ [example_grant]) = None" by code_simp
  then have c: "patterns_compile example_env ([example_allow] @ [example_grant])"
    by (rule ps_validate_compiles)
  have h: "ps_has_allowlist [example_allow]" "ps_shell_parse [example_allow]"
    "verdict_allowed (ps_decide example_env [example_allow] ''ls -l'')"
    by code_simp+
  show ?thesis using widening_only_widens [OF w h(1,2) c h(3)] by simp
qed

end
