(* ===== verification/Host_Policy.thy ===== *)
theory Host_Policy
  imports Signer_Types Command_Policy
begin

text \<open>
  The declaration of a host and the compilation of the host table at configuration load:
  \<open>HostPolicy\<close>, \<open>PolicyTable\<close>, \<open>CompileHostPolicies\<close>, \<open>composePolicies\<close>, \<open>effectivePolicies\<close> and the
  caller and group predicates of \<open>internal/signer/signer.go\<close>, with the caller table
  (\<open>CallerPolicy\<close>, \<open>HostSetForCaller\<close>, \<open>MaySelfApprove\<close>, \<open>MayRequireVerifiedEndUser\<close>).

  \<open>hp_policies\<close> is \<^term>\<open>None\<close> where the Go slice is nil.
\<close>

section \<open>Data\<close>

record host_policy =
  hp_addr :: string
  hp_user :: string
  hp_host_key :: string
  hp_jump :: string
  hp_principal :: string
  hp_source_address :: string
  hp_max_ttl :: go_duration
  hp_max_ttl_seconds :: int
  hp_allow_as_bastion :: bool
  hp_allowed_callers :: "string list"
  hp_allow_sudo :: bool
  hp_allowed_sudo_users :: "string list"
  hp_allow_pty :: bool
  hp_allow_file_transfer :: bool
  hp_groups :: "string list"
  hp_sealed_exec :: bool
  hp_command_policy :: command_policy
  hp_policies :: "policy_set option"

type_synonym policy_table = "(string, host_policy) go_map"
type_synonym policy_library = "(string, command_policy) go_map"
type_synonym group_policies = "(string, string list) go_map"

datatype config_error =
    LibraryPolicy string policy_error
  | UnknownPolicyRef string string
  | UndefinedJump string string
  | MaxTTLTooLong string int
  | InlinePolicy string policy_error
  | BastionAndPolicy string

section \<open>Composition and compilation\<close>

text \<open>The closure \<open>add\<close> of \<open>composePolicies\<close>: the names seen so far and the set so far.\<close>

fun add_policies :: "policy_library \<Rightarrow> string list \<Rightarrow> string list \<times> policy_set \<Rightarrow> string list \<times> policy_set" where
  "add_policies lib [] (seen, ps) = (seen, ps)"
| "add_policies lib (n # ns) (seen, ps) =
     (if n \<in> set seen then add_policies lib ns (seen, ps)
      else case map_of lib n of
        None \<Rightarrow> add_policies lib ns (seen, ps)
      | Some cp \<Rightarrow> add_policies lib ns (n # seen, ps @ [cp]))"

definition group_names :: "group_policies \<Rightarrow> string \<Rightarrow> string list" where
  "group_names gp g = (case map_of gp g of None \<Rightarrow> [] | Some ns \<Rightarrow> ns)"

definition compose_policies :: "host_policy \<Rightarrow> policy_library \<Rightarrow> group_policies \<Rightarrow> policy_set" where
  "compose_policies hp lib gp =
     (let st = fold (\<lambda>g. add_policies lib (group_names gp g)) (hp_groups hp)
                 (add_policies lib (group_names gp ''_default'') ([], []))
      in snd st @ (if cp_restricts (hp_command_policy hp) then [hp_command_policy hp] else []))"

definition effective_policies :: "host_policy \<Rightarrow> policy_set" where
  "effective_policies hp =
     (case hp_policies hp of
        Some ps \<Rightarrow> ps
      | None \<Rightarrow> (if cp_restricts (hp_command_policy hp) then [hp_command_policy hp] else []))"

fun check_library :: "go_env \<Rightarrow> policy_library \<Rightarrow> config_error option" where
  "check_library E [] = None"
| "check_library E ((name, cp) # lib) =
     (case cp_validate E cp of Some e \<Rightarrow> Some (LibraryPolicy name e) | None \<Rightarrow> check_library E lib)"

fun check_groups :: "policy_library \<Rightarrow> group_policies \<Rightarrow> config_error option" where
  "check_groups lib [] = None"
| "check_groups lib ((grp, names) # gp) =
     (case List.find (\<lambda>n. \<not> map_has lib n) names of
        Some n \<Rightarrow> Some (UnknownPolicyRef grp n)
      | None \<Rightarrow> check_groups lib gp)"

definition with_policies :: "host_policy \<Rightarrow> policy_set \<Rightarrow> host_policy" where
  "with_policies hp ps = hp\<lparr>hp_policies := (if ps = [] then None else Some ps)\<rparr>"

text \<open>The checks of one host, in order, and the host with its composed policies.\<close>

definition compile_host :: "go_env \<Rightarrow> policy_table \<Rightarrow> policy_library \<Rightarrow> group_policies \<Rightarrow> string \<Rightarrow>
    host_policy \<Rightarrow> config_error + host_policy" where
  "compile_host E hosts lib gp name hp =
     (if hp_jump hp \<noteq> [] \<and> \<not> map_has hosts (hp_jump hp) then Inl (UndefinedJump name (hp_jump hp))
      else if hp_max_ttl_seconds hp > 900 then Inl (MaxTTLTooLong name (hp_max_ttl_seconds hp))
      else case cp_validate E (hp_command_policy hp) of
        Some e \<Rightarrow> Inl (InlinePolicy name e)
      | None \<Rightarrow>
          (let ps = compose_policies hp lib gp in
           if hp_allow_as_bastion hp \<and> ps_restricts ps then Inl (BastionAndPolicy name)
           else Inr (with_policies hp ps)))"

fun compile_hosts :: "go_env \<Rightarrow> policy_table \<Rightarrow> policy_library \<Rightarrow> group_policies \<Rightarrow> policy_table \<Rightarrow>
    config_error + policy_table" where
  "compile_hosts E hosts lib gp [] = Inr []"
| "compile_hosts E hosts lib gp ((name, hp) # rest) =
     (case compile_host E hosts lib gp name hp of
        Inl e \<Rightarrow> Inl e
      | Inr hp' \<Rightarrow>
          (case compile_hosts E hosts lib gp rest of
             Inl e \<Rightarrow> Inl e
           | Inr out \<Rightarrow> Inr ((name, hp') # out)))"

definition compile_host_policies :: "go_env \<Rightarrow> policy_table \<Rightarrow> policy_library \<Rightarrow> group_policies \<Rightarrow>
    config_error + policy_table" where
  "compile_host_policies E hosts lib gp =
     (case check_library E lib of
        Some e \<Rightarrow> Inl e
      | None \<Rightarrow>
          (case check_groups lib gp of
             Some e \<Rightarrow> Inl e
           | None \<Rightarrow> compile_hosts E hosts lib gp hosts))"

definition validate_table :: "go_env \<Rightarrow> policy_table \<Rightarrow> config_error option" where
  "validate_table E hosts =
     (case compile_host_policies E hosts [] [] of Inl e \<Rightarrow> Some e | Inr _ \<Rightarrow> None)"

section \<open>Callers and groups\<close>

definition caller_allowed :: "string list \<Rightarrow> string \<Rightarrow> bool" where
  "caller_allowed allowed caller = (allowed = [] \<or> caller \<in> set allowed)"

definition allows_caller :: "host_policy \<Rightarrow> string \<Rightarrow> bool" where
  "allows_caller hp cn = caller_allowed (hp_allowed_callers hp) cn"

definition groups_intersect :: "string list \<Rightarrow> string list \<Rightarrow> bool" where
  "groups_intersect host_groups user_groups = list_ex (\<lambda>g. g \<in> set user_groups) host_groups"

definition has_control_char :: "string \<Rightarrow> bool" where
  "has_control_char s = list_ex (\<lambda>c. (of_char c :: nat) < 32 \<or> (of_char c :: nat) = 127) s"

definition has_unsafe_token_char :: "string \<Rightarrow> bool" where
  "has_unsafe_token_char s = (has_control_char s \<or> contains_any s [CHR '' '', CHR 0x09])"

record caller_policy =
  cl_allowed_groups :: "string list"
  cl_self_approve :: bool
  cl_require_verified_end_user :: bool

type_synonym caller_table = "(string, caller_policy) go_map"

abbreviation DefaultCallerKey :: string where "DefaultCallerKey \<equiv> ''_default''"

definition may_self_approve :: "caller_table \<Rightarrow> string \<Rightarrow> bool" where
  "may_self_approve t cn =
     (if cn = DefaultCallerKey then False
      else case map_of t cn of None \<Rightarrow> False | Some cp \<Rightarrow> cl_self_approve cp)"

definition may_require_verified_end_user :: "caller_table \<Rightarrow> string \<Rightarrow> bool" where
  "may_require_verified_end_user t cn =
     (if cn = DefaultCallerKey then False
      else case map_of t cn of None \<Rightarrow> False | Some cp \<Rightarrow> cl_require_verified_end_user cp)"

definition zero_caller_policy :: caller_policy where
  "zero_caller_policy =
     \<lparr>cl_allowed_groups = [], cl_self_approve = False, cl_require_verified_end_user = False\<rparr>"

definition caller_groups :: "string \<Rightarrow> caller_table \<Rightarrow> string list" where
  "caller_groups cn callers =
     cl_allowed_groups
       (case map_of callers cn of
          Some cp \<Rightarrow> cp
        | None \<Rightarrow> (case map_of callers DefaultCallerKey of Some cp \<Rightarrow> cp | None \<Rightarrow> zero_caller_policy))"

text \<open>\<^term>\<open>None\<close> is the unrestricted result \<open>(nil, false)\<close>.\<close>

definition host_set_for_caller :: "string \<Rightarrow> policy_table \<Rightarrow> caller_table \<Rightarrow> string list option" where
  "host_set_for_caller cn policy callers =
     (if callers = [] then None
      else let allowed = caller_groups cn callers in
           Some (map fst (filter (\<lambda>(h, hp). list_ex (\<lambda>g. g \<in> set allowed) (hp_groups hp)) policy)))"

section \<open>Lemmas\<close>

lemma add_policies_set:
  assumes "add_policies lib ns (seen, ps) = (seen', ps')"
  shows "set seen' = set seen \<union> {n \<in> set ns. map_has lib n}"
    and "(\<forall>n \<in> set seen. map_has lib n) \<Longrightarrow> set ps = (\<lambda>n. the (map_of lib n)) ` set seen \<Longrightarrow>
         set ps' = (\<lambda>n. the (map_of lib n)) ` set seen'"
    and "length seen = length ps \<Longrightarrow> length seen' = length ps'"
    and "distinct seen \<Longrightarrow> distinct seen'"
  using assms
proof (induction ns arbitrary: seen ps)
  case (Cons n ns)
  {
    case 1
    then show ?case using Cons by (auto simp: map_has_def split: if_splits option.splits)
  next
    case 2
    then show ?case
    proof (cases "n \<in> set seen \<or> map_of lib n = None")
      case True
      then show ?thesis using 2 Cons.IH(2) by (auto split: if_splits option.splits)
    next
      case False
      then obtain cp where cp: "map_of lib n = Some cp" by auto
      have "add_policies lib ns (n # seen, ps @ [cp]) = (seen', ps')"
        using 2(3) False cp by simp
      then show ?thesis
        using 2(1,2) cp by (intro Cons.IH(2)) (auto simp: map_has_def)
    qed
  next
    case 3
    then show ?case
      using Cons.IH(3) [of seen ps] Cons.IH(3) [of "n # seen" "ps @ [the (map_of lib n)]"]
      by (auto split: if_splits option.splits)
  next
    case 4
    then show ?case
      using Cons.IH(4) [of seen ps] Cons.IH(4) [of "n # seen" "ps @ [the (map_of lib n)]"]
      by (auto split: if_splits option.splits)
  }
qed auto

definition compose_inv :: "policy_library \<Rightarrow> string set \<Rightarrow> string list \<times> policy_set \<Rightarrow> bool" where
  "compose_inv lib N st \<longleftrightarrow> set (fst st) = {n \<in> N. map_has lib n}
     \<and> set (snd st) = (\<lambda>n. the (map_of lib n)) ` {n \<in> N. map_has lib n}
     \<and> distinct (fst st) \<and> length (fst st) = length (snd st)"

lemma compose_inv_add:
  assumes "compose_inv lib N st"
  shows "compose_inv lib (N \<union> set ns) (add_policies lib ns st)"
proof -
  obtain seen ps where st: "st = (seen, ps)" by (cases st)
  obtain seen' ps' where add: "add_policies lib ns (seen, ps) = (seen', ps')"
    by (cases "add_policies lib ns (seen, ps)")
  note A = add_policies_set [OF add]
  have seen: "set seen = {n \<in> N. map_has lib n}"
    using assms st by (simp add: compose_inv_def)
  have un: "set seen' = {n \<in> N \<union> set ns. map_has lib n}" using A(1) seen by auto
  have "set ps' = (\<lambda>n. the (map_of lib n)) ` set seen'"
    using assms st seen by (intro A(2)) (auto simp: compose_inv_def)
  then show ?thesis
    using un A(3,4) assms st add by (simp add: compose_inv_def)
qed

lemma compose_inv_fold:
  "compose_inv lib N st \<Longrightarrow>
   compose_inv lib (N \<union> (\<Union>g \<in> set gs. set (group_names gp g)))
     (fold (\<lambda>g. add_policies lib (group_names gp g)) gs st)"
proof (induction gs arbitrary: N st)
  case (Cons g gs)
  have "compose_inv lib ((N \<union> set (group_names gp g)) \<union> (\<Union>g \<in> set gs. set (group_names gp g)))
     (fold (\<lambda>g. add_policies lib (group_names gp g)) gs (add_policies lib (group_names gp g) st))"
    by (rule Cons.IH [OF compose_inv_add [OF Cons.prems]])
  then show ?case by (simp add: Un_assoc)
qed simp

text \<open>The names whose policies apply to a host.\<close>

definition attached_names :: "host_policy \<Rightarrow> group_policies \<Rightarrow> string set" where
  "attached_names hp gp =
     set (group_names gp ''_default'') \<union> (\<Union>g \<in> set (hp_groups hp). set (group_names gp g))"

lemma set_compose_policies:
  "set (compose_policies hp lib gp) =
     (\<lambda>n. the (map_of lib n)) ` {n \<in> attached_names hp gp. map_has lib n}
   \<union> (if cp_restricts (hp_command_policy hp) then {hp_command_policy hp} else {})"
proof -
  have "compose_inv lib {} ([], [])" by (simp add: compose_inv_def)
  from compose_inv_fold [OF compose_inv_add [OF this, of "group_names gp ''_default''"],
      where gs = "hp_groups hp" and gp = gp]
  show ?thesis
    by (auto simp: compose_policies_def compose_inv_def attached_names_def Let_def)
qed

lemma check_library_None: "check_library E lib = None \<longleftrightarrow> (\<forall>(n, cp) \<in> set lib. cp_validate E cp = None)"
  by (induction lib) (auto split: option.splits)

lemma check_groups_None:
  "check_groups lib gp = None \<longleftrightarrow> (\<forall>(g, ns) \<in> set gp. \<forall>n \<in> set ns. map_has lib n)"
  by (induction gp) (auto simp: find_None_iff find_Some_iff split: option.splits)

lemma compose_validates:
  assumes "check_library E lib = None" and "cp_validate E (hp_command_policy hp) = None"
  shows "ps_validate E (compose_policies hp lib gp) = None"
proof -
  have "cp_validate E (the (map_of lib n)) = None" if "map_has lib n" for n
    using that assms(1) by (fastforce simp: check_library_None map_has_def dest: map_of_SomeD)
  then show ?thesis
    unfolding ps_validate_iff set_compose_policies using assms(2) by (auto split: if_splits)
qed

lemma effective_with_policies:
  "effective_policies (with_policies hp (compose_policies hp lib gp)) = compose_policies hp lib gp"
  by (auto simp: effective_policies_def with_policies_def compose_policies_def Let_def)

lemma compile_hosts_defined:
  "(\<exists>out. compile_hosts E hosts lib gp tbl = Inr out) \<longleftrightarrow>
   (\<forall>(n, hp) \<in> set tbl. \<exists>hp'. compile_host E hosts lib gp n hp = Inr hp')"
proof (induction tbl)
  case (Cons p tbl)
  obtain n hp where p: "p = (n, hp)" by (cases p)
  show ?case
    using Cons.IH
    by (cases "compile_host E hosts lib gp n hp"; cases "compile_hosts E hosts lib gp tbl")
      (auto simp: p)
qed simp

lemma compile_hosts_keys: "compile_hosts E hosts lib gp tbl = Inr out \<Longrightarrow> map fst out = map fst tbl"
  by (induction tbl arbitrary: out) (auto split: sum.splits)

lemma compile_hosts_lookup:
  assumes "compile_hosts E hosts lib gp tbl = Inr out"
  shows "map_of out n = (case map_of tbl n of
      None \<Rightarrow> None | Some hp \<Rightarrow> (case compile_host E hosts lib gp n hp of Inl _ \<Rightarrow> None | Inr hp' \<Rightarrow> Some hp'))"
  using assms
proof (induction tbl arbitrary: out)
  case (Cons p tbl)
  obtain m hp where p: "p = (m, hp)" by (cases p)
  from Cons.prems obtain hp' out' where o: "compile_host E hosts lib gp m hp = Inr hp'"
    "compile_hosts E hosts lib gp tbl = Inr out'" "out = (m, hp') # out'"
    by (auto simp: p split: sum.splits)
  show ?case using Cons.IH [OF o(2)] o by (auto simp: p)
qed simp

lemma compile_host_Inr:
  "compile_host E hosts lib gp name hp = Inr hp' \<longleftrightarrow>
     (hp_jump hp = [] \<or> map_has hosts (hp_jump hp)) \<and> hp_max_ttl_seconds hp \<le> 900
   \<and> cp_validate E (hp_command_policy hp) = None
   \<and> \<not> (hp_allow_as_bastion hp \<and> ps_restricts (compose_policies hp lib gp))
   \<and> hp' = with_policies hp (compose_policies hp lib gp)"
  by (auto simp: compile_host_def Let_def split: option.splits)


lemma compile_host_policies_Inr:
  assumes "compile_host_policies E hosts lib gp = Inr out"
  shows "check_library E lib = None" "check_groups lib gp = None"
    "compile_hosts E hosts lib gp hosts = Inr out"
  using assms by (auto simp: compile_host_policies_def split: option.splits)

lemma compiled_host:
  assumes "compile_host_policies E hosts lib gp = Inr out" and "map_of out n = Some hp'"
  obtains hp where "map_of hosts n = Some hp" "compile_host E hosts lib gp n hp = Inr hp'"
  using assms(2) compile_hosts_lookup [OF compile_host_policies_Inr(3) [OF assms(1)], of n]
  by (auto split: option.splits sum.splits)

section \<open>Properties\<close>

text \<open>
  Compiling the host table succeeds exactly when every library policy validates, every group
  refers to library policies only, and every host has a defined jump, a TTL cap of at most 900
  seconds, a valid inline policy, and is not both a bastion and restricted by its composed policies.
\<close>

theorem compile_host_policies_iff:
  "(\<exists>out. compile_host_policies E hosts lib gp = Inr out) \<longleftrightarrow>
     (\<forall>(n, cp) \<in> set lib. cp_validate E cp = None)
   \<and> (\<forall>(g, ns) \<in> set gp. \<forall>n \<in> set ns. map_has lib n)
   \<and> (\<forall>(n, hp) \<in> set hosts. (hp_jump hp = [] \<or> map_has hosts (hp_jump hp))
        \<and> hp_max_ttl_seconds hp \<le> 900 \<and> cp_validate E (hp_command_policy hp) = None
        \<and> \<not> (hp_allow_as_bastion hp \<and> ps_restricts (compose_policies hp lib gp)))"
proof -
  have "(\<exists>out. compile_host_policies E hosts lib gp = Inr out) \<longleftrightarrow>
      check_library E lib = None \<and> check_groups lib gp = None
    \<and> (\<exists>out. compile_hosts E hosts lib gp hosts = Inr out)"
    by (auto simp: compile_host_policies_def split: option.splits)
  then show ?thesis
    by (simp add: check_library_None check_groups_None compile_hosts_defined compile_host_Inr)
qed

text \<open>
  C39: A compiled table has exactly the hosts of the configuration, in their order. Every declared host is
  in it with its declaration unchanged but for the compiled policies; its effective policies are the inline
  policy (when it restricts) together with the library policies attached to the default group or to one of
  its groups, they all validate, a host with restricting effective policies is never a bastion, and no
  lifetime exceeds 900 seconds.
\<close>

theorem compiled_table_wellformed:
  assumes "compile_host_policies E hosts lib gp = Inr out"
  shows "map fst out = map fst hosts
    \<and> (\<forall>n hp. map_of hosts n = Some hp \<longrightarrow> (\<exists>hp'. map_of out n = Some hp' \<and> hp' = hp\<lparr>hp_policies := hp_policies hp'\<rparr>
        \<and> set (effective_policies hp') =
            (\<lambda>m. the (map_of lib m)) ` {m \<in> attached_names hp gp. map_has lib m}
            \<union> (if cp_restricts (hp_command_policy hp) then {hp_command_policy hp} else {})
        \<and> ps_validate E (effective_policies hp') = None
        \<and> \<not> (hp_allow_as_bastion hp' \<and> ps_restricts (effective_policies hp'))
        \<and> hp_max_ttl_seconds hp' \<le> 900))"
proof (intro conjI allI impI)
  show keys: "map fst out = map fst hosts"
    using compile_hosts_keys compile_host_policies_Inr [OF assms] by blast
  fix n hp
  assume n: "map_of hosts n = Some hp"
  then have "map_of out n \<noteq> None" using keys by (metis map_of_eq_None_iff list.set_map option.distinct(1))
  then obtain hp' where out: "map_of out n = Some hp'" by blast
  have c: "compile_host E hosts lib gp n hp = Inr hp'"
    using compiled_host [OF assms out] n by auto
  note c = c [unfolded compile_host_Inr]
  have hp': "hp' = with_policies hp (compose_policies hp lib gp)" using c by simp
  have eff: "effective_policies hp' = compose_policies hp lib gp"
    by (simp add: hp' effective_with_policies)
  have "ps_validate E (effective_policies hp') = None"
    using compose_validates [OF compile_host_policies_Inr(1) [OF assms]] c eff by simp
  then show "\<exists>hp'. map_of out n = Some hp' \<and> hp' = hp\<lparr>hp_policies := hp_policies hp'\<rparr>
        \<and> set (effective_policies hp') =
            (\<lambda>m. the (map_of lib m)) ` {m \<in> attached_names hp gp. map_has lib m}
            \<union> (if cp_restricts (hp_command_policy hp) then {hp_command_policy hp} else {})
        \<and> ps_validate E (effective_policies hp') = None
        \<and> \<not> (hp_allow_as_bastion hp' \<and> ps_restricts (effective_policies hp'))
        \<and> hp_max_ttl_seconds hp' \<le> 900"
    using out c eff hp' by (intro exI [of _ hp']) (simp add: set_compose_policies with_policies_def)
qed

text \<open>
  Once the caller table has an entry it is authoritative: the hosts a caller may see are those
  that share a group with the caller's entry, or with the default entry when the caller is not
  listed, and none at all when neither exists.
\<close>

theorem host_set_default_deny:
  "host_set_for_caller cn policy callers =
     (if callers = [] then None
      else Some (map fst (filter (\<lambda>(h, hp). set (hp_groups hp) \<inter>
        (case map_of callers cn of
           Some cp \<Rightarrow> set (cl_allowed_groups cp)
         | None \<Rightarrow> (case map_of callers DefaultCallerKey of
                     Some cp \<Rightarrow> set (cl_allowed_groups cp) | None \<Rightarrow> {})) \<noteq> {}) policy)))"
proof -
  have g: "set (caller_groups cn callers) =
      (case map_of callers cn of
           Some cp \<Rightarrow> set (cl_allowed_groups cp)
         | None \<Rightarrow> (case map_of callers DefaultCallerKey of
                     Some cp \<Rightarrow> set (cl_allowed_groups cp) | None \<Rightarrow> {}))"
    by (auto simp: caller_groups_def zero_caller_policy_def split: option.splits)
  have "list_ex (\<lambda>g. g \<in> set (caller_groups cn callers)) gs
      \<longleftrightarrow> set gs \<inter> set (caller_groups cn callers) \<noteq> {}" for gs
    by (auto simp: list_ex_iff)
  then show ?thesis by (simp add: host_set_for_caller_def Let_def g)
qed

section \<open>Witnesses\<close>

definition example_host :: host_policy where
  "example_host =
     \<lparr>hp_addr = ''10.0.0.1:22'', hp_user = ''ops'', hp_host_key = [], hp_jump = [],
      hp_principal = ''host:db'', hp_source_address = ''10.0.0.9'', hp_max_ttl = 300 * go_second,
      hp_max_ttl_seconds = 300, hp_allow_as_bastion = False, hp_allowed_callers = [''b1''],
      hp_allow_sudo = True, hp_allowed_sudo_users = [], hp_allow_pty = False,
      hp_allow_file_transfer = False, hp_groups = [''prod''], hp_sealed_exec = False,
      hp_command_policy = example_allow, hp_policies = None\<rparr>"

lemma example_compile:
  "compile_host_policies example_env [(''db'', example_host)] [(''base'', example_deny)]
     [(''prod'', [''base''])] =
   Inr [(''db'', with_policies example_host [example_deny, example_allow])]"
  by code_simp

theorem compile_host_policies_iff_witness:
  "\<exists>out. compile_host_policies example_env [(''db'', example_host)] [] [] = Inr out"
proof -
  have "cp_validate example_env example_allow = None" by code_simp
  then show ?thesis by (simp add: compile_host_policies_iff example_host_def)
qed

theorem compiled_table_wellformed_witness:
  "ps_validate example_env (effective_policies (with_policies example_host [example_deny, example_allow])) = None"
  using conjunct2 [OF compiled_table_wellformed [OF example_compile], rule_format, of "''db''" example_host] by auto

end
