(* ===== verification/Elevation.thy ===== *)
theory Elevation
  imports Host_Policy
begin

text \<open>
  Privilege elevation and shell quoting (\<open>internal/signer/signer.go\<close>): \<open>resolveElevation\<close>,
  \<open>sudoUserAllowed\<close>, \<open>BuildElevatedCommand\<close>, \<open>maybeShellQuote\<close>, \<open>ShellQuote\<close> and the two fixed regular
  expressions \<open>reValidUser\<close> and \<open>shellSafeWord\<close>, spelt out as predicates.

  The correctness of the quoting is stated against \<open>sh_split\<close>, a definition of how a POSIX shell
  splits a line of plain characters, single-quoted strings and backslash escapes into words.
\<close>

section \<open>Errors of the decision path\<close>

datatype sign_error =
    NoPolicyForHost string
  | UnknownRole string
  | UnknownPurpose string
  | SealedRequiresExec
  | UnsafeIdentity
  | NewlineInCommand
  | EmptyOneshotCommand
  | CallerNotAuthorised
  | UserNotAuthorised
  | NotABastion
  | PolicyHostAsBastion
  | SudoNotAllowed
  | SudoUserCharacters string
  | SudoUserNotListed string
  | PTYNotAllowed
  | FileTransferNotAllowed
  | SessionRequiresExec
  | CommandPolicyFailed cmd_error
  | CommandDenied cmd_rule
  | SealedHostName string

section \<open>Elevation\<close>

definition valid_user :: "string \<Rightarrow> bool" where
  "valid_user s =
     (case s of
        [] \<Rightarrow> False
      | c # t \<Rightarrow>
          (is_alpha_char c \<or> is_digit_char c \<or> c = CHR ''_'')
        \<and> length t \<le> 31
        \<and> list_all (\<lambda>d. is_alpha_char d \<or> is_digit_char d \<or> d = CHR ''_'' \<or> d = CHR ''.'' \<or> d = CHR ''-'') t)"

definition sudo_user_allowed :: "string list \<Rightarrow> string \<Rightarrow> bool" where
  "sudo_user_allowed allowed user = (if allowed = [] then user = ''root'' else user \<in> set allowed)"

definition resolve_elevation :: "host_policy \<Rightarrow> intent \<Rightarrow> sign_error + string" where
  "resolve_elevation hp i =
     (if \<not> in_sudo i then Inr []
      else if in_role i \<noteq> RoleTarget then Inr []
      else if \<not> hp_allow_sudo hp then Inl SudoNotAllowed
      else
        let sudo_user = (if in_sudo_user i = [] then ''root'' else in_sudo_user i) in
        if \<not> valid_user sudo_user then Inl (SudoUserCharacters sudo_user)
        else if \<not> sudo_user_allowed (hp_allowed_sudo_users hp) sudo_user then Inl (SudoUserNotListed sudo_user)
        else if sudo_user = ''root'' then Inr ''sudo -n''
        else Inr (''sudo -n -u '' @ sudo_user))"

definition shell_safe_char :: "char \<Rightarrow> bool" where
  "shell_safe_char c \<longleftrightarrow> is_alpha_char c \<or> is_digit_char c \<or> c \<in> set ''@%_+:,./-''"

definition shell_safe_word :: "string \<Rightarrow> bool" where
  "shell_safe_word s \<longleftrightarrow> s \<noteq> [] \<and> list_all shell_safe_char s"

abbreviation squote :: char where "squote \<equiv> CHR 0x27"
abbreviation backslash :: char where "backslash \<equiv> CHR 0x5C"

definition shell_quote :: "string \<Rightarrow> string" where
  "shell_quote s = [squote] @ replace_char squote [squote, backslash, squote, squote] s @ [squote]"

definition maybe_shell_quote :: "string \<Rightarrow> string" where
  "maybe_shell_quote s = (if shell_safe_word s then s else shell_quote s)"

definition build_elevated_command :: "go_env \<Rightarrow> string \<Rightarrow> string \<Rightarrow> string" where
  "build_elevated_command E pre command =
     (case direct_argv E command of
        Some argv \<Rightarrow> pre @ '' -- '' @ go_join (map maybe_shell_quote argv) '' ''
      | None \<Rightarrow> pre @ '' -- /bin/sh -c '' @ shell_quote command)"

section \<open>How a POSIX shell splits a line\<close>

text \<open>
  The scanner: the word being read, reversed (\<^term>\<open>None\<close> between words), whether it is inside
  single quotes, and the rest of the line. Any unquoted character outside the safe ones, a space, a
  quote and a backslash makes the line too complicated for this definition (\<^term>\<open>None\<close>), as does a
  missing closing quote.
\<close>

definition word_so_far :: "string option \<Rightarrow> string" where
  "word_so_far cur = (case cur of None \<Rightarrow> [] | Some w \<Rightarrow> w)"

fun sh_scan :: "string option \<Rightarrow> bool \<Rightarrow> string \<Rightarrow> string list option" where
  "sh_scan cur True [] = None"
| "sh_scan cur False [] = Some (case cur of None \<Rightarrow> [] | Some w \<Rightarrow> [rev w])"
| "sh_scan cur True (c # s) =
     (if c = squote then sh_scan cur False s else sh_scan (Some (c # word_so_far cur)) True s)"
| "sh_scan cur False (c # s) =
     (if c = CHR '' '' then
        (case cur of
           None \<Rightarrow> sh_scan None False s
         | Some w \<Rightarrow> (case sh_scan None False s of None \<Rightarrow> None | Some ws \<Rightarrow> Some (rev w # ws)))
      else if c = squote then sh_scan (Some (word_so_far cur)) True s
      else if c = backslash then
        (case s of [] \<Rightarrow> None | d # t \<Rightarrow> sh_scan (Some (d # word_so_far cur)) False t)
      else if shell_safe_char c then sh_scan (Some (c # word_so_far cur)) False s
      else None)"

definition sh_split :: "string \<Rightarrow> string list option" where
  "sh_split s = sh_scan None False s"

lemma shell_safe_not_special:
  "shell_safe_char c \<Longrightarrow> c \<noteq> CHR '' '' \<and> c \<noteq> squote \<and> c \<noteq> backslash"
  by (auto simp: shell_safe_char_def char_class_defs)

lemma sh_scan_safe:
  "list_all shell_safe_char w \<Longrightarrow> w \<noteq> [] \<Longrightarrow>
   sh_scan cur False (w @ s) = sh_scan (Some (rev w @ word_so_far cur)) False s"
proof (induction w arbitrary: cur)
  case (Cons c w)
  have c: "shell_safe_char c" "c \<noteq> CHR '' ''" "c \<noteq> squote" "c \<noteq> backslash"
    using Cons.prems shell_safe_not_special by auto
  show ?case
  proof (cases "w = []")
    case True
    then show ?thesis using c by simp
  next
    case False
    have "sh_scan (Some (c # word_so_far cur)) False (w @ s)
        = sh_scan (Some (rev w @ c # word_so_far cur)) False s"
      using Cons.IH [of "Some (c # word_so_far cur)"] Cons.prems False by (simp add: word_so_far_def)
    then show ?thesis using c by simp
  qed
qed simp

lemma sh_scan_quoted:
  "sh_scan (Some v) True (replace_char squote [squote, backslash, squote, squote] s @ squote # t)
   = sh_scan (Some (rev s @ v)) False t"
proof (induction s arbitrary: v)
  case (Cons c s)
  then show ?case by (cases "c = squote") (simp_all add: word_so_far_def)
qed simp

lemma sh_scan_shell_quote:
  "sh_scan None False (shell_quote s @ t) = sh_scan (Some (rev s)) False t"
  using sh_scan_quoted [of "[]" s t] by (simp add: shell_quote_def word_so_far_def)

lemma sh_scan_maybe_quote:
  "sh_scan None False (maybe_shell_quote s @ t) = sh_scan (Some (rev s)) False t"
  using sh_scan_safe [of s None t]
  by (auto simp: maybe_shell_quote_def shell_safe_word_def sh_scan_shell_quote word_so_far_def)

lemma sh_scan_end_word:
  "sh_scan (Some w) False (CHR '' '' # s) =
     (case sh_scan None False s of None \<Rightarrow> None | Some ws \<Rightarrow> Some (rev w # ws))"
  by simp

lemma sh_scan_joined:
  "ws \<noteq> [] \<Longrightarrow> sh_scan None False (go_join (map maybe_shell_quote ws) '' '') = Some ws"
proof (induction ws)
  case (Cons w ws)
  show ?case
  proof (cases ws)
    case Nil
    then show ?thesis using sh_scan_maybe_quote [of w "[]"] by simp
  next
    case (Cons v vs)
    then show ?thesis
      using Cons.IH sh_scan_maybe_quote [of w "CHR '' '' # go_join (map maybe_shell_quote ws) '' ''"]
      by simp
  qed
qed simp

lemma sh_scan_word:
  "shell_safe_word w \<Longrightarrow> sh_scan None False (w @ CHR '' '' # s) =
     (case sh_scan None False s of None \<Rightarrow> None | Some ws \<Rightarrow> Some (w # ws))"
  using sh_scan_safe [of w None "CHR '' '' # s"] by (auto simp: shell_safe_word_def word_so_far_def cong: option.case_cong)

lemma shell_safe_ascii_words [simp]:
  "shell_safe_word ''sudo''" "shell_safe_word ''-n''" "shell_safe_word ''-u''" "shell_safe_word ''--''"
  "shell_safe_word ''/bin/sh''" "shell_safe_word ''-c''"
  by (simp_all add: shell_safe_word_def shell_safe_char_def char_class_defs)

lemma valid_user_safe: "valid_user u \<Longrightarrow> shell_safe_word u"
  by (auto simp: valid_user_def shell_safe_word_def shell_safe_char_def list_all_iff split: list.splits)

text \<open>The words of an elevation prefix, and the user it runs as.\<close>

definition elevation_words :: "string \<Rightarrow> string list" where
  "elevation_words u = (if u = ''root'' then [''sudo'', ''-n''] else [''sudo'', ''-n'', ''-u'', u])"

lemma elevation_prefix_scan:
  assumes "valid_user u"
  shows "sh_scan None False ((if u = ''root'' then ''sudo -n'' else ''sudo -n -u '' @ u) @ CHR '' '' # s) =
     (case sh_scan None False s of None \<Rightarrow> None | Some ws \<Rightarrow> Some (elevation_words u @ ws))"
proof -
  have u: "shell_safe_word u" using assms by (rule valid_user_safe)
  have root: "sh_scan None False (''sudo'' @ CHR '' '' # ''-n'' @ CHR '' '' # s) =
     (case sh_scan None False s of None \<Rightarrow> None | Some ws \<Rightarrow> Some (''sudo'' # ''-n'' # ws))"
    by (simp only: sh_scan_word shell_safe_ascii_words) (simp split: option.splits)
  have other: "sh_scan None False (''sudo'' @ CHR '' '' # ''-n'' @ CHR '' '' # ''-u'' @ CHR '' '' # u @ CHR '' '' # s) =
     (case sh_scan None False s of None \<Rightarrow> None | Some ws \<Rightarrow> Some (''sudo'' # ''-n'' # ''-u'' # u # ws))"
    by (simp only: sh_scan_word shell_safe_ascii_words u) (simp split: option.splits)
  show ?thesis
  proof (cases "u = ''root''")
    case True
    then show ?thesis using root by (simp add: elevation_words_def cong: option.case_cong)
  next
    case False
    then show ?thesis using other by (simp add: elevation_words_def cong: option.case_cong)
  qed
qed

section \<open>Properties\<close>

text \<open>
  Quoting is exact for every byte string: a POSIX shell reads \<open>ShellQuote(s)\<close> back as the one
  word s, and reads words quoted only where needed and joined by spaces back as those words.
\<close>

theorem shell_quote_roundtrip:
  "sh_split (shell_quote s) = Some [s] \<and> sh_split (go_join (map maybe_shell_quote (w # ws)) '' '') = Some (w # ws)"
  using sh_scan_shell_quote [of s "[]"] sh_scan_joined [of "w # ws"] by (simp add: sh_split_def)

text \<open>
  An elevated command runs what was asked for and nothing else: when elevation is granted with a
  non-empty prefix, the shell splits the built command into sudo, its options naming the permitted
  user, the separator, and then either exactly the decoded argument vector of the command or
  \<open>/bin/sh -c\<close> with the command as its single argument.
\<close>

theorem elevated_command_words:
  assumes "resolve_elevation hp i = Inr pre" and "pre \<noteq> []"
  shows "\<exists>u. sudo_user_allowed (hp_allowed_sudo_users hp) u \<and> valid_user u
    \<and> u = (if in_sudo_user i = [] then ''root'' else in_sudo_user i)
    \<and> in_sudo i \<and> hp_allow_sudo hp
    \<and> sh_split (build_elevated_command E pre command) =
        Some (elevation_words u @ [''--''] @
          (case direct_argv E command of
             Some argv \<Rightarrow> argv | None \<Rightarrow> [''/bin/sh'', ''-c'', command]))"
proof -
  define u where "u = (if in_sudo_user i = [] then ''root'' else in_sudo_user i)"
  have u: "valid_user u" "sudo_user_allowed (hp_allowed_sudo_users hp) u" "in_sudo i" "hp_allow_sudo hp"
    and pre: "pre = (if u = ''root'' then ''sudo -n'' else ''sudo -n -u '' @ u)"
    using assms by (auto simp: resolve_elevation_def Let_def u_def split: if_splits)
  have dash: "sh_scan None False (''--'' @ CHR '' '' # s) =
      (case sh_scan None False s of None \<Rightarrow> None | Some ws \<Rightarrow> Some (''--'' # ws))" for s
    by (rule sh_scan_word) simp
  have tail: "sh_scan None False (pre @ CHR '' '' # ''--'' @ CHR '' '' # s) =
      (case sh_scan None False s of None \<Rightarrow> None | Some ws \<Rightarrow> Some (elevation_words u @ [''--''] @ ws))" for s
    unfolding pre elevation_prefix_scan [OF u(1)] dash by (simp split: option.splits)
  have direct: "sh_split (build_elevated_command E pre command) = Some (elevation_words u @ [''--''] @ argv)"
    if d: "direct_argv E command = Some argv" for argv
  proof -
    have "argv \<noteq> []"
      using d by (auto simp: direct_argv_def dest: decode_words_length
          split: sum.splits list.splits if_splits sh_cmd.splits)
    then show ?thesis
      using tail [of "go_join (map maybe_shell_quote argv) '' ''"] sh_scan_joined [of argv] d
      by (simp add: sh_split_def build_elevated_command_def)
  qed
  have sh: "sh_scan None False (''/bin/sh'' @ CHR '' '' # ''-c'' @ CHR '' '' # shell_quote command)
      = Some [''/bin/sh'', ''-c'', command]"
    using sh_scan_shell_quote [of command "[]"]
    by (simp only: sh_scan_word shell_safe_ascii_words) simp
  have wrap: "sh_split (build_elevated_command E pre command)
      = Some (elevation_words u @ [''--'', ''/bin/sh'', ''-c'', command])"
    if d: "direct_argv E command = None"
    using tail [of "''/bin/sh'' @ CHR '' '' # ''-c'' @ CHR '' '' # shell_quote command"] sh d
    by (simp add: sh_split_def build_elevated_command_def)
  show ?thesis
    using u direct wrap by (cases "direct_argv E command") (auto simp: u_def)
qed

theorem elevated_command_words_witness:
  "sh_split (build_elevated_command example_env ''sudo -n'' ''systemctl restart nginx'')
   = Some [''sudo'', ''-n'', ''--'', ''systemctl'', ''restart'', ''nginx'']"
proof -
  let ?i = "(plain_intent ''b1'' ''db'' ''systemctl restart nginx'')\<lparr>in_sudo := True\<rparr>"
  have r: "resolve_elevation example_host ?i = Inr ''sudo -n''" by code_simp
  have d: "direct_argv example_env ''systemctl restart nginx'' = Some [''systemctl'', ''restart'', ''nginx'']"
    by code_simp
  show ?thesis
    using elevated_command_words [OF r, of example_env "''systemctl restart nginx''"]
    by (auto simp: d elevation_words_def plain_intent_def)
qed

end
