(* ===== verification/Grants.thy ===== *)
theory Grants
  imports Signer_Types Command_Policy
begin

text \<open>
  Runtime grants: \<open>internal/signer/grants.go\<close>. A \<open>GrantStore\<close> is an in-memory map written through
  to a table of the state database when there is one.

  The database is the list of its rows; whether a statement succeeds is a parameter of each
  operation, and a statement that fails leaves the rows as they were. The JSON text of the two
  pattern columns goes through the codec parameter \<open>json_codec\<close>. The random identifier of a new
  grant is a parameter too.
\<close>

section \<open>Data\<close>

record grant =
  g_id :: string
  g_host :: string
  g_allow :: "string list"
  g_waive_approval :: "string list"
  g_caller :: string
  g_end_user :: string
  g_sudo :: bool
  g_sudo_user :: string
  g_approver :: string
  g_approval_id :: string
  g_granted_at :: go_time
  g_expires_at :: go_time
  g_waiver_re :: "(string \<Rightarrow> bool) list"

record grant_row =
  r_id :: string
  r_host :: string
  r_allow :: string
  r_waive_approval :: string
  r_caller :: string
  r_end_user :: string
  r_sudo :: int
  r_sudo_user :: string
  r_approver :: string
  r_approval_id :: string
  r_granted_at :: int
  r_expires_at :: int

record json_codec =
  jc_marshal :: "string list \<Rightarrow> string"
  jc_unmarshal :: "string \<Rightarrow> string list option"

record grant_store =
  gs_grants :: "(string, grant) go_map"
  gs_db :: "grant_row list option"

datatype grant_error =
    EmptyGrant
  | InvalidAllowRegex string
  | InvalidWaiveRegex string
  | PersistGrant
  | RevokeGrant string
  | RevokeBegin
  | RevokeCommit
  | LoadGrants

section \<open>One grant\<close>

definition grant_active :: "go_time \<Rightarrow> grant \<Rightarrow> bool" where
  "grant_active now g = (now < g_expires_at g)"

definition grant_matches :: "string \<Rightarrow> intent \<Rightarrow> grant \<Rightarrow> bool" where
  "grant_matches host i g =
     (g_host g = host
    \<and> (g_caller g = [] \<or> g_caller g = in_caller i)
    \<and> (g_end_user g = [] \<or> g_end_user g = in_end_user i))"

definition canonical_grant_sudo_user :: "bool \<Rightarrow> string \<Rightarrow> string" where
  "canonical_grant_sudo_user sudo user =
     (if \<not> sudo then [] else if user = [] then ''root'' else user)"

definition waiver_applies :: "string \<Rightarrow> intent \<Rightarrow> grant \<Rightarrow> bool" where
  "waiver_applies host i g =
     (if \<not> grant_matches host i g \<or> g_sudo g \<noteq> in_sudo i
       \<or> canonical_grant_sudo_user (g_sudo g) (g_sudo_user g)
           \<noteq> canonical_grant_sudo_user (in_sudo i) (in_sudo_user i)
      then False
      else list_ex (\<lambda>re. re (in_command i)) (g_waiver_re g))"

fun compile_patterns :: "go_env \<Rightarrow> string list \<Rightarrow> string + (string \<Rightarrow> bool) list" where
  "compile_patterns E [] = Inr []"
| "compile_patterns E (p # ps) =
     (case rx_compile E p of
        None \<Rightarrow> Inl p
      | Some re \<Rightarrow> (case compile_patterns E ps of Inl q \<Rightarrow> Inl q | Inr res \<Rightarrow> Inr (re # res)))"

definition compile_waivers :: "go_env \<Rightarrow> grant \<Rightarrow> grant_error + grant" where
  "compile_waivers E g =
     (case compile_patterns E (g_waive_approval g) of
        Inl p \<Rightarrow> Inl (InvalidWaiveRegex p)
      | Inr res \<Rightarrow> Inr (g\<lparr>g_waiver_re := res\<rparr>))"

section \<open>The store\<close>

definition new_grant_store :: grant_store where
  "new_grant_store = \<lparr>gs_grants = [], gs_db = None\<rparr>"

definition grant_to_row :: "json_codec \<Rightarrow> grant \<Rightarrow> grant_row" where
  "grant_to_row J g =
     \<lparr>r_id = g_id g, r_host = g_host g, r_allow = jc_marshal J (g_allow g),
      r_waive_approval = jc_marshal J (g_waive_approval g), r_caller = g_caller g,
      r_end_user = g_end_user g, r_sudo = (if g_sudo g then 1 else 0), r_sudo_user = g_sudo_user g,
      r_approver = g_approver g, r_approval_id = g_approval_id g,
      r_granted_at = unix_seconds (g_granted_at g), r_expires_at = unix_seconds (g_expires_at g)\<rparr>"

text \<open>Loading one row: \<open>None\<close> when the row is dropped with a warning.\<close>

definition row_to_grant :: "go_env \<Rightarrow> json_codec \<Rightarrow> grant_row \<Rightarrow> grant option" where
  "row_to_grant E J r =
     (case jc_unmarshal J (r_allow r) of
        None \<Rightarrow> None
      | Some allow \<Rightarrow>
          (case jc_unmarshal J (r_waive_approval r) of
             None \<Rightarrow> None
           | Some waive \<Rightarrow>
               (case compile_waivers E
                       \<lparr>g_id = r_id r, g_host = r_host r, g_allow = allow, g_waive_approval = waive,
                        g_caller = r_caller r, g_end_user = r_end_user r, g_sudo = (r_sudo r \<noteq> 0),
                        g_sudo_user = r_sudo_user r, g_approver = r_approver r,
                        g_approval_id = r_approval_id r, g_granted_at = unix_time (r_granted_at r),
                        g_expires_at = unix_time (r_expires_at r), g_waiver_re = []\<rparr> of
                  Inl e \<Rightarrow> None
                | Inr g \<Rightarrow> Some g)))"

fun load_rows :: "go_env \<Rightarrow> json_codec \<Rightarrow> grant_row list \<Rightarrow> (string, grant) go_map \<Rightarrow>
    (string, grant) go_map" where
  "load_rows E J [] m = m"
| "load_rows E J (r # rs) m =
     (case row_to_grant E J r of
        None \<Rightarrow> load_rows E J rs m
      | Some g \<Rightarrow> load_rows E J rs (AList.update (g_id g) g m))"

text \<open>
  \<open>NewGrantStoreDB\<close>; \<open>query_ok\<close> says whether the query, the scans and the end of the rows succeed.
\<close>

definition new_grant_store_db :: "go_env \<Rightarrow> json_codec \<Rightarrow> bool \<Rightarrow> go_time \<Rightarrow> grant_row list \<Rightarrow>
    grant_error + grant_store" where
  "new_grant_store_db E J query_ok now rows =
     (if \<not> query_ok then Inl LoadGrants
      else Inr \<lparr>gs_grants = load_rows E J (filter (\<lambda>r. r_expires_at r > unix_seconds now) rows) [],
               gs_db = Some rows\<rparr>)"

definition insert_db :: "json_codec \<Rightarrow> bool \<Rightarrow> grant \<Rightarrow> grant_row list \<Rightarrow> grant_row list option" where
  "insert_db J ok g rows =
     (if \<not> ok \<or> g_id g \<in> r_id ` set rows then None else Some (rows @ [grant_to_row J g]))"

definition grant_add :: "go_env \<Rightarrow> json_codec \<Rightarrow> bool \<Rightarrow> string \<Rightarrow> grant \<Rightarrow> grant_store \<Rightarrow>
    (grant_error + string) \<times> grant_store" where
  "grant_add E J ok new_id g s =
     (if g_allow g = [] \<and> g_waive_approval g = [] then (Inl EmptyGrant, s)
      else
        let g1 = g\<lparr>g_sudo_user := canonical_grant_sudo_user (g_sudo g) (g_sudo_user g)\<rparr> in
        case List.find (\<lambda>p. rx_compile E p = None) (g_allow g1) of
          Some p \<Rightarrow> (Inl (InvalidAllowRegex p), s)
        | None \<Rightarrow>
            (case compile_waivers E g1 of
               Inl e \<Rightarrow> (Inl e, s)
             | Inr g2 \<Rightarrow>
                 (let g3 = g2\<lparr>g_id := new_id\<rparr> in
                  case gs_db s of
                    None \<Rightarrow> (Inr new_id, s\<lparr>gs_grants := AList.update new_id g3 (gs_grants s)\<rparr>)
                  | Some rows \<Rightarrow>
                      (case insert_db J ok g3 rows of
                         None \<Rightarrow> (Inl PersistGrant, s)
                       | Some rows' \<Rightarrow>
                           (Inr new_id, s\<lparr>gs_grants := AList.update new_id g3 (gs_grants s),
                                          gs_db := Some rows'\<rparr>)))))"

definition delete_rows :: "bool \<Rightarrow> (grant_row \<Rightarrow> bool) \<Rightarrow> grant_row list option \<Rightarrow> grant_row list option" where
  "delete_rows ok P db =
     (case db of None \<Rightarrow> None | Some rows \<Rightarrow> Some (if ok then filter (\<lambda>r. \<not> P r) rows else rows))"

definition same_waiver :: "grant \<Rightarrow> grant \<Rightarrow> bool" where
  "same_waiver g ex =
     (g_host ex = g_host g \<and> g_caller ex = g_caller g \<and> g_end_user ex = g_end_user g
    \<and> g_sudo ex = g_sudo g
    \<and> canonical_grant_sudo_user (g_sudo ex) (g_sudo_user ex)
        = canonical_grant_sudo_user (g_sudo g) (g_sudo_user g)
    \<and> g_waive_approval ex = g_waive_approval g \<and> g_allow ex = [])"

text \<open>The best-effort deletions may fail one by one: \<open>ok\<close> tells for which identifiers they work.\<close>

definition supersede_waiver :: "(string \<Rightarrow> bool) \<Rightarrow> grant \<Rightarrow> grant_store \<Rightarrow> nat \<times> grant_store" where
  "supersede_waiver ok g s =
     (let gone = map fst (filter (\<lambda>(k, ex). same_waiver g ex) (gs_grants s)) in
      (length gone,
       s\<lparr>gs_grants := map_keep (\<lambda>_ ex. \<not> same_waiver g ex) (gs_grants s),
         gs_db := delete_rows True (\<lambda>r. r_id r \<in> set gone \<and> ok (r_id r)) (gs_db s)\<rparr>))"

definition grant_purge :: "bool \<Rightarrow> go_time \<Rightarrow> grant_store \<Rightarrow> nat \<times> grant_store" where
  "grant_purge ok now s =
     (length (filter (\<lambda>(k, g). \<not> grant_active now g) (gs_grants s)),
      s\<lparr>gs_grants := map_keep (\<lambda>_ g. grant_active now g) (gs_grants s),
        gs_db := delete_rows ok (\<lambda>r. r_expires_at r \<le> unix_seconds now) (gs_db s)\<rparr>)"

definition grant_revoke :: "bool \<Rightarrow> string \<Rightarrow> grant_store \<Rightarrow> (grant_error + bool) \<times> grant_store" where
  "grant_revoke ok k s =
     (if \<not> map_has (gs_grants s) k then (Inr False, s)
      else if gs_db s \<noteq> None \<and> \<not> ok then (Inl (RevokeGrant k), s)
      else (Inr True, s\<lparr>gs_grants := AList.delete k (gs_grants s),
                        gs_db := delete_rows True (\<lambda>r. r_id r = k) (gs_db s)\<rparr>))"

abbreviation FreezeCaller :: string where "FreezeCaller \<equiv> ''caller''"
abbreviation FreezeEndUser :: string where "FreezeEndUser \<equiv> ''end_user''"

definition grant_of_subject :: "string \<Rightarrow> string \<Rightarrow> grant \<Rightarrow> bool" where
  "grant_of_subject kind val g =
     ((kind = FreezeCaller \<and> g_caller g = val) \<or> (kind = FreezeEndUser \<and> g_end_user g = val))"

text \<open>
  One transaction: \<open>begin_ok\<close>, the deletion of each identifier (\<open>exec_ok\<close>) and \<open>commit_ok\<close>; an
  error anywhere rolls everything back.
\<close>

definition revoke_for_subject :: "bool \<Rightarrow> (string \<Rightarrow> bool) \<Rightarrow> bool \<Rightarrow> string \<Rightarrow> string \<Rightarrow> grant_store \<Rightarrow>
    (grant_error + nat) \<times> grant_store" where
  "revoke_for_subject begin_ok exec_ok commit_ok kind val s =
     (if val = [] \<or> (kind \<noteq> FreezeCaller \<and> kind \<noteq> FreezeEndUser) then (Inr 0, s)
      else
        let ids = map fst (filter (\<lambda>(k, g). grant_of_subject kind val g) (gs_grants s)) in
        if ids = [] then (Inr 0, s)
        else
          let failed = (if gs_db s = None then None
                        else if \<not> begin_ok then Some RevokeBegin
                        else case List.find (\<lambda>k. \<not> exec_ok k) ids of
                          Some k \<Rightarrow> Some (RevokeGrant k)
                        | None \<Rightarrow> (if \<not> commit_ok then Some RevokeCommit else None)) in
          case failed of
            Some e \<Rightarrow> (Inl e, s)
          | None \<Rightarrow>
              (Inr (length ids),
               s\<lparr>gs_grants := map_keep (\<lambda>k _. k \<notin> set ids) (gs_grants s),
                 gs_db := delete_rows True (\<lambda>r. r_id r \<in> set ids) (gs_db s)\<rparr>))"

definition grant_list :: "go_time \<Rightarrow> grant_store \<Rightarrow> grant list \<times> grant_store" where
  "grant_list now s =
     (let live = map_keep (\<lambda>_ g. grant_active now g) (gs_grants s) in
      (map snd live, s\<lparr>gs_grants := live\<rparr>))"

definition grant_policy :: "grant \<Rightarrow> command_policy" where
  "grant_policy g =
     \<lparr>cp_mode = CmdPolicyAllowlist, cp_enforcement = [], cp_allow = g_allow g, cp_deny = [],
      cp_require_approval = [], cp_shell_parse = None\<rparr>"

definition grants_for :: "grant_store \<Rightarrow> string \<Rightarrow> intent \<Rightarrow> go_time \<Rightarrow> policy_set" where
  "grants_for s host i now =
     map grant_policy (filter (\<lambda>g. grant_active now g \<and> grant_matches host i g \<and> g_allow g \<noteq> [])
                         (map snd (gs_grants s)))"

definition waiver_matches :: "grant_store \<Rightarrow> string \<Rightarrow> intent \<Rightarrow> go_time \<Rightarrow> bool" where
  "waiver_matches s host i now =
     list_ex (\<lambda>g. grant_active now g \<and> waiver_applies host i g) (map snd (gs_grants s))"

section \<open>The interface of the decision path\<close>

text \<open>
  \<open>GrantProvider\<close>: what the decision path relies on. A provider returns widening policies only;
  whether it waives approval is its own affair, since a waiver is consulted for allowed commands
  only.
\<close>

locale grant_provider =
  fixes gp_grants :: "string \<Rightarrow> intent \<Rightarrow> go_time \<Rightarrow> policy_set"
    and gp_waives :: "string \<Rightarrow> intent \<Rightarrow> go_time \<Rightarrow> bool"
  assumes gp_widening: "p \<in> set (gp_grants host i now) \<Longrightarrow> widening p"
begin

lemma provider_keeps_allowed:
  assumes "ps_has_allowlist ps" and "ps_shell_parse ps"
    and "patterns_compile E (ps @ gp_grants host i now)" and "verdict_allowed (ps_decide E ps c)"
  shows "verdict_allowed (ps_decide E (ps @ gp_grants host i now) c)"
    and "verdict_needs (ps_decide E (ps @ gp_grants host i now) c) = verdict_needs (ps_decide E ps c)"
  using widening_decide [of "gp_grants host i now" ps E c] assms gp_widening by auto

lemma provider_keeps_denied:
  assumes "ps_has_allowlist ps" and "spec_denied E ps c"
  shows "spec_denied E (ps @ gp_grants host i now) c"
  using widening_spec(1) [of "gp_grants host i now" ps E c] assms gp_widening by blast

end

lemma grant_policy_widening: "widening (grant_policy g)"
  by (simp add: widening_def grant_policy_def)

interpretation store: grant_provider "grants_for s" "waiver_matches s" for s
  by unfold_locales (auto simp: grants_for_def grant_policy_widening)


section \<open>Reachable stores and their invariant\<close>

definition grant_ok :: "go_env \<Rightarrow> string \<Rightarrow> grant \<Rightarrow> bool" where
  "grant_ok E k g \<longleftrightarrow> g_id g = k \<and> compile_patterns E (g_waive_approval g) = Inr (g_waiver_re g)"

definition grants_inv :: "go_env \<Rightarrow> (string, grant) go_map \<Rightarrow> bool" where
  "grants_inv E m \<longleftrightarrow> go_map_inv m \<and> (\<forall>(k, g) \<in> set m. grant_ok E k g)"

definition rows_inv :: "grant_row list option \<Rightarrow> bool" where
  "rows_inv db \<longleftrightarrow> (case db of None \<Rightarrow> True | Some rows \<Rightarrow> distinct (map r_id rows))"

definition store_inv :: "go_env \<Rightarrow> grant_store \<Rightarrow> bool" where
  "store_inv E s \<longleftrightarrow> grants_inv E (gs_grants s) \<and> rows_inv (gs_db s)"

text \<open>Every operation of the store, and a restart of the process on the rows left behind.\<close>

inductive grant_step :: "go_env \<Rightarrow> json_codec \<Rightarrow> grant_store \<Rightarrow> grant_store \<Rightarrow> bool" for E J where
  add: "grant_add E J ok new_id g s = (r, s') \<Longrightarrow> grant_step E J s s'"
| supersede: "supersede_waiver oks g s = (n, s') \<Longrightarrow> grant_step E J s s'"
| purge: "grant_purge ok now s = (n, s') \<Longrightarrow> grant_step E J s s'"
| revoke: "grant_revoke ok k s = (b, s') \<Longrightarrow> grant_step E J s s'"
| revoke_subject: "revoke_for_subject b1 oks b2 kind v s = (c, s') \<Longrightarrow> grant_step E J s s'"
| listing: "grant_list now s = (gs, s') \<Longrightarrow> grant_step E J s s'"
| restart: "gs_db s = Some rows \<Longrightarrow> new_grant_store_db E J ok now rows = Inr s' \<Longrightarrow> grant_step E J s s'"

inductive grant_reachable :: "go_env \<Rightarrow> json_codec \<Rightarrow> grant_store \<Rightarrow> bool" for E J where
  memory: "grant_reachable E J new_grant_store"
| empty_db: "grant_reachable E J \<lparr>gs_grants = [], gs_db = Some []\<rparr>"
| step: "grant_reachable E J s \<Longrightarrow> grant_step E J s s' \<Longrightarrow> grant_reachable E J s'"

lemma grants_inv_Nil [simp]: "grants_inv E []"
  by (simp add: grants_inv_def)

lemma grants_inv_keep [intro]: "grants_inv E m \<Longrightarrow> grants_inv E (map_keep P m)"
  by (auto simp: grants_inv_def set_map_keep)

lemma set_delete: "set (AList.delete k m) \<subseteq> set m"
  by (auto simp: AList.delete_eq)

lemma grants_inv_delete [intro]: "grants_inv E m \<Longrightarrow> grants_inv E (AList.delete k m)"
  using set_delete by (fastforce simp: grants_inv_def)

lemma set_update_subset: "set (AList.update k v m) \<subseteq> insert (k, v) (set m)"
  by (induction m) auto

lemma grants_inv_update [intro]:
  "grants_inv E m \<Longrightarrow> grant_ok E k g \<Longrightarrow> grants_inv E (AList.update k g m)"
  using set_update_subset [of k g m] by (fastforce simp: grants_inv_def)

lemma rows_inv_delete [intro]: "rows_inv db \<Longrightarrow> rows_inv (delete_rows ok P db)"
  by (auto simp: rows_inv_def delete_rows_def distinct_map_filter split: option.splits)

lemma compile_waivers_Inr:
  assumes "compile_waivers E g = Inr g'"
  shows "g' = g\<lparr>g_waiver_re := g_waiver_re g'\<rparr>"
    and "compile_patterns E (g_waive_approval g) = Inr (g_waiver_re g')"
  using assms by (auto simp: compile_waivers_def split: sum.splits)

lemma row_to_grant_ok:
  assumes "row_to_grant E J r = Some g"
  shows "grant_ok E (r_id r) g"
  using assms
  by (auto simp: row_to_grant_def grant_ok_def compile_waivers_def split: option.splits sum.splits)

lemma row_to_grant_id: "row_to_grant E J r = Some g \<Longrightarrow> g_id g = r_id r"
  using row_to_grant_ok by (fastforce simp: grant_ok_def)

lemma load_rows_inv: "grants_inv E m \<Longrightarrow> grants_inv E (load_rows E J rs m)"
proof (induction rs arbitrary: m)
  case (Cons r rs)
  show ?case
  proof (cases "row_to_grant E J r")
    case None
    with Cons show ?thesis by simp
  next
    case (Some g)
    have "grants_inv E (AList.update (g_id g) g m)"
      using Cons.prems row_to_grant_ok [OF Some] row_to_grant_id [OF Some] by auto
    then show ?thesis using Cons.IH Some by simp
  qed
qed simp

lemma load_rows_lookup:
  "distinct (map r_id rs) \<Longrightarrow> map_of (load_rows E J rs m) k =
     (case List.find (\<lambda>r. r_id r = k) rs of
        None \<Rightarrow> map_of m k
      | Some r \<Rightarrow> (case row_to_grant E J r of None \<Rightarrow> map_of m k | Some g \<Rightarrow> Some g))"
proof (induction rs arbitrary: m)
  case (Cons r rs)
  have nf: "r_id r = k \<Longrightarrow> List.find (\<lambda>q. r_id q = k) rs = None"
    using Cons.prems by (auto simp: find_None_iff) (metis image_eqI)
  show ?case
    using Cons nf row_to_grant_id [of E J r]
    by (auto simp: map_of_update split: option.splits)
qed simp

lemma add_store_inv:
  assumes "store_inv E s" and "grant_add E J ok new_id g s = (r, s')"
  shows "store_inv E s'"
proof (cases "s' = s")
  case True
  with assms show ?thesis by simp
next
  case False
  let ?g1 = "g\<lparr>g_sudo_user := canonical_grant_sudo_user (g_sudo g) (g_sudo_user g)\<rparr>"
  obtain g2 where g2: "compile_waivers E ?g1 = Inr g2"
    and mem: "gs_grants s' = AList.update new_id (g2\<lparr>g_id := new_id\<rparr>) (gs_grants s)"
    and db: "gs_db s' = gs_db s \<or>
      (\<exists>rows. gs_db s = Some rows \<and> insert_db J ok (g2\<lparr>g_id := new_id\<rparr>) rows = gs_db s')"
    using assms(2) False
    by (auto simp: grant_add_def Let_def split: if_splits option.splits sum.splits)
  have gw: "g_waive_approval g2 = g_waive_approval g"
    using compile_waivers_Inr(1) [OF g2] by (metis grant.select_convs(4) grant.surjective
        grant.update_convs(13) grant.update_convs(8))
  have "grant_ok E new_id (g2\<lparr>g_id := new_id\<rparr>)"
    using compile_waivers_Inr(2) [OF g2] gw by (simp add: grant_ok_def)
  then have "grants_inv E (gs_grants s')"
    using assms(1) mem by (auto simp: store_inv_def)
  moreover have "rows_inv (gs_db s')"
    using db assms(1)
    by (auto simp: store_inv_def rows_inv_def insert_db_def grant_to_row_def split: if_splits option.splits)
  ultimately show ?thesis by (simp add: store_inv_def)
qed

lemma grant_step_inv: "grant_step E J s s' \<Longrightarrow> store_inv E s \<Longrightarrow> store_inv E s'"
proof (induction rule: grant_step.induct)
  case (add ok new_id g s r s')
  then show ?case by (blast intro: add_store_inv)
next
  case (supersede oks g s n s')
  then show ?case by (auto simp: supersede_waiver_def store_inv_def Let_def)
next
  case (purge ok now s n s')
  then show ?case by (auto simp: grant_purge_def store_inv_def)
next
  case (revoke ok k s b s')
  then show ?case by (auto simp: grant_revoke_def store_inv_def split: if_splits)
next
  case (revoke_subject b1 oks b2 kind v s c s')
  then show ?case
    by (auto simp: revoke_for_subject_def store_inv_def Let_def split: if_splits option.splits)
next
  case (listing now s gs s')
  then show ?case by (auto simp: grant_list_def store_inv_def Let_def)
next
  case (restart s rows ok now s')
  then show ?case
    by (auto simp: new_grant_store_db_def store_inv_def rows_inv_def load_rows_inv split: if_splits)
qed

lemma compile_patterns_match:
  "compile_patterns E ps = Inr res \<Longrightarrow> (\<exists>re \<in> set res. re c) \<longleftrightarrow> (\<exists>p \<in> set ps. rx_match E p c)"
  by (induction ps arbitrary: res) (auto simp: rx_match_def split: option.splits sum.splits)

lemma list_ex_snd: "list_ex P (map snd m) \<longleftrightarrow> (\<exists>k g. (k, g) \<in> set m \<and> P g)"
  by (force simp: list_ex_iff)

lemma waiver_applies_iff:
  "waiver_applies host i g \<longleftrightarrow>
     g_host g = host \<and> g_caller g \<in> {[], in_caller i} \<and> g_end_user g \<in> {[], in_end_user i}
   \<and> g_sudo g = in_sudo i
   \<and> canonical_grant_sudo_user (g_sudo g) (g_sudo_user g)
       = canonical_grant_sudo_user (in_sudo i) (in_sudo_user i)
   \<and> (\<exists>re \<in> set (g_waiver_re g). re (in_command i))"
  by (auto simp: waiver_applies_def grant_matches_def list_ex_iff)

lemma restart_lookup:
  assumes "rows_inv (Some rows)" and "new_grant_store_db E J ok now rows = Inr s"
  shows "map_of (gs_grants s) k =
    (case List.find (\<lambda>r. r_id r = k) (filter (\<lambda>r. r_expires_at r > unix_seconds now) rows) of
       None \<Rightarrow> None | Some r \<Rightarrow> row_to_grant E J r)"
proof -
  have "distinct (map r_id (filter (\<lambda>r. r_expires_at r > unix_seconds now) rows))"
    using assms(1) by (simp add: rows_inv_def distinct_map_filter)
  then show ?thesis
    using assms(2) by (auto simp: new_grant_store_db_def load_rows_lookup split: if_splits option.splits)
qed

section \<open>Properties\<close>

text \<open>
  In every store the operations and restarts can reach, no identifier occurs twice in memory or
  in the database, each grant is filed under its own identifier, and its compiled waivers are the
  compilation of its waiver patterns.
\<close>

theorem grant_store_invariant:
  assumes "grant_reachable E J s"
  shows "store_inv E s"
  using assms
proof (induction rule: grant_reachable.induct)
  case memory
  show ?case by (simp add: new_grant_store_def store_inv_def rows_inv_def)
next
  case empty_db
  show ?case by (simp add: store_inv_def rows_inv_def)
next
  case (step s s')
  then show ?case by (blast intro: grant_step_inv)
qed

text \<open>
  An approval is waived only by a live grant for the very host, whose caller and end-user scope
  is empty or equal to the request's, whose elevation (sudo and effective target user) is the
  request's, and one of whose waiver patterns matches the command.
\<close>

theorem waiver_binds_scope_and_elevation:
  assumes "store_inv E s"
  shows "waiver_matches s host i now \<longleftrightarrow>
    (\<exists>k g. map_of (gs_grants s) k = Some g \<and> now < g_expires_at g \<and> g_host g = host
       \<and> g_caller g \<in> {[], in_caller i} \<and> g_end_user g \<in> {[], in_end_user i}
       \<and> g_sudo g = in_sudo i
       \<and> canonical_grant_sudo_user (g_sudo g) (g_sudo_user g)
           = canonical_grant_sudo_user (in_sudo i) (in_sudo_user i)
       \<and> (\<exists>p \<in> set (g_waive_approval g). rx_match E p (in_command i)))"
proof -
  have inv: "go_map_inv (gs_grants s)" "\<And>k g. (k, g) \<in> set (gs_grants s) \<Longrightarrow> grant_ok E k g"
    using assms by (auto simp: store_inv_def grants_inv_def)
  have re: "(\<exists>re \<in> set (g_waiver_re g). re c) \<longleftrightarrow> (\<exists>p \<in> set (g_waive_approval g). rx_match E p c)"
    if "(k, g) \<in> set (gs_grants s)" for k g c
    using inv(2) [OF that] by (intro compile_patterns_match) (simp add: grant_ok_def)
  show ?thesis
    unfolding waiver_matches_def list_ex_snd map_of_iff_in_set [OF inv(1)] waiver_applies_iff
      grant_active_def
    using re by blast
qed

text \<open>
  A revocation is durable or does nothing: if it reports an error the store is unchanged; if it
  reports success the grant is gone from memory and from the database, and no later restart brings
  it back.
\<close>

theorem revoke_is_durable:
  assumes "store_inv E s" and "grant_revoke ok k s = (r, s')"
  shows "((\<exists>e. r = Inl e) \<longrightarrow> s' = s)
    \<and> (r = Inr True \<longrightarrow> map_of (gs_grants s') k = None
         \<and> (\<forall>rows ok' now s''. gs_db s' = Some rows \<longrightarrow> new_grant_store_db E J ok' now rows = Inr s'' \<longrightarrow>
              map_of (gs_grants s'') k = None))"
proof -
  have err: "(\<exists>e. r = Inl e) \<longrightarrow> s' = s"
    using assms(2) by (auto simp: grant_revoke_def split: if_splits)
  have gone: "map_of (gs_grants s') k = None"
    "\<And>rows. gs_db s' = Some rows \<Longrightarrow> k \<notin> r_id ` set rows" if "r = Inr True"
    using assms(2) that
    by (auto simp: grant_revoke_def map_of_delete delete_rows_def split: if_splits option.splits)
  have inv': "store_inv E s'"
    using assms by (blast intro: grant_step_inv grant_step.revoke)
  have "map_of (gs_grants s'') k = None"
    if r: "r = Inr True" and rows: "gs_db s' = Some rows"
      and ld: "new_grant_store_db E J ok' now rows = Inr s''" for rows ok' now s''
  proof -
    have "rows_inv (Some rows)" using inv' rows by (simp add: store_inv_def)
    moreover have "List.find (\<lambda>r. r_id r = k)
        (filter (\<lambda>r. r_expires_at r > unix_seconds now) rows) = None"
      using gone(2) [OF r rows] by (auto simp: find_None_iff)
    ultimately show ?thesis using restart_lookup [OF _ ld, of k] by simp
  qed
  then show ?thesis using err gone(1) by blast
qed

text \<open>
  Revoking the grants of a frozen subject is all or nothing: on an error neither memory nor the
  database changes; otherwise no grant scoped to that caller or end user is left in memory, and
  every grant with another scope is kept.
\<close>

theorem revoke_for_subject_atomic:
  assumes "store_inv E s" and "val \<noteq> []" and "kind \<in> {FreezeCaller, FreezeEndUser}"
    and "revoke_for_subject b1 oks b2 kind val s = (r, s')"
  shows "((\<exists>e. r = Inl e) \<longrightarrow> s' = s)
    \<and> ((\<exists>n. r = Inr n) \<longrightarrow>
        (\<forall>k. map_of (gs_grants s') k =
           (case map_of (gs_grants s) k of
              None \<Rightarrow> None
            | Some g \<Rightarrow> if grant_of_subject kind val g then None else Some g)))"
proof -
  let ?P = "\<lambda>(k, g). grant_of_subject kind val g"
  let ?ids = "map fst (filter ?P (gs_grants s))"
  have inv: "go_map_inv (gs_grants s)"
    using assms(1) by (simp add: store_inv_def grants_inv_def)
  have err: "(\<exists>e. r = Inl e) \<longrightarrow> s' = s"
    using assms(4) by (auto simp: revoke_for_subject_def Let_def split: if_splits option.splits)
  have ids: "k \<in> set ?ids \<longleftrightarrow> (\<exists>g. map_of (gs_grants s) k = Some g \<and> grant_of_subject kind val g)" for k
    using map_of_iff_in_set [OF inv] by force
  have mem: "gs_grants s' = map_keep (\<lambda>k _. k \<notin> set ?ids) (gs_grants s)" if "r = Inr n" for n
  proof (cases "?ids = []")
    case True
    then have "gs_grants s' = gs_grants s"
      using assms(4) that by (auto simp: revoke_for_subject_def Let_def split: if_splits)
    with True show ?thesis by (simp add: map_keep_def)
  next
    case False
    have k: "\<not> (val = [] \<or> kind \<noteq> FreezeCaller \<and> kind \<noteq> FreezeEndUser)" using assms(2,3) by auto
    show ?thesis
      using assms(4) that False unfolding revoke_for_subject_def Let_def if_not_P [OF k] if_not_P [OF False]
      by (auto split: option.splits)
  qed
  have "map_of (gs_grants s') k =
       (case map_of (gs_grants s) k of
          None \<Rightarrow> None | Some g \<Rightarrow> if grant_of_subject kind val g then None else Some g)"
    if "r = Inr n" for n k
    unfolding mem [OF that] map_of_keep [OF inv]
    using ids [of k] by (cases "map_of (gs_grants s) k") auto
  then show ?thesis using err by blast
qed

text \<open>
  Purging and listing are invisible to the decision path: at the time of the sweep or later,
  the store after it offers the same grants and waives the same approvals as before.
\<close>

theorem purge_keeps_decisions:
  assumes "now \<le> t"
  shows "grants_for (snd (grant_purge ok now s)) host i t = grants_for s host i t
    \<and> waiver_matches (snd (grant_purge ok now s)) host i t = waiver_matches s host i t
    \<and> grants_for (snd (grant_list now s)) host i t = grants_for s host i t
    \<and> waiver_matches (snd (grant_list now s)) host i t = waiver_matches s host i t"
proof -
  have act: "grant_active t g \<Longrightarrow> grant_active now g" for g
    using assms by (simp add: grant_active_def)
  have f: "filter (\<lambda>g. grant_active t g \<and> Q g) (map snd (map_keep (\<lambda>_ g. grant_active now g) m))
      = filter (\<lambda>g. grant_active t g \<and> Q g) (map snd m)" for Q and m :: "(string, grant) go_map"
    by (induction m) (auto dest: act)
  have w: "list_ex (\<lambda>g. grant_active t g \<and> Q g) (map snd (map_keep (\<lambda>_ g. grant_active now g) m))
      = list_ex (\<lambda>g. grant_active t g \<and> Q g) (map snd m)" for Q and m :: "(string, grant) go_map"
    by (induction m) (auto dest: act split: if_splits)
  show ?thesis
    by (simp add: grants_for_def waiver_matches_def grant_purge_def grant_list_def Let_def f w)
qed

text \<open>
  A grant that was added to a database-backed store survives a restart: as long as it has not
  expired (in whole seconds), the restarted store holds it under the same identifier with the same
  host, patterns, scope and elevation, provided the JSON columns decode to what was encoded.
\<close>

theorem added_grant_survives_restart:
  assumes "store_inv E s" and "gs_db s = Some rows"
    and "grant_add E J ok new_id g s = (Inr new_id, s')"
    and "jc_unmarshal J (jc_marshal J (g_allow g)) = Some (g_allow g)"
    and "jc_unmarshal J (jc_marshal J (g_waive_approval g)) = Some (g_waive_approval g)"
    and "unix_seconds now < unix_seconds (g_expires_at g)"
  shows "\<exists>rows' s'' g'. gs_db s' = Some rows' \<and> new_grant_store_db E J True now rows' = Inr s''
    \<and> map_of (gs_grants s'') new_id = Some g' \<and> g_host g' = g_host g \<and> g_allow g' = g_allow g
    \<and> g_waive_approval g' = g_waive_approval g \<and> g_caller g' = g_caller g
    \<and> g_end_user g' = g_end_user g \<and> g_sudo g' = g_sudo g
    \<and> g_sudo_user g' = canonical_grant_sudo_user (g_sudo g) (g_sudo_user g)
    \<and> g_waiver_re g' = g_waiver_re (the (map_of (gs_grants s') new_id))"
proof -
  obtain re where re: "compile_patterns E (g_waive_approval g) = Inr re"
    and mem: "gs_grants s' = AList.update new_id (g\<lparr>g_sudo_user := canonical_grant_sudo_user (g_sudo g)
        (g_sudo_user g), g_waiver_re := re, g_id := new_id\<rparr>) (gs_grants s)"
    and db: "gs_db s' = Some (rows @ [grant_to_row J (g\<lparr>g_sudo_user := canonical_grant_sudo_user
        (g_sudo g) (g_sudo_user g), g_waiver_re := re, g_id := new_id\<rparr>)])"
    using assms(2,3)
    by (auto simp: grant_add_def Let_def compile_waivers_def insert_db_def
        split: if_splits option.splits sum.splits)
  let ?row = "grant_to_row J (g\<lparr>g_sudo_user := canonical_grant_sudo_user (g_sudo g) (g_sudo_user g),
      g_waiver_re := re, g_id := new_id\<rparr>)"
  have inv': "store_inv E s'" using assms(1,3) by (rule add_store_inv)
  then have ri: "rows_inv (Some (rows @ [?row]))" using db by (simp add: store_inv_def)
  have fresh: "new_id \<notin> r_id ` set rows"
    using ri by (auto simp: rows_inv_def grant_to_row_def)
  have live: "r_expires_at ?row > unix_seconds now"
    using assms(6) by (simp add: grant_to_row_def)
  have find: "List.find (\<lambda>r. r_id r = new_id)
      (filter (\<lambda>r. r_expires_at r > unix_seconds now) (rows @ [?row])) = Some ?row"
    using fresh live
    by (induction rows) (auto simp: grant_to_row_def)
  define s'' where "s'' = \<lparr>gs_grants = load_rows E J
      (filter (\<lambda>r. r_expires_at r > unix_seconds now) (rows @ [?row])) [], gs_db = Some (rows @ [?row])\<rparr>"
  have ld: "new_grant_store_db E J True now (rows @ [?row]) = Inr s''"
    by (simp add: new_grant_store_db_def s''_def)
  have row: "\<exists>g'. row_to_grant E J ?row = Some g' \<and> g_host g' = g_host g \<and> g_allow g' = g_allow g
    \<and> g_waive_approval g' = g_waive_approval g \<and> g_caller g' = g_caller g
    \<and> g_end_user g' = g_end_user g \<and> g_sudo g' = g_sudo g
    \<and> g_sudo_user g' = canonical_grant_sudo_user (g_sudo g) (g_sudo_user g) \<and> g_waiver_re g' = re"
    using assms(4,5) re by (simp add: row_to_grant_def grant_to_row_def compile_waivers_def)
  show ?thesis
    using row restart_lookup [OF ri ld, of new_id] find ld db
    by (auto simp: mem map_of_update)
qed


section \<open>Witnesses\<close>

definition example_codec :: json_codec where
  "example_codec = \<lparr>jc_marshal = (\<lambda>xs. go_join xs '',''),
     jc_unmarshal = (\<lambda>s. Some (if s = [] then [] else [s]))\<rparr>"

definition example_waiver :: grant where
  "example_waiver =
     \<lparr>g_id = [], g_host = ''db'', g_allow = [], g_waive_approval = [''^ls''], g_caller = ''b1'',
      g_end_user = [], g_sudo = False, g_sudo_user = [], g_approver = ''ann'', g_approval_id = [],
      g_granted_at = 0, g_expires_at = 100 * go_second, g_waiver_re = []\<rparr>"

definition example_store :: grant_store where
  "example_store = snd (grant_add example_env example_codec True ''id1'' example_waiver
     \<lparr>gs_grants = [], gs_db = Some []\<rparr>)"

lemma example_add:
  "grant_add example_env example_codec True ''id1'' example_waiver \<lparr>gs_grants = [], gs_db = Some []\<rparr>
   = (Inr ''id1'', example_store)"
  by (simp add: example_store_def grant_add_def example_waiver_def Let_def compile_waivers_def
      example_env_def example_rx_def insert_db_def)

lemma example_store_reachable: "grant_reachable example_env example_codec example_store"
  by (rule grant_reachable.step [OF grant_reachable.empty_db]) (rule grant_step.add [OF example_add])

lemma example_store_inv: "store_inv example_env example_store"
  using add_store_inv [OF _ example_add] by (simp add: store_inv_def rows_inv_def)

lemma example_store_lookup: "map_of (gs_grants example_store) ''id1'' =
    Some (example_waiver\<lparr>g_waiver_re := [\<lambda>s. prefix ''ls'' s], g_id := ''id1''\<rparr>)"
  by (simp add: example_store_def grant_add_def example_waiver_def Let_def compile_waivers_def
      example_env_def example_rx_def insert_db_def canonical_grant_sudo_user_def)

theorem grant_store_invariant_witness: "store_inv example_env example_store"
  using grant_store_invariant [OF example_store_reachable] .

theorem waiver_binds_scope_and_elevation_witness:
  "waiver_matches example_store ''db'' (plain_intent ''b1'' ''db'' ''ls -l'') 5
   \<and> \<not> waiver_matches example_store ''db'' ((plain_intent ''b1'' ''db'' ''ls -l'')\<lparr>in_sudo := True\<rparr>) 5"
proof -
  have one: "map_of (gs_grants example_store) k = Some g \<Longrightarrow> \<not> g_sudo g" for k g
    by (auto simp: example_store_def grant_add_def example_waiver_def Let_def compile_waivers_def
        example_env_def example_rx_def insert_db_def canonical_grant_sudo_user_def split: if_splits)
  have m: "rx_match example_env ''^ls'' ''ls -l''"
    by (simp add: rx_match_def example_env_def example_rx_def)
  note iff = waiver_binds_scope_and_elevation [OF example_store_inv]
  have "waiver_matches example_store ''db'' (plain_intent ''b1'' ''db'' ''ls -l'') 5"
    unfolding iff
    by (intro exI [where x = "''id1''"] exI conjI, rule example_store_lookup)
      (simp_all add: example_waiver_def plain_intent_def m canonical_grant_sudo_user_def)
  moreover have "\<not> waiver_matches example_store ''db''
      ((plain_intent ''b1'' ''db'' ''ls -l'')\<lparr>in_sudo := True\<rparr>) 5"
    unfolding iff using one by auto
  ultimately show ?thesis ..
qed

theorem revoke_is_durable_witness:
  "map_of (gs_grants (snd (grant_revoke True ''id1'' example_store))) ''id1'' = None"
proof -
  have "grant_revoke True ''id1'' example_store
      = (Inr True, snd (grant_revoke True ''id1'' example_store))"
    by (simp add: grant_revoke_def map_has_def example_store_lookup)
  then show ?thesis using revoke_is_durable [OF example_store_inv, of True "''id1''"] by blast
qed

theorem revoke_for_subject_atomic_witness:
  "map_of (gs_grants (snd (revoke_for_subject True (\<lambda>_. True) True FreezeCaller ''b1'' example_store))) ''id1'' = None"
proof -
  have "fst (revoke_for_subject True (\<lambda>_. True) True FreezeCaller ''b1'' example_store) = Inr 1"
    by (simp add: revoke_for_subject_def example_store_def grant_add_def example_waiver_def Let_def
        compile_waivers_def example_env_def example_rx_def insert_db_def grant_of_subject_def)
  then obtain s' where r: "revoke_for_subject True (\<lambda>_. True) True FreezeCaller ''b1'' example_store
      = (Inr 1, s')" by (metis prod.collapse)
  show ?thesis
    using revoke_for_subject_atomic [OF example_store_inv _ _ r]
    by (simp add: r example_store_lookup grant_of_subject_def example_waiver_def)
qed

theorem purge_keeps_decisions_witness:
  "grants_for (snd (grant_purge True 3 example_store)) ''db'' (plain_intent ''b1'' ''db'' ''ls'') 5
   = grants_for example_store ''db'' (plain_intent ''b1'' ''db'' ''ls'') 5"
  using purge_keeps_decisions [of 3 5 True example_store] by simp

theorem added_grant_survives_restart_witness:
  "\<exists>rows' s'' g'. gs_db example_store = Some rows'
     \<and> new_grant_store_db example_env example_codec True (7 * go_second) rows' = Inr s''
     \<and> map_of (gs_grants s'') ''id1'' = Some g' \<and> g_waive_approval g' = [''^ls'']"
proof -
  have inv: "store_inv example_env \<lparr>gs_grants = [], gs_db = Some []\<rparr>"
    by (simp add: store_inv_def rows_inv_def)
  have j: "jc_unmarshal example_codec (jc_marshal example_codec (g_allow example_waiver))
      = Some (g_allow example_waiver)"
    "jc_unmarshal example_codec (jc_marshal example_codec (g_waive_approval example_waiver))
      = Some (g_waive_approval example_waiver)"
    "unix_seconds (7 * go_second) < unix_seconds (g_expires_at example_waiver)"
    by (simp_all add: example_codec_def example_waiver_def unix_seconds_def)
  show ?thesis
    using added_grant_survives_restart [OF inv _ example_add j, of "[]"]
    by (auto simp: example_waiver_def)
qed

end
