(* ===== verification/Resolve.thy ===== *)
theory Resolve
  imports Elevation Grants Sealed Cert_Authority
begin

text \<open>
  The decision path of the signer for SSH targets (\<open>internal/signer/signer.go\<close>): \<open>authorizeIntent\<close>,
  \<open>resolveCommandPolicy\<close>, \<open>buildConstraints\<close> and \<open>PolicyTable.resolve\<close>.

  The runtime grant provider is the pair of functions \<open>grants_api\<close>, \<^term>\<open>None\<close> where the Go value is
  nil. A rule, a warning and an error are values of datatypes where the code formats a string; the
  clock is read once per decision.
\<close>

section \<open>Data\<close>

record grants_api =
  ga_grants_for :: "string \<Rightarrow> intent \<Rightarrow> go_time \<Rightarrow> policy_set"
  ga_waiver_matches :: "string \<Rightarrow> intent \<Rightarrow> go_time \<Rightarrow> bool"

definition store_api :: "grant_store \<Rightarrow> grants_api" where
  "store_api s = \<lparr>ga_grants_for = grants_for s, ga_waiver_matches = waiver_matches s\<rparr>"

record cp_result =
  cr_require_approval :: bool
  cr_matched_rule :: cmd_rule
  cr_enforcement :: string
  cr_warning :: "(string \<times> cmd_rule) option"
  cr_would_deny :: bool
  cr_would_require_approval :: bool

record decision =
  de_constraints :: constraints
  de_elevation_prefix :: string
  de_require_approval :: bool
  de_matched_rule :: cmd_rule
  de_enforcement :: string
  de_warning :: "(string \<times> cmd_rule) option"
  de_would_deny :: bool
  de_would_require_approval :: bool
  de_k8s_action :: "k8s_action option"

definition zero_cp_result :: cp_result where
  "zero_cp_result = \<lparr>cr_require_approval = False, cr_matched_rule = NoRule, cr_enforcement = [],
     cr_warning = None, cr_would_deny = False, cr_would_require_approval = False\<rparr>"

definition zero_constraints :: constraints where
  "zero_constraints = \<lparr>co_principal = [], co_ttl = 0, co_source_address = [], co_force_command = [],
     co_allow_port_forwarding = False, co_allow_pty = False, co_key_id = []\<rparr>"

definition zero_decision :: decision where
  "zero_decision = \<lparr>de_constraints = zero_constraints, de_elevation_prefix = [],
     de_require_approval = False, de_matched_rule = NoRule, de_enforcement = [], de_warning = None,
     de_would_deny = False, de_would_require_approval = False, de_k8s_action = None\<rparr>"

section \<open>Authorisation\<close>

definition authorize_intent :: "host_policy \<Rightarrow> intent \<Rightarrow> sign_error option" where
  "authorize_intent hp i =
     (if in_role i \<noteq> RoleTarget \<and> in_role i \<noteq> RoleBastion then Some (UnknownRole (in_role i))
      else if in_purpose i \<noteq> PurposeOneshot \<and> in_purpose i \<noteq> PurposeSession then
        Some (UnknownPurpose (in_purpose i))
      else if hp_sealed_exec hp \<and> in_purpose i = PurposeSession \<and> in_role i = RoleTarget
           \<and> in_session_mode i \<noteq> SessionModeExec then Some SealedRequiresExec
      else if has_unsafe_token_char (in_caller i) \<or> has_unsafe_token_char (in_end_user i)
           \<or> has_unsafe_token_char (in_end_user_context i) then Some UnsafeIdentity
      else if contains_any (in_command i) [char_of (10 :: nat), char_of (13 :: nat)]
           \<and> (in_purpose i = PurposeOneshot \<or> ps_restricts (effective_policies hp)) then Some NewlineInCommand
      else if in_purpose i = PurposeOneshot \<and> in_role i = RoleTarget \<and> only_space (in_command i) then
        Some EmptyOneshotCommand
      else if \<not> caller_allowed (hp_allowed_callers hp) (in_caller i) then Some CallerNotAuthorised
      else if (case in_end_user_groups i of
                 None \<Rightarrow> False
               | Some gs \<Rightarrow> \<not> groups_intersect (hp_groups hp) gs) then Some UserNotAuthorised
      else if in_role i = RoleBastion \<and> \<not> hp_allow_as_bastion hp then Some NotABastion
      else if in_role i \<noteq> RoleTarget \<and> ps_restricts (effective_policies hp) then Some PolicyHostAsBastion
      else None)"

section \<open>The firewall\<close>

definition command_policy_warning :: "cp_result \<Rightarrow> string \<times> cmd_rule" where
  "command_policy_warning res =
     (if cr_would_deny res \<and> cr_would_require_approval res then ''would deny and would require approval''
      else if cr_would_deny res then ''would deny''
      else if cr_would_require_approval res then ''would require approval''
      else ''would allow'', cr_matched_rule res)"

definition with_warning :: "cp_result \<Rightarrow> cp_result" where
  "with_warning res = res\<lparr>cr_warning := Some (command_policy_warning res)\<rparr>"

text \<open>The policies a decision is made on: the host's, widened by live grants on an allowlist.\<close>

definition widened_policies :: "grants_api option \<Rightarrow> host_policy \<Rightarrow> intent \<Rightarrow> go_time \<Rightarrow> policy_set" where
  "widened_policies gs hp i now =
     (let eff = effective_policies hp in
      case gs of
        None \<Rightarrow> eff
      | Some api \<Rightarrow>
          (if \<not> ps_has_allowlist eff then eff
           else let g = ga_grants_for api (in_host i) i now in
             if g = [] then eff
             else eff @ (if ps_enforcement eff = CmdPolicyAudit
                         then map (\<lambda>p. p\<lparr>cp_enforcement := CmdPolicyAudit\<rparr>) g else g)))"

definition waived :: "grants_api option \<Rightarrow> intent \<Rightarrow> go_time \<Rightarrow> bool" where
  "waived gs i now = (case gs of None \<Rightarrow> False | Some api \<Rightarrow> ga_waiver_matches api (in_host i) i now)"

definition resolve_command_policy ::
  "go_env \<Rightarrow> grants_api option \<Rightarrow> host_policy \<Rightarrow> intent \<Rightarrow> go_time \<Rightarrow> cp_result \<times> sign_error option" where
  "resolve_command_policy E gs hp i now =
     (let eff = widened_policies gs hp i now in
      if in_role i \<noteq> RoleTarget \<or> \<not> ps_restricts eff then (zero_cp_result, None)
      else
        let res = zero_cp_result\<lparr>cr_enforcement := ps_enforcement eff\<rparr>;
            audit = (ps_enforcement eff = CmdPolicyAudit) in
        if in_purpose i = PurposeSession \<and> in_session_mode i \<noteq> SessionModeExec then
          (res, Some SessionRequiresExec)
        else if in_purpose i = PurposeSession \<and> in_command i = [] then (res, None)
        else case ps_decide E eff (in_command i) of (allowed, needs, rule, cerr) \<Rightarrow>
          let res = res\<lparr>cr_matched_rule := rule\<rparr> in
          (case cerr of
             Some e \<Rightarrow>
               (if audit then (with_warning (res\<lparr>cr_would_deny := True\<rparr>), None)
                else (res, Some (CommandPolicyFailed e)))
           | None \<Rightarrow>
               (if \<not> allowed then
                  (if audit then
                     (with_warning (res\<lparr>cr_would_deny := True, cr_would_require_approval := needs\<rparr>), None)
                   else (res, Some (CommandDenied rule)))
                else if needs \<and> waived gs i now then (res\<lparr>cr_matched_rule := ApprovalWaived rule\<rparr>, None)
                else if needs then
                  (if audit then (with_warning (res\<lparr>cr_would_require_approval := True\<rparr>), None)
                   else (res\<lparr>cr_require_approval := True\<rparr>, None))
                else (res, None))))"

section \<open>Constraints\<close>

definition key_id :: "intent \<Rightarrow> string \<Rightarrow> go_time \<Rightarrow> string" where
  "key_id i elevation now =
     ''agent='' @ in_caller i @ '' host='' @ in_host i @ '' role='' @ in_role i
     @ '' t='' @ int_decimal (unix_seconds now)
     @ (if in_end_user i \<noteq> [] then '' user='' @ in_end_user i else [])
     @ (if in_end_user_context i \<noteq> [] then '' ctx='' @ in_end_user_context i else [])
     @ (if elevation \<noteq> [] then '' elev='' @ elevation else [])
     @ (if in_pty i then '' pty=1'' else [])"

definition build_constraints :: "host_policy \<Rightarrow> intent \<Rightarrow> string \<Rightarrow> go_duration \<Rightarrow> go_time \<Rightarrow> constraints" where
  "build_constraints hp i elevation ttl now =
     \<lparr>co_principal = hp_principal hp, co_ttl = ttl, co_source_address = hp_source_address hp,
      co_force_command = [], co_allow_port_forwarding = (in_role i = RoleBastion),
      co_allow_pty = in_pty i, co_key_id = key_id i elevation now\<rparr>"

definition effective_ttl :: "host_policy \<Rightarrow> go_duration \<Rightarrow> intent \<Rightarrow> go_duration" where
  "effective_ttl hp default_ttl i =
     (let max_ttl = (if hp_max_ttl hp \<le> 0 then default_ttl else hp_max_ttl hp) in
      if in_requested_ttl i \<le> 0 \<or> max_ttl < in_requested_ttl i then max_ttl else in_requested_ttl i)"

definition denied_decision :: "cp_result \<Rightarrow> decision" where
  "denied_decision cp = zero_decision\<lparr>de_matched_rule := cr_matched_rule cp, de_enforcement := cr_enforcement cp,
     de_warning := cr_warning cp, de_would_deny := cr_would_deny cp,
     de_would_require_approval := cr_would_require_approval cp\<rparr>"

definition is_oneshot_target :: "intent \<Rightarrow> bool" where
  "is_oneshot_target i \<longleftrightarrow> in_purpose i = PurposeOneshot \<and> in_role i = RoleTarget"

text \<open>The command a one-shot target certificate is bound to.\<close>

definition baked_command :: "go_env \<Rightarrow> intent \<Rightarrow> string \<Rightarrow> string" where
  "baked_command E i elevation =
     (if elevation \<noteq> [] then build_elevated_command E elevation (in_command i) else in_command i)"

text \<open>The tail of \<open>resolve\<close>: the constraints with the forced command, and the decision.\<close>

definition finish_decision ::
  "go_env \<Rightarrow> host_policy \<Rightarrow> go_duration \<Rightarrow> intent \<Rightarrow> string \<Rightarrow> cp_result \<Rightarrow> go_time \<Rightarrow> decision \<times> sign_error option" where
  "finish_decision E hp default_ttl i elevation cp now =
     (let c = build_constraints hp i elevation (effective_ttl hp default_ttl i) now;
          c = (if is_oneshot_target i then c\<lparr>co_force_command := baked_command E i elevation\<rparr> else c);
          pre = (if is_oneshot_target i then [] else elevation);
          d = (\<lambda>c. \<lparr>de_constraints = c, de_elevation_prefix = pre,
                de_require_approval = cr_require_approval cp, de_matched_rule = cr_matched_rule cp,
                de_enforcement = cr_enforcement cp, de_warning = cr_warning cp,
                de_would_deny = cr_would_deny cp,
                de_would_require_approval = cr_would_require_approval cp, de_k8s_action = None\<rparr>)
      in if hp_sealed_exec hp \<and> co_force_command c = [] then
           (case force_command (in_host i) of
              Inl _ \<Rightarrow> (zero_decision, Some (SealedHostName (in_host i)))
            | Inr fc \<Rightarrow> (d (c\<lparr>co_force_command := fc\<rparr>), None))
         else (d c, None))"

definition resolve ::
  "go_env \<Rightarrow> policy_table \<Rightarrow> go_duration \<Rightarrow> grants_api option \<Rightarrow> intent \<Rightarrow> go_time \<Rightarrow> decision \<times> sign_error option" where
  "resolve E tbl default_ttl gs i now =
     (case map_of tbl (in_host i) of
        None \<Rightarrow> (zero_decision, Some (NoPolicyForHost (in_host i)))
      | Some hp \<Rightarrow>
          (case authorize_intent hp i of
             Some e \<Rightarrow> (zero_decision, Some e)
           | None \<Rightarrow> (case resolve_elevation hp i of
               Inl e \<Rightarrow> (zero_decision, Some e)
             | Inr elevation \<Rightarrow>
                 (if in_pty i \<and> \<not> hp_allow_pty hp then (zero_decision, Some PTYNotAllowed)
                  else if in_file_transfer i \<and> \<not> hp_allow_file_transfer hp then
                    (zero_decision, Some FileTransferNotAllowed)
                  else case resolve_command_policy E gs hp i now of
                    (cp, Some e) \<Rightarrow> (denied_decision cp, Some e)
                  | (cp, None) \<Rightarrow> finish_decision E hp default_ttl i elevation cp now))))"

section \<open>Lemmas\<close>

text \<open>What a decision without error has passed.\<close>

lemma resolve_ok:
  assumes "resolve E tbl default_ttl gs i now = (d, None)"
  obtains hp elevation cp where "map_of tbl (in_host i) = Some hp" and "authorize_intent hp i = None"
    and "resolve_elevation hp i = Inr elevation" and "in_pty i \<longrightarrow> hp_allow_pty hp"
    and "in_file_transfer i \<longrightarrow> hp_allow_file_transfer hp"
    and "resolve_command_policy E gs hp i now = (cp, None)"
    and "finish_decision E hp default_ttl i elevation cp now = (d, None)"
  using assms that
  by (auto simp: resolve_def split: option.splits sum.splits if_splits prod.splits)

lemma authorize_intent_None:
  assumes "authorize_intent hp i = None"
  shows "in_role i = RoleTarget \<or> in_role i = RoleBastion"
    and "in_purpose i = PurposeOneshot \<or> in_purpose i = PurposeSession"
    and "hp_sealed_exec hp \<Longrightarrow> in_purpose i = PurposeSession \<Longrightarrow> in_role i = RoleTarget \<Longrightarrow> in_session_mode i = SessionModeExec"
    and "\<not> has_unsafe_token_char (in_caller i)" and "\<not> has_unsafe_token_char (in_end_user i)"
    and "\<not> has_unsafe_token_char (in_end_user_context i)"
    and "is_oneshot_target i \<Longrightarrow> \<not> only_space (in_command i)"
    and "caller_allowed (hp_allowed_callers hp) (in_caller i)"
    and "in_end_user_groups i = Some gs \<Longrightarrow> groups_intersect (hp_groups hp) gs"
    and "in_role i = RoleBastion \<Longrightarrow> hp_allow_as_bastion hp"
    and "ps_restricts (effective_policies hp) \<Longrightarrow> in_role i = RoleTarget"
  using assms by (auto simp: authorize_intent_def is_oneshot_target_def split: if_splits option.splits)

lemma finish_decision_ok:
  assumes "finish_decision E hp default_ttl i elevation cp now = (d, None)"
  shows "co_force_command (de_constraints d) =
      (if is_oneshot_target i \<and> baked_command E i elevation \<noteq> [] then baked_command E i elevation
       else if hp_sealed_exec hp then ShimCommand @ '' '' @ in_host i else [])"
    and "hp_sealed_exec hp \<and> \<not> (is_oneshot_target i \<and> baked_command E i elevation \<noteq> []) \<Longrightarrow> valid_host_name (in_host i)"
    and "co_ttl (de_constraints d) = effective_ttl hp default_ttl i"
    and "co_principal (de_constraints d) = hp_principal hp"
    and "co_source_address (de_constraints d) = hp_source_address hp"
    and "co_allow_port_forwarding (de_constraints d) = (in_role i = RoleBastion)"
    and "co_allow_pty (de_constraints d) = in_pty i"
    and "co_key_id (de_constraints d) = key_id i elevation now"
    and "de_elevation_prefix d = (if is_oneshot_target i then [] else elevation)"
    and "de_require_approval d = cr_require_approval cp"
    and "de_matched_rule d = cr_matched_rule cp"
    and "de_enforcement d = cr_enforcement cp"
    and "de_would_deny d = cr_would_deny cp"
  using assms
  by (auto simp: finish_decision_def build_constraints_def force_command_def Let_def split: if_splits sum.splits)

lemma build_elevated_nonempty: "build_elevated_command E elevation command \<noteq> []"
  by (auto simp: build_elevated_command_def split: option.splits)

lemma baked_nonempty: "in_command i \<noteq> [] \<Longrightarrow> baked_command E i elevation \<noteq> []"
  by (simp add: baked_command_def build_elevated_nonempty)

lemma authorized_oneshot_command:
  "authorize_intent hp i = None \<Longrightarrow> is_oneshot_target i \<Longrightarrow> in_command i \<noteq> []"
  using authorize_intent_None(7) [of hp i] by auto

text \<open>The firewall, on the policies it is evaluated on.\<close>

lemma command_policy_ok:
  assumes "resolve_command_policy E gs hp i now = (cp, None)" and "in_role i = RoleTarget"
    and "ps_restricts (widened_policies gs hp i now)"
    and "ps_enforcement (widened_policies gs hp i now) \<noteq> CmdPolicyAudit"
  shows "in_purpose i = PurposeSession \<Longrightarrow> in_session_mode i = SessionModeExec"
    and "\<not> (in_purpose i = PurposeSession \<and> in_command i = []) \<Longrightarrow>
      verdict_allowed (ps_decide E (widened_policies gs hp i now) (in_command i))
      \<and> (cr_require_approval cp \<longleftrightarrow>
           verdict_needs (ps_decide E (widened_policies gs hp i now) (in_command i)) \<and> \<not> waived gs i now)"
  using assms
  by (auto simp: resolve_command_policy_def Let_def zero_cp_result_def split: if_splits prod.splits option.splits)

lemma ps_restricts_append [simp]: "ps_restricts (ps @ qs) \<longleftrightarrow> ps_restricts ps \<or> ps_restricts qs"
  by (simp add: ps_restricts_def)

lemma allowlist_restricts: "ps_has_allowlist ps \<Longrightarrow> ps_restricts ps"
  by (auto simp: ps_has_allowlist_def ps_restricts_def list_ex_iff cp_restricts_def cp_active_def)

lemma widened_cases:
  obtains "widened_policies gs hp i now = effective_policies hp"
  | api where "gs = Some api" and "ps_has_allowlist (effective_policies hp)"
      and "ps_enforcement (effective_policies hp) = CmdPolicyAudit"
      and "widened_policies gs hp i now = effective_policies hp
             @ map (\<lambda>p. p\<lparr>cp_enforcement := CmdPolicyAudit\<rparr>) (ga_grants_for api (in_host i) i now)"
  | api where "gs = Some api" and "ps_has_allowlist (effective_policies hp)"
      and "ps_enforcement (effective_policies hp) \<noteq> CmdPolicyAudit"
      and "widened_policies gs hp i now = effective_policies hp @ ga_grants_for api (in_host i) i now"
proof (cases gs)
  case None
  then show ?thesis by (intro that(1)) (simp add: widened_policies_def)
next
  case (Some api)
  consider "\<not> ps_has_allowlist (effective_policies hp) \<or> ga_grants_for api (in_host i) i now = []"
    | "ps_has_allowlist (effective_policies hp)" "ga_grants_for api (in_host i) i now \<noteq> []"
    by blast
  then show ?thesis
  proof cases
    case 1
    with Some show ?thesis by (intro that(1)) (auto simp: widened_policies_def Let_def)
  next
    case 2
    with Some show ?thesis using that(2,3) [of api]
      by (cases "ps_enforcement (effective_policies hp) = CmdPolicyAudit")
        (simp_all add: widened_policies_def Let_def)
  qed
qed

lemma widened_restricts: "ps_restricts (widened_policies gs hp i now) = ps_restricts (effective_policies hp)"
  by (rule widened_cases [of gs hp i now]) (auto dest: allowlist_restricts)

text \<open>Grants never change whether a host enforces.\<close>

lemma enforcement_append:
  "ps_enforcement (ps @ qs) = CmdPolicyAudit \<longleftrightarrow>
     ps_restricts (ps @ qs) \<and> (\<forall>p \<in> set (ps @ qs). cp_restricts p \<longrightarrow> cp_enforcement p = CmdPolicyAudit)"
  by (simp only: ps_enforcement_def enforcement_loop_audit ps_restricts_iff) simp

lemma enforcement_audit_iff:
  "ps_enforcement ps = CmdPolicyAudit \<longleftrightarrow>
     ps_restricts ps \<and> (\<forall>p \<in> set ps. cp_restricts p \<longrightarrow> cp_enforcement p = CmdPolicyAudit)"
  using enforcement_append [of ps "[]"] by simp

lemma widened_enforcement:
  "ps_enforcement (widened_policies gs hp i now) = CmdPolicyAudit
     \<longleftrightarrow> ps_enforcement (effective_policies hp) = CmdPolicyAudit"
  by (rule widened_cases [of gs hp i now])
    (auto simp: enforcement_append enforcement_audit_iff dest: allowlist_restricts)

lemma effective_ttl_bounds:
  assumes "0 < default_ttl"
  shows "0 < effective_ttl hp default_ttl i"
    and "effective_ttl hp default_ttl i \<le> (if hp_max_ttl hp \<le> 0 then default_ttl else hp_max_ttl hp)"
  using assms by (auto simp: effective_ttl_def Let_def)

section \<open>The certificate's key identifier\<close>

lemma split_on_space_word: "\<not> has_unsafe_token_char w \<Longrightarrow> CHR '' '' \<notin> set w"
  by (auto simp: has_unsafe_token_char_def contains_any_iff)

lemma split_on_ne [simp]: "split_on sep u \<noteq> []"
  by (cases u) (auto split: list.splits)

lemma split_on_append_word: "split_on sep (u @ sep # v) = split_on sep u @ split_on sep v"
proof (induction u)
  case (Cons c u)
  then show ?case using split_on_ne [of sep u] by (cases "split_on sep u") auto
qed simp

text \<open>The tokens of a line that starts with a word and goes on with parts, each after a space.\<close>

lemma split_on_parts:
  "split_on sep (w @ concat (map (\<lambda>p. sep # p) parts)) = split_on sep w @ concat (map (split_on sep) parts)"
proof (induction parts arbitrary: w)
  case (Cons p parts)
  then show ?case by (simp add: split_on_append_word)
qed simp

definition key_id_words :: "intent \<Rightarrow> go_time \<Rightarrow> string list" where
  "key_id_words i now =
     [''host='' @ in_host i, ''role='' @ in_role i, ''t='' @ int_decimal (unix_seconds now)]
     @ (if in_end_user i \<noteq> [] then [''user='' @ in_end_user i] else [])
     @ (if in_end_user_context i \<noteq> [] then [''ctx='' @ in_end_user_context i] else [])"

definition key_id_tail :: "intent \<Rightarrow> string \<Rightarrow> string list" where
  "key_id_tail i elevation =
     (if elevation \<noteq> [] then [''elev='' @ elevation] else []) @ (if in_pty i then [''pty=1''] else [])"

lemma key_id_parts:
  "key_id i elevation now = (''agent='' @ in_caller i)
     @ concat (map (\<lambda>p. CHR '' '' # p) (key_id_words i now @ key_id_tail i elevation))"
  by (simp add: key_id_def key_id_words_def key_id_tail_def)

lemma int_decimal_no_space: "CHR '' '' \<notin> set (int_decimal n)"
  by (auto simp: int_decimal_def dest!: nat_decimal_digits simp: is_digit_char_def)

lemma concat_singletons: "\<forall>p \<in> set ps. sep \<notin> set p \<Longrightarrow> concat (map (split_on sep) ps) = ps"
  by (induction ps) (auto simp: split_on_single)

lemma elevation_forms:
  assumes "resolve_elevation hp i = Inr elevation" and "elevation \<noteq> []"
  obtains u where "in_sudo i" and "hp_allow_sudo hp" and "sudo_user_allowed (hp_allowed_sudo_users hp) u"
    and "valid_user u" and "elevation = (if u = ''root'' then ''sudo -n'' else ''sudo -n -u '' @ u)"
  using assms by (auto simp: resolve_elevation_def Let_def split: if_splits)

definition elev_words :: "string \<Rightarrow> string list" where
  "elev_words u = [''elev=sudo'', ''-n''] @ (if u = ''root'' then [] else [''-u'', u])"

lemma valid_user_no_space: "valid_user u \<Longrightarrow> CHR '' '' \<notin> set u"
  using valid_user_safe shell_safe_not_special by (fastforce simp: shell_safe_word_def list_all_iff)

lemma split_elevation:
  assumes "valid_user u"
  shows "split_on CHR '' '' (''elev='' @ (if u = ''root'' then ''sudo -n'' else ''sudo -n -u '' @ u)) = elev_words u"
  using split_on_single [OF valid_user_no_space [OF assms]] by (simp add: elev_words_def)

text \<open>Every certificate's key identifier is the concatenation of its tokens.\<close>

lemma key_id_tokens_lemma:
  assumes "authorize_intent hp i = None" and "CHR '' '' \<notin> set (in_host i)"
  shows "split_on CHR '' '' (key_id i elevation now) =
    (''agent='' @ in_caller i) # key_id_words i now @ concat (map (split_on CHR '' '') (key_id_tail i elevation))"
proof -
  note a = authorize_intent_None(1,4,5,6) [OF assms(1)]
  have "CHR '' '' \<notin> set (in_caller i)" "CHR '' '' \<notin> set (in_end_user i)"
    "CHR '' '' \<notin> set (in_end_user_context i)" "CHR '' '' \<notin> set (in_role i)"
    using a by (auto dest: split_on_space_word)
  then have "\<forall>p \<in> set (key_id_words i now). CHR '' '' \<notin> set p" and agent: "CHR '' '' \<notin> set (''agent='' @ in_caller i)"
    using assms(2) int_decimal_no_space by (auto simp: key_id_words_def)
  then have "concat (map (split_on CHR '' '') (key_id_words i now)) = key_id_words i now"
    by (intro concat_singletons)
  moreover have "split_on CHR '' '' (''agent='' @ in_caller i) = [''agent='' @ in_caller i]"
    using agent by (rule split_on_single)
  ultimately show ?thesis unfolding key_id_parts split_on_parts by (simp only: map_append concat_append) simp
qed

section \<open>Grants and decisions\<close>

lemma ps_decide_allowed_err: "verdict_allowed (ps_decide E ps c) \<Longrightarrow> verdict_err (ps_decide E ps c) = None"
proof (cases "ps = []")
  case False
  assume "verdict_allowed (ps_decide E ps c)"
  with False obtain cmds where "ps_decide E ps c = decide_loop E ps cmds False NoRule"
    by (cases "policy_commands E ps c") (simp_all add: ps_decide_commands)
  with \<open>verdict_allowed (ps_decide E ps c)\<close> show ?thesis
    using decide_loop_error [of E ps cmds False NoRule] by argo
qed (simp add: ps_decide_def)

lemma widening_audit: "widening p \<Longrightarrow> widening (p\<lparr>cp_enforcement := e\<rparr>)"
  by (simp add: widening_def)

lemma patterns_compile_audit:
  "patterns_compile E (map (\<lambda>p. p\<lparr>cp_enforcement := e\<rparr>) ps) = patterns_compile E ps"
  by (auto simp: patterns_compile_def)

context grant_provider
begin

definition provider_api :: grants_api where
  "provider_api = \<lparr>ga_grants_for = gp_grants, ga_waiver_matches = gp_waives\<rparr>"

lemma provider_decision:
  assumes "ps_has_allowlist (effective_policies hp) \<longrightarrow> ps_shell_parse (effective_policies hp)"
    and "patterns_compile E (effective_policies hp @ gp_grants (in_host i) i now)"
    and "verdict_allowed (ps_decide E (effective_policies hp) c)"
  shows "verdict_allowed (ps_decide E (widened_policies (Some provider_api) hp i now) c)
    \<and> verdict_needs (ps_decide E (widened_policies (Some provider_api) hp i now) c)
        = verdict_needs (ps_decide E (effective_policies hp) c)"
proof (rule widened_cases [of "Some provider_api" hp i now])
  assume "widened_policies (Some provider_api) hp i now = effective_policies hp"
  then show ?thesis using assms(3) by simp
next
  fix a assume "Some provider_api = Some a" and h: "ps_has_allowlist (effective_policies hp)"
    and w: "widened_policies (Some provider_api) hp i now = effective_policies hp
          @ map (\<lambda>p. p\<lparr>cp_enforcement := CmdPolicyAudit\<rparr>) (ga_grants_for a (in_host i) i now)"
  then have a: "a = provider_api" by simp
  show ?thesis unfolding w a
    by (intro conjI widening_decide)
      (use h assms gp_widening in \<open>auto simp: provider_api_def patterns_compile_audit widening_audit\<close>)
next
  fix a assume "Some provider_api = Some a" and h: "ps_has_allowlist (effective_policies hp)"
    and w: "widened_policies (Some provider_api) hp i now = effective_policies hp @ ga_grants_for a (in_host i) i now"
  then have a: "a = provider_api" by simp
  show ?thesis unfolding w a
    by (intro conjI widening_decide) (use h assms gp_widening in \<open>auto simp: provider_api_def\<close>)
qed

lemma provider_command_policy:
  assumes p: "ps_has_allowlist (effective_policies hp) \<longrightarrow> ps_shell_parse (effective_policies hp)"
    "patterns_compile E (effective_policies hp @ gp_grants (in_host i) i now)"
    and "resolve_command_policy E None hp i now = (cp, None)"
  shows "\<exists>cp'. resolve_command_policy E (Some provider_api) hp i now = (cp', None)
    \<and> (cr_require_approval cp' \<longrightarrow> cr_require_approval cp)"
proof -
  have base: "widened_policies None hp i now = effective_policies hp" by (simp add: widened_policies_def)
  show ?thesis
  proof (cases "ps_enforcement (effective_policies hp) = CmdPolicyAudit
      \<or> in_role i \<noteq> RoleTarget \<or> \<not> ps_restricts (effective_policies hp)
      \<or> in_purpose i = PurposeSession \<and> in_command i = []")
    case True
    then show ?thesis
      using assms(3) widened_restricts [of "Some provider_api" hp i now] widened_enforcement [of "Some provider_api" hp i now]
      by (auto simp: resolve_command_policy_def base Let_def with_warning_def zero_cp_result_def
          split: if_splits prod.splits option.splits)
  next
    case False
    then have r: "in_role i = RoleTarget" "ps_restricts (widened_policies None hp i now)"
      "ps_enforcement (widened_policies None hp i now) \<noteq> CmdPolicyAudit"
      and c: "\<not> (in_purpose i = PurposeSession \<and> in_command i = [])" by (auto simp: base)
    note b = command_policy_ok [OF assms(3) r]
    from b(2) [OF c] have allowed: "verdict_allowed (ps_decide E (effective_policies hp) (in_command i))"
      and needs: "cr_require_approval cp = verdict_needs (ps_decide E (effective_policies hp) (in_command i))"
      by (auto simp: base waived_def)
    note d = provider_decision [OF p allowed]
    have "verdict_err (ps_decide E (widened_policies (Some provider_api) hp i now) (in_command i)) = None"
      using d ps_decide_allowed_err by blast
    with d needs False b(1) show ?thesis
      using widened_restricts [of "Some provider_api" hp i now] widened_enforcement [of "Some provider_api" hp i now]
      by (auto simp: resolve_command_policy_def Let_def zero_cp_result_def
          split: if_splits prod.splits option.splits)
  qed
qed

lemma provider_resolve:
  assumes "resolve E tbl default_ttl None i now = (d, None)" and "map_of tbl (in_host i) = Some hp"
    and p: "ps_has_allowlist (effective_policies hp) \<longrightarrow> ps_shell_parse (effective_policies hp)"
    "patterns_compile E (effective_policies hp @ gp_grants (in_host i) i now)"
  shows "\<exists>d'. resolve E tbl default_ttl (Some provider_api) i now = (d', None)
    \<and> de_constraints d' = de_constraints d \<and> de_elevation_prefix d' = de_elevation_prefix d
    \<and> (de_require_approval d' \<longrightarrow> de_require_approval d)"
proof -
  from assms(1,2) obtain elevation cp where g: "authorize_intent hp i = None"
    "resolve_elevation hp i = Inr elevation" "in_pty i \<longrightarrow> hp_allow_pty hp"
    "in_file_transfer i \<longrightarrow> hp_allow_file_transfer hp"
    and cp: "resolve_command_policy E None hp i now = (cp, None)"
    and fin: "finish_decision E hp default_ttl i elevation cp now = (d, None)"
    by (auto elim: resolve_ok)
  from provider_command_policy [OF p cp] obtain cp' where
    cp': "resolve_command_policy E (Some provider_api) hp i now = (cp', None)"
    and less: "cr_require_approval cp' \<longrightarrow> cr_require_approval cp" by blast
  have "resolve E tbl default_ttl (Some provider_api) i now = finish_decision E hp default_ttl i elevation cp' now"
    using g assms(2) cp' by (auto simp: resolve_def)
  moreover have "\<exists>d'. finish_decision E hp default_ttl i elevation cp' now = (d', None)
      \<and> de_constraints d' = de_constraints d \<and> de_elevation_prefix d' = de_elevation_prefix d
      \<and> (de_require_approval d' \<longrightarrow> de_require_approval d)"
    using fin less by (auto simp: finish_decision_def Let_def split: if_splits sum.splits)
  ultimately show ?thesis by simp
qed

end

section \<open>Decisions without error\<close>

lemma oneshot_pinned:
  assumes "resolve E tbl default_ttl gs i now = (d, None)" and "is_oneshot_target i"
  shows "\<exists>hp elevation. map_of tbl (in_host i) = Some hp \<and> resolve_elevation hp i = Inr elevation
    \<and> co_force_command (de_constraints d) = baked_command E i elevation
    \<and> co_force_command (de_constraints d) \<noteq> []
    \<and> \<not> co_allow_port_forwarding (de_constraints d) \<and> de_elevation_prefix d = []"
proof -
  from assms(1) obtain hp elevation cp where hp: "map_of tbl (in_host i) = Some hp"
    and auth: "authorize_intent hp i = None" and el: "resolve_elevation hp i = Inr elevation"
    and fin: "finish_decision E hp default_ttl i elevation cp now = (d, None)"
    by (rule resolve_ok)
  have "baked_command E i elevation \<noteq> []"
    using authorized_oneshot_command [OF auth assms(2)] by (rule baked_nonempty)
  then show ?thesis
    using finish_decision_ok [OF fin] hp el assms(2) by (auto simp: is_oneshot_target_def)
qed

text \<open>
  The command of a request, as itself or as sudo runs it: the words a shell reads are sudo with the permitted
  user, and behind them the words of the command or a shell with the command as its one argument.
\<close>

definition runs_request :: "go_env \<Rightarrow> host_policy \<Rightarrow> intent \<Rightarrow> string \<Rightarrow> bool" where
  "runs_request E hp i line \<longleftrightarrow>
     (if in_sudo i then hp_allow_sudo hp \<and> (\<exists>u. u = (if in_sudo_user i = [] then ''root'' else in_sudo_user i)
          \<and> sudo_user_allowed (hp_allowed_sudo_users hp) u
          \<and> sh_split line = Some (elevation_words u @ [''--''] @
               (case direct_argv E (in_command i) of Some argv \<Rightarrow> argv | None \<Rightarrow> [''/bin/sh'', ''-c'', in_command i])))
      else line = in_command i)"

lemma baked_runs_request:
  assumes "resolve_elevation hp i = Inr elevation" and "in_role i = RoleTarget"
  shows "runs_request E hp i (baked_command E i elevation)"
proof (cases "in_sudo i")
  case True
  then have "elevation \<noteq> []" using assms by (auto simp: resolve_elevation_def Let_def split: if_splits)
  then show ?thesis using elevated_command_words [OF assms(1), of E "in_command i"] True
    by (auto simp: runs_request_def baked_command_def)
next
  case False
  then show ?thesis using assms(1) by (simp add: runs_request_def baked_command_def resolve_elevation_def)
qed

lemma sealed_pinned:
  assumes "resolve E tbl default_ttl gs i now = (d, None)"
    and "map_of tbl (in_host i) = Some hp" and "hp_sealed_exec hp"
  shows "(is_oneshot_target i \<and> in_command i \<noteq> [] \<and> runs_request E hp i (co_force_command (de_constraints d)))
    \<or> (\<not> is_oneshot_target i \<and> co_force_command (de_constraints d) = ShimCommand @ '' '' @ in_host i
        \<and> valid_host_name (in_host i)
        \<and> (in_role i = RoleBastion \<or> in_session_mode i = SessionModeExec))"
proof -
  from assms obtain elevation cp where auth: "authorize_intent hp i = None" and el: "resolve_elevation hp i = Inr elevation"
    and fin: "finish_decision E hp default_ttl i elevation cp now = (d, None)"
    by (auto elim: resolve_ok)
  note f = finish_decision_ok(1,2) [OF fin]
  show ?thesis
  proof (cases "is_oneshot_target i")
    case True
    then have "in_role i = RoleTarget" by (simp add: is_oneshot_target_def)
    with True f baked_runs_request [OF el] authorized_oneshot_command [OF auth True]
      baked_nonempty [OF authorized_oneshot_command [OF auth True]] show ?thesis by auto
  next
    case False
    with f assms(3) authorize_intent_None(1,2,3) [OF auth] show ?thesis
      by (auto simp: is_oneshot_target_def)
  qed
qed

lemma firewall:
  assumes ok: "resolve E tbl default_ttl gs i now = (d, None)"
    and hp: "map_of tbl (in_host i) = Some hp" and "ps_restricts (effective_policies hp)"
    and "ps_enforcement (effective_policies hp) \<noteq> CmdPolicyAudit"
  shows "in_role i = RoleTarget
    \<and> (in_purpose i = PurposeOneshot \<or> in_purpose i = PurposeSession \<and> in_session_mode i = SessionModeExec)
    \<and> (in_purpose i = PurposeSession \<and> in_command i = []
       \<or> verdict_allowed (ps_decide E (widened_policies gs hp i now) (in_command i))
         \<and> (de_require_approval d \<longleftrightarrow>
              verdict_needs (ps_decide E (widened_policies gs hp i now) (in_command i)) \<and> \<not> waived gs i now))"
proof -
  from ok hp obtain elevation cp where auth: "authorize_intent hp i = None"
    and rcp: "resolve_command_policy E gs hp i now = (cp, None)"
    and fin: "finish_decision E hp default_ttl i elevation cp now = (d, None)"
    by (auto elim: resolve_ok)
  have target: "in_role i = RoleTarget" using authorize_intent_None(11) [OF auth] assms(3) by blast
  have r: "ps_restricts (widened_policies gs hp i now)"
    "ps_enforcement (widened_policies gs hp i now) \<noteq> CmdPolicyAudit"
    using assms(3,4) by (simp_all add: widened_restricts widened_enforcement)
  from command_policy_ok [OF rcp target r] finish_decision_ok(10) [OF fin] target
    authorize_intent_None(2) [OF auth]
  show ?thesis by auto
qed

section \<open>Properties\<close>

text \<open>
  A one-shot certificate for a target always carries a forced command: when the decision has no
  error, the certificate is bound to exactly the requested command, or to that command behind the
  host's own elevation prefix, it never allows port forwarding, and no prefix is left to the broker.
\<close>

theorem oneshot_certificate_is_pinned:
  assumes "resolve E tbl default_ttl gs i now = (d, None)" and "is_oneshot_target i"
  shows "\<exists>hp elevation. map_of tbl (in_host i) = Some hp \<and> resolve_elevation hp i = Inr elevation
    \<and> co_force_command (de_constraints d) = baked_command E i elevation
    \<and> co_force_command (de_constraints d) \<noteq> []
    \<and> \<not> co_allow_port_forwarding (de_constraints d) \<and> de_elevation_prefix d = []"
  using assms by (rule oneshot_pinned)

text \<open>
  C23: on a sealed host every certificate is pinned, whatever its role and purpose. A one-shot certificate is
  pinned to the command of its request: to that very text, or, where the request asks for elevation, to a line
  that the shell reads as sudo with the permitted user and the words of that command. Every other certificate
  is pinned to the shim with the host's own name, which is then a single shell-safe token; and a session on a
  sealed host is always an exec session.
\<close>

theorem sealed_host_always_pinned:
  assumes "resolve E tbl default_ttl gs i now = (d, None)"
    and "map_of tbl (in_host i) = Some hp" and "hp_sealed_exec hp"
  shows "(is_oneshot_target i \<and> in_command i \<noteq> [] \<and> runs_request E hp i (co_force_command (de_constraints d)))
    \<or> (\<not> is_oneshot_target i \<and> co_force_command (de_constraints d) = ShimCommand @ '' '' @ in_host i
        \<and> valid_host_name (in_host i)
        \<and> (in_role i = RoleBastion \<or> in_session_mode i = SessionModeExec))"
  using assms by (rule sealed_pinned)

text \<open>
  The firewall cannot be stepped around. On a host whose composed policies restrict and enforce,
  a decision without error is for the target role; a session is an exec session; a one-shot command,
  and every non-empty session command, is allowed by the policies (with live grants added); and the
  decision asks for approval exactly when a pattern requires it and no live waiver applies.
\<close>

theorem firewall_enforced:
  assumes ok: "resolve E tbl default_ttl gs i now = (d, None)"
    and hp: "map_of tbl (in_host i) = Some hp" and "ps_restricts (effective_policies hp)"
    and "ps_enforcement (effective_policies hp) \<noteq> CmdPolicyAudit"
  shows "in_role i = RoleTarget
    \<and> (in_purpose i = PurposeOneshot \<or> in_purpose i = PurposeSession \<and> in_session_mode i = SessionModeExec)
    \<and> (in_purpose i = PurposeSession \<and> in_command i = []
       \<or> verdict_allowed (ps_decide E (widened_policies gs hp i now) (in_command i))
         \<and> (de_require_approval d \<longleftrightarrow>
              verdict_needs (ps_decide E (widened_policies gs hp i now) (in_command i)) \<and> \<not> waived gs i now))"
  using assms by (rule firewall)

text \<open>
  The lifetime of a certificate. With a positive default, the time to live of a decision is
  positive, never more than the host's cap (or the default where the host sets none), and is the
  requested one when that is positive and within the cap.
\<close>

theorem ttl_within_cap:
  assumes "resolve E tbl default_ttl gs i now = (d, None)" and "map_of tbl (in_host i) = Some hp"
    and "0 < default_ttl"
  shows "0 < co_ttl (de_constraints d)
    \<and> co_ttl (de_constraints d) \<le> (if hp_max_ttl hp \<le> 0 then default_ttl else hp_max_ttl hp)
    \<and> (0 < in_requested_ttl i \<and> in_requested_ttl i \<le> (if hp_max_ttl hp \<le> 0 then default_ttl else hp_max_ttl hp)
         \<longrightarrow> co_ttl (de_constraints d) = in_requested_ttl i)"
proof -
  from assms(1,2) obtain elevation cp where
    fin: "finish_decision E hp default_ttl i elevation cp now = (d, None)" by (auto elim: resolve_ok)
  show ?thesis
    using finish_decision_ok(3) [OF fin] effective_ttl_bounds [OF assms(3), of hp i]
    by (auto simp: effective_ttl_def Let_def)
qed

text \<open>
  No identity can forge a token of the certificate's key identifier, which sshd writes to its log.
  For a host name without spaces, the tokens of the identifier are the agent, host, role and time, the
  end user and context where given, the words of the elevation where sudo was granted, and the terminal
  flag: the caller's and the end user's names never add one.
\<close>

theorem key_id_tokens:
  assumes "resolve E tbl default_ttl gs i now = (d, None)" and "CHR '' '' \<notin> set (in_host i)"
  shows "\<exists>hp words. map_of tbl (in_host i) = Some hp
    \<and> split_on CHR '' '' (co_key_id (de_constraints d)) =
        (''agent='' @ in_caller i) # key_id_words i now @ words @ (if in_pty i then [''pty=1''] else [])
    \<and> (words = [] \<or> in_sudo i \<and> hp_allow_sudo hp
         \<and> (\<exists>u. sudo_user_allowed (hp_allowed_sudo_users hp) u \<and> words = elev_words u))"
proof -
  from assms(1) obtain hp elevation cp where hp: "map_of tbl (in_host i) = Some hp"
    and auth: "authorize_intent hp i = None" and el: "resolve_elevation hp i = Inr elevation"
    and fin: "finish_decision E hp default_ttl i elevation cp now = (d, None)"
    by (rule resolve_ok)
  note tokens = key_id_tokens_lemma [OF auth assms(2), of elevation now]
  show ?thesis
  proof (cases "elevation = []")
    case True
    then show ?thesis using hp tokens finish_decision_ok(8) [OF fin] by (auto simp: key_id_tail_def)
  next
    case False
    from elevation_forms [OF el this] obtain u where u: "in_sudo i" "hp_allow_sudo hp"
      "sudo_user_allowed (hp_allowed_sudo_users hp) u" "valid_user u"
      "elevation = (if u = ''root'' then ''sudo -n'' else ''sudo -n -u '' @ u)" .
    have "concat (map (split_on CHR '' '') (key_id_tail i elevation)) = elev_words u @ (if in_pty i then [''pty=1''] else [])"
      using False split_elevation [OF u(4)] by (simp add: key_id_tail_def u(5) del: append_Cons)
    then show ?thesis using hp u tokens finish_decision_ok(8) [OF fin] by auto
  qed
qed

text \<open>
  Runtime grants only widen. If a request is decided without error from the configuration alone,
  it is decided without error with the live grants of any store too, with the same certificate
  constraints and the same elevation, and it asks for approval only if it did before. The host's
  policies must parse commands (or have no allowlist) and all patterns must compile.
\<close>

theorem grants_only_widen_decisions:
  assumes "resolve E tbl default_ttl None i now = (d, None)" and "map_of tbl (in_host i) = Some hp"
    and "ps_has_allowlist (effective_policies hp) \<longrightarrow> ps_shell_parse (effective_policies hp)"
    and "patterns_compile E (effective_policies hp @ grants_for s (in_host i) i now)"
  shows "\<exists>d'. resolve E tbl default_ttl (Some (store_api s)) i now = (d', None)
    \<and> de_constraints d' = de_constraints d \<and> de_elevation_prefix d' = de_elevation_prefix d
    \<and> (de_require_approval d' \<longrightarrow> de_require_approval d)"
  using store.provider_resolve [OF assms] by (simp add: store.provider_api_def store_api_def)

section \<open>Witnesses\<close>

definition example_table :: policy_table where
  "example_table = [(''db'', example_host), (''vault'', example_host\<lparr>hp_sealed_exec := True\<rparr>)]"

definition example_intent :: intent where
  "example_intent = plain_intent ''b1'' ''db'' ''ls -l''"

definition example_session :: intent where
  "example_session = (plain_intent ''b1'' ''vault'' [])
     \<lparr>in_purpose := PurposeSession, in_session_mode := SessionModeExec\<rparr>"

lemma example_resolve:
  "resolve example_env example_table (300 * go_second) None example_intent 0
     = (fst (resolve example_env example_table (300 * go_second) None example_intent 0), None)"
  by code_simp

lemma example_resolve_session:
  "resolve example_env example_table (300 * go_second) None example_session 0
     = (fst (resolve example_env example_table (300 * go_second) None example_session 0), None)"
  by code_simp

lemma example_lookup:
  "map_of example_table (in_host example_intent) = Some example_host"
  "map_of example_table (in_host example_session) = Some (example_host\<lparr>hp_sealed_exec := True\<rparr>)"
  by (simp_all add: example_table_def example_intent_def example_session_def plain_intent_def)

theorem oneshot_certificate_is_pinned_witness:
  "co_force_command (de_constraints (fst (resolve example_env example_table (300 * go_second) None example_intent 0))) \<noteq> []"
proof -
  have "is_oneshot_target example_intent" by code_simp
  from oneshot_certificate_is_pinned [OF example_resolve this] show ?thesis by blast
qed

theorem sealed_host_always_pinned_witness:
  "co_force_command (de_constraints (fst (resolve example_env example_table (300 * go_second) None example_session 0)))
     = ''infrabroker-shim vault''"
proof -
  have "\<not> is_oneshot_target example_session" "in_host example_session = ''vault''" by code_simp+
  with sealed_host_always_pinned [OF example_resolve_session example_lookup(2)] show ?thesis by simp
qed

theorem firewall_enforced_witness:
  "verdict_allowed (ps_decide example_env (widened_policies None example_host example_intent 0) ''ls -l'')"
proof -
  have h: "ps_restricts (effective_policies example_host)"
    "ps_enforcement (effective_policies example_host) \<noteq> CmdPolicyAudit"
    "in_purpose example_intent \<noteq> PurposeSession" "in_command example_intent = ''ls -l''"
    by code_simp+
  from firewall_enforced [OF example_resolve example_lookup(1) h(1,2)] h(3,4) show ?thesis by simp
qed

theorem ttl_within_cap_witness:
  "co_ttl (de_constraints (fst (resolve example_env example_table (300 * go_second) None example_intent 0))) \<le> 300 * go_second"
  using ttl_within_cap [OF example_resolve example_lookup(1)] by (simp add: example_host_def)

theorem key_id_tokens_witness:
  "hd (split_on CHR '' '' (co_key_id (de_constraints
     (fst (resolve example_env example_table (300 * go_second) None example_intent 0))))) = ''agent=b1''"
proof -
  have "CHR '' '' \<notin> set (in_host example_intent)" "in_caller example_intent = ''b1''"
    by (simp_all add: example_intent_def plain_intent_def)
  with key_id_tokens [OF example_resolve] show ?thesis by auto
qed

definition example_grants :: grant_store where
  "example_grants = \<lparr>gs_grants = [(''g1'', \<lparr>g_id = ''g1'', g_host = ''db'', g_allow = [''^df''],
     g_waive_approval = [], g_caller = [], g_end_user = [], g_sudo = False, g_sudo_user = [],
     g_approver = [], g_approval_id = [], g_granted_at = 0, g_expires_at = 10,
     g_waiver_re = []\<rparr>)], gs_db = None\<rparr>"

theorem grants_only_widen_decisions_witness:
  "\<exists>d'. resolve example_env example_table (300 * go_second) (Some (store_api example_grants)) example_intent 0 = (d', None)"
proof -
  have h: "ps_shell_parse (effective_policies example_host)"
    "ps_validate example_env (effective_policies example_host @ grants_for example_grants (in_host example_intent) example_intent 0) = None"
    by code_simp+
  show ?thesis
    using grants_only_widen_decisions [OF example_resolve example_lookup(1) _ ps_validate_compiles [OF h(2)]] h(1)
    by blast
qed

end
