(* ===== verification/K8s_Action.thy ===== *)
theory K8s_Action
  imports Signer_Types
begin

text \<open>
  The structured Kubernetes action (\<open>internal/signer/k8saction.go\<close>: \<open>Validate\<close>, \<open>Canonical\<close>) and the
  resource table (\<open>internal/k8s/resources.go\<close>: \<open>coreResources\<close>, \<open>Resources\<close>, \<open>Resolve\<close>). The fixed
  regular expressions for labels, subdomains and versions are spelt out as predicates.
\<close>

section \<open>Identifiers\<close>

definition lower_alnum :: "char \<Rightarrow> bool" where
  "lower_alnum c \<longleftrightarrow> 97 \<le> (of_char c :: nat) \<and> (of_char c :: nat) \<le> 122 \<or> is_digit_char c"

text \<open>\<open>^[a-z0-9]([-a-z0-9]{0,61}[a-z0-9])?$\<close> and the same with dots and a length of 253.\<close>

definition rfc1123 :: "char list \<Rightarrow> nat \<Rightarrow> string \<Rightarrow> bool" where
  "rfc1123 inner len s \<longleftrightarrow>
     s \<noteq> [] \<and> lower_alnum (hd s) \<and> lower_alnum (last s)
   \<and> list_all (\<lambda>c. lower_alnum c \<or> c \<in> set inner) s \<and> length s \<le> len"

definition valid_label :: "string \<Rightarrow> bool" where
  "valid_label s = rfc1123 ''-'' 63 s"

definition valid_subdomain :: "string \<Rightarrow> bool" where
  "valid_subdomain s = rfc1123 ''-.'' 253 s"

text \<open>\<open>^v[0-9]+((alpha|beta)[0-9]+)?$\<close>\<close>

definition digits1 :: "string \<Rightarrow> bool" where
  "digits1 s \<longleftrightarrow> s \<noteq> [] \<and> list_all is_digit_char s"

definition valid_version :: "string \<Rightarrow> bool" where
  "valid_version s \<longleftrightarrow>
     (case s of
        [] \<Rightarrow> False
      | c # t \<Rightarrow> c = CHR ''v'' \<and>
          (let ds = takeWhile is_digit_char t; rest = dropWhile is_digit_char t in
           ds \<noteq> [] \<and> (rest = []
             \<or> has_prefix rest ''alpha'' \<and> digits1 (drop 5 rest)
             \<or> has_prefix rest ''beta'' \<and> digits1 (drop 4 rest))))"

section \<open>Actions\<close>

abbreviation K8sVerbGet :: string where "K8sVerbGet \<equiv> ''get''"
abbreviation K8sVerbList :: string where "K8sVerbList \<equiv> ''list''"
abbreviation K8sVerbLogs :: string where "K8sVerbLogs \<equiv> ''logs''"
abbreviation K8sVerbApply :: string where "K8sVerbApply \<equiv> ''apply''"
abbreviation K8sVerbDelete :: string where "K8sVerbDelete \<equiv> ''delete''"

definition K8sVerbs :: "string list" where
  "K8sVerbs = [K8sVerbGet, K8sVerbList, K8sVerbLogs, K8sVerbApply, K8sVerbDelete]"

datatype k8s_error =
    UnknownVerb string
  | BadResource string
  | BadGroup string
  | BadNamespace string
  | BadName string
  | ListTakesNoName string
  | LogsPodsOnly string
  | LogsNeedsNamespace
  | NeedsName string
  | ExtraIncomplete
  | ExtraBadResource string
  | ExtraBadGroup string
  | ExtraBadVersion string
  | ExtraCollision string
  | UnknownResource string
  | WrongGroup string string string

definition k8s_validate :: "k8s_action \<Rightarrow> k8s_error option" where
  "k8s_validate a =
     (if ka_verb a \<notin> set K8sVerbs then Some (UnknownVerb (ka_verb a))
      else if \<not> valid_label (ka_resource a) then Some (BadResource (ka_resource a))
      else if ka_group a \<noteq> [] \<and> \<not> valid_subdomain (ka_group a) then Some (BadGroup (ka_group a))
      else if ka_namespace a \<noteq> [] \<and> \<not> valid_label (ka_namespace a) then Some (BadNamespace (ka_namespace a))
      else if ka_name a \<noteq> [] \<and> \<not> valid_subdomain (ka_name a) then Some (BadName (ka_name a))
      else if ka_verb a = K8sVerbList then
        (if ka_name a \<noteq> [] then Some (ListTakesNoName (ka_name a)) else None)
      else if ka_verb a = K8sVerbLogs \<and> (ka_resource a \<noteq> ''pods'' \<or> ka_group a \<noteq> []) then
        Some (LogsPodsOnly (ka_resource a))
      else if ka_verb a = K8sVerbLogs \<and> ka_namespace a = [] then Some LogsNeedsNamespace
      else if ka_name a = [] then Some (NeedsName (ka_verb a))
      else None)"

definition dash_if_empty :: "string \<Rightarrow> string" where
  "dash_if_empty s = (if s = [] then ''-'' else s)"

definition resource_token :: "string \<Rightarrow> string \<Rightarrow> string" where
  "resource_token resource g = (if g \<noteq> [] then resource @ ''.'' @ g else resource)"

definition k8s_canonical :: "k8s_action \<Rightarrow> string" where
  "k8s_canonical a = ka_verb a @ '' '' @ resource_token (ka_resource a) (ka_group a) @ '' ''
     @ dash_if_empty (ka_namespace a) @ ''/'' @ dash_if_empty (ka_name a)"

section \<open>The resource table\<close>

record resource_def =
  rd_resource :: string
  rd_group :: string
  rd_version :: string
  rd_kind :: string
  rd_namespaced :: bool

type_synonym resource_table = "(string, resource_def) go_map"

definition core_entry :: "string \<Rightarrow> string \<Rightarrow> string \<Rightarrow> bool \<Rightarrow> resource_def" where
  "core_entry r g k n = \<lparr>rd_resource = r, rd_group = g, rd_version = ''v1'', rd_kind = k, rd_namespaced = n\<rparr>"

definition core_resources :: "resource_def list" where
  "core_resources =
     [core_entry ''pods'' [] ''Pod'' True, core_entry ''services'' [] ''Service'' True,
      core_entry ''configmaps'' [] ''ConfigMap'' True, core_entry ''secrets'' [] ''Secret'' True,
      core_entry ''serviceaccounts'' [] ''ServiceAccount'' True,
      core_entry ''namespaces'' [] ''Namespace'' False, core_entry ''nodes'' [] ''Node'' False,
      core_entry ''events'' [] ''Event'' True,
      core_entry ''persistentvolumeclaims'' [] ''PersistentVolumeClaim'' True,
      core_entry ''persistentvolumes'' [] ''PersistentVolume'' False,
      core_entry ''deployments'' ''apps'' ''Deployment'' True,
      core_entry ''statefulsets'' ''apps'' ''StatefulSet'' True,
      core_entry ''daemonsets'' ''apps'' ''DaemonSet'' True,
      core_entry ''replicasets'' ''apps'' ''ReplicaSet'' True,
      core_entry ''jobs'' ''batch'' ''Job'' True, core_entry ''cronjobs'' ''batch'' ''CronJob'' True,
      core_entry ''ingresses'' ''networking.k8s.io'' ''Ingress'' True]"

fun add_extra :: "resource_def list \<Rightarrow> resource_table \<Rightarrow> k8s_error + resource_table" where
  "add_extra [] t = Inr t"
| "add_extra (r # rs) t =
     (if rd_resource r = [] \<or> rd_version r = [] \<or> rd_kind r = [] then Inl ExtraIncomplete
      else if \<not> valid_label (rd_resource r) then Inl (ExtraBadResource (rd_resource r))
      else if rd_group r \<noteq> [] \<and> \<not> valid_subdomain (rd_group r) then Inl (ExtraBadGroup (rd_group r))
      else if \<not> valid_version (rd_version r) then Inl (ExtraBadVersion (rd_version r))
      else if map_has t (rd_resource r) then Inl (ExtraCollision (rd_resource r))
      else add_extra rs (AList.update (rd_resource r) r t))"

definition k8s_resources :: "resource_def list \<Rightarrow> k8s_error + resource_table" where
  "k8s_resources extra =
     add_extra extra (fold (\<lambda>r t. AList.update (rd_resource r) r t) core_resources [])"

definition k8s_resolve :: "resource_table \<Rightarrow> string \<Rightarrow> string \<Rightarrow> k8s_error + resource_def" where
  "k8s_resolve t resource g =
     (case map_of t resource of
        None \<Rightarrow> Inl (UnknownResource resource)
      | Some def \<Rightarrow> (if g \<noteq> [] \<and> g \<noteq> rd_group def then Inl (WrongGroup resource (rd_group def) g) else Inr def))"

text \<open>\<open>WireClusterInfo\<close>: what a broker learns of a cluster.\<close>

record wire_cluster_info =
  wc_api_server :: string
  wc_ca_cert_pem :: string
  wc_groups :: "string list"
  wc_extra_resources :: "resource_def list"

section \<open>Lemmas\<close>

text \<open>The characters of an identifier: the separators of the canonical form are not among them.\<close>

lemma rfc1123_chars:
  assumes "rfc1123 inner len s" and "c \<in> set s"
  shows "lower_alnum c \<or> c \<in> set inner"
  using assms by (auto simp: rfc1123_def list_all_iff)

lemma label_no_sep: "valid_label s \<Longrightarrow> CHR '' '' \<notin> set s \<and> CHR ''/'' \<notin> set s \<and> CHR ''.'' \<notin> set s"
  unfolding valid_label_def
  by (intro conjI notI; drule (1) rfc1123_chars; simp add: lower_alnum_def is_digit_char_def)

lemma subdomain_no_sep: "valid_subdomain s \<Longrightarrow> CHR '' '' \<notin> set s \<and> CHR ''/'' \<notin> set s"
  unfolding valid_subdomain_def
  by (intro conjI notI; drule (1) rfc1123_chars; simp add: lower_alnum_def is_digit_char_def)

lemma label_not_dash: "valid_label s \<Longrightarrow> s \<noteq> ''-'' \<and> s \<noteq> []"
  by (auto simp: valid_label_def rfc1123_def lower_alnum_def is_digit_char_def)

lemma subdomain_not_dash: "valid_subdomain s \<Longrightarrow> s \<noteq> ''-'' \<and> s \<noteq> []"
  by (auto simp: valid_subdomain_def rfc1123_def lower_alnum_def is_digit_char_def)

lemma verb_no_sep: "v \<in> set K8sVerbs \<Longrightarrow> CHR '' '' \<notin> set v"
  by (auto simp: K8sVerbs_def)

lemma sep_inject:
  "c \<notin> set u \<Longrightarrow> c \<notin> set v \<Longrightarrow> u @ c # x = v @ c # y \<longleftrightarrow> u = v \<and> x = y"
proof (induction u arbitrary: v)
  case Nil
  then show ?case by (cases v) auto
next
  case (Cons a u)
  then show ?case by (cases v) auto
qed

definition action_ok :: "k8s_action \<Rightarrow> bool" where
  "action_ok a \<longleftrightarrow> ka_verb a \<in> set K8sVerbs \<and> valid_label (ka_resource a)
     \<and> (ka_group a = [] \<or> valid_subdomain (ka_group a))
     \<and> (ka_namespace a = [] \<or> valid_label (ka_namespace a)) \<and> (ka_name a = [] \<or> valid_subdomain (ka_name a))"

lemma k8s_validate_ok: "k8s_validate a = None \<Longrightarrow> action_ok a"
  by (auto simp: k8s_validate_def action_ok_def split: if_splits)

lemma token_no_sep:
  "valid_label r \<Longrightarrow> g = [] \<or> valid_subdomain g \<Longrightarrow>
   CHR '' '' \<notin> set (resource_token r g) \<and> CHR ''/'' \<notin> set (resource_token r g)"
  using label_no_sep [of r] subdomain_no_sep [of g] by (auto simp: resource_token_def)

lemma token_inject:
  assumes "valid_label r" and "valid_label r'"
  shows "resource_token r g = resource_token r' g' \<longleftrightarrow> r = r' \<and> g = g'"
proof -
  have d: "CHR ''.'' \<notin> set r" "CHR ''.'' \<notin> set r'" using assms label_no_sep by blast+
  show ?thesis
    using d sep_inject [of "CHR ''.''" r r' g g'] by (auto simp: resource_token_def)
qed

lemma dash_no_sep:
  "s = [] \<or> valid_label s \<Longrightarrow> CHR '' '' \<notin> set (dash_if_empty s) \<and> CHR ''/'' \<notin> set (dash_if_empty s)"
  "s = [] \<or> valid_subdomain s \<Longrightarrow> CHR '' '' \<notin> set (dash_if_empty s) \<and> CHR ''/'' \<notin> set (dash_if_empty s)"
  using label_no_sep [of s] subdomain_no_sep [of s] by (auto simp: dash_if_empty_def)

lemma dash_inject:
  "s = [] \<or> valid_label s \<Longrightarrow> t = [] \<or> valid_label t \<Longrightarrow> dash_if_empty s = dash_if_empty t \<longleftrightarrow> s = t"
  "s = [] \<or> valid_subdomain s \<Longrightarrow> t = [] \<or> valid_subdomain t \<Longrightarrow> dash_if_empty s = dash_if_empty t \<longleftrightarrow> s = t"
  by (auto simp: dash_if_empty_def dest: label_not_dash subdomain_not_dash)

text \<open>The canonical form is read back by cutting at its separators.\<close>

lemma canonical_fields:
  assumes "action_ok a" and "CHR '' '' \<notin> set v" and "CHR '' '' \<notin> set r" and "CHR ''/'' \<notin> set n"
  shows "k8s_canonical a = v @ '' '' @ r @ '' '' @ n @ ''/'' @ m \<longleftrightarrow>
    ka_verb a = v \<and> resource_token (ka_resource a) (ka_group a) = r
    \<and> dash_if_empty (ka_namespace a) = n \<and> dash_if_empty (ka_name a) = m"
proof -
  let ?r = "resource_token (ka_resource a) (ka_group a)"
  let ?n = "dash_if_empty (ka_namespace a)"
  have s: "CHR '' '' \<notin> set (ka_verb a)" "CHR '' '' \<notin> set ?r" "CHR ''/'' \<notin> set ?n"
    using assms(1) verb_no_sep token_no_sep dash_no_sep(1) by (auto simp: action_ok_def)
  show ?thesis
    using sep_inject [OF s(1) assms(2)] sep_inject [OF s(2) assms(3)] sep_inject [OF s(3) assms(4)]
    by (auto simp: k8s_canonical_def)
qed

text \<open>The table: every entry is filed under its own name and has valid identifiers.\<close>

definition table_ok :: "resource_table \<Rightarrow> bool" where
  "table_ok t \<longleftrightarrow> go_map_inv t
     \<and> (\<forall>k d. map_of t k = Some d \<longrightarrow>
          rd_resource d = k \<and> valid_label k \<and> (rd_group d = [] \<or> valid_subdomain (rd_group d)))"

lemma table_ok_update:
  assumes "table_ok t" and "valid_label (rd_resource r)" and "rd_group r = [] \<or> valid_subdomain (rd_group r)"
  shows "table_ok (AList.update (rd_resource r) r t)"
  using assms by (auto simp: table_ok_def map_of_update)

definition def_ok :: "resource_def \<Rightarrow> bool" where
  "def_ok r \<longleftrightarrow> valid_label (rd_resource r) \<and> (rd_group r = [] \<or> valid_subdomain (rd_group r))"

lemma table_ok_fold:
  "list_all def_ok rs \<Longrightarrow> table_ok t \<Longrightarrow> table_ok (fold (\<lambda>r t. AList.update (rd_resource r) r t) rs t)"
proof (induction rs arbitrary: t)
  case (Cons r rs)
  then have "table_ok (AList.update (rd_resource r) r t)"
    by (intro table_ok_update) (auto simp: def_ok_def)
  with Cons show ?case by simp
qed simp

lemma core_ok: "list_all def_ok core_resources"
  by code_simp

lemma table_ok_core: "table_ok (fold (\<lambda>r t. AList.update (rd_resource r) r t) core_resources [])"
  by (rule table_ok_fold [OF core_ok]) (simp add: table_ok_def)

lemma table_ok_extra: "add_extra rs t = Inr t' \<Longrightarrow> table_ok t \<Longrightarrow> table_ok t'"
  by (induction rs arbitrary: t) (auto split: if_splits intro: table_ok_update)

lemma k8s_resources_ok: "k8s_resources extra = Inr t \<Longrightarrow> table_ok t"
  unfolding k8s_resources_def using table_ok_extra table_ok_core by blast

lemma k8s_resolve_table:
  assumes "k8s_resolve t r g = Inr d" and "table_ok t"
  shows "map_of t r = Some d" and "rd_resource d = r" and "valid_label r"
    and "rd_group d = [] \<or> valid_subdomain (rd_group d)" and "g = [] \<or> g = rd_group d"
  using assms by (auto simp: k8s_resolve_def table_ok_def split: option.splits if_splits)

section \<open>Properties\<close>

text \<open>
  The canonical form of a Kubernetes action determines the action: two validated actions with the
  same canonical string are equal field by field, so the string the policy matches, the approver reads
  and the audit log records stands for exactly one action.
\<close>

theorem canonical_injective:
  assumes "k8s_validate a = None" and "k8s_validate b = None" and "k8s_canonical a = k8s_canonical b"
  shows "a = b"
proof -
  note ok = k8s_validate_ok [OF assms(1)] k8s_validate_ok [OF assms(2)]
  let ?r = "resource_token (ka_resource b) (ka_group b)"
  let ?n = "dash_if_empty (ka_namespace b)"
  have s: "CHR '' '' \<notin> set (ka_verb b)" "CHR '' '' \<notin> set ?r" "CHR ''/'' \<notin> set ?n"
    using ok(2) verb_no_sep token_no_sep dash_no_sep(1) by (auto simp: action_ok_def)
  have "k8s_canonical a = ka_verb b @ '' '' @ ?r @ '' '' @ ?n @ ''/'' @ dash_if_empty (ka_name b)"
    using assms(3) by (simp add: k8s_canonical_def)
  then have "ka_verb a = ka_verb b" "resource_token (ka_resource a) (ka_group a) = ?r"
    "dash_if_empty (ka_namespace a) = ?n" "dash_if_empty (ka_name a) = dash_if_empty (ka_name b)"
    unfolding canonical_fields [OF ok(1) s] by auto
  then show ?thesis
    using ok by (auto simp: action_ok_def token_inject dash_inject k8s_action.equality)
qed

definition example_action :: k8s_action where
  "example_action = \<lparr>ka_verb = ''get'', ka_resource = ''pods'', ka_group = [], ka_namespace = ''prod'', ka_name = ''web-1''\<rparr>"

theorem canonical_injective_witness:
  "{a. k8s_validate a = None \<and> k8s_canonical a = ''get pods prod/web-1''} = {example_action}"
proof -
  have "k8s_validate example_action = None" "k8s_canonical example_action = ''get pods prod/web-1''"
    by code_simp+
  then show ?thesis using canonical_injective by auto
qed

end
