(* ===== verification/Regexp.thy ===== *)
theory Regexp
  imports Elevation
begin

text \<open>
  The part of the regular-expression syntax of Go's \<open>regexp\<close> package that the signer writes itself: the
  anchors, literal characters, escaped metacharacters, and groups that hold alternatives of literals or one
  repeated character class. \<open>rx_items\<close> reads the text of an expression, \<open>rx_search\<close> says what the expression
  read finds in a text, and \<open>rx_engine\<close> is what the signer relies on: an expression of this part of the syntax
  that the library compiles does just that on ASCII text. Nothing else of the library is constrained.
\<close>

section \<open>Syntax\<close>

text \<open>\<open>regexp.QuoteMeta\<close>.\<close>

definition quote_meta :: "string \<Rightarrow> string" where
  "quote_meta s = concat (map (\<lambda>c. if c \<in> set (backslash # ''.+*?()|[]{}^$'') then [backslash, c] else [c]) s)"

definition metachar :: "char \<Rightarrow> bool" where
  "metachar c \<longleftrightarrow> c \<in> set (backslash # ''.+*?()|[]{}^$'')"

text \<open>A class excludes the listed characters or is one range; both repeat once or more.\<close>

datatype rx_item = RxBegin | RxEnd | RxChar char | RxOneOf "string list" | RxNotIn "char list" | RxRange char char

definition class_item :: "string \<Rightarrow> rx_item option" where
  "class_item body =
     (case body of
        [] \<Rightarrow> None
      | c # cs \<Rightarrow>
          (if c = CHR ''^'' then (if cs \<noteq> [] \<and> list_all (\<lambda>d. \<not> metachar d \<and> d \<noteq> CHR ''-'') cs then Some (RxNotIn cs) else None)
           else case cs of
             [d, e] \<Rightarrow> (if d = CHR ''-'' \<and> is_alpha_char c \<and> is_alpha_char e then Some (RxRange c e) else None)
           | _ \<Rightarrow> None))"

text \<open>Alternatives of literals up to the closing parenthesis: those read, reversed, and the one being read, reversed.\<close>

fun scan_alternatives :: "string list \<Rightarrow> string \<Rightarrow> string \<Rightarrow> (string list \<times> string) option" where
  "scan_alternatives alts cur [] = None"
| "scan_alternatives alts cur (c # s) =
     (if c = CHR '')'' then Some (rev (rev cur # alts), s)
      else if c = CHR ''|'' then scan_alternatives (rev cur # alts) [] s
      else if c = backslash then
        (case s of [] \<Rightarrow> None | d # t \<Rightarrow> (if metachar d then scan_alternatives alts (d # cur) t else None))
      else if metachar c then None
      else scan_alternatives alts (c # cur) s)"

text \<open>What follows the opening of a group.\<close>

definition scan_group :: "string \<Rightarrow> (rx_item \<times> string) option" where
  "scan_group s =
     (if has_prefix s ''['' then
        (let body = takeWhile (\<lambda>c. c \<noteq> CHR '']'') (tl s); r = drop (length body) (tl s) in
         if has_prefix r '']+)'' then map_option (\<lambda>it. (it, drop 3 r)) (class_item body) else None)
      else map_option (\<lambda>(ls, r). (RxOneOf ls, r)) (scan_alternatives [] [] s))"

lemma scan_alternatives_length: "scan_alternatives alts cur s = Some (ls, r) \<Longrightarrow> length r < length s"
  by (induction alts cur s rule: scan_alternatives.induct) (auto split: if_splits list.splits)

lemma scan_group_length: "scan_group s = Some (it, r) \<Longrightarrow> length r \<le> length s"
  by (auto simp: scan_group_def Let_def split: if_splits dest!: scan_alternatives_length)

function rx_items :: "string \<Rightarrow> rx_item list option" where
  "rx_items s =
     (case s of
        [] \<Rightarrow> Some []
      | c # t \<Rightarrow>
          (if c = CHR ''^'' then map_option (Cons RxBegin) (rx_items t)
           else if c = CHR ''$'' then map_option (Cons RxEnd) (rx_items t)
           else if has_prefix s ''(?:'' then
             (case scan_group (drop 3 s) of
                None \<Rightarrow> None
              | Some (it, r) \<Rightarrow> map_option (Cons it) (rx_items r))
           else if c = backslash then
             (case t of [] \<Rightarrow> None | d # u \<Rightarrow> (if metachar d then map_option (Cons (RxChar d)) (rx_items u) else None))
           else if metachar c then None
           else map_option (Cons (RxChar c)) (rx_items t)))"
  by pat_completeness auto
termination
proof (relation "measure length", goal_cases)
  case (4 s c t it r x)
  then have "length x \<le> length (drop 3 s)" using scan_group_length by force
  then show ?case using 4 by simp
qed auto

declare rx_items.simps [simp del]

section \<open>Meaning\<close>

text \<open>What an item takes from a text, between what stands before it and what is left.\<close>

fun item_takes :: "rx_item \<Rightarrow> string \<Rightarrow> string \<Rightarrow> string \<Rightarrow> bool" where
  "item_takes RxBegin pre a post \<longleftrightarrow> pre = [] \<and> a = []"
| "item_takes RxEnd pre a post \<longleftrightarrow> a = [] \<and> post = []"
| "item_takes (RxChar c) pre a post \<longleftrightarrow> a = [c]"
| "item_takes (RxOneOf ls) pre a post \<longleftrightarrow> a \<in> set ls"
| "item_takes (RxNotIn cs) pre a post \<longleftrightarrow> a \<noteq> [] \<and> list_all (\<lambda>c. c \<notin> set cs) a"
| "item_takes (RxRange c d) pre a post \<longleftrightarrow> a \<noteq> [] \<and> list_all (\<lambda>x. of_char c \<le> (of_char x :: nat) \<and> (of_char x :: nat) \<le> of_char d) a"

fun items_take :: "rx_item list \<Rightarrow> string \<Rightarrow> string \<Rightarrow> string \<Rightarrow> bool" where
  "items_take [] pre s post \<longleftrightarrow> s = []"
| "items_take (it # its) pre s post \<longleftrightarrow> (\<exists>a b. s = a @ b \<and> item_takes it pre a (b @ post) \<and> items_take its (pre @ a) b post)"

text \<open>\<open>MatchString\<close>: the expression matches somewhere in the text.\<close>

definition rx_search :: "rx_item list \<Rightarrow> string \<Rightarrow> bool" where
  "rx_search its s \<longleftrightarrow> (\<exists>pre mid post. s = pre @ mid @ post \<and> items_take its pre mid post)"

definition ascii_text :: "string \<Rightarrow> bool" where
  "ascii_text s = list_all (\<lambda>c. (of_char c :: nat) < 128) s"

definition rx_engine :: "go_env \<Rightarrow> bool" where
  "rx_engine E \<longleftrightarrow> (\<forall>p its m s. rx_items p = Some its \<and> rx_compile E p = Some m \<and> ascii_text s \<longrightarrow> m s = rx_search its s)"

section \<open>Reading what was written\<close>

lemma scan_quoted: "scan_alternatives alts cur (quote_meta l @ s) = scan_alternatives alts (rev l @ cur) s"
  by (induction l arbitrary: cur) (auto simp: quote_meta_def metachar_def)

lemma scan_joined:
  "scan_alternatives alts [] (go_join (map quote_meta (l # ls)) ''|'' @ CHR '')'' # s) = Some (rev alts @ l # ls, s)"
proof (induction ls arbitrary: alts l)
  case (Cons l' ls)
  then show ?case using scan_quoted [of alts "[]" l] by simp
qed (simp add: scan_quoted)

lemma scan_group_literals:
  assumes "ls \<noteq> []"
  shows "scan_group (go_join (map quote_meta ls) ''|'' @ CHR '')'' # s) = Some (RxOneOf ls, s)"
proof -
  obtain l ks where ls: "ls = l # ks" using assms by (cases ls) auto
  have "\<not> has_prefix (go_join (map quote_meta (l # ks)) ''|'' @ CHR '')'' # s) ''[''"
    by (cases l; cases ks) (auto simp: has_prefix_def quote_meta_def)
  then show ?thesis unfolding scan_group_def ls using scan_joined [of "[]" l ks s] by simp
qed

lemma rx_items_Nil: "rx_items [] = Some []"
  by (simp add: rx_items.simps)

lemma rx_items_anchor:
  "rx_items (CHR ''^'' # s) = map_option (Cons RxBegin) (rx_items s)"
  "rx_items (CHR ''$'' # s) = map_option (Cons RxEnd) (rx_items s)"
  by (subst rx_items.simps; simp)+

lemma rx_items_char: "\<not> metachar c \<Longrightarrow> rx_items (c # s) = map_option (Cons (RxChar c)) (rx_items s)"
  by (subst rx_items.simps) (auto simp: metachar_def has_prefix_def)

lemma rx_items_separator:
  "rx_items (CHR '' '' # s) = map_option (Cons (RxChar (CHR '' ''))) (rx_items s)"
  "rx_items (CHR ''/'' # s) = map_option (Cons (RxChar (CHR ''/''))) (rx_items s)"
  by (simp_all add: rx_items_char metachar_def)

lemma rx_items_group: "scan_group s = Some (it, r) \<Longrightarrow> rx_items (''(?:'' @ s) = map_option (Cons it) (rx_items r)"
  by (subst rx_items.simps) (simp add: has_prefix_def)

text \<open>An expression between anchors takes the whole text.\<close>

lemma search_anchored: "rx_search (RxBegin # its @ [RxEnd]) s \<longleftrightarrow> items_take its [] s []"
proof -
  have "items_take (its @ [RxEnd]) pre mid post \<longleftrightarrow> items_take its pre mid post \<and> post = []" for pre mid post
    by (induction its arbitrary: pre mid) auto
  then show ?thesis by (auto simp: rx_search_def)
qed

end
