(* ===== verification/K8s_Policy.thy ===== *)
theory K8s_Policy
  imports Resolve K8s_Action Regexp
begin

text \<open>
  Kubernetes targets (\<open>internal/signer/k8spolicy.go\<close>): the structured rules and their compilation to
  anchored regular expressions over the canonical action (\<open>compileK8sRule\<close>, \<open>compileK8sRules\<close>), the
  cluster table (\<open>compileCluster\<close>, \<open>CompileClusterPolicies\<close>, \<open>ClusterSetForCaller\<close>), the choice of the
  service account (\<open>bindingFor\<close>) and the decision (\<open>resolveK8s\<close>).

  URLs, files, PEM blocks and X.509 are the fields of \<open>cluster_env\<close>. What the regular-expression library
  makes of the text of a generated expression is \<open>rx_engine\<close> of the theory of expressions; how the shell
  parser reads a canonical action is \<open>parses_words\<close>.
\<close>

section \<open>Rules\<close>

abbreviation K8sEffectAllow :: string where "K8sEffectAllow \<equiv> ''allow''"
abbreviation K8sEffectDeny :: string where "K8sEffectDeny \<equiv> ''deny''"
abbreviation K8sEffectRequireApproval :: string where "K8sEffectRequireApproval \<equiv> ''require_approval''"

record k8s_rule =
  kr_verbs :: "string list"
  kr_resources :: "string list"
  kr_namespaces :: "string list"
  kr_names :: "string list"
  kr_effect :: string

datatype rule_error =
    RuleUnknownVerb string
  | RuleResource k8s_error
  | RuleLogsWithoutPods
  | RuleNamespace string
  | RuleName string

datatype cluster_error =
    ClusterName string
  | ClusterHostCollision string
  | ClusterURL
  | ClusterFilesMissing
  | ClusterCAUnreadable
  | ClusterCABundle
  | ClusterTokenFile
  | ClusterTTL int
  | ClusterNoBinding
  | ClusterBinding nat
  | ClusterResources k8s_error
  | ClusterRule nat rule_error
  | ClusterEffect nat string
  | ClusterNoAllow
  | ClusterPolicy policy_error

text \<open>
  One field of a rule: any value of a character class, or one of some literals. \<open>frag_regex\<close> is the
  text \<open>compileAlternates\<close> returns for it.
\<close>

datatype k8s_frag = FragAny string | FragOneOf "string list"

fun frag_regex :: "k8s_frag \<Rightarrow> string" where
  "frag_regex (FragAny wildcard) = ''(?:'' @ wildcard @ '')''"
| "frag_regex (FragOneOf ls) = ''(?:'' @ go_join (map quote_meta ls) ''|'' @ '')''"

abbreviation wild_verb :: string where "wild_verb \<equiv> ''[a-z]+''"
abbreviation wild_token :: string where "wild_token \<equiv> ''[^ ]+''"
abbreviation wild_namespace :: string where "wild_namespace \<equiv> ''[^ /]+''"

fun compile_literals :: "(string \<Rightarrow> rule_error + string) \<Rightarrow> string \<Rightarrow> string list \<Rightarrow> string list \<Rightarrow> rule_error + k8s_frag" where
  "compile_literals lit wildcard [] alts = Inr (FragOneOf (rev alts))"
| "compile_literals lit wildcard (v # vs) alts =
     (if v = ''*'' then Inr (FragAny wildcard)
      else case lit v of Inl e \<Rightarrow> Inl e | Inr l \<Rightarrow> compile_literals lit wildcard vs (l # alts))"

definition compile_alternates :: "string list \<Rightarrow> string \<Rightarrow> (string \<Rightarrow> rule_error + string) \<Rightarrow> rule_error + k8s_frag" where
  "compile_alternates vs wildcard lit =
     (if vs = [] then Inr (FragAny wildcard) else compile_literals lit wildcard vs [])"

definition verb_literal :: "string \<Rightarrow> rule_error + string" where
  "verb_literal v = (if v \<in> set K8sVerbs then Inr v else Inl (RuleUnknownVerb v))"

definition resource_literal :: "resource_table \<Rightarrow> string \<Rightarrow> rule_error + string" where
  "resource_literal t v =
     (case k8s_resolve t v [] of
        Inl e \<Rightarrow> Inl (RuleResource e)
      | Inr def \<Rightarrow> Inr (resource_token (rd_resource def) (rd_group def)))"

definition namespace_literal :: "string \<Rightarrow> rule_error + string" where
  "namespace_literal v = (if v \<noteq> ''-'' \<and> \<not> valid_label v then Inl (RuleNamespace v) else Inr v)"

definition name_literal :: "string \<Rightarrow> rule_error + string" where
  "name_literal v = (if v \<noteq> ''-'' \<and> \<not> valid_subdomain v then Inl (RuleName v) else Inr v)"

definition contains_literal :: "string list \<Rightarrow> string \<Rightarrow> bool" where
  "contains_literal vs v = (v \<in> set vs)"

definition resources_cover_pods :: "string list \<Rightarrow> resource_table \<Rightarrow> bool" where
  "resources_cover_pods rs t =
     (rs = [] \<or> list_ex (\<lambda>v. v = ''*'' \<or>
        (case k8s_resolve t v [] of
           Inl _ \<Rightarrow> False
         | Inr def \<Rightarrow> rd_resource def = ''pods'' \<and> rd_group def = [])) rs)"

text \<open>The four fields of a rule, and the text of its expression.\<close>

definition rule_frags :: "k8s_rule \<Rightarrow> resource_table \<Rightarrow> rule_error + k8s_frag \<times> k8s_frag \<times> k8s_frag \<times> k8s_frag" where
  "rule_frags r t =
     (case compile_alternates (kr_verbs r) wild_verb verb_literal of Inl e \<Rightarrow> Inl e | Inr v \<Rightarrow>
      (case compile_alternates (kr_resources r) wild_token (resource_literal t) of Inl e \<Rightarrow> Inl e | Inr rs \<Rightarrow>
       (if contains_literal (kr_verbs r) K8sVerbLogs \<and> \<not> resources_cover_pods (kr_resources r) t then Inl RuleLogsWithoutPods
        else case compile_alternates (kr_namespaces r) wild_namespace namespace_literal of Inl e \<Rightarrow> Inl e | Inr ns \<Rightarrow>
         (case compile_alternates (kr_names r) wild_token name_literal of Inl e \<Rightarrow> Inl e | Inr nm \<Rightarrow>
            Inr (v, rs, ns, nm)))))"

definition rule_regex :: "k8s_frag \<times> k8s_frag \<times> k8s_frag \<times> k8s_frag \<Rightarrow> string" where
  "rule_regex f = (case f of (v, r, n, m) \<Rightarrow>
     ''^'' @ frag_regex v @ '' '' @ frag_regex r @ '' '' @ frag_regex n @ ''/'' @ frag_regex m @ ''$'')"

definition compile_k8s_rule :: "k8s_rule \<Rightarrow> resource_table \<Rightarrow> rule_error + string" where
  "compile_k8s_rule r t = (case rule_frags r t of Inl e \<Rightarrow> Inl e | Inr f \<Rightarrow> Inr (rule_regex f))"

text \<open>The loop of \<open>compileK8sRules\<close>: the two policies being filled.\<close>

fun add_k8s_rules :: "resource_table \<Rightarrow> nat \<Rightarrow> k8s_rule list \<Rightarrow> command_policy \<times> command_policy \<Rightarrow>
    cluster_error + command_policy \<times> command_policy" where
  "add_k8s_rules t i [] st = Inr st"
| "add_k8s_rules t i (r # rs) (al, de) =
     (case compile_k8s_rule r t of
        Inl e \<Rightarrow> Inl (ClusterRule i e)
      | Inr re \<Rightarrow>
          (if kr_effect r = K8sEffectAllow then
             add_k8s_rules t (i + 1) rs (al\<lparr>cp_allow := cp_allow al @ [re]\<rparr>, de)
           else if kr_effect r = K8sEffectDeny then
             add_k8s_rules t (i + 1) rs (al, de\<lparr>cp_deny := cp_deny de @ [re]\<rparr>)
           else if kr_effect r = K8sEffectRequireApproval then
             add_k8s_rules t (i + 1) rs
               (al\<lparr>cp_allow := cp_allow al @ [re], cp_require_approval := cp_require_approval al @ [re]\<rparr>, de)
           else Inl (ClusterEffect i (kr_effect r))))"

definition empty_policy :: "string \<Rightarrow> command_policy" where
  "empty_policy mode = \<lparr>cp_mode = mode, cp_enforcement = CmdPolicyEnforce, cp_allow = [], cp_deny = [],
     cp_require_approval = [], cp_shell_parse = None\<rparr>"

definition compile_k8s_rules :: "go_env \<Rightarrow> k8s_rule list \<Rightarrow> resource_table \<Rightarrow> cluster_error + policy_set" where
  "compile_k8s_rules E rules t =
     (case add_k8s_rules t 0 rules (empty_policy CmdPolicyAllowlist, empty_policy CmdPolicyDenylist) of
        Inl e \<Rightarrow> Inl e
      | Inr (al, de) \<Rightarrow>
          (if cp_allow al = [] then Inl ClusterNoAllow
           else let ps = al # (if cp_deny de \<noteq> [] then [de] else []) in
             case ps_validate E ps of Some e \<Rightarrow> Inl (ClusterPolicy e) | None \<Rightarrow> Inr ps))"

section \<open>Clusters\<close>

record sa_binding =
  sb_groups :: "string list"
  sb_namespace :: string
  sb_service_account :: string

record cluster_policy =
  cl_api_server :: string
  cl_ca_cert :: string
  cl_token_file :: string
  cl_token_ttl_seconds :: int
  cl_groups :: "string list"
  cl_allowed_callers :: "string list"
  cl_sa_bindings :: "sa_binding list"
  cl_rules :: "k8s_rule list"
  cl_extra_resources :: "resource_def list"
  cl_policies :: policy_set
  cl_resources :: resource_table
  cl_ca_pem :: string

type_synonym cluster_table = "(string, cluster_policy) go_map"

text \<open>
  What compilation reads from outside: whether a text is an https URL with a host, the contents of a
  file, the PEM blocks of some bytes (type and contents, in order), whether a block parses as a
  certificate, a block's text, and whether a certificate pool accepts the bundle.
\<close>

record cluster_env =
  url_https :: "string \<Rightarrow> bool"
  read_file :: "string \<Rightarrow> string option"
  stat_ok :: "string \<Rightarrow> bool"
  pem_blocks :: "string \<Rightarrow> (string \<times> string) list"
  x509_parses :: "string \<Rightarrow> bool"
  pem_encode :: "string \<Rightarrow> string"
  pool_accepts :: "string \<Rightarrow> bool"

fun ca_blocks :: "cluster_env \<Rightarrow> (string \<times> string) list \<Rightarrow> string \<Rightarrow> string option" where
  "ca_blocks V [] out = Some out"
| "ca_blocks V ((ty, bs) # rest) out =
     (if ty \<noteq> ''CERTIFICATE'' then None
      else if \<not> x509_parses V bs then None
      else ca_blocks V rest (out @ pem_encode V bs))"

definition parse_ca_bundle :: "cluster_env \<Rightarrow> string \<Rightarrow> string option" where
  "parse_ca_bundle V raw =
     (case ca_blocks V (pem_blocks V raw) [] of
        None \<Rightarrow> None
      | Some out \<Rightarrow> (if out = [] then None else if \<not> pool_accepts V out then None else Some out))"

definition valid_cluster_name :: "string \<Rightarrow> bool" where
  "valid_cluster_name s =
     (case s of
        [] \<Rightarrow> False
      | c # t \<Rightarrow> (is_alpha_char c \<or> is_digit_char c) \<and> list_all host_name_char t \<and> length t \<le> 62)"

definition bad_binding :: "sa_binding \<Rightarrow> bool" where
  "bad_binding b = (\<not> valid_label (sb_namespace b) \<or> \<not> valid_subdomain (sb_service_account b))"

fun first_bad_binding :: "nat \<Rightarrow> sa_binding list \<Rightarrow> nat option" where
  "first_bad_binding i [] = None"
| "first_bad_binding i (b # bs) = (if bad_binding b then Some i else first_bad_binding (i + 1) bs)"

definition compile_cluster :: "go_env \<Rightarrow> cluster_env \<Rightarrow> cluster_policy \<Rightarrow> cluster_error + cluster_policy" where
  "compile_cluster E V cp =
     (if \<not> url_https V (cl_api_server cp) then Inl ClusterURL
      else if cl_ca_cert cp = [] \<or> cl_token_file cp = [] then Inl ClusterFilesMissing
      else case read_file V (cl_ca_cert cp) of None \<Rightarrow> Inl ClusterCAUnreadable | Some raw \<Rightarrow>
       (case parse_ca_bundle V raw of None \<Rightarrow> Inl ClusterCABundle | Some pem \<Rightarrow>
        (if \<not> stat_ok V (cl_token_file cp) then Inl ClusterTokenFile
         else
           let ttl = (if cl_token_ttl_seconds cp = 0 then 600 else cl_token_ttl_seconds cp) in
           if ttl < 600 \<or> 900 < ttl then Inl (ClusterTTL ttl)
           else if cl_sa_bindings cp = [] then Inl ClusterNoBinding
           else case first_bad_binding 0 (cl_sa_bindings cp) of Some i \<Rightarrow> Inl (ClusterBinding i) | None \<Rightarrow>
            (case k8s_resources (cl_extra_resources cp) of Inl e \<Rightarrow> Inl (ClusterResources e) | Inr t \<Rightarrow>
             (case compile_k8s_rules E (cl_rules cp) t of Inl e \<Rightarrow> Inl e | Inr ps \<Rightarrow>
                Inr (cp\<lparr>cl_ca_pem := pem, cl_token_ttl_seconds := ttl, cl_resources := t, cl_policies := ps\<rparr>))))))"

fun compile_clusters :: "go_env \<Rightarrow> cluster_env \<Rightarrow> cluster_table \<Rightarrow> policy_table \<Rightarrow> cluster_error + cluster_table" where
  "compile_clusters E V [] hosts = Inr []"
| "compile_clusters E V ((name, cp) # rest) hosts =
     (if \<not> valid_cluster_name name then Inl (ClusterName name)
      else if map_has hosts name then Inl (ClusterHostCollision name)
      else case compile_cluster E V cp of Inl e \<Rightarrow> Inl e | Inr c \<Rightarrow>
        (case compile_clusters E V rest hosts of Inl e \<Rightarrow> Inl e | Inr out \<Rightarrow> Inr ((name, c) # out)))"

definition cluster_allows_caller :: "cluster_policy \<Rightarrow> string \<Rightarrow> bool" where
  "cluster_allows_caller cp cn = caller_allowed (cl_allowed_callers cp) cn"

definition cluster_set_for_caller :: "string \<Rightarrow> cluster_table \<Rightarrow> caller_table \<Rightarrow> string list option" where
  "cluster_set_for_caller cn clusters callers =
     (if callers = [] then None
      else let allowed = caller_groups cn callers in
        Some (map fst (filter (\<lambda>(name, c). list_ex (\<lambda>g. g \<in> set allowed) (cl_groups c)) clusters)))"

fun binding_for :: "sa_binding list \<Rightarrow> string list \<Rightarrow> sa_binding option" where
  "binding_for [] gs = None"
| "binding_for (b # bs) gs =
     (if sb_groups b = [] \<or> groups_intersect (sb_groups b) gs then Some b else binding_for bs gs)"

section \<open>The decision\<close>

datatype k8s_sign_error =
    NoPolicyForCluster string
  | NoAction
  | InvalidAction k8s_error
  | K8sNoSudo
  | K8sNoPTY
  | K8sNoFileTransfer
  | K8sOneshotOnly
  | K8sTargetOnly
  | K8sIdentity
  | K8sCaller
  | K8sUser
  | K8sResource k8s_error
  | CanonicalMismatch string string
  | K8sFirewall sign_error

text \<open>The synthetic host that carries a cluster's policies to the firewall; its other fields are zero.\<close>

definition cluster_host :: "policy_set \<Rightarrow> host_policy" where
  "cluster_host ps =
     \<lparr>hp_addr = [], hp_user = [], hp_host_key = [], hp_jump = [], hp_principal = [],
      hp_source_address = [], hp_max_ttl = 0, hp_max_ttl_seconds = 0, hp_allow_as_bastion = False,
      hp_allowed_callers = [], hp_allow_sudo = False, hp_allowed_sudo_users = [], hp_allow_pty = False,
      hp_allow_file_transfer = False, hp_groups = [], hp_sealed_exec = False,
      hp_command_policy = \<lparr>cp_mode = [], cp_enforcement = [], cp_allow = [], cp_deny = [],
        cp_require_approval = [], cp_shell_parse = None\<rparr>,
      hp_policies = (if ps = [] then None else Some ps)\<rparr>"

definition k8s_gates :: "cluster_policy \<Rightarrow> intent \<Rightarrow> k8s_action \<Rightarrow> k8s_sign_error option" where
  "k8s_gates cp i a =
     (case k8s_validate a of Some e \<Rightarrow> Some (InvalidAction e) | None \<Rightarrow>
       (if in_sudo i \<or> in_sudo_user i \<noteq> [] then Some K8sNoSudo
        else if in_pty i then Some K8sNoPTY
        else if in_file_transfer i then Some K8sNoFileTransfer
        else if in_purpose i \<noteq> PurposeOneshot \<or> in_session_mode i \<noteq> [] then Some K8sOneshotOnly
        else if in_role i \<noteq> RoleTarget then Some K8sTargetOnly
        else if has_unsafe_token_char (in_caller i) \<or> has_unsafe_token_char (in_end_user i)
             \<or> has_unsafe_token_char (in_end_user_context i) then Some K8sIdentity
        else if \<not> caller_allowed (cl_allowed_callers cp) (in_caller i) then Some K8sCaller
        else if (case in_end_user_groups i of
                   None \<Rightarrow> False
                 | Some gs \<Rightarrow> \<not> groups_intersect (cl_groups cp) gs) then Some K8sUser
        else None))"

definition normalize_action :: "resource_def \<Rightarrow> k8s_action \<Rightarrow> k8s_action" where
  "normalize_action def a =
     (let a = a\<lparr>ka_group := rd_group def\<rparr> in if \<not> rd_namespaced def then a\<lparr>ka_namespace := []\<rparr> else a)"

definition resolve_k8s ::
  "go_env \<Rightarrow> cluster_table \<Rightarrow> grants_api option \<Rightarrow> intent \<Rightarrow> go_time \<Rightarrow> decision \<times> cp_result \<times> k8s_sign_error option" where
  "resolve_k8s E ct gs i now =
     (case map_of ct (in_host i) of None \<Rightarrow> (zero_decision, zero_cp_result, Some (NoPolicyForCluster (in_host i))) | Some cp \<Rightarrow>
      (case in_k8s i of None \<Rightarrow> (zero_decision, zero_cp_result, Some NoAction) | Some raw \<Rightarrow>
       (case k8s_gates cp i raw of Some e \<Rightarrow> (zero_decision, zero_cp_result, Some e) | None \<Rightarrow>
        (case k8s_resolve (cl_resources cp) (ka_resource raw) (ka_group raw) of
           Inl e \<Rightarrow> (zero_decision, zero_cp_result, Some (K8sResource e))
         | Inr def \<Rightarrow>
             (let action = normalize_action def raw in
              if in_command i \<noteq> k8s_canonical action then
                (zero_decision, zero_cp_result, Some (CanonicalMismatch (in_command i) (k8s_canonical action)))
              else case resolve_command_policy E gs (cluster_host (cl_policies cp)) i now of
                (res, Some e) \<Rightarrow> (zero_decision\<lparr>de_k8s_action := Some action\<rparr>, res, Some (K8sFirewall e))
              | (res, None) \<Rightarrow>
                  (zero_decision\<lparr>de_require_approval := cr_require_approval res,
                     de_matched_rule := cr_matched_rule res, de_enforcement := cr_enforcement res,
                     de_k8s_action := Some action\<rparr>, res, None))))))"

section \<open>What the libraries do with a rule and with a canonical action\<close>

text \<open>The strings a field stands for.\<close>

definition wild_matches :: "string \<Rightarrow> string \<Rightarrow> bool" where
  "wild_matches wildcard s \<longleftrightarrow> s \<noteq> []
     \<and> (if wildcard = wild_verb then list_all (\<lambda>c. 97 \<le> (of_char c :: nat) \<and> (of_char c :: nat) \<le> 122) s
        else if wildcard = wild_namespace then CHR '' '' \<notin> set s \<and> CHR ''/'' \<notin> set s
        else CHR '' '' \<notin> set s)"

fun frag_matches :: "k8s_frag \<Rightarrow> string \<Rightarrow> bool" where
  "frag_matches (FragAny wildcard) s \<longleftrightarrow> wild_matches wildcard s"
| "frag_matches (FragOneOf ls) s \<longleftrightarrow> s \<in> set ls"

text \<open>Four parts, separated by two spaces and a slash, each matched by its field.\<close>

definition fields_match :: "k8s_frag \<times> k8s_frag \<times> k8s_frag \<times> k8s_frag \<Rightarrow> string \<Rightarrow> bool" where
  "fields_match f s \<longleftrightarrow> (case f of (v, r, n, m) \<Rightarrow>
     (\<exists>a b c d. s = a @ '' '' @ b @ '' '' @ c @ ''/'' @ d
        \<and> frag_matches v a \<and> frag_matches r b \<and> frag_matches n c \<and> frag_matches m d))"

text \<open>
  The text of a field is read back as the field, if it is one of the three wildcards or has an alternative,
  and the text of a rule as the four fields between anchors: what the expression finds in a text is what the
  fields say of the whole text.
\<close>

fun frag_item :: "k8s_frag \<Rightarrow> rx_item" where
  "frag_item (FragAny wildcard) =
     (if wildcard = wild_verb then RxRange (CHR ''a'') (CHR ''z'') else if wildcard = wild_namespace then RxNotIn '' /'' else RxNotIn '' '')"
| "frag_item (FragOneOf ls) = RxOneOf ls"

fun frag_ok :: "k8s_frag \<Rightarrow> bool" where
  "frag_ok (FragAny wildcard) \<longleftrightarrow> wildcard \<in> {wild_verb, wild_token, wild_namespace}"
| "frag_ok (FragOneOf ls) \<longleftrightarrow> ls \<noteq> []"

lemma scan_wildcards:
  "scan_group (''[a-z]+)'' @ s) = Some (RxRange (CHR ''a'') (CHR ''z''), s)"
  "scan_group (''[^ ]+)'' @ s) = Some (RxNotIn '' '', s)"
  "scan_group (''[^ /]+)'' @ s) = Some (RxNotIn '' /'', s)"
  by (simp_all add: scan_group_def class_item_def has_prefix_def metachar_def is_alpha_char_def Let_def)

lemma rx_items_frag:
  assumes "frag_ok f"
  shows "rx_items (frag_regex f @ s) = map_option (Cons (frag_item f)) (rx_items s)"
proof (cases f)
  case (FragAny wildcard)
  then have "scan_group (wildcard @ '')'' @ s) = Some (frag_item f, s)" using assms scan_wildcards [of s] by auto
  from rx_items_group [OF this] show ?thesis using FragAny by simp
next
  case (FragOneOf ls)
  then have "scan_group (go_join (map quote_meta ls) ''|'' @ CHR '')'' # s) = Some (RxOneOf ls, s)"
    using assms by (intro scan_group_literals) simp
  from rx_items_group [OF this] show ?thesis using FragOneOf by simp
qed

lemma rx_items_rule:
  assumes "frag_ok v" and "frag_ok r" and "frag_ok n" and "frag_ok m"
  shows "rx_items (rule_regex (v, r, n, m)) = Some (RxBegin #
    [frag_item v, RxChar (CHR '' ''), frag_item r, RxChar (CHR '' ''), frag_item n, RxChar (CHR ''/''), frag_item m] @ [RxEnd])"
  unfolding rule_regex_def prod.case append.simps rx_items_anchor rx_items_separator rx_items_frag [OF assms(1)]
    rx_items_frag [OF assms(2)] rx_items_frag [OF assms(3)] rx_items_frag [OF assms(4)] rx_items_Nil option.map ..

lemma frag_item_takes: "frag_ok f \<Longrightarrow> item_takes (frag_item f) pre a post \<longleftrightarrow> frag_matches f a"
  by (cases f) (auto simp: wild_matches_def list_all_iff)

lemma rule_search:
  assumes "frag_ok v" and "frag_ok r" and "frag_ok n" and "frag_ok m"
  shows "rx_search (RxBegin # [frag_item v, RxChar (CHR '' ''), frag_item r, RxChar (CHR '' ''), frag_item n, RxChar (CHR ''/''), frag_item m]
     @ [RxEnd]) s \<longleftrightarrow> fields_match (v, r, n, m) s"
proof -
  have f: "items_take (frag_item x # its) pre w [] \<longleftrightarrow> (\<exists>a b. w = a @ b \<and> frag_matches x a \<and> items_take its (pre @ a) b [])"
    if "frag_ok x" for x its pre w
    using frag_item_takes [OF that] by simp
  have c: "items_take (RxChar x # its) pre w [] \<longleftrightarrow> (\<exists>b. w = x # b \<and> items_take its (pre @ [x]) b [])" for x its pre w
    by auto
  have "items_take [frag_item v, RxChar (CHR '' ''), frag_item r, RxChar (CHR '' ''), frag_item n, RxChar (CHR ''/''), frag_item m] [] s []
      \<longleftrightarrow> (\<exists>a b. s = a @ b \<and> frag_matches v a \<and> (\<exists>b'. b = CHR '' '' # b' \<and> (\<exists>a b. b' = a @ b \<and> frag_matches r a
        \<and> (\<exists>b'. b = CHR '' '' # b' \<and> (\<exists>a b. b' = a @ b \<and> frag_matches n a \<and> (\<exists>d. b = CHR ''/'' # d \<and> frag_matches m d))))))"
    unfolding f [OF assms(1)] f [OF assms(2)] f [OF assms(3)] f [OF assms(4)] c items_take.simps(1) by simp
  also have "\<dots> \<longleftrightarrow> fields_match (v, r, n, m) s"
    unfolding fields_match_def prod.case append_Cons append_Nil by (simp only: ex_simps [symmetric] conj_assoc) metis
  finally show ?thesis unfolding search_anchored .
qed

lemma compile_alternates_ok:
  assumes "compile_alternates vs wildcard lit = Inr f" and "wildcard \<in> {wild_verb, wild_token, wild_namespace}"
  shows "frag_ok f"
proof -
  have "frag_ok f" if "compile_literals lit wildcard ws alts = Inr f" "ws \<noteq> [] \<or> alts \<noteq> []" for ws alts
    using that assms(2) by (induction ws arbitrary: alts) (auto split: if_splits sum.splits)
  then show ?thesis using assms by (auto simp: compile_alternates_def split: if_splits)
qed

text \<open>
  The shell parser reads some words without special characters as one simple command of literal
  words, which expand to themselves; the other nodes of the tree are of no interest.
\<close>

definition parses_words :: "go_env \<Rightarrow> string \<Rightarrow> string list \<Rightarrow> bool" where
  "parses_words E s ws \<longleftrightarrow>
     (\<exists>f k l. sh_parse E s = Inr f
        \<and> file_walk f = replicate k OtherNode @ CallExprNode [] (map (\<lambda>w. [Lit w]) ws) # replicate l OtherNode)
   \<and> (\<forall>w \<in> set ws. sh_literal E [Lit w] = Inr w)"

definition canonical_words :: "k8s_action \<Rightarrow> string list" where
  "canonical_words a = [ka_verb a, resource_token (ka_resource a) (ka_group a),
     dash_if_empty (ka_namespace a) @ ''/'' @ dash_if_empty (ka_name a)]"

section \<open>The meaning of the rules\<close>

definition covers :: "string list \<Rightarrow> string \<Rightarrow> bool" where
  "covers vs v \<longleftrightarrow> vs = [] \<or> ''*'' \<in> set vs \<or> v \<in> set vs"

definition rule_covers :: "k8s_rule \<Rightarrow> k8s_action \<Rightarrow> bool" where
  "rule_covers r a \<longleftrightarrow> covers (kr_verbs r) (ka_verb a) \<and> covers (kr_resources r) (ka_resource a)
     \<and> covers (kr_namespaces r) (dash_if_empty (ka_namespace a))
     \<and> covers (kr_names r) (dash_if_empty (ka_name a))"

lemma compile_literals_frag:
  assumes "compile_literals lit wildcard vs alts = Inr f"
  shows "''*'' \<in> set vs \<and> f = FragAny wildcard
    \<or> ''*'' \<notin> set vs \<and> (\<exists>ls. f = FragOneOf (rev alts @ ls) \<and> map lit vs = map Inr ls)"
  using assms
proof (induction vs arbitrary: alts)
  case (Cons v vs)
  show ?case
  proof (cases "v = ''*''")
    case True
    then show ?thesis using Cons.prems by simp
  next
    case False
    with Cons.prems obtain l where l: "lit v = Inr l" "compile_literals lit wildcard vs (l # alts) = Inr f"
      by (auto split: sum.splits)
    from Cons.IH [OF l(2)] show ?thesis
    proof
      assume "''*'' \<notin> set vs \<and> (\<exists>ls. f = FragOneOf (rev (l # alts) @ ls) \<and> map lit vs = map Inr ls)"
      then obtain ls where "''*'' \<notin> set vs" "f = FragOneOf (rev alts @ l # ls)" "map lit vs = map Inr ls" by auto
      then have "f = FragOneOf (rev alts @ l # ls) \<and> map lit (v # vs) = map Inr (l # ls)" using l by simp
      then show ?thesis using False \<open>''*'' \<notin> set vs\<close> by auto
    qed simp
  qed
qed auto

lemma compile_alternates_matches:
  assumes c: "compile_alternates vs wildcard lit = Inr f" and w: "wild_matches wildcard (g x)"
    and lit: "\<And>v l. lit v = Inr l \<Longrightarrow> l = g x \<longleftrightarrow> v = x"
  shows "frag_matches f (g x) \<longleftrightarrow> covers vs x"
proof (cases "vs = []")
  case True
  then show ?thesis using c w by (auto simp: compile_alternates_def covers_def)
next
  case False
  then have "compile_literals lit wildcard vs [] = Inr f" using c by (simp add: compile_alternates_def)
  from compile_literals_frag [OF this] show ?thesis
  proof
    assume "''*'' \<notin> set vs \<and> (\<exists>ls. f = FragOneOf (rev [] @ ls) \<and> map lit vs = map Inr ls)"
    then obtain ls where f: "f = FragOneOf ls" and m: "map lit vs = map Inr ls" and n: "''*'' \<notin> set vs" by auto
    from m have "g x \<in> set ls \<longleftrightarrow> x \<in> set vs"
    proof (induction vs arbitrary: ls)
      case (Cons v vs)
      then obtain l ls' where "ls = l # ls'" "lit v = Inr l" "map lit vs = map Inr ls'"
        by (auto simp: Cons_eq_map_conv)
      with Cons.IH [of ls'] lit [of v l] show ?case by auto
    qed simp
    then show ?thesis using f n False by (simp add: covers_def)
  qed (use w in \<open>simp add: covers_def\<close>)
qed

text \<open>A canonical action is a command of three plain words for the firewall.\<close>

definition plain_char :: "char \<Rightarrow> bool" where
  "plain_char c \<longleftrightarrow> lower_alnum c \<or> c \<in> set ''-./''"

lemma plain_not_special: "plain_char c \<Longrightarrow> c \<notin> set (backslash # ''*?[{}~='')"
  by (auto simp: plain_char_def lower_alnum_def is_digit_char_def)

lemma identifier_plain:
  "valid_label s \<Longrightarrow> list_all plain_char s" "valid_subdomain s \<Longrightarrow> list_all plain_char s"
  by (auto simp: valid_label_def valid_subdomain_def plain_char_def list_all_iff dest: rfc1123_chars)

lemma verb_plain: "v \<in> set K8sVerbs \<Longrightarrow> list_all plain_char v"
  by (auto simp: K8sVerbs_def plain_char_def lower_alnum_def)

lemma canonical_words_plain: "action_ok a \<Longrightarrow> w \<in> set (canonical_words a) \<Longrightarrow> list_all plain_char w \<and> w \<noteq> []"
  using identifier_plain verb_plain [of "ka_verb a"] label_not_dash [of "ka_resource a"]
  by (auto simp: canonical_words_def action_ok_def resource_token_def dash_if_empty_def plain_char_def
      K8sVerbs_def split: if_splits)

lemma decode_plain_word:
  assumes "list_all plain_char w" and "sh_literal E [Lit w] = Inr w"
  shows "decode_word E [Lit w] = Inr w"
proof -
  have c: "c \<in> set w \<Longrightarrow> c \<notin> set (backslash # ''*?[{}~='')" for c
    using assms(1) plain_not_special by (auto simp: list_all_iff)
  have "\<not> contains_any w ''*?[{}''" using c by (auto simp: contains_any_iff)
  moreover have "\<not> contains_substr w [backslash]" using c [of backslash] by (auto simp: contains_substr_iff)
  moreover have "\<not> has_prefix w ''~''" "\<not> has_prefix w ''=''"
    using c [of "hd w"] by (cases w; auto simp: has_prefix_def)+
  ultimately show ?thesis
    using assms(2) by (simp add: decode_word_def is_static_word_def reject_shell_expansion_def word_start_def)
qed

lemma decode_plain_words:
  "\<forall>w \<in> set ws. list_all plain_char w \<and> sh_literal E [Lit w] = Inr w \<Longrightarrow>
   decode_words E (map (\<lambda>w. [Lit w]) ws) = Inr ws"
  by (induction ws) (auto simp: decode_plain_word)

lemma verb_not_wrapper:
  assumes "v \<in> set K8sVerbs"
  shows "command_hiding_wrapper (v @ '' '' @ x) = None" and "find_exec_action (v @ '' '' @ x) = None"
proof -
  have cut: "cut_at_space (v @ '' '' @ x) = v" using assms by (auto simp: K8sVerbs_def cut_at_space_def)
  have "trim_prefix (path_base v) ''-'' \<notin> set command_hiding_wrappers
      \<and> versioned_interpreter (trim_prefix (path_base v) ''-'') = None \<and> v \<noteq> []"
    using assms unfolding K8sVerbs_def by (simp only: list.set insert_iff empty_iff) (elim disjE; hypsubst?; code_simp?)
  then show "command_hiding_wrapper (v @ '' '' @ x) = None"
    unfolding command_hiding_wrapper_def cut Let_def by simp
  have "go_fields (v @ '' '' @ x) = v # go_fields x" and "path_base v \<noteq> ''find''"
    using assms by (auto simp: K8sVerbs_def go_fields_def fields_from_char fields_from_space
        space_width_plain space_width_blank path_base_def Let_def simp del: space_width.simps)
  then show "find_exec_action (v @ '' '' @ x) = None" unfolding find_exec_action_def by simp
qed

lemma canonical_extract:
  assumes "action_ok a" and "parses_words E (k8s_canonical a) (canonical_words a)"
  shows "extract_commands E (k8s_canonical a) = Inr [k8s_canonical a]"
proof -
  obtain f k l where f: "sh_parse E (k8s_canonical a) = Inr f"
    and w: "file_walk f = replicate k OtherNode @ CallExprNode [] (map (\<lambda>w. [Lit w]) (canonical_words a)) # replicate l OtherNode"
    and lits: "\<forall>w \<in> set (canonical_words a). sh_literal E [Lit w] = Inr w"
    using assms(2) by (auto simp: parses_words_def)
  have "decode_words E (map (\<lambda>w. [Lit w]) (canonical_words a)) = Inr (canonical_words a)"
    using canonical_words_plain [OF assms(1)] lits by (intro decode_plain_words) blast
  then have args: "literal_args E (map (\<lambda>w. [Lit w]) (canonical_words a)) = Inr (k8s_canonical a)"
    by (simp add: literal_args_def canonical_words_def k8s_canonical_def)
  have "ka_verb a \<in> set K8sVerbs" using assms(1) by (simp add: action_ok_def)
  then have n: "command_hiding_wrapper (k8s_canonical a) = None" "find_exec_action (k8s_canonical a) = None"
    unfolding k8s_canonical_def by (rule verb_not_wrapper)+
  have visit: "visit_node E (CallExprNode [] (map (\<lambda>w. [Lit w]) (canonical_words a))) = Inr (Some (k8s_canonical a))"
    using args n by (simp add: canonical_words_def)
  have other: "list_all (visit_ok E) (replicate m OtherNode) \<and> concat (map (node_commands E) (replicate m OtherNode)) = []" for m
    by (induction m) (auto simp: visit_ok_def node_commands_def)
  show ?thesis
    unfolding extract_commands_iff
    using f w visit other [of k] other [of l] by (auto simp: visit_ok_def node_commands_def)
qed

lemma compile_alternates_clean:
  assumes "compile_alternates vs wildcard lit = Inr f" and "frag_matches f s"
    and "\<And>v l. lit v = Inr l \<Longrightarrow> P l" and "\<And>s. wild_matches wildcard s \<Longrightarrow> P s"
  shows "P s"
proof (cases "vs = []")
  case True
  then show ?thesis using assms by (auto simp: compile_alternates_def)
next
  case False
  then have "compile_literals lit wildcard vs [] = Inr f" using assms(1) by (simp add: compile_alternates_def)
  from compile_literals_frag [OF this] show ?thesis
  proof
    assume "''*'' \<notin> set vs \<and> (\<exists>ls. f = FragOneOf (rev [] @ ls) \<and> map lit vs = map Inr ls)"
    then obtain ls where "s \<in> set ls" "map lit vs = map Inr ls" using assms(2) by auto
    then have "Inr s \<in> set (map lit vs)" by simp
    then show ?thesis using assms(3) by auto
  qed (use assms(2,4) in simp)
qed

text \<open>An action whose group is the one the table gives its resource.\<close>

definition normalized :: "resource_table \<Rightarrow> k8s_action \<Rightarrow> bool" where
  "normalized t a \<longleftrightarrow> (case map_of t (ka_resource a) of None \<Rightarrow> False | Some d \<Rightarrow> ka_group a = rd_group d)"

lemma literal_clean:
  "verb_literal v = Inr l \<Longrightarrow> l = v \<and> CHR '' '' \<notin> set l"
  "namespace_literal v = Inr l \<Longrightarrow> l = v \<and> CHR ''/'' \<notin> set l"
  "name_literal v = Inr l \<Longrightarrow> l = v"
  using verb_no_sep label_no_sep
  by (auto simp: verb_literal_def namespace_literal_def name_literal_def split: if_splits)

lemma resource_literal_clean:
  assumes "table_ok t" and "resource_literal t v = Inr l"
  shows "CHR '' '' \<notin> set l"
proof -
  from assms(2) obtain d where d: "k8s_resolve t v [] = Inr d" "l = resource_token (rd_resource d) (rd_group d)"
    by (auto simp: resource_literal_def split: sum.splits)
  with k8s_resolve_table [OF d(1) assms(1)] token_no_sep [of "rd_resource d" "rd_group d"] show ?thesis
    by simp
qed

lemma resource_literal_inject:
  assumes "table_ok t" and "normalized t a" and "resource_literal t v = Inr l"
  shows "l = resource_token (ka_resource a) (ka_group a) \<longleftrightarrow> v = ka_resource a"
proof -
  from assms(3) obtain d where d: "k8s_resolve t v [] = Inr d" and l: "l = resource_token (rd_resource d) (rd_group d)"
    by (auto simp: resource_literal_def split: sum.splits)
  note k = k8s_resolve_table [OF d assms(1)]
  from assms(2) obtain d' where d': "map_of t (ka_resource a) = Some d'" "ka_group a = rd_group d'"
    by (auto simp: normalized_def split: option.splits)
  then have "valid_label (ka_resource a)" using assms(1) by (auto simp: table_ok_def)
  then show ?thesis using l k d' by (auto simp: token_inject)
qed

lemma canonical_wild:
  assumes "action_ok a"
  shows "wild_matches wild_verb (ka_verb a)"
    and "wild_matches wild_token (resource_token (ka_resource a) (ka_group a))"
    and "wild_matches wild_namespace (dash_if_empty (ka_namespace a))"
    and "wild_matches wild_token (dash_if_empty (ka_name a))"
  using assms token_no_sep [of "ka_resource a" "ka_group a"] dash_no_sep(1) [of "ka_namespace a"]
    dash_no_sep(2) [of "ka_name a"] label_not_dash [of "ka_resource a"]
  by (auto simp: wild_matches_def action_ok_def K8sVerbs_def resource_token_def dash_if_empty_def)

lemma rule_frags_Inr:
  assumes "rule_frags r t = Inr (v, rs, ns, nm)"
  shows "compile_alternates (kr_verbs r) wild_verb verb_literal = Inr v"
    and "compile_alternates (kr_resources r) wild_token (resource_literal t) = Inr rs"
    and "compile_alternates (kr_namespaces r) wild_namespace namespace_literal = Inr ns"
    and "compile_alternates (kr_names r) wild_token name_literal = Inr nm"
  using assms by (auto simp: rule_frags_def split: sum.splits if_splits)

lemma rule_matches_iff_covers:
  assumes "rule_frags r t = Inr f" and t: "table_ok t" and a: "action_ok a" and n: "normalized t a"
  shows "fields_match f (k8s_canonical a) \<longleftrightarrow> rule_covers r a"
proof -
  obtain v rs ns nm where f: "f = (v, rs, ns, nm)" by (cases f)
  note c = rule_frags_Inr [OF assms(1) [unfolded f]]
  note w = canonical_wild [OF a]
  have m: "frag_matches v (ka_verb a) \<longleftrightarrow> covers (kr_verbs r) (ka_verb a)"
    by (rule compile_alternates_matches [OF c(1), of "\<lambda>x. x"]) (use w(1) in simp, blast dest: literal_clean(1))
  have mr: "frag_matches rs (resource_token (ka_resource a) (ka_group a)) \<longleftrightarrow> covers (kr_resources r) (ka_resource a)"
    by (rule compile_alternates_matches [OF c(2), of "\<lambda>_. resource_token (ka_resource a) (ka_group a)"])
      (use w(2) resource_literal_inject [OF t n] in simp_all)
  have mn: "frag_matches ns (dash_if_empty (ka_namespace a)) \<longleftrightarrow> covers (kr_namespaces r) (dash_if_empty (ka_namespace a))"
    by (rule compile_alternates_matches [OF c(3), of "\<lambda>x. x"]) (use w(3) in simp, blast dest: literal_clean(2))
  have mm: "frag_matches nm (dash_if_empty (ka_name a)) \<longleftrightarrow> covers (kr_names r) (dash_if_empty (ka_name a))"
    by (rule compile_alternates_matches [OF c(4), of "\<lambda>x. x"]) (use w(4) in simp, blast dest: literal_clean(3))
  have clean: "CHR '' '' \<notin> set x" if "frag_matches v x" for x
    by (rule compile_alternates_clean [OF c(1) that])
      (use literal_clean(1) in \<open>auto simp: wild_matches_def list_all_iff\<close>)
  have cleanr: "CHR '' '' \<notin> set x" if "frag_matches rs x" for x
    by (rule compile_alternates_clean [OF c(2) that])
      (use resource_literal_clean [OF t] in \<open>auto simp: wild_matches_def\<close>)
  have cleann: "CHR ''/'' \<notin> set x" if "frag_matches ns x" for x
    by (rule compile_alternates_clean [OF c(3) that])
      (use literal_clean(2) in \<open>auto simp: wild_matches_def\<close>)
  show ?thesis
  proof
    assume "fields_match f (k8s_canonical a)"
    then obtain x y z u where eq: "k8s_canonical a = x @ '' '' @ y @ '' '' @ z @ ''/'' @ u"
      and fr: "frag_matches v x" "frag_matches rs y" "frag_matches ns z" "frag_matches nm u"
      by (auto simp: fields_match_def f)
    from eq have "ka_verb a = x \<and> resource_token (ka_resource a) (ka_group a) = y
        \<and> dash_if_empty (ka_namespace a) = z \<and> dash_if_empty (ka_name a) = u"
      unfolding canonical_fields [OF a clean [OF fr(1)] cleanr [OF fr(2)] cleann [OF fr(3)]] .
    with fr m mr mn mm show "rule_covers r a" by (auto simp: rule_covers_def)
  next
    assume "rule_covers r a"
    then show "fields_match f (k8s_canonical a)"
      using m mr mn mm unfolding fields_match_def f rule_covers_def k8s_canonical_def by blast
  qed
qed

text \<open>What the compiled expression of a rule matches.\<close>

lemma rule_regex_fields:
  assumes "rx_engine E" and "rule_frags r t = Inr f" and "rx_compile E (rule_regex f) \<noteq> None" and "ascii_text s"
  shows "rx_match E (rule_regex f) s \<longleftrightarrow> fields_match f s"
proof -
  obtain v rs ns nm where f: "f = (v, rs, ns, nm)" by (cases f)
  note c = rule_frags_Inr [OF assms(2) [unfolded f]]
  have ok: "frag_ok v" "frag_ok rs" "frag_ok ns" "frag_ok nm" using c [THEN compile_alternates_ok] by simp_all
  obtain p where p: "rx_compile E (rule_regex f) = Some p" using assms(3) by blast
  then have "\<exists>its. rx_items (rule_regex f) = Some its \<and> p s = rx_search its s"
    using assms(1,4) rx_items_rule [OF ok] unfolding f rx_engine_def by blast
  then show ?thesis using p rx_items_rule [OF ok] rule_search [OF ok] by (simp add: rx_match_def f)
qed

text \<open>A canonical action is ASCII.\<close>

lemma identifier_ascii: "valid_label s \<or> valid_subdomain s \<Longrightarrow> ascii_text s"
  by (auto simp: valid_label_def valid_subdomain_def ascii_text_def list_all_iff lower_alnum_def is_digit_char_def dest!: rfc1123_chars)

lemma canonical_ascii: "action_ok a \<Longrightarrow> ascii_text (k8s_canonical a)"
  using identifier_ascii
  by (auto simp: action_ok_def k8s_canonical_def resource_token_def dash_if_empty_def K8sVerbs_def ascii_text_def)

definition rule_rx :: "resource_table \<Rightarrow> k8s_rule \<Rightarrow> string" where
  "rule_rx t r = (case compile_k8s_rule r t of Inl _ \<Rightarrow> [] | Inr re \<Rightarrow> re)"

definition rules_with :: "string list \<Rightarrow> k8s_rule list \<Rightarrow> k8s_rule list" where
  "rules_with effects rules = filter (\<lambda>r. kr_effect r \<in> set effects) rules"

lemma add_k8s_rules_Inr:
  assumes "add_k8s_rules t i rules (al, de) = Inr (al', de')"
  shows "(\<forall>r \<in> set rules. \<exists>re. compile_k8s_rule r t = Inr re)
    \<and> al' = al\<lparr>cp_allow := cp_allow al @ map (rule_rx t) (rules_with [K8sEffectAllow, K8sEffectRequireApproval] rules),
               cp_require_approval := cp_require_approval al @ map (rule_rx t) (rules_with [K8sEffectRequireApproval] rules)\<rparr>
    \<and> de' = de\<lparr>cp_deny := cp_deny de @ map (rule_rx t) (rules_with [K8sEffectDeny] rules)\<rparr>"
  using assms
proof (induction rules arbitrary: i al de)
  case Nil
  then show ?case by (simp add: rules_with_def)
next
  case (Cons r rules)
  from Cons.prems obtain re where re: "compile_k8s_rule r t = Inr re" by (auto split: sum.splits)
  consider "kr_effect r = K8sEffectAllow" | "kr_effect r = K8sEffectDeny" | "kr_effect r = K8sEffectRequireApproval"
    using Cons.prems re by (auto split: if_splits)
  then show ?case
  proof cases
    case 1
    then have "add_k8s_rules t (i + 1) rules (al\<lparr>cp_allow := cp_allow al @ [re]\<rparr>, de) = Inr (al', de')"
      using Cons.prems re by simp
    from Cons.IH [OF this] show ?thesis using 1 re by (simp add: rules_with_def rule_rx_def)
  next
    case 2
    then have "add_k8s_rules t (i + 1) rules (al, de\<lparr>cp_deny := cp_deny de @ [re]\<rparr>) = Inr (al', de')"
      using Cons.prems re by simp
    from Cons.IH [OF this] show ?thesis using 2 re by (simp add: rules_with_def rule_rx_def)
  next
    case 3
    then have "add_k8s_rules t (i + 1) rules (al\<lparr>cp_allow := cp_allow al @ [re],
        cp_require_approval := cp_require_approval al @ [re]\<rparr>, de) = Inr (al', de')"
      using Cons.prems re by simp
    from Cons.IH [OF this] show ?thesis using 3 re by (simp add: rules_with_def rule_rx_def)
  qed
qed

lemma compile_k8s_rules_Inr:
  assumes "compile_k8s_rules E rules t = Inr ps"
  shows "\<forall>r \<in> set rules. \<exists>re. compile_k8s_rule r t = Inr re" and "ps_validate E ps = None" and "ps \<noteq> []"
    and "ps_shell_parse ps" and "ps_has_allowlist ps" and "ps_enforcement ps = CmdPolicyEnforce"
    and "\<forall>r \<in> set rules. kr_effect r \<in> {K8sEffectAllow, K8sEffectDeny, K8sEffectRequireApproval} \<longrightarrow> rx_compile E (rule_rx t r) \<noteq> None"
    and "spec_covered E ps c \<longleftrightarrow> (\<exists>r \<in> set (rules_with [K8sEffectAllow, K8sEffectRequireApproval] rules). rx_match E (rule_rx t r) c)"
    and "spec_denied E ps c \<longleftrightarrow> (\<exists>r \<in> set (rules_with [K8sEffectDeny] rules). rx_match E (rule_rx t r) c)"
    and "spec_needs_approval E ps c \<longleftrightarrow> (\<exists>r \<in> set (rules_with [K8sEffectRequireApproval] rules). rx_match E (rule_rx t r) c)"
proof -
  from assms obtain al de where add: "add_k8s_rules t 0 rules (empty_policy CmdPolicyAllowlist, empty_policy CmdPolicyDenylist) = Inr (al, de)"
    and ps: "ps = al # (if cp_deny de \<noteq> [] then [de] else [])" and v: "ps_validate E ps = None"
    by (auto simp: compile_k8s_rules_def Let_def split: sum.splits prod.splits if_splits option.splits)
  note r = add_k8s_rules_Inr [OF add]
  show "\<forall>r \<in> set rules. \<exists>re. compile_k8s_rule r t = Inr re" using r by blast
  show "ps_validate E ps = None" by (rule v)
  have al: "al = (empty_policy CmdPolicyAllowlist)\<lparr>cp_allow := map (rule_rx t) (rules_with [K8sEffectAllow, K8sEffectRequireApproval] rules),
      cp_require_approval := map (rule_rx t) (rules_with [K8sEffectRequireApproval] rules)\<rparr>"
    and de: "de = (empty_policy CmdPolicyDenylist)\<lparr>cp_deny := map (rule_rx t) (rules_with [K8sEffectDeny] rules)\<rparr>"
    using r by (simp_all add: empty_policy_def)
  show "ps \<noteq> []" "ps_shell_parse ps" "ps_has_allowlist ps" "ps_enforcement ps = CmdPolicyEnforce"
    unfolding ps al by (simp_all add: ps_shell_parse_def ps_has_allowlist_def ps_enforcement_def
        cp_parse_commands_def cp_restricts_def cp_active_def empty_policy_def)
  show "\<forall>r \<in> set rules. kr_effect r \<in> {K8sEffectAllow, K8sEffectDeny, K8sEffectRequireApproval} \<longrightarrow> rx_compile E (rule_rx t r) \<noteq> None"
  proof (intro ballI impI)
    fix r assume "r \<in> set rules" "kr_effect r \<in> {K8sEffectAllow, K8sEffectDeny, K8sEffectRequireApproval}"
    then have "rule_rx t r \<in> set (cp_allow al) \<or> rule_rx t r \<in> set (cp_deny de)" unfolding al de by (auto simp: rules_with_def)
    then show "rx_compile E (rule_rx t r) \<noteq> None" using ps_validate_compiles [OF v] unfolding ps patterns_compile_def by (auto split: if_splits)
  qed
  show "spec_covered E ps c \<longleftrightarrow> (\<exists>r \<in> set (rules_with [K8sEffectAllow, K8sEffectRequireApproval] rules). rx_match E (rule_rx t r) c)"
    unfolding ps al de by (auto simp: spec_covered_def empty_policy_def)
  show "spec_denied E ps c \<longleftrightarrow> (\<exists>r \<in> set (rules_with [K8sEffectDeny] rules). rx_match E (rule_rx t r) c)"
    unfolding ps al de by (auto simp: spec_denied_def empty_policy_def)
  show "spec_needs_approval E ps c \<longleftrightarrow> (\<exists>r \<in> set (rules_with [K8sEffectRequireApproval] rules). rx_match E (rule_rx t r) c)"
    unfolding ps al de by (auto simp: spec_needs_approval_def empty_policy_def)
qed

lemma rule_rx_match:
  assumes "compile_k8s_rule r t = Inr re" and "rx_engine E" and "rx_compile E (rule_rx t r) \<noteq> None"
    and "table_ok t" and "action_ok a" and "normalized t a"
  shows "rx_match E (rule_rx t r) (k8s_canonical a) \<longleftrightarrow> rule_covers r a"
proof -
  from assms(1) obtain f where f: "rule_frags r t = Inr f" "re = rule_regex f"
    by (auto simp: compile_k8s_rule_def split: sum.splits)
  then have "rule_rx t r = rule_regex f" using assms(1) by (simp add: rule_rx_def)
  then show ?thesis
    using rule_regex_fields [OF assms(2) f(1) _ canonical_ascii [OF assms(5)]] rule_matches_iff_covers [OF f(1) assms(4-6)] assms(3) by simp
qed

lemma compile_cluster_Inr:
  assumes "compile_cluster E V cp = Inr c"
  shows "600 \<le> cl_token_ttl_seconds c" and "cl_token_ttl_seconds c \<le> 900" and "cl_sa_bindings c \<noteq> []"
    and "k8s_resources (cl_extra_resources c) = Inr (cl_resources c)"
    and "compile_k8s_rules E (cl_rules c) (cl_resources c) = Inr (cl_policies c)"
    and "parse_ca_bundle V (the (read_file V (cl_ca_cert c))) = Some (cl_ca_pem c)"
  using assms by (auto simp: compile_cluster_def Let_def split: if_splits option.splits sum.splits)

lemma k8s_gates_None:
  assumes "k8s_gates cp i a = None"
  shows "k8s_validate a = None" and "\<not> in_sudo i" and "\<not> in_pty i" and "\<not> in_file_transfer i"
    and "in_purpose i = PurposeOneshot" and "in_role i = RoleTarget"
    and "caller_allowed (cl_allowed_callers cp) (in_caller i)"
    and "in_end_user_groups i = Some gs \<Longrightarrow> groups_intersect (cl_groups cp) gs"
  using assms by (auto simp: k8s_gates_def split: option.splits if_splits)

lemma resolve_k8s_ok:
  assumes "resolve_k8s E ct gs i now = (d, res, None)"
  obtains cp raw def where "map_of ct (in_host i) = Some cp" and "in_k8s i = Some raw"
    and "k8s_gates cp i raw = None"
    and "k8s_resolve (cl_resources cp) (ka_resource raw) (ka_group raw) = Inr def"
    and "in_command i = k8s_canonical (normalize_action def raw)"
    and "resolve_command_policy E gs (cluster_host (cl_policies cp)) i now = (res, None)"
    and "de_k8s_action d = Some (normalize_action def raw)"
    and "de_require_approval d = cr_require_approval res"
  using assms that
  by (auto simp: resolve_k8s_def Let_def split: option.splits sum.splits prod.splits if_splits)

lemma normalize_ok:
  assumes "k8s_resolve t (ka_resource raw) (ka_group raw) = Inr def" and "table_ok t" and "action_ok raw"
  shows "action_ok (normalize_action def raw)" and "normalized t (normalize_action def raw)"
  using k8s_resolve_table [OF assms(1,2)] assms(3)
  by (auto simp: normalize_action_def action_ok_def normalized_def Let_def)

lemma effective_cluster_host: "ps \<noteq> [] \<Longrightarrow> effective_policies (cluster_host ps) = ps"
  by (simp add: effective_policies_def cluster_host_def)

lemma binding_for_find: "binding_for bs gs = List.find (\<lambda>b. sb_groups b = [] \<or> groups_intersect (sb_groups b) gs) bs"
  by (induction bs) auto

lemma binding_for_Some:
  "binding_for bs gs = Some b \<Longrightarrow> b \<in> set bs \<and> (sb_groups b = [] \<or> groups_intersect (sb_groups b) gs)"
  by (auto simp: binding_for_find find_Some_iff)

section \<open>Properties\<close>

text \<open>
  C36: the compiled rules of a cluster mean what the rules say. For a validated action normalized by the
  cluster's table, the compiled policy set allows its canonical form exactly when some allow or
  require_approval rule covers the action field by field and no deny rule does, and it asks for approval
  exactly when a require_approval rule covers it: no quoting, wildcard or order can widen a rule. The
  expressions are judged by their text: the library is only assumed to read anchors, escaped literals,
  alternatives and the three character classes of an expression it compiles as its documentation says, and to
  search anywhere in an ASCII text;
  the shell parser is assumed to read the canonical action as its three words.
\<close>

theorem k8s_rules_meaning:
  assumes c: "compile_k8s_rules E rules t = Inr ps" and t: "k8s_resources extra = Inr t"
    and a: "k8s_validate a = None" and n: "normalized t a"
    and rx: "rx_engine E"
    and sh: "parses_words E (k8s_canonical a) (canonical_words a)"
  shows "(verdict_allowed (ps_decide E ps (k8s_canonical a)) \<longleftrightarrow>
      (\<exists>r \<in> set rules. (kr_effect r = K8sEffectAllow \<or> kr_effect r = K8sEffectRequireApproval) \<and> rule_covers r a)
      \<and> \<not> (\<exists>r \<in> set rules. kr_effect r = K8sEffectDeny \<and> rule_covers r a))
    \<and> (verdict_allowed (ps_decide E ps (k8s_canonical a)) \<longrightarrow>
        (verdict_needs (ps_decide E ps (k8s_canonical a)) \<longleftrightarrow>
           (\<exists>r \<in> set rules. kr_effect r = K8sEffectRequireApproval \<and> rule_covers r a)))"
proof -
  note k = compile_k8s_rules_Inr [OF c]
  have ok: "action_ok a" and table: "table_ok t" using k8s_validate_ok [OF a] k8s_resources_ok [OF t] by auto
  have cmds: "policy_commands E ps (k8s_canonical a) = Inr [k8s_canonical a]"
    using canonical_extract [OF ok sh] k(4) by (simp add: policy_commands_def)
  have m: "rx_match E (rule_rx t r) (k8s_canonical a) = rule_covers r a"
    if "r \<in> set rules" "kr_effect r \<in> {K8sEffectAllow, K8sEffectDeny, K8sEffectRequireApproval}" for r
    using rule_rx_match [OF _ _ _ table ok n] k(1,7) rx that by blast
  have "verdict_allowed (ps_decide E ps (k8s_canonical a)) \<longleftrightarrow>
      \<not> spec_denied E ps (k8s_canonical a) \<and> spec_covered E ps (k8s_canonical a)"
    using ps_decide_allowed [OF k(3)] cmds decide_one_compiled(1) [OF ps_validate_compiles [OF k(2)]] by simp
  moreover have "verdict_needs (ps_decide E ps (k8s_canonical a)) \<longleftrightarrow>
      \<not> spec_denied E ps (k8s_canonical a) \<and> spec_needs_approval E ps (k8s_canonical a)"
    if "verdict_allowed (ps_decide E ps (k8s_canonical a))"
    using ps_decide_needs [OF k(3) cmds that] decide_one_compiled(2) [OF ps_validate_compiles [OF k(2)]] by simp
  ultimately show ?thesis
    unfolding k(8-10) using m by (auto simp: rules_with_def)
qed

text \<open>
  What the approver sees is what runs. On a compiled cluster, a decision without error is about one
  normalized action: the command the policy matched, the audit records and the human reads is exactly
  its canonical form, the caller and the end user's groups are admitted, no SSH option is set, the
  cluster's policies (with live grants) allow it, and approval is asked for exactly when required and
  not waived.
\<close>

theorem k8s_decision_sound:
  assumes ok: "resolve_k8s E ct gs i now = (d, res, None)" and cp: "map_of ct (in_host i) = Some cp"
    and compiled: "compile_cluster E V cp0 = Inr cp"
  shows "\<exists>a. de_k8s_action d = Some a \<and> in_command i = k8s_canonical a \<and> normalized (cl_resources cp) a
    \<and> caller_allowed (cl_allowed_callers cp) (in_caller i) \<and> \<not> in_sudo i \<and> \<not> in_pty i
    \<and> (case in_end_user_groups i of None \<Rightarrow> True | Some g \<Rightarrow> groups_intersect (cl_groups cp) g)
    \<and> verdict_allowed (ps_decide E (widened_policies gs (cluster_host (cl_policies cp)) i now) (k8s_canonical a))
    \<and> (de_require_approval d \<longleftrightarrow>
         verdict_needs (ps_decide E (widened_policies gs (cluster_host (cl_policies cp)) i now) (k8s_canonical a))
         \<and> \<not> waived gs i now)"
proof -
  from ok cp obtain raw def where gates: "k8s_gates cp i raw = None"
    and res: "k8s_resolve (cl_resources cp) (ka_resource raw) (ka_group raw) = Inr def"
    and cmd: "in_command i = k8s_canonical (normalize_action def raw)"
    and rcp: "resolve_command_policy E gs (cluster_host (cl_policies cp)) i now = (res, None)"
    and d: "de_k8s_action d = Some (normalize_action def raw)" "de_require_approval d = cr_require_approval res"
    by (auto elim: resolve_k8s_ok)
  note c = compile_cluster_Inr [OF compiled]
  note p = compile_k8s_rules_Inr [OF c(5)]
  note g = k8s_gates_None [OF gates]
  have eff: "effective_policies (cluster_host (cl_policies cp)) = cl_policies cp"
    using p(3) by (rule effective_cluster_host)
  have r: "ps_restricts (widened_policies gs (cluster_host (cl_policies cp)) i now)"
    "ps_enforcement (widened_policies gs (cluster_host (cl_policies cp)) i now) \<noteq> CmdPolicyAudit"
    using p(5,6) by (simp_all add: widened_restricts widened_enforcement eff allowlist_restricts)
  have "normalized (cl_resources cp) (normalize_action def raw)"
    using normalize_ok(2) [OF res k8s_resources_ok [OF c(4)] k8s_validate_ok [OF g(1)]] .
  moreover have "case in_end_user_groups i of None \<Rightarrow> True | Some g \<Rightarrow> groups_intersect (cl_groups cp) g"
    using g(8) by (auto split: option.splits)
  ultimately show ?thesis
    using command_policy_ok(2) [OF rcp g(6) r] g d cmd by auto
qed

section \<open>Witnesses\<close>

definition example_rules :: "k8s_rule list" where
  "example_rules =
     [\<lparr>kr_verbs = [''get'', ''list''], kr_resources = [''pods''], kr_namespaces = [''prod''], kr_names = [], kr_effect = ''allow''\<rparr>]"

definition example_resources :: resource_table where
  "example_resources = fold (\<lambda>r t. AList.update (rd_resource r) r t) core_resources []"

definition example_frags :: "k8s_frag \<times> k8s_frag \<times> k8s_frag \<times> k8s_frag" where
  "example_frags = (FragOneOf [''get'', ''list''], FragOneOf [''pods''], FragOneOf [''prod''], FragAny wild_token)"

definition example_k8s_env :: go_env where
  "example_k8s_env = example_env\<lparr>rx_compile := (\<lambda>p. map_option rx_search (rx_items p))\<rparr>"

lemma example_engine: "rx_engine example_k8s_env"
  by (auto simp: rx_engine_def example_k8s_env_def)

lemma example_frags_compiled: "rule_frags (hd example_rules) example_resources = Inr example_frags"
  by code_simp

lemma example_expression: "\<exists>p. rx_compile example_k8s_env (rule_regex example_frags) = Some p"
  unfolding example_frags_def example_k8s_env_def by (simp add: rx_items_rule)

lemma example_rules_compiled:
  "compile_k8s_rules example_k8s_env example_rules example_resources = Inr
     [(empty_policy CmdPolicyAllowlist)\<lparr>cp_allow := [rule_regex example_frags]\<rparr>]"
proof -
  have "compile_k8s_rule (hd example_rules) example_resources = Inr (rule_regex example_frags)"
    by (simp add: compile_k8s_rule_def example_frags_compiled)
  with example_expression show ?thesis
    by (auto simp: compile_k8s_rules_def example_rules_def empty_policy_def Let_def cp_validate_def
        validate_mode_def)
qed

lemma example_parses: "parses_words example_k8s_env (k8s_canonical example_action) (canonical_words example_action)"
proof -
  have f: "go_fields (k8s_canonical example_action) = canonical_words example_action" by code_simp
  have w: "w \<in> set (canonical_words example_action) \<Longrightarrow> example_literal [Lit w] = Inr w" for w by simp
  let ?f = "\<lparr>file_walk = [CallExprNode [] (map (\<lambda>w. [Lit w]) (canonical_words example_action))],
     file_stmts = [\<lparr>stmt_negated = False, stmt_background = False, stmt_coprocess = False,
       stmt_redirs = [], stmt_cmd = CallCmd [] (map (\<lambda>w. [Lit w]) (canonical_words example_action))\<rparr>]\<rparr>"
  have "sh_parse example_k8s_env (k8s_canonical example_action) = Inr ?f"
    by (simp add: example_k8s_env_def example_env_def example_parse_def Let_def f)
  moreover have "file_walk ?f = replicate 0 OtherNode @ CallExprNode [] (map (\<lambda>w. [Lit w]) (canonical_words example_action))
      # replicate 0 OtherNode" by simp
  ultimately have "\<exists>f k l. sh_parse example_k8s_env (k8s_canonical example_action) = Inr f
      \<and> file_walk f = replicate k OtherNode @ CallExprNode [] (map (\<lambda>w. [Lit w]) (canonical_words example_action))
          # replicate l OtherNode" by blast
  then show ?thesis
    unfolding parses_words_def using w by (simp add: example_k8s_env_def example_env_def)
qed

theorem k8s_rules_meaning_witness:
  "verdict_allowed (ps_decide example_k8s_env
     [(empty_policy CmdPolicyAllowlist)\<lparr>cp_allow := [rule_regex example_frags]\<rparr>] (k8s_canonical example_action))"
proof -
  have t: "k8s_resources [] = Inr example_resources" by (simp add: k8s_resources_def example_resources_def)
  have a: "k8s_validate example_action = None" "normalized example_resources example_action" by code_simp+
  have "\<exists>r \<in> set example_rules. kr_effect r = K8sEffectAllow \<and> rule_covers r example_action"
    "\<not> (\<exists>r \<in> set example_rules. kr_effect r = K8sEffectDeny \<and> rule_covers r example_action)"
    by code_simp+
  with k8s_rules_meaning [OF example_rules_compiled t a example_engine example_parses] show ?thesis by blast
qed

text \<open>A cluster that compiles, and a request on it.\<close>

definition example_cluster_env :: cluster_env where
  "example_cluster_env = \<lparr>url_https = (\<lambda>u. has_prefix u ''https://''), read_file = (\<lambda>_. Some ''x''),
     stat_ok = (\<lambda>_. True), pem_blocks = (\<lambda>s. [(''CERTIFICATE'', s)]), x509_parses = (\<lambda>_. True),
     pem_encode = (\<lambda>s. s), pool_accepts = (\<lambda>_. True)\<rparr>"

definition example_cluster :: cluster_policy where
  "example_cluster = \<lparr>cl_api_server = ''https://k'', cl_ca_cert = ''ca'', cl_token_file = ''tok'',
     cl_token_ttl_seconds = 0, cl_groups = [], cl_allowed_callers = [],
     cl_sa_bindings = [\<lparr>sb_groups = [], sb_namespace = ''ib'', sb_service_account = ''reader''\<rparr>],
     cl_rules = example_rules, cl_extra_resources = [], cl_policies = [], cl_resources = [], cl_ca_pem = []\<rparr>"

definition compiled_cluster :: cluster_policy where
  "compiled_cluster = example_cluster\<lparr>cl_token_ttl_seconds := 600, cl_ca_pem := ''x'',
     cl_resources := example_resources,
     cl_policies := [(empty_policy CmdPolicyAllowlist)\<lparr>cp_allow := [rule_regex example_frags]\<rparr>]\<rparr>"

definition example_k8s_intent :: intent where
  "example_k8s_intent = (plain_intent ''b1'' ''k1'' ''get pods prod/web-1'')
     \<lparr>in_target_type := TargetTypeK8s, in_k8s := Some example_action\<rparr>"

lemma example_cluster_compiled: "compile_cluster example_k8s_env example_cluster_env example_cluster = Inr compiled_cluster"
proof -
  have "first_bad_binding 0 (cl_sa_bindings example_cluster) = None" by code_simp
  moreover have "k8s_resources [] = Inr example_resources" by (simp add: k8s_resources_def example_resources_def)
  moreover note example_rules_compiled
  ultimately show ?thesis
    by (simp add: compile_cluster_def example_cluster_env_def example_cluster_def compiled_cluster_def
        parse_ca_bundle_def has_prefix_def)
qed

lemma example_k8s_policies_decide:
  "ps_decide example_k8s_env [(empty_policy CmdPolicyAllowlist)\<lparr>cp_allow := [rule_regex example_frags]\<rparr>]
     (k8s_canonical example_action) = (True, False, AllowRule (rule_regex example_frags), None)"
proof -
  have ok: "action_ok example_action" by code_simp
  have "normalized example_resources example_action" "rule_covers (hd example_rules) example_action"
    by code_simp+
  moreover have "table_ok example_resources" using table_ok_core by (simp add: example_resources_def)
  ultimately have m: "fields_match example_frags (k8s_canonical example_action)"
    using rule_matches_iff_covers [OF example_frags_compiled _ ok] by blast
  obtain p where rx: "rx_compile example_k8s_env (rule_regex example_frags) = Some p" "p (k8s_canonical example_action)"
    using example_expression m rule_regex_fields [OF example_engine example_frags_compiled _ canonical_ascii [OF ok]]
    by (auto simp: rx_match_def)
  show ?thesis
    using m rx canonical_extract [OF ok example_parses]
    by (simp add: ps_decide_def ps_shell_parse_def cp_parse_commands_def empty_policy_def decide_one_def Let_def)
qed

lemma example_k8s_resolves:
  "\<exists>d res. resolve_k8s example_k8s_env [(''k1'', compiled_cluster)] None example_k8s_intent 0 = (d, res, None)
     \<and> \<not> de_require_approval d"
proof -
  let ?cp = compiled_cluster
  have g: "k8s_gates ?cp example_k8s_intent example_action = None"
    unfolding compiled_cluster_def by code_simp
  have r: "k8s_resolve example_resources ''pods'' [] = Inr (core_entry ''pods'' [] ''Pod'' True)" by code_simp
  have n: "normalize_action (core_entry ''pods'' [] ''Pod'' True) example_action = example_action" by code_simp
  have c: "in_command example_k8s_intent = k8s_canonical example_action" by code_simp
  have eff: "widened_policies None (cluster_host (cl_policies ?cp)) example_k8s_intent 0 = cl_policies ?cp"
    by (simp add: widened_policies_def effective_policies_def cluster_host_def compiled_cluster_def Let_def)
  have "resolve_command_policy example_k8s_env None (cluster_host (cl_policies ?cp)) example_k8s_intent 0
      = (zero_cp_result\<lparr>cr_enforcement := CmdPolicyEnforce, cr_matched_rule := AllowRule (rule_regex example_frags)\<rparr>, None)"
    unfolding resolve_command_policy_def eff c
    by (simp add: compiled_cluster_def example_k8s_policies_decide Let_def ps_restricts_def cp_restricts_def
        cp_active_def ps_enforcement_def zero_cp_result_def)
      (simp add: empty_policy_def example_k8s_intent_def plain_intent_def)
  then show ?thesis
    using g r n c
    by (simp add: resolve_k8s_def Let_def example_k8s_intent_def plain_intent_def zero_decision_def zero_cp_result_def)
      (simp add: compiled_cluster_def example_action_def)
qed

theorem k8s_decision_sound_witness:
  "verdict_allowed (ps_decide example_k8s_env
     (widened_policies None (cluster_host (cl_policies compiled_cluster)) example_k8s_intent 0)
     (in_command example_k8s_intent))"
proof -
  obtain d res where ok: "resolve_k8s example_k8s_env [(''k1'', compiled_cluster)] None example_k8s_intent 0 = (d, res, None)"
    using example_k8s_resolves by blast
  have cp: "map_of [(''k1'', compiled_cluster)] (in_host example_k8s_intent) = Some compiled_cluster"
    by (simp add: example_k8s_intent_def plain_intent_def)
  from k8s_decision_sound [OF ok cp example_cluster_compiled] show ?thesis by auto
qed

end
