(* ===== verification/Policy_Recommend.thy ===== *)
theory Policy_Recommend
  imports K8s_Policy Audit_Log "HOL-Library.Option_ord"
begin

text \<open>
  \<open>internal/policyrec/policyrec.go\<close>: recommendations drawn from the audit log. Every observed command is decided again by the
  policy of today; what ran although it would be denied is proposed for the allowlist, what was refused is reported as friction, patterns
  that were never the matching rule are reported as dead.

  A time is None when it is the zero time of Go, which is before every other. The order in which Go visits a map is the order of the list.
  \<open>ruleArg\<close> reads the pattern out of a rule text that starts with \<open>allow:\<close> or \<open>deny:\<close>; rules are values here and it is a case distinction.
\<close>

section \<open>Data\<close>

datatype suggestion_type = Promote | DeadRule | Friction

record suggestion =
  su_type :: suggestion_type
  su_host :: string
  su_pattern :: string
  su_count :: int
  su_callers :: int
  su_approved :: int
  su_first :: "go_time option"
  su_last :: "go_time option"
  su_samples :: "string list"

record rec_options =
  ro_host :: string
  ro_since :: "go_time option"
  ro_min_count :: int

text \<open>The two maps of a stat are made at the first observation: \<open>rt_callers\<close> is None before it.\<close>

record rec_stat =
  rt_count :: int
  rt_approved :: int
  rt_callers :: "string list option"
  rt_seen :: "string list"
  rt_first :: "go_time option"
  rt_last :: "go_time option"
  rt_samples :: "string list"

type_synonym rec_key = "string \<times> string"

definition zero_stat :: rec_stat where
  "zero_stat = \<lparr>rt_count = 0, rt_approved = 0, rt_callers = None, rt_seen = [], rt_first = None, rt_last = None, rt_samples = []\<rparr>"

section \<open>Observations\<close>

definition time_before :: "go_time option \<Rightarrow> go_time option \<Rightarrow> bool" where
  "time_before a b = (case b of None \<Rightarrow> False | Some y \<Rightarrow> (case a of None \<Rightarrow> True | Some x \<Rightarrow> x < y))"

definition bump_times :: "go_time option \<Rightarrow> rec_stat \<Rightarrow> rec_stat" where
  "bump_times t s =
     (let s = (if time_before t (rt_first s) then s\<lparr>rt_first := t\<rparr> else s)
      in if time_before (rt_last s) t then s\<lparr>rt_last := t\<rparr> else s)"

definition add_sample :: "string \<Rightarrow> rec_stat \<Rightarrow> rec_stat" where
  "add_sample c s = (if length (rt_samples s) < 3 \<and> c \<notin> set (rt_samples s) then s\<lparr>rt_samples := rt_samples s @ [c]\<rparr> else s)"

definition add_caller :: "string \<Rightarrow> rec_stat \<Rightarrow> rec_stat" where
  "add_caller c s = s\<lparr>rt_callers := map_option (List.insert c) (rt_callers s)\<rparr>"

definition rec_observe :: "entry \<Rightarrow> bool \<Rightarrow> rec_stat \<Rightarrow> rec_stat" where
  "rec_observe e approved s =
     (let s = (if rt_callers s = None then s\<lparr>rt_callers := Some [], rt_seen := [], rt_first := en_time e\<rparr> else s);
          seen = (\<lambda>s. add_sample (en_command e) (bump_times (en_time e) (add_caller (en_caller e) s)))
      in if en_approval_id e \<noteq> [] \<and> en_approval_id e \<in> set (rt_seen s) then seen s
         else let s = (if en_approval_id e \<noteq> [] then s\<lparr>rt_seen := en_approval_id e # rt_seen s\<rparr> else s);
                  s = s\<lparr>rt_count := rt_count s + 1, rt_approved := (if approved then rt_approved s + 1 else rt_approved s)\<rparr>
              in seen s)"

definition is_approval_grant :: "string \<Rightarrow> bool" where
  "is_approval_grant outcome \<longleftrightarrow> outcome \<in> {''approval-granted'', ''approval-decision-allow'', ''approval-decision-allow-learn''}"

definition stat_at :: "(rec_key, rec_stat) go_map \<Rightarrow> rec_key \<Rightarrow> rec_stat" where
  "stat_at m k = (case map_of m k of None \<Rightarrow> zero_stat | Some s \<Rightarrow> s)"

section \<open>Recommend\<close>

record rec_state =
  rs_promote :: "(rec_key, rec_stat) go_map"
  rs_friction :: "(rec_key, rec_stat) go_map"
  rs_used :: "rec_key list"

definition rule_used :: "string \<Rightarrow> cmd_rule \<Rightarrow> rec_key list" where
  "rule_used host rule = (case rule of AllowRule pat \<Rightarrow> [(host, pat)] | DenyRule pat \<Rightarrow> [(host, pat)] | _ \<Rightarrow> [])"

definition in_scope :: "rec_options \<Rightarrow> entry \<Rightarrow> bool" where
  "in_scope opts e \<longleftrightarrow> en_command e \<noteq> [] \<and> en_host e \<noteq> [] \<and> (ro_host opts = [] \<or> en_host e = ro_host opts)
     \<and> (ro_since opts = None \<or> \<not> time_before (en_time e) (ro_since opts))"

definition entry_ran :: "entry \<Rightarrow> bool" where
  "entry_ran e \<longleftrightarrow> is_approval_grant (en_outcome e) \<or> en_outcome e = ''executed'' \<or> en_outcome e = ''session_exec'' \<or> en_outcome e = ''dry_run_allowed''"

definition entry_refused :: "entry \<Rightarrow> bool" where
  "entry_refused e \<longleftrightarrow> en_outcome e = ''denied'' \<or> en_outcome e = ''session_exec_denied'' \<or> en_outcome e = ''dry_run_denied''"

text \<open>One round of the loop over the entries.\<close>

definition recommend_entry :: "go_env \<Rightarrow> policy_table \<Rightarrow> rec_options \<Rightarrow> entry \<Rightarrow> rec_state \<Rightarrow> rec_state" where
  "recommend_entry E tbl opts e st =
     (if \<not> in_scope opts e then st
      else case map_of tbl (en_host e) of
        None \<Rightarrow> st
      | Some hp \<Rightarrow>
          (case ps_decide E (case hp_policies hp of None \<Rightarrow> [] | Some ps \<Rightarrow> ps) (en_command e) of
             (allowed, needs, rule, err) \<Rightarrow>
               (if err \<noteq> None then st
                else let st = st\<lparr>rs_used := rule_used (en_host e) rule @ rs_used st\<rparr>;
                         k = (en_host e, en_command e);
                         observed = (\<lambda>m. AList.update k (rec_observe e (is_approval_grant (en_outcome e)) (stat_at m k)) m)
                     in if \<not> allowed \<and> entry_ran e then st\<lparr>rs_promote := observed (rs_promote st)\<rparr>
                        else if \<not> allowed \<and> entry_refused e then st\<lparr>rs_friction := observed (rs_friction st)\<rparr>
                        else st)))"

definition build_cmd :: "suggestion_type \<Rightarrow> (rec_key, rec_stat) go_map \<Rightarrow> int \<Rightarrow> bool \<Rightarrow> suggestion list" where
  "build_cmd t m min_count anchor =
     map (\<lambda>((host, item), s). \<lparr>su_type = t, su_host = host, su_pattern = (if anchor then ''^'' @ quote_meta item @ ''$'' else item),
            su_count = rt_count s, su_callers = (case rt_callers s of None \<Rightarrow> 0 | Some cs \<Rightarrow> int (length cs)), su_approved = rt_approved s,
            su_first = rt_first s, su_last = rt_last s, su_samples = rt_samples s\<rparr>)
       (filter (\<lambda>(k, s). min_count \<le> rt_count s) m)"

definition dead_rule :: "string \<Rightarrow> string \<Rightarrow> suggestion" where
  "dead_rule host pat = \<lparr>su_type = DeadRule, su_host = host, su_pattern = pat, su_count = 0, su_callers = 0, su_approved = 0,
     su_first = None, su_last = None, su_samples = []\<rparr>"

definition build_dead_rules :: "policy_table \<Rightarrow> rec_key list \<Rightarrow> rec_options \<Rightarrow> suggestion list" where
  "build_dead_rules tbl used opts =
     concat (map (\<lambda>(host, hp).
        if ro_host opts \<noteq> [] \<and> host \<noteq> ro_host opts then []
        else concat (map (\<lambda>cp. concat (map (\<lambda>pats. map (dead_rule host) (filter (\<lambda>pat. (host, pat) \<notin> set used) pats)) [cp_allow cp, cp_deny cp]))
               (case hp_policies hp of None \<Rightarrow> [] | Some ps \<Rightarrow> ps))) tbl)"

text \<open>\<open>sort.SliceStable\<close>: more support first, then the name of the host.\<close>

definition ranked :: "suggestion list \<Rightarrow> suggestion list" where
  "ranked = sort_key (\<lambda>s. (- su_count s, su_host s))"

definition recommend :: "go_env \<Rightarrow> entry list \<Rightarrow> policy_table \<Rightarrow> rec_options \<Rightarrow> suggestion list" where
  "recommend E entries tbl opts =
     (let opts = (if ro_min_count opts < 1 then opts\<lparr>ro_min_count := 1\<rparr> else opts);
          st = fold (recommend_entry E tbl opts) entries \<lparr>rs_promote = [], rs_friction = [], rs_used = []\<rparr>
      in ranked (build_cmd Promote (rs_promote st) (ro_min_count opts) True @ build_cmd Friction (rs_friction st) (ro_min_count opts) False
           @ build_dead_rules tbl (rs_used st) opts))"

section \<open>What the numbers mean\<close>

text \<open>
  The specification: the evidence for a command on a host is the list of the entries about it that count; its support is the number of entries without an
  approval together with the number of distinct approvals.
\<close>

definition host_verdict :: "go_env \<Rightarrow> policy_table \<Rightarrow> entry \<Rightarrow> cmd_verdict option" where
  "host_verdict E tbl e =
     (case map_of tbl (en_host e) of None \<Rightarrow> None
      | Some hp \<Rightarrow> Some (ps_decide E (case hp_policies hp of None \<Rightarrow> [] | Some ps \<Rightarrow> ps) (en_command e)))"

definition denied_now :: "go_env \<Rightarrow> policy_table \<Rightarrow> rec_options \<Rightarrow> entry \<Rightarrow> bool" where
  "denied_now E tbl opts e \<longleftrightarrow> in_scope opts e \<and> (\<exists>v. host_verdict E tbl e = Some v \<and> verdict_err v = None \<and> \<not> verdict_allowed v)"

definition evidence :: "(entry \<Rightarrow> bool) \<Rightarrow> rec_key \<Rightarrow> entry list \<Rightarrow> entry list" where
  "evidence P k es = filter (\<lambda>e. P e \<and> (en_host e, en_command e) = k) es"

definition approvals_in :: "entry list \<Rightarrow> string set" where
  "approvals_in es = en_approval_id ` set es - {[]}"

definition support :: "entry list \<Rightarrow> nat" where
  "support es = length (filter (\<lambda>e. en_approval_id e = []) es) + card (approvals_in es)"

definition is_grant :: "entry \<Rightarrow> bool" where
  "is_grant e = is_approval_grant (en_outcome e)"

definition approved_support :: "entry list \<Rightarrow> nat" where
  "approved_support es = length (filter (\<lambda>e. en_approval_id e = [] \<and> is_grant e) es)
     + card {x \<in> approvals_in es. \<exists>e. List.find (\<lambda>e. en_approval_id e = x) es = Some e \<and> is_grant e}"

definition suggestion_for :: "suggestion_type \<Rightarrow> string \<Rightarrow> string \<Rightarrow> string \<Rightarrow> entry list \<Rightarrow> suggestion" where
  "suggestion_for t host command pat es = \<lparr>su_type = t, su_host = host, su_pattern = pat, su_count = int (support es),
     su_callers = int (card (en_caller ` set es)), su_approved = int (approved_support es),
     su_first = Min (en_time ` set es), su_last = Max (en_time ` set es), su_samples = [command]\<rparr>"

lemma time_before_less: "time_before a b \<longleftrightarrow> a < b"
  by (cases a; cases b) (simp_all add: time_before_def)

definition observe_all :: "entry list \<Rightarrow> rec_stat" where
  "observe_all es = fold (\<lambda>e. rec_observe e (is_grant e)) es zero_stat"

lemma find_append: "List.find P (xs @ ys) = (case List.find P xs of None \<Rightarrow> List.find P ys | Some x \<Rightarrow> Some x)"
  by (induction xs) auto

lemma find_approval: "x \<in> approvals_in es \<Longrightarrow> \<exists>e. List.find (\<lambda>e. en_approval_id e = x) es = Some e"
  by (induction es) (auto simp: approvals_in_def)

lemma approvals_in_snoc: "approvals_in (es @ [e]) = (if en_approval_id e = [] then approvals_in es else insert (en_approval_id e) (approvals_in es))"
  by (auto simp: approvals_in_def)

lemma finite_approvals [simp]: "finite (approvals_in es)"
  by (simp add: approvals_in_def)

lemma support_snoc:
  "support (es @ [e]) = (if en_approval_id e \<noteq> [] \<and> en_approval_id e \<in> approvals_in es then support es else support es + 1)"
  by (auto simp: support_def approvals_in_snoc insert_absorb)

lemma approved_support_snoc:
  "approved_support (es @ [e]) = (if en_approval_id e \<noteq> [] \<and> en_approval_id e \<in> approvals_in es \<or> \<not> is_grant e then approved_support es else approved_support es + 1)"
proof -
  let ?A = "\<lambda>es. {x \<in> approvals_in es. \<exists>e. List.find (\<lambda>e. en_approval_id e = x) es = Some e \<and> is_grant e}"
  have old: "List.find (\<lambda>e. en_approval_id e = x) (es @ [e]) = List.find (\<lambda>e. en_approval_id e = x) es" if "x \<in> approvals_in es" for x
    using find_approval [OF that] by (auto simp: find_append)
  have new: "List.find (\<lambda>a. en_approval_id a = en_approval_id e) (es @ [e]) = Some e" if "en_approval_id e \<noteq> []" "en_approval_id e \<notin> approvals_in es"
  proof -
    have "List.find (\<lambda>a. en_approval_id a = en_approval_id e) es = None" using that by (auto simp: find_None_iff approvals_in_def) (metis image_eqI)
    then show ?thesis by (simp add: find_append)
  qed
  consider "en_approval_id e = []" | "en_approval_id e \<noteq> []" "en_approval_id e \<in> approvals_in es" | "en_approval_id e \<noteq> []" "en_approval_id e \<notin> approvals_in es" by blast
  then show ?thesis
  proof cases
    case 1
    then have "?A (es @ [e]) = ?A es" using old by (auto simp: approvals_in_snoc)
    then show ?thesis using 1 by (simp add: approved_support_def)
  next
    case 2
    then have "?A (es @ [e]) = ?A es" using old by (auto simp: approvals_in_snoc insert_absorb)
    then show ?thesis using 2 by (simp add: approved_support_def)
  next
    case 3
    then have "?A (es @ [e]) = (if is_grant e then insert (en_approval_id e) (?A es) else ?A es)"
      using old new by (auto simp: approvals_in_snoc)
    moreover have "finite (?A es)" "en_approval_id e \<notin> ?A es" using 3 by simp_all
    ultimately show ?thesis using 3 by (simp add: approved_support_def)
  qed
qed

text \<open>What the observations of a list of entries about one command leave in its stat.\<close>

definition stat_of :: "string \<Rightarrow> entry list \<Rightarrow> rec_stat \<Rightarrow> bool" where
  "stat_of c es s \<longleftrightarrow> (\<exists>cs. rt_callers s = Some cs \<and> distinct cs \<and> set cs = en_caller ` set es) \<and> set (rt_seen s) = approvals_in es
     \<and> rt_count s = int (support es) \<and> rt_approved s = int (approved_support es)
     \<and> rt_first s = Min (en_time ` set es) \<and> rt_last s = Max (en_time ` set es) \<and> rt_samples s = [c]"

lemma stat_first: "en_command e = c \<Longrightarrow> stat_of c [e] (rec_observe e (is_grant e) zero_stat)"
proof -
  assume c: "en_command e = c"
  have l: "rt_last (rec_observe e (is_grant e) zero_stat) = en_time e" "rt_first (rec_observe e (is_grant e) zero_stat) = en_time e"
    by (cases "en_time e"; simp add: rec_observe_def zero_stat_def bump_times_def add_sample_def add_caller_def time_before_def Let_def)+
  have "approved_support [e] = (if is_grant e then 1 else 0)" "support [e] = 1"
    using approved_support_snoc [of "[]" e] support_snoc [of "[]" e] by (auto simp: approved_support_def support_def approvals_in_def)
  then show ?thesis using c l
    by (auto simp: stat_of_def rec_observe_def zero_stat_def bump_times_def add_sample_def add_caller_def approvals_in_def Let_def)
qed

lemma min_less_form: "min a b = (if a < b then a else (b :: 'a :: linorder))" and max_less_form: "max a b = (if b < a then a else (b :: 'a :: linorder))"
  by (auto simp: min_def max_def)

lemma times_snoc:
  assumes "es \<noteq> []"
  shows "Min (en_time ` set (es @ [e])) = (if en_time e < Min (en_time ` set es) then en_time e else Min (en_time ` set es))"
    "Max (en_time ` set (es @ [e])) = (if Max (en_time ` set es) < en_time e then en_time e else Max (en_time ` set es))"
proof -
  have "en_time ` set (es @ [e]) = insert (en_time e) (en_time ` set es)" by auto
  then show "Min (en_time ` set (es @ [e])) = (if en_time e < Min (en_time ` set es) then en_time e else Min (en_time ` set es))"
    "Max (en_time ` set (es @ [e])) = (if Max (en_time ` set es) < en_time e then en_time e else Max (en_time ` set es))"
    using assms Min_insert [of "en_time ` set es" "en_time e"] Max_insert [of "en_time ` set es" "en_time e"]
    unfolding min_less_form max_less_form by (simp_all only: finite_imageI finite_set image_is_empty set_empty not_False_eq_True simp_thms)
qed

lemma stat_snoc:
  assumes "stat_of c es s" and "es \<noteq> []" and "en_command e = c"
  shows "stat_of c (es @ [e]) (rec_observe e (is_grant e) s)"
proof -
  obtain cs where cs: "rt_callers s = Some cs" "distinct cs" "set cs = en_caller ` set es" using assms(1) by (auto simp: stat_of_def)
  let ?s = "rec_observe e (is_grant e) s"
  have "rt_callers ?s = Some (List.insert (en_caller e) cs)" "rt_samples ?s = [c]"
    using cs assms by (auto simp: rec_observe_def bump_times_def add_sample_def add_caller_def stat_of_def Let_def)
  moreover have "rt_first ?s = (if en_time e < rt_first s then en_time e else rt_first s)" "rt_last ?s = (if rt_last s < en_time e then en_time e else rt_last s)"
    using cs by (simp_all add: rec_observe_def bump_times_def add_sample_def add_caller_def Let_def time_before_less)
  then have "rt_first ?s = Min (en_time ` set (es @ [e]))" "rt_last ?s = Max (en_time ` set (es @ [e]))"
    using assms(1) unfolding times_snoc [OF assms(2)] stat_of_def by metis+
  moreover have "set (rt_seen ?s) = approvals_in (es @ [e])" "rt_count ?s = int (support (es @ [e]))" "rt_approved ?s = int (approved_support (es @ [e]))"
    using cs assms by (auto simp: rec_observe_def bump_times_def add_sample_def add_caller_def stat_of_def Let_def approvals_in_snoc support_snoc approved_support_snoc)
  ultimately show ?thesis using cs by (auto simp: stat_of_def)
qed

lemma stat_all: "es \<noteq> [] \<Longrightarrow> \<forall>e \<in> set es. en_command e = c \<Longrightarrow> stat_of c es (observe_all es)"
proof (induction es rule: rev_nonempty_induct)
  case (single e)
  then show ?case using stat_first [of e c] by (simp add: observe_all_def)
next
  case (snoc e es)
  then show ?case using stat_snoc [of c es "observe_all es" e] by (simp add: observe_all_def)
qed

section \<open>The loop\<close>

abbreviation entry_key :: "entry \<Rightarrow> rec_key" where "entry_key e \<equiv> (en_host e, en_command e)"

definition observe_if :: "(entry \<Rightarrow> bool) \<Rightarrow> entry \<Rightarrow> (rec_key, rec_stat) go_map \<Rightarrow> (rec_key, rec_stat) go_map" where
  "observe_if P e m = (if P e then AList.update (entry_key e) (rec_observe e (is_grant e) (stat_at m (entry_key e))) m else m)"

definition promoted :: "go_env \<Rightarrow> policy_table \<Rightarrow> rec_options \<Rightarrow> entry \<Rightarrow> bool" where
  "promoted E tbl opts e \<longleftrightarrow> denied_now E tbl opts e \<and> entry_ran e"

definition hindered :: "go_env \<Rightarrow> policy_table \<Rightarrow> rec_options \<Rightarrow> entry \<Rightarrow> bool" where
  "hindered E tbl opts e \<longleftrightarrow> denied_now E tbl opts e \<and> entry_refused e"

lemma ran_not_refused: "entry_ran e \<Longrightarrow> \<not> entry_refused e"
  by (auto simp: entry_ran_def entry_refused_def is_approval_grant_def)

lemma recommend_entry_maps:
  "rs_promote (recommend_entry E tbl opts e st) = observe_if (promoted E tbl opts) e (rs_promote st)"
  "rs_friction (recommend_entry E tbl opts e st) = observe_if (hindered E tbl opts) e (rs_friction st)"
  by (auto simp: recommend_entry_def observe_if_def promoted_def hindered_def denied_now_def host_verdict_def is_grant_def Let_def
      split: option.splits prod.splits if_splits dest: ran_not_refused)

lemma fold_maps:
  "rs_promote (fold (recommend_entry E tbl opts) es st) = fold (observe_if (promoted E tbl opts)) es (rs_promote st)"
  "rs_friction (fold (recommend_entry E tbl opts) es st) = fold (observe_if (hindered E tbl opts)) es (rs_friction st)"
  by (induction es arbitrary: st) (simp_all add: recommend_entry_maps)

lemma fold_observe_if:
  "go_map_inv (fold (observe_if P) es []) \<and> map_of (fold (observe_if P) es []) k
     = (if evidence P k es = [] then None else Some (observe_all (evidence P k es)))"
proof (induction es arbitrary: k rule: rev_induct)
  case (snoc e es)
  then show ?case by (auto simp: observe_if_def evidence_def stat_at_def observe_all_def go_map_simps)
qed (simp add: evidence_def)

lemma evidence_command: "\<forall>e \<in> set (evidence P (host, c) es). en_command e = c"
  by (simp add: evidence_def)

lemma build_cmd_exact:
  "s \<in> set (build_cmd t (fold (observe_if P) es []) n anchor) \<longleftrightarrow>
     (\<exists>host c. evidence P (host, c) es \<noteq> [] \<and> n \<le> int (support (evidence P (host, c) es))
        \<and> s = suggestion_for t host c (if anchor then ''^'' @ quote_meta c @ ''$'' else c) (evidence P (host, c) es))"
proof -
  let ?m = "fold (observe_if P) es []"
  have m: "((host, c), st) \<in> set ?m \<longleftrightarrow> evidence P (host, c) es \<noteq> [] \<and> st = observe_all (evidence P (host, c) es)" for host c st
    using fold_observe_if [of P es "(host, c)"] map_of_iff_in_set [of ?m "(host, c)" st] by (auto split: if_splits)
  have "stat_of c (evidence P (host, c) es) (observe_all (evidence P (host, c) es))" if "evidence P (host, c) es \<noteq> []" for host c
    using stat_all [OF that evidence_command] .
  then have sg: "rt_count (observe_all (evidence P (host, c) es)) = int (support (evidence P (host, c) es))"
    "\<lparr>su_type = t, su_host = host, su_pattern = pat, su_count = rt_count st, su_callers = (case rt_callers st of None \<Rightarrow> 0 | Some cs \<Rightarrow> int (length cs)),
        su_approved = rt_approved st, su_first = rt_first st, su_last = rt_last st, su_samples = rt_samples st\<rparr> = suggestion_for t host c pat (evidence P (host, c) es)"
    if "evidence P (host, c) es \<noteq> []" "st = observe_all (evidence P (host, c) es)" for host c pat st
    using that distinct_card by (fastforce simp: stat_of_def suggestion_for_def)+
  show ?thesis
    unfolding build_cmd_def using sg by (auto simp: m image_iff) (metis m)+
qed

lemma dead_rules_type: "s \<in> set (build_dead_rules tbl used opts) \<Longrightarrow> su_type s = DeadRule"
  by (auto simp: build_dead_rules_def dead_rule_def split: if_splits)

lemma in_scope_min [simp]: "in_scope (opts\<lparr>ro_min_count := n\<rparr>) e = in_scope opts e"
  by (simp add: in_scope_def)

lemma promoted_min [simp]: "promoted E tbl (opts\<lparr>ro_min_count := n\<rparr>) = promoted E tbl opts" "hindered E tbl (opts\<lparr>ro_min_count := n\<rparr>) = hindered E tbl opts"
  by (simp_all add: fun_eq_iff promoted_def hindered_def denied_now_def)

lemma set_recommend:
  "set (recommend E entries tbl opts) =
     (let n = max 1 (ro_min_count opts) in
      set (build_cmd Promote (fold (observe_if (promoted E tbl opts)) entries []) n True)
      \<union> set (build_cmd Friction (fold (observe_if (hindered E tbl opts)) entries []) n False)
      \<union> set (build_dead_rules tbl (rs_used (fold (recommend_entry E tbl (opts\<lparr>ro_min_count := n\<rparr>)) entries \<lparr>rs_promote = [], rs_friction = [], rs_used = []\<rparr>))
            (opts\<lparr>ro_min_count := n\<rparr>)))"
proof -
  have "(if ro_min_count opts < 1 then opts\<lparr>ro_min_count := 1\<rparr> else opts) = opts\<lparr>ro_min_count := max 1 (ro_min_count opts)\<rparr>" by (simp add: max_def)
  then show ?thesis by (simp add: recommend_def ranked_def fold_maps Let_def Un_assoc)
qed

text \<open>
  C38: A recommendation says what the log shows. A command is proposed for the allowlist exactly when the entries in the window that let it run on that host, though the
  policy of today would deny it, have the support that was asked for, and it is reported as friction exactly when the entries that refused it have; the
  numbers shown are those of these entries, where the two records of one approval count once; the pattern proposed is the command itself, quoted and
  anchored; and the list is in the order of support.
\<close>

theorem recommendations_show_the_log:
  "(s \<in> set (recommend E entries tbl opts) \<and> su_type s = Promote \<longleftrightarrow>
      (\<exists>host c es. es = evidence (promoted E tbl opts) (host, c) entries \<and> es \<noteq> [] \<and> max 1 (ro_min_count opts) \<le> int (support es)
         \<and> s = suggestion_for Promote host c (''^'' @ quote_meta c @ ''$'') es))
   \<and> (s \<in> set (recommend E entries tbl opts) \<and> su_type s = Friction \<longleftrightarrow>
      (\<exists>host c es. es = evidence (hindered E tbl opts) (host, c) entries \<and> es \<noteq> [] \<and> max 1 (ro_min_count opts) \<le> int (support es)
         \<and> s = suggestion_for Friction host c c es))
   \<and> sorted_wrt (\<lambda>a b. su_count b \<le> su_count a) (recommend E entries tbl opts)"
proof -
  have t: "su_type (suggestion_for t host c pat es) = t" for t host c pat es by (simp add: suggestion_for_def)
  have "sorted (map (\<lambda>s. (- su_count s, su_host s)) (recommend E entries tbl opts))" unfolding recommend_def ranked_def Let_def by (rule sorted_sort_key)
  then have "sorted_wrt (\<lambda>a b. su_count b \<le> su_count a) (recommend E entries tbl opts)"
    unfolding sorted_map by (rule sorted_wrt_mono_rel [rotated]) auto
  then show ?thesis
    using dead_rules_type unfolding set_recommend Let_def by (auto simp: build_cmd_exact t)
qed

section \<open>Dead rules\<close>

lemma decide_one_needs: "decide_one E ps c = (a, True, r, err) \<Longrightarrow> rule_used host r = []"
  by (auto simp: decide_one_def rule_used_def Let_def split: sum.splits option.splits if_splits)

lemma decide_loop_unused:
  "verdict_needs (decide_loop E ps cs needs rule) \<Longrightarrow> needs \<longrightarrow> rule_used host rule = [] \<Longrightarrow> rule_used host (verdict_rule (decide_loop E ps cs needs rule)) = []"
proof (induction cs arbitrary: needs rule)
  case (Cons c cs)
  obtain a n r err where d: "decide_one E ps c = (a, n, r, err)" by (cases "decide_one E ps c")
  have "n \<Longrightarrow> rule_used host r = []" using d decide_one_needs by (cases n) auto
  then show ?case using Cons.prems Cons.IH [of True r] Cons.IH [of needs r] Cons.IH [of needs rule] d by (auto split: if_splits)
qed simp

lemma ps_decide_unused: "verdict_needs (ps_decide E ps c) \<Longrightarrow> rule_used host (verdict_rule (ps_decide E ps c)) = []"
  using decide_loop_unused [of E ps _ False NoRule host] by (auto simp: ps_decide_def simp del: decide_loop.simps split: if_splits sum.splits)

lemma used_only_by:
  assumes "\<forall>e \<in> set entries. en_host e = host \<longrightarrow> (\<forall>v. host_verdict E tbl e = Some v \<longrightarrow> rule_used host (verdict_rule v) = [])"
    and "\<forall>pat. (host, pat) \<notin> set (rs_used st)"
  shows "(host, pat) \<notin> set (rs_used (fold (recommend_entry E tbl opts) entries st))"
  using assms
proof (induction entries arbitrary: st)
  case (Cons e entries)
  have "rs_used (recommend_entry E tbl opts e st) = rs_used st
      \<or> (\<exists>v. host_verdict E tbl e = Some v \<and> rs_used (recommend_entry E tbl opts e st) = rule_used (en_host e) (verdict_rule v) @ rs_used st)"
    by (auto simp: recommend_entry_def host_verdict_def Let_def split: option.splits prod.splits)
  moreover have "(host, p) \<notin> set (rule_used (en_host e) (verdict_rule v))" if "host_verdict E tbl e = Some v" for p v
  proof (cases "en_host e = host")
    case True
    then have "rule_used host (verdict_rule v) = []" using that Cons.prems(1) by (metis list.set_intros(1))
    then show ?thesis using True by simp
  qed (auto simp: rule_used_def split: cmd_rule.splits)
  ultimately have "\<forall>p. (host, p) \<notin> set (rs_used (recommend_entry E tbl opts e st))" using Cons.prems(2) by auto
  then show ?case using Cons.IH Cons.prems(1) by simp
qed simp

text \<open>
  An allow pattern of a host whose observed commands all need approval is reported as dead, whether it matched them or not: the rule that a decision names is then
  the approval pattern, and the allow pattern that the command also needs is never seen. The report calls such a pattern one that never matched.
\<close>

theorem approval_hides_allow_rules:
  assumes "map_of tbl host = Some hp" and "hp_policies hp = Some ps" and "cp \<in> set ps" and "pat \<in> set (cp_allow cp)"
    and "ro_host opts = [] \<or> ro_host opts = host"
    and "\<forall>e \<in> set entries. en_host e = host \<longrightarrow> verdict_needs (ps_decide E ps (en_command e))"
  shows "dead_rule host pat \<in> set (recommend E entries tbl opts)"
proof -
  let ?o = "opts\<lparr>ro_min_count := max 1 (ro_min_count opts)\<rparr>"
  let ?used = "rs_used (fold (recommend_entry E tbl ?o) entries \<lparr>rs_promote = [], rs_friction = [], rs_used = []\<rparr>)"
  have "(host, pat) \<notin> set ?used"
    by (rule used_only_by) (use assms(1,2,6) ps_decide_unused in \<open>auto simp: host_verdict_def\<close>)
  then have "dead_rule host pat \<in> set (build_dead_rules tbl ?used ?o)"
    using assms(2-5) map_of_SomeD [OF assms(1)] unfolding build_dead_rules_def set_concat set_map
    by (intro UnionI [of _ _ "dead_rule host pat"] imageI [of "(host, hp)"]) (auto intro!: bexI [of _ cp])
  then show ?thesis unfolding set_recommend Let_def by blast
qed

definition gated_policy :: "string list \<Rightarrow> command_policy" where
  "gated_policy allow = \<lparr>cp_mode = CmdPolicyAllowlist, cp_enforcement = [], cp_allow = allow, cp_deny = [], cp_require_approval = [''^ls''], cp_shell_parse = None\<rparr>"

definition gated_host :: "string list \<Rightarrow> host_policy" where
  "gated_host allow = example_host\<lparr>hp_policies := Some [gated_policy allow]\<rparr>"

text \<open>Here \<open>ls -l\<close> ran after an approval; the pattern that allows it is reported as dead, and without the pattern the command would be denied.\<close>

theorem approval_hides_allow_rules_witness:
  "dead_rule ''db'' ''^ls'' \<in> set (recommend example_env [empty_entry\<lparr>en_host := ''db'', en_command := ''ls -l'', en_outcome := ''executed''\<rparr>]
       [(''db'', gated_host [''^ls''])] \<lparr>ro_host = [], ro_since = None, ro_min_count = 1\<rparr>)
   \<and> verdict_allowed (ps_decide example_env [gated_policy [''^ls'']] ''ls -l'') \<and> \<not> verdict_allowed (ps_decide example_env [gated_policy []] ''ls -l'')"
proof -
  have d: "verdict_needs (ps_decide example_env [gated_policy [''^ls'']] ''ls -l'')" "verdict_allowed (ps_decide example_env [gated_policy [''^ls'']] ''ls -l'')"
    "\<not> verdict_allowed (ps_decide example_env [gated_policy []] ''ls -l'')" by code_simp+
  then show ?thesis
    using approval_hides_allow_rules [of "[(''db'', gated_host [''^ls''])]" "''db''" "gated_host [''^ls'']" "[gated_policy [''^ls'']]" "gated_policy [''^ls'']" "''^ls''"
        "\<lparr>ro_host = [], ro_since = None, ro_min_count = 1\<rparr>" "[empty_entry\<lparr>en_host := ''db'', en_command := ''ls -l'', en_outcome := ''executed''\<rparr>]" example_env]
    by (simp add: gated_host_def gated_policy_def)
qed

end
