(* ===== verification/Json.thy ===== *)
theory Json
  imports Complex_Main Go_Prelude
begin

text \<open>
  JSON values as \<open>encoding/json\<close> reads them into an \<open>any\<close>: a number is a float64, here a rational, and an object is the list of its members, in the order of the text for one that was read.
\<close>

datatype json = JNull | JBool bool | JNum rat | JStr string | JArr "json list" | JObj "(string, json) go_map"

text \<open>\<open>strings.ReplaceAll\<close> for a text that is not empty: occurrences from the left, without overlap.\<close>

function replace_all :: "string \<Rightarrow> string \<Rightarrow> string \<Rightarrow> string" where
  "replace_all old new s =
     (case s of [] \<Rightarrow> []
      | c # t \<Rightarrow> (if old \<noteq> [] \<and> prefix old s then new @ replace_all old new (drop (length old) s) else c # replace_all old new t))"
  by pat_completeness auto
termination by (relation "measure (\<lambda>(old, new, s). length s)") auto

declare replace_all.simps [simp del]

end
