(* ===== verification/Local_Signer.thy ===== *)
theory Local_Signer
  imports K8s_Policy "HOL-Library.Signed_Division"
begin

text \<open>
  The in-process signer \<open>Local\<close> (\<open>internal/signer/signer.go\<close>, \<open>k8spolicy.go\<close>): the choice of the CA
  key, the sealed-exec envelope of a session preflight, \<open>SignIntent\<close> for SSH targets and \<open>signK8s\<close> for
  Kubernetes targets. \<open>sign_env\<close> gathers what one call reads from the libraries, the random sources and
  the clock; an error and an issued value may come back together, as in the code.
\<close>

section \<open>Data\<close>

record local_signer =
  ls_default_ca :: string
  ls_group_cas :: "(string, string) go_map"
  ls_policy :: policy_table
  ls_default_ttl :: go_duration
  ls_grants :: "grants_api option"
  ls_clusters :: cluster_table
  ls_minter :: "(string \<Rightarrow> string \<Rightarrow> string \<Rightarrow> go_duration \<Rightarrow> (string \<times> go_time) option) option"
  ls_envelope_key :: "string option"

record sign_env =
  se_env :: go_env
  se_sealed :: sealed_lib
  se_ca :: ca_sign
  se_call :: ca_call
  se_nonce :: "string option"
  se_serial :: "64 word"
  se_now :: go_time

datatype seal_failure = NoEnvelopeKey | SealFailed sealed_error

datatype ca_detail = CAFailure ca_error | EnvelopeFailure seal_failure

datatype local_error =
    PolicyDenied sign_error
  | CASignError string ca_detail
  | K8sDenied k8s_sign_error
  | K8sNoMinter string
  | K8sNoBinding string
  | K8sMintError string

datatype deny_reason = ReasonText local_error | ReasonClusterPolicy

record decision_info =
  di_allowed :: bool
  di_reason :: "deny_reason option"
  di_require_approval :: bool
  di_matched_rule :: cmd_rule
  di_force_command :: string
  di_ttl_seconds :: int
  di_elevation :: string
  di_enforcement :: string
  di_warning :: "(string \<times> cmd_rule) option"
  di_would_deny :: bool
  di_would_require_approval :: bool

record issuance =
  iu_certificate :: "certificate option"
  iu_serial :: "64 word"
  iu_k8s_token :: string
  iu_k8s_token_expiry :: go_time
  iu_k8s_action :: "k8s_action option"
  iu_elevation_prefix :: string
  iu_decision :: decision_info
  iu_envelope :: string

section \<open>Operations\<close>

definition host_allowlist_active :: "local_signer \<Rightarrow> string \<Rightarrow> bool \<times> bool" where
  "host_allowlist_active l host =
     (case map_of (ls_policy l) host of
        Some hp \<Rightarrow> (True, ps_has_allowlist (effective_policies hp))
      | None \<Rightarrow> (case map_of (ls_clusters l) host of
          Some cp \<Rightarrow> (True, ps_has_allowlist (cl_policies cp))
        | None \<Rightarrow> (False, False)))"

fun ca_for_groups :: "(string, string) go_map \<Rightarrow> string list \<Rightarrow> string \<Rightarrow> string" where
  "ca_for_groups cas [] dflt = dflt"
| "ca_for_groups cas (g # gs) dflt =
     (case map_of cas g of Some ca \<Rightarrow> ca | None \<Rightarrow> ca_for_groups cas gs dflt)"

definition ca_key_for :: "local_signer \<Rightarrow> host_policy \<Rightarrow> string" where
  "ca_key_for l hp = ca_for_groups (ls_group_cas l) (hp_groups hp) (ls_default_ca l)"

definition sealed_envelope :: "sign_env \<Rightarrow> local_signer \<Rightarrow> intent \<Rightarrow> decision \<Rightarrow> seal_failure + string" where
  "sealed_envelope N l i d =
     (case map_of (ls_policy l) (in_host i) of None \<Rightarrow> Inr [] | Some hp \<Rightarrow>
       (if \<not> hp_sealed_exec hp then Inr []
        else if in_purpose i \<noteq> PurposeSession \<or> in_role i \<noteq> RoleTarget \<or> \<not> in_preflight i \<or> in_command i = [] then Inr []
        else if de_require_approval d then Inr []
        else case ls_envelope_key l of None \<Rightarrow> Inl NoEnvelopeKey | Some key \<Rightarrow>
          (let cmd = (if de_elevation_prefix d \<noteq> []
                      then build_elevated_command (se_env N) (de_elevation_prefix d) (in_command i) else in_command i)
           in case sealed_sign (se_sealed N) key (se_nonce N) (in_host i) cmd SealedDefaultTTL (se_now N) of
                Inl e \<Rightarrow> Inl (SealFailed e) | Inr w \<Rightarrow> Inr w)))"

definition decision_info :: "decision \<Rightarrow> bool \<Rightarrow> decision_info" where
  "decision_info d allowed =
     \<lparr>di_allowed = allowed, di_reason = None, di_require_approval = de_require_approval d,
      di_matched_rule = de_matched_rule d, di_force_command = co_force_command (de_constraints d),
      di_ttl_seconds = co_ttl (de_constraints d) sdiv go_second, di_elevation = de_elevation_prefix d,
      di_enforcement = de_enforcement d, di_warning = de_warning d, di_would_deny = de_would_deny d,
      di_would_require_approval = de_would_require_approval d\<rparr>"

definition only_decision :: "decision_info \<Rightarrow> issuance" where
  "only_decision di = \<lparr>iu_certificate = None, iu_serial = 0, iu_k8s_token = [], iu_k8s_token_expiry = 0,
     iu_k8s_action = None, iu_elevation_prefix = [], iu_decision = di, iu_envelope = []\<rparr>"

definition sign_ssh :: "sign_env \<Rightarrow> local_signer \<Rightarrow> intent \<Rightarrow> issuance option \<times> local_error option" where
  "sign_ssh N l i =
     (case resolve (se_env N) (ls_policy l) (ls_default_ttl l) (ls_grants l) i (se_now N) of (d, err) \<Rightarrow>
       if in_dry_run i then
         (case err of
            Some e \<Rightarrow> (Some (only_decision ((decision_info d False)\<lparr>di_reason := Some (ReasonText (PolicyDenied e))\<rparr>)), None)
          | None \<Rightarrow> (case sealed_envelope N l i d of
              Inl f \<Rightarrow> (None, Some (CASignError (in_host i) (EnvelopeFailure f)))
            | Inr env \<Rightarrow> (Some ((only_decision (decision_info d True))\<lparr>iu_envelope := env\<rparr>), None)))
       else
         (case err of
            Some e \<Rightarrow> (None, Some (PolicyDenied e))
          | None \<Rightarrow>
              (if de_require_approval d \<and> \<not> in_approved i then (Some (only_decision (decision_info d True)), None)
               else case build_and_sign (se_ca N) (se_call N)
                      (case map_of (ls_policy l) (in_host i) of Some hp \<Rightarrow> ca_key_for l hp | None \<Rightarrow> ls_default_ca l)
                      (in_public_key i) (de_constraints d) of
                 Inl e \<Rightarrow> (None, Some (CASignError (in_host i) (CAFailure e)))
               | Inr (cert, serial) \<Rightarrow>
                   (Some ((only_decision (decision_info d True))\<lparr>iu_certificate := Some cert, iu_serial := serial,
                      iu_elevation_prefix := de_elevation_prefix d\<rparr>), None))))"

text \<open>The denial of \<open>signK8s\<close>: the firewall's result, with its reason.\<close>

definition k8s_denial :: "cp_result \<Rightarrow> k8s_sign_error \<Rightarrow> decision_info" where
  "k8s_denial res e =
     \<lparr>di_allowed = False,
      di_reason = Some (if cr_matched_rule res \<noteq> NoRule then ReasonClusterPolicy else ReasonText (K8sDenied e)),
      di_require_approval = False, di_matched_rule = cr_matched_rule res, di_force_command = [],
      di_ttl_seconds = 0, di_elevation = [], di_enforcement = cr_enforcement res,
      di_warning = cr_warning res, di_would_deny = cr_would_deny res,
      di_would_require_approval = cr_would_require_approval res\<rparr>"

text \<open>The check of the minter and of the service-account binding, before any answer is given.\<close>

definition k8s_setup :: "local_signer \<Rightarrow> cluster_policy \<Rightarrow> intent \<Rightarrow>
    local_error + (string \<Rightarrow> string \<Rightarrow> string \<Rightarrow> go_duration \<Rightarrow> (string \<times> go_time) option) \<times> sa_binding" where
  "k8s_setup l cp i =
     (case ls_minter l of
        None \<Rightarrow> Inl (K8sNoMinter (in_host i))
      | Some mint \<Rightarrow>
          (case binding_for (cl_sa_bindings cp) (case in_end_user_groups i of None \<Rightarrow> [] | Some gs \<Rightarrow> gs) of
             None \<Rightarrow> Inl (K8sNoBinding (in_host i))
           | Some b \<Rightarrow> Inr (mint, b)))"

definition sign_k8s :: "sign_env \<Rightarrow> local_signer \<Rightarrow> intent \<Rightarrow> issuance option \<times> local_error option" where
  "sign_k8s N l i =
     (case resolve_k8s (se_env N) (ls_clusters l) (ls_grants l) i (se_now N) of (d, res, err) \<Rightarrow>
       (case err of
          Some e \<Rightarrow>
            (let denied = (only_decision (k8s_denial res e))\<lparr>iu_k8s_action := de_k8s_action d\<rparr> in
             if in_dry_run i then (Some denied, None) else (Some denied, Some (K8sDenied e)))
        | None \<Rightarrow>
            (case map_of (ls_clusters l) (in_host i) of
               None \<Rightarrow> (None, None)
             | Some cp \<Rightarrow>
                 (let ttl = cl_token_ttl_seconds cp * go_second;
                      answer = (\<lambda>di. (only_decision di)\<lparr>iu_k8s_action := de_k8s_action d\<rparr>) in
                  case k8s_setup l cp i of
                    Inl e \<Rightarrow>
                      (if in_dry_run i then
                         (Some (answer ((decision_info d False)\<lparr>di_require_approval := False, di_reason := Some (ReasonText e)\<rparr>)), None)
                       else (None, Some e))
                  | Inr (mint, b) \<Rightarrow>
                      (if in_dry_run i then
                         (Some (answer ((decision_info d True)\<lparr>di_ttl_seconds := ttl sdiv go_second\<rparr>)), None)
                       else if de_require_approval d \<and> \<not> in_approved i then
                         (Some (answer (decision_info d True)), None)
                       else case mint (in_host i) (sb_namespace b) (sb_service_account b) ttl of
                         None \<Rightarrow> (None, Some (K8sMintError (in_host i)))
                       | Some (token, expiry) \<Rightarrow>
                           (Some ((answer ((decision_info d True)\<lparr>di_ttl_seconds := ttl sdiv go_second\<rparr>))
                              \<lparr>iu_k8s_token := token, iu_k8s_token_expiry := expiry, iu_serial := se_serial N\<rparr>), None))))))"

definition sign_intent :: "sign_env \<Rightarrow> local_signer \<Rightarrow> intent \<Rightarrow> issuance option \<times> local_error option" where
  "sign_intent N l i = (if in_target_type i = TargetTypeK8s then sign_k8s N l i else sign_ssh N l i)"

section \<open>Lemmas\<close>

lemma only_decision_simps [simp]:
  "iu_certificate (only_decision di) = None" "iu_k8s_token (only_decision di) = []"
  "iu_envelope (only_decision di) = []" "iu_decision (only_decision di) = di"
  "iu_elevation_prefix (only_decision di) = []" "iu_k8s_action (only_decision di) = None"
  by (simp_all add: only_decision_def)

lemma ca_for_groups_first:
  "ca_for_groups cas gs dflt =
     (case List.find (\<lambda>g. map_of cas g \<noteq> None) gs of None \<Rightarrow> dflt | Some g \<Rightarrow> the (map_of cas g))"
  by (induction gs) (auto split: option.splits)

text \<open>A certificate comes only from a live, resolved and, where needed, approved SSH request.\<close>

lemma certificate_issued:
  assumes "sign_intent N l i = (Some iu, err)" and "iu_certificate iu = Some cert"
  obtains d hp where "\<not> in_dry_run i" and "in_target_type i \<noteq> TargetTypeK8s"
    and "resolve (se_env N) (ls_policy l) (ls_default_ttl l) (ls_grants l) i (se_now N) = (d, None)"
    and "map_of (ls_policy l) (in_host i) = Some hp"
    and "de_require_approval d \<longrightarrow> in_approved i"
    and "build_and_sign (se_ca N) (se_call N) (ca_key_for l hp) (in_public_key i) (de_constraints d) = Inr (cert, iu_serial iu)"
    and "iu_elevation_prefix iu = de_elevation_prefix d" and "iu_envelope iu = []" and "iu_k8s_token iu = []"
proof -
  have k8s: "in_target_type i \<noteq> TargetTypeK8s"
    using assms by (auto simp: sign_intent_def sign_k8s_def Let_def
        split: prod.splits option.splits sum.splits if_splits)
  obtain d e where r: "resolve (se_env N) (ls_policy l) (ls_default_ttl l) (ls_grants l) i (se_now N) = (d, e)"
    by (cases "resolve (se_env N) (ls_policy l) (ls_default_ttl l) (ls_grants l) i (se_now N)")
  have live: "\<not> in_dry_run i" and e: "e = None"
    using assms k8s r by (auto simp: sign_intent_def sign_ssh_def split: option.splits sum.splits if_splits)
  from r e obtain hp where hp: "map_of (ls_policy l) (in_host i) = Some hp" by (auto elim: resolve_ok)
  show ?thesis
    using assms k8s r live e hp
    by (intro that [of d hp]) (auto simp: sign_intent_def sign_ssh_def split: if_splits sum.splits prod.splits)
qed

text \<open>An envelope comes only from the preflight of a session command on a sealed host.\<close>

lemma envelope_issued:
  assumes "sign_intent N l i = (Some iu, err)" and "iu_envelope iu \<noteq> []"
  obtains d hp key where "in_dry_run i" and "in_preflight i"
    and "resolve (se_env N) (ls_policy l) (ls_default_ttl l) (ls_grants l) i (se_now N) = (d, None)"
    and "map_of (ls_policy l) (in_host i) = Some hp" and "hp_sealed_exec hp"
    and "in_purpose i = PurposeSession" and "in_role i = RoleTarget" and "in_command i \<noteq> []"
    and "\<not> de_require_approval d" and "ls_envelope_key l = Some key"
    and "sealed_sign (se_sealed N) key (se_nonce N) (in_host i)
           (if de_elevation_prefix d \<noteq> [] then build_elevated_command (se_env N) (de_elevation_prefix d) (in_command i)
            else in_command i) SealedDefaultTTL (se_now N) = Inr (iu_envelope iu)"
proof -
  have k8s: "in_target_type i \<noteq> TargetTypeK8s"
    using assms by (auto simp: sign_intent_def sign_k8s_def Let_def
        split: prod.splits option.splits sum.splits if_splits)
  obtain d e where r: "resolve (se_env N) (ls_policy l) (ls_default_ttl l) (ls_grants l) i (se_now N) = (d, e)"
    by (cases "resolve (se_env N) (ls_policy l) (ls_default_ttl l) (ls_grants l) i (se_now N)")
  have dry: "in_dry_run i" and e: "e = None" and s: "sealed_envelope N l i d = Inr (iu_envelope iu)"
    using assms k8s r by (auto simp: sign_intent_def sign_ssh_def split: option.splits sum.splits if_splits prod.splits)
  show ?thesis
    using dry e s r assms(2) that
    by (auto simp: sealed_envelope_def Let_def split: option.splits sum.splits if_splits)
qed

text \<open>A token comes only from a live, resolved and, where needed, approved Kubernetes request.\<close>

lemma token_issued:
  assumes "sign_intent N l i = (Some iu, err)" and "iu_k8s_token iu \<noteq> []"
  obtains d res cp mint b where "\<not> in_dry_run i" and "in_target_type i = TargetTypeK8s"
    and "resolve_k8s (se_env N) (ls_clusters l) (ls_grants l) i (se_now N) = (d, res, None)"
    and "map_of (ls_clusters l) (in_host i) = Some cp" and "de_require_approval d \<longrightarrow> in_approved i"
    and "k8s_setup l cp i = Inr (mint, b)"
    and "mint (in_host i) (sb_namespace b) (sb_service_account b) (cl_token_ttl_seconds cp * go_second)
           = Some (iu_k8s_token iu, iu_k8s_token_expiry iu)"
    and "iu_k8s_action iu = de_k8s_action d" and "iu_certificate iu = None"
proof -
  have k8s: "in_target_type i = TargetTypeK8s"
    using assms by (auto simp: sign_intent_def sign_ssh_def split: prod.splits option.splits sum.splits if_splits)
  obtain d res e where r: "resolve_k8s (se_env N) (ls_clusters l) (ls_grants l) i (se_now N) = (d, res, e)"
    by (cases "resolve_k8s (se_env N) (ls_clusters l) (ls_grants l) i (se_now N)")
  have e: "e = None"
    using assms k8s r by (cases e) (auto simp: sign_intent_def sign_k8s_def Let_def split: if_splits)
  from r e obtain cp where cp: "map_of (ls_clusters l) (in_host i) = Some cp" by (auto elim: resolve_k8s_ok)
  show ?thesis
    using assms k8s r e cp
    by (auto simp: sign_intent_def sign_k8s_def Let_def split: sum.splits if_splits option.splits prod.splits
        intro!: that)
qed

section \<open>Properties\<close>

text \<open>
  C4: every certificate the signer returns is authorised and carries the host's restrictions. It comes
  from a request that is not a dry run and that the host's policy resolves without error, approved where
  approval is required; its only principal and its source address are the host's; it has a forced command
  whenever it is for a one-shot target or the host is sealed; it permits port forwarding only for a bastion
  that the host allows, a terminal only where the host allows one, and no other extension.
\<close>

theorem certificate_is_authorised:
  assumes "sign_intent N l i = (Some iu, err)" and "iu_certificate iu = Some cert"
  shows "\<exists>hp d. map_of (ls_policy l) (in_host i) = Some hp
    \<and> resolve (se_env N) (ls_policy l) (ls_default_ttl l) (ls_grants l) i (se_now N) = (d, None)
    \<and> \<not> in_dry_run i \<and> (in_approved i \<or> \<not> de_require_approval d)
    \<and> ce_valid_principals cert = [hp_principal hp] \<and> ce_key cert = in_public_key i
    \<and> map_of (ce_critical_options cert) ''source-address''
        = (if hp_source_address hp = [] then None else Some (hp_source_address hp))
    \<and> (is_oneshot_target i \<or> hp_sealed_exec hp \<longrightarrow>
         (\<exists>fc. map_of (ce_critical_options cert) ''force-command'' = Some fc \<and> fc \<noteq> []))
    \<and> (\<forall>x. map_has (ce_extensions cert) x \<longrightarrow>
         x = ''permit-port-forwarding'' \<and> in_role i = RoleBastion \<and> hp_allow_as_bastion hp
         \<or> x = ''permit-pty'' \<and> in_pty i \<and> hp_allow_pty hp)"
proof -
  from assms obtain d hp where live: "\<not> in_dry_run i" and
    r: "resolve (se_env N) (ls_policy l) (ls_default_ttl l) (ls_grants l) i (se_now N) = (d, None)"
    and hp: "map_of (ls_policy l) (in_host i) = Some hp" and ap: "de_require_approval d \<longrightarrow> in_approved i"
    and b: "build_and_sign (se_ca N) (se_call N) (ca_key_for l hp) (in_public_key i) (de_constraints d) = Inr (cert, iu_serial iu)"
    by (rule certificate_issued)
  note c = build_and_sign_Inr [OF b]
  from r hp obtain elevation cp where auth: "authorize_intent hp i = None"
    and pty: "in_pty i \<longrightarrow> hp_allow_pty hp"
    and fin: "finish_decision (se_env N) hp (ls_default_ttl l) i elevation cp (se_now N) = (d, None)"
    by (auto elim: resolve_ok)
  note f = finish_decision_ok [OF fin]
  have "co_force_command (de_constraints d) \<noteq> []" if "is_oneshot_target i \<or> hp_sealed_exec hp"
    using that oneshot_pinned [OF r] sealed_pinned [OF r hp] by auto
  then have fc: "is_oneshot_target i \<or> hp_sealed_exec hp \<longrightarrow>
      (\<exists>fc. map_of (ce_critical_options cert) ''force-command'' = Some fc \<and> fc \<noteq> [])"
    by (auto simp: c(7) cert_option_simps)
  have ext: "x = ''permit-port-forwarding'' \<and> in_role i = RoleBastion \<and> hp_allow_as_bastion hp
      \<or> x = ''permit-pty'' \<and> in_pty i \<and> hp_allow_pty hp" if "map_has (ce_extensions cert) x" for x
    using that extensions_only [of "de_constraints d" x] authorize_intent_None(10) [OF auth] pty f(6,7)
    by (auto simp: c(8) cert_option_simps)
  show ?thesis
    using live r hp ap fc ext c(4,6,7) f(4,5) by (auto simp: cert_option_simps)
qed

text \<open>
  The signer seals only what the policy already allows. An envelope is returned only for the dry-run
  preflight of a session command on a sealed host, never for a command that still needs approval; on a
  host whose policies restrict and enforce, the command is allowed by the policies with live grants and
  needs no approval or has a live waiver; and the sealed command is the requested one behind the
  elevation prefix of the decision.
\<close>

theorem envelope_is_authorised:
  assumes "sign_intent N l i = (Some iu, err)" and "iu_envelope iu \<noteq> []"
  shows "\<exists>hp d key. map_of (ls_policy l) (in_host i) = Some hp \<and> hp_sealed_exec hp
    \<and> resolve (se_env N) (ls_policy l) (ls_default_ttl l) (ls_grants l) i (se_now N) = (d, None)
    \<and> in_dry_run i \<and> in_preflight i \<and> iu_certificate iu = None \<and> ls_envelope_key l = Some key
    \<and> sealed_sign (se_sealed N) key (se_nonce N) (in_host i)
         (if de_elevation_prefix d \<noteq> [] then build_elevated_command (se_env N) (de_elevation_prefix d) (in_command i)
          else in_command i) SealedDefaultTTL (se_now N) = Inr (iu_envelope iu)
    \<and> (ps_restricts (effective_policies hp) \<and> ps_enforcement (effective_policies hp) \<noteq> CmdPolicyAudit \<longrightarrow>
         verdict_allowed (ps_decide (se_env N) (widened_policies (ls_grants l) hp i (se_now N)) (in_command i))
         \<and> (verdict_needs (ps_decide (se_env N) (widened_policies (ls_grants l) hp i (se_now N)) (in_command i))
              \<longrightarrow> waived (ls_grants l) i (se_now N)))"
proof -
  from assms obtain d hp key where dry: "in_dry_run i" "in_preflight i" and
    r: "resolve (se_env N) (ls_policy l) (ls_default_ttl l) (ls_grants l) i (se_now N) = (d, None)"
    and hp: "map_of (ls_policy l) (in_host i) = Some hp" "hp_sealed_exec hp"
    and cmd: "in_command i \<noteq> []" and ap: "\<not> de_require_approval d" and key: "ls_envelope_key l = Some key"
    and s: "sealed_sign (se_sealed N) key (se_nonce N) (in_host i)
           (if de_elevation_prefix d \<noteq> [] then build_elevated_command (se_env N) (de_elevation_prefix d) (in_command i)
            else in_command i) SealedDefaultTTL (se_now N) = Inr (iu_envelope iu)"
    by (rule envelope_issued)
  have "iu_certificate iu = None"
    using assms dry by (auto simp: sign_intent_def sign_ssh_def sign_k8s_def Let_def
        split: prod.splits option.splits sum.splits if_splits)
  moreover have "verdict_allowed (ps_decide (se_env N) (widened_policies (ls_grants l) hp i (se_now N)) (in_command i))
         \<and> (verdict_needs (ps_decide (se_env N) (widened_policies (ls_grants l) hp i (se_now N)) (in_command i))
              \<longrightarrow> waived (ls_grants l) i (se_now N))"
    if "ps_restricts (effective_policies hp)" "ps_enforcement (effective_policies hp) \<noteq> CmdPolicyAudit"
    using firewall [OF r hp(1) that] cmd ap by auto
  ultimately show ?thesis using dry r hp key s by blast
qed

text \<open>
  A Kubernetes token is minted only for an action the cluster's policy resolves without error, never
  on a dry run, and only after approval where approval is required; on a compiled cluster it is minted
  for one of the cluster's own service-account bindings, one open to everyone or to a group of the end
  user, with a lifetime between 600 and 900 seconds.
\<close>

theorem token_is_authorised:
  assumes "sign_intent N l i = (Some iu, err)" and "iu_k8s_token iu \<noteq> []"
    and "map_of (ls_clusters l) (in_host i) = Some cp" and "compile_cluster E V cp0 = Inr cp"
  shows "\<exists>d res mint b. resolve_k8s (se_env N) (ls_clusters l) (ls_grants l) i (se_now N) = (d, res, None)
    \<and> \<not> in_dry_run i \<and> (in_approved i \<or> \<not> de_require_approval d) \<and> iu_k8s_action iu = de_k8s_action d
    \<and> iu_certificate iu = None \<and> b \<in> set (cl_sa_bindings cp)
    \<and> (sb_groups b = [] \<or> (\<exists>gs. in_end_user_groups i = Some gs \<and> groups_intersect (sb_groups b) gs))
    \<and> ls_minter l = Some mint
    \<and> (\<exists>secs. 600 \<le> secs \<and> secs \<le> 900
         \<and> mint (in_host i) (sb_namespace b) (sb_service_account b) (secs * go_second)
             = Some (iu_k8s_token iu, iu_k8s_token_expiry iu))"
proof -
  from assms(1,2) obtain d res cp' mint b where t: "\<not> in_dry_run i"
    "resolve_k8s (se_env N) (ls_clusters l) (ls_grants l) i (se_now N) = (d, res, None)"
    "map_of (ls_clusters l) (in_host i) = Some cp'" "de_require_approval d \<longrightarrow> in_approved i"
    and chosen: "k8s_setup l cp' i = Inr (mint, b)"
    and m: "mint (in_host i) (sb_namespace b) (sb_service_account b) (cl_token_ttl_seconds cp' * go_second)
           = Some (iu_k8s_token iu, iu_k8s_token_expiry iu)"
    and rest: "iu_k8s_action iu = de_k8s_action d" "iu_certificate iu = None"
    by (rule token_issued)
  have cp: "cp' = cp" using t(3) assms(3) by simp
  from chosen have mint: "ls_minter l = Some mint"
    and b: "binding_for (cl_sa_bindings cp) (case in_end_user_groups i of None \<Rightarrow> [] | Some gs \<Rightarrow> gs) = Some b"
    by (auto simp: k8s_setup_def cp split: option.splits)
  have "sb_groups b = [] \<or> (\<exists>gs. in_end_user_groups i = Some gs \<and> groups_intersect (sb_groups b) gs)"
    using binding_for_Some [OF b] by (cases "in_end_user_groups i") (auto simp: groups_intersect_def list_ex_iff)
  then show ?thesis
    using t rest mint m binding_for_Some [OF b] compile_cluster_Inr(1,2) [OF assms(4)] unfolding cp by blast
qed

section \<open>Witnesses\<close>

definition example_signer :: local_signer where
  "example_signer = \<lparr>ls_default_ca = ''ca'', ls_group_cas = [], ls_policy = example_table,
     ls_default_ttl = 300 * go_second, ls_grants = None, ls_clusters = [(''k1'', compiled_cluster)],
     ls_minter = Some (\<lambda>_ _ _ ttl. Some (''tok'', ttl)), ls_envelope_key = Some example_key\<rparr>"

definition example_sign_env :: "go_env \<Rightarrow> sign_env" where
  "example_sign_env E = \<lparr>se_env = E, se_sealed = example_lib, se_ca = example_ca, se_call = example_ca_call,
     se_nonce = Some (replicate 16 CHR ''n''), se_serial = 7, se_now = 0\<rparr>"

definition example_preflight :: intent where
  "example_preflight = (plain_intent ''b1'' ''vault'' ''ls -l'')
     \<lparr>in_purpose := PurposeSession, in_session_mode := SessionModeExec, in_dry_run := True, in_preflight := True\<rparr>"

lemma example_certificate:
  obtains iu cert where "sign_intent (example_sign_env example_env) example_signer example_intent = (Some iu, None)"
    and "iu_certificate iu = Some cert"
proof -
  obtain d where r: "resolve example_env example_table (300 * go_second) None example_intent 0 = (d, None)"
    using example_resolve by blast
  have "co_principal (de_constraints (fst (resolve example_env example_table (300 * go_second) None example_intent 0))) = ''host:db''"
    "co_ttl (de_constraints (fst (resolve example_env example_table (300 * go_second) None example_intent 0))) = 300 * go_second"
    "\<not> de_require_approval (fst (resolve example_env example_table (300 * go_second) None example_intent 0))"
    by code_simp+
  then have c: "co_principal (de_constraints d) = ''host:db''" "co_ttl (de_constraints d) = 300 * go_second"
    "\<not> de_require_approval d"
    unfolding r by simp_all
  have i: "\<not> in_dry_run example_intent" "in_target_type example_intent = []" by code_simp+
  have "\<exists>cert serial. build_and_sign example_ca example_ca_call (ca_key_for example_signer example_host)
      (in_public_key example_intent) (de_constraints d) = Inr (cert, serial)"
    using c by (simp add: build_and_sign_def example_ca_def example_ca_call_def random_serial_def max_cert_ttl_def Let_def)
  then obtain cert serial where b: "build_and_sign example_ca example_ca_call (ca_key_for example_signer example_host)
      (in_public_key example_intent) (de_constraints d) = Inr (cert, serial)" by blast
  have l: "ls_policy example_signer = example_table" "ls_default_ttl example_signer = 300 * go_second"
    "ls_grants example_signer = None" by (simp_all add: example_signer_def)
  have n: "se_env (example_sign_env example_env) = example_env" "se_ca (example_sign_env example_env) = example_ca"
    "se_call (example_sign_env example_env) = example_ca_call" "se_now (example_sign_env example_env) = 0"
    by (simp_all add: example_sign_env_def)
  have "sign_intent (example_sign_env example_env) example_signer example_intent
      = (Some ((only_decision (decision_info d True))\<lparr>iu_certificate := Some cert, iu_serial := serial,
           iu_elevation_prefix := de_elevation_prefix d\<rparr>), None)"
    unfolding sign_intent_def sign_ssh_def l n r example_lookup(1) using c(3) i b by simp
  then show ?thesis by (rule that) simp
qed

theorem certificate_is_authorised_witness:
  "\<exists>iu cert fc. sign_intent (example_sign_env example_env) example_signer example_intent = (Some iu, None)
     \<and> iu_certificate iu = Some cert \<and> map_of (ce_critical_options cert) ''force-command'' = Some fc"
proof -
  obtain iu cert where s: "sign_intent (example_sign_env example_env) example_signer example_intent = (Some iu, None)"
    "iu_certificate iu = Some cert" by (rule example_certificate)
  have "is_oneshot_target example_intent" by code_simp
  with certificate_is_authorised [OF s] s show ?thesis by blast
qed

lemma example_sealed_envelope:
  obtains iu where "sign_intent (example_sign_env example_env) example_signer example_preflight = (Some iu, None)"
    and "iu_envelope iu \<noteq> []"
proof -
  let ?r = "resolve example_env example_table (300 * go_second) None example_preflight 0"
  have "snd ?r = None" "\<not> de_require_approval (fst ?r)" "de_elevation_prefix (fst ?r) = []" by code_simp+
  then obtain d where r: "?r = (d, None)" and d: "\<not> de_require_approval d" "de_elevation_prefix d = []"
    by (cases ?r) auto
  have i: "in_dry_run example_preflight" "in_target_type example_preflight = []" "in_host example_preflight = ''vault''"
    "in_purpose example_preflight = PurposeSession" "in_role example_preflight = RoleTarget"
    "in_preflight example_preflight" "in_command example_preflight = ''ls -l''" by code_simp+
  have l: "ls_policy example_signer = example_table" "ls_default_ttl example_signer = 300 * go_second"
    "ls_grants example_signer = None" "ls_envelope_key example_signer = Some example_key"
    by (simp_all add: example_signer_def)
  have n: "se_env (example_sign_env example_env) = example_env" "se_sealed (example_sign_env example_env) = example_lib"
    "se_nonce (example_sign_env example_env) = Some (replicate 16 CHR ''n'')" "se_now (example_sign_env example_env) = 0"
    by (simp_all add: example_sign_env_def)
  have h: "map_of example_table ''vault'' = Some (example_host\<lparr>hp_sealed_exec := True\<rparr>)" by (simp add: example_table_def)
  obtain w where w: "sealed_sign example_lib example_key (Some (replicate 16 CHR ''n'')) ''vault'' ''ls -l'' SealedDefaultTTL 0 = Inr w"
    and ne: "w \<noteq> []"
    by (simp add: sealed_sign_def example_key_def Let_def SealedMaxTTL_def SealedDefaultTTL_def example_lib_def
        example_marshal_def hex_encode_def)
  have "sealed_envelope (example_sign_env example_env) example_signer example_preflight d = Inr w"
    unfolding sealed_envelope_def l n i using h d w i(6) by simp
  then have "sign_intent (example_sign_env example_env) example_signer example_preflight
      = (Some ((only_decision (decision_info d True))\<lparr>iu_envelope := w\<rparr>), None)"
    unfolding sign_intent_def sign_ssh_def using i r by (simp add: l n)
  then show ?thesis by (rule that) (simp add: ne)
qed

theorem envelope_is_authorised_witness:
  "verdict_allowed (ps_decide example_env (widened_policies None (example_host\<lparr>hp_sealed_exec := True\<rparr>) example_preflight 0) ''ls -l'')"
proof -
  obtain iu where s: "sign_intent (example_sign_env example_env) example_signer example_preflight = (Some iu, None)"
    "iu_envelope iu \<noteq> []" by (rule example_sealed_envelope)
  have e: "se_env (example_sign_env example_env) = example_env" "se_now (example_sign_env example_env) = 0"
    "ls_grants example_signer = None" "ls_policy example_signer = example_table"
    by (simp_all add: example_sign_env_def example_signer_def)
  have i: "in_host example_preflight = ''vault''" "in_command example_preflight = ''ls -l''" by code_simp+
  have h: "map_of example_table ''vault'' = Some (example_host\<lparr>hp_sealed_exec := True\<rparr>)" by (simp add: example_table_def)
  have p: "ps_restricts (effective_policies (example_host\<lparr>hp_sealed_exec := True\<rparr>))"
    "ps_enforcement (effective_policies (example_host\<lparr>hp_sealed_exec := True\<rparr>)) \<noteq> CmdPolicyAudit" by code_simp+
  show ?thesis using envelope_is_authorised [OF s] p unfolding e i h by auto
qed

theorem token_is_authorised_witness:
  "\<exists>iu. sign_intent (example_sign_env example_k8s_env) example_signer example_k8s_intent = (Some iu, None)
     \<and> iu_k8s_token iu = ''tok'' \<and> iu_certificate iu = None"
proof -
  obtain d res where r: "resolve_k8s example_k8s_env [(''k1'', compiled_cluster)] None example_k8s_intent 0 = (d, res, None)"
    and d: "\<not> de_require_approval d" using example_k8s_resolves by blast
  have i: "\<not> in_dry_run example_k8s_intent" "in_target_type example_k8s_intent = TargetTypeK8s"
    "in_host example_k8s_intent = ''k1''" "in_end_user_groups example_k8s_intent = None"
    by (simp_all add: example_k8s_intent_def plain_intent_def)
  have l: "ls_clusters example_signer = [(''k1'', compiled_cluster)]" "ls_grants example_signer = None"
    "ls_minter example_signer = Some (\<lambda>_ _ _ ttl. Some (''tok'', ttl))" by (simp_all add: example_signer_def)
  have n: "se_env (example_sign_env example_k8s_env) = example_k8s_env" "se_now (example_sign_env example_k8s_env) = 0"
    by (simp_all add: example_sign_env_def)
  have "\<exists>iu. sign_intent (example_sign_env example_k8s_env) example_signer example_k8s_intent = (Some iu, None)
      \<and> iu_k8s_token iu = ''tok''"
    unfolding sign_intent_def sign_k8s_def l n r using i d
    by (simp add: Let_def k8s_setup_def l) (simp add: compiled_cluster_def example_cluster_def)
  then obtain iu where s: "sign_intent (example_sign_env example_k8s_env) example_signer example_k8s_intent = (Some iu, None)"
    and tok: "iu_k8s_token iu = ''tok''" by blast
  have "iu_k8s_token iu \<noteq> []" "map_of (ls_clusters example_signer) (in_host example_k8s_intent) = Some compiled_cluster"
    using tok i l by simp_all
  from token_is_authorised [OF s this example_cluster_compiled] s tok show ?thesis by blast
qed

end
