(* ===== verification/Freeze.thy ===== *)
theory Freeze
  imports Grants
begin

text \<open>
  The kill switch, \<open>internal/signer/freeze.go\<close>: \<open>FreezeStore\<close> with its in-memory set, its table in the
  state database and the durability checkpoint after each change.

  The database keeps the committed rows and the row sets a power loss may fall back to: the commits
  since the last completed checkpoint, the current one included. Each call of the database may fail;
  its outcome is an argument of the operation.
\<close>

section \<open>Data\<close>

abbreviation FreezeSessionID :: string where "FreezeSessionID \<equiv> ''session_id''"
abbreviation FreezeSerial :: string where "FreezeSerial \<equiv> ''serial''"

record freeze_subject =
  fs_kind :: string
  fs_value :: string

record frozen_entry =
  fe_subject :: freeze_subject
  fe_reason :: string
  fe_frozen_by :: string
  fe_frozen_at :: go_time

record freeze_row =
  fr_subject :: freeze_subject
  fr_reason :: string
  fr_frozen_by :: string
  fr_frozen_at :: int

record freeze_db =
  fd_rows :: "(freeze_subject, freeze_row) go_map"
  fd_after_power_loss :: "(freeze_subject, freeze_row) go_map list"

record freeze_store =
  fz_frozen :: "(freeze_subject, frozen_entry) go_map"
  fz_db :: "freeze_db option"

datatype freeze_error =
    InvalidFreezeKind string
  | EmptyFreezeValue
  | PersistFreeze
  | FreezeNotDurable
  | RemoveFreezeDB
  | LoadFreezes
  | UnknownFreezeKind string

definition valid_freeze_kind :: "string \<Rightarrow> bool" where
  "valid_freeze_kind kind = (kind \<in> {FreezeCaller, FreezeEndUser, FreezeSessionID, FreezeSerial})"

section \<open>The database\<close>

text \<open>A committed change; until a checkpoint completes, a power loss may undo it.\<close>

definition fd_commit :: "((freeze_subject, freeze_row) go_map \<Rightarrow> (freeze_subject, freeze_row) go_map) \<Rightarrow> freeze_db \<Rightarrow> freeze_db" where
  "fd_commit f d = \<lparr>fd_rows = f (fd_rows d), fd_after_power_loss = f (fd_rows d) # fd_after_power_loss d\<rparr>"

definition fd_checkpoint :: "bool \<Rightarrow> freeze_db \<Rightarrow> freeze_db" where
  "fd_checkpoint ok d = (if ok then d\<lparr>fd_after_power_loss := [fd_rows d]\<rparr> else d)"

definition row_of_entry :: "frozen_entry \<Rightarrow> freeze_row" where
  "row_of_entry e = \<lparr>fr_subject = fe_subject e, fr_reason = fe_reason e, fr_frozen_by = fe_frozen_by e,
     fr_frozen_at = unix_seconds (fe_frozen_at e)\<rparr>"

definition entry_of_row :: "freeze_row \<Rightarrow> frozen_entry" where
  "entry_of_row r = \<lparr>fe_subject = fr_subject r, fe_reason = fr_reason r, fe_frozen_by = fr_frozen_by r,
     fe_frozen_at = unix_time (fr_frozen_at r)\<rparr>"

section \<open>Operations\<close>

definition new_freeze_store :: freeze_store where
  "new_freeze_store = \<lparr>fz_frozen = [], fz_db = None\<rparr>"

fun load_freezes :: "(freeze_subject \<times> freeze_row) list \<Rightarrow> (freeze_subject, frozen_entry) go_map \<Rightarrow>
    freeze_error + (freeze_subject, frozen_entry) go_map" where
  "load_freezes [] m = Inr m"
| "load_freezes ((k, r) # rows) m =
     (if \<not> valid_freeze_kind (fs_kind (fr_subject r)) then Inl (UnknownFreezeKind (fs_kind (fr_subject r)))
      else load_freezes rows (AList.update (fr_subject r) (entry_of_row r) m))"

definition new_freeze_store_db :: "bool \<Rightarrow> freeze_db \<Rightarrow> freeze_error + freeze_store" where
  "new_freeze_store_db query_ok d =
     (if \<not> query_ok then Inl LoadFreezes
      else case load_freezes (fd_rows d) [] of Inl e \<Rightarrow> Inl e | Inr m \<Rightarrow> Inr \<lparr>fz_frozen = m, fz_db = Some d\<rparr>)"

definition freeze_volatile :: "freeze_store \<Rightarrow> bool" where
  "freeze_volatile s = (fz_db s = None)"

definition freeze_add :: "bool \<Rightarrow> bool \<Rightarrow> freeze_subject \<Rightarrow> string \<Rightarrow> string \<Rightarrow> go_time \<Rightarrow> freeze_store \<Rightarrow>
    bool \<times> freeze_error option \<times> freeze_store" where
  "freeze_add exec_ok checkpoint_ok subj reason who now s =
     (if \<not> valid_freeze_kind (fs_kind subj) then (False, Some (InvalidFreezeKind (fs_kind subj)), s)
      else if fs_value subj = [] then (False, Some EmptyFreezeValue, s)
      else if fz_db s \<noteq> None \<and> \<not> exec_ok then (False, Some PersistFreeze, s)
      else
        let e = \<lparr>fe_subject = subj, fe_reason = reason, fe_frozen_by = who, fe_frozen_at = now\<rparr>;
            existed = map_has (fz_frozen s) subj;
            db = map_option (\<lambda>d. fd_checkpoint checkpoint_ok (fd_commit (AList.update subj (row_of_entry e)) d)) (fz_db s)
        in (\<not> existed, if fz_db s \<noteq> None \<and> \<not> checkpoint_ok then Some FreezeNotDurable else None,
            \<lparr>fz_frozen = AList.update subj e (fz_frozen s), fz_db = db\<rparr>))"

definition freeze_remove :: "bool \<Rightarrow> bool \<Rightarrow> freeze_subject \<Rightarrow> freeze_store \<Rightarrow> (freeze_error + bool) \<times> freeze_store" where
  "freeze_remove exec_ok checkpoint_ok subj s =
     (if \<not> map_has (fz_frozen s) subj then (Inr False, s)
      else case fz_db s of
        None \<Rightarrow> (Inr True, s\<lparr>fz_frozen := AList.delete subj (fz_frozen s)\<rparr>)
      | Some d \<Rightarrow>
          (if \<not> exec_ok then (Inl RemoveFreezeDB, s)
           else let d = fd_commit (AList.delete subj) d in
             if \<not> checkpoint_ok then (Inl RemoveFreezeDB, s\<lparr>fz_db := Some d\<rparr>)
             else (Inr True, \<lparr>fz_frozen = AList.delete subj (fz_frozen s), fz_db = Some (fd_checkpoint True d)\<rparr>)))"

definition freeze_frozen :: "string \<Rightarrow> string \<Rightarrow> freeze_store \<Rightarrow> freeze_subject option" where
  "freeze_frozen caller end_user s =
     (if caller \<noteq> [] \<and> map_has (fz_frozen s) \<lparr>fs_kind = FreezeCaller, fs_value = caller\<rparr>
      then Some \<lparr>fs_kind = FreezeCaller, fs_value = caller\<rparr>
      else if end_user \<noteq> [] \<and> map_has (fz_frozen s) \<lparr>fs_kind = FreezeEndUser, fs_value = end_user\<rparr>
      then Some \<lparr>fs_kind = FreezeEndUser, fs_value = end_user\<rparr>
      else None)"

definition freeze_list :: "freeze_store \<Rightarrow> frozen_entry list" where
  "freeze_list s = map snd (fz_frozen s)"

section \<open>Reachable stores\<close>

text \<open>
  The steps: the operations, a restart of the process on the committed rows, a power loss, which
  leaves one of the row sets of \<open>fd_after_power_loss\<close> to start from, and the restart of a process whose
  store is in memory only, which starts with nothing frozen.
\<close>

inductive freeze_step :: "freeze_store \<Rightarrow> freeze_store \<Rightarrow> bool" where
  add: "freeze_add e c subj reason who now s = (b, err, s') \<Longrightarrow> freeze_step s s'"
| remove: "freeze_remove e c subj s = (r, s') \<Longrightarrow> freeze_step s s'"
| restart: "fz_db s = Some d \<Longrightarrow> new_freeze_store_db ok d = Inr s' \<Longrightarrow> freeze_step s s'"
| power_loss: "fz_db s = Some d \<Longrightarrow> rows \<in> set (fd_after_power_loss d) \<Longrightarrow>
    new_freeze_store_db ok \<lparr>fd_rows = rows, fd_after_power_loss = [rows]\<rparr> = Inr s' \<Longrightarrow> freeze_step s s'"
| restart_volatile: "fz_db s = None \<Longrightarrow> freeze_step s new_freeze_store"

text \<open>
  The rows of a database: filed under their subject, with a known kind.
\<close>

definition rows_ok :: "(freeze_subject, freeze_row) go_map \<Rightarrow> bool" where
  "rows_ok rows \<longleftrightarrow> go_map_inv rows
     \<and> (\<forall>k r. (k, r) \<in> set rows \<longrightarrow> fr_subject r = k \<and> valid_freeze_kind (fs_kind k))"

definition freeze_inv :: "freeze_store \<Rightarrow> bool" where
  "freeze_inv s \<longleftrightarrow> go_map_inv (fz_frozen s)
     \<and> (case fz_db s of None \<Rightarrow> True
        | Some d \<Rightarrow> rows_ok (fd_rows d) \<and> (\<forall>rows \<in> set (fd_after_power_loss d). rows_ok rows)
            \<and> fd_rows d \<in> set (fd_after_power_loss d))"

text \<open>Frozen for good: in memory, on the committed rows and on every row set a power loss may leave.\<close>

definition durably_frozen :: "freeze_subject \<Rightarrow> freeze_store \<Rightarrow> bool" where
  "durably_frozen k s \<longleftrightarrow> map_has (fz_frozen s) k
     \<and> (case fz_db s of None \<Rightarrow> False
        | Some d \<Rightarrow> map_has (fd_rows d) k \<and> (\<forall>rows \<in> set (fd_after_power_loss d). map_has rows k))"

lemma rows_ok_update:
  assumes "rows_ok rows" and "fr_subject r = k" and "valid_freeze_kind (fs_kind k)"
  shows "rows_ok (AList.update k r rows)"
proof -
  have inv: "go_map_inv rows" "go_map_inv (AList.update k r rows)"
    using assms(1) by (simp_all add: rows_ok_def)
  then have "(k', r') \<in> set (AList.update k r rows) \<longleftrightarrow> (if k' = k then r' = r else (k', r') \<in> set rows)" for k' r'
    by (auto simp: map_of_iff_in_set [symmetric] map_of_update)
  then show ?thesis using inv assms by (auto simp: rows_ok_def split: if_splits)
qed

lemma set_delete_subset: "set (AList.delete k m) \<subseteq> set m"
  by (auto simp: AList.delete_eq)

lemma rows_ok_delete: "rows_ok rows \<Longrightarrow> rows_ok (AList.delete k rows)"
  using set_delete_subset by (fastforce simp: rows_ok_def)

lemma load_freezes_ok:
  assumes "\<forall>k r. (k, r) \<in> set rows \<longrightarrow> fr_subject r = k \<and> valid_freeze_kind (fs_kind k)" and "go_map_inv m"
  shows "\<exists>m'. load_freezes rows m = Inr m' \<and> go_map_inv m' \<and> (\<forall>k. map_has m' k \<longleftrightarrow> map_has m k \<or> map_has rows k)"
  using assms
proof (induction rows arbitrary: m)
  case (Cons p rows)
  obtain k r where p: "p = (k, r)" by (cases p)
  then have kr: "fr_subject r = k" "valid_freeze_kind (fs_kind k)" using Cons.prems(1) by auto
  have "\<exists>m'. load_freezes rows (AList.update k (entry_of_row r) m) = Inr m' \<and> go_map_inv m'
      \<and> (\<forall>j. map_has m' j \<longleftrightarrow> map_has (AList.update k (entry_of_row r) m) j \<or> map_has rows j)"
    by (rule Cons.IH) (use Cons.prems in auto)
  then show ?case using p kr by auto
qed (simp add: map_has_def)

text \<open>A start on well-formed rows never fails after the query, and restores exactly them.\<close>

lemma start_restores:
  assumes "rows_ok (fd_rows d)"
  shows "\<exists>m. new_freeze_store_db True d = Inr \<lparr>fz_frozen = m, fz_db = Some d\<rparr> \<and> go_map_inv m
    \<and> (\<forall>k. map_has m k \<longleftrightarrow> map_has (fd_rows d) k)"
proof -
  have "\<exists>m. load_freezes (fd_rows d) [] = Inr m \<and> go_map_inv m \<and> (\<forall>k. map_has m k \<longleftrightarrow> map_has (fd_rows d) k)"
    using assms load_freezes_ok [of "fd_rows d" "[]"] by (simp add: rows_ok_def)
  then show ?thesis by (auto simp: new_freeze_store_db_def)
qed

lemma started_store:
  assumes "new_freeze_store_db ok d = Inr s" and "rows_ok (fd_rows d)"
  shows "fz_db s = Some d" and "go_map_inv (fz_frozen s)" and "map_has (fz_frozen s) k \<longleftrightarrow> map_has (fd_rows d) k"
  using start_restores [OF assms(2)] assms(1) by (cases ok; auto simp: new_freeze_store_db_def)+

lemma freeze_add_inv:
  assumes "freeze_add e c subj reason who now s = (b, err, s')" and "freeze_inv s"
  shows "freeze_inv s'"
  using assms
  by (auto simp: freeze_add_def freeze_inv_def fd_commit_def fd_checkpoint_def Let_def row_of_entry_def
      intro!: rows_ok_update split: if_splits option.splits)

lemma freeze_remove_inv:
  assumes "freeze_remove e c subj s = (r, s')" and "freeze_inv s"
  shows "freeze_inv s'"
  using assms
  by (auto simp: freeze_remove_def freeze_inv_def fd_commit_def fd_checkpoint_def Let_def
      intro!: rows_ok_delete split: if_splits option.splits)

lemma freeze_step_inv: "freeze_step s s' \<Longrightarrow> freeze_inv s \<Longrightarrow> freeze_inv s'"
proof (induction rule: freeze_step.induct)
  case (restart s d ok s')
  then have "rows_ok (fd_rows d)" by (simp add: freeze_inv_def)
  from started_store [OF restart(2) this] restart show ?case by (simp add: freeze_inv_def)
next
  case (power_loss s d rows ok s')
  then have "rows_ok rows" by (auto simp: freeze_inv_def)
  then have "rows_ok (fd_rows \<lparr>fd_rows = rows, fd_after_power_loss = [rows]\<rparr>)" by simp
  from started_store [OF power_loss(3) this] \<open>rows_ok rows\<close> show ?case by (simp add: freeze_inv_def)
next
  case (restart_volatile s)
  show ?case by (simp add: new_freeze_store_def freeze_inv_def)
qed (auto intro: freeze_add_inv freeze_remove_inv)

text \<open>A durably frozen subject stays so under every step but its own removal.\<close>

definition removes :: "freeze_subject \<Rightarrow> freeze_store \<Rightarrow> freeze_store \<Rightarrow> bool" where
  "removes k s s' \<longleftrightarrow> (\<exists>e c r. freeze_remove e c k s = (r, s') \<and> s' \<noteq> s)"

lemma durably_frozen_step:
  assumes "freeze_step s s'" and "freeze_inv s" and "durably_frozen k s" and "\<not> removes k s s'"
  shows "durably_frozen k s'"
  using assms
proof (induction rule: freeze_step.induct)
  case (add e c subj reason who now s b err s')
  then show ?case
    by (auto simp: freeze_add_def durably_frozen_def fd_commit_def fd_checkpoint_def Let_def
        split: if_splits option.splits)
next
  case (remove e c subj s r s')
  show ?case
  proof (cases "subj = k")
    case True
    then show ?thesis using remove by (cases "s' = s") (auto simp: removes_def)
  next
    case False
    then show ?thesis using remove
      by (auto simp: freeze_remove_def durably_frozen_def fd_commit_def fd_checkpoint_def Let_def
          split: if_splits option.splits)
  qed
next
  case (restart s d ok s')
  then have "rows_ok (fd_rows d)" by (simp add: freeze_inv_def)
  from started_store [OF restart(2) this] restart show ?case by (simp add: durably_frozen_def)
next
  case (power_loss s d rows ok s')
  then have "rows_ok rows" "map_has rows k" by (auto simp: freeze_inv_def durably_frozen_def)
  then have "rows_ok (fd_rows \<lparr>fd_rows = rows, fd_after_power_loss = [rows]\<rparr>)" by simp
  from started_store [OF power_loss(3) this] \<open>map_has rows k\<close> show ?case by (simp add: durably_frozen_def)
next
  case (restart_volatile s)
  then show ?case by (simp add: durably_frozen_def)
qed

text \<open>Any run of steps in which nobody removes the freeze of \<open>k\<close>.\<close>

inductive freeze_run :: "freeze_subject \<Rightarrow> freeze_store \<Rightarrow> freeze_store \<Rightarrow> bool" for k where
  run_refl: "freeze_run k s s"
| run_step: "freeze_run k s t \<Longrightarrow> freeze_step t u \<Longrightarrow> \<not> removes k t u \<Longrightarrow> freeze_run k s u"

lemma freeze_run_keeps:
  "freeze_run k s t \<Longrightarrow> freeze_inv s \<Longrightarrow> durably_frozen k s \<Longrightarrow> freeze_inv t \<and> durably_frozen k t"
  by (induction rule: freeze_run.induct) (auto intro: freeze_step_inv durably_frozen_step)

lemma freeze_add_outcome:
  assumes "freeze_add e c subj reason who now s = (b, err, s')"
  shows "err = None \<Longrightarrow> \<not> freeze_volatile s \<Longrightarrow> durably_frozen subj s' \<or> (\<exists>d. fz_db s = Some d \<and> \<not> c)"
    and "err = Some FreezeNotDurable \<Longrightarrow> map_has (fz_frozen s') subj"
    and "err \<noteq> None \<Longrightarrow> err \<noteq> Some FreezeNotDurable \<Longrightarrow> s' = s"
  using assms
  by (auto simp: freeze_add_def durably_frozen_def freeze_volatile_def fd_commit_def fd_checkpoint_def Let_def
      split: if_splits option.splits)

lemma freeze_add_none:
  assumes "freeze_add e c subj reason who now s = (b, None, s')" and "\<not> freeze_volatile s"
  shows "durably_frozen subj s'"
  using freeze_add_outcome(1) [OF assms(1) _ assms(2)] assms(1) by (auto simp: freeze_add_def Let_def split: if_splits)

section \<open>Properties\<close>

text \<open>
  C33: the kill switch holds. Once freezing a caller in a store with a database has returned without
  error, the signer's check refuses that caller after any run of freezes, other removals, process restarts
  and power losses, as long as no removal of that freeze, not even one that fails half-way, reaches the
  store. A store in memory only is not covered: its freezes are gone after a restart.
\<close>

theorem freeze_holds:
  assumes "freeze_add e c \<lparr>fs_kind = FreezeCaller, fs_value = caller\<rparr> reason who now s = (b, None, s')"
    and "\<not> freeze_volatile s" and "freeze_inv s" and "freeze_run \<lparr>fs_kind = FreezeCaller, fs_value = caller\<rparr> s' t"
  shows "freeze_frozen caller end_user t = Some \<lparr>fs_kind = FreezeCaller, fs_value = caller\<rparr>"
proof -
  have "caller \<noteq> []" using assms(1) by (auto simp: freeze_add_def split: if_splits)
  moreover have "durably_frozen \<lparr>fs_kind = FreezeCaller, fs_value = caller\<rparr> t"
    using freeze_run_keeps [OF assms(4) freeze_add_inv [OF assms(1,3)] freeze_add_none [OF assms(1,2)]] by blast
  ultimately show ?thesis by (simp add: freeze_frozen_def durably_frozen_def)
qed

text \<open>
  A failed freeze is never half done. When \<open>Add\<close> reports an error other than the durability error the
  store is unchanged; when it reports the durability error the subject is frozen in memory all the same,
  and the row is written.
\<close>

theorem freeze_add_errors:
  assumes "freeze_add e c subj reason who now s = (b, Some err, s')"
  shows "(err \<noteq> FreezeNotDurable \<and> s' = s)
    \<or> (err = FreezeNotDurable \<and> map_has (fz_frozen s') subj
        \<and> (\<exists>d. fz_db s' = Some d \<and> map_has (fd_rows d) subj))"
  using assms
  by (auto simp: freeze_add_def fd_commit_def fd_checkpoint_def Let_def split: if_splits)

text \<open>
  A failed unfreeze can drop the freeze. If the checkpoint after the DELETE fails, \<open>Remove\<close> reports
  an error and the subject stays frozen in memory, but its row is gone: the next restart of the process
  starts without the freeze that the operator was told is still in place.
\<close>

theorem failed_unfreeze_drops_freeze:
  assumes "freeze_inv s" and "fz_db s = Some d" and "map_has (fz_frozen s) subj"
  shows "\<exists>s1 s2 d1. freeze_remove True False subj s = (Inl RemoveFreezeDB, s1) \<and> map_has (fz_frozen s1) subj
    \<and> fz_db s1 = Some d1 \<and> new_freeze_store_db True d1 = Inr s2 \<and> \<not> map_has (fz_frozen s2) subj"
proof -
  let ?d1 = "fd_commit (AList.delete subj) d"
  have "rows_ok (fd_rows ?d1)" using assms by (simp add: freeze_inv_def fd_commit_def rows_ok_delete)
  from start_restores [OF this] obtain m where "new_freeze_store_db True ?d1 = Inr \<lparr>fz_frozen = m, fz_db = Some ?d1\<rparr>"
    and "\<not> map_has m subj" by (auto simp: fd_commit_def)
  moreover have "freeze_remove True False subj s = (Inl RemoveFreezeDB, s\<lparr>fz_db := Some ?d1\<rparr>)"
    using assms by (simp add: freeze_remove_def)
  ultimately show ?thesis using assms(3) by force
qed

section \<open>Witnesses\<close>

definition example_frozen :: freeze_store where
  "example_frozen = snd (snd (freeze_add True True \<lparr>fs_kind = FreezeCaller, fs_value = ''b1''\<rparr> ''leak'' ''ops'' 0
     \<lparr>fz_frozen = [], fz_db = Some \<lparr>fd_rows = [], fd_after_power_loss = [[]]\<rparr>\<rparr>))"

lemma example_frozen_added:
  "freeze_add True True \<lparr>fs_kind = FreezeCaller, fs_value = ''b1''\<rparr> ''leak'' ''ops'' 0
     \<lparr>fz_frozen = [], fz_db = Some \<lparr>fd_rows = [], fd_after_power_loss = [[]]\<rparr>\<rparr> = (True, None, example_frozen)"
  unfolding example_frozen_def by code_simp

lemma example_freeze_inv: "freeze_inv \<lparr>fz_frozen = [], fz_db = Some \<lparr>fd_rows = [], fd_after_power_loss = [[]]\<rparr>\<rparr>"
  by (simp add: freeze_inv_def rows_ok_def)

theorem freeze_holds_witness:
  "freeze_frozen ''b1'' ''alice'' example_frozen = Some \<lparr>fs_kind = FreezeCaller, fs_value = ''b1''\<rparr>"
proof -
  have "\<not> freeze_volatile \<lparr>fz_frozen = [], fz_db = Some \<lparr>fd_rows = [], fd_after_power_loss = [[]]\<rparr>\<rparr>" by (simp add: freeze_volatile_def)
  from freeze_holds [OF example_frozen_added this example_freeze_inv freeze_run.run_refl] show ?thesis .
qed

theorem freeze_add_errors_witness:
  "map_has (fz_frozen (snd (snd (freeze_add True False \<lparr>fs_kind = FreezeEndUser, fs_value = ''alice''\<rparr> [] ''ops'' 0 example_frozen))))
     \<lparr>fs_kind = FreezeEndUser, fs_value = ''alice''\<rparr>"
proof -
  obtain s' where s': "freeze_add True False \<lparr>fs_kind = FreezeEndUser, fs_value = ''alice''\<rparr> [] ''ops'' 0 example_frozen
      = (True, Some FreezeNotDurable, s')"
    by (simp add: freeze_add_def example_frozen_def valid_freeze_kind_def Let_def)
  from freeze_add_errors [OF this] s' show ?thesis by simp
qed

theorem failed_unfreeze_drops_freeze_witness:
  "\<exists>s1 s2 d1. freeze_remove True False \<lparr>fs_kind = FreezeCaller, fs_value = ''b1''\<rparr> example_frozen = (Inl RemoveFreezeDB, s1)
     \<and> fz_db s1 = Some d1 \<and> new_freeze_store_db True d1 = Inr s2
     \<and> \<not> map_has (fz_frozen s2) \<lparr>fs_kind = FreezeCaller, fs_value = ''b1''\<rparr>"
proof -
  have h: "map_has (fz_frozen example_frozen) \<lparr>fs_kind = FreezeCaller, fs_value = ''b1''\<rparr>"
    "\<exists>d. fz_db example_frozen = Some d"
    by (simp_all add: example_frozen_def freeze_add_def valid_freeze_kind_def Let_def)
  then obtain d where "fz_db example_frozen = Some d" by blast
  from failed_unfreeze_drops_freeze [OF freeze_add_inv [OF example_frozen_added example_freeze_inv] this h(1)]
  show ?thesis by blast
qed

end
