(* ===== verification/Rate_Limit.thy ===== *)
theory Rate_Limit
  imports Complex_Main Bounded_Table "HOL-Library.Signed_Division"
begin

text \<open>
  The signer's token-bucket rate limiter, \<open>internal/signer/ratelimit.go\<close>: \<open>Allow\<close> with the bucket map's
  pruning and eviction, and \<open>RetryAfter\<close>.

  A float64 is a rational number, and every arithmetic operation on float64 values is followed by
  the rounding function \<open>fl\<close>, a parameter.
\<close>

section \<open>The limiter\<close>

record rate_bucket =
  rb_tokens :: rat
  rb_last :: go_time

type_synonym rate_limiter = "(string, rate_bucket) go_map"
type_synonym rounding = "rat \<Rightarrow> rat"

definition max_rate_limit_keys :: nat where "max_rate_limit_keys = 4096"

definition new_rate_limiter :: rate_limiter where "new_rate_limiter = []"

text \<open>\<open>Time.Sub\<close>, which saturates at the bounds of a duration, and \<open>Duration.Seconds\<close>.\<close>

definition time_sub :: "go_time \<Rightarrow> go_time \<Rightarrow> go_duration" where
  "time_sub t u = max (- (2 ^ 63)) (min (2 ^ 63 - 1) (t - u))"

lemma time_sub_forward: "u \<le> t \<Longrightarrow> 0 \<le> time_sub t u \<and> time_sub t u \<le> t - u"
  by (auto simp: time_sub_def)

definition seconds_of :: "rounding \<Rightarrow> go_duration \<Rightarrow> rat" where
  "seconds_of fl d = fl (of_int (d sdiv go_second) + fl (of_int (d smod go_second) / 1000000000))"

definition rl_prune :: "go_time \<Rightarrow> rate_limiter \<Rightarrow> rate_limiter" where
  "rl_prune now m = map_keep (\<lambda>_ b. \<not> time_sub now (rb_last b) > go_minute) m"

definition rl_evict_oldest :: "rate_limiter \<Rightarrow> rate_limiter" where
  "rl_evict_oldest m = (case oldest_key rb_last m of None \<Rightarrow> m | Some k \<Rightarrow> AList.delete k m)"

text \<open>What happens before a new key is inserted.\<close>

definition rl_make_room :: "go_time \<Rightarrow> rate_limiter \<Rightarrow> rate_limiter" where
  "rl_make_room now m =
     (if max_rate_limit_keys \<le> length m then
        (let m = rl_prune now m in if max_rate_limit_keys \<le> length m then rl_evict_oldest m else m)
      else m)"

text \<open>The refill and the token taken, on one bucket.\<close>

definition rl_take :: "rounding \<Rightarrow> int \<Rightarrow> go_time \<Rightarrow> rate_bucket \<Rightarrow> bool \<times> rate_bucket" where
  "rl_take fl per_min now b =
     (let capacity = of_int per_min;
          tokens = fl (rb_tokens b + fl (fl (seconds_of fl (time_sub now (rb_last b)) * capacity) / 60));
          tokens = (if capacity < tokens then capacity else tokens)
      in if tokens < 1 then (False, \<lparr>rb_tokens = tokens, rb_last = now\<rparr>)
         else (True, \<lparr>rb_tokens = fl (tokens - 1), rb_last = now\<rparr>))"

definition rl_allow :: "rounding \<Rightarrow> string \<Rightarrow> int \<Rightarrow> go_time \<Rightarrow> rate_limiter \<Rightarrow> bool \<times> rate_limiter" where
  "rl_allow fl key per_min now l =
     (if per_min \<le> 0 then (True, l)
      else
        let l = (if map_has l key then l
                 else AList.update key \<lparr>rb_tokens = of_int per_min, rb_last = now\<rparr> (rl_make_room now l))
        in case map_of l key of
             None \<Rightarrow> (False, l)
           | Some b \<Rightarrow> (case rl_take fl per_min now b of (ok, b') \<Rightarrow> (ok, AList.update key b' l)))"

definition retry_after :: "int \<Rightarrow> int" where
  "retry_after per_min =
     (if per_min \<le> 0 then 0
      else let secs = 60 sdiv per_min; secs = (if 60 smod per_min \<noteq> 0 then secs + 1 else secs)
           in if secs < 1 then 1 else secs)"

section \<open>The bound on the bucket map\<close>

interpretation rl: bounded_table max_rate_limit_keys "\<lambda>_. True" rl_make_room
proof
  fix m :: rate_limiter and now :: go_time
  assume inv: "go_map_inv m"
  have pr: "go_map_inv (rl_prune now m)" using inv by (simp add: rl_prune_def)
  have ev: "go_map_inv (rl_evict_oldest n)" if "go_map_inv n" for n
    using that by (simp add: rl_evict_oldest_def split: option.splits)
  show "go_map_inv (rl_make_room now m)" using inv pr ev by (simp add: rl_make_room_def Let_def)
  show "map_of m k = Some v" if "map_of (rl_make_room now m) k = Some v" for k v
    using that inv pr
    by (auto simp: rl_make_room_def rl_evict_oldest_def rl_prune_def Let_def map_of_delete map_of_keep
        split: if_splits option.splits)
  assume len: "length m \<le> max_rate_limit_keys"
  show "length (rl_make_room now m) < max_rate_limit_keys"
  proof (cases "max_rate_limit_keys \<le> length m \<and> max_rate_limit_keys \<le> length (rl_prune now m)")
    case True
    then have "rl_prune now m \<noteq> []" by (auto simp: max_rate_limit_keys_def)
    then obtain k where k: "oldest_key rb_last (rl_prune now m) = Some k"
      by (cases "rl_prune now m") (auto simp: oldest_key_def)
    have "length (rl_prune now m) \<le> length m" by (simp add: rl_prune_def)
    with True len k length_delete_oldest [OF pr k] show ?thesis
      by (simp add: rl_make_room_def rl_evict_oldest_def Let_def)
  next
    case False
    then show ?thesis by (auto simp: rl_make_room_def Let_def)
  qed
qed

lemma update_update: "AList.update k v (AList.update k w m) = AList.update k v m"
  by (rule update_last)

text \<open>\<open>Allow\<close> with a positive limit enters one bucket into the table.\<close>

lemma rl_allow_enter:
  assumes "0 < per_min" and "rl_allow fl key per_min now l = (ok, l')"
  shows "\<exists>b. l' = rl.enter now key b l"
proof (cases "map_of l key")
  case None
  then have "\<not> map_has l key" by (simp add: map_has_def)
  then show ?thesis using assms
    by (auto simp: rl_allow_def rl.enter_def Let_def map_of_update update_update split: prod.splits)
next
  case (Some b)
  then have "map_has l key" by (simp add: map_has_def)
  then show ?thesis using assms Some
    by (auto simp: rl_allow_def rl.enter_def Let_def split: prod.splits)
qed

text \<open>The limiters that calls of \<open>Allow\<close> can lead to.\<close>

inductive rl_reachable :: "rounding \<Rightarrow> rate_limiter \<Rightarrow> bool" for fl where
  new: "rl_reachable fl new_rate_limiter"
| allow: "rl_reachable fl l \<Longrightarrow> rl_allow fl key per_min now l = (ok, l') \<Longrightarrow> rl_reachable fl l'"

lemma rl_reachable_inv: "rl_reachable fl l \<Longrightarrow> rl.table_inv l"
proof (induction rule: rl_reachable.induct)
  case new
  then show ?case by (simp add: new_rate_limiter_def rl.table_inv_def)
next
  case (allow l key per_min now ok l')
  show ?case
  proof (cases "0 < per_min")
    case True
    from rl_allow_enter [OF True allow.hyps(2)] allow.IH show ?thesis using rl.enter_inv by blast
  next
    case False
    then show ?thesis using allow by (simp add: rl_allow_def)
  qed
qed

section \<open>The rate\<close>

text \<open>Calls of one key with one limit at the given times: how many are allowed.\<close>

fun rl_allowed :: "rounding \<Rightarrow> string \<Rightarrow> int \<Rightarrow> go_time list \<Rightarrow> rate_limiter \<Rightarrow> nat" where
  "rl_allowed fl key per_min [] l = 0"
| "rl_allowed fl key per_min (t # ts) l =
     (case rl_allow fl key per_min t l of (ok, l') \<Rightarrow>
        (if ok then 1 else 0) + rl_allowed fl key per_min ts l')"

text \<open>Exact arithmetic: no rounding.\<close>

definition exact :: rounding where "exact x = x"

lemma seconds_of_exact:
  assumes "0 \<le> d"
  shows "seconds_of exact d = of_int d / 1000000000"
proof -
  have q: "d sdiv go_second = d div go_second" "d smod go_second = d mod go_second"
    using assms by (cases "d = 0"; simp add: signed_divide_int_def signed_modulo_int_def)+
  have "(of_int d :: rat) = of_int (d div go_second) * of_int go_second + of_int (d mod go_second)"
    by (metis of_int_add of_int_mult div_mult_mod_eq)
  then show ?thesis unfolding seconds_of_def q exact_def by (simp add: field_simps)
qed

lemma rl_take_exact:
  assumes "rl_take exact per_min now b = (ok, b')" and "rb_last b \<le> now" and "0 \<le> per_min"
  shows "rb_last b' = now" and "rb_tokens b' + (if ok then 1 else 0) \<le> of_int per_min"
    and "rb_tokens b' + (if ok then 1 else 0) \<le> rb_tokens b + of_int (now - rb_last b) * of_int per_min / 60000000000"
    and "0 \<le> rb_tokens b \<Longrightarrow> 0 \<le> rb_tokens b'"
proof -
  note d = time_sub_forward [OF assms(2)]
  define x y :: rat where "x = of_int (time_sub now (rb_last b)) * of_int per_min / 60000000000"
    and "y = of_int (now - rb_last b) * of_int per_min / 60000000000"
  have x: "exact (exact (seconds_of exact (time_sub now (rb_last b)) * of_int per_min) / 60) = x"
    using d by (simp add: seconds_of_exact exact_def x_def)
  have "(of_int (time_sub now (rb_last b)) :: rat) \<le> of_int (now - rb_last b)" using d by (simp only: of_int_le_iff)
  then have le: "0 \<le> x" "x \<le> y"
    using d assms(3) unfolding x_def y_def by (auto intro!: divide_right_mono mult_right_mono simp del: of_int_diff)
  show "rb_last b' = now" "rb_tokens b' + (if ok then 1 else 0) \<le> of_int per_min"
    "rb_tokens b' + (if ok then 1 else 0) \<le> rb_tokens b + of_int (now - rb_last b) * of_int per_min / 60000000000"
    "0 \<le> rb_tokens b \<Longrightarrow> 0 \<le> rb_tokens b'"
    using assms(1,3) le unfolding rl_take_def Let_def x y_def [symmetric] by (auto simp: exact_def split: if_splits)
qed

lemma rl_allow_step:
  assumes "0 < per_min" and "map_of l key = Some b"
  obtains ok b' where "rl_take fl per_min now b = (ok, b')"
    and "rl_allow fl key per_min now l = (ok, AList.update key b' l)"
  using assms by (cases "rl_take fl per_min now b") (auto simp: rl_allow_def Let_def map_has_def)

lemma rl_allowed_bucket:
  assumes "map_of l key = Some b" and "0 \<le> rb_tokens b" and "sorted (rb_last b # ts)"
    and "\<forall>t \<in> set (rb_last b # ts). t \<le> stop" and "0 < per_min"
  shows "of_nat (rl_allowed exact key per_min ts l)
    \<le> rb_tokens b + of_int (stop - rb_last b) * of_int per_min / 60000000000"
  using assms
proof (induction ts arbitrary: l b)
  case Nil
  then show ?case by simp
next
  case (Cons t ts)
  obtain ok b' where take: "rl_take exact per_min t b = (ok, b')"
    and al: "rl_allow exact key per_min t l = (ok, AList.update key b' l)"
    using rl_allow_step [OF Cons.prems(5,1)] by blast
  have le: "rb_last b \<le> t" and p0: "0 \<le> per_min" using Cons.prems(3,5) by auto
  note k = rl_take_exact [OF take le p0]
  have "map_of (AList.update key b' l) key = Some b'" by (simp add: map_of_update)
  then have ih: "of_nat (rl_allowed exact key per_min ts (AList.update key b' l))
      \<le> rb_tokens b' + of_int (stop - rb_last b') * of_int per_min / 60000000000"
    by (rule Cons.IH) (use Cons.prems k(1,4) in auto)
  have eq: "of_int (stop - rb_last b') * of_int per_min / 60000000000 + of_int (t - rb_last b) * of_int per_min / 60000000000
      = (of_int (stop - rb_last b) * of_int per_min / 60000000000 :: rat)"
    unfolding k(1) by (simp add: field_simps)
  have "(of_nat (rl_allowed exact key per_min (t # ts) l) :: rat)
      = (if ok then 1 else 0) + of_nat (rl_allowed exact key per_min ts (AList.update key b' l))"
    by (simp add: al)
  then show ?case using ih k(3) eq by linarith
qed

section \<open>Properties\<close>

text \<open>
  The bucket map never holds more than 4096 keys and never two buckets for one key, whatever keys
  call \<open>Allow\<close>, with whatever limits, at whatever times and however float64 values are rounded.
\<close>

theorem rate_limiter_bounded:
  assumes "rl_reachable fl l"
  shows "go_map_inv l \<and> length l \<le> 4096"
  using rl_reachable_inv [OF assms] unfolding rl.table_inv_def by (simp add: max_rate_limit_keys_def)

theorem rate_limiter_bounded_witness:
  "length (snd (rl_allow exact ''b1'' 60 0 new_rate_limiter)) \<le> 4096"
proof -
  have "rl_reachable exact (snd (rl_allow exact ''b1'' 60 0 new_rate_limiter))"
    by (rule rl_reachable.allow [OF rl_reachable.new, of exact "''b1''" 60 0 "fst (rl_allow exact ''b1'' 60 0 new_rate_limiter)"]) simp
  from rate_limiter_bounded [OF this] show ?thesis by blast
qed

text \<open>
  The rate is kept. In exact arithmetic, calls of one key with a positive limit at times between
  \<open>start\<close> and \<open>stop\<close> are allowed at most once per token: one minute's budget plus what the elapsed time
  refills, from any limiter whose bucket for the key is not negative and not from the future.
\<close>

theorem rate_is_kept:
  assumes "0 < per_min" and "sorted ts" and "\<forall>t \<in> set ts. start \<le> t \<and> t \<le> stop" and "start \<le> stop"
    and "\<forall>b. map_of l key = Some b \<longrightarrow> 0 \<le> rb_tokens b \<and> rb_last b \<le> start"
  shows "of_nat (rl_allowed exact key per_min ts l)
    \<le> (of_int per_min + of_int (stop - start) * of_int per_min / 60000000000 :: rat)"
proof (cases ts)
  case Nil
  then show ?thesis using assms(1,4) by simp
next
  case (Cons t rest)
  let ?l = "if map_has l key then l
    else AList.update key \<lparr>rb_tokens = of_int per_min, rb_last = t\<rparr> (rl_make_room t l)"
  obtain b where b: "map_of ?l key = Some b" "0 \<le> rb_tokens b" "rb_last b \<le> t"
  proof (cases "map_of l key")
    case None
    then show ?thesis using assms(1) by (intro that) (auto simp: map_has_def map_of_update)
  next
    case (Some c)
    then show ?thesis using assms(3,5) Cons by (intro that [of c]) (auto simp: map_has_def)
  qed
  have same: "rl_allow exact key per_min t l = rl_allow exact key per_min t ?l"
    using assms(1) by (auto simp: rl_allow_def Let_def)
  obtain ok b' where take: "rl_take exact per_min t b = (ok, b')"
    and al: "rl_allow exact key per_min t ?l = (ok, AList.update key b' ?l)"
    using rl_allow_step [OF assms(1) b(1)] by blast
  have p0: "0 \<le> per_min" using assms(1) by simp
  note k = rl_take_exact [OF take b(3) p0]
  have rest: "of_nat (rl_allowed exact key per_min rest (AList.update key b' ?l))
      \<le> rb_tokens b' + of_int (stop - rb_last b') * of_int per_min / 60000000000"
    by (rule rl_allowed_bucket) (use assms Cons k b in \<open>auto simp: map_of_update\<close>)
  have "start \<le> t" using assms(3) Cons by simp
  then have "(of_int (stop - t) * of_int per_min / 60000000000 :: rat) \<le> of_int (stop - start) * of_int per_min / 60000000000"
    using p0 by (intro divide_right_mono mult_right_mono) auto
  moreover have "(of_nat (rl_allowed exact key per_min ts l) :: rat)
      = (if ok then 1 else 0) + of_nat (rl_allowed exact key per_min rest (AList.update key b' ?l))"
    unfolding Cons rl_allowed.simps same al by simp
  ultimately show ?thesis using rest k(1,2) by simp
qed

theorem rate_is_kept_witness:
  "rl_allowed exact ''b1'' 2 [0, 0, 0, 0] new_rate_limiter \<le> 2"
  using rate_is_kept [of 2 "[0, 0, 0, 0]" 0 0 new_rate_limiter "''b1''"]
  by (simp add: new_rate_limiter_def)

text \<open>The hint: the fewest whole seconds after which a token has accrued.\<close>

lemma retry_after_least:
  assumes "0 < per_min" and "per_min \<le> 60"
  shows "60 \<le> retry_after per_min * per_min \<and> (retry_after per_min - 1) * per_min < 60"
proof -
  have q: "60 sdiv per_min = 60 div per_min" "60 smod per_min = 60 mod per_min"
    using assms(1) by (simp_all add: signed_divide_int_def signed_modulo_int_def)
  define n r where "n = 60 div per_min" and "r = 60 mod per_min"
  have "n * per_min + r = 60" "0 \<le> r" "r < per_min" using assms(1) by (simp_all add: n_def r_def)
  moreover have "1 \<le> n" using assms by (simp add: n_def pos_imp_zdiv_pos_iff int_one_le_iff_zero_less)
  ultimately show ?thesis using assms(1) unfolding retry_after_def q n_def [symmetric] r_def [symmetric]
    by (auto simp: Let_def algebra_simps)
qed

end
