(* ===== verification/Signer_Service.thy ===== *)
theory Signer_Service
  imports Local_Signer Freeze Rate_Limit Audit_Log
begin

text \<open>
  The HTTP service of the signer: \<open>cmd/signer/main.go\<close>, \<open>k8s.go\<close> and \<open>grants.go\<close>. The state is the
  \<open>server\<close> struct; a handler takes the request as the mTLS peer name (\<^term>\<open>None\<close> where there is none) and the
  decoded body (\<^term>\<open>None\<close> where decoding or the size limit fails) and returns the reply and the new state.

  \<open>service_env\<close> gathers what one request reads from outside: the libraries of the signer and of the audit log,
  the answers of the operating system to each record appended, the clock, the answers of the state database, and
  the wording of errors, rules and warnings, which the handlers only copy into audit records. The state a
  handler reads under the lock \<open>mu\<close> is read once, as \<open>snapshot\<close> does.
\<close>

section \<open>Data\<close>

text \<open>The end user an OIDC token stands for, \<open>oauth.Identity\<close>; the groups are nil without a groups claim.\<close>

record identity =
  id_user :: string
  id_groups :: "string list option"
  id_context :: string

record signer_server =
  sv_local :: local_signer
  sv_hosts :: policy_table
  sv_callers :: caller_table
  sv_reload_cn :: "string list"
  sv_forwarders :: "string list"
  sv_sign_rate :: int
  sv_end_user_verifier :: "(string \<Rightarrow> identity option) option"
  sv_audit :: audit_log
  sv_fail_closed :: bool
  sv_grants :: grant_store
  sv_max_grant_ttl :: go_duration
  sv_freezes :: freeze_store
  sv_rate_limiter :: rate_limiter

datatype end_user_failure =
    NoEndUserIssuer string
  | NoBearerToken
  | TokenInvalid
  | UnsafeEndUser
  | UnsafeGroup
  | UnsafeContext
  | GroupsNotVerifiable

datatype k8s_shape_error = ShapeSudo | ShapePTY | ShapeFileTransfer | ShapeSession | ShapeRole

text \<open>What the handlers put into the error field of a record.\<close>

datatype service_error =
    EndUserFailure end_user_failure
  | Frozen freeze_subject
  | HostOutsideGroup string string
  | SignFailure local_error
  | CADetail ca_detail
  | K8sShape k8s_shape_error
  | ClusterOutsideGroup string string
  | NoClusterPolicy string
  | MintDetail
  | NotAuthorised
  | GrantFailure grant_error
  | GrantTTLTooLong
  | HostNotFound
  | HostNotAllowlist
  | UnknownGrant
  | NothingToWaive
  | FrozenNoLearn freeze_subject

record service_env =
  sq_sign :: sign_env
  sq_audit :: audit_lib
  sq_io :: "nat \<Rightarrow> append_io"
  sq_now :: go_time
  sq_round :: rounding
  sq_parse_key :: "string \<Rightarrow> string option"
  sq_codec :: json_codec
  sq_grant_id :: string
  sq_insert_ok :: bool
  sq_delete_ok :: "string \<Rightarrow> bool"
  sq_begin_ok :: bool
  sq_commit_ok :: bool
  sq_freeze_ok :: bool
  sq_checkpoint_ok :: bool
  sq_error_text :: "service_error \<Rightarrow> string"
  sq_rule_text :: "cmd_rule \<Rightarrow> string"
  sq_warning_text :: "string \<times> cmd_rule \<Rightarrow> string"

datatype refusal =
    MethodNotAllowed
  | Unauthenticated
  | RateLimitExceeded int
  | InvalidRequest
  | InvalidField string
  | FieldTooLong string
  | OnBehalfOfNotAllowed
  | InvalidCaller
  | AuditUnavailable
  | EndUserUnverified
  | SubjectFrozen
  | InvalidPubkey
  | HostNotAuthorised
  | ClusterNotAuthorised
  | UnknownCluster
  | ShapeRefused k8s_shape_error
  | SignDenied local_error
  | SigningFailed local_error
  | NotAllowed
  | GrantRefused service_error
  | InvalidGrantId
  | InvalidFreezeKindGiven
  | InvalidFreezeValue
  | InvalidSerial
  | WouldBeVolatile
  | FreezeFailed freeze_error
  | FrozenButGrants grant_error
  | UnfrozenButGrants grant_error
  | ReloadFailed

text \<open>\<open>WireResponse\<close> of \<open>internal/signer/remote.go\<close>.\<close>

record wire_response =
  ws_certificate :: "certificate option"
  ws_serial :: "64 word"
  ws_k8s_token :: string
  ws_k8s_token_expiry :: go_time
  ws_elevation_prefix :: string
  ws_decision :: decision_info
  ws_envelope :: string

datatype 'a reply = HttpError nat refusal | HttpOK nat 'a

definition decision_response :: "decision_info \<Rightarrow> wire_response" where
  "decision_response d = \<lparr>ws_certificate = None, ws_serial = 0, ws_k8s_token = [], ws_k8s_token_expiry = 0,
     ws_elevation_prefix = [], ws_decision = d, ws_envelope = []\<rparr>"

abbreviation maxIdentifierLen :: nat where "maxIdentifierLen \<equiv> 1024"

section \<open>Helpers\<close>

definition sign_rate :: "signer_server \<Rightarrow> int" where
  "sign_rate s = sv_sign_rate s"

text \<open>The signer of the current state, with the grant store it was built with.\<close>

definition current_local :: "signer_server \<Rightarrow> local_signer" where
  "current_local s = (sv_local s)\<lparr>ls_grants := Some (store_api (sv_grants s))\<rparr>"

definition rate_admits :: "service_env \<Rightarrow> string \<Rightarrow> signer_server \<Rightarrow> bool \<times> signer_server" where
  "rate_admits Q caller s =
     (if sign_rate s \<le> 0 then (True, s)
      else case rl_allow (sq_round Q) caller (sign_rate s) (sq_now Q) (sv_rate_limiter s) of
        (ok, l) \<Rightarrow> (ok, s\<lparr>sv_rate_limiter := l\<rparr>))"

definition admit_denial :: "service_env \<Rightarrow> string \<Rightarrow> signer_server \<Rightarrow> bool \<times> signer_server" where
  "admit_denial Q caller s = rate_admits Q caller s"

definition resolve_caller :: "string \<Rightarrow> string \<Rightarrow> string list \<Rightarrow> string option" where
  "resolve_caller mtls_cn on_behalf_of forwarders =
     (if on_behalf_of = [] then Some mtls_cn else if mtls_cn \<in> set forwarders then Some on_behalf_of else None)"

definition frozen_subject :: "string \<Rightarrow> string \<Rightarrow> string \<Rightarrow> signer_server \<Rightarrow> freeze_subject option" where
  "frozen_subject peer resolved end_user s =
     (case freeze_frozen resolved end_user (sv_freezes s) of
        Some subj \<Rightarrow> Some subj
      | None \<Rightarrow> (if peer \<noteq> resolved then freeze_frozen peer [] (sv_freezes s) else None))"

definition rederive_end_user :: "signer_server \<Rightarrow> string \<Rightarrow> wire_request \<Rightarrow> end_user_failure + wire_request" where
  "rederive_end_user s caller req =
     (if \<not> may_require_verified_end_user (sv_callers s) caller then Inr req
      else case sv_end_user_verifier s of
        None \<Rightarrow> Inl (NoEndUserIssuer caller)
      | Some verify \<Rightarrow>
          (if wr_bearer_token req = [] then Inl NoBearerToken
           else case verify (wr_bearer_token req) of
             None \<Rightarrow> Inl TokenInvalid
           | Some ident \<Rightarrow>
               (if has_unsafe_token_char (id_user ident) then Inl UnsafeEndUser
                else if list_ex has_unsafe_token_char (case id_groups ident of None \<Rightarrow> [] | Some gs \<Rightarrow> gs) then Inl UnsafeGroup
                else if has_unsafe_token_char (id_context ident) then Inl UnsafeContext
                else if id_groups ident = None \<and> wr_end_user_groups req \<noteq> None then Inl GroupsNotVerifiable
                else Inr (req\<lparr>wr_end_user := id_user ident, wr_end_user_groups := id_groups ident,
                              wr_end_user_context := id_context ident\<rparr>))))"

text \<open>\<open>appendAudit\<close>: \<^term>\<open>False\<close> where the caller must deny the action.\<close>

definition append_audit :: "service_env \<Rightarrow> nat \<Rightarrow> entry \<Rightarrow> signer_server \<Rightarrow> bool \<times> signer_server" where
  "append_audit Q n e s =
     (case audit_append (sq_audit Q) (sq_io Q n) e (sv_audit s) of
        (err, l) \<Rightarrow> (err = None \<or> \<not> sv_fail_closed s, s\<lparr>sv_audit := l\<rparr>))"

definition safe_audit_host :: "string \<Rightarrow> string" where
  "safe_audit_host host = (if host = [] \<or> has_unsafe_token_char host then ''(invalid-host)'' else host)"

definition with_decision :: "service_env \<Rightarrow> decision_info option \<Rightarrow> service_error option \<Rightarrow> entry \<Rightarrow> entry" where
  "with_decision Q dec err e =
     (let e = (case dec of None \<Rightarrow> e
               | Some d \<Rightarrow> e\<lparr>en_policy_rule := sq_rule_text Q (di_matched_rule d),
                            en_warning := (case di_warning d of None \<Rightarrow> [] | Some w \<Rightarrow> sq_warning_text Q w)\<rparr>)
      in case err of None \<Rightarrow> e | Some x \<Rightarrow> e\<lparr>en_err := sq_error_text Q x\<rparr>)"

definition emission_command :: "wire_request \<Rightarrow> string" where
  "emission_command req =
     ''role='' @ wr_role req @ '' purpose='' @ wr_purpose req
     @ (if wr_session_mode req \<noteq> [] then '' session_mode='' @ wr_session_mode req else [])
     @ (if wr_end_user req \<noteq> [] then '' user='' @ wr_end_user req else [])
     @ (if wr_end_user_context req \<noteq> [] then '' ctx='' @ wr_end_user_context req else [])
     @ (if wr_sudo req then '' elev=sudo:'' @ (if wr_sudo_user req = [] then ''root'' else wr_sudo_user req) else [])
     @ (if wr_pty req then '' pty=1'' else [])
     @ (if wr_file_transfer req then '' ft=1'' else [])"

definition emission_entry :: "service_env \<Rightarrow> string \<Rightarrow> wire_request \<Rightarrow> policy_table \<Rightarrow> 64 word \<Rightarrow> string \<Rightarrow> decision_info option \<Rightarrow>
    service_error option \<Rightarrow> entry" where
  "emission_entry Q caller req hosts serial outcome dec err =
     (let e = empty_entry\<lparr>en_caller := caller, en_end_user_context := wr_end_user_context req,
                en_command := emission_command req, en_serial := serial, en_outcome := outcome\<rparr>;
          e = (case map_of hosts (wr_host req) of
                 Some hp \<Rightarrow> e\<lparr>en_host := hp_addr hp, en_user := hp_user hp, en_principal := hp_principal hp\<rparr>
               | None \<Rightarrow> e\<lparr>en_host := safe_audit_host (wr_host req)\<rparr>)
      in with_decision Q dec err e)"

definition audit_emission ::
  "service_env \<Rightarrow> string \<Rightarrow> wire_request \<Rightarrow> policy_table \<Rightarrow> 64 word \<Rightarrow> string \<Rightarrow> decision_info option \<Rightarrow>
   service_error option \<Rightarrow> signer_server \<Rightarrow> bool \<times> signer_server" where
  "audit_emission Q caller req hosts serial outcome dec err s =
     append_audit Q 0 (emission_entry Q caller req hosts serial outcome dec err) s"

definition k8s_entry :: "service_env \<Rightarrow> string \<Rightarrow> wire_request \<Rightarrow> cluster_table \<Rightarrow> k8s_action option \<Rightarrow> 64 word \<Rightarrow> string \<Rightarrow>
    decision_info option \<Rightarrow> service_error option \<Rightarrow> entry" where
  "k8s_entry Q caller req clusters action serial outcome dec err =
     (let host = (case map_of clusters (wr_host req) of
                    Some cp \<Rightarrow> cl_api_server cp | None \<Rightarrow> safe_audit_host (wr_host req));
          a = (case action of Some a \<Rightarrow> a
               | None \<Rightarrow> \<lparr>ka_verb = wr_k8s_verb req, ka_resource = wr_k8s_resource req, ka_group = wr_k8s_group req,
                          ka_namespace = wr_k8s_namespace req, ka_name = wr_k8s_name req\<rparr>);
          resource = ka_resource a @ (if ka_group a \<noteq> [] then ''.'' @ ka_group a else []);
          ns = (if ka_namespace a = [] then ''-'' else ka_namespace a);
          name = (if ka_name a = [] then ''-'' else ka_name a);
          cmd = ''target=k8s verb='' @ ka_verb a @ '' resource='' @ resource @ '' ns='' @ ns @ '' name='' @ name
                @ (if wr_end_user req \<noteq> [] then '' user='' @ wr_end_user req else [])
                @ (if wr_end_user_context req \<noteq> [] then '' ctx='' @ wr_end_user_context req else []);
          e = empty_entry\<lparr>en_caller := caller, en_end_user_context := wr_end_user_context req, en_host := host,
                en_command := cmd, en_serial := serial, en_outcome := outcome, en_target_type := TargetTypeK8s\<rparr>
      in with_decision Q dec err e)"

definition audit_k8s ::
  "service_env \<Rightarrow> string \<Rightarrow> wire_request \<Rightarrow> k8s_action option \<Rightarrow> 64 word \<Rightarrow> string \<Rightarrow> decision_info option \<Rightarrow>
   service_error option \<Rightarrow> signer_server \<Rightarrow> bool \<times> signer_server" where
  "audit_k8s Q caller req action serial outcome dec err s =
     append_audit Q 0 (k8s_entry Q caller req (ls_clusters (sv_local s)) action serial outcome dec err) s"

section \<open>Issuing\<close>

text \<open>
  \<open>respondSignResult\<close>: the reply, whether a certificate was issued and its record committed, and the state.
\<close>

definition respond_sign_result ::
  "service_env \<Rightarrow> string \<Rightarrow> wire_request \<Rightarrow> policy_table \<Rightarrow> issuance \<Rightarrow> signer_server \<Rightarrow>
   wire_response reply \<times> bool \<times> signer_server" where
  "respond_sign_result Q caller req hosts iu s =
     (let d = iu_decision iu in
      if wr_dry_run req then
        (case audit_emission Q caller req hosts 0 (if di_allowed d then ''dry_run_allowed'' else ''dry_run_denied'') (Some d) None s of
           (ok, s) \<Rightarrow>
             if \<not> ok then (HttpError 500 AuditUnavailable, False, s)
             else (HttpOK 200 ((decision_response d)\<lparr>ws_envelope := iu_envelope iu\<rparr>), False, s))
      else case iu_certificate iu of
        None \<Rightarrow>
          (case audit_emission Q caller req hosts 0 ''approval-required'' (Some d) None s of
             (ok, s) \<Rightarrow>
               if \<not> ok then (HttpError 500 AuditUnavailable, False, s)
               else (HttpOK 200 (decision_response d), False, s))
      | Some cert \<Rightarrow>
          (case audit_emission Q caller req hosts (iu_serial iu) ''issued'' (Some d) None s of
             (ok, s) \<Rightarrow>
               if \<not> ok then (HttpError 500 AuditUnavailable, False, s)
               else (HttpOK 200 ((decision_response d)\<lparr>ws_certificate := Some cert, ws_serial := iu_serial iu,
                       ws_elevation_prefix := iu_elevation_prefix iu\<rparr>), True, s)))"

definition respond_sign_k8s ::
  "service_env \<Rightarrow> string \<Rightarrow> wire_request \<Rightarrow> issuance \<Rightarrow> signer_server \<Rightarrow> wire_response reply \<times> bool \<times> signer_server" where
  "respond_sign_k8s Q caller req iu s =
     (let d = iu_decision iu in
      if wr_dry_run req then
        (case audit_k8s Q caller req (iu_k8s_action iu) 0 (if di_allowed d then ''dry_run_allowed'' else ''dry_run_denied'') (Some d) None s of
           (ok, s) \<Rightarrow>
             if \<not> ok then (HttpError 500 AuditUnavailable, False, s) else (HttpOK 200 (decision_response d), False, s))
      else if iu_k8s_token iu = [] then
        (case audit_k8s Q caller req (iu_k8s_action iu) 0 ''approval-required'' (Some d) None s of
           (ok, s) \<Rightarrow>
             if \<not> ok then (HttpError 500 AuditUnavailable, False, s) else (HttpOK 200 (decision_response d), False, s))
      else
        (case audit_k8s Q caller req (iu_k8s_action iu) (iu_serial iu) ''issued'' (Some d) None s of
           (ok, s) \<Rightarrow>
             if \<not> ok then (HttpError 500 AuditUnavailable, False, s)
             else (HttpOK 200 ((decision_response d)\<lparr>ws_k8s_token := iu_k8s_token iu, ws_k8s_token_expiry := iu_k8s_token_expiry iu,
                     ws_serial := iu_serial iu\<rparr>), True, s)))"

text \<open>The waiver that is learned from an approved request.\<close>

definition learned_grant :: "service_env \<Rightarrow> string \<Rightarrow> wire_request \<Rightarrow> signer_server \<Rightarrow> grant" where
  "learned_grant Q caller req s =
     (let ttl = duration_seconds (wr_learn_ttl_seconds req);
          ttl = (if sv_max_grant_ttl s > 0 \<and> ttl > sv_max_grant_ttl s then sv_max_grant_ttl s else ttl)
      in \<lparr>g_id = [], g_host = wr_host req, g_allow = [], g_waive_approval = [''^'' @ quote_meta (wr_command req) @ ''$''],
          g_caller = caller, g_end_user = wr_end_user req, g_sudo = wr_sudo req, g_sudo_user = wr_sudo_user req,
          g_approver = wr_learn_approver req, g_approval_id = wr_learn_approval_id req,
          g_granted_at = sq_now Q, g_expires_at = sq_now Q + ttl, g_waiver_re = []\<rparr>)"

definition waiver_entry :: "string \<Rightarrow> wire_request \<Rightarrow> string \<Rightarrow> string \<Rightarrow> entry" where
  "waiver_entry caller req command outcome = empty_entry\<lparr>en_caller := caller, en_host := wr_host req, en_command := command,
     en_outcome := outcome, en_approval_id := wr_learn_approval_id req, en_approved_by := wr_learn_approver req\<rparr>"

definition maybe_learn_waiver :: "service_env \<Rightarrow> string \<Rightarrow> wire_request \<Rightarrow> issuance \<Rightarrow> signer_server \<Rightarrow> signer_server" where
  "maybe_learn_waiver Q caller req iu s =
     (if wr_learn_ttl_seconds req \<le> 0 \<or> wr_dry_run req \<or> (iu_certificate iu = None \<and> iu_k8s_token iu = []) then s
      else if \<not> di_require_approval (iu_decision iu) then
        snd (append_audit Q 2 ((waiver_entry caller req ''approval-waiver'' ''approval-waiver-skipped'')
               \<lparr>en_err := sq_error_text Q NothingToWaive\<rparr>) s)
      else case freeze_frozen caller (wr_end_user req) (sv_freezes s) of
        Some subj \<Rightarrow>
          snd (append_audit Q 2 ((waiver_entry caller req ''approval-waiver'' ''approval-waiver-skipped'')
                 \<lparr>en_err := sq_error_text Q (FrozenNoLearn subj)\<rparr>) s)
      | None \<Rightarrow>
          (let g = learned_grant Q caller req s;
               gs = snd (supersede_waiver (sq_delete_ok Q) g (sv_grants s))
           in case grant_add (se_env (sq_sign Q)) (sq_codec Q) (sq_insert_ok Q) (sq_grant_id Q) g gs of
                (Inr i, gs) \<Rightarrow>
                  snd (append_audit Q 2 ((waiver_entry caller req (''approval-waiver '' @ i) ''approval-waiver-created'')
                         \<lparr>en_policy_rule := ''waive_approval:'' @ concat (g_waive_approval g)\<rparr>) (s\<lparr>sv_grants := gs\<rparr>))
              | (Inl e, gs) \<Rightarrow>
                  snd (append_audit Q 2 ((waiver_entry caller req ''approval-waiver'' ''approval-waiver-failed'')
                         \<lparr>en_policy_rule := ''waive_approval:'' @ concat (g_waive_approval g),
                          en_err := sq_error_text Q (GrantFailure e)\<rparr>) (s\<lparr>sv_grants := gs\<rparr>))))"

section \<open>\<open>POST /v1/sign\<close>\<close>

text \<open>
  \<open>SignIntent\<close> never returns neither an issued value nor an error; the handlers below answer 500 there, where
  the code would dereference nil.
\<close>

definition identifier_fields :: "wire_request \<Rightarrow> (string \<times> string) list" where
  "identifier_fields req =
     [(''end_user'', wr_end_user req), (''role'', wr_role req), (''purpose'', wr_purpose req),
      (''session_mode'', wr_session_mode req), (''sudo_user'', wr_sudo_user req),
      (''k8s_verb'', wr_k8s_verb req), (''k8s_resource'', wr_k8s_resource req), (''k8s_group'', wr_k8s_group req),
      (''k8s_namespace'', wr_k8s_namespace req), (''k8s_name'', wr_k8s_name req),
      (''end_user_context'', wr_end_user_context req), (''host'', wr_host req)]"

fun check_identifiers :: "(string \<times> string) list \<Rightarrow> refusal option" where
  "check_identifiers [] = None"
| "check_identifiers ((name, val) # fs) =
     (if has_unsafe_token_char val then Some (InvalidField name)
      else if length val > maxIdentifierLen then Some (FieldTooLong name)
      else check_identifiers fs)"

definition k8s_wire_shape_error :: "wire_request \<Rightarrow> k8s_shape_error option" where
  "k8s_wire_shape_error req =
     (if wr_sudo req \<or> wr_sudo_user req \<noteq> [] then Some ShapeSudo
      else if wr_pty req then Some ShapePTY
      else if wr_file_transfer req then Some ShapeFileTransfer
      else if wr_purpose req \<noteq> PurposeOneshot \<or> wr_session_mode req \<noteq> [] then Some ShapeSession
      else if wr_role req \<noteq> RoleTarget then Some ShapeRole
      else None)"

definition k8s_intent :: "string \<Rightarrow> wire_request \<Rightarrow> bool \<Rightarrow> intent" where
  "k8s_intent caller req approved =
     (plain_intent caller (wr_host req) (wr_command req))
       \<lparr>in_target_type := TargetTypeK8s,
        in_k8s := Some \<lparr>ka_verb = wr_k8s_verb req, ka_resource = wr_k8s_resource req, ka_group = wr_k8s_group req,
                         ka_namespace = wr_k8s_namespace req, ka_name = wr_k8s_name req\<rparr>,
        in_dry_run := wr_dry_run req, in_preflight := wr_preflight req, in_approved := approved,
        in_end_user := wr_end_user req, in_end_user_groups := wr_end_user_groups req,
        in_end_user_context := wr_end_user_context req\<rparr>"

definition ssh_intent :: "string \<Rightarrow> wire_request \<Rightarrow> string \<Rightarrow> bool \<Rightarrow> intent" where
  "ssh_intent caller req pub approved =
     (plain_intent caller (wr_host req) (wr_command req))
       \<lparr>in_role := wr_role req, in_purpose := wr_purpose req, in_session_mode := wr_session_mode req,
        in_requested_ttl := duration_seconds (wr_ttl_seconds req), in_public_key := pub, in_sudo := wr_sudo req,
        in_sudo_user := wr_sudo_user req, in_pty := wr_pty req, in_file_transfer := wr_file_transfer req,
        in_dry_run := wr_dry_run req, in_preflight := wr_preflight req, in_approved := approved,
        in_end_user := wr_end_user req, in_end_user_groups := wr_end_user_groups req,
        in_end_user_context := wr_end_user_context req\<rparr>"

text \<open>A refusal that is audited first; without its record the answer is 500.\<close>

definition audited :: "bool \<times> signer_server \<Rightarrow> nat \<Rightarrow> refusal \<Rightarrow> 'a reply \<times> signer_server" where
  "audited r status why = (case r of (ok, s) \<Rightarrow> if ok then (HttpError status why, s) else (HttpError 500 AuditUnavailable, s))"

definition handle_sign_k8s ::
  "service_env \<Rightarrow> string \<Rightarrow> wire_request \<Rightarrow> bool \<Rightarrow> bool \<Rightarrow> signer_server \<Rightarrow> wire_response reply \<times> signer_server" where
  "handle_sign_k8s Q caller req is_forwarder approved s =
     (case k8s_wire_shape_error req of
        Some e \<Rightarrow> audited (audit_k8s Q caller req None 0 ''denied'' None (Some (K8sShape e)) s) 400 (ShapeRefused e)
      | None \<Rightarrow>
          (let clusters = ls_clusters (sv_local s) in
           if (case cluster_set_for_caller caller clusters (sv_callers s) of None \<Rightarrow> False | Some set' \<Rightarrow> wr_host req \<notin> set set') then
             audited (audit_k8s Q caller req None 0 ''denied'' None (Some (ClusterOutsideGroup (wr_host req) caller)) s) 403 ClusterNotAuthorised
           else if \<not> map_has clusters (wr_host req) then
             audited (audit_k8s Q caller req None 0 ''denied'' None (Some (NoClusterPolicy (wr_host req))) s) 403 UnknownCluster
           else
             case sign_intent (sq_sign Q) (current_local s) (k8s_intent caller req approved) of
               (iu, Some err) \<Rightarrow>
                 (case err of
                    K8sMintError c \<Rightarrow> audited (audit_k8s Q caller req None 0 ''error'' None (Some MintDetail) s) 502 (SigningFailed err)
                  | K8sNoBinding c \<Rightarrow> audited (audit_k8s Q caller req None 0 ''error'' None (Some (SignFailure err)) s) 502 (SigningFailed err)
                  | K8sNoMinter c \<Rightarrow> audited (audit_k8s Q caller req None 0 ''error'' None (Some (SignFailure err)) s) 502 (SigningFailed err)
                  | _ \<Rightarrow> audited (audit_k8s Q caller req (case iu of None \<Rightarrow> None | Some i \<Rightarrow> iu_k8s_action i) 0 ''denied''
                            (map_option iu_decision iu) (Some (SignFailure err)) s) 403 (SignDenied err))
             | (None, None) \<Rightarrow> (HttpError 500 InvalidRequest, s)
             | (Some iu, None) \<Rightarrow>
                 (case respond_sign_k8s Q caller req iu s of
                    (r, issued, s) \<Rightarrow>
                      if issued \<and> is_forwarder \<and> wr_learn_ttl_seconds req > 0 then (r, maybe_learn_waiver Q caller req iu s) else (r, s))))"

definition handle_sign_ssh ::
  "service_env \<Rightarrow> string \<Rightarrow> wire_request \<Rightarrow> bool \<Rightarrow> bool \<Rightarrow> bool \<Rightarrow> signer_server \<Rightarrow> wire_response reply \<times> signer_server" where
  "handle_sign_ssh Q caller req is_forwarder self_approves approved s =
     (case sq_parse_key Q (wr_public_key req) of
        None \<Rightarrow> (HttpError 400 InvalidPubkey, s)
      | Some pub \<Rightarrow>
          (if (case host_set_for_caller caller (sv_hosts s) (sv_callers s) of None \<Rightarrow> False | Some set' \<Rightarrow> wr_host req \<notin> set set') then
             audited (audit_emission Q caller req (sv_hosts s) 0 ''denied'' None (Some (HostOutsideGroup (wr_host req) caller)) s) 403 HostNotAuthorised
           else
             case sign_intent (sq_sign Q) (current_local s) (ssh_intent caller req pub approved) of
               (iu, Some err) \<Rightarrow>
                 (case err of
                    CASignError h detail \<Rightarrow>
                      audited (audit_emission Q caller req (sv_hosts s) 0 ''error'' None (Some (CADetail detail)) s) 502 (SigningFailed err)
                  | _ \<Rightarrow> audited (audit_emission Q caller req (sv_hosts s) 0 ''denied'' None (Some (SignFailure err)) s) 403 (SignDenied err))
             | (None, None) \<Rightarrow> (HttpError 500 InvalidRequest, s)
             | (Some iu, None) \<Rightarrow>
                 (case respond_sign_result Q caller req (sv_hosts s) iu s of
                    (r, issued, s) \<Rightarrow>
                      if \<not> issued then (r, s)
                      else
                        let s = (if self_approves \<and> \<not> is_forwarder \<and> wr_approved req \<and> di_require_approval (iu_decision iu)
                                 then snd (append_audit Q 1 (empty_entry\<lparr>en_caller := caller, en_host := wr_host req, en_outcome := ''self_approved''\<rparr>) s)
                                 else s)
                        in if is_forwarder \<and> wr_learn_ttl_seconds req > 0 then (r, maybe_learn_waiver Q caller req iu s) else (r, s))))"

definition handle_sign :: "service_env \<Rightarrow> bool \<Rightarrow> string option \<Rightarrow> wire_request option \<Rightarrow> signer_server \<Rightarrow> wire_response reply \<times> signer_server" where
  "handle_sign Q post cn body s =
     (if \<not> post then (HttpError 405 MethodNotAllowed, s)
      else case cn of None \<Rightarrow> (HttpError 401 Unauthenticated, s) | Some peer \<Rightarrow>
        (case rate_admits Q peer s of (admitted, s) \<Rightarrow>
         if \<not> admitted then (HttpError 429 (RateLimitExceeded (retry_after (sign_rate s))), s)
         else case body of None \<Rightarrow> (HttpError 400 InvalidRequest, s) | Some req \<Rightarrow>
           (case check_identifiers (identifier_fields req) of Some e \<Rightarrow> (HttpError 400 e, s) | None \<Rightarrow>
             (let is_forwarder = (peer \<in> set (sv_forwarders s));
                  self_approves = may_self_approve (sv_callers s) peer;
                  approved = (wr_approved req \<and> (is_forwarder \<or> self_approves))
              in case resolve_caller peer (wr_on_behalf_of req) (sv_forwarders s) of
                   None \<Rightarrow> (HttpError 403 OnBehalfOfNotAllowed, s)
                 | Some caller \<Rightarrow>
                     (if has_unsafe_token_char caller then (HttpError 400 InvalidCaller, s)
                      else case rederive_end_user s caller req of
                        Inl f \<Rightarrow>
                          audited (append_audit Q 0 (empty_entry\<lparr>en_caller := caller, en_host := wr_host req,
                            en_outcome := ''end_user_unverified'', en_err := sq_error_text Q (EndUserFailure f)\<rparr>) s) 403 EndUserUnverified
                      | Inr req \<Rightarrow>
                          (case frozen_subject peer caller (wr_end_user req) s of
                             Some subj \<Rightarrow>
                               audited (append_audit Q 0 (empty_entry\<lparr>en_caller := caller, en_host := wr_host req,
                                 en_outcome := ''frozen_denied'', en_err := sq_error_text Q (Frozen subj)\<rparr>) s) 403 SubjectFrozen
                           | None \<Rightarrow>
                               (if wr_target_type req = TargetTypeK8s
                                then handle_sign_k8s Q caller req is_forwarder approved s
                                else handle_sign_ssh Q caller req is_forwarder self_approves approved s)))))))"

section \<open>Host and cluster lists\<close>

definition host_info :: "host_policy \<Rightarrow> wire_host_info" where
  "host_info hp = \<lparr>wh_addr = hp_addr hp, wh_user = hp_user hp, wh_host_key = hp_host_key hp, wh_jump = hp_jump hp,
     wh_allow_sudo = hp_allow_sudo hp, wh_allow_pty = hp_allow_pty hp, wh_allow_file_transfer = hp_allow_file_transfer hp,
     wh_groups = hp_groups hp\<rparr>"

definition handle_hosts :: "service_env \<Rightarrow> bool \<Rightarrow> string option \<Rightarrow> string \<Rightarrow> signer_server \<Rightarrow>
    (string, wire_host_info) go_map reply \<times> signer_server" where
  "handle_hosts Q get cn on_behalf_of s =
     (if \<not> get then (HttpError 405 MethodNotAllowed, s)
      else case cn of None \<Rightarrow> (HttpError 401 Unauthenticated, s) | Some peer \<Rightarrow>
        (case resolve_caller peer on_behalf_of (sv_forwarders s) of
           None \<Rightarrow> (HttpError 403 OnBehalfOfNotAllowed, s)
         | Some caller \<Rightarrow>
             (case frozen_subject peer caller [] s of
                Some subj \<Rightarrow>
                  (HttpError 403 SubjectFrozen,
                   snd (append_audit Q 0 (empty_entry\<lparr>en_caller := caller, en_outcome := ''frozen_denied'',
                          en_err := sq_error_text Q (Frozen subj)\<rparr>) s))
              | None \<Rightarrow>
                  (let all = map (\<lambda>(n, hp). (n, host_info hp)) (sv_hosts s);
                       grouped = (case host_set_for_caller caller (sv_hosts s) (sv_callers s) of
                                    None \<Rightarrow> all | Some set' \<Rightarrow> map_keep (\<lambda>n _. n \<in> set set') all);
                       shown = map_keep (\<lambda>n _. case map_of (sv_hosts s) n of Some hp \<Rightarrow> allows_caller hp caller | None \<Rightarrow> True) grouped
                   in (HttpOK 200 shown, s)))))"

definition handle_clusters :: "string option \<Rightarrow> string \<Rightarrow> signer_server \<Rightarrow> (string, wire_cluster_info) go_map reply" where
  "handle_clusters cn on_behalf_of s =
     (case cn of None \<Rightarrow> HttpError 401 Unauthenticated | Some peer \<Rightarrow>
        (case resolve_caller peer on_behalf_of (sv_forwarders s) of
           None \<Rightarrow> HttpError 403 OnBehalfOfNotAllowed
         | Some caller \<Rightarrow>
             (if frozen_subject peer caller [] s \<noteq> None then HttpError 403 SubjectFrozen
              else
                let clusters = ls_clusters (sv_local s);
                    open_to = map (\<lambda>(n, cp). (n, \<lparr>wc_api_server = cl_api_server cp, wc_ca_cert_pem = cl_ca_pem cp, wc_groups = cl_groups cp,
                                wc_extra_resources = cl_extra_resources cp\<rparr>)) (filter (\<lambda>(n, cp). cluster_allows_caller cp caller) clusters)
                in HttpOK 200 (case cluster_set_for_caller caller clusters (sv_callers s) of
                                 None \<Rightarrow> open_to | Some set' \<Rightarrow> map_keep (\<lambda>n _. n \<in> set set') open_to))))"

section \<open>Reload\<close>

text \<open>What \<open>loadConfig\<close>, \<open>buildState\<close> and \<open>endUserVerifierFor\<close> give for the configuration file.\<close>

record loaded_state =
  lo_local :: local_signer
  lo_hosts :: policy_table
  lo_callers :: caller_table
  lo_reload_callers :: "string list"
  lo_trusted_forwarders :: "string list"
  lo_sign_rate :: int
  lo_verifier :: "(string \<Rightarrow> identity option) option"

definition reload_set :: "string list \<Rightarrow> string list" where
  "reload_set cns = remdups (filter (\<lambda>cn. cn \<noteq> []) cns)"

definition swap_state :: "loaded_state \<Rightarrow> signer_server \<Rightarrow> signer_server" where
  "swap_state c s = s\<lparr>sv_local := lo_local c, sv_hosts := lo_hosts c, sv_callers := lo_callers c,
     sv_reload_cn := reload_set (lo_reload_callers c), sv_forwarders := reload_set (lo_trusted_forwarders c),
     sv_sign_rate := lo_sign_rate c, sv_end_user_verifier := lo_verifier c\<rparr>"

definition audit_reload :: "service_env \<Rightarrow> string \<Rightarrow> nat \<Rightarrow> string \<Rightarrow> string \<Rightarrow> signer_server \<Rightarrow> signer_server" where
  "audit_reload Q caller hosts outcome err s =
     snd (append_audit Q 0 (empty_entry\<lparr>en_caller := caller, en_command := ''reload hosts='' @ nat_decimal hosts,
            en_outcome := outcome, en_err := err\<rparr>) s)"

text \<open>\<open>loaded\<close> is the result of reading the file: the new state, or the text of the error.\<close>

definition handle_reload :: "service_env \<Rightarrow> bool \<Rightarrow> string option \<Rightarrow> string + loaded_state \<Rightarrow> signer_server \<Rightarrow> nat reply \<times> signer_server" where
  "handle_reload Q post cn loaded s =
     (if \<not> post then (HttpError 405 MethodNotAllowed, s)
      else case cn of None \<Rightarrow> (HttpError 401 Unauthenticated, s) | Some caller \<Rightarrow>
        (if caller \<notin> set (sv_reload_cn s) then
           (case admit_denial Q caller s of (ok, s) \<Rightarrow>
             if \<not> ok then (HttpError 429 (RateLimitExceeded (retry_after (sign_rate s))), s)
             else (HttpError 403 NotAllowed, audit_reload Q caller 0 ''reload-denied'' (sq_error_text Q NotAuthorised) s))
         else case loaded of
           Inl err \<Rightarrow> (HttpError 500 ReloadFailed, audit_reload Q caller 0 ''reload-failed'' err s)
         | Inr c \<Rightarrow>
             (let n = length (lo_hosts c) in (HttpOK 200 n, audit_reload Q caller n ''reloaded'' [] (swap_state c s)))))"

section \<open>Freezing\<close>

record freeze_request =
  fq_kind :: string
  fq_value :: string
  fq_reason :: string
  fq_allow_volatile :: bool

definition require_reload_cn :: "string option \<Rightarrow> signer_server \<Rightarrow> (nat \<times> refusal) + string" where
  "require_reload_cn cn s =
     (case cn of None \<Rightarrow> Inl (401, Unauthenticated)
      | Some caller \<Rightarrow> (if caller \<in> set (sv_reload_cn s) then Inr caller else Inl (403, NotAllowed)))"

definition decode_freeze_subject :: "freeze_request option \<Rightarrow> (nat \<times> refusal) + freeze_subject \<times> string \<times> bool" where
  "decode_freeze_subject body =
     (case body of None \<Rightarrow> Inl (400, InvalidRequest)
      | Some q \<Rightarrow>
          (if \<not> valid_freeze_kind (fq_kind q) then Inl (400, InvalidFreezeKindGiven)
           else if fq_value q = [] \<or> has_unsafe_token_char (fq_value q) \<or> has_unsafe_token_char (fq_reason q)
           then Inl (400, InvalidFreezeValue)
           else Inr (\<lparr>fs_kind = fq_kind q, fs_value = fq_value q\<rparr>, fq_reason q, fq_allow_volatile q)))"

definition canonical_freeze_serial :: "string \<Rightarrow> string option" where
  "canonical_freeze_serial v =
     (if v \<noteq> [] \<and> list_all is_digit_char v \<and> decimal_value v < 2 ^ 64 then Some (nat_decimal (decimal_value v)) else None)"

definition audit_freeze :: "service_env \<Rightarrow> string \<Rightarrow> string \<Rightarrow> freeze_subject \<Rightarrow> string \<Rightarrow> nat \<Rightarrow> grant_error option \<Rightarrow> signer_server \<Rightarrow> signer_server" where
  "audit_freeze Q caller outcome subj reason revoked err s =
     (let cmd = outcome @ '' kind='' @ fs_kind subj @ '' value='' @ fs_value subj
                @ (if outcome = ''frozen'' then '' grants_revoked='' @ nat_decimal revoked else [])
                @ (if reason \<noteq> [] then '' reason='' @ reason else [])
      in snd (append_audit Q 0 (empty_entry\<lparr>en_caller := caller, en_command := cmd, en_outcome := outcome,
                en_err := (case err of None \<Rightarrow> [] | Some e \<Rightarrow> sq_error_text Q (GrantFailure e))\<rparr>) s))"

definition revoke_grants :: "service_env \<Rightarrow> freeze_subject \<Rightarrow> signer_server \<Rightarrow> (grant_error + nat) \<times> signer_server" where
  "revoke_grants Q subj s =
     (case revoke_for_subject (sq_begin_ok Q) (sq_delete_ok Q) (sq_commit_ok Q) (fs_kind subj) (fs_value subj) (sv_grants s) of
        (r, gs) \<Rightarrow> (r, s\<lparr>sv_grants := gs\<rparr>))"

definition handle_freeze :: "service_env \<Rightarrow> string option \<Rightarrow> freeze_request option \<Rightarrow> signer_server \<Rightarrow> (bool \<times> nat) reply \<times> signer_server" where
  "handle_freeze Q cn body s =
     (case require_reload_cn cn s of Inl (st, e) \<Rightarrow> (HttpError st e, s) | Inr caller \<Rightarrow>
       (case decode_freeze_subject body of Inl (st, e) \<Rightarrow> (HttpError st e, s) | Inr (given, reason, allow_volatile) \<Rightarrow>
         (case (if fs_kind given = FreezeSerial then map_option (\<lambda>v. given\<lparr>fs_value := v\<rparr>) (canonical_freeze_serial (fs_value given))
                else Some given) of
            None \<Rightarrow> (HttpError 400 InvalidSerial, s)
          | Some subj \<Rightarrow>
              (if freeze_volatile (sv_freezes s) \<and> \<not> allow_volatile then (HttpError 409 WouldBeVolatile, s)
               else case freeze_add (sq_freeze_ok Q) (sq_checkpoint_ok Q) subj reason caller (sq_now Q) (sv_freezes s) of
                 (newly, err, fz) \<Rightarrow>
                   (case err of
                      Some e \<Rightarrow>
                        (if e \<noteq> FreezeNotDurable then (HttpError 500 (FreezeFailed e), s\<lparr>sv_freezes := fz\<rparr>)
                         else case revoke_grants Q subj (s\<lparr>sv_freezes := fz\<rparr>) of
                           (r, s) \<Rightarrow> (HttpError 500 (FreezeFailed e),
                              audit_freeze Q caller ''frozen'' subj reason (case r of Inl _ \<Rightarrow> 0 | Inr n \<Rightarrow> n)
                                (case r of Inl g \<Rightarrow> Some g | Inr _ \<Rightarrow> None) s))
                    | None \<Rightarrow>
                        (case revoke_grants Q subj (s\<lparr>sv_freezes := fz\<rparr>) of
                           (Inl g, s) \<Rightarrow> (HttpError 500 (FrozenButGrants g), audit_freeze Q caller ''frozen'' subj reason 0 (Some g) s)
                         | (Inr n, s) \<Rightarrow> (HttpOK 200 (newly, n), audit_freeze Q caller ''frozen'' subj reason n None s)))))))"

text \<open>The removal, first of the canonical spelling of a serial and then of the given one.\<close>

definition remove_either :: "service_env \<Rightarrow> freeze_subject \<Rightarrow> freeze_subject \<Rightarrow> freeze_store \<Rightarrow>
    (freeze_error + bool) \<times> freeze_subject \<times> freeze_store" where
  "remove_either Q raw subj fz =
     (case freeze_remove (sq_freeze_ok Q) (sq_checkpoint_ok Q) subj fz of
        (Inr False, fz) \<Rightarrow>
          (if raw = subj then (Inr False, subj, fz)
           else case freeze_remove (sq_freeze_ok Q) (sq_checkpoint_ok Q) raw fz of
             (Inr True, fz) \<Rightarrow> (Inr True, raw, fz)
           | (r, fz) \<Rightarrow> (r, subj, fz))
      | (r, fz) \<Rightarrow> (r, subj, fz))"

definition handle_unfreeze :: "service_env \<Rightarrow> string option \<Rightarrow> freeze_request option \<Rightarrow> signer_server \<Rightarrow> bool reply \<times> signer_server" where
  "handle_unfreeze Q cn body s =
     (case require_reload_cn cn s of Inl (st, e) \<Rightarrow> (HttpError st e, s) | Inr caller \<Rightarrow>
       (case decode_freeze_subject body of Inl (st, e) \<Rightarrow> (HttpError st e, s) | Inr (raw, _, _) \<Rightarrow>
         (let subj = (if fs_kind raw = FreezeSerial
                      then (case canonical_freeze_serial (fs_value raw) of Some v \<Rightarrow> raw\<lparr>fs_value := v\<rparr> | None \<Rightarrow> raw) else raw)
          in case remove_either Q raw subj (sv_freezes s) of
               (Inl e, _, fz) \<Rightarrow> (HttpError 500 (FreezeFailed e), s\<lparr>sv_freezes := fz\<rparr>)
             | (Inr existed, subj, fz) \<Rightarrow>
                 (case revoke_grants Q subj (s\<lparr>sv_freezes := fz\<rparr>) of
                    (Inl g, s) \<Rightarrow> (HttpError 500 (UnfrozenButGrants g), s)
                  | (Inr _, s) \<Rightarrow> (HttpOK 200 existed, audit_freeze Q caller ''unfrozen'' subj [] 0 None s)))))"

definition handle_revocations :: "string option \<Rightarrow> signer_server \<Rightarrow> frozen_entry list reply" where
  "handle_revocations cn s =
     (case cn of None \<Rightarrow> HttpError 401 Unauthenticated
      | Some caller \<Rightarrow>
          (let entries = freeze_list (sv_freezes s) in
           HttpOK 200 (if caller \<in> set (sv_reload_cn s) then entries
                       else map (\<lambda>e. \<lparr>fe_subject = fe_subject e, fe_reason = [], fe_frozen_by = [], fe_frozen_at = fe_frozen_at e\<rparr>) entries)))"

section \<open>Grants\<close>

record grant_request =
  gq_allow :: "string list"
  gq_ttl_seconds :: int
  gq_caller :: string
  gq_end_user :: string

definition audit_grant :: "service_env \<Rightarrow> string \<Rightarrow> string \<Rightarrow> string \<Rightarrow> string list \<Rightarrow> string \<Rightarrow> service_error option \<Rightarrow> signer_server \<Rightarrow> signer_server" where
  "audit_grant Q caller host i allow outcome err s =
     snd (append_audit Q 0 (empty_entry\<lparr>en_caller := caller, en_host := safe_audit_host host, en_command := ''grant '' @ i,
            en_outcome := outcome, en_policy_rule := (if allow \<noteq> [] then ''allow:'' @ go_join allow '','' else []),
            en_err := (case err of None \<Rightarrow> [] | Some e \<Rightarrow> sq_error_text Q e)\<rparr>) s)"

definition policy_admin :: "string option \<Rightarrow> signer_server \<Rightarrow> (string \<times> bool) option" where
  "policy_admin cn s = (case cn of None \<Rightarrow> None | Some caller \<Rightarrow> Some (caller, caller \<in> set (sv_reload_cn s)))"

text \<open>The part of \<open>handleGrantCreate\<close> under \<open>writeMu\<close>.\<close>

definition create_grant :: "service_env \<Rightarrow> string \<Rightarrow> string \<Rightarrow> grant_request \<Rightarrow> go_duration \<Rightarrow> signer_server \<Rightarrow> (string \<times> go_time) reply \<times> signer_server" where
  "create_grant Q caller host q ttl s =
     (case freeze_frozen (gq_caller q) (gq_end_user q) (sv_freezes s) of
        Some subj \<Rightarrow> (HttpError 409 (GrantRefused (Frozen subj)), audit_grant Q caller host [] (gq_allow q) ''grant-denied'' (Some (Frozen subj)) s)
      | None \<Rightarrow>
          (case grant_add (se_env (sq_sign Q)) (sq_codec Q) (sq_insert_ok Q) (sq_grant_id Q)
                  \<lparr>g_id = [], g_host = host, g_allow = gq_allow q, g_waive_approval = [], g_caller = gq_caller q,
                   g_end_user = gq_end_user q, g_sudo = False, g_sudo_user = [], g_approver = caller, g_approval_id = [],
                   g_granted_at = sq_now Q, g_expires_at = sq_now Q + ttl, g_waiver_re = []\<rparr> (sv_grants s) of
             (Inl e, gs) \<Rightarrow> (HttpError 400 (GrantRefused (GrantFailure e)),
                audit_grant Q caller host [] (gq_allow q) ''grant-failed'' (Some (GrantFailure e)) (s\<lparr>sv_grants := gs\<rparr>))
           | (Inr i, gs) \<Rightarrow> (HttpOK 201 (i, sq_now Q + ttl), audit_grant Q caller host i (gq_allow q) ''grant-created'' None (s\<lparr>sv_grants := gs\<rparr>))))"

definition handle_grant_create :: "service_env \<Rightarrow> string option \<Rightarrow> string \<Rightarrow> grant_request option \<Rightarrow> signer_server \<Rightarrow> (string \<times> go_time) reply \<times> signer_server" where
  "handle_grant_create Q cn host body s =
     (case policy_admin cn s of None \<Rightarrow> (HttpError 401 Unauthenticated, s) | Some (caller, authz) \<Rightarrow>
       (if \<not> authz then
          (case admit_denial Q caller s of (ok, s) \<Rightarrow>
            if \<not> ok then (HttpError 429 (RateLimitExceeded (retry_after (sign_rate s))), s)
            else (HttpError 403 NotAllowed, audit_grant Q caller host [] [] ''grant-denied'' (Some NotAuthorised) s))
        else case body of None \<Rightarrow> (HttpError 400 InvalidRequest, s) | Some q \<Rightarrow>
          (if gq_allow q = [] \<or> gq_ttl_seconds q \<le> 0 then (HttpError 400 InvalidRequest, s)
           else
             let ttl = duration_seconds (gq_ttl_seconds q);
                 failed = (\<lambda>st e. (HttpError st (GrantRefused e), audit_grant Q caller host [] (gq_allow q) ''grant-failed'' (Some e) s))
             in if sv_max_grant_ttl s > 0 \<and> ttl > sv_max_grant_ttl s then failed 400 GrantTTLTooLong
                else case host_allowlist_active (current_local s) host of
                  (False, _) \<Rightarrow> failed 404 HostNotFound
                | (True, False) \<Rightarrow> failed 409 HostNotAllowlist
                | (True, True) \<Rightarrow> create_grant Q caller host q ttl s)))"

definition handle_grant_list :: "service_env \<Rightarrow> string option \<Rightarrow> signer_server \<Rightarrow> grant list reply \<times> signer_server" where
  "handle_grant_list Q cn s =
     (case policy_admin cn s of None \<Rightarrow> (HttpError 401 Unauthenticated, s) | Some (caller, authz) \<Rightarrow>
       (if \<not> authz then (HttpError 403 NotAllowed, s)
        else case grant_list (sq_now Q) (sv_grants s) of (gs, st) \<Rightarrow> (HttpOK 200 gs, s\<lparr>sv_grants := st\<rparr>)))"

definition handle_grant_revoke :: "service_env \<Rightarrow> string option \<Rightarrow> string \<Rightarrow> signer_server \<Rightarrow> string reply \<times> signer_server" where
  "handle_grant_revoke Q cn i s =
     (case policy_admin cn s of None \<Rightarrow> (HttpError 401 Unauthenticated, s) | Some (caller, authz) \<Rightarrow>
       (if has_unsafe_token_char i then (HttpError 400 InvalidGrantId, s)
        else if \<not> authz then
          (case admit_denial Q caller s of (ok, s) \<Rightarrow>
            if \<not> ok then (HttpError 429 (RateLimitExceeded (retry_after (sign_rate s))), s)
            else (HttpError 403 NotAllowed, audit_grant Q caller [] i [] ''grant-denied'' (Some NotAuthorised) s))
        else case grant_revoke (sq_delete_ok Q i) i (sv_grants s) of
          (Inl e, gs) \<Rightarrow> (HttpError 500 (GrantRefused (GrantFailure e)), audit_grant Q caller [] i [] ''grant-failed'' (Some (GrantFailure e)) (s\<lparr>sv_grants := gs\<rparr>))
        | (Inr False, gs) \<Rightarrow> (HttpError 404 (GrantRefused UnknownGrant), audit_grant Q caller [] i [] ''grant-failed'' (Some UnknownGrant) (s\<lparr>sv_grants := gs\<rparr>))
        | (Inr True, gs) \<Rightarrow> (HttpOK 200 i, audit_grant Q caller [] i [] ''grant-revoked'' None (s\<lparr>sv_grants := gs\<rparr>))))"

section \<open>Frames\<close>

lemma append_audit_frame:
  assumes "append_audit Q n e s = (ok, s')"
  shows "s' = s\<lparr>sv_audit := snd (audit_append (sq_audit Q) (sq_io Q n) e (sv_audit s))\<rparr>"
    and "ok \<longleftrightarrow> fst (audit_append (sq_audit Q) (sq_io Q n) e (sv_audit s)) = None \<or> \<not> sv_fail_closed s"
  using assms by (auto simp: append_audit_def split: prod.splits)

lemma append_audit_sv [simp]:
  "sv_grants (snd (append_audit Q n e s)) = sv_grants s" "sv_freezes (snd (append_audit Q n e s)) = sv_freezes s"
  "sv_reload_cn (snd (append_audit Q n e s)) = sv_reload_cn s"
  by (simp_all add: append_audit_def split: prod.splits)

lemma rate_admits_frame:
  assumes "rate_admits Q peer s = (ok, s')"
  obtains l where "s' = s\<lparr>sv_rate_limiter := l\<rparr>"
proof (cases "sign_rate s \<le> 0")
  case True
  then show ?thesis using assms that [of "sv_rate_limiter s"] by (simp add: rate_admits_def)
next
  case False
  then show ?thesis using assms that by (auto simp: rate_admits_def split: prod.splits)
qed

lemma audit_frame:
  "audit_emission Q caller req hosts serial outcome dec err s = (ok, s') \<Longrightarrow> \<exists>l. s' = s\<lparr>sv_audit := l\<rparr>"
  "audit_k8s Q caller req action serial outcome dec err s = (ok, s') \<Longrightarrow> \<exists>l. s' = s\<lparr>sv_audit := l\<rparr>"
  by (auto simp: audit_emission_def audit_k8s_def dest!: append_audit_frame(1))

lemma audited_HttpOK [simp]: "audited r st why \<noteq> (HttpOK st' w, s')"
  by (auto simp: audited_def split: prod.splits)

lemma audited_state [simp]: "snd (audited r st why) = snd r"
  by (auto simp: audited_def split: prod.splits)

text \<open>A response that lets its reader act on a target: a certificate or a token.\<close>

definition credential :: "wire_response \<Rightarrow> bool" where
  "credential w \<longleftrightarrow> ws_certificate w \<noteq> None \<or> ws_k8s_token w \<noteq> []"

lemma decision_response_simps [simp]: "ws_certificate (decision_response d) = None" "ws_k8s_token (decision_response d) = []"
  "ws_decision (decision_response d) = d" "ws_envelope (decision_response d) = []"
  by (simp_all add: decision_response_def)

section \<open>What a signed answer means\<close>

text \<open>An answer of \<open>respondSignResult\<close> and \<open>respondSignK8s\<close> follows the outcome recorded before it.\<close>

lemma respond_sign_result_cases:
  assumes "respond_sign_result Q caller req hosts iu s = (r, issued, s')"
  obtains l where "r = HttpError 500 AuditUnavailable" "\<not> issued" "s' = s\<lparr>sv_audit := l\<rparr>"
  | l where "wr_dry_run req" "r = HttpOK 200 ((decision_response (iu_decision iu))\<lparr>ws_envelope := iu_envelope iu\<rparr>)" "\<not> issued" "s' = s\<lparr>sv_audit := l\<rparr>"
  | l where "\<not> wr_dry_run req" "iu_certificate iu = None" "r = HttpOK 200 (decision_response (iu_decision iu))" "\<not> issued" "s' = s\<lparr>sv_audit := l\<rparr>"
  | l cert where "\<not> wr_dry_run req" "iu_certificate iu = Some cert" "issued" "s' = s\<lparr>sv_audit := l\<rparr>"
      "r = HttpOK 200 ((decision_response (iu_decision iu))\<lparr>ws_certificate := Some cert, ws_serial := iu_serial iu,
             ws_elevation_prefix := iu_elevation_prefix iu\<rparr>)"
      "audit_emission Q caller req hosts (iu_serial iu) ''issued'' (Some (iu_decision iu)) None s = (True, s')"
  using assms
  by (auto simp: respond_sign_result_def Let_def split: if_splits option.splits prod.splits dest!: audit_frame(1))

lemma respond_sign_k8s_cases:
  assumes "respond_sign_k8s Q caller req iu s = (r, issued, s')"
  obtains l where "r = HttpError 500 AuditUnavailable" "\<not> issued" "s' = s\<lparr>sv_audit := l\<rparr>"
  | l where "wr_dry_run req \<or> iu_k8s_token iu = []" "r = HttpOK 200 (decision_response (iu_decision iu))" "\<not> issued" "s' = s\<lparr>sv_audit := l\<rparr>"
  | l where "\<not> wr_dry_run req" "iu_k8s_token iu \<noteq> []" "issued" "s' = s\<lparr>sv_audit := l\<rparr>"
      "r = HttpOK 200 ((decision_response (iu_decision iu))\<lparr>ws_k8s_token := iu_k8s_token iu, ws_k8s_token_expiry := iu_k8s_token_expiry iu,
             ws_serial := iu_serial iu\<rparr>)"
      "audit_k8s Q caller req (iu_k8s_action iu) (iu_serial iu) ''issued'' (Some (iu_decision iu)) None s = (True, s')"
  using assms
  by (auto simp: respond_sign_k8s_def Let_def split: if_splits option.splits prod.splits dest!: audit_frame(2))

text \<open>Who may be acted for, and whose approval counts.\<close>

definition honours_approval :: "signer_server \<Rightarrow> string \<Rightarrow> bool" where
  "honours_approval s peer \<longleftrightarrow> peer \<in> set (sv_forwarders s) \<or> may_self_approve (sv_callers s) peer"

definition passes_gates :: "signer_server \<Rightarrow> string \<Rightarrow> wire_request \<Rightarrow> string \<Rightarrow> wire_request \<Rightarrow> bool" where
  "passes_gates s peer req caller req' \<longleftrightarrow> check_identifiers (identifier_fields req) = None
     \<and> resolve_caller peer (wr_on_behalf_of req) (sv_forwarders s) = Some caller \<and> \<not> has_unsafe_token_char caller
     \<and> rederive_end_user s caller req = Inr req' \<and> frozen_subject peer caller (wr_end_user req') s = None"

lemma rate_frame_simps [simp]:
  "rederive_end_user (s\<lparr>sv_rate_limiter := l\<rparr>) caller req = rederive_end_user s caller req"
  "frozen_subject p c e (s\<lparr>sv_rate_limiter := l\<rparr>) = frozen_subject p c e s"
  "current_local (s\<lparr>sv_rate_limiter := l\<rparr>) = current_local s"
  by (simp_all add: rederive_end_user_def frozen_subject_def current_local_def cong: option.case_cong if_cong)

lemma passes_gates_rate [simp]: "passes_gates (s\<lparr>sv_rate_limiter := l\<rparr>) peer req caller req' = passes_gates s peer req caller req'"
  by (simp add: passes_gates_def)

lemma rederive_keeps:
  "rederive_end_user s caller req = Inr req' \<Longrightarrow> wr_approved req' = wr_approved req \<and> wr_target_type req' = wr_target_type req
     \<and> wr_host req' = wr_host req \<and> wr_learn_ttl_seconds req' = wr_learn_ttl_seconds req \<and> wr_dry_run req' = wr_dry_run req"
  by (auto simp: rederive_end_user_def split: if_splits option.splits)

lemma handle_sign_cases:
  assumes "handle_sign Q post cn body s = (r, s')"
  obtains (refused) st why l a where "r = HttpError st why" and "s' = s\<lparr>sv_rate_limiter := l, sv_audit := a\<rparr>"
  | (k8s) peer req caller req' l where "cn = Some peer" and "body = Some req" and "passes_gates s peer req caller req'"
      and "wr_target_type req' = TargetTypeK8s"
      and "handle_sign_k8s Q caller req' (peer \<in> set (sv_forwarders s)) (wr_approved req \<and> honours_approval s peer) (s\<lparr>sv_rate_limiter := l\<rparr>) = (r, s')"
  | (ssh) peer req caller req' l where "cn = Some peer" and "body = Some req" and "passes_gates s peer req caller req'"
      and "wr_target_type req' \<noteq> TargetTypeK8s"
      and "handle_sign_ssh Q caller req' (peer \<in> set (sv_forwarders s)) (may_self_approve (sv_callers s) peer)
             (wr_approved req \<and> honours_approval s peer) (s\<lparr>sv_rate_limiter := l\<rparr>) = (r, s')"
proof (cases "\<not> post \<or> cn = None")
  case True
  then have "\<exists>st why. r = HttpError st why \<and> s' = s"
    using assms by (cases post; cases cn) (auto simp: handle_sign_def)
  then show ?thesis using refused [where l = "sv_rate_limiter s" and a = "sv_audit s"] by auto
next
  case False
  then obtain peer where cn: "post" "cn = Some peer" by auto
  obtain ok s1 where r1: "rate_admits Q peer s = (ok, s1)" by (cases "rate_admits Q peer s")
  then obtain l where s1: "s1 = s\<lparr>sv_rate_limiter := l\<rparr>" by (rule rate_admits_frame)
  have same: "s1 = s\<lparr>sv_rate_limiter := l, sv_audit := sv_audit s\<rparr>" using s1 by simp
  show ?thesis
  proof (cases "ok \<and> (\<exists>req caller req'. body = Some req \<and> passes_gates s peer req caller req')")
    case True
    then obtain req caller req' where g: "ok" "body = Some req" "passes_gates s peer req caller req'" by auto
    show ?thesis
    proof (cases "wr_target_type req' = TargetTypeK8s")
      case True
      show ?thesis by (rule k8s [OF cn(2) g(2,3) True]) (use assms cn g r1 s1 True in \<open>simp add: handle_sign_def passes_gates_def Let_def honours_approval_def\<close>)
    next
      case False
      show ?thesis by (rule ssh [OF cn(2) g(2,3) False]) (use assms cn g r1 s1 False in \<open>simp add: handle_sign_def passes_gates_def Let_def honours_approval_def\<close>)
    qed
  next
    case no: False
    have "\<exists>st why a. r = HttpError st why \<and> s' = s1\<lparr>sv_audit := a\<rparr>"
    proof -
      have id: "\<exists>a. s1 = s1\<lparr>sv_audit := a\<rparr>" by (rule exI [of _ "sv_audit s1"]) simp
      show ?thesis
        using assms cn r1 no id s1
        by (auto simp: handle_sign_def passes_gates_def Let_def audited_def split: if_splits option.splits sum.splits prod.splits
            dest!: append_audit_frame(1))
    qed
    then show ?thesis using refused s1 by auto
  qed
qed

text \<open>The two branches, from the reply back to the signer.\<close>

lemma maybe_learn_frame: "sv_freezes (maybe_learn_waiver Q caller req iu s) = sv_freezes s"
  by (auto simp: maybe_learn_waiver_def Let_def split: option.splits prod.splits sum.splits)

definition outside_group :: "string list option \<Rightarrow> string \<Rightarrow> bool" where
  "outside_group names host \<longleftrightarrow> (case names of None \<Rightarrow> False | Some ns \<Rightarrow> host \<notin> set ns)"

text \<open>A state that differs in the log only, and one where a waiver may have been learned on top.\<close>

definition only_logged :: "signer_server \<Rightarrow> signer_server \<Rightarrow> bool" where
  "only_logged s s' \<longleftrightarrow> (\<exists>l. s' = s\<lparr>sv_audit := l\<rparr>)"

definition maybe_learned :: "service_env \<Rightarrow> string \<Rightarrow> wire_request \<Rightarrow> issuance \<Rightarrow> bool \<Rightarrow> signer_server \<Rightarrow> signer_server \<Rightarrow> bool" where
  "maybe_learned Q caller req iu fw s s' \<longleftrightarrow> only_logged s s'
     \<or> fw \<and> wr_learn_ttl_seconds req > 0 \<and> (\<exists>s1. only_logged s s1 \<and> s' = maybe_learn_waiver Q caller req iu s1)"

text \<open>The log of a state is the given one, or that with one more record, whether or not it could be written.\<close>

definition at_most_one_more :: "service_env \<Rightarrow> audit_log \<Rightarrow> signer_server \<Rightarrow> bool" where
  "at_most_one_more Q l s \<longleftrightarrow> sv_audit s = l \<or> (\<exists>n e. sv_audit s = snd (audit_append (sq_audit Q) (sq_io Q n) e l))"

lemma one_more_refl [simp]: "at_most_one_more Q (sv_audit s) s"
  by (simp add: at_most_one_more_def)

lemma one_more_append: "at_most_one_more Q (sv_audit s) (snd (append_audit Q n e s))"
  using append_audit_frame(1) [of Q n e s] by (cases "append_audit Q n e s") (auto simp: at_most_one_more_def)

lemma one_more_append_grants: "at_most_one_more Q (sv_audit s) (snd (append_audit Q n e (s\<lparr>sv_grants := gs\<rparr>)))"
  using one_more_append [of Q "s\<lparr>sv_grants := gs\<rparr>" n e] by simp

lemma one_more_learn: "at_most_one_more Q (sv_audit s) (maybe_learn_waiver Q caller req iu s)"
  by (auto simp: maybe_learn_waiver_def Let_def one_more_append one_more_append_grants split: option.splits prod.splits sum.splits)

lemma only_logged_refl [simp]: "only_logged s s"
  unfolding only_logged_def by (rule exI [of _ "sv_audit s"]) simp

lemma only_logged_trans: "only_logged s s1 \<Longrightarrow> only_logged s1 s2 \<Longrightarrow> only_logged s s2"
  by (auto simp: only_logged_def)

lemma append_only_logs: "only_logged s (snd (append_audit Q n e s))"
  using append_audit_frame(1) [of Q n e s] by (cases "append_audit Q n e s") (auto simp: only_logged_def)

lemma audited_refuses:
  assumes "audited (append_audit Q n e s) st why = (r, s')"
  shows "\<exists>st why. r = HttpError st why" and "only_logged s s'"
  using assms append_only_logs [of s Q n e] by (auto simp: audited_def split: prod.splits if_splits)

lemma respond_only_logs:
  "respond_sign_result Q caller req hosts iu s = (r, issued, s') \<Longrightarrow> only_logged s s'"
  "respond_sign_k8s Q caller req iu s = (r, issued, s') \<Longrightarrow> only_logged s s'"
  by (auto simp: only_logged_def elim!: respond_sign_result_cases respond_sign_k8s_cases)

text \<open>Either the request is refused or the signer has answered it without an error.\<close>

lemma handle_sign_ssh_answer:
  assumes "handle_sign_ssh Q caller req fw self approved s = (r, s')"
  obtains (refused) st why where "r = HttpError st why" and "only_logged s s'"
  | (answered) pub iu issued s1 where "sq_parse_key Q (wr_public_key req) = Some pub"
      and "\<not> outside_group (host_set_for_caller caller (sv_hosts s) (sv_callers s)) (wr_host req)"
      and "sign_intent (sq_sign Q) (current_local s) (ssh_intent caller req pub approved) = (Some iu, None)"
      and "respond_sign_result Q caller req (sv_hosts s) iu s = (r, issued, s1)" and "\<not> issued \<Longrightarrow> s' = s1" and "maybe_learned Q caller req iu fw s s'"
      and "at_most_one_more Q (sv_audit s1) s'"
proof -
  have aud: thesis if "audited (audit_emission Q caller req (sv_hosts s) n out d e s) st why = (r, s')" for n out d e st why
    using audited_refuses [OF that [unfolded audit_emission_def]] refused by blast
  show ?thesis
  proof (cases "sq_parse_key Q (wr_public_key req)")
    case None
    then have "r = HttpError 400 InvalidPubkey" "s' = s" using assms by (auto simp: handle_sign_ssh_def)
    then show ?thesis using refused by simp
  next
    case (Some pub)
    obtain iu err where sign: "sign_intent (sq_sign Q) (current_local s) (ssh_intent caller req pub approved) = (iu, err)"
      by (cases "sign_intent (sq_sign Q) (current_local s) (ssh_intent caller req pub approved)")
    let ?out = "outside_group (host_set_for_caller caller (sv_hosts s) (sv_callers s)) (wr_host req)"
    show ?thesis
    proof (cases "?out \<or> err \<noteq> None \<or> iu = None")
      case True
      then show ?thesis using assms Some sign refused [of 500 InvalidRequest] aud
        by (cases ?out; cases err; cases iu) (auto simp: handle_sign_ssh_def outside_group_def split: local_error.splits)
    next
      case False
      then obtain i where iu: "iu = Some i" "err = None" "\<not> ?out" by auto
      obtain r1 issued s1 where resp: "respond_sign_result Q caller req (sv_hosts s) i s = (r1, issued, s1)"
        by (cases "respond_sign_result Q caller req (sv_hosts s) i s")
      have log: "only_logged s s1" "only_logged s (snd (append_audit Q 1 e s1))" for e
        using respond_only_logs(1) [OF resp] append_only_logs only_logged_trans by blast+
      have "r = r1" "\<not> issued \<Longrightarrow> s' = s1" "maybe_learned Q caller req i fw s s'"
        using assms Some sign iu resp log by (auto simp: handle_sign_ssh_def outside_group_def maybe_learned_def Let_def split: if_splits)
      moreover have "at_most_one_more Q (sv_audit s1) s'"
        using assms Some sign iu resp
        by (auto simp: handle_sign_ssh_def outside_group_def Let_def one_more_learn one_more_append split: if_splits)
      ultimately show ?thesis using answered Some iu sign resp by blast
    qed
  qed
qed

lemma handle_sign_k8s_answer:
  assumes "handle_sign_k8s Q caller req fw approved s = (r, s')"
  obtains (refused) st why where "r = HttpError st why" and "only_logged s s'"
  | (answered) iu issued s1 where "k8s_wire_shape_error req = None"
      and "\<not> outside_group (cluster_set_for_caller caller (ls_clusters (sv_local s)) (sv_callers s)) (wr_host req)"
      and "sign_intent (sq_sign Q) (current_local s) (k8s_intent caller req approved) = (Some iu, None)"
      and "respond_sign_k8s Q caller req iu s = (r, issued, s1)" and "\<not> issued \<Longrightarrow> s' = s1" and "maybe_learned Q caller req iu fw s s'"
      and "at_most_one_more Q (sv_audit s1) s'"
proof -
  have aud: thesis if "audited (audit_k8s Q caller req a n out d e s) st why = (r, s')" for a n out d e st why
    using audited_refuses [OF that [unfolded audit_k8s_def]] refused by blast
  let ?out = "outside_group (cluster_set_for_caller caller (ls_clusters (sv_local s)) (sv_callers s)) (wr_host req)"
  show ?thesis
  proof (cases "k8s_wire_shape_error req \<noteq> None \<or> ?out \<or> \<not> map_has (ls_clusters (sv_local s)) (wr_host req)")
    case True
    then show ?thesis using assms aud
      by (cases "k8s_wire_shape_error req"; cases ?out) (auto simp: handle_sign_k8s_def outside_group_def Let_def)
  next
    case False
    obtain iu err where sign: "sign_intent (sq_sign Q) (current_local s) (k8s_intent caller req approved) = (iu, err)"
      by (cases "sign_intent (sq_sign Q) (current_local s) (k8s_intent caller req approved)")
    show ?thesis
    proof (cases "err \<noteq> None \<or> iu = None")
      case True
      then show ?thesis using assms False sign refused [of 500 InvalidRequest] aud
        by (cases err; cases iu) (auto simp: handle_sign_k8s_def outside_group_def Let_def split: local_error.splits)
    next
      case ok: False
      then obtain i where iu: "iu = Some i" "err = None" by auto
      obtain r1 issued s1 where resp: "respond_sign_k8s Q caller req i s = (r1, issued, s1)"
        by (cases "respond_sign_k8s Q caller req i s")
      have "r = r1" "\<not> issued \<Longrightarrow> s' = s1" "maybe_learned Q caller req i fw s s'"
        using assms False sign iu resp respond_only_logs(2) [OF resp]
        by (auto simp: handle_sign_k8s_def outside_group_def maybe_learned_def Let_def split: if_splits)
      moreover have "at_most_one_more Q (sv_audit s1) s'"
        using assms False sign iu resp by (auto simp: handle_sign_k8s_def outside_group_def Let_def one_more_learn split: if_splits)
      ultimately show ?thesis using answered False iu sign resp by auto
    qed
  qed
qed

lemma entry_outcome [simp]:
  "en_outcome (emission_entry Q caller req hosts serial outcome dec err) = outcome" "en_serial (emission_entry Q caller req hosts serial outcome dec err) = serial"
  "en_caller (emission_entry Q caller req hosts serial outcome dec err) = caller"
  "en_outcome (k8s_entry Q caller req clusters action serial outcome dec err) = outcome" "en_serial (k8s_entry Q caller req clusters action serial outcome dec err) = serial"
  "en_caller (k8s_entry Q caller req clusters action serial outcome dec err) = caller"
  by (auto simp: emission_entry_def k8s_entry_def with_decision_def Let_def split: option.splits)

text \<open>The intent an accepted request stands for.\<close>

definition request_intent :: "service_env \<Rightarrow> string \<Rightarrow> wire_request \<Rightarrow> bool \<Rightarrow> intent option" where
  "request_intent Q caller req approved =
     (if wr_target_type req = TargetTypeK8s then Some (k8s_intent caller req approved)
      else map_option (\<lambda>pub. ssh_intent caller req pub approved) (sq_parse_key Q (wr_public_key req)))"

lemma request_intent_fields:
  assumes "request_intent Q caller req approved = Some i"
  shows "in_caller i = caller" "in_host i = wr_host req" "in_approved i = approved" "in_dry_run i = wr_dry_run req"
    "in_end_user i = wr_end_user req" "in_target_type i = TargetTypeK8s \<longleftrightarrow> wr_target_type req = TargetTypeK8s"
  using assms by (auto simp: request_intent_def k8s_intent_def ssh_intent_def plain_intent_def split: if_splits)

text \<open>What stands behind an accepted answer.\<close>

definition answer_of :: "issuance \<Rightarrow> wire_request \<Rightarrow> wire_response \<Rightarrow> bool" where
  "answer_of iu req w \<longleftrightarrow> ws_decision w = iu_decision iu \<and> ws_certificate w = (if wr_dry_run req then None else iu_certificate iu)
     \<and> ws_k8s_token w = (if wr_dry_run req then [] else iu_k8s_token iu) \<and> (ws_envelope w \<noteq> [] \<longrightarrow> ws_envelope w = iu_envelope iu)
     \<and> (credential w \<longrightarrow> ws_serial w = iu_serial iu)"

text \<open>
  The record of an issue: its entry was appended to the log of the server, without error where the signer is to
  fail closed, which left the given log; an answer adds at most one more record.
\<close>

definition issue_appended :: "service_env \<Rightarrow> signer_server \<Rightarrow> string \<Rightarrow> 64 word \<Rightarrow> audit_log \<Rightarrow> bool" where
  "issue_appended Q s caller serial l \<longleftrightarrow> (\<exists>e err. en_outcome e = ''issued'' \<and> en_caller e = caller \<and> en_serial e = serial
     \<and> audit_append (sq_audit Q) (sq_io Q 0) e (sv_audit s) = (err, l) \<and> (sv_fail_closed s \<longrightarrow> err = None))"

definition issued_recorded :: "service_env \<Rightarrow> signer_server \<Rightarrow> string \<Rightarrow> 64 word \<Rightarrow> signer_server \<Rightarrow> bool" where
  "issued_recorded Q s caller serial s' \<longleftrightarrow> (\<exists>l. issue_appended Q s caller serial l \<and> at_most_one_more Q l s')"

lemma append_recorded:
  assumes "append_audit Q 0 e s = (True, s')" and "en_outcome e = ''issued''"
  shows "issue_appended Q s (en_caller e) (en_serial e) (sv_audit s')"
  using assms by (auto simp: issue_appended_def append_audit_def split: prod.splits)

lemma respond_sign_result_answer:
  assumes "respond_sign_result Q caller req hosts iu s = (HttpOK st w, issued, s')" and "iu_k8s_token iu = []"
  shows "answer_of iu req w" and "issued \<longleftrightarrow> credential w" and "credential w \<Longrightarrow> issue_appended Q s caller (ws_serial w) (sv_audit s')"
proof -
  show "answer_of iu req w" "issued \<longleftrightarrow> credential w"
    by (use assms in \<open>cases rule: respond_sign_result_cases [OF assms(1)]; simp add: answer_of_def credential_def\<close>)+
  show "issue_appended Q s caller (ws_serial w) (sv_audit s')" if "credential w"
    using assms(1)
  proof (cases rule: respond_sign_result_cases)
    case (4 l cert)
    from append_recorded [OF 4(6) [unfolded audit_emission_def]] 4(5) show ?thesis by simp
  qed (use that in \<open>simp_all add: credential_def\<close>)
qed

lemma respond_sign_k8s_answer:
  assumes "respond_sign_k8s Q caller req iu s = (HttpOK st w, issued, s')" and "iu_certificate iu = None"
  shows "answer_of iu req w" and "issued \<longleftrightarrow> credential w" and "credential w \<Longrightarrow> issue_appended Q s caller (ws_serial w) (sv_audit s')"
proof -
  show "answer_of iu req w" "issued \<longleftrightarrow> credential w"
    by (use assms in \<open>cases rule: respond_sign_k8s_cases [OF assms(1)]; auto simp: answer_of_def credential_def\<close>)+
  show "issue_appended Q s caller (ws_serial w) (sv_audit s')" if "credential w"
    using assms(1)
  proof (cases rule: respond_sign_k8s_cases)
    case (3 l)
    from append_recorded [OF 3(6) [unfolded audit_k8s_def]] 3(5) show ?thesis by simp
  qed (use that in \<open>simp_all add: credential_def\<close>)
qed

lemma one_kind:
  assumes "sign_intent N l i = (Some iu, err)"
  shows "in_target_type i = TargetTypeK8s \<Longrightarrow> iu_certificate iu = None" "in_target_type i \<noteq> TargetTypeK8s \<Longrightarrow> iu_k8s_token iu = []"
proof -
  show "iu_certificate iu = None" if "in_target_type i = TargetTypeK8s"
    using certificate_issued [OF assms] that by (metis option.exhaust)
  show "iu_k8s_token iu = []" if "in_target_type i \<noteq> TargetTypeK8s"
    using token_issued [OF assms] that by metis
qed

lemma unlearned_grants: "only_logged s s' \<Longrightarrow> sv_grants s' = sv_grants s"
  by (auto simp: only_logged_def)

lemma handle_sign_answer:
  assumes "handle_sign Q post cn body s = (HttpOK st w, s')"
  obtains peer req caller req' i iu where "cn = Some peer" and "body = Some req" and "passes_gates s peer req caller req'"
    and "request_intent Q caller req' (wr_approved req \<and> honours_approval s peer) = Some i"
    and "sign_intent (sq_sign Q) (current_local s) i = (Some iu, None)" and "answer_of iu req' w"
    and "wr_target_type req' \<noteq> TargetTypeK8s \<Longrightarrow> \<not> outside_group (host_set_for_caller caller (sv_hosts s) (sv_callers s)) (wr_host req')"
    and "credential w \<Longrightarrow> issued_recorded Q s caller (ws_serial w) s'"
    and "\<exists>l. maybe_learned Q caller req' iu (peer \<in> set (sv_forwarders s)) (s\<lparr>sv_rate_limiter := l\<rparr>) s'"
    and "\<not> credential w \<Longrightarrow> sv_grants s' = sv_grants s"
  using assms
proof (cases rule: handle_sign_cases)
  case (k8s peer req caller req' l)
  show ?thesis
    using k8s(5)
  proof (cases rule: handle_sign_k8s_answer)
    case (answered iu issued s1)
    let ?i = "k8s_intent caller req' (wr_approved req \<and> honours_approval s peer)"
    have "iu_certificate iu = None" using one_kind(1) [OF answered(3)] by (simp add: k8s_intent_def)
    note resp = respond_sign_k8s_answer [OF answered(4) this]
    show ?thesis
    proof (rule that [OF k8s(1-3)])
      show "request_intent Q caller req' (wr_approved req \<and> honours_approval s peer) = Some ?i" using k8s(4) by (simp add: request_intent_def)
      show "sv_grants s' = sv_grants s" if "\<not> credential w"
        using answered(5) resp(2) that unlearned_grants [OF respond_only_logs(2) [OF answered(4)]] by simp
      show "issued_recorded Q s caller (ws_serial w) s'" if "credential w"
        using resp(3) [OF that] answered(7) by (auto simp: issued_recorded_def issue_appended_def)
    qed (use answered resp k8s(4) in auto)
  qed simp
next
  case (ssh peer req caller req' l)
  show ?thesis
    using ssh(5)
  proof (cases rule: handle_sign_ssh_answer)
    case (answered pub iu issued s1)
    let ?i = "ssh_intent caller req' pub (wr_approved req \<and> honours_approval s peer)"
    have "iu_k8s_token iu = []" using one_kind(2) [OF answered(3)] by (simp add: ssh_intent_def plain_intent_def)
    note resp = respond_sign_result_answer [OF answered(4) this]
    show ?thesis
    proof (rule that [OF ssh(1-3)])
      show "request_intent Q caller req' (wr_approved req \<and> honours_approval s peer) = Some ?i" using ssh(4) answered(1) by (simp add: request_intent_def)
      show "sv_grants s' = sv_grants s" if "\<not> credential w"
        using answered(5) resp(2) that unlearned_grants [OF respond_only_logs(1) [OF answered(4)]] by simp
      show "issued_recorded Q s caller (ws_serial w) s'" if "credential w"
        using resp(3) [OF that] answered(7) by (auto simp: issued_recorded_def issue_appended_def)
    qed (use answered resp in auto)
  qed simp
qed simp

end
