(* ===== verification/Audit_Fit.thy ===== *)
theory Audit_Fit
  imports Audit_Log
begin

text \<open>
  \<open>fitEntry\<close> of \<open>internal/audit/log.go\<close>: however long the fields of an entry are, what is left of it is short
  enough for the reader's buffer, and only the string fields it may trim have changed.
\<close>

section \<open>The fields\<close>

definition trim_fields :: "entry_field list" where
  "trim_fields = free_fields @ metadata_string_fields"

definition field_values :: "entry \<Rightarrow> string list" where
  "field_values e = map (\<lambda>f. fst f e) trim_fields"

text \<open>An entry without the fields that may be trimmed.\<close>

definition strip_fields :: "entry \<Rightarrow> entry" where
  "strip_fields e = fold (\<lambda>f. snd f []) trim_fields e"

definition exhausted :: "string \<Rightarrow> bool" where
  "exhausted v \<longleftrightarrow> v = [] \<or> v = truncated_marker"

lemmas field_defs = trim_fields_def free_fields_def metadata_string_fields_def

lemma trim_fields_length [simp]: "length trim_fields = 18" "length (field_values e) = 18"
  by (simp_all add: field_defs field_values_def)

lemma field_index: "i < (18 :: nat) \<Longrightarrow> i \<in> {0, 1, 2, 3, 4, 5, 6, 7, 8, 9, 10, 11, 12, 13, 14, 15, 16, 17}"
  by (simp, arith)

lemma field_update: "i < 18 \<Longrightarrow> field_values (snd (trim_fields ! i) v e) = (field_values e)[i := v]"
  by (drule field_index, elim insertE emptyE) (simp_all add: field_values_def field_defs)

lemma field_update_strip: "i < 18 \<Longrightarrow> strip_fields (snd (trim_fields ! i) v e) = strip_fields e"
  by (drule field_index, elim insertE emptyE) (simp_all add: strip_fields_def field_defs)

text \<open>How many fields can still give text.\<close>

definition trimmable_count :: "entry \<Rightarrow> nat" where
  "trimmable_count e = length (filter (\<lambda>v. \<not> exhausted v) (field_values e))"

lemma filter_update_less:
  "i < length vs \<Longrightarrow> P (vs ! i) \<Longrightarrow> \<not> P v \<Longrightarrow> length (filter P (vs[i := v])) < length (filter P vs)"
  by (induction vs arbitrary: i) (auto simp: nth_Cons split: nat.splits)

lemma trim_marker:
  assumes "f \<in> set trim_fields" and "\<not> exhausted (fst f e)"
  shows "trimmable_count (snd f truncated_marker e) < trimmable_count e"
proof -
  obtain i where i: "i < 18" "f = trim_fields ! i" using assms(1) by (metis in_set_conv_nth trim_fields_length(1))
  have "field_values e ! i = fst f e" using i by (simp add: field_values_def)
  then show ?thesis
    using filter_update_less [of i "field_values e" "\<lambda>v. \<not> exhausted v" truncated_marker] assms(2) i
    by (simp add: trimmable_count_def field_update exhausted_def)
qed

lemma trim_keeps_rest: "f \<in> set trim_fields \<Longrightarrow> strip_fields (snd f v e) = strip_fields e"
  by (metis field_update_strip in_set_conv_nth trim_fields_length(1))

section \<open>The choice of a field\<close>

lemma longest_from_Some:
  "longest_from e best fs = Some f \<Longrightarrow> best = Some f \<or> f \<in> set fs \<and> \<not> exhausted (fst f e)"
  by (induction e best fs rule: longest_from.induct) (auto simp: exhausted_def split: if_splits option.splits)

lemma longest_from_None: "longest_from e best fs = None \<longleftrightarrow> best = None \<and> (\<forall>f \<in> set fs. exhausted (fst f e))"
  by (induction e best fs rule: longest_from.induct) (auto simp: exhausted_def split: if_splits option.splits)

definition next_field :: "entry \<Rightarrow> entry_field option" where
  "next_field e = (case longest_trimmable e free_fields of
     None \<Rightarrow> longest_trimmable e metadata_string_fields | Some f \<Rightarrow> Some f)"

lemma next_field_Some: "next_field e = Some f \<Longrightarrow> f \<in> set trim_fields \<and> \<not> exhausted (fst f e)"
  by (auto simp: next_field_def longest_trimmable_def trim_fields_def split: option.splits dest: longest_from_Some)

lemma next_field_None: "next_field e = None \<longleftrightarrow> trimmable_count e = 0"
proof -
  have "next_field e = None \<longleftrightarrow> (\<forall>f \<in> set trim_fields. exhausted (fst f e))"
    using longest_from_None [of e None free_fields] longest_from_None [of e None metadata_string_fields]
    by (cases "longest_from e None free_fields") (auto simp: next_field_def longest_trimmable_def trim_fields_def)
  then show ?thesis by (simp add: trimmable_count_def field_values_def filter_empty_conv)
qed

section \<open>What one pass does\<close>

text \<open>
  The size of an encoded entry, as far as \<open>encoding/json\<close> determines it: replacing a field that is not empty by
  another that is not changes the size by the difference of the two encodings, a cut at the start of a code
  point loses at least one byte per byte dropped, and the marker needs no escape. \<^term>\<open>jl\<close> is the size of an
  encoded string.
\<close>

definition json_sizes :: "audit_lib \<Rightarrow> (string \<Rightarrow> nat) \<Rightarrow> bool" where
  "json_sizes L jl \<longleftrightarrow>
     (\<forall>f \<in> set trim_fields. \<forall>e v. v \<noteq> [] \<and> fst f e \<noteq> [] \<longrightarrow>
        length (au_marshal L (snd f v e)) + jl (fst f e) = length (au_marshal L e) + jl v)
     \<and> (\<forall>s k. k < length s \<and> (k = 0 \<or> rune_start (s ! k)) \<longrightarrow>
          jl (take k s @ truncated_marker) + (length s - k) \<le> jl s + length truncated_marker)"

text \<open>The entry without any text of its own fits.\<close>

definition bare_fits :: "audit_lib \<Rightarrow> entry \<Rightarrow> bool" where
  "bare_fits L e \<longleftrightarrow>
     (\<forall>e'. strip_fields e' = strip_fields e \<and> trimmable_count e' = 0 \<longrightarrow> length (au_marshal L e') \<le> entry_budget)"

lemma rune_boundary_le: "rune_boundary s k \<le> k" "rune_boundary s k = 0 \<or> rune_start (s ! rune_boundary s k)"
  by (induction k) auto

lemma pass_trims:
  assumes "json_sizes L jl" and "f \<in> set trim_fields" and "\<not> exhausted (fst f e)" and "entry_budget < length (au_marshal L e)"
    and "e' = snd f (truncate_field (fst f e) (length (au_marshal L e) - entry_budget)) e"
  shows "length (au_marshal L e') \<le> entry_budget \<or> trimmable_count e' < trimmable_count e"
proof -
  define s over keep where "s = fst f e" and "over = length (au_marshal L e) - entry_budget"
    and "keep = length s - over - length truncated_marker"
  have s: "s \<noteq> []" "over > 0" using assms(3,4) by (auto simp: s_def over_def exhausted_def)
  have v: "truncate_field s over = take (rune_boundary s keep) s @ truncated_marker" by (simp add: truncate_field_def keep_def)
  show ?thesis
  proof (cases "length s < over + length truncated_marker")
    case True
    then have "truncate_field s over = truncated_marker" using v by (simp add: keep_def)
    then show ?thesis using trim_marker [OF assms(2,3)] assms(5) by (simp add: s_def over_def)
  next
    case False
    define k where "k = rune_boundary s keep"
    have k: "k \<le> keep" "k < length s" "k = 0 \<or> rune_start (s ! k)"
      using rune_boundary_le [of s keep] s False by (auto simp: k_def keep_def)
    have "length (au_marshal L e') + jl s = length (au_marshal L e) + jl (take k s @ truncated_marker)"
      using assms(1,2,5) s(1) v by (simp add: json_sizes_def s_def over_def k_def)
    moreover have "jl (take k s @ truncated_marker) + (length s - k) \<le> jl s + length truncated_marker"
      using assms(1) k by (simp add: json_sizes_def)
    ultimately have "length (au_marshal L e') \<le> entry_budget"
      using k(1) False by (simp add: keep_def over_def)
    then show ?thesis ..
  qed
qed

lemma fit_loop_fits:
  assumes "json_sizes L jl" and "bare_fits L e" and "trimmable_count e < n"
  shows "length (au_marshal L (fit_loop L n e)) \<le> entry_budget \<and> strip_fields (fit_loop L n e) = strip_fields e"
  using assms(2,3)
proof (induction n arbitrary: e)
  case (Suc n)
  show ?case
  proof (cases "length (au_marshal L e) \<le> entry_budget")
    case False
    show ?thesis
    proof (cases "next_field e")
      case None
      then show ?thesis using False Suc.prems(1) next_field_None by (simp add: bare_fits_def)
    next
      case (Some f)
      define e' where "e' = snd f (truncate_field (fst f e) (length (au_marshal L e) - entry_budget)) e"
      have f: "f \<in> set trim_fields" "\<not> exhausted (fst f e)" using next_field_Some [OF Some] by auto
      have rest: "strip_fields e' = strip_fields e" using f(1) by (simp add: e'_def trim_keeps_rest)
      have loop: "fit_loop L (Suc n) e = fit_loop L n e'"
        using False Some by (simp add: next_field_def e'_def case_prod_beta')
      from pass_trims [OF assms(1) f _ e'_def] False
      consider "length (au_marshal L e') \<le> entry_budget" | "trimmable_count e' < n" using Suc.prems(2) by fastforce
      then show ?thesis
      proof cases
        case 1
        then have "fit_loop L n e' = e'" by (cases n) simp_all
        then show ?thesis using 1 loop rest by simp
      next
        case 2
        then show ?thesis using Suc.IH [of e'] Suc.prems(1) rest loop by (simp add: bare_fits_def)
      qed
    qed
  qed simp
qed simp

section \<open>Theorem\<close>

text \<open>
  C31: Every entry ends up within the budget, whatever its producers put into it: after \<open>fitEntry\<close> the encoded
  entry is at most 261120 bytes long, which leaves 1024 bytes of the reader's buffer for the sequence number, the
  hash, the signature and the time. Only the text of the trimmable fields is touched. The size of an encoded
  entry is assumed to grow with its fields as JSON has it, and the entry without text to fit.
\<close>

theorem fit_entry_fits:
  assumes "json_sizes L jl" and "bare_fits L e"
  shows "length (au_marshal L (fit_entry L e)) \<le> entry_budget \<and> strip_fields (fit_entry L e) = strip_fields e"
proof -
  have "trimmable_count e \<le> 18" using length_filter_le [of _ "field_values e"] by (simp add: trimmable_count_def)
  moreover have "4 * (length free_fields + length metadata_string_fields) = 72"
    by (simp add: free_fields_def metadata_string_fields_def)
  ultimately show ?thesis unfolding fit_entry_def using fit_loop_fits [OF assms, of 72] by simp
qed

text \<open>An encoder that writes the trimmable fields one after the other.\<close>

definition plain_lib :: audit_lib where
  "plain_lib = \<lparr>au_marshal = concat \<circ> field_values, au_unmarshal = (\<lambda>s. None), au_sha256 = id, au_sign = (\<lambda>k m. k),
     au_check = (\<lambda>p m s. True), au_b64 = id, au_unb64 = Some, au_stamp = (\<lambda>t. []), au_is_stamp = (\<lambda>s. True)\<rparr>"

lemma concat_update: "i < length vs \<Longrightarrow> length (concat (vs[i := v])) + length (vs ! i) = length (concat vs) + length v"
  by (induction vs arbitrary: i) (auto simp: nth_Cons split: nat.splits)

lemma plain_sizes: "json_sizes plain_lib length"
proof -
  have "length (concat (field_values (snd f v e))) + length (fst f e) = length (concat (field_values e)) + length v"
    if f: "f \<in> set trim_fields" for f e v
  proof -
    obtain i where i: "i < 18" "f = trim_fields ! i" using f by (metis in_set_conv_nth trim_fields_length(1))
    then have "field_values e ! i = fst f e" by (simp add: field_values_def)
    then show ?thesis using concat_update [of i "field_values e" v] i by (simp add: field_update)
  qed
  then show ?thesis by (simp add: json_sizes_def plain_lib_def)
qed

lemma plain_bare: "bare_fits plain_lib e"
proof -
  have short: "length v \<le> 14" if "exhausted v" for v using that by (auto simp: exhausted_def)
  have bound: "length (concat vs) \<le> 14 * length vs" if "\<forall>v \<in> set vs. exhausted v" for vs
    using that
  proof (induction vs)
    case (Cons v vs)
    then show ?case using short [of v] by simp
  qed simp
  show ?thesis
    unfolding bare_fits_def
  proof (intro allI impI)
    fix e' assume "strip_fields e' = strip_fields e \<and> trimmable_count e' = 0"
    then have "\<forall>v \<in> set (field_values e'). exhausted v" by (simp add: trimmable_count_def filter_empty_conv)
    from bound [OF this] show "length (au_marshal plain_lib e') \<le> entry_budget" by (simp add: plain_lib_def)
  qed
qed

theorem fit_entry_fits_witness:
  "length (au_marshal plain_lib (fit_entry plain_lib (empty_entry\<lparr>en_command := replicate 300000 CHR ''a''\<rparr>))) \<le> entry_budget"
  by (rule conjunct1 [OF fit_entry_fits [OF plain_sizes plain_bare]])

end
