(* ===== verification/Signer_Guarantees.thy ===== *)
theory Signer_Guarantees
  imports Signer_Service Audit_Fit
begin

text \<open>
  What the signer's HTTP service guarantees its operators: nothing leaves without a record, approval and
  delegation count only from whom they may come, a frozen subject gets nothing and keeps no grant, an end user
  is who the token says, and the host list shows what may be signed for.
\<close>

section \<open>Grants of a frozen subject\<close>

definition no_grant_of :: "freeze_subject \<Rightarrow> grant_store \<Rightarrow> bool" where
  "no_grant_of k gs \<longleftrightarrow> (\<forall>(n, g) \<in> set (gs_grants gs). \<not> grant_of_subject (fs_kind k) (fs_value k) g)"

lemma no_grant_subset: "set (gs_grants gs') \<subseteq> set (gs_grants gs) \<Longrightarrow> no_grant_of k gs \<Longrightarrow> no_grant_of k gs'"
  by (auto simp: no_grant_of_def)

lemma revoke_clears:
  assumes "revoke_for_subject b e c (fs_kind k) (fs_value k) gs = (Inr n, gs')"
    and "fs_value k \<noteq> []" and "fs_kind k = FreezeCaller \<or> fs_kind k = FreezeEndUser"
  shows "no_grant_of k gs'"
  using assms by (auto simp: revoke_for_subject_def no_grant_of_def Let_def filter_empty_conv map_keep_def image_iff split: if_splits option.splits)

lemma revoke_subset: "revoke_for_subject b e c kind val gs = (r, gs') \<Longrightarrow> set (gs_grants gs') \<subseteq> set (gs_grants gs)"
  by (auto simp: revoke_for_subject_def Let_def map_keep_def split: if_splits option.splits)

lemma compile_waivers_scope: "compile_waivers E g = Inr g' \<Longrightarrow> g_caller g' = g_caller g \<and> g_end_user g' = g_end_user g"
  by (auto simp: compile_waivers_def split: sum.splits)

lemma add_grants:
  assumes "grant_add E J ok i g gs = (r, gs')"
  shows "gs' = gs \<or>
    (\<exists>g'. set (gs_grants gs') \<subseteq> insert (i, g') (set (gs_grants gs)) \<and> g_caller g' = g_caller g \<and> g_end_user g' = g_end_user g)"
proof (cases "gs' = gs")
  case False
  let ?g = "g\<lparr>g_sudo_user := canonical_grant_sudo_user (g_sudo g) (g_sudo_user g)\<rparr>"
  obtain g2 where g2: "compile_waivers E ?g = Inr g2" "gs_grants gs' = AList.update i (g2\<lparr>g_id := i\<rparr>) (gs_grants gs)"
    using assms False by (auto simp: grant_add_def Let_def split: if_splits option.splits sum.splits)
  show ?thesis
    using set_update_subset [of i "g2\<lparr>g_id := i\<rparr>" "gs_grants gs"] compile_waivers_scope [OF g2(1)] g2(2)
    by (intro disjI2 exI [of _ "g2\<lparr>g_id := i\<rparr>"]) simp
qed simp

text \<open>A grant that is added while its scope is not frozen.\<close>

lemma add_keeps_none:
  assumes "grant_add E J ok i g gs = (r, gs')" and "no_grant_of k gs"
    and "freeze_frozen (g_caller g) (g_end_user g) fz = None" and "map_has (fz_frozen fz) k" and "fs_value k \<noteq> []"
  shows "no_grant_of k gs'"
proof -
  have "\<not> grant_of_subject (fs_kind k) (fs_value k) g'" if "g_caller g' = g_caller g" "g_end_user g' = g_end_user g" for g'
  proof
    assume "grant_of_subject (fs_kind k) (fs_value k) g'"
    then have "k = \<lparr>fs_kind = FreezeCaller, fs_value = g_caller g\<rparr> \<or> k = \<lparr>fs_kind = FreezeEndUser, fs_value = g_end_user g\<rparr>"
      using that by (auto simp: grant_of_subject_def)
    then show False using assms(3-5) by (auto simp: freeze_frozen_def split: if_splits)
  qed
  then show ?thesis using add_grants [OF assms(1)] assms(2) by (fastforce simp: no_grant_of_def)
qed

section \<open>Steps of the service\<close>

text \<open>
  Each step is one critical section under \<open>writeMu\<close>, or an operation of the grant store under its own mutex. A
  signing request is the step \<^term>\<open>maybe_learn_waiver\<close> for the waiver it may learn; everything else it does
  leaves grants and freezes alone.
\<close>

inductive service_step :: "signer_server \<Rightarrow> signer_server \<Rightarrow> bool" where
  freeze: "handle_freeze Q cn fbody s = (rf, s') \<Longrightarrow> service_step s s'"
| unfreeze: "handle_unfreeze Q cn fbody s = (ru, s') \<Longrightarrow> service_step s s'"
| grant: "create_grant Q caller host q ttl s = (rg, s') \<Longrightarrow> service_step s s'"
| learn: "service_step s (maybe_learn_waiver Q caller req iu s)"
| revoke: "handle_grant_revoke Q cn i s = (rv, s') \<Longrightarrow> service_step s s'"
| list: "handle_grant_list Q cn s = (rl, s') \<Longrightarrow> service_step s s'"
| purge: "service_step s (s\<lparr>sv_grants := snd (grant_purge ok now (sv_grants s))\<rparr>)"
| reload: "handle_reload Q post cn loaded s = (rr, s') \<Longrightarrow> service_step s s'"
| log: "only_logged s s' \<Longrightarrow> service_step s s'"

text \<open>Runs during which the subject \<^term>\<open>k\<close> stays frozen.\<close>

inductive frozen_run :: "freeze_subject \<Rightarrow> signer_server \<Rightarrow> signer_server \<Rightarrow> bool" for k where
  stay: "map_has (fz_frozen (sv_freezes s)) k \<Longrightarrow> frozen_run k s s"
| go: "frozen_run k s t \<Longrightarrow> service_step t u \<Longrightarrow> map_has (fz_frozen (sv_freezes u)) k \<Longrightarrow> frozen_run k s u"

lemma admit_denial_frame [simp]: "sv_grants (snd (admit_denial Q c s)) = sv_grants s" "sv_freezes (snd (admit_denial Q c s)) = sv_freezes s"
  by (auto simp: admit_denial_def rate_admits_def split: prod.splits)

lemma audit_helpers [simp]:
  "sv_grants (audit_reload Q c n o1 e s) = sv_grants s" "sv_grants (audit_freeze Q c o2 k reason m ge s) = sv_grants s"
  "sv_grants (audit_grant Q c h i al o3 se s) = sv_grants s" "sv_grants (swap_state st s) = sv_grants s"
  by (simp_all add: audit_reload_def audit_freeze_def audit_grant_def swap_state_def Let_def)

lemma revoke_grants_subset: "revoke_grants Q k s = (r, s') \<Longrightarrow> set (gs_grants (sv_grants s')) \<subseteq> set (gs_grants (sv_grants s))"
  by (auto simp: revoke_grants_def split: prod.splits dest: revoke_subset [THEN subsetD])

lemma freeze_handler_grants: "handle_freeze Q cn body s = (r, s') \<Longrightarrow> set (gs_grants (sv_grants s')) \<subseteq> set (gs_grants (sv_grants s))"
  by (auto simp: handle_freeze_def split: sum.splits prod.splits option.splits if_splits dest!: revoke_grants_subset)

lemma unfreeze_handler_grants: "handle_unfreeze Q cn body s = (r, s') \<Longrightarrow> set (gs_grants (sv_grants s')) \<subseteq> set (gs_grants (sv_grants s))"
  by (auto simp: handle_unfreeze_def Let_def split: sum.splits prod.splits option.splits if_splits dest!: revoke_grants_subset)

lemma revoke_handler_grants: "handle_grant_revoke Q cn i s = (r, s') \<Longrightarrow> set (gs_grants (sv_grants s')) \<subseteq> set (gs_grants (sv_grants s))"
  using set_delete_subset [of i "gs_grants (sv_grants s)"]
  by (auto simp: handle_grant_revoke_def grant_revoke_def policy_admin_def split: sum.splits prod.splits option.splits if_splits bool.splits)
    (metis admit_denial_frame(1) snd_conv)+

lemma create_keeps_none:
  assumes "create_grant Q caller host q ttl s = (r, s')" and "no_grant_of k (sv_grants s)"
    and "map_has (fz_frozen (sv_freezes s)) k" and "fs_value k \<noteq> []"
  shows "no_grant_of k (sv_grants s')"
proof (cases "freeze_frozen (gq_caller q) (gq_end_user q) (sv_freezes s)")
  case None
  let ?g = "\<lparr>g_id = [], g_host = host, g_allow = gq_allow q, g_waive_approval = [], g_caller = gq_caller q,
       g_end_user = gq_end_user q, g_sudo = False, g_sudo_user = [], g_approver = caller, g_approval_id = [],
       g_granted_at = sq_now Q, g_expires_at = sq_now Q + ttl, g_waiver_re = []\<rparr>"
  obtain rg gs where add: "grant_add (se_env (sq_sign Q)) (sq_codec Q) (sq_insert_ok Q) (sq_grant_id Q) ?g (sv_grants s) = (rg, gs)"
    by (cases "grant_add (se_env (sq_sign Q)) (sq_codec Q) (sq_insert_ok Q) (sq_grant_id Q) ?g (sv_grants s)")
  have "sv_grants s' = gs" using assms(1) None add by (cases rg) (auto simp: create_grant_def)
  then show ?thesis using add_keeps_none [OF add assms(2) _ assms(3,4)] None by simp
qed (use assms in \<open>auto simp: create_grant_def\<close>)

lemma learn_keeps_none:
  assumes "no_grant_of k (sv_grants s)" and "map_has (fz_frozen (sv_freezes s)) k" and "fs_value k \<noteq> []"
  shows "no_grant_of k (sv_grants (maybe_learn_waiver Q caller req iu s))"
proof (cases "freeze_frozen caller (wr_end_user req) (sv_freezes s)")
  case None
  let ?g = "learned_grant Q caller req s"
  let ?gs = "snd (supersede_waiver (sq_delete_ok Q) ?g (sv_grants s))"
  obtain rg gs where add: "grant_add (se_env (sq_sign Q)) (sq_codec Q) (sq_insert_ok Q) (sq_grant_id Q) ?g ?gs = (rg, gs)"
    by (cases "grant_add (se_env (sq_sign Q)) (sq_codec Q) (sq_insert_ok Q) (sq_grant_id Q) ?g ?gs")
  have "set (gs_grants ?gs) \<subseteq> set (gs_grants (sv_grants s))" by (auto simp: supersede_waiver_def map_keep_def Let_def)
  then have "no_grant_of k ?gs" using assms(1) no_grant_subset by blast
  then have "no_grant_of k gs" using add_keeps_none [OF add _ _ assms(2,3)] None by (simp add: learned_grant_def Let_def)
  moreover have "sv_grants (maybe_learn_waiver Q caller req iu s) \<in> {sv_grants s, gs}"
    using None add by (cases rg) (auto simp: maybe_learn_waiver_def Let_def)
  ultimately show ?thesis using assms(1) by auto
qed (use assms(1) in \<open>simp add: maybe_learn_waiver_def\<close>)

lemma step_keeps_none:
  assumes "service_step s s'" and "no_grant_of k (sv_grants s)" and "map_has (fz_frozen (sv_freezes s)) k" and "fs_value k \<noteq> []"
  shows "no_grant_of k (sv_grants s')"
  using assms
proof cases
  case (freeze Q cn fbody rf)
  then show ?thesis using freeze_handler_grants no_grant_subset assms(2) by blast
next
  case (unfreeze Q cn fbody ru)
  then show ?thesis using unfreeze_handler_grants no_grant_subset assms(2) by blast
next
  case (grant Q caller host q ttl rg)
  then show ?thesis using create_keeps_none assms(2-4) by blast
next
  case (learn Q caller req iu)
  then show ?thesis using learn_keeps_none assms(2-4) by blast
next
  case (revoke Q cn i rv)
  then show ?thesis using revoke_handler_grants no_grant_subset assms(2) by blast
next
  case (list Q cn rl)
  then have "set (gs_grants (sv_grants s')) \<subseteq> set (gs_grants (sv_grants s))"
    by (auto simp: handle_grant_list_def grant_list_def map_keep_def Let_def split: option.splits if_splits)
  then show ?thesis using no_grant_subset assms(2) by blast
next
  case (purge ok now)
  then have "set (gs_grants (sv_grants s')) \<subseteq> set (gs_grants (sv_grants s))" by (auto simp: grant_purge_def map_keep_def)
  then show ?thesis using no_grant_subset assms(2) by blast
next
  case (reload Q post cn loaded rr)
  then have "sv_grants s' = sv_grants s"
    by (auto simp: handle_reload_def Let_def split: if_splits option.splits sum.splits prod.splits) (metis admit_denial_frame(1) snd_conv)+
  then show ?thesis using assms(2) by simp
next
  case log
  then show ?thesis using assms(2) unlearned_grants by metis
qed

lemma run_keeps_none:
  "frozen_run k s t \<Longrightarrow> no_grant_of k (sv_grants s) \<Longrightarrow> fs_value k \<noteq> [] \<Longrightarrow>
     no_grant_of k (sv_grants t) \<and> map_has (fz_frozen (sv_freezes t)) k"
  by (induction rule: frozen_run.induct) (auto intro: step_keeps_none)

section \<open>Properties\<close>

text \<open>
  C12: a frozen subject keeps no grant. Once freezing a caller or an end user has been answered with success,
  the grant store holds no grant and no waiver scoped to that subject, and none comes back while the subject
  stays frozen: neither by an administrator's grant, nor by a waiver a concurrent signing request learns, nor
  by any other operation of the service, in whatever order they run.
\<close>

theorem frozen_subject_keeps_no_grant:
  assumes "handle_freeze Q cn (Some \<lparr>fq_kind = kind, fq_value = val, fq_reason = reason, fq_allow_volatile = vol\<rparr>) s = (HttpOK st r, s1)"
    and "kind = FreezeCaller \<or> kind = FreezeEndUser" and "frozen_run \<lparr>fs_kind = kind, fs_value = val\<rparr> s1 t"
  shows "\<forall>(i, g) \<in> set (gs_grants (sv_grants t)). \<not> grant_of_subject kind val g"
proof -
  let ?k = "\<lparr>fs_kind = kind, fs_value = val\<rparr>"
  have ser: "kind \<noteq> FreezeSerial" using assms(2) by auto
  have val: "val \<noteq> []" and rev: "\<exists>b e c n gs. revoke_for_subject b e c kind val gs = (Inr n, sv_grants s1)"
    using assms(1) ser by (auto simp: handle_freeze_def decode_freeze_subject_def revoke_grants_def split: sum.splits prod.splits option.splits if_splits) blast+
  from rev obtain b e c n gs where "revoke_for_subject b e c (fs_kind ?k) (fs_value ?k) gs = (Inr n, sv_grants s1)" by auto
  then have "no_grant_of ?k (sv_grants s1)" using val assms(2) by (intro revoke_clears) simp_all
  from run_keeps_none [OF assms(3) this] val show ?thesis by (simp add: no_grant_of_def)
qed

text \<open>
  C10: no credential without its record. When the signer fails closed and answers a signing request with a
  certificate or a token, its log has taken, without error, the record of the issue, with the serial number in
  the answer and the caller the request was resolved to: right then the record, masked and cut to fit, is the
  last line of the log. The log the answer leaves is that one, or that one with one more record (of a waiver or
  of a self-approval).
\<close>

theorem credential_is_recorded:
  assumes "handle_sign Q post cn body s = (HttpOK st w, s')" and "credential w" and "sv_fail_closed s"
  shows "\<exists>e peer req caller l k pre. en_outcome e = ''issued'' \<and> en_serial e = ws_serial w \<and> en_caller e = caller
           \<and> cn = Some peer \<and> body = Some req \<and> resolve_caller peer (wr_on_behalf_of req) (sv_forwarders s) = Some caller
           \<and> audit_append (sq_audit Q) (sq_io Q 0) e (sv_audit s) = (None, l)
           \<and> active_content l = pre @ au_marshal (sq_audit Q) (signed_entry (sq_audit Q) (sq_io Q 0) k
                (fit_entry (sq_audit Q) (redact_entry (al_redactor (sv_audit s)) e))) @ [newline]
           \<and> (sv_audit s' = l \<or> (\<exists>n e2. sv_audit s' = snd (audit_append (sq_audit Q) (sq_io Q n) e2 l)))"
  using assms(1)
proof (cases rule: handle_sign_answer)
  case (1 peer req caller req' i iu)
  obtain e l where e: "en_outcome e = ''issued''" "en_caller e = caller" "en_serial e = ws_serial w"
    "audit_append (sq_audit Q) (sq_io Q 0) e (sv_audit s) = (None, l)" "at_most_one_more Q l s'"
    using 1(8) assms(2,3) by (auto simp: issued_recorded_def issue_appended_def)
  moreover have "resolve_caller peer (wr_on_behalf_of req) (sv_forwarders s) = Some caller" using 1(3) by (simp add: passes_gates_def)
  ultimately show ?thesis using append_None [OF e(4)] 1(1,2) unfolding at_most_one_more_def by blast
qed


text \<open>
  C24: the kill switch covers every way to sign. Whatever a signing request is answered with success, an
  approval request and a dry run included, neither the peer nor the caller it acts for nor the end user of the
  request is frozen at that moment.
\<close>

theorem no_answer_for_frozen:
  assumes "handle_sign Q post (Some peer) (Some req) s = (HttpOK st w, s')"
  shows "\<exists>caller req'. resolve_caller peer (wr_on_behalf_of req) (sv_forwarders s) = Some caller
    \<and> rederive_end_user s caller req = Inr req'
    \<and> \<not> (peer \<noteq> [] \<and> map_has (fz_frozen (sv_freezes s)) \<lparr>fs_kind = FreezeCaller, fs_value = peer\<rparr>)
    \<and> \<not> (caller \<noteq> [] \<and> map_has (fz_frozen (sv_freezes s)) \<lparr>fs_kind = FreezeCaller, fs_value = caller\<rparr>)
    \<and> \<not> (wr_end_user req' \<noteq> [] \<and> map_has (fz_frozen (sv_freezes s)) \<lparr>fs_kind = FreezeEndUser, fs_value = wr_end_user req'\<rparr>)"
  using assms
proof (cases rule: handle_sign_answer)
  case (1 peer' req1 caller req' i iu)
  then show ?thesis
    by (intro exI [of _ caller] exI [of _ req']) (auto simp: passes_gates_def frozen_subject_def freeze_frozen_def split: if_splits option.splits)
qed

text \<open>
  A signing request changes the grant store only as the last step of an approved issue. If it does, the peer
  is a trusted forwarder that asked for a waiver, the answer carries a credential for a command that needs
  approval, neither the caller nor the end user is frozen, and, failing closed, the record of the issue has been
  appended.
\<close>

theorem waiver_follows_issue:
  assumes "handle_sign Q post (Some peer) (Some req) s = (r, s')" and "sv_grants s' \<noteq> sv_grants s"
  shows "peer \<in> set (sv_forwarders s) \<and> wr_learn_ttl_seconds req > 0
    \<and> (\<exists>w caller. r = HttpOK 200 w \<and> credential w \<and> di_require_approval (ws_decision w)
         \<and> (\<exists>eu. freeze_frozen caller eu (sv_freezes s) = None) \<and> issued_recorded Q s caller (ws_serial w) s')"
proof -
  have ok: "\<exists>w. r = HttpOK 200 w"
    using assms(1)
  proof (cases rule: handle_sign_cases)
    case (k8s peer' req1 caller req' l)
    from k8s(5) show ?thesis
      by (cases rule: handle_sign_k8s_answer) (use assms(2) unlearned_grants in \<open>fastforce elim!: respond_sign_k8s_cases simp: only_logged_def\<close>)+
  next
    case (ssh peer' req1 caller req' l)
    from ssh(5) show ?thesis
      by (cases rule: handle_sign_ssh_answer) (use assms(2) unlearned_grants in \<open>fastforce elim!: respond_sign_result_cases simp: only_logged_def\<close>)+
  qed (use assms(2) in simp)
  then obtain w where w: "r = HttpOK 200 w" by blast
  from assms(1) [unfolded w] show ?thesis
  proof (cases rule: handle_sign_answer)
    case (1 peer' req1 caller req' i iu)
    have p: "peer' = peer" "req1 = req" using 1 by auto
    have cred: "credential w" using 1(10) assms(2) by blast
    obtain l where learned: "maybe_learned Q caller req' iu (peer \<in> set (sv_forwarders s)) (s\<lparr>sv_rate_limiter := l\<rparr>) s'" using 1(9) p by auto
    have "\<not> only_logged (s\<lparr>sv_rate_limiter := l\<rparr>) s'" using assms(2) unlearned_grants by fastforce
    with learned obtain s1 where fw: "peer \<in> set (sv_forwarders s)" "wr_learn_ttl_seconds req' > 0"
      and s1: "only_logged (s\<lparr>sv_rate_limiter := l\<rparr>) s1" "s' = maybe_learn_waiver Q caller req' iu s1" by (auto simp: maybe_learned_def)
    have same: "sv_grants s1 = sv_grants s" "sv_freezes s1 = sv_freezes s" using s1(1) by (auto simp: only_logged_def)
    have "di_require_approval (iu_decision iu)" "freeze_frozen caller (wr_end_user req') (sv_freezes s) = None"
      using assms(2) s1(2) same by (auto simp: maybe_learn_waiver_def split: if_splits option.splits)
    moreover have "wr_learn_ttl_seconds req > 0" using fw(2) 1(3) rederive_keeps p by (auto simp: passes_gates_def)
    ultimately show ?thesis using fw(1) w cred 1(6,8) by (auto simp: answer_of_def)
  qed
qed

text \<open>
  A verified end user is the one of the token. When the caller must present verified end users, every
  successful answer is for the user, the groups and the context that the configured issuer derives from the
  forwarded token, whatever the request itself claims; a group restriction the request asserts is never
  dropped.
\<close>

theorem end_user_from_token:
  assumes "handle_sign Q post (Some peer) (Some req) s = (HttpOK st w, s')"
    and "resolve_caller peer (wr_on_behalf_of req) (sv_forwarders s) = Some caller" and "may_require_verified_end_user (sv_callers s) caller"
  shows "\<exists>verify ident i iu. sv_end_user_verifier s = Some verify \<and> verify (wr_bearer_token req) = Some ident
    \<and> sign_intent (sq_sign Q) (current_local s) i = (Some iu, None) \<and> ws_decision w = iu_decision iu
    \<and> in_end_user i = id_user ident \<and> in_end_user_groups i = id_groups ident \<and> in_end_user_context i = id_context ident
    \<and> (wr_end_user_groups req \<noteq> None \<longrightarrow> id_groups ident \<noteq> None)"
  using assms(1)
proof (cases rule: handle_sign_answer)
  case (1 peer' req1 caller' req' i iu)
  have c: "caller' = caller" "req1 = req" using 1(1-3) assms(2) by (auto simp: passes_gates_def)
  then obtain verify ident where v: "sv_end_user_verifier s = Some verify" "verify (wr_bearer_token req) = Some ident"
    and req': "req' = req\<lparr>wr_end_user := id_user ident, wr_end_user_groups := id_groups ident, wr_end_user_context := id_context ident\<rparr>"
    and groups: "wr_end_user_groups req \<noteq> None \<longrightarrow> id_groups ident \<noteq> None"
    using 1(3) assms(3) by (auto simp: passes_gates_def rederive_end_user_def split: option.splits if_splits)
  have "in_end_user i = wr_end_user req'" "in_end_user_groups i = wr_end_user_groups req'" "in_end_user_context i = wr_end_user_context req'"
    using 1(4) by (auto simp: request_intent_def k8s_intent_def ssh_intent_def split: if_splits)
  then show ?thesis using v req' groups 1(5,6) by (auto simp: answer_of_def)
qed

text \<open>
  The host list shows exactly the hosts the caller may use, with their connection data: those of its groups,
  where groups restrict it, that list it as an allowed caller or list nobody. Every host for which the same
  request would be signed is among them.
\<close>

theorem hosts_list_exact:
  assumes "handle_hosts Q get (Some peer) obo s = (HttpOK st m, s')" and "resolve_caller peer obo (sv_forwarders s) = Some caller"
    and "go_map_inv (sv_hosts s)"
  shows "map_of m name =
     (case map_of (sv_hosts s) name of None \<Rightarrow> None
      | Some hp \<Rightarrow> (if allows_caller hp caller
            \<and> (sv_callers s = [] \<or> groups_intersect (hp_groups hp) (caller_groups caller (sv_callers s)))
          then Some (host_info hp) else None))"
proof -
  have inv: "go_map_inv (map (\<lambda>(n, hp). (n, host_info hp)) (sv_hosts s))"
    using assms(3) by (simp add: go_map_inv_def comp_def case_prod_beta')
  have all: "map_of (map (\<lambda>(n, hp). (n, host_info hp)) (sv_hosts s)) name = map_option host_info (map_of (sv_hosts s) name)"
    by (simp add: map_of_map)
  have mem: "name \<in> set (map fst (filter (\<lambda>(h, hp). list_ex (\<lambda>g. g \<in> set gs) (hp_groups hp)) (sv_hosts s)))
      \<longleftrightarrow> (\<exists>hp. map_of (sv_hosts s) name = Some hp \<and> groups_intersect (hp_groups hp) gs)" for gs
    using map_of_iff_in_set [OF assms(3)] by (force simp: groups_intersect_def)
  let ?all = "map (\<lambda>(n, hp). (n, host_info hp)) (sv_hosts s)"
  let ?grouped = "case host_set_for_caller caller (sv_hosts s) (sv_callers s) of None \<Rightarrow> ?all | Some set' \<Rightarrow> map_keep (\<lambda>n _. n \<in> set set') ?all"
  have m: "m = map_keep (\<lambda>n _. case map_of (sv_hosts s) n of Some hp \<Rightarrow> allows_caller hp caller | None \<Rightarrow> True) ?grouped"
    using assms(1,2) by (auto simp: handle_hosts_def Let_def split: if_splits option.splits)
  have ginv: "go_map_inv ?grouped" using inv by (auto split: option.splits)
  have g: "map_of ?grouped name = (if sv_callers s = [] \<or> (\<exists>hp. map_of (sv_hosts s) name = Some hp
        \<and> groups_intersect (hp_groups hp) (caller_groups caller (sv_callers s))) then map_option host_info (map_of (sv_hosts s) name) else None)"
    using map_of_keep [OF inv] all mem by (auto simp: host_set_for_caller_def Let_def split: option.splits)
  show ?thesis unfolding m map_of_keep [OF ginv] g by (auto split: option.splits)
qed

section \<open>Witnesses\<close>

text \<open>
  A control plane asks on behalf of the broker \<open>b1\<close> for an approved command and for a waiver; \<open>b1\<close> must present
  verified end users.
\<close>

definition service_request :: wire_request where
  "service_request = \<lparr>wr_host = ''db'', wr_role = RoleTarget, wr_purpose = PurposeOneshot, wr_session_mode = [],
     wr_command = ''ls secret'', wr_ttl_seconds = 0, wr_public_key = [], wr_target_type = TargetTypeSSH, wr_k8s_verb = [],
     wr_k8s_resource = [], wr_k8s_group = [], wr_k8s_namespace = [], wr_k8s_name = [], wr_sudo = False, wr_sudo_user = [],
     wr_pty = False, wr_file_transfer = False, wr_dry_run = False, wr_preflight = False, wr_on_behalf_of = ''b1'',
     wr_approved = True, wr_end_user = ''eve'', wr_end_user_groups = None, wr_end_user_context = [], wr_bearer_token = ''jwt'',
     wr_learn_ttl_seconds = 60, wr_learn_approver = ''bob'', wr_learn_approval_id = ''a1''\<rparr>"

definition service_intent :: intent where
  "service_intent = (plain_intent ''b1'' ''db'' ''ls secret'')\<lparr>in_approved := True, in_end_user := ''ann''\<rparr>"

definition service_io :: append_io where
  "service_io = \<lparr>io_now = 0, io_stat_ok = True, io_stat_broken = (\<lambda>_. False), io_rotation_sync = True, io_rename = True,
     io_open_new = True, io_reopen = True, io_write = Written, io_sync = True\<rparr>"

definition service_demo_env :: service_env where
  "service_demo_env = \<lparr>sq_sign = example_sign_env example_env, sq_audit = plain_lib, sq_io = (\<lambda>_. service_io), sq_now = 0,
     sq_round = exact, sq_parse_key = Some, sq_codec = example_codec, sq_grant_id = ''g1'', sq_insert_ok = True,
     sq_delete_ok = (\<lambda>_. True), sq_begin_ok = True, sq_commit_ok = True, sq_freeze_ok = True, sq_checkpoint_ok = True,
     sq_error_text = (\<lambda>_. []), sq_rule_text = (\<lambda>_. []), sq_warning_text = (\<lambda>_. [])\<rparr>"

definition service_log :: audit_log where
  "service_log = \<lparr>al_dir = \<lparr>ad_active = Some [], ad_files = []\<rparr>, al_open = True, al_sign_key = [], al_redactor = None,
     al_prev_hash = [], al_seq = 0, al_max_file_size = 0, al_needs_newline = False\<rparr>"

definition service_demo :: signer_server where
  "service_demo = \<lparr>sv_local = example_signer, sv_hosts = example_table,
     sv_callers = [(''b1'', \<lparr>cl_allowed_groups = [''prod''], cl_self_approve = False, cl_require_verified_end_user = True\<rparr>)],
     sv_reload_cn = [''ops''], sv_forwarders = [''cp''], sv_sign_rate = 0,
     sv_end_user_verifier = Some (\<lambda>t. Some \<lparr>id_user = ''ann'', id_groups = None, id_context = []\<rparr>), sv_audit = service_log,
     sv_fail_closed = True, sv_grants = new_grant_store, sv_max_grant_ttl = 0, sv_freezes = new_freeze_store, sv_rate_limiter = []\<rparr>"

lemma service_appends: "fst (append_audit service_demo_env n e s)"
  using append_audit_frame(2) [of service_demo_env n e s] append_written [of service_io]
  by (cases "append_audit service_demo_env n e s") (simp add: service_demo_env_def service_io_def)

lemma service_resolves:
  "snd (resolve example_env example_table (300 * go_second) (Some (store_api new_grant_store)) service_intent 0) = None"
  "de_require_approval (fst (resolve example_env example_table (300 * go_second) (Some (store_api new_grant_store)) service_intent 0))"
  "co_principal (de_constraints (fst (resolve example_env example_table (300 * go_second) (Some (store_api new_grant_store)) service_intent 0))) = ''host:db''"
  "co_ttl (de_constraints (fst (resolve example_env example_table (300 * go_second) (Some (store_api new_grant_store)) service_intent 0))) = 300 * go_second"
  by code_simp+

lemma service_signs:
  obtains iu cert where "sign_intent (example_sign_env example_env) (current_local service_demo) service_intent = (Some iu, None)"
    and "iu_certificate iu = Some cert" and "iu_k8s_token iu = []" and "di_require_approval (iu_decision iu)"
proof -
  obtain d where r: "resolve example_env example_table (300 * go_second) (Some (store_api new_grant_store)) service_intent 0 = (d, None)"
    and d: "de_require_approval d" "co_principal (de_constraints d) = ''host:db''" "co_ttl (de_constraints d) = 300 * go_second"
    using service_resolves
    by (cases "resolve example_env example_table (300 * go_second) (Some (store_api new_grant_store)) service_intent 0") simp
  have i: "\<not> in_dry_run service_intent" "in_target_type service_intent = []" "in_approved service_intent" "in_host service_intent = ''db''"
    by (simp_all add: service_intent_def plain_intent_def)
  have "\<exists>cert serial. build_and_sign example_ca example_ca_call ca (in_public_key service_intent) (de_constraints d) = Inr (cert, serial)" for ca
    using d by (simp add: build_and_sign_def example_ca_def example_ca_call_def random_serial_def max_cert_ttl_def Let_def)
  then obtain cert serial where b: "build_and_sign example_ca example_ca_call (ca_key_for (current_local service_demo) example_host)
      (in_public_key service_intent) (de_constraints d) = Inr (cert, serial)" by blast
  have l: "ls_policy (current_local service_demo) = example_table" "ls_default_ttl (current_local service_demo) = 300 * go_second"
    "ls_grants (current_local service_demo) = Some (store_api new_grant_store)"
    by (simp_all add: service_demo_def current_local_def example_signer_def)
  have n: "se_env (example_sign_env example_env) = example_env" "se_ca (example_sign_env example_env) = example_ca"
    "se_call (example_sign_env example_env) = example_ca_call" "se_now (example_sign_env example_env) = 0"
    by (simp_all add: example_sign_env_def)
  have h: "map_of example_table ''db'' = Some example_host" by (simp add: example_table_def)
  have "sign_intent (example_sign_env example_env) (current_local service_demo) service_intent
      = (Some ((only_decision (decision_info d True))\<lparr>iu_certificate := Some cert, iu_serial := serial,
           iu_elevation_prefix := de_elevation_prefix d\<rparr>), None)"
    unfolding sign_intent_def sign_ssh_def l n r i(4) h using d(1) i b by simp
  then show ?thesis by (rule that) (simp_all add: d(1) decision_info_def)
qed

definition service_derived :: wire_request where
  "service_derived = service_request\<lparr>wr_end_user := ''ann''\<rparr>"

lemma service_gates: "passes_gates service_demo ''cp'' service_request ''b1'' service_derived"
proof -
  have "check_identifiers (identifier_fields service_request) = None" "\<not> has_unsafe_token_char ''b1''" "\<not> has_unsafe_token_char ''ann''"
    "\<not> has_unsafe_token_char []" by code_simp+
  moreover have "frozen_subject ''cp'' ''b1'' ''ann'' service_demo = None" by code_simp
  ultimately show ?thesis
    by (simp add: passes_gates_def resolve_caller_def rederive_end_user_def service_derived_def service_demo_def service_request_def
        may_require_verified_end_user_def)
qed

lemma service_handles:
  "handle_sign service_demo_env True (Some ''cp'') (Some service_request) service_demo
     = handle_sign_ssh service_demo_env ''b1'' service_derived True False True service_demo"
proof -
  have r: "rate_admits service_demo_env ''cp'' service_demo = (True, service_demo)"
    by (simp add: rate_admits_def sign_rate_def service_demo_def)
  have m: "may_self_approve (sv_callers service_demo) ''cp'' = False" "''cp'' \<in> set (sv_forwarders service_demo)"
    by (simp_all add: may_self_approve_def service_demo_def)
  have t: "wr_target_type service_derived \<noteq> TargetTypeK8s" "wr_approved service_request"
    by (simp_all add: service_derived_def service_request_def)
  show ?thesis using service_gates r m t by (simp add: handle_sign_def passes_gates_def Let_def)
qed

lemma service_learns:
  assumes "iu_certificate iu = Some cert" and "di_require_approval (iu_decision iu)" and "only_logged service_demo s"
  shows "sv_grants (maybe_learn_waiver service_demo_env ''b1'' service_derived iu s) \<noteq> sv_grants service_demo"
proof -
  have s: "sv_grants s = new_grant_store" "sv_freezes s = new_freeze_store" "sv_max_grant_ttl s = 0"
    using assms(3) by (auto simp: only_logged_def service_demo_def)
  obtain g gs where "grant_add example_env example_codec True ''g1'' (learned_grant service_demo_env ''b1'' service_derived s) new_grant_store = (Inr ''g1'', gs)"
    and "gs_grants gs \<noteq> []"
    by (simp add: grant_add_def learned_grant_def Let_def compile_waivers_def example_env_def example_rx_def new_grant_store_def)
  moreover have "snd (supersede_waiver (sq_delete_ok service_demo_env) g new_grant_store) = new_grant_store" for g
    by (simp add: supersede_waiver_def new_grant_store_def delete_rows_def Let_def)
  moreover have "freeze_frozen ''b1'' e new_freeze_store = None" for e by (simp add: freeze_frozen_def new_freeze_store_def)
  moreover have "\<not> wr_dry_run service_derived" "wr_learn_ttl_seconds service_derived > 0"
    by (simp_all add: service_derived_def service_request_def)
  moreover have q: "se_env (sq_sign service_demo_env) = example_env" "sq_codec service_demo_env = example_codec" "sq_insert_ok service_demo_env"
    "sq_grant_id service_demo_env = ''g1''" by (simp_all add: service_demo_env_def example_sign_env_def)
  ultimately show ?thesis using s assms(1,2) by (simp add: maybe_learn_waiver_def Let_def new_grant_store_def service_demo_def) auto
qed

lemma service_answers:
  obtains w cert s' where "handle_sign service_demo_env True (Some ''cp'') (Some service_request) service_demo = (HttpOK 200 w, s')"
    and "ws_certificate w = Some cert" and "sv_grants s' \<noteq> sv_grants service_demo"
proof -
  obtain iu cert where iu: "sign_intent (example_sign_env example_env) (current_local service_demo) service_intent = (Some iu, None)"
    "iu_certificate iu = Some cert" "iu_k8s_token iu = []" "di_require_approval (iu_decision iu)" by (rule service_signs)
  have i: "ssh_intent ''b1'' service_derived [] True = service_intent"
    by (simp add: ssh_intent_def service_derived_def service_request_def service_intent_def plain_intent_def duration_seconds_def)
  have q: "sq_sign service_demo_env = example_sign_env example_env" "sq_parse_key service_demo_env = Some"
    by (simp_all add: service_demo_env_def)
  have f: "wr_public_key service_derived = []" "\<not> wr_dry_run service_derived" "wr_learn_ttl_seconds service_derived > 0"
    "wr_host service_derived = ''db''" by (simp_all add: service_derived_def service_request_def)
  have g: "''db'' \<in> set (the (host_set_for_caller ''b1'' (sv_hosts service_demo) (sv_callers service_demo)))"
    "host_set_for_caller ''b1'' (sv_hosts service_demo) (sv_callers service_demo) \<noteq> None" by code_simp+
  let ?w = "(decision_response (iu_decision iu))\<lparr>ws_certificate := Some cert, ws_serial := iu_serial iu, ws_elevation_prefix := iu_elevation_prefix iu\<rparr>"
  obtain s1 where s1: "audit_emission service_demo_env ''b1'' service_derived (sv_hosts service_demo) (iu_serial iu) ''issued'' (Some (iu_decision iu)) None service_demo = (True, s1)"
    using service_appends unfolding audit_emission_def by (metis prod.collapse)
  have log: "only_logged service_demo s1" using audit_frame(1) [OF s1] by (simp add: only_logged_def)
  have "handle_sign_ssh service_demo_env ''b1'' service_derived True False True service_demo
      = (HttpOK 200 ?w, maybe_learn_waiver service_demo_env ''b1'' service_derived iu s1)"
    using iu i q f g s1 by (auto simp: handle_sign_ssh_def respond_sign_result_def Let_def)
  then show ?thesis using that [of ?w] service_handles service_learns [OF iu(2,4) log] by simp
qed

theorem credential_is_recorded_witness:
  "\<exists>w s' e l. handle_sign service_demo_env True (Some ''cp'') (Some service_request) service_demo = (HttpOK 200 w, s')
     \<and> en_outcome e = ''issued'' \<and> en_serial e = ws_serial w \<and> en_caller e = ''b1''
     \<and> audit_append (sq_audit service_demo_env) (sq_io service_demo_env 0) e (sv_audit service_demo) = (None, l)
     \<and> (sv_audit s' = l \<or> (\<exists>n e2. sv_audit s' = snd (audit_append (sq_audit service_demo_env) (sq_io service_demo_env n) e2 l)))"
proof -
  obtain w cert s' where a: "handle_sign service_demo_env True (Some ''cp'') (Some service_request) service_demo = (HttpOK 200 w, s')"
    "ws_certificate w = Some cert" by (rule service_answers)
  have "credential w" "sv_fail_closed service_demo" using a(2) by (simp_all add: credential_def service_demo_def)
  moreover have "resolve_caller ''cp'' (wr_on_behalf_of service_request) (sv_forwarders service_demo) = Some ''b1''"
    using service_gates by (simp add: passes_gates_def)
  ultimately show ?thesis using credential_is_recorded [OF a(1)] a(1) by fastforce
qed


theorem no_answer_for_frozen_witness:
  "\<not> map_has (fz_frozen (sv_freezes service_demo)) \<lparr>fs_kind = FreezeCaller, fs_value = ''cp''\<rparr>"
proof -
  obtain w cert s' where "handle_sign service_demo_env True (Some ''cp'') (Some service_request) service_demo = (HttpOK 200 w, s')"
    by (rule service_answers)
  from no_answer_for_frozen [OF this] show ?thesis by auto
qed

theorem waiver_follows_issue_witness:
  "\<exists>r s' w. handle_sign service_demo_env True (Some ''cp'') (Some service_request) service_demo = (r, s')
     \<and> r = HttpOK 200 w \<and> di_require_approval (ws_decision w)"
proof -
  obtain w cert s' where a: "handle_sign service_demo_env True (Some ''cp'') (Some service_request) service_demo = (HttpOK 200 w, s')"
    "sv_grants s' \<noteq> sv_grants service_demo" by (rule service_answers)
  from waiver_follows_issue [OF this] a(1) show ?thesis by blast
qed

theorem end_user_from_token_witness:
  "\<exists>i iu. sign_intent (sq_sign service_demo_env) (current_local service_demo) i = (Some iu, None) \<and> in_end_user i = ''ann''"
proof -
  obtain w cert s' where a: "handle_sign service_demo_env True (Some ''cp'') (Some service_request) service_demo = (HttpOK 200 w, s')"
    by (rule service_answers)
  have "resolve_caller ''cp'' (wr_on_behalf_of service_request) (sv_forwarders service_demo) = Some ''b1''"
    "may_require_verified_end_user (sv_callers service_demo) ''b1''"
    by (simp_all add: resolve_caller_def may_require_verified_end_user_def service_demo_def service_request_def)
  from end_user_from_token [OF a this] show ?thesis by (auto simp: service_demo_def)
qed

theorem hosts_list_exact_witness:
  "\<exists>m s'. handle_hosts service_demo_env True (Some ''cp'') ''b1'' service_demo = (HttpOK 200 m, s') \<and> map_of m ''db'' = Some (host_info example_host)"
proof -
  have f: "frozen_subject ''cp'' ''b1'' [] service_demo = None" by code_simp
  have c: "resolve_caller ''cp'' ''b1'' (sv_forwarders service_demo) = Some ''b1''" by (simp add: resolve_caller_def service_demo_def)
  obtain m s' where h: "handle_hosts service_demo_env True (Some ''cp'') ''b1'' service_demo = (HttpOK 200 m, s')"
    using f c by (simp add: handle_hosts_def Let_def)
  have inv: "go_map_inv (sv_hosts service_demo)" by (simp add: service_demo_def example_table_def go_map_inv_def)
  have "allows_caller example_host ''b1''" "groups_intersect (hp_groups example_host) (caller_groups ''b1'' (sv_callers service_demo))"
    "map_of (sv_hosts service_demo) ''db'' = Some example_host" by code_simp+
  with hosts_list_exact [OF h c inv, of "''db''"] h show ?thesis by auto
qed

theorem frozen_subject_keeps_no_grant_witness:
  "\<exists>s1. handle_freeze service_demo_env (Some ''ops'') (Some \<lparr>fq_kind = FreezeCaller, fq_value = ''b1'', fq_reason = [], fq_allow_volatile = True\<rparr>)
       (service_demo\<lparr>sv_grants := example_store\<rparr>) = (HttpOK 200 (True, 1), s1)
     \<and> (\<forall>(i, g) \<in> set (gs_grants (sv_grants s1)). \<not> grant_of_subject FreezeCaller ''b1'' g)"
proof -
  let ?q = "\<lparr>fq_kind = FreezeCaller, fq_value = ''b1'', fq_reason = [], fq_allow_volatile = True\<rparr>" and ?s = "service_demo\<lparr>sv_grants := example_store\<rparr>"
  have u: "\<not> has_unsafe_token_char ''b1''" "\<not> has_unsafe_token_char []" by code_simp+
  have f: "freeze_add True True \<lparr>fs_kind = FreezeCaller, fs_value = ''b1''\<rparr> [] ''ops'' 0 new_freeze_store
      = (True, None, \<lparr>fz_frozen = [(\<lparr>fs_kind = FreezeCaller, fs_value = ''b1''\<rparr>,
          \<lparr>fe_subject = \<lparr>fs_kind = FreezeCaller, fs_value = ''b1''\<rparr>, fe_reason = [], fe_frozen_by = ''ops'', fe_frozen_at = 0\<rparr>)], fz_db = None\<rparr>)"
    by (simp add: freeze_add_def new_freeze_store_def valid_freeze_kind_def)
  have "gs_grants example_store = [(''id1'', example_waiver\<lparr>g_waiver_re := [\<lambda>s. prefix ''ls'' s], g_id := ''id1''\<rparr>)]"
    by (simp add: example_store_def grant_add_def example_waiver_def Let_def compile_waivers_def
        example_env_def example_rx_def insert_db_def canonical_grant_sudo_user_def)
  then obtain gs where r: "revoke_for_subject True (\<lambda>_. True) True FreezeCaller ''b1'' example_store = (Inr 1, gs)"
    by (cases "gs_db example_store") (simp_all add: revoke_for_subject_def Let_def grant_of_subject_def example_waiver_def)
  have q: "sq_freeze_ok service_demo_env" "sq_checkpoint_ok service_demo_env" "sq_now service_demo_env = 0" "sq_begin_ok service_demo_env"
    "sq_delete_ok service_demo_env = (\<lambda>_. True)" "sq_commit_ok service_demo_env" by (simp_all add: service_demo_env_def)
  obtain s1 where h: "handle_freeze service_demo_env (Some ''ops'') (Some ?q) ?s = (HttpOK 200 (True, 1), s1)"
    and k: "map_has (fz_frozen (sv_freezes s1)) \<lparr>fs_kind = FreezeCaller, fs_value = ''b1''\<rparr>"
    using u f r q
    by (simp add: handle_freeze_def require_reload_cn_def decode_freeze_subject_def revoke_grants_def service_demo_def valid_freeze_kind_def audit_freeze_def Let_def)
  from frozen_subject_keeps_no_grant [OF h _ stay [OF k]] h show ?thesis by simp
qed

end
