(* ===== verification/Signer_Config.thy ===== *)
theory Signer_Config
  imports Signer_Guarantees
begin

text \<open>
  The configuration file of the signer and the state it runs on: \<open>parseConfig\<close>, \<open>buildState\<close>, \<open>reload\<close> of \<open>cmd/signer/main.go\<close>, and the
  endpoint that edits an allowlist in the file, \<open>cmd/signer/policy.go\<close>. The readers of the file and the library that patches it are arguments:
  \<open>cv_decode\<close> is \<open>confcheck.Strict\<close> into a \<open>Config\<close>, \<open>cv_hosts\<close> the view of the host objects that \<open>editAllow\<close> reads from the standardised bytes,
  \<open>cv_patch\<close> is \<open>confcheck.Patch\<close>. Everything here runs under \<open>writeMu\<close>, so an edit or a reload is one step.
\<close>

section \<open>The configuration\<close>

record oidc_config =
  oc_issuer :: string
  oc_audience :: string
  oc_required_scopes :: "string list"
  oc_user_claim :: string
  oc_groups_claim :: string
  oc_context_claim :: string
  oc_max_token_age_seconds :: int
  oc_clock_skew_seconds :: int

record signer_config =
  sg_listen :: string
  sg_max_ttl_seconds :: int
  sg_sign_rate_limit :: int
  sg_reload_callers :: "string list"
  sg_trusted_forwarders :: "string list"
  sg_hosts :: policy_table
  sg_callers :: caller_table
  sg_command_policies :: policy_library
  sg_group_policies :: group_policies
  sg_clusters :: "cluster_table option"
  sg_ca_key :: string
  sg_ca_keys :: "(string, string) go_map"
  sg_envelope_key :: string
  sg_oidc :: "oidc_config option"

text \<open>What \<open>editAllow\<close> sees of a host object: its \<open>command_policy\<close> with whether that has a key \<open>allow\<close>, where it can be read.\<close>

datatype host_doc = HostDoc "(command_policy \<times> bool) option" | BadHostObject | BadPolicyObject

type_synonym host_docs = "(string, host_doc) go_map"

datatype patch_value = PolicyValue string "string list" | ListValue "string list" | StringValue string

record patch_op =
  po_op :: string
  po_path :: string
  po_value :: "patch_value option"

datatype config_failure =
    ConfigUnreadable
  | ConfigUnparsable
  | ConfigTTL int
  | ConfigHostPolicy config_error
  | ConfigCAKeys
  | SealedHostName string
  | EnvelopeKeyMissing "string list"
  | EnvelopeKeyUnreadable
  | EnvelopeKeyShort sealed_error
  | ConfigClusters cluster_error
  | ConfigOIDC
  | HostNotConfigured string
  | HostObjectUnparsable string
  | PolicyObjectUnparsable string
  | PatternPresent
  | PatternAbsent
  | PatchRefused
  | ConfigWrite

datatype policy_failure = EditFailed config_failure | BadPattern string | EditNotAuthorised

record conf_env =
  cv_go :: go_env
  cv_sealed :: sealed_lib
  cv_cluster :: cluster_env
  cv_decode :: "string \<Rightarrow> signer_config option"
  cv_hosts :: "string \<Rightarrow> host_docs option"
  cv_patch :: "string \<Rightarrow> patch_op list \<Rightarrow> string option"
  cv_load_cas :: "string \<Rightarrow> (string, string) go_map \<Rightarrow> (string \<times> (string, string) go_map) option"
  cv_read_key :: "string \<Rightarrow> string option"
  cv_minter :: "cluster_table \<Rightarrow> string \<Rightarrow> string \<Rightarrow> string \<Rightarrow> go_duration \<Rightarrow> (string \<times> go_time) option"
  cv_verifier :: "oidc_config \<Rightarrow> (string \<Rightarrow> identity option) option"
  cv_text :: "policy_failure \<Rightarrow> string"


definition parse_config :: "conf_env \<Rightarrow> string \<Rightarrow> signer_config option" where
  "parse_config V b =
     map_option (\<lambda>c. c\<lparr>sg_listen := (if sg_listen c = [] then '':9443'' else sg_listen c),
         sg_hosts := map (\<lambda>(n, hp). (n, if 0 < hp_max_ttl_seconds hp then hp\<lparr>hp_max_ttl := duration_seconds (hp_max_ttl_seconds hp)\<rparr> else hp)) (sg_hosts c)\<rparr>)
       (cv_decode V b)"

section \<open>Building the state\<close>

definition sealed_host_names :: "policy_table \<Rightarrow> string list" where
  "sealed_host_names hosts = sort (map fst (filter (\<lambda>(n, hp). hp_sealed_exec hp) hosts))"

definition envelope_key_for :: "conf_env \<Rightarrow> signer_config \<Rightarrow> config_failure + string option" where
  "envelope_key_for V cfg =
     (let sealed_hosts = sealed_host_names (sg_hosts cfg) in
      case List.find (\<lambda>h. \<not> valid_host_name h) sealed_hosts of
        Some h \<Rightarrow> Inl (SealedHostName h)
      | None \<Rightarrow>
          (if sg_envelope_key cfg = [] then (if sealed_hosts \<noteq> [] then Inl (EnvelopeKeyMissing sealed_hosts) else Inr None)
           else case cv_read_key V (sg_envelope_key cfg) of
             None \<Rightarrow> Inl EnvelopeKeyUnreadable
           | Some seed \<Rightarrow> (case key_from_seed (cv_sealed V) seed of Inl e \<Rightarrow> Inl (EnvelopeKeyShort e) | Inr key \<Rightarrow> Inr (Some key))))"

text \<open>The clusters and the minter, which are only there when clusters are configured.\<close>

definition clusters_for :: "conf_env \<Rightarrow> signer_config \<Rightarrow> config_failure + cluster_table" where
  "clusters_for V cfg =
     (case sg_clusters cfg of
        None \<Rightarrow> Inr []
      | Some t \<Rightarrow> (case compile_clusters (cv_go V) (cv_cluster V) t (sg_hosts cfg) of Inl e \<Rightarrow> Inl (ConfigClusters e) | Inr cs \<Rightarrow> Inr cs))"

definition build_state :: "conf_env \<Rightarrow> signer_config \<Rightarrow> config_failure + local_signer" where
  "build_state V cfg =
     (if 900 < sg_max_ttl_seconds cfg then Inl (ConfigTTL (sg_max_ttl_seconds cfg))
      else case compile_host_policies (cv_go V) (sg_hosts cfg) (sg_command_policies cfg) (sg_group_policies cfg) of
        Inl e \<Rightarrow> Inl (ConfigHostPolicy e)
      | Inr compiled \<Rightarrow>
          (case cv_load_cas V (sg_ca_key cfg) (sg_ca_keys cfg) of
             None \<Rightarrow> Inl ConfigCAKeys
           | Some (default_ca, group_cas) \<Rightarrow>
               (case envelope_key_for V cfg of
                  Inl e \<Rightarrow> Inl e
                | Inr key \<Rightarrow>
                    (case clusters_for V cfg of
                       Inl e \<Rightarrow> Inl e
                     | Inr clusters \<Rightarrow>
                         (let ttl = duration_seconds (sg_max_ttl_seconds cfg) in
                          Inr \<lparr>ls_default_ca = default_ca, ls_group_cas = group_cas, ls_policy = compiled,
                               ls_default_ttl = (if ttl \<le> 0 then 5 * go_minute else ttl), ls_grants = None, ls_clusters = clusters,
                               ls_minter = (if clusters = [] then None else Some (cv_minter V clusters)), ls_envelope_key = key\<rparr>)))))"

text \<open>The server together with the file and the part of the file the verifier was built from.\<close>

record conf_server =
  cs_server :: signer_server
  cs_oidc :: "oidc_config option"
  cs_file :: "(string \<times> nat) option"

definition end_user_verifier_for :: "conf_env \<Rightarrow> signer_config \<Rightarrow> conf_server \<Rightarrow> config_failure + (string \<Rightarrow> identity option) option" where
  "end_user_verifier_for V cfg st =
     (if sg_oidc cfg = cs_oidc st then Inr (sv_end_user_verifier (cs_server st))
      else case sg_oidc cfg of
        None \<Rightarrow> Inr None
      | Some c \<Rightarrow> (case cv_verifier V c of None \<Rightarrow> Inl ConfigOIDC | Some v \<Rightarrow> Inr (Some v)))"

definition loaded_from :: "signer_config \<Rightarrow> local_signer \<Rightarrow> (string \<Rightarrow> identity option) option \<Rightarrow> loaded_state" where
  "loaded_from cfg l v = \<lparr>lo_local = l, lo_hosts = sg_hosts cfg, lo_callers = sg_callers cfg, lo_reload_callers = sg_reload_callers cfg,
     lo_trusted_forwarders = sg_trusted_forwarders cfg, lo_sign_rate = sg_sign_rate_limit cfg, lo_verifier = v\<rparr>"

definition install :: "signer_config \<Rightarrow> local_signer \<Rightarrow> (string \<Rightarrow> identity option) option \<Rightarrow> conf_server \<Rightarrow> conf_server" where
  "install cfg l v st = st\<lparr>cs_server := swap_state (loaded_from cfg l v) (cs_server st), cs_oidc := sg_oidc cfg\<rparr>"

definition reload_config :: "conf_env \<Rightarrow> conf_server \<Rightarrow> (config_failure + nat) \<times> conf_server" where
  "reload_config V st =
     (case cs_file st of None \<Rightarrow> (Inl ConfigUnreadable, st) | Some (b, mode) \<Rightarrow>
       (case parse_config V b of None \<Rightarrow> (Inl ConfigUnparsable, st) | Some cfg \<Rightarrow>
         (case build_state V cfg of Inl e \<Rightarrow> (Inl e, st) | Inr l \<Rightarrow>
           (case end_user_verifier_for V cfg st of Inl e \<Rightarrow> (Inl e, st) | Inr v \<Rightarrow>
             (Inr (length (sg_hosts cfg)), install cfg l v st)))))"

section \<open>Editing an allowlist\<close>

definition json_ptr_escape :: "string \<Rightarrow> string" where
  "json_ptr_escape s = replace_char (CHR ''/'') ''~1'' (replace_char (CHR ''~'') ''~0'' s)"

definition policy_path :: "string \<Rightarrow> string" where
  "policy_path host = ''/hosts/'' @ json_ptr_escape host @ ''/command_policy''"

fun index_in :: "'a list \<Rightarrow> 'a \<Rightarrow> nat option" where
  "index_in [] x = None"
| "index_in (y # ys) x = (if y = x then Some 0 else map_option Suc (index_in ys x))"

definition add_ops :: "string \<Rightarrow> (command_policy \<times> bool) option \<Rightarrow> string \<Rightarrow> patch_op list" where
  "add_ops host pol pattern =
     (let base = policy_path host in
      case pol of
        None \<Rightarrow> [\<lparr>po_op = ''add'', po_path = base, po_value = Some (PolicyValue CmdPolicyAllowlist [pattern])\<rparr>]
      | Some (cp, allow_exists) \<Rightarrow>
          (if allow_exists then \<lparr>po_op = ''add'', po_path = base @ ''/allow/-'', po_value = Some (StringValue pattern)\<rparr>
           else \<lparr>po_op = ''add'', po_path = base @ ''/allow'', po_value = Some (ListValue [pattern])\<rparr>)
          # (if cp_mode cp = [] \<or> cp_mode cp = CmdPolicyOff
             then [\<lparr>po_op = ''add'', po_path = base @ ''/mode'', po_value = Some (StringValue CmdPolicyAllowlist)\<rparr>] else []))"

definition edit_allow :: "conf_env \<Rightarrow> string \<Rightarrow> string \<Rightarrow> string \<Rightarrow> bool \<Rightarrow> config_failure + string" where
  "edit_allow V orig host pattern add =
     (case cv_hosts V orig of None \<Rightarrow> Inl ConfigUnparsable | Some docs \<Rightarrow>
       (case map_of docs host of
          None \<Rightarrow> Inl (HostNotConfigured host)
        | Some BadHostObject \<Rightarrow> Inl (HostObjectUnparsable host)
        | Some BadPolicyObject \<Rightarrow> Inl (PolicyObjectUnparsable host)
        | Some (HostDoc pol) \<Rightarrow>
            (let allow = (case pol of None \<Rightarrow> [] | Some (cp, x) \<Rightarrow> cp_allow cp) in
             if add \<and> pattern \<in> set allow then Inl PatternPresent
             else case (if add then Some (add_ops host pol pattern)
                        else map_option (\<lambda>i. [\<lparr>po_op = ''remove'', po_path = policy_path host @ ''/allow/'' @ nat_decimal i, po_value = None\<rparr>])
                               (index_in allow pattern)) of
               None \<Rightarrow> Inl PatternAbsent
             | Some ops \<Rightarrow> (case cv_patch V orig ops of None \<Rightarrow> Inl PatchRefused | Some b \<Rightarrow> Inr b))))"

text \<open>
  \<open>atomicWrite\<close>: the steps on the temporary file, any of which may fail, and the rename, which alone changes the file; its permissions are kept, and the
  default is for a file that is not there. A link is followed first, and the sync of the directory is best effort.
\<close>

record write_io =
  wi_create :: bool
  wi_chmod :: bool
  wi_write :: bool
  wi_sync :: bool
  wi_close :: bool
  wi_rename :: bool

definition atomic_write :: "write_io \<Rightarrow> string \<Rightarrow> (string \<times> nat) option \<Rightarrow> bool \<times> (string \<times> nat) option" where
  "atomic_write io b file =
     (if wi_create io \<and> wi_chmod io \<and> wi_write io \<and> wi_sync io \<and> wi_close io \<and> wi_rename io
      then (True, Some (b, case file of None \<Rightarrow> 384 | Some (old, mode) \<Rightarrow> mode))
      else (False, file))"

definition mutate_allow :: "conf_env \<Rightarrow> write_io \<Rightarrow> string \<Rightarrow> string \<Rightarrow> bool \<Rightarrow> conf_server \<Rightarrow> (config_failure + nat) \<times> conf_server" where
  "mutate_allow V io host pattern add st =
     (case cs_file st of None \<Rightarrow> (Inl ConfigUnreadable, st) | Some (orig, mode) \<Rightarrow>
       (case edit_allow V orig host pattern add of Inl e \<Rightarrow> (Inl e, st) | Inr b \<Rightarrow>
         (case parse_config V b of None \<Rightarrow> (Inl ConfigUnparsable, st) | Some cfg \<Rightarrow>
           (case build_state V cfg of Inl e \<Rightarrow> (Inl e, st) | Inr l \<Rightarrow>
             (case end_user_verifier_for V cfg st of Inl e \<Rightarrow> (Inl e, st) | Inr v \<Rightarrow>
               (case atomic_write io b (cs_file st) of
                  (False, f) \<Rightarrow> (Inl ConfigWrite, st\<lparr>cs_file := f\<rparr>)
                | (True, f) \<Rightarrow> (Inr (length (sg_hosts cfg)), install cfg l v (st\<lparr>cs_file := f\<rparr>))))))))"

section \<open>The endpoints\<close>

datatype policy_refusal = PolicyMethod | PolicyUnauthenticated | PolicyForbidden | PolicyRateLimited int | PolicyBadRequest | PolicyBadPattern | PolicyFailed config_failure

datatype 'a policy_reply = PolicyError nat policy_refusal | PolicyOK 'a

definition policy_err_status :: "config_failure \<Rightarrow> nat" where
  "policy_err_status e = (case e of HostNotConfigured h \<Rightarrow> 404 | PatternPresent \<Rightarrow> 409 | PatternAbsent \<Rightarrow> 409 | _ \<Rightarrow> 500)"

definition audit_policy :: "service_env \<Rightarrow> conf_env \<Rightarrow> string \<Rightarrow> string \<Rightarrow> string \<Rightarrow> bool \<Rightarrow> string \<Rightarrow> policy_failure option \<Rightarrow> conf_server \<Rightarrow> conf_server" where
  "audit_policy Q V caller host pattern add outcome err st = st\<lparr>cs_server :=
     snd (append_audit Q 0 (empty_entry\<lparr>en_caller := caller, en_host := safe_audit_host host,
        en_command := (if add then ''policy-allow-add'' else ''policy-allow-remove''), en_outcome := outcome,
        en_policy_rule := (if pattern \<noteq> [] then ''allow:'' @ pattern else []),
        en_err := (case err of None \<Rightarrow> [] | Some x \<Rightarrow> cv_text V x)\<rparr>) (cs_server st))\<rparr>"

text \<open>\<open>body\<close> is the pattern of the request, None when the body could not be read.\<close>

definition handle_policy_allow :: "service_env \<Rightarrow> conf_env \<Rightarrow> write_io \<Rightarrow> string \<Rightarrow> string option \<Rightarrow> string \<Rightarrow> string option \<Rightarrow> conf_server \<Rightarrow>
    (string \<times> nat) policy_reply \<times> conf_server" where
  "handle_policy_allow Q V io meth cn host body st =
     (let add = (meth = ''POST'') in
      if \<not> add \<and> meth \<noteq> ''DELETE'' then (PolicyError 405 PolicyMethod, st)
      else case cn of None \<Rightarrow> (PolicyError 401 PolicyUnauthenticated, st) | Some caller \<Rightarrow>
        (if caller \<notin> set (sv_reload_cn (cs_server st)) then
           (case admit_denial Q caller (cs_server st) of (ok, sv) \<Rightarrow>
             (let st = st\<lparr>cs_server := sv\<rparr> in
              if \<not> ok then (PolicyError 429 (PolicyRateLimited (retry_after (sign_rate sv))), st)
              else (PolicyError 403 PolicyForbidden, audit_policy Q V caller [] [] add ''policy-denied'' (Some EditNotAuthorised) st)))
         else case body of
           None \<Rightarrow> (PolicyError 400 PolicyBadRequest, st)
         | Some pattern \<Rightarrow>
             (if pattern = [] then (PolicyError 400 PolicyBadRequest, st)
              else if rx_compile (cv_go V) pattern = None then
                (PolicyError 400 PolicyBadPattern, audit_policy Q V caller host pattern add ''policy-failed'' (Some (BadPattern pattern)) st)
              else case mutate_allow V io host pattern add st of
                (Inl e, st) \<Rightarrow> (PolicyError (policy_err_status e) (PolicyFailed e), audit_policy Q V caller host pattern add ''policy-failed'' (Some (EditFailed e)) st)
              | (Inr n, st) \<Rightarrow> (PolicyOK (host, n), audit_policy Q V caller host pattern add ''policy-changed'' None st))))"

definition audit_policy_read :: "service_env \<Rightarrow> conf_env \<Rightarrow> string \<Rightarrow> nat \<Rightarrow> string \<Rightarrow> policy_failure option \<Rightarrow> conf_server \<Rightarrow> conf_server" where
  "audit_policy_read Q V caller hosts outcome err st = st\<lparr>cs_server :=
     snd (append_audit Q 0 (empty_entry\<lparr>en_caller := caller, en_command := ''policy-hosts-read hosts='' @ nat_decimal hosts, en_outcome := outcome,
        en_err := (case err of None \<Rightarrow> [] | Some x \<Rightarrow> cv_text V x)\<rparr>) (cs_server st))\<rparr>"

definition handle_policy_hosts_read :: "service_env \<Rightarrow> conf_env \<Rightarrow> string option \<Rightarrow> conf_server \<Rightarrow> policy_table policy_reply \<times> conf_server" where
  "handle_policy_hosts_read Q V cn st =
     (case policy_admin cn (cs_server st) of
        None \<Rightarrow> (PolicyError 401 PolicyUnauthenticated, st)
      | Some (caller, authorised) \<Rightarrow>
          (if \<not> authorised then
             (case admit_denial Q caller (cs_server st) of (ok, sv) \<Rightarrow>
               (let st = st\<lparr>cs_server := sv\<rparr> in
                if \<not> ok then (PolicyError 429 (PolicyRateLimited (retry_after (sign_rate sv))), st)
                else (PolicyError 403 PolicyForbidden, audit_policy_read Q V caller 0 ''policy-read-denied'' (Some EditNotAuthorised) st)))
           else (PolicyOK (sv_hosts (cs_server st)),
                 audit_policy_read Q V caller (length (sv_hosts (cs_server st))) ''policy-read'' None st)))"

section \<open>What is expected of the libraries\<close>

text \<open>A JSON pointer read as RFC 6901 says, and the operations of RFC 6902 that are used, on the view of the hosts.\<close>

fun unescape_token :: "string \<Rightarrow> string" where
  "unescape_token (c # d # s) =
     (if c = CHR ''~'' \<and> d = CHR ''1'' then CHR ''/'' # unescape_token s
      else if c = CHR ''~'' \<and> d = CHR ''0'' then CHR ''~'' # unescape_token s
      else c # unescape_token (d # s))"
| "unescape_token s = s"

definition pointer_tokens :: "string \<Rightarrow> string list" where
  "pointer_tokens p = map unescape_token (tl (split_on (CHR ''/'') p))"

definition policy_of :: "host_docs \<Rightarrow> string \<Rightarrow> command_policy \<times> bool" where
  "policy_of d host = (case map_of d host of Some (HostDoc (Some p)) \<Rightarrow> p
     | _ \<Rightarrow> (\<lparr>cp_mode = [], cp_enforcement = [], cp_allow = [], cp_deny = [], cp_require_approval = [], cp_shell_parse = None\<rparr>, False))"

definition put_policy :: "string \<Rightarrow> command_policy \<Rightarrow> host_docs \<Rightarrow> host_docs" where
  "put_policy host cp d = AList.update host (HostDoc (Some (cp, True))) d"

definition apply_op :: "patch_op \<Rightarrow> host_docs \<Rightarrow> host_docs" where
  "apply_op p d =
     (case pointer_tokens (po_path p) of
        [a, h, b] \<Rightarrow>
          (case po_value p of Some (PolicyValue mode allow) \<Rightarrow> put_policy h ((fst (policy_of [] h))\<lparr>cp_mode := mode, cp_allow := allow\<rparr>) d | _ \<Rightarrow> d)
      | [a, h, b, f] \<Rightarrow>
          (case po_value p of
             Some (ListValue xs) \<Rightarrow> put_policy h ((fst (policy_of d h))\<lparr>cp_allow := xs\<rparr>) d
           | Some (StringValue m) \<Rightarrow> AList.update h (HostDoc (Some ((fst (policy_of d h))\<lparr>cp_mode := m\<rparr>, snd (policy_of d h)))) d
           | _ \<Rightarrow> d)
      | [a, h, b, f, i] \<Rightarrow>
          (case po_value p of
             Some (StringValue v) \<Rightarrow> put_policy h ((fst (policy_of d h))\<lparr>cp_allow := cp_allow (fst (policy_of d h)) @ [v]\<rparr>) d
           | None \<Rightarrow> (let xs = cp_allow (fst (policy_of d h)); n = decimal_value i in put_policy h ((fst (policy_of d h))\<lparr>cp_allow := take n xs @ drop (Suc n) xs\<rparr>) d)
           | _ \<Rightarrow> d)
      | _ \<Rightarrow> d)"

text \<open>The operations that an edit of a policy is made of.\<close>

definition policy_op :: "patch_op \<Rightarrow> bool" where
  "policy_op p \<longleftrightarrow> (\<exists>h rest. pointer_tokens (po_path p) = ''hosts'' # h # ''command_policy'' # rest \<and>
     (rest = [] \<and> po_op p = ''add'' \<and> (\<exists>m xs. po_value p = Some (PolicyValue m xs))
      \<or> rest = [''allow''] \<and> po_op p = ''add'' \<and> (\<exists>xs. po_value p = Some (ListValue xs))
      \<or> rest = [''mode''] \<and> po_op p = ''add'' \<and> (\<exists>m. po_value p = Some (StringValue m))
      \<or> rest = [''allow'', ''-''] \<and> po_op p = ''add'' \<and> (\<exists>v. po_value p = Some (StringValue v))
      \<or> (\<exists>n. rest = [''allow'', nat_decimal n]) \<and> po_op p = ''remove'' \<and> po_value p = None))"

text \<open>A patch that is applied changes the document as RFC 6902 says, and both readers read the same policies.\<close>

definition patch_means :: "conf_env \<Rightarrow> bool" where
  "patch_means V \<longleftrightarrow> (\<forall>b ops b' d. cv_patch V b ops = Some b' \<and> list_all policy_op ops \<and> cv_hosts V b = Some d
     \<longrightarrow> cv_hosts V b' = Some (fold apply_op ops d))"

definition readers_agree :: "conf_env \<Rightarrow> bool" where
  "readers_agree V \<longleftrightarrow> (\<forall>b c d h p x. cv_decode V b = Some c \<and> cv_hosts V b = Some d \<and> map_of d h = Some (HostDoc (Some (p, x)))
     \<longrightarrow> (\<exists>hp. map_of (sg_hosts c) h = Some hp \<and> hp_command_policy hp = p))"

section \<open>The edit reaches its place\<close>

text \<open>Whatever its name, a host is one segment of the pointer and comes back as it is.\<close>

lemma json_ptr_escape_eq:
  "json_ptr_escape s = concat (map (\<lambda>c. if c = CHR ''~'' then ''~0'' else if c = CHR ''/'' then ''~1'' else [c]) s)"
  by (induction s) (auto simp: json_ptr_escape_def replace_char_def)

lemma escape_no_slash: "CHR ''/'' \<notin> set (json_ptr_escape s)"
  by (auto simp: json_ptr_escape_eq split: if_splits)

lemma unescape_plain: "c \<noteq> CHR ''~'' \<Longrightarrow> unescape_token (c # s) = c # unescape_token s"
  by (cases s) simp_all

lemma unescape_escape: "unescape_token (json_ptr_escape s) = s"
proof (induction s)
  case (Cons c s)
  then show ?case by (auto simp: json_ptr_escape_eq unescape_plain)
qed (simp add: json_ptr_escape_eq)

lemma unescape_no_tilde: "CHR ''~'' \<notin> set s \<Longrightarrow> unescape_token s = s"
  by (induction s) (auto simp: unescape_plain)

lemma policy_tokens:
  assumes "\<forall>p \<in> set rest. CHR ''/'' \<notin> set p \<and> CHR ''~'' \<notin> set p"
  shows "pointer_tokens (policy_path host @ concat (map (\<lambda>p. CHR ''/'' # p) rest)) = ''hosts'' # host # ''command_policy'' # rest"
proof -
  let ?ps = "[''hosts'', json_ptr_escape host, ''command_policy''] @ rest"
  have "policy_path host @ concat (map (\<lambda>p. CHR ''/'' # p) rest) = [] @ concat (map (\<lambda>p. CHR ''/'' # p) ?ps)" by (simp add: policy_path_def)
  then have "split_on (CHR ''/'') (policy_path host @ concat (map (\<lambda>p. CHR ''/'' # p) rest)) = [] # concat (map (split_on (CHR ''/'')) ?ps)"
    using split_on_parts [of "CHR ''/''" "[]" ?ps] by simp
  moreover have "concat (map (split_on (CHR ''/'')) ?ps) = ?ps"
    by (rule concat_singletons) (use assms escape_no_slash in auto)
  moreover have "map unescape_token rest = rest" using assms unescape_no_tilde by (induction rest) auto
  ultimately show ?thesis by (simp add: pointer_tokens_def unescape_escape unescape_no_tilde)
qed

lemma nat_decimal_plain: "CHR ''/'' \<notin> set (nat_decimal n) \<and> CHR ''~'' \<notin> set (nat_decimal n)"
  using nat_decimal_digits [of _ n] by (fastforce simp: is_digit_char_def)

lemma policy_paths:
  "pointer_tokens (policy_path host) = [''hosts'', host, ''command_policy'']"
  "pointer_tokens (policy_path host @ ''/allow'') = [''hosts'', host, ''command_policy'', ''allow'']"
  "pointer_tokens (policy_path host @ ''/mode'') = [''hosts'', host, ''command_policy'', ''mode'']"
  "pointer_tokens (policy_path host @ ''/allow/-'') = [''hosts'', host, ''command_policy'', ''allow'', ''-'']"
  "pointer_tokens (policy_path host @ ''/allow/'' @ nat_decimal n) = [''hosts'', host, ''command_policy'', ''allow'', nat_decimal n]"
  using policy_tokens [of "[]" host] policy_tokens [of "[''allow'']" host] policy_tokens [of "[''mode'']" host] policy_tokens [of "[''allow'', ''-'']" host]
    policy_tokens [of "[''allow'', nat_decimal n]" host] nat_decimal_plain [of n] by simp_all

text \<open>What an edit makes of a policy.\<close>

definition edited_policy :: "string \<Rightarrow> bool \<Rightarrow> command_policy \<Rightarrow> command_policy" where
  "edited_policy pattern add cp =
     (if add then cp\<lparr>cp_allow := cp_allow cp @ [pattern], cp_mode := (if cp_mode cp = [] \<or> cp_mode cp = CmdPolicyOff then CmdPolicyAllowlist else cp_mode cp)\<rparr>
      else cp\<lparr>cp_allow := remove1 pattern (cp_allow cp)\<rparr>)"

lemma index_in_remove: "index_in xs x = Some i \<Longrightarrow> take i xs @ drop (Suc i) xs = remove1 x xs"
  by (induction xs arbitrary: i) (auto split: if_splits)

lemma add_ops_policy: "list_all policy_op (add_ops host pol pattern)"
  by (auto simp: add_ops_def policy_op_def policy_paths Let_def split: option.split)

lemma add_ops_meaning:
  assumes "map_of d host = Some (HostDoc pol)" and "\<forall>cp x. pol = Some (cp, x) \<longrightarrow> x \<or> cp_allow cp = []"
  shows "\<exists>x. map_of (fold apply_op (add_ops host pol pattern) d) = (map_of d)(host \<mapsto> HostDoc (Some (edited_policy pattern True (fst (policy_of d host)), x)))"
proof (cases pol)
  case None
  then show ?thesis using assms(1)
    by (auto simp: add_ops_def apply_op_def policy_paths put_policy_def policy_of_def edited_policy_def update_conv')
next
  case (Some p)
  obtain cp x where p: "p = (cp, x)" by (cases p)
  then show ?thesis using Some assms
    by (cases x) (auto simp: add_ops_def apply_op_def policy_paths put_policy_def policy_of_def edited_policy_def update_conv' Let_def)
qed

lemma edit_allow_meaning:
  assumes "edit_allow V orig host pattern add = Inr b" and "patch_means V"
    and "\<forall>d cp x. cv_hosts V orig = Some d \<and> map_of d host = Some (HostDoc (Some (cp, x))) \<longrightarrow> x \<or> cp_allow cp = []"
  obtains d d' x where "cv_hosts V orig = Some d" and "map_has d host" and "cv_hosts V b = Some d'"
    and "map_of d' = (map_of d)(host \<mapsto> HostDoc (Some (edited_policy pattern add (fst (policy_of d host)), x)))"
proof -
  obtain d pol ops where d: "cv_hosts V orig = Some d" "map_of d host = Some (HostDoc pol)" and p: "cv_patch V orig ops = Some b"
    and ops: "if add then ops = add_ops host pol pattern
      else \<exists>i. index_in (cp_allow (fst (policy_of d host))) pattern = Some i
        \<and> ops = [\<lparr>po_op = ''remove'', po_path = policy_path host @ ''/allow/'' @ nat_decimal i, po_value = None\<rparr>]"
    using assms(1) by (auto simp: edit_allow_def Let_def policy_of_def split: option.splits host_doc.splits prod.splits if_splits)
  have "\<exists>x. list_all policy_op ops \<and> map_of (fold apply_op ops d) = (map_of d)(host \<mapsto> HostDoc (Some (edited_policy pattern add (fst (policy_of d host)), x)))"
  proof (cases add)
    case True
    then show ?thesis using ops add_ops_policy [of host pol pattern] add_ops_meaning [OF d(2), of pattern] assms(3) d by auto
  next
    case False
    then obtain i where i: "index_in (cp_allow (fst (policy_of d host))) pattern = Some i"
      "ops = [\<lparr>po_op = ''remove'', po_path = policy_path host @ ''/allow/'' @ nat_decimal i, po_value = None\<rparr>]" using ops by auto
    then show ?thesis using False index_in_remove [OF i(1)]
      by (auto simp: policy_op_def apply_op_def policy_paths policy_paths(5) [simplified] put_policy_def edited_policy_def decimal_value_nat_decimal update_conv' Let_def)
  qed
  then show thesis using that d assms(2) p by (auto simp: patch_means_def map_has_def)
qed

lemma parse_config_hosts:
  assumes "parse_config V b = Some cfg" and "cv_decode V b = Some c" and "map_of (sg_hosts c) h = Some hp"
  shows "\<exists>hp'. map_of (sg_hosts cfg) h = Some hp' \<and> hp_command_policy hp' = hp_command_policy hp"
proof -
  have "map_of (sg_hosts cfg) h = Some (if 0 < hp_max_ttl_seconds hp then hp\<lparr>hp_max_ttl := duration_seconds (hp_max_ttl_seconds hp)\<rparr> else hp)"
    using assms by (auto simp: parse_config_def map_of_map)
  then show ?thesis by simp
qed

lemma built_enforces:
  assumes "build_state V cfg = Inr l" and "map_of (sg_hosts cfg) host = Some hp"
  shows "\<exists>hp'. map_of (ls_policy l) host = Some hp' \<and> (cp_restricts (hp_command_policy hp) \<longrightarrow> hp_command_policy hp \<in> set (effective_policies hp'))"
proof -
  have c: "compile_host_policies (cv_go V) (sg_hosts cfg) (sg_command_policies cfg) (sg_group_policies cfg) = Inr (ls_policy l)"
    using assms(1) by (auto simp: build_state_def Let_def split: if_splits sum.splits option.splits prod.splits)
  have "\<exists>hp'. compile_host (cv_go V) (sg_hosts cfg) (sg_command_policies cfg) (sg_group_policies cfg) host hp = Inr hp'"
    using compile_hosts_defined [of "cv_go V" "sg_hosts cfg" "sg_command_policies cfg" "sg_group_policies cfg" "sg_hosts cfg"]
      compile_host_policies_Inr(3) [OF c] map_of_SomeD [OF assms(2)] by fastforce
  then obtain hp' where "map_of (ls_policy l) host = Some hp'" "compile_host (cv_go V) (sg_hosts cfg) (sg_command_policies cfg) (sg_group_policies cfg) host hp = Inr hp'"
    using compile_hosts_lookup [OF compile_host_policies_Inr(3) [OF c], of host] assms(2) by (auto split: option.splits sum.splits)
  then show ?thesis by (auto simp: compile_host_Inr effective_with_policies set_compose_policies)
qed

text \<open>
  C18: An edit of an allowlist is all or nothing. An edit that fails leaves the file and the running state as they were. One that succeeds leaves
  a file whose hosts differ from those before in the policy of this host only: the pattern is at the end of its allowlist and a policy that was off is an allowlist,
  or the first occurrence of the pattern is gone; the permissions of the file are kept; the running state is the one built from
  exactly this file; and where that policy restricts, the signer enforces it on this host. No name of a host leads the patch to another place.
\<close>

theorem policy_edit_all_or_nothing:
  assumes "mutate_allow V io host pattern add st = (r, st')" and "patch_means V" and "readers_agree V" and "cs_file st = Some (orig, mode)"
    and "\<forall>d cp x. cv_hosts V orig = Some d \<and> map_of d host = Some (HostDoc (Some (cp, x))) \<longrightarrow> x \<or> cp_allow cp = []"
  shows "case r of Inl e \<Rightarrow> st' = st
    | Inr n \<Rightarrow> \<exists>b d d' x cfg l v hp. cs_file st' = Some (b, mode) \<and> cv_hosts V orig = Some d \<and> cv_hosts V b = Some d'
        \<and> map_of d' = (map_of d)(host \<mapsto> HostDoc (Some (edited_policy pattern add (fst (policy_of d host)), x)))
        \<and> parse_config V b = Some cfg \<and> build_state V cfg = Inr l \<and> st' = install cfg l v (st\<lparr>cs_file := Some (b, mode)\<rparr>)
        \<and> map_of (ls_policy (sv_local (cs_server st'))) host = Some hp
        \<and> (cp_restricts (edited_policy pattern add (fst (policy_of d host))) \<longrightarrow>
             edited_policy pattern add (fst (policy_of d host)) \<in> set (effective_policies hp))"
proof (cases r)
  case (Inl e)
  then show ?thesis using assms(1)
    by (auto simp: mutate_allow_def atomic_write_def split: option.splits prod.splits sum.splits if_splits bool.splits)
next
  case (Inr n)
  obtain b cfg l v where m: "edit_allow V orig host pattern add = Inr b" "parse_config V b = Some cfg" "build_state V cfg = Inr l"
    "st' = install cfg l v (st\<lparr>cs_file := Some (b, mode)\<rparr>)"
    using assms(1,4) Inr by (auto simp: mutate_allow_def atomic_write_def split: option.splits prod.splits sum.splits if_splits bool.splits)
  obtain d d' x where d: "cv_hosts V orig = Some d" "cv_hosts V b = Some d'"
    "map_of d' = (map_of d)(host \<mapsto> HostDoc (Some (edited_policy pattern add (fst (policy_of d host)), x)))"
    using edit_allow_meaning [OF m(1) assms(2,5)] by metis
  have dec: "\<exists>c. cv_decode V b = Some c" using m(2) by (auto simp: parse_config_def)
  have "map_of d' host = Some (HostDoc (Some (edited_policy pattern add (fst (policy_of d host)), x)))" using d(3) by simp
  then obtain hp where hp: "map_of (sg_hosts cfg) host = Some hp" "hp_command_policy hp = edited_policy pattern add (fst (policy_of d host))"
    using dec d(2) assms(3) parse_config_hosts [OF m(2)] unfolding readers_agree_def by metis
  have "sv_local (cs_server st') = l" by (simp add: m(4) install_def swap_state_def loaded_from_def)
  moreover have "cs_file st' = Some (b, mode)" by (simp add: m(4) install_def)
  ultimately show ?thesis using Inr m(2,3,4) d built_enforces [OF m(3) hp(1)] hp(2) by auto
qed

text \<open>Nobody but an administrator changes the file or the signer through this endpoint, and only with a pattern that compiles.\<close>

lemma audit_policy_frame [simp]: "cs_file (audit_policy Q V caller host pattern add outcome err st) = cs_file st"
  "sv_local (cs_server (audit_policy Q V caller host pattern add outcome err st)) = sv_local (cs_server st)"
  by (simp_all add: audit_policy_def append_audit_def split: prod.split)

lemma admit_denial_local: "admit_denial Q c s = (ok, s') \<Longrightarrow> sv_local s' = sv_local s"
  by (auto simp: admit_denial_def rate_admits_def split: if_splits prod.splits)

lemma mutate_allow_error: "mutate_allow V io host p a st = (Inl e, st1) \<Longrightarrow> st1 = st"
  by (auto simp: mutate_allow_def atomic_write_def split: option.splits prod.splits sum.splits if_splits bool.splits)

lemma policy_edit_by_admin:
  assumes "handle_policy_allow Q V io meth cn host body st = (r, st')"
    and "cs_file st' \<noteq> cs_file st \<or> sv_local (cs_server st') \<noteq> sv_local (cs_server st)"
  shows "\<exists>caller pattern n st1. cn = Some caller \<and> caller \<in> set (sv_reload_cn (cs_server st)) \<and> body = Some pattern \<and> rx_compile (cv_go V) pattern \<noteq> None
    \<and> mutate_allow V io host pattern (meth = ''POST'') st = (Inr n, st1) \<and> r = PolicyOK (host, n)"
  using assms unfolding handle_policy_allow_def Let_def
  by (auto split: option.splits if_splits prod.splits sum.splits dest: admit_denial_local dest!: mutate_allow_error)

section \<open>An example\<close>

text \<open>Files with one host, where every byte stands for a pattern of its allowlist.\<close>

definition byte_policy :: "string \<Rightarrow> command_policy" where
  "byte_policy w = \<lparr>cp_mode = CmdPolicyAllowlist, cp_enforcement = [], cp_allow = map (\<lambda>c. [c]) w, cp_deny = [], cp_require_approval = [], cp_shell_parse = None\<rparr>"

definition byte_docs :: "string \<Rightarrow> host_docs" where
  "byte_docs w = [(''db'', HostDoc (Some (byte_policy w, True)))]"

definition byte_config :: "string \<Rightarrow> signer_config" where
  "byte_config w = \<lparr>sg_listen = [], sg_max_ttl_seconds = 300, sg_sign_rate_limit = 0, sg_reload_callers = [''ops''], sg_trusted_forwarders = [],
     sg_hosts = [(''db'', example_host\<lparr>hp_command_policy := byte_policy w\<rparr>)], sg_callers = [], sg_command_policies = [], sg_group_policies = [],
     sg_clusters = None, sg_ca_key = ''ca'', sg_ca_keys = [], sg_envelope_key = [], sg_oidc = None\<rparr>"

definition byte_patch :: "string \<Rightarrow> patch_op list \<Rightarrow> string option" where
  "byte_patch b ops =
     (let d = fold apply_op ops (byte_docs b); w = concat (cp_allow (fst (policy_of d ''db''))) in if d = byte_docs w then Some w else None)"

definition byte_env :: conf_env where
  "byte_env = \<lparr>cv_go = example_env, cv_sealed = example_lib,
     cv_cluster = \<lparr>url_https = (\<lambda>_. True), read_file = (\<lambda>_. None), stat_ok = (\<lambda>_. True), pem_blocks = (\<lambda>_. []), x509_parses = (\<lambda>_. True), pem_encode = id, pool_accepts = (\<lambda>_. True)\<rparr>,
     cv_decode = (\<lambda>b. Some (byte_config b)), cv_hosts = (\<lambda>b. Some (byte_docs b)), cv_patch = byte_patch, cv_load_cas = (\<lambda>k ks. Some (k, [])),
     cv_read_key = (\<lambda>_. None), cv_minter = (\<lambda>_ _ _ _ _. None), cv_verifier = (\<lambda>_. None), cv_text = (\<lambda>_. [])\<rparr>"

definition byte_server :: conf_server where
  "byte_server = \<lparr>cs_server = service_demo, cs_oidc = None, cs_file = Some (''l'', 416)\<rparr>"

definition good_write :: write_io where
  "good_write = \<lparr>wi_create = True, wi_chmod = True, wi_write = True, wi_sync = True, wi_close = True, wi_rename = True\<rparr>"

lemma byte_env_ok: "patch_means byte_env" "readers_agree byte_env"
  by (auto simp: patch_means_def readers_agree_def byte_env_def byte_patch_def byte_docs_def byte_config_def Let_def split: if_splits)

lemma byte_edit: "edit_allow byte_env ''l'' ''db'' ''u'' True = Inr ''lu''"
  by code_simp

lemma byte_build: "\<exists>l. build_state byte_env (the (parse_config byte_env ''lu'')) = Inr l"
proof -
  have "isl (build_state byte_env (the (parse_config byte_env ''lu''))) = False" by code_simp
  then show ?thesis by (cases "build_state byte_env (the (parse_config byte_env ''lu''))") auto
qed

theorem policy_edit_all_or_nothing_witness:
  "\<exists>st'. mutate_allow byte_env good_write ''db'' ''u'' True byte_server = (Inr 1, st') \<and> cs_file st' = Some (''lu'', 416)"
proof -
  obtain cfg where p: "parse_config byte_env ''lu'' = Some cfg" "length (sg_hosts cfg) = 1" "sg_oidc cfg = None"
    by (simp add: parse_config_def byte_env_def byte_config_def)
  obtain l where "build_state byte_env cfg = Inr l" using byte_build p(1) by auto
  then obtain st' where m: "mutate_allow byte_env good_write ''db'' ''u'' True byte_server = (Inr 1, st')"
    using byte_edit p by (auto simp: mutate_allow_def byte_server_def end_user_verifier_for_def atomic_write_def good_write_def)
  have "cs_file byte_server = Some (''l'', 416)"
    "\<forall>d cp x. cv_hosts byte_env ''l'' = Some d \<and> map_of d ''db'' = Some (HostDoc (Some (cp, x))) \<longrightarrow> x \<or> cp_allow cp = []"
    by (simp_all add: byte_server_def byte_env_def byte_docs_def)
  from policy_edit_all_or_nothing [OF m byte_env_ok this] obtain b d d' x where b: "cs_file st' = Some (b, 416)"
    and d: "cv_hosts byte_env ''l'' = Some d" "cv_hosts byte_env b = Some d'"
    "map_of d' = (map_of d)(''db'' \<mapsto> HostDoc (Some (edited_policy ''u'' True (fst (policy_of d ''db'')), x)))" by auto
  have "d = byte_docs ''l''" "d' = byte_docs b" using d(1,2) by (simp_all add: byte_env_def)
  then have "map_of (byte_docs b) ''db'' = Some (HostDoc (Some (edited_policy ''u'' True (fst (policy_of (byte_docs ''l'') ''db'')), x)))" using d(3) by simp
  then have "byte_policy b = edited_policy ''u'' True (byte_policy ''l'')" by (simp add: byte_docs_def policy_of_def)
  then have "map (\<lambda>c. [c]) b = map (\<lambda>c. [c]) ''lu''" by (simp add: byte_policy_def edited_policy_def)
  then have "b = ''lu''" using inj_map_eq_map [of "\<lambda>c. [c]" b "''lu''"] by (auto simp: inj_def)
  then show ?thesis using m b by blast
qed

end
