(* ===== verification/Oidc.thy ===== *)
theory Oidc
  imports Json Signer_Config
begin

text \<open>
  Bearer tokens, \<open>internal/oauth/verifier.go\<close>, and the verifier the signer builds from its configuration (\<open>buildEndUserVerifier\<close> of \<open>cmd/signer/main.go\<close>).
  The OIDC library checks signature, issuer, audience and expiry of a token and hands over its claims; it is an argument. Claims are JSON values, where a
  number is a float64. The throttle of key fetches is the transport under that library.
\<close>

section \<open>Claims\<close>

type_synonym claims = "(string, json) go_map"

definition string_claim :: "claims \<Rightarrow> string \<Rightarrow> string" where
  "string_claim claims name = (case map_of claims name of Some (JStr v) \<Rightarrow> v | _ \<Rightarrow> [])"

fun json_strings :: "json list \<Rightarrow> string list" where
  "json_strings [] = []"
| "json_strings (JStr s # js) = s # json_strings js"
| "json_strings (j # js) = json_strings js"

definition string_slice_claim :: "claims \<Rightarrow> string \<Rightarrow> string list option" where
  "string_slice_claim claims name =
     (case map_of claims name of
        Some (JArr js) \<Rightarrow> Some (json_strings js)
      | Some (JStr v) \<Rightarrow> (if v = [] then None else Some [v])
      | _ \<Rightarrow> None)"

definition scopes_from_claims :: "claims \<Rightarrow> string list" where
  "scopes_from_claims claims =
     (if string_claim claims ''scope'' \<noteq> [] then go_fields (string_claim claims ''scope'')
      else case string_slice_claim claims ''scp'' of None \<Rightarrow> [] | Some xs \<Rightarrow> xs)"

section \<open>The verifier\<close>

record oauth_config =
  oa_issuer :: string
  oa_audience :: string
  oa_required_scopes :: "string list"
  oa_user_claim :: string
  oa_groups_claim :: string
  oa_context_claim :: string
  oa_max_token_age :: go_duration
  oa_clock_skew :: go_duration

text \<open>
  What the verifier asks at one moment: the clock, discovery of an issuer, the library on issuer, audience and token, which gives the expiry and the claims where they
  can be read, and the conversion of a float64 to an int64, which Go leaves open outside the range.
\<close>

record oidc_env =
  oe_now :: go_time
  oe_discover :: "string \<Rightarrow> bool"
  oe_verify :: "string \<Rightarrow> string \<Rightarrow> string \<Rightarrow> (go_time \<times> claims option) option"
  oe_int64 :: "rat \<Rightarrow> int"

record oidc_verifier =
  vf_issuer :: string
  vf_audience :: string
  vf_user_claim :: string
  vf_groups_claim :: string
  vf_context_claim :: string
  vf_max_token_age :: go_duration
  vf_clock_skew :: go_duration
  vf_required_scopes :: "string list"

datatype token_failure =
    IssuerRequired
  | AudienceRequired
  | DiscoveryFailed
  | TokenRejected
  | ClaimsUnreadable
  | UserClaimAbsent string
  | TokenNotYetValid go_time
  | IssuedAtAbsent
  | IssuedInFuture go_time
  | TokenTooOld go_duration
  | GroupsClaimAbsent string
  | ScopeMissing string

definition default_clock_skew :: go_duration where
  "default_clock_skew = go_minute"

definition new_verifier :: "oidc_env \<Rightarrow> oauth_config \<Rightarrow> token_failure + oidc_verifier" where
  "new_verifier W cfg =
     (if oa_issuer cfg = [] then Inl IssuerRequired
      else if oa_audience cfg = [] then Inl AudienceRequired
      else if \<not> oe_discover W (oa_issuer cfg) then Inl DiscoveryFailed
      else
        (let skew = (if oa_clock_skew cfg = 0 then default_clock_skew else oa_clock_skew cfg) in
         Inr \<lparr>vf_issuer = oa_issuer cfg, vf_audience = oa_audience cfg,
              vf_user_claim = (if oa_user_claim cfg = [] then ''sub'' else oa_user_claim cfg),
              vf_groups_claim = oa_groups_claim cfg, vf_context_claim = oa_context_claim cfg, vf_max_token_age = oa_max_token_age cfg,
              vf_clock_skew = (if skew < 0 then 0 else skew), vf_required_scopes = oa_required_scopes cfg\<rparr>))"

text \<open>
  \<open>time.Unix\<close> keeps the seconds since the year 1 in 64 bits; sums of durations wrap.
\<close>

definition time_unix :: "int \<Rightarrow> go_time" where
  "time_unix s = unix_time (signed_take_bit 63 (s + 62135596800) - 62135596800)"

definition duration_add :: "go_duration \<Rightarrow> go_duration \<Rightarrow> go_duration" where
  "duration_add a b = signed_take_bit 63 (a + b)"

record token_info =
  ti_scopes :: "string list"
  ti_expiration :: go_time
  ti_user_id :: string
  ti_groups :: "string list option"
  ti_raw_token :: string
  ti_context :: string

definition claim_time :: "oidc_env \<Rightarrow> claims \<Rightarrow> string \<Rightarrow> go_time option" where
  "claim_time W claims name = (case map_of claims name of Some (JNum x) \<Rightarrow> Some (time_unix (oe_int64 W x)) | _ \<Rightarrow> None)"

definition check_not_before :: "oidc_env \<Rightarrow> oidc_verifier \<Rightarrow> claims \<Rightarrow> token_failure option" where
  "check_not_before W v claims =
     (case claim_time W claims ''nbf'' of
        Some t \<Rightarrow> (if oe_now W + vf_clock_skew v < t then Some (TokenNotYetValid t) else None)
      | None \<Rightarrow> None)"

definition check_age :: "oidc_env \<Rightarrow> oidc_verifier \<Rightarrow> claims \<Rightarrow> token_failure option" where
  "check_age W v claims =
     (if 0 < vf_max_token_age v then
        (case claim_time W claims ''iat'' of
           None \<Rightarrow> Some IssuedAtAbsent
         | Some t \<Rightarrow>
             (if oe_now W + vf_clock_skew v < t then Some (IssuedInFuture t)
              else if duration_add (vf_max_token_age v) (vf_clock_skew v) < time_sub (oe_now W) t then Some (TokenTooOld (time_sub (oe_now W) t))
              else None))
      else None)"

definition verify_token :: "oidc_env \<Rightarrow> oidc_verifier \<Rightarrow> string \<Rightarrow> token_failure + token_info" where
  "verify_token W v token =
     (case oe_verify W (vf_issuer v) (vf_audience v) token of
        None \<Rightarrow> Inl TokenRejected
      | Some (expiry, None) \<Rightarrow> Inl ClaimsUnreadable
      | Some (expiry, Some claims) \<Rightarrow>
          (let user = string_claim claims (vf_user_claim v); groups = string_slice_claim claims (vf_groups_claim v) in
           if user = [] then Inl (UserClaimAbsent (vf_user_claim v))
           else case check_not_before W v claims of Some e \<Rightarrow> Inl e
           | None \<Rightarrow>
               (case check_age W v claims of Some e \<Rightarrow> Inl e
                | None \<Rightarrow>
                    (if vf_groups_claim v \<noteq> [] \<and> groups = None then Inl (GroupsClaimAbsent (vf_groups_claim v))
                     else Inr \<lparr>ti_scopes = scopes_from_claims claims, ti_expiration = expiry, ti_user_id = user,
                               ti_groups = (if vf_groups_claim v \<noteq> [] then groups else None), ti_raw_token = token,
                               ti_context = (if vf_context_claim v \<noteq> [] then string_claim claims (vf_context_claim v) else [])\<rparr>))))"

definition verify_end_user :: "oidc_env \<Rightarrow> oidc_verifier \<Rightarrow> string \<Rightarrow> token_failure + identity" where
  "verify_end_user W v token =
     (case verify_token W v token of
        Inl e \<Rightarrow> Inl e
      | Inr ti \<Rightarrow>
          (case List.find (\<lambda>want. want \<notin> set (ti_scopes ti)) (vf_required_scopes v) of
             Some want \<Rightarrow> Inl (ScopeMissing want)
           | None \<Rightarrow> Inr \<lparr>id_user = ti_user_id ti, id_groups = ti_groups ti, id_context = ti_context ti\<rparr>))"

text \<open>\<open>buildEndUserVerifier\<close> apart from its warnings.\<close>

definition oauth_of :: "oidc_config \<Rightarrow> oauth_config" where
  "oauth_of c = \<lparr>oa_issuer = oc_issuer c, oa_audience = oc_audience c, oa_required_scopes = oc_required_scopes c, oa_user_claim = oc_user_claim c,
     oa_groups_claim = oc_groups_claim c, oa_context_claim = oc_context_claim c, oa_max_token_age = duration_seconds (oc_max_token_age_seconds c),
     oa_clock_skew = duration_seconds (oc_clock_skew_seconds c)\<rparr>"

definition build_end_user_verifier :: "oidc_env \<Rightarrow> signer_config \<Rightarrow> token_failure + oidc_verifier option" where
  "build_end_user_verifier W cfg =
     (case sg_oidc cfg of
        None \<Rightarrow> Inr None
      | Some c \<Rightarrow> (case new_verifier W (oauth_of c) of Inl e \<Rightarrow> Inl e | Inr v \<Rightarrow> Inr (Some v)))"

section \<open>The throttle of key fetches\<close>

definition jwks_refresh_burst :: nat where "jwks_refresh_burst = 5"

definition jwks_refresh_interval :: go_duration where "jwks_refresh_interval = 10 * go_second"

definition new_jwks_throttle :: "go_time \<Rightarrow> rate_bucket" where
  "new_jwks_throttle now = \<lparr>rb_tokens = of_nat jwks_refresh_burst, rb_last = now\<rparr>"

definition jwks_allow :: "rounding \<Rightarrow> go_time \<Rightarrow> rate_bucket \<Rightarrow> bool \<times> rate_bucket" where
  "jwks_allow fl now b =
     (let tokens = fl (rb_tokens b + fl (seconds_of fl (time_sub now (rb_last b)) / seconds_of fl jwks_refresh_interval));
          tokens = (if of_nat jwks_refresh_burst < tokens then of_nat jwks_refresh_burst else tokens)
      in if tokens < 1 then (False, \<lparr>rb_tokens = tokens, rb_last = now\<rparr>)
         else (True, \<lparr>rb_tokens = fl (tokens - 1), rb_last = now\<rparr>))"

text \<open>\<open>RoundTrip\<close>: without a token no request leaves; the transport below is an argument.\<close>

definition jwks_round_trip :: "rounding \<Rightarrow> go_time \<Rightarrow> 'r \<Rightarrow> rate_bucket \<Rightarrow> 'r option \<times> rate_bucket" where
  "jwks_round_trip fl now answer b = (case jwks_allow fl now b of (ok, b) \<Rightarrow> (if ok then Some answer else None, b))"

fun jwks_fetches :: "rounding \<Rightarrow> go_time list \<Rightarrow> rate_bucket \<Rightarrow> nat \<times> rate_bucket" where
  "jwks_fetches fl [] b = (0, b)"
| "jwks_fetches fl (t # ts) b =
     (case jwks_round_trip fl t () b of (r, b) \<Rightarrow> (case jwks_fetches fl ts b of (n, b) \<Rightarrow> ((if r = None then n else Suc n), b)))"

section \<open>What an accepted token shows\<close>

definition live_token :: "oidc_env \<Rightarrow> oidc_verifier \<Rightarrow> claims \<Rightarrow> bool" where
  "live_token W v claims \<longleftrightarrow> string_claim claims (vf_user_claim v) \<noteq> []
     \<and> (\<forall>t. claim_time W claims ''nbf'' = Some t \<longrightarrow> t \<le> oe_now W + vf_clock_skew v)
     \<and> (0 < vf_max_token_age v \<longrightarrow> (\<exists>t. claim_time W claims ''iat'' = Some t \<and> t \<le> oe_now W + vf_clock_skew v
          \<and> time_sub (oe_now W) t \<le> duration_add (vf_max_token_age v) (vf_clock_skew v)))
     \<and> (vf_groups_claim v \<noteq> [] \<longrightarrow> string_slice_claim claims (vf_groups_claim v) \<noteq> None)"

definition token_info_of :: "oidc_verifier \<Rightarrow> string \<Rightarrow> go_time \<Rightarrow> claims \<Rightarrow> token_info" where
  "token_info_of v token expiry claims = \<lparr>ti_scopes = scopes_from_claims claims, ti_expiration = expiry, ti_user_id = string_claim claims (vf_user_claim v),
     ti_groups = (if vf_groups_claim v \<noteq> [] then string_slice_claim claims (vf_groups_claim v) else None), ti_raw_token = token,
     ti_context = (if vf_context_claim v \<noteq> [] then string_claim claims (vf_context_claim v) else [])\<rparr>"

lemma live_token_checks:
  "live_token W v claims \<longleftrightarrow> string_claim claims (vf_user_claim v) \<noteq> [] \<and> check_not_before W v claims = None \<and> check_age W v claims = None
     \<and> (vf_groups_claim v \<noteq> [] \<longrightarrow> string_slice_claim claims (vf_groups_claim v) \<noteq> None)"
proof -
  have "check_not_before W v claims = None \<longleftrightarrow> (\<forall>t. claim_time W claims ''nbf'' = Some t \<longrightarrow> t \<le> oe_now W + vf_clock_skew v)"
    by (auto simp: check_not_before_def split: option.split)
  moreover have "check_age W v claims = None \<longleftrightarrow> (0 < vf_max_token_age v \<longrightarrow> (\<exists>t. claim_time W claims ''iat'' = Some t
      \<and> t \<le> oe_now W + vf_clock_skew v \<and> time_sub (oe_now W) t \<le> duration_add (vf_max_token_age v) (vf_clock_skew v)))"
    by (auto simp: check_age_def split: option.split)
  ultimately show ?thesis by (simp only: live_token_def)
qed

lemma verify_token_iff:
  "verify_token W v token = Inr ti \<longleftrightarrow>
     (\<exists>expiry claims. oe_verify W (vf_issuer v) (vf_audience v) token = Some (expiry, Some claims) \<and> live_token W v claims \<and> ti = token_info_of v token expiry claims)"
proof (cases "oe_verify W (vf_issuer v) (vf_audience v) token")
  case (Some x)
  obtain expiry r where x: "x = (expiry, r)" by (cases x)
  show ?thesis
  proof (cases r)
    case (Some claims)
    with \<open>_ = Some x\<close> x have ov: "oe_verify W (vf_issuer v) (vf_audience v) token = Some (expiry, Some claims)" by simp
    show ?thesis
      unfolding verify_token_def ov live_token_checks token_info_of_def Let_def option.case prod.case
      by (cases "check_not_before W v claims"; cases "check_age W v claims"; cases "string_slice_claim claims (vf_groups_claim v)") auto
  qed (simp add: verify_token_def x \<open>_ = Some x\<close>)
qed (simp add: verify_token_def)

lemma find_missing: "List.find (\<lambda>want. want \<notin> set have_scopes) wants = None \<longleftrightarrow> set wants \<subseteq> set have_scopes"
  by (auto simp: find_None_iff)

lemma verify_end_user_iff:
  "verify_end_user W v token = Inr ident \<longleftrightarrow>
     (\<exists>ti. verify_token W v token = Inr ti \<and> set (vf_required_scopes v) \<subseteq> set (ti_scopes ti)
        \<and> ident = \<lparr>id_user = ti_user_id ti, id_groups = ti_groups ti, id_context = ti_context ti\<rparr>)"
  unfolding find_missing [symmetric] by (auto simp: verify_end_user_def split: sum.splits option.splits)

text \<open>The durations of a configuration with reasonable numbers do not wrap.\<close>

definition oidc_skew :: "oidc_config \<Rightarrow> go_duration" where
  "oidc_skew c = (if oc_clock_skew_seconds c = 0 then go_minute else max 0 (oc_clock_skew_seconds c * go_second))"

definition small_oidc :: "oidc_config \<Rightarrow> bool" where
  "small_oidc c \<longleftrightarrow> \<bar>oc_max_token_age_seconds c\<bar> \<le> 1000000000 \<and> \<bar>oc_clock_skew_seconds c\<bar> \<le> 1000000000"

lemma small_seconds: "\<bar>n\<bar> \<le> 1000000000 \<Longrightarrow> duration_seconds n = n * go_second"
  by (simp add: duration_seconds_def signed_take_bit_int_eq_self)

lemma new_verifier_fields:
  assumes "new_verifier W (oauth_of c) = Inr v" and "small_oidc c"
  shows "vf_issuer v = oc_issuer c" "vf_audience v = oc_audience c" "vf_required_scopes v = oc_required_scopes c"
    "vf_user_claim v = (if oc_user_claim c = [] then ''sub'' else oc_user_claim c)" "vf_groups_claim v = oc_groups_claim c" "vf_context_claim v = oc_context_claim c"
    "vf_max_token_age v = oc_max_token_age_seconds c * go_second" "vf_clock_skew v = oidc_skew c"
proof -
  have "duration_seconds (oc_max_token_age_seconds c) = oc_max_token_age_seconds c * go_second" "duration_seconds (oc_clock_skew_seconds c) = oc_clock_skew_seconds c * go_second"
    using assms(2) by (simp_all only: small_oidc_def small_seconds)
  then have v: "v = \<lparr>vf_issuer = oc_issuer c, vf_audience = oc_audience c, vf_user_claim = (if oc_user_claim c = [] then ''sub'' else oc_user_claim c),
      vf_groups_claim = oc_groups_claim c, vf_context_claim = oc_context_claim c, vf_max_token_age = oc_max_token_age_seconds c * go_second,
      vf_clock_skew = oidc_skew c, vf_required_scopes = oc_required_scopes c\<rparr>"
    using assms(1) by (simp add: new_verifier_def oauth_of_def oidc_skew_def default_clock_skew_def Let_def split: if_splits)
  show "vf_issuer v = oc_issuer c" "vf_audience v = oc_audience c" "vf_required_scopes v = oc_required_scopes c"
    "vf_user_claim v = (if oc_user_claim c = [] then ''sub'' else oc_user_claim c)" "vf_groups_claim v = oc_groups_claim c" "vf_context_claim v = oc_context_claim c"
    "vf_max_token_age v = oc_max_token_age_seconds c * go_second" "vf_clock_skew v = oidc_skew c"
    unfolding v by simp_all
qed

lemma age_bound:
  assumes "time_sub now t \<le> duration_add a k" and "0 \<le> a" "a \<le> 10 ^ 18" "0 \<le> k" "k \<le> 10 ^ 18"
  shows "now - t \<le> a + k"
proof -
  have "duration_add a k = a + k" using assms(2-) by (simp add: duration_add_def signed_take_bit_int_eq_self)
  then show ?thesis using assms by (auto simp: time_sub_def max_def min_def split: if_splits)
qed

lemma small_skew: "small_oidc c \<Longrightarrow> 0 \<le> oidc_skew c \<and> oidc_skew c \<le> 10 ^ 18"
  by (auto simp: small_oidc_def oidc_skew_def)

text \<open>The verifier as the handlers of the signer see it at this moment.\<close>

definition end_user_check :: "oidc_env \<Rightarrow> oidc_verifier \<Rightarrow> string \<Rightarrow> identity option" where
  "end_user_check W v token = (case verify_end_user W v token of Inl e \<Rightarrow> None | Inr ident \<Rightarrow> Some ident)"

lemma end_user_check_Some: "end_user_check W v token = Some ident \<longleftrightarrow> verify_end_user W v token = Inr ident"
  by (auto simp: end_user_check_def split: sum.split)

text \<open>
  C25: For a caller that must present verified end users, a credential is only issued on a live token. When the signer answers such a request, with
  the verifier that its configuration gives, the OIDC library accepts the forwarded token for the configured issuer and audience, the token carries every required scope, it is valid already
  and, where an age is configured, it was issued no longer ago than that, both up to the configured skew; the intent that was signed names the user of
  the configured claim, and exactly the groups of the configured claim where there is one; a restriction to groups that the caller asserted is never dropped.
\<close>

theorem signed_for_live_token:
  assumes "handle_sign Q post (Some peer) (Some req) s = (HttpOK st w, s')"
    and "resolve_caller peer (wr_on_behalf_of req) (sv_forwarders s) = Some caller" and "may_require_verified_end_user (sv_callers s) caller"
    and "new_verifier W (oauth_of c) = Inr v" and "sv_end_user_verifier s = Some (end_user_check W v)" and "small_oidc c"
  shows "\<exists>expiry claims i iu. oe_verify W (oc_issuer c) (oc_audience c) (wr_bearer_token req) = Some (expiry, Some claims)
    \<and> set (oc_required_scopes c) \<subseteq> set (scopes_from_claims claims)
    \<and> (\<forall>t. claim_time W claims ''nbf'' = Some t \<longrightarrow> t \<le> oe_now W + oidc_skew c)
    \<and> (0 < oc_max_token_age_seconds c \<longrightarrow> (\<exists>t. claim_time W claims ''iat'' = Some t \<and> t \<le> oe_now W + oidc_skew c
         \<and> oe_now W - t \<le> oc_max_token_age_seconds c * go_second + oidc_skew c))
    \<and> sign_intent (sq_sign Q) (current_local s) i = (Some iu, None) \<and> ws_decision w = iu_decision iu
    \<and> in_end_user i = string_claim claims (if oc_user_claim c = [] then ''sub'' else oc_user_claim c) \<and> in_end_user i \<noteq> []
    \<and> in_end_user_groups i = (if oc_groups_claim c = [] then None else string_slice_claim claims (oc_groups_claim c))
    \<and> (oc_groups_claim c \<noteq> [] \<or> wr_end_user_groups req \<noteq> None \<longrightarrow> in_end_user_groups i \<noteq> None)"
proof -
  obtain ident i iu where e: "end_user_check W v (wr_bearer_token req) = Some ident" "sign_intent (sq_sign Q) (current_local s) i = (Some iu, None)"
    "ws_decision w = iu_decision iu" "in_end_user i = id_user ident" "in_end_user_groups i = id_groups ident" "wr_end_user_groups req \<noteq> None \<longrightarrow> id_groups ident \<noteq> None"
    using end_user_from_token [OF assms(1-3)] assms(5) by auto
  note f = new_verifier_fields [OF assms(4,6)]
  obtain expiry claims where c: "oe_verify W (oc_issuer c) (oc_audience c) (wr_bearer_token req) = Some (expiry, Some claims)" "live_token W v claims"
    "set (oc_required_scopes c) \<subseteq> set (scopes_from_claims claims)" "id_user ident = string_claim claims (vf_user_claim v)"
    "id_groups ident = (if oc_groups_claim c = [] then None else string_slice_claim claims (oc_groups_claim c))"
    using e(1) by (auto simp: end_user_check_Some verify_end_user_iff verify_token_iff token_info_of_def f)
  have "0 < oc_max_token_age_seconds c \<Longrightarrow> \<exists>t. claim_time W claims ''iat'' = Some t \<and> t \<le> oe_now W + oidc_skew c
      \<and> oe_now W - t \<le> oc_max_token_age_seconds c * go_second + oidc_skew c"
    using c(2) small_skew [OF assms(6)] assms(6) age_bound [of "oe_now W" _ "oc_max_token_age_seconds c * go_second" "oidc_skew c"]
    by (fastforce simp: live_token_def f small_oidc_def)
  moreover have "\<forall>t. claim_time W claims ''nbf'' = Some t \<longrightarrow> t \<le> oe_now W + oidc_skew c" using c(2) by (simp add: live_token_def f)
  moreover have "string_claim claims (vf_user_claim v) \<noteq> []" "oc_groups_claim c \<noteq> [] \<longrightarrow> string_slice_claim claims (oc_groups_claim c) \<noteq> None"
    using c(2) by (simp_all add: live_token_def f)
  ultimately show ?thesis using e c(1,3-5) f(4) by (intro exI [of _ expiry] exI [of _ claims] exI [of _ i] exI [of _ iu]) (auto simp del: not_None_eq)
qed

section \<open>How often keys are fetched\<close>

lemma jwks_allow_exact:
  assumes "jwks_allow exact now b = (ok, b')" and "rb_last b \<le> now"
  shows "rb_last b' = now" "rb_tokens b' + (if ok then 1 else 0) \<le> 5"
    "rb_tokens b' + (if ok then 1 else 0) \<le> rb_tokens b + of_int (now - rb_last b) / 10000000000"
    "0 \<le> rb_tokens b \<Longrightarrow> 0 \<le> rb_tokens b'"
proof -
  define x y :: rat where "x = of_int (time_sub now (rb_last b)) / 10000000000" and "y = of_int (now - rb_last b) / 10000000000"
  have d: "0 \<le> time_sub now (rb_last b)" "time_sub now (rb_last b) \<le> now - rb_last b" using assms(2) by (auto simp: time_sub_def)
  have s: "seconds_of exact (time_sub now (rb_last b)) / seconds_of exact jwks_refresh_interval = x"
    using d(1) by (simp add: seconds_of_exact jwks_refresh_interval_def x_def)
  have "(of_int (time_sub now (rb_last b)) :: rat) \<le> of_int (now - rb_last b)" using d(2) by (simp only: of_int_le_iff)
  then have le: "x \<le> y" unfolding x_def y_def by (rule divide_right_mono) simp
  have nn: "0 \<le> x" using d(1) by (simp add: x_def)
  show "rb_last b' = now" "rb_tokens b' + (if ok then 1 else 0) \<le> 5"
    "rb_tokens b' + (if ok then 1 else 0) \<le> rb_tokens b + of_int (now - rb_last b) / 10000000000"
    "0 \<le> rb_tokens b \<Longrightarrow> 0 \<le> rb_tokens b'"
    using assms(1) le nn unfolding jwks_allow_def s exact_def jwks_refresh_burst_def Let_def y_def [symmetric] by (auto split: if_splits)
qed

lemma jwks_fetches_bound:
  assumes "jwks_fetches exact ts b = (n, b')" and "sorted (rb_last b # ts)" and "0 \<le> rb_tokens b"
  shows "rb_last b' = last (rb_last b # ts) \<and> 0 \<le> rb_tokens b'
    \<and> of_nat n + rb_tokens b' \<le> rb_tokens b + of_int (last (rb_last b # ts) - rb_last b) / 10000000000"
  using assms
proof (induction ts arbitrary: b n)
  case (Cons t ts)
  obtain ok b1 where a: "jwks_allow exact t b = (ok, b1)" by (cases "jwks_allow exact t b")
  obtain m where m: "jwks_fetches exact ts b1 = (m, b')" and n: "n = (if ok then Suc m else m)"
    using Cons.prems(1) a by (auto simp: jwks_round_trip_def split: prod.splits if_splits)
  note x = jwks_allow_exact [OF a]
  have IH: "rb_last b' = last (t # ts) \<and> 0 \<le> rb_tokens b' \<and> of_nat m + rb_tokens b' \<le> rb_tokens b1 + of_int (last (t # ts) - t) / 10000000000"
    using Cons.IH [OF m] Cons.prems(2,3) x by auto
  have "(of_int (last (t # ts) - t) :: rat) + of_int (t - rb_last b) = of_int (last (t # ts) - rb_last b)" by simp
  then show ?case using IH x(3) Cons.prems(2) n by (auto simp: field_simps split: if_splits)
qed simp

text \<open>
  Whatever tokens arrive, the identity provider is asked for keys at most five times in a burst and once every ten seconds beyond that: over any window of a
  history of attempts, with exact arithmetic and a clock that does not step back.
\<close>

theorem jwks_fetch_rate:
  assumes "jwks_fetches exact us (new_jwks_throttle t0) = (m, b)" and "jwks_fetches exact (t # ts) b = (n, b')" and "sorted (t0 # us @ t # ts)"
  shows "of_nat n \<le> (of_nat jwks_refresh_burst + of_int (last (t # ts) - t) / of_int jwks_refresh_interval :: rat)"
proof -
  have "rb_last b = last (t0 # us) \<and> 0 \<le> rb_tokens b"
    using jwks_fetches_bound [OF assms(1)] assms(3) by (auto simp: new_jwks_throttle_def sorted_append)
  moreover have "last (t0 # us) \<le> t" using assms(3) by (cases us rule: rev_cases) (auto simp: sorted_append)
  ultimately have b: "rb_last b \<le> t" "0 \<le> rb_tokens b" by auto
  obtain ok b1 where a: "jwks_allow exact t b = (ok, b1)" by (cases "jwks_allow exact t b")
  obtain k where k: "jwks_fetches exact ts b1 = (k, b')" and n: "n = (if ok then Suc k else k)"
    using assms(2) a by (auto simp: jwks_round_trip_def split: prod.splits if_splits)
  note x = jwks_allow_exact [OF a b(1)]
  have "sorted (rb_last b1 # ts)" using assms(3) x(1) by (simp add: sorted_append)
  then have "of_nat k + rb_tokens b' \<le> rb_tokens b1 + of_int (last (t # ts) - t) / 10000000000" "0 \<le> rb_tokens b'"
    using jwks_fetches_bound [OF k] x(1,4) b(2) by auto
  then show ?thesis using x(2) n by (auto simp: jwks_refresh_burst_def jwks_refresh_interval_def split: if_splits)
qed

section \<open>An example\<close>

definition demo_oidc :: oidc_config where
  "demo_oidc = \<lparr>oc_issuer = ''idp'', oc_audience = ''ssh'', oc_required_scopes = [''exec''], oc_user_claim = [], oc_groups_claim = [], oc_context_claim = [],
     oc_max_token_age_seconds = 3600, oc_clock_skew_seconds = 0\<rparr>"

definition ann_claims :: claims where
  "ann_claims = [(''sub'', JStr ''ann''), (''scope'', JStr ''exec''), (''iat'', JNum 10)]"

definition demo_oidc_env :: oidc_env where
  "demo_oidc_env = \<lparr>oe_now = 60 * go_second, oe_discover = (\<lambda>_. True), oe_verify = (\<lambda>_ _ _. Some (0, Some ann_claims)), oe_int64 = floor\<rparr>"

definition demo_verifier :: oidc_verifier where
  "demo_verifier = \<lparr>vf_issuer = ''idp'', vf_audience = ''ssh'', vf_user_claim = ''sub'', vf_groups_claim = [], vf_context_claim = [],
     vf_max_token_age = 3600 * go_second, vf_clock_skew = go_minute, vf_required_scopes = [''exec'']\<rparr>"

lemma demo_verifier_built: "new_verifier demo_oidc_env (oauth_of demo_oidc) = Inr demo_verifier"
  by (simp add: new_verifier_def oauth_of_def demo_oidc_def demo_oidc_env_def demo_verifier_def small_seconds default_clock_skew_def)

lemma demo_scopes: "scopes_from_claims ann_claims = [''exec'']"
  by (simp add: scopes_from_claims_def string_claim_def ann_claims_def go_fields_def fields_from.simps)

lemma demo_token: "verify_token demo_oidc_env demo_verifier token = Inr (token_info_of demo_verifier token 0 ann_claims)"
proof -
  have "claim_time demo_oidc_env ann_claims ''iat'' = Some (10 * go_second)" "claim_time demo_oidc_env ann_claims ''nbf'' = None"
    by (simp_all add: claim_time_def ann_claims_def demo_oidc_env_def time_unix_def unix_time_def signed_take_bit_int_eq_self)
  then have "live_token demo_oidc_env demo_verifier ann_claims"
    by (simp add: live_token_def demo_verifier_def demo_oidc_env_def string_claim_def time_sub_def duration_add_def signed_take_bit_int_eq_self) (simp add: ann_claims_def)
  then show ?thesis by (simp add: verify_token_iff) (simp add: demo_oidc_env_def)
qed

lemma demo_check: "end_user_check demo_oidc_env demo_verifier = (\<lambda>token. Some \<lparr>id_user = ''ann'', id_groups = None, id_context = []\<rparr>)"
proof
  fix token
  have "verify_end_user demo_oidc_env demo_verifier token = Inr \<lparr>id_user = ''ann'', id_groups = None, id_context = []\<rparr>"
    unfolding verify_end_user_iff using demo_token [of token]
    by (simp add: token_info_of_def demo_scopes) (simp add: demo_verifier_def string_claim_def ann_claims_def)
  then show "end_user_check demo_oidc_env demo_verifier token = Some \<lparr>id_user = ''ann'', id_groups = None, id_context = []\<rparr>"
    by (simp add: end_user_check_Some)
qed

theorem signed_for_live_token_witness:
  "\<exists>i iu. sign_intent (sq_sign service_demo_env) (current_local service_demo) i = (Some iu, None) \<and> in_end_user i = string_claim ann_claims ''sub''"
proof -
  obtain w cert s' where a: "handle_sign service_demo_env True (Some ''cp'') (Some service_request) service_demo = (HttpOK 200 w, s')"
    by (rule service_answers)
  have "resolve_caller ''cp'' (wr_on_behalf_of service_request) (sv_forwarders service_demo) = Some ''b1''"
    "may_require_verified_end_user (sv_callers service_demo) ''b1''"
    by (simp_all add: resolve_caller_def may_require_verified_end_user_def service_demo_def service_request_def)
  moreover have "sv_end_user_verifier service_demo = Some (end_user_check demo_oidc_env demo_verifier)" by (simp add: service_demo_def demo_check)
  moreover have "small_oidc demo_oidc" by (simp add: small_oidc_def demo_oidc_def)
  ultimately show ?thesis
    using signed_for_live_token [OF a _ _ demo_verifier_built, of "''b1''"] by (auto simp: demo_oidc_env_def demo_oidc_def)
qed

theorem jwks_fetch_rate_witness:
  "of_nat (fst (jwks_fetches exact [0, 0, 0, 0, 0, 0] (new_jwks_throttle 0))) \<le> (5 :: rat)"
  using jwks_fetch_rate [of "[]" 0 0 "new_jwks_throttle 0" 0 "[0, 0, 0, 0, 0]"]
  by (cases "jwks_fetches exact [0, 0, 0, 0, 0, 0] (new_jwks_throttle 0)") (simp add: jwks_refresh_burst_def del: jwks_fetches.simps(2))

end
