(* ===== verification/Session_Pool.thy ===== *)
theory Session_Pool
  imports Freeze "HOL-Library.Word"
begin

text \<open>
  The live sessions of a broker, \<open>internal/broker/session.go\<close>: \<open>liveSession\<close>, the \<open>sessionManager\<close> with its limits,
  its reaper and its forced closes, and the predicate of the kill switch (\<open>revocationPredicate\<close> of \<open>engine.go\<close>).

  A session is named by its identifier, twelve random bytes that no other session gets. Which connections were
  torn down, and in which order their parts were closed, is kept in \<open>sm_torn\<close>. What the manager does under its
  lock is one step; the closes it makes afterwards are steps of their own, so that the step relation below has
  every interleaving of the reaper, the kill switch, the shutdown and the callers.
\<close>

section \<open>Data\<close>

abbreviation max_pty_command_bytes :: int where "max_pty_command_bytes \<equiv> 4000"
abbreviation max_sessions_global :: nat where "max_sessions_global \<equiv> 200"
abbreviation max_sessions_per_caller :: nat where "max_sessions_per_caller \<equiv> 20"

abbreviation reap_reason_cert_expired :: string where "reap_reason_cert_expired \<equiv> ''cert expired''"
abbreviation reap_reason_idle :: string where "reap_reason_idle \<equiv> ''idle''"
abbreviation reap_reason_lifetime :: string where "reap_reason_lifetime \<equiv> ''lifetime''"

text \<open>\<open>liveSession\<close>; connection, shell and recorder are external, the record says which of them it has.\<close>

record live_session =
  lv_id :: string
  lv_caller :: string
  lv_context :: string
  lv_host :: string
  lv_serial :: "64 word"
  lv_mode :: string
  lv_conn :: bool
  lv_shell :: bool
  lv_created :: go_time
  lv_last_used :: go_time
  lv_cert_not_after :: "go_time option"
  lv_busy :: int
  lv_elevation_prefix :: string
  lv_elev_label :: string
  lv_sudo :: bool
  lv_sudo_user :: string
  lv_pty :: bool
  lv_connectivity_sig :: string
  lv_recorder :: bool

datatype teardown = CloseRecorder | CloseConn | CloseShell

record session_manager =
  sm_sessions :: "(string, live_session) go_map"
  sm_idle_ttl :: go_duration
  sm_max_life :: go_duration
  sm_stopped :: bool
  sm_torn :: "(string, teardown list) go_map"

datatype session_error = GlobalLimit | CallerLimit

section \<open>Operations\<close>

definition teardown_of :: "live_session \<Rightarrow> teardown list" where
  "teardown_of s = (if lv_recorder s then [CloseRecorder] else []) @ (if lv_conn s then [CloseConn] else [])
     @ (if lv_shell s then [CloseShell] else [])"

text \<open>\<open>close\<close>, which does its work once.\<close>

definition session_close :: "live_session \<Rightarrow> session_manager \<Rightarrow> session_manager" where
  "session_close s m =
     (if map_has (sm_torn m) (lv_id s) then m else m\<lparr>sm_torn := AList.update (lv_id s) (teardown_of s) (sm_torn m)\<rparr>)"

definition new_session_manager :: "go_duration \<Rightarrow> go_duration \<Rightarrow> session_manager" where
  "new_session_manager idle life = \<lparr>sm_sessions = [], sm_idle_ttl = idle, sm_max_life = life, sm_stopped = False, sm_torn = []\<rparr>"

definition session_count :: "session_manager \<Rightarrow> nat" where
  "session_count m = length (sm_sessions m)"

definition cert_expired :: "go_time \<Rightarrow> live_session \<Rightarrow> bool" where
  "cert_expired now s = (case lv_cert_not_after s of None \<Rightarrow> False | Some t \<Rightarrow> t < now)"

text \<open>Why the reaper would close a session, \<^term>\<open>None\<close> where it spares it.\<close>

definition reap_reason :: "session_manager \<Rightarrow> go_time \<Rightarrow> live_session \<Rightarrow> string option" where
  "reap_reason m now s =
     (if \<not> cert_expired now s \<and> 0 < lv_busy s then None
      else if cert_expired now s then Some reap_reason_cert_expired
      else if sm_idle_ttl m < now - lv_last_used s then Some reap_reason_idle
      else if sm_max_life m < now - lv_created s then Some reap_reason_lifetime
      else None)"

text \<open>What \<open>reapExpired\<close> does under the lock, and the closes that follow.\<close>

definition reap_take :: "go_time \<Rightarrow> session_manager \<Rightarrow> (live_session \<times> string) list \<times> session_manager" where
  "reap_take now m =
     (List.map_filter (\<lambda>(sid, s). map_option (Pair s) (reap_reason m now s)) (sm_sessions m),
      m\<lparr>sm_sessions := map_keep (\<lambda>sid s. reap_reason m now s = None) (sm_sessions m)\<rparr>)"

definition reap_expired :: "go_time \<Rightarrow> session_manager \<Rightarrow> (live_session \<times> string) list \<times> session_manager" where
  "reap_expired now m = (case reap_take now m of (victims, m) \<Rightarrow> (victims, fold (\<lambda>(s, reason). session_close s) victims m))"

definition kill_take :: "(live_session \<Rightarrow> bool) \<Rightarrow> session_manager \<Rightarrow> live_session list \<times> session_manager" where
  "kill_take pred m =
     (filter pred (map snd (sm_sessions m)), m\<lparr>sm_sessions := map_keep (\<lambda>sid s. \<not> pred s) (sm_sessions m)\<rparr>)"

definition kill_matching :: "(live_session \<Rightarrow> bool) \<Rightarrow> session_manager \<Rightarrow> live_session list \<times> session_manager" where
  "kill_matching pred m = (case kill_take pred m of (victims, m) \<Rightarrow> (victims, fold session_close victims m))"

definition caller_sessions :: "string \<Rightarrow> session_manager \<Rightarrow> nat" where
  "caller_sessions c m = length (filter (\<lambda>(sid, s). lv_caller s = c) (sm_sessions m))"

definition session_add :: "live_session \<Rightarrow> session_manager \<Rightarrow> session_error option \<times> session_manager" where
  "session_add s m =
     (if max_sessions_global \<le> session_count m then (Some GlobalLimit, m)
      else if max_sessions_per_caller \<le> caller_sessions (lv_caller s) m then (Some CallerLimit, m)
      else (None, m\<lparr>sm_sessions := AList.update (lv_id s) s (sm_sessions m)\<rparr>))"

definition session_remove :: "string \<Rightarrow> session_manager \<Rightarrow> session_manager" where
  "session_remove sid m = m\<lparr>sm_sessions := AList.delete sid (sm_sessions m)\<rparr>"

text \<open>
  \<open>checkoutOwned\<close>: the session, whether it was found and whether the caller owns it. The clock is read for the
  expiry check and again for the time of use.
\<close>

definition checkout_owned :: "go_time \<Rightarrow> go_time \<Rightarrow> string \<Rightarrow> string \<Rightarrow> session_manager \<Rightarrow>
    (live_session option \<times> bool \<times> bool) \<times> session_manager" where
  "checkout_owned now now' sid caller m =
     (case map_of (sm_sessions m) sid of
        None \<Rightarrow> ((None, False, False), m)
      | Some s \<Rightarrow>
          (if lv_caller s \<noteq> caller then ((Some s, True, False), m)
           else if cert_expired now s then ((None, False, False), m)
           else let s = s\<lparr>lv_last_used := now', lv_busy := lv_busy s + 1\<rparr>
                in ((Some s, True, True), m\<lparr>sm_sessions := AList.update sid s (sm_sessions m)\<rparr>)))"

text \<open>\<open>checkin\<close>; a session that is no longer registered has nobody left to read the two fields.\<close>

definition session_checkin :: "go_time \<Rightarrow> string \<Rightarrow> session_manager \<Rightarrow> session_manager" where
  "session_checkin now sid m =
     (case map_of (sm_sessions m) sid of
        None \<Rightarrow> m
      | Some s \<Rightarrow> m\<lparr>sm_sessions := AList.update sid
            (s\<lparr>lv_busy := (if 0 < lv_busy s then lv_busy s - 1 else lv_busy s), lv_last_used := now\<rparr>) (sm_sessions m)\<rparr>)"

definition remove_owned :: "string \<Rightarrow> string \<Rightarrow> session_manager \<Rightarrow> (live_session option \<times> bool \<times> bool) \<times> session_manager" where
  "remove_owned sid caller m =
     (case map_of (sm_sessions m) sid of
        None \<Rightarrow> ((None, False, False), m)
      | Some s \<Rightarrow>
          (if lv_caller s \<noteq> caller then ((Some s, True, False), m) else ((Some s, True, True), session_remove sid m)))"

definition close_all_take :: "session_manager \<Rightarrow> live_session list \<times> session_manager" where
  "close_all_take m =
     (if sm_stopped m then ([], m) else (map snd (sm_sessions m), m\<lparr>sm_stopped := True, sm_sessions := []\<rparr>))"

definition close_all :: "session_manager \<Rightarrow> live_session list \<times> session_manager" where
  "close_all m = (case close_all_take m of (victims, m) \<Rightarrow> (victims, fold session_close victims m))"

section \<open>The kill switch\<close>

text \<open>\<open>parseFrozenSerial\<close>: a decimal serial, with a leading plus sign and leading zeros tolerated.\<close>

definition parse_frozen_serial :: "string \<Rightarrow> 64 word option" where
  "parse_frozen_serial v =
     (let digits = trim_prefix v ''+'' in
      if digits = [] then None
      else let digits = dropWhile (\<lambda>c. c = CHR ''0'') digits in
        if digits = [] then Some 0
        else if list_all is_digit_char digits \<and> decimal_value digits < 2 ^ 64 then Some (of_nat (decimal_value digits))
        else None)"

record revocation_sets =
  rs_end_users :: "string list"
  rs_session_ids :: "string list"
  rs_serials :: "64 word list"
  rs_broker_frozen :: bool

definition note_frozen :: "string \<Rightarrow> frozen_entry \<Rightarrow> revocation_sets \<Rightarrow> revocation_sets" where
  "note_frozen own f r =
     (let kind = fs_kind (fe_subject f); val = fs_value (fe_subject f) in
      if kind = FreezeCaller then (if val = own then r\<lparr>rs_broker_frozen := True\<rparr> else r)
      else if kind = FreezeEndUser then r\<lparr>rs_end_users := val # rs_end_users r\<rparr>
      else if kind = FreezeSessionID then r\<lparr>rs_session_ids := val # rs_session_ids r\<rparr>
      else if kind = FreezeSerial then
        (case parse_frozen_serial val of Some n \<Rightarrow> r\<lparr>rs_serials := n # rs_serials r\<rparr> | None \<Rightarrow> r)
      else r)"

text \<open>\<open>revocationPredicate\<close>: \<^term>\<open>None\<close> where nothing in the freeze set could match a session.\<close>

definition revocation_predicate :: "frozen_entry list \<Rightarrow> string \<Rightarrow> (live_session \<Rightarrow> bool) option" where
  "revocation_predicate frozen own =
     (let r = fold (note_frozen own) frozen \<lparr>rs_end_users = [], rs_session_ids = [], rs_serials = [], rs_broker_frozen = False\<rparr>
      in if \<not> rs_broker_frozen r \<and> rs_end_users r = [] \<and> rs_session_ids r = [] \<and> rs_serials r = [] then None
         else Some (\<lambda>s. rs_broker_frozen r \<or> lv_caller s \<in> set (rs_end_users r) \<or> lv_id s \<in> set (rs_session_ids r)
                \<or> lv_serial s \<in> set (rs_serials r)))"

text \<open>The sweep of \<open>enforceRevocations\<close>: the victims, each of which is audited, and the sessions left.\<close>

definition revoke_sessions :: "frozen_entry list \<Rightarrow> string \<Rightarrow> session_manager \<Rightarrow> live_session list \<times> session_manager" where
  "revoke_sessions frozen own m =
     (case revocation_predicate frozen own of None \<Rightarrow> ([], m) | Some pred \<Rightarrow> kill_matching pred m)"

section \<open>Steps\<close>

text \<open>
  One step of a running broker on its sessions. A new session is registered under an identifier that was never
  used; a goroutine closes only a session that is not registered: one it has not added yet or has taken out.
\<close>

inductive pool_step :: "session_manager \<Rightarrow> session_manager \<Rightarrow> bool" where
  add: "\<not> map_has (sm_sessions m) (lv_id s) \<Longrightarrow> \<not> map_has (sm_torn m) (lv_id s) \<Longrightarrow> lv_busy s = 0
    \<Longrightarrow> pool_step m (snd (session_add s m))"
| remove: "pool_step m (session_remove sid m)"
| checkout: "pool_step m (snd (checkout_owned now now' sid caller m))"
| checkin: "pool_step m (session_checkin now sid m)"
| remove_owned: "pool_step m (snd (remove_owned sid caller m))"
| reap: "pool_step m (snd (reap_take now m))"
| kill: "pool_step m (snd (kill_take pred m))"
| close_all: "pool_step m (snd (close_all_take m))"
| close: "\<not> map_has (sm_sessions m) (lv_id s) \<Longrightarrow> pool_step m (session_close s m)"

inductive pool_reachable :: "go_duration \<Rightarrow> go_duration \<Rightarrow> session_manager \<Rightarrow> bool" for idle life where
  start: "pool_reachable idle life (new_session_manager idle life)"
| step: "pool_reachable idle life m \<Longrightarrow> pool_step m m' \<Longrightarrow> pool_reachable idle life m'"

text \<open>An invariant of the pool: it holds at the start and every step keeps it.\<close>

locale pool_law =
  fixes I :: "session_manager \<Rightarrow> bool"
  assumes start_law: "I (new_session_manager idle life)"
    and step_law: "I m \<Longrightarrow> pool_step m m' \<Longrightarrow> I m'"
begin

lemma holds: "pool_reachable idle life m \<Longrightarrow> I m"
  by (induction rule: pool_reachable.induct) (auto intro: start_law step_law)

lemma holds_later: "pool_step\<^sup>*\<^sup>* m m' \<Longrightarrow> I m \<Longrightarrow> I m'"
  by (induction rule: rtranclp_induct) (auto intro: step_law)

end

inductive_cases pool_stepE: "pool_step m m'"

section \<open>Limits\<close>

definition pool_ok :: "session_manager \<Rightarrow> bool" where
  "pool_ok m \<longleftrightarrow> go_map_inv (sm_sessions m) \<and> (\<forall>(i, s) \<in> set (sm_sessions m). lv_id s = i \<and> 0 \<le> lv_busy s)
     \<and> session_count m \<le> max_sessions_global \<and> (\<forall>c. caller_sessions c m \<le> max_sessions_per_caller)"

definition pool_live :: "session_manager \<Rightarrow> bool" where
  "pool_live m \<longleftrightarrow> (\<forall>sid. \<not> (map_has (sm_sessions m) sid \<and> map_has (sm_torn m) sid))"

lemma count_update_old:
  "map_of m k = Some s \<Longrightarrow> P s' = P s \<Longrightarrow>
   length (filter (\<lambda>(i, s). P s) (AList.update k s' m)) = length (filter (\<lambda>(i, s). P s) m)"
  by (induction m) (auto split: if_splits)

lemma count_update_new:
  "\<not> map_has m k \<Longrightarrow>
   length (filter (\<lambda>(i, s). P s) (AList.update k s m)) = length (filter (\<lambda>(i, s). P s) m) + (if P s then 1 else 0)"
  by (induction m) auto

lemma count_keep: "length (filter P (map_keep Q m)) \<le> length (filter P m)"
  by (induction m) (auto simp: map_keep_def)

lemma delete_is_keep: "AList.delete k m = map_keep (\<lambda>i s. i \<noteq> k) m"
  by (simp add: AList.delete_eq map_keep_def case_prod_unfold eq_commute [of k])

lemma set_update_sub: "set (AList.update k v m) \<subseteq> insert (k, v) (set m)"
  by (induction m) auto

lemma map_has_keep: "map_has (map_keep P m) k \<Longrightarrow> map_has m k"
  by (auto simp: map_has_def map_keep_def dest!: map_of_SomeD simp: map_of_eq_None_iff)

lemma pool_ok_keep:
  "pool_ok m \<Longrightarrow> sm_sessions m' = map_keep P (sm_sessions m) \<Longrightarrow> pool_ok m'"
  unfolding pool_ok_def session_count_def caller_sessions_def
  by (auto simp: set_map_keep intro: order_trans [OF length_map_keep] order_trans [OF count_keep])

lemma pool_ok_touch:
  assumes "pool_ok m" and "map_of (sm_sessions m) k = Some s" and "lv_caller s' = lv_caller s" and "lv_id s' = lv_id s"
    and "0 \<le> lv_busy s'" and "sm_sessions m' = AList.update k s' (sm_sessions m)"
  shows "pool_ok m'"
proof -
  have has: "map_has (sm_sessions m) k" using assms(2) by (simp add: map_has_def)
  have "lv_id s' = k" using assms(1,2,4) map_of_SomeD [OF assms(2)] by (auto simp: pool_ok_def)
  then have "\<forall>(i, s) \<in> set (sm_sessions m'). lv_id s = i \<and> 0 \<le> lv_busy s"
    using assms(1,5,6) set_update_sub [of k s' "sm_sessions m"] by (fastforce simp: pool_ok_def)
  moreover have "caller_sessions c m' = caller_sessions c m" for c
    using count_update_old [OF assms(2), where P = "\<lambda>s. lv_caller s = c" and s' = s'] assms(3,6) by (simp add: caller_sessions_def)
  ultimately show ?thesis using assms(1,6) by (simp add: pool_ok_def session_count_def length_update_old [OF has])
qed

lemma pool_ok_add:
  assumes "pool_ok m" and "\<not> map_has (sm_sessions m) (lv_id s)" and "0 \<le> lv_busy s"
  shows "pool_ok (snd (session_add s m))"
proof (cases "session_count m < max_sessions_global \<and> caller_sessions (lv_caller s) m < max_sessions_per_caller")
  case True
  let ?m = "m\<lparr>sm_sessions := AList.update (lv_id s) s (sm_sessions m)\<rparr>"
  have eq: "snd (session_add s m) = ?m" using True by (simp add: session_add_def)
  have "\<forall>(i, s) \<in> set (sm_sessions ?m). lv_id s = i \<and> 0 \<le> lv_busy s"
    using assms(1,3) set_update_sub [of "lv_id s" s "sm_sessions m"] by (fastforce simp: pool_ok_def)
  moreover have "caller_sessions c ?m = caller_sessions c m + (if lv_caller s = c then 1 else 0)" for c
    using count_update_new [OF assms(2), where P = "\<lambda>s. lv_caller s = c"] by (simp add: caller_sessions_def)
  ultimately show ?thesis
    using assms(1) True unfolding eq by (auto simp: pool_ok_def session_count_def length_update_new [OF assms(2)] less_eq_Suc_le)
qed (use assms(1) in \<open>auto simp: session_add_def\<close>)

lemma sessions_close [simp]: "sm_sessions (session_close s m) = sm_sessions m"
  by (simp add: session_close_def)

lemma sessions_fold_close [simp]: "sm_sessions (fold session_close vs m) = sm_sessions m"
  by (induction vs arbitrary: m) auto

lemma torn_close [simp]: "map_has (sm_torn (session_close s m)) sid \<longleftrightarrow> map_has (sm_torn m) sid \<or> sid = lv_id s"
  by (auto simp: session_close_def)

lemma pool_ok_empty: "sm_sessions m = [] \<Longrightarrow> pool_ok m"
  by (simp add: pool_ok_def session_count_def caller_sessions_def)

lemma pool_ok_same: "pool_ok m \<Longrightarrow> sm_sessions m' = sm_sessions m \<Longrightarrow> pool_ok m'"
  by (simp add: pool_ok_def session_count_def caller_sessions_def)

lemma pool_ok_step: "pool_ok m \<Longrightarrow> pool_step m m' \<Longrightarrow> pool_ok m'"
proof (erule pool_stepE)
  fix now now' sid caller assume ok: "pool_ok m" and eq: "m' = snd (checkout_owned now now' sid caller m)"
  show "pool_ok m'"
  proof (cases "map_of (sm_sessions m) sid")
    case (Some s)
    then have "0 \<le> lv_busy s" using ok map_of_SomeD [OF Some] by (auto simp: pool_ok_def)
    then show ?thesis
      using ok Some unfolding eq checkout_owned_def by (auto simp: Let_def
        intro!: pool_ok_touch [OF ok Some, where s' = "s\<lparr>lv_last_used := now', lv_busy := lv_busy s + 1\<rparr>"])
  qed (use ok eq in \<open>simp add: checkout_owned_def\<close>)
next
  fix now sid assume ok: "pool_ok m" and eq: "m' = session_checkin now sid m"
  show "pool_ok m'"
  proof (cases "map_of (sm_sessions m) sid")
    case (Some s)
    then have "0 \<le> lv_busy s" using ok map_of_SomeD [OF Some] by (auto simp: pool_ok_def)
    then show ?thesis
      using ok Some unfolding eq session_checkin_def by (auto
        intro!: pool_ok_touch [OF ok Some, where s' = "s\<lparr>lv_busy := (if 0 < lv_busy s then lv_busy s - 1 else lv_busy s), lv_last_used := now\<rparr>"])
  qed (use ok eq in \<open>simp add: session_checkin_def\<close>)
qed (auto simp: session_remove_def remove_owned_def reap_take_def kill_take_def close_all_take_def delete_is_keep pool_ok_add
       pool_ok_empty intro: pool_ok_keep pool_ok_same split: option.splits)

lemma pool_live_sub:
  "pool_live m \<Longrightarrow> (\<And>k. map_has (sm_sessions m') k \<Longrightarrow> map_has (sm_sessions m) k) \<Longrightarrow> sm_torn m' = sm_torn m \<Longrightarrow> pool_live m'"
  by (auto simp: pool_live_def)

lemma pool_live_step: "pool_live m \<Longrightarrow> pool_step m m' \<Longrightarrow> pool_live m'"
proof (erule pool_stepE)
  fix s assume "pool_live m" and "m' = session_close s m" and "\<not> map_has (sm_sessions m) (lv_id s)"
  then show "pool_live m'" by (auto simp: pool_live_def)
next
  fix s assume "pool_live m" and "m' = snd (session_add s m)" and "\<not> map_has (sm_torn m) (lv_id s)"
  then show "pool_live m'" by (auto simp: pool_live_def session_add_def)
qed (erule pool_live_sub;
     auto simp: session_remove_def remove_owned_def reap_take_def kill_take_def close_all_take_def checkout_owned_def Let_def
       session_checkin_def map_has_def [of "sm_sessions m"] map_has_update dest: map_has_keep split: option.splits if_splits)+

interpretation limits: pool_law pool_ok
  by unfold_locales (simp add: pool_ok_def new_session_manager_def session_count_def caller_sessions_def, rule pool_ok_step)

interpretation registered: pool_law pool_live
  by unfold_locales (simp add: pool_live_def new_session_manager_def, rule pool_live_step)

section \<open>Forced closes\<close>

lemma registered_distinct:
  assumes "pool_ok m"
  shows "distinct (map lv_id (map snd (sm_sessions m)))"
proof -
  have "map lv_id (map snd (sm_sessions m)) = map fst (sm_sessions m)"
    using assms by (auto simp: pool_ok_def)
  then show ?thesis using assms unfolding pool_ok_def go_map_inv_def by argo
qed

lemma torn_close_stays: "map_of (sm_torn m) sid = Some t \<Longrightarrow> map_of (sm_torn (session_close s m)) sid = Some t"
  by (auto simp: session_close_def map_of_update map_has_def)

lemma torn_stays: "map_of (sm_torn m) sid = Some t \<Longrightarrow> map_of (sm_torn (fold session_close vs m)) sid = Some t"
  by (induction vs arbitrary: m) (auto dest: torn_close_stays)

lemma fold_close_tears:
  assumes "s \<in> set vs" and "distinct (map lv_id vs)" and "\<forall>v \<in> set vs. \<not> map_has (sm_torn m) (lv_id v)"
  shows "map_of (sm_torn (fold session_close vs m)) (lv_id s) = Some (teardown_of s)"
  using assms
proof (induction vs arbitrary: m)
  case (Cons v vs)
  show ?case
  proof (cases "s = v")
    case True
    with Cons.prems(3) have "map_of (sm_torn (session_close v m)) (lv_id s) = Some (teardown_of s)"
      by (simp add: session_close_def map_of_update)
    then show ?thesis by (simp add: torn_stays)
  next
    case False
    with Cons.prems have "\<forall>u \<in> set vs. lv_id u \<noteq> lv_id v" by (auto simp: image_iff)
    with False Cons.prems show ?thesis using Cons.IH [of "session_close v m"] by simp
  qed
qed simp

text \<open>The sessions a sweep takes out are torn down, and the others are as they were.\<close>

lemma sweep_tears:
  assumes "pool_ok m" and "pool_live m" and "vs = filter pred (map snd (sm_sessions m))" and "s \<in> set vs"
  shows "map_of (sm_torn (fold session_close vs (m\<lparr>sm_sessions := ms\<rparr>))) (lv_id s) = Some (teardown_of s)"
proof (rule fold_close_tears [OF assms(4)])
  show "distinct (map lv_id vs)"
    using registered_distinct [OF assms(1)] unfolding assms(3) by (simp add: distinct_map_filter)
  have "map_has (sm_sessions m) (lv_id v)" if "v \<in> set vs" for v
    using that assms(1,3) by (force simp: pool_ok_def map_has_def map_of_eq_None_iff image_iff)
  then show "\<forall>v \<in> set vs. \<not> map_has (sm_torn (m\<lparr>sm_sessions := ms\<rparr>)) (lv_id v)"
    using assms(2) by (auto simp: pool_live_def)
qed

lemma sessions_kept:
  assumes "pool_ok m"
  shows "map_of (map_keep (\<lambda>i s. P s) (sm_sessions m)) sid = Some s \<longleftrightarrow> map_of (sm_sessions m) sid = Some s \<and> P s"
  using assms by (auto simp: map_of_keep pool_ok_def split: option.splits)

text \<open>Whether an entry of the freeze set names a session of the broker \<open>own\<close>.\<close>

definition frozen_names :: "string \<Rightarrow> live_session \<Rightarrow> frozen_entry \<Rightarrow> bool" where
  "frozen_names own s f \<longleftrightarrow>
     (let kind = fs_kind (fe_subject f); val = fs_value (fe_subject f) in
      kind = FreezeCaller \<and> val = own \<or> kind = FreezeEndUser \<and> val = lv_caller s
    \<or> kind = FreezeSessionID \<and> val = lv_id s \<or> kind = FreezeSerial \<and> parse_frozen_serial val = Some (lv_serial s))"

definition in_revocation_sets :: "live_session \<Rightarrow> revocation_sets \<Rightarrow> bool" where
  "in_revocation_sets s r \<longleftrightarrow> rs_broker_frozen r \<or> lv_caller s \<in> set (rs_end_users r) \<or> lv_id s \<in> set (rs_session_ids r)
     \<or> lv_serial s \<in> set (rs_serials r)"

lemma note_frozen_adds: "in_revocation_sets s (note_frozen own f r) \<longleftrightarrow> in_revocation_sets s r \<or> frozen_names own s f"
  by (auto simp: in_revocation_sets_def note_frozen_def frozen_names_def Let_def split: option.splits)

lemma fold_note_frozen:
  "in_revocation_sets s (fold (note_frozen own) fs r) \<longleftrightarrow> in_revocation_sets s r \<or> (\<exists>f \<in> set fs. frozen_names own s f)"
  by (induction fs arbitrary: r) (auto simp: note_frozen_adds)

lemma revoke_sessions_eq:
  "revoke_sessions frozen own m = kill_matching (\<lambda>s. \<exists>f \<in> set frozen. frozen_names own s f) m"
proof -
  let ?r = "fold (note_frozen own) frozen \<lparr>rs_end_users = [], rs_session_ids = [], rs_serials = [], rs_broker_frozen = False\<rparr>"
  have iff: "in_revocation_sets s ?r \<longleftrightarrow> (\<exists>f \<in> set frozen. frozen_names own s f)" for s
    by (simp add: fold_note_frozen in_revocation_sets_def [of _ "\<lparr>rs_end_users = [], rs_session_ids = [], rs_serials = [], rs_broker_frozen = False\<rparr>"])
  show ?thesis
  proof (cases "revocation_predicate frozen own")
    case None
    then have "\<not> (\<exists>f \<in> set frozen. frozen_names own s f)" for s
      by (auto simp: revocation_predicate_def Let_def iff [symmetric] in_revocation_sets_def split: if_splits)
    with None show ?thesis
      by (simp add: revoke_sessions_def kill_matching_def kill_take_def map_keep_def)
  next
    case (Some pred)
    then have "pred = (\<lambda>s. in_revocation_sets s ?r)"
      by (auto simp: revocation_predicate_def Let_def in_revocation_sets_def split: if_splits)
    with Some show ?thesis by (simp add: revoke_sessions_def iff)
  qed
qed


lemma victims_sessions:
  "map fst (List.map_filter (\<lambda>(i, s). map_option (Pair s) (f s)) xs) = filter (\<lambda>s. f s \<noteq> None) (map snd xs)"
  by (induction xs) (auto simp: map_filter_simps split: option.splits)

text \<open>
  The reaper closes what has run out and nothing else. After a tick at time \<open>now\<close> a session is still
  registered exactly when it was before, its certificate has not lapsed, and it is either running a command or
  within both the idle time and the maximum lifetime; what was taken out is torn down, also in the middle of a
  command when the certificate has lapsed.
\<close>

theorem reaper_exact:
  assumes "pool_reachable idle life m" and "reap_expired now m = (victims, m')"
  shows "(map_of (sm_sessions m') sid = Some s
      \<longleftrightarrow> map_of (sm_sessions m) sid = Some s \<and> \<not> cert_expired now s
          \<and> (0 < lv_busy s \<or> now - lv_last_used s \<le> sm_idle_ttl m \<and> now - lv_created s \<le> sm_max_life m))
    \<and> (map_of (sm_sessions m) sid = Some s \<and> map_of (sm_sessions m') sid = None
      \<longrightarrow> map_of (sm_torn m') sid = Some (teardown_of s))"
proof -
  let ?P = "\<lambda>s. reap_reason m now s = None"
  note ok = limits.holds [OF assms(1)] and live = registered.holds [OF assms(1)]
  have vs: "map fst victims = filter (\<lambda>s. \<not> ?P s) (map snd (sm_sessions m))"
    using assms(2) by (auto simp: reap_expired_def reap_take_def victims_sessions)
  have m': "m' = fold session_close (map fst victims) (m\<lparr>sm_sessions := map_keep (\<lambda>i s. ?P s) (sm_sessions m)\<rparr>)"
    using assms(2) by (auto simp: reap_expired_def reap_take_def fold_map comp_def case_prod_unfold)
  have kept: "sm_sessions m' = map_keep (\<lambda>i s. ?P s) (sm_sessions m)" by (simp add: m')
  have spared: "?P s \<longleftrightarrow> \<not> cert_expired now s
      \<and> (0 < lv_busy s \<or> now - lv_last_used s \<le> sm_idle_ttl m \<and> now - lv_created s \<le> sm_max_life m)" for s
    by (auto simp: reap_reason_def)
  have "map_of (sm_torn m') sid = Some (teardown_of s)"
    if "map_of (sm_sessions m) sid = Some s" "map_of (sm_sessions m') sid = None"
  proof -
    have "s \<in> set (map fst victims)"
      using that ok by (auto simp: vs kept map_of_keep pool_ok_def dest: map_of_SomeD split: if_splits intro!: image_eqI)
    moreover have "lv_id s = sid" using that(1) ok by (auto simp: pool_ok_def dest: map_of_SomeD)
    ultimately show ?thesis using sweep_tears [OF ok live vs, of s] by (auto simp: m')
  qed
  then show ?thesis by (simp add: kept sessions_kept [OF ok] spared)
qed

section \<open>Access\<close>

text \<open>
  However callers, reaper, kill switch and shutdown interleave, a broker never holds more than 200 sessions nor
  more than 20 of one caller, each is registered under its own identifier with a number of running commands that
  is not negative, and no registered session has been torn down.
\<close>

theorem session_limits:
  assumes "pool_reachable idle life m"
  shows "session_count m \<le> 200 \<and> caller_sessions c m \<le> 20
    \<and> (map_of (sm_sessions m) sid = Some s \<longrightarrow> lv_id s = sid \<and> 0 \<le> lv_busy s \<and> \<not> map_has (sm_torn m) sid)"
proof (intro conjI impI)
  note ok = limits.holds [OF assms]
  show "session_count m \<le> 200" "caller_sessions c m \<le> 20" using ok by (simp_all add: pool_ok_def)
  assume s: "map_of (sm_sessions m) sid = Some s"
  then show "lv_id s = sid" "0 \<le> lv_busy s" using ok map_of_SomeD [OF s] by (auto simp: pool_ok_def)
  show "\<not> map_has (sm_torn m) sid" using registered.holds [OF assms] s unfolding pool_live_def map_has_def by (metis option.distinct(1))
qed

text \<open>
  A command starts on a session only for the caller that opened it and before the certificate behind it has
  lapsed. The checkout grants exactly then; it counts one more running command of that session and notes the time;
  in every other case it changes nothing, so that nobody can keep the session of another caller alive.
\<close>

theorem checkout_grants_owner:
  assumes "checkout_owned now now' sid caller m = ((r, found, owned), m')"
  shows "(owned \<longleftrightarrow> (\<exists>s. map_of (sm_sessions m) sid = Some s \<and> lv_caller s = caller \<and> \<not> cert_expired now s))
    \<and> (owned \<longrightarrow> (\<exists>s. map_of (sm_sessions m) sid = Some s \<and> r = Some (s\<lparr>lv_last_used := now', lv_busy := lv_busy s + 1\<rparr>)
        \<and> map_of (sm_sessions m') = (map_of (sm_sessions m))(sid := r)))
    \<and> (\<not> owned \<longrightarrow> m' = m)"
  using assms by (auto simp: checkout_owned_def Let_def update_conv' fun_upd_def split: option.splits if_splits)

lemma decimal_drop_zeros: "decimal_value (dropWhile (\<lambda>c. c = CHR ''0'') s) = decimal_value s"
  by (induction s) (auto simp: decimal_value_def)

lemma digits_drop_zeros: "list_all is_digit_char (dropWhile (\<lambda>c. c = CHR ''0'') s) = list_all is_digit_char s"
  by (induction s) (auto simp: is_digit_char_def)

text \<open>
  A frozen serial names a certificate by its number, whatever its spelling: an optional plus sign and any digits
  whose value is the serial.
\<close>

lemma parse_frozen_serial_iff:
  "parse_frozen_serial v = Some w \<longleftrightarrow>
     (let d = trim_prefix v ''+'' in d \<noteq> [] \<and> list_all is_digit_char d \<and> decimal_value d = unat w)"
proof -
  define d where "d = trim_prefix v ''+''"
  define z where "z = dropWhile (\<lambda>c. c = CHR ''0'') d"
  have same: "decimal_value z = decimal_value d" "list_all is_digit_char z = list_all is_digit_char d"
    by (simp_all only: z_def decimal_drop_zeros digits_drop_zeros)
  have num: "n < 2 ^ 64 \<and> of_nat n = w \<longleftrightarrow> n = unat w" for n
    using unsigned_less [of w, where ?'a = nat] by (auto simp: unat_of_nat take_bit_eq_mod)
  have "parse_frozen_serial v = Some w \<longleftrightarrow> d \<noteq> [] \<and> (if z = [] then w = 0
      else list_all is_digit_char d \<and> (decimal_value d < 2 ^ 64 \<and> of_nat (decimal_value d) = w))"
    unfolding parse_frozen_serial_def Let_def d_def [symmetric] z_def [symmetric] same by (auto simp del: of_nat_numeral)
  also have "... \<longleftrightarrow> d \<noteq> [] \<and> list_all is_digit_char d \<and> decimal_value d = unat w"
  proof (cases "z = []")
    case True
    then have "list_all is_digit_char d" "decimal_value d = 0" using same by (simp_all add: decimal_value_def)
    moreover have "w = 0 \<longleftrightarrow> 0 = unat w" by (metis unsigned_eq_0_iff)
    ultimately show ?thesis using True by simp
  qed (simp only: num if_False simp_thms)
  finally show ?thesis unfolding Let_def d_def .
qed

section \<open>Examples\<close>

definition pool_session :: "string \<Rightarrow> string \<Rightarrow> 64 word \<Rightarrow> int \<Rightarrow> live_session" where
  "pool_session sid caller serial busy = \<lparr>lv_id = sid, lv_caller = caller, lv_context = [], lv_host = ''web'',
     lv_serial = serial, lv_mode = ''shell'', lv_conn = True, lv_shell = True, lv_created = 0, lv_last_used = 0,
     lv_cert_not_after = Some 500, lv_busy = busy, lv_elevation_prefix = [], lv_elev_label = [], lv_sudo = False,
     lv_sudo_user = [], lv_pty = False, lv_connectivity_sig = [], lv_recorder = False\<rparr>"

text \<open>Two sessions of alice, the first one running a command since time 10, and one of bob.\<close>

definition example_pool :: session_manager where
  "example_pool = \<lparr>sm_sessions =
       [(''s1'', (pool_session ''s1'' ''alice'' 7 1)\<lparr>lv_last_used := 10\<rparr>), (''s2'', pool_session ''s2'' ''bob'' 8 0)],
     sm_idle_ttl = 100, sm_max_life = 1000, sm_stopped = False, sm_torn = []\<rparr>"

lemma example_reachable: "pool_reachable 100 1000 example_pool"
proof -
  let ?m0 = "new_session_manager 100 1000"
  let ?m1 = "snd (session_add (pool_session ''s1'' ''alice'' 7 0) ?m0)"
  let ?m2 = "snd (session_add (pool_session ''s2'' ''bob'' 8 0) ?m1)"
  have "pool_reachable 100 1000 ?m1"
    by (rule pool_reachable.step [OF pool_reachable.start pool_step.add])
      (simp_all add: new_session_manager_def pool_session_def)
  then have "pool_reachable 100 1000 ?m2"
    by (rule pool_reachable.step [OF _ pool_step.add])
      (simp_all add: new_session_manager_def pool_session_def session_add_def session_count_def caller_sessions_def)
  then have "pool_reachable 100 1000 (snd (checkout_owned 10 10 ''s1'' ''alice'' ?m2))"
    by (rule pool_reachable.step [OF _ pool_step.checkout])
  moreover have "snd (checkout_owned 10 10 ''s1'' ''alice'' ?m2) = example_pool"
    by (simp add: new_session_manager_def pool_session_def session_add_def session_count_def caller_sessions_def
        checkout_owned_def cert_expired_def example_pool_def Let_def)
  ultimately show ?thesis by simp
qed

definition example_freeze :: "string \<Rightarrow> string \<Rightarrow> frozen_entry" where
  "example_freeze kind val = \<lparr>fe_subject = \<lparr>fs_kind = kind, fs_value = val\<rparr>, fe_reason = [], fe_frozen_by = [], fe_frozen_at = 0\<rparr>"

lemma example_revoked:
  "revoke_sessions [example_freeze ''serial'' ''+007''] ''broker-1'' example_pool =
     ([(pool_session ''s1'' ''alice'' 7 1)\<lparr>lv_last_used := 10\<rparr>],
      example_pool\<lparr>sm_sessions := [(''s2'', pool_session ''s2'' ''bob'' 8 0)], sm_torn := [(''s1'', [CloseConn, CloseShell])]\<rparr>)"
  by (simp add: revoke_sessions_eq kill_matching_def kill_take_def frozen_names_def parse_frozen_serial_iff example_pool_def
      example_freeze_def pool_session_def session_close_def teardown_of_def trim_prefix_def has_prefix_def is_digit_char_def
      decimal_value_def map_keep_def)


lemma example_reaped: "reap_expired 501 example_pool =
    ([((pool_session ''s1'' ''alice'' 7 1)\<lparr>lv_last_used := 10\<rparr>, ''cert expired''), (pool_session ''s2'' ''bob'' 8 0, ''cert expired'')],
     example_pool\<lparr>sm_sessions := [], sm_torn := [(''s1'', [CloseConn, CloseShell]), (''s2'', [CloseConn, CloseShell])]\<rparr>)"
  by (simp add: reap_expired_def reap_take_def reap_reason_def cert_expired_def map_filter_simps example_pool_def pool_session_def
      session_close_def teardown_of_def map_keep_def)

theorem reaper_exact_witness:
  "map_of (sm_torn (snd (reap_expired 501 example_pool))) ''s1'' = Some [CloseConn, CloseShell]"
  using reaper_exact [OF example_reachable example_reaped, of "''s1''" "(pool_session ''s1'' ''alice'' 7 1)\<lparr>lv_last_used := 10\<rparr>"]
  unfolding example_reaped by (simp add: pool_session_def example_pool_def teardown_of_def)

theorem session_limits_witness: "session_count example_pool \<le> 200 \<and> caller_sessions ''alice'' example_pool \<le> 20"
  using session_limits [OF example_reachable] by blast

theorem checkout_grants_owner_witness:
  "fst (checkout_owned 20 20 ''s1'' ''bob'' example_pool) = (Some ((pool_session ''s1'' ''alice'' 7 1)\<lparr>lv_last_used := 10\<rparr>), True, False)
   \<and> snd (checkout_owned 20 20 ''s1'' ''bob'' example_pool) = example_pool"
proof -
  have "checkout_owned 20 20 ''s1'' ''bob'' example_pool
      = ((Some ((pool_session ''s1'' ''alice'' 7 1)\<lparr>lv_last_used := 10\<rparr>), True, False), example_pool)"
    by (simp add: checkout_owned_def example_pool_def pool_session_def)
  then show ?thesis using checkout_grants_owner [of 20 20 "''s1''" "''bob''" example_pool] by simp
qed

end
