(* ===== verification/Recording.thy ===== *)
theory Recording
  imports Audit_Log
begin

text \<open>
  Session recordings, \<open>internal/recording/recorder.go\<close>: an ASCIIcast file of one session with its size cap.

  \<open>cast_lib\<close> holds the JSON encoding of the header and of an event. The file is its content; a write that fails may
  have written part of its bytes. The clock and the outcome of each write are arguments (\<open>cast_io\<close>).
\<close>

record cast_meta =
  cm_session_id :: string
  cm_caller :: string
  cm_host :: string
  cm_serial :: "64 word"
  cm_pty :: bool
  cm_term :: string
  cm_width :: int
  cm_height :: int
  cm_started_at :: "go_time option"

record cast_header =
  ch_version :: int
  ch_width :: int
  ch_height :: int
  ch_timestamp :: int
  ch_title :: string
  ch_term :: string
  ch_session_id :: string
  ch_caller :: string
  ch_host :: string
  ch_serial :: "64 word"
  ch_started_at :: go_time

record cast_lib =
  cl_header :: "cast_header \<Rightarrow> string"
  cl_event :: "go_duration \<Rightarrow> string \<Rightarrow> string \<Rightarrow> string"

record cast_io =
  ci_now :: go_time
  ci_write :: write_result

record recorder =
  rc_open :: bool
  rc_file :: string
  rc_started :: go_time
  rc_redactor :: "(string \<Rightarrow> string) option"
  rc_written :: int
  rc_max_bytes :: int
  rc_capped :: bool

datatype cast_error = CastOpen | CastWrite | CastCapped

abbreviation default_cast_bytes :: int where "default_cast_bytes \<equiv> 104857600"

section \<open>Operations\<close>

text \<open>The header of a file; the dash of its title is the UTF-8 form of U+2014.\<close>

definition cast_header_of :: "go_time \<Rightarrow> cast_meta \<Rightarrow> cast_header" where
  "cast_header_of now m =
     (let now = (case cm_started_at m of None \<Rightarrow> now | Some t \<Rightarrow> t)
      in \<lparr>ch_version = 2, ch_width = (if cm_width m \<le> 0 then 220 else cm_width m),
          ch_height = (if cm_height m \<le> 0 then 40 else cm_height m), ch_timestamp = unix_seconds now,
          ch_title = ''session '' @ cm_session_id m @ '' '' @ map char_of [226 :: nat, 128, 148] @ '' '' @ cm_caller m @ ''@'' @ cm_host m,
          ch_term = (if cm_term m = [] then ''xterm-256color'' else cm_term m), ch_session_id = cm_session_id m,
          ch_caller = cm_caller m, ch_host = cm_host m, ch_serial = cm_serial m, ch_started_at = now\<rparr>)"

text \<open>\<open>Open\<close>; the clock is read for a missing start time and again for the deltas.\<close>

definition cast_open :: "cast_lib \<Rightarrow> bool \<Rightarrow> go_time \<Rightarrow> cast_io \<Rightarrow> cast_meta \<Rightarrow> cast_error + recorder" where
  "cast_open J open_ok now io m =
     (if \<not> open_ok then Inl CastOpen
      else let line = cl_header J (cast_header_of now m) @ [newline] in
        case ci_write io of
          WriteFailed n \<Rightarrow> Inl CastWrite
        | Written \<Rightarrow> Inr \<lparr>rc_open = True, rc_file = line, rc_started = ci_now io, rc_redactor = None,
             rc_written = int (length line), rc_max_bytes = default_cast_bytes, rc_capped = False\<rparr>)"

definition set_max_bytes :: "int \<Rightarrow> recorder \<Rightarrow> recorder" where
  "set_max_bytes n r = r\<lparr>rc_max_bytes := n\<rparr>"

definition set_cast_redactor :: "(string \<Rightarrow> string) \<Rightarrow> recorder \<Rightarrow> recorder" where
  "set_cast_redactor f r = r\<lparr>rc_redactor := Some f\<rparr>"

definition cast_close :: "recorder \<Rightarrow> recorder" where
  "cast_close r = r\<lparr>rc_open := False\<rparr>"

definition event_line :: "cast_lib \<Rightarrow> go_time \<Rightarrow> string \<Rightarrow> string \<Rightarrow> recorder \<Rightarrow> string" where
  "event_line J now kind data r = cl_event J (now - rc_started r) kind data @ [newline]"

definition cast_write_line :: "cast_lib \<Rightarrow> cast_io \<Rightarrow> string \<Rightarrow> string \<Rightarrow> recorder \<Rightarrow> cast_error option \<times> recorder" where
  "cast_write_line J io kind data r =
     (let line = event_line J (ci_now io) kind data r in
      case ci_write io of
        WriteFailed n \<Rightarrow> (Some CastWrite, r\<lparr>rc_file := rc_file r @ take n line\<rparr>)
      | Written \<Rightarrow> (None, r\<lparr>rc_file := rc_file r @ line, rc_written := rc_written r + int (length line)\<rparr>))"

definition cap_note :: "recorder \<Rightarrow> string" where
  "cap_note r = [carriage_return, newline] @ ''[recording truncated: '' @ int_decimal (rc_max_bytes r) @ ''-byte limit reached]''
     @ [carriage_return, newline]"

definition cast_write :: "cast_lib \<Rightarrow> cast_io \<Rightarrow> string \<Rightarrow> string \<Rightarrow> recorder \<Rightarrow> cast_error option \<times> recorder" where
  "cast_write J io kind data r =
     (if data = [] \<or> \<not> rc_open r then (None, r)
      else let data = (case rc_redactor r of None \<Rightarrow> data | Some f \<Rightarrow> f data) in
        if 0 < rc_max_bytes r \<and> rc_max_bytes r \<le> rc_written r then
          (Some CastCapped,
           if rc_capped r then r else snd (cast_write_line J io ''o'' (cap_note r) (r\<lparr>rc_capped := True\<rparr>)))
        else cast_write_line J io kind data r)"

definition write_output :: "cast_lib \<Rightarrow> cast_io \<Rightarrow> string \<Rightarrow> recorder \<Rightarrow> cast_error option \<times> recorder" where
  "write_output J io data r = cast_write J io ''o'' data r"

definition write_input :: "cast_lib \<Rightarrow> cast_io \<Rightarrow> string \<Rightarrow> recorder \<Rightarrow> cast_error option \<times> recorder" where
  "write_input J io data r = cast_write J io ''i'' data r"

definition write_stderr :: "cast_lib \<Rightarrow> cast_io \<Rightarrow> string \<Rightarrow> recorder \<Rightarrow> cast_error option \<times> recorder" where
  "write_stderr J io data r = cast_write J io ''e'' data r"

lemmas cast_writes = write_output_def write_input_def write_stderr_def

section \<open>What a recording holds\<close>

text \<open>The data of an event as it is recorded.\<close>

definition masked :: "recorder \<Rightarrow> string \<Rightarrow> string" where
  "masked r data = (case rc_redactor r of None \<Rightarrow> data | Some f \<Rightarrow> f data)"

text \<open>A write leaves the settings of a recorder as they are and only appends to its file.\<close>

lemma cast_write_settings [simp]:
  "rc_open (snd (cast_write J io kind data r)) = rc_open r"
  "rc_started (snd (cast_write J io kind data r)) = rc_started r"
  "rc_redactor (snd (cast_write J io kind data r)) = rc_redactor r"
  "rc_max_bytes (snd (cast_write J io kind data r)) = rc_max_bytes r"
  by (simp_all add: cast_write_def cast_write_line_def Let_def split: write_result.splits)

lemma cast_write_appends: "prefix (rc_file r) (rc_file (snd (cast_write J io kind data r)))"
  by (auto simp: cast_write_def cast_write_line_def Let_def split: write_result.splits)

lemma cast_write_recorded:
  assumes "fst (cast_write J io kind data r) = None" and "rc_open r" and "data \<noteq> []"
  shows "rc_file (snd (cast_write J io kind data r)) = rc_file r @ event_line J (ci_now io) kind (masked r data) r"
  using assms by (auto simp: cast_write_def cast_write_line_def masked_def Let_def split: write_result.splits if_splits)

text \<open>
  The cap bounds a file: the counter stops at the first write that reaches the cap and the truncation note that
  follows it.
\<close>

definition cast_line_bound :: "cast_lib \<Rightarrow> recorder \<Rightarrow> int \<Rightarrow> bool" where
  "cast_line_bound J r b \<longleftrightarrow> rc_written r \<le> (if rc_capped r then rc_max_bytes r + 2 * b else rc_max_bytes r + b)
     \<and> (rc_capped r \<longrightarrow> rc_max_bytes r \<le> rc_written r)"

lemma cast_write_bound:
  assumes "cast_line_bound J r b" and "0 < rc_max_bytes r"
    and "int (length (event_line J (ci_now io) kind (masked r data) r)) \<le> b"
    and "int (length (event_line J (ci_now io) ''o'' (cap_note r) r)) \<le> b"
  shows "cast_line_bound J (snd (cast_write J io kind data r)) b"
proof -
  have "0 \<le> b" using assms(3) by simp
  then show ?thesis
    using assms
    by (auto simp: cast_line_bound_def cast_write_def cast_write_line_def Let_def masked_def event_line_def cap_note_def
        split: write_result.splits if_splits)
qed

end
