(* ===== verification/Remote_Exec.thy ===== *)
theory Remote_Exec
  imports Recording Cert_Authority
begin

text \<open>
  Running commands over SSH, \<open>internal/ssh\<close>: the chain of connections of \<open>Dial\<close>, one-shot commands with their capped
  output (\<open>run.go\<close>), and the shell that a session keeps open (\<open>shell.go\<close>), which finds the end of a command's output
  by a marker only it knows.

  The SSH library is an argument: which of its calls succeed, what a command writes and how it ends. What a shell
  session waits for is a list of events: lines from the reader goroutine, chunks the other goroutine drains from
  standard error, the end of the caller's context. The timer always fires, so the list ends where the time is up.
\<close>

section \<open>Captured output\<close>

abbreviation max_output_bytes :: int where "max_output_bytes \<equiv> 10485760"
abbreviation default_exec_timeout :: go_duration where "default_exec_timeout \<equiv> 10 * go_minute"

definition truncation_marker :: "int \<Rightarrow> string" where
  "truncation_marker limit = [newline] @ ''[output truncated: limit of '' @ int_decimal limit @ '' bytes exceeded]'' @ [newline]"

definition truncation_marker_len :: int where
  "truncation_marker_len = int (length (truncation_marker max_output_bytes))"

record limited_writer =
  lw_buf :: string
  lw_max :: int
  lw_truncated :: bool

definition new_writer :: "int \<Rightarrow> limited_writer" where
  "new_writer limit = \<lparr>lw_buf = [], lw_max = limit, lw_truncated = False\<rparr>"

text \<open>\<open>Write\<close>, which always reports the whole chunk as taken.\<close>

definition lw_write :: "string \<Rightarrow> limited_writer \<Rightarrow> limited_writer" where
  "lw_write p w =
     (let room = lw_max w - int (length (lw_buf w)) in
      if room \<le> 0 then (if p \<noteq> [] then w\<lparr>lw_truncated := True\<rparr> else w)
      else if room < int (length p) then w\<lparr>lw_buf := lw_buf w @ take (nat room) p, lw_truncated := True\<rparr>
      else w\<lparr>lw_buf := lw_buf w @ p\<rparr>)"

definition lw_output :: "limited_writer \<Rightarrow> string" where
  "lw_output w = (if \<not> lw_truncated w then lw_buf w else lw_buf w @ truncation_marker (lw_max w))"

definition captured :: "string list \<Rightarrow> string" where
  "captured chunks = lw_output (fold lw_write chunks (new_writer max_output_bytes))"

section \<open>Connections\<close>

record ssh_hop =
  ho_addr :: string
  ho_user :: string
  ho_host_key :: "string option"
  ho_private_key :: string
  ho_certificate :: "certificate option"

datatype dial_error = NoHops | NoHostKey string | KeySigner string | CertSigner string | Connecting string | Handshake string
  | HopTo string | HandshakeVia string

text \<open>Which calls of the SSH library and the network succeed; a connection of the chain is numbered by its hop.\<close>

record dial_env =
  de_key_signer :: "ssh_hop \<Rightarrow> bool"
  de_cert_signer :: "ssh_hop \<Rightarrow> bool"
  de_connect :: "nat \<Rightarrow> bool"
  de_handshake :: "nat \<Rightarrow> bool"

record ssh_conn =
  sc_client :: nat
  sc_closers :: "nat list"

definition hop_client_config :: "dial_env \<Rightarrow> ssh_hop \<Rightarrow> dial_error option" where
  "hop_client_config D h =
     (if ho_host_key h = None then Some (NoHostKey (ho_addr h))
      else if \<not> de_key_signer D h then Some (KeySigner (ho_addr h))
      else if \<not> de_cert_signer D h then Some (CertSigner (ho_addr h))
      else None)"

definition host_key_algorithms_for :: "string \<Rightarrow> string list" where
  "host_key_algorithms_for t =
     (if t = ''ssh-rsa'' then [''rsa-sha2-512'', ''rsa-sha2-256'', ''ssh-rsa'']
      else if t = ''ssh-rsa-cert-v01@openssh.com'' then
        [''rsa-sha2-512-cert-v01@openssh.com'', ''rsa-sha2-256-cert-v01@openssh.com'', ''ssh-rsa-cert-v01@openssh.com'']
      else [t])"

text \<open>The clients \<open>Close\<close> and \<open>closeAll\<close> close, in order: the target first, then the intermediaries from the inside out.\<close>

definition conn_close :: "ssh_conn \<Rightarrow> nat list" where
  "conn_close c = sc_client c # rev (sc_closers c)"

text \<open>The hops after the first one; the second component are the clients closed on the way.\<close>

fun dial_rest :: "dial_env \<Rightarrow> nat \<Rightarrow> ssh_conn \<Rightarrow> ssh_hop list \<Rightarrow> (dial_error + ssh_conn) \<times> nat list" where
  "dial_rest D i c [] = (Inr c, [])"
| "dial_rest D i c (h # hs) =
     (case hop_client_config D h of
        Some e \<Rightarrow> (Inl e, conn_close c)
      | None \<Rightarrow>
          (if \<not> de_connect D i then (Inl (HopTo (ho_addr h)), conn_close c)
           else if \<not> de_handshake D i then (Inl (HandshakeVia (ho_addr h)), conn_close c)
           else dial_rest D (Suc i) \<lparr>sc_client = i, sc_closers = sc_closers c @ [sc_client c]\<rparr> hs))"

definition ssh_dial :: "dial_env \<Rightarrow> ssh_hop list \<Rightarrow> (dial_error + ssh_conn) \<times> nat list" where
  "ssh_dial D hops =
     (case hops of
        [] \<Rightarrow> (Inl NoHops, [])
      | h # hs \<Rightarrow>
          (case hop_client_config D h of
             Some e \<Rightarrow> (Inl e, [])
           | None \<Rightarrow>
               (if \<not> de_connect D 0 then (Inl (Connecting (ho_addr h)), [])
                else if \<not> de_handshake D 0 then (Inl (Handshake (ho_addr h)), [])
                else dial_rest D 1 \<lparr>sc_client = 0, sc_closers = []\<rparr> hs)))"

section \<open>One command\<close>

record ssh_result =
  sr_stdout :: string
  sr_stderr :: string
  sr_exit_code :: int

record ssh_options =
  so_pty :: bool
  so_term :: string
  so_rows :: int
  so_cols :: int
  so_timeout :: go_duration
  so_stdin :: string

definition plain_options :: "bool \<Rightarrow> string \<Rightarrow> ssh_options" where
  "plain_options pty stdin = \<lparr>so_pty = pty, so_term = [], so_rows = 0, so_cols = 0, so_timeout = 0, so_stdin = stdin\<rparr>"

definition pty_params :: "ssh_options \<Rightarrow> string \<times> int \<times> int" where
  "pty_params opts = (if so_term opts = [] then ''xterm-256color'' else so_term opts,
     if so_rows opts = 0 then 40 else so_rows opts, if so_cols opts = 0 then 220 else so_cols opts)"

text \<open>How a command ended, and how waiting for it ended.\<close>

datatype run_end = RunOk | RunExit int | RunFailed
datatype wait_end = Completed run_end | ContextDone | TimedOut

datatype exec_error = SessionOpen | RequestPty | ExecContextDone | ExecTimeout go_duration | ExecFailed

text \<open>
  One exec channel: whether it opens, whether a terminal is granted, and for the command, terminal parameters and
  input it is given, the chunks written to both streams and the end of the wait.
\<close>

record exec_channel =
  xc_open :: bool
  xc_pty :: "string \<times> int \<times> int \<Rightarrow> bool"
  xc_run :: "string \<Rightarrow> bool \<Rightarrow> string \<Rightarrow> go_duration \<Rightarrow> string list \<times> string list \<times> wait_end"

definition finish_result :: "ssh_result \<Rightarrow> run_end \<Rightarrow> exec_error + ssh_result" where
  "finish_result res r = (case r of RunOk \<Rightarrow> Inr res | RunExit n \<Rightarrow> Inr (res\<lparr>sr_exit_code := n\<rparr>) | RunFailed \<Rightarrow> Inl ExecFailed)"

definition exec_once :: "exec_channel \<Rightarrow> string \<Rightarrow> ssh_options \<Rightarrow> exec_error + ssh_result" where
  "exec_once X command opts =
     (let timeout = (if so_timeout opts \<le> 0 then default_exec_timeout else so_timeout opts) in
      if \<not> xc_open X then Inl SessionOpen
      else if so_pty opts \<and> \<not> xc_pty X (pty_params opts) then Inl RequestPty
      else case xc_run X command (so_pty opts) (if so_pty opts then [] else so_stdin opts) timeout of
        (out, err, w) \<Rightarrow>
          (case w of
             ContextDone \<Rightarrow> Inl ExecContextDone
           | TimedOut \<Rightarrow> Inl (ExecTimeout timeout)
           | Completed r \<Rightarrow>
               finish_result \<lparr>sr_stdout = captured out, sr_stderr = (if so_pty opts then [] else captured err), sr_exit_code = 0\<rparr> r))"

section \<open>The shell of a session\<close>

abbreviation shell_reader_line_slack :: int where "shell_reader_line_slack \<equiv> 4096"
abbreviation marker_rc_var :: string where "marker_rc_var \<equiv> ''__infrabroker_rc''"

text \<open>\<open>syncBuf\<close>, the capture of standard error; its recorder is that of the shell.\<close>

record sync_buf =
  sb_buf :: string
  sb_truncated :: bool
  sb_strict :: bool
  sb_failed :: "cast_error option"

record shell_session =
  ss_broken :: bool
  ss_marker :: string
  ss_pty :: bool
  ss_recorder :: "recorder option"
  ss_record_strict :: bool
  ss_stderr :: "sync_buf option"
  ss_channel_closed :: bool
  ss_done :: bool
  ss_stdin :: string

datatype read_error = LineTooLong | ReadEof | ReadFailed

record line_res =
  lr_text :: string
  lr_err :: "read_error option"

datatype shell_event = LineArrives line_res cast_io | StderrArrives string cast_io | ContextEnds

datatype shell_error = Desynchronised | StrictRecording cast_error | WritingCommand | OutputLimit | ShellCancelled | ShellTimeout
  | BadMarker string | ReadInterrupted read_error | ShellSetup | Synchronising

definition set_recorder :: "recorder \<Rightarrow> bool \<Rightarrow> shell_session \<Rightarrow> shell_session" where
  "set_recorder r strict s = s\<lparr>ss_recorder := Some r, ss_record_strict := strict,
     ss_stderr := map_option (\<lambda>b. b\<lparr>sb_strict := strict\<rparr>) (ss_stderr s)\<rparr>"

definition sb_reset :: "sync_buf \<Rightarrow> sync_buf" where
  "sb_reset b = b\<lparr>sb_buf := [], sb_truncated := False\<rparr>"

definition sb_output :: "sync_buf \<Rightarrow> string" where
  "sb_output b = (if \<not> sb_truncated b then sb_buf b
     else sb_buf b @ [newline] @ ''[stderr truncated: limit of '' @ int_decimal max_output_bytes @ '' bytes exceeded]'' @ [newline])"

text \<open>\<open>Write\<close> of the drain: what is kept is recorded too, and in strict mode the first failure to record stays.\<close>

definition stderr_write :: "cast_lib \<Rightarrow> cast_io \<Rightarrow> string \<Rightarrow> shell_session \<Rightarrow> shell_session" where
  "stderr_write J io p s =
     (case ss_stderr s of
        None \<Rightarrow> s
      | Some b \<Rightarrow>
          (let room = max_output_bytes - int (length (sb_buf b)) in
           if room \<le> 0 then s\<lparr>ss_stderr := Some (if p \<noteq> [] then b\<lparr>sb_truncated := True\<rparr> else b)\<rparr>
           else
             let kept = (if room < int (length p) then take (nat room) p else p);
                 b = b\<lparr>sb_buf := sb_buf b @ kept, sb_truncated := (sb_truncated b \<or> room < int (length p))\<rparr>
             in case ss_recorder s of
                  None \<Rightarrow> s\<lparr>ss_stderr := Some b\<rparr>
                | Some r \<Rightarrow>
                    (if kept = [] then s\<lparr>ss_stderr := Some b\<rparr>
                     else case write_stderr J io kept r of
                       (e, r) \<Rightarrow> s\<lparr>ss_recorder := Some r,
                         ss_stderr := Some (if e \<noteq> None \<and> sb_strict b \<and> sb_failed b = None then b\<lparr>sb_failed := e\<rparr> else b)\<rparr>)))"

definition shell_abort :: "shell_session \<Rightarrow> shell_session" where
  "shell_abort s = s\<lparr>ss_channel_closed := True, ss_broken := True\<rparr>"

text \<open>\<open>stderrRecordingFailure\<close>: the error, and the session it leaves.\<close>

definition stderr_recording_failure :: "shell_session \<Rightarrow> shell_error option \<times> shell_session" where
  "stderr_recording_failure s =
     (case (ss_stderr s, ss_record_strict s) of
        (Some b, True) \<Rightarrow> (case sb_failed b of None \<Rightarrow> (None, s) | Some e \<Rightarrow> (Some (StrictRecording e), shell_abort s))
      | _ \<Rightarrow> (None, s))"

definition marker_line :: "string \<Rightarrow> string" where
  "marker_line marker =
     (let q = [CHR 0x27]; dq = [CHR 0x22]; fmt = q @ ''%s:%d'' @ [CHR 0x5C] @ ''n'' @ q;
          arg = q @ marker @ q @ '' '' @ dq @ ''${'' @ marker_rc_var @ ''}'' @ dq
      in marker_rc_var @ ''=$?'' @ [newline] @ ''{ /usr/bin/printf '' @ fmt @ '' '' @ arg @ '' 2>/dev/null || /bin/printf '' @ fmt @ '' ''
         @ arg @ ''; }; unset '' @ marker_rc_var @ [newline])"

text \<open>\<open>strings.Index\<close> and \<open>strconv.Atoi\<close>.\<close>

fun index_from :: "nat \<Rightarrow> string \<Rightarrow> string \<Rightarrow> nat option" where
  "index_from i p [] = (if p = [] then Some i else None)"
| "index_from i p (c # s) = (if prefix p (c # s) then Some i else index_from (Suc i) p s)"

definition index_of :: "string \<Rightarrow> string \<Rightarrow> nat option" where
  "index_of s p = index_from 0 p s"

definition go_atoi :: "string \<Rightarrow> int option" where
  "go_atoi s =
     (let neg = (s \<noteq> [] \<and> hd s = CHR ''-''); digits = (if s \<noteq> [] \<and> (hd s = CHR ''-'' \<or> hd s = CHR ''+'') then tl s else s);
          n = (if neg then - int (decimal_value digits) else int (decimal_value digits))
      in if digits \<noteq> [] \<and> list_all is_digit_char digits \<and> - (2 ^ 63) \<le> n \<and> n < 2 ^ 63 then Some n else None)"

text \<open>\<open>appendOut\<close>: the output so far grows by the text, which is recorded.\<close>

definition append_out :: "cast_lib \<Rightarrow> cast_io \<Rightarrow> string \<Rightarrow> string \<Rightarrow> shell_session \<Rightarrow> (shell_error + string) \<times> shell_session" where
  "append_out J io text out s =
     (if text = [] then (Inr out, s)
      else if max_output_bytes < int (length out) + int (length text) then (Inl OutputLimit, shell_abort s)
      else case ss_recorder s of
        None \<Rightarrow> (Inr (out @ text), s)
      | Some r \<Rightarrow>
          (case write_output J io text r of
             (None, r) \<Rightarrow> (Inr (out @ text), s\<lparr>ss_recorder := Some r\<rparr>)
           | (Some e, r) \<Rightarrow>
               (if ss_record_strict s then (Inl (StrictRecording e), shell_abort (s\<lparr>ss_recorder := Some r\<rparr>))
                else (Inr (out @ text), s\<lparr>ss_recorder := Some r\<rparr>))))"

text \<open>The line with the marker: the exit code, once everything before the marker is captured.\<close>

definition finish_command :: "cast_lib \<Rightarrow> cast_io \<Rightarrow> string \<Rightarrow> nat \<Rightarrow> string \<Rightarrow> shell_session \<Rightarrow> (shell_error + ssh_result) \<times> shell_session" where
  "finish_command J io text idx out s =
     (case append_out J io (take idx text) out s of
        (Inl e, s) \<Rightarrow> (Inl e, s)
      | (Inr out, s) \<Rightarrow>
          (case go_atoi (trim_space (drop (idx + length (ss_marker s) + 1) text)) of
             None \<Rightarrow> (Inl (BadMarker text), shell_abort s)
           | Some code \<Rightarrow>
               (let err = (case ss_stderr s of None \<Rightarrow> [] | Some b \<Rightarrow> sb_output b) in
                case stderr_recording_failure s of
                  (Some e, s) \<Rightarrow> (Inl e, s)
                | (None, s) \<Rightarrow> (Inr \<lparr>sr_stdout = out, sr_stderr = err, sr_exit_code = code\<rparr>, s))))"

text \<open>The loop of \<open>Exec\<close>: its result, the events it has not met, the session.\<close>

fun shell_loop :: "cast_lib \<Rightarrow> string \<Rightarrow> shell_event list \<Rightarrow> shell_session \<Rightarrow> (shell_error + ssh_result) \<times> shell_event list \<times> shell_session" where
  "shell_loop J out [] s = (Inl ShellTimeout, [], shell_abort s)"
| "shell_loop J out (ContextEnds # es) s = (Inl ShellCancelled, es, shell_abort s)"
| "shell_loop J out (StderrArrives p io # es) s = shell_loop J out es (stderr_write J io p s)"
| "shell_loop J out (LineArrives lr io # es) s =
     (if lr_err lr = Some LineTooLong then (Inl OutputLimit, es, shell_abort s)
      else case index_of (lr_text lr) (ss_marker s @ '':'') of
        Some idx \<Rightarrow> (case finish_command J io (lr_text lr) idx out s of (r, s) \<Rightarrow> (r, es, s))
      | None \<Rightarrow>
          (case append_out J io (lr_text lr) out s of
             (Inl e, s) \<Rightarrow> (Inl e, es, s)
           | (Inr out, s) \<Rightarrow> (case lr_err lr of Some e \<Rightarrow> (Inl (ReadInterrupted e), es, s) | None \<Rightarrow> shell_loop J out es s)))"

text \<open>
  \<open>Exec\<close>. \<open>io\<close> serves the record of the command; \<open>written\<close> is how much of the line reaches the shell's input,
  \<^term>\<open>None\<close> for all of it.
\<close>

definition shell_exec :: "cast_lib \<Rightarrow> cast_io \<Rightarrow> nat option \<Rightarrow> string \<Rightarrow> shell_event list \<Rightarrow> shell_session \<Rightarrow>
    (shell_error + ssh_result) \<times> shell_event list \<times> shell_session" where
  "shell_exec J io written command es s =
     (if ss_broken s then (Inl Desynchronised, es, s)
      else case stderr_recording_failure s of
        (Some e, s) \<Rightarrow> (Inl e, es, s)
      | (None, s) \<Rightarrow>
          (let s = s\<lparr>ss_stderr := map_option sb_reset (ss_stderr s)\<rparr>;
               (e, s) = (case ss_recorder s of
                  None \<Rightarrow> (None, s)
                | Some r \<Rightarrow>
                    (if command = '':'' then (None, s)
                     else case write_input J io (command @ [newline]) r of (e, r) \<Rightarrow> (e, s\<lparr>ss_recorder := Some r\<rparr>)))
           in case (e, ss_record_strict s) of
                (Some e, True) \<Rightarrow> (Inl (StrictRecording e), es, shell_abort s)
              | _ \<Rightarrow>
                  (let line = command @ [newline] @ marker_line (ss_marker s) in
                   case written of
                     Some n \<Rightarrow> (Inl WritingCommand, es, s\<lparr>ss_stdin := ss_stdin s @ take n line\<rparr>)
                   | None \<Rightarrow> shell_loop J [] es (s\<lparr>ss_stdin := ss_stdin s @ line\<rparr>))))"

definition shell_close :: "shell_session \<Rightarrow> shell_session" where
  "shell_close s = s\<lparr>ss_done := True, ss_channel_closed := True\<rparr>"

text \<open>
  The reader goroutine: lines assembled from the fragments \<open>bufio.Reader.ReadLine\<close> delivers, until the stream ends or
  a line outgrows the limit.
\<close>

datatype read_fragment = Fragment string bool | ReadEnd read_error

fun shell_reader :: "string \<Rightarrow> read_fragment list \<Rightarrow> line_res list" where
  "shell_reader line [] = []"
| "shell_reader line (ReadEnd e # fs) = [\<lparr>lr_text = line, lr_err = Some e\<rparr>]"
| "shell_reader line (Fragment frag is_prefix # fs) =
     (if frag \<noteq> [] \<and> max_output_bytes + shell_reader_line_slack < int (length line) + int (length frag)
      then [\<lparr>lr_text = [], lr_err = Some LineTooLong\<rparr>]
      else if is_prefix then shell_reader (line @ frag) fs
      else \<lparr>lr_text = line @ frag @ [newline], lr_err = None\<rparr> # shell_reader [] fs)"

text \<open>
  \<open>OpenShell\<close> and \<open>OpenShellPTY\<close>: \<open>setup_ok\<close> says whether every call up to the start of the given command succeeds,
  \<open>random\<close> are the hexadecimal digits of the marker. A first empty command synchronises with the shell.
\<close>

definition new_shell :: "string \<Rightarrow> bool \<Rightarrow> shell_session" where
  "new_shell random pty = \<lparr>ss_broken = False, ss_marker = ''__BRK_'' @ random @ ''__'', ss_pty = pty, ss_recorder = None,
     ss_record_strict = False,
     ss_stderr = (if pty then None else Some \<lparr>sb_buf = [], sb_truncated = False, sb_strict = False, sb_failed = None\<rparr>),
     ss_channel_closed = False, ss_done = False, ss_stdin = []\<rparr>"

definition synchronise :: "cast_lib \<Rightarrow> cast_io \<Rightarrow> nat option \<Rightarrow> shell_event list \<Rightarrow> shell_session \<Rightarrow> shell_error + shell_session" where
  "synchronise J io written es s =
     (case shell_exec J io written '':'' es s of (Inl e, es, s) \<Rightarrow> Inl Synchronising | (Inr r, es, s) \<Rightarrow> Inr s)"

definition open_shell :: "cast_lib \<Rightarrow> (string \<Rightarrow> bool) \<Rightarrow> string \<Rightarrow> cast_io \<Rightarrow> nat option \<Rightarrow> shell_event list \<Rightarrow> string \<Rightarrow>
    shell_error + shell_session" where
  "open_shell J setup_ok random io written es shell_cmd =
     (if \<not> setup_ok (if shell_cmd = [] then ''/bin/sh'' else shell_cmd) then Inl ShellSetup
      else synchronise J io written es (new_shell random False))"

definition open_shell_pty :: "cast_lib \<Rightarrow> (string \<Rightarrow> bool) \<Rightarrow> bool \<Rightarrow> string \<Rightarrow> cast_io \<Rightarrow> nat option \<Rightarrow> shell_event list \<Rightarrow> string \<Rightarrow>
    shell_error + shell_session" where
  "open_shell_pty J setup_ok init_ok random io written es shell_cmd =
     (let q = [CHR 0x27, CHR 0x27];
          init = ''stty -echo 2>/dev/null; PS1='' @ q @ ''; PS2='' @ q @ [newline]
      in if \<not> setup_ok (if shell_cmd = [] then ''/bin/sh'' else shell_cmd) then Inl ShellSetup
         else if \<not> init_ok then Inl ShellSetup
         else synchronise J io written es ((new_shell random True)\<lparr>ss_stdin := init\<rparr>))"

section \<open>Captured output is complete or says so\<close>

definition holds_prefix :: "int \<Rightarrow> string \<Rightarrow> limited_writer \<Rightarrow> bool" where
  "holds_prefix limit t w \<longleftrightarrow> lw_max w = limit \<and> lw_buf w = take (nat limit) t \<and> lw_truncated w = (limit < int (length t))"

lemma lw_write_prefix:
  assumes "holds_prefix limit t w" and "0 \<le> limit"
  shows "holds_prefix limit (t @ p) (lw_write p w)"
proof (cases "limit \<le> int (length t)")
  case True
  then have "int (length (lw_buf w)) = limit" using assms by (simp add: holds_prefix_def)
  then show ?thesis using assms True by (auto simp: holds_prefix_def lw_write_def)
next
  case False
  then have "lw_buf w = t" "\<not> lw_truncated w" "lw_max w = limit" using assms by (auto simp: holds_prefix_def)
  then show ?thesis using assms(2) False
    by (auto simp: holds_prefix_def lw_write_def Let_def nat_diff_distrib)
qed

lemma captured_state: "0 \<le> limit \<Longrightarrow> holds_prefix limit t w \<Longrightarrow> holds_prefix limit (t @ concat chunks) (fold lw_write chunks w)"
proof (induction chunks arbitrary: t w)
  case (Cons p chunks)
  then show ?case using Cons.IH [OF Cons.prems(1) lw_write_prefix [OF Cons.prems(2,1)]] by simp
qed simp

lemma captured_eq:
  "captured chunks = (if int (length (concat chunks)) \<le> max_output_bytes then concat chunks
     else take (nat max_output_bytes) (concat chunks) @ truncation_marker max_output_bytes)"
  using captured_state [of max_output_bytes "[]" "new_writer max_output_bytes" chunks]
  by (auto simp: captured_def lw_output_def holds_prefix_def new_writer_def)

lemma captured_complete:
  assumes "int (length (captured chunks)) \<le> max_output_bytes - truncation_marker_len"
  shows "captured chunks = concat chunks"
proof (rule ccontr)
  assume "captured chunks \<noteq> concat chunks"
  then have "captured chunks = take (nat max_output_bytes) (concat chunks) @ truncation_marker max_output_bytes"
    and "max_output_bytes < int (length (concat chunks))" by (auto simp: captured_eq split: if_splits)
  then have "int (length (captured chunks)) = max_output_bytes + truncation_marker_len"
    by (simp add: truncation_marker_len_def)
  moreover have "0 < truncation_marker_len" by (simp add: truncation_marker_len_def truncation_marker_def)
  ultimately show False using assms by simp
qed

section \<open>Connections are pinned and not leaked\<close>

definition hop_opens :: "dial_env \<Rightarrow> nat \<Rightarrow> ssh_hop \<Rightarrow> bool" where
  "hop_opens D i h \<longleftrightarrow> hop_client_config D h = None \<and> de_connect D i \<and> de_handshake D i"

lemma dial_rest_spec:
  assumes "dial_rest D i c hs = (r, cl)" and "conn_close c = rev [0..<i]" and "0 < i"
  shows "(\<exists>c'. r = Inr c' \<and> cl = [] \<and> conn_close c' = rev [0..<i + length hs] \<and> (\<forall>k < length hs. hop_opens D (i + k) (hs ! k)))
    \<or> (\<exists>e k. r = Inl e \<and> k < length hs \<and> cl = rev [0..<i + k] \<and> \<not> hop_opens D (i + k) (hs ! k)
         \<and> (\<forall>j < k. hop_opens D (i + j) (hs ! j)))"
  using assms
proof (induction D i c hs rule: dial_rest.induct)
  case (2 D i c h hs)
  let ?c = "\<lparr>sc_client = i, sc_closers = sc_closers c @ [sc_client c]\<rparr>"
  show ?case
  proof (cases "hop_opens D i h")
    case False
    then have "\<exists>e. r = Inl e \<and> cl = rev [0..<i]"
      using 2(2,3) by (auto simp: hop_opens_def split: option.splits if_splits)
    then show ?thesis using False by (intro disjI2) (force intro: exI [of _ 0])
  next
    case True
    have c': "conn_close ?c = rev [0..<Suc i]" using 2(3) by (simp add: conn_close_def)
    have rest: "dial_rest D (Suc i) ?c hs = (r, cl)" using 2(2) True by (simp add: hop_opens_def)
    have nth: "hop_opens D (i + k) ((h # hs) ! k) = (if k = 0 then True else hop_opens D (Suc i + (k - 1)) (hs ! (k - 1)))" for k
      using True by (cases k) auto
    from 2(1) [OF _ _ _ rest c'] True consider
        (ok) c' where "r = Inr c'" "cl = []" "conn_close c' = rev [0..<Suc i + length hs]"
          "\<forall>k < length hs. hop_opens D (Suc i + k) (hs ! k)"
      | (bad) e k where "r = Inl e" "k < length hs" "cl = rev [0..<Suc i + k]" "\<not> hop_opens D (Suc i + k) (hs ! k)"
          "\<forall>j < k. hop_opens D (Suc i + j) (hs ! j)"
      by (auto simp: hop_opens_def)
    then show ?thesis
    proof cases
      case ok
      then show ?thesis using nth by (intro disjI1) (auto simp: less_Suc_eq_0_disj)
    next
      case bad
      then show ?thesis using nth by (intro disjI2 exI [of _ e] exI [of _ "Suc k"]) (auto simp: less_Suc_eq_0_disj)
    qed
  qed
qed auto

lemma hop_opens_pinned: "hop_opens D i h \<Longrightarrow> ho_host_key h \<noteq> None"
  by (auto simp: hop_opens_def hop_client_config_def split: if_splits)

text \<open>
  A connection chain is established only when every hop opens, with its host key pinned; closing it closes the
  target first and then each bastion from the inside out. When a hop fails, every connection opened before it is
  closed in that order and none is left behind.
\<close>

theorem dial_pinned_and_clean:
  assumes "ssh_dial D hops = (r, closed)"
  shows "case r of
      Inr c \<Rightarrow> closed = [] \<and> conn_close c = rev [0..<length hops] \<and> hops \<noteq> []
        \<and> (\<forall>i < length hops. hop_opens D i (hops ! i) \<and> ho_host_key (hops ! i) \<noteq> None)
    | Inl e \<Rightarrow> hops = [] \<and> closed = []
        \<or> (\<exists>k < length hops. closed = rev [0..<k] \<and> \<not> hop_opens D k (hops ! k) \<and> (\<forall>i < k. hop_opens D i (hops ! i)))"
proof (cases hops)
  case (Cons h hs)
  show ?thesis
  proof (cases "hop_opens D 0 h")
    case False
    then show ?thesis using assms Cons
      by (auto simp: ssh_dial_def hop_opens_def split: option.splits if_splits sum.splits)
  next
    case True
    then have "dial_rest D 1 \<lparr>sc_client = 0, sc_closers = []\<rparr> hs = (r, closed)"
      using assms Cons by (simp add: ssh_dial_def hop_opens_def)
    moreover have "conn_close \<lparr>sc_client = 0, sc_closers = []\<rparr> = rev [0..<1]" by (simp add: conn_close_def)
    ultimately show ?thesis
      using dial_rest_spec [of D 1 "\<lparr>sc_client = 0, sc_closers = []\<rparr>" hs r closed]
    proof (elim disjE exE conjE meta_impE)
      fix c' assume "r = Inr c'" "closed = []" "conn_close c' = rev [0..<1 + length hs]" "\<forall>k < length hs. hop_opens D (1 + k) (hs ! k)"
      then show ?thesis using True Cons hop_opens_pinned by (fastforce simp: less_Suc_eq_0_disj)
    next
      fix e k assume r: "r = Inl e" and "k < length hs" "closed = rev [0..<1 + k]" "\<not> hop_opens D (1 + k) (hs ! k)"
        "\<forall>j < k. hop_opens D (1 + j) (hs ! j)"
      then have "Suc k < length hops" "closed = rev [0..<Suc k]" "\<not> hop_opens D (Suc k) (hops ! Suc k)"
        "\<forall>i < Suc k. hop_opens D i (hops ! i)" using True Cons by (auto simp: less_Suc_eq_0_disj)
      then show ?thesis using r by auto
    qed simp_all
  qed
qed (use assms in \<open>auto simp: ssh_dial_def\<close>)

section \<open>The output of a command is its own\<close>

lemma stderr_write_keeps [simp]:
  "ss_marker (stderr_write J io p s) = ss_marker s" "ss_broken (stderr_write J io p s) = ss_broken s"
  "ss_channel_closed (stderr_write J io p s) = ss_channel_closed s" "ss_stdin (stderr_write J io p s) = ss_stdin s"
  "ss_record_strict (stderr_write J io p s) = ss_record_strict s"
  by (auto simp: stderr_write_def Let_def split: option.splits prod.splits)

lemma append_out_Inr:
  assumes "append_out J io text out s = (Inr out', s')"
  shows "out' = out @ text \<and> ss_marker s' = ss_marker s \<and> ss_broken s' = ss_broken s \<and> ss_stdin s' = ss_stdin s
    \<and> ss_stderr s' = ss_stderr s \<and> ss_record_strict s' = ss_record_strict s \<and> ss_channel_closed s' = ss_channel_closed s"
  using assms by (auto simp: append_out_def split: if_splits option.splits prod.splits)

lemma append_out_Inl: "append_out J io text out s = (Inl e, s') \<Longrightarrow> ss_broken s' \<and> ss_channel_closed s' \<and> ss_stdin s' = ss_stdin s"
  by (auto simp: append_out_def shell_abort_def split: if_splits option.splits prod.splits)

lemma recording_failure_cases:
  "stderr_recording_failure s = (r, s') \<Longrightarrow>
   (r = None \<and> s' = s) \<or> (\<exists>e. r = Some (StrictRecording e) \<and> s' = shell_abort s)"
  by (auto simp: stderr_recording_failure_def split: option.splits bool.splits prod.splits)

lemma finish_command_Inr:
  assumes "finish_command J io text idx out s = (Inr res, s')"
  shows "sr_stdout res = out @ take idx text \<and> ss_broken s' = ss_broken s \<and> ss_stdin s' = ss_stdin s
    \<and> ss_record_strict s' = ss_record_strict s
    \<and> go_atoi (trim_space (drop (idx + length (ss_marker s) + 1) text)) = Some (sr_exit_code res)"
  using assms
  by (auto simp: finish_command_def Let_def split: prod.splits sum.splits option.splits
      dest!: append_out_Inr recording_failure_cases)

lemma finish_command_Inl: "finish_command J io text idx out s = (Inl e, s') \<Longrightarrow> ss_broken s' \<and> ss_channel_closed s' \<and> ss_stdin s' = ss_stdin s"
  by (auto simp: finish_command_def Let_def shell_abort_def split: prod.splits sum.splits option.splits
      dest!: append_out_Inl append_out_Inr recording_failure_cases)

text \<open>The text of the lines among some events, and whether a line carries the marker.\<close>

definition line_texts :: "shell_event list \<Rightarrow> string" where
  "line_texts es = concat (map (\<lambda>e. case e of LineArrives lr io \<Rightarrow> lr_text lr | _ \<Rightarrow> []) es)"

definition before_marker :: "string \<Rightarrow> shell_event \<Rightarrow> bool" where
  "before_marker marker e \<longleftrightarrow> (case e of LineArrives lr io \<Rightarrow> lr_err lr = None \<and> index_of (lr_text lr) (marker @ '':'') = None
     | StderrArrives p io \<Rightarrow> True | ContextEnds \<Rightarrow> False)"

lemma before_marker_simps [simp]:
  "before_marker m (LineArrives lr io) \<longleftrightarrow> lr_err lr = None \<and> index_of (lr_text lr) (m @ '':'') = None"
  "before_marker m (StderrArrives p io)" "\<not> before_marker m ContextEnds"
  by (simp_all add: before_marker_def)

lemma line_texts_simps [simp]:
  "line_texts [] = []" "line_texts (LineArrives lr io # es) = lr_text lr @ line_texts es"
  "line_texts (StderrArrives p io # es) = line_texts es" "line_texts (ContextEnds # es) = line_texts es"
  by (simp_all add: line_texts_def)

lemma shell_loop_Inr:
  assumes "shell_loop J out es s = (Inr res, es', s')"
  shows "\<exists>pre lr io idx. es = pre @ LineArrives lr io # es' \<and> list_all (before_marker (ss_marker s)) pre
    \<and> index_of (lr_text lr) (ss_marker s @ '':'') = Some idx \<and> sr_stdout res = out @ line_texts pre @ take idx (lr_text lr)
    \<and> go_atoi (trim_space (drop (idx + length (ss_marker s) + 1) (lr_text lr))) = Some (sr_exit_code res)
    \<and> ss_broken s' = ss_broken s \<and> ss_stdin s' = ss_stdin s"
  using assms
proof (induction J out es s rule: shell_loop.induct)
  case (3 J out p io es s)
  then obtain pre lr io' idx where "es = pre @ LineArrives lr io' # es'" "list_all (before_marker (ss_marker s)) pre"
    "index_of (lr_text lr) (ss_marker s @ '':'') = Some idx" "sr_stdout res = out @ line_texts pre @ take idx (lr_text lr)"
    "go_atoi (trim_space (drop (idx + length (ss_marker s) + 1) (lr_text lr))) = Some (sr_exit_code res)"
    "ss_broken s' = ss_broken s" "ss_stdin s' = ss_stdin s" by fastforce
  then show ?case by (intro exI [of _ "StderrArrives p io # pre"]) auto
next
  case (4 J out lr io es s)
  show ?case
  proof (cases "index_of (lr_text lr) (ss_marker s @ '':'')")
    case (Some idx)
    then show ?thesis using 4(2)
      by (intro exI [of _ "[]"] exI [of _ lr] exI [of _ io] exI [of _ idx])
        (auto split: if_splits prod.splits dest!: finish_command_Inr)
  next
    case None
    with 4(2) obtain out1 s1 where a: "append_out J io (lr_text lr) out s = (Inr out1, s1)" "lr_err lr = None"
      and rest: "shell_loop J out1 es s1 = (Inr res, es', s')"
      by (auto split: if_splits prod.splits sum.splits option.splits)
    note keep = append_out_Inr [OF a(1)]
    from 4(1) [OF _ None a(1) [symmetric] refl a(2) rest] a(2) obtain pre lr' io' idx where
      "es = pre @ LineArrives lr' io' # es'" "list_all (before_marker (ss_marker s)) pre"
      "index_of (lr_text lr') (ss_marker s @ '':'') = Some idx" "sr_stdout res = out1 @ line_texts pre @ take idx (lr_text lr')"
      "go_atoi (trim_space (drop (idx + length (ss_marker s) + 1) (lr_text lr'))) = Some (sr_exit_code res)"
      "ss_broken s' = ss_broken s" "ss_stdin s' = ss_stdin s" using keep by auto
    then show ?thesis using keep a(2) None
      by (intro exI [of _ "LineArrives lr io # pre"]) auto
  qed
qed auto

lemma shell_loop_Inl:
  "shell_loop J out es s = (Inl e, es', s') \<Longrightarrow> ss_broken s' \<and> ss_channel_closed s' \<or> (\<exists>err. e = ReadInterrupted err)"
proof (induction J out es s rule: shell_loop.induct)
  case (4 J out lr io es s)
  then show ?case
    by (auto simp: shell_abort_def split: if_splits option.splits prod.splits sum.splits dest!: finish_command_Inl append_out_Inl)
qed (auto simp: shell_abort_def)

text \<open>
  C20: What a shell session returns for a command is what the shell printed for that command. When a command returns
  a result, its line and the marker line were sent whole; the events split at the first line with the private
  marker; the output is every line before it and the text in front of the marker; the exit code is the number after
  it; the events behind that line are left for the next command; and the session stays usable.
\<close>

theorem shell_output_exact:
  assumes "shell_exec J io written command es s = (Inr res, es', s')"
  shows "\<exists>pre lr io' idx. es = pre @ LineArrives lr io' # es' \<and> list_all (before_marker (ss_marker s)) pre
    \<and> index_of (lr_text lr) (ss_marker s @ '':'') = Some idx
    \<and> sr_stdout res = line_texts pre @ take idx (lr_text lr)
    \<and> go_atoi (trim_space (drop (idx + length (ss_marker s) + 1) (lr_text lr))) = Some (sr_exit_code res)
    \<and> \<not> ss_broken s \<and> \<not> ss_broken s' \<and> ss_stdin s' = ss_stdin s @ command @ [newline] @ marker_line (ss_marker s)"
  using assms
  by (auto simp: shell_exec_def Let_def split: if_splits option.splits prod.splits bool.splits
      dest!: shell_loop_Inr recording_failure_cases)

text \<open>
  A command that does not reach its marker never leaves its output for the next one. When a command fails after
  it was sent, other than by the end of the stream, its channel is closed and every later command on that
  session is refused, nothing of it being sent.
\<close>

theorem shell_failure_is_final:
  assumes "shell_exec J io written command es s = (Inl e, es', s')"
    and "e \<noteq> WritingCommand" and "\<forall>err. e \<noteq> ReadInterrupted err"
  shows "ss_broken s' \<and> (e = Desynchronised \<or> ss_channel_closed s')
    \<and> shell_exec J io' written' command' es'' s' = (Inl Desynchronised, es'', s')"
proof -
  have "ss_broken s' \<and> (e = Desynchronised \<or> ss_channel_closed s')"
    using assms
    by (auto simp: shell_exec_def Let_def shell_abort_def split: if_splits option.splits prod.splits bool.splits
        dest!: shell_loop_Inl recording_failure_cases)
  then show ?thesis by (simp add: shell_exec_def)
qed

section \<open>Strict recordings\<close>

type_synonym cast_event = "go_time \<times> string \<times> string"

definition cast_events :: "cast_lib \<Rightarrow> recorder \<Rightarrow> cast_event list \<Rightarrow> string" where
  "cast_events J r evs = concat (map (\<lambda>(t, kind, data). event_line J t kind data r) evs)"

definition event_data :: "string \<Rightarrow> cast_event list \<Rightarrow> string list" where
  "event_data k evs = map (\<lambda>(t, kind, data). data) (filter (\<lambda>(t, kind, data). kind = k) evs)"

lemma event_data_single [simp]: "event_data k [(t, kind, data)] = (if kind = k then [data] else [])"
  by (simp add: event_data_def)

lemma event_data_append [simp]: "event_data k (evs @ evs') = event_data k evs @ event_data k evs'"
  by (simp add: event_data_def)

definition recording_of :: "cast_lib \<Rightarrow> recorder \<Rightarrow> shell_session \<Rightarrow> cast_event list \<Rightarrow> bool" where
  "recording_of J r s evs \<longleftrightarrow> (\<exists>r'. ss_recorder s = Some r' \<and> rc_open r' \<and> rc_started r' = rc_started r
     \<and> rc_redactor r' = rc_redactor r \<and> rc_file r' = rc_file r @ cast_events J r evs)"

text \<open>
  The events of a recording, before masking, follow what arrived: in that order, each an output event with the
  time and the text of a line or the start of it, or an error event with a piece of standard error or the start
  of it; nothing else is among them.
\<close>

inductive heard :: "shell_event list \<Rightarrow> cast_event list \<Rightarrow> bool" where
  heard_nothing: "heard [] []"
| heard_no_more: "heard es evs \<Longrightarrow> heard (es @ [e]) evs"
| heard_line: "heard es evs \<Longrightarrow> prefix d (lr_text lr) \<Longrightarrow> heard (es @ [LineArrives lr io]) (evs @ [(ci_now io, ''o'', d)])"
| heard_error: "heard es evs \<Longrightarrow> prefix d p \<Longrightarrow> heard (es @ [StderrArrives p io]) (evs @ [(ci_now io, ''e'', d)])"

definition mask_events :: "recorder \<Rightarrow> cast_event list \<Rightarrow> cast_event list" where
  "mask_events r evs = map (\<lambda>(t, kind, data). (t, kind, masked r data)) evs"

lemma mask_events_simps [simp]: "mask_events r [] = []" "mask_events r (evs @ evs') = mask_events r evs @ mask_events r evs'"
  "mask_events r ((t, kind, data) # evs) = (t, kind, masked r data) # mask_events r evs"
  by (simp_all add: mask_events_def)

text \<open>The capture of standard error: what was kept, and whether that is all.\<close>

definition kept_error :: "sync_buf \<Rightarrow> string \<Rightarrow> bool" where
  "kept_error b err \<longleftrightarrow> sb_strict b \<and> sb_buf b = err \<and> int (length err) \<le> max_output_bytes
     \<and> (sb_truncated b \<longrightarrow> int (length err) = max_output_bytes)"

text \<open>Everything a running command has produced so far is in the recording, behind the record of the command.\<close>

definition faithful :: "cast_lib \<Rightarrow> recorder \<Rightarrow> cast_event \<Rightarrow> shell_session \<Rightarrow> string \<Rightarrow> shell_event list \<Rightarrow> cast_event list \<Rightarrow> bool" where
  "faithful J r e0 s out pre evs \<longleftrightarrow> recording_of J r s (e0 # mask_events r evs) \<and> ss_record_strict s \<and> heard pre evs
     \<and> out = concat (event_data ''o'' evs)
     \<and> (case ss_stderr s of None \<Rightarrow> event_data ''e'' evs = [] | Some b \<Rightarrow> kept_error b (concat (event_data ''e'' evs)))"

lemma recording_write:
  assumes "recording_of J r s evs" and "ss_recorder s = Some r'" and "cast_write J io kind data r' = (None, r'')" and "data \<noteq> []"
  shows "recording_of J r (s\<lparr>ss_recorder := Some r''\<rparr>) (evs @ [(ci_now io, kind, masked r data)])"
proof -
  have r': "rc_open r'" "rc_started r' = rc_started r" "rc_redactor r' = rc_redactor r" "rc_file r' = rc_file r @ cast_events J r evs"
    using assms(1,2) by (auto simp: recording_of_def)
  have snd: "r'' = snd (cast_write J io kind data r')" by (simp add: assms(3))
  have "rc_file r'' = rc_file r' @ event_line J (ci_now io) kind (masked r' data) r'"
    unfolding snd by (rule cast_write_recorded) (simp_all add: assms r')
  moreover have "event_line J (ci_now io) kind (masked r' data) r' = cast_events J r [(ci_now io, kind, masked r data)]"
    by (simp add: cast_events_def event_line_def masked_def r')
  ultimately show ?thesis
    using r' by (simp add: recording_of_def cast_events_def) (simp add: snd)
qed

lemma faithful_append:
  assumes "faithful J r e0 s out pre evs" and "append_out J io text out s = (Inr out', s')" and "prefix text (lr_text lr)"
  shows "\<exists>evs'. faithful J r e0 s' out' (pre @ [LineArrives lr io]) evs' \<and> ss_stderr s' = ss_stderr s"
proof (cases "text = []")
  case True
  then show ?thesis using assms(1,2) by (intro exI [of _ evs]) (auto simp: append_out_def faithful_def intro: heard_no_more)
next
  case False
  obtain r' where r': "ss_recorder s = Some r'" using assms(1) by (auto simp: faithful_def recording_of_def)
  have strict: "ss_record_strict s" using assms(1) by (simp add: faithful_def)
  obtain r'' where w: "cast_write J io ''o'' text r' = (None, r'')" and s': "s' = s\<lparr>ss_recorder := Some r''\<rparr>" and out': "out' = out @ text"
    using assms(2) False r' strict by (auto simp: append_out_def write_output_def split: if_splits option.splits prod.splits)
  let ?e = "(ci_now io, ''o'', text)"
  have "recording_of J r s' (e0 # mask_events r (evs @ [?e]))"
    using recording_write [OF _ r' w False] assms(1) by (fastforce simp: s' faithful_def)
  moreover have "heard (pre @ [LineArrives lr io]) (evs @ [?e])"
    using assms(1,3) by (auto simp: faithful_def intro: heard_line)
  ultimately show ?thesis
    using assms(1) by (intro exI [of _ "evs @ [?e]"]) (simp add: faithful_def s' out' split: option.splits)
qed

definition stderr_failed :: "shell_session \<Rightarrow> bool" where
  "stderr_failed s \<longleftrightarrow> ss_record_strict s \<and> (\<exists>b. ss_stderr s = Some b \<and> sb_failed b \<noteq> None)"

lemma stderr_write_failed: "stderr_failed s \<Longrightarrow> stderr_failed (stderr_write J io p s)"
  by (auto simp: stderr_failed_def stderr_write_def Let_def split: option.splits prod.splits)

lemma append_out_failed: "append_out J io text out s = (Inr out', s') \<Longrightarrow> stderr_failed s \<Longrightarrow> stderr_failed s'"
  by (auto simp: stderr_failed_def dest!: append_out_Inr)

lemma finish_command_failed: "finish_command J io text idx out s = (Inr res, s') \<Longrightarrow> \<not> stderr_failed s"
  by (auto simp: finish_command_def Let_def stderr_recording_failure_def split: prod.splits sum.splits option.splits bool.splits
      dest!: append_out_failed) (auto simp: stderr_failed_def)

lemma shell_loop_failed: "shell_loop J out es s = (Inr res, es', s') \<Longrightarrow> \<not> stderr_failed s"
proof (induction J out es s rule: shell_loop.induct)
  case (3 J out p io es s)
  then show ?case using stderr_write_failed by fastforce
next
  case (4 J out lr io es s)
  then show ?case
    by (auto split: if_splits option.splits prod.splits sum.splits dest: finish_command_failed append_out_failed)
qed auto

lemma faithful_stderr:
  assumes "faithful J r e0 s out pre evs"
  shows "stderr_failed (stderr_write J io p s) \<or> (\<exists>evs'. faithful J r e0 (stderr_write J io p s) out (pre @ [StderrArrives p io]) evs')"
proof (cases "ss_stderr s")
  case None
  then show ?thesis using assms by (intro disjI2 exI [of _ evs]) (auto simp: stderr_write_def faithful_def intro: heard_no_more)
next
  case (Some b)
  define room where "room = max_output_bytes - int (length (sb_buf b))"
  define kept where "kept = (if room < int (length p) then take (nat room) p else p)"
  let ?b = "b\<lparr>sb_buf := sb_buf b @ kept, sb_truncated := (sb_truncated b \<or> room < int (length p))\<rparr>"
  obtain r' where r': "ss_recorder s = Some r'" using assms(1) by (auto simp: faithful_def recording_of_def)
  have k: "kept_error b (concat (event_data ''e'' evs))" and strict: "sb_strict b" "ss_record_strict s" and more: "heard (pre @ [StderrArrives p io]) evs"
    using assms Some by (auto simp: faithful_def kept_error_def intro: heard_no_more)
  have eq: "stderr_write J io p s =
      (if room \<le> 0 then s\<lparr>ss_stderr := Some (if p \<noteq> [] then b\<lparr>sb_truncated := True\<rparr> else b)\<rparr>
       else if kept = [] then s\<lparr>ss_stderr := Some ?b\<rparr>
       else case write_stderr J io kept r' of
         (e, r) \<Rightarrow> s\<lparr>ss_recorder := Some r,
           ss_stderr := Some (if e \<noteq> None \<and> sb_strict ?b \<and> sb_failed ?b = None then ?b\<lparr>sb_failed := e\<rparr> else ?b)\<rparr>)"
    unfolding stderr_write_def Some r' option.case Let_def room_def kept_def by (rule refl)
  have grown: "kept_error ?b (concat (event_data ''e'' evs) @ kept)" if "0 < room"
    using k that by (auto simp: kept_error_def kept_def room_def)
  show ?thesis
  proof (cases "room \<le> 0 \<or> kept = []")
    case True
    let ?b2 = "if room \<le> 0 then if p \<noteq> [] then b\<lparr>sb_truncated := True\<rparr> else b else ?b"
    have "stderr_write J io p s = s\<lparr>ss_stderr := Some ?b2\<rparr>" using True by (auto simp: eq)
    moreover have "kept_error ?b2 (concat (event_data ''e'' evs))"
      using k grown True by (auto simp: kept_error_def room_def)
    ultimately show ?thesis using assms Some more
      by (intro disjI2 exI [of _ evs]) (auto simp: faithful_def recording_of_def)
  next
    case False
    obtain e r'' where w: "cast_write J io ''e'' kept r' = (e, r'')" by (cases "cast_write J io ''e'' kept r'")
    let ?b' = "if e \<noteq> None \<and> sb_strict ?b \<and> sb_failed ?b = None then ?b\<lparr>sb_failed := e\<rparr> else ?b"
    have s': "stderr_write J io p s = s\<lparr>ss_recorder := Some r'', ss_stderr := Some ?b'\<rparr>"
      using False w by (simp add: eq write_stderr_def)
    show ?thesis
    proof (cases e)
      case None
      let ?e = "(ci_now io, ''e'', kept)"
      have "recording_of J r (s\<lparr>ss_recorder := Some r''\<rparr>) (e0 # mask_events r (evs @ [?e]))"
        using recording_write [OF _ r' _ _] False w None assms by (fastforce simp: faithful_def)
      then have "recording_of J r (stderr_write J io p s) (e0 # mask_events r (evs @ [?e]))" by (simp add: s' recording_of_def)
      moreover have "ss_stderr (stderr_write J io p s) = Some ?b" by (simp add: s' None)
      moreover have "heard (pre @ [StderrArrives p io]) (evs @ [?e])"
        by (rule heard_error) (use assms in \<open>auto simp: faithful_def kept_def take_is_prefix\<close>)
      ultimately have "faithful J r e0 (stderr_write J io p s) out (pre @ [StderrArrives p io]) (evs @ [?e])"
        using assms grown False by (simp add: faithful_def s')
      then show ?thesis by blast
    next
      case (Some e')
      then show ?thesis using strict by (intro disjI1) (auto simp: stderr_failed_def s')
    qed
  qed
qed

lemma faithful_finish:
  assumes "faithful J r e0 s out pre evs" and "finish_command J io (lr_text lr) idx out s = (Inr res, s')"
  shows "\<exists>evs'. faithful J r e0 s' (sr_stdout res) (pre @ [LineArrives lr io]) evs'
    \<and> sr_stderr res = (case ss_stderr s' of None \<Rightarrow> [] | Some b \<Rightarrow> sb_output b)"
proof -
  obtain out1 s1 where a: "append_out J io (take idx (lr_text lr)) out s = (Inr out1, s1)"
    using assms(2) by (auto simp: finish_command_def split: prod.splits sum.splits)
  have "s' = s1" "sr_stdout res = out1" "sr_stderr res = (case ss_stderr s1 of None \<Rightarrow> [] | Some b \<Rightarrow> sb_output b)"
    using assms(2) a
    by (auto simp: finish_command_def Let_def split: prod.splits option.splits dest!: recording_failure_cases)
  then show ?thesis using faithful_append [OF assms(1) a take_is_prefix] by auto
qed

lemma faithful_loop:
  assumes "faithful J r e0 s out pre evs" and "shell_loop J out es s = (Inr res, es', s')"
  shows "\<exists>more evs'. es = more @ es' \<and> faithful J r e0 s' (sr_stdout res) (pre @ more) evs'
    \<and> sr_stderr res = (case ss_stderr s' of None \<Rightarrow> [] | Some b \<Rightarrow> sb_output b)"
  using assms(2,1)
proof (induction J out es s arbitrary: pre evs rule: shell_loop.induct)
  case (3 J out p io es s)
  have loop: "shell_loop J out es (stderr_write J io p s) = (Inr res, es', s')" using 3(2) by simp
  from shell_loop_failed [OF this] faithful_stderr [OF 3(3), of io p] obtain evs1 where
    "faithful J r e0 (stderr_write J io p s) out (pre @ [StderrArrives p io]) evs1" by auto
  from 3(1) [OF loop this] obtain more evs' where "es = more @ es'" "faithful J r e0 s' (sr_stdout res) ((pre @ [StderrArrives p io]) @ more) evs'"
    "sr_stderr res = (case ss_stderr s' of None \<Rightarrow> [] | Some b \<Rightarrow> sb_output b)" by blast
  then show ?case by (intro exI [of _ "StderrArrives p io # more"] exI [of _ evs']) simp
next
  case (4 J out lr io es s)
  show ?case
  proof (cases "index_of (lr_text lr) (ss_marker s @ '':'')")
    case (Some idx)
    then obtain s1 where fin: "finish_command J io (lr_text lr) idx out s = (Inr res, s')" "es' = es"
      using 4(2) by (auto split: if_splits prod.splits)
    from faithful_finish [OF 4(3) fin(1)] show ?thesis using fin(2) by (intro exI [of _ "[LineArrives lr io]"]) simp
  next
    case None
    with 4(2) obtain out1 s1 where a: "append_out J io (lr_text lr) out s = (Inr out1, s1)" "lr_err lr = None"
      and rest: "shell_loop J out1 es s1 = (Inr res, es', s')"
      by (auto split: if_splits prod.splits sum.splits option.splits)
    obtain evs1 where "faithful J r e0 s1 out1 (pre @ [LineArrives lr io]) evs1" using faithful_append [OF 4(3) a(1)] by auto
    from 4(1) [OF _ None a(1) [symmetric] refl a(2) rest this] a(2) obtain more evs' where
      "es = more @ es'" "faithful J r e0 s' (sr_stdout res) ((pre @ [LineArrives lr io]) @ more) evs'"
      "sr_stderr res = (case ss_stderr s' of None \<Rightarrow> [] | Some b \<Rightarrow> sb_output b)" by auto
    then show ?thesis by (intro exI [of _ "LineArrives lr io # more"] exI [of _ evs']) simp
  qed
qed auto

text \<open>
  C21: A strict recording is complete. In a session that records strictly, when a command other than the single
  colon (which the code never records) returns a result, the recording has grown by exactly these events: the
  command as an input event, and behind it, in the order in which they arrived and each masked by the redactor,
  output events whose texts make up the whole standard output of the result and error events whose texts make
  up its whole standard error, but for the note that tells a standard error cut at the limit.
\<close>

theorem strict_recording_complete:
  assumes "shell_exec J io written command es s = (Inr res, es', s')"
    and "ss_recorder s = Some r" and "rc_open r" and "ss_record_strict s" and "\<forall>b. ss_stderr s = Some b \<longrightarrow> sb_strict b"
    and "command \<noteq> '':''"
  shows "\<exists>pre r' evs. es = pre @ es' \<and> ss_recorder s' = Some r'
    \<and> rc_file r' = rc_file r @ cast_events J r (mask_events r ((ci_now io, ''i'', command @ [newline]) # evs))
    \<and> heard pre evs \<and> sr_stdout res = concat (event_data ''o'' evs)
    \<and> (sr_stderr res = concat (event_data ''e'' evs)
       \<or> int (length (concat (event_data ''e'' evs))) = max_output_bytes
         \<and> sr_stderr res = concat (event_data ''e'' evs) @ [newline] @ ''[stderr truncated: limit of '' @ int_decimal max_output_bytes
              @ '' bytes exceeded]'' @ [newline])"
proof -
  let ?e = "(ci_now io, ''i'', masked r (command @ [newline]))"
  obtain r1 s1 where w: "cast_write J io ''i'' (command @ [newline]) r = (None, r1)"
    and s1: "s1 = s\<lparr>ss_stderr := map_option sb_reset (ss_stderr s), ss_recorder := Some r1,
               ss_stdin := ss_stdin s @ command @ [newline] @ marker_line (ss_marker s)\<rparr>"
    and loop: "shell_loop J [] es s1 = (Inr res, es', s')"
    using assms
    by (auto simp: shell_exec_def Let_def write_input_def split: if_splits option.splits prod.splits bool.splits
        dest!: recording_failure_cases)
  have "recording_of J r s []" using assms(2,3) by (simp add: recording_of_def cast_events_def)
  then have "recording_of J r s1 [?e]"
    using recording_write [OF _ assms(2) w] by (simp add: recording_of_def s1)
  then have "faithful J r ?e s1 [] [] []"
    using assms(4,5) by (auto simp: faithful_def s1 sb_reset_def kept_error_def event_data_def intro: heard_nothing split: option.splits)
  from faithful_loop [OF this loop] obtain pre evs where es: "es = pre @ es'" and f: "faithful J r ?e s' (sr_stdout res) pre evs"
    and err: "sr_stderr res = (case ss_stderr s' of None \<Rightarrow> [] | Some b \<Rightarrow> sb_output b)" by auto
  obtain r' where "ss_recorder s' = Some r'" "rc_file r' = rc_file r @ cast_events J r (?e # mask_events r evs)"
    using f by (auto simp: faithful_def recording_of_def)
  moreover have "sr_stderr res = concat (event_data ''e'' evs)
       \<or> int (length (concat (event_data ''e'' evs))) = max_output_bytes
         \<and> sr_stderr res = concat (event_data ''e'' evs) @ [newline] @ ''[stderr truncated: limit of '' @ int_decimal max_output_bytes
              @ '' bytes exceeded]'' @ [newline]"
    using f err by (auto simp: faithful_def kept_error_def sb_output_def simp del: length_concat split: option.splits)
  ultimately show ?thesis using es f by (intro exI [of _ pre] exI [of _ r'] exI [of _ evs]) (simp add: faithful_def)
qed

section \<open>Examples\<close>

definition example_cast :: cast_lib where
  "example_cast = \<lparr>cl_header = (\<lambda>h. ch_title h), cl_event = (\<lambda>t kind data. kind @ ''|'' @ data)\<rparr>"

definition example_io :: "bool \<Rightarrow> cast_io" where
  "example_io ok = \<lparr>ci_now = 5, ci_write = (if ok then Written else WriteFailed 1)\<rparr>"

definition example_recorder :: recorder where
  "example_recorder = \<lparr>rc_open = True, rc_file = ''head'', rc_started = 0, rc_redactor = Some (\<lambda>d. if d = ''secret'' then ''***'' else d),
     rc_written = 4, rc_max_bytes = default_cast_bytes, rc_capped = False\<rparr>"

definition example_shell :: shell_session where
  "example_shell = set_recorder example_recorder True (new_shell ''ab'' False)"

text \<open>A line on standard error, one on standard output, and one that ends in the marker.\<close>

definition example_lines :: "shell_event list" where
  "example_lines = [StderrArrives ''oops'' (example_io True), LineArrives \<lparr>lr_text = ''hello'' @ [newline], lr_err = None\<rparr> (example_io True),
     LineArrives \<lparr>lr_text = ''secret__BRK_ab__:3'' @ [newline], lr_err = None\<rparr> (example_io True)]"

definition example_result :: ssh_result where
  "example_result = \<lparr>sr_stdout = ''hello'' @ [newline] @ ''secret'', sr_stderr = ''oops'', sr_exit_code = 3\<rparr>"

definition example_after :: shell_session where
  "example_after = snd (snd (shell_exec example_cast (example_io True) None ''id'' example_lines example_shell))"

lemma example_exec:
  "shell_exec example_cast (example_io True) None ''id'' example_lines example_shell = (Inr example_result, [], example_after)"
proof -
  let ?r = "shell_exec example_cast (example_io True) None ''id'' example_lines example_shell"
  have "fst ?r = Inr example_result" "fst (snd ?r) = []" by code_simp+
  then show ?thesis by (simp add: example_after_def prod_eq_iff)
qed

theorem shell_output_exact_witness:
  "ss_stdin example_after = ''id'' @ [newline] @ marker_line ''__BRK_ab__''
   \<and> (\<exists>pre lr io idx. example_lines = pre @ [LineArrives lr io] \<and> sr_stdout example_result = line_texts pre @ take idx (lr_text lr))"
  using shell_output_exact [OF example_exec] by (auto simp: example_shell_def set_recorder_def new_shell_def)

text \<open>Here the recording of the command fails.\<close>

lemma example_exec_unrecorded:
  "shell_exec example_cast (example_io False) None ''id'' example_lines example_shell
     = (Inl (StrictRecording CastWrite), example_lines,
        snd (snd (shell_exec example_cast (example_io False) None ''id'' example_lines example_shell)))"
proof -
  let ?r = "shell_exec example_cast (example_io False) None ''id'' example_lines example_shell"
  have "fst ?r = Inl (StrictRecording CastWrite)" "fst (snd ?r) = example_lines"
    by (simp_all add: shell_exec_def example_shell_def set_recorder_def new_shell_def stderr_recording_failure_def write_input_def
        cast_write_def cast_write_line_def example_recorder_def example_io_def Let_def)
  then show ?thesis by (simp add: prod_eq_iff)
qed

theorem shell_failure_is_final_witness:
  "fst (shell_exec example_cast (example_io True) None ''id'' example_lines
      (snd (snd (shell_exec example_cast (example_io False) None ''id'' example_lines example_shell)))) = Inl Desynchronised"
  using shell_failure_is_final [OF example_exec_unrecorded, of "example_io True" None "''id''" example_lines] by simp

theorem strict_recording_complete_witness:
  "\<exists>r' evs. ss_recorder example_after = Some r'
     \<and> rc_file r' = ''head'' @ cast_events example_cast example_recorder (mask_events example_recorder ((5, ''i'', ''id'' @ [newline]) # evs))
     \<and> heard example_lines evs \<and> concat (event_data ''e'' evs) = ''oops''"
  using strict_recording_complete [OF example_exec, of example_recorder]
  by (force simp: example_shell_def set_recorder_def new_shell_def example_recorder_def example_io_def example_result_def
      simp del: mask_events_simps length_concat)

text \<open>A chain of three hops whose last one does not answer.\<close>

definition example_dial :: dial_env where
  "example_dial = \<lparr>de_key_signer = (\<lambda>h. True), de_cert_signer = (\<lambda>h. True), de_connect = (\<lambda>i. i < 2), de_handshake = (\<lambda>i. True)\<rparr>"

definition example_hop :: "string \<Rightarrow> ssh_hop" where
  "example_hop addr = \<lparr>ho_addr = addr, ho_user = ''ops'', ho_host_key = Some ''key'', ho_private_key = [], ho_certificate = None\<rparr>"

lemma example_dialled: "ssh_dial example_dial [example_hop ''a'', example_hop ''b'', example_hop ''c''] = (Inl (HopTo ''c''), [1, 0])"
  by (simp add: ssh_dial_def example_dial_def example_hop_def hop_client_config_def conn_close_def)

theorem dial_pinned_and_clean_witness:
  "\<exists>k < 3. snd (ssh_dial example_dial [example_hop ''a'', example_hop ''b'', example_hop ''c'']) = rev [0..<k]"
  using dial_pinned_and_clean [OF example_dialled] unfolding example_dialled by (auto simp: numeral_3_eq_3)

end
