(* ===== verification/Broker.thy ===== *)
theory Broker
  imports Session_Pool Remote_Exec Remote_Client Elevation K8s_Action
begin

text \<open>
  The engine of the broker, \<open>internal/broker/engine.go\<close>: the host view it gets from the signer, the chain of bastions
  to a host, the certificates it asks for along the chain, one-shot commands, dry runs, the audit records of all of
  them and the polls behind the kill switch.

  \<open>broker_env\<close> is everything outside the engine. Its answers are indexed by the number of outside calls made
  so far, \<open>be_tick\<close>, so that no two calls have to be answered alike: the clock, the signer (an implementation of the
  interface \<open>Signer\<close>), key generation, the lists fetched from the signer, the operating system under the audit log,
  the SSH library. \<open>be_sent\<close> keeps what was sent to hosts, with the hops it went through. The text recorded
  for an error is the argument \<open>bv_error_text\<close>.
\<close>

section \<open>Data\<close>

record host_config =
  hc_addr :: string
  hc_user :: string
  hc_principal :: string
  hc_host_key :: string
  hc_jump :: string
  hc_source_address :: string
  hc_allow_sudo :: bool
  hc_allowed_sudo_users :: "string list"
  hc_allow_pty :: bool
  hc_allow_file_transfer :: bool
  hc_groups :: "string list"
  hc_allow_as_bastion :: bool
  hc_command_policy :: command_policy

text \<open>The fields of \<open>Config\<close> the engine reads; \<open>bc_signer\<close> is whether the \<open>signer\<close> block is present.\<close>

record broker_config =
  bc_signer :: bool
  bc_ca_key :: string
  bc_ca_keys :: "string list"
  bc_source_address :: string
  bc_max_ttl_seconds :: int
  bc_session_idle_seconds :: int
  bc_session_max_seconds :: int
  bc_recording_dir :: string
  bc_recording_strict :: bool
  bc_audit_fail_mode :: string
  bc_hosts :: "(string, host_config) go_map"
  bc_command_policies :: policy_library
  bc_group_policies :: group_policies
  bc_file_transfer_max_bytes :: int

record broker_caller =
  bk_id :: string
  bk_groups :: "string list option"
  bk_raw_token :: string
  bk_context :: string

record exec_options =
  xo_sudo :: bool
  xo_sudo_user :: string
  xo_pty :: bool
  xo_dry_run :: bool
  xo_approved :: bool
  xo_stdin :: string
  xo_file_transfer :: bool

definition no_options :: exec_options where
  "no_options = \<lparr>xo_sudo = False, xo_sudo_user = [], xo_pty = False, xo_dry_run = False, xo_approved = False, xo_stdin = [],
     xo_file_transfer = False\<rparr>"

record broker_result =
  bq_stdout :: string
  bq_stderr :: string
  bq_exit_code :: int
  bq_serial :: "64 word"
  bq_warnings :: "string list"
  bq_dry_run :: "dec_info option"

text \<open>The classes of a signing error that the engine tells apart, with the text of the error.\<close>

datatype sign_failure = SignerUnavailable string | K8sMintFailed string | CASignFailed string | SignRateLimited string | SignDenied string

record approval_required =
  ar_host :: string
  ar_rule :: string
  ar_elevation :: string
  ar_pty :: bool

datatype broker_error =
    CommandRequired
  | HostUnknown string
  | ChainUnknownHost string
  | BastionCycle string
  | HostListRefresh remote_error
  | KeyGeneration
  | SigningCert string sign_failure
  | SigningFailure sign_failure
  | UpstreamSign broker_error
  | ApprovalRequired approval_required
  | HostKeyInvalid string
  | ConnectionFailed dial_error
  | ExecutionFailed exec_error
  | AuditUnavailable
  | SessionHostUnknown string
  | InvalidMode string
  | ShellOpening shell_error
  | RecordingOpening cast_error
  | SessionLimit session_error
  | UnknownSession string
  | NotSessionOwner string
  | NewlinesNotAllowed
  | PTYTooLong int
  | PTYControlByte nat
  | ConnectivityPreflight broker_error
  | ConnectivityChanged string
  | BastionPreflight broker_error
  | BastionPreflightFor string broker_error
  | BastionNoDecision string
  | BastionDenied string string
  | BastionNeedsApproval string
  | PolicyPreflight broker_error
  | SessionCommandDenied string string
  | SessionNeedsApproval string
  | SessionShellFailed shell_error
  | SessionExecFailed exec_error
  | PathRequired
  | PathHasNul
  | PathHasNewline
  | PathUnsafe
  | ContentTooLarge int int
  | InvalidFileMode string
  | RemoteWriteFailed int string
  | RemoteReadFailed int string
  | FileTooLarge int
  | ClusterUnknown string
  | K8sInvalid k8s_error
  | ManifestRequired
  | K8sClientFailed
  | K8sCallFailed string string

text \<open>\<open>errors.Is(err, ErrUpstream)\<close>: an error that wraps another is what the other one is.\<close>

fun is_upstream :: "broker_error \<Rightarrow> bool" where
  "is_upstream (HostListRefresh e) = True"
| "is_upstream (UpstreamSign e) = True"
| "is_upstream (ConnectionFailed e) = True"
| "is_upstream (ExecutionFailed e) = True"
| "is_upstream (ShellOpening e) = True"
| "is_upstream (RecordingOpening e) = True"
| "is_upstream (SessionShellFailed e) = True"
| "is_upstream (SessionExecFailed e) = True"
| "is_upstream (ConnectivityPreflight e) = is_upstream e"
| "is_upstream (BastionPreflight e) = is_upstream e"
| "is_upstream (BastionPreflightFor n e) = is_upstream e"
| "is_upstream (PolicyPreflight e) = is_upstream e"
| "is_upstream e = False"

record sent_command =
  st_host :: string
  st_hops :: "ssh_hop list"
  st_command :: string

record broker_env =
  bv_now :: "nat \<Rightarrow> go_time"
  bv_sign :: "nat \<Rightarrow> intent \<Rightarrow> sign_failure + issued_remote"
  bv_keys :: "nat \<Rightarrow> (string \<times> string) option"
  bv_hosts :: "nat \<Rightarrow> remote_error + (string, wire_host_info) go_map"
  bv_clusters :: "nat \<Rightarrow> remote_error + (string, wire_cluster_info) go_map"
  bv_revocations :: "nat \<Rightarrow> remote_error + frozen_entry list"
  bv_audit :: audit_lib
  bv_io :: "nat \<Rightarrow> append_io"
  bv_parse_key :: "string \<Rightarrow> string option"
  bv_dial :: "nat \<Rightarrow> dial_env"
  bv_channel :: "nat \<Rightarrow> exec_channel"
  bv_session_id :: "nat \<Rightarrow> string"
  bv_shell_setup :: "nat \<Rightarrow> string \<Rightarrow> bool"
  bv_shell_init :: "nat \<Rightarrow> bool"
  bv_shell_random :: "nat \<Rightarrow> string"
  bv_cast :: cast_lib
  bv_cast_open :: "nat \<Rightarrow> bool"
  bv_cast_io :: "nat \<Rightarrow> cast_io"
  bv_shell_written :: "nat \<Rightarrow> nat option"
  bv_shell_events :: "nat \<Rightarrow> shell_event list"
  bv_sha256 :: "string \<Rightarrow> string"
  bv_go :: go_env
  bv_error_text :: "broker_error \<Rightarrow> string"

record engine =
  be_config :: broker_config
  be_remote :: bool
  be_audit_log :: audit_log
  be_fail_closed :: bool
  be_redactor :: "(string \<Rightarrow> string) option"
  be_max_ttl :: go_duration
  be_sessions :: session_manager
  be_shells :: "(string, shell_session) go_map"
  be_own_identity :: string
  be_rev_last_success :: int
  be_hosts :: "(string, wire_host_info) go_map"
  be_last_refresh :: "go_time option"
  be_clusters :: "(string, wire_cluster_info) go_map"
  be_key_cache :: "(string, string option) go_map"
  be_sent :: "sent_command list"
  be_tick :: nat

abbreviation local_caller :: string where "local_caller \<equiv> ''local''"
abbreviation host_refresh_coalesce :: go_duration where "host_refresh_coalesce \<equiv> 3 * go_second"
abbreviation approval_via_elicitation :: string where "approval_via_elicitation \<equiv> ''elicitation''"

text \<open>One more outside call has been made.\<close>

definition tick :: "engine \<Rightarrow> engine" where
  "tick e = e\<lparr>be_tick := Suc (be_tick e)\<rparr>"

section \<open>Configuration\<close>

definition elevation_label :: "exec_options \<Rightarrow> string" where
  "elevation_label opts = (if \<not> xo_sudo opts then [] else ''sudo:'' @ (if xo_sudo_user opts = [] then ''root'' else xo_sudo_user opts))"

definition host_command_policy_set :: "command_policy \<Rightarrow> bool" where
  "host_command_policy_set cp \<longleftrightarrow> cp_mode cp \<noteq> [] \<or> cp_enforcement cp \<noteq> [] \<or> cp_allow cp \<noteq> [] \<or> cp_deny cp \<noteq> []
     \<or> cp_require_approval cp \<noteq> [] \<or> cp_shell_parse cp \<noteq> None"

definition ignored_host_fields :: "host_config \<Rightarrow> string list" where
  "ignored_host_fields h =
     (if hc_principal h \<noteq> [] then [''principal''] else [])
     @ (if hc_source_address h \<noteq> [] then [''source_address''] else [])
     @ (if host_command_policy_set (hc_command_policy h) then [''command_policy''] else [])
     @ (if hc_allow_sudo h then [''allow_sudo''] else [])
     @ (if hc_allowed_sudo_users h \<noteq> [] then [''allowed_sudo_users''] else [])
     @ (if hc_allow_pty h then [''allow_pty''] else [])
     @ (if hc_allow_file_transfer h then [''allow_file_transfer''] else [])
     @ (if hc_allow_as_bastion h then [''allow_as_bastion''] else [])"

text \<open>\<open>ignoredRemoteFieldsWarning\<close>; its dash is the UTF-8 form of U+2014.\<close>

definition ignored_remote_fields_warning :: "broker_config \<Rightarrow> string" where
  "ignored_remote_fields_warning cfg =
     (if \<not> bc_signer cfg then []
      else
        let top = (if bc_ca_key cfg \<noteq> [] then [''ca_key''] else []) @ (if bc_ca_keys cfg \<noteq> [] then [''ca_keys''] else [])
              @ (if bc_command_policies cfg \<noteq> [] then [''command_policies''] else [])
              @ (if bc_group_policies cfg \<noteq> [] then [''group_command_policies''] else [])
              @ (if bc_source_address cfg \<noteq> [] then [''source_address''] else []);
            notes = List.map_filter (\<lambda>name. case map_of (bc_hosts cfg) name of
                None \<Rightarrow> None
              | Some h \<Rightarrow> (case ignored_host_fields h of [] \<Rightarrow> None | f \<Rightarrow> Some (name @ '': '' @ go_join f '', '')))
              (sort (map fst (bc_hosts cfg)))
        in if top = [] \<and> notes = [] then []
           else ''remote mode (signer block set): ignoring local-mode config '' @ map char_of [226 :: nat, 128, 148]
             @ (if top \<noteq> [] then '' '' @ go_join top '', '' else [])
             @ (if notes \<noteq> [] then (if top \<noteq> [] then '';'' else []) @ '' policy fields on '' @ nat_decimal (length notes)
                  @ '' host(s) ('' @ go_join notes ''; '' @ '')'' else [])
             @ ''. Host inventory and policy come from the signer.'')"

text \<open>\<open>policyFromHosts\<close>: a host is a bastion where the operator says so or another host jumps through it.\<close>

definition policy_from_hosts :: "broker_config \<Rightarrow> policy_table" where
  "policy_from_hosts cfg =
     (let targets = filter (\<lambda>j. j \<noteq> []) (map (\<lambda>(n, hc). hc_jump hc) (bc_hosts cfg))
      in map (\<lambda>(name, hc). (name,
           \<lparr>hp_addr = hc_addr hc, hp_user = hc_user hc, hp_host_key = hc_host_key hc, hp_jump = hc_jump hc,
            hp_principal = hc_principal hc,
            hp_source_address = (if hc_source_address hc \<noteq> [] then hc_source_address hc else bc_source_address cfg),
            hp_max_ttl = 0, hp_max_ttl_seconds = 0, hp_allow_as_bastion = (hc_allow_as_bastion hc \<or> name \<in> set targets),
            hp_allowed_callers = [], hp_allow_sudo = hc_allow_sudo hc, hp_allowed_sudo_users = hc_allowed_sudo_users hc,
            hp_allow_pty = hc_allow_pty hc, hp_allow_file_transfer = hc_allow_file_transfer hc, hp_groups = hc_groups hc,
            hp_sealed_exec = False, hp_command_policy = hc_command_policy hc, hp_policies = None\<rparr>)) (bc_hosts cfg))"

section \<open>Start\<close>

datatype engine_error = TransferLimitTooHigh int | SignerTLS | TTLOverCap int | LoadCAKeys | InvalidHostPolicy config_error | BrokerIdentity
  | AuditKeyUnreadable | AuditKeyShort | AuditLogOpen audit_error | RedactConfig | AuditFailMode string | InitialHosts remote_error
  | InitialClusters remote_error

text \<open>
  What starting an engine reads: the TLS material and the name in the client certificate, the CA keys, the audit key, the
  directory of the log, the compiled redactor (\<^term>\<open>None\<close> where its configuration does not compile), the first answers
  of the signer and the clock.
\<close>

record start_env =
  sx_tls_ok :: bool
  sx_ca_keys_ok :: bool
  sx_client_cn :: "string option"
  sx_audit_seed :: "string option"
  sx_audit_dir :: audit_dir
  sx_redactor :: "(string \<Rightarrow> string) option option"
  sx_now :: go_time

definition max_file_transfer_bytes :: int where
  "max_file_transfer_bytes = max_output_bytes - truncation_marker_len"

definition validate_file_transfer_max_bytes :: "broker_config \<Rightarrow> engine_error option" where
  "validate_file_transfer_max_bytes cfg =
     (if max_file_transfer_bytes < bc_file_transfer_max_bytes cfg then Some (TransferLimitTooHigh (bc_file_transfer_max_bytes cfg)) else None)"

text \<open>\<open>buildSigner\<close>: in local mode the compiled table of the in-process signer, in remote mode none.\<close>

definition build_signer :: "go_env \<Rightarrow> start_env \<Rightarrow> broker_config \<Rightarrow> engine_error + policy_table option" where
  "build_signer E X cfg =
     (if bc_signer cfg then (if sx_tls_ok X then Inr None else Inl SignerTLS)
      else if 900 < bc_max_ttl_seconds cfg then Inl (TTLOverCap (bc_max_ttl_seconds cfg))
      else if \<not> sx_ca_keys_ok X then Inl LoadCAKeys
      else case compile_host_policies E (policy_from_hosts cfg) (bc_command_policies cfg) (bc_group_policies cfg) of
        Inl e \<Rightarrow> Inl (InvalidHostPolicy e)
      | Inr t \<Rightarrow> Inr (Some t))"

definition open_audit_log :: "audit_lib \<Rightarrow> start_env \<Rightarrow> engine_error + audit_log \<times> (string \<Rightarrow> string) option" where
  "open_audit_log L X =
     (case sx_audit_seed X of
        None \<Rightarrow> Inl AuditKeyUnreadable
      | Some seed \<Rightarrow>
          (if length seed < 32 then Inl AuditKeyShort
           else case audit_open L (take 32 seed) (sx_audit_dir X) of
             Inl e \<Rightarrow> Inl (AuditLogOpen e)
           | Inr l \<Rightarrow> (case sx_redactor X of None \<Rightarrow> Inl RedactConfig | Some r \<Rightarrow> Inr (l\<lparr>al_redactor := r\<rparr>, r))))"

text \<open>A configured number of seconds, or the default where it is not positive.\<close>

definition seconds_or :: "go_duration \<Rightarrow> int \<Rightarrow> go_duration" where
  "seconds_or d n = (if duration_seconds n \<le> 0 then d else duration_seconds n)"

text \<open>\<open>initRemoteMode\<close>, up to the start of the polls.\<close>

definition init_remote_mode :: "broker_env \<Rightarrow> go_time \<Rightarrow> engine \<Rightarrow> engine_error + engine" where
  "init_remote_mode Q now e =
     (if \<not> be_remote e then Inr e
      else case bv_hosts Q (be_tick e) of
        Inl x \<Rightarrow> Inl (InitialHosts x)
      | Inr h \<Rightarrow>
          (let e = tick (e\<lparr>be_hosts := h, be_last_refresh := Some now\<rparr>) in
           case bv_clusters Q (be_tick e) of
             Inl x \<Rightarrow> Inl (InitialClusters x)
           | Inr cl \<Rightarrow> Inr (tick (e\<lparr>be_clusters := cl, be_rev_last_success := unix_seconds now\<rparr>))))"

definition new_engine :: "broker_env \<Rightarrow> start_env \<Rightarrow> broker_config \<Rightarrow> engine_error + engine" where
  "new_engine Q X cfg =
     (case validate_file_transfer_max_bytes cfg of
        Some e \<Rightarrow> Inl e
      | None \<Rightarrow>
          (case build_signer (bv_go Q) X cfg of
             Inl e \<Rightarrow> Inl e
           | Inr table \<Rightarrow>
               (case (if bc_signer cfg then sx_client_cn X else Some local_caller) of
                  None \<Rightarrow> Inl BrokerIdentity
                | Some own \<Rightarrow>
                    (case open_audit_log (bv_audit Q) X of
                       Inl e \<Rightarrow> Inl e
                     | Inr (l, r) \<Rightarrow>
                         (case fail_closed (bc_audit_fail_mode cfg) of
                            None \<Rightarrow> Inl (AuditFailMode (bc_audit_fail_mode cfg))
                          | Some closed \<Rightarrow>
                              init_remote_mode Q (sx_now X)
                                \<lparr>be_config = cfg, be_remote = bc_signer cfg, be_audit_log = l, be_fail_closed = closed, be_redactor = r,
                                 be_max_ttl = seconds_or (5 * go_minute) (bc_max_ttl_seconds cfg),
                                 be_sessions = new_session_manager (seconds_or (5 * go_minute) (bc_session_idle_seconds cfg))
                                    (seconds_or (30 * go_minute) (bc_session_max_seconds cfg)),
                                 be_shells = [], be_own_identity = own, be_rev_last_success = 0, be_hosts = [], be_last_refresh = None,
                                 be_clusters = [], be_key_cache = [], be_sent = [], be_tick = 0\<rparr>)))))"

section \<open>The host view\<close>

definition host_of_config :: "host_config \<Rightarrow> wire_host_info" where
  "host_of_config hc = \<lparr>wh_addr = hc_addr hc, wh_user = hc_user hc, wh_host_key = hc_host_key hc, wh_jump = hc_jump hc,
     wh_allow_sudo = hc_allow_sudo hc, wh_allow_pty = hc_allow_pty hc, wh_allow_file_transfer = hc_allow_file_transfer hc,
     wh_groups = hc_groups hc\<rparr>"

text \<open>The table \<open>hostInfo\<close> looks a name up in: the signer's list in remote mode, the configuration otherwise.\<close>

definition engine_table :: "engine \<Rightarrow> (string, wire_host_info) go_map" where
  "engine_table e = (if be_remote e then be_hosts e else map (\<lambda>(n, hc). (n, host_of_config hc)) (bc_hosts (be_config e)))"

definition engine_host :: "engine \<Rightarrow> string \<Rightarrow> wire_host_info option" where
  "engine_host e name = map_of (engine_table e) name"

definition prune_host_key_cache :: "engine \<Rightarrow> engine" where
  "prune_host_key_cache e =
     (let live = filter (\<lambda>k. k \<noteq> []) (map (\<lambda>(n, h). wh_host_key h) (be_hosts e))
      in e\<lparr>be_key_cache := map_keep (\<lambda>line v. line \<in> set live) (be_key_cache e)\<rparr>)"

definition refresh_hosts_now :: "broker_env \<Rightarrow> engine \<Rightarrow> remote_error option \<times> engine" where
  "refresh_hosts_now Q e =
     (if \<not> be_remote e then (None, e)
      else case bv_hosts Q (be_tick e) of
        Inl x \<Rightarrow> (Some x, tick e)
      | Inr h \<Rightarrow> (None, prune_host_key_cache (tick (e\<lparr>be_hosts := h, be_last_refresh := Some (bv_now Q (be_tick e))\<rparr>))))"

definition refresh_for_new_connection :: "broker_env \<Rightarrow> engine \<Rightarrow> broker_error option \<times> engine" where
  "refresh_for_new_connection Q e =
     (if \<not> be_remote e then (None, e)
      else if (case be_last_refresh e of None \<Rightarrow> False | Some t \<Rightarrow> bv_now Q (be_tick e) - t < host_refresh_coalesce) then (None, tick e)
      else case refresh_hosts_now Q (tick e) of (err, e) \<Rightarrow> (map_option HostListRefresh err, e))"

text \<open>One tick of the goroutine of \<open>startHostRefresh\<close>, which runs in remote mode only.\<close>

definition host_refresh_tick :: "broker_env \<Rightarrow> engine \<Rightarrow> engine" where
  "host_refresh_tick Q e =
     (case refresh_hosts_now Q e of
        (Some x, e) \<Rightarrow> e
      | (None, e) \<Rightarrow> (case bv_clusters Q (be_tick e) of Inl x \<Rightarrow> tick e | Inr cl \<Rightarrow> tick (e\<lparr>be_clusters := cl\<rparr>)))"

record server_info =
  si_name :: string
  si_allow_sudo :: bool
  si_allow_pty :: bool
  si_allow_file_transfer :: bool
  si_jump :: string

definition server_infos :: "broker_caller \<Rightarrow> engine \<Rightarrow> server_info list" where
  "server_infos c e =
     map (\<lambda>(n, h). \<lparr>si_name = n, si_allow_sudo = wh_allow_sudo h, si_allow_pty = wh_allow_pty h,
            si_allow_file_transfer = wh_allow_file_transfer h, si_jump = wh_jump h\<rparr>)
       (sort_key fst (filter (\<lambda>(n, h). case bk_groups c of None \<Rightarrow> True | Some gs \<Rightarrow> groups_intersect (wh_groups h) gs) (engine_table e)))"

definition servers :: "engine \<Rightarrow> string list" where
  "servers e = sort (map fst (engine_table e))"

section \<open>Chains\<close>

function resolve_from :: "(string, wire_host_info) go_map \<Rightarrow> string list \<Rightarrow> string list \<Rightarrow> string \<Rightarrow> broker_error + string list" where
  "resolve_from t seen chain cur =
     (if cur = [] then Inr chain
      else if cur \<in> set seen then Inl (BastionCycle cur)
      else case map_of t cur of
        None \<Rightarrow> Inl (ChainUnknownHost cur)
      | Some hi \<Rightarrow> resolve_from t (cur # seen) (cur # chain) (wh_jump hi))"
  by pat_completeness auto
termination
proof (relation "measure (\<lambda>(t, seen, chain, cur). card (fst ` set t - set seen))")
  fix t :: "(string, wire_host_info) go_map" and seen chain :: "string list" and cur :: string and hi
  assume "cur \<noteq> []" "cur \<notin> set seen" "map_of t cur = Some hi"
  then have "cur \<in> fst ` set t - set seen" by (force dest: map_of_SomeD)
  then have "card (fst ` set t - set seen - {cur}) < card (fst ` set t - set seen)" by (rule card_Diff1_less [rotated]) simp
  moreover have "fst ` set t - set (cur # seen) = fst ` set t - set seen - {cur}" by auto
  ultimately show "((t, cur # seen, cur # chain, wh_jump hi), (t, seen, chain, cur)) \<in> measure (\<lambda>(t, seen, chain, cur). card (fst ` set t - set seen))"
    by (simp only: in_measure split)
qed simp

declare resolve_from.simps [simp del]

definition resolve_chain :: "engine \<Rightarrow> string \<Rightarrow> broker_error + string list" where
  "resolve_chain e host = resolve_from (engine_table e) [] [] host"

definition signature_part :: "string \<Rightarrow> string" where
  "signature_part s = nat_decimal (length s) @ '':'' @ s"

definition hop_signature :: "string \<Rightarrow> wire_host_info \<Rightarrow> string" where
  "hop_signature name hi = signature_part name @ signature_part (wh_addr hi) @ signature_part (wh_user hi)
     @ signature_part (wh_host_key hi) @ signature_part (wh_jump hi) @ ''|''"

fun chain_signature :: "engine \<Rightarrow> string list \<Rightarrow> broker_error + string" where
  "chain_signature e [] = Inr []"
| "chain_signature e (name # names) =
     (case engine_host e name of
        None \<Rightarrow> Inl (ChainUnknownHost name)
      | Some hi \<Rightarrow> (case chain_signature e names of Inl x \<Rightarrow> Inl x | Inr sig \<Rightarrow> Inr (hop_signature name hi @ sig)))"

definition connectivity_signature :: "engine \<Rightarrow> string \<Rightarrow> broker_error + string" where
  "connectivity_signature e host = (case resolve_chain e host of Inl x \<Rightarrow> Inl x | Inr chain \<Rightarrow> chain_signature e chain)"

definition current_connectivity_signature :: "broker_env \<Rightarrow> string \<Rightarrow> engine \<Rightarrow> (broker_error + string) \<times> engine" where
  "current_connectivity_signature Q host e =
     (case refresh_hosts_now Q e of
        (Some x, e) \<Rightarrow> (Inl (HostListRefresh x), e)
      | (None, e) \<Rightarrow> (connectivity_signature e host, e))"

section \<open>Audit\<close>

text \<open>\<open>appendAudit\<close>: \<^term>\<open>False\<close> where the result has to be withheld.\<close>

definition append_broker_audit :: "broker_env \<Rightarrow> entry \<Rightarrow> engine \<Rightarrow> bool \<times> engine" where
  "append_broker_audit Q ent e =
     (case audit_append (bv_audit Q) (bv_io Q (be_tick e)) ent (be_audit_log e) of
        (err, l) \<Rightarrow> (err = None \<or> \<not> be_fail_closed e, tick (e\<lparr>be_audit_log := l\<rparr>)))"

definition enriched :: "engine \<Rightarrow> entry \<Rightarrow> entry" where
  "enriched e ent = (case engine_host e (en_host ent) of
     None \<Rightarrow> ent | Some hi \<Rightarrow> (if en_user ent = [] then ent\<lparr>en_user := wh_user hi\<rparr> else ent))"

definition broker_audit :: "broker_env \<Rightarrow> entry \<Rightarrow> engine \<Rightarrow> bool \<times> engine" where
  "broker_audit Q ent e = append_broker_audit Q (enriched e ent) e"

text \<open>A call of \<open>auditE\<close> whose result is ignored.\<close>

definition noted :: "broker_env \<Rightarrow> entry \<Rightarrow> engine \<Rightarrow> engine" where
  "noted Q ent e = snd (broker_audit Q ent e)"

definition caller_entry :: "broker_caller \<Rightarrow> string \<Rightarrow> string \<Rightarrow> entry" where
  "caller_entry c host outcome = empty_entry\<lparr>en_caller := bk_id c, en_end_user_context := bk_context c, en_host := host,
     en_outcome := outcome\<rparr>"

definition session_entry :: "live_session \<Rightarrow> string \<Rightarrow> string \<Rightarrow> entry" where
  "session_entry s outcome err = empty_entry\<lparr>en_caller := lv_caller s, en_end_user_context := lv_context s, en_host := lv_host s,
     en_serial := lv_serial s, en_session_id := lv_id s, en_outcome := outcome, en_err := err\<rparr>"

definition approval_answer_entry :: "broker_caller \<Rightarrow> string \<Rightarrow> string \<Rightarrow> string \<Rightarrow> exec_options \<Rightarrow> string \<Rightarrow> entry" where
  "approval_answer_entry c host command rule opts outcome = (caller_entry c host outcome)\<lparr>en_command := command, en_policy_rule := rule,
     en_approved_via := approval_via_elicitation, en_elevation := elevation_label opts, en_pty := xo_pty opts\<rparr>"

definition audit_approval_granted :: "broker_env \<Rightarrow> broker_caller \<Rightarrow> string \<Rightarrow> string \<Rightarrow> string \<Rightarrow> exec_options \<Rightarrow> engine \<Rightarrow> bool \<times> engine" where
  "audit_approval_granted Q c host command rule opts e =
     broker_audit Q (approval_answer_entry c host command rule opts ''approval_granted'') e"

definition audit_approval_declined :: "broker_env \<Rightarrow> broker_caller \<Rightarrow> string \<Rightarrow> string \<Rightarrow> string \<Rightarrow> exec_options \<Rightarrow> engine \<Rightarrow> engine" where
  "audit_approval_declined Q c host command rule opts e =
     noted Q (approval_answer_entry c host command rule opts ''approval_declined'') e"

section \<open>Certificates along a chain\<close>

definition ttl_for :: "engine \<Rightarrow> int \<Rightarrow> go_duration" where
  "ttl_for e ttl_seconds =
     (let ttl = duration_seconds ttl_seconds in if ttl \<le> 0 \<or> be_max_ttl e < ttl then be_max_ttl e else ttl)"

text \<open>\<open>errors.Is\<close> against the three classes of \<open>classifySignErr\<close>, through the wrapping of the signing path.\<close>

definition is_sign_outage :: "broker_error \<Rightarrow> bool" where
  "is_sign_outage x = (case x of
     SigningCert n f \<Rightarrow> (case f of SignerUnavailable t \<Rightarrow> True | K8sMintFailed t \<Rightarrow> True | CASignFailed t \<Rightarrow> True | _ \<Rightarrow> False)
   | SigningFailure f \<Rightarrow> (case f of SignerUnavailable t \<Rightarrow> True | K8sMintFailed t \<Rightarrow> True | CASignFailed t \<Rightarrow> True | _ \<Rightarrow> False)
   | _ \<Rightarrow> False)"

definition classify_sign_err :: "broker_error \<Rightarrow> broker_error" where
  "classify_sign_err x = (if is_sign_outage x then UpstreamSign x else x)"

definition sign_failure_outcome :: "broker_error \<Rightarrow> string" where
  "sign_failure_outcome x =
     (case x of ApprovalRequired a \<Rightarrow> ''approval_required''
      | _ \<Rightarrow> (if is_upstream (classify_sign_err x) then ''error'' else ''denied''))"

definition runs_as :: "approval_required \<Rightarrow> string" where
  "runs_as a = (if ar_elevation a \<noteq> [] then '' as '' @ ar_elevation a else []) @ (if ar_pty a then '' with PTY'' else [])"

definition rule_of :: "dec_info option \<Rightarrow> string" where
  "rule_of d = (case d of None \<Rightarrow> [] | Some d \<Rightarrow> dw_matched_rule d)"

definition warning_of :: "dec_info option \<Rightarrow> string" where
  "warning_of d = (case d of None \<Rightarrow> [] | Some d \<Rightarrow> dw_warning d)"

definition warnings_of :: "dec_info option \<Rightarrow> string list" where
  "warnings_of d = (case d of None \<Rightarrow> [] | Some d \<Rightarrow> if dw_warning d = [] then [] else [dw_warning d])"

definition approval_error :: "string \<Rightarrow> dec_info option \<Rightarrow> exec_options \<Rightarrow> broker_error" where
  "approval_error host d opts =
     ApprovalRequired \<lparr>ar_host = host, ar_rule = rule_of d, ar_elevation = elevation_label opts, ar_pty = xo_pty opts\<rparr>"

definition parse_host_key_cached :: "broker_env \<Rightarrow> string \<Rightarrow> engine \<Rightarrow> string option \<times> engine" where
  "parse_host_key_cached Q line e =
     (case map_of (be_key_cache e) line of
        Some v \<Rightarrow> (v, e)
      | None \<Rightarrow> (bv_parse_key Q line, e\<lparr>be_key_cache := AList.update line (bv_parse_key Q line) (be_key_cache e)\<rparr>))"

text \<open>The intent for a hop as both builders start it: a bastion's, with nothing of the target.\<close>

definition bastion_intent :: "broker_caller \<Rightarrow> string \<Rightarrow> go_duration \<Rightarrow> string \<Rightarrow> string \<Rightarrow> intent" where
  "bastion_intent c name ttl purpose pub =
     (plain_intent local_caller name [])\<lparr>in_role := RoleBastion, in_purpose := purpose, in_requested_ttl := ttl, in_public_key := pub,
        in_end_user := bk_id c, in_end_user_groups := bk_groups c, in_end_user_context := bk_context c, in_raw_token := bk_raw_token c\<rparr>"

definition oneshot_intent :: "broker_caller \<Rightarrow> string \<Rightarrow> go_duration \<Rightarrow> string \<Rightarrow> string \<Rightarrow> string \<Rightarrow> exec_options \<Rightarrow> bool \<Rightarrow> intent" where
  "oneshot_intent c name ttl purpose pub command opts is_target =
     (let i = bastion_intent c name ttl purpose pub in
      if \<not> is_target then i
      else i\<lparr>in_role := RoleTarget, in_command := command, in_sudo := xo_sudo opts, in_sudo_user := xo_sudo_user opts,
             in_pty := xo_pty opts, in_file_transfer := xo_file_transfer opts, in_approved := xo_approved opts\<rparr>)"

text \<open>What the two builders share for one hop: a key pair, the certificate, the pinned key; the answer of the signer is kept.\<close>

definition certify_hop :: "broker_env \<Rightarrow> exec_options \<Rightarrow> string \<Rightarrow> wire_host_info \<Rightarrow> (string \<Rightarrow> intent) \<Rightarrow> engine \<Rightarrow>
    (broker_error + ssh_hop \<times> certificate \<times> issued_remote) \<times> engine" where
  "certify_hop Q opts name hi mk e =
     (case bv_keys Q (be_tick e) of
        None \<Rightarrow> (Inl KeyGeneration, tick e)
      | Some (priv, pub) \<Rightarrow>
          (case bv_sign Q (Suc (be_tick e)) (mk pub) of
             Inl f \<Rightarrow> (Inl (SigningCert name f), tick (tick e))
           | Inr iu \<Rightarrow>
               (case ir_certificate iu of
                  None \<Rightarrow> (Inl (approval_error name (ir_decision iu) opts), tick (tick e))
                | Some cert \<Rightarrow>
                    (case parse_host_key_cached Q (wh_host_key hi) (tick (tick e)) of
                       (None, e) \<Rightarrow> (Inl (HostKeyInvalid name), e)
                     | (Some key, e) \<Rightarrow>
                         (Inr (\<lparr>ho_addr = wh_addr hi, ho_user = wh_user hi, ho_host_key = Some key, ho_private_key = priv,
                               ho_certificate = Some cert\<rparr>, cert, iu), e)))))"

fun build_hops_from :: "broker_env \<Rightarrow> broker_caller \<Rightarrow> go_duration \<Rightarrow> string \<Rightarrow> string \<Rightarrow> exec_options \<Rightarrow> string list \<Rightarrow> engine \<Rightarrow>
    (broker_error + ssh_hop list \<times> 64 word \<times> dec_info option) \<times> engine" where
  "build_hops_from Q c ttl purpose command opts [] e = (Inr ([], 0, None), e)"
| "build_hops_from Q c ttl purpose command opts (name # names) e =
     (case engine_host e name of
        None \<Rightarrow> (Inl (ChainUnknownHost name), e)
      | Some hi \<Rightarrow>
          (case certify_hop Q opts name hi (\<lambda>pub. oneshot_intent c name ttl purpose pub command opts (names = [])) e of
             (Inl x, e) \<Rightarrow> (Inl x, e)
           | (Inr (hop, cert, iu), e) \<Rightarrow>
               (case build_hops_from Q c ttl purpose command opts names e of
                  (Inl x, e) \<Rightarrow> (Inl x, e)
                | (Inr (hops, serial, dec), e) \<Rightarrow>
                    (Inr (hop # hops, if names = [] then ir_serial iu else serial, if names = [] then ir_decision iu else dec), e))))"

definition build_hops :: "broker_env \<Rightarrow> broker_caller \<Rightarrow> string \<Rightarrow> go_duration \<Rightarrow> string \<Rightarrow> string \<Rightarrow> exec_options \<Rightarrow> engine \<Rightarrow>
    (broker_error + ssh_hop list \<times> 64 word \<times> dec_info option) \<times> engine" where
  "build_hops Q c host ttl purpose command opts e =
     (case resolve_chain e host of Inl x \<Rightarrow> (Inl x, e) | Inr chain \<Rightarrow> build_hops_from Q c ttl purpose command opts chain e)"

section \<open>One-shot commands\<close>

definition dry_run_intent :: "broker_caller \<Rightarrow> string \<Rightarrow> string \<Rightarrow> go_duration \<Rightarrow> string \<Rightarrow> exec_options \<Rightarrow> intent" where
  "dry_run_intent c host command ttl pub opts =
     (bastion_intent c host ttl PurposeOneshot pub)\<lparr>in_role := RoleTarget, in_command := command, in_sudo := xo_sudo opts,
        in_sudo_user := xo_sudo_user opts, in_pty := xo_pty opts, in_dry_run := True\<rparr>"

definition decision_result :: "dec_info option \<Rightarrow> broker_result" where
  "decision_result d = \<lparr>bq_stdout = [], bq_stderr = [], bq_exit_code = 0, bq_serial = 0, bq_warnings = [], bq_dry_run = d\<rparr>"

definition broker_dry_run :: "broker_env \<Rightarrow> broker_caller \<Rightarrow> string \<Rightarrow> string \<Rightarrow> int \<Rightarrow> exec_options \<Rightarrow> engine \<Rightarrow>
    (broker_error + broker_result) \<times> engine" where
  "broker_dry_run Q c host command ttl_seconds opts e =
     (case bv_keys Q (be_tick e) of
        None \<Rightarrow> (Inl KeyGeneration, tick e)
      | Some (priv, pub) \<Rightarrow>
          (case bv_sign Q (Suc (be_tick e)) (dry_run_intent c host command (ttl_for e ttl_seconds) pub opts) of
             Inl f \<Rightarrow>
               (let x = SigningFailure f in
                (Inl (classify_sign_err x),
                 noted Q ((caller_entry c host (sign_failure_outcome x))\<lparr>en_command := command, en_dry_run := True, en_err := bv_error_text Q x\<rparr>)
                   (tick (tick e))))
           | Inr iu \<Rightarrow>
               (let d = ir_decision iu;
                    outcome = (case d of None \<Rightarrow> ''dry_run_allowed'' | Some d \<Rightarrow> if dw_allowed d then ''dry_run_allowed'' else ''dry_run_denied'')
                in (Inr (decision_result d),
                    noted Q ((caller_entry c host outcome)\<lparr>en_command := command, en_dry_run := True, en_policy_rule := rule_of d,
                        en_elevation := elevation_label opts, en_pty := xo_pty opts, en_warning := warning_of d\<rparr>) (tick (tick e))))))"

definition executed_entry :: "broker_caller \<Rightarrow> string \<Rightarrow> string \<Rightarrow> exec_options \<Rightarrow> 64 word \<Rightarrow> dec_info option \<Rightarrow> int \<Rightarrow> entry" where
  "executed_entry c host command opts serial dec code = (caller_entry c host ''executed'')\<lparr>en_command := command, en_serial := serial,
     en_exit_code := code, en_elevation := elevation_label opts, en_pty := xo_pty opts, en_policy_rule := rule_of dec,
     en_warning := go_join (warnings_of dec) ''; '', en_approved_via := (if xo_approved opts then approval_via_elicitation else [])\<rparr>"

text \<open>\<open>Execute\<close> after the certificates: dial, run, record, hand out.\<close>

definition run_once :: "broker_env \<Rightarrow> broker_caller \<Rightarrow> string \<Rightarrow> string \<Rightarrow> exec_options \<Rightarrow> ssh_hop list \<Rightarrow> 64 word \<Rightarrow> dec_info option \<Rightarrow>
    engine \<Rightarrow> (broker_error + broker_result) \<times> engine" where
  "run_once Q c host command opts hops serial dec e =
     (let failed = (\<lambda>x e. (Inl x, noted Q ((caller_entry c host ''error'')\<lparr>en_command := command, en_serial := serial,
            en_err := bv_error_text Q x\<rparr>) e))
      in case fst (ssh_dial (bv_dial Q (be_tick e)) hops) of
           Inl d \<Rightarrow> failed (ConnectionFailed d) (tick e)
         | Inr conn \<Rightarrow>
             (let e' = tick e;
                  e'' = tick (e'\<lparr>be_sent := be_sent e' @ [\<lparr>st_host = host, st_hops = hops, st_command = command\<rparr>]\<rparr>)
              in case exec_once (bv_channel Q (be_tick e')) command (plain_options (xo_pty opts) (xo_stdin opts)) of
                   Inl x \<Rightarrow> failed (ExecutionFailed x) e''
                 | Inr res \<Rightarrow>
                     (case broker_audit Q (executed_entry c host command opts serial dec (sr_exit_code res)) e'' of
                        (False, e) \<Rightarrow> (Inl AuditUnavailable, e)
                      | (True, e) \<Rightarrow> (Inr \<lparr>bq_stdout = sr_stdout res, bq_stderr = sr_stderr res, bq_exit_code = sr_exit_code res,
                                         bq_serial = serial, bq_warnings = warnings_of dec, bq_dry_run = None\<rparr>, e))))"

definition broker_execute :: "broker_env \<Rightarrow> broker_caller \<Rightarrow> string \<Rightarrow> string \<Rightarrow> int \<Rightarrow> exec_options \<Rightarrow> engine \<Rightarrow>
    (broker_error + broker_result) \<times> engine" where
  "broker_execute Q c host command ttl_seconds opts e =
     (case refresh_for_new_connection Q e of
        (Some x, e) \<Rightarrow> (Inl x, noted Q ((caller_entry c host ''error'')\<lparr>en_command := command, en_err := bv_error_text Q x\<rparr>) e)
      | (None, e) \<Rightarrow>
          (if engine_host e host = None then
             (Inl (HostUnknown host), noted Q ((caller_entry c host ''denied'')\<lparr>en_command := command, en_err := ''unknown host''\<rparr>) e)
           else if command = [] then (Inl CommandRequired, e)
           else if xo_dry_run opts then broker_dry_run Q c host command ttl_seconds opts e
           else case build_hops Q c host (ttl_for e ttl_seconds) PurposeOneshot command opts e of
             (Inl x, e) \<Rightarrow>
               (Inl (classify_sign_err x),
                noted Q ((caller_entry c host (sign_failure_outcome x))\<lparr>en_command := command, en_err := bv_error_text Q x\<rparr>) e)
           | (Inr (hops, serial, dec), e) \<Rightarrow> run_once Q c host command opts hops serial dec e))"

section \<open>The kill switch and the end\<close>

definition enforce_revocations :: "broker_env \<Rightarrow> frozen_entry list \<Rightarrow> engine \<Rightarrow> engine" where
  "enforce_revocations Q frozen e =
     (case revoke_sessions frozen (be_own_identity e) (be_sessions e) of
        (victims, m) \<Rightarrow> fold (\<lambda>s. noted Q (session_entry s ''session_killed'' ''frozen (kill switch)'')) victims (e\<lparr>be_sessions := m\<rparr>))"

definition poll_revocations_once :: "broker_env \<Rightarrow> engine \<Rightarrow> engine" where
  "poll_revocations_once Q e =
     (case bv_revocations Q (be_tick e) of
        Inl x \<Rightarrow> tick e
      | Inr frozen \<Rightarrow> enforce_revocations Q frozen (tick (e\<lparr>be_rev_last_success := unix_seconds (bv_now Q (be_tick e))\<rparr>)))"

text \<open>A tick of the reaper, with the record its callback writes.\<close>

definition reaper_tick :: "broker_env \<Rightarrow> engine \<Rightarrow> engine" where
  "reaper_tick Q e =
     (case reap_expired (bv_now Q (be_tick e)) (be_sessions e) of
        (victims, m) \<Rightarrow> fold (\<lambda>(s, reason). noted Q (session_entry s ''session_close'' (''reaped ('' @ reason @ '')''))) victims
                         (tick (e\<lparr>be_sessions := m\<rparr>)))"

text \<open>\<open>Close\<close>, up to the closing of the audit log itself.\<close>

definition engine_close :: "broker_env \<Rightarrow> engine \<Rightarrow> engine" where
  "engine_close Q e =
     (case close_all (be_sessions e) of
        (victims, m) \<Rightarrow> fold (\<lambda>s. noted Q (session_entry s ''session_close'' ''broker shutdown'')) victims (e\<lparr>be_sessions := m\<rparr>))"

end
