(* ===== verification/Broker_Session.thy ===== *)
theory Broker_Session
  imports Broker
begin

text \<open>
  Persistent sessions of the broker, \<open>internal/broker/session.go\<close> and \<open>buildHopsWithPrefix\<close> of \<open>engine.go\<close>: opening a
  session, the preflight and the execution of each of its commands, closing it. The shell of a session is kept
  in \<open>be_shells\<close> under the identifier of the session. A command in a session is one call here; what other goroutines
  do to the pool between its checkout and its end is the subject of the step relation of \<open>Session_Pool\<close>.
\<close>

section \<open>Opening\<close>

definition session_intent :: "broker_caller \<Rightarrow> string \<Rightarrow> go_duration \<Rightarrow> string \<Rightarrow> string \<Rightarrow> string \<Rightarrow> exec_options \<Rightarrow> bool \<Rightarrow> intent" where
  "session_intent c name ttl purpose pub mode opts is_target =
     (let i = bastion_intent c name ttl purpose pub in
      if \<not> is_target then i
      else i\<lparr>in_role := RoleTarget, in_session_mode := (if purpose = PurposeSession then mode else []), in_sudo := xo_sudo opts,
             in_sudo_user := xo_sudo_user opts, in_pty := xo_pty opts, in_approved := xo_approved opts\<rparr>)"

text \<open>
  \<open>time.Unix(int64(ValidBefore), 0)\<close>; the zero time, which the session manager reads as no limit, is
  62135596800 seconds before the epoch.
\<close>

definition cert_not_after :: "certificate \<Rightarrow> go_time option" where
  "cert_not_after cert = (let n = sint (ce_valid_before cert) in if n = - 62135596800 then None else Some (unix_time n))"

record session_hops =
  sh_hops :: "ssh_hop list"
  sh_serial :: "64 word"
  sh_prefix :: string
  sh_signature :: string
  sh_decision :: "dec_info option"
  sh_not_after :: "go_time option"

definition no_hops :: session_hops where
  "no_hops = \<lparr>sh_hops = [], sh_serial = 0, sh_prefix = [], sh_signature = [], sh_decision = None, sh_not_after = None\<rparr>"

fun build_session_hops :: "broker_env \<Rightarrow> broker_caller \<Rightarrow> go_duration \<Rightarrow> string \<Rightarrow> string \<Rightarrow> exec_options \<Rightarrow> string list \<Rightarrow> engine \<Rightarrow>
    (broker_error + session_hops) \<times> engine" where
  "build_session_hops Q c ttl purpose mode opts [] e = (Inr no_hops, e)"
| "build_session_hops Q c ttl purpose mode opts (name # names) e =
     (case engine_host e name of
        None \<Rightarrow> (Inl (ChainUnknownHost name), e)
      | Some hi \<Rightarrow>
          (case certify_hop Q opts name hi (\<lambda>pub. session_intent c name ttl purpose pub mode opts (names = [])) e of
             (Inl x, e) \<Rightarrow> (Inl x, e)
           | (Inr (hop, cert, iu), e) \<Rightarrow>
               (case build_session_hops Q c ttl purpose mode opts names e of
                  (Inl x, e) \<Rightarrow> (Inl x, e)
                | (Inr r, e) \<Rightarrow>
                    (let r = r\<lparr>sh_hops := hop # sh_hops r, sh_signature := hop_signature name hi @ sh_signature r\<rparr>
                     in (Inr (if names = [] then r\<lparr>sh_serial := ir_serial iu, sh_not_after := cert_not_after cert,
                                 sh_prefix := ir_elevation_prefix iu, sh_decision := ir_decision iu\<rparr> else r), e)))))"

definition build_hops_with_prefix :: "broker_env \<Rightarrow> broker_caller \<Rightarrow> string \<Rightarrow> go_duration \<Rightarrow> string \<Rightarrow> string \<Rightarrow> exec_options \<Rightarrow> engine \<Rightarrow>
    (broker_error + session_hops) \<times> engine" where
  "build_hops_with_prefix Q c host ttl purpose mode opts e =
     (case resolve_chain e host of Inl x \<Rightarrow> (Inl x, e) | Inr chain \<Rightarrow> build_session_hops Q c ttl purpose mode opts chain e)"

text \<open>\<open>openShellForMode\<close>: the session and its shell, \<^term>\<open>None\<close> in exec mode.\<close>

definition open_shell_for_mode :: "broker_env \<Rightarrow> live_session \<Rightarrow> engine \<Rightarrow> (broker_error + live_session \<times> shell_session option) \<times> engine" where
  "open_shell_for_mode Q s e =
     (if lv_mode s \<noteq> ''shell'' \<and> lv_mode s \<noteq> ''pty'' then (Inr (s, None), e)
      else
        let n = be_tick e;
            cmd = (if lv_elevation_prefix s \<noteq> [] then lv_elevation_prefix s @ '' -- /bin/sh'' else ''/bin/sh'');
            opened = (if lv_mode s = ''pty''
              then open_shell_pty (bv_cast Q) (bv_shell_setup Q n) (bv_shell_init Q n) (bv_shell_random Q n) (bv_cast_io Q n)
                     (bv_shell_written Q n) (bv_shell_events Q n) cmd
              else open_shell (bv_cast Q) (bv_shell_setup Q n) (bv_shell_random Q n) (bv_cast_io Q n) (bv_shell_written Q n)
                     (bv_shell_events Q n) cmd)
        in case opened of
             Inl x \<Rightarrow>
               (Inl (ShellOpening x),
                noted Q (empty_entry\<lparr>en_caller := lv_caller s, en_end_user_context := lv_context s, en_host := lv_host s,
                   en_serial := lv_serial s, en_outcome := ''error'', en_err := bv_error_text Q (ShellOpening x)\<rparr>) (tick e))
           | Inr sh \<Rightarrow> (Inr (s\<lparr>lv_shell := True, lv_elevation_prefix := []\<rparr>, Some sh), tick e))"

definition session_meta :: "live_session \<Rightarrow> cast_meta" where
  "session_meta s = \<lparr>cm_session_id = lv_id s, cm_caller = lv_caller s, cm_host = lv_host s, cm_serial = lv_serial s, cm_pty = lv_pty s,
     cm_term = ''xterm-256color'', cm_width = 220, cm_height = 40, cm_started_at = Some (lv_created s)\<rparr>"

definition start_session_recording :: "broker_env \<Rightarrow> live_session \<Rightarrow> shell_session option \<Rightarrow> engine \<Rightarrow>
    (broker_error + live_session \<times> shell_session option) \<times> engine" where
  "start_session_recording Q s sh e =
     (case sh of
        None \<Rightarrow> (Inr (s, sh), e)
      | Some shell \<Rightarrow>
          (if bc_recording_dir (be_config e) = [] then (Inr (s, sh), e)
           else
             let n = be_tick e; strict = bc_recording_strict (be_config e)
             in case cast_open (bv_cast Q) (bv_cast_open Q n) (bv_now Q n) (bv_cast_io Q n) (session_meta s) of
                  Inl x \<Rightarrow> (if strict then (Inl (RecordingOpening x), tick e) else (Inr (s, sh), tick e))
                | Inr rec \<Rightarrow>
                    (let rec = (case be_redactor e of None \<Rightarrow> rec | Some f \<Rightarrow> set_cast_redactor f rec)
                     in (Inr (s\<lparr>lv_recorder := True\<rparr>, Some (set_recorder rec strict shell)), tick e))))"

definition session_open_entry :: "broker_caller \<Rightarrow> live_session \<Rightarrow> exec_options \<Rightarrow> entry" where
  "session_open_entry c s opts = (caller_entry c (lv_host s) ''session_open'')\<lparr>en_serial := lv_serial s, en_session_id := lv_id s,
     en_command := ''mode='' @ lv_mode s, en_elevation := elevation_label opts, en_pty := xo_pty opts\<rparr>"

text \<open>
  The session \<open>OpenSession\<close> builds once the connection is up. The clock is read for the creation and again for the last use.
\<close>

definition new_live_session :: "broker_env \<Rightarrow> broker_caller \<Rightarrow> string \<Rightarrow> string \<Rightarrow> exec_options \<Rightarrow> session_hops \<Rightarrow> nat \<Rightarrow> live_session" where
  "new_live_session Q c host mode opts r n = \<lparr>lv_id = bv_session_id Q n, lv_caller = bk_id c, lv_context = bk_context c, lv_host = host,
     lv_serial = sh_serial r, lv_mode = mode, lv_conn = True, lv_shell = False, lv_created = bv_now Q n, lv_last_used = bv_now Q (Suc n),
     lv_cert_not_after = sh_not_after r, lv_busy = 0, lv_elevation_prefix = sh_prefix r, lv_elev_label = elevation_label opts,
     lv_sudo = xo_sudo opts, lv_sudo_user = xo_sudo_user opts, lv_pty = xo_pty opts, lv_connectivity_sig = sh_signature r,
     lv_recorder = False\<rparr>"

text \<open>Registering a session whose shell is open: the limits, then the record that has to be written before it is handed out.\<close>

definition publish_session :: "broker_env \<Rightarrow> broker_caller \<Rightarrow> exec_options \<Rightarrow> live_session \<Rightarrow> shell_session option \<Rightarrow> engine \<Rightarrow>
    (broker_error + string \<times> 64 word) \<times> engine" where
  "publish_session Q c opts s sh e =
     (case session_add s (be_sessions e) of
        (Some x, m) \<Rightarrow>
          (Inl (SessionLimit x),
           noted Q ((caller_entry c (lv_host s) ''denied'')\<lparr>en_serial := lv_serial s, en_err := bv_error_text Q (SessionLimit x)\<rparr>)
             (e\<lparr>be_sessions := session_close s m\<rparr>))
      | (None, m) \<Rightarrow>
          (let e = e\<lparr>be_sessions := m, be_shells := (case sh of None \<Rightarrow> be_shells e | Some shell \<Rightarrow> AList.update (lv_id s) shell (be_shells e))\<rparr>
           in case broker_audit Q (session_open_entry c s opts) e of
                (False, e) \<Rightarrow>
                  (Inl AuditUnavailable, e\<lparr>be_sessions := session_close s (session_remove (lv_id s) (be_sessions e))\<rparr>)
              | (True, e) \<Rightarrow> (Inr (lv_id s, lv_serial s), e)))"

text \<open>\<open>OpenSession\<close> after the certificates: dial, open the shell, start the recording, register.\<close>

definition connect_session :: "broker_env \<Rightarrow> broker_caller \<Rightarrow> string \<Rightarrow> string \<Rightarrow> exec_options \<Rightarrow> session_hops \<Rightarrow> engine \<Rightarrow>
    (broker_error + string \<times> 64 word) \<times> engine" where
  "connect_session Q c host mode opts r e =
     (let failed = (\<lambda>x e. (Inl x, noted Q ((caller_entry c host ''error'')\<lparr>en_serial := sh_serial r, en_err := bv_error_text Q x\<rparr>) e))
      in case fst (ssh_dial (bv_dial Q (be_tick e)) (sh_hops r)) of
           Inl d \<Rightarrow> failed (ConnectionFailed d) (tick e)
         | Inr conn \<Rightarrow>
             (case open_shell_for_mode Q (new_live_session Q c host mode opts r (Suc (be_tick e))) (tick (tick (tick e))) of
                (Inl x, e) \<Rightarrow> (Inl x, e)
              | (Inr (s, sh), e) \<Rightarrow>
                  (case start_session_recording Q s sh e of
                     (Inl x, e) \<Rightarrow> failed x (e\<lparr>be_sessions := session_close s (be_sessions e)\<rparr>)
                   | (Inr (s, sh), e) \<Rightarrow> publish_session Q c opts s sh e)))"

definition open_session :: "broker_env \<Rightarrow> broker_caller \<Rightarrow> string \<Rightarrow> string \<Rightarrow> int \<Rightarrow> exec_options \<Rightarrow> engine \<Rightarrow>
    (broker_error + string \<times> 64 word) \<times> engine" where
  "open_session Q c host mode ttl_seconds opts e =
     (case refresh_for_new_connection Q e of
        (Some x, e) \<Rightarrow> (Inl x, noted Q ((caller_entry c host ''error'')\<lparr>en_err := bv_error_text Q x\<rparr>) e)
      | (None, e) \<Rightarrow>
          (if engine_host e host = None then
             (Inl (SessionHostUnknown host), noted Q ((caller_entry c host ''denied'')\<lparr>en_err := ''unknown host''\<rparr>) e)
           else
             let mode = (if mode = [] then ''exec'' else mode) in
             if mode \<noteq> ''exec'' \<and> mode \<noteq> ''shell'' \<and> mode \<noteq> ''pty'' then (Inl (InvalidMode mode), e)
             else
               let opts = (if mode = ''pty'' then opts\<lparr>xo_pty := True\<rparr> else opts) in
               case build_hops_with_prefix Q c host (ttl_for e ttl_seconds) PurposeSession mode opts e of
                 (Inl x, e) \<Rightarrow>
                   (Inl (classify_sign_err x), noted Q ((caller_entry c host (sign_failure_outcome x))\<lparr>en_err := bv_error_text Q x\<rparr>) e)
               | (Inr r, e) \<Rightarrow> connect_session Q c host mode opts r e))"

section \<open>Commands in a session\<close>

text \<open>\<open>authorizeSessionBastions\<close>: every current bastion of the host is asked for again.\<close>

definition preflight_intent :: "broker_caller \<Rightarrow> string \<Rightarrow> go_duration \<Rightarrow> string \<Rightarrow> intent" where
  "preflight_intent c name ttl pub = (bastion_intent c name ttl PurposeSession pub)\<lparr>in_dry_run := True, in_preflight := True\<rparr>"

fun preflight_bastions :: "broker_env \<Rightarrow> broker_caller \<Rightarrow> string \<Rightarrow> string list \<Rightarrow> engine \<Rightarrow> broker_error option \<times> engine" where
  "preflight_bastions Q c pub [] e = (None, e)"
| "preflight_bastions Q c pub (name # names) e =
     (case bv_sign Q (be_tick e) (preflight_intent c name (be_max_ttl e) pub) of
        Inl f \<Rightarrow> (Some (BastionPreflightFor name (classify_sign_err (SigningFailure f))), tick e)
      | Inr iu \<Rightarrow>
          (case ir_decision iu of
             None \<Rightarrow> (Some (BastionNoDecision name), tick e)
           | Some d \<Rightarrow>
               (if \<not> dw_allowed d then (Some (BastionDenied name (dw_reason d)), tick e)
                else if dw_require_approval d then (Some (BastionNeedsApproval name), tick e)
                else preflight_bastions Q c pub names (tick e))))"

definition authorize_session_bastions :: "broker_env \<Rightarrow> broker_caller \<Rightarrow> string \<Rightarrow> engine \<Rightarrow> broker_error option \<times> engine" where
  "authorize_session_bastions Q c host e =
     (case resolve_chain e host of
        Inl x \<Rightarrow> (Some (BastionPreflight x), e)
      | Inr chain \<Rightarrow>
          (if length chain \<le> 1 then (None, e)
           else case bv_keys Q (be_tick e) of
             None \<Rightarrow> (Some KeyGeneration, tick e)
           | Some (priv, pub) \<Rightarrow> preflight_bastions Q c pub (butlast chain) (tick e)))"

definition session_command_intent :: "broker_caller \<Rightarrow> live_session \<Rightarrow> string \<Rightarrow> go_duration \<Rightarrow> string \<Rightarrow> intent" where
  "session_command_intent c s command ttl pub =
     (bastion_intent c (lv_host s) ttl PurposeSession pub)\<lparr>in_role := RoleTarget,
        in_session_mode := (if lv_mode s = ''shell'' then SessionModeShell else if lv_mode s = ''pty'' then SessionModePTY else SessionModeExec),
        in_command := command, in_sudo := lv_sudo s, in_sudo_user := lv_sudo_user s, in_pty := lv_pty s,
        in_dry_run := True, in_preflight := True\<rparr>"

text \<open>The part of \<open>authorizeSessionExec\<close> after the connectivity checks: the decision, and an error or the envelope.\<close>

definition preflight_command :: "broker_env \<Rightarrow> broker_caller \<Rightarrow> live_session \<Rightarrow> string \<Rightarrow> engine \<Rightarrow>
    (dec_info option \<times> (broker_error + string)) \<times> engine" where
  "preflight_command Q c s command e =
     (case bv_keys Q (be_tick e) of
        None \<Rightarrow> ((None, Inl KeyGeneration), tick e)
      | Some (priv, pub) \<Rightarrow>
          (case bv_sign Q (Suc (be_tick e)) (session_command_intent c s command (be_max_ttl e) pub) of
             Inl f \<Rightarrow> ((None, Inl (PolicyPreflight (classify_sign_err (SigningFailure f)))), tick (tick e))
           | Inr iu \<Rightarrow>
               (case ir_decision iu of
                  None \<Rightarrow> ((None, Inr (ir_envelope iu)), tick (tick e))
                | Some d \<Rightarrow>
                    (if \<not> dw_allowed d then ((Some d, Inl (SessionCommandDenied (dw_reason d) (dw_matched_rule d))), tick (tick e))
                     else if dw_require_approval d then ((Some d, Inl (SessionNeedsApproval (dw_matched_rule d))), tick (tick e))
                     else ((Some d, Inr (ir_envelope iu)), tick (tick e))))))"

definition authorize_session_exec :: "broker_env \<Rightarrow> broker_caller \<Rightarrow> live_session \<Rightarrow> string \<Rightarrow> engine \<Rightarrow>
    (dec_info option \<times> (broker_error + string)) \<times> engine" where
  "authorize_session_exec Q c s command e =
     (if lv_connectivity_sig s = [] then preflight_command Q c s command e
      else case current_connectivity_signature Q (lv_host s) e of
        (Inl x, e) \<Rightarrow> ((None, Inl (ConnectivityPreflight x)), e)
      | (Inr sig, e) \<Rightarrow>
          (if sig \<noteq> lv_connectivity_sig s then ((None, Inl (ConnectivityChanged (lv_host s))), e)
           else case authorize_session_bastions Q c (lv_host s) e of
             (Some x, e) \<Rightarrow> ((None, Inl x), e)
           | (None, e) \<Rightarrow> preflight_command Q c s command e))"

text \<open>The checks of \<open>SessionExec\<close> on the command itself; the second component is whether the refusal is audited.\<close>

definition session_command_check :: "live_session \<Rightarrow> string \<Rightarrow> (broker_error \<times> bool) option" where
  "session_command_check s command =
     (if command = [] then Some (CommandRequired, False)
      else if (lv_mode s = ''shell'' \<or> lv_mode s = ''pty'') \<and> contains_any command [newline, carriage_return] then Some (NewlinesNotAllowed, False)
      else if lv_mode s = ''pty'' \<and> max_pty_command_bytes < int (length command) then Some (PTYTooLong (int (length command)), True)
      else if lv_mode s = ''pty'' then
        (case List.find (\<lambda>b. (of_char b :: nat) < 32 \<or> (of_char b :: nat) = 127) command of
           Some b \<Rightarrow> Some (PTYControlByte (of_char b), True)
         | None \<Rightarrow> None)
      else None)"

definition effective_command :: "broker_env \<Rightarrow> live_session \<Rightarrow> string \<Rightarrow> string \<Rightarrow> string" where
  "effective_command Q s command envelope =
     (if envelope \<noteq> [] then envelope
      else if lv_mode s = ''exec'' \<and> lv_elevation_prefix s \<noteq> [] then build_elevated_command (bv_go Q) (lv_elevation_prefix s) command
      else command)"

text \<open>Sending the command: to the shell the session keeps, or on a channel of its own.\<close>

definition run_in_session :: "broker_env \<Rightarrow> live_session \<Rightarrow> string \<Rightarrow> string \<Rightarrow> engine \<Rightarrow> (broker_error + ssh_result) \<times> engine" where
  "run_in_session Q s command envelope e =
     (let n = be_tick e; sent = (\<lambda>cmd. be_sent e @ [\<lparr>st_host = lv_host s, st_hops = [], st_command = cmd\<rparr>]) in
      if lv_mode s = ''shell'' \<or> lv_mode s = ''pty'' then
        (case map_of (be_shells e) (lv_id s) of
           None \<Rightarrow> (Inl (SessionShellFailed Desynchronised), tick e)
         | Some sh \<Rightarrow>
             (case shell_exec (bv_cast Q) (bv_cast_io Q n) (bv_shell_written Q n) command (bv_shell_events Q n) sh of
                (r, es, sh') \<Rightarrow>
                  (map_sum SessionShellFailed id r,
                   tick (e\<lparr>be_sent := (if ss_stdin sh' = ss_stdin sh then be_sent e else sent command),
                           be_shells := AList.update (lv_id s) sh' (be_shells e)\<rparr>))))
      else
        (let cmd = effective_command Q s command envelope
         in (map_sum SessionExecFailed id (exec_once (bv_channel Q n) cmd (plain_options (lv_pty s) [])), tick (e\<lparr>be_sent := sent cmd\<rparr>))))"

definition command_entry :: "broker_caller \<Rightarrow> live_session \<Rightarrow> string \<Rightarrow> string \<Rightarrow> entry" where
  "command_entry c s command outcome = (caller_entry c (lv_host s) outcome)\<lparr>en_serial := lv_serial s, en_session_id := lv_id s,
     en_command := command\<rparr>"

definition session_executed_entry :: "broker_caller \<Rightarrow> live_session \<Rightarrow> string \<Rightarrow> dec_info option \<Rightarrow> int \<Rightarrow> entry" where
  "session_executed_entry c s command dec code = (command_entry c s command ''session_exec'')\<lparr>en_exit_code := code,
     en_elevation := lv_elev_label s, en_pty := lv_pty s, en_policy_rule := rule_of dec, en_warning := go_join (warnings_of dec) ''; ''\<rparr>"

text \<open>\<open>SessionExec\<close> between checkout and checkin.\<close>

definition exec_checked_out :: "broker_env \<Rightarrow> broker_caller \<Rightarrow> live_session \<Rightarrow> string \<Rightarrow> engine \<Rightarrow> (broker_error + broker_result) \<times> engine" where
  "exec_checked_out Q c s command e =
     (case session_command_check s command of
        Some (x, audited) \<Rightarrow>
          (Inl x, if audited then noted Q ((command_entry c s command ''session_exec_denied'')\<lparr>en_err := bv_error_text Q x,
                     en_elevation := lv_elev_label s, en_pty := lv_pty s\<rparr>) e else e)
      | None \<Rightarrow>
          (case authorize_session_exec Q c s command e of
             ((dec, Inl x), e) \<Rightarrow>
               (Inl x, noted Q ((command_entry c s command (if is_upstream x then ''error'' else ''session_exec_denied''))\<lparr>en_err := bv_error_text Q x,
                  en_policy_rule := rule_of dec, en_warning := warning_of dec, en_elevation := lv_elev_label s, en_pty := lv_pty s\<rparr>) e)
           | ((dec, Inr envelope), e) \<Rightarrow>
               (case run_in_session Q s command envelope e of
                  (Inl x, e) \<Rightarrow> (Inl x, noted Q ((command_entry c s command ''error'')\<lparr>en_err := bv_error_text Q x\<rparr>) e)
                | (Inr res, e) \<Rightarrow>
                    (case broker_audit Q (session_executed_entry c s command dec (sr_exit_code res)) e of
                       (False, e) \<Rightarrow> (Inl AuditUnavailable, e)
                     | (True, e) \<Rightarrow> (Inr \<lparr>bq_stdout = sr_stdout res, bq_stderr = sr_stderr res, bq_exit_code = sr_exit_code res,
                                        bq_serial = lv_serial s, bq_warnings = warnings_of dec, bq_dry_run = None\<rparr>, e)))))"

definition broker_session_exec :: "broker_env \<Rightarrow> broker_caller \<Rightarrow> string \<Rightarrow> string \<Rightarrow> engine \<Rightarrow> (broker_error + broker_result) \<times> engine" where
  "broker_session_exec Q c sid command e =
     (case checkout_owned (bv_now Q (be_tick e)) (bv_now Q (Suc (be_tick e))) sid (bk_id c) (be_sessions e) of
        ((s, found, owned), m) \<Rightarrow>
          (let e = tick (tick (e\<lparr>be_sessions := m\<rparr>)) in
           case (found, owned, s) of
             (True, True, Some s) \<Rightarrow>
               (case exec_checked_out Q c s command e of
                  (r, e) \<Rightarrow> (r, tick (e\<lparr>be_sessions := session_checkin (bv_now Q (be_tick e)) sid (be_sessions e)\<rparr>)))
           | (True, False, _) \<Rightarrow> (Inl (NotSessionOwner sid), e)
           | _ \<Rightarrow> (Inl (UnknownSession sid), e)))"

definition broker_close_session :: "broker_env \<Rightarrow> broker_caller \<Rightarrow> string \<Rightarrow> engine \<Rightarrow> broker_error option \<times> engine" where
  "broker_close_session Q c sid e =
     (case remove_owned sid (bk_id c) (be_sessions e) of
        ((Some s, True, True), m) \<Rightarrow>
          (None, noted Q ((caller_entry c (lv_host s) ''session_close'')\<lparr>en_serial := lv_serial s, en_session_id := sid\<rparr>)
                   (e\<lparr>be_sessions := session_close s m\<rparr>))
      | ((s, True, owned), m) \<Rightarrow> (Some (NotSessionOwner sid), e)
      | _ \<Rightarrow> (Some (UnknownSession sid), e))"

end
