(* ===== verification/Broker_Transfer.thy ===== *)
theory Broker_Transfer
  imports Broker
begin

text \<open>
  File transfers and input limits of the broker, \<open>internal/broker/filetransfer.go\<close> and \<open>input.go\<close>: a transfer is a one-shot
  command whose content travels over standard input or output.
\<close>

section \<open>Input limits\<close>

abbreviation max_input_len :: int where "max_input_len \<equiv> 65536"

definition identifier_limits :: "(string, int) go_map" where
  "identifier_limits = [(''server'', 1024), (''sudo_user'', 1024), (''session_id'', 1024), (''mode'', 64), (''cluster'', 1024),
     (''resource'', 1024), (''group'', 1024), (''namespace'', 1024), (''name'', 1024), (''container'', 1024), (''path'', 4096)]"

datatype input_error = FieldTooLong string int | FieldHasNul string

definition field_limit :: "string \<Rightarrow> int" where
  "field_limit name = (case map_of identifier_limits name of None \<Rightarrow> max_input_len | Some l \<Rightarrow> l)"

fun validate_input :: "(string, string) go_map \<Rightarrow> input_error option" where
  "validate_input [] = None"
| "validate_input ((name, val) # inputs) =
     (if field_limit name < int (length val) then Some (FieldTooLong name (field_limit name))
      else if char_of (0 :: nat) \<in> set val then Some (FieldHasNul name)
      else validate_input inputs)"

lemma validate_input_iff:
  "validate_input inputs = None \<longleftrightarrow>
     (\<forall>(name, val) \<in> set inputs. int (length val) \<le> field_limit name \<and> char_of (0 :: nat) \<notin> set val)"
  by (induction inputs rule: validate_input.induct) (auto simp: not_less)

section \<open>Transfers\<close>

abbreviation default_file_transfer_bytes :: int where "default_file_transfer_bytes \<equiv> 524288"

definition file_transfer_max_bytes :: "engine \<Rightarrow> int" where
  "file_transfer_max_bytes e =
     (if 0 < bc_file_transfer_max_bytes (be_config e) then bc_file_transfer_max_bytes (be_config e) else default_file_transfer_bytes)"

record transfer_result =
  tr_content :: string
  tr_size :: int
  tr_sha256 :: string
  tr_serial :: "64 word"
  tr_warnings :: "string list"

definition octal_digit :: "char \<Rightarrow> bool" where
  "octal_digit c \<longleftrightarrow> 48 \<le> (of_char c :: nat) \<and> (of_char c :: nat) \<le> 55"

definition valid_file_mode :: "string \<Rightarrow> bool" where
  "valid_file_mode m \<longleftrightarrow> (length m = 3 \<or> length m = 4) \<and> list_all octal_digit m"

definition validate_transfer_path :: "string \<Rightarrow> broker_error option" where
  "validate_transfer_path path =
     (if path = [] then Some PathRequired
      else if char_of (0 :: nat) \<in> set path then Some PathHasNul
      else if contains_any path [newline, carriage_return] then Some PathHasNewline
      else if has_unsafe_token_char path then Some PathUnsafe
      else None)"

definition transfer_entry :: "broker_env \<Rightarrow> broker_caller \<Rightarrow> string \<Rightarrow> string \<Rightarrow> string \<Rightarrow> string \<Rightarrow> 64 word \<Rightarrow> entry" where
  "transfer_entry Q c host outcome path content serial = (caller_entry c host outcome)\<lparr>en_serial := serial,
     en_command := ''path='' @ path @ '' bytes='' @ nat_decimal (length content) @ '' sha256='' @ bv_sha256 Q content\<rparr>"

definition put_command :: "string \<Rightarrow> string \<Rightarrow> string" where
  "put_command path mode = ''cat > '' @ shell_quote path @ (if mode \<noteq> [] then '' && chmod '' @ mode @ '' '' @ shell_quote path else [])"

definition put_file :: "broker_env \<Rightarrow> broker_caller \<Rightarrow> string \<Rightarrow> string \<Rightarrow> string \<Rightarrow> string \<Rightarrow> int \<Rightarrow> engine \<Rightarrow>
    (broker_error + transfer_result) \<times> engine" where
  "put_file Q c host path content mode ttl_seconds e =
     (case validate_transfer_path path of
        Some x \<Rightarrow> (Inl x, e)
      | None \<Rightarrow>
          (if file_transfer_max_bytes e < int (length content) then (Inl (ContentTooLarge (int (length content)) (file_transfer_max_bytes e)), e)
           else if mode \<noteq> [] \<and> \<not> valid_file_mode mode then (Inl (InvalidFileMode mode), e)
           else case broker_execute Q c host (put_command path mode) ttl_seconds (no_options\<lparr>xo_stdin := content, xo_file_transfer := True\<rparr>) e of
             (Inl x, e) \<Rightarrow> (Inl x, e)
           | (Inr res, e) \<Rightarrow>
               (if bq_exit_code res \<noteq> 0 then (Inl (RemoteWriteFailed (bq_exit_code res) (trim_space (bq_stderr res))), e)
                else case broker_audit Q (transfer_entry Q c host ''file_put'' path content (bq_serial res)) e of
                  (False, e) \<Rightarrow> (Inl AuditUnavailable, e)
                | (True, e) \<Rightarrow> (Inr \<lparr>tr_content = [], tr_size = int (length content), tr_sha256 = bv_sha256 Q content,
                                   tr_serial = bq_serial res, tr_warnings = bq_warnings res\<rparr>, e))))"

definition read_limit :: "engine \<Rightarrow> int \<Rightarrow> int" where
  "read_limit e max_bytes = (if 0 < max_bytes \<and> max_bytes < file_transfer_max_bytes e then max_bytes else file_transfer_max_bytes e)"

definition get_command :: "int \<Rightarrow> string \<Rightarrow> string" where
  "get_command limit path = ''head -c '' @ int_decimal (limit + 1) @ '' < '' @ shell_quote path"

definition get_file :: "broker_env \<Rightarrow> broker_caller \<Rightarrow> string \<Rightarrow> string \<Rightarrow> int \<Rightarrow> int \<Rightarrow> engine \<Rightarrow> (broker_error + transfer_result) \<times> engine" where
  "get_file Q c host path max_bytes ttl_seconds e =
     (case validate_transfer_path path of
        Some x \<Rightarrow> (Inl x, e)
      | None \<Rightarrow>
          (let limit = read_limit e max_bytes in
           case broker_execute Q c host (get_command limit path) ttl_seconds (no_options\<lparr>xo_file_transfer := True\<rparr>) e of
             (Inl x, e) \<Rightarrow> (Inl x, e)
           | (Inr res, e) \<Rightarrow>
               (if bq_exit_code res \<noteq> 0 then (Inl (RemoteReadFailed (bq_exit_code res) (trim_space (bq_stderr res))), e)
                else if limit < int (length (bq_stdout res)) then (Inl (FileTooLarge limit), e)
                else case broker_audit Q (transfer_entry Q c host ''file_get'' path (bq_stdout res) (bq_serial res)) e of
                  (False, e) \<Rightarrow> (Inl AuditUnavailable, e)
                | (True, e) \<Rightarrow> (Inr \<lparr>tr_content = bq_stdout res, tr_size = int (length (bq_stdout res)), tr_sha256 = bv_sha256 Q (bq_stdout res),
                                   tr_serial = bq_serial res, tr_warnings = bq_warnings res\<rparr>, e))))"

section \<open>What a host makes of the command\<close>

text \<open>
  The text of a command that prints the start of a file: \<open>head -c\<close>, a decimal count, and behind the redirection
  one word of the shell, the path. Every other text is \<^term>\<open>None\<close>.
\<close>

definition head_call :: "string \<Rightarrow> (nat \<times> string) option" where
  "head_call cmd =
     (let args = drop 8 cmd; digits = takeWhile is_digit_char args; rest = drop (length digits) args in
      if has_prefix cmd ''head -c '' \<and> digits \<noteq> [] \<and> has_prefix rest '' < '' then
        (case sh_split (drop 3 rest) of Some [path] \<Rightarrow> Some (decimal_value digits, path) | _ \<Rightarrow> None)
      else None)"

text \<open>
  A host with the given files: such a command ends well only if the file is there, and then prints as many of
  its first bytes as the count says.
\<close>

definition serves_files :: "exec_channel \<Rightarrow> (string \<Rightarrow> string option) \<Rightarrow> bool" where
  "serves_files X files \<longleftrightarrow> (\<forall>cmd k path inp t out err w. head_call cmd = Some (k, path)
     \<and> xc_run X cmd False inp t = (out, err, Completed w) \<and> (w = RunOk \<or> w = RunExit 0)
     \<longrightarrow> (\<exists>content. files path = Some content \<and> concat out = take k content))"

lemma head_call_get:
  assumes "0 \<le> limit"
  shows "head_call (get_command limit path) = Some (nat (limit + 1), path)"
proof -
  let ?d = "nat_decimal (nat (limit + 1))"
  have d: "int_decimal (limit + 1) = ?d" using assms by (simp add: int_decimal_def)
  have digits: "list_all is_digit_char ?d" using nat_decimal_digits by (auto simp: list_all_iff)
  have nonempty: "?d \<noteq> []" by (simp add: nat_decimal.simps [of "nat (limit + 1)"])
  have "takeWhile is_digit_char (?d @ CHR '' '' # s) = ?d" for s
    using digits by (simp add: takeWhile_append list_all_iff is_digit_char_def)
  moreover have "sh_split (shell_quote path) = Some [path]" using shell_quote_roundtrip by blast
  ultimately show ?thesis
    using nonempty by (simp add: head_call_def get_command_def d has_prefix_def decimal_value_nat_decimal Let_def)
qed

end
