(* ===== verification/K8s_Client.thy ===== *)
theory K8s_Client
  imports K8s_Action Remote_Client Audit_Log
begin

text \<open>
  The Kubernetes client, \<open>internal/k8s/client.go\<close>: one request with one short-lived token, the paths and queries of the
  five verbs, what is shown of an API server's error, and the minting of bound tokens.

  The network is an argument: what the API server answers to one request (method, URL, token, content type and
  body), or how the transport fails. The JSON codecs are arguments too.
\<close>

section \<open>URLs\<close>

definition hex_upper :: "nat \<Rightarrow> char" where
  "hex_upper n = (if n < 10 then char_of (48 + n) else char_of (55 + n))"

definition percent :: "char \<Rightarrow> string" where
  "percent c = (let n = (of_char c :: nat) in [CHR ''%'', hex_upper (n div 16), hex_upper (n mod 16)])"

definition unreserved :: "char \<Rightarrow> bool" where
  "unreserved c \<longleftrightarrow> is_alpha_char c \<or> is_digit_char c \<or> c \<in> set ''-_.~''"

definition path_escape :: "string \<Rightarrow> string" where
  "path_escape s = concat (map (\<lambda>c. if unreserved c \<or> c \<in> set ''$&+=:@'' then [c] else percent c) s)"

definition query_escape :: "string \<Rightarrow> string" where
  "query_escape s = concat (map (\<lambda>c. if c = CHR '' '' then ''+'' else if unreserved c then [c] else percent c) s)"

text \<open>\<open>url.Values.Encode\<close>: the keys in order.\<close>

definition encode_query :: "(string \<times> string) list \<Rightarrow> string" where
  "encode_query q = go_join (map (\<lambda>(k, v). query_escape k @ ''='' @ query_escape v) (sort_key fst q)) ''&''"

definition resource_path :: "resource_def \<Rightarrow> string \<Rightarrow> string \<Rightarrow> string" where
  "resource_path d namespace name =
     (if rd_group d = [] then ''/api/'' @ path_escape (rd_version d)
      else ''/apis/'' @ path_escape (rd_group d) @ ''/'' @ path_escape (rd_version d))
     @ (if rd_namespaced d \<and> namespace \<noteq> [] then ''/namespaces/'' @ path_escape namespace else [])
     @ ''/'' @ path_escape (rd_resource d)
     @ (if name \<noteq> [] then ''/'' @ path_escape name else [])"

section \<open>What is shown of an error\<close>

abbreviation bound_placeholder :: string where "bound_placeholder \<equiv> ''<bound service account>''"

abbreviation dquote :: char where "dquote \<equiv> CHR 0x22"

text \<open>The clause \<open>User "..."\<close>, replaced wherever it starts.\<close>

function redact_clause :: "string \<Rightarrow> string" where
  "redact_clause s =
     (case s of
        [] \<Rightarrow> []
      | c # t \<Rightarrow>
          (let rest = drop 6 s in
           if prefix (''User '' @ [dquote]) s \<and> dquote \<in> set rest
           then ''User '' @ [dquote] @ bound_placeholder @ [dquote] @ redact_clause (drop (Suc (length (takeWhile (\<lambda>c. c \<noteq> dquote) rest))) rest)
           else c # redact_clause t))"
  by pat_completeness auto
termination
  by (relation "measure length") auto

declare redact_clause.simps [simp del]

definition sa_end :: "char \<Rightarrow> bool" where
  "sa_end c \<longleftrightarrow> (of_char c :: nat) \<in> {9, 10, 12, 13, 32} \<or> c \<in> {dquote, CHR 0x27, CHR '','', CHR '';'', CHR '')''}"

abbreviation sa_prefix :: string where "sa_prefix \<equiv> ''system:serviceaccount:''"
abbreviation sas_prefix :: string where "sas_prefix \<equiv> ''system:serviceaccounts:''"

definition sa_match :: "string \<Rightarrow> string option" where
  "sa_match s = (if prefix sa_prefix s then Some (drop (length sa_prefix) s)
     else if prefix sas_prefix s then Some (drop (length sas_prefix) s) else None)"

lemma sa_match_shorter: "sa_match s = Some r \<Longrightarrow> length r < length s"
  by (auto simp: sa_match_def prefix_def split: if_splits)

text \<open>Any other identity of a service account, up to a delimiter.\<close>

function redact_identity :: "string \<Rightarrow> string" where
  "redact_identity s =
     (case sa_match s of
        Some rest \<Rightarrow> bound_placeholder @ redact_identity (dropWhile (\<lambda>c. \<not> sa_end c) rest)
      | None \<Rightarrow> (case s of [] \<Rightarrow> [] | c # t \<Rightarrow> c # redact_identity t))"
  by pat_completeness auto
termination
proof (relation "measure length")
  fix s rest assume "sa_match s = Some rest"
  then show "(dropWhile (\<lambda>c. \<not> sa_end c) rest, s) \<in> measure length"
    using sa_match_shorter [of s rest] length_dropWhile_le [of "\<lambda>c. \<not> sa_end c" rest] by simp
qed auto

declare redact_identity.simps [simp del]

definition redact_principal :: "string \<Rightarrow> string" where
  "redact_principal s = redact_identity (redact_clause s)"

record status_error =
  ke_method :: string
  ke_path :: string
  ke_code :: int
  ke_msg :: string

definition status_error_text :: "status_error \<Rightarrow> string" where
  "status_error_text x = ''k8s: '' @ ke_method x @ '' '' @ ke_path x @ '': '' @ redact_principal (ke_msg x)"

definition status_error_detail :: "status_error \<Rightarrow> string" where
  "status_error_detail x = ''k8s: '' @ ke_method x @ '' '' @ ke_path x @ '': '' @ ke_msg x"

section \<open>Requests\<close>

abbreviation api_max_bytes :: int where "api_max_bytes \<equiv> 4194304"
abbreviation logs_max_bytes :: int where "logs_max_bytes \<equiv> 524288"
abbreviation FieldManager :: string where "FieldManager \<equiv> ''infrabroker''"

record k8s_target =
  kt_api_server :: string
  kt_ca_pem :: string

datatype transport_cause = RequestCanceled | RequestTimedOut | Unreachable

text \<open>\<open>transportErrorCause\<close>: the shape of a failure without its address.\<close>

definition transport_cause_text :: "transport_cause \<Rightarrow> string" where
  "transport_cause_text c = (case c of RequestCanceled \<Rightarrow> ''request canceled'' | RequestTimedOut \<Rightarrow> ''request timed out''
     | Unreachable \<Rightarrow> ''could not reach the API server'')"

record api_request =
  aq_method :: string
  aq_url :: string
  aq_token :: string
  aq_content_type :: string
  aq_body :: "string option"

record api_answer =
  aa_status :: int
  aa_body :: string
  aa_read_ok :: bool

datatype k8s_call_error =
    NoCACertificate
  | K8sBuildRequest
  | K8sTransport string string transport_cause
  | K8sReadResponse
  | K8sResponseTooLarge string string int
  | K8sStatus status_error
  | K8sUnknownCluster string
  | K8sMinterToken
  | K8sMintStatus string string string string
  | K8sMintFailure string string string k8s_call_error
  | K8sInvalidTokenResponse string

record k8s_lib =
  kl_ca_ok :: "string \<Rightarrow> bool"
  kl_url_ok :: "string \<Rightarrow> bool"
  kl_status_message :: "string \<Rightarrow> string option"
  kl_encode_token_request :: "int \<Rightarrow> string"
  kl_decode_token :: "string \<Rightarrow> (string \<times> go_time) option"

type_synonym k8s_net = "api_request \<Rightarrow> transport_cause + api_answer"

record k8s_client =
  kc_target :: k8s_target
  kc_token :: string

definition new_k8s_client :: "k8s_lib \<Rightarrow> k8s_target \<Rightarrow> string \<Rightarrow> k8s_call_error + k8s_client" where
  "new_k8s_client K t token = (if kl_ca_ok K (kt_ca_pem t) then Inr \<lparr>kc_target = t, kc_token = token\<rparr> else Inl NoCACertificate)"

text \<open>\<open>statusMessage\<close>; \<open>kl_status_message\<close> is the message field of a Status document.\<close>

definition status_message :: "k8s_lib \<Rightarrow> string \<Rightarrow> int \<Rightarrow> string" where
  "status_message K body code =
     int_decimal code @ '' '' @ (case kl_status_message K body of Some m \<Rightarrow> if m \<noteq> [] then m else trim_space body | None \<Rightarrow> trim_space body)"

definition trim_right_slashes :: "string \<Rightarrow> string" where
  "trim_right_slashes s = rev (dropWhile (\<lambda>c. c = CHR ''/'') (rev s))"

definition k8s_do :: "k8s_lib \<Rightarrow> k8s_net \<Rightarrow> k8s_client \<Rightarrow> string \<Rightarrow> string \<Rightarrow> (string \<times> string) list \<Rightarrow> string \<Rightarrow> string option \<Rightarrow> int \<Rightarrow>
    k8s_call_error + string" where
  "k8s_do K net c meth path query content_type body max_bytes =
     (let u = trim_right_slashes (kt_api_server (kc_target c)) @ path @ (if query \<noteq> [] then ''?'' @ encode_query query else []) in
      if \<not> kl_url_ok K u then Inl K8sBuildRequest
      else case net \<lparr>aq_method = meth, aq_url = u, aq_token = kc_token c, aq_content_type = content_type, aq_body = body\<rparr> of
        Inl cause \<Rightarrow> Inl (K8sTransport meth path cause)
      | Inr a \<Rightarrow>
          (let rb = limit_read (max_bytes + 1) (aa_body a) in
           if \<not> aa_read_ok a then Inl K8sReadResponse
           else if max_bytes < int (length rb) then Inl (K8sResponseTooLarge meth path max_bytes)
           else if aa_status a < 200 \<or> 300 \<le> aa_status a then
             Inl (K8sStatus \<lparr>ke_method = meth, ke_path = path, ke_code = aa_status a, ke_msg = status_message K rb (aa_status a)\<rparr>)
           else Inr rb))"

definition k8s_get :: "k8s_lib \<Rightarrow> k8s_net \<Rightarrow> k8s_client \<Rightarrow> resource_def \<Rightarrow> string \<Rightarrow> string \<Rightarrow> k8s_call_error + string" where
  "k8s_get K net c d namespace name = k8s_do K net c ''GET'' (resource_path d namespace name) [] [] None api_max_bytes"

record list_options =
  lo_label_selector :: string
  lo_field_selector :: string
  lo_limit :: int

definition k8s_list :: "k8s_lib \<Rightarrow> k8s_net \<Rightarrow> k8s_client \<Rightarrow> resource_def \<Rightarrow> string \<Rightarrow> list_options \<Rightarrow> k8s_call_error + string" where
  "k8s_list K net c d namespace opt =
     k8s_do K net c ''GET'' (resource_path d namespace [])
       ((if lo_label_selector opt \<noteq> [] then [(''labelSelector'', lo_label_selector opt)] else [])
        @ (if lo_field_selector opt \<noteq> [] then [(''fieldSelector'', lo_field_selector opt)] else [])
        @ (if 0 < lo_limit opt then [(''limit'', int_decimal (lo_limit opt))] else []))
       [] None api_max_bytes"

record log_options =
  go_container :: string
  go_tail_lines :: int
  go_since_seconds :: int

definition k8s_logs :: "k8s_lib \<Rightarrow> k8s_net \<Rightarrow> k8s_client \<Rightarrow> string \<Rightarrow> string \<Rightarrow> log_options \<Rightarrow> k8s_call_error + string" where
  "k8s_logs K net c namespace pod opt =
     k8s_do K net c ''GET'' (''/api/v1/namespaces/'' @ path_escape namespace @ ''/pods/'' @ path_escape pod @ ''/log'')
       ((if go_container opt \<noteq> [] then [(''container'', go_container opt)] else [])
        @ [(''tailLines'', int_decimal (if go_tail_lines opt \<le> 0 then 200 else go_tail_lines opt))]
        @ (if 0 < go_since_seconds opt then [(''sinceSeconds'', int_decimal (go_since_seconds opt))] else []))
       [] None logs_max_bytes"

definition k8s_delete :: "k8s_lib \<Rightarrow> k8s_net \<Rightarrow> k8s_client \<Rightarrow> resource_def \<Rightarrow> string \<Rightarrow> string \<Rightarrow> k8s_call_error + string" where
  "k8s_delete K net c d namespace name = k8s_do K net c ''DELETE'' (resource_path d namespace name) [] [] None api_max_bytes"

definition k8s_apply :: "k8s_lib \<Rightarrow> k8s_net \<Rightarrow> k8s_client \<Rightarrow> resource_def \<Rightarrow> string \<Rightarrow> string \<Rightarrow> string \<Rightarrow> k8s_call_error + string" where
  "k8s_apply K net c d namespace name manifest =
     k8s_do K net c ''PATCH'' (resource_path d namespace name) [(''fieldManager'', FieldManager)] ''application/apply-patch+yaml''
       (Some manifest) api_max_bytes"

section \<open>Minting\<close>

record minter_target =
  mt_target :: k8s_target
  mt_token_file :: "string option"

text \<open>\<open>MintToken\<close>; \<open>mt_token_file\<close> is the content of the token file, \<^term>\<open>None\<close> where it cannot be read.\<close>

definition mint_token :: "k8s_lib \<Rightarrow> k8s_net \<Rightarrow> (string, minter_target) go_map \<Rightarrow> string \<Rightarrow> string \<Rightarrow> string \<Rightarrow> go_duration \<Rightarrow>
    k8s_call_error + string \<times> go_time" where
  "mint_token K net targets cluster namespace sa ttl =
     (case map_of targets cluster of
        None \<Rightarrow> Inl (K8sUnknownCluster cluster)
      | Some t \<Rightarrow>
          (case mt_token_file t of
             None \<Rightarrow> Inl K8sMinterToken
           | Some tok \<Rightarrow>
               (case new_k8s_client K (mt_target t) (trim_space tok) of
                  Inl x \<Rightarrow> Inl x
                | Inr c \<Rightarrow>
                    (case k8s_do K net c ''POST'' (''/api/v1/namespaces/'' @ path_escape namespace @ ''/serviceaccounts/'' @ path_escape sa @ ''/token'')
                            [] ''application/json'' (Some (kl_encode_token_request K (ttl sdiv go_second))) api_max_bytes of
                       Inl (K8sStatus x) \<Rightarrow> Inl (K8sMintStatus namespace sa cluster (status_error_detail x))
                     | Inl x \<Rightarrow> Inl (K8sMintFailure namespace sa cluster x)
                     | Inr out \<Rightarrow>
                         (case kl_decode_token K out of
                            None \<Rightarrow> Inl (K8sInvalidTokenResponse cluster)
                          | Some (token, expiry) \<Rightarrow> (if token = [] then Inl (K8sInvalidTokenResponse cluster) else Inr (token, expiry)))))))"

section \<open>The principal is not shown\<close>

lemma redact_identity_match: "sa_match s = Some r \<Longrightarrow> redact_identity s = bound_placeholder @ redact_identity (dropWhile (\<lambda>c. \<not> sa_end c) r)"
  by (simp add: redact_identity.simps)

lemma redact_identity_keep: "sa_match (c # t) = None \<Longrightarrow> redact_identity (c # t) = c # redact_identity t"
  by (subst redact_identity.simps) simp

lemma redact_identity_Nil [simp]: "redact_identity [] = []"
  by (simp add: redact_identity.simps sa_match_def)

text \<open>Text without the placeholder's bracket that starts the masked string starts the original.\<close>

lemma redact_identity_prefix:
  assumes "prefix p (redact_identity s)" and "CHR ''<'' \<notin> set p"
  shows "prefix p s"
  using assms
proof (induction s arbitrary: p)
  case (Cons c t)
  show ?case
  proof (cases "sa_match (c # t)")
    case (Some r)
    then show ?thesis using Cons.prems by (cases p) (auto simp: redact_identity_match)
  next
    case None
    then show ?thesis using Cons.prems Cons.IH by (cases p) (auto simp: redact_identity_keep)
  qed
qed simp

lemma placeholder_clear:
  "contains_substr (bound_placeholder @ x) sa_prefix = contains_substr x sa_prefix"
  "contains_substr (bound_placeholder @ x) sas_prefix = contains_substr x sas_prefix"
  by simp_all

lemma redact_identity_hides:
  assumes "p = sa_prefix \<or> p = sas_prefix"
  shows "\<not> contains_substr (redact_identity s) p"
proof (induction s rule: redact_identity.induct)
  case (1 s)
  have p: "p \<noteq> []" "CHR ''<'' \<notin> set p" using assms by auto
  show ?case
  proof (cases "sa_match s")
    case (Some r)
    then show ?thesis using 1(2) [OF Some] assms placeholder_clear by (auto simp: redact_identity_match)
  next
    case None
    show ?thesis
    proof (cases s)
      case (Cons c t)
      have "\<not> prefix p (c # redact_identity t)"
      proof
        assume "prefix p (c # redact_identity t)"
        then have "prefix p (c # t)" using redact_identity_prefix [of "tl p" t] p by (cases p) auto
        then show False using None assms Cons by (auto simp: sa_match_def split: if_splits)
      qed
      then show ?thesis using 1(1) [OF None Cons] None Cons by (simp add: redact_identity_keep)
    qed (use p in simp)
  qed
qed

text \<open>
  What a caller is told of an API server's error never names the service account behind the token: the message is
  free of every identity \<open>system:serviceaccount:...\<close> and \<open>system:serviceaccounts:...\<close>, whatever the server wrote.
\<close>

theorem error_hides_principal:
  "\<not> contains_substr (redact_principal m) ''system:serviceaccount:'' \<and> \<not> contains_substr (redact_principal m) ''system:serviceaccounts:''
   \<and> status_error_text \<lparr>ke_method = meth, ke_path = path, ke_code = code, ke_msg = m\<rparr>
     = ''k8s: '' @ meth @ '' '' @ path @ '': '' @ redact_principal m"
  using redact_identity_hides by (simp add: redact_principal_def status_error_text_def)

section \<open>Answers are whole and paths are distinct\<close>

lemma limit_read_whole: "int (length (limit_read (n + 1) s)) \<le> n \<Longrightarrow> limit_read (n + 1) s = s"
  by (auto simp: limit_read_def split: if_splits)

lemma k8s_do_whole:
  assumes "k8s_do K net c meth path query content_type body max_bytes = Inr out"
  shows "int (length out) \<le> max_bytes \<and> (\<exists>a. net \<lparr>aq_method = meth,
      aq_url = trim_right_slashes (kt_api_server (kc_target c)) @ path @ (if query \<noteq> [] then ''?'' @ encode_query query else []),
      aq_token = kc_token c, aq_content_type = content_type, aq_body = body\<rparr> = Inr a \<and> out = aa_body a \<and> 200 \<le> aa_status a \<and> aa_status a < 300)"
  using assms limit_read_whole
  by (auto simp: k8s_do_def Let_def split: if_splits sum.splits)

text \<open>A path is its segments, each after a slash.\<close>

definition segments :: "string list \<Rightarrow> string" where
  "segments ss = concat (map (\<lambda>s. CHR ''/'' # s) ss)"

lemma segments_split: "\<forall>s \<in> set ss. CHR ''/'' \<notin> set s \<Longrightarrow> split_on (CHR ''/'') (segments ss) = [] # ss"
proof (induction ss)
  case (Cons s ss)
  have "split_on (CHR ''/'') (s @ segments ss) = s # ss"
  proof (cases ss)
    case Nil
    then show ?thesis using Cons.prems by (simp add: segments_def split_on_single)
  next
    case (Cons u us)
    have "split_on (CHR ''/'') (segments ss) = [] # ss" using Cons.IH Cons.prems by simp
    then show ?thesis using Cons.prems by (simp add: segments_def Cons split_on_append)
  qed
  then show ?case by (simp add: segments_def)
qed (simp add: segments_def)

lemma segments_inject:
  "segments ss = segments ts \<Longrightarrow> \<forall>s \<in> set ss. CHR ''/'' \<notin> set s \<Longrightarrow> \<forall>t \<in> set ts. CHR ''/'' \<notin> set t \<Longrightarrow> ss = ts"
  by (metis list.inject segments_split)

lemma hex_upper_code: "n < 16 \<Longrightarrow> (of_char (hex_upper n) :: nat) = (if n < 10 then 48 + n else 55 + n)"
  by (simp add: hex_upper_def)

lemma hex_upper_plain: "n < 16 \<Longrightarrow> hex_upper n \<noteq> CHR ''/''"
  using hex_upper_code [of n] by (auto split: if_splits)

lemma percent_no_slash: "CHR ''/'' \<notin> set (percent c)"
proof -
  have "(of_char c :: nat) div 16 < 16" by (simp add: less_mult_imp_div_less)
  then show ?thesis using hex_upper_plain by (auto simp: percent_def Let_def dest: sym)
qed

lemma path_escape_no_slash: "CHR ''/'' \<notin> set (path_escape s)"
proof -
  define safe where "safe c \<longleftrightarrow> unreserved c \<or> c \<in> set ''$&+=:@''" for c
  have "\<not> safe (CHR ''/'')" by (simp add: safe_def unreserved_def char_class_defs)
  then have "CHR ''/'' \<notin> set (if safe c then [c] else percent c)" for c
    using percent_no_slash [of c] by (cases "safe c") auto
  then have "CHR ''/'' \<notin> set (if unreserved c \<or> c \<in> set ''$&+=:@'' then [c] else percent c)" for c
    unfolding safe_def by blast
  then show ?thesis unfolding path_escape_def set_concat set_map by blast
qed

lemma hex_upper_inject: "m < 16 \<Longrightarrow> n < 16 \<Longrightarrow> hex_upper m = hex_upper n \<Longrightarrow> m = n"
  by (drule arg_cong [where f = "of_char :: char \<Rightarrow> nat"]) (simp add: hex_upper_code split: if_splits)

lemma percent_inject: "percent c = percent d \<Longrightarrow> c = d"
proof -
  assume a: "percent c = percent d"
  let ?c = "of_char c :: nat" and ?d = "of_char d :: nat"
  have "?c div 16 < 16" "?d div 16 < 16" by (simp_all add: less_mult_imp_div_less)
  then have "?c div 16 = ?d div 16" "?c mod 16 = ?d mod 16"
    using a by (auto simp: percent_def Let_def intro: hex_upper_inject)
  then have "?c = ?d" by (metis mod_mult_div_eq)
  then show "c = d" by simp
qed

lemma path_escape_inject: "path_escape s = path_escape t \<Longrightarrow> s = t"
proof (induction s arbitrary: t)
  case Nil
  then show ?case by (cases t) (auto simp: path_escape_def percent_def Let_def split: if_splits)
next
  case (Cons c s)
  let ?safe = "\<lambda>c. unreserved c \<or> c \<in> set ''$&+=:@''"
  obtain d u where t: "t = d # u" using Cons.prems by (cases t) (auto simp: path_escape_def percent_def Let_def split: if_splits)
  have eq: "(if ?safe c then [c] else percent c) @ path_escape s = (if ?safe d then [d] else percent d) @ path_escape u"
    using Cons.prems by (simp add: path_escape_def t)
  have no: "\<not> ?safe (CHR ''%'')" by (simp add: unreserved_def char_class_defs)
  have len: "length (percent x) = 3" "hd (percent x) = CHR ''%''" "percent x \<noteq> []" for x by (simp_all add: percent_def Let_def)
  have "?safe c = ?safe d"
  proof (rule ccontr)
    assume "?safe c \<noteq> ?safe d"
    then have "c = CHR ''%'' \<and> ?safe c \<or> d = CHR ''%'' \<and> ?safe d"
      using arg_cong [OF eq, of hd] len by (auto split: if_splits)
    then show False using no by blast
  qed
  then have "(if ?safe c then [c] else percent c) = (if ?safe d then [d] else percent d) \<and> path_escape s = path_escape u"
    using eq len by (auto split: if_splits)
  then show ?case using Cons.IH t percent_inject \<open>?safe c = ?safe d\<close> by (auto split: if_splits)
qed

lemma resource_path_segments:
  "resource_path d namespace name =
     segments ((if rd_group d = [] then [''api'', path_escape (rd_version d)] else [''apis'', path_escape (rd_group d), path_escape (rd_version d)])
       @ (if rd_namespaced d \<and> namespace \<noteq> [] then [''namespaces'', path_escape namespace] else []) @ [path_escape (rd_resource d)]
       @ (if name \<noteq> [] then [path_escape name] else []))"
  by (simp add: resource_path_def segments_def)

text \<open>
  The request path names the object: for one resource two paths are equal only when the names are equal, and for a
  namespaced resource the namespaces too, whatever characters they contain.
\<close>

theorem resource_path_inject:
  assumes "resource_path d ns name = resource_path d ns' name'"
  shows "name = name' \<and> (rd_namespaced d \<longrightarrow> ns = ns')"
proof -
  let ?mid = "\<lambda>ns name. (if rd_namespaced d \<and> ns \<noteq> [] then [''namespaces'', path_escape ns] else []) @ [path_escape (rd_resource d)]
       @ (if name \<noteq> [] then [path_escape name] else [])"
  have "?mid ns name = ?mid ns' name'"
    using assms unfolding resource_path_segments
    by (auto dest!: segments_inject simp: path_escape_no_slash split: if_splits)
  then show ?thesis by (auto split: if_splits dest: path_escape_inject)
qed

definition example_pods :: resource_def where
  "example_pods = \<lparr>rd_resource = ''pods'', rd_group = [], rd_version = ''v1'', rd_kind = ''Pod'', rd_namespaced = True\<rparr>"

theorem resource_path_inject_witness:
  "{(ns, name). resource_path example_pods ns name = resource_path example_pods ''prod'' ''../secrets''} = {(''prod'', ''../secrets'')}"
  using resource_path_inject [of example_pods _ _ "''prod''" "''../secrets''"] by (auto simp: example_pods_def)

end
