(* ===== verification/Broker_K8s.thy ===== *)
theory Broker_K8s
  imports Broker K8s_Client
begin

text \<open>
  Kubernetes actions of the broker, \<open>internal/broker/k8s.go\<close>: the clusters a caller sees and \<open>K8sExecute\<close>, which asks
  the signer for a bound token, makes one call with it and records the outcome. The network towards the API server
  and its libraries are arguments; \<open>be_sent\<close> is not used for it, the requests are those of \<open>K8s_Client\<close>.
\<close>

record k8s_options =
  kx_list :: list_options
  kx_logs :: log_options

record k8s_env =
  kv_broker :: broker_env
  kv_lib :: k8s_lib
  kv_net :: "nat \<Rightarrow> k8s_net"
  kv_call_text :: "k8s_call_error \<Rightarrow> string"

datatype k8s_outcome_error = K8sBroker broker_error | K8sCall k8s_call_error

record k8s_result =
  kr_output :: string
  kr_serial :: "64 word"
  kr_warnings :: "string list"
  kr_dry_run :: "dec_info option"

definition k8s_clusters :: "broker_caller \<Rightarrow> engine \<Rightarrow> string list" where
  "k8s_clusters c e =
     sort (map fst (filter (\<lambda>(n, ci). case bk_groups c of None \<Rightarrow> True | Some gs \<Rightarrow> groups_intersect (wc_groups ci) gs) (be_clusters e)))"

definition run_k8s_action :: "k8s_lib \<Rightarrow> k8s_net \<Rightarrow> k8s_client \<Rightarrow> resource_def \<Rightarrow> k8s_action \<Rightarrow> string \<Rightarrow> k8s_options \<Rightarrow>
    k8s_outcome_error + string" where
  "run_k8s_action K net cl d a manifest opts =
     (if ka_verb a = K8sVerbGet then map_sum K8sCall id (k8s_get K net cl d (ka_namespace a) (ka_name a))
      else if ka_verb a = K8sVerbList then map_sum K8sCall id (k8s_list K net cl d (ka_namespace a) (kx_list opts))
      else if ka_verb a = K8sVerbLogs then map_sum K8sCall id (k8s_logs K net cl (ka_namespace a) (ka_name a) (kx_logs opts))
      else if ka_verb a = K8sVerbDelete then map_sum K8sCall id (k8s_delete K net cl d (ka_namespace a) (ka_name a))
      else if ka_verb a = K8sVerbApply then
        (if manifest = [] then Inl (K8sBroker ManifestRequired)
         else map_sum K8sCall id (k8s_apply K net cl d (ka_namespace a) (ka_name a) manifest))
      else Inl (K8sBroker (K8sInvalid (UnknownVerb (ka_verb a)))))"

definition cluster_resource_table :: "wire_cluster_info \<Rightarrow> k8s_error + resource_table" where
  "cluster_resource_table ci = k8s_resources (wc_extra_resources ci)"

text \<open>\<open>k8sPreflightDenied\<close>, whose record holds nothing that was not validated but the error.\<close>

definition k8s_preflight_denied :: "k8s_env \<Rightarrow> broker_caller \<Rightarrow> string \<Rightarrow> broker_error \<Rightarrow> engine \<Rightarrow> (k8s_outcome_error + k8s_result) \<times> engine" where
  "k8s_preflight_denied V c host x e =
     (Inl (K8sBroker x), noted (kv_broker V) ((caller_entry c host ''denied'')\<lparr>en_target_type := TargetTypeK8s, en_command := ''target=k8s'',
        en_err := bv_error_text (kv_broker V) x\<rparr>) e)"

definition broker_k8s_entry :: "k8s_env \<Rightarrow> broker_caller \<Rightarrow> string \<Rightarrow> string \<Rightarrow> 64 word \<Rightarrow> string \<Rightarrow> dec_info option \<Rightarrow> string \<Rightarrow> string \<Rightarrow> engine \<Rightarrow> entry" where
  "broker_k8s_entry V c cluster canonical serial outcome dec err manifest e =
     (caller_entry c (case map_of (be_clusters e) cluster of None \<Rightarrow> cluster | Some ci \<Rightarrow> wc_api_server ci) outcome)
       \<lparr>en_command := ''target=k8s action='' @ canonical, en_serial := serial, en_target_type := TargetTypeK8s,
        en_dry_run := has_prefix outcome ''dry_run_'',
        en_body_sha256 := (if manifest \<noteq> [] then bv_sha256 (kv_broker V) manifest else []),
        en_policy_rule := rule_of dec, en_warning := warning_of dec, en_err := err\<rparr>"

definition audit_broker_k8s :: "k8s_env \<Rightarrow> broker_caller \<Rightarrow> string \<Rightarrow> string \<Rightarrow> 64 word \<Rightarrow> string \<Rightarrow> dec_info option \<Rightarrow> string \<Rightarrow> string \<Rightarrow>
    engine \<Rightarrow> bool \<times> engine" where
  "audit_broker_k8s V c cluster canonical serial outcome dec err manifest e =
     append_broker_audit (kv_broker V) (broker_k8s_entry V c cluster canonical serial outcome dec err manifest e) e"

definition broker_k8s_intent :: "broker_caller \<Rightarrow> string \<Rightarrow> k8s_action \<Rightarrow> bool \<Rightarrow> intent" where
  "broker_k8s_intent c cluster a dry_run =
     (plain_intent local_caller cluster (k8s_canonical a))\<lparr>in_target_type := TargetTypeK8s, in_k8s := Some a, in_dry_run := dry_run,
        in_end_user := bk_id c, in_end_user_groups := bk_groups c, in_end_user_context := bk_context c, in_raw_token := bk_raw_token c\<rparr>"

text \<open>The action as it is signed and run: the group of the table, and no namespace for a cluster-scoped resource.\<close>

definition normal_action :: "resource_def \<Rightarrow> k8s_action \<Rightarrow> k8s_action" where
  "normal_action d a = a\<lparr>ka_group := rd_group d, ka_namespace := (if rd_namespaced d then ka_namespace a else [])\<rparr>"

text \<open>The text the record of a call gets: for an API error the message before masking.\<close>

definition k8s_audit_text :: "k8s_env \<Rightarrow> k8s_outcome_error \<Rightarrow> string" where
  "k8s_audit_text V x = (case x of K8sCall (K8sStatus s) \<Rightarrow> status_error_detail s | K8sCall y \<Rightarrow> kv_call_text V y
     | K8sBroker y \<Rightarrow> bv_error_text (kv_broker V) y)"

text \<open>With the token in hand: one call, its record, its result.\<close>

definition k8s_run :: "k8s_env \<Rightarrow> broker_caller \<Rightarrow> string \<Rightarrow> wire_cluster_info \<Rightarrow> resource_def \<Rightarrow> k8s_action \<Rightarrow> string \<Rightarrow> k8s_options \<Rightarrow>
    issued_remote \<Rightarrow> engine \<Rightarrow> (k8s_outcome_error + k8s_result) \<times> engine" where
  "k8s_run V c cluster ci d a manifest opts iu e =
     (let canonical = k8s_canonical a in
      case new_k8s_client (kv_lib V) \<lparr>kt_api_server = wc_api_server ci, kt_ca_pem = wc_ca_cert_pem ci\<rparr> (ir_k8s_token iu) of
        Inl x \<Rightarrow> (Inl (K8sCall x), snd (audit_broker_k8s V c cluster canonical (ir_serial iu) ''error'' (ir_decision iu) (kv_call_text V x) [] e))
      | Inr cl \<Rightarrow>
          (let r = run_k8s_action (kv_lib V) (kv_net V (be_tick e)) cl d a manifest opts;
               outcome = (case r of Inl x \<Rightarrow> ''error'' | Inr out \<Rightarrow> ''executed'');
               err = (case r of Inl x \<Rightarrow> k8s_audit_text V x | Inr out \<Rightarrow> [])
           in case audit_broker_k8s V c cluster canonical (ir_serial iu) outcome (ir_decision iu) err manifest (tick e) of
                (False, e) \<Rightarrow> (Inl (K8sBroker AuditUnavailable), e)
              | (True, e) \<Rightarrow>
                  (map_sum id (\<lambda>out. \<lparr>kr_output = out, kr_serial = ir_serial iu, kr_warnings = warnings_of (ir_decision iu), kr_dry_run = None\<rparr>) r, e)))"

definition k8s_execute :: "k8s_env \<Rightarrow> broker_caller \<Rightarrow> string \<Rightarrow> k8s_action \<Rightarrow> string \<Rightarrow> bool \<Rightarrow> k8s_options \<Rightarrow> engine \<Rightarrow>
    (k8s_outcome_error + k8s_result) \<times> engine" where
  "k8s_execute V c cluster action manifest dry_run opts e =
     (case map_of (be_clusters e) cluster of
        None \<Rightarrow> k8s_preflight_denied V c cluster (ClusterUnknown cluster) e
      | Some ci \<Rightarrow>
          (case k8s_validate action of
             Some x \<Rightarrow> k8s_preflight_denied V c (wc_api_server ci) (K8sInvalid x) e
           | None \<Rightarrow>
               (case cluster_resource_table ci of
                  Inl x \<Rightarrow> k8s_preflight_denied V c (wc_api_server ci) (K8sInvalid x) e
                | Inr table \<Rightarrow>
                    (case k8s_resolve table (ka_resource action) (ka_group action) of
                       Inl x \<Rightarrow> k8s_preflight_denied V c (wc_api_server ci) (K8sInvalid x) e
                     | Inr d \<Rightarrow>
                         (let a = normal_action d action; canonical = k8s_canonical a in
                          if ka_verb a = K8sVerbApply \<and> \<not> dry_run \<and> trim_space manifest = [] then
                            k8s_preflight_denied V c (wc_api_server ci) ManifestRequired e
                          else case bv_sign (kv_broker V) (be_tick e) (broker_k8s_intent c cluster a dry_run) of
                            Inl f \<Rightarrow>
                              (let x = classify_sign_err (SigningFailure f) in
                               (Inl (K8sBroker x), snd (audit_broker_k8s V c cluster canonical 0 (if is_upstream x then ''error'' else ''denied'') None
                                   (bv_error_text (kv_broker V) x) [] (tick e))))
                          | Inr iu \<Rightarrow>
                              (if dry_run then
                                 (let outcome = (case ir_decision iu of None \<Rightarrow> ''dry_run_allowed''
                                        | Some dec \<Rightarrow> if dw_allowed dec then ''dry_run_allowed'' else ''dry_run_denied'')
                                  in (Inr \<lparr>kr_output = [], kr_serial = 0, kr_warnings = [], kr_dry_run = ir_decision iu\<rparr>,
                                      snd (audit_broker_k8s V c cluster canonical 0 outcome (ir_decision iu) [] [] (tick e))))
                               else if ir_k8s_token iu = [] then
                                 (Inl (K8sBroker (approval_error cluster (ir_decision iu) no_options)),
                                  snd (audit_broker_k8s V c cluster canonical 0 ''approval_required'' (ir_decision iu) [] [] (tick e)))
                               else k8s_run V c cluster ci d a manifest opts iu (tick e)))))))"

end
