(* ===== verification/Base64.thy ===== *)
theory Base64
  imports Audit_Log
begin

text \<open>
  \<open>base64.StdEncoding\<close> as the tools of \<open>internal/mcpserver/tools.go\<close> use it for binary file contents: the encoder with padding, and
  the decoder, which skips line breaks anywhere, wants padding, ignores the unused bits of the last digit and takes nothing after it.
\<close>

definition b64_char :: "nat \<Rightarrow> char" where
  "b64_char k = char_of (if k < 26 then k + 65 else if k < 52 then k + 71 else if k < 62 then k - 4 else if k = 62 then 43 else (47 :: nat))"

definition b64_digit :: "char \<Rightarrow> nat option" where
  "b64_digit c =
     (let n = (of_char c :: nat) in
      if 65 \<le> n \<and> n \<le> 90 then Some (n - 65) else if 97 \<le> n \<and> n \<le> 122 then Some (n - 71)
      else if 48 \<le> n \<and> n \<le> 57 then Some (n + 4) else if n = 43 then Some 62 else if n = 47 then Some 63 else None)"

abbreviation b64_pad :: char where "b64_pad \<equiv> CHR ''=''"

fun std_b64_encode :: "string \<Rightarrow> string" where
  "std_b64_encode [] = []"
| "std_b64_encode [a] = (let x = (of_char a :: nat) in [b64_char (x div 4), b64_char (x mod 4 * 16), b64_pad, b64_pad])"
| "std_b64_encode [a, b] =
     (let x = (of_char a :: nat); y = of_char b in [b64_char (x div 4), b64_char (x mod 4 * 16 + y div 16), b64_char (y mod 16 * 4), b64_pad])"
| "std_b64_encode (a # b # c # s) =
     (let x = (of_char a :: nat); y = of_char b; z = of_char c
      in b64_char (x div 4) # b64_char (x mod 4 * 16 + y div 16) # b64_char (y mod 16 * 4 + z div 64) # b64_char (z mod 64) # std_b64_encode s)"

definition b64_byte1 :: "nat \<Rightarrow> nat \<Rightarrow> char" where
  "b64_byte1 d1 d2 = char_of (d1 * 4 + d2 div 16)"

definition b64_byte2 :: "nat \<Rightarrow> nat \<Rightarrow> char" where
  "b64_byte2 d2 d3 = char_of (d2 mod 16 * 16 + d3 div 4)"

definition b64_byte3 :: "nat \<Rightarrow> nat \<Rightarrow> char" where
  "b64_byte3 d3 d4 = char_of (d3 mod 4 * 64 + d4)"

fun b64_quanta :: "string \<Rightarrow> string option" where
  "b64_quanta [] = Some []"
| "b64_quanta (c1 # c2 # c3 # c4 # s) =
     (case (b64_digit c1, b64_digit c2) of
        (Some d1, Some d2) \<Rightarrow>
          (if c3 = b64_pad then (if c4 = b64_pad \<and> s = [] then Some [b64_byte1 d1 d2] else None)
           else case b64_digit c3 of
             None \<Rightarrow> None
           | Some d3 \<Rightarrow>
               (if c4 = b64_pad then (if s = [] then Some [b64_byte1 d1 d2, b64_byte2 d2 d3] else None)
                else case b64_digit c4 of
                  None \<Rightarrow> None
                | Some d4 \<Rightarrow> map_option (\<lambda>r. b64_byte1 d1 d2 # b64_byte2 d2 d3 # b64_byte3 d3 d4 # r) (b64_quanta s)))
      | _ \<Rightarrow> None)"
| "b64_quanta s = None"

definition std_b64_decode :: "string \<Rightarrow> string option" where
  "std_b64_decode s = b64_quanta (filter (\<lambda>c. c \<noteq> newline \<and> c \<noteq> carriage_return) s)"

section \<open>The round trip and the length\<close>

lemma b64_char_code:
  "k < 64 \<Longrightarrow> (of_char (b64_char k) :: nat) = (if k < 26 then k + 65 else if k < 52 then k + 71 else if k < 62 then k - 4 else if k = 62 then 43 else 47)"
  by (auto simp: b64_char_def of_char_mod_256)

lemma b64_digit_char [simp]: "k < 64 \<Longrightarrow> b64_digit (b64_char k) = Some k"
  by (auto simp: b64_digit_def b64_char_code Let_def)

lemma b64_char_plain: "k < 64 \<Longrightarrow> b64_char k \<noteq> b64_pad \<and> b64_char k \<noteq> newline \<and> b64_char k \<noteq> carriage_return"
proof -
  assume k: "k < 64"
  have "(of_char (b64_char k) :: nat) \<notin> {61, 10, 13}" using k by (auto simp: b64_char_code)
  then show ?thesis by auto
qed

text \<open>Digits of bytes are below 64, and put together they give the bytes.\<close>

lemma b64_digits:
  "(of_char a :: nat) div 4 < 64" "(of_char a :: nat) mod 4 * 16 < 64" "(of_char a :: nat) mod 4 * 16 + of_char b div 16 < 64"
  "(of_char b :: nat) mod 16 * 4 < 64" "(of_char b :: nat) mod 16 * 4 + of_char c div 64 < 64" "(of_char c :: nat) mod 64 < 64"
proof -
  have d: "(of_char x :: nat) div 4 < 64" "(of_char x :: nat) div 16 < 16" "(of_char x :: nat) div 64 < 4" for x :: char
    using less_mult_imp_div_less [of "of_char x" 64 4] less_mult_imp_div_less [of "of_char x" 16 16] less_mult_imp_div_less [of "of_char x" 4 64] by simp_all
  have m: "(of_char x :: nat) mod 4 < 4" "(of_char x :: nat) mod 16 < 16" for x :: char by simp_all
  show "(of_char a :: nat) div 4 < 64" "(of_char c :: nat) mod 64 < 64" using d(1) by simp_all
  show "(of_char a :: nat) mod 4 * 16 < 64" "(of_char b :: nat) mod 16 * 4 < 64" using m(1) [of a] m(2) [of b] by linarith+
  show "(of_char a :: nat) mod 4 * 16 + of_char b div 16 < 64" using m(1) [of a] d(2) [of b] by linarith
  show "(of_char b :: nat) mod 16 * 4 + of_char c div 64 < 64" using m(2) [of b] d(3) [of c] by linarith
qed

lemma b64_bytes:
  fixes x y z :: nat
  assumes "y < 256" and "z < 256"
  shows "x div 4 * 4 + (x mod 4 * 16 + y div 16) div 16 = x" "x div 4 * 4 + x mod 4 * 16 div 16 = x"
    "(x mod 4 * 16 + y div 16) mod 16 * 16 + (y mod 16 * 4 + z div 64) div 4 = y"
    "(x mod 4 * 16 + y div 16) mod 16 * 16 + y mod 16 * 4 div 4 = y"
    "(y mod 16 * 4 + z div 64) mod 4 * 64 + z mod 64 = z"
proof -
  have y: "y div 16 < 16" and z: "z div 64 < 4" using assms by (simp_all add: less_mult_imp_div_less)
  show "x div 4 * 4 + (x mod 4 * 16 + y div 16) div 16 = x" "x div 4 * 4 + x mod 4 * 16 div 16 = x" using y by simp_all
  show "(x mod 4 * 16 + y div 16) mod 16 * 16 + (y mod 16 * 4 + z div 64) div 4 = y"
    "(x mod 4 * 16 + y div 16) mod 16 * 16 + y mod 16 * 4 div 4 = y" using y z by simp_all
  show "(y mod 16 * 4 + z div 64) mod 4 * 64 + z mod 64 = z" using z by simp
qed

lemma b64_byte_simps:
  "b64_byte1 (of_char a div 4) (of_char a mod 4 * 16 + of_char b div 16) = a" "b64_byte1 (of_char a div 4) (of_char a mod 4 * 16) = a"
  "b64_byte2 (of_char a mod 4 * 16 + of_char b div 16) (of_char b mod 16 * 4 + of_char c div 64) = b"
  "b64_byte2 (of_char a mod 4 * 16 + of_char b div 16) (of_char b mod 16 * 4) = b"
  "b64_byte3 (of_char b mod 16 * 4 + of_char c div 64) (of_char c mod 64) = c"
proof -
  have b: "(of_char x :: nat) < 256" for x by simp
  show "b64_byte1 (of_char a div 4) (of_char a mod 4 * 16 + of_char b div 16) = a" "b64_byte1 (of_char a div 4) (of_char a mod 4 * 16) = a"
    "b64_byte2 (of_char a mod 4 * 16 + of_char b div 16) (of_char b mod 16 * 4 + of_char c div 64) = b"
    "b64_byte2 (of_char a mod 4 * 16 + of_char b div 16) (of_char b mod 16 * 4) = b"
    "b64_byte3 (of_char b mod 16 * 4 + of_char c div 64) (of_char c mod 64) = c"
    unfolding b64_byte1_def b64_byte2_def b64_byte3_def b64_bytes [OF b b] by simp_all
qed

lemma b64_pad_plain: "b64_pad \<noteq> newline \<and> b64_pad \<noteq> carriage_return"
  by code_simp

lemma b64_encode_plain: "filter (\<lambda>c. c \<noteq> newline \<and> c \<noteq> carriage_return) (std_b64_encode s) = std_b64_encode s"
  using b64_char_plain [OF b64_digits(1)] b64_char_plain [OF b64_digits(2)] b64_char_plain [OF b64_digits(3)] b64_char_plain [OF b64_digits(4)]
    b64_char_plain [OF b64_digits(5)] b64_char_plain [OF b64_digits(6)]
  by (induction s rule: std_b64_encode.induct) (simp_all add: Let_def b64_pad_plain)

lemma b64_length: "length (std_b64_encode s) = 4 * ((length s + 2) div 3)"
proof (induction s rule: std_b64_encode.induct)
  case (4 a b c s)
  have "(5 + length s) div 3 = Suc (Suc (Suc (length s)) div 3)" by presburger
  then show ?case using 4 by (simp add: Let_def)
qed (simp_all add: Let_def)

lemma b64_quanta_encode: "b64_quanta (std_b64_encode s) = Some s"
  using b64_char_plain [OF b64_digits(3)] b64_char_plain [OF b64_digits(4)]
    b64_char_plain [OF b64_digits(5)] b64_char_plain [OF b64_digits(6)]
  by (induction s rule: std_b64_encode.induct)
     (simp_all add: Let_def b64_digits b64_byte_simps)

lemma b64_roundtrip: "std_b64_decode (std_b64_encode s) = Some s"
  by (simp add: std_b64_decode_def b64_encode_plain b64_quanta_encode)

end
