(* ===== verification/Mcp_Tools.thy ===== *)
theory Mcp_Tools
  imports Broker_Session Broker_Transfer Broker_K8s Sealed Base64
begin

text \<open>
  The tools a model can call, \<open>internal/mcpserver/tools.go\<close> and \<open>tools_k8s.go\<close>: each handler checks its inputs, calls the engine and renders
  the result or the error. The two frontends register the same handlers and differ in the caller they pass. The library
  that carries the calls is not modelled: a handler gets the arguments of the call, the answers the client sent along (\<open>mq_responses\<close>) and the engine. The
  texts of errors come from the argument \<open>mv_text\<close>; which error is shown, or hidden, is decided here.
\<close>

section \<open>Errors and results\<close>

datatype tool_error =
    EngineError broker_error
  | K8sCallError k8s_call_error
  | InputError input_error
  | DeclinedError string string
  | TransferLimitError int
  | Base64Error
  | NotInChatError string approval_required
  | K8sApprovalError string string
  | EmptyManifestError

record elicitation =
  el_command :: string
  el_server :: string
  el_runs_as :: string
  el_rule :: string

record decision_output =
  do_allowed :: bool
  do_reason_code :: string
  do_reason :: string
  do_require_approval :: bool
  do_matched_rule :: string
  do_enforcement :: string
  do_force_command :: string
  do_ttl_seconds :: int
  do_warning :: string
  do_would_deny :: bool

record execute_output =
  eo_stdout :: string
  eo_stderr :: string
  eo_exit_code :: int
  eo_serial :: "64 word"
  eo_warnings :: "string list"
  eo_decision :: "decision_output option"

record get_file_output =
  gf_content :: string
  gf_base64 :: bool
  gf_size :: int
  gf_sha256 :: string
  gf_serial :: "64 word"
  gf_warnings :: "string list"

record k8s_output =
  ko_output :: string
  ko_serial :: "64 word"
  ko_warnings :: "string list"
  ko_decision :: "decision_output option"

text \<open>The structured output next to the text; an error and a question come with the empty output of the tool.\<close>

datatype tool_output =
    NoOutput
  | ExecuteOut execute_output
  | ServersOut "server_info list"
  | SessionOut string "64 word"
  | OkOut
  | PutOut int string "64 word" "string list"
  | GetOut get_file_output
  | ClustersOut "string list"
  | K8sOut k8s_output

record tool_result =
  tx_is_error :: bool
  tx_text :: string
  tx_ask :: "elicitation option"
  tx_output :: tool_output

text \<open>What came with a call: the responses by the id of the question, an elicitation's with its action and its content.\<close>

datatype json_value = JsonBool bool | JsonOther

datatype input_response = ElicitResult string "(string, json_value) go_map" | OtherResponse

record mcp_call =
  mq_responses :: "(string, input_response) go_map option"

record mcp_env =
  mv_k8s :: k8s_env
  mv_text :: "tool_error \<Rightarrow> string"
  mv_elicit :: bool

abbreviation mv_broker :: "mcp_env \<Rightarrow> broker_env" where "mv_broker M \<equiv> kv_broker (mv_k8s M)"

definition upstream_tool_message :: string where
  "upstream_tool_message = ''upstream failure (see broker audit log)''"

definition tool_message :: "mcp_env \<Rightarrow> tool_error \<Rightarrow> string" where
  "tool_message M err =
     (case err of EngineError x \<Rightarrow> (if is_upstream x then upstream_tool_message else mv_text M err) | _ \<Rightarrow> mv_text M err)"

definition show_error :: "mcp_env \<Rightarrow> tool_error \<Rightarrow> tool_result" where
  "show_error M err = \<lparr>tx_is_error = True, tx_text = tool_message M err, tx_ask = None, tx_output = NoOutput\<rparr>"

definition text_result :: "string \<Rightarrow> tool_output \<Rightarrow> tool_result" where
  "text_result t out = \<lparr>tx_is_error = False, tx_text = t, tx_ask = None, tx_output = out\<rparr>"

text \<open>\<open>errors.As\<close> for an approval that is missing; nothing wraps such an error.\<close>

definition as_approval :: "broker_error \<Rightarrow> approval_required option" where
  "as_approval x = (case x of ApprovalRequired a \<Rightarrow> Some a | _ \<Rightarrow> None)"

definition no_elicit_wording :: "string \<Rightarrow> broker_error \<Rightarrow> tool_error" where
  "no_elicit_wording tool x = (case as_approval x of None \<Rightarrow> EngineError x | Some a \<Rightarrow> NotInChatError tool a)"

definition k8s_approval_wording :: "string \<Rightarrow> k8s_outcome_error \<Rightarrow> tool_error" where
  "k8s_approval_wording cluster x =
     (case x of K8sCall y \<Rightarrow> K8sCallError y
      | K8sBroker y \<Rightarrow> (case as_approval y of None \<Rightarrow> EngineError y | Some a \<Rightarrow> K8sApprovalError cluster (ar_rule a)))"

section \<open>Rendering\<close>

definition reason_code :: "dec_info \<Rightarrow> string" where
  "reason_code d =
     (if dw_allowed d then (if dw_require_approval d then ''needs_approval'' else ''allowed'')
      else if has_prefix (dw_matched_rule d) ''deny:'' then ''command_denied''
      else if has_prefix (dw_matched_rule d) ''shell-parse:'' then ''shell_parse_error''
      else if dw_matched_rule d = ''allowlist:no-match'' then ''allowlist_no_match''
      else ''denied'')"

definition decision_to_output :: "dec_info \<Rightarrow> decision_output" where
  "decision_to_output d = \<lparr>do_allowed = dw_allowed d, do_reason_code = reason_code d, do_reason = dw_reason d,
     do_require_approval = dw_require_approval d, do_matched_rule = dw_matched_rule d, do_enforcement = dw_enforcement d,
     do_force_command = dw_force_command d, do_ttl_seconds = dw_ttl_seconds d, do_warning = dw_warning d, do_would_deny = dw_would_deny d\<rparr>"

definition render_decision :: "dec_info \<Rightarrow> string" where
  "render_decision d =
     (if dw_allowed d then ''[dry-run] ALLOWED'' @ (if dw_require_approval d then '' (requires human approval before executing)'' else [])
      else ''[dry-run] DENIED'' @ (if dw_reason d \<noteq> [] then '': '' @ dw_reason d else []))
     @ [newline] @ ''reason_code: '' @ reason_code d
     @ (if dw_matched_rule d \<noteq> [] then [newline] @ ''rule: '' @ dw_matched_rule d else [])
     @ (if dw_warning d \<noteq> [] then [newline] @ ''warning: '' @ dw_warning d else [])
     @ (if dw_force_command d \<noteq> [] then [newline] @ ''force-command: '' @ dw_force_command d else [])
     @ (if 0 < dw_ttl_seconds d then [newline] @ ''ttl: '' @ int_decimal (dw_ttl_seconds d) @ ''s'' else [])"

definition serial_text :: "64 word \<Rightarrow> string" where
  "serial_text n = nat_decimal (unat n)"

definition render_result :: "execute_output \<Rightarrow> string" where
  "render_result out = eo_stdout out
     @ (if eo_stderr out \<noteq> [] then [newline] @ ''[stderr]'' @ [newline] @ eo_stderr out else [])
     @ concat (map (\<lambda>w. [newline] @ ''[warning] '' @ w) (eo_warnings out))
     @ [newline] @ ''[exit='' @ int_decimal (eo_exit_code out) @ '' serial='' @ serial_text (eo_serial out) @ '']''"

definition execute_result :: "broker_result \<Rightarrow> tool_result" where
  "execute_result res =
     (let out = \<lparr>eo_stdout = bq_stdout res, eo_stderr = bq_stderr res, eo_exit_code = bq_exit_code res, eo_serial = bq_serial res,
            eo_warnings = bq_warnings res, eo_decision = None\<rparr>
      in text_result (render_result out) (ExecuteOut out))"

definition dry_run_result :: "dec_info \<Rightarrow> tool_result" where
  "dry_run_result d = text_result (render_decision d) (ExecuteOut \<lparr>eo_stdout = [], eo_stderr = [], eo_exit_code = 0, eo_serial = 0,
     eo_warnings = [], eo_decision = Some (decision_to_output d)\<rparr>)"

text \<open>The limit it is applied to is positive, where the division of Go is \<open>div\<close>.\<close>

definition encoded_bound :: "int \<Rightarrow> int" where
  "encoded_bound n = n + n div 3 + 4"

section \<open>Approval in the chat\<close>

definition approval_elicitation :: "string \<Rightarrow> string \<Rightarrow> approval_required \<Rightarrow> tool_result" where
  "approval_elicitation server command a = \<lparr>tx_is_error = False, tx_text = [],
     tx_ask = Some \<lparr>el_command = command, el_server = server, el_runs_as = runs_as a, el_rule = ar_rule a\<rparr>, tx_output = NoOutput\<rparr>"

text \<open>The answer of the human: whether it approves, and whether there is one.\<close>

definition elicited_approval :: "mcp_call option \<Rightarrow> bool \<times> bool" where
  "elicited_approval req =
     (case req of None \<Rightarrow> (False, False)
      | Some q \<Rightarrow>
          (case mq_responses q of None \<Rightarrow> (False, False)
           | Some rs \<Rightarrow>
               (case map_of rs ''approval'' of None \<Rightarrow> (False, False)
                | Some OtherResponse \<Rightarrow> (False, True)
                | Some (ElicitResult action content) \<Rightarrow>
                    (if action \<noteq> ''accept'' then (False, True)
                     else (map_of content ''approve'' = Some (JsonBool True), True)))))"

record execute_input =
  xi_server :: string
  xi_command :: string
  xi_ttl_seconds :: int
  xi_sudo :: bool
  xi_sudo_user :: string
  xi_pty :: bool
  xi_dry_run :: bool

definition input_options :: "execute_input \<Rightarrow> exec_options" where
  "input_options inp = no_options\<lparr>xo_sudo := xi_sudo inp, xo_sudo_user := xi_sudo_user inp, xo_pty := xi_pty inp, xo_dry_run := xi_dry_run inp\<rparr>"

definition executed_result :: "mcp_env \<Rightarrow> broker_error + broker_result \<Rightarrow> tool_result" where
  "executed_result M r =
     (case r of Inl x \<Rightarrow> show_error M (EngineError x)
      | Inr res \<Rightarrow> (case bq_dry_run res of Some d \<Rightarrow> dry_run_result d | None \<Rightarrow> execute_result res))"

text \<open>\<open>ssh_execute\<close>: a first try, and where it lacks an approval the question, or the answer and a second try.\<close>

definition ssh_execute :: "mcp_env \<Rightarrow> broker_caller \<Rightarrow> mcp_call option \<Rightarrow> execute_input \<Rightarrow> engine \<Rightarrow> tool_result \<times> engine" where
  "ssh_execute M c req inp e =
     (case validate_input [(''server'', xi_server inp), (''command'', xi_command inp), (''sudo_user'', xi_sudo_user inp)] of
        Some x \<Rightarrow> (show_error M (InputError x), e)
      | None \<Rightarrow>
          (let opts = input_options inp; Q = mv_broker M in
           case broker_execute Q c (xi_server inp) (xi_command inp) (xi_ttl_seconds inp) opts e of
             (r, e) \<Rightarrow>
               (case (case r of Inl x \<Rightarrow> if mv_elicit M then as_approval x else None | Inr res \<Rightarrow> None) of
                  None \<Rightarrow> (executed_result M r, e)
                | Some a \<Rightarrow>
                    (case elicited_approval req of
                       (approved, answered) \<Rightarrow>
                         (if \<not> answered then (approval_elicitation (xi_server inp) (xi_command inp) a, e)
                          else if \<not> approved then
                            (show_error M (DeclinedError (xi_command inp) (xi_server inp)),
                             audit_approval_declined Q c (xi_server inp) (xi_command inp) (ar_rule a) opts e)
                          else case audit_approval_granted Q c (xi_server inp) (xi_command inp) (ar_rule a) opts e of
                            (False, e) \<Rightarrow> (show_error M (EngineError AuditUnavailable), e)
                          | (True, e) \<Rightarrow>
                              (case broker_execute Q c (xi_server inp) (xi_command inp) (xi_ttl_seconds inp) (opts\<lparr>xo_approved := True\<rparr>) e of
                                 (r, e) \<Rightarrow> (executed_result M r, e)))))))"

section \<open>The other tools\<close>

definition bool_text :: "bool \<Rightarrow> string" where
  "bool_text b = (if b then ''true'' else ''false'')"

definition server_line :: "server_info \<Rightarrow> string" where
  "server_line s = si_name s @ '' (sudo='' @ bool_text (si_allow_sudo s) @ '' pty='' @ bool_text (si_allow_pty s)
     @ '' file_transfer='' @ bool_text (si_allow_file_transfer s) @ (if si_jump s \<noteq> [] then '' via='' @ si_jump s else []) @ '')'' @ [newline]"

definition ssh_list_servers :: "broker_caller \<Rightarrow> engine \<Rightarrow> tool_result" where
  "ssh_list_servers c e = text_result (concat (map server_line (server_infos c e))) (ServersOut (server_infos c e))"

record session_open_input =
  oi_server :: string
  oi_mode :: string
  oi_ttl_seconds :: int
  oi_sudo :: bool
  oi_sudo_user :: string

definition ssh_session_open :: "mcp_env \<Rightarrow> broker_caller \<Rightarrow> session_open_input \<Rightarrow> engine \<Rightarrow> tool_result \<times> engine" where
  "ssh_session_open M c inp e =
     (case validate_input [(''server'', oi_server inp), (''mode'', oi_mode inp), (''sudo_user'', oi_sudo_user inp)] of
        Some x \<Rightarrow> (show_error M (InputError x), e)
      | None \<Rightarrow>
          (case open_session (mv_broker M) c (oi_server inp) (oi_mode inp) (oi_ttl_seconds inp)
                  (no_options\<lparr>xo_sudo := oi_sudo inp, xo_sudo_user := oi_sudo_user inp\<rparr>) e of
             (Inl x, e) \<Rightarrow> (show_error M (no_elicit_wording ''ssh_session_open'' x), e)
           | (Inr (sid, serial), e) \<Rightarrow> (text_result (''session_id='' @ sid @ '' serial='' @ serial_text serial) (SessionOut sid serial), e)))"

definition ssh_session_exec :: "mcp_env \<Rightarrow> broker_caller \<Rightarrow> string \<Rightarrow> string \<Rightarrow> engine \<Rightarrow> tool_result \<times> engine" where
  "ssh_session_exec M c sid command e =
     (case validate_input [(''session_id'', sid), (''command'', command)] of
        Some x \<Rightarrow> (show_error M (InputError x), e)
      | None \<Rightarrow>
          (case broker_session_exec (mv_broker M) c sid command e of
             (Inl x, e) \<Rightarrow> (show_error M (EngineError x), e)
           | (Inr res, e) \<Rightarrow> (execute_result res, e)))"

definition ssh_session_close :: "mcp_env \<Rightarrow> broker_caller \<Rightarrow> string \<Rightarrow> engine \<Rightarrow> tool_result \<times> engine" where
  "ssh_session_close M c sid e =
     (case validate_input [(''session_id'', sid)] of
        Some x \<Rightarrow> (show_error M (InputError x), e)
      | None \<Rightarrow>
          (case broker_close_session (mv_broker M) c sid e of
             (Some x, e) \<Rightarrow> (show_error M (EngineError x), e)
           | (None, e) \<Rightarrow> (text_result ''closed'' OkOut, e)))"

record put_file_input =
  pi_server :: string
  pi_path :: string
  pi_content :: string
  pi_content_base64 :: bool
  pi_mode :: string
  pi_ttl_seconds :: int

definition ssh_put_file :: "mcp_env \<Rightarrow> broker_caller \<Rightarrow> put_file_input \<Rightarrow> engine \<Rightarrow> tool_result \<times> engine" where
  "ssh_put_file M c inp e =
     (case validate_input [(''server'', pi_server inp), (''path'', pi_path inp), (''mode'', pi_mode inp)] of
        Some x \<Rightarrow> (show_error M (InputError x), e)
      | None \<Rightarrow>
          (if encoded_bound (file_transfer_max_bytes e) < int (length (pi_content inp)) then
             (show_error M (TransferLimitError (file_transfer_max_bytes e)), e)
           else case (if pi_content_base64 inp then std_b64_decode (pi_content inp) else Some (pi_content inp)) of
             None \<Rightarrow> (show_error M Base64Error, e)
           | Some content \<Rightarrow>
               (case put_file (mv_broker M) c (pi_server inp) (pi_path inp) content (pi_mode inp) (pi_ttl_seconds inp) e of
                  (Inl x, e) \<Rightarrow> (show_error M (no_elicit_wording ''ssh_put_file'' x), e)
                | (Inr res, e) \<Rightarrow>
                    (text_result (''wrote '' @ int_decimal (tr_size res) @ '' bytes to '' @ pi_path inp @ '' (sha256='' @ tr_sha256 res
                        @ '') [serial='' @ serial_text (tr_serial res) @ '']'')
                       (PutOut (tr_size res) (tr_sha256 res) (tr_serial res) (tr_warnings res)), e))))"

definition plain_text :: "string \<Rightarrow> bool" where
  "plain_text s \<longleftrightarrow> valid_utf8 s \<and> char_of (0 :: nat) \<notin> set s"

definition get_output :: "transfer_result \<Rightarrow> get_file_output" where
  "get_output res = \<lparr>gf_content = (if plain_text (tr_content res) then tr_content res else std_b64_encode (tr_content res)),
     gf_base64 = (\<not> plain_text (tr_content res)), gf_size = tr_size res, gf_sha256 = tr_sha256 res, gf_serial = tr_serial res,
     gf_warnings = tr_warnings res\<rparr>"

definition get_text :: "transfer_result \<Rightarrow> string" where
  "get_text res =
     (if plain_text (tr_content res) then tr_content res @ [newline] @ ''['' @ int_decimal (tr_size res) @ '' bytes sha256='' @ tr_sha256 res
        @ '' serial='' @ serial_text (tr_serial res) @ '']''
      else ''[binary content: '' @ int_decimal (tr_size res) @ '' bytes, returned base64-encoded; sha256='' @ tr_sha256 res
        @ '' serial='' @ serial_text (tr_serial res) @ '']'')"

record get_file_input =
  gi_server :: string
  gi_path :: string
  gi_max_bytes :: int
  gi_ttl_seconds :: int

definition ssh_get_file :: "mcp_env \<Rightarrow> broker_caller \<Rightarrow> get_file_input \<Rightarrow> engine \<Rightarrow> tool_result \<times> engine" where
  "ssh_get_file M c inp e =
     (case validate_input [(''server'', gi_server inp), (''path'', gi_path inp)] of
        Some x \<Rightarrow> (show_error M (InputError x), e)
      | None \<Rightarrow>
          (case get_file (mv_broker M) c (gi_server inp) (gi_path inp) (gi_max_bytes inp) (gi_ttl_seconds inp) e of
             (Inl x, e) \<Rightarrow> (show_error M (no_elicit_wording ''ssh_get_file'' x), e)
           | (Inr res, e) \<Rightarrow> (text_result (get_text res) (GetOut (get_output res)), e)))"

section \<open>Kubernetes tools\<close>

definition k8s_list_clusters :: "broker_caller \<Rightarrow> engine \<Rightarrow> tool_result" where
  "k8s_list_clusters c e = text_result (concat (map (\<lambda>n. n @ [newline]) (k8s_clusters c e))) (ClustersOut (k8s_clusters c e))"

definition run_k8s_tool :: "mcp_env \<Rightarrow> broker_caller \<Rightarrow> string \<Rightarrow> k8s_action \<Rightarrow> string \<Rightarrow> bool \<Rightarrow> k8s_options \<Rightarrow> engine \<Rightarrow> tool_result \<times> engine" where
  "run_k8s_tool M c cluster a manifest dry opts e =
     (case validate_input [(''cluster'', cluster), (''resource'', ka_resource a), (''group'', ka_group a), (''namespace'', ka_namespace a), (''name'', ka_name a)] of
        Some x \<Rightarrow> (show_error M (InputError x), e)
      | None \<Rightarrow>
          (case k8s_execute (mv_k8s M) c cluster a manifest dry opts e of
             (Inl x, e) \<Rightarrow> (show_error M (k8s_approval_wording cluster x), e)
           | (Inr res, e) \<Rightarrow>
               (case kr_dry_run res of
                  Some d \<Rightarrow> (text_result (render_decision d)
                    (K8sOut \<lparr>ko_output = [], ko_serial = 0, ko_warnings = [], ko_decision = Some (decision_to_output d)\<rparr>), e)
                | None \<Rightarrow> (text_result ((if kr_warnings res \<noteq> [] then ''['' @ go_join (kr_warnings res) ''; '' @ '']'' @ [newline] else []) @ kr_output res)
                    (K8sOut \<lparr>ko_output = kr_output res, ko_serial = kr_serial res, ko_warnings = kr_warnings res, ko_decision = None\<rparr>), e))))"

definition no_k8s_options :: k8s_options where
  "no_k8s_options = \<lparr>kx_list = \<lparr>lo_label_selector = [], lo_field_selector = [], lo_limit = 0\<rparr>,
     kx_logs = \<lparr>go_container = [], go_tail_lines = 0, go_since_seconds = 0\<rparr>\<rparr>"

record k8s_object_input =
  ji_cluster :: string
  ji_resource :: string
  ji_group :: string
  ji_namespace :: string
  ji_name :: string
  ji_dry_run :: bool

definition object_action :: "string \<Rightarrow> k8s_object_input \<Rightarrow> k8s_action" where
  "object_action verb inp = \<lparr>ka_verb = verb, ka_resource = ji_resource inp, ka_group = ji_group inp, ka_namespace = ji_namespace inp, ka_name = ji_name inp\<rparr>"

definition k8s_get_tool :: "mcp_env \<Rightarrow> broker_caller \<Rightarrow> k8s_object_input \<Rightarrow> engine \<Rightarrow> tool_result \<times> engine" where
  "k8s_get_tool M c inp e = run_k8s_tool M c (ji_cluster inp) (object_action K8sVerbGet inp) [] (ji_dry_run inp) no_k8s_options e"

definition k8s_delete_tool :: "mcp_env \<Rightarrow> broker_caller \<Rightarrow> k8s_object_input \<Rightarrow> engine \<Rightarrow> tool_result \<times> engine" where
  "k8s_delete_tool M c inp e = run_k8s_tool M c (ji_cluster inp) (object_action K8sVerbDelete inp) [] (ji_dry_run inp) no_k8s_options e"

definition k8s_list_tool :: "mcp_env \<Rightarrow> broker_caller \<Rightarrow> k8s_object_input \<Rightarrow> list_options \<Rightarrow> engine \<Rightarrow> tool_result \<times> engine" where
  "k8s_list_tool M c inp lo e =
     (case validate_input [(''label_selector'', lo_label_selector lo), (''field_selector'', lo_field_selector lo)] of
        Some x \<Rightarrow> (show_error M (InputError x), e)
      | None \<Rightarrow> run_k8s_tool M c (ji_cluster inp) (object_action K8sVerbList (inp\<lparr>ji_name := []\<rparr>)) [] (ji_dry_run inp) (no_k8s_options\<lparr>kx_list := lo\<rparr>) e)"

definition k8s_logs_tool :: "mcp_env \<Rightarrow> broker_caller \<Rightarrow> string \<Rightarrow> string \<Rightarrow> string \<Rightarrow> log_options \<Rightarrow> bool \<Rightarrow> engine \<Rightarrow> tool_result \<times> engine" where
  "k8s_logs_tool M c cluster namespace pod lo dry e =
     (case validate_input [(''container'', go_container lo)] of
        Some x \<Rightarrow> (show_error M (InputError x), e)
      | None \<Rightarrow> run_k8s_tool M c cluster \<lparr>ka_verb = K8sVerbLogs, ka_resource = ''pods'', ka_group = [], ka_namespace = namespace, ka_name = pod\<rparr>
          [] dry (no_k8s_options\<lparr>kx_logs := lo\<rparr>) e)"

definition k8s_apply_tool :: "mcp_env \<Rightarrow> broker_caller \<Rightarrow> k8s_object_input \<Rightarrow> string \<Rightarrow> engine \<Rightarrow> tool_result \<times> engine" where
  "k8s_apply_tool M c inp manifest e =
     (case validate_input [(''cluster'', ji_cluster inp), (''manifest'', manifest)] of
        Some x \<Rightarrow> (show_error M (InputError x), e)
      | None \<Rightarrow>
          (if trim_space manifest = [] then (show_error M EmptyManifestError, e)
           else run_k8s_tool M c (ji_cluster inp) (object_action K8sVerbApply inp) manifest (ji_dry_run inp) no_k8s_options e))"

definition has_k8s_clusters :: "engine \<Rightarrow> bool" where
  "has_k8s_clusters e \<longleftrightarrow> 0 < length (k8s_clusters \<lparr>bk_id = [], bk_groups = None, bk_raw_token = [], bk_context = []\<rparr> e)"

end
