(* ===== verification/Broker_Routes.thy ===== *)
theory Broker_Routes
  imports Broker
begin

text \<open>
  Routes of the broker: the chain of bastions \<open>resolveChain\<close> finds is the path of jumps, and the connectivity signature of a
  session determines the route it was opened over.
\<close>

section \<open>Chains\<close>

text \<open>The hosts met from \<open>cur\<close> when every jump is followed to its end.\<close>

fun jumps :: "(string, wire_host_info) go_map \<Rightarrow> string \<Rightarrow> string list \<Rightarrow> bool" where
  "jumps t cur [] \<longleftrightarrow> cur = []"
| "jumps t cur (n # ns) \<longleftrightarrow> cur = n \<and> n \<noteq> [] \<and> (case map_of t n of None \<Rightarrow> False | Some hi \<Rightarrow> jumps t (wh_jump hi) ns)"

lemma jumps_unique: "jumps t cur p \<Longrightarrow> jumps t cur q \<Longrightarrow> p = q"
proof (induction p arbitrary: cur q)
  case (Cons n ns)
  then show ?case by (cases q) (auto split: option.splits)
qed (case_tac q, auto)

lemma jumps_suffix: "jumps t cur (p @ n # q) \<Longrightarrow> jumps t n (n # q)"
proof (induction p arbitrary: cur)
  case (Cons a p)
  from Cons.prems obtain j where "jumps t j (p @ n # q)" by (cases "map_of t a") auto
  then show ?case by (rule Cons.IH)
qed simp

lemma jumps_distinct: "jumps t cur p \<Longrightarrow> distinct p"
proof (rule ccontr)
  assume j: "jumps t cur p" and "\<not> distinct p"
  then obtain xs ys zs n where p: "p = xs @ [n] @ ys @ [n] @ zs" using not_distinct_decomp by blast
  have "jumps t n (n # ys @ n # zs)" "jumps t n (n # zs)"
    using jumps_suffix [of t cur xs n "ys @ n # zs"] jumps_suffix [of t cur "xs @ n # ys" n zs] j p by simp_all
  then have "n # ys @ n # zs = n # zs" by (rule jumps_unique)
  then show False by (metis append_Cons append_assoc length_append length_Cons list.inject not_add_less2 lessI less_add_Suc2 add_Suc_right)
qed

lemma resolve_from_Inr:
  "resolve_from t seen chain cur = Inr r \<Longrightarrow> \<exists>p. r = rev p @ chain \<and> jumps t cur p"
proof (induction t seen chain cur rule: resolve_from.induct)
  case (1 t seen chain cur)
  show ?case
  proof (cases "cur = []")
    case True
    then show ?thesis using "1.prems" by (intro exI [of _ "[]"]) (simp add: resolve_from.simps)
  next
    case False
    with "1.prems" obtain hi where hi: "cur \<notin> set seen" "map_of t cur = Some hi"
      and rest: "resolve_from t (cur # seen) (cur # chain) (wh_jump hi) = Inr r"
      by (subst (asm) resolve_from.simps) (auto split: if_splits option.splits)
    from "1.IH" [OF False hi rest] obtain p where "r = rev p @ cur # chain" "jumps t (wh_jump hi) p" by blast
    then show ?thesis using False hi by (intro exI [of _ "cur # p"]) simp
  qed
qed

lemma resolve_from_jumps:
  "jumps t cur p \<Longrightarrow> distinct p \<Longrightarrow> set p \<inter> set seen = {} \<Longrightarrow> resolve_from t seen chain cur = Inr (rev p @ chain)"
proof (induction p arbitrary: cur seen chain)
  case (Cons n ns)
  then obtain hi where hi: "map_of t n = Some hi" "jumps t (wh_jump hi) ns" "cur = n" "n \<noteq> []" by (auto split: option.splits)
  have "resolve_from t (n # seen) (n # chain) (wh_jump hi) = Inr (rev ns @ n # chain)"
    using Cons.IH [OF hi(2)] Cons.prems by auto
  then show ?case using Cons.prems hi by (subst resolve_from.simps) simp
qed (simp add: resolve_from.simps)

lemma resolve_from_Inl:
  "resolve_from t seen chain cur = Inl x \<Longrightarrow> (\<exists>n. x = BastionCycle n) \<or> (\<exists>n. x = ChainUnknownHost n \<and> map_of t n = None)"
proof (induction t seen chain cur rule: resolve_from.induct)
  case (1 t seen chain cur)
  then show ?case by (simp add: resolve_from.simps [of t seen chain cur] split: if_splits option.splits) blast+
qed

text \<open>
  Following the jumps of a host always ends, and what \<open>resolveChain\<close> returns is the path: the result is a chain exactly
  when the jumps from the host lead to a host without a jump, the chain is that path with the outermost bastion
  first and the target last, no host occurs twice; otherwise the answer is a cycle or a host that is not known.
\<close>

theorem chain_is_jump_path:
  "(resolve_chain e host = Inr chain \<longleftrightarrow> jumps (engine_table e) host (rev chain))
   \<and> distinct (case resolve_chain e host of Inr c \<Rightarrow> c | Inl x \<Rightarrow> [])
   \<and> (case resolve_chain e host of Inr c \<Rightarrow> True
      | Inl x \<Rightarrow> (\<nexists>p. jumps (engine_table e) host p) \<and> ((\<exists>n. x = BastionCycle n) \<or> (\<exists>n. x = ChainUnknownHost n \<and> engine_host e n = None)))"
proof -
  have iff: "resolve_chain e host = Inr c \<longleftrightarrow> jumps (engine_table e) host (rev c)" for c
    using resolve_from_Inr [of "engine_table e" "[]" "[]" host c]
      resolve_from_jumps [of "engine_table e" host "rev c" "[]" "[]"] jumps_distinct [of "engine_table e" host "rev c"]
    by (auto simp: resolve_chain_def)
  have "jumps (engine_table e) host p \<Longrightarrow> resolve_chain e host = Inr (rev p)" for p using iff [of "rev p"] by simp
  moreover have "resolve_chain e host = Inl x \<Longrightarrow> (\<exists>n. x = BastionCycle n) \<or> (\<exists>n. x = ChainUnknownHost n \<and> engine_host e n = None)" for x
    using resolve_from_Inl [of "engine_table e" "[]" "[]" host x] by (auto simp: resolve_chain_def engine_host_def)
  moreover have "resolve_chain e host = Inr c \<Longrightarrow> distinct c" for c
    using iff [of c] jumps_distinct by (metis distinct_rev)
  ultimately show ?thesis using iff by (cases "resolve_chain e host") fastforce+
qed

section \<open>Connectivity signatures\<close>

text \<open>A part of a signature ends where its length says, so two parts with the same beginning are equal.\<close>

lemma takeWhile_colon: "takeWhile (\<lambda>c. c \<noteq> CHR '':'') (nat_decimal n @ CHR '':'' # r) = nat_decimal n"
proof -
  have "\<forall>c \<in> set (nat_decimal n). c \<noteq> CHR '':''" using nat_decimal_digits [of "CHR '':''" n] by (auto simp: is_digit_char_def)
  then show ?thesis by (simp add: takeWhile_append2)
qed

lemma signature_part_inject: "signature_part a @ x = signature_part b @ y \<longleftrightarrow> a = b \<and> x = y"
proof
  assume eq: "signature_part a @ x = signature_part b @ y"
  then have "nat_decimal (length a) = nat_decimal (length b)"
    using takeWhile_colon [of "length a" "a @ x"] takeWhile_colon [of "length b" "b @ y"] by (simp add: signature_part_def)
  then have "length a = length b" by (simp add: nat_decimal_inject)
  with eq show "a = b \<and> x = y" by (simp add: signature_part_def)
qed simp

text \<open>The physical data of a hop.\<close>

definition hop_route :: "engine \<Rightarrow> string \<Rightarrow> (string \<times> string \<times> string \<times> string \<times> string) option" where
  "hop_route e name = map_option (\<lambda>hi. (name, wh_addr hi, wh_user hi, wh_host_key hi, wh_jump hi)) (engine_host e name)"

lemma hop_signature_inject:
  "hop_signature n hi @ x = hop_signature m hj @ y \<longleftrightarrow>
     n = m \<and> wh_addr hi = wh_addr hj \<and> wh_user hi = wh_user hj \<and> wh_host_key hi = wh_host_key hj \<and> wh_jump hi = wh_jump hj \<and> x = y"
  by (auto simp: hop_signature_def signature_part_inject)

lemma hop_signature_nonempty: "hop_signature n hi @ x \<noteq> []"
  by (simp add: hop_signature_def)

lemma chain_signature_inject:
  "chain_signature e ns = Inr sig \<Longrightarrow> chain_signature e' ms = Inr sig \<Longrightarrow> ns = ms \<and> map (hop_route e) ns = map (hop_route e') ms"
proof (induction ns arbitrary: ms sig)
  case Nil
  then show ?case using hop_signature_nonempty by (cases ms) (auto split: option.splits sum.splits)
next
  case (Cons n ns)
  from Cons.prems(1) obtain hi x where n: "engine_host e n = Some hi" "chain_signature e ns = Inr x" "sig = hop_signature n hi @ x"
    by (auto split: option.splits sum.splits)
  then obtain m ms' where ms: "ms = m # ms'" using Cons.prems(2) hop_signature_nonempty [of n hi x] by (cases ms) auto
  with Cons.prems(2) obtain hj y where m: "engine_host e' m = Some hj" "chain_signature e' ms' = Inr y" "sig = hop_signature m hj @ y"
    by (auto split: option.splits sum.splits)
  have same: "n = m" "wh_addr hi = wh_addr hj" "wh_user hi = wh_user hj" "wh_host_key hi = wh_host_key hj" "wh_jump hi = wh_jump hj" "x = y"
    using n(3) m(3) hop_signature_inject [of n hi x m hj y] by auto
  have "ns = ms' \<and> map (hop_route e) ns = map (hop_route e') ms'" using Cons.IH [OF n(2)] m(2) same(6) by blast
  moreover have "hop_route e n = hop_route e' m" using same n(1) m(1) by (simp add: hop_route_def)
  ultimately show ?case using ms same(1) by auto
qed

lemma chain_signature_cong: "engine_table e' = engine_table e \<Longrightarrow> chain_signature e' ns = chain_signature e ns"
  by (induction ns) (auto simp: engine_host_def split: option.splits)

lemma connectivity_signature_cong: "engine_table e' = engine_table e \<Longrightarrow> connectivity_signature e' host = connectivity_signature e host"
  by (auto simp: connectivity_signature_def resolve_chain_def chain_signature_cong [of e' e] split: sum.splits)

text \<open>
  The connectivity signature of a session pins its route. Two host views give a host the same signature only when they
  give it the same chain of hosts, and every host of the chain the same address, user, host key and jump; whatever
  characters these contain, one field cannot pass for another.
\<close>

theorem signature_pins_route:
  assumes "connectivity_signature e host = Inr sig" and "connectivity_signature e' host = Inr sig"
  shows "\<exists>chain. resolve_chain e host = Inr chain \<and> resolve_chain e' host = Inr chain
    \<and> (\<forall>n \<in> set chain. hop_route e n = hop_route e' n \<and> hop_route e n \<noteq> None)"
proof -
  obtain ns ms where c: "resolve_chain e host = Inr ns" "chain_signature e ns = Inr sig"
    "resolve_chain e' host = Inr ms" "chain_signature e' ms = Inr sig"
    using assms by (auto simp: connectivity_signature_def split: sum.splits)
  have eq: "ns = ms" "map (hop_route e) ns = map (hop_route e') ms" using chain_signature_inject [OF c(2,4)] by auto
  have "hop_route e n \<noteq> None" if "n \<in> set ns" for n
    using c(2) that by (induction ns arbitrary: sig) (auto simp: hop_route_def split: option.splits sum.splits)
  then show ?thesis using c(1,3) eq by auto
qed

section \<open>Examples\<close>

definition demo_host :: "string \<Rightarrow> string \<Rightarrow> wire_host_info" where
  "demo_host addr jump = \<lparr>wh_addr = addr, wh_user = ''ops'', wh_host_key = ''key'', wh_jump = jump, wh_allow_sudo = False,
     wh_allow_pty = False, wh_allow_file_transfer = False, wh_groups = []\<rparr>"

definition demo_config :: broker_config where
  "demo_config = \<lparr>bc_signer = True, bc_ca_key = [], bc_ca_keys = [], bc_source_address = [], bc_max_ttl_seconds = 300,
     bc_session_idle_seconds = 0, bc_session_max_seconds = 0, bc_recording_dir = [], bc_recording_strict = False, bc_audit_fail_mode = [],
     bc_hosts = [], bc_command_policies = [], bc_group_policies = [], bc_file_transfer_max_bytes = 0\<rparr>"

text \<open>A broker that knows a host behind a bastion.\<close>

definition demo_engine :: "(string, wire_host_info) go_map \<Rightarrow> engine" where
  "demo_engine hosts = \<lparr>be_config = demo_config, be_remote = True,
     be_audit_log = \<lparr>al_dir = \<lparr>ad_active = Some [], ad_files = []\<rparr>, al_open = True, al_sign_key = [], al_redactor = None,
        al_prev_hash = [], al_seq = 0, al_max_file_size = 0, al_needs_newline = False\<rparr>,
     be_fail_closed = True, be_redactor = None, be_max_ttl = 300 * go_second, be_sessions = new_session_manager 300 1800, be_shells = [],
     be_own_identity = ''broker-1'', be_rev_last_success = 0, be_hosts = hosts, be_last_refresh = Some 0, be_clusters = [],
     be_key_cache = [], be_sent = [], be_tick = 0\<rparr>"

definition demo_hosts :: "(string, wire_host_info) go_map" where
  "demo_hosts = [(''db'', demo_host ''10.0.0.2:22'' ''gate''), (''gate'', demo_host ''10.0.0.1:22'' [])]"

lemma demo_table: "engine_table (demo_engine hosts) = hosts"
  by (simp add: engine_table_def demo_engine_def)

lemma demo_chain: "resolve_chain (demo_engine demo_hosts) ''db'' = Inr [''gate'', ''db'']"
  by (simp add: resolve_chain_def resolve_from.simps demo_table demo_hosts_def demo_host_def)

lemma demo_signature:
  "connectivity_signature (demo_engine demo_hosts) ''db''
     = Inr (hop_signature ''gate'' (demo_host ''10.0.0.1:22'' []) @ hop_signature ''db'' (demo_host ''10.0.0.2:22'' ''gate''))"
  unfolding connectivity_signature_def demo_chain by (simp add: engine_host_def demo_table demo_hosts_def)

theorem signature_pins_route_witness:
  "hop_route (demo_engine demo_hosts) ''gate'' = hop_route ((demo_engine demo_hosts)\<lparr>be_tick := 7\<rparr>) ''gate''"
proof -
  have "connectivity_signature ((demo_engine demo_hosts)\<lparr>be_tick := 7\<rparr>) ''db'' = connectivity_signature (demo_engine demo_hosts) ''db''"
    by (rule connectivity_signature_cong) (simp add: engine_table_def)
  then show ?thesis
    using signature_pins_route [of "demo_engine demo_hosts" "''db''" _ "(demo_engine demo_hosts)\<lparr>be_tick := 7\<rparr>"]
      demo_signature demo_chain by fastforce
qed

end
