(* ===== verification/Broker_Demo.thy ===== *)
theory Broker_Demo
  imports Broker_Session Broker_Transfer Broker_Routes
begin

text \<open>
  A concrete environment for the broker: a signer that answers every request with a certificate and a decision, a log
  that can be written, a host that prints a line. The properties of the broker are applied to it.
\<close>

definition demo_host_certificate :: "intent \<Rightarrow> certificate" where
  "demo_host_certificate i = \<lparr>ce_key = in_public_key i, ce_serial = 7, ce_key_id = in_host i, ce_valid_principals = [''ops''], ce_valid_after = 0,
     ce_valid_before = 900, ce_critical_options = [], ce_extensions = [], ce_signature = ''sig''\<rparr>"

definition demo_verdict :: dec_info where
  "demo_verdict = \<lparr>dw_allowed = True, dw_reason = [], dw_require_approval = False, dw_matched_rule = ''allow:uptime'', dw_force_command = [],
     dw_ttl_seconds = 60, dw_elevation = [], dw_enforcement = [], dw_warning = [], dw_would_deny = False, dw_would_require_approval = False\<rparr>"

definition demo_sign :: "nat \<Rightarrow> intent \<Rightarrow> sign_failure + issued_remote" where
  "demo_sign n i = Inr \<lparr>ir_certificate = (if in_dry_run i then None else Some (demo_host_certificate i)), ir_serial = 7, ir_elevation_prefix = [],
     ir_k8s_token = [], ir_k8s_token_expiry = 0, ir_decision = Some demo_verdict, ir_envelope = []\<rparr>"

definition demo_broker_lib :: audit_lib where
  "demo_broker_lib = \<lparr>au_marshal = (\<lambda>e. en_outcome e @ '' '' @ en_command e), au_unmarshal = (\<lambda>_. None), au_sha256 = id, au_sign = (\<lambda>k m. k),
     au_check = (\<lambda>_ _ _. True), au_b64 = id, au_unb64 = Some, au_stamp = (\<lambda>_. []), au_is_stamp = (\<lambda>_. False)\<rparr>"

definition demo_broker_io :: append_io where
  "demo_broker_io = \<lparr>io_now = 0, io_stat_ok = True, io_stat_broken = (\<lambda>_. False), io_rotation_sync = True, io_rename = True, io_open_new = True,
     io_reopen = True, io_write = Written, io_sync = True\<rparr>"

text \<open>A host where every command prints the same nine characters, which are also the content of every file.\<close>

definition demo_channel :: exec_channel where
  "demo_channel = \<lparr>xc_open = True, xc_pty = (\<lambda>_. True),
     xc_run = (\<lambda>cmd pty inp t. (case head_call cmd of None \<Rightarrow> [''up 3 '', ''days''] | Some (k, path) \<Rightarrow> [take k ''up 3 days''], [], Completed RunOk))\<rparr>"

lemma demo_serves: "serves_files demo_channel (\<lambda>path. Some ''up 3 days'')"
  by (simp add: serves_files_def demo_channel_def)

definition prints_all :: "string \<Rightarrow> bool" where
  "prints_all cmd = (case head_call cmd of None \<Rightarrow> True | Some (k, path) \<Rightarrow> 9 \<le> k)"

definition demo_env :: broker_env where
  "demo_env = \<lparr>bv_now = (\<lambda>n. 10), bv_sign = demo_sign, bv_keys = (\<lambda>n. Some (''priv'', ''pub'')), bv_hosts = (\<lambda>n. Inr demo_hosts),
     bv_clusters = (\<lambda>n. Inr []), bv_revocations = (\<lambda>n. Inr []), bv_audit = demo_broker_lib, bv_io = (\<lambda>n. demo_broker_io),
     bv_parse_key = (\<lambda>l. Some l),
     bv_dial = (\<lambda>n. \<lparr>de_key_signer = (\<lambda>h. True), de_cert_signer = (\<lambda>h. True), de_connect = (\<lambda>i. True), de_handshake = (\<lambda>i. True)\<rparr>),
     bv_channel = (\<lambda>n. demo_channel), bv_session_id = (\<lambda>n. ''s-1''), bv_shell_setup = (\<lambda>n s. True), bv_shell_init = (\<lambda>n. True),
     bv_shell_random = (\<lambda>n. ''ab''), bv_cast = \<lparr>cl_header = (\<lambda>h. []), cl_event = (\<lambda>t k d. d)\<rparr>, bv_cast_open = (\<lambda>n. True),
     bv_cast_io = (\<lambda>n. \<lparr>ci_now = 0, ci_write = Written\<rparr>), bv_shell_written = (\<lambda>n. None), bv_shell_events = (\<lambda>n. []),
     bv_sha256 = id, bv_go = \<lparr>rx_compile = (\<lambda>_. None), sh_parse = (\<lambda>s. Inl s), sh_literal = (\<lambda>w. Inl [])\<rparr>, bv_error_text = (\<lambda>x. ''error'')\<rparr>"

definition demo_caller :: broker_caller where
  "demo_caller = \<lparr>bk_id = ''alice'', bk_groups = None, bk_raw_token = [], bk_context = []\<rparr>"

definition demo_broker :: engine where
  "demo_broker = demo_engine demo_hosts"

text \<open>The log is written, whatever the entry.\<close>

lemma demo_audit:
  "broker_audit demo_env ent e = (True, tick (e\<lparr>be_audit_log := snd (audit_append demo_broker_lib demo_broker_io (enriched e ent) (be_audit_log e))\<rparr>))"
  using append_written [of demo_broker_io demo_broker_lib "enriched e ent" "be_audit_log e"]
  by (cases "audit_append demo_broker_lib demo_broker_io (enriched e ent) (be_audit_log e)")
     (simp add: broker_audit_def append_broker_audit_def demo_env_def demo_broker_io_def)

lemma demo_refresh: "refresh_for_new_connection demo_env demo_broker = (None, tick demo_broker)"
  by (simp add: refresh_for_new_connection_def demo_broker_def demo_engine_def demo_env_def)

lemma demo_engine_host:
  "engine_table e = demo_hosts \<Longrightarrow> engine_host e ''db'' = Some (demo_host ''10.0.0.2:22'' ''gate'')"
  "engine_table e = demo_hosts \<Longrightarrow> engine_host e ''gate'' = Some (demo_host ''10.0.0.1:22'' [])"
  by (simp_all add: engine_host_def demo_hosts_def)

definition demo_result :: broker_result where
  "demo_result = \<lparr>bq_stdout = ''up 3 days'', bq_stderr = [], bq_exit_code = 0, bq_serial = 7, bq_warnings = [], bq_dry_run = None\<rparr>"

lemma demo_resolve: "engine_table e = demo_hosts \<Longrightarrow> resolve_chain e ''db'' = Inr [''gate'', ''db'']"
  using demo_chain by (simp add: resolve_chain_def demo_table)

lemma demo_table_tick: "engine_table demo_broker = demo_hosts" "engine_table (tick e) = engine_table e"
  by (simp_all add: demo_broker_def demo_engine_def tick_def engine_table_def)

lemma demo_certify:
  "certify_hop demo_env opts name (demo_host a j) mk e =
     (case parse_host_key_cached demo_env ''key'' (tick (tick e)) of
        (None, e) \<Rightarrow> (Inl (HostKeyInvalid name), e)
      | (Some key, e) \<Rightarrow> (Inr (\<lparr>ho_addr = a, ho_user = ''ops'', ho_host_key = Some key, ho_private_key = ''priv'',
           ho_certificate = Some (demo_host_certificate (mk ''pub''))\<rparr>, demo_host_certificate (mk ''pub''), projr (demo_sign 0 (mk ''pub''))), e))"
  if "\<not> in_dry_run (mk ''pub'')"
  using that by (simp add: certify_hop_def demo_env_def demo_sign_def demo_host_def split: prod.splits option.splits)

definition demo_hop :: "string \<Rightarrow> intent \<Rightarrow> ssh_hop" where
  "demo_hop a i = \<lparr>ho_addr = a, ho_user = ''ops'', ho_host_key = Some ''key'', ho_private_key = ''priv'', ho_certificate = Some (demo_host_certificate i)\<rparr>"

lemma demo_parse:
  assumes "parse_host_key_cached demo_env ''key'' e = (k, e')" and "be_key_cache e = [] \<or> be_key_cache e = [(''key'', Some ''key'')]"
  shows "k = Some ''key'' \<and> be_key_cache e' = [(''key'', Some ''key'')] \<and> engine_table e' = engine_table e \<and> be_sessions e' = be_sessions e"
  using assms by (auto simp: parse_host_key_cached_def demo_env_def engine_table_def)

lemma demo_hop_made:
  assumes "\<not> in_dry_run (mk ''pub'')" and "be_key_cache e = [] \<or> be_key_cache e = [(''key'', Some ''key'')]"
  shows "\<exists>e'. certify_hop demo_env opts name (demo_host a j) mk e
      = (Inr (demo_hop a (mk ''pub''), demo_host_certificate (mk ''pub''), projr (demo_sign 0 (mk ''pub''))), e')
    \<and> be_key_cache e' = [(''key'', Some ''key'')] \<and> engine_table e' = engine_table e \<and> be_sessions e' = be_sessions e"
proof -
  obtain k e' where p: "parse_host_key_cached demo_env ''key'' (tick (tick e)) = (k, e')" by fastforce
  have "k = Some ''key''" "be_key_cache e' = [(''key'', Some ''key'')]" "engine_table e' = engine_table e" "be_sessions e' = be_sessions e"
    using demo_parse [OF p] assms(2) by (simp_all add: tick_def engine_table_def)
  then show ?thesis using demo_certify [of mk opts name a j e, OF assms(1)] p by (simp add: demo_hop_def)
qed

lemma demo_hops:
  fixes ttl :: go_duration and cmd :: string and opts :: exec_options
  defines "i1 \<equiv> oneshot_intent demo_caller ''gate'' ttl PurposeOneshot ''pub'' cmd opts False"
    and "i2 \<equiv> oneshot_intent demo_caller ''db'' ttl PurposeOneshot ''pub'' cmd opts True"
  assumes "be_key_cache e = []" and "engine_table e = demo_hosts"
  shows "\<exists>e'. build_hops demo_env demo_caller ''db'' ttl PurposeOneshot cmd opts e
     = (Inr ([demo_hop ''10.0.0.1:22'' i1, demo_hop ''10.0.0.2:22'' i2], 7, Some demo_verdict), e')"
proof -
  have d: "\<not> in_dry_run (oneshot_intent demo_caller n ttl PurposeOneshot p cmd opts t)" for n p t
    by (simp add: oneshot_intent_def bastion_intent_def plain_intent_def Let_def)
  obtain e1 where e1: "certify_hop demo_env opts ''gate'' (demo_host ''10.0.0.1:22'' []) (\<lambda>pub. oneshot_intent demo_caller ''gate'' ttl PurposeOneshot pub cmd opts False) e
      = (Inr (demo_hop ''10.0.0.1:22'' i1, demo_host_certificate i1, projr (demo_sign 0 i1)), e1)"
    and "be_key_cache e1 = [(''key'', Some ''key'')]" and t1: "engine_table e1 = demo_hosts"
    using demo_hop_made [of "\<lambda>pub. oneshot_intent demo_caller ''gate'' ttl PurposeOneshot pub cmd opts False" e opts "''gate''" "''10.0.0.1:22''" "[]"] assms d by auto
  then obtain e2 where e2: "certify_hop demo_env opts ''db'' (demo_host ''10.0.0.2:22'' ''gate'') (\<lambda>pub. oneshot_intent demo_caller ''db'' ttl PurposeOneshot pub cmd opts True) e1
      = (Inr (demo_hop ''10.0.0.2:22'' i2, demo_host_certificate i2, projr (demo_sign 0 i2)), e2)"
    using demo_hop_made [of "\<lambda>pub. oneshot_intent demo_caller ''db'' ttl PurposeOneshot pub cmd opts True" e1 opts "''db''" "''10.0.0.2:22''" "''gate''"] d unfolding i2_def by auto
  show ?thesis
    using e1 e2 by (simp add: build_hops_def demo_resolve assms(4) demo_engine_host t1 demo_sign_def)
qed

lemma demo_exec: "prints_all cmd \<Longrightarrow> exec_once (bv_channel demo_env n) cmd opts = Inr \<lparr>sr_stdout = ''up 3 days'', sr_stderr = [], sr_exit_code = 0\<rparr>"
  by (auto simp: exec_once_def demo_env_def demo_channel_def prints_all_def finish_result_def captured_eq split: option.splits)

lemma demo_once: "prints_all cmd \<Longrightarrow> fst (run_once demo_env c host cmd opts [demo_hop a i, demo_hop b j] 7 (Some demo_verdict) e) = Inr demo_result"
proof -
  assume cmd: "prints_all cmd"
  have "\<exists>conn. fst (ssh_dial (bv_dial demo_env n) [demo_hop a i, demo_hop b j]) = Inr conn" for n
    by (simp add: ssh_dial_def demo_env_def hop_client_config_def demo_hop_def)
  then obtain conn where "fst (ssh_dial (bv_dial demo_env (be_tick e)) [demo_hop a i, demo_hop b j]) = Inr conn" by blast
  then show ?thesis by (simp add: run_once_def Let_def demo_exec [OF cmd] demo_audit demo_result_def warnings_of_def demo_verdict_def)
qed

lemma demo_execute:
  assumes "cmd \<noteq> []" and "\<not> xo_dry_run opts" and "prints_all cmd"
  shows "fst (broker_execute demo_env demo_caller ''db'' cmd ttl opts demo_broker) = Inr demo_result"
proof -
  have c: "be_key_cache (tick demo_broker) = []" by (simp add: tick_def demo_broker_def demo_engine_def)
  obtain i j e' where "build_hops demo_env demo_caller ''db'' (ttl_for (tick demo_broker) ttl) PurposeOneshot cmd opts (tick demo_broker)
     = (Inr ([demo_hop ''10.0.0.1:22'' i, demo_hop ''10.0.0.2:22'' j], 7, Some demo_verdict), e')"
    using demo_hops [OF c, of "ttl_for (tick demo_broker) ttl" cmd opts] demo_table_tick by auto
  then show ?thesis using assms by (simp add: broker_execute_def demo_refresh demo_table_tick demo_engine_host demo_once)
qed

text \<open>A session of the caller on the host, opened over the current route.\<close>

definition demo_route :: string where
  "demo_route = hop_signature ''gate'' (demo_host ''10.0.0.1:22'' []) @ hop_signature ''db'' (demo_host ''10.0.0.2:22'' ''gate'')"

definition demo_session :: live_session where
  "demo_session = \<lparr>lv_id = ''s-1'', lv_caller = ''alice'', lv_context = [], lv_host = ''db'', lv_serial = 7, lv_mode = ''exec'', lv_conn = True,
     lv_shell = False, lv_created = 0, lv_last_used = 0, lv_cert_not_after = Some 900, lv_busy = 0, lv_elevation_prefix = [], lv_elev_label = [],
     lv_sudo = False, lv_sudo_user = [], lv_pty = False, lv_connectivity_sig = demo_route, lv_recorder = False\<rparr>"

definition demo_in_session :: engine where
  "demo_in_session = demo_broker\<lparr>be_sessions := (be_sessions demo_broker)\<lparr>sm_sessions := [(''s-1'', demo_session)]\<rparr>\<rparr>"

lemma demo_connectivity: "engine_table e = demo_hosts \<Longrightarrow> connectivity_signature e ''db'' = Inr demo_route"
  using connectivity_signature_cong [of e "demo_engine demo_hosts" "''db''"] demo_signature by (simp add: demo_table demo_route_def)

lemma demo_cleared:
  assumes "be_remote e" and "lv_connectivity_sig s = demo_route" and "lv_host s = ''db''"
  shows "\<exists>e'. authorize_session_exec demo_env c s cmd e = ((Some demo_verdict, Inr []), e')"
proof -
  obtain e1 where r: "refresh_hosts_now demo_env e = (None, e1)" and t: "engine_table e1 = demo_hosts"
    using assms(1) by (simp add: refresh_hosts_now_def demo_env_def prune_host_key_cache_def Let_def tick_def engine_table_def)
  have "demo_route \<noteq> []" by (simp add: demo_route_def hop_signature_def)
  moreover have "\<exists>e2. authorize_session_bastions demo_env c ''db'' e1 = (None, e2)"
    by (simp add: authorize_session_bastions_def demo_resolve [OF t]) (simp add: demo_env_def demo_sign_def demo_verdict_def)
  moreover have "\<exists>e3. preflight_command demo_env c s cmd e2 = ((Some demo_verdict, Inr []), e3)" for e2
    by (simp add: preflight_command_def demo_env_def demo_sign_def demo_verdict_def)
  ultimately show ?thesis using r assms(2,3) demo_connectivity [OF t]
    by (auto simp: authorize_session_exec_def current_connectivity_signature_def)
qed

lemma uptime_prints: "prints_all ''uptime''"
  by code_simp

lemma demo_session_exec: "fst (broker_session_exec demo_env demo_caller ''s-1'' ''uptime'' demo_in_session) = Inr demo_result"
proof -
  let ?s = "demo_session\<lparr>lv_last_used := 10, lv_busy := 1\<rparr>"
  have "fst (exec_checked_out demo_env demo_caller ?s ''uptime'' e) = Inr demo_result" if remote: "be_remote e" for e
  proof -
    obtain e1 where "authorize_session_exec demo_env demo_caller ?s ''uptime'' e = ((Some demo_verdict, Inr []), e1)"
      using demo_cleared [OF remote, of ?s] by (auto simp: demo_session_def)
    then show ?thesis
      by (simp add: exec_checked_out_def session_command_check_def run_in_session_def effective_command_def Let_def demo_exec uptime_prints demo_audit demo_session_def
          demo_result_def warnings_of_def demo_verdict_def)
  qed
  note x = this [of "tick (tick (demo_in_session\<lparr>be_sessions := (be_sessions demo_in_session)\<lparr>sm_sessions := [(''s-1'', ?s)]\<rparr>\<rparr>))"]
  have c: "checkout_owned 10 10 ''s-1'' ''alice'' (be_sessions demo_in_session)
      = ((Some ?s, True, True), (be_sessions demo_in_session)\<lparr>sm_sessions := [(''s-1'', ?s)]\<rparr>)"
    by (simp add: checkout_owned_def demo_in_session_def demo_session_def cert_expired_def Let_def)
  have "be_remote (tick (tick (demo_in_session\<lparr>be_sessions := m\<rparr>)))" for m
    by (simp add: tick_def demo_in_session_def demo_broker_def demo_engine_def)
  then show ?thesis
    using x c by (simp add: broker_session_exec_def Let_def demo_env_def demo_caller_def split: prod.splits) (metis fst_conv)
qed

text \<open>Opening a session there.\<close>

lemma demo_opens: "\<exists>e'. open_session demo_env demo_caller ''db'' [] 60 no_options demo_broker = (Inr (''s-1'', 7), e')"
proof -
  let ?i = "\<lambda>n t pub. session_intent demo_caller n (ttl_for (tick demo_broker) 60) PurposeSession pub ''exec'' no_options t"
  have d: "\<not> in_dry_run (?i n t p)" for n p t by (simp add: session_intent_def bastion_intent_def plain_intent_def Let_def)
  have c: "be_key_cache (tick demo_broker) = []" by (simp add: tick_def demo_broker_def demo_engine_def)
  obtain e1 where e1: "certify_hop demo_env no_options ''gate'' (demo_host ''10.0.0.1:22'' []) (?i ''gate'' False) (tick demo_broker)
      = (Inr (demo_hop ''10.0.0.1:22'' (?i ''gate'' False ''pub''), demo_host_certificate (?i ''gate'' False ''pub''), projr (demo_sign 0 (?i ''gate'' False ''pub''))), e1)"
    and k1: "be_key_cache e1 = [(''key'', Some ''key'')]" and t1: "engine_table e1 = demo_hosts" and m1: "be_sessions e1 = be_sessions (tick demo_broker)"
    using demo_hop_made [of "?i ''gate'' False" "tick demo_broker" no_options "''gate''" "''10.0.0.1:22''" "[]"] c d demo_table_tick by auto
  obtain e2 where e2: "certify_hop demo_env no_options ''db'' (demo_host ''10.0.0.2:22'' ''gate'') (?i ''db'' True) e1
      = (Inr (demo_hop ''10.0.0.2:22'' (?i ''db'' True ''pub''), demo_host_certificate (?i ''db'' True ''pub''), projr (demo_sign 0 (?i ''db'' True ''pub''))), e2)"
    and m2: "be_sessions e2 = be_sessions e1"
    using demo_hop_made [of "?i ''db'' True" e1 no_options "''db''" "''10.0.0.2:22''" "''gate''"] k1 d by auto
  have "\<exists>h. build_hops_with_prefix demo_env demo_caller ''db'' (ttl_for (tick demo_broker) 60) PurposeSession ''exec'' no_options (tick demo_broker) = (Inr h, e2)
      \<and> sh_serial h = 7 \<and> sh_hops h = [demo_hop ''10.0.0.1:22'' (?i ''gate'' False ''pub''), demo_hop ''10.0.0.2:22'' (?i ''db'' True ''pub'')]"
    using e1 e2 by (simp add: build_hops_with_prefix_def demo_resolve demo_table_tick demo_engine_host t1 demo_sign_def no_hops_def Let_def)
  then obtain h where h: "build_hops_with_prefix demo_env demo_caller ''db'' (ttl_for (tick demo_broker) 60) PurposeSession ''exec'' no_options (tick demo_broker) = (Inr h, e2)"
    "sh_serial h = 7" "sh_hops h = [demo_hop ''10.0.0.1:22'' (?i ''gate'' False ''pub''), demo_hop ''10.0.0.2:22'' (?i ''db'' True ''pub'')]" by blast
  have m: "session_count (be_sessions (tick e2)) = 0" "caller_sessions u (be_sessions (tick e2)) = 0" for u
    using m1 m2 by (simp_all add: tick_def demo_broker_def demo_engine_def new_session_manager_def session_count_def caller_sessions_def)
  have "\<exists>conn. fst (ssh_dial (bv_dial demo_env n) (sh_hops h)) = Inr conn" for n
    unfolding h(3) by (simp add: ssh_dial_def demo_env_def hop_client_config_def demo_hop_def)
  then obtain conn where dial: "fst (ssh_dial (bv_dial demo_env (be_tick e2)) (sh_hops h)) = Inr conn" by blast
  have "\<exists>e'. connect_session demo_env demo_caller ''db'' ''exec'' no_options h e2 = (Inr (''s-1'', 7), e')"
    using dial m h(2) by (simp add: connect_session_def open_shell_for_mode_def start_session_recording_def publish_session_def new_live_session_def
        session_add_def demo_audit tick_def) (simp add: demo_env_def)
  then show ?thesis using h(1) by (simp add: open_session_def demo_refresh demo_table_tick demo_engine_host)
qed

end
