(* ===== verification/Broker_Guarantees.thy ===== *)
theory Broker_Guarantees
  imports Broker_Demo Broker_K8s
begin

text \<open>
  What the broker guarantees: a command reaches a host only over certificates the signer issued for it, output is handed
  out only with its record, a session command is authorised each time, a session lives no longer than its
  certificate, and a file is returned whole or not at all.
\<close>

section \<open>What the steps leave alone\<close>

text \<open>Two engines that differ in the log, the key cache and the count of outside calls at most.\<close>

definition same_view :: "engine \<Rightarrow> engine \<Rightarrow> bool" where
  "same_view e e' \<longleftrightarrow> engine_table e' = engine_table e \<and> be_sent e' = be_sent e \<and> be_fail_closed e' = be_fail_closed e
     \<and> be_config e' = be_config e \<and> be_sessions e' = be_sessions e \<and> be_max_ttl e' = be_max_ttl e \<and> be_shells e' = be_shells e
     \<and> be_clusters e' = be_clusters e \<and> be_own_identity e' = be_own_identity e \<and> be_redactor e' = be_redactor e"

lemma same_view_refl [simp, intro]: "same_view e e"
  by (simp add: same_view_def)

lemma same_view_trans: "same_view e e' \<Longrightarrow> same_view e' e'' \<Longrightarrow> same_view e e''"
  by (simp add: same_view_def)

lemma same_view_tick [simp]: "same_view e (tick e') \<longleftrightarrow> same_view e e'" "same_view (tick e) e' \<longleftrightarrow> same_view e e'"
  by (simp_all add: same_view_def tick_def engine_table_def)

lemma engine_table_tick [simp]: "engine_table (tick e) = engine_table e"
  by (simp add: tick_def engine_table_def)

lemma engine_fields_tick [simp]: "be_sent (tick e) = be_sent e" "be_sessions (tick e) = be_sessions e" "be_fail_closed (tick e) = be_fail_closed e"
  "be_config (tick e) = be_config e" "be_max_ttl (tick e) = be_max_ttl e" "be_shells (tick e) = be_shells e" "be_audit_log (tick e) = be_audit_log e"
  "be_clusters (tick e) = be_clusters e" "be_key_cache (tick e) = be_key_cache e" "be_remote (tick e) = be_remote e" "be_hosts (tick e) = be_hosts e"
  "be_redactor (tick e) = be_redactor e" "be_own_identity (tick e) = be_own_identity e" "be_tick (tick e) = Suc (be_tick e)"
  by (simp_all add: tick_def)

lemma engine_table_simps [simp]: "engine_table (e\<lparr>be_audit_log := l\<rparr>) = engine_table e" "engine_table (e\<lparr>be_key_cache := k\<rparr>) = engine_table e"
  "engine_table (e\<lparr>be_sent := s\<rparr>) = engine_table e" "engine_table (e\<lparr>be_sessions := m\<rparr>) = engine_table e" "engine_table (e\<lparr>be_shells := sh\<rparr>) = engine_table e"
  by (simp_all add: engine_table_def)

lemma engine_host_table: "engine_table e' = engine_table e \<Longrightarrow> engine_host e' n = engine_host e n"
  by (simp add: engine_host_def)

lemma same_view_append: "append_broker_audit Q ent e = (ok, e') \<Longrightarrow> same_view e e' \<and> be_key_cache e' = be_key_cache e"
  by (auto simp: append_broker_audit_def same_view_def split: prod.splits)

lemma same_view_audit: "broker_audit Q ent e = (ok, e') \<Longrightarrow> same_view e e' \<and> be_key_cache e' = be_key_cache e"
  unfolding broker_audit_def by (rule same_view_append)

lemma same_view_noted [simp]: "same_view e (noted Q ent e)"
  using same_view_audit [of Q ent e] by (cases "broker_audit Q ent e") (auto simp: noted_def)

lemma sent_noted [simp]: "be_sent (noted Q ent e) = be_sent e" "be_sessions (noted Q ent e) = be_sessions e"
  "engine_table (noted Q ent e) = engine_table e" "be_fail_closed (noted Q ent e) = be_fail_closed e" "be_shells (noted Q ent e) = be_shells e"
  using same_view_noted [of e Q ent] by (simp_all add: same_view_def)

text \<open>The last line of the log is the signed record of an entry, cut to fit and redacted.\<close>

definition recorded :: "broker_env \<Rightarrow> entry \<Rightarrow> engine \<Rightarrow> bool" where
  "recorded Q ent e \<longleftrightarrow> (\<exists>io l pre. active_content (be_audit_log e) =
     pre @ au_marshal (bv_audit Q) (signed_entry (bv_audit Q) io l (fit_entry (bv_audit Q) (redact_entry (al_redactor (be_audit_log e)) ent))) @ [newline])"

lemma audit_True:
  assumes "broker_audit Q ent e = (True, e')" and "be_fail_closed e"
  shows "recorded Q (enriched e ent) e'"
proof -
  obtain l where "audit_append (bv_audit Q) (bv_io Q (be_tick e)) (enriched e ent) (be_audit_log e) = (None, l)" and "be_audit_log e' = l"
    using assms by (auto simp: broker_audit_def append_broker_audit_def split: prod.splits)
  then show ?thesis using append_None [of "bv_audit Q" "bv_io Q (be_tick e)" "enriched e ent" "be_audit_log e" l]
    unfolding recorded_def by metis
qed

section \<open>Certified chains\<close>

definition cache_ok :: "broker_env \<Rightarrow> engine \<Rightarrow> bool" where
  "cache_ok Q e \<longleftrightarrow> (\<forall>line v. map_of (be_key_cache e) line = Some v \<longrightarrow> v = bv_parse_key Q line)"

lemma cache_ok_tick [simp]: "cache_ok Q (tick e) = cache_ok Q e"
  by (simp add: cache_ok_def)

lemma cache_ok_cong: "be_key_cache e' = be_key_cache e \<Longrightarrow> cache_ok Q e' = cache_ok Q e"
  by (simp add: cache_ok_def)

lemma parse_cached:
  assumes "parse_host_key_cached Q line e = (r, e')" and "cache_ok Q e"
  shows "r = bv_parse_key Q line \<and> cache_ok Q e' \<and> same_view e e'"
  using assms by (auto simp: parse_host_key_cached_def cache_ok_def same_view_def map_of_update split: option.splits if_splits)

text \<open>A hop made for the given host entry with a certificate the signer issued for one of the given intents.\<close>

definition hop_certified :: "broker_env \<Rightarrow> (string \<Rightarrow> intent) \<Rightarrow> wire_host_info \<Rightarrow> issued_remote \<Rightarrow> ssh_hop \<Rightarrow> bool" where
  "hop_certified Q mk hi iu hop \<longleftrightarrow> (\<exists>n pub. bv_sign Q n (mk pub) = Inr iu) \<and> ho_certificate hop = ir_certificate iu \<and> ho_certificate hop \<noteq> None
     \<and> ho_addr hop = wh_addr hi \<and> ho_user hop = wh_user hi \<and> ho_host_key hop = bv_parse_key Q (wh_host_key hi) \<and> ho_host_key hop \<noteq> None"

lemma certify_hop_ok:
  assumes "certify_hop Q opts name hi mk e = (r, e')" and "cache_ok Q e"
  shows "cache_ok Q e' \<and> same_view e e'
    \<and> (case r of Inl x \<Rightarrow> True | Inr (hop, cert, iu) \<Rightarrow> hop_certified Q mk hi iu hop \<and> ir_certificate iu = Some cert)"
proof -
  have "cache_ok Q (tick (tick e))" using assms(2) by simp
  then show ?thesis
    using assms parse_cached [of Q "wh_host_key hi" "tick (tick e)"]
    by (auto simp: certify_hop_def hop_certified_def split: option.splits prod.splits sum.splits)
qed

text \<open>The hops of a chain, the last of which is the target.\<close>

fun chain_certified :: "broker_env \<Rightarrow> (string \<Rightarrow> bool \<Rightarrow> string \<Rightarrow> intent) \<Rightarrow> engine \<Rightarrow> string list \<Rightarrow> ssh_hop list \<Rightarrow> bool" where
  "chain_certified Q mk e [] [] \<longleftrightarrow> True"
| "chain_certified Q mk e (name # names) (hop # hops) \<longleftrightarrow>
     (\<exists>hi iu. engine_host e name = Some hi \<and> hop_certified Q (mk name (names = [])) hi iu hop) \<and> chain_certified Q mk e names hops"
| "chain_certified Q mk e _ _ \<longleftrightarrow> False"

lemma chain_certified_cong: "engine_table e' = engine_table e \<Longrightarrow> chain_certified Q mk e' ns hs = chain_certified Q mk e ns hs"
  by (induction Q mk e ns hs rule: chain_certified.induct) (simp_all add: engine_host_def)

lemma build_hops_from_ok:
  assumes "build_hops_from Q c ttl purpose command opts names e = (r, e')" and "cache_ok Q e"
  shows "cache_ok Q e' \<and> same_view e e'
    \<and> (case r of Inl x \<Rightarrow> True
       | Inr (hops, serial, dec) \<Rightarrow> chain_certified Q (\<lambda>n target pub. oneshot_intent c n ttl purpose pub command opts target) e names hops)"
  using assms
proof (induction Q c ttl purpose command opts names e arbitrary: r e' rule: build_hops_from.induct)
  case (2 Q c ttl purpose command opts name names e)
  show ?case
  proof (cases "engine_host e name")
    case (Some hi)
    obtain r1 e1 where h: "certify_hop Q opts name hi (\<lambda>pub. oneshot_intent c name ttl purpose pub command opts (names = [])) e = (r1, e1)"
      by fastforce
    note h1 = certify_hop_ok [OF h "2.prems"(2)]
    show ?thesis
    proof (cases r1)
      case (Inl x)
      then show ?thesis using "2.prems" Some h h1 by auto
    next
      case (Inr p)
      obtain hop cert iu where p: "p = (hop, cert, iu)" by (cases p)
      obtain r2 e2 where b: "build_hops_from Q c ttl purpose command opts names e1 = (r2, e2)" by fastforce
      have ih: "cache_ok Q e2 \<and> same_view e1 e2 \<and> (case r2 of Inl x \<Rightarrow> True
         | Inr (hops, serial, dec) \<Rightarrow> chain_certified Q (\<lambda>n target pub. oneshot_intent c n ttl purpose pub command opts target) e1 names hops)"
        using "2.IH" [OF Some h [symmetric] Inr p [symmetric] refl b] h1 by simp
      have t: "engine_table e1 = engine_table e" using h1 by (simp add: same_view_def)
      show ?thesis using "2.prems"(1) Some h Inr p b ih h1
        by (auto simp: chain_certified_cong [OF t] split: sum.splits intro: same_view_trans)
    qed
  qed (use 2 in auto)
qed simp

section \<open>One-shot commands\<close>

lemma key_cache_noted [simp]: "be_key_cache (noted Q ent e) = be_key_cache e" "be_max_ttl (noted Q ent e) = be_max_ttl e" "be_config (noted Q ent e) = be_config e"
  using same_view_audit [of Q ent e] by (cases "broker_audit Q ent e", simp add: noted_def same_view_def)+

lemma cache_ok_noted [simp]: "cache_ok Q (noted Q ent e) = cache_ok Q e"
  by (rule cache_ok_cong) simp

text \<open>What a step keeps that makes no session and no host view.\<close>

definition same_rest :: "engine \<Rightarrow> engine \<Rightarrow> bool" where
  "same_rest e e' \<longleftrightarrow> be_sessions e' = be_sessions e \<and> be_shells e' = be_shells e \<and> be_max_ttl e' = be_max_ttl e \<and> be_config e' = be_config e
     \<and> be_fail_closed e' = be_fail_closed e"

lemma same_rest_trans: "same_rest e e' \<Longrightarrow> same_rest e' e'' \<Longrightarrow> same_rest e e''"
  by (simp add: same_rest_def)

lemma same_view_rest: "same_view e e' \<Longrightarrow> same_rest e e'"
  by (simp add: same_view_def same_rest_def)

lemma map_of_keep_key: "map_of (map_keep (\<lambda>k v. P k) m) k = (if P k then map_of m k else None)"
  by (induction m) auto

lemma refresh_now_ok:
  assumes "refresh_hosts_now Q e = (x, e')" and "cache_ok Q e"
  shows "cache_ok Q e' \<and> be_sent e' = be_sent e \<and> same_rest e e'"
  using assms by (auto simp: refresh_hosts_now_def prune_host_key_cache_def cache_ok_def same_rest_def Let_def map_of_keep_key
    split: if_splits sum.splits option.splits)

lemma refresh_ok:
  assumes "refresh_for_new_connection Q e = (x, e')" and "cache_ok Q e"
  shows "cache_ok Q e' \<and> be_sent e' = be_sent e \<and> same_rest e e'"
proof -
  obtain y e1 where r: "refresh_hosts_now Q (tick e) = (y, e1)" by fastforce
  have "cache_ok Q e1 \<and> be_sent e1 = be_sent e \<and> same_rest (tick e) e1" using refresh_now_ok [OF r] assms(2) by simp
  moreover have "e' = e \<or> e' = tick e \<or> e' = e1"
    using assms(1) r by (simp add: refresh_for_new_connection_def split: if_splits)
  ultimately show ?thesis using assms(2) by (auto simp: same_rest_def)
qed

lemma run_once_ok:
  assumes "run_once Q c host command opts hops serial dec e = (r, e')"
  shows "be_key_cache e' = be_key_cache e \<and> engine_table e' = engine_table e \<and> same_rest e e'
    \<and> (be_sent e' = be_sent e \<or> hops \<noteq> [] \<and> be_sent e' = be_sent e @ [\<lparr>st_host = host, st_hops = hops, st_command = command\<rparr>])
    \<and> (case r of Inl x \<Rightarrow> True | Inr res \<Rightarrow> be_sent e' \<noteq> be_sent e
        \<and> (\<exists>n. exec_once (bv_channel Q n) command (plain_options (xo_pty opts) (xo_stdin opts))
              = Inr \<lparr>sr_stdout = bq_stdout res, sr_stderr = bq_stderr res, sr_exit_code = bq_exit_code res\<rparr>)
        \<and> (be_fail_closed e \<longrightarrow> recorded Q (enriched e (executed_entry c host command opts (bq_serial res) dec (bq_exit_code res))) e'))"
proof (cases "fst (ssh_dial (bv_dial Q (be_tick e)) hops)")
  case (Inl d)
  then show ?thesis using assms by (auto simp: run_once_def Let_def same_rest_def)
next
  case (Inr conn)
  then have ne: "hops \<noteq> []" by (auto simp: ssh_dial_def)
  let ?e = "tick ((tick e)\<lparr>be_sent := be_sent e @ [\<lparr>st_host = host, st_hops = hops, st_command = command\<rparr>]\<rparr>)"
  show ?thesis
  proof (cases "exec_once (bv_channel Q (Suc (be_tick e))) command (plain_options (xo_pty opts) (xo_stdin opts))")
    case (Inl x)
    then show ?thesis using assms Inr ne by (auto simp: run_once_def Let_def same_rest_def)
  next
    case (Inr res)
    obtain ok e1 where a: "broker_audit Q (executed_entry c host command opts serial dec (sr_exit_code res)) ?e = (ok, e1)" by fastforce
    then have "e' = e1 \<and> r = (if ok then Inr \<lparr>bq_stdout = sr_stdout res, bq_stderr = sr_stderr res, bq_exit_code = sr_exit_code res,
        bq_serial = serial, bq_warnings = warnings_of dec, bq_dry_run = None\<rparr> else Inl AuditUnavailable)"
      using assms Inr \<open>fst _ = Inr conn\<close> by (cases ok) (simp_all add: run_once_def Let_def)
    moreover have "enriched ?e ent = enriched e ent" for ent by (simp add: enriched_def engine_host_def)
    moreover have "\<exists>n. exec_once (bv_channel Q n) command (plain_options (xo_pty opts) (xo_stdin opts))
        = Inr \<lparr>sr_stdout = sr_stdout res, sr_stderr = sr_stderr res, sr_exit_code = sr_exit_code res\<rparr>" using Inr by (cases res) auto
    ultimately show ?thesis using same_view_audit [OF a] ne audit_True [of Q _ ?e e1] a
      by (cases ok) (simp_all add: same_view_def same_rest_def)
  qed
qed

lemma resolve_chain_cong: "engine_table e' = engine_table e \<Longrightarrow> resolve_chain e' host = resolve_chain e host"
  by (simp add: resolve_chain_def)

lemma resolve_chain_last:
  assumes "resolve_chain e host = Inr chain" and "chain \<noteq> []"
  shows "last chain = host"
proof -
  obtain p where "chain = rev p" "jumps (engine_table e) host p" using resolve_from_Inr assms(1) by (fastforce simp: resolve_chain_def)
  then show ?thesis using assms(2) by (cases p) auto
qed

lemma build_hops_ok:
  assumes "build_hops Q c host ttl purpose command opts e = (r, e')" and "cache_ok Q e"
  shows "cache_ok Q e' \<and> same_view e e' \<and> (case r of Inl x \<Rightarrow> True | Inr (hops, serial, dec) \<Rightarrow>
    \<exists>chain. resolve_chain e host = Inr chain \<and> chain_certified Q (\<lambda>n target pub. oneshot_intent c n ttl purpose pub command opts target) e chain hops)"
proof (cases "resolve_chain e host")
  case (Inr chain)
  then show ?thesis using assms build_hops_from_ok [of Q c ttl purpose command opts chain e r e']
    by (auto simp: build_hops_def split: sum.splits)
qed (use assms in \<open>auto simp: build_hops_def\<close>)

lemma ttl_for_cong: "be_max_ttl e' = be_max_ttl e \<Longrightarrow> ttl_for e' n = ttl_for e n"
  by (simp add: ttl_for_def Let_def)

lemma dry_run_ok:
  assumes "broker_dry_run Q c host command ttl opts e = (r, e')"
  shows "be_sent e' = be_sent e \<and> be_key_cache e' = be_key_cache e \<and> same_rest e e'"
  using assms by (auto simp: broker_dry_run_def Let_def same_rest_def split: option.splits sum.splits)

text \<open>Where a request got to: it sent nothing, or the certificates were there and it ran.\<close>

lemma execute_cases:
  assumes "broker_execute Q c host command ttl opts e = (r, e')" and "cache_ok Q e"
  obtains (stopped) "be_sent e' = be_sent e" "cache_ok Q e'" "same_rest e e'" "case r of Inl x \<Rightarrow> True | Inr res \<Rightarrow> xo_dry_run opts"
  | (ran) e1 e2 hops serial dec where "\<not> xo_dry_run opts" "command \<noteq> []" "be_sent e2 = be_sent e" "same_rest e e2"
      "build_hops Q c host (ttl_for e ttl) PurposeOneshot command opts e1 = (Inr (hops, serial, dec), e2)"
      "cache_ok Q e1" "cache_ok Q e2" "same_view e1 e2" "engine_host e1 host \<noteq> None"
      "run_once Q c host command opts hops serial dec e2 = (r, e')"
proof -
  obtain x e1 where f: "refresh_for_new_connection Q e = (x, e1)" by fastforce
  note e1 = refresh_ok [OF f assms(2)]
  then have ttl: "ttl_for e1 ttl = ttl_for e ttl" by (auto simp: same_rest_def intro: ttl_for_cong)
  show thesis
  proof (cases "x = None \<and> engine_host e1 host \<noteq> None \<and> command \<noteq> [] \<and> \<not> xo_dry_run opts")
    case False
    have "be_sent e' = be_sent e1 \<and> be_key_cache e' = be_key_cache e1 \<and> same_rest e1 e' \<and> (case r of Inl x \<Rightarrow> True | Inr res \<Rightarrow> xo_dry_run opts)"
      using assms(1) False dry_run_ok [of Q c host command ttl opts e1 r e'] unfolding broker_execute_def f
      by (auto simp: same_rest_def split: option.splits if_splits sum.splits)
    then show thesis using e1 stopped same_rest_trans by (auto simp: cache_ok_def)
  next
    case True
    obtain y e2 where b: "build_hops Q c host (ttl_for e ttl) PurposeOneshot command opts e1 = (y, e2)" by fastforce
    note e2 = build_hops_ok [OF b conjunct1 [OF e1]]
    then have sr: "same_rest e e2" and sent: "be_sent e2 = be_sent e" using e1 same_view_rest same_rest_trans by (auto simp: same_view_def)
    show thesis
    proof (cases y)
      case (Inl z)
      then have "r = Inl (classify_sign_err z)" and
        "e' = noted Q ((caller_entry c host (sign_failure_outcome z))\<lparr>en_command := command, en_err := bv_error_text Q z\<rparr>) e2"
        using assms(1) True b unfolding broker_execute_def f by (auto simp: ttl)
      then show thesis using stopped e2 sr sent by (simp add: cache_ok_def same_rest_def)
    next
      case (Inr p)
      obtain hops serial dec where "p = (hops, serial, dec)" by (cases p)
      then show thesis using ran [of e2 e1 hops serial dec] assms(1) True b Inr e1 e2 sr sent unfolding broker_execute_def f by (auto simp: ttl)
    qed
  qed
qed

lemma chain_certified_Nil: "chain_certified Q mk e [] hops \<longleftrightarrow> hops = []"
  by (cases hops) simp_all

text \<open>
  A one-shot command reaches a host only over certificates issued for it. Whatever a request does, it sends nothing, or
  exactly the command it names, to the host it names, over the whole current chain of jumps to that host: every hop is
  dialled at the address and with the pinned key of the host view and with a certificate the signer returned for
  it, that of the last hop for an intent with this very command, elevation and approval, those of the bastions for
  intents that carry none of them, none of them for longer than the limit of the broker. A dry run sends nothing.
\<close>

theorem command_only_certified:
  assumes "broker_execute Q c host command ttl opts e = (r, e')" and "cache_ok Q e"
  shows "cache_ok Q e' \<and> ttl_for e ttl \<le> be_max_ttl e \<and> (be_sent e' = be_sent e \<or> \<not> xo_dry_run opts
    \<and> (\<exists>chain hops. be_sent e' = be_sent e @ [\<lparr>st_host = host, st_hops = hops, st_command = command\<rparr>]
         \<and> resolve_chain e' host = Inr chain \<and> chain \<noteq> [] \<and> last chain = host
         \<and> chain_certified Q (\<lambda>n target pub. oneshot_intent c n (ttl_for e ttl) PurposeOneshot pub command opts target) e' chain hops))"
  using assms
proof (cases rule: execute_cases)
  case stopped
  then show ?thesis by (simp add: ttl_for_def Let_def)
next
  case (ran e1 e2 hops serial dec)
  note r = run_once_ok [OF ran(10)]
  have t: "engine_table e' = engine_table e1" using r ran(8) by (simp add: same_view_def)
  obtain chain where c: "resolve_chain e1 host = Inr chain"
    "chain_certified Q (\<lambda>n target pub. oneshot_intent c n (ttl_for e ttl) PurposeOneshot pub command opts target) e1 chain hops"
    using build_hops_ok [OF ran(5,6)] by auto
  have "cache_ok Q e'" using r ran(7) by (simp add: cache_ok_def)
  moreover have "ttl_for e ttl \<le> be_max_ttl e" by (simp add: ttl_for_def Let_def)
  moreover have "chain \<noteq> [] \<and> last chain = host" if "hops \<noteq> []" using that c(2) resolve_chain_last [OF c(1)] by (cases "chain = []") (auto simp: chain_certified_Nil)
  ultimately show ?thesis using r ran(1,3) c chain_certified_cong [OF t] resolve_chain_cong [OF t] by auto
qed

theorem command_only_certified_witness:
  "cache_ok demo_env (snd (broker_execute demo_env demo_caller ''db'' ''uptime'' 60 no_options demo_broker))"
  using command_only_certified [of demo_env demo_caller "''db''" "''uptime''" 60 no_options demo_broker]
  by (cases "broker_execute demo_env demo_caller ''db'' ''uptime'' 60 no_options demo_broker") (simp add: cache_ok_def demo_broker_def demo_engine_def)

text \<open>
  Where the broker is to fail closed, output leaves it only with its record. A command that ran gives its output only
  when the last line of the audit log is its signed record, with the caller, the host, the command, the serial and the
  exit code that is handed out.
\<close>

theorem output_recorded:
  assumes "broker_execute Q c host command ttl opts e = (Inr res, e')" and "cache_ok Q e" and "be_fail_closed e" and "\<not> xo_dry_run opts"
  shows "\<exists>dec. recorded Q (enriched e' (executed_entry c host command opts (bq_serial res) dec (bq_exit_code res))) e' \<and> be_sent e' \<noteq> be_sent e"
  using assms(1,2)
proof (cases rule: execute_cases)
  case stopped
  then show ?thesis using assms(4) by simp
next
  case (ran e1 e2 hops serial dec)
  note r = run_once_ok [OF ran(10)]
  have "engine_table e' = engine_table e2" using r by simp
  then have "enriched e' ent = enriched e2 ent" for ent by (simp add: enriched_def engine_host_def)
  then show ?thesis using r ran(3,4) assms(3) by (auto simp: same_rest_def)
qed

theorem output_recorded_witness:
  "\<exists>dec e'. e' = snd (broker_execute demo_env demo_caller ''db'' ''uptime'' 60 no_options demo_broker)
     \<and> recorded demo_env (enriched e' (executed_entry demo_caller ''db'' ''uptime'' no_options 7 dec 0)) e'"
proof -
  let ?x = "broker_execute demo_env demo_caller ''db'' ''uptime'' 60 no_options demo_broker"
  have x: "?x = (Inr demo_result, snd ?x)" using demo_execute [of "''uptime''" no_options 60] uptime_prints by (simp add: prod_eq_iff no_options_def)
  have "cache_ok demo_env demo_broker" "be_fail_closed demo_broker" by (simp_all add: cache_ok_def demo_broker_def demo_engine_def)
  then show ?thesis using output_recorded [OF x] by (auto simp: demo_result_def no_options_def)
qed

section \<open>File transfers\<close>

lemma transfer_limit_fits:
  assumes "validate_file_transfer_max_bytes (be_config e) = None"
  shows "read_limit e n \<le> max_output_bytes - truncation_marker_len" and "0 < read_limit e n"
proof -
  have "truncation_marker_len \<le> 100" by (simp add: truncation_marker_len_def truncation_marker_def int_decimal_def nat_decimal.simps)
  then show "read_limit e n \<le> max_output_bytes - truncation_marker_len" and "0 < read_limit e n"
    using assms by (auto simp: read_limit_def file_transfer_max_bytes_def validate_file_transfer_max_bytes_def max_file_transfer_bytes_def split: if_splits)
qed

lemma exec_once_out:
  assumes "exec_once X command (plain_options False inp) = Inr res" and "sr_exit_code res = 0"
  shows "\<exists>t out err w. xc_run X command False inp t = (out, err, Completed w) \<and> (w = RunOk \<or> w = RunExit 0) \<and> sr_stdout res = captured out"
  using assms by (auto simp: exec_once_def finish_result_def plain_options_def Let_def split: if_splits prod.splits wait_end.splits run_end.splits) blast+

lemma execute_captures:
  assumes "broker_execute Q c host command ttl opts e = (Inr res, e')" and "cache_ok Q e" and "\<not> xo_dry_run opts"
  shows "\<exists>n. exec_once (bv_channel Q n) command (plain_options (xo_pty opts) (xo_stdin opts))
      = Inr \<lparr>sr_stdout = bq_stdout res, sr_stderr = bq_stderr res, sr_exit_code = bq_exit_code res\<rparr>"
  using assms(1,2)
proof (cases rule: execute_cases)
  case (ran e1 e2 hops serial dec)
  then show ?thesis using run_once_ok [OF ran(10)] by simp
qed (use assms(3) in simp)

text \<open>
  C29: A file is returned whole or not at all. On a host whose shell and \<open>head\<close> do what the text of the command says (the
  count and the path are read back from that text), a successful \<open>GetFile\<close> returns all of the file at the path, its
  length and its digest, and the file is within the limit that was asked for; a longer file, and an output that was cut
  on the way, is an error. The limit a broker starts with leaves room for the note that marks cut output, so that it
  cannot be taken for content.
\<close>

theorem get_file_whole:
  assumes "get_file Q c host path max_bytes ttl e = (Inr tr, e')" and "cache_ok Q e" and "validate_file_transfer_max_bytes (be_config e) = None"
    and "\<forall>n. serves_files (bv_channel Q n) files"
  shows "files path = Some (tr_content tr) \<and> tr_size tr = int (length (tr_content tr)) \<and> tr_size tr \<le> read_limit e max_bytes
    \<and> tr_sha256 tr = bv_sha256 Q (tr_content tr)"
proof -
  let ?cmd = "get_command (read_limit e max_bytes) path" and ?o = "no_options\<lparr>xo_file_transfer := True\<rparr>"
  obtain r e1 where x: "broker_execute Q c host ?cmd ttl ?o e = (r, e1)" by fastforce
  obtain res where res: "r = Inr res" "bq_exit_code res = 0" "int (length (bq_stdout res)) \<le> read_limit e max_bytes"
    and tr: "tr_content tr = bq_stdout res" "tr_size tr = int (length (bq_stdout res))" "tr_sha256 tr = bv_sha256 Q (bq_stdout res)"
    using assms(1) x by (auto simp: get_file_def Let_def split: option.splits sum.splits if_splits prod.splits bool.splits)
  obtain n where "exec_once (bv_channel Q n) ?cmd (plain_options False []) = Inr \<lparr>sr_stdout = bq_stdout res, sr_stderr = bq_stderr res, sr_exit_code = bq_exit_code res\<rparr>"
    using execute_captures [OF x [unfolded res(1)] assms(2)] by (auto simp: no_options_def)
  from exec_once_out [OF this] res(2) obtain t out err w where
    run: "xc_run (bv_channel Q n) ?cmd False [] t = (out, err, Completed w)" "w = RunOk \<or> w = RunExit 0" and out: "bq_stdout res = captured out" by auto
  have "0 \<le> read_limit e max_bytes" using transfer_limit_fits(2) [OF assms(3), of max_bytes] by simp
  from head_call_get [OF this, of path] run assms(4) obtain whole where
    at_path: "files path = Some whole" "concat out = take (nat (read_limit e max_bytes + 1)) whole" unfolding serves_files_def by blast
  moreover have "captured out = concat out"
    using captured_complete res(3) transfer_limit_fits(1) [OF assms(3), of max_bytes] unfolding out by (meson order_trans)
  ultimately have s: "bq_stdout res = take (nat (read_limit e max_bytes + 1)) whole" using out by simp
  then have "length whole < nat (read_limit e max_bytes + 1)"
    using res(3) transfer_limit_fits(2) [OF assms(3), of max_bytes] by (auto simp: min_def split: if_splits)
  then show ?thesis using s tr res(3) at_path(1) by simp
qed

theorem get_file_whole_witness:
  "\<exists>tr. fst (get_file demo_env demo_caller ''db'' ''/etc/motd'' 0 60 demo_broker) = Inr tr \<and> tr_content tr = ''up 3 days'' \<and> tr_size tr = 9"
proof -
  let ?x = "get_file demo_env demo_caller ''db'' ''/etc/motd'' 0 60 demo_broker"
  have l: "read_limit demo_broker 0 = 524288"
    by (simp add: read_limit_def file_transfer_max_bytes_def demo_broker_def demo_engine_def demo_config_def)
  have p: "validate_transfer_path ''/etc/motd'' = None" by code_simp
  have e: "fst (broker_execute demo_env demo_caller ''db'' (get_command 524288 ''/etc/motd'') 60 (no_options\<lparr>xo_file_transfer := True\<rparr>) demo_broker) = Inr demo_result"
    by (rule demo_execute) (simp_all add: prints_all_def head_call_get no_options_def, simp add: get_command_def)
  obtain e1 where "broker_execute demo_env demo_caller ''db'' (get_command 524288 ''/etc/motd'') 60 (no_options\<lparr>xo_file_transfer := True\<rparr>) demo_broker = (Inr demo_result, e1)"
    using e by (metis fst_conv surj_pair)
  then obtain tr e' where tr: "?x = (Inr tr, e')"
    using p unfolding get_file_def l Let_def by (simp add: demo_audit demo_result_def)
  have a: "cache_ok demo_env demo_broker" and b: "validate_file_transfer_max_bytes (be_config demo_broker) = None"
    using transfer_limit_fits by (simp_all add: cache_ok_def demo_broker_def demo_engine_def demo_config_def validate_file_transfer_max_bytes_def
      max_file_transfer_bytes_def truncation_marker_len_def truncation_marker_def int_decimal_def nat_decimal.simps)
  have "\<forall>n. serves_files (bv_channel demo_env n) (\<lambda>path. Some ''up 3 days'')" using demo_serves by (simp add: demo_env_def)
  from get_file_whole [OF tr a b this] have "tr_content tr = ''up 3 days''" "tr_size tr = int (length (tr_content tr))" by simp_all
  then show ?thesis using tr by simp
qed

section \<open>Commands in a session\<close>

text \<open>An answer of the signer that lets a command of a session run: no decision against it and no approval outstanding.\<close>

definition lets_run :: "issued_remote \<Rightarrow> bool" where
  "lets_run iu = (case ir_decision iu of None \<Rightarrow> True | Some d \<Rightarrow> dw_allowed d \<and> \<not> dw_require_approval d)"

definition bastion_cleared :: "broker_env \<Rightarrow> broker_caller \<Rightarrow> go_duration \<Rightarrow> string \<Rightarrow> bool" where
  "bastion_cleared Q c ttl name \<longleftrightarrow> (\<exists>n pub iu. bv_sign Q n (preflight_intent c name ttl pub) = Inr iu \<and> ir_decision iu \<noteq> None \<and> lets_run iu)"

definition command_cleared :: "broker_env \<Rightarrow> broker_caller \<Rightarrow> go_duration \<Rightarrow> live_session \<Rightarrow> string \<Rightarrow> string \<Rightarrow> bool" where
  "command_cleared Q c ttl s command envelope \<longleftrightarrow>
     (\<exists>n pub iu. bv_sign Q n (session_command_intent c s command ttl pub) = Inr iu \<and> lets_run iu \<and> envelope = ir_envelope iu)"

lemma preflight_bastions_ok:
  "preflight_bastions Q c pub names e = (x, e') \<Longrightarrow>
   same_view e e' \<and> be_key_cache e' = be_key_cache e \<and> (x = None \<longrightarrow> (\<forall>n \<in> set names. bastion_cleared Q c (be_max_ttl e) n))"
proof (induction Q c pub names e arbitrary: x e' rule: preflight_bastions.induct)
  case (2 Q c pub name names e)
  show ?case
  proof (cases "bv_sign Q (be_tick e) (preflight_intent c name (be_max_ttl e) pub)")
    case (Inr iu)
    show ?thesis
    proof (cases "ir_decision iu")
      case (Some d)
      show ?thesis
      proof (cases "dw_allowed d \<and> \<not> dw_require_approval d")
        case True
        then have "bastion_cleared Q c (be_max_ttl e) name"
          using Inr Some unfolding bastion_cleared_def lets_run_def by (intro exI [of _ "be_tick e"] exI [of _ pub] exI [of _ iu]) simp
        moreover have "preflight_bastions Q c pub names (tick e) = (x, e')" using "2.prems" Inr Some True by simp
        ultimately show ?thesis using "2.IH" [OF Inr Some] True by simp
      qed (use "2.prems" Inr Some in \<open>auto split: if_splits\<close>)
    qed (use "2.prems" Inr in auto)
  qed (use "2.prems" in auto)
qed simp

lemma session_bastions_ok:
  assumes "authorize_session_bastions Q c host e = (x, e')"
  shows "same_view e e' \<and> be_key_cache e' = be_key_cache e
    \<and> (x = None \<longrightarrow> (\<exists>chain. resolve_chain e host = Inr chain \<and> (\<forall>n \<in> set (butlast chain). bastion_cleared Q c (be_max_ttl e) n)))"
proof (cases "resolve_chain e host")
  case (Inr chain)
  have "butlast chain = []" if "length chain \<le> 1" using that by (cases chain) auto
  then show ?thesis using assms Inr preflight_bastions_ok [of Q c _ "butlast chain" "tick e" x e']
    by (auto simp: authorize_session_bastions_def split: if_splits option.splits)
qed (use assms in \<open>auto simp: authorize_session_bastions_def\<close>)

lemma preflight_command_ok:
  assumes "preflight_command Q c s command e = ((dec, r), e')"
  shows "same_view e e' \<and> be_key_cache e' = be_key_cache e \<and> (case r of Inl x \<Rightarrow> True | Inr envelope \<Rightarrow> command_cleared Q c (be_max_ttl e) s command envelope)"
  using assms unfolding preflight_command_def command_cleared_def lets_run_def
  by (auto split: option.splits sum.splits if_splits) (force split: option.splits)+

lemma refresh_now_view: "refresh_hosts_now Q e = (x, e') \<Longrightarrow> same_rest e e' \<and> be_sent e' = be_sent e"
  by (auto simp: refresh_hosts_now_def prune_host_key_cache_def same_rest_def Let_def split: if_splits sum.splits)

text \<open>What the preflight of a session command establishes when it lets the command run.\<close>

definition session_cleared :: "broker_env \<Rightarrow> broker_caller \<Rightarrow> live_session \<Rightarrow> string \<Rightarrow> string \<Rightarrow> engine \<Rightarrow> bool" where
  "session_cleared Q c s command envelope e \<longleftrightarrow> command_cleared Q c (be_max_ttl e) s command envelope
     \<and> (lv_connectivity_sig s = [] \<or> connectivity_signature e (lv_host s) = Inr (lv_connectivity_sig s)
         \<and> (\<exists>chain. resolve_chain e (lv_host s) = Inr chain \<and> (\<forall>n \<in> set (butlast chain). bastion_cleared Q c (be_max_ttl e) n)))"

lemma session_cleared_cong:
  assumes "engine_table e' = engine_table e" and "be_max_ttl e' = be_max_ttl e"
  shows "session_cleared Q c s command envelope e' = session_cleared Q c s command envelope e"
  using assms connectivity_signature_cong [OF assms(1)] resolve_chain_cong [OF assms(1)] by (simp add: session_cleared_def)

lemma authorize_session_ok:
  assumes "authorize_session_exec Q c s command e = ((dec, r), e')"
  shows "same_rest e e' \<and> be_sent e' = be_sent e \<and> (cache_ok Q e \<longrightarrow> cache_ok Q e')
    \<and> (case r of Inl x \<Rightarrow> True | Inr envelope \<Rightarrow> session_cleared Q c s command envelope e')"
proof (cases "lv_connectivity_sig s = []")
  case True
  then have p: "preflight_command Q c s command e = ((dec, r), e')" using assms by (simp add: authorize_session_exec_def)
  show ?thesis using preflight_command_ok [OF p] True
    by (auto simp: session_cleared_def same_view_def same_rest_def cache_ok_def split: sum.splits)
next
  case False
  obtain x e1 where f: "refresh_hosts_now Q e = (x, e1)" by fastforce
  note v = refresh_now_view [OF f]
  have k: "cache_ok Q e \<longrightarrow> cache_ok Q e1" using refresh_now_ok [OF f] by blast
  obtain y e2 where b: "authorize_session_bastions Q c (lv_host s) e1 = (y, e2)" by fastforce
  note vb = session_bastions_ok [OF b]
  show ?thesis
  proof (cases "x = None \<and> connectivity_signature e1 (lv_host s) = Inr (lv_connectivity_sig s) \<and> y = None")
    case True
    then have p: "preflight_command Q c s command e2 = ((dec, r), e')"
      using assms False f b by (simp add: authorize_session_exec_def current_connectivity_signature_def)
    note vp = preflight_command_ok [OF p]
    have t: "engine_table e' = engine_table e1" and m: "be_max_ttl e' = be_max_ttl e1" using vb vp by (simp_all add: same_view_def)
    have "session_cleared Q c s command envelope e1" if "r = Inr envelope" for envelope
      using that True vb vp by (auto simp: session_cleared_def same_view_def)
    then have "case r of Inl x \<Rightarrow> True | Inr envelope \<Rightarrow> session_cleared Q c s command envelope e'"
      by (simp add: session_cleared_cong [OF t m] split: sum.split)
    moreover have "cache_ok Q e' = cache_ok Q e1" using vb vp by (intro cache_ok_cong) simp
    moreover have "same_rest e1 e'" "be_sent e' = be_sent e1" using vb vp by (simp_all add: same_view_def same_rest_def)
    ultimately show ?thesis using v k by (auto simp: same_rest_def)
  next
    case wrong: False
    then have "(e' = e1 \<or> e' = e2) \<and> isl r"
      using assms False f b by (auto simp: authorize_session_exec_def current_connectivity_signature_def split: option.splits sum.splits if_splits)
    moreover have "cache_ok Q e2 = cache_ok Q e1" using vb by (intro cache_ok_cong) simp
    moreover have "same_rest e1 e2" "be_sent e2 = be_sent e1" using vb by (simp_all add: same_view_def same_rest_def)
    ultimately show ?thesis using v k same_rest_trans by (cases r) auto
  qed
qed

definition session_line :: "broker_env \<Rightarrow> live_session \<Rightarrow> string \<Rightarrow> string \<Rightarrow> string" where
  "session_line Q s command envelope = (if lv_mode s = ''shell'' \<or> lv_mode s = ''pty'' then command else effective_command Q s command envelope)"

lemma run_in_session_ok:
  assumes "run_in_session Q s command envelope e = (r, e')"
  shows "be_key_cache e' = be_key_cache e \<and> engine_table e' = engine_table e \<and> be_sessions e' = be_sessions e \<and> be_max_ttl e' = be_max_ttl e
    \<and> be_config e' = be_config e \<and> be_fail_closed e' = be_fail_closed e
    \<and> (be_sent e' = be_sent e \<or> be_sent e' = be_sent e @ [\<lparr>st_host = lv_host s, st_hops = [], st_command = session_line Q s command envelope\<rparr>])"
proof (cases "lv_mode s = ''shell'' \<or> lv_mode s = ''pty''")
  case True
  show ?thesis
  proof (cases "map_of (be_shells e) (lv_id s)")
    case (Some sh)
    obtain q es sh' where "shell_exec (bv_cast Q) (bv_cast_io Q (be_tick e)) (bv_shell_written Q (be_tick e)) command (bv_shell_events Q (be_tick e)) sh = (q, es, sh')"
      by (metis prod_cases3)
    then have "e' = tick (e\<lparr>be_sent := (if ss_stdin sh' = ss_stdin sh then be_sent e else be_sent e @ [\<lparr>st_host = lv_host s, st_hops = [], st_command = command\<rparr>]),
        be_shells := AList.update (lv_id s) sh' (be_shells e)\<rparr>)"
      using assms True Some by (simp add: run_in_session_def Let_def)
    moreover have "session_line Q s command envelope = command" using True by (simp add: session_line_def)
    ultimately show ?thesis by (auto simp: engine_table_def)
  qed (use assms True in \<open>auto simp: run_in_session_def Let_def\<close>)
next
  case False
  then have "e' = tick (e\<lparr>be_sent := be_sent e @ [\<lparr>st_host = lv_host s, st_hops = [], st_command = session_line Q s command envelope\<rparr>]\<rparr>)"
    using assms by (auto simp: run_in_session_def session_line_def Let_def)
  then show ?thesis by simp
qed

text \<open>A command in a session: where it stopped, or that it was cleared, sent and, with its output, recorded.\<close>

lemma checked_out_ok:
  assumes "exec_checked_out Q c s command e = (r, e')"
  shows "be_sessions e' = be_sessions e \<and> be_max_ttl e' = be_max_ttl e \<and> be_config e' = be_config e \<and> be_fail_closed e' = be_fail_closed e
    \<and> (cache_ok Q e \<longrightarrow> cache_ok Q e')
    \<and> (be_sent e' = be_sent e \<or> command \<noteq> [] \<and> (\<exists>envelope. session_cleared Q c s command envelope e'
          \<and> be_sent e' = be_sent e @ [\<lparr>st_host = lv_host s, st_hops = [], st_command = session_line Q s command envelope\<rparr>]))
    \<and> (case r of Inl x \<Rightarrow> True | Inr res \<Rightarrow> (\<exists>envelope. session_cleared Q c s command envelope e')
        \<and> (be_fail_closed e \<longrightarrow> (\<exists>dec. recorded Q (enriched e' (session_executed_entry c s command dec (bq_exit_code res))) e')))"
proof (cases "session_command_check s command")
  case (Some p)
  then show ?thesis using assms by (cases p) (auto simp: exec_checked_out_def cache_ok_def split: if_splits)
next
  case None
  then have ne: "command \<noteq> []" by (auto simp: session_command_check_def)
  obtain dec q e1 where a: "authorize_session_exec Q c s command e = ((dec, q), e1)" by (metis surj_pair)
  note va = authorize_session_ok [OF a]
  show ?thesis
  proof (cases q)
    case (Inl x)
    obtain ent where "e' = noted Q ent e1" and "r = Inl x" using assms None a Inl unfolding exec_checked_out_def by auto
    then show ?thesis using va by (simp add: same_rest_def)
  next
    case (Inr envelope)
    obtain q2 e2 where b: "run_in_session Q s command envelope e1 = (q2, e2)" by fastforce
    note vb = run_in_session_ok [OF b]
    have k: "cache_ok Q e2 = cache_ok Q e1" using vb by (intro cache_ok_cong) simp
    have cl: "session_cleared Q c s command envelope e2" using va Inr vb session_cleared_cong [of e2 e1] by simp
    show ?thesis
    proof (cases q2)
      case (Inl x)
      then have e': "e' = noted Q ((command_entry c s command ''error'')\<lparr>en_err := bv_error_text Q x\<rparr>) e2" and "r = Inl x"
        using assms None a Inr b by (simp_all add: exec_checked_out_def)
      moreover have "session_cleared Q c s command envelope e'" using cl session_cleared_cong [of e' e2] unfolding e' by simp
      moreover have "cache_ok Q e' = cache_ok Q e2" unfolding e' by (rule cache_ok_cong) simp
      ultimately show ?thesis using va vb k ne unfolding e' by (auto simp: same_rest_def)
    next
      case (Inr res)
      let ?ent = "session_executed_entry c s command dec (sr_exit_code res)"
      obtain ok e3 where d: "broker_audit Q ?ent e2 = (ok, e3)" by fastforce
      note vd = same_view_audit [OF d]
      have r: "e' = e3" "r = (if ok then Inr \<lparr>bq_stdout = sr_stdout res, bq_stderr = sr_stderr res, bq_exit_code = sr_exit_code res,
          bq_serial = lv_serial s, bq_warnings = warnings_of dec, bq_dry_run = None\<rparr> else Inl AuditUnavailable)"
        using assms None a \<open>q = Inr envelope\<close> b Inr d by (cases ok; simp add: exec_checked_out_def)+
      have t: "engine_table e3 = engine_table e2" "be_max_ttl e3 = be_max_ttl e2" using vd by (simp_all add: same_view_def)
      have cl': "session_cleared Q c s command envelope e'" using cl session_cleared_cong [OF t] r(1) by simp
      have k': "cache_ok Q e' = cache_ok Q e2" using vd r(1) by (intro cache_ok_cong) simp
      have rec: "recorded Q (enriched e' ?ent) e'" if "be_fail_closed e" "ok"
      proof -
        have "enriched e' ent = enriched e2 ent" for ent using t(1) r(1) by (simp add: enriched_def engine_host_def)
        moreover have "be_fail_closed e2" using that va vb by (simp add: same_rest_def)
        ultimately show ?thesis using audit_True [of Q ?ent e2 e3] d that(2) r(1) by simp
      qed
      have fr: "be_sessions e' = be_sessions e" "be_max_ttl e' = be_max_ttl e" "be_config e' = be_config e" "be_fail_closed e' = be_fail_closed e"
        "cache_ok Q e \<longrightarrow> cache_ok Q e'" using va vb vd k k' r(1) by (simp_all add: same_rest_def same_view_def)
      have "be_sent e' = be_sent e \<or> be_sent e' = be_sent e @ [\<lparr>st_host = lv_host s, st_hops = [], st_command = session_line Q s command envelope\<rparr>]"
        using va vb vd r(1) by (simp add: same_view_def)
      then show ?thesis using fr cl' rec ne unfolding r(2) by (cases ok) (simp_all, blast+)
    qed
  qed
qed

lemma session_exec_cases:
  assumes "broker_session_exec Q c sid command e = (r, e')"
  obtains (refused) x where "r = Inl x" "be_sent e' = be_sent e" "e' = tick (tick e)"
  | (checked_out) s now m e1 e2 where "map_of (sm_sessions (be_sessions e)) sid = Some s" "lv_caller s = bk_id c" "\<not> cert_expired (bv_now Q (be_tick e)) s"
      "m = (be_sessions e)\<lparr>sm_sessions := AList.update sid (s\<lparr>lv_last_used := now, lv_busy := lv_busy s + 1\<rparr>) (sm_sessions (be_sessions e))\<rparr>"
      "e1 = tick (tick (e\<lparr>be_sessions := m\<rparr>))"
      "exec_checked_out Q c (s\<lparr>lv_last_used := now, lv_busy := lv_busy s + 1\<rparr>) command e1 = (r, e2)"
      "e' = tick (e2\<lparr>be_sessions := session_checkin (bv_now Q (be_tick e2)) sid (be_sessions e2)\<rparr>)"
proof (cases "map_of (sm_sessions (be_sessions e)) sid")
  case None
  then have "r = Inl (UnknownSession sid)" "e' = tick (tick e)" using assms by (auto simp: broker_session_exec_def checkout_owned_def Let_def)
  then show thesis using refused by simp
next
  case (Some s)
  show thesis
  proof (cases "lv_caller s = bk_id c \<and> \<not> cert_expired (bv_now Q (be_tick e)) s")
    case False
    then have "isl r" "e' = tick (tick e)" using assms Some by (auto simp: broker_session_exec_def checkout_owned_def Let_def split: if_splits)
    then show thesis using refused by (cases r) auto
  next
    case True
    let ?s = "s\<lparr>lv_last_used := bv_now Q (Suc (be_tick e)), lv_busy := lv_busy s + 1\<rparr>"
    let ?m = "(be_sessions e)\<lparr>sm_sessions := AList.update sid ?s (sm_sessions (be_sessions e))\<rparr>"
    obtain e2 where "exec_checked_out Q c ?s command (tick (tick (e\<lparr>be_sessions := ?m\<rparr>))) = (r, e2)"
      and "e' = tick (e2\<lparr>be_sessions := session_checkin (bv_now Q (be_tick e2)) sid (be_sessions e2)\<rparr>)"
      using assms Some True by (auto simp: broker_session_exec_def checkout_owned_def Let_def split: prod.splits)
    then show thesis using checked_out [OF Some] True by blast
  qed
qed

lemma cleared_touch [simp]:
  "session_cleared Q c (s\<lparr>lv_last_used := t, lv_busy := b\<rparr>) command envelope e = session_cleared Q c s command envelope e"
  "session_line Q (s\<lparr>lv_last_used := t, lv_busy := b\<rparr>) command envelope = session_line Q s command envelope"
  "session_executed_entry c (s\<lparr>lv_last_used := t, lv_busy := b\<rparr>) command dec code = session_executed_entry c s command dec code"
  by (simp_all add: session_cleared_def command_cleared_def session_command_intent_def session_line_def effective_command_def
      session_executed_entry_def command_entry_def)

text \<open>
  C11: Every command of a session is authorised on its own. A request on a session sends nothing, or one line, and then the
  session belongs to the caller and its certificate has not expired; the signer was asked about this very command, in
  the mode and with the elevation of the session, and neither denied it nor asked for approval; the route to the host
  is still the one the session was opened over, and every bastion on it was cleared again. The line is the command itself,
  or in exec mode its envelope or its elevated form. Where the broker is to fail closed, output is
  handed out only with the record of the command as the last line of the audit log.
\<close>

theorem session_command_authorised:
  assumes "broker_session_exec Q c sid command e = (r, e')"
    and "be_sent e' \<noteq> be_sent e \<or> \<not> isl r"
  shows "\<exists>s envelope. map_of (sm_sessions (be_sessions e)) sid = Some s \<and> lv_caller s = bk_id c \<and> \<not> cert_expired (bv_now Q (be_tick e)) s
    \<and> session_cleared Q c s command envelope e'
    \<and> (be_sent e' = be_sent e \<or> be_sent e' = be_sent e @ [\<lparr>st_host = lv_host s, st_hops = [], st_command = session_line Q s command envelope\<rparr>])
    \<and> (case r of Inl x \<Rightarrow> True | Inr res \<Rightarrow> be_fail_closed e \<longrightarrow>
         (\<exists>dec. recorded Q (enriched e' (session_executed_entry c s command dec (bq_exit_code res))) e'))"
  using assms(1)
proof (cases rule: session_exec_cases)
  case (refused x)
  then show ?thesis using assms(2) by simp
next
  case (checked_out s now m e1 e2)
  note x = checked_out_ok [OF checked_out(6), simplified]
  have t: "engine_table e' = engine_table e2" "be_max_ttl e' = be_max_ttl e2" using checked_out(7) by simp_all
  have sent: "be_sent e' = be_sent e2" "be_sent e1 = be_sent e" "be_fail_closed e1 = be_fail_closed e" using checked_out(5,7) by simp_all
  have rec: "recorded Q (enriched e2 ent) e2 \<Longrightarrow> recorded Q (enriched e' ent) e'" for ent
    using checked_out(7) t(1) by (simp add: recorded_def enriched_def engine_host_def)
  have cl: "session_cleared Q c s command v e2 \<Longrightarrow> session_cleared Q c s command v e'" for v using session_cleared_cong [OF t] by simp
  obtain envelope where "session_cleared Q c s command envelope e2"
    and "be_sent e2 = be_sent e1 \<or> be_sent e2 = be_sent e1 @ [\<lparr>st_host = lv_host s, st_hops = [], st_command = session_line Q s command envelope\<rparr>]"
    using x assms(2) sent by (cases r) auto
  moreover have "case r of Inl x \<Rightarrow> True | Inr res \<Rightarrow> be_fail_closed e \<longrightarrow>
      (\<exists>dec. recorded Q (enriched e' (session_executed_entry c s command dec (bq_exit_code res))) e')"
    using x sent(3) rec by (cases r) auto
  ultimately show ?thesis using checked_out(1,2,3) sent cl by (intro exI [of _ s] exI [of _ envelope]) simp
qed

theorem session_command_authorised_witness:
  "\<exists>envelope e'. e' = snd (broker_session_exec demo_env demo_caller ''s-1'' ''uptime'' demo_in_session)
     \<and> session_cleared demo_env demo_caller demo_session ''uptime'' envelope e'"
proof -
  let ?x = "broker_session_exec demo_env demo_caller ''s-1'' ''uptime'' demo_in_session"
  have x: "?x = (Inr demo_result, snd ?x)" using demo_session_exec by (simp add: prod_eq_iff)
  have "map_of (sm_sessions (be_sessions demo_in_session)) ''s-1'' = Some demo_session" by (simp add: demo_in_session_def)
  then show ?thesis using session_command_authorised [OF x] by auto
qed

end
