(* ===== verification/Broker_Opening.thy ===== *)
theory Broker_Opening
  imports Broker_Guarantees
begin

text \<open>
  Opening a session: the certificates along the chain, what the new session is tied to, and that a refused opening leaves
  no session behind.
\<close>

section \<open>Certificates\<close>

definition session_certified :: "broker_env \<Rightarrow> broker_caller \<Rightarrow> go_duration \<Rightarrow> string \<Rightarrow> exec_options \<Rightarrow> engine \<Rightarrow> string list \<Rightarrow> session_hops \<Rightarrow> bool" where
  "session_certified Q c ttl mode opts e names h \<longleftrightarrow>
     chain_certified Q (\<lambda>n target pub. session_intent c n ttl PurposeSession pub mode opts target) e names (sh_hops h)
     \<and> chain_signature e names = Inr (sh_signature h)
     \<and> (names = [] \<or> (\<exists>cert. ho_certificate (last (sh_hops h)) = Some cert \<and> sh_not_after h = cert_not_after cert))"

lemma chain_certified_hops: "chain_certified Q mk e names hops \<Longrightarrow> length hops = length names"
  by (induction Q mk e names hops rule: chain_certified.induct) auto

lemma session_certified_cong:
  "engine_table e' = engine_table e \<Longrightarrow> session_certified Q c ttl mode opts e' names h = session_certified Q c ttl mode opts e names h"
  by (simp add: session_certified_def chain_certified_cong [of e' e] chain_signature_cong [of e' e])

lemma build_session_hops_ok:
  assumes "build_session_hops Q c ttl PurposeSession mode opts names e = (r, e')" and "cache_ok Q e"
  shows "cache_ok Q e' \<and> same_view e e' \<and> (case r of Inl x \<Rightarrow> True | Inr h \<Rightarrow> session_certified Q c ttl mode opts e names h)"
  using assms
proof (induction names arbitrary: e r e')
  case Nil
  then show ?case by (auto simp: session_certified_def no_hops_def)
next
  case (Cons name names)
  show ?case
  proof (cases "engine_host e name")
    case (Some hi)
    let ?mk = "\<lambda>pub. session_intent c name ttl PurposeSession pub mode opts (names = [])"
    obtain r1 e1 where h: "certify_hop Q opts name hi ?mk e = (r1, e1)" by fastforce
    note h1 = certify_hop_ok [OF h Cons.prems(2)]
    show ?thesis
    proof (cases r1)
      case (Inr p)
      obtain hop cert iu where p: "p = (hop, cert, iu)" by (cases p)
      obtain r2 e2 where b: "build_session_hops Q c ttl PurposeSession mode opts names e1 = (r2, e2)" by fastforce
      note ih = Cons.IH [OF b conjunct1 [OF h1]]
      have t: "engine_table e1 = engine_table e" using h1 by (simp add: same_view_def)
      have v: "cache_ok Q e2" "same_view e e2" using ih h1 same_view_trans by auto
      have hop: "hop_certified Q ?mk hi iu hop" "ir_certificate iu = Some cert" using h1 Inr p by simp_all
      show ?thesis
      proof (cases r2)
        case (Inr g)
        then have g: "chain_certified Q (\<lambda>n target pub. session_intent c n ttl PurposeSession pub mode opts target) e names (sh_hops g)"
          "chain_signature e names = Inr (sh_signature g)"
          "names = [] \<or> (\<exists>cert. ho_certificate (last (sh_hops g)) = Some cert \<and> sh_not_after g = cert_not_after cert)"
          using ih by (simp_all add: session_certified_def chain_certified_cong [OF t] chain_signature_cong [OF t])
        have r: "e' = e2" "r = Inr (let g = g\<lparr>sh_hops := hop # sh_hops g, sh_signature := hop_signature name hi @ sh_signature g\<rparr>
            in if names = [] then g\<lparr>sh_serial := ir_serial iu, sh_not_after := cert_not_after cert, sh_prefix := ir_elevation_prefix iu,
                 sh_decision := ir_decision iu\<rparr> else g)"
          using Cons.prems(1) Some h \<open>r1 = Inr p\<close> p b Inr by (simp_all add: Let_def)
        have "ho_certificate hop = Some cert" using hop by (simp add: hop_certified_def)
        then show ?thesis using v g hop(1) Some chain_certified_hops [OF g(1)] unfolding r by (cases "names = []") (auto simp: session_certified_def Let_def)
      qed (use Cons.prems(1) Some h \<open>r1 = Inr p\<close> p b v in auto)
    qed (use Cons.prems(1) Some h h1 in auto)
  qed (use Cons.prems in auto)
qed

lemma hops_with_prefix_ok:
  assumes "build_hops_with_prefix Q c host ttl PurposeSession mode opts e = (r, e')" and "cache_ok Q e"
  shows "cache_ok Q e' \<and> same_view e e' \<and> (case r of Inl x \<Rightarrow> True
    | Inr h \<Rightarrow> \<exists>chain. resolve_chain e host = Inr chain \<and> session_certified Q c ttl mode opts e chain h)"
proof (cases "resolve_chain e host")
  case (Inr chain)
  then show ?thesis using assms build_session_hops_ok [of Q c ttl mode opts chain e r e'] by (auto simp: build_hops_with_prefix_def split: sum.splits)
qed (use assms in \<open>auto simp: build_hops_with_prefix_def\<close>)

section \<open>Shell and recording\<close>

text \<open>What a session is tied to.\<close>

definition same_core :: "live_session \<Rightarrow> live_session \<Rightarrow> bool" where
  "same_core s s' \<longleftrightarrow> lv_id s' = lv_id s \<and> lv_caller s' = lv_caller s \<and> lv_host s' = lv_host s \<and> lv_serial s' = lv_serial s \<and> lv_mode s' = lv_mode s
     \<and> lv_cert_not_after s' = lv_cert_not_after s \<and> lv_connectivity_sig s' = lv_connectivity_sig s \<and> lv_busy s' = lv_busy s
     \<and> lv_sudo s' = lv_sudo s \<and> lv_sudo_user s' = lv_sudo_user s \<and> lv_pty s' = lv_pty s"

lemma open_shell_ok:
  assumes "open_shell_for_mode Q s e = (r, e')"
  shows "same_view e e' \<and> be_key_cache e' = be_key_cache e \<and> (case r of Inl x \<Rightarrow> True | Inr (s', sh) \<Rightarrow> same_core s s' \<and> (lv_mode s = ''shell'' \<or> lv_mode s = ''pty'' \<longleftrightarrow> sh \<noteq> None))"
proof (cases "lv_mode s = ''shell'' \<or> lv_mode s = ''pty''")
  case True
  have "same_view e (noted Q ent (tick e))" for ent by (metis same_view_noted same_view_tick(2))
  then show ?thesis using assms True by (auto simp: open_shell_for_mode_def Let_def same_core_def split: sum.splits)
qed (use assms in \<open>auto simp: open_shell_for_mode_def same_core_def\<close>)

lemma start_recording_ok:
  assumes "start_session_recording Q s sh e = (r, e')"
  shows "same_view e e' \<and> be_key_cache e' = be_key_cache e \<and> (case r of Inl x \<Rightarrow> True | Inr (s', sh') \<Rightarrow> same_core s s' \<and> (sh' = None \<longleftrightarrow> sh = None))"
  using assms by (auto simp: start_session_recording_def same_core_def Let_def split: option.splits if_splits sum.splits)

section \<open>The count of outside calls\<close>

lemma noted_tick: "be_tick (noted Q ent e) = Suc (be_tick e)"
  by (simp add: noted_def broker_audit_def append_broker_audit_def tick_def split: prod.splits)

lemma refresh_ticks: "refresh_for_new_connection Q e = (x, e') \<Longrightarrow> be_tick e \<le> be_tick e'"
  by (auto simp: refresh_for_new_connection_def refresh_hosts_now_def prune_host_key_cache_def tick_def Let_def split: if_splits sum.splits)

lemma certify_ticks: "certify_hop Q opts name hi mk e = (r, e') \<Longrightarrow> be_tick e \<le> be_tick e'"
  by (auto simp: certify_hop_def parse_host_key_cached_def tick_def split: option.splits sum.splits prod.splits)

lemma session_hops_ticks: "build_session_hops Q c ttl purpose mode opts names e = (r, e') \<Longrightarrow> be_tick e \<le> be_tick e'"
proof (induction names arbitrary: e r e')
  case (Cons name names)
  show ?case
  proof (cases "engine_host e name")
    case (Some hi)
    obtain q e1 where q: "certify_hop Q opts name hi (\<lambda>pub. session_intent c name ttl purpose pub mode opts (names = [])) e = (q, e1)" by fastforce
    obtain q2 e2 where q2: "build_session_hops Q c ttl purpose mode opts names e1 = (q2, e2)" by fastforce
    have "e' = e1 \<or> e' = e2" using Cons.prems Some q q2 by (auto simp: Let_def split: sum.splits)
    then show ?thesis using certify_ticks [OF q] Cons.IH [OF q2] by auto
  qed (use Cons.prems in auto)
qed simp

section \<open>Opening\<close>

lemma delete_update_new: "\<not> map_has m k \<Longrightarrow> AList.delete k (AList.update k v m) = m"
  by (induction m) (auto simp: map_has_def delete_is_keep split: if_splits)

lemma publish_ok:
  assumes "publish_session Q c opts s sh e = (r, e')" and "\<not> map_has (sm_sessions (be_sessions e)) (lv_id s)"
  shows "be_sent e' = be_sent e \<and> engine_table e' = engine_table e \<and> be_key_cache e' = be_key_cache e \<and> be_max_ttl e' = be_max_ttl e
    \<and> be_config e' = be_config e \<and> be_fail_closed e' = be_fail_closed e
    \<and> (case r of Inl x \<Rightarrow> sm_sessions (be_sessions e') = sm_sessions (be_sessions e)
       | Inr (sid, serial) \<Rightarrow> sid = lv_id s \<and> serial = lv_serial s \<and> session_count (be_sessions e) < max_sessions_global
           \<and> caller_sessions (lv_caller s) (be_sessions e) < max_sessions_per_caller
           \<and> be_sessions e' = (be_sessions e)\<lparr>sm_sessions := AList.update sid s (sm_sessions (be_sessions e))\<rparr>
           \<and> (be_fail_closed e \<longrightarrow> recorded Q (enriched e (session_open_entry c s opts)) e'))"
proof (cases "session_count (be_sessions e) < max_sessions_global \<and> caller_sessions (lv_caller s) (be_sessions e) < max_sessions_per_caller")
  case False
  then have "\<exists>x. session_add s (be_sessions e) = (Some x, be_sessions e)" by (auto simp: session_add_def not_less)
  then obtain x where "session_add s (be_sessions e) = (Some x, be_sessions e)" ..
  then show ?thesis using assms(1) by (auto simp: publish_session_def)
next
  case True
  let ?m = "(be_sessions e)\<lparr>sm_sessions := AList.update (lv_id s) s (sm_sessions (be_sessions e))\<rparr>"
  define e1 where "e1 = e\<lparr>be_sessions := ?m, be_shells := (case sh of None \<Rightarrow> be_shells e | Some shell \<Rightarrow> AList.update (lv_id s) shell (be_shells e))\<rparr>"
  obtain ok e2 where a: "broker_audit Q (session_open_entry c s opts) e1 = (ok, e2)" by fastforce
  note v = same_view_audit [OF a]
  have t: "engine_table e1 = engine_table e" "be_sent e1 = be_sent e" "be_key_cache e1 = be_key_cache e" "be_max_ttl e1 = be_max_ttl e"
    "be_config e1 = be_config e" "be_fail_closed e1 = be_fail_closed e" "be_sessions e1 = ?m" by (simp_all add: e1_def engine_table_def)
  have "enriched e1 ent = enriched e ent" for ent by (simp add: enriched_def engine_host_def t)
  then have rec: "recorded Q (enriched e (session_open_entry c s opts)) e2" if "ok" "be_fail_closed e" using audit_True [of Q _ e1 e2] a that t by simp
  have "session_add s (be_sessions e) = (None, ?m)" using True by (simp add: session_add_def)
  then have r: "(r, e') = (if ok then (Inr (lv_id s, lv_serial s), e2)
      else (Inl AuditUnavailable, e2\<lparr>be_sessions := session_close s (session_remove (lv_id s) (be_sessions e2))\<rparr>))"
    using assms(1) a by (cases ok) (simp_all add: publish_session_def e1_def Let_def)
  show ?thesis
  proof (cases ok)
    case True
    then show ?thesis using r v t rec \<open>session_count _ < _ \<and> _\<close> by (simp add: same_view_def)
  next
    case False
    then show ?thesis using r v t delete_update_new [OF assms(2)] by (simp add: same_view_def session_remove_def)
  qed
qed

text \<open>What \<open>OpenSession\<close> did to an engine: no session, or one that keeps what the given one is tied to.\<close>

definition opened :: "broker_env \<Rightarrow> broker_caller \<Rightarrow> exec_options \<Rightarrow> live_session \<Rightarrow> engine \<Rightarrow> (broker_error + string \<times> 64 word) \<Rightarrow> engine \<Rightarrow> bool" where
  "opened Q c opts s e r e' \<longleftrightarrow> be_sent e' = be_sent e \<and> engine_table e' = engine_table e \<and> be_key_cache e' = be_key_cache e
    \<and> (case r of Inl x \<Rightarrow> sm_sessions (be_sessions e') = sm_sessions (be_sessions e)
       | Inr (sid, serial) \<Rightarrow> \<exists>s'. same_core s s' \<and> sid = lv_id s \<and> serial = lv_serial s \<and> session_count (be_sessions e) < max_sessions_global
           \<and> caller_sessions (lv_caller s) (be_sessions e) < max_sessions_per_caller
           \<and> be_sessions e' = (be_sessions e)\<lparr>sm_sessions := AList.update sid s' (sm_sessions (be_sessions e))\<rparr>
           \<and> (be_fail_closed e \<longrightarrow> recorded Q (enriched e' (session_open_entry c s' opts)) e'))"

lemma opened_noted: "same_view e e1 \<Longrightarrow> be_key_cache e1 = be_key_cache e \<Longrightarrow> opened Q c opts s e (Inl x) (noted Q ent e1)"
  by (simp add: opened_def same_view_def)

lemma publish_opened:
  assumes "publish_session Q c opts s' sh e1 = (r, e')" and "same_core s s'" and "same_view e e1" and "be_key_cache e1 = be_key_cache e"
    and "\<not> map_has (sm_sessions (be_sessions e)) (lv_id s)"
  shows "opened Q c opts s e r e'"
proof -
  have "\<not> map_has (sm_sessions (be_sessions e1)) (lv_id s')" using assms(2,3,5) by (simp add: same_core_def same_view_def)
  note v = publish_ok [OF assms(1) this]
  then have "enriched e' ent = enriched e1 ent" for ent by (simp add: enriched_def engine_host_def)
  then show ?thesis using v assms(2,3,4) by (cases r) (auto simp: opened_def same_view_def same_core_def)
qed

lemma connect_session_ok:
  assumes "connect_session Q c host mode opts h e = (r, e')"
    and "\<forall>n \<ge> be_tick e. \<not> map_has (sm_sessions (be_sessions e)) (bv_session_id Q n)"
  shows "\<exists>n \<ge> be_tick e. opened Q c opts (new_live_session Q c host mode opts h n) e r e' \<and> (isl r \<or> sh_hops h \<noteq> [])"
proof (cases "fst (ssh_dial (bv_dial Q (be_tick e)) (sh_hops h))")
  case (Inl d)
  then show ?thesis using assms(1) opened_noted [of e "tick e"] by (auto simp: connect_session_def)
next
  case (Inr conn)
  then have ne: "sh_hops h \<noteq> []" by (auto simp: ssh_dial_def)
  define s where "s = new_live_session Q c host mode opts h (Suc (be_tick e))"
  have fresh: "\<not> map_has (sm_sessions (be_sessions e)) (lv_id s)" using assms(2) by (simp add: s_def new_live_session_def)
  obtain q e1 where g: "open_shell_for_mode Q s (tick (tick (tick e))) = (q, e1)" by fastforce
  have v1: "same_view e e1" "be_key_cache e1 = be_key_cache e" using open_shell_ok [OF g] by simp_all
  have "opened Q c opts s e r e'"
  proof (cases q)
    case (Inl x)
    then have "r = Inl x" "e' = e1" using assms(1) Inr g by (simp_all add: connect_session_def s_def)
    then show ?thesis using v1 by (simp add: opened_def same_view_def)
  next
    case (Inr p)
    obtain s1 sh where p: "p = (s1, sh)" by (cases p)
    have c1: "same_core s s1" using open_shell_ok [OF g] Inr p by simp
    obtain q2 e2 where b: "start_session_recording Q s1 sh e1 = (q2, e2)" by fastforce
    have v2: "same_view e e2" "be_key_cache e2 = be_key_cache e" using start_recording_ok [OF b] v1 same_view_trans by auto
    show ?thesis
    proof (cases q2)
      case (Inl x)
      then have "r = Inl x" and "\<exists>ent. e' = noted Q ent (e2\<lparr>be_sessions := session_close s1 (be_sessions e2)\<rparr>)"
        using assms(1) \<open>fst _ = Inr conn\<close> g \<open>q = Inr p\<close> p b by (auto simp: connect_session_def s_def)
      then show ?thesis using v2 by (auto simp: opened_def same_view_def)
    next
      case (Inr p2)
      obtain s2 sh2 where p2: "p2 = (s2, sh2)" by (cases p2)
      have "same_core s s2" using c1 start_recording_ok [OF b] Inr p2 by (simp add: same_core_def)
      moreover have "publish_session Q c opts s2 sh2 e2 = (r, e')"
        using assms(1) \<open>fst _ = Inr conn\<close> g \<open>q = Inr p\<close> p b Inr p2 by (simp add: connect_session_def s_def)
      ultimately show ?thesis using publish_opened v2 fresh by blast
    qed
  qed
  then show ?thesis using ne s_def by (intro exI [of _ "Suc (be_tick e)"]) simp
qed

text \<open>The path of \<open>OpenSession\<close> up to the connection.\<close>

lemma open_session_cases:
  assumes "open_session Q c host mode ttl opts e = (r, e')" and "cache_ok Q e"
  obtains (stopped) x where "r = Inl x" "be_sent e' = be_sent e" "cache_ok Q e'" "same_rest e e'"
  | (certified) e2 h md os chain where "md = (if mode = [] then ''exec'' else mode)" "md \<in> {''exec'', ''shell'', ''pty''}"
      "os = (if mode = ''pty'' then opts\<lparr>xo_pty := True\<rparr> else opts)" "same_rest e e2" "be_sent e2 = be_sent e" "cache_ok Q e2" "be_tick e \<le> be_tick e2"
      "resolve_chain e2 host = Inr chain" "session_certified Q c (ttl_for e ttl) md os e2 chain h"
      "connect_session Q c host md os h e2 = (r, e')"
proof -
  obtain x e1 where f: "refresh_for_new_connection Q e = (x, e1)" by fastforce
  note v1 = refresh_ok [OF f assms(2)]
  have ttl: "ttl_for e1 ttl = ttl_for e ttl" using v1 by (auto simp: same_rest_def intro: ttl_for_cong)
  define md where "md = (if mode = [] then ''exec'' else mode)"
  define os where "os = (if mode = ''pty'' then opts\<lparr>xo_pty := True\<rparr> else opts)"
  have os': "(if md = ''pty'' then opts\<lparr>xo_pty := True\<rparr> else opts) = os" by (simp add: md_def os_def)
  note eq = assms(1) [unfolded open_session_def f Let_def, folded md_def, unfolded os']
  show thesis
  proof (cases "x = None \<and> engine_host e1 host \<noteq> None \<and> md \<in> {''exec'', ''shell'', ''pty''}")
    case False
    then have "isl r \<and> (e' = e1 \<or> (\<exists>ent. e' = noted Q ent e1))" using eq by (auto split: option.splits if_splits)
    then show thesis using stopped v1 by (cases r) (auto simp: same_rest_def)
  next
    case True
    obtain y e2 where b: "build_hops_with_prefix Q c host (ttl_for e ttl) PurposeSession md os e1 = (y, e2)" by fastforce
    note v2 = hops_with_prefix_ok [OF b conjunct1 [OF v1]]
    have w: "same_rest e e2" "be_sent e2 = be_sent e" "engine_table e2 = engine_table e1" using v1 v2 by (simp_all add: same_rest_def same_view_def)
    have tk: "be_tick e \<le> be_tick e2" using refresh_ticks [OF f] b session_hops_ticks
      by (fastforce simp: build_hops_with_prefix_def split: sum.splits)
    show thesis
    proof (cases y)
      case (Inl z)
      then have "r = Inl (classify_sign_err z)" "\<exists>ent. e' = noted Q ent e2" using eq True b by (auto simp: ttl)
      then show thesis using stopped v2 w by (auto simp: same_rest_def)
    next
      case (Inr h)
      then obtain chain where "resolve_chain e1 host = Inr chain" "session_certified Q c (ttl_for e ttl) md os e1 chain h" using v2 by auto
      moreover have "connect_session Q c host md os h e2 = (r, e')" using eq True b Inr by (auto simp: ttl)
      moreover have "cache_ok Q e2" using v2 by simp
      ultimately show thesis using certified [OF md_def _ os_def w(1,2), of chain h] True tk
        by (simp add: resolve_chain_cong [OF w(3)] session_certified_cong [OF w(3)])
    qed
  qed
qed

text \<open>
  C19: Opening a session is all or nothing. A request that fails leaves the registered sessions as they were, whatever it had
  built on the way: the limits, a recording that cannot be started in strict mode, and a log that cannot be written
  in a broker that is to fail closed all end without a session. One that succeeds registers one session, owned by the caller,
  within the limits, in one of the three modes; its whole chain was certified for it; it expires with the
  certificate of its last hop and is pinned to the route that was certified; in a broker that is to fail closed its
  opening is the last record of the log (one that fails open may open a session without a record). No command is sent. The
  identifiers drawn for sessions are assumed to be new: none of them names a session that is registered already.
\<close>

theorem open_session_all_or_nothing:
  assumes "open_session Q c host mode ttl opts e = (r, e')" and "cache_ok Q e"
    and "\<forall>n \<ge> be_tick e. \<not> map_has (sm_sessions (be_sessions e)) (bv_session_id Q n)"
  shows "be_sent e' = be_sent e \<and> cache_ok Q e' \<and>
    (case r of Inl x \<Rightarrow> sm_sessions (be_sessions e') = sm_sessions (be_sessions e)
     | Inr (sid, serial) \<Rightarrow> \<exists>s chain h opts'. be_sessions e' = (be_sessions e)\<lparr>sm_sessions := AList.update sid s (sm_sessions (be_sessions e))\<rparr>
         \<and> session_count (be_sessions e) < max_sessions_global \<and> caller_sessions (bk_id c) (be_sessions e) < max_sessions_per_caller
         \<and> lv_id s = sid \<and> lv_serial s = serial \<and> lv_caller s = bk_id c \<and> lv_host s = host
         \<and> lv_mode s = (if mode = [] then ''exec'' else mode) \<and> lv_mode s \<in> {''exec'', ''shell'', ''pty''}
         \<and> opts' = (if mode = ''pty'' then opts\<lparr>xo_pty := True\<rparr> else opts) \<and> lv_sudo s = xo_sudo opts' \<and> lv_pty s = xo_pty opts'
         \<and> resolve_chain e' host = Inr chain \<and> chain \<noteq> [] \<and> last chain = host
         \<and> session_certified Q c (ttl_for e ttl) (lv_mode s) opts' e' chain h
         \<and> lv_cert_not_after s = sh_not_after h \<and> lv_connectivity_sig s = sh_signature h
         \<and> (be_fail_closed e \<longrightarrow> recorded Q (enriched e' (session_open_entry c s opts')) e'))"
  using assms(1,2)
proof (cases rule: open_session_cases)
  case (stopped x)
  then show ?thesis by (simp add: same_rest_def)
next
  case (certified e2 h md os chain)
  have m: "be_sessions e2 = be_sessions e" "be_fail_closed e2 = be_fail_closed e" using certified(4) by (simp_all add: same_rest_def)
  obtain n where o: "opened Q c os (new_live_session Q c host md os h n) e2 r e'" and ne: "isl r \<or> sh_hops h \<noteq> []"
    using connect_session_ok [OF certified(10)] assms(3) m certified(7) by auto
  have t: "engine_table e' = engine_table e2" and k: "cache_ok Q e'" and st: "be_sent e' = be_sent e"
    using o certified(5,6) cache_ok_cong [of e' e2] by (simp_all add: opened_def)
  show ?thesis
  proof (cases r)
    case (Inl x)
    then show ?thesis using o k st m by (simp add: opened_def)
  next
    case (Inr p)
    obtain sid serial where p: "p = (sid, serial)" by (cases p)
    obtain s where s: "same_core (new_live_session Q c host md os h n) s" "lv_id s = sid" "lv_serial s = serial"
      and lim: "session_count (be_sessions e) < max_sessions_global" "caller_sessions (bk_id c) (be_sessions e) < max_sessions_per_caller"
        "be_sessions e' = (be_sessions e)\<lparr>sm_sessions := AList.update sid s (sm_sessions (be_sessions e))\<rparr>"
        "be_fail_closed e \<longrightarrow> recorded Q (enriched e' (session_open_entry c s os)) e'"
      using o Inr p m by (auto simp: opened_def same_core_def new_live_session_def)
    have "chain \<noteq> []" using ne Inr certified(9) by (auto simp: session_certified_def chain_certified_Nil)
    moreover have "session_certified Q c (ttl_for e ttl) md os e' chain h"
      using certified(9) by (simp add: session_certified_cong [OF t])
    moreover have "lv_caller s = bk_id c \<and> lv_host s = host \<and> lv_mode s = md \<and> lv_sudo s = xo_sudo os \<and> lv_pty s = xo_pty os
        \<and> lv_cert_not_after s = sh_not_after h \<and> lv_connectivity_sig s = sh_signature h"
      using s(1) by (simp add: same_core_def new_live_session_def)
    moreover have "resolve_chain e' host = Inr chain" "chain \<noteq> [] \<Longrightarrow> last chain = host"
      using certified(8) resolve_chain_cong [OF t, of host] resolve_chain_last [OF certified(8)] by simp_all
    ultimately show ?thesis using k st s(2,3) lim certified(1,2,3) unfolding Inr p sum.case prod.case
      by (intro conjI exI [of _ s] exI [of _ chain] exI [of _ h] exI [of _ os]) simp_all
  qed
qed

theorem open_session_all_or_nothing_witness:
  "\<exists>e' s. open_session demo_env demo_caller ''db'' [] 60 no_options demo_broker = (Inr (''s-1'', 7), e')
     \<and> map_of (sm_sessions (be_sessions e')) ''s-1'' = Some s \<and> lv_caller s = ''alice'' \<and> lv_host s = ''db'' \<and> lv_mode s = ''exec''"
proof -
  obtain e' where o: "open_session demo_env demo_caller ''db'' [] 60 no_options demo_broker = (Inr (''s-1'', 7), e')" using demo_opens by blast
  have a: "cache_ok demo_env demo_broker" and b: "\<forall>n \<ge> be_tick demo_broker. \<not> map_has (sm_sessions (be_sessions demo_broker)) (bv_session_id demo_env n)"
    by (simp_all add: cache_ok_def demo_broker_def demo_engine_def new_session_manager_def map_has_def)
  from open_session_all_or_nothing [OF o a b] show ?thesis using o by (auto simp: demo_caller_def map_of_update)
qed

end
