(* ===== verification/Broker_History.thy ===== *)
theory Broker_History
  imports Broker_Opening
begin

text \<open>
  Histories of a broker: every operation of the engine as one step, and what holds of every engine that can be reached. A step
  is a whole call here; the interleavings of the session pool itself are those of \<open>Session_Pool\<close>.
\<close>

section \<open>What may be sent\<close>

text \<open>
  A command that was sent over hops of its own: the last hop was certified for an intent with this command on this host, the
  others for bastion intents without a command, and every hop has a pinned key.
\<close>

definition hop_signed :: "broker_env \<Rightarrow> (intent \<Rightarrow> bool) \<Rightarrow> ssh_hop \<Rightarrow> bool" where
  "hop_signed Q P hop \<longleftrightarrow> (\<exists>n i iu. bv_sign Q n i = Inr iu \<and> P i \<and> ho_certificate hop = ir_certificate iu) \<and> ho_certificate hop \<noteq> None \<and> ho_host_key hop \<noteq> None"

definition oneshot_authorised :: "broker_env \<Rightarrow> sent_command \<Rightarrow> bool" where
  "oneshot_authorised Q x \<longleftrightarrow> st_hops x \<noteq> []
     \<and> hop_signed Q (\<lambda>i. in_role i = RoleTarget \<and> in_purpose i = PurposeOneshot \<and> in_host i = st_host x \<and> in_command i = st_command x \<and> \<not> in_dry_run i) (last (st_hops x))
     \<and> (\<forall>hop \<in> set (butlast (st_hops x)). hop_signed Q (\<lambda>i. in_role i = RoleBastion \<and> in_command i = [] \<and> \<not> in_approved i) hop)"

text \<open>
  A command that was sent in a session: the signer was asked about it, for this host, and let it run; what was sent is the command,
  the envelope the signer made of it or its elevated form.
\<close>

definition session_authorised :: "broker_env \<Rightarrow> sent_command \<Rightarrow> bool" where
  "session_authorised Q x \<longleftrightarrow> st_hops x = [] \<and> (\<exists>n i iu. bv_sign Q n i = Inr iu \<and> lets_run iu \<and> in_dry_run i \<and> in_preflight i \<and> in_target_type i = []
     \<and> in_host i = st_host x \<and> in_command i \<noteq> []
     \<and> (st_command x = in_command i \<or> st_command x = ir_envelope iu \<or> (\<exists>prefix. prefix \<noteq> [] \<and> st_command x = build_elevated_command (bv_go Q) prefix (in_command i))))"

definition sent_authorised :: "broker_env \<Rightarrow> sent_command \<Rightarrow> bool" where
  "sent_authorised Q x \<longleftrightarrow> oneshot_authorised Q x \<or> session_authorised Q x"

lemma hop_certified_signed: "hop_certified Q mk hi iu hop \<Longrightarrow> (\<And>pub. P (mk pub)) \<Longrightarrow> hop_signed Q P hop"
  unfolding hop_certified_def hop_signed_def by metis

lemma chain_certified_signed:
  assumes "chain_certified Q mk e names hops" and "names \<noteq> []" and "\<And>pub. P (mk (last names) True pub)" and "\<And>n pub. R (mk n False pub)"
  shows "hop_signed Q P (last hops) \<and> (\<forall>hop \<in> set (butlast hops). hop_signed Q R hop) \<and> hops \<noteq> []"
  using assms
proof (induction Q mk e names hops rule: chain_certified.induct)
  case (2 Q mk e name names hop hops)
  then obtain hi iu where h: "hop_certified Q (mk name (names = [])) hi iu hop" and c: "chain_certified Q mk e names hops" by auto
  show ?case
  proof (cases "names = []")
    case True
    then have "hops = []" using chain_certified_Nil c by simp
    then show ?thesis using True h hop_certified_signed [OF h, of P] "2.prems"(3) by simp
  next
    case False
    then have "hop_signed Q R hop" using hop_certified_signed [OF h, of R] "2.prems"(4) by simp
    then show ?thesis using "2.IH" [OF c] False "2.prems" by auto
  qed
qed simp_all

lemma oneshot_chain_authorised:
  assumes "chain_certified Q (\<lambda>n target pub. oneshot_intent c n ttl PurposeOneshot pub command opts target) e chain hops"
    and "chain \<noteq> []" and "last chain = host"
  shows "oneshot_authorised Q \<lparr>st_host = host, st_hops = hops, st_command = command\<rparr>"
  using chain_certified_signed [OF assms(1,2), of
      "\<lambda>i. in_role i = RoleTarget \<and> in_purpose i = PurposeOneshot \<and> in_host i = host \<and> in_command i = command \<and> \<not> in_dry_run i"
      "\<lambda>i. in_role i = RoleBastion \<and> in_command i = [] \<and> \<not> in_approved i"] assms(3)
  by (simp add: oneshot_authorised_def oneshot_intent_def bastion_intent_def plain_intent_def Let_def)

lemma session_line_authorised:
  assumes "session_cleared Q c s command envelope e" and "command \<noteq> []"
  shows "session_authorised Q \<lparr>st_host = lv_host s, st_hops = [], st_command = session_line Q s command envelope\<rparr>"
proof -
  obtain n pub iu where "bv_sign Q n (session_command_intent c s command (be_max_ttl e) pub) = Inr iu" "lets_run iu" "envelope = ir_envelope iu"
    using assms(1) by (auto simp: session_cleared_def command_cleared_def)
  then show ?thesis using assms(2) unfolding session_authorised_def
    by (intro conjI exI [of _ n] exI [of _ "session_command_intent c s command (be_max_ttl e) pub"] exI [of _ iu])
       (auto simp: session_command_intent_def session_line_def effective_command_def bastion_intent_def plain_intent_def)
qed

section \<open>Steps\<close>

inductive engine_step :: "broker_env \<Rightarrow> engine \<Rightarrow> engine \<Rightarrow> bool" for Q where
  execute: "broker_execute Q c host command ttl opts e = (r, e') \<Longrightarrow> engine_step Q e e'"
| opened_session: "open_session Q c host mode ttl opts e = (s, e') \<Longrightarrow> \<forall>n \<ge> be_tick e. \<not> map_has (sm_sessions (be_sessions e)) (bv_session_id Q n)
    \<Longrightarrow> engine_step Q e e'"
| session_exec: "broker_session_exec Q c sid command e = (r, e') \<Longrightarrow> engine_step Q e e'"
| close_session: "broker_close_session Q c sid e = (x, e') \<Longrightarrow> engine_step Q e e'"
| put: "put_file Q c host path content mode ttl e = (t, e') \<Longrightarrow> engine_step Q e e'"
| get: "get_file Q c host path n ttl e = (t, e') \<Longrightarrow> engine_step Q e e'"
| k8s: "kv_broker V = Q \<Longrightarrow> k8s_execute V c cluster action manifest dry kopts e = (k, e') \<Longrightarrow> engine_step Q e e'"
| granted: "engine_step Q e (snd (audit_approval_granted Q c host command rule opts e))"
| declined: "engine_step Q e (audit_approval_declined Q c host command rule opts e)"
| refresh: "engine_step Q e (host_refresh_tick Q e)"
| poll: "engine_step Q e (poll_revocations_once Q e)"
| reaper: "engine_step Q e (reaper_tick Q e)"
| shutdown: "engine_step Q e (engine_close Q e)"

inductive engine_reachable :: "broker_env \<Rightarrow> start_env \<Rightarrow> broker_config \<Rightarrow> engine \<Rightarrow> bool" for Q X cfg where
  start: "new_engine Q X cfg = Inr e \<Longrightarrow> engine_reachable Q X cfg e"
| step: "engine_reachable Q X cfg e \<Longrightarrow> engine_step Q e e' \<Longrightarrow> engine_reachable Q X cfg e'"

definition engine_ok :: "broker_env \<Rightarrow> engine \<Rightarrow> bool" where
  "engine_ok Q e \<longleftrightarrow> cache_ok Q e \<and> pool_ok (be_sessions e) \<and> (\<forall>x \<in> set (be_sent e). sent_authorised Q x)"

lemma engine_ok_same:
  "engine_ok Q e \<Longrightarrow> cache_ok Q e' \<Longrightarrow> be_sent e' = be_sent e \<Longrightarrow> sm_sessions (be_sessions e') = sm_sessions (be_sessions e) \<Longrightarrow> engine_ok Q e'"
  by (auto simp: engine_ok_def intro: pool_ok_same)

lemma engine_ok_noted [simp]: "engine_ok Q (noted Q ent e) = engine_ok Q e"
  by (simp add: engine_ok_def)

lemma engine_ok_tick [simp]: "engine_ok Q (tick e) = engine_ok Q e"
  by (simp add: engine_ok_def)

lemma engine_ok_fold_noted [simp]: "engine_ok Q (fold (\<lambda>x. noted Q (f x)) xs e) = engine_ok Q e"
  by (induction xs arbitrary: e) simp_all

lemma engine_ok_view: "same_view e e' \<Longrightarrow> be_key_cache e' = be_key_cache e \<Longrightarrow> engine_ok Q e' = engine_ok Q e"
  using cache_ok_cong [of e' e Q] by (simp add: engine_ok_def same_view_def)

lemma engine_ok_pool: "engine_ok Q e \<Longrightarrow> pool_ok m \<Longrightarrow> engine_ok Q (e\<lparr>be_sessions := m\<rparr>)"
  by (simp add: engine_ok_def cache_ok_def)

lemma execute_keeps:
  assumes "broker_execute Q c host command ttl opts e = (r, e')" and "engine_ok Q e"
  shows "engine_ok Q e'"
proof -
  have k: "cache_ok Q e" using assms(2) by (simp add: engine_ok_def)
  from assms(1) k show ?thesis
  proof (cases rule: execute_cases)
    case stopped
    then show ?thesis using engine_ok_same [OF assms(2)] by (simp add: same_rest_def)
  next
    case (ran e1 e2 hops serial dec)
    note r = run_once_ok [OF ran(10)]
    obtain chain where ch: "resolve_chain e1 host = Inr chain"
      "chain_certified Q (\<lambda>n target pub. oneshot_intent c n (ttl_for e ttl) PurposeOneshot pub command opts target) e1 chain hops"
      using build_hops_ok [OF ran(5,6)] by auto
    have "sent_authorised Q \<lparr>st_host = host, st_hops = hops, st_command = command\<rparr>" if "hops \<noteq> []"
    proof -
      have "chain \<noteq> []" using that ch(2) by (auto simp: chain_certified_Nil)
      then show ?thesis using oneshot_chain_authorised [OF ch(2)] resolve_chain_last [OF ch(1)] by (simp add: sent_authorised_def)
    qed
    moreover have "cache_ok Q e'" using cache_ok_cong [of e' e2 Q] r ran(7) by simp
    ultimately show ?thesis using assms(2) r ran(3,4) by (auto simp: engine_ok_def same_rest_def)
  qed
qed

lemma pool_ok_checkin: "pool_ok m \<Longrightarrow> pool_ok (session_checkin now sid m)"
  by (rule limits.step_law [OF _ pool_step.checkin])

lemma session_exec_keeps:
  assumes "broker_session_exec Q c sid command e = (r, e')" and "engine_ok Q e"
  shows "engine_ok Q e'"
  using assms(1)
proof (cases rule: session_exec_cases)
  case (refused x)
  then show ?thesis using assms(2) by simp
next
  case (checked_out s now m e1 e2)
  note x = checked_out_ok [OF checked_out(6), simplified]
  have id: "lv_id s = sid" "0 \<le> lv_busy s" using assms(2) map_of_SomeD [OF checked_out(1)] by (auto simp: engine_ok_def pool_ok_def)
  have "pool_ok m"
    using assms(2) checked_out(1) id(2) unfolding checked_out(4)
    by - (rule pool_ok_touch [of "be_sessions e" sid s "s\<lparr>lv_last_used := now, lv_busy := lv_busy s + 1\<rparr>"], simp_all add: engine_ok_def)
  then have "pool_ok (be_sessions e2)" using x checked_out(5) by simp
  moreover have "cache_ok Q e1" using assms(2) cache_ok_cong [of e1 e Q] checked_out(5) by (simp add: engine_ok_def)
  then have "cache_ok Q e2" using x by blast
  moreover have "be_sent e1 = be_sent e" using checked_out(5) by simp
  then have "\<forall>y \<in> set (be_sent e2). sent_authorised Q y"
    using x assms(2) session_line_authorised [of Q c s command _ e2] by (auto simp: engine_ok_def sent_authorised_def)
  ultimately have "engine_ok Q e2" by (simp add: engine_ok_def)
  then show ?thesis using engine_ok_pool [OF _ pool_ok_checkin [OF \<open>pool_ok (be_sessions e2)\<close>]] unfolding checked_out(7) by simp
qed

lemma opening_keeps:
  assumes "open_session Q c host mode ttl opts e = (r, e')" and "engine_ok Q e"
    and "\<forall>n \<ge> be_tick e. \<not> map_has (sm_sessions (be_sessions e)) (bv_session_id Q n)"
  shows "engine_ok Q e'"
proof -
  have k: "cache_ok Q e" using assms(2) by (simp add: engine_ok_def)
  from assms(1) k show ?thesis
  proof (cases rule: open_session_cases)
    case (stopped x)
    then show ?thesis using engine_ok_same [OF assms(2)] by (simp add: same_rest_def)
  next
    case (certified e2 h md os chain)
    have m: "be_sessions e2 = be_sessions e" using certified(4) by (simp add: same_rest_def)
    obtain n where n: "n \<ge> be_tick e2" and o: "opened Q c os (new_live_session Q c host md os h n) e2 r e'"
      using connect_session_ok [OF certified(10)] assms(3) m certified(7) by auto
    have base: "cache_ok Q e'" "be_sent e' = be_sent e" using o certified(5,6) cache_ok_cong [of e' e2 Q] by (simp_all add: opened_def)
    show ?thesis
    proof (cases r)
      case (Inl x)
      then show ?thesis using engine_ok_same [OF assms(2) base] o m by (simp add: opened_def)
    next
      case (Inr p)
      obtain sid serial where p: "p = (sid, serial)" by (cases p)
      obtain s where s: "same_core (new_live_session Q c host md os h n) s" "sid = bv_session_id Q n"
        "session_count (be_sessions e) < max_sessions_global" "caller_sessions (lv_caller s) (be_sessions e) < max_sessions_per_caller"
        "be_sessions e' = (be_sessions e)\<lparr>sm_sessions := AList.update sid s (sm_sessions (be_sessions e))\<rparr>"
        using o Inr p m by (auto simp: opened_def same_core_def new_live_session_def)
      have "lv_id s = sid" "lv_busy s = 0" using s(1,2) by (simp_all add: same_core_def new_live_session_def)
      moreover have "\<not> map_has (sm_sessions (be_sessions e)) sid" using assms(3) n certified(7) s(2) by simp
      ultimately have "pool_ok (snd (session_add s (be_sessions e)))" using assms(2) by (intro pool_ok_add) (simp_all add: engine_ok_def)
      then have "pool_ok (be_sessions e')" using s(3,4,5) \<open>lv_id s = sid\<close> by (simp add: session_add_def)
      then show ?thesis using base assms(2) by (simp add: engine_ok_def)
    qed
  qed
qed

lemma close_session_keeps:
  assumes "broker_close_session Q c sid e = (x, e')" and "engine_ok Q e"
  shows "engine_ok Q e'"
proof (cases "map_of (sm_sessions (be_sessions e)) sid")
  case (Some s)
  have p: "pool_ok (session_close s (session_remove sid (be_sessions e)))"
    using pool_ok_same [OF limits.step_law [OF _ pool_step.remove], of "be_sessions e"] assms(2) by (simp add: engine_ok_def)
  show ?thesis using assms Some engine_ok_pool [OF assms(2) p]
    by (auto simp: broker_close_session_def remove_owned_def split: if_splits)
qed (use assms in \<open>auto simp: broker_close_session_def remove_owned_def\<close>)

lemma audit_keeps: "broker_audit Q ent e = (ok, e') \<Longrightarrow> engine_ok Q e' = engine_ok Q e"
  using same_view_audit engine_ok_view by blast

lemma put_file_keeps:
  assumes "put_file Q c host path content mode ttl e = (t, e')" and "engine_ok Q e"
  shows "engine_ok Q e'"
proof -
  obtain r e1 where x: "broker_execute Q c host (put_command path mode) ttl (no_options\<lparr>xo_stdin := content, xo_file_transfer := True\<rparr>) e = (r, e1)" by fastforce
  have "e' = e \<or> e' = e1 \<or> (\<exists>ent ok. broker_audit Q ent e1 = (ok, e'))"
    using assms(1) x by (auto simp: put_file_def split: option.splits if_splits sum.splits prod.splits bool.splits)
  then show ?thesis using execute_keeps [OF x assms(2)] assms(2) audit_keeps by blast
qed

lemma get_file_keeps:
  assumes "get_file Q c host path n ttl e = (t, e')" and "engine_ok Q e"
  shows "engine_ok Q e'"
proof -
  obtain r e1 where x: "broker_execute Q c host (get_command (read_limit e n) path) ttl (no_options\<lparr>xo_file_transfer := True\<rparr>) e = (r, e1)" by fastforce
  have "e' = e \<or> e' = e1 \<or> (\<exists>ent ok. broker_audit Q ent e1 = (ok, e'))"
    using assms(1) x by (auto simp: get_file_def Let_def split: option.splits if_splits sum.splits prod.splits bool.splits)
  then show ?thesis using execute_keeps [OF x assms(2)] assms(2) audit_keeps by blast
qed

lemma append_audit_keeps: "append_broker_audit Q ent e = (ok, e') \<Longrightarrow> engine_ok Q e' = engine_ok Q e"
  using same_view_append engine_ok_view by blast

lemma snd_append_keeps [simp]: "engine_ok Q (snd (append_broker_audit Q ent e)) = engine_ok Q e"
  by (cases "append_broker_audit Q ent e") (auto dest: append_audit_keeps)

lemma audit_broker_k8s_keeps [simp]: "engine_ok (kv_broker V) (snd (audit_broker_k8s V c cluster canonical serial outcome dec err manifest e)) = engine_ok (kv_broker V) e"
  by (simp add: audit_broker_k8s_def)

lemma k8s_run_keeps: "k8s_run V c cluster ci d a manifest opts iu e = (r, e') \<Longrightarrow> engine_ok (kv_broker V) e' = engine_ok (kv_broker V) e"
  by (auto simp: k8s_run_def audit_broker_k8s_def Let_def dest!: append_audit_keeps split: sum.splits prod.splits bool.splits)

lemma k8s_keeps:
  assumes "k8s_execute V c cluster action manifest dry opts e = (r, e')"
  shows "engine_ok (kv_broker V) e' = engine_ok (kv_broker V) e"
  using assms k8s_run_keeps unfolding k8s_execute_def Let_def
  by (auto simp: k8s_preflight_denied_def split: option.splits sum.splits if_splits)

lemma refresh_keeps: "engine_ok Q e \<Longrightarrow> engine_ok Q (host_refresh_tick Q e)"
proof -
  assume ok: "engine_ok Q e"
  obtain x e1 where f: "refresh_hosts_now Q e = (x, e1)" by fastforce
  have "engine_ok Q e1" using refresh_now_ok [OF f] ok engine_ok_same [OF ok, of e1] by (simp add: engine_ok_def same_rest_def)
  then show ?thesis using f by (auto simp: host_refresh_tick_def engine_ok_def cache_ok_def split: option.splits sum.splits)
qed

lemma pool_ok_kill: "pool_ok m \<Longrightarrow> pool_ok (snd (kill_matching pred m))"
  using limits.step_law [OF _ pool_step.kill, of m pred] by (auto simp: kill_matching_def intro: pool_ok_same split: prod.splits)

lemma poll_keeps: "engine_ok Q e \<Longrightarrow> engine_ok Q (poll_revocations_once Q e)"
proof -
  assume ok: "engine_ok Q e"
  have ok': "engine_ok Q (tick (e\<lparr>be_rev_last_success := n\<rparr>))" for n using ok by (simp add: engine_ok_def cache_ok_def)
  have "engine_ok Q (enforce_revocations Q frozen e1)" if ok1: "engine_ok Q e1" for frozen e1
  proof -
    obtain vs m where r: "revoke_sessions frozen (be_own_identity e1) (be_sessions e1) = (vs, m)" by fastforce
    then have "pool_ok m" using ok1 pool_ok_kill [of "be_sessions e1"] by (auto simp: revoke_sessions_def engine_ok_def split: option.splits) (metis snd_conv)
    then show ?thesis using r engine_ok_pool [OF ok1] by (simp add: enforce_revocations_def)
  qed
  then show ?thesis using ok ok' by (simp add: poll_revocations_once_def split: sum.split)
qed

lemma pool_ok_fold_close: "pool_ok m \<Longrightarrow> pool_ok (fold (\<lambda>(s, reason). session_close s) vs m)"
proof (induction vs arbitrary: m)
  case (Cons v vs)
  have "pool_ok (session_close (fst v) m)" by (rule pool_ok_same [OF Cons.prems]) simp
  then show ?case using Cons.IH by (simp add: case_prod_unfold)
qed simp

lemma reaper_keeps: "engine_ok Q e \<Longrightarrow> engine_ok Q (reaper_tick Q e)"
proof -
  assume ok: "engine_ok Q e"
  obtain vs m where r: "reap_expired (bv_now Q (be_tick e)) (be_sessions e) = (vs, m)" by fastforce
  have "pool_ok (snd (reap_take (bv_now Q (be_tick e)) (be_sessions e)))"
    using limits.step_law [OF _ pool_step.reap] ok by (simp add: engine_ok_def)
  then have "pool_ok m" using r pool_ok_fold_close by (auto simp: reap_expired_def split: prod.splits)
  then have "engine_ok Q (tick (e\<lparr>be_sessions := m\<rparr>))" using engine_ok_pool [OF ok] by simp
  then show ?thesis using r by (simp add: reaper_tick_def case_prod_unfold)
qed

lemma shutdown_keeps: "engine_ok Q e \<Longrightarrow> engine_ok Q (engine_close Q e)"
proof -
  assume ok: "engine_ok Q e"
  obtain vs m where r: "close_all (be_sessions e) = (vs, m)" by fastforce
  have "pool_ok (snd (close_all_take (be_sessions e)))" using limits.step_law [OF _ pool_step.close_all] ok by (simp add: engine_ok_def)
  then have "pool_ok m" using r by (auto simp: close_all_def intro: pool_ok_same split: prod.splits)
  then show ?thesis using r engine_ok_pool [OF ok] by (simp add: engine_close_def)
qed

lemma step_keeps: "engine_step Q e e' \<Longrightarrow> engine_ok Q e \<Longrightarrow> engine_ok Q e'"
proof (induction rule: engine_step.induct)
  case (granted e c host command rule opts)
  then show ?case using audit_keeps by (auto simp: audit_approval_granted_def) (metis prod.collapse)
next
  case (declined e c host command rule opts)
  then show ?case by (simp add: audit_approval_declined_def)
next
  case (k8s V c cluster action manifest dry kopts e k e')
  then show ?case using k8s_keeps by blast
qed (blast intro: execute_keeps opening_keeps session_exec_keeps close_session_keeps put_file_keeps get_file_keeps refresh_keeps poll_keeps reaper_keeps shutdown_keeps)+

lemma start_ok: "new_engine Q X cfg = Inr e \<Longrightarrow> engine_ok Q e"
  by (auto simp: new_engine_def init_remote_mode_def engine_ok_def cache_ok_def pool_ok_empty new_session_manager_def Let_def
      split: option.splits sum.splits if_splits)

lemma reachable_ok: "engine_reachable Q X cfg e \<Longrightarrow> engine_ok Q e"
  by (induction rule: engine_reachable.induct) (auto intro: start_ok step_keeps)

text \<open>
  C3: Whatever a broker does, in whatever order, nothing leaves it that the signer was not asked about. In every engine that can
  be reached from a start by one-shot commands, transfers, sessions and their commands, Kubernetes actions, host refreshes,
  revocation polls, reaps and a shutdown, each command that was ever sent to a host either went over a chain of hops that
  the signer certified, the last one for this command on this host, or went into a session after the signer
  let this command run on that host. The limits on sessions hold as well.
\<close>

theorem every_command_authorised:
  assumes "engine_reachable Q X cfg e"
  shows "(\<forall>x \<in> set (be_sent e). oneshot_authorised Q x \<or> session_authorised Q x)
    \<and> session_count (be_sessions e) \<le> max_sessions_global \<and> (\<forall>u. caller_sessions u (be_sessions e) \<le> max_sessions_per_caller)"
  using reachable_ok [OF assms] by (simp add: engine_ok_def sent_authorised_def pool_ok_def)

definition demo_boot :: start_env where
  "demo_boot = \<lparr>sx_tls_ok = True, sx_ca_keys_ok = True, sx_client_cn = Some ''broker-1'', sx_audit_seed = Some (replicate 32 (CHR ''k'')),
     sx_audit_dir = \<lparr>ad_active = None, ad_files = []\<rparr>, sx_redactor = Some None, sx_now = 0\<rparr>"

lemma demo_started: "\<exists>e. new_engine demo_env demo_boot demo_config = Inr e"
proof -
  have v: "validate_file_transfer_max_bytes demo_config = None"
    by (simp add: validate_file_transfer_max_bytes_def max_file_transfer_bytes_def demo_config_def truncation_marker_len_def truncation_marker_def
        int_decimal_def nat_decimal.simps)
  have a: "\<exists>l. open_audit_log demo_broker_lib demo_boot = Inr (l, None)"
    by (simp add: open_audit_log_def demo_boot_def audit_open_def restore_chain_def seed_from_rotated_segments_def discover_segments_def)
  have "build_signer E demo_boot demo_config = Inr None" for E by (simp add: build_signer_def demo_config_def demo_boot_def)
  moreover have "bc_signer demo_config" "sx_client_cn demo_boot = Some ''broker-1''" "fail_closed (bc_audit_fail_mode demo_config) = Some True"
    "bv_audit demo_env = demo_broker_lib" by (simp_all add: demo_config_def demo_boot_def fail_closed_def demo_env_def)
  moreover have "\<exists>e'. init_remote_mode demo_env t e = Inr e'" for t e by (simp add: init_remote_mode_def demo_env_def Let_def)
  ultimately show ?thesis using a by (auto simp: new_engine_def v)
qed

text \<open>Here the broker starts, and a command is run on it.\<close>

theorem every_command_authorised_witness:
  "\<exists>e e'. new_engine demo_env demo_boot demo_config = Inr e
     \<and> e' = snd (broker_execute demo_env demo_caller ''db'' ''uptime'' 60 no_options e)
     \<and> (\<forall>x \<in> set (be_sent e'). oneshot_authorised demo_env x \<or> session_authorised demo_env x)"
proof -
  obtain e where e: "new_engine demo_env demo_boot demo_config = Inr e" using demo_started by blast
  obtain r e' where x: "broker_execute demo_env demo_caller ''db'' ''uptime'' 60 no_options e = (r, e')" by fastforce
  have "engine_reachable demo_env demo_boot demo_config e'"
    using engine_reachable.start [OF e] engine_step.execute [OF x] engine_reachable.step by blast
  then show ?thesis using e x every_command_authorised [of demo_env demo_boot demo_config e'] by auto
qed

end
