(* ===== verification/Broker_Policy.thy ===== *)
theory Broker_Policy
  imports Broker_History Local_Signer
begin

text \<open>
  A broker in local mode, where the signer it asks is the in-process \<open>Local\<close> of \<open>internal/signer/signer.go\<close>
  (\<open>buildSigner\<close> of \<open>internal/broker/engine.go\<close>): what its histories have to do with the policy of the hosts.
\<close>

text \<open>
  The answers of the signer are those of \<open>SignIntent\<close> of a \<open>Local\<close>: the certificate, the envelope and the decision are handed on.
\<close>

definition local_answers :: "broker_env \<Rightarrow> (nat \<Rightarrow> sign_env) \<Rightarrow> local_signer \<Rightarrow> bool" where
  "local_answers Q N S \<longleftrightarrow> (\<forall>n i iu. bv_sign Q n i = Inr iu \<longrightarrow> (\<exists>l. sign_intent (N n) S i = (Some l, None)
     \<and> ir_certificate iu = iu_certificate l \<and> ir_envelope iu = iu_envelope l
     \<and> (\<exists>d. ir_decision iu = Some d \<and> dw_allowed d = di_allowed (iu_decision l) \<and> dw_require_approval d = di_require_approval (iu_decision l))))"

text \<open>A preflight that is allowed was resolved by the policy.\<close>

lemma preflight_resolved:
  assumes "sign_intent N S i = (Some l, None)" and "in_dry_run i" and "in_target_type i = []" and "di_allowed (iu_decision l)"
  obtains d where "resolve (se_env N) (ls_policy S) (ls_default_ttl S) (ls_grants S) i (se_now N) = (d, None)"
    and "di_require_approval (iu_decision l) = de_require_approval d"
proof -
  obtain d e where r: "resolve (se_env N) (ls_policy S) (ls_default_ttl S) (ls_grants S) i (se_now N) = (d, e)" by fastforce
  have s: "sign_ssh N S i = (Some l, None)" using assms(1,3) by (simp add: sign_intent_def)
  have "e = None \<and> di_require_approval (iu_decision l) = de_require_approval d"
  proof (cases e)
    case (Some x)
    then have "iu_decision l = (decision_info d False)\<lparr>di_reason := Some (ReasonText (PolicyDenied x))\<rparr>"
      using s r assms(2) by (auto simp: sign_ssh_def)
    then show ?thesis using assms(4) by (simp add: decision_info_def)
  next
    case None
    then have "iu_decision l = decision_info d True" using s r assms(2) by (auto simp: sign_ssh_def split: sum.splits)
    then show ?thesis using None by (simp add: decision_info_def)
  qed
  then show thesis using that r by blast
qed

text \<open>
  What the policy of the host says of an intent that stands behind a command that was sent: it is for a target, the command is
  allowed by the policy of the host, widened by the grants that apply, and an approval that it needs was given or waived.
\<close>

definition policy_allows :: "sign_env \<Rightarrow> local_signer \<Rightarrow> host_policy \<Rightarrow> intent \<Rightarrow> bool" where
  "policy_allows N S hp i \<longleftrightarrow> in_role i = RoleTarget
     \<and> caller_allowed (hp_allowed_callers hp) (in_caller i) \<and> (\<forall>gs. in_end_user_groups i = Some gs \<longrightarrow> groups_intersect (hp_groups hp) gs)
     \<and> verdict_allowed (ps_decide (se_env N) (widened_policies (ls_grants S) hp i (se_now N)) (in_command i))
     \<and> (verdict_needs (ps_decide (se_env N) (widened_policies (ls_grants S) hp i (se_now N)) (in_command i))
          \<longrightarrow> in_approved i \<or> waived (ls_grants S) i (se_now N))"

lemma resolved_allows:
  assumes "resolve (se_env N) (ls_policy S) (ls_default_ttl S) (ls_grants S) i (se_now N) = (d, None)"
    and "map_of (ls_policy S) (in_host i) = Some hp" and "ps_restricts (effective_policies hp)"
    and "ps_enforcement (effective_policies hp) \<noteq> CmdPolicyAudit" and "in_purpose i = PurposeOneshot \<or> in_command i \<noteq> []"
    and "de_require_approval d \<longrightarrow> in_approved i"
  shows "policy_allows N S hp i"
proof -
  have a: "authorize_intent hp i = None" using assms(1,2) by (auto elim: resolve_ok)
  have "\<not> (in_purpose i = PurposeSession \<and> in_command i = [])" using assms(5) by auto
  then show ?thesis using firewall [OF assms(1-4)] assms(6) authorize_intent_None(8,9) [OF a] by (auto simp: policy_allows_def)
qed

lemma oneshot_policy:
  assumes "oneshot_authorised Q x" and "local_answers Q N S" and "map_of (ls_policy S) (st_host x) = Some hp"
    and "ps_restricts (effective_policies hp)" and "ps_enforcement (effective_policies hp) \<noteq> CmdPolicyAudit"
  shows "\<exists>n i cert elevation. st_hops x \<noteq> [] \<and> in_host i = st_host x \<and> in_command i = st_command x \<and> policy_allows (N n) S hp i
    \<and> ho_certificate (last (st_hops x)) = Some cert \<and> ce_valid_principals cert = [hp_principal hp]
    \<and> resolve_elevation hp i = Inr elevation \<and> map_of (ce_critical_options cert) ''force-command'' = Some (baked_command (se_env (N n)) i elevation)"
proof -
  obtain n i iu where h: "st_hops x \<noteq> []" "bv_sign Q n i = Inr iu" "in_role i = RoleTarget" "in_purpose i = PurposeOneshot"
    "in_host i = st_host x" "in_command i = st_command x" "ho_certificate (last (st_hops x)) = ir_certificate iu" "ir_certificate iu \<noteq> None"
    using assms(1) by (auto simp: oneshot_authorised_def hop_signed_def)
  then obtain l cert where l: "sign_intent (N n) S i = (Some l, None)" "iu_certificate l = Some cert" "ir_certificate iu = Some cert"
    using assms(2) unfolding local_answers_def by fastforce
  obtain d hp' where d: "resolve (se_env (N n)) (ls_policy S) (ls_default_ttl S) (ls_grants S) i (se_now (N n)) = (d, None)"
    "map_of (ls_policy S) (in_host i) = Some hp'" "de_require_approval d \<longrightarrow> in_approved i"
    "build_and_sign (se_ca (N n)) (se_call (N n)) (ca_key_for S hp') (in_public_key i) (de_constraints d) = Inr (cert, iu_serial l)"
    using certificate_issued [OF l(1,2)] by metis
  have hp: "hp' = hp" using d(2) assms(3) h(5) by simp
  obtain elevation cp where f: "finish_decision (se_env (N n)) hp (ls_default_ttl S) i elevation cp (se_now (N n)) = (d, None)"
    and a: "authorize_intent hp i = None" and el: "resolve_elevation hp i = Inr elevation" using d(1,2) hp by (auto elim: resolve_ok)
  have o: "is_oneshot_target i" using h(3,4) by (simp add: is_oneshot_target_def)
  have "in_command i \<noteq> []" using authorized_oneshot_command [OF a o] by auto
  then have b: "co_force_command (de_constraints d) = baked_command (se_env (N n)) i elevation" "baked_command (se_env (N n)) i elevation \<noteq> []"
    using finish_decision_ok(1) [OF f] o baked_nonempty by auto
  then have "map_of (ce_critical_options cert) ''force-command'' = Some (baked_command (se_env (N n)) i elevation)"
    "ce_valid_principals cert = [hp_principal hp]"
    using build_and_sign_Inr [OF d(4)] force_command_option finish_decision_ok [OF f] by auto
  moreover have "policy_allows (N n) S hp i" using resolved_allows [OF d(1) _ assms(4,5)] d(2,3) hp h(4) by simp
  ultimately show ?thesis using h l(3) el by metis
qed

lemma session_policy:
  assumes "session_authorised Q x" and "local_answers Q N S" and "map_of (ls_policy S) (st_host x) = Some hp"
    and "ps_restricts (effective_policies hp)" and "ps_enforcement (effective_policies hp) \<noteq> CmdPolicyAudit"
  shows "\<exists>n i l. st_hops x = [] \<and> in_host i = st_host x \<and> policy_allows (N n) S hp i \<and> sign_intent (N n) S i = (Some l, None)
    \<and> (st_command x = in_command i \<or> st_command x = iu_envelope l
       \<or> (\<exists>prefix. prefix \<noteq> [] \<and> st_command x = build_elevated_command (bv_go Q) prefix (in_command i)))"
proof -
  obtain n i iu where h: "st_hops x = []" "bv_sign Q n i = Inr iu" "lets_run iu" "in_dry_run i" "in_target_type i = []" "in_host i = st_host x"
    "in_command i \<noteq> []" "st_command x = in_command i \<or> st_command x = ir_envelope iu
      \<or> (\<exists>prefix. prefix \<noteq> [] \<and> st_command x = build_elevated_command (bv_go Q) prefix (in_command i))"
    using assms(1) unfolding session_authorised_def by blast
  then obtain l dw where l: "sign_intent (N n) S i = (Some l, None)" "ir_envelope iu = iu_envelope l" "ir_decision iu = Some dw"
    "dw_allowed dw = di_allowed (iu_decision l)" "dw_require_approval dw = di_require_approval (iu_decision l)"
    using assms(2) unfolding local_answers_def by fastforce
  then have allowed: "di_allowed (iu_decision l)" "\<not> di_require_approval (iu_decision l)" using h(3) by (simp_all add: lets_run_def)
  obtain d where d: "resolve (se_env (N n)) (ls_policy S) (ls_default_ttl S) (ls_grants S) i (se_now (N n)) = (d, None)"
    "di_require_approval (iu_decision l) = de_require_approval d"
    using preflight_resolved [OF l(1) h(4,5) allowed(1)] by metis
  have "policy_allows (N n) S hp i" using resolved_allows [OF d(1) _ assms(4,5)] d(2) allowed(2) assms(3) h(6,7) by simp
  then show ?thesis using h l(1,2) by metis
qed


section \<open>A broker with a policy\<close>

definition open_host :: host_policy where
  "open_host = example_host\<lparr>hp_allowed_callers := []\<rparr>"

definition demo_local :: local_signer where
  "demo_local = example_signer\<lparr>ls_policy := [(''db'', open_host)]\<rparr>"

definition local_sign :: "nat \<Rightarrow> intent \<Rightarrow> sign_failure + issued_remote" where
  "local_sign n i =
     (case sign_intent (example_sign_env example_env) demo_local i of
        (Some l, None) \<Rightarrow> Inr \<lparr>ir_certificate = iu_certificate l, ir_serial = iu_serial l, ir_elevation_prefix = iu_elevation_prefix l, ir_k8s_token = [],
          ir_k8s_token_expiry = 0, ir_decision = Some (demo_verdict\<lparr>dw_allowed := di_allowed (iu_decision l),
            dw_require_approval := di_require_approval (iu_decision l)\<rparr>), ir_envelope = iu_envelope l\<rparr>
      | _ \<Rightarrow> Inl (SignDenied ''denied''))"

definition local_env :: broker_env where
  "local_env = demo_env\<lparr>bv_sign := local_sign, bv_hosts := \<lambda>n. Inr [(''db'', demo_host ''10.0.0.2:22'' [])]\<rparr>"

lemma local_env_answers: "local_answers local_env (\<lambda>n. example_sign_env example_env) demo_local"
  by (auto simp: local_answers_def local_env_def local_sign_def split: prod.splits option.splits)

definition ls_request :: intent where
  "ls_request = oneshot_intent demo_caller ''db'' (60 * go_second) PurposeOneshot ''pub'' ''ls -l'' no_options True"

lemma ls_certified: "\<exists>iu. local_sign n ls_request = Inr iu \<and> ir_certificate iu \<noteq> None"
proof -
  define r where "r = resolve example_env [(''db'', open_host)] (300 * go_second) None ls_request 0"
  have "snd r = None" "co_principal (de_constraints (fst r)) = ''host:db''" "co_ttl (de_constraints (fst r)) = 60 * go_second"
    "\<not> de_require_approval (fst r)" unfolding r_def by code_simp+
  then obtain d where d: "r = (d, None)" "co_principal (de_constraints d) = ''host:db''" "co_ttl (de_constraints d) = 60 * go_second"
    "\<not> de_require_approval d" by (cases r) auto
  have "\<exists>cert serial. build_and_sign example_ca example_ca_call k pub (de_constraints d) = Inr (cert, serial)" for k pub
    using d by (simp add: build_and_sign_def example_ca_def example_ca_call_def random_serial_def max_cert_ttl_def Let_def)
  then obtain cert serial where "build_and_sign example_ca example_ca_call (ca_key_for demo_local open_host) (in_public_key ls_request) (de_constraints d)
      = Inr (cert, serial)" by metis
  moreover have "\<not> in_dry_run ls_request" "in_target_type ls_request = []" "in_host ls_request = ''db''" by code_simp+
  ultimately show ?thesis using d(1,4) unfolding r_def
    by (simp add: local_sign_def sign_intent_def sign_ssh_def demo_local_def example_signer_def example_sign_env_def)
qed

lemma local_started:
  obtains e where "new_engine local_env demo_boot demo_config = Inr e" and "engine_table e = [(''db'', demo_host ''10.0.0.2:22'' [])]"
    and "be_sent e = []" and "be_key_cache e = []" and "be_max_ttl e = 300 * go_second" and "be_remote e" and "be_last_refresh e = Some 0"
proof -
  have v: "validate_file_transfer_max_bytes demo_config = None"
    by (simp add: validate_file_transfer_max_bytes_def max_file_transfer_bytes_def demo_config_def truncation_marker_len_def truncation_marker_def
        int_decimal_def nat_decimal.simps)
  obtain l where a: "open_audit_log demo_broker_lib demo_boot = Inr (l, None)"
    by (auto simp: open_audit_log_def demo_boot_def audit_open_def restore_chain_def seed_from_rotated_segments_def discover_segments_def)
  have b: "build_signer E demo_boot demo_config = Inr None" for E by (simp add: build_signer_def demo_config_def demo_boot_def)
  have m: "seconds_or (5 * go_minute) 300 = 300 * go_second" by code_simp
  have q: "bv_audit local_env = demo_broker_lib" "bv_hosts local_env n = Inr [(''db'', demo_host ''10.0.0.2:22'' [])]" "bv_clusters local_env n = Inr []" for n
    by (simp_all add: local_env_def demo_env_def)
  have c: "bc_signer demo_config" "bc_audit_fail_mode demo_config = []" "bc_max_ttl_seconds demo_config = 300" "sx_client_cn demo_boot = Some ''broker-1''" "sx_now demo_boot = 0"
    by (simp_all add: demo_config_def demo_boot_def)
  have "\<exists>e. new_engine local_env demo_boot demo_config = Inr e \<and> engine_table e = [(''db'', demo_host ''10.0.0.2:22'' [])] \<and> be_sent e = []
      \<and> be_key_cache e = [] \<and> be_max_ttl e = 300 * go_second \<and> be_remote e \<and> be_last_refresh e = Some 0"
    by (simp add: new_engine_def v a b q c m [simplified] init_remote_mode_def fail_closed_def engine_table_def tick_def Let_def)
  then show thesis using that by blast
qed

text \<open>A host without bastions in a broker that differs from the other examples in the signer and the hosts only.\<close>

definition one_hop :: "(nat \<Rightarrow> intent \<Rightarrow> sign_failure + issued_remote) \<Rightarrow> broker_env" where
  "one_hop sign = demo_env\<lparr>bv_sign := sign, bv_hosts := \<lambda>n. Inr [(''db'', demo_host ''10.0.0.2:22'' [])]\<rparr>"

definition one_hop_engine :: "engine \<Rightarrow> bool" where
  "one_hop_engine e \<longleftrightarrow> engine_table e = [(''db'', demo_host ''10.0.0.2:22'' [])] \<and> be_key_cache e = [] \<and> be_remote e \<and> be_last_refresh e = Some 0"

lemma one_hop_simps:
  "bv_now (one_hop sign) n = 10" "bv_keys (one_hop sign) n = Some (''priv'', ''pub'')" "bv_sign (one_hop sign) = sign" "bv_parse_key (one_hop sign) k = Some k"
  "bv_dial (one_hop sign) = bv_dial demo_env" "bv_channel (one_hop sign) = bv_channel demo_env" "broker_audit (one_hop sign) = broker_audit demo_env"
  by (simp_all add: one_hop_def demo_env_def broker_audit_def append_broker_audit_def fun_eq_iff)

lemma one_hop_refresh: "one_hop_engine e \<Longrightarrow> refresh_for_new_connection (one_hop sign) e = (None, tick e)"
  by (simp add: refresh_for_new_connection_def one_hop_engine_def one_hop_simps)

lemma one_hop_route:
  "one_hop_engine e \<Longrightarrow> engine_host (tick e) ''db'' = Some (demo_host ''10.0.0.2:22'' []) \<and> resolve_chain (tick e) ''db'' = Inr [''db'']"
  by (simp add: one_hop_engine_def engine_host_def resolve_chain_def resolve_from.simps demo_host_def demo_table_tick)

lemma one_hop_sent:
  assumes "one_hop_engine e" and "cmd \<noteq> []" and "\<not> xo_dry_run opts"
    and "prints_all cmd"
    and "sign (Suc (Suc (be_tick e))) (oneshot_intent demo_caller ''db'' (ttl_for (tick e) ttl) PurposeOneshot ''pub'' cmd opts True) = Inr iu"
    and "ir_certificate iu = Some cert"
  obtains res e' hops where "broker_execute (one_hop sign) demo_caller ''db'' cmd ttl opts e = (Inr res, e')" and "hops \<noteq> []"
    and "\<lparr>st_host = ''db'', st_hops = hops, st_command = cmd\<rparr> \<in> set (be_sent e')" and "be_sent e' \<noteq> be_sent e"
proof -
  note h = one_hop_route [OF assms(1)]
  define hop where "hop = \<lparr>ho_addr = ''10.0.0.2:22'', ho_user = ''ops'', ho_host_key = Some ''key'', ho_private_key = ''priv'', ho_certificate = Some cert\<rparr>"
  have c: "be_key_cache (tick e) = []" "be_tick (tick e) = Suc (be_tick e)" using assms(1) by (simp_all add: one_hop_engine_def tick_def)
  obtain e2 where b: "build_hops (one_hop sign) demo_caller ''db'' (ttl_for (tick e) ttl) PurposeOneshot cmd opts (tick e)
      = (Inr ([hop], ir_serial iu, ir_decision iu), e2)" and s2: "be_sent e2 = be_sent e"
    using h c assms(5,6) by (auto simp: build_hops_def certify_hop_def one_hop_simps parse_host_key_cached_def hop_def demo_host_def)
  obtain r e3 where x: "run_once (one_hop sign) demo_caller ''db'' cmd opts [hop] (ir_serial iu) (ir_decision iu) e2 = (r, e3)" by fastforce
  have "\<exists>conn. fst (ssh_dial (bv_dial demo_env n) [hop]) = Inr conn" for n
    by (simp add: ssh_dial_def demo_env_def hop_client_config_def hop_def)
  then obtain conn where "fst (ssh_dial (bv_dial demo_env (be_tick e2)) [hop]) = Inr conn" by blast
  then obtain res where "r = Inr res"
    using x by (auto simp: run_once_def Let_def one_hop_simps demo_exec [OF assms(4)] demo_audit)
  moreover have "broker_execute (one_hop sign) demo_caller ''db'' cmd ttl opts e = (r, e3)"
    using one_hop_refresh [OF assms(1)] h b x assms(2,3) by (simp add: broker_execute_def)
  ultimately show thesis using that [of res e3 "[hop]"] run_once_ok [OF x] s2 by auto
qed

text \<open>Here the policy of the host lets \<open>ls -l\<close> run, and it is sent.\<close>

lemma ls_prints: "prints_all ''ls -l''"
  by code_simp

lemma ls_sent:
  obtains e x where "engine_reachable local_env demo_boot demo_config e" and "x \<in> set (be_sent e)" and "st_host x = ''db''" and "st_command x = ''ls -l''"
    and "st_hops x \<noteq> []"
proof -
  have q: "local_env = one_hop local_sign" by (simp add: local_env_def one_hop_def)
  obtain e where e: "new_engine local_env demo_boot demo_config = Inr e" "one_hop_engine e" "be_max_ttl e = 300 * go_second"
    by (rule local_started) (simp add: one_hop_engine_def)
  have "ttl_for (tick e) 60 = 60 * go_second" using e(3) by (simp add: ttl_for_def tick_def duration_seconds_def)
  then have t: "oneshot_intent demo_caller ''db'' (ttl_for (tick e) 60) PurposeOneshot ''pub'' ''ls -l'' no_options True = ls_request"
    by (simp add: ls_request_def)
  obtain iu cert where iu: "local_sign (Suc (Suc (be_tick e))) ls_request = Inr iu" "ir_certificate iu = Some cert" using ls_certified by fastforce
  obtain res e' hops where x: "broker_execute local_env demo_caller ''db'' ''ls -l'' 60 no_options e = (Inr res, e')" "hops \<noteq> []"
    and s: "\<lparr>st_host = ''db'', st_hops = hops, st_command = ''ls -l''\<rparr> \<in> set (be_sent e')"
    unfolding q by (rule one_hop_sent [OF e(2), of "''ls -l''" no_options local_sign 60 iu cert]) (use iu t ls_prints in \<open>simp_all add: no_options_def\<close>)
  have "engine_reachable local_env demo_boot demo_config e'"
    using engine_reachable.start [OF e(1)] engine_step.execute [OF x(1)] engine_reachable.step by blast
  then show thesis using that [OF _ s] x(2) by simp
qed


end
