(* ===== verification/Mcp_Guarantees.thy ===== *)
theory Mcp_Guarantees
  imports Mcp_Tools Broker_Policy
begin

text \<open>
  What holds of the tools: an approval in the chat comes from the human and is on record before the command runs, the details of
  infrastructure failures stay out of the chat, binary files come through unchanged, and whatever tools are called, the commands that reach a host
  are authorised.
\<close>

section \<open>Approval in the chat\<close>

text \<open>A hop without a certificate is reported with the elevation of the options.\<close>

lemma build_hops_from_approval:
  "fst (build_hops_from Q c ttl purpose command opts names e) = Inl (ApprovalRequired a) \<Longrightarrow> ar_elevation a = elevation_label opts \<and> ar_pty a = xo_pty opts"
proof (induction Q c ttl purpose command opts names e rule: build_hops_from.induct)
  case (2 Q c ttl purpose command opts name names e)
  then show ?case
    by (auto simp: certify_hop_def approval_error_def split: option.splits sum.splits prod.splits if_splits)
qed simp

lemma approval_not_classified: "classify_sign_err x = ApprovalRequired a \<longleftrightarrow> x = ApprovalRequired a"
  by (auto simp: classify_sign_err_def is_sign_outage_def)

lemma resolve_chain_no_approval: "resolve_chain e host \<noteq> Inl (ApprovalRequired a)"
  using resolve_from_Inl [of "engine_table e" "[]" "[]" host] by (auto simp: resolve_chain_def)

lemma run_once_no_approval: "fst (run_once Q c host command opts hops serial dec e) \<noteq> Inl (ApprovalRequired a)"
  by (auto simp: run_once_def Let_def split: sum.split prod.split bool.split)

lemma approval_stops:
  assumes "broker_execute Q c host command ttl opts e = (Inl (ApprovalRequired a), e')" and "cache_ok Q e"
  shows "be_sent e' = be_sent e \<and> cache_ok Q e' \<and> same_rest e e' \<and> ar_elevation a = elevation_label opts \<and> ar_pty a = xo_pty opts"
proof -
  have "be_sent e' = be_sent e \<and> cache_ok Q e' \<and> same_rest e e'"
    using assms
  proof (cases rule: execute_cases)
    case (ran e1 e2 hops serial dec)
    then show ?thesis using run_once_no_approval [of Q c host command opts hops serial dec e2 a] by simp
  qed simp
  moreover have "ar_elevation a = elevation_label opts \<and> ar_pty a = xo_pty opts"
    using assms(1) run_once_no_approval [of Q c host command opts _ _ _ _ a] resolve_chain_no_approval [of _ host a]
      build_hops_from_approval [of Q c _ PurposeOneshot command opts _ _ a]
    by (auto simp: broker_execute_def broker_dry_run_def build_hops_def approval_not_classified Let_def refresh_for_new_connection_def
        split: option.splits prod.splits if_splits sum.splits) (metis fst_conv)+
  ultimately show ?thesis by blast
qed

text \<open>The human has answered this call with an acceptance that says yes.\<close>

definition human_approved :: "mcp_call option \<Rightarrow> bool" where
  "human_approved req \<longleftrightarrow> (\<exists>q rs content. req = Some q \<and> mq_responses q = Some rs \<and> map_of rs ''approval'' = Some (ElicitResult ''accept'' content)
     \<and> map_of content ''approve'' = Some (JsonBool True))"

lemma elicited_iff: "fst (elicited_approval req) \<longleftrightarrow> human_approved req"
  by (auto simp: elicited_approval_def human_approved_def split: option.splits input_response.splits)

text \<open>
  C17: A command that needs an approval runs only after the human said yes to it. When \<open>ssh_execute\<close> sends a command whose first
  try lacked an approval, then approvals in the chat are enabled, the call carries an acceptance of the question with a true answer,
  and the engine that the first try left has taken the record of the approval, with the rule, the elevation and the terminal that the question named;
  in a broker that is to fail closed this record is the last line of its log. From that engine, and with nothing sent before, the approved
  request was executed: the engine of the answer is the one this execution left, and what it sent is this command to this host over hops that
  the signer certified for the approved request.
\<close>

theorem chat_approval_gates:
  assumes "ssh_execute M c req inp e = (t, e')" and "cache_ok (mv_broker M) e" and "be_sent e' \<noteq> be_sent e"
    and "broker_execute (mv_broker M) c (xi_server inp) (xi_command inp) (xi_ttl_seconds inp) (input_options inp) e = (Inl (ApprovalRequired a), e1)"
  shows "mv_elicit M \<and> human_approved req \<and> runs_as a = runs_as (a\<lparr>ar_elevation := elevation_label (input_options inp), ar_pty := xi_pty inp\<rparr>)
    \<and> (\<exists>e2 r chain hops. broker_audit (mv_broker M) (approval_answer_entry c (xi_server inp) (xi_command inp) (ar_rule a) (input_options inp) ''approval_granted'') e1 = (True, e2)
        \<and> broker_execute (mv_broker M) c (xi_server inp) (xi_command inp) (xi_ttl_seconds inp) ((input_options inp)\<lparr>xo_approved := True\<rparr>) e2 = (r, e')
        \<and> be_sent e2 = be_sent e
        \<and> (be_fail_closed e \<longrightarrow> recorded (mv_broker M) (enriched e1 (approval_answer_entry c (xi_server inp) (xi_command inp) (ar_rule a) (input_options inp) ''approval_granted'')) e2)
        \<and> be_sent e' = be_sent e2 @ [\<lparr>st_host = xi_server inp, st_hops = hops, st_command = xi_command inp\<rparr>]
        \<and> chain_certified (mv_broker M) (\<lambda>n target pub. oneshot_intent c n (ttl_for e2 (xi_ttl_seconds inp)) PurposeOneshot pub (xi_command inp)
             ((input_options inp)\<lparr>xo_approved := True\<rparr>) target) e' chain hops)"
proof -
  let ?Q = "mv_broker M" and ?o = "input_options inp" and ?h = "xi_server inp" and ?c = "xi_command inp" and ?ttl = "xi_ttl_seconds inp"
  note s = approval_stops [OF assms(4,2)]
  obtain ok e2 where g: "audit_approval_granted ?Q c ?h ?c (ar_rule a) ?o e1 = (ok, e2)" by fastforce
  obtain r e3 where x: "broker_execute ?Q c ?h ?c ?ttl (?o\<lparr>xo_approved := True\<rparr>) e2 = (r, e3)" by fastforce
  note v = same_view_audit [OF g [unfolded audit_approval_granted_def]]
  have sent2: "be_sent e2 = be_sent e" and cache2: "cache_ok ?Q e2" using v s cache_ok_cong [of e2 e1 ?Q] by (simp_all add: same_view_def)
  have run: "mv_elicit M \<and> elicited_approval req = (True, True) \<and> ok \<and> e' = e3"
    using assms(1,3) s g x sent2 unfolding ssh_execute_def Let_def assms(4)
    by (auto simp: as_approval_def audit_approval_declined_def split: option.splits if_splits prod.splits bool.splits)
  then have "human_approved req" using elicited_iff [of req] by simp
  moreover obtain chain hops where "be_sent e3 = be_sent e2 @ [\<lparr>st_host = ?h, st_hops = hops, st_command = ?c\<rparr>]"
    "chain_certified ?Q (\<lambda>n target pub. oneshot_intent c n (ttl_for e2 ?ttl) PurposeOneshot pub ?c (?o\<lparr>xo_approved := True\<rparr>) target) e3 chain hops"
    using command_only_certified [OF x cache2] run assms(3) sent2 by auto
  moreover have "be_fail_closed e \<longrightarrow> recorded ?Q (enriched e1 (approval_answer_entry c ?h ?c (ar_rule a) ?o ''approval_granted'')) e2"
    using audit_True [of ?Q _ e1 e2] g run s by (auto simp: audit_approval_granted_def same_rest_def)
  moreover have "a\<lparr>ar_elevation := elevation_label ?o, ar_pty := xi_pty inp\<rparr> = a" using s by (simp add: input_options_def)
  moreover have "broker_audit ?Q (approval_answer_entry c ?h ?c (ar_rule a) ?o ''approval_granted'') e1 = (True, e2)"
    using g run by (simp add: audit_approval_granted_def)
  ultimately show ?thesis using run sent2 x by auto
qed

section \<open>What stays out of the chat\<close>

text \<open>
  The errors that hold a detail of the infrastructure, at whatever depth: the error of a connection, of a command or a shell on it, of a
  recording, of the service that lists the hosts, or of a signing service, a token minter or a certificate authority that did not answer.
\<close>

fun outage :: "sign_failure \<Rightarrow> bool" where
  "outage (SignerUnavailable t) = True"
| "outage (K8sMintFailed t) = True"
| "outage (CASignFailed t) = True"
| "outage (SignRateLimited t) = False"
| "outage (SignDenied t) = False"

fun holds_detail :: "broker_error \<Rightarrow> bool" where
  "holds_detail (HostListRefresh d) = True"
| "holds_detail (ConnectionFailed d) = True"
| "holds_detail (ExecutionFailed d) = True"
| "holds_detail (ShellOpening d) = True"
| "holds_detail (RecordingOpening d) = True"
| "holds_detail (SessionShellFailed d) = True"
| "holds_detail (SessionExecFailed d) = True"
| "holds_detail (SigningCert n f) = outage f"
| "holds_detail (SigningFailure f) = outage f"
| "holds_detail (UpstreamSign x) = holds_detail x"
| "holds_detail (ConnectivityPreflight x) = holds_detail x"
| "holds_detail (BastionPreflight x) = holds_detail x"
| "holds_detail (BastionPreflightFor n x) = holds_detail x"
| "holds_detail (PolicyPreflight x) = holds_detail x"
| "holds_detail x = False"

definition detail_tool :: "tool_error \<Rightarrow> bool" where
  "detail_tool err = (case err of EngineError x \<Rightarrow> holds_detail x | _ \<Rightarrow> False)"

definition marked :: "broker_error \<Rightarrow> bool" where
  "marked x \<longleftrightarrow> (holds_detail x \<longrightarrow> is_upstream x)"

lemma outage_iff: "is_sign_outage (SigningCert n f) \<longleftrightarrow> outage f" "is_sign_outage (SigningFailure f) \<longleftrightarrow> outage f"
  by (cases f; simp add: is_sign_outage_def)+

lemma classify_marked:
  "\<not> holds_detail x \<or> is_sign_outage x \<Longrightarrow> marked (classify_sign_err x)" "marked (classify_sign_err (SigningFailure f))"
  by (auto simp: marked_def classify_sign_err_def outage_iff)

lemma chain_plain: "resolve_chain e host = Inl x \<Longrightarrow> \<not> holds_detail x"
  using resolve_from_Inl [of "engine_table e" "[]" "[]" host] by (auto simp: resolve_chain_def)

lemma signature_plain: "chain_signature e names = Inl x \<Longrightarrow> \<not> holds_detail x"
  by (induction names arbitrary: x) (auto split: option.splits sum.splits)

lemma certify_hop_plain: "certify_hop Q opts name hi mk e = (Inl x, e') \<Longrightarrow> \<not> holds_detail x \<or> is_sign_outage x"
  by (auto simp: certify_hop_def approval_error_def outage_iff split: option.splits sum.splits prod.splits)

lemma build_hops_plain: "build_hops_from Q c ttl purpose command opts names e = (Inl x, e') \<Longrightarrow> \<not> holds_detail x \<or> is_sign_outage x"
  by (induction names arbitrary: e e') (auto split: option.splits prod.splits sum.splits dest!: certify_hop_plain)

lemma build_session_hops_plain: "build_session_hops Q c ttl purpose mode opts names e = (Inl x, e') \<Longrightarrow> \<not> holds_detail x \<or> is_sign_outage x"
  by (induction names arbitrary: e e') (auto simp: Let_def split: option.splits prod.splits sum.splits if_splits dest!: certify_hop_plain)

lemma refresh_marked: "refresh_for_new_connection Q e = (Some x, e') \<Longrightarrow> marked x"
  by (auto simp: refresh_for_new_connection_def marked_def split: if_splits option.splits prod.splits)

lemma unmarked_detail: "\<not> holds_detail x \<Longrightarrow> marked x"
  by (simp add: marked_def)

lemma marked_errors [simp]: "marked (ConnectionFailed d)" "marked (ExecutionFailed y)" "marked (ShellOpening z)" "marked (RecordingOpening w)"
  "marked (SessionShellFailed z)" "marked (SessionExecFailed y)" "marked (HostListRefresh r)" "marked AuditUnavailable" "marked KeyGeneration"
  by (simp_all add: marked_def)

lemma run_once_marked: "run_once Q c host command opts hops serial dec e = (Inl x, e') \<Longrightarrow> marked x"
  by (auto simp: run_once_def Let_def split: sum.splits prod.splits bool.splits)

lemma dry_run_marked: "broker_dry_run Q c host command ttl opts e = (Inl x, e') \<Longrightarrow> marked x"
  by (auto simp: broker_dry_run_def Let_def classify_marked split: option.splits sum.splits prod.splits)

lemma hops_marked:
  "build_hops Q c host ttl purpose command opts e = (Inl x, e') \<Longrightarrow> marked (classify_sign_err x)"
  "build_hops_with_prefix Q c host ttl purpose mode opts e = (Inl x, e') \<Longrightarrow> marked (classify_sign_err x)"
  by (auto simp: build_hops_def build_hops_with_prefix_def split: sum.splits intro!: classify_marked(1)
      dest: build_hops_plain build_session_hops_plain chain_plain)

lemma execute_marked:
  assumes "broker_execute Q c host command ttl opts e = (Inl x, e')"
  shows "marked x"
proof (cases "refresh_for_new_connection Q e")
  case (Pair y e1)
  show ?thesis
  proof (cases y)
    case None
    then show ?thesis using assms Pair hops_marked(1) [of Q c host _ PurposeOneshot command opts e1] run_once_marked dry_run_marked
      by (auto simp: broker_execute_def unmarked_detail split: if_splits prod.splits sum.splits)
  next
    case (Some z)
    then show ?thesis using assms Pair refresh_marked [of Q e z e1] by (simp add: broker_execute_def)
  qed
qed

lemma connect_marked: "connect_session Q c host mode opts r e = (Inl x, e') \<Longrightarrow> marked x"
  by (auto simp: connect_session_def open_shell_for_mode_def start_session_recording_def publish_session_def Let_def unmarked_detail
      split: sum.splits prod.splits option.splits if_splits bool.splits)

lemma open_session_marked:
  assumes "open_session Q c host mode ttl opts e = (Inl x, e')"
  shows "marked x"
proof (cases "refresh_for_new_connection Q e")
  case (Pair y e1)
  show ?thesis
  proof (cases y)
    case None
    then show ?thesis using assms Pair hops_marked(2) [of Q c host _ PurposeSession _ _ e1] connect_marked
      by (auto simp: open_session_def Let_def unmarked_detail split: if_splits prod.splits sum.splits)
  next
    case (Some z)
    then show ?thesis using assms Pair refresh_marked [of Q e z e1] by (simp add: open_session_def)
  qed
qed

lemma preflight_marked: "preflight_command Q c s command e = ((d, Inl x), e') \<Longrightarrow> marked x"
  using classify_marked(2)
  by (auto simp: preflight_command_def marked_def split: option.splits sum.splits prod.splits if_splits)

lemma bastions_marked: "preflight_bastions Q c pub names e = (Some x, e') \<Longrightarrow> marked x"
  using classify_marked(2)
  by (induction names arbitrary: e) (auto simp: marked_def split: option.splits sum.splits if_splits)

lemma session_bastions_marked: "authorize_session_bastions Q c host e = (Some x, e') \<Longrightarrow> marked x"
  by (auto simp: authorize_session_bastions_def split: sum.splits if_splits option.splits prod.splits dest: bastions_marked dest!: chain_plain)
    (simp add: marked_def)

lemma connectivity_marked: "current_connectivity_signature Q host e = (Inl x, e') \<Longrightarrow> marked (ConnectivityPreflight x)"
  by (auto simp: current_connectivity_signature_def connectivity_signature_def marked_def split: option.splits prod.splits sum.splits
      dest: chain_plain signature_plain)

lemma authorize_marked:
  assumes "authorize_session_exec Q c s command e = ((d, Inl x), e')"
  shows "marked x"
proof (cases "current_connectivity_signature Q (lv_host s) e")
  case (Pair r e1)
  obtain y e2 where b: "authorize_session_bastions Q c (lv_host s) e1 = (y, e2)" by fastforce
  show ?thesis
    using assms Pair b preflight_marked [of Q c s command] connectivity_marked [of Q "lv_host s" e _ e1] session_bastions_marked [of Q c "lv_host s" e1 _ e2]
    by (auto simp: authorize_session_exec_def unmarked_detail split: if_splits sum.splits option.splits)
qed

lemma checked_out_marked:
  assumes "exec_checked_out Q c s command e = (Inl x, e')"
  shows "marked x"
proof (cases "session_command_check s command")
  case (Some y)
  then have "\<not> holds_detail (fst y)" by (auto simp: session_command_check_def split: if_splits option.splits)
  then show ?thesis using assms Some by (auto simp: exec_checked_out_def unmarked_detail split: prod.splits)
next
  case None
  have r: "marked y" if "run_in_session Q s command envelope e1 = (Inl y, e2)" for envelope e1 e2 y
    using that by (auto simp: run_in_session_def Let_def map_sum_def split: if_splits option.splits prod.splits sum.splits)
  obtain d z e1 where a: "authorize_session_exec Q c s command e = ((d, z), e1)" by (metis surj_pair)
  show ?thesis
  proof (cases z)
    case (Inl y)
    then show ?thesis using assms None a authorize_marked [of Q c s command e d y e1] by (simp add: exec_checked_out_def)
  next
    case (Inr envelope)
    obtain w e2 where "run_in_session Q s command envelope e1 = (w, e2)" by fastforce
    then show ?thesis using assms None a Inr r [of envelope e1 _ e2]
      by (auto simp: exec_checked_out_def split: sum.splits prod.splits bool.splits)
  qed
qed

lemma session_exec_marked: "broker_session_exec Q c sid command e = (Inl x, e') \<Longrightarrow> marked x"
  by (auto simp: broker_session_exec_def Let_def unmarked_detail split: prod.splits bool.splits option.splits dest: checked_out_marked)

lemma close_marked: "broker_close_session Q c sid e = (Some x, e') \<Longrightarrow> marked x"
  by (auto simp: broker_close_session_def unmarked_detail split: prod.splits bool.splits option.splits)

lemma transfer_marked:
  "put_file Q c host path content mode ttl e = (Inl x, e') \<Longrightarrow> marked x"
  "get_file Q c host path max_bytes ttl e = (Inl x, e') \<Longrightarrow> marked x"
proof -
  have path: "\<not> holds_detail y" if "validate_transfer_path path = Some y" for y
    using that by (auto simp: validate_transfer_path_def split: if_splits)
  show "put_file Q c host path content mode ttl e = (Inl x, e') \<Longrightarrow> marked x"
    by (auto simp: put_file_def unmarked_detail path split: option.splits if_splits prod.splits sum.splits bool.splits dest: execute_marked)
  show "get_file Q c host path max_bytes ttl e = (Inl x, e') \<Longrightarrow> marked x"
    by (auto simp: get_file_def Let_def unmarked_detail path split: option.splits if_splits prod.splits sum.splits bool.splits dest: execute_marked)
qed

lemma k8s_execute_marked:
  assumes "k8s_execute V c cluster a manifest dry opts e = (Inl (K8sBroker x), e')"
  shows "marked x"
proof -
  have r: "marked y" if "k8s_run V c cluster ci d b manifest opts iu e1 = (Inl (K8sBroker y), e2)" for ci d b iu e1 e2 y
    using that by (auto simp: k8s_run_def run_k8s_action_def Let_def map_sum_def unmarked_detail split: sum.splits prod.splits if_splits bool.splits)
  show ?thesis
    using assms classify_marked(2) by (auto simp: k8s_execute_def k8s_preflight_denied_def Let_def approval_error_def unmarked_detail
        split: option.splits sum.splits if_splits prod.splits dest: r)
qed

text \<open>
  C34: The details of an infrastructure failure of the engine have no influence on what the model sees. Two brokers that differ only in the
  texts of the errors of the engine that hold such a detail answer every call of every tool in the same way. The errors of a call to a
  Kubernetes API server itself are not among them: their texts are shown.
\<close>

theorem upstream_detail_hidden:
  assumes "mv_k8s M' = mv_k8s M" and "mv_elicit M' = mv_elicit M" and "\<forall>err. \<not> detail_tool err \<longrightarrow> mv_text M' err = mv_text M err"
  shows "ssh_execute M' c req xinp e = ssh_execute M c req xinp e \<and> ssh_session_open M' c oinp e = ssh_session_open M c oinp e
    \<and> ssh_session_exec M' c sid command e = ssh_session_exec M c sid command e \<and> ssh_session_close M' c sid e = ssh_session_close M c sid e
    \<and> ssh_put_file M' c pinp e = ssh_put_file M c pinp e \<and> ssh_get_file M' c ginp e = ssh_get_file M c ginp e
    \<and> k8s_get_tool M' c jinp e = k8s_get_tool M c jinp e \<and> k8s_delete_tool M' c jinp e = k8s_delete_tool M c jinp e
    \<and> k8s_list_tool M' c jinp lo e = k8s_list_tool M c jinp lo e \<and> k8s_logs_tool M' c cluster ns pod go dry e = k8s_logs_tool M c cluster ns pod go dry e
    \<and> k8s_apply_tool M' c jinp manifest e = k8s_apply_tool M c jinp manifest e"
proof -
  have eng: "show_error M' (EngineError x) = show_error M (EngineError x)" if "marked x" for x
    using that assms(3) by (auto simp: show_error_def tool_message_def detail_tool_def marked_def)
  have other: "show_error M' err = show_error M err" if "\<forall>x. err \<noteq> EngineError x" for err
    using that assms(3) by (cases err) (simp_all add: show_error_def tool_message_def detail_tool_def)
  have eng_free: "\<forall>x. InputError i \<noteq> EngineError x" "\<forall>x. DeclinedError t u \<noteq> EngineError x" for i t u by simp_all
  have word: "show_error M' (no_elicit_wording t x) = show_error M (no_elicit_wording t x)" if "marked x" for t x
    using eng [OF that] other by (auto simp: no_elicit_wording_def split: option.split)
  have k8s: "show_error M' (k8s_approval_wording cl x) = show_error M (k8s_approval_wording cl x)" if "\<And>y. x = K8sBroker y \<Longrightarrow> marked y" for cl x
    using that eng other by (auto simp: k8s_approval_wording_def split: option.split k8s_outcome_error.split)
  have res: "executed_result M' r = executed_result M r" if "broker_execute Q c h cmd ttl o' e1 = (r, e2)" for Q h cmd ttl o' e1 r e2
    using eng execute_marked that by (auto simp: executed_result_def split: sum.split)
  have xec: "ssh_execute M' c req xinp e = ssh_execute M c req xinp e"
    unfolding ssh_execute_def Let_def case_prod_beta assms(1,2) res [OF prod.collapse [symmetric]] other [OF eng_free(1)] other [OF eng_free(2)] eng [OF marked_errors(8)]
    by (rule refl)
  have run: "run_k8s_tool M' c cl a mf d opt e = run_k8s_tool M c cl a mf d opt e" for cl a mf d opt e
    by (auto simp: run_k8s_tool_def assms(1) other split: option.split prod.split sum.split intro!: k8s dest: k8s_execute_marked)
  have "ssh_session_open M' c oinp e = ssh_session_open M c oinp e"
    using other word open_session_marked assms(1) by (auto simp: ssh_session_open_def split: option.split prod.split sum.split)
  moreover have "ssh_session_exec M' c sid command e = ssh_session_exec M c sid command e"
    using other eng session_exec_marked assms(1) by (auto simp: ssh_session_exec_def split: option.split prod.split sum.split)
  moreover have "ssh_session_close M' c sid e = ssh_session_close M c sid e"
    using other eng close_marked assms(1) by (auto simp: ssh_session_close_def split: option.split prod.split)
  moreover have "ssh_put_file M' c pinp e = ssh_put_file M c pinp e"
    using other word transfer_marked(1) assms(1) by (auto simp: ssh_put_file_def split: option.split prod.split sum.split)
  moreover have "ssh_get_file M' c ginp e = ssh_get_file M c ginp e"
    using other word transfer_marked(2) assms(1) by (auto simp: ssh_get_file_def split: option.split prod.split sum.split)
  ultimately show ?thesis
    using xec run other by (simp add: k8s_get_tool_def k8s_delete_tool_def k8s_list_tool_def k8s_logs_tool_def k8s_apply_tool_def split: option.split)
qed

section \<open>Files\<close>

lemma file_limit_positive: "0 < file_transfer_max_bytes e"
  by (simp add: file_transfer_max_bytes_def)

lemma encoded_fits:
  assumes "int (length content) \<le> file_transfer_max_bytes e"
  shows "int (length (std_b64_encode content)) \<le> encoded_bound (file_transfer_max_bytes e)" "int (length content) \<le> encoded_bound (file_transfer_max_bytes e)"
proof -
  let ?m = "file_transfer_max_bytes e" and ?n = "length content"
  have "4 * ((?n + 2) div 3) \<le> ?n + ?n div 3 + 4" by presburger
  then have "int (length (std_b64_encode content)) \<le> int ?n + int ?n div 3 + 4" unfolding b64_length by (simp add: zdiv_int flip: of_nat_add)
  moreover have "int ?n div 3 \<le> ?m div 3" using assms by (rule zdiv_mono1) simp
  ultimately show "int (length (std_b64_encode content)) \<le> encoded_bound ?m" using assms by (simp add: encoded_bound_def)
  have "0 \<le> ?m div 3" using file_limit_positive [of e] by (simp add: pos_imp_zdiv_nonneg_iff)
  then show "int ?n \<le> encoded_bound ?m" using assms by (simp add: encoded_bound_def)
qed

lemma get_output_faithful:
  "(if gf_base64 (get_output res) then std_b64_decode (gf_content (get_output res)) = Some (tr_content res)
    else gf_content (get_output res) = tr_content res \<and> plain_text (gf_content (get_output res)))
   \<and> gf_size (get_output res) = tr_size res \<and> gf_sha256 (get_output res) = tr_sha256 res"
  by (simp add: get_output_def b64_roundtrip)

text \<open>
  C35: Files come through the tools unchanged. A file within the limit of the broker may be sent as base64: the check in front of the decoder lets its encoding
  pass and what is written is the file, just as if it had been sent as text. What \<open>ssh_get_file\<close> hands out, decoded where it says that it is base64,
  is the content the engine read, and it is plain text without NUL otherwise.
\<close>

theorem tool_files_unchanged:
  assumes "int (length content) \<le> file_transfer_max_bytes e"
  shows "ssh_put_file M c (pinp\<lparr>pi_content := std_b64_encode content, pi_content_base64 := True\<rparr>) e
      = ssh_put_file M c (pinp\<lparr>pi_content := content, pi_content_base64 := False\<rparr>) e
    \<and> (ssh_get_file M c ginp e1 = (t, e2) \<and> tx_output t = GetOut out \<longrightarrow>
        (\<exists>res. get_file (mv_broker M) c (gi_server ginp) (gi_path ginp) (gi_max_bytes ginp) (gi_ttl_seconds ginp) e1 = (Inr res, e2)
          \<and> (if gf_base64 out then std_b64_decode (gf_content out) = Some (tr_content res) else gf_content out = tr_content res \<and> plain_text (gf_content out))
          \<and> gf_size out = tr_size res \<and> gf_sha256 out = tr_sha256 res))"
proof -
  have "ssh_put_file M c (pinp\<lparr>pi_content := std_b64_encode content, pi_content_base64 := True\<rparr>) e
      = ssh_put_file M c (pinp\<lparr>pi_content := content, pi_content_base64 := False\<rparr>) e"
    using encoded_fits [OF assms] by (auto simp: ssh_put_file_def b64_roundtrip split: option.split sum.split prod.split)
  moreover have "\<exists>res. get_file (mv_broker M) c (gi_server ginp) (gi_path ginp) (gi_max_bytes ginp) (gi_ttl_seconds ginp) e1 = (Inr res, e2)
      \<and> out = get_output res" if "ssh_get_file M c ginp e1 = (t, e2)" "tx_output t = GetOut out"
    using that by (auto simp: ssh_get_file_def show_error_def text_result_def split: option.splits prod.splits sum.splits)
  ultimately show ?thesis using get_output_faithful by blast
qed

section \<open>Histories of calls\<close>

text \<open>Any tool, called by anyone in any order, with the steps a broker makes of its own between the calls.\<close>

inductive tool_step :: "mcp_env \<Rightarrow> engine \<Rightarrow> engine \<Rightarrow> bool" for M where
  execute: "ssh_execute M c req xinp e = (t, e') \<Longrightarrow> tool_step M e e'"
| session_open: "ssh_session_open M c oinp e = (t, e') \<Longrightarrow> \<forall>n \<ge> be_tick e. \<not> map_has (sm_sessions (be_sessions e)) (bv_session_id (mv_broker M) n) \<Longrightarrow> tool_step M e e'"
| session_exec: "ssh_session_exec M c sid command e = (t, e') \<Longrightarrow> tool_step M e e'"
| session_close: "ssh_session_close M c sid e = (t, e') \<Longrightarrow> tool_step M e e'"
| put: "ssh_put_file M c pinp e = (t, e') \<Longrightarrow> tool_step M e e'"
| get: "ssh_get_file M c ginp e = (t, e') \<Longrightarrow> tool_step M e e'"
| k8s: "run_k8s_tool M c cluster a manifest dry opts e = (t, e') \<Longrightarrow> tool_step M e e'"
| own: "e' \<in> {host_refresh_tick (mv_broker M) e, poll_revocations_once (mv_broker M) e, reaper_tick (mv_broker M) e, engine_close (mv_broker M) e} \<Longrightarrow> tool_step M e e'"

abbreviation engine_steps :: "broker_env \<Rightarrow> engine \<Rightarrow> engine \<Rightarrow> bool" where
  "engine_steps Q \<equiv> (engine_step Q)\<^sup>*\<^sup>*"

lemma execute_steps:
  assumes "ssh_execute M c req inp e = (t, e')"
  shows "engine_steps (mv_broker M) e e'"
proof -
  let ?Q = "mv_broker M" and ?o = "input_options inp" and ?h = "xi_server inp" and ?c = "xi_command inp" and ?ttl = "xi_ttl_seconds inp"
  obtain r e1 where x: "broker_execute ?Q c ?h ?c ?ttl ?o e = (r, e1)" by fastforce
  have s1: "engine_steps ?Q e e1" using engine_step.execute [OF x] by blast
  have "e' = e \<or> e' = e1 \<or> (\<exists>rule. e' = audit_approval_declined ?Q c ?h ?c rule ?o e1 \<or> e' = snd (audit_approval_granted ?Q c ?h ?c rule ?o e1)
      \<or> (\<exists>e2 r. e2 = snd (audit_approval_granted ?Q c ?h ?c rule ?o e1) \<and> broker_execute ?Q c ?h ?c ?ttl (?o\<lparr>xo_approved := True\<rparr>) e2 = (r, e')))"
    using assms x unfolding ssh_execute_def Let_def
    by (auto split: option.splits prod.splits if_splits bool.splits) (metis snd_conv)+
  then show ?thesis
    using s1 engine_step.granted [of ?Q e1] engine_step.declined [of ?Q e1] engine_step.execute [of ?Q]
    by (auto intro: rtranclp.rtrancl_into_rtrancl) (meson rtranclp.rtrancl_into_rtrancl)+
qed

lemma tool_steps: "tool_step M e e' \<Longrightarrow> engine_steps (mv_broker M) e e'"
proof (induction rule: tool_step.induct)
  case (execute c req xinp e t e')
  then show ?case by (rule execute_steps)
next
  case (session_open c oinp e t e')
  then have "e' = e \<or> (\<exists>r h m n opts. open_session (mv_broker M) c h m n opts e = (r, e'))"
    by (auto simp: ssh_session_open_def split: option.splits prod.splits sum.splits)
  then show ?case using engine_step.opened_session session_open(2) by blast
next
  case (session_exec c sid command e t e')
  then have "e' = e \<or> (\<exists>r. broker_session_exec (mv_broker M) c sid command e = (r, e'))"
    by (auto simp: ssh_session_exec_def split: option.splits prod.splits sum.splits)
  then show ?case using engine_step.session_exec by blast
next
  case (session_close c sid e t e')
  then have "e' = e \<or> (\<exists>r. broker_close_session (mv_broker M) c sid e = (r, e'))"
    by (auto simp: ssh_session_close_def split: option.splits prod.splits sum.splits)
  then show ?case using engine_step.close_session by blast
next
  case (put c pinp e t e')
  then have "e' = e \<or> (\<exists>r h p x m n. put_file (mv_broker M) c h p x m n e = (r, e'))"
    by (auto simp: ssh_put_file_def split: option.splits prod.splits sum.splits if_splits)
  then show ?case using engine_step.put by blast
next
  case (get c ginp e t e')
  then have "e' = e \<or> (\<exists>r h p x n. get_file (mv_broker M) c h p x n e = (r, e'))"
    by (auto simp: ssh_get_file_def split: option.splits prod.splits sum.splits)
  then show ?case using engine_step.get by blast
next
  case (k8s c cluster a manifest dry opts e t e')
  then have "e' = e \<or> (\<exists>r. k8s_execute (mv_k8s M) c cluster a manifest dry opts e = (r, e'))"
    by (auto simp: run_k8s_tool_def split: option.splits prod.splits sum.splits)
  then show ?case using engine_step.k8s [of "mv_k8s M" "mv_broker M"] by blast
next
  case (own e' e)
  then show ?case using engine_step.refresh engine_step.poll engine_step.reaper engine_step.shutdown by blast
qed

inductive tool_reachable :: "mcp_env \<Rightarrow> start_env \<Rightarrow> broker_config \<Rightarrow> engine \<Rightarrow> bool" for M X cfg where
  start: "new_engine (mv_broker M) X cfg = Inr e \<Longrightarrow> tool_reachable M X cfg e"
| step: "tool_reachable M X cfg e \<Longrightarrow> tool_step M e e' \<Longrightarrow> tool_reachable M X cfg e'"

lemma engine_reachable_steps: "engine_steps Q e e' \<Longrightarrow> engine_reachable Q X cfg e \<Longrightarrow> engine_reachable Q X cfg e'"
  by (induction rule: rtranclp_induct) (blast intro: engine_reachable.step)+

lemma tool_engine_reachable: "tool_reachable M X cfg e \<Longrightarrow> engine_reachable (mv_broker M) X cfg e"
  by (induction rule: tool_reachable.induct) (blast intro: engine_reachable.start engine_reachable_steps tool_steps)+

text \<open>
  Whatever a model calls, what reaches a host is authorised: after any sequence of tool calls by any callers, every command that was sent went over hops the
  signer certified, the last one for this command on this host, or into a session after the signer let it run there.
\<close>

theorem tool_calls_authorised:
  assumes "tool_reachable M X cfg e" and "x \<in> set (be_sent e)"
  shows "oneshot_authorised (mv_broker M) x \<or> session_authorised (mv_broker M) x"
  using reachable_ok [OF tool_engine_reachable [OF assms(1)]] assms(2) by (auto simp: engine_ok_def sent_authorised_def)

section \<open>A conversation\<close>

text \<open>A signer that issues a certificate only for an approved request.\<close>

definition chat_sign :: "nat \<Rightarrow> intent \<Rightarrow> sign_failure + issued_remote" where
  "chat_sign n i =
     (if in_approved i then demo_sign n i
      else Inr (decision_only (Some (demo_verdict\<lparr>dw_require_approval := True, dw_matched_rule := ''require_approval:restart''\<rparr>)) []))"

definition chat_k8s :: k8s_env where
  "chat_k8s = \<lparr>kv_broker = one_hop chat_sign,
     kv_lib = \<lparr>kl_ca_ok = (\<lambda>_. True), kl_url_ok = (\<lambda>_. True), kl_status_message = (\<lambda>_. None), kl_encode_token_request = (\<lambda>_. []), kl_decode_token = (\<lambda>_. None)\<rparr>,
     kv_net = (\<lambda>n q. Inl Unreachable), kv_call_text = (\<lambda>_. [])\<rparr>"

definition chat :: mcp_env where
  "chat = \<lparr>mv_k8s = chat_k8s, mv_text = (\<lambda>_. ''error''), mv_elicit = True\<rparr>"

definition chat_engine :: engine where
  "chat_engine = (demo_engine [(''db'', demo_host ''10.0.0.2:22'' [])])\<lparr>be_last_refresh := Some 0\<rparr>"

definition chat_input :: execute_input where
  "chat_input = \<lparr>xi_server = ''db'', xi_command = ''restart'', xi_ttl_seconds = 60, xi_sudo = False, xi_sudo_user = [], xi_pty = False, xi_dry_run = False\<rparr>"

definition chat_yes :: mcp_call where
  "chat_yes = \<lparr>mq_responses = Some [(''approval'', ElicitResult ''accept'' [(''approve'', JsonBool True)])]\<rparr>"

lemma chat_broker [simp]: "mv_broker chat = one_hop chat_sign"
  by (simp add: chat_def chat_k8s_def)

lemma one_hop_noted: "one_hop_engine (noted Q ent e) = one_hop_engine e" "one_hop_engine (tick e) = one_hop_engine e"
  by (simp_all add: one_hop_engine_def noted_def broker_audit_def append_broker_audit_def engine_table_def tick_def split: prod.split)

lemma chat_ready: "one_hop_engine chat_engine"
  by (simp add: one_hop_engine_def chat_engine_def demo_engine_def engine_table_def)

lemma chat_first_try:
  obtains a e1 where "broker_execute (one_hop chat_sign) demo_caller ''db'' ''restart'' 60 (input_options chat_input) chat_engine = (Inl (ApprovalRequired a), e1)"
    and "one_hop_engine e1" and "be_sent e1 = be_sent chat_engine"
proof -
  have i: "\<not> in_approved (oneshot_intent demo_caller ''db'' ttl PurposeOneshot ''pub'' ''restart'' (input_options chat_input) True)" for ttl
    by (simp add: oneshot_intent_def bastion_intent_def plain_intent_def input_options_def no_options_def Let_def)
  have o: "\<not> xo_dry_run (input_options chat_input)" by (simp add: input_options_def chat_input_def)
  have "be_key_cache (tick chat_engine) = []" using chat_ready by (simp add: one_hop_engine_def)
  have "build_hops (one_hop chat_sign) demo_caller ''db'' (ttl_for (tick chat_engine) 60) PurposeOneshot ''restart'' (input_options chat_input) (tick chat_engine)
      = (Inl (approval_error ''db'' (Some (demo_verdict\<lparr>dw_require_approval := True, dw_matched_rule := ''require_approval:restart''\<rparr>)) (input_options chat_input)),
         tick (tick (tick chat_engine)))"
    using one_hop_route [OF chat_ready] by (simp add: build_hops_def certify_hop_def one_hop_simps chat_sign_def i decision_only_def)
  then have "broker_execute (one_hop chat_sign) demo_caller ''db'' ''restart'' 60 (input_options chat_input) chat_engine
      = (Inl (approval_error ''db'' (Some (demo_verdict\<lparr>dw_require_approval := True, dw_matched_rule := ''require_approval:restart''\<rparr>)) (input_options chat_input)),
         noted (one_hop chat_sign) ((caller_entry demo_caller ''db'' ''approval_required'')\<lparr>en_command := ''restart'', en_err := ''error''\<rparr>) (tick (tick (tick chat_engine))))"
    using one_hop_refresh [OF chat_ready] one_hop_route [OF chat_ready] o
    by (simp add: broker_execute_def approval_error_def classify_sign_err_def is_sign_outage_def sign_failure_outcome_def one_hop_def demo_env_def)
  then show thesis using that chat_ready by (auto simp: approval_error_def one_hop_noted)
qed

lemma restart_prints: "prints_all ''restart''"
  by code_simp

lemma chat_runs:
  obtains t e' a e1 where "ssh_execute chat demo_caller (Some chat_yes) chat_input chat_engine = (t, e')" and "be_sent e' \<noteq> be_sent chat_engine"
    and "broker_execute (one_hop chat_sign) demo_caller ''db'' ''restart'' 60 (input_options chat_input) chat_engine = (Inl (ApprovalRequired a), e1)"
proof -
  let ?o = "input_options chat_input"
  obtain a e1 where f: "broker_execute (one_hop chat_sign) demo_caller ''db'' ''restart'' 60 ?o chat_engine = (Inl (ApprovalRequired a), e1)"
    "one_hop_engine e1" "be_sent e1 = be_sent chat_engine" by (rule chat_first_try)
  obtain e2 where g: "audit_approval_granted (one_hop chat_sign) demo_caller ''db'' ''restart'' (ar_rule a) ?o e1 = (True, e2)" "be_sent e2 = be_sent e1" "one_hop_engine e2"
    using f(2) by (auto simp: audit_approval_granted_def one_hop_simps demo_audit one_hop_engine_def engine_table_def tick_def split: if_splits)
  have "in_approved (oneshot_intent demo_caller ''db'' ttl PurposeOneshot ''pub'' ''restart'' (?o\<lparr>xo_approved := True\<rparr>) True)"
    "\<not> in_dry_run (oneshot_intent demo_caller ''db'' ttl PurposeOneshot ''pub'' ''restart'' (?o\<lparr>xo_approved := True\<rparr>) True)" for ttl
    by (simp_all add: oneshot_intent_def bastion_intent_def plain_intent_def input_options_def Let_def)
  then obtain iu cert where iu: "chat_sign n (oneshot_intent demo_caller ''db'' (ttl_for (tick e2) 60) PurposeOneshot ''pub'' ''restart'' (?o\<lparr>xo_approved := True\<rparr>) True) = Inr iu"
    "ir_certificate iu = Some cert" for n by (simp add: chat_sign_def demo_sign_def)
  obtain res e' hops where x: "broker_execute (one_hop chat_sign) demo_caller ''db'' ''restart'' 60 (?o\<lparr>xo_approved := True\<rparr>) e2 = (Inr res, e')" "be_sent e' \<noteq> be_sent e2"
    by (rule one_hop_sent [OF g(3), of "''restart''" "?o\<lparr>xo_approved := True\<rparr>" chat_sign 60 iu cert]) (use iu restart_prints in \<open>simp_all add: input_options_def chat_input_def\<close>)
  have v: "validate_input [(''server'', ''db''), (''command'', ''restart''), (''sudo_user'', [])] = None" by code_simp
  have "elicited_approval (Some chat_yes) = (True, True)" by (simp add: elicited_approval_def chat_yes_def)
  then have "\<exists>t. ssh_execute chat demo_caller (Some chat_yes) chat_input chat_engine = (t, e')"
    using f(1) g(1) x(1) v by (simp add: ssh_execute_def chat_input_def chat_def chat_k8s_def as_approval_def Let_def)
  then show thesis using that f(1,3) g(2) x(2) by auto
qed

theorem chat_approval_gates_witness:
  "\<exists>t e'. ssh_execute chat demo_caller (Some chat_yes) chat_input chat_engine = (t, e') \<and> be_sent e' \<noteq> be_sent chat_engine \<and> human_approved (Some chat_yes)"
proof -
  obtain t e' a e1 where r: "ssh_execute chat demo_caller (Some chat_yes) chat_input chat_engine = (t, e')" "be_sent e' \<noteq> be_sent chat_engine"
    "broker_execute (mv_broker chat) demo_caller (xi_server chat_input) (xi_command chat_input) (xi_ttl_seconds chat_input) (input_options chat_input) chat_engine
       = (Inl (ApprovalRequired a), e1)"
    by (rule chat_runs) (simp add: chat_input_def)
  have "cache_ok (mv_broker chat) chat_engine" by (simp add: cache_ok_def chat_engine_def demo_engine_def)
  then show ?thesis using r chat_approval_gates [OF r(1) _ r(2,3)] by blast
qed

theorem upstream_detail_hidden_witness:
  "ssh_execute (chat\<lparr>mv_text := \<lambda>err. if detail_tool err then ''dial tcp 10.0.0.2:22'' else ''error''\<rparr>) demo_caller None chat_input chat_engine
     = ssh_execute chat demo_caller None chat_input chat_engine"
  using upstream_detail_hidden [of "chat\<lparr>mv_text := \<lambda>err. if detail_tool err then ''dial tcp 10.0.0.2:22'' else ''error''\<rparr>" chat]
  by (simp add: chat_def)

theorem tool_files_unchanged_witness:
  "ssh_put_file chat demo_caller \<lparr>pi_server = ''db'', pi_path = ''/tmp/a'', pi_content = std_b64_encode ''hi'', pi_content_base64 = True, pi_mode = [], pi_ttl_seconds = 60\<rparr> chat_engine
     = ssh_put_file chat demo_caller \<lparr>pi_server = ''db'', pi_path = ''/tmp/a'', pi_content = ''hi'', pi_content_base64 = False, pi_mode = [], pi_ttl_seconds = 60\<rparr> chat_engine"
  using tool_files_unchanged [of "''hi''" chat_engine chat demo_caller
      "\<lparr>pi_server = ''db'', pi_path = ''/tmp/a'', pi_content = [], pi_content_base64 = True, pi_mode = [], pi_ttl_seconds = 60\<rparr>"]
  by (simp add: file_transfer_max_bytes_def chat_engine_def demo_engine_def demo_config_def)

end
