(* ===== verification/Http_Frontend.thy ===== *)
theory Http_Frontend
  imports Oidc Mcp_Guarantees Caller_Auth
begin

text \<open>
  The frontends of the broker, \<open>internal/brokermain\<close>: who the caller of a request is, over stdio and for a bearer token (\<open>mcp.go\<close>, \<open>mcphttp.go\<close>), and
  \<open>/v1/ssh_run\<close> with its classification of errors (\<open>http.go\<close>). A body that does not decode within its limit is \<^term>\<open>None\<close>; the texts of errors are an argument.
\<close>

section \<open>Callers\<close>

definition stdio_caller :: broker_caller where
  "stdio_caller = \<lparr>bk_id = ''mcp-stdio'', bk_groups = None, bk_raw_token = [], bk_context = []\<rparr>"

definition http_caller :: "token_info option \<Rightarrow> broker_caller" where
  "http_caller ti =
     (case ti of
        None \<Rightarrow> \<lparr>bk_id = [], bk_groups = None, bk_raw_token = [], bk_context = []\<rparr>
      | Some ti \<Rightarrow> \<lparr>bk_id = ti_user_id ti, bk_groups = ti_groups ti, bk_raw_token = ti_raw_token ti, bk_context = ti_context ti\<rparr>)"

section \<open>Errors\<close>

text \<open>Errors that wrap another one with \<open>%w\<close>; an upstream failure keeps only the text of its cause.\<close>

fun unwrap_error :: "broker_error \<Rightarrow> broker_error" where
  "unwrap_error (ConnectivityPreflight e) = unwrap_error e"
| "unwrap_error (BastionPreflight e) = unwrap_error e"
| "unwrap_error (BastionPreflightFor n e) = unwrap_error e"
| "unwrap_error (PolicyPreflight e) = unwrap_error e"
| "unwrap_error e = e"

definition is_bad_request :: "broker_error \<Rightarrow> bool" where
  "is_bad_request x = (case unwrap_error x of
     CommandRequired \<Rightarrow> True | PathRequired \<Rightarrow> True | PathHasNul \<Rightarrow> True | PathHasNewline \<Rightarrow> True | PathUnsafe \<Rightarrow> True | ContentTooLarge n m \<Rightarrow> True
   | InvalidFileMode m \<Rightarrow> True | FileTooLarge n \<Rightarrow> True | PTYTooLong n \<Rightarrow> True | PTYControlByte b \<Rightarrow> True | _ \<Rightarrow> False)"

definition is_unknown_host :: "broker_error \<Rightarrow> bool" where
  "is_unknown_host x = (case unwrap_error x of HostUnknown h \<Rightarrow> True | _ \<Rightarrow> False)"

definition is_remote_command :: "broker_error \<Rightarrow> bool" where
  "is_remote_command x = (case unwrap_error x of RemoteWriteFailed n t \<Rightarrow> True | RemoteReadFailed n t \<Rightarrow> True | _ \<Rightarrow> False)"

definition rate_limited_by :: "broker_error \<Rightarrow> string option" where
  "rate_limited_by x = (case unwrap_error x of
     SigningCert n (SignRateLimited t) \<Rightarrow> Some t | SigningFailure (SignRateLimited t) \<Rightarrow> Some t | _ \<Rightarrow> None)"

definition classify_error :: "(broker_error \<Rightarrow> string) \<Rightarrow> broker_error \<Rightarrow> nat \<times> string" where
  "classify_error render x =
     (if is_bad_request x then (400, render x)
      else if is_unknown_host x then (404, render x)
      else if is_upstream x then (502, ''upstream failure'')
      else if is_remote_command x then (502, render x)
      else if unwrap_error x = AuditUnavailable then (500, ''audit unavailable'')
      else if rate_limited_by x \<noteq> None then (429, render x)
      else (403, render x))"

section \<open>The endpoint \<open>/v1/ssh_run\<close>\<close>

record run_request =
  rr_host :: string
  rr_command :: string
  rr_ttl_seconds :: int
  rr_sudo :: bool
  rr_sudo_user :: string
  rr_pty :: bool

record run_response =
  rp_stdout :: string
  rp_stderr :: string
  rp_exit_code :: int
  rp_serial :: "64 word"
  rp_warnings :: "string list"

text \<open>The answer of a handler: a status with its text and the \<open>Retry-After\<close> header, or the result. The hint of the signer is found from the text of its answer.\<close>

datatype run_reply = SshRunError nat string string | SshRunDone run_response

record run_env =
  re_broker :: broker_env
  re_text :: "broker_error \<Rightarrow> string"
  re_input_text :: "input_error \<Rightarrow> string"
  re_retry_after :: "string \<Rightarrow> string"

definition ssh_run :: "run_env \<Rightarrow> bool \<Rightarrow> peer_certificate option \<Rightarrow> run_request option \<Rightarrow> engine \<Rightarrow> run_reply \<times> engine" where
  "ssh_run R post peer body e =
     (if \<not> post then (SshRunError 405 ''method not allowed'' [], e)
      else case caller_cn peer of
        None \<Rightarrow> (SshRunError 401 ''unauthenticated'' [], e)
      | Some caller \<Rightarrow>
          (case body of
             None \<Rightarrow> (SshRunError 400 ''invalid request'' [], e)
           | Some req \<Rightarrow>
               (case validate_input [(''server'', rr_host req), (''command'', rr_command req), (''sudo_user'', rr_sudo_user req)] of
                  Some x \<Rightarrow> (SshRunError 400 (re_input_text R x) [], e)
                | None \<Rightarrow>
                    (case broker_execute (re_broker R) \<lparr>bk_id = caller, bk_groups = None, bk_raw_token = [], bk_context = []\<rparr> (rr_host req) (rr_command req)
                            (rr_ttl_seconds req) (no_options\<lparr>xo_sudo := rr_sudo req, xo_sudo_user := rr_sudo_user req, xo_pty := rr_pty req\<rparr>) e of
                       (Inl x, e) \<Rightarrow>
                         (case classify_error (re_text R) x of
                            (status, msg) \<Rightarrow>
                              (SshRunError status msg (if status = 429 then (case rate_limited_by x of None \<Rightarrow> [] | Some t \<Rightarrow> re_retry_after R t) else []), e))
                     | (Inr res, e) \<Rightarrow>
                         (SshRunDone \<lparr>rp_stdout = bq_stdout res, rp_stderr = bq_stderr res, rp_exit_code = bq_exit_code res, rp_serial = bq_serial res,
                            rp_warnings = bq_warnings res\<rparr>, e)))))"

section \<open>The identity behind a request\<close>

definition safe_identity :: "broker_caller \<Rightarrow> bool" where
  "safe_identity c \<longleftrightarrow> \<not> has_unsafe_token_char (bk_id c) \<and> \<not> list_ex has_unsafe_token_char (case bk_groups c of None \<Rightarrow> [] | Some gs \<Rightarrow> gs)
     \<and> \<not> has_unsafe_token_char (bk_context c)"

text \<open>
  C26: The frontend and the signer see the same user behind a token. Where both are configured alike, the signer accepts the end user of a request of a caller that must present verified end users exactly
  when the frontend accepts the same token with the required scopes, its names are safe in records, and no groups are asserted that the token does not give; the
  user, the groups and the context it then signs for are those the frontend derived, whatever the request claimed.
\<close>

theorem frontend_and_signer_agree:
  assumes "may_require_verified_end_user (sv_callers s) caller" and "sv_end_user_verifier s = Some (end_user_check W v)"
  shows "rederive_end_user s caller req = Inr req' \<longleftrightarrow>
    (\<exists>ti. verify_token W v (wr_bearer_token req) = Inr ti \<and> wr_bearer_token req \<noteq> [] \<and> set (vf_required_scopes v) \<subseteq> set (ti_scopes ti)
       \<and> safe_identity (http_caller (Some ti)) \<and> (bk_groups (http_caller (Some ti)) = None \<longrightarrow> wr_end_user_groups req = None)
       \<and> req' = req\<lparr>wr_end_user := bk_id (http_caller (Some ti)), wr_end_user_groups := bk_groups (http_caller (Some ti)),
                    wr_end_user_context := bk_context (http_caller (Some ti))\<rparr>)"
proof -
  have "end_user_check W v token = (case verify_token W v token of Inl e \<Rightarrow> None | Inr ti \<Rightarrow>
      (if set (vf_required_scopes v) \<subseteq> set (ti_scopes ti) then Some \<lparr>id_user = ti_user_id ti, id_groups = ti_groups ti, id_context = ti_context ti\<rparr> else None))" for token
    unfolding find_missing [symmetric] by (auto simp: end_user_check_def verify_end_user_def split: sum.split option.split)
  then show ?thesis using assms
    by (auto simp: rederive_end_user_def http_caller_def safe_identity_def simp del: list_ex_iff split: sum.splits option.splits if_splits)
qed

theorem frontend_and_signer_agree_witness:
  "rederive_end_user service_demo ''b1'' service_request = Inr (service_request\<lparr>wr_end_user := ''ann'', wr_end_user_groups := None, wr_end_user_context := []\<rparr>)"
proof -
  have m: "may_require_verified_end_user (sv_callers service_demo) ''b1''" "sv_end_user_verifier service_demo = Some (end_user_check demo_oidc_env demo_verifier)"
    by (simp_all add: may_require_verified_end_user_def service_demo_def demo_check)
  have "token_info_of demo_verifier t 0 ann_claims = \<lparr>ti_scopes = [''exec''], ti_expiration = 0, ti_user_id = ''ann'', ti_groups = None, ti_raw_token = t, ti_context = []\<rparr>" for t
    by (simp add: token_info_of_def demo_scopes) (simp add: demo_verifier_def string_claim_def ann_claims_def)
  moreover have "safe_identity \<lparr>bk_id = ''ann'', bk_groups = None, bk_raw_token = t, bk_context = []\<rparr>" for t
    by (simp add: safe_identity_def) code_simp
  moreover have scopes: "vf_required_scopes demo_verifier = [''exec'']" by (simp add: demo_verifier_def)
  ultimately show ?thesis
    unfolding frontend_and_signer_agree [OF m]
    by (simp add: demo_token http_caller_def service_request_def scopes)
qed

section \<open>The endpoint\<close>

text \<open>
  \<open>/v1/ssh_run\<close> runs a command only for an authenticated peer, under the name of its certificate, and never with an approval; what it sends is the command of the request, to
  its host, over hops the signer certified for it. The cause of an upstream failure has no influence on the answer.
\<close>

theorem ssh_run_for_peer:
  assumes "ssh_run R post peer body e = (r, e')" and "cache_ok (re_broker R) e"
  shows "(be_sent e' = be_sent e \<or> (\<exists>caller req chain hops. post \<and> caller_cn peer = Some caller \<and> body = Some req
       \<and> be_sent e' = be_sent e @ [\<lparr>st_host = rr_host req, st_hops = hops, st_command = rr_command req\<rparr>]
       \<and> chain_certified (re_broker R) (\<lambda>n target pub. oneshot_intent \<lparr>bk_id = caller, bk_groups = None, bk_raw_token = [], bk_context = []\<rparr> n
            (ttl_for e (rr_ttl_seconds req)) PurposeOneshot pub (rr_command req)
            (no_options\<lparr>xo_sudo := rr_sudo req, xo_sudo_user := rr_sudo_user req, xo_pty := rr_pty req\<rparr>) target) e' chain hops))
    \<and> (\<forall>render. (\<forall>x. \<not> is_upstream x \<longrightarrow> render x = re_text R x) \<longrightarrow> ssh_run (R\<lparr>re_text := render\<rparr>) post peer body e = (r, e'))"
proof -
  have u: "classify_error render x = classify_error (re_text R) x" if "\<forall>x. \<not> is_upstream x \<longrightarrow> render x = re_text R x" for render x
  proof -
    have up: "is_upstream y = is_upstream (unwrap_error y)" for y by (induction y rule: unwrap_error.induct) simp_all
    have "\<not> is_upstream x" if "is_bad_request x \<or> is_unknown_host x"
      using that up [of x] by (auto simp: is_bad_request_def is_unknown_host_def split: broker_error.splits)
    then show ?thesis using that by (auto simp: classify_error_def)
  qed
  have "ssh_run (R\<lparr>re_text := render\<rparr>) post peer body e = ssh_run R post peer body e" if "\<forall>x. \<not> is_upstream x \<longrightarrow> render x = re_text R x" for render
    by (cases R) (use u [OF that] in \<open>simp only: ssh_run_def run_env.simps\<close>)
  then have "\<forall>render. (\<forall>x. \<not> is_upstream x \<longrightarrow> render x = re_text R x) \<longrightarrow> ssh_run (R\<lparr>re_text := render\<rparr>) post peer body e = (r, e')"
    using assms(1) by simp
  moreover have "be_sent e' = be_sent e \<or> (\<exists>caller req chain hops. post \<and> caller_cn peer = Some caller \<and> body = Some req
       \<and> be_sent e' = be_sent e @ [\<lparr>st_host = rr_host req, st_hops = hops, st_command = rr_command req\<rparr>]
       \<and> chain_certified (re_broker R) (\<lambda>n target pub. oneshot_intent \<lparr>bk_id = caller, bk_groups = None, bk_raw_token = [], bk_context = []\<rparr> n
            (ttl_for e (rr_ttl_seconds req)) PurposeOneshot pub (rr_command req)
            (no_options\<lparr>xo_sudo := rr_sudo req, xo_sudo_user := rr_sudo_user req, xo_pty := rr_pty req\<rparr>) target) e' chain hops)"
  proof (cases "be_sent e' = be_sent e")
    case False
    then obtain caller req r1 where x: "post" "caller_cn peer = Some caller" "body = Some req"
      "broker_execute (re_broker R) \<lparr>bk_id = caller, bk_groups = None, bk_raw_token = [], bk_context = []\<rparr> (rr_host req) (rr_command req)
         (rr_ttl_seconds req) (no_options\<lparr>xo_sudo := rr_sudo req, xo_sudo_user := rr_sudo_user req, xo_pty := rr_pty req\<rparr>) e = (r1, e')"
      using assms(1) by (auto simp: ssh_run_def split: if_splits option.splits prod.splits sum.splits)
    then show ?thesis using command_only_certified [OF x(4) assms(2)] False by blast
  qed simp
  ultimately show ?thesis by blast
qed

end
