(* ===== verification/Notifier.thy ===== *)
theory Notifier
  imports Json Approval
begin

text \<open>
  What approvers are told, \<open>internal/control/notifier.go\<close> and \<open>teams.go\<close>: the line of the log, the cards for Teams, and how a long command is shown. Formatting of a time and
  quoting with \<open>%q\<close> are arguments; sending is the answer of the web hook, by its status.
\<close>

section \<open>Commands\<close>

abbreviation slack_command_max :: nat where "slack_command_max \<equiv> 2000"
abbreviation teams_command_max :: nat where "teams_command_max \<equiv> 8000"

definition starts_rune :: "char \<Rightarrow> bool" where
  "starts_rune c \<longleftrightarrow> \<not> (128 \<le> (of_char c :: nat) \<and> (of_char c :: nat) < 192)"

fun rune_cut :: "string \<Rightarrow> nat \<Rightarrow> nat" where
  "rune_cut s 0 = 0"
| "rune_cut s (Suc n) = (if starts_rune (s ! Suc n) then Suc n else rune_cut s n)"

definition presented_command :: "string \<Rightarrow> nat \<Rightarrow> string" where
  "presented_command cmd n =
     (if length cmd \<le> n then cmd
      else take (rune_cut cmd n) cmd @ '' ... [truncated: '' @ nat_decimal (length cmd) @ '' bytes total; full command in /ui/approvals/<id>]'')"

section \<open>The log\<close>

definition sudo_target :: "approval \<Rightarrow> string" where
  "sudo_target a = (if ap_sudo_user a = [] then ''root'' else ap_sudo_user a)"

definition log_notification :: "(string \<Rightarrow> string) \<Rightarrow> approval \<Rightarrow> string" where
  "log_notification quoted a =
     ''[approval] PENDING id='' @ ap_id a @ '' caller='' @ ap_caller a
     @ '' user='' @ (if ap_end_user a = [] \<and> ap_end_user_stripped a then ''(stripped)'' else ap_end_user a)
     @ '' '' @ (if target_label a = ''Cluster'' then ''cluster'' else ''host'') @ ''='' @ ap_host a
     @ '' cmd='' @ quoted (ap_command a) @ '' elevation='' @ (if ap_sudo a then ''sudo:'' @ sudo_target a else ''none'') @ '' rule='' @ ap_rule a"

section \<open>Web hooks\<close>

datatype notify_error = SendFailed | HookStatus int

text \<open>The answer of the web hook, \<^term>\<open>None\<close> where none came; redirects are not followed.\<close>

definition hook_result :: "int option \<Rightarrow> notify_error option" where
  "hook_result status = (case status of None \<Rightarrow> Some SendFailed | Some n \<Rightarrow> (if 300 \<le> n then Some (HookStatus n) else None))"

section \<open>Teams\<close>

abbreviation TeamsFormatWorkflow :: string where "TeamsFormatWorkflow \<equiv> ''workflow''"
abbreviation TeamsFormatAdaptiveCard :: string where "TeamsFormatAdaptiveCard \<equiv> ''adaptivecard''"
abbreviation TeamsFormatMessageCard :: string where "TeamsFormatMessageCard \<equiv> ''messagecard''"

record teams_notifier =
  tn_url :: string
  tn_format :: string
  tn_approval_url_template :: string

definition new_teams_notifier :: "string \<Rightarrow> string \<Rightarrow> string \<Rightarrow> teams_notifier" where
  "new_teams_notifier url format template = \<lparr>tn_url = url,
     tn_format = (if format = [] \<or> format = TeamsFormatAdaptiveCard then TeamsFormatWorkflow else format), tn_approval_url_template = template\<rparr>"

definition render_url :: "teams_notifier \<Rightarrow> string \<Rightarrow> string" where
  "render_url t aid = (if tn_approval_url_template t = [] then [] else replace_all ''{id}'' aid (tn_approval_url_template t))"

abbreviation backslash_char :: char where "backslash_char \<equiv> CHR 92"

definition markdown_special :: "char list" where
  "markdown_special = [backslash_char, CHR 96, CHR ''*'', CHR ''_'', CHR ''['', CHR '']'', CHR ''('', CHR '')'', CHR ''#'', CHR ''~'', CHR ''>'', CHR ''|'']"

definition teams_escape :: "string \<Rightarrow> string" where
  "teams_escape s = concat (map (\<lambda>c. if c \<in> set markdown_special then [backslash_char, c] else [c]) s)"

text \<open>The arrow of the elevation in UTF-8.\<close>

definition arrow :: string where "arrow = '' '' @ [CHR 0xE2, CHR 0x86, CHR 0x92] @ '' ''"

definition approval_facts :: "(go_time \<Rightarrow> string) \<Rightarrow> approval \<Rightarrow> (string \<times> string) list" where
  "approval_facts rfc3339 a =
     filter (\<lambda>(k, v). v \<noteq> [])
      ([(''Approval ID'', ap_id a), (''Status'', ap_status a), (''Created'', rfc3339 (ap_created_at a)), (target_label a, ap_host a),
        (''Command'', presented_command (ap_command a) teams_command_max), (''Caller (broker)'', ap_caller a)]
       @ (if ap_end_user a \<noteq> [] then [(''End user'', ap_end_user a)]
          else if ap_end_user_stripped a then [(''End user'', ''(asserted by an untrusted broker, dropped)'')] else [])
       @ (if ap_sudo a then [(''Elevation'', ''sudo'' @ arrow @ sudo_target a)] else [])
       @ (if ap_rule a \<noteq> [] then [(''Policy rule'', ap_rule a)] else []))"

definition json_facts :: "(string \<times> string) list \<Rightarrow> json" where
  "json_facts facts = JArr (map (\<lambda>(k, v). JObj [(''name'', JStr k), (''value'', JStr v)]) facts)"

definition card_title :: string where
  "card_title = ''infrabroker '' @ [CHR 0xE2, CHR 0x80, CHR 0x94] @ '' Approval Required''"

definition build_adaptive_card :: "(go_time \<Rightarrow> string) \<Rightarrow> teams_notifier \<Rightarrow> approval \<Rightarrow> json" where
  "build_adaptive_card rfc3339 t a =
     JObj ([(''$schema'', JStr ''http://adaptivecards.io/schemas/adaptive-card.json''), (''type'', JStr ''AdaptiveCard''), (''version'', JStr ''1.4''),
            (''body'', JArr
              [JObj [(''type'', JStr ''TextBlock''), (''size'', JStr ''Medium''), (''weight'', JStr ''Bolder''), (''text'', JStr card_title),
                     (''color'', JStr ''Warning''), (''wrap'', JBool True)],
               JObj [(''type'', JStr ''TextBlock''), (''text'', JStr ''An AI agent action is waiting for human approval before a certificate is issued.''),
                     (''wrap'', JBool True)],
               JObj [(''type'', JStr ''FactSet''), (''facts'', json_facts (map (\<lambda>(k, v). (k, teams_escape v)) (approval_facts rfc3339 a)))]])]
       @ (if render_url t (ap_id a) \<noteq> []
          then [(''actions'', JArr [JObj [(''type'', JStr ''Action.OpenUrl''), (''title'', JStr ''View request''), (''url'', JStr (render_url t (ap_id a)))]])] else []))"

definition build_workflow_envelope :: "(go_time \<Rightarrow> string) \<Rightarrow> teams_notifier \<Rightarrow> approval \<Rightarrow> json" where
  "build_workflow_envelope rfc3339 t a = JObj [(''type'', JStr ''message''), (''attachments'', JArr
     [JObj [(''contentType'', JStr ''application/vnd.microsoft.card.adaptive''), (''contentUrl'', JNull), (''content'', build_adaptive_card rfc3339 t a)]])]"

definition build_message_card :: "(go_time \<Rightarrow> string) \<Rightarrow> teams_notifier \<Rightarrow> approval \<Rightarrow> json" where
  "build_message_card rfc3339 t a =
     JObj ([(''@type'', JStr ''MessageCard''), (''@context'', JStr ''http://schema.org/extensions''), (''themeColor'', JStr ''FFA500''),
            (''summary'', JStr (''Approval required: '' @ presented_command (ap_command a) teams_command_max @ '' on '' @ ap_host a)),
            (''sections'', JArr [JObj [(''activityTitle'', JStr card_title), (''activitySubtitle'', JStr ''An AI agent action is waiting for human approval.''),
               (''facts'', json_facts (approval_facts rfc3339 a)), (''markdown'', JBool False)]])]
       @ (if render_url t (ap_id a) \<noteq> []
          then [(''potentialAction'', JArr [JObj [(''@type'', JStr ''OpenUri''), (''name'', JStr ''View request''),
            (''targets'', JArr [JObj [(''os'', JStr ''default''), (''uri'', JStr (render_url t (ap_id a)))]])]])] else []))"

definition teams_payload :: "(go_time \<Rightarrow> string) \<Rightarrow> teams_notifier \<Rightarrow> approval \<Rightarrow> json" where
  "teams_payload rfc3339 t a = (if tn_format t = TeamsFormatMessageCard then build_message_card rfc3339 t a else build_workflow_envelope rfc3339 t a)"

section \<open>What an approver reads\<close>

text \<open>Markdown as plain text: an escaped character is itself, and \<^term>\<open>None\<close> where one that can open a link or formatting stands unescaped.\<close>

fun markdown_plain :: "string \<Rightarrow> string option" where
  "markdown_plain [] = Some []"
| "markdown_plain (c # s) =
     (if c = backslash_char then (case s of d # t \<Rightarrow> map_option ((#) d) (markdown_plain t) | [] \<Rightarrow> None)
      else if c \<in> set markdown_special then None else map_option ((#) c) (markdown_plain s))"

lemma teams_escape_plain: "markdown_plain (teams_escape s) = Some s"
proof (induction s)
  case (Cons c s)
  have "teams_escape (c # s) = (if c \<in> set markdown_special then [backslash_char, c] else [c]) @ teams_escape s" by (simp add: teams_escape_def)
  moreover have "backslash_char \<in> set markdown_special" by (simp add: markdown_special_def)
  ultimately show ?case using Cons.IH by auto
qed (simp add: teams_escape_def)

lemma rune_cut_le: "rune_cut s n \<le> n"
  by (induction s n rule: rune_cut.induct) auto

lemma rune_cut_start: "rune_cut s n = 0 \<or> starts_rune (s ! rune_cut s n)"
  by (induction s n rule: rune_cut.induct) auto

lemma presented_long:
  assumes "n < length cmd"
  shows "\<exists>k \<le> n. presented_command cmd n = take k cmd @ '' ... [truncated: '' @ nat_decimal (length cmd) @ '' bytes total; full command in /ui/approvals/<id>]''
    \<and> (k = 0 \<or> starts_rune (cmd ! k))"
  using assms rune_cut_le [of cmd n] rune_cut_start [of cmd n] by (auto simp: presented_command_def)

end
