(* ===== verification/Bridge.thy ===== *)
theory Bridge
  imports Notifier Redact
begin

text \<open>
  The approval bridge, \<open>internal/bridge/bridge.go\<close> and the Slack adapter \<open>slack.go\<close>: pending approvals become cards in a chat, clicks on them become decisions at the control plane.
  The listing a poll gets, whether the platform takes a card and whether the control plane takes a decision are inputs of the events; \<open>Run\<close> handles one event at a time. Unicode
  case mapping is an argument.
\<close>

section \<open>The relay\<close>

record chat_decision =
  cd_id :: string
  cd_approve :: bool
  cd_by :: string

record bridge_env =
  bn_redact :: redact_lib
  bn_rules :: "redact_rule list option"
  bn_upper :: "string \<Rightarrow> string"
  bn_equal_fold :: "string \<Rightarrow> string \<Rightarrow> bool"

record bridge =
  br_posted :: "string list"
  br_origins :: "(string, string) go_map"
  br_identity :: "(string, string) go_map"

definition new_bridge :: "(string, string) go_map \<Rightarrow> bridge" where
  "new_bridge identity_map = \<lparr>br_posted = [], br_origins = [], br_identity = identity_map\<rparr>"

definition redacted_card :: "bridge_env \<Rightarrow> approval \<Rightarrow> approval" where
  "redacted_card N a = a\<lparr>ap_command := redact (bn_redact N) (bn_rules N) (ap_command a)\<rparr>"

text \<open>One round of the loop of \<open>poll\<close>, with the cards that were presented.\<close>

definition poll_one :: "bridge_env \<Rightarrow> (approval \<Rightarrow> bool) \<Rightarrow> approval \<Rightarrow> approval list \<times> bridge \<Rightarrow> approval list \<times> bridge" where
  "poll_one N post a = (\<lambda>(cards, b).
     let b = b\<lparr>br_origins := AList.update (ap_id a) (ap_end_user a) (br_origins b)\<rparr> in
     if ap_status a \<noteq> StatusPending then (cards, b)
     else if ap_id a \<in> set (br_posted b) then (cards, b)
     else if post (redacted_card N a) then (cards @ [redacted_card N a], b\<lparr>br_posted := ap_id a # br_posted b\<rparr>)
     else (cards, b))"

definition forget_gone :: "string list \<Rightarrow> bridge \<Rightarrow> bridge" where
  "forget_gone live b = b\<lparr>br_posted := filter (\<lambda>i. i \<in> set live) (br_posted b), br_origins := map_keep (\<lambda>i u. i \<in> set live) (br_origins b)\<rparr>"

definition bridge_poll :: "bridge_env \<Rightarrow> (approval \<Rightarrow> bool) \<Rightarrow> approval list option \<Rightarrow> bridge \<Rightarrow> approval list \<times> bridge" where
  "bridge_poll N post listing b =
     (case listing of
        None \<Rightarrow> ([], b)
      | Some as \<Rightarrow> (case fold (poll_one N post) as ([], b) of (cards, b) \<Rightarrow> (cards, forget_gone (map ap_id as) b)))"

definition is_self_approval :: "bridge_env \<Rightarrow> bridge \<Rightarrow> chat_decision \<Rightarrow> bool" where
  "is_self_approval N b d =
     (if br_identity b = [] then False
      else
        let clicker = (case map_of (br_identity b) (bn_upper N (cd_by d)) of None \<Rightarrow> [] | Some u \<Rightarrow> u);
            origin = (case map_of (br_origins b) (cd_id d) of None \<Rightarrow> [] | Some u \<Rightarrow> u)
        in clicker \<noteq> [] \<and> origin \<noteq> [] \<and> bn_equal_fold N clicker origin)"

text \<open>A decision of the adapter: whether it was sent to the control plane, and the state after its answer.\<close>

definition relay_decision :: "bridge_env \<Rightarrow> bool \<Rightarrow> chat_decision \<Rightarrow> bridge \<Rightarrow> bool \<times> bridge" where
  "relay_decision N accepted d b =
     (if cd_approve d \<and> is_self_approval N b d then (False, b)
      else if \<not> accepted then (True, b)
      else (True, b\<lparr>br_posted := removeAll (cd_id d) (br_posted b), br_origins := AList.delete (cd_id d) (br_origins b)\<rparr>))"

datatype bridge_event = Tick "approval list option" "approval \<Rightarrow> bool" | Click chat_decision bool

text \<open>\<open>Run\<close> with what it did: the cards it presented and the decisions it sent, with the answer of the control plane.\<close>

record bridge_log =
  bl_cards :: "approval list"
  bl_sent :: "(chat_decision \<times> bool) list"

definition bridge_handle :: "bridge_env \<Rightarrow> bridge_event \<Rightarrow> bridge \<times> bridge_log \<Rightarrow> bridge \<times> bridge_log" where
  "bridge_handle N ev = (\<lambda>(b, l).
     case ev of
       Tick listing post \<Rightarrow> (case bridge_poll N post listing b of (cards, b) \<Rightarrow> (b, l\<lparr>bl_cards := bl_cards l @ cards\<rparr>))
     | Click d accepted \<Rightarrow>
         (case relay_decision N accepted d b of (sent, b) \<Rightarrow> (b, if sent then l\<lparr>bl_sent := bl_sent l @ [(d, accepted)]\<rparr> else l)))"

definition bridge_run :: "bridge_env \<Rightarrow> (string, string) go_map \<Rightarrow> bridge_event list \<Rightarrow> bridge \<times> bridge_log" where
  "bridge_run N identity_map evs = fold (bridge_handle N) evs (new_bridge identity_map, \<lparr>bl_cards = [], bl_sent = []\<rparr>)"

section \<open>The Slack adapter\<close>

record slack_adapter =
  sl_connected :: bool
  sl_stopped :: bool
  sl_decisions :: "chat_decision list"

abbreviation action_approve :: string where "action_approve \<equiv> ''infrabroker_approve''"
abbreviation action_deny :: string where "action_deny \<equiv> ''infrabroker_deny''"

text \<open>Events of the socket; a click carries the user and the actions with their values, where it is one of blocks.\<close>

datatype slack_event =
    SlackConnected
  | SlackConnecting "nat option"
  | SlackConnectionError
  | SlackInvalidAuth
  | SlackInteractive "(bool \<times> string \<times> (string \<times> string) list) option"
  | SlackOther

text \<open>\<open>sendDecision\<close>: \<^term>\<open>None\<close> where it has to wait for room in the channel.\<close>

definition send_decision :: "chat_decision \<Rightarrow> slack_adapter \<Rightarrow> slack_adapter option" where
  "send_decision d s =
     (if sl_stopped s then Some s
      else if length (sl_decisions s) < 32 then Some (s\<lparr>sl_decisions := sl_decisions s @ [d]\<rparr>)
      else None)"

fun send_clicks :: "string \<Rightarrow> (string \<times> string) list \<Rightarrow> slack_adapter \<Rightarrow> slack_adapter option" where
  "send_clicks user [] s = Some s"
| "send_clicks user ((action, v) # acts) s =
     (if action = action_approve then (case send_decision \<lparr>cd_id = v, cd_approve = True, cd_by = user\<rparr> s of None \<Rightarrow> None | Some s \<Rightarrow> send_clicks user acts s)
      else if action = action_deny then (case send_decision \<lparr>cd_id = v, cd_approve = False, cd_by = user\<rparr> s of None \<Rightarrow> None | Some s \<Rightarrow> send_clicks user acts s)
      else send_clicks user acts s)"

definition slack_handle :: "slack_event \<Rightarrow> slack_adapter \<Rightarrow> slack_adapter option" where
  "slack_handle ev s =
     (case ev of
        SlackConnected \<Rightarrow> Some (s\<lparr>sl_connected := True\<rparr>)
      | SlackConnecting count \<Rightarrow> Some (case count of Some n \<Rightarrow> (if 0 < n then s\<lparr>sl_connected := False\<rparr> else s) | None \<Rightarrow> s)
      | SlackConnectionError \<Rightarrow> Some (s\<lparr>sl_connected := False\<rparr>)
      | SlackInvalidAuth \<Rightarrow> Some (s\<lparr>sl_connected := False\<rparr>)
      | SlackOther \<Rightarrow> Some s
      | SlackInteractive None \<Rightarrow> Some s
      | SlackInteractive (Some (blocks, user, acts)) \<Rightarrow> (if blocks then send_clicks user acts s else Some s))"

definition slack_stop :: "slack_adapter \<Rightarrow> slack_adapter" where
  "slack_stop s = s\<lparr>sl_stopped := True\<rparr>"

text \<open>The end of the socket loop.\<close>

definition slack_run_exited :: "slack_adapter \<Rightarrow> slack_adapter" where
  "slack_run_exited s = slack_stop (s\<lparr>sl_connected := False\<rparr>)"

text \<open>The card: text without markup, and the buttons with the identifier of the request.\<close>

record slack_card =
  sk_header :: string
  sk_text :: string
  sk_approve :: "string \<times> string"
  sk_deny :: "string \<times> string"
  sk_block :: string

definition middot :: string where "middot = '' '' @ [CHR 0xC2, CHR 0xB7] @ '' ''"

definition build_approval_blocks :: "approval \<Rightarrow> slack_card" where
  "build_approval_blocks a = \<lparr>sk_header = ''*Approval requested*'',
     sk_text = ''run '' @ presented_command (ap_command a) slack_command_max @ '' on ''
       @ (if target_label a = ''Cluster'' then ''cluster '' @ ap_host a else ap_host a) @ [CHR 10] @ ''caller '' @ ap_caller a
       @ (if ap_end_user a \<noteq> [] then middot @ ''user '' @ ap_end_user a
          else if ap_end_user_stripped a then middot @ ''user (asserted by an untrusted broker, dropped)'' else [])
       @ (if ap_sudo a then middot @ ''sudo'' @ arrow @ sudo_target a else [])
       @ (if ap_rule a \<noteq> [] then middot @ ''rule '' @ ap_rule a else []),
     sk_approve = (action_approve, ap_id a), sk_deny = (action_deny, ap_id a), sk_block = ''infrabroker_'' @ ap_id a\<rparr>"

definition slack_post :: "bool \<Rightarrow> approval \<Rightarrow> slack_adapter \<Rightarrow> slack_card option \<times> bool" where
  "slack_post api_ok a s = (if \<not> sl_connected s then (None, False) else (Some (build_approval_blocks a), api_ok))"

section \<open>Origins\<close>

lemma poll_one_origins:
  "br_origins (snd (poll_one N post a st)) = AList.update (ap_id a) (ap_end_user a) (br_origins (snd st))" "br_identity (snd (poll_one N post a st)) = br_identity (snd st)"
  by (simp_all add: poll_one_def Let_def split: prod.split)

lemma poll_fold_other:
  "i \<notin> set (map ap_id as) \<Longrightarrow> map_of (br_origins (snd (fold (poll_one N post) as st))) i = map_of (br_origins (snd st)) i"
  by (induction as arbitrary: st) (simp_all add: poll_one_origins update_conv')

lemma poll_fold_identity: "br_identity (snd (fold (poll_one N post) as st)) = br_identity (snd st)"
  by (induction as arbitrary: st) (simp_all add: poll_one_origins)

lemma poll_fold_listed:
  "a \<in> set as \<Longrightarrow> distinct (map ap_id as) \<Longrightarrow> map_of (br_origins (snd (fold (poll_one N post) as st))) (ap_id a) = Some (ap_end_user a)"
proof (induction as arbitrary: st)
  case (Cons x as)
  have one: "map_of (br_origins (snd (poll_one N post x st))) (ap_id x) = Some (ap_end_user x)"
    by (simp add: poll_one_origins update_conv')
  show ?case
  proof (cases "a = x")
    case True
    then show ?thesis using one poll_fold_other [of "ap_id x" as N post "poll_one N post x st"] Cons.prems(2) by simp
  next
    case False
    then show ?thesis using Cons.IH [of "poll_one N post x st"] Cons.prems by simp
  qed
qed simp

lemma map_keep_keys: "map_of (map_keep (\<lambda>i u. P i) m) k = (if P k then map_of m k else None)"
  by (induction m) auto

lemma listed_origin:
  assumes "a \<in> set as" and "distinct (map ap_id as)"
  shows "map_of (br_origins (snd (bridge_poll N post (Some as) b))) (ap_id a) = Some (ap_end_user a)"
  using poll_fold_listed [OF assms, of N post "([], b)"] assms(1)
  by (cases "fold (poll_one N post) as ([], b)") (simp add: bridge_poll_def forget_gone_def map_keep_keys)

lemma poll_identity: "br_identity (snd (bridge_poll N post listing b)) = br_identity b"
  using poll_fold_identity [of N post _ "([], b)"] by (auto simp: bridge_poll_def forget_gone_def split: option.split prod.split) (metis snd_conv)

lemma relay_identity: "br_identity (snd (relay_decision N accepted d b)) = br_identity b"
  by (simp add: relay_decision_def)

lemma handle_identity: "br_identity (fst (bridge_handle N ev st)) = br_identity (fst st)"
proof (cases ev)
  case (Tick listing post)
  then show ?thesis using poll_identity [of N post listing "fst st"] by (auto simp: bridge_handle_def split: prod.splits)
next
  case (Click d accepted)
  then show ?thesis using relay_identity [of N accepted d "fst st"] by (auto simp: bridge_handle_def split: prod.splits)
qed

lemma run_identity: "br_identity (fst (fold (bridge_handle N) evs st)) = br_identity (fst st)"
  by (induction evs arbitrary: st) (simp_all add: handle_identity)

text \<open>Events that keep the origin of a request: no listing arrives, and no decision on it is accepted.\<close>

definition keeps_origin :: "string \<Rightarrow> (chat_decision \<times> bool) list \<Rightarrow> bool" where
  "keeps_origin i sent \<longleftrightarrow> (\<forall>(d, accepted) \<in> set sent. cd_id d = i \<longrightarrow> \<not> accepted)"

lemma handle_keeps:
  assumes "\<forall>listing post. ev = Tick listing post \<longrightarrow> listing = None"
  shows "\<exists>xs. bl_sent (snd (bridge_handle N ev st)) = bl_sent (snd st) @ xs
    \<and> (keeps_origin i xs \<longrightarrow> map_of (br_origins (fst (bridge_handle N ev st))) i = map_of (br_origins (fst st)) i)"
proof (cases ev)
  case (Tick listing post)
  then show ?thesis using assms by (cases st) (auto simp: bridge_handle_def bridge_poll_def)
next
  case (Click d accepted)
  show ?thesis
  proof (cases "fst (relay_decision N accepted d (fst st))")
    case True
    then show ?thesis using Click
      by (intro exI [of _ "[(d, accepted)]"])
        (auto simp: bridge_handle_def relay_decision_def keeps_origin_def delete_conv' split: prod.splits if_splits)
  next
    case False
    then show ?thesis using Click by (intro exI [of _ "[]"]) (auto simp: bridge_handle_def relay_decision_def split: prod.splits if_splits)
  qed
qed

lemma relay_keeps:
  assumes "\<forall>ev \<in> set evs. \<forall>listing post. ev = Tick listing post \<longrightarrow> listing = None"
  shows "\<exists>xs. bl_sent (snd (fold (bridge_handle N) evs st)) = bl_sent (snd st) @ xs
    \<and> (keeps_origin i xs \<longrightarrow> map_of (br_origins (fst (fold (bridge_handle N) evs st))) i = map_of (br_origins (fst st)) i)"
  using assms
proof (induction evs arbitrary: st)
  case (Cons ev evs)
  obtain xs where x: "bl_sent (snd (bridge_handle N ev st)) = bl_sent (snd st) @ xs"
    "keeps_origin i xs \<longrightarrow> map_of (br_origins (fst (bridge_handle N ev st))) i = map_of (br_origins (fst st)) i"
    using handle_keeps [of ev N st i] Cons.prems by auto
  obtain ys where y: "bl_sent (snd (fold (bridge_handle N) evs (bridge_handle N ev st))) = bl_sent (snd (bridge_handle N ev st)) @ ys"
    "keeps_origin i ys \<longrightarrow> map_of (br_origins (fst (fold (bridge_handle N) evs (bridge_handle N ev st)))) i = map_of (br_origins (fst (bridge_handle N ev st))) i"
    using Cons.IH [of "bridge_handle N ev st"] Cons.prems by auto
  have "keeps_origin i (xs @ ys) \<longleftrightarrow> keeps_origin i xs \<and> keeps_origin i ys" by (auto simp: keeps_origin_def)
  then show ?case using x y by (intro exI [of _ "xs @ ys"]) auto
qed simp

text \<open>
  C22: Nobody approves their own request through the chat. After a listing arrived that shows a request with its end user, an approving click of somebody whose chat identity is mapped to that end
  user is not passed on, whatever happens in between, until the next listing or until the control plane takes a decision on the request from the bridge.
\<close>

theorem bridge_four_eyes:
  assumes "a \<in> set as" and "distinct (map ap_id as)" and "cd_id d = ap_id a" and "cd_approve d"
    and "map_of ids (bn_upper N (cd_by d)) = Some u" and "u \<noteq> []" and "ap_end_user a \<noteq> []" and "bn_equal_fold N u (ap_end_user a)"
    and "\<forall>ev \<in> set evs. \<forall>listing post. ev = Tick listing post \<longrightarrow> listing = None"
    and "bl_sent (snd (bridge_run N ids (before @ Tick (Some as) post # evs))) = bl_sent (snd (bridge_run N ids (before @ [Tick (Some as) post]))) @ xs"
    and "\<forall>(d', accepted) \<in> set xs. cd_id d' = ap_id a \<longrightarrow> \<not> accepted"
  shows "bridge_run N ids (before @ Tick (Some as) post # evs @ [Click d accepted]) = bridge_run N ids (before @ Tick (Some as) post # evs)"
proof -
  define st where "st = bridge_run N ids (before @ [Tick (Some as) post])"
  have runs: "bridge_run N ids (before @ Tick (Some as) post # evs) = fold (bridge_handle N) evs st"
    "bridge_run N ids (before @ Tick (Some as) post # evs @ [Click d accepted]) = bridge_handle N (Click d accepted) (fold (bridge_handle N) evs st)"
    by (simp_all add: st_def bridge_run_def)
  have "\<exists>b. fst st = snd (bridge_poll N post (Some as) b)"
    by (auto simp: st_def bridge_run_def bridge_handle_def split: prod.split) (metis snd_conv)
  then have "map_of (br_origins (fst st)) (ap_id a) = Some (ap_end_user a)" using listed_origin [OF assms(1,2)] by auto
  moreover obtain ys where "bl_sent (snd (fold (bridge_handle N) evs st)) = bl_sent (snd st) @ ys"
    "keeps_origin (ap_id a) ys \<longrightarrow> map_of (br_origins (fst (fold (bridge_handle N) evs st))) (ap_id a) = map_of (br_origins (fst st)) (ap_id a)"
    using relay_keeps [OF assms(9)] by blast
  moreover have "br_identity (fst (fold (bridge_handle N) evs st)) = ids" by (simp add: run_identity handle_identity st_def bridge_run_def new_bridge_def)
  ultimately have "is_self_approval N (fst (fold (bridge_handle N) evs st)) d"
    using assms(3,5-8,10,11) by (auto simp: is_self_approval_def runs(1) st_def [symmetric] keeps_origin_def)
  then show ?thesis using assms(4) unfolding runs by (auto simp: bridge_handle_def relay_decision_def split: prod.split)
qed

definition demo_bridge_env :: bridge_env where
  "demo_bridge_env = \<lparr>bn_redact = demo_redact, bn_rules = None, bn_upper = id, bn_equal_fold = (=)\<rparr>"

definition demo_card :: approval where
  "demo_card = new_approval ''r1'' (example_wire_request\<lparr>wr_end_user := ''ann''\<rparr>) ''b1'' None False 0"

definition demo_click :: chat_decision where
  "demo_click = \<lparr>cd_id = ''r1'', cd_approve = True, cd_by = ''U1''\<rparr>"

theorem bridge_four_eyes_witness:
  "bridge_run demo_bridge_env [(''U1'', ''ann'')] [Tick (Some [demo_card]) (\<lambda>_. True), Click demo_click True]
     = bridge_run demo_bridge_env [(''U1'', ''ann'')] [Tick (Some [demo_card]) (\<lambda>_. True)]"
  using bridge_four_eyes [of demo_card "[demo_card]" demo_click "[(''U1'', ''ann'')]" demo_bridge_env "''ann''" "[]" "[]" "\<lambda>_. True" "[]" True]
  by (simp add: demo_card_def demo_click_def demo_bridge_env_def new_approval_def)

text \<open>
  After a start whose first listing fails, the guard knows no origins: an approving click on a card of the previous process is passed on whoever clicked, and whatever the map of identities says.
\<close>

theorem restart_forgets_origins:
  "bl_sent (snd (bridge_run N ids [Tick None post, Click d accepted])) = [(d, accepted)]"
  by (simp add: bridge_run_def bridge_handle_def bridge_poll_def relay_decision_def is_self_approval_def new_bridge_def)

section \<open>Cards\<close>

text \<open>
  What a poll presents: for each card a listed request that is pending and had no card yet, with its command masked; no request twice; and a request has a card from then on until it
  is gone from a listing or decided.
\<close>

lemma poll_fold_cards:
  assumes "fold (poll_one N post) as (cards, b) = (cards', b')"
  shows "\<exists>xs. cards' = cards @ map (redacted_card N) xs \<and> set xs \<subseteq> set as \<and> (\<forall>a \<in> set xs. ap_status a = StatusPending \<and> post (redacted_card N a))
    \<and> distinct (map ap_id xs) \<and> set (map ap_id xs) \<inter> set (br_posted b) = {} \<and> set (br_posted b') = set (br_posted b) \<union> set (map ap_id xs)"
  using assms
proof (induction as arbitrary: cards b)
  case (Cons a as)
  obtain c1 b1 where p: "poll_one N post a (cards, b) = (c1, b1)" by fastforce
  obtain xs where x: "cards' = c1 @ map (redacted_card N) xs" "set xs \<subseteq> set as" "\<forall>a \<in> set xs. ap_status a = StatusPending \<and> post (redacted_card N a)"
    "distinct (map ap_id xs)" "set (map ap_id xs) \<inter> set (br_posted b1) = {}" "set (br_posted b') = set (br_posted b1) \<union> set (map ap_id xs)"
    using Cons.IH [of c1 b1] Cons.prems p by auto
  show ?case
  proof (cases "c1 = cards")
    case True
    then have "br_posted b1 = br_posted b" using p by (auto simp: poll_one_def Let_def split: if_splits)
    then show ?thesis using x True by (intro exI [of _ xs]) auto
  next
    case False
    then have "c1 = cards @ [redacted_card N a]" "br_posted b1 = ap_id a # br_posted b" "ap_id a \<notin> set (br_posted b)" "ap_status a = StatusPending" "post (redacted_card N a)"
      using p by (auto simp: poll_one_def Let_def split: if_splits)
    then show ?thesis using x by (intro exI [of _ "a # xs"]) auto
  qed
qed auto

end
