(* ===== verification/Confcheck.thy ===== *)
theory Confcheck
  imports Json
begin

text \<open>
  Strict configuration files, \<open>internal/confcheck\<close>: no object may have two members with the same name up to case, comment keys are left out of the search for unknown keys, and an edit must
  leave a file that loads. The library that reads and patches JSON with comments is an argument, as is the decoder into a typed value; the layout of inserted text is part of the library's patch here.
\<close>

section \<open>Duplicate keys\<close>

definition escape_pointer :: "string \<Rightarrow> string" where
  "escape_pointer k = concat (map (\<lambda>c. if c = CHR ''~'' then ''~0'' else if c = CHR ''/'' then ''~1'' else [c]) k)"

datatype dup_key = DupKey string string | DupKeyCase string string string

definition dup_place :: "string \<Rightarrow> string" where
  "dup_place path = (if path = [] then ''/'' else path)"

text \<open>\<open>checkDupKeys\<close> on one value, on the members of an object after those that were seen, under their lower-case names, and on the elements of an array from an index on.\<close>

function check_dup_keys :: "(string \<Rightarrow> string) \<Rightarrow> string \<Rightarrow> json \<Rightarrow> dup_key option"
  and check_members :: "(string \<Rightarrow> string) \<Rightarrow> string \<Rightarrow> (string, string) go_map \<Rightarrow> (string, json) go_map \<Rightarrow> dup_key option"
  and check_elements :: "(string \<Rightarrow> string) \<Rightarrow> string \<Rightarrow> nat \<Rightarrow> json list \<Rightarrow> dup_key option" where
  "check_dup_keys lower path j = (case j of JObj ms \<Rightarrow> check_members lower path [] ms | JArr es \<Rightarrow> check_elements lower path 0 es | _ \<Rightarrow> None)"
| "check_members lower path seen [] = None"
| "check_members lower path seen ((k, v) # ms) =
     (case map_of seen (lower k) of
        Some first \<Rightarrow> Some (if first = k then DupKey k (dup_place path) else DupKeyCase k first (dup_place path))
      | None \<Rightarrow>
          (case check_dup_keys lower (path @ ''/'' @ escape_pointer k) v of
             Some e \<Rightarrow> Some e
           | None \<Rightarrow> check_members lower path ((lower k, k) # seen) ms))"
| "check_elements lower path n [] = None"
| "check_elements lower path n (e # es) =
     (case check_dup_keys lower (path @ ''/'' @ nat_decimal n) e of Some x \<Rightarrow> Some x | None \<Rightarrow> check_elements lower path (Suc n) es)"
  by pat_completeness auto
termination
  by (relation "measure (\<lambda>x. case x of Inl (l, p, j) \<Rightarrow> Suc (2 * size j) | Inr (Inl (l, p, s, ms)) \<Rightarrow> 2 * size_list (size_prod (\<lambda>_. 0) size) ms
      | Inr (Inr (l, p, n, es)) \<Rightarrow> 2 * size_list size es)") (auto split: json.splits)

declare check_dup_keys.simps [simp del]

section \<open>Reading\<close>

text \<open>
  The library: JSON with comments as a value, \<^term>\<open>None\<close> where it does not parse; a patch on the text; whether the text has comments or trailing commas; \<open>strings.ToLower\<close>; the folding by which
  the decoder of \<open>encoding/json\<close> compares the name of a member with that of a field, which is not the same; and the decoder into a type, which may ignore members, with the one that refuses
  unknown fields.
\<close>

record 'p json_lib =
  jl_parse :: "string \<Rightarrow> json option"
  jl_patch :: "string \<Rightarrow> 'p \<Rightarrow> string option"
  jl_standard :: "string \<Rightarrow> bool"
  jl_lower :: "string \<Rightarrow> string"
  jl_fold :: "string \<Rightarrow> string"

datatype conf_error = BadJson | DuplicateKey dup_key | DecodeFailed | UnknownField | PatchFailed | Unloadable conf_error

definition standardize :: "'p json_lib \<Rightarrow> string \<Rightarrow> conf_error + json" where
  "standardize L raw =
     (case jl_parse L raw of
        None \<Rightarrow> Inl BadJson
      | Some j \<Rightarrow> (case check_dup_keys (jl_lower L) [] j of Some e \<Rightarrow> Inl (DuplicateKey e) | None \<Rightarrow> Inr j))"

definition patch_config :: "'p json_lib \<Rightarrow> string \<Rightarrow> 'p \<Rightarrow> conf_error + string" where
  "patch_config L raw ops =
     (case standardize L raw of
        Inl e \<Rightarrow> Inl e
      | Inr j \<Rightarrow>
          (case jl_patch L raw ops of
             None \<Rightarrow> Inl PatchFailed
           | Some out \<Rightarrow> (case standardize L out of Inl e \<Rightarrow> Inl (Unloadable e) | Inr j' \<Rightarrow> Inr out)))"

definition has_comments :: "'p json_lib \<Rightarrow> string \<Rightarrow> bool" where
  "has_comments L raw = (case jl_parse L raw of None \<Rightarrow> False | Some j \<Rightarrow> \<not> jl_standard L raw)"

definition conf_unmarshal :: "'p json_lib \<Rightarrow> (json \<Rightarrow> 'a option) \<Rightarrow> string \<Rightarrow> conf_error + 'a" where
  "conf_unmarshal L decode raw =
     (case standardize L raw of Inl e \<Rightarrow> Inl e | Inr j \<Rightarrow> (case decode j of None \<Rightarrow> Inl DecodeFailed | Some v \<Rightarrow> Inr v))"

definition has_suffix :: "string \<Rightarrow> string \<Rightarrow> bool" where
  "has_suffix s x \<longleftrightarrow> (\<exists>p \<in> set (prefixes s). s = p @ x)"

definition is_comment_key :: "string \<Rightarrow> json \<Rightarrow> bool" where
  "is_comment_key k v \<longleftrightarrow>
     (if \<not> has_prefix k ''_'' \<or> k = ''_default'' then False
      else if has_suffix k ''_comment'' \<or> has_suffix k ''_example'' then True
      else (case v of JObj ms \<Rightarrow> False | JArr es \<Rightarrow> False | _ \<Rightarrow> True))"

function strip :: "json \<Rightarrow> json" where
  "strip j = (case j of
     JObj ms \<Rightarrow> JObj (map (\<lambda>(k, v). (k, strip v)) (filter (\<lambda>(k, v). \<not> is_comment_key k v) ms))
   | JArr es \<Rightarrow> JArr (map strip es)
   | _ \<Rightarrow> j)"
  by pat_completeness auto
termination
proof (relation "measure size", goal_cases)
  case (2 j es e)
  then show ?case using size_list_estimation' [of e es "size e" size] by auto
next
  case (3 j ms x k v)
  then show ?case using size_list_estimation' [of "(k, v)" ms "size v" "size_prod (\<lambda>_. 0) size"] by auto
qed simp

declare strip.simps [simp del]

definition strip_underscore_keys :: "'p json_lib \<Rightarrow> string \<Rightarrow> conf_error + json" where
  "strip_underscore_keys L raw = (case standardize L raw of Inl e \<Rightarrow> Inl e | Inr j \<Rightarrow> Inr (strip j))"

text \<open>\<open>Strict\<close>: the value comes from the whole document; the stripped one is only searched for unknown fields.\<close>

definition strict_config :: "'p json_lib \<Rightarrow> (json \<Rightarrow> 'a option) \<Rightarrow> (json \<Rightarrow> bool) \<Rightarrow> string \<Rightarrow> conf_error + 'a" where
  "strict_config L decode known raw =
     (case standardize L raw of
        Inl e \<Rightarrow> Inl e
      | Inr j \<Rightarrow>
          (case decode j of
             None \<Rightarrow> Inl DecodeFailed
           | Some v \<Rightarrow> (if known (strip j) then Inr v else Inl UnknownField)))"

section \<open>One reading\<close>

text \<open>No object anywhere in the value has two members with the same name up to case.\<close>

inductive unambiguous :: "(string \<Rightarrow> string) \<Rightarrow> json \<Rightarrow> bool" for lower where
  scalar: "\<forall>ms. j \<noteq> JObj ms \<Longrightarrow> \<forall>es. j \<noteq> JArr es \<Longrightarrow> unambiguous lower j"
| array: "\<forall>e \<in> set es. unambiguous lower e \<Longrightarrow> unambiguous lower (JArr es)"
| object: "distinct (map (lower \<circ> fst) ms) \<Longrightarrow> \<forall>m \<in> set ms. unambiguous lower (snd m) \<Longrightarrow> unambiguous lower (JObj ms)"

inductive_simps unambiguous_JObj: "unambiguous lower (JObj ms)"
inductive_simps unambiguous_JArr: "unambiguous lower (JArr es)"

lemma unambiguous_scalar: "\<forall>ms. j \<noteq> JObj ms \<Longrightarrow> \<forall>es. j \<noteq> JArr es \<Longrightarrow> unambiguous lower j"
  by (rule unambiguous.scalar)

lemma check_dup_keys_iff:
  "check_dup_keys lower path j = None \<longleftrightarrow> unambiguous lower j"
  "check_members lower path seen ms = None \<longleftrightarrow>
     distinct (map (lower \<circ> fst) ms) \<and> (\<forall>m \<in> set ms. map_of seen (lower (fst m)) = None \<and> unambiguous lower (snd m))"
  "check_elements lower path n es = None \<longleftrightarrow> (\<forall>e \<in> set es. unambiguous lower e)"
proof (induction lower path j and lower path seen ms and lower path n es rule: check_dup_keys_check_members_check_elements.induct)
  case (1 lower path j)
  then show ?case
    by (cases j) (auto simp: check_dup_keys.simps unambiguous_JObj unambiguous_JArr comp_def intro: unambiguous_scalar)
next
  case (3 lower path seen k v ms)
  show ?case
  proof (cases "map_of seen (lower k) = None \<and> unambiguous lower v")
    case True
    then have "check_members lower path seen ((k, v) # ms) = check_members lower path ((lower k, k) # seen) ms" using 3 by (auto split: option.splits)
    then show ?thesis using 3 True by (auto split: if_splits) (metis (mono_tags, lifting) fst_conv rev_image_eqI)
  next
    case False
    then show ?thesis using 3 by (auto split: option.splits)
  qed
next
  case (5 lower path n e es)
  then show ?case by (auto split: option.splits)
qed auto

text \<open>
  The two ways to find what a path of member names leads to: the first member of exactly that name, and the last one whose name folds to the same as that name.
\<close>

fun find_first :: "string list \<Rightarrow> json \<Rightarrow> json option" where
  "find_first [] j = Some j"
| "find_first (k # ks) (JObj ms) = (case List.find (\<lambda>(n, v). n = k) ms of Some (n, v) \<Rightarrow> find_first ks v | None \<Rightarrow> None)"
| "find_first (k # ks) j = None"

fun find_last :: "(string \<Rightarrow> string) \<Rightarrow> string list \<Rightarrow> json \<Rightarrow> json option" where
  "find_last fold_name [] j = Some j"
| "find_last fold_name (k # ks) (JObj ms) =
     (case List.find (\<lambda>(n, v). fold_name n = fold_name k) (rev ms) of Some (n, v) \<Rightarrow> find_last fold_name ks v | None \<Rightarrow> None)"
| "find_last fold_name (k # ks) j = None"

text \<open>
  What both libraries do with an ASCII name: one turns its capital letters into small ones, the other its small letters into capital ones. Of other names nothing is said.
\<close>

definition ascii_lower :: "char \<Rightarrow> char" where
  "ascii_lower c = (if 65 \<le> (of_char c :: nat) \<and> (of_char c :: nat) \<le> 90 then char_of ((of_char c :: nat) + 32) else c)"

definition ascii_upper :: "char \<Rightarrow> char" where
  "ascii_upper c = (if 97 \<le> (of_char c :: nat) \<and> (of_char c :: nat) \<le> 122 then char_of ((of_char c :: nat) - 32) else c)"

definition ascii_name :: "string \<Rightarrow> bool" where
  "ascii_name s = list_all (\<lambda>c. (of_char c :: nat) < 128) s"

definition folds_ascii :: "'p json_lib \<Rightarrow> bool" where
  "folds_ascii L \<longleftrightarrow> (\<forall>s. ascii_name s \<longrightarrow> jl_lower L s = map ascii_lower s \<and> jl_fold L s = map ascii_upper s)"

lemma of_char_lower: "(of_char (ascii_lower c) :: nat) = (if 65 \<le> (of_char c :: nat) \<and> (of_char c :: nat) \<le> 90 then of_char c + 32 else of_char c)"
  by (auto simp: ascii_lower_def)

lemma of_char_upper: "(of_char (ascii_upper c) :: nat) = (if 97 \<le> (of_char c :: nat) \<and> (of_char c :: nat) \<le> 122 then of_char c - 32 else of_char c)"
  by (auto simp: ascii_upper_def)

lemma upper_lower_char: "ascii_upper c = ascii_upper d \<Longrightarrow> ascii_lower c = ascii_lower d"
proof -
  assume "ascii_upper c = ascii_upper d"
  then have "(of_char (ascii_upper c) :: nat) = of_char (ascii_upper d)" by simp
  moreover define x y :: nat where "x = of_char c" and "y = of_char d"
  ultimately have "(of_char (ascii_lower c) :: nat) = of_char (ascii_lower d)"
    unfolding of_char_lower of_char_upper x_def [symmetric] y_def [symmetric] by presburger
  then show ?thesis by (simp only: of_char_eq_iff)
qed

lemma fold_lower:
  assumes "folds_ascii L" and "ascii_name m" and "ascii_name n" and "jl_fold L m = jl_fold L n"
  shows "jl_lower L m = jl_lower L n"
proof -
  have "map ascii_upper m = map ascii_upper n" using assms by (simp add: folds_ascii_def)
  then have "map ascii_lower m = map ascii_lower n" by (induction m n rule: list_induct2') (auto dest: upper_lower_char)
  then show ?thesis using assms by (simp add: folds_ascii_def)
qed

text \<open>A property of the names of all members anywhere in a value.\<close>

inductive names_all :: "(string \<Rightarrow> bool) \<Rightarrow> json \<Rightarrow> bool" for P where
  scalar: "\<forall>ms. j \<noteq> JObj ms \<Longrightarrow> \<forall>es. j \<noteq> JArr es \<Longrightarrow> names_all P j"
| array: "\<forall>e \<in> set es. names_all P e \<Longrightarrow> names_all P (JArr es)"
| object: "\<forall>m \<in> set ms. P (fst m) \<and> names_all P (snd m) \<Longrightarrow> names_all P (JObj ms)"

inductive_simps names_all_JObj: "names_all P (JObj ms)"

lemma find_SomeD: "List.find P xs = Some y \<Longrightarrow> y \<in> set xs \<and> P y"
  by (auto simp: find_Some_iff)

lemma find_unique:
  assumes "distinct (map f xs)" and "x \<in> set xs" and "\<forall>y \<in> set xs. P y \<longrightarrow> f y = f x" and "P x"
  shows "List.find P (rev xs) = Some x"
proof (cases "List.find P (rev xs)")
  case (Some y)
  then have "y \<in> set xs" "f y = f x" using find_SomeD [OF Some] assms(3) by auto
  then show ?thesis using Some assms(1,2) by (auto simp: distinct_map dest: inj_onD)
qed (use assms(2,4) in \<open>auto simp: find_None_iff\<close>)

lemma first_is_last:
  assumes "unambiguous (jl_lower L) j" and "folds_ascii L" and "names_all ascii_name j" and "find_first ks j = Some v"
  shows "find_last (jl_fold L) ks j = Some v"
  using assms(1,3,4)
proof (induction ks j rule: find_first.induct)
  case (2 k ks ms)
  then obtain w where w: "List.find (\<lambda>(n, v). n = k) ms = Some (k, w)" "find_first ks w = Some v"
    using find_SomeD [of "\<lambda>(n, v). n = k" ms] by (fastforce split: option.splits)
  then have m: "(k, w) \<in> set ms" using find_SomeD by fast
  have d: "distinct (map (jl_lower L \<circ> fst) ms)" "unambiguous (jl_lower L) w" using 2(2) m by (auto simp: unambiguous_JObj)
  have n: "ascii_name k" "names_all ascii_name w" "\<And>n u. (n, u) \<in> set ms \<Longrightarrow> ascii_name n" using 2(3) m by (auto simp: names_all_JObj)
  have "\<forall>y \<in> set ms. (case y of (n, v) \<Rightarrow> jl_fold L n = jl_fold L k) \<longrightarrow> (jl_lower L \<circ> fst) y = (jl_lower L \<circ> fst) (k, w)"
    using fold_lower [OF assms(2) n(3) n(1)] by fastforce
  then have "List.find (\<lambda>(n, v). jl_fold L n = jl_fold L k) (rev ms) = Some (k, w)"
    by (intro find_unique [OF d(1) m]) simp_all
  then show ?case using 2(1) [OF w(1) refl d(2) n(2) w(2)] by simp
qed auto

lemma standardize_Inr: "standardize L raw = Inr j \<longleftrightarrow> jl_parse L raw = Some j \<and> unambiguous (jl_lower L) j"
  using check_dup_keys_iff(1) [of "jl_lower L" "[]" j] by (auto simp: standardize_def split: option.splits)

text \<open>
  C30: In a configuration with ASCII member names that is accepted nobody can read two things. A file is accepted exactly when it parses and no object in it has two members with the same name in
  lower case. Then, if the names of its members are ASCII, whatever the patch library finds under a path of member names, by the first exact name, is what the typed decoder takes, by the last name
  that folds alike; and a file that an edit leaves is accepted again.
\<close>

theorem accepted_config_unambiguous:
  assumes "folds_ascii L"
  shows "(standardize L raw = Inr j \<longleftrightarrow> jl_parse L raw = Some j \<and> unambiguous (jl_lower L) j)
   \<and> (standardize L raw = Inr j \<and> names_all ascii_name j \<and> find_first ks j = Some v \<longrightarrow> find_last (jl_fold L) ks j = Some v)
   \<and> (patch_config L raw ops = Inr out \<longrightarrow> (\<exists>j'. jl_patch L raw ops = Some out \<and> standardize L out = Inr j'))"
  using first_is_last [OF _ assms] by (auto simp: standardize_Inr patch_config_def split: sum.splits option.splits)

text \<open>
  Beyond ASCII the two comparisons differ: a file whose members have different names in lower case that the decoder folds to one is accepted, and the patch library edits the first of them
  while the decoder takes the last.
\<close>

lemma folded_names_accepted:
  assumes "jl_parse L raw = Some (JObj [(m, v), (n, w)])" and "jl_lower L m \<noteq> jl_lower L n" and "jl_fold L m = jl_fold L n"
    and "unambiguous (jl_lower L) v" and "unambiguous (jl_lower L) w"
  shows "standardize L raw = Inr (JObj [(m, v), (n, w)]) \<and> find_first [m] (JObj [(m, v), (n, w)]) = Some v
    \<and> find_last (jl_fold L) [m] (JObj [(m, v), (n, w)]) = Some w"
  using assms by (simp add: standardize_Inr unambiguous_JObj)

text \<open>
  A library that reads two files: the long s, two bytes in UTF-8, is a small letter of its own to \<open>strings.ToLower\<close> and an s to the decoder.
\<close>

definition long_s :: string where "long_s = [CHR 0xC5, CHR 0xBF]"

definition demo_json_lib :: "unit json_lib" where
  "demo_json_lib = \<lparr>jl_parse = (\<lambda>raw. if raw = ''ab'' then Some (JObj [(''a'', JNull), (''b'', JBool True)])
       else if raw = ''aA'' then Some (JObj [(''a'', JNull), (''A'', JBool True)])
       else if raw = ''ss'' then Some (JObj [(''hosts'', JNull), (''host'' @ long_s, JBool True)]) else None),
     jl_patch = (\<lambda>raw _. Some raw), jl_standard = (\<lambda>_. True), jl_lower = map ascii_lower,
     jl_fold = (\<lambda>s. map ascii_upper (replace_all long_s ''s'' s))\<rparr>"

lemma replace_ascii: "ascii_name s \<Longrightarrow> replace_all long_s x s = s"
proof (induction s)
  case (Cons c s)
  then have "\<not> prefix long_s (c # s)" by (auto simp: long_s_def ascii_name_def)
  then show ?case using Cons by (simp add: replace_all.simps [of _ _ "c # s"] ascii_name_def)
qed (simp add: replace_all.simps)

lemma demo_folds: "folds_ascii demo_json_lib"
  by (simp add: folds_ascii_def demo_json_lib_def replace_ascii)

lemma demo_long_s:
  "find_first [''hosts''] (JObj [(''hosts'', JNull), (''host'' @ long_s, JBool True)]) = Some JNull
   \<and> find_last (jl_fold demo_json_lib) [''hosts''] (JObj [(''hosts'', JNull), (''host'' @ long_s, JBool True)]) = Some (JBool True)"
proof -
  have "jl_fold demo_json_lib ''hosts'' = jl_fold demo_json_lib (''host'' @ long_s)"
    by (simp add: demo_json_lib_def long_s_def replace_all.simps)
  moreover have "jl_lower demo_json_lib ''hosts'' \<noteq> jl_lower demo_json_lib (''host'' @ long_s)" by (simp add: demo_json_lib_def long_s_def ascii_lower_def)
  moreover have "jl_parse demo_json_lib ''ss'' = Some (JObj [(''hosts'', JNull), (''host'' @ long_s, JBool True)])" by (simp add: demo_json_lib_def)
  ultimately show ?thesis using folded_names_accepted [of demo_json_lib "''ss''"] unambiguous_scalar [of JNull] unambiguous_scalar [of "JBool True"] by auto
qed

lemma lower_letters: "ascii_lower (CHR ''a'') = CHR ''a''" "ascii_lower (CHR ''A'') = CHR ''a''" "ascii_lower (CHR ''b'') = CHR ''b''"
  by code_simp+

theorem accepted_config_unambiguous_witness:
  "find_last (jl_fold demo_json_lib) [''b''] (JObj [(''a'', JNull), (''b'', JBool True)]) = Some (JBool True)
   \<and> \<not> unambiguous (jl_lower demo_json_lib) (JObj [(''a'', JNull), (''A'', JBool True)])"
proof -
  have "standardize demo_json_lib ''ab'' = Inr (JObj [(''a'', JNull), (''b'', JBool True)])"
    by (simp add: standardize_def demo_json_lib_def check_dup_keys.simps escape_pointer_def lower_letters)
  moreover have "standardize demo_json_lib ''aA'' \<noteq> Inr (JObj [(''a'', JNull), (''A'', JBool True)])"
    by (simp add: standardize_def demo_json_lib_def check_dup_keys.simps escape_pointer_def dup_place_def lower_letters)
  moreover have "names_all ascii_name (JObj [(''a'', JNull), (''b'', JBool True)])"
    by (auto simp: names_all_JObj ascii_name_def intro: names_all.scalar)
  moreover have "jl_parse demo_json_lib ''aA'' = Some (JObj [(''a'', JNull), (''A'', JBool True)])" by (simp add: demo_json_lib_def)
  ultimately show ?thesis
    using accepted_config_unambiguous [OF demo_folds, of "''ab''" "JObj [(''a'', JNull), (''b'', JBool True)]" "[''b'']" "JBool True"]
      accepted_config_unambiguous [OF demo_folds, of "''aA''" "JObj [(''a'', JNull), (''A'', JBool True)]"] by simp
qed

section \<open>Comment keys\<close>

text \<open>Stripping a document leaves what a path leads to alone, as long as no member on the path is a comment.\<close>

fun no_comment_on :: "string list \<Rightarrow> json \<Rightarrow> bool" where
  "no_comment_on (k # ks) (JObj ms) \<longleftrightarrow>
     (case List.find (\<lambda>(n, v). n = k) ms of Some (n, v) \<Rightarrow> \<not> is_comment_key n v \<and> no_comment_on ks v | None \<Rightarrow> True)"
| "no_comment_on ks j \<longleftrightarrow> True"

lemma strip_keeps_path:
  assumes "find_first ks j = Some v" and "no_comment_on ks j"
  shows "find_first ks (strip j) = Some (strip v)"
  using assms
proof (induction ks j rule: find_first.induct)
  case (2 k ks ms)
  obtain n w where w: "List.find (\<lambda>(n, v). n = k) ms = Some (n, w)" "find_first ks w = Some v" using 2(2) by (auto split: option.splits)
  have "List.find (\<lambda>(n, v). n = k) (map (\<lambda>(k, v). (k, strip v)) (filter (\<lambda>(k, v). \<not> is_comment_key k v) ms)) = Some (n, strip w)"
    using w(1) 2(3) by (induction ms) (auto split: if_splits)
  then show ?case using 2(1) [OF w(1) refl w(2)] 2(3) w(1) by (simp add: strip.simps [of "JObj ms"])
qed simp_all

end
