(* ===== verification/Spec2Isabelle.thy ===== *)
theory Spec2Isabelle
  imports Shim Control_Guarantees Audit_Chain Audit_Commit Policy_Recommend Http_Frontend Bridge Confcheck
begin

text \<open>
  Infrabroker hands AI agents short-lived credentials. Models call the tools of a broker; the broker asks a
  signer (directly, or through a control plane that collects human approvals) for an SSH certificate or a
  Kubernetes token, runs the command or the API call with it, and records it; the signer decides by policy
  and records what it did in a tamper-evident audit log; a shim on hardened hosts runs only commands the
  signer has signed. This development models these programs as functions of HOL and proves what they promise.

  \<^bold>\<open>Shared.\<close>
    \<^item> \<open>Go_Prelude\<close>: what the sources use of Go and its library (strings, UTF-8, hex, sorting,
      insertion-ordered maps, \<open>time.Duration\<close> arithmetic), and the shared lemmas. \<open>Base64\<close>: \<open>encoding/base64\<close>. \<open>Json\<close>: values of \<open>encoding/json\<close>.
    \<^item> \<open>Confcheck\<close> (\<open>internal/confcheck\<close>): configuration files that have one reading only.
    \<^item> \<open>Bounded_Table\<close>: the interface (a locale) of the tables that evict; the rate limiter, the guardrails and the
      other tables interpret it. \<open>Redact\<close> (\<open>internal/redact\<close>): masking of secrets in what is recorded.
    \<^item> \<open>Audit_Log\<close>, \<open>Audit_Chain\<close>, \<open>Audit_Fit\<close>, \<open>Audit_Commit\<close> (\<open>internal/audit/log.go\<close>, \<open>verify.go\<close>): the
      writer, its hash chain, rotation and verification, the bounding of records, and group commit.

  \<^bold>\<open>The signer.\<close>
    \<^item> \<open>Shell_Syntax\<close>, \<open>Command_Policy\<close> (\<open>internal/signer/cmdpolicy.go\<close>, \<open>policyset.go\<close>): which simple
      commands a script runs, and allow, deny and approval rules over them.
    \<^item> \<open>Signer_Types\<close>, \<open>Host_Policy\<close>, \<open>Elevation\<close>, \<open>Resolve\<close>, \<open>Local_Signer\<close> (\<open>internal/signer/signer.go\<close>):
      requests, the host table and its validation, quoting and sudo wrapping, \<open>Resolve\<close>, and \<open>SignIntent\<close>
      and its siblings on \<open>Local\<close>.
    \<^item> \<open>K8s_Action\<close>, \<open>K8s_Policy\<close> (\<open>internal/signer/k8saction.go\<close>, \<open>k8spolicy.go\<close>, \<open>internal/k8s/resources.go\<close>). \<open>Regexp\<close>: how the
      expressions that the signer itself writes are read, and what they find.
    \<^item> \<open>Grants\<close> (\<open>internal/signer/grants.go\<close>), \<open>Freeze\<close> (\<open>freeze.go\<close>), \<open>Rate_Limit\<close> (\<open>ratelimit.go\<close>): its runtime stores.
    \<^item> \<open>Cert_Authority\<close> (\<open>internal/ca/sign.go\<close>), \<open>Sealed\<close> (\<open>internal/sealed\<close>), \<open>Shim\<close>
      (\<open>cmd/infrabroker-shim\<close>): certificates, signed envelopes, and the host side.
    \<^item> \<open>Caller_Auth\<close> (\<open>internal/auth\<close>), \<open>Signer_Service\<close>, \<open>Signer_Guarantees\<close> (\<open>cmd/signer/main.go\<close>, \<open>k8s.go\<close>, \<open>grants.go\<close>):
      the HTTP handlers over all of the above, and what every history of requests keeps.
    \<^item> \<open>Oidc\<close> (\<open>internal/oauth\<close>): end users behind bearer tokens, with the throttle of key fetches.
    \<^item> \<open>Signer_Config\<close> (\<open>cmd/signer/main.go\<close>, \<open>policy.go\<close>): the state that a configuration file means, reloads, and
      the endpoints that edit an allowlist in the file. \<open>Policy_Recommend\<close> (\<open>internal/policyrec\<close>): what the audit
      log suggests to change in a policy.

  \<^bold>\<open>The control plane.\<close>
    \<^item> \<open>Approval\<close>, \<open>Behavior\<close> (\<open>internal/control/approval.go\<close>, \<open>behavior.go\<close>): the registry of pending approvals
      and the behavioural guardrails.
    \<^item> \<open>Notifier\<close> (\<open>internal/control/notifier.go\<close>, \<open>teams.go\<close>), \<open>Bridge\<close> (\<open>internal/bridge\<close>): what approvers are shown, and the relay
      of their clicks in a chat.
    \<^item> \<open>Remote_Client\<close> (\<open>internal/signer/remote.go\<close>): the client of the signing protocol with its polling for approvals,
      used by the broker and by the control plane.
    \<^item> \<open>Control_Plane\<close>, \<open>Control_Guarantees\<close> (\<open>cmd/control-plane/main.go\<close>): its handlers, and the refinement of an abstract
      agreement between brokers, approvers and the signer by every interleaving of them.

  \<^bold>\<open>The broker.\<close>
    \<^item> \<open>Recording\<close> (\<open>internal/recording\<close>), \<open>Remote_Exec\<close> (\<open>internal/ssh\<close>): session recordings; dialling along a chain of
      hosts, one-shot execution and the marker protocol of shells. \<open>K8s_Client\<close> (\<open>internal/k8s/client.go\<close>).
    \<^item> \<open>Session_Pool\<close>, \<open>Broker\<close>, \<open>Broker_Session\<close>, \<open>Broker_Transfer\<close>, \<open>Broker_K8s\<close> (\<open>internal/broker\<close>): the pool of sessions with
      its kill switch, the engine, sessions, file transfer and input limits, Kubernetes actions.
    \<^item> \<open>Broker_Routes\<close>, \<open>Broker_Guarantees\<close>, \<open>Broker_Opening\<close>, \<open>Broker_History\<close>, \<open>Broker_Policy\<close>: what holds of them, first of one
      call, then of every history of an engine, then with the signer's own decisions behind the certificates. \<open>Broker_Demo\<close>
      holds the small installation of the witnesses.
    \<^item> \<open>Mcp_Tools\<close>, \<open>Mcp_Guarantees\<close> (\<open>internal/mcpserver\<close>): the tools a model calls, with the approval dialogue in the chat.
    \<^item> \<open>Http_Frontend\<close> (\<open>internal/brokermain\<close>): who the caller is, and \<open>/v1/ssh_run\<close>.
  This theory holds the properties that span the signer and the shim.

  \<^bold>\<open>State and effects.\<close> A Go struct is a record; a method that changes its receiver returns the new
  record; an error is the left side of a sum or an error option. A section protected by a mutex is one
  step, and a history of concurrent calls is a sequence of such steps (\<open>inductive\<close> relations: the runs of the freeze store,
  of the approvals, of the log, of the signer, of the control plane and of the session pool). In the control
  plane a signing request and a decision are one step each and the collection of a result is two, with the call of the signer
  between them. The pool of sessions is interleaved at its locks; the histories of an engine take a whole call as a step.
  Edits and reloads of the signer's configuration hold one lock from reading the file to the swap, and are one step.
  A handler that reads the clock several times within one call is given a single reading. The answers of the world to a broker
  (signer, network, random session ids) are functions of a counter that every such call advances, so they may change from call to call;
  ids of sessions are taken to be fresh, and approval ids not to be drawn twice. Where the wording of an error message is all that
  distinguishes two errors, the constructors of the error type stand for the wording.

  \<^bold>\<open>Parameters.\<close> Code outside the repository enters as record fields with named hypotheses: Ed25519
  signing and verification, SHA-256 and HMAC, \<open>encoding/json\<close>, the regular expression engine, the shell
  parser \<open>mvdan.cc/sh\<close>, the file system, SSH certificate encoding and channels, HTTP and TLS, the token API of a cluster, the token
  verifier, the library that patches configuration files. A hypothesis states documented behaviour of that code (a signature verifies under its own
  public key; decoding inverts encoding; a hash has no collision among the inputs in hand; a patch operation does what RFC 6902 says, \<open>patch_means\<close>,
  and the typed reader of a file agrees with the untyped one on the policies of hosts, \<open>readers_agree\<close>; the expression library reads anchors,
  literals, alternatives and classes, \<open>rx_engine\<close>; \<open>head\<close> on a host prints as many bytes of the file as its arguments say, \<open>serves_files\<close>; folding of
  member names is that of ASCII letters on ASCII names, \<open>folds_ascii\<close>), and each
  property that uses one has a witness with a concrete instance.

  \<^bold>\<open>What is shown.\<close> A certificate or token is issued only for what policy authorises, is pinned to the
  decided command, and every answer that carries one is preceded by its audit record when the log is
  fail-closed; a frozen subject gets no answer and keeps no grants, and a freeze in a store with a database survives restarts; an approval releases a credential at
  most once and only after a decision of somebody else; an envelope runs at most once, and only with the command that was
  sealed; every log that the writer produces with whole writes and a clock that never steps back verifies, its head determines the history, an append that
  reports success is on disk. Every command a broker ever sends went over certified hops, or into a session after the signer let it run there, and
  is allowed by the enforced policy of its host; opening a session is all or nothing; the kill switch ends exactly the
  sessions it names; shell output and strict recordings are exact; a file comes whole or not at all; polling for an approval ends; a command
  that was approved in the chat was approved by the human and is on record first; no detail of an infrastructure failure of
  the engine reaches the model (the error texts of a Kubernetes API call do).
  An edit of a policy is all or nothing and means what was asked.
  A credential for an end user is issued on a live token only, the frontend and the signer see the same user behind a token, nobody approves their own request in the chat
  once the bridge has seen it, and a configuration with ASCII member names that is accepted has one reading. The error properties record places where the code departs from its comments.

  \<^bold>\<open>Bounds.\<close> No definition runs on fuel except the rotation suffix search of the audit writer, whose bound
  is the source's own \<open>maxSegmentCollisions\<close>; the audit properties state how many operations it covers. The polling loop of \<open>Remote_Client\<close> is a
  partial function that is proved to return. Durations and Unix times are unbounded integers where the source's values stay far below \<open>2^63\<close>; where
  wrap-around is visible it is written out.

  \<^bold>\<open>Not modelled.\<close> The main functions of the programs and their file watchers, TLS and HTTP transport, JSON-RPC and the
  schemas of the tools (set-up code and protocol libraries); the operator's command line \<open>broker-ctl\<close> and \<open>init\<close> (flags, printing, and
  calls of the endpoints modelled here); the web page of the control plane; loaders of CA keys from files, agents
  and vaults; the layout of text that an edit inserts into a configuration file; metrics, opening of the
  database, version strings, and the tools of the build.
\<close>

section \<open>Sealed execution, from the policy to the host\<close>

text \<open>
  A call of the signer, and what it sealed: the arguments with which \<open>sealedEnvelope\<close> calls \<open>Sign\<close>
  when \<open>SignIntent\<close> answers with an envelope.
\<close>

record signer_call =
  sg_env :: sign_env
  sg_signer :: local_signer
  sg_intent :: intent

definition call_decision :: "signer_call \<Rightarrow> decision \<times> sign_error option" where
  "call_decision x = resolve (se_env (sg_env x)) (ls_policy (sg_signer x)) (ls_default_ttl (sg_signer x))
     (ls_grants (sg_signer x)) (sg_intent x) (se_now (sg_env x))"

definition final_command :: "signer_call \<Rightarrow> string" where
  "final_command x =
     (let prefix = de_elevation_prefix (fst (call_decision x)) in
      if prefix \<noteq> [] then build_elevated_command (se_env (sg_env x)) prefix (in_command (sg_intent x))
      else in_command (sg_intent x))"

definition sealed_by_call :: "signer_call \<Rightarrow> (issued \<times> string) option" where
  "sealed_by_call x =
     (case sign_intent (sg_env x) (sg_signer x) (sg_intent x) of
        (Some iu, _) \<Rightarrow>
          (case se_nonce (sg_env x) of
             None \<Rightarrow> None
           | Some nonce \<Rightarrow>
               if iu_envelope iu = [] then None
               else Some (\<lparr>is_nonce = nonce, is_host = in_host (sg_intent x), is_command = final_command x,
                           is_ttl = SealedDefaultTTL, is_now = se_now (sg_env x)\<rparr>, iu_envelope iu))
      | (None, _) \<Rightarrow> None)"

lemma sealed_by_call_Some:
  assumes "sealed_by_call x = Some (q, wire)"
  obtains hp d key where "map_of (ls_policy (sg_signer x)) (in_host (sg_intent x)) = Some hp" and "hp_sealed_exec hp"
    and "call_decision x = (d, None)" and "\<not> de_require_approval d" and "in_command (sg_intent x) \<noteq> []"
    and "ls_envelope_key (sg_signer x) = Some key"
    and "sealed_sign (se_sealed (sg_env x)) key (Some (is_nonce q)) (is_host q) (is_command q) (is_ttl q) (is_now q) = Inr wire"
    and "q = \<lparr>is_nonce = is_nonce q, is_host = in_host (sg_intent x), is_command = final_command x,
           is_ttl = SealedDefaultTTL, is_now = se_now (sg_env x)\<rparr>"
    and "wire \<noteq> []"
proof -
  obtain iu err nonce where s: "sign_intent (sg_env x) (sg_signer x) (sg_intent x) = (Some iu, err)"
    and env: "iu_envelope iu \<noteq> []" and n: "se_nonce (sg_env x) = Some nonce"
    and q: "q = \<lparr>is_nonce = nonce, is_host = in_host (sg_intent x), is_command = final_command x,
           is_ttl = SealedDefaultTTL, is_now = se_now (sg_env x)\<rparr>" "wire = iu_envelope iu"
    using assms by (auto simp: sealed_by_call_def split: prod.splits option.splits if_splits)
  from s env obtain d hp key where
    r: "resolve (se_env (sg_env x)) (ls_policy (sg_signer x)) (ls_default_ttl (sg_signer x)) (ls_grants (sg_signer x))
          (sg_intent x) (se_now (sg_env x)) = (d, None)"
    and rest: "map_of (ls_policy (sg_signer x)) (in_host (sg_intent x)) = Some hp" "hp_sealed_exec hp"
      "in_command (sg_intent x) \<noteq> []" "\<not> de_require_approval d" "ls_envelope_key (sg_signer x) = Some key"
    and sig: "sealed_sign (se_sealed (sg_env x)) key (se_nonce (sg_env x)) (in_host (sg_intent x))
           (if de_elevation_prefix d \<noteq> [] then build_elevated_command (se_env (sg_env x)) (de_elevation_prefix d) (in_command (sg_intent x))
            else in_command (sg_intent x)) SealedDefaultTTL (se_now (sg_env x)) = Inr (iu_envelope iu)"
    by (rule envelope_issued)
  have d: "call_decision x = (d, None)" using r by (simp add: call_decision_def)
  show ?thesis
    by (rule that [OF rest(1,2) d rest(4,3,5)])
      (use sig n q d env in \<open>simp_all add: final_command_def Let_def\<close>)
qed

lemma sealed_by_call_issued:
  assumes "sealed_by_call x = Some (q, wire)" and "se_sealed (sg_env x) = L" and "go_envelope (issued_envelope q)"
  shows "\<exists>key. issued_by L key q"
proof -
  from assms(1) obtain key where
    "sealed_sign (se_sealed (sg_env x)) key (Some (is_nonce q)) (is_host q) (is_command q) (is_ttl q) (is_now q) = Inr wire"
    by (rule sealed_by_call_Some)
  then have "issued_by L key q" using assms(2,3) by (simp add: issued_by_def)
  then show ?thesis by blast
qed

text \<open>
  C1: sealed execution end to end. When the shim on a host runs a command under an envelope that is not a
  forgery, then some call of the signer sealed it: for this very host, which the signer's table lists as
  sealed; for a request that the policy resolved without error and without pending approval; and what runs
  is the requested command behind the elevation prefix of that decision. Where the host's policies restrict
  and enforce, they allow that command, with live grants at most. It runs within 31 seconds of the decision.
\<close>

theorem sealed_exec_end_to_end:
  assumes ran: "shim_main L c m = (Inr (cmd, e), m')" and "go_envelope e"
    and honest: "unforged L (pinned_keys L c) qs e"
    and log: "\<forall>q \<in> set qs. go_envelope (issued_envelope q)
      \<and> (\<exists>x \<in> set calls. \<exists>wire. se_sealed (sg_env x) = L \<and> sealed_by_call x = Some (q, wire))"
  shows "\<exists>x \<in> set calls. \<exists>hp d. map_of (ls_policy (sg_signer x)) (in_host (sg_intent x)) = Some hp \<and> hp_sealed_exec hp
    \<and> sc_args c = [in_host (sg_intent x)] \<and> cmd = final_command x
    \<and> call_decision x = (d, None) \<and> \<not> de_require_approval d
    \<and> sc_now c < se_now (sg_env x) + 31 * go_second
    \<and> (ps_restricts (effective_policies hp) \<and> ps_enforcement (effective_policies hp) \<noteq> CmdPolicyAudit \<longrightarrow>
         verdict_allowed (ps_decide (se_env (sg_env x))
           (widened_policies (ls_grants (sg_signer x)) hp (sg_intent x) (se_now (sg_env x))) (in_command (sg_intent x))))"
proof -
  have "\<forall>q \<in> set qs. \<exists>key. issued_by L key q" using log sealed_by_call_issued by blast
  with ran \<open>go_envelope e\<close> honest obtain q where q: "q \<in> set qs" "sc_args c = [is_host q]" "cmd = is_command q"
    and time: "sc_now c < is_now q + is_ttl q + go_second" by (rule ran_under_issued)
  from log q(1) obtain x wire where x: "x \<in> set calls" "sealed_by_call x = Some (q, wire)" by blast
  from x(2) obtain hp d where hp: "map_of (ls_policy (sg_signer x)) (in_host (sg_intent x)) = Some hp" "hp_sealed_exec hp"
    and d: "call_decision x = (d, None)" "\<not> de_require_approval d" and cmd: "in_command (sg_intent x) \<noteq> []"
    and eq: "q = \<lparr>is_nonce = is_nonce q, is_host = in_host (sg_intent x), is_command = final_command x,
           is_ttl = SealedDefaultTTL, is_now = se_now (sg_env x)\<rparr>" by (rule sealed_by_call_Some)
  have f: "is_host q = in_host (sg_intent x)" "is_command q = final_command x" "is_ttl q = SealedDefaultTTL"
    "is_now q = se_now (sg_env x)" by (subst eq, simp)+
  have "verdict_allowed (ps_decide (se_env (sg_env x))
      (widened_policies (ls_grants (sg_signer x)) hp (sg_intent x) (se_now (sg_env x))) (in_command (sg_intent x)))"
    if "ps_restricts (effective_policies hp)" "ps_enforcement (effective_policies hp) \<noteq> CmdPolicyAudit"
    using firewall [OF d(1) [unfolded call_decision_def] hp(1) that] cmd by blast
  moreover have "sc_now c < se_now (sg_env x) + 31 * go_second" using time f by (simp add: SealedDefaultTTL_def)
  moreover have "sc_args c = [in_host (sg_intent x)]" "cmd = final_command x" using q f by simp_all
  ultimately show ?thesis using x(1) hp d by blast
qed

lemma sealed_opens:
  assumes lib: "signing_ok L" "wire_ok L" "se_sealed (sg_env x) = L"
    and seals: "sealed_by_call x = Some (q, wire)" "length (is_nonce q) = 16"
    and utf8: "valid_utf8 (in_host (sg_intent x))" "valid_utf8 (final_command x)"
    and call: "sc_args c = [in_host (sg_intent x)]" "sc_wire c = wire"
      "se_now (sg_env x) \<le> sc_now c" "sc_now c \<le> se_now (sg_env x) + SealedDefaultTTL"
    and pins: "os_key_file (sc_os c) = Some raw" "parse_public_keys L raw = Inr pubs"
      "\<forall>key. ls_envelope_key (sg_signer x) = Some key \<longrightarrow> ed_public L key \<in> set pubs"
    and dir: "go_map_inv m" "\<not> map_has m (hex_encode (is_nonce q))"
      "os_mkdir_ok (sc_os c)" "os_open_ok (sc_os c)" "os_close_ok (sc_os c)"
    and key: "ls_envelope_key (sg_signer x) = Some key"
  shows "fst (shim_main L c m) = Inr (final_command x,
    sealed_envelope_of L key (is_nonce q) (in_host (sg_intent x)) (final_command x) SealedDefaultTTL (se_now (sg_env x)))"
proof -
  from seals(1) obtain key' where key': "ls_envelope_key (sg_signer x) = Some key'"
    and sig: "sealed_sign (se_sealed (sg_env x)) key' (Some (is_nonce q)) (is_host q) (is_command q) (is_ttl q) (is_now q) = Inr wire"
    and eq: "q = \<lparr>is_nonce = is_nonce q, is_host = in_host (sg_intent x), is_command = final_command x,
           is_ttl = SealedDefaultTTL, is_now = se_now (sg_env x)\<rparr>" and ne: "wire \<noteq> []" by (rule sealed_by_call_Some)
  have f: "is_host q = in_host (sg_intent x)" "is_command q = final_command x" "is_ttl q = SealedDefaultTTL"
    "is_now q = se_now (sg_env x)" by (subst eq, simp)+
  let ?e = "sealed_envelope_of L key (is_nonce q) (in_host (sg_intent x)) (final_command x) SealedDefaultTTL (se_now (sg_env x))"
  have "key' = key" using key key' by simp
  note sig' = sig [unfolded f lib(3) this]
  have "is_nonce q \<noteq> []" using seals(2) by auto
  moreover have "\<forall>pub \<in> set pubs. length pub = public_key_size" by (rule parsed_key_sizes [OF pins(2)])
  ultimately have v: "verify_any L pubs wire (in_host (sg_intent x)) (sc_now c) = Inr ?e"
    using verify_signed [OF lib(1,2) sig' _ utf8] pins(3) key call(3,4) by blast
  have "\<not> only_space wire"
    using ne by (simp add: only_space_def plain_ascii_trim [OF sealed_wire_plain [OF lib(2) sig']])
  then have "fst (shim_main L c m) = Inr (ev_command ?e, ?e)"
    by (intro shim_accepts [where raw = raw and pubs = pubs and host = "in_host (sg_intent x)"])
      (use call pins v dir seals(2) in \<open>simp_all add: hex_nonce_re\<close>)
  then show ?thesis by simp
qed

text \<open>
  C37: what the signer seals runs. If a call of the signer sealed a command, then a start of the shim on that
  host within 30 seconds, with the signer's key among its pinned keys, a nonce not used before and a
  working nonce directory, runs exactly that command.
\<close>

theorem sealed_command_runs:
  assumes lib: "signing_ok L" "wire_ok L" "se_sealed (sg_env x) = L"
    and seals: "sealed_by_call x = Some (q, wire)" "length (is_nonce q) = 16"
    and utf8: "valid_utf8 (in_host (sg_intent x))" "valid_utf8 (final_command x)"
    and call: "sc_args c = [in_host (sg_intent x)]" "sc_wire c = wire"
      "se_now (sg_env x) \<le> sc_now c" "sc_now c \<le> se_now (sg_env x) + SealedDefaultTTL"
    and pins: "os_key_file (sc_os c) = Some raw" "parse_public_keys L raw = Inr pubs"
      "\<forall>key. ls_envelope_key (sg_signer x) = Some key \<longrightarrow> ed_public L key \<in> set pubs"
    and dir: "go_map_inv m" "\<not> map_has m (hex_encode (is_nonce q))"
      "os_mkdir_ok (sc_os c)" "os_open_ok (sc_os c)" "os_close_ok (sc_os c)"
  shows "\<exists>e. fst (shim_main L c m) = Inr (final_command x, e)"
proof -
  from seals(1) obtain key where "ls_envelope_key (sg_signer x) = Some key" by (rule sealed_by_call_Some)
  from sealed_opens [OF assms this] show ?thesis by blast
qed

section \<open>Witnesses\<close>

definition example_sealing :: signer_call where
  "example_sealing = \<lparr>sg_env = example_sign_env example_env, sg_signer = example_signer, sg_intent = example_preflight\<rparr>"

definition vault_envelope :: envelope where
  "vault_envelope = sealed_envelope_of example_lib example_key (replicate 16 CHR ''n'') ''vault'' ''ls -l'' SealedDefaultTTL 0"

definition vault_issued :: issued where
  "vault_issued = \<lparr>is_nonce = replicate 16 CHR ''n'', is_host = ''vault'', is_command = ''ls -l'', is_ttl = SealedDefaultTTL, is_now = 0\<rparr>"

definition vault_call :: shim_call where
  "vault_call = \<lparr>sc_args = [''vault''], sc_wire = b64url_encode example_lib (env_marshal example_lib vault_envelope),
     sc_now = 10 * go_second, sc_os = example_os\<rparr>"

lemma example_sealing_simps [simp]:
  "sg_signer example_sealing = example_signer" "sg_env example_sealing = example_sign_env example_env"
  "sg_intent example_sealing = example_preflight"
  "se_sealed (example_sign_env E) = example_lib" "se_now (example_sign_env E) = 0" "se_env (example_sign_env E) = E"
  "se_nonce (example_sign_env E) = Some (replicate 16 CHR ''n'')"
  "ls_envelope_key example_signer = Some example_key" "in_host example_preflight = ''vault''"
  by (simp_all add: example_sealing_def example_sign_env_def example_signer_def example_preflight_def plain_intent_def)

lemma example_final_command: "final_command example_sealing = ''ls -l''"
proof -
  have "de_elevation_prefix (fst (resolve example_env example_table (300 * go_second) None example_preflight 0)) = []"
    "in_command example_preflight = ''ls -l''" by code_simp+
  moreover have "ls_policy example_signer = example_table" "ls_default_ttl example_signer = 300 * go_second"
    "ls_grants example_signer = None" by (simp_all add: example_signer_def)
  ultimately show ?thesis unfolding final_command_def call_decision_def example_sealing_simps by simp
qed

lemma example_sealed_by_call: "sealed_by_call example_sealing = Some (vault_issued, sc_wire vault_call)"
proof -
  obtain iu where iu: "sign_intent (example_sign_env example_env) example_signer example_preflight = (Some iu, None)"
    "iu_envelope iu \<noteq> []" by (rule example_sealed_envelope)
  then have s: "sealed_by_call example_sealing = Some (vault_issued, iu_envelope iu)"
    by (simp add: sealed_by_call_def vault_issued_def example_final_command)
  then obtain key where "ls_envelope_key (sg_signer example_sealing) = Some key"
    and "sealed_sign (se_sealed (sg_env example_sealing)) key (Some (is_nonce vault_issued)) (is_host vault_issued)
      (is_command vault_issued) (is_ttl vault_issued) (is_now vault_issued) = Inr (iu_envelope iu)"
    by (rule sealed_by_call_Some)
  then have "iu_envelope iu = sc_wire vault_call"
    by (auto elim!: sealed_sign_Inr simp: vault_issued_def vault_call_def vault_envelope_def sealed_envelope_of_def)
  with s show ?thesis by simp
qed

lemma vault_setup:
  "sc_args vault_call = [in_host (sg_intent example_sealing)]" "se_now (sg_env example_sealing) \<le> sc_now vault_call"
  "sc_now vault_call \<le> se_now (sg_env example_sealing) + SealedDefaultTTL" "length (is_nonce vault_issued) = 16"
  "valid_utf8 (in_host (sg_intent example_sealing))" "valid_utf8 (final_command example_sealing)"
  "os_key_file (sc_os vault_call) = Some (hex_encode (take 32 example_key))"
  "\<forall>key. ls_envelope_key (sg_signer example_sealing) = Some key \<longrightarrow> ed_public example_lib key \<in> set [take 32 example_key]"
  "os_mkdir_ok (sc_os vault_call)" "os_open_ok (sc_os vault_call)" "os_close_ok (sc_os vault_call)"
  by (simp_all add: vault_call_def SealedDefaultTTL_def vault_issued_def example_final_command example_os_def
      example_lib_def in_range_def)

lemma vault_runs: "fst (shim_main example_lib vault_call []) = Inr (''ls -l'', vault_envelope)"
  using sealed_opens [OF example_signing_ok example_wire_ok _ example_sealed_by_call vault_setup(4-6,1) refl vault_setup(2,3,7)
      example_pins vault_setup(8) go_map_inv_Nil _ vault_setup(9-11), of example_key]
  by (simp add: example_final_command vault_envelope_def vault_issued_def)

theorem sealed_command_runs_witness: "\<exists>e. fst (shim_main example_lib vault_call []) = Inr (''ls -l'', e)"
  using sealed_command_runs [OF example_signing_ok example_wire_ok _ example_sealed_by_call vault_setup(4-6,1) refl vault_setup(2,3,7)
      example_pins vault_setup(8) go_map_inv_Nil _ vault_setup(9-11)]
  by (simp add: example_final_command)

theorem sealed_exec_end_to_end_witness:
  "\<exists>hp d. map_of (ls_policy example_signer) ''vault'' = Some hp \<and> hp_sealed_exec hp \<and> ''ls -l'' = final_command example_sealing
     \<and> call_decision example_sealing = (d, None) \<and> \<not> de_require_approval d"
proof -
  obtain m' where ran: "shim_main example_lib vault_call [] = (Inr (''ls -l'', vault_envelope), m')"
    using vault_runs by (cases "shim_main example_lib vault_call []") auto
  have bytes: "signed_bytes vault_envelope = signed_bytes (issued_envelope vault_issued)"
    by (simp add: signed_bytes_def vault_envelope_def issued_envelope_def vault_issued_def mint_envelope_def)
  have go: "go_envelope vault_envelope" "go_envelope (issued_envelope vault_issued)"
    by (simp_all add: go_envelope_def go_string_def vault_envelope_def issued_envelope_def vault_issued_def
        mint_envelope_def length_hex_encode unix_seconds_def int_decimal_def nat_decimal.simps SealedDefaultTTL_def)
  have honest: "unforged example_lib (pinned_keys example_lib vault_call) [vault_issued] vault_envelope"
    by (simp add: unforged_def bytes)
  have log: "\<forall>q \<in> set [vault_issued]. go_envelope (issued_envelope q)
      \<and> (\<exists>x \<in> set [example_sealing]. \<exists>wire. se_sealed (sg_env x) = example_lib \<and> sealed_by_call x = Some (q, wire))"
    using go(2) example_sealed_by_call by simp
  from sealed_exec_end_to_end [OF ran go(1) honest log] show ?thesis by auto
qed

end
